(* ===== verification/Libelf_Prelude.thy ===== *)
theory Libelf_Prelude
  imports Main "HOL-Library.Word" "HOL-Library.Monad_Syntax"
begin

unbundle bit_operations_syntax

text \<open>
  The vocabulary shared by every component: fixed-width types, byte order, and the
  generic facts on lists, options and words that carry the component proofs.
\<close>

type_synonym byte = "8 word"
type_synonym u16 = "16 word"
type_synonym u32 = "32 word"
type_synonym u64 = "64 word"

text \<open>The collections used by the components: what unfolds a state operation, and
  what is known about object representations.\<close>

named_theorems state_simps
named_theorems repr_simps

section \<open>Options as computations that may fault\<close>

lemma bind_Some_iff [simp]:
  "(Option.bind m f = Some y) \<longleftrightarrow> (\<exists>x. m = Some x \<and> f x = Some y)"
  by (cases m) auto

lemma bind_None_iff [simp]:
  "(Option.bind m f = None) \<longleftrightarrow> (m = None \<or> (\<exists>x. m = Some x \<and> f x = None))"
  by (cases m) auto

definition assert_that :: "bool \<Rightarrow> unit option" where
  "assert_that b = (if b then Some () else None)"

lemma assert_that_simps [simp]:
  "assert_that True = Some ()"
  "assert_that False = None"
  "(assert_that b = Some u) = b"
  "(assert_that b = None) = (\<not> b)"
  by (auto simp: assert_that_def)

section \<open>Object representations of unsigned integers\<close>

definition word_of_le :: "byte list \<Rightarrow> 'a::len word" where
  "word_of_le bs = foldr (\<lambda>b w. push_bit 8 w OR ucast b) bs 0"

definition le_of_word :: "nat \<Rightarrow> 'a::len word \<Rightarrow> byte list" where
  "le_of_word n w = map (\<lambda>i. ucast (drop_bit (8 * i) w)) [0..<n]"

lemma length_le_of_word [simp]: "length (le_of_word n w) = n"
  by (simp add: le_of_word_def)

lemma word_of_le_Nil [simp]: "word_of_le [] = 0"
  by (simp add: word_of_le_def)

lemma word_of_le_Cons: "word_of_le (b # bs) = push_bit 8 (word_of_le bs) OR ucast b"
  by (simp add: word_of_le_def)

lemma bit_word_of_le:
  "bit (word_of_le bs :: 'a::len word) i \<longleftrightarrow>
     i < LENGTH('a) \<and> i < 8 * length bs \<and> bit (bs ! (i div 8)) (i mod 8)"
proof (induction bs arbitrary: i)
  case Nil
  then show ?case by simp
next
  case (Cons b bs)
  have shift: "(i - 8) div 8 = i div 8 - 1" "(i - 8) mod 8 = i mod 8" if "8 \<le> i"
    using that by (simp_all add: le_div_geq le_mod_geq)
  show ?case
    by (cases "i < 8")
      (auto simp: word_of_le_Cons bit_simps Cons.IH shift nth_Cons' div_eq_0_iff
        dest: bit_imp_le_length)
qed

lemma bit_le_of_word:
  "j < n \<Longrightarrow> bit (le_of_word n w ! j) k \<longleftrightarrow> k < 8 \<and> bit w (8 * j + k)"
  by (auto simp: le_of_word_def bit_simps)

lemma word_of_le_of_word [repr_simps]:
  assumes "LENGTH('a) \<le> 8 * n"
  shows "word_of_le (le_of_word n w) = (w :: 'a::len word)"
proof (rule bit_word_eqI)
  fix i assume i: "i < LENGTH('a)"
  then have "i div 8 < n" using assms by auto
  moreover have "8 * (i div 8) + i mod 8 = i" by simp
  ultimately show "bit (word_of_le (le_of_word n w) :: 'a word) i = bit w i"
    using assms i by (simp add: bit_word_of_le bit_le_of_word)
qed

lemma le_of_word_of_le [repr_simps]:
  assumes "length bs = n" and "8 * n \<le> LENGTH('a)"
  shows "le_of_word n (word_of_le bs :: 'a::len word) = bs"
proof (rule nth_equalityI)
  show "length (le_of_word n (word_of_le bs :: 'a word)) = length bs" using assms by simp
next
  fix j assume "j < length (le_of_word n (word_of_le bs :: 'a word))"
  then have j: "j < n" by simp
  show "le_of_word n (word_of_le bs :: 'a word) ! j = bs ! j"
  proof (rule bit_word_eqI)
    fix k assume "k < LENGTH(8)"
    then have k: "k < 8" by simp
    then have "8 * j + k < 8 * n" using j by simp
    then show "bit (le_of_word n (word_of_le bs :: 'a word) ! j) k = bit (bs ! j) k"
      using assms j k by (simp add: bit_le_of_word bit_word_of_le)
  qed
qed

section \<open>Words\<close>

lemma uint_ge_1: "w \<noteq> 0 \<Longrightarrow> 1 \<le> uint (w :: 'a::len word)"
  by (simp add: word_neq_0_conv word_less_def)

lemma unat_u64_less: "unat (w :: u64) < 2 ^ 64"
  using unsigned_less [of w] by simp

lemma unat_u32_less: "unat (w :: u32) < 2 ^ 32"
  using unsigned_less [of w] by simp

lemma unat_ucast_u32_u64: "unat (ucast (x :: u32) :: u64) = unat x"
proof -
  have "unat x < 2 ^ 64" using unat_u32_less [of x] by simp
  then show ?thesis by (simp add: unsigned_ucast_eq take_bit_nat_eq_self)
qed

lemma ucast_u32_u64_0: "(ucast (x :: u32) :: u64) = 0 \<longleftrightarrow> x = 0"
  using unat_ucast_u32_u64 [of x] by (metis unat_eq_zero)

lemma ucast_u32_add: "ucast (a + b :: u64) = (ucast a + ucast b :: u32)"
  by (simp add: word_unat_eq_iff unsigned_ucast_eq unat_word_ariths take_bit_eq_mod mod_mod_cancel mod_add_eq)

lemma ucast_u32_mult: "ucast (a * b :: u64) = (ucast a * ucast b :: u32)"
  by (simp add: word_unat_eq_iff unsigned_ucast_eq unat_word_ariths take_bit_eq_mod mod_mod_cancel mod_mult_eq)

lemma unat_byte_less: "unat (w :: byte) < 256"
  using unsigned_less [of w] by simp

lemma unat_ucast_byte_u64: "unat (ucast (x :: byte) :: u64) = unat x"
proof -
  have "unat x < 2 ^ 64" using unat_byte_less [of x] by simp
  then show ?thesis by (simp add: unsigned_ucast_eq take_bit_nat_eq_self)
qed

lemma unat_add_small: "unat a + unat b < 2 ^ 64 \<Longrightarrow> unat (a + b :: u64) = unat a + unat b"
  by (simp add: unat_plus_if_size word_size)

lemma unat_of_nat_u64: "n < 2 ^ 64 \<Longrightarrow> unat (of_nat n :: u64) = n"
  by (simp add: unat_of_nat take_bit_nat_eq_self)

lemma sint_small: "unat (a :: u64) < 2 ^ 63 \<Longrightarrow> sint a = int (unat a)"
proof -
  assume "unat a < 2 ^ 63"
  then have "int (unat a) < 2 ^ 63" by (metis of_nat_less_iff of_nat_numeral of_nat_power)
  moreover have "sint a = signed_take_bit 63 (int (unat a))" unfolding sint_uint by simp
  ultimately show ?thesis by (simp only: signed_take_bit_int_eq_self)
qed

end
