(* ===== verification/Elf_Hash.thy ===== *)
theory Elf_Hash
  imports Libelf_Prelude
begin

text \<open>
  The symbol hash of the System V ABI, as the two libraries of the repository compute it:
  \<open>elf_hash.c\<close> of elftoolchain, and \<open>dl-hash.h\<close> of elfutils, whose \<open>elf_hash\<close> calls
  \<open>_dl_elf_hash\<close>.  A C string is the list of its bytes; the list may go on after
  the terminating NUL, and the end of the list counts as the NUL.
\<close>

section \<open>Definitions\<close>

fun elf_hash_loop :: "byte list \<Rightarrow> u64 \<Rightarrow> u64" where
  "elf_hash_loop [] h = h"
| "elf_hash_loop (c # s) h =
     (if c = 0 then h
      else
        let h = push_bit 4 h + ucast c;
            t = h AND 0xF0000000;
            h = (if t \<noteq> 0 then h XOR drop_bit 24 t else h);
            h = h AND NOT t
        in elf_hash_loop s h)"

definition elf_hash :: "byte list \<Rightarrow> u64" where
  "elf_hash name = elf_hash_loop name 0"

definition char_at :: "byte list \<Rightarrow> nat \<Rightarrow> byte" where
  "char_at s i = (if i < length s then s ! i else 0)"

fun dl_elf_hash_loop :: "byte list \<Rightarrow> u64 \<Rightarrow> u64" where
  "dl_elf_hash_loop [] hash = hash"
| "dl_elf_hash_loop (c # s) hash =
     (if c = 0 then hash
      else
        let hash = push_bit 4 hash + ucast c;
            hi = hash AND 0xf0000000
        in dl_elf_hash_loop s (hash XOR drop_bit 24 hi))"

definition dl_elf_hash :: "byte list \<Rightarrow> u64" where
  "dl_elf_hash name =
     (let hash = ucast (char_at name 0)
      in if hash \<noteq> 0 \<and> char_at name 1 \<noteq> 0 then
           let hash = push_bit 4 hash + ucast (char_at name 1)
           in if char_at name 2 \<noteq> 0 then
                let hash = push_bit 4 hash + ucast (char_at name 2)
                in if char_at name 3 \<noteq> 0 then
                     let hash = push_bit 4 hash + ucast (char_at name 3)
                     in if char_at name 4 \<noteq> 0 then
                          let hash = push_bit 4 hash + ucast (char_at name 4)
                          in dl_elf_hash_loop (drop 5 name) hash AND 0x0fffffff
                        else hash
                   else hash
              else hash
         else hash)"

text \<open>The hash of the GNU symbol table, \<open>elf_gnu_hash.c\<close>; \<open>uint_fast32_t\<close> has 64 bits.\<close>

fun elf_gnu_hash_loop :: "byte list \<Rightarrow> u64 \<Rightarrow> u64" where
  "elf_gnu_hash_loop [] h = h"
| "elf_gnu_hash_loop (c # s) h = (if c = 0 then h else elf_gnu_hash_loop s (h * 33 + ucast c))"

definition elf_gnu_hash :: "byte list \<Rightarrow> u64" where
  "elf_gnu_hash string = elf_gnu_hash_loop string 5381 AND 0xffffffff"

section \<open>One step of either loop\<close>

definition top4 :: "u64 \<Rightarrow> u64" where
  "top4 x = x AND 0xF0000000"

definition hash_step :: "u64 \<Rightarrow> byte \<Rightarrow> u64" where
  "hash_step h c =
     (let x = push_bit 4 h + ucast c in (x XOR drop_bit 24 (top4 x)) AND NOT (top4 x))"

definition dl_step :: "u64 \<Rightarrow> byte \<Rightarrow> u64" where
  "dl_step h c = (let x = push_bit 4 h + ucast c in x XOR drop_bit 24 (top4 x))"

lemma elf_hash_loop_Cons:
  assumes "c \<noteq> 0"
  shows "elf_hash_loop (c # s) h = elf_hash_loop s (hash_step h c)"
proof -
  have "(if t \<noteq> 0 then x XOR drop_bit 24 t else x) = x XOR drop_bit 24 t" for t x :: u64
    by simp
  then show ?thesis
    using assms by (simp only: elf_hash_loop.simps if_False Let_def hash_step_def top4_def)
qed

lemma dl_elf_hash_loop_Cons:
  "c \<noteq> 0 \<Longrightarrow> dl_elf_hash_loop (c # s) h = dl_elf_hash_loop s (dl_step h c)"
  by (simp only: dl_elf_hash_loop.simps if_False Let_def dl_step_def top4_def)

lemma low_mask: "(0x0FFFFFFF :: u64) = mask 28"
  by (simp add: mask_eq_exp_minus_1)

lemma bit_top4: "bit (top4 x) n \<longleftrightarrow> 28 \<le> n \<and> n < 32 \<and> bit x n"
proof -
  have "(0xF0000000 :: u64) = mask 32 AND NOT (mask 28)"
    by (simp add: mask_eq_exp_minus_1)
  then have "top4 x = x AND (mask 32 AND NOT (mask 28))" by (simp only: top4_def)
  then show ?thesis
    by (auto simp add: bit_and_iff bit_not_iff bit_mask_iff simp del: mask_numeral)
qed

lemma hash_step_low: "take_bit 28 (hash_step h c) = take_bit 28 (dl_step h c)"
  by (rule bit_word_eqI)
    (auto simp: hash_step_def dl_step_def Let_def bit_take_bit_iff bit_and_iff bit_not_iff
      bit_top4 simp del: take_bit_and take_bit_xor)

lemma take_bit_add_cong:
  assumes "take_bit 32 a = take_bit 32 (a' :: u64)"
  shows "take_bit 32 (a + b) = take_bit 32 (a' + b)"
proof -
  have split: "unat (x + b) mod 2 ^ 32 = (unat x mod 2 ^ 32 + unat b) mod 2 ^ 32" for x :: u64
    unfolding unat_word_ariths by (simp add: mod_mod_cancel mod_simps)
  have "unat a mod 2 ^ 32 = unat a' mod 2 ^ 32"
    using arg_cong [OF assms, of unat]
    by (simp only: unsigned_take_bit_eq [of 32 a] unsigned_take_bit_eq [of 32 a'])
      (simp only: take_bit_eq_mod)
  then show ?thesis
    by (simp only: word_unat_eq_iff unsigned_take_bit_eq) (simp only: take_bit_eq_mod split)
qed

lemma shift_in_low:
  assumes "take_bit 28 h = take_bit 28 (h' :: u64)"
  shows "take_bit 32 (push_bit 4 h + ucast (c :: byte)) = take_bit 32 (push_bit 4 h' + ucast c)"
proof -
  have bits: "bit h n = bit h' n" if "n < 28" for n
    using arg_cong [OF assms, of "\<lambda>w. bit w n"] that by (simp only: bit_take_bit_iff) simp
  have "take_bit 32 (push_bit 4 h) = take_bit 32 (push_bit 4 h')"
    by (rule bit_word_eqI)
      (auto simp: bit_take_bit_iff bit_push_bit_iff bits simp del: take_bit_push_bit)
  then show ?thesis by (rule take_bit_add_cong)
qed

lemma dl_step_cong:
  assumes "take_bit 28 h = take_bit 28 h'"
  shows "take_bit 28 (dl_step h c) = take_bit 28 (dl_step h' c)"
proof -
  define x where "x = (push_bit 4 h + ucast c :: u64)"
  define y where "y = (push_bit 4 h' + ucast c :: u64)"
  have "take_bit 32 x = take_bit 32 y"
    unfolding x_def y_def by (rule shift_in_low [OF assms])
  then have xy: "bit x n = bit y n" if "n < 32" for n
    using that by (metis bit_take_bit_iff)
  show ?thesis
    unfolding dl_step_def Let_def x_def [symmetric] y_def [symmetric]
    by (rule bit_word_eqI)
      (auto simp: bit_take_bit_iff bit_xor_iff bit_drop_bit_eq bit_top4 xy
        simp del: take_bit_xor)
qed

lemma loops_agree:
  assumes "take_bit 28 h = take_bit 28 h'"
  shows "take_bit 28 (elf_hash_loop s h) = take_bit 28 (dl_elf_hash_loop s h')"
  using assms
proof (induction s arbitrary: h h')
  case (Cons c s)
  show ?case
  proof (cases "c = 0")
    case False
    have "take_bit 28 (hash_step h c) = take_bit 28 (dl_step h' c)"
      using hash_step_low dl_step_cong [OF Cons.prems] by simp
    then show ?thesis
      unfolding elf_hash_loop_Cons [OF False] dl_elf_hash_loop_Cons [OF False] by (rule Cons.IH)
  qed (use Cons.prems in simp)
qed simp

text \<open>Bits 28 to 31 of the result are clear.\<close>

lemma hash_step_top4: "top4 (hash_step h c) = 0"
  by (rule bit_word_eqI)
    (auto simp: bit_top4 hash_step_def Let_def bit_and_iff bit_not_iff bit_xor_iff bit_drop_bit_eq)

lemma elf_hash_loop_top4: "top4 h = 0 \<Longrightarrow> top4 (elf_hash_loop s h) = 0"
proof (induction s arbitrary: h)
  case (Cons c s)
  show ?case
  proof (cases "c = 0")
    case False
    show ?thesis unfolding elf_hash_loop_Cons [OF False] by (rule Cons.IH [OF hash_step_top4])
  qed (use Cons.prems in simp)
qed simp

text \<open>While the hash is small, a step only shifts in a character.\<close>

lemma dl_step_small:
  assumes "unat h < 2 ^ 23"
  shows "dl_step h c = push_bit 4 h + ucast c" "unat (push_bit 4 h + ucast c :: u64) = 16 * unat h + unat c"
proof -
  have c: "unat (ucast c :: u64) = unat c" "unat c < 256"
    by (simp_all add: unat_ucast_byte_u64 unat_byte_less)
  have "unat (push_bit 4 h) = 16 * unat h"
    using assms by (simp add: push_bit_eq_mult unat_word_ariths)
  then show sum: "unat (push_bit 4 h + ucast c :: u64) = 16 * unat h + unat c"
    using assms c by (simp add: unat_word_ariths)
  then have "unat (push_bit 4 h + ucast c :: u64) < 2 ^ 28" using assms c(2) by simp
  then have "take_bit 28 (push_bit 4 h + ucast c :: u64) = push_bit 4 h + ucast c"
    by (simp add: word_unat_eq_iff unsigned_take_bit_eq take_bit_nat_eq_self)
  then have "\<not> bit (push_bit 4 h + ucast c :: u64) n" if "28 \<le> n" for n
    using that by (metis bit_take_bit_iff not_less)
  then have "top4 (push_bit 4 h + ucast c) = 0"
    by (intro bit_word_eqI) (auto simp: bit_top4)
  then show "dl_step h c = push_bit 4 h + ucast c" by (simp add: dl_step_def Let_def)
qed

lemma char_at_simps [simp]:
  "char_at [] i = 0" "char_at (c # s) 0 = c" "char_at (c # s) (Suc i) = char_at s i"
  by (simp_all add: char_at_def)

lemma char_at_numeral [simp]:
  "char_at (c # s) 1 = char_at s 0" "char_at (c # s) (numeral n) = char_at s (pred_numeral n)"
  by (simp_all add: char_at_def numeral_eq_Suc)

lemma and_low_small:
  assumes "unat x < 2 ^ 28"
  shows "x AND 0x0fffffff = (x :: u64)"
proof -
  have "take_bit 28 x = x"
    using assms by (simp add: word_unat_eq_iff unsigned_take_bit_eq take_bit_nat_eq_self)
  then show ?thesis unfolding low_mask by (simp only: take_bit_eq_mask)
qed

text \<open>The unrolled start of \<open>_dl_elf_hash\<close> is the loop on the first five characters.\<close>

lemma unrolled_level:
  assumes "unat h < 2 ^ 23"
  shows "(if char_at s i \<noteq> 0
      then dl_elf_hash_loop (drop (Suc i) s) (push_bit 4 h + ucast (char_at s i)) AND 0x0fffffff
      else h) = dl_elf_hash_loop (drop i s) h AND 0x0fffffff"
proof (cases "char_at s i = 0")
  case True
  then have "dl_elf_hash_loop (drop i s) h = h"
    by (cases "drop i s") (auto simp: char_at_def nth_via_drop split: if_splits
      dest: arg_cong [where f = length])
  moreover have "h AND 0x0fffffff = h" using assms by (intro and_low_small) simp
  ultimately show ?thesis using True by simp
next
  case False
  then have "i < length s" by (simp add: char_at_def split: if_splits)
  then have "drop i s = char_at s i # drop (Suc i) s"
    by (simp add: char_at_def Cons_nth_drop_Suc)
  then have "dl_elf_hash_loop (drop i s) h = dl_elf_hash_loop (drop (Suc i) s) (dl_step h (char_at s i))"
    using dl_elf_hash_loop_Cons [OF False] by metis
  then show ?thesis using False by (simp only: dl_step_small(1) [OF assms] if_True not_False_eq_True)
qed

lemma dl_elf_hash_eq_loop: "dl_elf_hash s = dl_elf_hash_loop s 0 AND 0x0fffffff"
proof -
  define h1 where "h1 = (ucast (char_at s 0) :: u64)"
  define h2 where "h2 = (push_bit 4 h1 + ucast (char_at s 1) :: u64)"
  define h3 where "h3 = (push_bit 4 h2 + ucast (char_at s 2) :: u64)"
  define h4 where "h4 = (push_bit 4 h3 + ucast (char_at s 3) :: u64)"
  have h1: "unat h1 < 256" by (simp add: h1_def unat_ucast_byte_u64 unat_byte_less)
  have h2: "unat h2 < 16 * 256 + 256"
    using h1 dl_step_small(2) [of h1 "char_at s 1"] unat_byte_less [of "char_at s 1"] by (simp add: h2_def)
  have h3: "unat h3 < 16 * 16 * 256 + 16 * 256 + 256"
    using h2 dl_step_small(2) [of h2 "char_at s 2"] unat_byte_less [of "char_at s 2"] by (simp add: h3_def)
  have h4: "unat h4 < 2 ^ 20 + 2 ^ 17"
    using h3 dl_step_small(2) [of h3 "char_at s 3"] unat_byte_less [of "char_at s 3"] by (simp add: h4_def)
  have bounds: "unat h1 < 2 ^ 23" "unat h2 < 2 ^ 23" "unat h3 < 2 ^ 23" "unat h4 < 2 ^ 23"
    using h1 h2 h3 h4 by simp_all
  note levels = unrolled_level [OF bounds(1), of s 1, folded h2_def]
    unrolled_level [OF bounds(2), of s 2, folded h3_def]
    unrolled_level [OF bounds(3), of s 3, folded h4_def] unrolled_level [OF bounds(4), of s 4]
  have first: "dl_elf_hash_loop s 0 AND 0x0fffffff =
    (if char_at s 0 \<noteq> 0 then dl_elf_hash_loop (drop 1 s) h1 AND 0x0fffffff else 0)"
    using unrolled_level [of 0 s 0] by (cases "char_at s 0 = 0") (simp_all add: h1_def)
  have h1_0: "(h1 = 0) = (char_at s 0 = 0)"
    by (simp add: h1_def unat_ucast_byte_u64 flip: unat_eq_zero)
  have num: "(2 :: nat) = Suc 1" "(3 :: nat) = Suc 2" "(4 :: nat) = Suc 3" "(5 :: nat) = Suc 4"
    by simp_all
  have "dl_elf_hash s = (if char_at s 0 \<noteq> 0 \<and> char_at s 1 \<noteq> 0
      then dl_elf_hash_loop (drop 2 s) h2 AND 0x0fffffff else h1)"
    unfolding dl_elf_hash_def Let_def h1_def [symmetric] h2_def [symmetric] h3_def [symmetric]
      h4_def [symmetric] h1_0
    using levels(2-4) by (simp only: num(2-4) [symmetric])
  also have "\<dots> = (if char_at s 0 \<noteq> 0 then dl_elf_hash_loop (drop 1 s) h1 AND 0x0fffffff else 0)"
    using levels(1) h1_0 by (auto simp: numeral_2_eq_2)
  finally show ?thesis using first by simp
qed

text \<open>
  C4. The two libraries agree: the hash of elfutils is the low 28 bits of the hash of
  elftoolchain, for every string.
\<close>

theorem dl_elf_hash_is_low_elf_hash: "dl_elf_hash s = elf_hash s AND 0x0fffffff"
proof -
  have "take_bit 28 (elf_hash_loop s 0) = take_bit 28 (dl_elf_hash_loop s 0)"
    by (rule loops_agree) (rule refl)
  moreover have "x AND 0x0fffffff = take_bit 28 x" for x :: u64
    unfolding low_mask by (rule take_bit_eq_mask [symmetric])
  ultimately show ?thesis by (simp only: dl_elf_hash_eq_loop elf_hash_def)
qed

text \<open>
  Whatever the string, bits 28 to 31 of the hash are clear, as the ABI's formula
  intends; but the accumulator has 64 bits, and a carry out of bit 31 survives in the
  result, so it is not always a 28-bit value.
\<close>

lemma elf_hash_high_bits:
  "elf_hash s AND 0xF0000000 = 0
    \<and> elf_hash [0xff, 0x0f, 0x0f, 0x0f, 0x0f, 0x0f, 0x12] = 0x100000002"
proof -
  have "top4 (elf_hash s) = 0" unfolding elf_hash_def by (rule elf_hash_loop_top4) (simp add: top4_def)
  moreover have "elf_hash [0xff, 0x0f, 0x0f, 0x0f, 0x0f, 0x0f, 0x12] = 0x100000002"
    by (simp del: elf_hash_loop.simps(2) add: elf_hash_def elf_hash_loop_Cons hash_step_def top4_def)
  ultimately show ?thesis by (simp add: top4_def)
qed

section \<open>The GNU hash\<close>

text \<open>
  The mask at the end makes up for the width of the accumulator: the result is the hash that is
  computed with 32 bits throughout.
\<close>

lemma elf_gnu_hash_is_djb2:
  "elf_gnu_hash s = ucast (fold (\<lambda>c h. h * 33 + ucast c) (takeWhile (\<lambda>c. c \<noteq> 0) s) (5381 :: u32))"
proof -
  have low: "ucast (elf_gnu_hash_loop s h) = fold (\<lambda>c h. h * 33 + ucast c) (takeWhile (\<lambda>c. c \<noteq> 0) s) (ucast h :: u32)" for h
  proof (induction s arbitrary: h)
    case (Cons c s)
    have "ucast (ucast c :: u64) = (ucast c :: u32)" by (auto simp: bit_eq_iff bit_simps dest: bit_imp_le_length)
    then have "ucast (h * 33 + ucast c :: u64) = (ucast h * 33 + ucast c :: u32)"
      by (simp only: ucast_u32_add ucast_u32_mult) simp
    then show ?case using Cons by simp
  qed simp
  have "x AND 0xffffffff = ucast (ucast x :: u32)" for x :: u64
  proof -
    have "x AND 0xffffffff = take_bit 32 x" by (simp add: take_bit_eq_mask mask_eq_exp_minus_1)
    also have "\<dots> = ucast (ucast x :: u32)" by (auto simp: bit_eq_iff bit_simps)
    finally show ?thesis .
  qed
  then show ?thesis using low [of 5381] by (simp add: elf_gnu_hash_def)
qed

end
