(* ===== verification/Eu_Prime.thy ===== *)
theory Eu_Prime
  imports Libelf_Prelude
begin

text \<open>
  The search for a prime table size, \<open>src/elfutils_libelf/lib/next_prime.c\<close>.
\<close>

section \<open>The code\<close>

text \<open>
  The loop of \<open>is_prime\<close> and the division behind it.  \<open>sq\<close> is the square of \<open>divn\<close> until it no
  longer fits into a \<open>size_t\<close>.
\<close>

partial_function (option) prime_loop :: "u64 \<Rightarrow> u64 \<Rightarrow> u64 \<Rightarrow> bool option" where
  "prime_loop candidate divn sq =
     (if divn = 0 then None
      else if sq < candidate \<and> candidate mod divn \<noteq> 0 then
        let old_sq = sq; divn = divn + 1; sq = sq + 4 * divn
        in if sq < old_sq then Some True else prime_loop candidate (divn + 1) sq
      else Some (candidate mod divn \<noteq> 0))"

definition is_prime :: "u64 \<Rightarrow> bool option" where
  "is_prime candidate = prime_loop candidate 3 (3 * 3)"

partial_function (option) next_prime_loop :: "u64 \<Rightarrow> u64 option" where
  "next_prime_loop seed =
     Option.bind (is_prime seed) (\<lambda>p. if p then Some seed else next_prime_loop (seed + 2))"

definition next_prime :: "u64 \<Rightarrow> u64 option" where
  "next_prime seed = next_prime_loop (seed OR 1)"

section \<open>Primes\<close>

definition prime_nat :: "nat \<Rightarrow> bool" where
  "prime_nat p \<longleftrightarrow> 1 < p \<and> (\<forall>d. d dvd p \<longrightarrow> d = 1 \<or> d = p)"

lemma composite_factor:
  assumes "1 < c" "\<not> prime_nat c"
  shows "\<exists>d. 1 < d \<and> d * d \<le> c \<and> d dvd c"
proof -
  obtain d where d: "d dvd c" "d \<noteq> 1" "d \<noteq> c" using assms by (auto simp: prime_nat_def)
  then obtain e where e: "c = d * e" by (auto elim: dvdE)
  have "d \<noteq> 0" "e \<noteq> 0" using e assms(1) by (auto intro: ccontr)
  moreover have "e \<noteq> 1" using d(3) e by auto
  ultimately have "1 < d" "1 < e" using d(2) by simp_all
  show ?thesis
  proof (cases "d \<le> e")
    case True
    then show ?thesis using \<open>1 < d\<close> d(1) e by (intro exI [of _ d]) simp
  next
    case False
    then show ?thesis using \<open>1 < e\<close> e by (intro exI [of _ e]) simp
  qed
qed

lemma prime_nat_coprime:
  assumes "prime_nat p" "0 < h" "h < p"
  shows "coprime h p"
proof -
  have "gcd h p dvd p" by simp
  then have "gcd h p = 1 \<or> gcd h p = p" using assms(1) by (auto simp: prime_nat_def)
  moreover have "gcd h p \<le> h" using assms(2) by (simp add: gcd_le1_nat)
  ultimately show ?thesis using assms(3) by (auto simp: coprime_iff_gcd_eq_1)
qed

section \<open>The test\<close>

text \<open>No odd number from 3 up to \<open>n\<close> divides \<open>c\<close>.\<close>

definition no_factor :: "nat \<Rightarrow> nat \<Rightarrow> bool" where
  "no_factor n c \<longleftrightarrow> (\<forall>d. 3 \<le> d \<longrightarrow> d < n \<longrightarrow> odd d \<longrightarrow> \<not> d dvd c)"

lemma no_factor_prime:
  assumes "no_factor n c" "c < n * n" "odd c" "1 < c"
  shows "prime_nat c"
proof (rule ccontr)
  assume "\<not> prime_nat c"
  then obtain d where d: "1 < d" "d * d \<le> c" "d dvd c" using composite_factor [OF assms(4)] by blast
  have "odd d" using d(3) assms(3) by (meson dvd_trans)
  then have "3 \<le> d" using d(1) by (cases "d = 2") auto
  moreover have "d < n"
  proof (rule ccontr)
    assume "\<not> d < n"
    then have "n * n \<le> d * d" by (intro mult_le_mono) simp_all
    then show False using d(2) assms(2) by linarith
  qed
  ultimately show False using assms(1) d(3) \<open>odd d\<close> by (auto simp: no_factor_def)
qed

lemma no_factor_step:
  assumes "no_factor n c" "\<not> n dvd c" "odd n"
  shows "no_factor (n + 2) c"
  unfolding no_factor_def
proof (intro allI impI)
  fix d assume d: "3 \<le> d" "d < n + 2" "odd d"
  then have "d < n \<or> d = n" using assms(3) by presburger
  then show "\<not> d dvd c" using d assms by (auto simp: no_factor_def)
qed

lemma prime_loop_correct:
  assumes "unat sq = n * n" "unat divn = n" "odd n" "3 \<le> n" "no_factor n (unat c)" "odd (unat c)" "10 \<le> unat c"
    and "n = 3 \<or> (n - 2) * (n - 2) < unat c"
  shows "prime_loop c divn sq = Some (prime_nat (unat c))"
  using assms
proof (induction "2 ^ 32 - n" arbitrary: n divn sq rule: less_induct)
  case (less n divn sq)
  have n32: "n < 2 ^ 32"
  proof (rule ccontr)
    assume "\<not> n < 2 ^ 32"
    then have "(2 ^ 32) * (2 ^ 32) \<le> n * n" by (intro mult_le_mono) simp_all
    moreover have "unat sq < 2 ^ 64" using unsigned_less [of sq] by simp
    ultimately show False using less.prems(1) by simp
  qed
  have dn: "divn \<noteq> 0" using less.prems(2,4) by auto
  have md: "c mod divn \<noteq> 0 \<longleftrightarrow> \<not> n dvd unat c"
    by (simp add: word_unat_eq_iff unat_mod less.prems(2) dvd_eq_mod_eq_0)
  show ?case
  proof (cases "sq < c \<and> c mod divn \<noteq> 0")
    case False
    have "prime_nat (unat c) \<longleftrightarrow> \<not> n dvd unat c"
    proof
      assume p: "prime_nat (unat c)"
      show "\<not> n dvd unat c"
      proof
        assume "n dvd unat c"
        then have nc: "n = unat c" using p less.prems(4) by (auto simp: prime_nat_def)
        then obtain m where "n = m + 10" using less.prems(7) by (metis add.commute le_Suc_ex)
        then show False using less.prems(8) nc by (simp add: algebra_simps)
      qed
    next
      assume nd: "\<not> n dvd unat c"
      then have "unat c \<le> n * n" using False md less.prems(1) by (simp add: word_less_nat_alt)
      moreover have "unat c \<noteq> n * n" using nd by auto
      ultimately have "unat c < n * n" by simp
      then show "prime_nat (unat c)"
        using less.prems(5-7) by (intro no_factor_prime [of n]) simp_all
    qed
    moreover have "prime_loop c divn sq = Some (c mod divn \<noteq> 0)"
      using False dn by (subst prime_loop.simps) (simp only: if_False)
    ultimately show ?thesis using md by simp
  next
    case True
    have nd: "\<not> n dvd unat c" using True md by blast
    have nf: "no_factor (n + 2) (unat c)" by (rule no_factor_step [OF less.prems(5) nd less.prems(3)])
    have u1: "unat (divn + 1) = n + 1" using less.prems(2) n32 by (subst unat_add_lem [THEN iffD1]) simp_all
    have u4: "unat (4 * (divn + 1)) = 4 * (n + 1)"
      using u1 n32 by (subst unat_mult_lem [THEN iffD1]) simp_all
    have sq2: "unat sq + unat (4 * (divn + 1)) = (n + 2) * (n + 2)" unfolding less.prems(1) u4 by (simp add: algebra_simps)
    show ?thesis
    proof (cases "(n + 2) * (n + 2) < 2 ^ 64")
      case False
      have "sq + 4 * (divn + 1) < sq"
      proof -
        have "unat (sq + 4 * (divn + 1)) = (n + 2) * (n + 2) - 2 ^ 64"
        proof -
          have "(n + 2) * (n + 2) < 2 * 2 ^ 64"
          proof -
            have "unat sq < 2 ^ 64" using unsigned_less [of sq] by simp
            then show ?thesis using sq2 u4 n32 by simp
          qed
          then show ?thesis using False sq2 by (simp add: unat_word_ariths mod_if)
        qed
        then show ?thesis using sq2 u4 n32 False unfolding word_less_nat_alt by simp
      qed
      moreover have "prime_nat (unat c)"
      proof (rule no_factor_prime [OF nf])
        have "unat c < 2 ^ 64" using unsigned_less [of c] by simp
        then show "unat c < (n + 2) * (n + 2)" using False by linarith
      qed (use less.prems(6,7) in simp_all)
      ultimately show ?thesis using True dn by (subst prime_loop.simps) (simp add: Let_def)
    next
      case fits: True
      have us: "unat (sq + 4 * (divn + 1)) = (n + 2) * (n + 2)"
        using fits sq2 by (subst unat_add_lem [THEN iffD1]) simp_all
      have "\<not> sq + 4 * (divn + 1) < sq" unfolding word_less_nat_alt us less.prems(1) by (simp add: algebra_simps)
      moreover have "prime_loop c (divn + 1 + 1) (sq + 4 * (divn + 1)) = Some (prime_nat (unat c))"
      proof (rule less.hyps)
        show "2 ^ 32 - (n + 2) < 2 ^ 32 - n" using n32 by simp
        show "unat (divn + 1 + 1) = n + 2" using u1 n32 by (subst unat_add_lem [THEN iffD1]) simp_all
        show "odd (n + 2)" using less.prems(3) by simp
        show "n + 2 = 3 \<or> (n + 2 - 2) * (n + 2 - 2) < unat c"
          using True less.prems(1) by (simp add: word_less_nat_alt)
      qed (use us nf less.prems in simp_all)
      ultimately show ?thesis using True dn by (subst prime_loop.simps) (simp add: Let_def)
    qed
  qed
qed

lemma is_prime_correct:
  assumes "odd (unat c)" "10 \<le> unat c"
  shows "is_prime c = Some (prime_nat (unat c))"
  unfolding is_prime_def using assms
  by (intro prime_loop_correct [where n = 3]) (auto simp: no_factor_def)

lemma next_prime_loop_correct:
  assumes "odd (unat seed)" "10 \<le> unat seed" "prime_nat p" "unat seed \<le> p" "p < 2 ^ 64"
  shows "\<exists>q. next_prime_loop seed = Some q \<and> prime_nat (unat q) \<and> unat seed \<le> unat q
    \<and> (\<forall>r. prime_nat r \<longrightarrow> unat seed \<le> r \<longrightarrow> unat q \<le> r)"
  using assms
proof (induction "p - unat seed" arbitrary: seed rule: less_induct)
  case (less seed)
  note ip = is_prime_correct [OF less.prems(1,2)]
  show ?case
  proof (cases "prime_nat (unat seed)")
    case True
    then have "next_prime_loop seed = Some seed" using ip by (subst next_prime_loop.simps) simp
    then show ?thesis using True by blast
  next
    case False
    have odd: "odd r" if "prime_nat r" "unat seed \<le> r" for r
    proof
      assume "even r"
      then have "2 = r" using that(1) by (auto simp: prime_nat_def)
      then show False using that(2) less.prems(2) by simp
    qed
    have ge: "unat seed + 2 \<le> r" if "prime_nat r" "unat seed \<le> r" for r
    proof -
      have "r \<noteq> unat seed" using that False by auto
      moreover have "r \<noteq> Suc (unat seed)" using odd [OF that] less.prems(1) by auto
      ultimately show ?thesis using that(2) by simp
    qed
    have p: "unat seed + 2 \<le> p" using ge less.prems(3,4) by blast
    then have u: "unat (seed + 2) = unat seed + 2" using less.prems(5) by (subst unat_add_lem [THEN iffD1]) simp_all
    have "next_prime_loop seed = next_prime_loop (seed + 2)" using False ip by (subst next_prime_loop.simps) simp
    moreover have "\<exists>q. next_prime_loop (seed + 2) = Some q \<and> prime_nat (unat q) \<and> unat (seed + 2) \<le> unat q
        \<and> (\<forall>r. prime_nat r \<longrightarrow> unat (seed + 2) \<le> r \<longrightarrow> unat q \<le> r)"
      by (rule less.hyps) (use p u less.prems in simp_all)
    ultimately show ?thesis unfolding u using ge by fastforce
  qed
qed

lemma or_one_odd: "unat ((x :: u64) OR 1) = (if odd (unat x) then unat x else unat x + 1)"
proof -
  have "unat (x OR 1) = unat x OR 1" by (simp only: unsigned_or_eq unsigned_1)
  also have "\<dots> = unat x + of_bool (even (unat x))" by (rule or_one_eq)
  finally show ?thesis by simp
qed

text \<open>
  C26. \<open>next_prime\<close> returns, and what it returns is the least prime that is not below the seed,
  for every seed of at least 10 above which there is a prime that fits into a \<open>size_t\<close>.
\<close>

theorem next_prime_least:
  assumes "10 \<le> unat seed" "prime_nat p" "unat seed \<le> p" "p < 2 ^ 64"
  shows "\<exists>q. next_prime seed = Some q \<and> prime_nat (unat q) \<and> unat seed \<le> unat q
    \<and> (\<forall>r. prime_nat r \<longrightarrow> unat seed \<le> r \<longrightarrow> unat q \<le> r)"
proof -
  let ?s = "seed OR 1"
  have odd: "odd (unat ?s)" and le: "unat seed \<le> unat ?s" "unat ?s \<le> unat seed + 1" by (auto simp: or_one_odd)
  have "unat ?s \<le> r" if "prime_nat r" "unat seed \<le> r" for r
  proof -
    have "odd r"
    proof
      assume "even r"
      then have "2 = r" using that(1) by (auto simp: prime_nat_def)
      then show False using that(2) assms(1) by simp
    qed
    then show ?thesis using that(2) by (auto simp: or_one_odd le_eq_less_or_eq Suc_le_eq)
  qed
  then show ?thesis
    using next_prime_loop_correct [OF odd _ assms(2) _ assms(4)] assms le(1) unfolding next_prime_def by fastforce
qed

text \<open>Beyond the largest prime of 64 bits the search wraps around and gives 1.\<close>

lemma next_prime_wraps: "next_prime (-1) = Some 1"
proof -
  have "is_prime (-1) = Some False" "is_prime 1 = Some True"
    unfolding is_prime_def by (subst prime_loop.simps, simp)+
  then show ?thesis
    unfolding next_prime_def by (subst next_prime_loop.simps, simp, subst next_prime_loop.simps, simp)
qed

lemma prime_nat_check: "1 < p \<Longrightarrow> list_all (\<lambda>d. \<not> d dvd p) [2..<p] \<Longrightarrow> prime_nat p"
proof -
  assume a: "1 < p" "list_all (\<lambda>d. \<not> d dvd p) [2..<p]"
  have "d = 1 \<or> d = p" if "d dvd p" for d
  proof -
    have "d \<le> p" "d \<noteq> 0" using that a(1) dvd_pos_nat [of p d] by (auto intro: dvd_imp_le)
    then show ?thesis using that a(2) by (cases "d = p"; cases "d = 1") (auto simp: list_all_iff)
  qed
  then show ?thesis using a(1) by (auto simp: prime_nat_def)
qed

theorem next_prime_least_witness:
  "\<exists>q. next_prime 14 = Some q \<and> prime_nat (unat q) \<and> 14 \<le> unat q \<and> unat q \<le> 17"
proof -
  have "prime_nat 17" by (rule prime_nat_check) (simp_all add: upt_rec)
  from next_prime_least [OF _ this, of 14] this show ?thesis by auto
qed

end
