(* ===== verification/Eu_Fshash.thy ===== *)
theory Eu_Fshash
  imports Eu_Prime
begin

text \<open>
  The hash table of fixed size of \<open>src/elfutils_libelf/lib/fixedsizehash.h\<close>: open addressing with
  double hashing in a table whose size is a prime.  The header is a template; its macros
  \<open>TYPE\<close>, \<open>HASHFCT\<close> and \<open>COMPARE\<close> are the type and the parameters of the definitions here.  An
  unused slot has the hash value 0 and an entry of zero bytes, \<open>zero\<close>.
\<close>

section \<open>The code\<close>

record 'a fshashent =
  hval :: u64
  entry :: 'a

record 'a fshash =
  nslots :: u64
  table :: "'a fshashent list"

text \<open>The argument \<open>mem\<close> says whether the allocation succeeds; a size that is refused gives no table.\<close>

definition fshash_init :: "'a \<Rightarrow> bool \<Rightarrow> u64 \<Rightarrow> 'a fshash option option" where
  "fshash_init zero mem nelems =
     (let max_size_t = NOT 0 :: u64
      in if nelems \<ge> (max_size_t div 3) * 2 then Some None
         else
           do { nelems \<leftarrow> next_prime (max ((nelems * 3) div 2) 10);
                Some (if mem
                  then Some \<lparr>nslots = nelems, table = replicate (unat (nelems + 1)) \<lparr>hval = 0, entry = zero\<rparr>\<rparr>
                  else None) })"

definition slot_at :: "'a fshash \<Rightarrow> u64 \<Rightarrow> 'a fshashent option" where
  "slot_at htab idx = (if unat idx < length (table htab) then Some (table htab ! unat idx) else None)"

text \<open>The loop over the slots that the second hash function gives.\<close>

definition next_slot :: "u64 \<Rightarrow> u64 \<Rightarrow> u64 \<Rightarrow> u64" where
  "next_slot n hash idx = (if idx \<le> hash then n + idx - hash else idx - hash)"

partial_function (option) probe ::
  "('a \<Rightarrow> 'a \<Rightarrow> int) \<Rightarrow> 'a fshash \<Rightarrow> u64 \<Rightarrow> 'a \<Rightarrow> u64 \<Rightarrow> u64 \<Rightarrow> u64 option"
where
  "probe cmp htab hv data hash idx =
     (let idx = next_slot (nslots htab) hash idx
      in Option.bind (slot_at htab idx) (\<lambda>s.
           if hval s = hv \<and> cmp data (entry s) = 0 then Some idx
           else if hval s \<noteq> 0 then probe cmp htab hv data hash idx
           else Some idx))"

definition fshash_lookup :: "('a \<Rightarrow> 'a \<Rightarrow> int) \<Rightarrow> 'a fshash \<Rightarrow> u64 \<Rightarrow> 'a \<Rightarrow> u64 option" where
  "fshash_lookup cmp htab hv data =
     do { assert_that (nslots htab \<noteq> 0);
          let idx = 1 + hv mod nslots htab;
          s \<leftarrow> slot_at htab idx;
          if hval s \<noteq> 0 then
            (if hval s = hv \<and> cmp data (entry s) = 0 then Some idx
             else do { assert_that (nslots htab - 2 \<noteq> 0);
                       probe cmp htab hv data (1 + hv mod (nslots htab - 2)) idx })
          else Some idx }"

definition set_slot :: "'a fshash \<Rightarrow> u64 \<Rightarrow> u64 \<Rightarrow> 'a \<Rightarrow> 'a fshash" where
  "set_slot htab idx hv data = htab\<lparr>table := (table htab)[unat idx := \<lparr>hval = hv, entry = data\<rparr>]\<rparr>"

definition fshash_insert_hash ::
  "('a \<Rightarrow> 'a \<Rightarrow> int) \<Rightarrow> 'a fshash \<Rightarrow> u64 \<Rightarrow> 'a \<Rightarrow> (int \<times> 'a fshash) option"
where
  "fshash_insert_hash cmp htab hv data =
     do { idx \<leftarrow> fshash_lookup cmp htab hv data;
          s \<leftarrow> slot_at htab idx;
          Some (if hval s \<noteq> 0 then (-1, htab) else (0, set_slot htab idx hv data)) }"

text \<open>The string to be hashed, and the operations that hash it.\<close>

definition key_bytes :: "byte list \<Rightarrow> nat \<Rightarrow> byte list" where
  "key_bytes str len = (if len = 0 then takeWhile (\<lambda>c. c \<noteq> 0) str else take len str)"

definition fshash_insert ::
  "(byte list \<Rightarrow> u64) \<Rightarrow> ('a \<Rightarrow> 'a \<Rightarrow> int) \<Rightarrow> 'a fshash \<Rightarrow> byte list \<Rightarrow> nat \<Rightarrow> 'a \<Rightarrow> (int \<times> 'a fshash) option"
where
  "fshash_insert hashfct cmp htab str len data =
     (let hv = hashfct (key_bytes str len)
      in do { idx \<leftarrow> fshash_lookup cmp htab hv data;
              s \<leftarrow> slot_at htab idx;
              Some (if hval s \<noteq> 0 then (-1, htab) else (0, set_slot htab idx hv data)) })"

definition fshash_overwrite ::
  "(byte list \<Rightarrow> u64) \<Rightarrow> ('a \<Rightarrow> 'a \<Rightarrow> int) \<Rightarrow> 'a fshash \<Rightarrow> byte list \<Rightarrow> nat \<Rightarrow> 'a \<Rightarrow> (int \<times> 'a fshash) option"
where
  "fshash_overwrite hashfct cmp htab str len data =
     (let hv = hashfct (key_bytes str len)
      in do { idx \<leftarrow> fshash_lookup cmp htab hv data;
              Some (0, set_slot htab idx hv data) })"

definition fshash_find ::
  "(byte list \<Rightarrow> u64) \<Rightarrow> ('a \<Rightarrow> 'a \<Rightarrow> int) \<Rightarrow> 'a fshash \<Rightarrow> byte list \<Rightarrow> nat \<Rightarrow> 'a \<Rightarrow> 'a option option"
where
  "fshash_find hashfct cmp htab str len data =
     (let hv = hashfct (key_bytes str len)
      in do { idx \<leftarrow> fshash_lookup cmp htab hv data;
              s \<leftarrow> slot_at htab idx;
              Some (if hval s = 0 then None else Some (entry s)) })"

section \<open>The sequence of slots\<close>

text \<open>The \<open>k\<close>-th slot that is looked at for a hash value, in a table of \<open>n\<close> slots.\<close>

fun slot_seq :: "nat \<Rightarrow> nat \<Rightarrow> nat \<Rightarrow> nat" where
  "slot_seq n h 0 = 1 + h mod n"
| "slot_seq n h (Suc k) =
     (let d = 1 + h mod (n - 2); i = slot_seq n h k in if i \<le> d then n + i - d else i - d)"

declare slot_seq.simps(2) [simp del]

lemma slot_seq_range:
  assumes "3 \<le> n"
  shows "slot_seq n h k \<in> {1..n}"
proof (induction k)
  case (Suc k)
  have "h mod (n - 2) < n - 2" using assms by simp
  then have "1 + h mod (n - 2) < n" by simp
  then show ?case using Suc by (auto simp: Let_def slot_seq.simps(2))
next
  case 0
  have "h mod n < n" using assms by simp
  then show ?case by (simp add: Suc_leI)
qed

lemma slot_seq_mod:
  assumes "3 \<le> n"
  shows "(slot_seq n h k + k * (1 + h mod (n - 2))) mod n = (1 + h mod n) mod n"
proof (induction k)
  case (Suc k)
  let ?d = "1 + h mod (n - 2)" and ?i = "slot_seq n h k"
  have "h mod (n - 2) < n - 2" using assms by simp
  then have d: "?d < n" by simp
  have "slot_seq n h (Suc k) + Suc k * ?d = (if ?i \<le> ?d then n + (?i + k * ?d) else ?i + k * ?d)"
    using d by (simp add: Let_def slot_seq.simps(2))
  then show ?case using Suc by simp
qed simp

lemma slot_seq_inj:
  assumes "prime_nat n" "3 \<le> n"
  shows "inj_on (slot_seq n h) {..<n}"
proof (rule inj_onI)
  have aux: "k = l" if kl: "k < n" "l < n" "k \<le> l" "slot_seq n h k = slot_seq n h l" for k l
  proof (rule ccontr)
    assume "k \<noteq> l"
    let ?d = "1 + h mod (n - 2)" and ?i = "slot_seq n h k"
    have "h mod (n - 2) < n - 2" using assms(2) by simp
    then have d: "0 < ?d" "?d < n" by simp_all
    have "(?i + l * ?d) mod n = (?i + k * ?d) mod n"
      using slot_seq_mod [OF assms(2), of h k] slot_seq_mod [OF assms(2), of h l] kl(4) by simp
    then have "n dvd (?i + l * ?d) - (?i + k * ?d)" 
      by (intro mod_eq_dvd_iff_nat [THEN iffD1] add_left_mono mult_le_mono1 kl(3))
    then have "n dvd (l - k) * ?d" by (simp only: diff_mult_distrib add_diff_cancel_left)
    moreover have "coprime n ?d" using prime_nat_coprime [OF assms(1) d] by (simp add: ac_simps)
    ultimately have "n dvd l - k" by (rule coprime_dvd_mult_left_iff [THEN iffD1, rotated])
    then show False using kl \<open>k \<noteq> l\<close> by (auto dest: dvd_imp_le)
  qed
  fix k l assume "k \<in> {..<n}" "l \<in> {..<n}" "slot_seq n h k = slot_seq n h l"
  then show "k = l" using aux [of k l] aux [of l k] by (cases "k \<le> l") auto
qed

lemma slot_seq_covers:
  assumes "prime_nat n" "3 \<le> n" "i \<in> {1..n}"
  obtains k where "k < n" "slot_seq n h k = i"
proof -
  have sub: "slot_seq n h ` {..<n} \<subseteq> {1..n}" using slot_seq_range [OF assms(2)] by blast
  have "card (slot_seq n h ` {..<n}) = card {1..n}"
    using card_image [OF slot_seq_inj [OF assms(1,2)]] by simp
  then have "slot_seq n h ` {..<n} = {1..n}" by (rule card_subset_eq [OF finite_atLeastAtMost sub])
  then have "i \<in> slot_seq n h ` {..<n}" using assms(3) by simp
  then show thesis using that by auto
qed

section \<open>The table\<close>

text \<open>
  A table is well formed when its size is a prime, a slot is free, and on the way to every used
  slot all slots are used.
\<close>

definition used :: "'a fshash \<Rightarrow> nat \<Rightarrow> bool" where
  "used t i \<longleftrightarrow> hval (table t ! i) \<noteq> 0"

abbreviation size_of :: "'a fshash \<Rightarrow> nat" where
  "size_of t \<equiv> unat (nslots t)"

abbreviation slots :: "'a fshash \<Rightarrow> u64 \<Rightarrow> nat \<Rightarrow> nat" where
  "slots t hv \<equiv> slot_seq (size_of t) (unat hv)"

definition fshash_ok :: "'a fshash \<Rightarrow> bool" where
  "fshash_ok t \<longleftrightarrow>
     prime_nat (size_of t) \<and> 3 \<le> size_of t \<and> size_of t < 2 ^ 62 \<and> length (table t) = size_of t + 1
     \<and> (\<exists>i\<in>{1..size_of t}. \<not> used t i)
     \<and> (\<forall>i\<in>{1..size_of t}. used t i \<longrightarrow>
          (\<exists>k. slots t (hval (table t ! i)) k = i \<and> (\<forall>j<k. used t (slots t (hval (table t ! i)) j))))"

text \<open>The lookup ends at a free slot or at one with the key.\<close>

definition ends_at :: "('a \<Rightarrow> 'a \<Rightarrow> int) \<Rightarrow> 'a fshash \<Rightarrow> u64 \<Rightarrow> 'a \<Rightarrow> nat \<Rightarrow> bool" where
  "ends_at cmp t hv d i \<longleftrightarrow> \<not> used t i \<or> hval (table t ! i) = hv \<and> cmp d (entry (table t ! i)) = 0"

lemma next_slot_seq:
  assumes "3 \<le> unat n" "unat n < 2 ^ 62" "unat idx = slot_seq (unat n) (unat hv) k"
  shows "unat (next_slot n (1 + hv mod (n - 2)) idx) = slot_seq (unat n) (unat hv) (Suc k)"
proof -
  have n2: "unat (n - 2) = unat n - 2" using assms(1) by (subst unat_sub) (simp_all add: word_le_nat_alt)
  have m: "unat hv mod (unat n - 2) < unat n - 2" using assms(1) by simp
  have d: "unat (1 + hv mod (n - 2)) = 1 + unat hv mod (unat n - 2)"
    using m assms(2) n2 by (subst unat_add_lem [THEN iffD1]) (simp_all add: unat_mod)
  have i: "unat idx \<in> {1..unat n}" unfolding assms(3) by (rule slot_seq_range [OF assms(1)])
  then have s: "unat (n + idx) = unat n + unat idx" using assms(2) by (subst unat_add_lem [THEN iffD1]) simp_all
  show ?thesis
  proof (cases "idx \<le> 1 + hv mod (n - 2)")
    case True
    have "1 + hv mod (n - 2) \<le> n + idx" unfolding word_le_nat_alt d s using m by simp
    then have "unat (n + idx - (1 + hv mod (n - 2))) = unat n + unat idx - (1 + unat hv mod (unat n - 2))"
      by (subst unat_sub) (simp_all only: d s)
    then show ?thesis using True unfolding next_slot_def word_le_nat_alt d by (simp add: assms(3) Let_def slot_seq.simps(2))
  next
    case False
    then have "unat (idx - (1 + hv mod (n - 2))) = unat idx - (1 + unat hv mod (unat n - 2))"
      by (subst unat_sub) (simp_all only: d linorder_not_le order.strict_implies_order)
    then show ?thesis using False unfolding next_slot_def word_le_nat_alt d by (simp add: assms(3) Let_def slot_seq.simps(2))
  qed
qed

lemma slot_at_seq:
  assumes "fshash_ok t" "unat idx = slots t hv k"
  shows "slot_at t idx = Some (table t ! slots t hv k)"
proof -
  have "slots t hv k \<in> {1..size_of t}" using assms(1) by (intro slot_seq_range) (simp add: fshash_ok_def)
  then show ?thesis using assms by (simp add: slot_at_def fshash_ok_def)
qed

lemma probe_finds:
  assumes "fshash_ok t" "unat idx = slots t hv k" "k < l" "ends_at cmp t hv d (slots t hv l)"
    and "\<forall>j. k < j \<longrightarrow> j < l \<longrightarrow> \<not> ends_at cmp t hv d (slots t hv j)"
  shows "\<exists>r. probe cmp t hv d (1 + hv mod (nslots t - 2)) idx = Some r \<and> unat r = slots t hv l"
  using assms(2,3,5)
proof (induction "l - k" arbitrary: k idx rule: less_induct)
  case (less k idx)
  let ?h = "1 + hv mod (nslots t - 2)"
  let ?r = "next_slot (nslots t) ?h idx"
  have t: "3 \<le> size_of t" "size_of t < 2 ^ 62" using assms(1) by (simp_all add: fshash_ok_def)
  have r: "unat ?r = slots t hv (Suc k)" by (rule next_slot_seq [OF t less.prems(1)])
  note at = slot_at_seq [OF assms(1) r]
  show ?case
  proof (cases "l = Suc k")
    case True
    then have "ends_at cmp t hv d (slots t hv (Suc k))" using assms(4) by simp
    then have "probe cmp t hv d ?h idx = Some ?r"
      using at by (subst probe.simps) (auto simp: Let_def ends_at_def used_def)
    then show ?thesis using r True by simp
  next
    case False
    then have "\<not> ends_at cmp t hv d (slots t hv (Suc k))" using less.prems(2,3) by simp
    then have "probe cmp t hv d ?h idx = probe cmp t hv d ?h ?r"
      using at by (subst probe.simps) (auto simp: Let_def ends_at_def used_def)
    moreover have "\<exists>r. probe cmp t hv d ?h ?r = Some r \<and> unat r = slots t hv l"
      by (rule less.hyps [of "Suc k"]) (use less.prems False r in auto)
    ultimately show ?thesis by simp
  qed
qed

lemma lookup_finds:
  assumes "fshash_ok t"
  shows "\<exists>r k. fshash_lookup cmp t hv d = Some r \<and> unat r = slots t hv k \<and> ends_at cmp t hv d (slots t hv k)
    \<and> (\<forall>j<k. \<not> ends_at cmp t hv d (slots t hv j))"
proof -
  have t: "prime_nat (size_of t)" "3 \<le> size_of t" "size_of t < 2 ^ 62" using assms by (simp_all add: fshash_ok_def)
  obtain i where i: "i \<in> {1..size_of t}" "\<not> used t i" using assms by (auto simp: fshash_ok_def)
  obtain k0 where "slots t hv k0 = i" using slot_seq_covers [OF t(1,2) i(1)] by blast
  then have "ends_at cmp t hv d (slots t hv k0)" using i(2) by (simp add: ends_at_def)
  define k where "k = (LEAST k. ends_at cmp t hv d (slots t hv k))"
  have k: "ends_at cmp t hv d (slots t hv k)" "\<forall>j<k. \<not> ends_at cmp t hv d (slots t hv j)"
    unfolding k_def using \<open>ends_at cmp t hv d (slots t hv k0)\<close> by (auto intro: LeastI dest: not_less_Least)
  have n0: "nslots t \<noteq> 0" "nslots t - 2 \<noteq> 0"
  proof -
    show "nslots t \<noteq> 0" using t(2) by auto
    have "unat (nslots t - 2) = size_of t - 2" using t(2) by (subst unat_sub) (simp_all add: word_le_nat_alt)
    then show "nslots t - 2 \<noteq> 0" using t(2) by auto
  qed
  let ?i = "1 + hv mod nslots t"
  have "unat hv mod size_of t < size_of t" using t(2) by simp
  then have i0: "unat ?i = slots t hv 0" using t(3) by (subst unat_add_lem [THEN iffD1]) (simp_all add: unat_mod)
  note at = slot_at_seq [OF assms i0]
  show ?thesis
  proof (cases "k = 0")
    case True
    then have "fshash_lookup cmp t hv d = Some ?i"
      using k(1) at n0 by (auto simp: fshash_lookup_def ends_at_def used_def Let_def)
    then show ?thesis using i0 True k by (intro exI [of _ ?i] exI [of _ 0]) simp
  next
    case False
    then have "\<not> ends_at cmp t hv d (slots t hv 0)" using k(2) by blast
    then have "fshash_lookup cmp t hv d = probe cmp t hv d (1 + hv mod (nslots t - 2)) ?i"
      using at n0 by (auto simp: fshash_lookup_def ends_at_def used_def Let_def)
    moreover have "\<exists>r. probe cmp t hv d (1 + hv mod (nslots t - 2)) ?i = Some r \<and> unat r = slots t hv k"
      by (rule probe_finds [OF assms i0 _ k(1)]) (use False k(2) in auto)
    ultimately show ?thesis using k by metis
  qed
qed

text \<open>What a lookup gives: the entry of a used slot with the key, when there is one.\<close>

definition content :: "('a \<Rightarrow> 'a \<Rightarrow> int) \<Rightarrow> 'a fshash \<Rightarrow> u64 \<Rightarrow> 'a \<Rightarrow> 'a option option" where
  "content cmp t hv d =
     do { idx \<leftarrow> fshash_lookup cmp t hv d; s \<leftarrow> slot_at t idx; Some (if hval s = 0 then None else Some (entry s)) }"

lemma content_at:
  assumes "fshash_ok t" "ends_at cmp t hv d (slots t hv k)" "\<forall>j<k. \<not> ends_at cmp t hv d (slots t hv j)"
  shows "content cmp t hv d
    = Some (if used t (slots t hv k) then Some (entry (table t ! slots t hv k)) else None)"
proof -
  obtain r l where l: "fshash_lookup cmp t hv d = Some r" "unat r = slots t hv l" "ends_at cmp t hv d (slots t hv l)"
    "\<forall>j<l. \<not> ends_at cmp t hv d (slots t hv j)"
    using lookup_finds [OF assms(1)] by blast
  have "l = k" using l(3,4) assms(2,3) by (metis linorder_neqE_nat)
  then show ?thesis using l(1) slot_at_seq [OF assms(1) l(2)] by (simp add: content_def used_def)
qed

lemma fshash_find_content: "fshash_find hashfct cmp t str len d = content cmp t (hashfct (key_bytes str len)) d"
  by (simp add: fshash_find_def content_def Let_def)

text \<open>A slot beyond a free one on the way of a hash value has another hash value.\<close>

lemma beyond_free:
  assumes "fshash_ok t" "\<not> used t (slots t hv k)" "k \<le> l" "l < size_of t" "used t (slots t hv l)"
  shows "hval (table t ! slots t hv l) \<noteq> hv"
proof
  assume h: "hval (table t ! slots t hv l) = hv"
  have t: "prime_nat (size_of t)" "3 \<le> size_of t" using assms(1) by (simp_all add: fshash_ok_def)
  have "slots t hv l \<in> {1..size_of t}" by (rule slot_seq_range [OF t(2)])
  then obtain m where m: "slots t hv m = slots t hv l" "\<forall>j<m. used t (slots t hv j)"
    using assms(1,5) h unfolding fshash_ok_def by metis
  have "m \<le> k" using m(2) assms(2) by (meson linorder_not_le)
  then have "m = l" using m(1) assms(3,4) inj_onD [OF slot_seq_inj [OF t] m(1)] by simp
  then show False using \<open>m \<le> k\<close> assms(2,3,5) by simp
qed

section \<open>The table as a map\<close>

definition free_slots :: "'a fshash \<Rightarrow> nat" where
  "free_slots t = card {i \<in> {1..size_of t}. \<not> used t i}"

text \<open>A stored key fills a slot at which its lookup ends; the slots of the others stay.\<close>

lemma set_slot_frame:
  "nslots (set_slot t idx hv d) = nslots t" "length (table (set_slot t idx hv d)) = length (table t)"
  "unat idx < length (table t) \<Longrightarrow> table (set_slot t idx hv d) ! unat idx = \<lparr>hval = hv, entry = d\<rparr>"
  "i \<noteq> unat idx \<Longrightarrow> table (set_slot t idx hv d) ! i = table t ! i"
  by (simp_all add: set_slot_def)

lemma set_slot_ok:
  assumes "fshash_ok t" "2 \<le> free_slots t \<or> used t (slots t hv k)" "unat r = slots t hv k" "hv \<noteq> 0"
    and "\<forall>j<k. used t (slots t hv j)" "used t (slots t hv k) \<longrightarrow> hval (table t ! slots t hv k) = hv"
  shows "fshash_ok (set_slot t r hv d)"
proof -
  let ?n = "size_of t" and ?s = "slots t hv k" and ?t = "set_slot t r hv d"
  have t: "3 \<le> ?n" "length (table t) = ?n + 1" using assms(1) by (simp_all add: fshash_ok_def)
  have s: "?s \<in> {1..?n}" by (rule slot_seq_range [OF t(1)])
  then have at: "table ?t ! ?s = \<lparr>hval = hv, entry = d\<rparr>"
    using set_slot_frame(3) [of r t hv d] t(2) assms(3) by simp
  have other: "i \<noteq> ?s \<Longrightarrow> table ?t ! i = table t ! i" for i using set_slot_frame(4) [of i r t] assms(3) by simp
  have u: "used ?t i \<longleftrightarrow> used t i \<or> i = ?s" for i
    using at other [of i] assms(4) by (cases "i = ?s") (simp_all add: used_def)
  have "\<exists>i\<in>{1..?n}. \<not> used ?t i"
  proof (cases "used t ?s")
    case True
    then have "used ?t = used t" using u by auto
    then show ?thesis using assms(1) by (simp add: fshash_ok_def)
  next
    case False
    have "card ({i \<in> {1..?n}. \<not> used t i} - {?s}) \<ge> 1"
      using assms(2) False s by (auto simp: free_slots_def)
    then have "{i \<in> {1..?n}. \<not> used t i} - {?s} \<noteq> {}" by (metis card.empty not_one_le_zero)
    then show ?thesis using u by auto
  qed
  moreover have "\<exists>m. slots t (hval (table ?t ! i)) m = i \<and> (\<forall>j<m. used ?t (slots t (hval (table ?t ! i)) j))"
    if i: "i \<in> {1..?n}" "used ?t i" for i
  proof (cases "i = ?s")
    case True
    then show ?thesis using at assms(5) u by (intro exI [of _ k]) auto
  next
    case False
    then have "used t i" using i(2) u by simp
    then show ?thesis using assms(1) i(1) other [OF False] u unfolding fshash_ok_def by metis
  qed
  ultimately show ?thesis using assms(1) unfolding fshash_ok_def set_slot_frame by blast
qed

lemma content_set_slot_other:
  assumes "fshash_ok t" "fshash_ok (set_slot t r hv d)" "unat r = slots t hv k"
    and "hv \<noteq> 0" "\<not> (hv' = hv \<and> cmp d' d = 0)"
    and "used t (slots t hv k) \<longrightarrow> hval (table t ! slots t hv k) = hv \<and> \<not> (hv' = hv \<and> cmp d' (entry (table t ! slots t hv k)) = 0)"
  shows "content cmp (set_slot t r hv d) hv' d' = content cmp t hv' d'"
proof -
  let ?s = "slots t hv k" and ?t = "set_slot t r hv d"
  have t: "prime_nat (size_of t)" "3 \<le> size_of t" "length (table t) = size_of t + 1"
    using assms(1) by (simp_all add: fshash_ok_def)
  have s: "?s \<in> {1..size_of t}" by (rule slot_seq_range [OF t(2)])
  have at: "table ?t ! ?s = \<lparr>hval = hv, entry = d\<rparr>"
    using set_slot_frame(3) [of r t hv d] t(3) assms(3) s by simp
  have other: "i \<noteq> ?s \<Longrightarrow> table ?t ! i = table t ! i" for i using set_slot_frame(4) [of i r t] assms(3) by simp
  obtain r0 k0 where k0: "ends_at cmp t hv' d' (slots t hv' k0)" "\<forall>j<k0. \<not> ends_at cmp t hv' d' (slots t hv' j)"
    using lookup_finds [OF assms(1)] by blast
  obtain r1 k1 where k1: "ends_at cmp ?t hv' d' (slots t hv' k1)" "\<forall>j<k1. \<not> ends_at cmp ?t hv' d' (slots t hv' j)"
    using lookup_finds [OF assms(2)] unfolding set_slot_frame by blast
  note c0 = content_at [OF assms(1) k0]
  have c1: "content cmp ?t hv' d' = Some (if used ?t (slots t hv' k1) then Some (entry (table ?t ! slots t hv' k1)) else None)"
    using content_at [OF assms(2), of cmp hv' d' k1] k1 by (simp add: set_slot_frame)
  have same: "ends_at cmp ?t hv' d' i \<longleftrightarrow> ends_at cmp t hv' d' i" if "i \<noteq> ?s" for i
    using other [OF that] by (simp add: ends_at_def used_def)
  show ?thesis
  proof (cases "slots t hv' k0 = ?s")
    case False
    have "k1 = k0"
    proof (rule linorder_cases)
      assume "k1 < k0"
      then have "slots t hv' k1 = ?s" using k0(2) k1(1) same by blast
      moreover have "\<not> ends_at cmp t hv' d' ?s" using k0(2) \<open>k1 < k0\<close> calculation by metis
      ultimately show ?thesis using k1(1) at assms(4,5) unfolding ends_at_def used_def by auto
    next
      assume "k0 < k1"
      then show ?thesis using k0(1) k1(2) same [OF False] by blast
    qed
    then show ?thesis using c0 c1 other [OF False] by (simp add: used_def)
  next
    case True
    \<comment> \<open>the lookup ended at the slot that is filled, so the slot was free\<close>
    have free: "\<not> used t ?s" using k0(1) assms(6) True by (auto simp: ends_at_def)
    then have none: "content cmp t hv' d' = Some None" using c0 True by simp
    have "\<not> used ?t (slots t hv' k1)"
    proof
      assume u1: "used ?t (slots t hv' k1)"
      then have h: "hval (table ?t ! slots t hv' k1) = hv'" "cmp d' (entry (table ?t ! slots t hv' k1)) = 0"
        using k1(1) by (simp_all add: ends_at_def)
      then have ne: "slots t hv' k1 \<noteq> ?s" using at assms(5) by auto
      then have u: "used t (slots t hv' k1)" "hval (table t ! slots t hv' k1) = hv'" "ends_at cmp t hv' d' (slots t hv' k1)"
        using u1 h(1) k1(1) same other [OF ne] by (simp_all add: used_def)
      have "k0 \<le> k1" using k0(2) u(3) by (meson linorder_not_le)
      moreover have "k1 < size_of t"
      proof (rule ccontr)
        assume big: "\<not> k1 < size_of t"
        obtain i where i: "i \<in> {1..size_of t}" "\<not> used ?t i"
          using assms(2) unfolding fshash_ok_def set_slot_frame by blast
        obtain m where "m < size_of t" "slots t hv' m = i" using slot_seq_covers [OF t(1,2) i(1)] by blast
        then show False using k1(2) i(2) big by (auto simp: ends_at_def)
      qed
      ultimately show False using beyond_free [OF assms(1) _ _ _ u(1)] free \<open>slots t hv' k0 = ?s\<close> u(2) by metis
    qed
    then show ?thesis using none c1 by simp
  qed
qed

text \<open>A free slot that the lookup of a key reached is the first one on the way of its hash value.\<close>

lemma insert_content:
  assumes ok: "fshash_ok t" and "hv \<noteq> 0" "cmp d d = 0"
    and room: "2 \<le> free_slots t \<or> content cmp t hv d \<noteq> Some None"
    and eqv: "\<And>x. cmp d x = 0 \<Longrightarrow> hv' = hv \<Longrightarrow> cmp d' x = 0 \<Longrightarrow> cmp d' d = 0"
  shows "\<exists>r. fshash_lookup cmp t hv d = Some r
    \<and> slot_at t r = Some (table t ! unat r) \<and> (content cmp t hv d = Some None \<longleftrightarrow> hval (table t ! unat r) = 0)
    \<and> (let t' = set_slot t r hv d in fshash_ok t' \<and> content cmp t' hv d = Some (Some d)
         \<and> (\<not> (hv' = hv \<and> cmp d' d = 0) \<longrightarrow> content cmp t' hv' d' = content cmp t hv' d'))"
proof -
  obtain r k where k: "fshash_lookup cmp t hv d = Some r" "unat r = slots t hv k" "ends_at cmp t hv d (slots t hv k)"
    "\<forall>j<k. \<not> ends_at cmp t hv d (slots t hv j)"
    using lookup_finds [OF ok] by blast
  let ?s = "slots t hv k" and ?t = "set_slot t r hv d"
  have t: "3 \<le> size_of t" "length (table t) = size_of t + 1" using ok by (simp_all add: fshash_ok_def)
  have s: "?s \<in> {1..size_of t}" by (rule slot_seq_range [OF t(1)])
  note c = content_at [OF ok k(3,4)]
  have free: "content cmp t hv d = Some None \<longleftrightarrow> \<not> used t ?s" using c by simp
  have ok': "fshash_ok ?t"
    by (rule set_slot_ok [OF ok _ k(2) assms(2)])
      (use room free k(3,4) in \<open>auto simp: ends_at_def\<close>)
  have at: "table ?t ! ?s = \<lparr>hval = hv, entry = d\<rparr>"
    using set_slot_frame(3) [of r t hv d] t(2) k(2) s by simp
  have other: "i \<noteq> ?s \<Longrightarrow> table ?t ! i = table t ! i" for i using set_slot_frame(4) [of i r t] k(2) by simp
  have "content cmp ?t hv d = Some (Some d)"
  proof -
    have e: "ends_at cmp ?t hv d (slots ?t hv k)" using at assms(3) by (simp add: ends_at_def set_slot_frame)
    have "\<not> ends_at cmp ?t hv d (slots ?t hv j)" if "j < k" for j
    proof -
      have nj: "\<not> ends_at cmp t hv d (slots t hv j)" using k(4) that by blast
      then have "slots t hv j \<noteq> ?s" using k(3) by metis
      then show ?thesis using nj other by (simp add: ends_at_def used_def set_slot_frame)
    qed
    then show ?thesis using content_at [OF ok' e] at assms(2) by (simp add: set_slot_frame used_def)
  qed
  moreover have "content cmp ?t hv' d' = content cmp t hv' d'" if "\<not> (hv' = hv \<and> cmp d' d = 0)"
    by (rule content_set_slot_other [where hv = hv and k = k and cmp = cmp and d' = d', OF ok ok' k(2) assms(2) that]) (use eqv k(3) that in \<open>auto simp: ends_at_def\<close>)
  moreover have "slot_at t r = Some (table t ! unat r)" using slot_at_seq [OF ok k(2)] k(2) by simp
  ultimately show ?thesis using k(1,2) ok' free by (simp add: Let_def used_def)
qed

text \<open>
  C25. The table implements a map.  Inserting a key that is not in it returns 0, and the key is
  then found with its value; inserting a key that is in it returns -1 and changes nothing;
  overwriting stores the value in both cases.  The keys that differ are found as before.  The
  table needs one free slot more than the key takes, a hash value other than 0, and a comparison
  that tells the keys apart consistently.
\<close>

theorem fshash_is_a_map:
  assumes "fshash_ok t" "2 \<le> free_slots t" "hashfct (key_bytes str len) \<noteq> 0" "cmp d d = 0"
    and "\<And>x. cmp d x = 0 \<Longrightarrow> cmp d' x = 0 \<Longrightarrow> cmp d' d = 0"
    and "\<not> (hashfct (key_bytes str' len') = hashfct (key_bytes str len) \<and> cmp d' d = 0)"
  shows "(\<exists>r t'. fshash_insert hashfct cmp t str len d = Some (r, t') \<and> fshash_ok t'
      \<and> (if fshash_find hashfct cmp t str len d = Some None
         then r = 0 \<and> fshash_find hashfct cmp t' str len d = Some (Some d) else r = -1 \<and> t' = t)
      \<and> fshash_find hashfct cmp t' str' len' d' = fshash_find hashfct cmp t str' len' d')
    \<and> (\<exists>t'. fshash_overwrite hashfct cmp t str len d = Some (0, t') \<and> fshash_ok t'
      \<and> fshash_find hashfct cmp t' str len d = Some (Some d)
      \<and> fshash_find hashfct cmp t' str' len' d' = fshash_find hashfct cmp t str' len' d')"
proof -
  let ?hv = "hashfct (key_bytes str len)" and ?hv' = "hashfct (key_bytes str' len')"
  have "\<exists>r. fshash_lookup cmp t ?hv d = Some r
    \<and> slot_at t r = Some (table t ! unat r) \<and> (content cmp t ?hv d = Some None \<longleftrightarrow> hval (table t ! unat r) = 0)
    \<and> (let t' = set_slot t r ?hv d in fshash_ok t' \<and> content cmp t' ?hv d = Some (Some d)
         \<and> (\<not> (?hv' = ?hv \<and> cmp d' d = 0) \<longrightarrow> content cmp t' ?hv' d' = content cmp t ?hv' d'))"
    by (rule insert_content) (use assms in blast)+
  then obtain r where r: "fshash_lookup cmp t ?hv d = Some r" "slot_at t r = Some (table t ! unat r)"
    "content cmp t ?hv d = Some None \<longleftrightarrow> hval (table t ! unat r) = 0"
    "fshash_ok (set_slot t r ?hv d)" "content cmp (set_slot t r ?hv d) ?hv d = Some (Some d)"
    "content cmp (set_slot t r ?hv d) ?hv' d' = content cmp t ?hv' d'"
    using assms(6) unfolding Let_def by blast
  show ?thesis
    using r assms(1) by (simp add: fshash_insert_def fshash_overwrite_def fshash_find_content Let_def)
qed

text \<open>A table of five slots, the initial table, with the identity as the hash of one-byte strings.\<close>

lemma init_ok:
  fixes zero :: 'a
  assumes "prime_nat (unat n)" "3 \<le> unat n" "unat n < 2 ^ 62"
  defines "t \<equiv> \<lparr>nslots = n, table = replicate (unat n + 1) \<lparr>hval = 0, entry = zero\<rparr>\<rparr>"
  shows "fshash_ok t \<and> free_slots t = unat n \<and> content cmp t hv d = Some None"
proof -
  have u: "\<not> used t i" if "i \<in> {1..unat n}" for i using that by (cases i) (simp_all add: used_def t_def)
  then have ok: "fshash_ok t" using assms(1-3) by (auto simp: fshash_ok_def t_def)
  have "{i \<in> {1..unat n}. \<not> used t i} = {1..unat n}" using u by blast
  then have "free_slots t = unat n" by (simp add: free_slots_def) (simp add: t_def)
  moreover have "slots t hv 0 \<in> {1..unat n}" using slot_seq_range [of "size_of t" "unat hv" 0] assms(2) by (simp add: t_def)
  then have "content cmp t hv d = Some None"
    using content_at [OF ok, of cmp hv d 0] u by (simp add: ends_at_def)
  ultimately show ?thesis using ok by blast
qed

theorem fshash_is_a_map_witness:
  "\<exists>t' :: int fshash. fshash_insert (\<lambda>s. ucast (hd s)) (-) \<lparr>nslots = 5, table = replicate 6 \<lparr>hval = 0, entry = 0\<rparr>\<rparr> [1, 0] 0 7
      = Some (0, t')
    \<and> fshash_find (\<lambda>s. ucast (hd s)) (-) t' [1, 0] 0 7 = Some (Some 7)
    \<and> fshash_find (\<lambda>s. ucast (hd s)) (-) t' [2, 0] 0 9 = Some None"
proof -
  let ?t = "\<lparr>nslots = 5, table = replicate 6 \<lparr>hval = 0, entry = 0\<rparr>\<rparr> :: int fshash" and ?h = "\<lambda>s :: byte list. ucast (hd s) :: u64"
  have "prime_nat (unat (5 :: u64))" by (rule prime_nat_check) (simp_all add: upt_rec)
  from init_ok [OF this, of "0 :: int" "(-)"]
  have t: "fshash_ok ?t" "2 \<le> free_slots ?t" "\<And>hv d. content (-) ?t hv d = Some None"
    by simp_all
  have "?h (key_bytes [1, 0] 0) \<noteq> 0" by (simp add: key_bytes_def)
  from fshash_is_a_map [of ?t ?h "[1, 0]" 0 "(-)" 7 9 "[2, 0]" 0, OF t(1,2) this] show ?thesis
    by (simp add: fshash_find_content t(3)) (force simp: key_bytes_def)
qed

text \<open>
  The hash value 0 marks a free slot, so a key with that hash value is reported as stored and is
  not found afterwards.
\<close>

lemma insert_hash_zero_is_lost:
  "\<exists>t' :: int fshash. fshash_insert (\<lambda>s. 0) (-) \<lparr>nslots = 5, table = replicate 6 \<lparr>hval = 0, entry = 0\<rparr>\<rparr> [1, 0] 0 7 = Some (0, t')
    \<and> fshash_find (\<lambda>s. 0) (-) t' [1, 0] 0 7 = Some None"
proof -
  have "replicate 6 x = [x, x, x, x, x, x]" for x :: "int fshashent" by (simp add: eval_nat_numeral)
  then show ?thesis
    by (simp add: fshash_insert_def fshash_find_def fshash_lookup_def slot_at_def set_slot_def)
qed

text \<open>
  The check of the number of elements is made for the product divided by two; the product itself
  wraps around from a third of the largest number on, and a table of eleven slots is made.
\<close>

lemma fshash_init_wraps:
  "fshash_init zero True 0x5555555555555556 = Some (Some \<lparr>nslots = 11, table = replicate 12 \<lparr>hval = 0, entry = zero\<rparr>\<rparr>)"
proof -
  have "is_prime 11 = Some True"
    unfolding is_prime_def by (subst prime_loop.simps, simp, subst prime_loop.simps, simp)
  then have "next_prime 10 = Some 11"
    unfolding next_prime_def by (subst next_prime_loop.simps) simp
  moreover have "max 1 10 = (10 :: u64)" by (simp add: max_def)
  ultimately show ?thesis by (simp add: fshash_init_def Let_def)
qed

end
