(* ===== verification/Elf_Types.thy ===== *)
theory Elf_Types
  imports Libelf_Prelude
begin

text \<open>
  The data of the library: the constants and structures of \<open>common/elfdefinitions.h\<close>,
  the enumerations and public structures of \<open>libelf.h\<close> and the private descriptors
  of \<open>_libelf.h\<close>.  Enumerators that the code compares with values that may lie outside
  the enumeration (\<open>Elf_Type\<close>, the ELF class) are integers, the others datatypes.
  The structures that come in a 32-bit and a 64-bit variant are one record whose type
  parameter is the width of an address.  Fields of \<open>Elf32_Ehdr\<close> and \<open>Elf64_Ehdr\<close> carry
  the prefix \<open>eh_\<close>, since \<open>e_flags\<close> and \<open>e_version\<close> are fields of \<open>Elf\<close> as well.
\<close>

section \<open>Constants\<close>

abbreviation (input) EI_CLASS :: nat where "EI_CLASS \<equiv> 4"
abbreviation (input) EI_DATA :: nat where "EI_DATA \<equiv> 5"
abbreviation (input) EI_VERSION :: nat where "EI_VERSION \<equiv> 6"
abbreviation (input) EI_NIDENT :: nat where "EI_NIDENT \<equiv> 16"

abbreviation (input) ELFCLASSNONE :: int where "ELFCLASSNONE \<equiv> 0"
abbreviation (input) ELFCLASS32 :: int where "ELFCLASS32 \<equiv> 1"
abbreviation (input) ELFCLASS64 :: int where "ELFCLASS64 \<equiv> 2"

abbreviation (input) ELFDATANONE :: u32 where "ELFDATANONE \<equiv> 0"
abbreviation (input) ELFDATA2LSB :: u32 where "ELFDATA2LSB \<equiv> 1"
abbreviation (input) ELFDATA2MSB :: u32 where "ELFDATA2MSB \<equiv> 2"

definition ELFMAG :: "byte list" where
  "ELFMAG = [0x7F, 0x45, 0x4C, 0x46]"

abbreviation (input) EV_NONE :: u32 where "EV_NONE \<equiv> 0"
abbreviation (input) EV_CURRENT :: u32 where "EV_CURRENT \<equiv> 1"

abbreviation (input) SHF_ALLOC :: u64 where "SHF_ALLOC \<equiv> 0x2"

abbreviation (input) SHN_UNDEF :: u64 where "SHN_UNDEF \<equiv> 0"
abbreviation (input) SHN_LORESERVE :: u64 where "SHN_LORESERVE \<equiv> 0xFF00"
abbreviation (input) SHN_XINDEX :: u64 where "SHN_XINDEX \<equiv> 0xFFFF"
abbreviation (input) PN_XNUM :: u64 where "PN_XNUM \<equiv> 0xFFFF"

abbreviation (input) SHT_NULL :: u32 where "SHT_NULL \<equiv> 0"
abbreviation (input) SHT_PROGBITS :: u32 where "SHT_PROGBITS \<equiv> 1"
abbreviation (input) SHT_SYMTAB :: u32 where "SHT_SYMTAB \<equiv> 2"
abbreviation (input) SHT_STRTAB :: u32 where "SHT_STRTAB \<equiv> 3"
abbreviation (input) SHT_RELA :: u32 where "SHT_RELA \<equiv> 4"
abbreviation (input) SHT_HASH :: u32 where "SHT_HASH \<equiv> 5"
abbreviation (input) SHT_DYNAMIC :: u32 where "SHT_DYNAMIC \<equiv> 6"
abbreviation (input) SHT_NOTE :: u32 where "SHT_NOTE \<equiv> 7"
abbreviation (input) SHT_NOBITS :: u32 where "SHT_NOBITS \<equiv> 8"
abbreviation (input) SHT_REL :: u32 where "SHT_REL \<equiv> 9"
abbreviation (input) SHT_DYNSYM :: u32 where "SHT_DYNSYM \<equiv> 11"
abbreviation (input) SHT_INIT_ARRAY :: u32 where "SHT_INIT_ARRAY \<equiv> 14"
abbreviation (input) SHT_FINI_ARRAY :: u32 where "SHT_FINI_ARRAY \<equiv> 15"
abbreviation (input) SHT_PREINIT_ARRAY :: u32 where "SHT_PREINIT_ARRAY \<equiv> 16"
abbreviation (input) SHT_GROUP :: u32 where "SHT_GROUP \<equiv> 17"
abbreviation (input) SHT_SYMTAB_SHNDX :: u32 where "SHT_SYMTAB_SHNDX \<equiv> 18"
abbreviation (input) SHT_LOOS :: u32 where "SHT_LOOS \<equiv> 0x60000000"
abbreviation (input) SHT_SUNW_dof :: u32 where "SHT_SUNW_dof \<equiv> 0x6FFFFFF4"
abbreviation (input) SHT_SUNW_cap :: u32 where "SHT_SUNW_cap \<equiv> 0x6FFFFFF5"
abbreviation (input) SHT_GNU_HASH :: u32 where "SHT_GNU_HASH \<equiv> 0x6FFFFFF6"
abbreviation (input) SHT_GNU_LIBLIST :: u32 where "SHT_GNU_LIBLIST \<equiv> 0x6FFFFFF7"
abbreviation (input) SHT_SUNW_move :: u32 where "SHT_SUNW_move \<equiv> 0x6FFFFFFA"
abbreviation (input) SHT_SUNW_syminfo :: u32 where "SHT_SUNW_syminfo \<equiv> 0x6FFFFFFC"
abbreviation (input) SHT_SUNW_verdef :: u32 where "SHT_SUNW_verdef \<equiv> 0x6FFFFFFD"
abbreviation (input) SHT_SUNW_verneed :: u32 where "SHT_SUNW_verneed \<equiv> 0x6FFFFFFE"
abbreviation (input) SHT_SUNW_versym :: u32 where "SHT_SUNW_versym \<equiv> 0x6FFFFFFF"
abbreviation (input) SHT_HIUSER :: u32 where "SHT_HIUSER \<equiv> 0xFFFFFFFF"

text \<open>\<open>enum Elf_Type\<close>, in the order of \<open>libelf.h\<close>.\<close>

abbreviation (input) ELF_T_ADDR :: int where "ELF_T_ADDR \<equiv> 0"
abbreviation (input) ELF_T_BYTE :: int where "ELF_T_BYTE \<equiv> 1"
abbreviation (input) ELF_T_CAP :: int where "ELF_T_CAP \<equiv> 2"
abbreviation (input) ELF_T_DYN :: int where "ELF_T_DYN \<equiv> 3"
abbreviation (input) ELF_T_EHDR :: int where "ELF_T_EHDR \<equiv> 4"
abbreviation (input) ELF_T_HALF :: int where "ELF_T_HALF \<equiv> 5"
abbreviation (input) ELF_T_LWORD :: int where "ELF_T_LWORD \<equiv> 6"
abbreviation (input) ELF_T_MOVE :: int where "ELF_T_MOVE \<equiv> 7"
abbreviation (input) ELF_T_MOVEP :: int where "ELF_T_MOVEP \<equiv> 8"
abbreviation (input) ELF_T_NOTE :: int where "ELF_T_NOTE \<equiv> 9"
abbreviation (input) ELF_T_OFF :: int where "ELF_T_OFF \<equiv> 10"
abbreviation (input) ELF_T_PHDR :: int where "ELF_T_PHDR \<equiv> 11"
abbreviation (input) ELF_T_REL :: int where "ELF_T_REL \<equiv> 12"
abbreviation (input) ELF_T_RELA :: int where "ELF_T_RELA \<equiv> 13"
abbreviation (input) ELF_T_SHDR :: int where "ELF_T_SHDR \<equiv> 14"
abbreviation (input) ELF_T_SWORD :: int where "ELF_T_SWORD \<equiv> 15"
abbreviation (input) ELF_T_SXWORD :: int where "ELF_T_SXWORD \<equiv> 16"
abbreviation (input) ELF_T_SYMINFO :: int where "ELF_T_SYMINFO \<equiv> 17"
abbreviation (input) ELF_T_SYM :: int where "ELF_T_SYM \<equiv> 18"
abbreviation (input) ELF_T_VDEF :: int where "ELF_T_VDEF \<equiv> 19"
abbreviation (input) ELF_T_VNEED :: int where "ELF_T_VNEED \<equiv> 20"
abbreviation (input) ELF_T_WORD :: int where "ELF_T_WORD \<equiv> 21"
abbreviation (input) ELF_T_XWORD :: int where "ELF_T_XWORD \<equiv> 22"
abbreviation (input) ELF_T_GNUHASH :: int where "ELF_T_GNUHASH \<equiv> 23"
abbreviation (input) ELF_T_NUM :: int where "ELF_T_NUM \<equiv> 24"
abbreviation (input) ELF_T_FIRST :: int where "ELF_T_FIRST \<equiv> ELF_T_ADDR"
abbreviation (input) ELF_T_LAST :: int where "ELF_T_LAST \<equiv> ELF_T_GNUHASH"

datatype Elf_Kind = ELF_K_NONE | ELF_K_AR | ELF_K_COFF | ELF_K_ELF | ELF_K_NUM

datatype Elf_Cmd =
    ELF_C_NULL | ELF_C_CLR | ELF_C_FDDONE | ELF_C_FDREAD | ELF_C_RDWR
  | ELF_C_READ | ELF_C_SET | ELF_C_WRITE | ELF_C_NUM

datatype Elf_Error =
    ELF_E_NONE | ELF_E_ARCHIVE | ELF_E_ARGUMENT | ELF_E_CLASS | ELF_E_DATA
  | ELF_E_HEADER | ELF_E_IO | ELF_E_LAYOUT | ELF_E_MODE | ELF_E_RANGE
  | ELF_E_RESOURCE | ELF_E_SECTION | ELF_E_SEQUENCE | ELF_E_UNIMPL
  | ELF_E_VERSION | ELF_E_NUM

text \<open>The value the C enumeration gives an error number.\<close>

primrec error_code :: "Elf_Error \<Rightarrow> u32" where
  "error_code ELF_E_NONE = 0"
| "error_code ELF_E_ARCHIVE = 1"
| "error_code ELF_E_ARGUMENT = 2"
| "error_code ELF_E_CLASS = 3"
| "error_code ELF_E_DATA = 4"
| "error_code ELF_E_HEADER = 5"
| "error_code ELF_E_IO = 6"
| "error_code ELF_E_LAYOUT = 7"
| "error_code ELF_E_MODE = 8"
| "error_code ELF_E_RANGE = 9"
| "error_code ELF_E_RESOURCE = 10"
| "error_code ELF_E_SECTION = 11"
| "error_code ELF_E_SEQUENCE = 12"
| "error_code ELF_E_UNIMPL = 13"
| "error_code ELF_E_VERSION = 14"
| "error_code ELF_E_NUM = 15"

abbreviation (input) ELF_F_LAYOUT :: u32 where "ELF_F_LAYOUT \<equiv> 0x001"
abbreviation (input) ELF_F_DIRTY :: u32 where "ELF_F_DIRTY \<equiv> 0x002"
abbreviation (input) ELF_F_ARCHIVE :: u32 where "ELF_F_ARCHIVE \<equiv> 0x100"
abbreviation (input) ELF_F_ARCHIVE_SYSV :: u32 where "ELF_F_ARCHIVE_SYSV \<equiv> 0x200"

abbreviation (input) LIBELF_F_API_MASK :: u32 where "LIBELF_F_API_MASK \<equiv> 0x00FFFF"
abbreviation (input) LIBELF_F_AR_HEADER :: u32 where "LIBELF_F_AR_HEADER \<equiv> 0x010000"
abbreviation (input) LIBELF_F_AR_VARIANT_SVR4 :: u32 where "LIBELF_F_AR_VARIANT_SVR4 \<equiv> 0x020000"
abbreviation (input) LIBELF_F_DATA_MALLOCED :: u32 where "LIBELF_F_DATA_MALLOCED \<equiv> 0x040000"
abbreviation (input) LIBELF_F_RAWFILE_MALLOC :: u32 where "LIBELF_F_RAWFILE_MALLOC \<equiv> 0x080000"
abbreviation (input) LIBELF_F_RAWFILE_MMAP :: u32 where "LIBELF_F_RAWFILE_MMAP \<equiv> 0x100000"
abbreviation (input) LIBELF_F_SHDRS_LOADED :: u32 where "LIBELF_F_SHDRS_LOADED \<equiv> 0x200000"
abbreviation (input) LIBELF_F_SPECIAL_FILE :: u32 where "LIBELF_F_SPECIAL_FILE \<equiv> 0x400000"

section \<open>ELF structures\<close>

record (overloaded) 'w Elf_Ehdr =
  eh_ident :: "byte list"
  eh_type :: u16
  eh_machine :: u16
  eh_version :: u32
  eh_entry :: "'w word"
  eh_phoff :: "'w word"
  eh_shoff :: "'w word"
  eh_flags :: u32
  eh_ehsize :: u16
  eh_phentsize :: u16
  eh_phnum :: u16
  eh_shentsize :: u16
  eh_shnum :: u16
  eh_shstrndx :: u16

record (overloaded) 'w Elf_Phdr =
  p_type :: u32
  p_flags :: u32
  p_offset :: "'w word"
  p_vaddr :: "'w word"
  p_paddr :: "'w word"
  p_filesz :: "'w word"
  p_memsz :: "'w word"
  p_align :: "'w word"

record (overloaded) 'w Elf_Shdr =
  sh_name :: u32
  sh_type :: u32
  sh_flags :: "'w word"
  sh_addr :: "'w word"
  sh_offset :: "'w word"
  sh_size :: "'w word"
  sh_link :: u32
  sh_info :: u32
  sh_addralign :: "'w word"
  sh_entsize :: "'w word"

record (overloaded) 'w Elf_Sym =
  st_name :: u32
  st_info :: byte
  st_other :: byte
  st_shndx :: u16
  st_value :: "'w word"
  st_size :: "'w word"

record (overloaded) 'w Elf_Rel =
  r_offset :: "'w word"
  r_info :: "'w word"

record (overloaded) 'w Elf_Rela =
  ra_offset :: "'w word"
  ra_info :: "'w word"
  ra_addend :: "'w word"

record (overloaded) 'w Elf_Dyn =
  d_tag :: "'w word"
  d_val :: "'w word"

record (overloaded) 'w Elf_Cap =
  c_tag :: "'w word"
  c_val :: "'w word"

record (overloaded) 'w Elf_Move =
  m_value :: u64
  m_info :: "'w word"
  m_poffset :: "'w word"
  m_repeat :: u16
  m_stride :: u16

record Elf_Syminfo =
  si_boundto :: u16
  si_flags :: u16

text \<open>The generic structures of \<open>gelf.h\<close> are the 64-bit ones.\<close>

type_synonym GElf_Ehdr = "64 Elf_Ehdr"
type_synonym GElf_Phdr = "64 Elf_Phdr"
type_synonym GElf_Shdr = "64 Elf_Shdr"
type_synonym GElf_Sym = "64 Elf_Sym"
type_synonym GElf_Rel = "64 Elf_Rel"
type_synonym GElf_Rela = "64 Elf_Rela"
type_synonym GElf_Dyn = "64 Elf_Dyn"
type_synonym GElf_Cap = "64 Elf_Cap"
type_synonym GElf_Move = "64 Elf_Move"

text \<open>The unions \<open>e_ehdr\<close>, \<open>e_phdr\<close> and \<open>s_shdr\<close>, with the class that says
  which member is in use.\<close>

datatype Ehdr = Ehdr32 "32 Elf_Ehdr" | Ehdr64 "64 Elf_Ehdr"
datatype Phdrs = Phdrs32 "32 Elf_Phdr list" | Phdrs64 "64 Elf_Phdr list"
datatype Shdr = Shdr32 "32 Elf_Shdr" | Shdr64 "64 Elf_Shdr"

section \<open>Descriptors\<close>

text \<open>A pointer to bytes is a block of memory and an offset into it; \<open>NULL\<close> is \<open>None\<close>.
  A pointer to a descriptor is the descriptor's number.\<close>

type_synonym ptr = "(nat \<times> nat) option"
type_synonym elf_ref = nat
type_synonym scn_ref = nat
type_synonym data_ref = nat

record Elf_Data =
  d_align :: u64
  d_buf :: ptr
  d_off :: u64
  d_size :: u64
  d_type :: int
  d_version :: u32

record Libelf_Data =
  d_data :: Elf_Data
  d_scn :: "scn_ref option"
  d_flags :: u32

record Elf_Arhdr =
  ar_name :: "byte list"
  ar_uid :: u32
  ar_gid :: u32
  ar_mode :: u32
  ar_rawname :: "byte list"
  ar_size :: u64
  ar_flags :: u32

text \<open>\<open>as_name\<close> points into the archive's symbol table; the sentinel entry has \<open>NULL\<close>.\<close>

record Elf_Arsym =
  as_off :: u64
  as_hash :: u64
  as_name :: ptr

datatype ar_hdr_ref = Rawhdr ptr | Arhdr Elf_Arhdr

record Elf =
  e_activations :: int
  e_byteorder :: u32
  e_class :: int
  e_cmd :: Elf_Cmd
  e_fd :: int
  e_flags :: u32
  e_kind :: Elf_Kind
  e_parent :: "elf_ref option"
  e_rawfile :: ptr
  e_rawsize :: u64
  e_version :: u32
  e_hdr :: ar_hdr_ref
  e_next :: int
  e_nchildren :: int
  e_rawstrtab :: ptr
  e_rawstrtabsz :: u64
  e_rawsymtab :: ptr
  e_rawsymtabsz :: u64
  e_symtab :: "Elf_Arsym list option"
  e_symtabsz :: u64
  e_ehdr :: "Ehdr option"
  e_phdr :: "Phdrs option"
  e_scn :: "scn_ref list"
  e_nphdr :: u64
  e_nscn :: u64
  e_strndx :: u64

record Elf_Scn =
  s_shdr :: Shdr
  s_data :: "data_ref list"
  s_rawdata :: "data_ref list"
  s_elf :: "elf_ref option"
  s_flags :: u32
  s_ndx :: u64
  s_offset :: u64
  s_rawoff :: u64
  s_size :: u64

text \<open>\<open>struct _libelf_globals\<close>; \<open>libelf_msg\<close> is the buffer \<open>elf_errmsg\<close> formats into.\<close>

record libelf_globals =
  libelf_arch :: int
  libelf_byteorder :: u32
  libelf_class :: int
  libelf_error :: u32
  libelf_fillchar :: int
  libelf_version :: u32
  libelf_msg :: string

end
