(* ===== verification/Libelf_State.thy ===== *)
theory Libelf_State
  imports Elf_Types
begin

text \<open>
  The state the library works on and the operations on it that every component uses:
  the globals of \<open>elf.c\<close>, the memory, the descriptors, allocation
  (\<open>libelf_allocate.c\<close>) and the error interface (\<open>elf_errno.c\<close>, \<open>elf_errmsg.c\<close>,
  \<open>elf_version.c\<close>, \<open>elf_fill.c\<close>).

  An operation returns \<open>None\<close> where the C code has no defined behaviour or stops: a read
  or write outside a block, the use of a \<open>NULL\<close> or freed pointer, a failed \<open>assert\<close>.
  Otherwise it returns its C result, with the new state.
\<close>

section \<open>State\<close>

text \<open>
  \<open>mem\<close> maps a block number to the block's bytes and \<open>base\<close> to its address, which the
  C library's allocator chooses.  \<open>oom\<close> is the outcome of the
  allocations still to come: each one takes the next entry and fails when it is \<open>True\<close>;
  when the list is used up, allocations succeed.
\<close>

record store =
  globals :: libelf_globals
  mem :: "nat \<Rightarrow> byte list option"
  base :: "nat \<Rightarrow> u64"
  elfs :: "elf_ref \<Rightarrow> Elf option"
  scns :: "scn_ref \<Rightarrow> Elf_Scn option"
  datas :: "data_ref \<Rightarrow> Libelf_Data option"
  fresh :: nat
  oom :: "bool list"

definition initial_globals :: "int \<Rightarrow> u32 \<Rightarrow> int \<Rightarrow> libelf_globals" where
  "initial_globals arch byteorder cls =
     \<lparr>libelf_arch = arch, libelf_byteorder = byteorder, libelf_class = cls,
      libelf_error = 0, libelf_fillchar = 0, libelf_version = EV_NONE, libelf_msg = []\<rparr>"

definition initial_store :: "u32 \<Rightarrow> (nat \<Rightarrow> u64) \<Rightarrow> store" where
  "initial_store byteorder bases =
     \<lparr>globals = initial_globals 62 byteorder ELFCLASS64, mem = Map.empty, base = bases, elfs = Map.empty,
      scns = Map.empty, datas = Map.empty, fresh = 0, oom = []\<rparr>"

section \<open>Errors\<close>

definition LIBELF_ERROR :: "Elf_Error \<Rightarrow> u32 \<Rightarrow> u32" where
  "LIBELF_ERROR E os = (error_code E AND 0xFF) OR push_bit 8 os"

definition set_error_os :: "Elf_Error \<Rightarrow> u32 \<Rightarrow> store \<Rightarrow> store" where
  "set_error_os E os st = st\<lparr>globals := (globals st)\<lparr>libelf_error := LIBELF_ERROR E os\<rparr>\<rparr>"

abbreviation set_error :: "Elf_Error \<Rightarrow> store \<Rightarrow> store" where
  "set_error E \<equiv> set_error_os E 0"

abbreviation (input) ENOMEM :: u32 where "ENOMEM \<equiv> 12"

definition elf_errno :: "store \<Rightarrow> u32 \<times> store" where
  "elf_errno st =
     (let old = libelf_error (globals st)
      in (old AND 0xFF, st\<lparr>globals := (globals st)\<lparr>libelf_error := 0\<rparr>\<rparr>))"

definition libelf_errors :: "string list" where
  "libelf_errors =
     [''No Error'',
      ''Malformed ar(1) archive'',
      ''Invalid argument'',
      ''ELF class mismatch'',
      ''Invalid data buffer descriptor'',
      ''Missing or malformed ELF header'',
      ''I/O error'',
      ''Layout constraint violation'',
      ''Incorrect ELF descriptor mode'',
      ''Value out of range of target'',
      ''Resource exhaustion'',
      ''Invalid section descriptor'',
      ''API calls out of sequence'',
      ''Unimplemented feature'',
      ''Unknown ELF API version'',
      ''Unknown error'']"

text \<open>
  The argument \<open>strerror\<close> is the C library's function of that name.  The message buffer
  holds 256 bytes, the last of them the terminating NUL.
\<close>

definition elf_errmsg :: "(int \<Rightarrow> string) \<Rightarrow> u32 \<Rightarrow> store \<Rightarrow> string option \<times> store" where
  "elf_errmsg strerror err st =
     (if err = 0 \<and> libelf_error (globals st) = 0 then (None, st)
      else
        let e1 = (if err = 0 then libelf_error (globals st)
                  else if err = -1 then libelf_error (globals st)
                  else err);
            oserr = signed_drop_bit 8 e1;
            e2 = e1 AND 0xFF
        in if sint e2 < 0 \<or> sint e2 \<ge> 15 then (Some (libelf_errors ! 15), st)
           else if oserr \<noteq> 0 then
             let msg = take 255 (libelf_errors ! unat e2 @ '': '' @ strerror (sint oserr))
             in (Some msg, st\<lparr>globals := (globals st)\<lparr>libelf_msg := msg\<rparr>\<rparr>)
           else (Some (libelf_errors ! unat e2), st))"

definition elf_version :: "u32 \<Rightarrow> store \<Rightarrow> u32 \<times> store" where
  "elf_version v st =
     (let old0 = libelf_version (globals st);
          old = (if old0 = EV_NONE then EV_CURRENT else old0)
      in if v = EV_NONE then (old, st)
         else if v > EV_CURRENT then (EV_NONE, set_error ELF_E_VERSION st)
         else (old, st\<lparr>globals := (globals st)\<lparr>libelf_version := v\<rparr>\<rparr>))"

definition elf_fill :: "int \<Rightarrow> store \<Rightarrow> store" where
  "elf_fill fill st = st\<lparr>globals := (globals st)\<lparr>libelf_fillchar := fill\<rparr>\<rparr>"

section \<open>Memory\<close>

definition read_bytes :: "ptr \<Rightarrow> nat \<Rightarrow> store \<Rightarrow> byte list option" where
  "read_bytes p n st =
     do { (b, off) \<leftarrow> p;
          bs \<leftarrow> mem st b;
          assert_that (off + n \<le> length bs);
          Some (take n (drop off bs)) }"

definition write_bytes :: "ptr \<Rightarrow> byte list \<Rightarrow> store \<Rightarrow> store option" where
  "write_bytes p xs st =
     do { (b, off) \<leftarrow> p;
          bs \<leftarrow> mem st b;
          assert_that (off + length xs \<le> length bs);
          Some (st\<lparr>mem := (mem st)(b \<mapsto> take off bs @ xs @ drop (off + length xs) bs)\<rparr>) }"

text \<open>Adding a 64-bit quantity to a pointer wraps as the machine's address does.\<close>

definition ptr_add :: "ptr \<Rightarrow> u64 \<Rightarrow> ptr" where
  "ptr_add p k = map_option (\<lambda>(b, off). (b, (off + unat k) mod 2 ^ 64)) p"

text \<open>The value of a pointer converted to \<open>uintptr_t\<close>.\<close>

definition addr :: "ptr \<Rightarrow> store \<Rightarrow> u64" where
  "addr p st = (case p of None \<Rightarrow> 0 | Some (b, off) \<Rightarrow> base st b + of_nat off)"

definition alloc_ok :: "store \<Rightarrow> bool \<times> store" where
  "alloc_ok st = (case oom st of [] \<Rightarrow> (True, st) | b # bs \<Rightarrow> (\<not> b, st\<lparr>oom := bs\<rparr>))"

definition malloc :: "nat \<Rightarrow> store \<Rightarrow> ptr \<times> store" where
  "malloc n st =
     (let (ok, st1) = alloc_ok st
      in if ok then
           (Some (fresh st1, 0),
            st1\<lparr>mem := (mem st1)(fresh st1 \<mapsto> replicate n 0), fresh := Suc (fresh st1)\<rparr>)
         else (None, st1))"

definition free_ptr :: "ptr \<Rightarrow> store \<Rightarrow> store option" where
  "free_ptr p st =
     (case p of None \<Rightarrow> Some st
      | Some (b, off) \<Rightarrow>
          do { bs \<leftarrow> mem st b;
               assert_that (off = 0);
               Some (st\<lparr>mem := (mem st)(b := None)\<rparr>) })"

section \<open>Descriptors\<close>

definition set_elf :: "elf_ref \<Rightarrow> Elf \<Rightarrow> store \<Rightarrow> store" where
  "set_elf e x st = st\<lparr>elfs := (elfs st)(e \<mapsto> x)\<rparr>"

definition set_scn :: "scn_ref \<Rightarrow> Elf_Scn \<Rightarrow> store \<Rightarrow> store" where
  "set_scn s x st = st\<lparr>scns := (scns st)(s \<mapsto> x)\<rparr>"

definition set_data :: "data_ref \<Rightarrow> Libelf_Data \<Rightarrow> store \<Rightarrow> store" where
  "set_data d x st = st\<lparr>datas := (datas st)(d \<mapsto> x)\<rparr>"

definition new_elf :: "u32 \<Rightarrow> Elf" where
  "new_elf version =
     \<lparr>e_activations = 1, e_byteorder = ELFDATANONE, e_class = ELFCLASSNONE,
      e_cmd = ELF_C_NULL, e_fd = -1, e_flags = 0, e_kind = ELF_K_NONE, e_parent = None,
      e_rawfile = None, e_rawsize = 0, e_version = version, e_hdr = Rawhdr None,
      e_next = 0, e_nchildren = 0, e_rawstrtab = None, e_rawstrtabsz = 0,
      e_rawsymtab = None, e_rawsymtabsz = 0, e_symtab = None, e_symtabsz = 0,
      e_ehdr = None, e_phdr = None, e_scn = [], e_nphdr = 0, e_nscn = 0, e_strndx = 0\<rparr>"

definition libelf_allocate_elf :: "store \<Rightarrow> elf_ref option \<times> store" where
  "libelf_allocate_elf st =
     (let (ok, st1) = alloc_ok st
      in if \<not> ok then (None, set_error_os ELF_E_RESOURCE ENOMEM st1)
         else (Some (fresh st1),
               (set_elf (fresh st1) (new_elf (libelf_version (globals st1))) st1)
                 \<lparr>fresh := Suc (fresh st1)\<rparr>))"

definition libelf_init_elf :: "elf_ref \<Rightarrow> Elf_Kind \<Rightarrow> store \<Rightarrow> store option" where
  "libelf_init_elf e kind st =
     do { elf \<leftarrow> elfs st e;
          assert_that (e_kind elf = ELF_K_NONE);
          Some (set_elf e (if kind = ELF_K_ELF then elf\<lparr>e_kind := kind, e_scn := []\<rparr>
                           else elf\<lparr>e_kind := kind\<rparr>) st) }"

text \<open>
  The tables that \<open>_libelf_release_elf\<close> frees are fields of the descriptor here, so
  releasing the descriptor releases them.
\<close>

definition libelf_release_elf :: "elf_ref \<Rightarrow> store \<Rightarrow> store option" where
  "libelf_release_elf e st =
     do { elf \<leftarrow> elfs st e;
          assert_that (e_kind elf = ELF_K_ELF \<longrightarrow> e_scn elf = []);
          Some (st\<lparr>elfs := (elfs st)(e := None)\<rparr>) }"

definition zero_data :: Elf_Data where
  "zero_data = \<lparr>d_align = 0, d_buf = None, d_off = 0, d_size = 0, d_type = 0, d_version = 0\<rparr>"

definition libelf_allocate_data :: "scn_ref \<Rightarrow> store \<Rightarrow> data_ref option \<times> store" where
  "libelf_allocate_data s st =
     (let (ok, st1) = alloc_ok st
      in if \<not> ok then (None, set_error ELF_E_RESOURCE st1)
         else (Some (fresh st1),
               (set_data (fresh st1) \<lparr>d_data = zero_data, d_scn = Some s, d_flags = 0\<rparr> st1)
                 \<lparr>fresh := Suc (fresh st1)\<rparr>))"

definition libelf_release_data :: "data_ref \<Rightarrow> store \<Rightarrow> store option" where
  "libelf_release_data d st =
     do { ld \<leftarrow> datas st d;
          st1 \<leftarrow> (if d_flags ld AND LIBELF_F_DATA_MALLOCED \<noteq> 0
                 then free_ptr (d_buf (d_data ld)) st else Some st);
          Some (st1\<lparr>datas := (datas st1)(d := None)\<rparr>) }"

definition zero_Elf_Shdr :: "'w::len Elf_Shdr" where
  "zero_Elf_Shdr = \<lparr>sh_name = 0, sh_type = 0, sh_flags = 0, sh_addr = 0, sh_offset = 0,
     sh_size = 0, sh_link = 0, sh_info = 0, sh_addralign = 0, sh_entsize = 0\<rparr>"

definition zero_shdr :: "int \<Rightarrow> Shdr" where
  "zero_shdr ec = (if ec = ELFCLASS32 then Shdr32 zero_Elf_Shdr else Shdr64 zero_Elf_Shdr)"

definition libelf_allocate_scn :: "elf_ref \<Rightarrow> u64 \<Rightarrow> store \<Rightarrow> (scn_ref option \<times> store) option" where
  "libelf_allocate_scn e ndx st =
     (let (ok, st1) = alloc_ok st
      in if \<not> ok then Some (None, set_error_os ELF_E_RESOURCE ENOMEM st1)
         else
           do { elf \<leftarrow> elfs st1 e;
                let s = fresh st1;
                let scn = \<lparr>s_shdr = zero_shdr (e_class elf), s_data = [], s_rawdata = [],
                           s_elf = Some e, s_flags = 0, s_ndx = ndx, s_offset = 0,
                           s_rawoff = 0, s_size = 0\<rparr>;
                Some (Some s,
                      (set_elf e (elf\<lparr>e_scn := e_scn elf @ [s]\<rparr>) (set_scn s scn st1))
                        \<lparr>fresh := Suc (fresh st1)\<rparr>) })"

fun release_all_data :: "data_ref list \<Rightarrow> store \<Rightarrow> store option" where
  "release_all_data [] st = Some st"
| "release_all_data (d # ds) st =
     do { st1 \<leftarrow> libelf_release_data d st; release_all_data ds st1 }"

definition libelf_release_scn :: "scn_ref \<Rightarrow> store \<Rightarrow> store option" where
  "libelf_release_scn s st =
     do { scn \<leftarrow> scns st s;
          st1 \<leftarrow> release_all_data (s_data scn) st;
          assert_that (list_all (\<lambda>d. case datas st1 d of None \<Rightarrow> False
              | Some ld \<Rightarrow> d_flags ld AND LIBELF_F_DATA_MALLOCED = 0) (s_rawdata scn));
          st2 \<leftarrow> release_all_data (s_rawdata scn) st1;
          e \<leftarrow> s_elf scn;
          elf \<leftarrow> elfs st2 e;
          Some ((set_elf e (elf\<lparr>e_scn := remove1 s (e_scn elf)\<rparr>) st2)
                  \<lparr>scns := (scns st2)(s := None)\<rparr>) }"

fun release_all_scns :: "scn_ref list \<Rightarrow> store \<Rightarrow> store option" where
  "release_all_scns [] st = Some st"
| "release_all_scns (s # ss) st =
     do { st1 \<leftarrow> libelf_release_scn s st; release_all_scns ss st1 }"

section \<open>Facts every component uses\<close>

lemma set_error_os_frame [simp]:
  "mem (set_error_os E x st) = mem st"
  "base (set_error_os E x st) = base st"
  "elfs (set_error_os E x st) = elfs st"
  "scns (set_error_os E x st) = scns st"
  "datas (set_error_os E x st) = datas st"
  "fresh (set_error_os E x st) = fresh st"
  "oom (set_error_os E x st) = oom st"
  "libelf_version (globals (set_error_os E x st)) = libelf_version (globals st)"
  "libelf_byteorder (globals (set_error_os E x st)) = libelf_byteorder (globals st)"
  "libelf_fillchar (globals (set_error_os E x st)) = libelf_fillchar (globals st)"
  "libelf_error (globals (set_error_os E x st)) = LIBELF_ERROR E x"
  by (simp_all add: set_error_os_def)

lemma set_elf_frame [simp]:
  "mem (set_elf e x st) = mem st"
  "base (set_elf e x st) = base st"
  "elfs (set_elf e x st) = (elfs st)(e \<mapsto> x)"
  "scns (set_elf e x st) = scns st"
  "datas (set_elf e x st) = datas st"
  "globals (set_elf e x st) = globals st"
  "fresh (set_elf e x st) = fresh st"
  "oom (set_elf e x st) = oom st"
  by (simp_all add: set_elf_def)

lemma set_scn_frame [simp]:
  "mem (set_scn e x st) = mem st"
  "base (set_scn e x st) = base st"
  "elfs (set_scn e x st) = elfs st"
  "scns (set_scn e x st) = (scns st)(e \<mapsto> x)"
  "datas (set_scn e x st) = datas st"
  "globals (set_scn e x st) = globals st"
  "fresh (set_scn e x st) = fresh st"
  "oom (set_scn e x st) = oom st"
  by (simp_all add: set_scn_def)

lemma set_data_frame [simp]:
  "mem (set_data e x st) = mem st"
  "base (set_data e x st) = base st"
  "elfs (set_data e x st) = elfs st"
  "scns (set_data e x st) = scns st"
  "datas (set_data e x st) = (datas st)(e \<mapsto> x)"
  "globals (set_data e x st) = globals st"
  "fresh (set_data e x st) = fresh st"
  "oom (set_data e x st) = oom st"
  by (simp_all add: set_data_def)

lemma alloc_ok_frame [simp]:
  "mem (snd (alloc_ok st)) = mem st"
  "base (snd (alloc_ok st)) = base st"
  "elfs (snd (alloc_ok st)) = elfs st"
  "scns (snd (alloc_ok st)) = scns st"
  "datas (snd (alloc_ok st)) = datas st"
  "globals (snd (alloc_ok st)) = globals st"
  "fresh (snd (alloc_ok st)) = fresh st"
  by (simp_all add: alloc_ok_def split: list.split)

lemma alloc_ok_D:
  assumes "alloc_ok st = (ok, st1)"
  shows "mem st1 = mem st" "base st1 = base st" "elfs st1 = elfs st" "scns st1 = scns st"
    "datas st1 = datas st" "globals st1 = globals st" "fresh st1 = fresh st"
  using assms alloc_ok_frame [of st] by simp_all

lemma alloc_ok_Nil [simp]: "oom st = [] \<Longrightarrow> alloc_ok st = (True, st)"
  by (simp add: alloc_ok_def)

lemma read_bytes_NULL [simp]: "read_bytes None n st = None"
  by (simp add: read_bytes_def)

lemma read_bytes_length: "read_bytes p n st = Some bs \<Longrightarrow> length bs = n"
  by (auto simp: read_bytes_def)

lemma read_bytes_Some [simp]:
  "read_bytes (Some (b, off)) n st =
     (case mem st b of None \<Rightarrow> None
      | Some bs \<Rightarrow> if off + n \<le> length bs then Some (take n (drop off bs)) else None)"
  by (simp add: read_bytes_def assert_that_def split: option.split)

lemma read_bytes_cong: "mem st = mem st' \<Longrightarrow> read_bytes p n st = read_bytes p n st'"
  by (simp add: read_bytes_def)

lemma elf_errno_returns_and_clears:
  "fst (elf_errno st) = libelf_error (globals st) AND 0xFF"
  "libelf_error (globals (snd (elf_errno st))) = 0"
  by (simp_all add: elf_errno_def Let_def)

lemma error_code_and_mask: "error_code E AND 0xFF = error_code E"
  by (cases E) simp_all

lemma LIBELF_ERROR_low: "LIBELF_ERROR E x AND 0xFF = error_code E"
proof -
  have "push_bit 8 x AND mask 8 = (0 :: u32)"
    by (rule bit_word_eqI) (auto simp add: bit_and_iff bit_push_bit_iff bit_mask_iff simp del: mask_numeral)
  then have "push_bit 8 x AND 0xFF = (0 :: u32)"
    by (simp add: mask_eq_exp_minus_1)
  then show ?thesis
    by (simp add: LIBELF_ERROR_def bit.conj_disj_distrib2 error_code_and_mask and.assoc)
qed

end
