(* ===== verification/Elf_Sizes.thy ===== *)
theory Elf_Sizes
  imports Libelf_State
begin

text \<open>
  Sizes and alignments of ELF types: the structure definitions of \<open>elf_types.m4\<close>, the
  tables generated from them by \<open>libelf_fsize.m4\<close> and \<open>libelf_msize.m4\<close>,
  \<open>libelf_align.c\<close>, and the map from section types to ELF types of \<open>libelf_data.c\<close>.
  Sizes and alignments of C types are those of the LP64 ABI.
\<close>

section \<open>Structure definitions\<close>

datatype basic = IDENT | BYTE | HALF | WORD | LWORD | ADDR | OFF | SWORD | XWORD | SXWORD

type_synonym layout = "(string \<times> basic) list"

definition Elf32_Cap_DEF :: layout where
  "Elf32_Cap_DEF = [(''c_tag'', WORD), (''c_un.c_val'', WORD)]"

definition Elf64_Cap_DEF :: layout where
  "Elf64_Cap_DEF = [(''c_tag'', XWORD), (''c_un.c_val'', XWORD)]"

definition Elf32_Dyn_DEF :: layout where
  "Elf32_Dyn_DEF = [(''d_tag'', SWORD), (''d_un.d_ptr'', WORD)]"

definition Elf64_Dyn_DEF :: layout where
  "Elf64_Dyn_DEF = [(''d_tag'', SXWORD), (''d_un.d_ptr'', XWORD)]"

definition Elf32_Ehdr_DEF :: layout where
  "Elf32_Ehdr_DEF =
     [(''e_ident'', IDENT), (''e_type'', HALF), (''e_machine'', HALF), (''e_version'', WORD),
      (''e_entry'', ADDR), (''e_phoff'', OFF), (''e_shoff'', OFF), (''e_flags'', WORD),
      (''e_ehsize'', HALF), (''e_phentsize'', HALF), (''e_phnum'', HALF),
      (''e_shentsize'', HALF), (''e_shnum'', HALF), (''e_shstrndx'', HALF)]"

definition Elf64_Ehdr_DEF :: layout where
  "Elf64_Ehdr_DEF =
     [(''e_ident'', IDENT), (''e_type'', HALF), (''e_machine'', HALF), (''e_version'', WORD),
      (''e_entry'', ADDR), (''e_phoff'', OFF), (''e_shoff'', OFF), (''e_flags'', WORD),
      (''e_ehsize'', HALF), (''e_phentsize'', HALF), (''e_phnum'', HALF),
      (''e_shentsize'', HALF), (''e_shnum'', HALF), (''e_shstrndx'', HALF)]"

definition Elf32_Move_DEF :: layout where
  "Elf32_Move_DEF =
     [(''m_value'', LWORD), (''m_info'', WORD), (''m_poffset'', WORD), (''m_repeat'', HALF),
      (''m_stride'', HALF)]"

definition Elf64_Move_DEF :: layout where
  "Elf64_Move_DEF =
     [(''m_value'', LWORD), (''m_info'', XWORD), (''m_poffset'', XWORD), (''m_repeat'', HALF),
      (''m_stride'', HALF)]"

definition Elf32_Phdr_DEF :: layout where
  "Elf32_Phdr_DEF =
     [(''p_type'', WORD), (''p_offset'', OFF), (''p_vaddr'', ADDR), (''p_paddr'', ADDR),
      (''p_filesz'', WORD), (''p_memsz'', WORD), (''p_flags'', WORD), (''p_align'', WORD)]"

definition Elf64_Phdr_DEF :: layout where
  "Elf64_Phdr_DEF =
     [(''p_type'', WORD), (''p_flags'', WORD), (''p_offset'', OFF), (''p_vaddr'', ADDR),
      (''p_paddr'', ADDR), (''p_filesz'', XWORD), (''p_memsz'', XWORD), (''p_align'', XWORD)]"

definition Elf32_Rel_DEF :: layout where
  "Elf32_Rel_DEF = [(''r_offset'', ADDR), (''r_info'', WORD)]"

definition Elf64_Rel_DEF :: layout where
  "Elf64_Rel_DEF = [(''r_offset'', ADDR), (''r_info'', XWORD)]"

definition Elf32_Rela_DEF :: layout where
  "Elf32_Rela_DEF = [(''r_offset'', ADDR), (''r_info'', WORD), (''r_addend'', SWORD)]"

definition Elf64_Rela_DEF :: layout where
  "Elf64_Rela_DEF = [(''r_offset'', ADDR), (''r_info'', XWORD), (''r_addend'', SXWORD)]"

definition Elf32_Shdr_DEF :: layout where
  "Elf32_Shdr_DEF =
     [(''sh_name'', WORD), (''sh_type'', WORD), (''sh_flags'', WORD), (''sh_addr'', ADDR),
      (''sh_offset'', OFF), (''sh_size'', WORD), (''sh_link'', WORD), (''sh_info'', WORD),
      (''sh_addralign'', WORD), (''sh_entsize'', WORD)]"

definition Elf64_Shdr_DEF :: layout where
  "Elf64_Shdr_DEF =
     [(''sh_name'', WORD), (''sh_type'', WORD), (''sh_flags'', XWORD), (''sh_addr'', ADDR),
      (''sh_offset'', OFF), (''sh_size'', XWORD), (''sh_link'', WORD), (''sh_info'', WORD),
      (''sh_addralign'', XWORD), (''sh_entsize'', XWORD)]"

definition Elf32_Sym_DEF :: layout where
  "Elf32_Sym_DEF =
     [(''st_name'', WORD), (''st_value'', ADDR), (''st_size'', WORD), (''st_info'', BYTE),
      (''st_other'', BYTE), (''st_shndx'', HALF)]"

definition Elf64_Sym_DEF :: layout where
  "Elf64_Sym_DEF =
     [(''st_name'', WORD), (''st_info'', BYTE), (''st_other'', BYTE), (''st_shndx'', HALF),
      (''st_value'', ADDR), (''st_size'', XWORD)]"

definition Elf32_Syminfo_DEF :: layout where
  "Elf32_Syminfo_DEF = [(''si_boundto'', HALF), (''si_flags'', HALF)]"

definition Elf64_Syminfo_DEF :: layout where
  "Elf64_Syminfo_DEF = [(''si_boundto'', HALF), (''si_flags'', HALF)]"

text \<open>The versioning structures have the same definition in both classes.\<close>

definition Elf_Verdaux_DEF :: layout where
  "Elf_Verdaux_DEF = [(''vda_name'', WORD), (''vda_next'', WORD)]"

definition Elf_Verdef_DEF :: layout where
  "Elf_Verdef_DEF =
     [(''vd_version'', HALF), (''vd_flags'', HALF), (''vd_ndx'', HALF), (''vd_cnt'', HALF),
      (''vd_hash'', WORD), (''vd_aux'', WORD), (''vd_next'', WORD)]"

definition Elf_Verneed_DEF :: layout where
  "Elf_Verneed_DEF =
     [(''vn_version'', HALF), (''vn_cnt'', HALF), (''vn_file'', WORD), (''vn_aux'', WORD),
      (''vn_next'', WORD)]"

definition Elf_Vernaux_DEF :: layout where
  "Elf_Vernaux_DEF =
     [(''vna_hash'', WORD), (''vna_flags'', HALF), (''vna_other'', HALF), (''vna_name'', WORD),
      (''vna_next'', WORD)]"

lemmas DEF_simps =
  Elf32_Cap_DEF_def Elf64_Cap_DEF_def Elf32_Dyn_DEF_def Elf64_Dyn_DEF_def
  Elf32_Ehdr_DEF_def Elf64_Ehdr_DEF_def Elf32_Move_DEF_def Elf64_Move_DEF_def
  Elf32_Phdr_DEF_def Elf64_Phdr_DEF_def Elf32_Rel_DEF_def Elf64_Rel_DEF_def
  Elf32_Rela_DEF_def Elf64_Rela_DEF_def Elf32_Shdr_DEF_def Elf64_Shdr_DEF_def
  Elf32_Sym_DEF_def Elf64_Sym_DEF_def Elf32_Syminfo_DEF_def Elf64_Syminfo_DEF_def
  Elf_Verdaux_DEF_def Elf_Verdef_DEF_def Elf_Verneed_DEF_def Elf_Vernaux_DEF_def

section \<open>Sizes of file representations\<close>

text \<open>\<open>XWORD\<close> and \<open>SXWORD\<close> do not exist in the 32-bit world: their size there is 0.\<close>

fun basic_fsize :: "int \<Rightarrow> basic \<Rightarrow> nat" where
  "basic_fsize ec IDENT = EI_NIDENT"
| "basic_fsize ec BYTE = 1"
| "basic_fsize ec HALF = 2"
| "basic_fsize ec WORD = 4"
| "basic_fsize ec LWORD = 8"
| "basic_fsize ec ADDR = (if ec = ELFCLASS64 then 8 else 4)"
| "basic_fsize ec OFF = (if ec = ELFCLASS64 then 8 else 4)"
| "basic_fsize ec SWORD = 4"
| "basic_fsize ec XWORD = (if ec = ELFCLASS64 then 8 else 0)"
| "basic_fsize ec SXWORD = (if ec = ELFCLASS64 then 8 else 0)"

definition FSZ :: "int \<Rightarrow> layout \<Rightarrow> nat" where
  "FSZ ec def = sum_list (map (basic_fsize ec \<circ> snd) def)"

text \<open>The structure type of each composite ELF type.\<close>

definition comp_layout :: "int \<Rightarrow> int \<Rightarrow> layout option" where
  "comp_layout t ec =
     (let pick = (\<lambda>a b. Some (if ec = ELFCLASS64 then b else a))
      in if t = ELF_T_CAP then pick Elf32_Cap_DEF Elf64_Cap_DEF
         else if t = ELF_T_DYN then pick Elf32_Dyn_DEF Elf64_Dyn_DEF
         else if t = ELF_T_EHDR then pick Elf32_Ehdr_DEF Elf64_Ehdr_DEF
         else if t = ELF_T_MOVE then pick Elf32_Move_DEF Elf64_Move_DEF
         else if t = ELF_T_PHDR then pick Elf32_Phdr_DEF Elf64_Phdr_DEF
         else if t = ELF_T_REL then pick Elf32_Rel_DEF Elf64_Rel_DEF
         else if t = ELF_T_RELA then pick Elf32_Rela_DEF Elf64_Rela_DEF
         else if t = ELF_T_SHDR then pick Elf32_Shdr_DEF Elf64_Shdr_DEF
         else if t = ELF_T_SYM then pick Elf32_Sym_DEF Elf64_Sym_DEF
         else if t = ELF_T_SYMINFO then pick Elf32_Syminfo_DEF Elf64_Syminfo_DEF
         else None)"

text \<open>The basic type of each ELF type that is an alias of an integral type.\<close>

definition prim_basic :: "int \<Rightarrow> basic option" where
  "prim_basic t =
     (if t = ELF_T_ADDR then Some ADDR
      else if t = ELF_T_HALF then Some HALF
      else if t = ELF_T_LWORD then Some LWORD
      else if t = ELF_T_OFF then Some OFF
      else if t = ELF_T_SWORD then Some SWORD
      else if t = ELF_T_SXWORD then Some SXWORD
      else if t = ELF_T_WORD then Some WORD
      else if t = ELF_T_XWORD then Some XWORD
      else None)"

text \<open>
  The table \<open>fsize[]\<close>.  Types of variable length (\<open>BYTE\<close>, \<open>GNUHASH\<close>, \<open>NOTE\<close>, \<open>VDEF\<close>,
  \<open>VNEED\<close>) have size 1, and the unimplemented \<open>MOVEP\<close> has size 0.
\<close>

definition fsize_table :: "int \<Rightarrow> int \<Rightarrow> nat" where
  "fsize_table t ec =
     (case prim_basic t of Some b \<Rightarrow> basic_fsize ec b
      | None \<Rightarrow> (case comp_layout t ec of Some def \<Rightarrow> FSZ ec def
                 | None \<Rightarrow> if t = ELF_T_MOVEP then 0 else 1))"

definition libelf_fsize :: "int \<Rightarrow> int \<Rightarrow> u32 \<Rightarrow> u64 \<Rightarrow> store \<Rightarrow> u64 \<times> store" where
  "libelf_fsize t ec v c st =
     (if v \<noteq> EV_CURRENT then (0, set_error ELF_E_VERSION st)
      else if t < ELF_T_FIRST \<or> t > ELF_T_LAST then (0, set_error ELF_E_ARGUMENT st)
      else
        let sz = of_nat (fsize_table t ec) :: u64
        in (sz * c, if sz = 0 then set_error ELF_E_UNIMPL st else st))"

definition elf32_fsize :: "int \<Rightarrow> u64 \<Rightarrow> u32 \<Rightarrow> store \<Rightarrow> u64 \<times> store" where
  "elf32_fsize t c v st = libelf_fsize t ELFCLASS32 v c st"

definition elf64_fsize :: "int \<Rightarrow> u64 \<Rightarrow> u32 \<Rightarrow> store \<Rightarrow> u64 \<times> store" where
  "elf64_fsize t c v st = libelf_fsize t ELFCLASS64 v c st"

definition gelf_fsize :: "elf_ref option \<Rightarrow> int \<Rightarrow> u64 \<Rightarrow> u32 \<Rightarrow> store \<Rightarrow> (u64 \<times> store) option" where
  "gelf_fsize er t c v st =
     (case er of None \<Rightarrow> Some (0, set_error ELF_E_ARGUMENT st)
      | Some e \<Rightarrow>
          do { elf \<leftarrow> elfs st e;
               if e_class elf = ELFCLASS32 \<or> e_class elf = ELFCLASS64
               then Some (libelf_fsize t (e_class elf) v c st)
               else Some (0, set_error ELF_E_ARGUMENT st) })"

section \<open>Memory representations\<close>

text \<open>
  The members of a C structure are laid out in order, each at the next multiple of its
  alignment; the size of the structure is rounded up to its largest alignment.  The
  integral types are aligned to their size; \<open>e_ident\<close> is an array of bytes.
\<close>

definition align_up :: "nat \<Rightarrow> nat \<Rightarrow> nat" where
  "align_up x a = (x + a - 1) div a * a"

fun basic_msize :: "int \<Rightarrow> basic \<Rightarrow> nat" where
  "basic_msize ec XWORD = 8"
| "basic_msize ec SXWORD = 8"
| "basic_msize ec b = basic_fsize ec b"

fun basic_align :: "int \<Rightarrow> basic \<Rightarrow> nat" where
  "basic_align ec IDENT = 1"
| "basic_align ec b = basic_msize ec b"

fun member_offsets :: "int \<Rightarrow> nat \<Rightarrow> layout \<Rightarrow> nat list" where
  "member_offsets ec off [] = []"
| "member_offsets ec off (m # ms) =
     (let o' = align_up off (basic_align ec (snd m))
      in o' # member_offsets ec (o' + basic_msize ec (snd m)) ms)"

fun members_end :: "int \<Rightarrow> nat \<Rightarrow> layout \<Rightarrow> nat" where
  "members_end ec off [] = off"
| "members_end ec off (m # ms) =
     members_end ec (align_up off (basic_align ec (snd m)) + basic_msize ec (snd m)) ms"

definition struct_align :: "int \<Rightarrow> layout \<Rightarrow> nat" where
  "struct_align ec def = foldr max (map (basic_align ec \<circ> snd) def) 1"

definition struct_size :: "int \<Rightarrow> layout \<Rightarrow> nat" where
  "struct_size ec def = align_up (members_end ec 0 def) (struct_align ec def)"

text \<open>The table \<open>msize[]\<close>.\<close>

definition msize_table :: "int \<Rightarrow> int \<Rightarrow> nat" where
  "msize_table t ec =
     (case prim_basic t of
        Some b \<Rightarrow> (if ec = ELFCLASS32 \<and> (b = XWORD \<or> b = SXWORD) then 0 else basic_msize ec b)
      | None \<Rightarrow> (case comp_layout t ec of Some def \<Rightarrow> struct_size ec def
                 | None \<Rightarrow> if t = ELF_T_MOVEP then 0 else 1))"

definition libelf_msize :: "int \<Rightarrow> int \<Rightarrow> u32 \<Rightarrow> store \<Rightarrow> (u64 \<times> store) option" where
  "libelf_msize t ec version st =
     do { assert_that (ec = ELFCLASS32 \<or> ec = ELFCLASS64);
          assert_that (t \<ge> ELF_T_FIRST \<and> t \<le> ELF_T_LAST);
          if version \<noteq> EV_CURRENT then Some (0, set_error ELF_E_VERSION st)
          else Some (of_nat (msize_table t ec), st) }"

section \<open>Alignments\<close>

text \<open>
  The tables \<open>malign[]\<close> and \<open>falign[]\<close>.  The 64-bit versioning structures and note
  headers consist of 16- and 32-bit members, so they are aligned to 4 in both classes.
\<close>

definition malign_table :: "int \<Rightarrow> int \<Rightarrow> nat" where
  "malign_table t ec =
     (if t = ELF_T_BYTE then 1
      else if t = ELF_T_MOVEP then 0
      else if t = ELF_T_NOTE \<or> t = ELF_T_VDEF \<or> t = ELF_T_VNEED then 4
      else if t = ELF_T_GNUHASH then (if ec = ELFCLASS32 then 4 else 8)
      else case prim_basic t of
        Some b \<Rightarrow> (if ec = ELFCLASS32 \<and> (b = XWORD \<or> b = SXWORD) then 0 else basic_align ec b)
      | None \<Rightarrow> (case comp_layout t ec of Some def \<Rightarrow> struct_align ec def | None \<Rightarrow> 0))"

definition libelf_malign :: "int \<Rightarrow> int \<Rightarrow> u32" where
  "libelf_malign t ec = (if t \<ge> ELF_T_NUM \<or> t < 0 then 0 else of_nat (malign_table t ec))"

definition falign_table :: "int \<Rightarrow> nat \<times> nat" where
  "falign_table t =
     [(4, 8), (1, 1), (4, 8), (4, 8), (4, 8), (2, 2), (8, 8), (8, 8), (0, 0), (4, 4),
      (4, 8), (4, 8), (4, 8), (4, 8), (4, 8), (4, 4), (0, 8), (2, 2), (4, 8), (4, 4),
      (4, 4), (4, 4), (0, 8), (4, 8)] ! nat t"

definition libelf_falign :: "int \<Rightarrow> int \<Rightarrow> u32" where
  "libelf_falign t ec =
     (if t \<ge> ELF_T_NUM \<or> t < 0 then 0
      else of_nat (if ec = ELFCLASS32 then fst (falign_table t) else snd (falign_table t)))"

section \<open>The ELF type of a section type\<close>

definition libelf_xlate_shtype :: "u32 \<Rightarrow> int" where
  "libelf_xlate_shtype sht =
     (if sht = SHT_DYNAMIC then ELF_T_DYN
      else if sht = SHT_DYNSYM then ELF_T_SYM
      else if sht = SHT_FINI_ARRAY then ELF_T_ADDR
      else if sht = SHT_GNU_HASH then ELF_T_GNUHASH
      else if sht = SHT_GNU_LIBLIST then ELF_T_WORD
      else if sht = SHT_GROUP then ELF_T_WORD
      else if sht = SHT_HASH then ELF_T_WORD
      else if sht = SHT_INIT_ARRAY then ELF_T_ADDR
      else if sht = SHT_NOBITS then ELF_T_BYTE
      else if sht = SHT_NOTE then ELF_T_NOTE
      else if sht = SHT_PREINIT_ARRAY then ELF_T_ADDR
      else if sht = SHT_PROGBITS then ELF_T_BYTE
      else if sht = SHT_REL then ELF_T_REL
      else if sht = SHT_RELA then ELF_T_RELA
      else if sht = SHT_STRTAB then ELF_T_BYTE
      else if sht = SHT_SYMTAB then ELF_T_SYM
      else if sht = SHT_SYMTAB_SHNDX then ELF_T_WORD
      else if sht = SHT_SUNW_dof then ELF_T_BYTE
      else if sht = SHT_SUNW_move then ELF_T_MOVE
      else if sht = SHT_SUNW_syminfo then ELF_T_SYMINFO
      else if sht = SHT_SUNW_verdef then ELF_T_VDEF
      else if sht = SHT_SUNW_verneed then ELF_T_VNEED
      else if sht = SHT_SUNW_versym then ELF_T_HALF
      else if sht \<ge> SHT_LOOS \<and> sht \<le> SHT_HIUSER then ELF_T_BYTE
      else -1)"

end
