(* ===== verification/Elf_Convert.thy ===== *)
theory Elf_Convert
  imports Elf_Sizes
begin

text \<open>
  Conversion between file and memory representations: \<open>libelf_convert.m4\<close>.

  A C structure in a local variable is the list of its members' object representations.
  Reading and writing a member copies bytes; only the \<open>SWAP\<close> macros look at values.  The
  byte order of the host is \<open>libelf_byteorder\<close>, which \<open>_libelf_config.h\<close> fixes to the
  order of the machine the library is compiled for.
\<close>

section \<open>Byte order\<close>

definition native_val :: "u32 \<Rightarrow> byte list \<Rightarrow> 'a::len word" where
  "native_val order bs = word_of_le (if order = ELFDATA2MSB then rev bs else bs)"

definition native_bytes :: "u32 \<Rightarrow> nat \<Rightarrow> 'a::len word \<Rightarrow> byte list" where
  "native_bytes order n w =
     (if order = ELFDATA2MSB then rev (le_of_word n w) else le_of_word n w)"

definition SWAP_HALF :: "u16 \<Rightarrow> u16" where
  "SWAP_HALF X =
     (let x = X; t = (ucast x AND 0xFF :: u32);
          t = push_bit 8 t; x = drop_bit 8 x; t = t OR (ucast x AND 0xFF)
      in ucast t)"

definition SWAP_WORD :: "u32 \<Rightarrow> u32" where
  "SWAP_WORD X =
     (let x = X; t = x AND 0xFF;
          t = push_bit 8 t; x = drop_bit 8 x; t = t OR (x AND 0xFF);
          t = push_bit 8 t; x = drop_bit 8 x; t = t OR (x AND 0xFF);
          t = push_bit 8 t; x = drop_bit 8 x; t = t OR (x AND 0xFF)
      in t)"

definition SWAP_WORD64 :: "u64 \<Rightarrow> u64" where
  "SWAP_WORD64 X =
     (let x = X; t = x AND 0xFF;
          t = push_bit 8 t; x = drop_bit 8 x; t = t OR (x AND 0xFF);
          t = push_bit 8 t; x = drop_bit 8 x; t = t OR (x AND 0xFF);
          t = push_bit 8 t; x = drop_bit 8 x; t = t OR (x AND 0xFF);
          t = push_bit 8 t; x = drop_bit 8 x; t = t OR (x AND 0xFF);
          t = push_bit 8 t; x = drop_bit 8 x; t = t OR (x AND 0xFF);
          t = push_bit 8 t; x = drop_bit 8 x; t = t OR (x AND 0xFF);
          t = push_bit 8 t; x = drop_bit 8 x; t = t OR (x AND 0xFF)
      in t)"

text \<open>\<open>SWAP_FIELD\<close>: the swap macro for a member's type, applied to the member in place.\<close>

definition SWAP_FIELD :: "u32 \<Rightarrow> int \<Rightarrow> basic \<Rightarrow> byte list \<Rightarrow> byte list" where
  "SWAP_FIELD order ec b bs =
     (let half = native_bytes order 2 (SWAP_HALF (native_val order bs));
          word = native_bytes order 4 (SWAP_WORD (native_val order bs));
          word64 = native_bytes order 8 (SWAP_WORD64 (native_val order bs))
      in case b of
           IDENT \<Rightarrow> bs
         | BYTE \<Rightarrow> bs
         | HALF \<Rightarrow> half
         | WORD \<Rightarrow> word
         | SWORD \<Rightarrow> word
         | ADDR \<Rightarrow> if ec = ELFCLASS64 then word64 else word
         | OFF \<Rightarrow> if ec = ELFCLASS64 then word64 else word
         | LWORD \<Rightarrow> word64
         | XWORD \<Rightarrow> word64
         | SXWORD \<Rightarrow> word64)"

section \<open>Structures\<close>

type_synonym struct_val = "byte list list"

text \<open>\<open>READ_STRUCT\<close>: the members one after the other, without padding.\<close>

fun READ_MEMBERS :: "int \<Rightarrow> layout \<Rightarrow> byte list \<Rightarrow> struct_val" where
  "READ_MEMBERS ec [] s = []"
| "READ_MEMBERS ec (m # ms) s =
     take (basic_fsize ec (snd m)) s # READ_MEMBERS ec ms (drop (basic_fsize ec (snd m)) s)"

fun SWAP_MEMBERS :: "u32 \<Rightarrow> int \<Rightarrow> layout \<Rightarrow> struct_val \<Rightarrow> struct_val" where
  "SWAP_MEMBERS order ec (m # ms) (v # vs) =
     SWAP_FIELD order ec (snd m) v # SWAP_MEMBERS order ec ms vs"
| "SWAP_MEMBERS order ec _ _ = []"

text \<open>\<open>WRITE_STRUCT\<close>.\<close>

definition WRITE_MEMBERS :: "struct_val \<Rightarrow> byte list" where
  "WRITE_MEMBERS t = concat t"

text \<open>
  Reading and writing a structure through a typed pointer: the members at their offsets.
  A structure assignment leaves the padding bytes of the destination as they were, one of
  the values the language allows them.
\<close>

definition put_at :: "nat \<Rightarrow> byte list \<Rightarrow> byte list \<Rightarrow> byte list" where
  "put_at off v bs = take off bs @ v @ drop (off + length v) bs"

fun put_members :: "nat list \<Rightarrow> struct_val \<Rightarrow> byte list \<Rightarrow> byte list" where
  "put_members (off # offs) (v # vs) bs = put_members offs vs (put_at off v bs)"
| "put_members _ _ bs = bs"

fun get_members :: "int \<Rightarrow> layout \<Rightarrow> nat list \<Rightarrow> byte list \<Rightarrow> struct_val" where
  "get_members ec (m # ms) (off # offs) bs =
     take (basic_fsize ec (snd m)) (drop off bs) # get_members ec ms offs bs"
| "get_members ec _ _ bs = []"

definition ptr_off :: "ptr \<Rightarrow> nat \<Rightarrow> ptr" where
  "ptr_off p k = map_option (\<lambda>(b, off). (b, off + k)) p"

definition load_struct :: "int \<Rightarrow> layout \<Rightarrow> ptr \<Rightarrow> store \<Rightarrow> struct_val option" where
  "load_struct ec def p st =
     do { bs \<leftarrow> read_bytes p (struct_size ec def) st;
          Some (get_members ec def (member_offsets ec 0 def) bs) }"

definition store_struct :: "int \<Rightarrow> layout \<Rightarrow> ptr \<Rightarrow> struct_val \<Rightarrow> store \<Rightarrow> store option" where
  "store_struct ec def p t st =
     do { old \<leftarrow> read_bytes p (struct_size ec def) st;
          write_bytes p (put_members (member_offsets ec 0 def) t old) st }"

abbreviation host_order :: "store \<Rightarrow> u32" where
  "host_order st \<equiv> libelf_byteorder (globals st)"

definition swap_if :: "bool \<Rightarrow> int \<Rightarrow> layout \<Rightarrow> store \<Rightarrow> struct_val \<Rightarrow> struct_val" where
  "swap_if byteswap ec def st t =
     (if byteswap then SWAP_MEMBERS (host_order st) ec def t else t)"

section \<open>Converters of fixed-size types\<close>

text \<open>A converter takes destination, destination size, source, count and byteswap.\<close>

type_synonym converter = "ptr \<Rightarrow> u64 \<Rightarrow> ptr \<Rightarrow> u64 \<Rightarrow> bool \<Rightarrow> store \<Rightarrow> (bool \<times> store) option"

definition memcpy :: "ptr \<Rightarrow> ptr \<Rightarrow> nat \<Rightarrow> store \<Rightarrow> store option" where
  "memcpy dst src n st =
     (if n = 0 then Some st else do { bs \<leftarrow> read_bytes src n st; write_bytes dst bs st })"

text \<open>The loop that swaps \<open>count\<close> integers from \<open>src\<close> to \<open>dst\<close>, \<open>k\<close> of them already done.\<close>

fun swap_prims :: "int \<Rightarrow> basic \<Rightarrow> bool \<Rightarrow> ptr \<Rightarrow> ptr \<Rightarrow> nat \<Rightarrow> nat \<Rightarrow> store \<Rightarrow> store option" where
  "swap_prims ec b byteswap dst src k 0 st = Some st"
| "swap_prims ec b byteswap dst src k (Suc n) st =
     (let sz = basic_fsize ec b
      in do { t \<leftarrow> read_bytes (ptr_off src (k * sz)) sz st;
              let t' = (if byteswap then SWAP_FIELD (host_order st) ec b t else t);
              st1 \<leftarrow> write_bytes (ptr_off dst (k * sz)) t' st;
              swap_prims ec b byteswap dst src (Suc k) n st1 })"

definition cvt_prim_tof :: "int \<Rightarrow> basic \<Rightarrow> converter" where
  "cvt_prim_tof ec b dst dsz src count byteswap st =
     (let sz = basic_fsize ec b
      in if \<not> byteswap then
           do { st1 \<leftarrow> memcpy dst src (unat (count * of_nat sz)) st; Some (True, st1) }
         else
           do { st1 \<leftarrow> swap_prims ec b True dst src 0 (unat count) st; Some (True, st1) })"

definition cvt_prim_tom :: "int \<Rightarrow> basic \<Rightarrow> converter" where
  "cvt_prim_tom ec b dst dsz src count byteswap st =
     (let sz = basic_fsize ec b
      in if dsz < count * of_nat sz then Some (False, st)
         else if \<not> byteswap then
           do { st1 \<leftarrow> memcpy dst src (unat (count * of_nat sz)) st; Some (True, st1) }
         else
           do { st1 \<leftarrow> swap_prims ec b True dst src 0 (unat count) st; Some (True, st1) })"

text \<open>\<open>MAKECOMPFUNCS\<close>: to the file forwards, to memory backwards.\<close>

fun comp_tof_loop :: "int \<Rightarrow> layout \<Rightarrow> bool \<Rightarrow> ptr \<Rightarrow> ptr \<Rightarrow> nat \<Rightarrow> nat \<Rightarrow> store \<Rightarrow> store option" where
  "comp_tof_loop ec def byteswap dst src k 0 st = Some st"
| "comp_tof_loop ec def byteswap dst src k (Suc n) st =
     do { t \<leftarrow> load_struct ec def (ptr_off src (k * struct_size ec def)) st;
          st1 \<leftarrow> write_bytes (ptr_off dst (k * FSZ ec def))
                   (WRITE_MEMBERS (swap_if byteswap ec def st t)) st;
          comp_tof_loop ec def byteswap dst src (Suc k) n st1 }"

fun comp_tom_loop :: "int \<Rightarrow> layout \<Rightarrow> bool \<Rightarrow> ptr \<Rightarrow> ptr \<Rightarrow> nat \<Rightarrow> store \<Rightarrow> store option" where
  "comp_tom_loop ec def byteswap dst src 0 st = Some st"
| "comp_tom_loop ec def byteswap dst src (Suc n) st =
     do { s \<leftarrow> read_bytes (ptr_off src (n * FSZ ec def)) (FSZ ec def) st;
          let t = swap_if byteswap ec def st (READ_MEMBERS ec def s);
          st1 \<leftarrow> store_struct ec def (ptr_off dst (n * struct_size ec def)) t st;
          comp_tom_loop ec def byteswap dst src n st1 }"

definition cvt_comp_tof :: "int \<Rightarrow> layout \<Rightarrow> converter" where
  "cvt_comp_tof ec def dst dsz src count byteswap st =
     do { st1 \<leftarrow> comp_tof_loop ec def byteswap dst src 0 (unat count) st; Some (True, st1) }"

definition cvt_comp_tom :: "int \<Rightarrow> layout \<Rightarrow> converter" where
  "cvt_comp_tom ec def dst dsz src count byteswap st =
     (if dsz < count * of_nat (struct_size ec def) then Some (False, st)
      else do { st1 \<leftarrow> comp_tom_loop ec def byteswap dst src (unat count) st; Some (True, st1) })"

section \<open>Bytes, GNU hash tables and notes\<close>

definition cvt_BYTE_tox :: converter where
  "cvt_BYTE_tox dst dsz src count byteswap st =
     (if dsz < count then Some (False, st)
      else do { st1 \<leftarrow> (if dst \<noteq> src then memcpy dst src (unat count) st else Some st);
                Some (True, st1) })"

definition cvt_GNUHASH32_tom :: converter where
  "cvt_GNUHASH32_tom dst dsz src srcsz byteswap st =
     cvt_prim_tom ELFCLASS32 WORD dst dsz src (srcsz div 4) byteswap st"

definition cvt_GNUHASH32_tof :: converter where
  "cvt_GNUHASH32_tof dst dsz src srcsz byteswap st =
     cvt_prim_tof ELFCLASS32 WORD dst dsz src (srcsz div 4) byteswap st"

definition read_word :: "ptr \<Rightarrow> store \<Rightarrow> u32 option" where
  "read_word p st = do { bs \<leftarrow> read_bytes p 4 st; Some (native_val (host_order st) bs) }"

definition write_word :: "ptr \<Rightarrow> u32 \<Rightarrow> store \<Rightarrow> store option" where
  "write_word p w st = write_bytes p (native_bytes (host_order st) 4 w) st"

definition cvt_GNUHASH64_tom :: converter where
  "cvt_GNUHASH64_tom dst dsz src srcsz byteswap st =
     (if dsz < 16 \<or> srcsz < 16 then Some (False, st)
      else
        do { nbuckets \<leftarrow> read_word src st;
             symndx \<leftarrow> read_word (ptr_off src 4) st;
             maskwords \<leftarrow> read_word (ptr_off src 8) st;
             shift2 \<leftarrow> read_word (ptr_off src 12) st;
             let srcsz = srcsz - 16;
             let nbuckets = (if byteswap then SWAP_WORD nbuckets else nbuckets);
             let symndx = (if byteswap then SWAP_WORD symndx else symndx);
             let maskwords = (if byteswap then SWAP_WORD maskwords else maskwords);
             let shift2 = (if byteswap then SWAP_WORD shift2 else shift2);
             let sz = (ucast nbuckets * 4 + ucast maskwords * 8 :: u64);
             if srcsz < sz \<or> dsz < sz + 16 then Some (False, st)
             else
               do { st \<leftarrow> write_word dst nbuckets st;
                    st \<leftarrow> write_word (ptr_off dst 4) symndx st;
                    st \<leftarrow> write_word (ptr_off dst 8) maskwords st;
                    st \<leftarrow> write_word (ptr_off dst 12) shift2 st;
                    let dsz = dsz - 16;
                    st \<leftarrow> swap_prims ELFCLASS64 XWORD byteswap (ptr_off dst 16) (ptr_off src 16)
                           0 (unat maskwords) st;
                    let boff = 16 + unat maskwords * 8;
                    st \<leftarrow> swap_prims ELFCLASS64 WORD byteswap (ptr_off dst boff) (ptr_off src boff)
                           0 (unat nbuckets) st;
                    let coff = boff + unat nbuckets * 4;
                    let dsz = dsz - sz;
                    let srcsz = srcsz - sz;
                    if dsz < srcsz then Some (False, st)
                    else
                      do { let nchains = (ucast (srcsz div 4) :: u32);
                           st \<leftarrow> swap_prims ELFCLASS64 WORD byteswap (ptr_off dst coff)
                                  (ptr_off src coff) 0 (unat nchains) st;
                           Some (True, st) } } })"

definition cvt_GNUHASH64_tof :: converter where
  "cvt_GNUHASH64_tof dst dsz src srcsz byteswap st =
     (if dsz < 16 \<or> srcsz < 16 then Some (False, st)
      else
        do { nbuckets \<leftarrow> read_word src st;
             symndx \<leftarrow> read_word (ptr_off src 4) st;
             maskwords \<leftarrow> read_word (ptr_off src 8) st;
             shift2 \<leftarrow> read_word (ptr_off src 12) st;
             let srcsz = srcsz - 16;
             let dsz = dsz - 16;
             let sz = (ucast nbuckets * 4 + ucast maskwords * 8 :: u64);
             if srcsz < sz \<or> dsz < sz then Some (False, st)
             else
               do { let swap = (\<lambda>w. if byteswap then SWAP_WORD w else w);
                    st \<leftarrow> write_word dst (swap nbuckets) st;
                    st \<leftarrow> write_word (ptr_off dst 4) (swap symndx) st;
                    st \<leftarrow> write_word (ptr_off dst 8) (swap maskwords) st;
                    st \<leftarrow> write_word (ptr_off dst 12) (swap shift2) st;
                    st \<leftarrow> swap_prims ELFCLASS64 XWORD byteswap (ptr_off dst 16) (ptr_off src 16)
                           0 (unat maskwords) st;
                    let boff = 16 + unat maskwords * 8;
                    st \<leftarrow> swap_prims ELFCLASS64 WORD byteswap (ptr_off dst boff) (ptr_off src boff)
                           0 (unat nbuckets) st;
                    let coff = boff + unat nbuckets * 4;
                    let srcsz = srcsz - sz;
                    let dsz = dsz - sz;
                    if dsz < srcsz then Some (False, st)
                    else
                      do { let nchains = (ucast (srcsz div 4) :: u32);
                           st \<leftarrow> swap_prims ELFCLASS64 WORD byteswap (ptr_off dst coff)
                                  (ptr_off src coff) 0 (unat nchains) st;
                           Some (True, st) } } })"

text \<open>\<open>ROUNDUP2\<close> on a 32-bit value, and on a 64-bit one: the mask \<open>~(4U - 1)\<close> has 32 bits.\<close>

definition ROUNDUP2_32 :: "u32 \<Rightarrow> u32" where
  "ROUNDUP2_32 v = (v + 4 - 1) AND NOT 3"

definition ROUNDUP2_64 :: "u64 \<Rightarrow> u64" where
  "ROUNDUP2_64 v = (v + 4 - 1) AND 0xFFFFFFFC"

function note_tom_loop :: "ptr \<Rightarrow> u64 \<Rightarrow> ptr \<Rightarrow> u64 \<Rightarrow> store \<Rightarrow> (bool \<times> store) option" where
  "note_tom_loop dst dsz src count st =
     (if count \<le> 12 then Some (True, st)
      else
        do { namesz \<leftarrow> read_word src st;
             descsz \<leftarrow> read_word (ptr_off src 4) st;
             type \<leftarrow> read_word (ptr_off src 8) st;
             let namesz = SWAP_WORD namesz;
             let descsz = SWAP_WORD descsz;
             let type = SWAP_WORD type;
             st \<leftarrow> write_word dst namesz st;
             st \<leftarrow> write_word (ptr_off dst 4) descsz st;
             st \<leftarrow> write_word (ptr_off dst 8) type st;
             let dsz = dsz - 12;
             let count' = count - 12;
             let sz = (ucast (ROUNDUP2_32 namesz + ROUNDUP2_32 descsz) :: u64);
             if count' < sz \<or> dsz < sz then Some (False, st)
             else
               do { st \<leftarrow> memcpy (ptr_off dst 12) (ptr_off src 12) (unat sz) st;
                    note_tom_loop (ptr_off dst (12 + unat sz)) (dsz - sz)
                      (ptr_off src (12 + unat sz)) (count' - sz) st } })"
  by pat_completeness auto
termination
proof (relation "measure (\<lambda>(dst, dsz, src, count, st). unat count)", goal_cases)
  case 1
  then show ?case by simp
next
  case prems: (2 dst dsz src count st)
  have "12 \<le> count" using prems(1) by simp
  then have "unat (count - 12) = unat count - 12" and "12 \<le> unat count"
    by (simp_all add: unat_sub word_le_nat_alt)
  moreover have "unat (count - 12 - z) \<le> unat (count - 12)" if "\<not> count - 12 < z" for z
    using that by (simp add: unat_sub not_less)
  ultimately show ?case using prems by (auto simp: word_le_nat_alt not_le) (metis diff_less le_less_trans zero_less_numeral less_le_trans)
qed

declare note_tom_loop.simps [simp del]

definition cvt_NOTE_tom :: converter where
  "cvt_NOTE_tom dst dsz src count byteswap st =
     (if dsz < count then Some (False, st)
      else if count < 12 then Some (False, st)
      else if \<not> byteswap then
        do { st1 \<leftarrow> memcpy dst src (unat count) st; Some (True, st1) }
      else note_tom_loop dst dsz src count st)"

text \<open>The bytes that follow a note's header: name and descriptor, cut off where the input ends.\<close>

definition note_payload :: "u32 \<Rightarrow> u32 \<Rightarrow> u64 \<Rightarrow> u64" where
  "note_payload namesz descsz count =
     (let sz = ROUNDUP2_64 (ROUNDUP2_64 (ucast namesz) + ucast descsz)
      in if count < sz then count else sz)"

lemma note_payload_le: "note_payload namesz descsz count \<le> count"
  by (simp add: note_payload_def Let_def not_less)

function note_tof_loop :: "ptr \<Rightarrow> ptr \<Rightarrow> u64 \<Rightarrow> store \<Rightarrow> (bool \<times> store) option" where
  "note_tof_loop dst src count st =
     (if count \<le> 12 then Some (True, st)
      else
        do { namesz \<leftarrow> read_word src st;
             descsz \<leftarrow> read_word (ptr_off src 4) st;
             type \<leftarrow> read_word (ptr_off src 8) st;
             st \<leftarrow> write_word dst (SWAP_WORD namesz) st;
             st \<leftarrow> write_word (ptr_off dst 4) (SWAP_WORD descsz) st;
             st \<leftarrow> write_word (ptr_off dst 8) (SWAP_WORD type) st;
             let count' = count - 12;
             let sz = note_payload namesz descsz count';
             st \<leftarrow> memcpy (ptr_off dst 12) (ptr_off src 12) (unat sz) st;
             note_tof_loop (ptr_off dst (12 + unat sz)) (ptr_off src (12 + unat sz))
               (count' - sz) st })"
  by pat_completeness auto
termination
proof (relation "measure (\<lambda>(dst, src, count, st). unat count)", goal_cases)
  case 1
  then show ?case by simp
next
  case prems: (2 dst src count st)
  have "12 \<le> count" using prems(1) by simp
  then have "unat (count - 12) = unat count - 12" and "12 \<le> unat count"
    by (simp_all add: unat_sub word_le_nat_alt)
  moreover have "unat (count - 12 - note_payload a b (count - 12)) \<le> unat (count - 12)" for a b
    by (simp add: unat_sub note_payload_le)
  ultimately show ?case using prems
    by (auto simp: word_le_nat_alt not_le)
      (metis diff_less le_less_trans zero_less_numeral less_le_trans)
qed

declare note_tof_loop.simps [simp del]

definition cvt_NOTE_tof :: converter where
  "cvt_NOTE_tof dst dsz src count byteswap st =
     (if dsz < count then Some (False, st)
      else if \<not> byteswap then
        do { st1 \<leftarrow> memcpy dst src (unat count) st; Some (True, st1) }
      else note_tof_loop dst src count st)"

section \<open>Version definitions and requirements\<close>

text \<open>
  \<open>MAKE_VERSION_CONVERTER\<close>.  The structures differ in the position of the members that
  link them, so a converter takes these: the layouts of the two structures, the positions
  of \<open>cnt\<close>, \<open>aux\<close> and \<open>next\<close> in the first and of \<open>next\<close> in the second.  \<open>srem\<close> and
  \<open>drem\<close> are the bytes left from \<open>src\<close> to \<open>srcend\<close> and from \<open>dst\<close> to \<open>dstend\<close>; they
  are negative once a link leads past the end.
\<close>

record version_kind =
  vk_def :: layout
  vk_aux_def :: layout
  vk_cnt :: nat
  vk_aux :: nat
  vk_next :: nat
  vk_aux_next :: nat

definition VDEF_kind :: version_kind where
  "VDEF_kind = \<lparr>vk_def = Elf_Verdef_DEF, vk_aux_def = Elf_Verdaux_DEF, vk_cnt = 3,
     vk_aux = 5, vk_next = 6, vk_aux_next = 1\<rparr>"

definition VNEED_kind :: version_kind where
  "VNEED_kind = \<lparr>vk_def = Elf_Verneed_DEF, vk_aux_def = Elf_Vernaux_DEF, vk_cnt = 1,
     vk_aux = 3, vk_next = 4, vk_aux_next = 4\<rparr>"

definition member_val :: "store \<Rightarrow> struct_val \<Rightarrow> nat \<Rightarrow> u32" where
  "member_val st t i = native_val (host_order st) (t ! i)"

text \<open>The loop over auxiliary entries; the result is \<open>anext || cnt\<close> at its end.\<close>

function vaux_tof_loop ::
  "int \<Rightarrow> version_kind \<Rightarrow> bool \<Rightarrow> ptr \<Rightarrow> int \<Rightarrow> ptr \<Rightarrow> int \<Rightarrow> u32 \<Rightarrow> u32 \<Rightarrow> store \<Rightarrow> (bool \<times> store) option"
where
  "vaux_tof_loop ec vk byteswap dst drem src srem cnt anext st =
     (if cnt \<noteq> 0 \<and> anext \<noteq> 0 \<and> int (FSZ ec (vk_aux_def vk)) \<le> drem
          \<and> int (struct_size ec (vk_aux_def vk)) \<le> srem then
        do { a \<leftarrow> load_struct ec (vk_aux_def vk) src st;
             let anext' = member_val st a (vk_aux_next vk);
             st \<leftarrow> write_bytes dst (WRITE_MEMBERS (swap_if byteswap ec (vk_aux_def vk) st a)) st;
             vaux_tof_loop ec vk byteswap (ptr_off dst (unat anext')) (drem - uint anext')
               (ptr_off src (unat anext')) (srem - uint anext') (cnt - 1) anext' st }
      else Some (anext \<noteq> 0 \<or> cnt \<noteq> 0, st))"
  by pat_completeness auto
termination
  by (relation "measure (\<lambda>(ec, vk, byteswap, dst, drem, src, srem, cnt, anext, st). unat cnt)")
    (auto simp: unat_sub word_le_nat_alt unat_gt_0 word_neq_0_conv Suc_le_eq unat_minus_one)

declare vaux_tof_loop.simps [simp del]

function vaux_tom_loop ::
  "int \<Rightarrow> version_kind \<Rightarrow> bool \<Rightarrow> ptr \<Rightarrow> int \<Rightarrow> ptr \<Rightarrow> int \<Rightarrow> u32 \<Rightarrow> u32 \<Rightarrow> store \<Rightarrow> (bool \<times> store) option"
where
  "vaux_tom_loop ec vk byteswap dst drem src srem cnt anext st =
     (if cnt \<noteq> 0 \<and> anext \<noteq> 0 \<and> int (struct_size ec (vk_aux_def vk)) \<le> drem
          \<and> int (FSZ ec (vk_aux_def vk)) \<le> srem then
        do { s \<leftarrow> read_bytes src (FSZ ec (vk_aux_def vk)) st;
             let a = swap_if byteswap ec (vk_aux_def vk) st (READ_MEMBERS ec (vk_aux_def vk) s);
             let anext' = member_val st a (vk_aux_next vk);
             st \<leftarrow> store_struct ec (vk_aux_def vk) dst a st;
             vaux_tom_loop ec vk byteswap (ptr_off dst (unat anext')) (drem - uint anext')
               (ptr_off src (unat anext')) (srem - uint anext') (cnt - 1) anext' st }
      else Some (anext \<noteq> 0 \<or> cnt \<noteq> 0, st))"
  by pat_completeness auto
termination
  by (relation "measure (\<lambda>(ec, vk, byteswap, dst, drem, src, srem, cnt, anext, st). unat cnt)")
    (auto simp: unat_sub word_le_nat_alt unat_gt_0 word_neq_0_conv Suc_le_eq unat_minus_one)

declare vaux_tom_loop.simps [simp del]

text \<open>
  The loop over version structures.  The third operand of the outer \<open>for\<close> adds \<open>vnext\<close> to
  both pointers, and a \<open>vnext\<close> of 0 ends the loop, so the bytes left shrink on every turn.
\<close>

function version_tof_loop ::
  "int \<Rightarrow> version_kind \<Rightarrow> bool \<Rightarrow> ptr \<Rightarrow> int \<Rightarrow> ptr \<Rightarrow> int \<Rightarrow> u32 \<Rightarrow> store \<Rightarrow> (bool \<times> store) option"
where
  "version_tof_loop ec vk byteswap dst drem src srem vnext st =
     (if vnext \<noteq> 0 \<and> int (FSZ ec (vk_def vk)) \<le> drem
          \<and> int (struct_size ec (vk_def vk)) \<le> srem then
        do { t \<leftarrow> load_struct ec (vk_def vk) src st;
             let aux = member_val st t (vk_aux vk);
             let cnt = member_val st t (vk_cnt vk);
             let vnext' = member_val st t (vk_next vk);
             st \<leftarrow> write_bytes dst (WRITE_MEMBERS (swap_if byteswap ec (vk_def vk) st t)) st;
             if unat aux < FSZ ec (vk_def vk) then Some (False, st)
             else
               do { (bad, st) \<leftarrow> vaux_tof_loop ec vk byteswap (ptr_off dst (unat aux))
                      (drem - uint aux) (ptr_off src (unat aux)) (srem - uint aux) cnt (-1) st;
                    if bad then Some (False, st)
                    else if vnext' = 0 then Some (True, st)
                    else version_tof_loop ec vk byteswap (ptr_off dst (unat vnext'))
                           (drem - uint vnext') (ptr_off src (unat vnext'))
                           (srem - uint vnext') vnext' st } }
      else Some (vnext = 0, st))"
  by pat_completeness auto
termination
  by (relation "measure (\<lambda>(ec, vk, byteswap, dst, drem, src, srem, vnext, st). nat (drem + 1))")
    (auto dest!: uint_ge_1)

declare version_tof_loop.simps [simp del]

function version_tom_loop ::
  "int \<Rightarrow> version_kind \<Rightarrow> bool \<Rightarrow> ptr \<Rightarrow> int \<Rightarrow> ptr \<Rightarrow> int \<Rightarrow> u32 \<Rightarrow> store \<Rightarrow> (bool \<times> store) option"
where
  "version_tom_loop ec vk byteswap dst drem src srem vnext st =
     (if vnext \<noteq> 0 \<and> int (FSZ ec (vk_def vk)) \<le> srem
          \<and> int (struct_size ec (vk_def vk)) \<le> drem then
        do { s \<leftarrow> read_bytes src (FSZ ec (vk_def vk)) st;
             let t = swap_if byteswap ec (vk_def vk) st (READ_MEMBERS ec (vk_def vk) s);
             st \<leftarrow> store_struct ec (vk_def vk) dst t st;
             let aux = member_val st t (vk_aux vk);
             let cnt = member_val st t (vk_cnt vk);
             let vnext' = member_val st t (vk_next vk);
             if unat aux < struct_size ec (vk_def vk) then Some (False, st)
             else
               do { (bad, st) \<leftarrow> vaux_tom_loop ec vk byteswap (ptr_off dst (unat aux))
                      (drem - uint aux) (ptr_off src (unat aux)) (srem - uint aux) cnt (-1) st;
                    if bad then Some (False, st)
                    else if vnext' = 0 then Some (True, st)
                    else version_tom_loop ec vk byteswap (ptr_off dst (unat vnext'))
                           (drem - uint vnext') (ptr_off src (unat vnext'))
                           (srem - uint vnext') vnext' st } }
      else Some (vnext = 0, st))"
  by pat_completeness auto
termination
  by (relation "measure (\<lambda>(ec, vk, byteswap, dst, drem, src, srem, vnext, st). nat (drem + 1))")
    (auto dest!: uint_ge_1)

declare version_tom_loop.simps [simp del]

definition cvt_version_tof :: "int \<Rightarrow> version_kind \<Rightarrow> converter" where
  "cvt_version_tof ec vk dst dsz src count byteswap st =
     version_tof_loop ec vk byteswap dst (uint dsz) src (uint count) (-1) st"

definition cvt_version_tom :: "int \<Rightarrow> version_kind \<Rightarrow> converter" where
  "cvt_version_tom ec vk dst dsz src count byteswap st =
     version_tom_loop ec vk byteswap dst (uint dsz) src (uint count) (-1) st"

section \<open>The table of converters\<close>

datatype direction = ELF_TOFILE | ELF_TOMEMORY

text \<open>\<open>None\<close> is the \<open>NULL\<close> entry of a type without a converter.\<close>

definition cvt_table :: "int \<Rightarrow> direction \<Rightarrow> int \<Rightarrow> converter option" where
  "cvt_table t dir ec =
     (let tof = (dir = ELF_TOFILE)
      in if t = ELF_T_BYTE then Some cvt_BYTE_tox
         else if t = ELF_T_NOTE then Some (if tof then cvt_NOTE_tof else cvt_NOTE_tom)
         else if t = ELF_T_GNUHASH then
           Some (if ec = ELFCLASS32
                 then (if tof then cvt_GNUHASH32_tof else cvt_GNUHASH32_tom)
                 else (if tof then cvt_GNUHASH64_tof else cvt_GNUHASH64_tom))
         else if t = ELF_T_VDEF then
           Some (if tof then cvt_version_tof ec VDEF_kind else cvt_version_tom ec VDEF_kind)
         else if t = ELF_T_VNEED then
           Some (if tof then cvt_version_tof ec VNEED_kind else cvt_version_tom ec VNEED_kind)
         else case prim_basic t of
             Some b \<Rightarrow>
               if ec = ELFCLASS32 \<and> (b = XWORD \<or> b = SXWORD) then None
               else Some (if tof then cvt_prim_tof ec b else cvt_prim_tom ec b)
           | None \<Rightarrow>
               (case comp_layout t ec of
                  Some def \<Rightarrow> Some (if tof then cvt_comp_tof ec def else cvt_comp_tom ec def)
                | None \<Rightarrow> None))"

definition libelf_get_translator :: "int \<Rightarrow> direction \<Rightarrow> int \<Rightarrow> converter option option" where
  "libelf_get_translator t dir ec =
     do { assert_that (ec = ELFCLASS32 \<or> ec = ELFCLASS64);
          if t \<ge> ELF_T_NUM then Some None
          else do { assert_that (0 \<le> t); Some (cvt_table t dir ec) } }"

text \<open>Calling through the returned pointer; a \<open>NULL\<close> pointer faults.\<close>

definition translate :: "int \<Rightarrow> direction \<Rightarrow> int \<Rightarrow> converter" where
  "translate t dir ec dst dsz src count byteswap st =
     do { f \<leftarrow> libelf_get_translator t dir ec;
          cvt \<leftarrow> f;
          cvt dst dsz src count byteswap st }"

end
