(* ===== verification/Elf_Convert_Facts.thy ===== *)
theory Elf_Convert_Facts
  imports Elf_Convert
begin

text \<open>
  What the converters compute.  The \<open>SWAP\<close> macros reverse object representations; the
  structure loops, run in place or between two blocks, convert every element of the source
  as it was before the call; and conversion to memory and back is the identity.
\<close>

section \<open>Byte order\<close>

lemma drop_bit_8_word_of_le:
  assumes "8 * Suc (length bs) \<le> LENGTH('a::len)"
  shows "drop_bit 8 (word_of_le (b # bs) :: 'a word) = word_of_le bs"
proof (rule bit_word_eqI)
  fix n assume "n < LENGTH('a)"
  have "(8 + n) div 8 = Suc (n div 8)" "(8 + n) mod 8 = n mod 8" by simp_all
  then show "bit (drop_bit 8 (word_of_le (b # bs) :: 'a word)) n = bit (word_of_le bs :: 'a word) n"
    using assms by (auto simp: bit_drop_bit_eq bit_word_of_le)
qed

lemma and_FF_word_of_le:
  assumes "8 \<le> LENGTH('a::len)"
  shows "word_of_le (b # bs) AND (0xFF :: 'a word) = ucast b"
proof -
  have "word_of_le (b # bs) AND mask 8 = (ucast b :: 'a word)"
    using assms
    by (intro bit_word_eqI)
      (auto simp: bit_and_iff bit_mask_iff bit_word_of_le bit_ucast_iff nth_Cons'
        simp del: mask_numeral dest: bit_imp_le_length)
  then show ?thesis by (simp add: mask_eq_exp_minus_1)
qed

lemma ucast_word_of_le_16_32:
  "length bs \<le> 2 \<Longrightarrow> (ucast (word_of_le bs :: u16) :: u32) = word_of_le bs"
  by (rule bit_word_eqI) (auto simp: bit_ucast_iff bit_word_of_le)

lemma ucast_word_of_le_32_16: "(ucast (word_of_le bs :: u32) :: u16) = word_of_le bs"
  by (rule bit_word_eqI) (auto simp: bit_ucast_iff bit_word_of_le)

lemma length_2_conv: "length xs = 2 \<longleftrightarrow> (\<exists>a b. xs = [a, b])"
  by (auto simp: numeral_2_eq_2 length_Suc_conv)

lemma length_4_conv: "length xs = 4 \<longleftrightarrow> (\<exists>a b c d. xs = [a, b, c, d])"
  by (auto simp: numeral_eq_Suc length_Suc_conv)

lemma length_8_conv: "length xs = 8 \<longleftrightarrow> (\<exists>a b c d e f g h. xs = [a, b, c, d, e, f, g, h])"
  by (auto simp: numeral_eq_Suc length_Suc_conv)

lemma SWAP_HALF_word_of_le:
  assumes "length bs = 2"
  shows "SWAP_HALF (word_of_le bs) = word_of_le (rev bs)"
proof -
  from assms obtain a b where bs: "bs = [a, b]" by (auto simp: length_2_conv)
  have "SWAP_HALF (word_of_le bs) = ucast (push_bit 8 (ucast a) OR ucast b :: u32)"
    by (simp add: bs SWAP_HALF_def Let_def drop_bit_8_word_of_le and_FF_word_of_le
        ucast_word_of_le_16_32 del: push_bit_and)
  also have "(push_bit 8 (ucast a) OR ucast b :: u32) = word_of_le (rev bs)"
    by (simp add: bs word_of_le_Cons)
  finally show ?thesis by (simp only: ucast_word_of_le_32_16)
qed

lemma SWAP_WORD_word_of_le:
  assumes "length bs = 4"
  shows "SWAP_WORD (word_of_le bs) = word_of_le (rev bs)"
proof -
  from assms obtain a b c d where bs: "bs = [a, b, c, d]" by (auto simp: length_4_conv)
  show ?thesis
    unfolding bs SWAP_WORD_def Let_def
    by (simp add: drop_bit_8_word_of_le and_FF_word_of_le del: push_bit_and) (simp add: word_of_le_Cons)
qed

lemma SWAP_WORD64_word_of_le:
  assumes "length bs = 8"
  shows "SWAP_WORD64 (word_of_le bs) = word_of_le (rev bs)"
proof -
  from assms obtain a b c d e f g h where bs: "bs = [a, b, c, d, e, f, g, h]"
    by (auto simp: length_8_conv)
  show ?thesis
    unfolding bs SWAP_WORD64_def Let_def
    by (simp add: drop_bit_8_word_of_le and_FF_word_of_le del: push_bit_and) (simp add: word_of_le_Cons)
qed

lemma native_bytes_val [simp]:
  "length bs = n \<Longrightarrow> 8 * n \<le> LENGTH('a::len)
    \<Longrightarrow> native_bytes order n (native_val order bs :: 'a word) = bs"
  by (auto simp: native_bytes_def native_val_def le_of_word_of_le)

lemma native_bytes_word_of_le_rev:
  "length bs = n \<Longrightarrow> 8 * n \<le> LENGTH('a::len)
    \<Longrightarrow> native_bytes order n (word_of_le (if order = ELFDATA2MSB then bs else rev bs) :: 'a word)
        = rev bs"
  by (auto simp: native_bytes_def le_of_word_of_le)

text \<open>What \<open>SWAP_FIELD\<close> does to an object representation.\<close>

definition swap_bytes :: "basic \<Rightarrow> byte list \<Rightarrow> byte list" where
  "swap_bytes b bs = (if b = IDENT then bs else rev bs)"

lemma SWAP_FIELD_eq:
  assumes "length bs = basic_fsize ec b" and "b = XWORD \<or> b = SXWORD \<longrightarrow> ec = ELFCLASS64"
  shows "SWAP_FIELD order ec b bs = swap_bytes b bs"
proof -
  have half: "native_bytes order 2 (SWAP_HALF (native_val order bs)) = rev bs" if "length bs = 2"
    using that by (auto simp: native_val_def native_bytes_def SWAP_HALF_word_of_le le_of_word_of_le)
  have word: "native_bytes order 4 (SWAP_WORD (native_val order bs)) = rev bs" if "length bs = 4"
    using that by (auto simp: native_val_def native_bytes_def SWAP_WORD_word_of_le le_of_word_of_le)
  have word64: "native_bytes order 8 (SWAP_WORD64 (native_val order bs)) = rev bs" if "length bs = 8"
    using that by (auto simp: native_val_def native_bytes_def SWAP_WORD64_word_of_le le_of_word_of_le)
  show ?thesis
    using assms half word word64
    by (cases b) (auto simp: SWAP_FIELD_def Let_def swap_bytes_def length_Suc_conv split: if_splits)
qed

section \<open>Structures and their members\<close>

text \<open>The layouts of a class have no member of an integral type the class lacks.\<close>

definition valid_layout :: "int \<Rightarrow> layout \<Rightarrow> bool" where
  "valid_layout ec def =
     list_all (\<lambda>m. snd m = XWORD \<or> snd m = SXWORD \<longrightarrow> ec = ELFCLASS64) def"

definition members_ok :: "int \<Rightarrow> layout \<Rightarrow> struct_val \<Rightarrow> bool" where
  "members_ok ec def vs = list_all2 (\<lambda>m v. length v = basic_fsize ec (snd m)) def vs"

lemma valid_layout_simps [simp]:
  "valid_layout ec []"
  "valid_layout ec (m # ms) \<longleftrightarrow>
     (snd m = XWORD \<or> snd m = SXWORD \<longrightarrow> ec = ELFCLASS64) \<and> valid_layout ec ms"
  by (simp_all add: valid_layout_def)

lemma members_ok_simps [simp]:
  "members_ok ec [] vs \<longleftrightarrow> vs = []"
  "members_ok ec (m # ms) (v # vs) \<longleftrightarrow> length v = basic_fsize ec (snd m) \<and> members_ok ec ms vs"
  "\<not> members_ok ec (m # ms) []"
  by (simp_all add: members_ok_def)

lemma FSZ_simps [simp]:
  "FSZ ec [] = 0"
  "FSZ ec (m # ms) = basic_fsize ec (snd m) + FSZ ec ms"
  by (simp_all add: FSZ_def)

lemma basic_msize_fsize:
  "(b = XWORD \<or> b = SXWORD \<longrightarrow> ec = ELFCLASS64) \<Longrightarrow> basic_msize ec b = basic_fsize ec b"
  by (cases b) auto

lemma basic_align_pos [simp]: "0 < basic_align ec b"
  by (cases b) auto

lemma align_up_ge: "0 < a \<Longrightarrow> x \<le> align_up x a"
proof -
  assume a: "0 < a"
  have "(x + a - 1) div a * a + (x + a - 1) mod a = x + a - 1"
    by simp
  moreover have "(x + a - 1) mod a < a" using a by simp
  ultimately show ?thesis using a unfolding align_up_def by linarith
qed

lemma align_up_dvd [simp]: "a dvd align_up x a"
  by (simp add: align_up_def)

lemma members_end_ge: "off \<le> members_end ec off ms"
proof (induction ms arbitrary: off)
  case (Cons m ms)
  have "off \<le> align_up off (basic_align ec (snd m)) + basic_msize ec (snd m)"
    using align_up_ge [OF basic_align_pos, of off ec "snd m"] by simp
  also have "\<dots> \<le> members_end ec (align_up off (basic_align ec (snd m)) + basic_msize ec (snd m)) ms"
    by (rule Cons.IH)
  finally show ?case by simp
qed simp

lemma FSZ_le_members_end:
  "valid_layout ec ms \<Longrightarrow> off + FSZ ec ms \<le> members_end ec off ms"
proof (induction ms arbitrary: off)
  case (Cons m ms)
  have "off \<le> align_up off (basic_align ec (snd m))"
    by (rule align_up_ge) simp
  moreover have "align_up off (basic_align ec (snd m)) + basic_msize ec (snd m) + FSZ ec ms
      \<le> members_end ec (align_up off (basic_align ec (snd m)) + basic_msize ec (snd m)) ms"
    using Cons by simp
  ultimately show ?case using Cons.prems by (simp add: basic_msize_fsize)
qed simp

lemma struct_align_pos [simp]: "0 < struct_align ec def"
  unfolding struct_align_def by (induction def) auto

lemma members_end_le_struct_size: "members_end ec 0 def \<le> struct_size ec def"
  unfolding struct_size_def by (rule align_up_ge) simp

lemma FSZ_le_struct_size: "valid_layout ec def \<Longrightarrow> FSZ ec def \<le> struct_size ec def"
  using FSZ_le_members_end [of ec def 0] members_end_le_struct_size [of ec def] by simp

lemma length_put_at [simp]: "off + length v \<le> length bs \<Longrightarrow> length (put_at off v bs) = length bs"
  by (simp add: put_at_def)

lemma take_put_at: "n \<le> off \<Longrightarrow> off + length v \<le> length bs \<Longrightarrow> take n (put_at off v bs) = take n bs"
  by (simp add: put_at_def min_def)

lemma put_members_length_take:
  assumes "valid_layout ec ms" "members_ok ec ms vs" "members_end ec off ms \<le> length bs"
  shows "length (put_members (member_offsets ec off ms) vs bs) = length bs
    \<and> take off (put_members (member_offsets ec off ms) vs bs) = take off bs"
  using assms
proof (induction ms arbitrary: off vs bs)
  case Nil
  then show ?case by simp
next
  case (Cons m ms)
  define o' where "o' = align_up off (basic_align ec (snd m))"
  define e where "e = o' + basic_msize ec (snd m)"
  obtain v vs' where vs: "vs = v # vs'" using Cons.prems by (cases vs) auto
  have len: "length v = basic_msize ec (snd m)"
    using Cons.prems vs by (simp add: basic_msize_fsize)
  have oe: "off \<le> o'" by (simp add: o'_def align_up_ge)
  have e_le: "e \<le> length bs"
    using Cons.prems(3) members_end_ge [of e ec ms] by (simp add: e_def o'_def)
  have IH: "length (put_members (member_offsets ec e ms) vs' (put_at o' v bs)) = length bs
    \<and> take e (put_members (member_offsets ec e ms) vs' (put_at o' v bs)) = take e (put_at o' v bs)"
    using Cons.IH [of vs' e "put_at o' v bs"] Cons.prems vs len e_le
    by (simp add: e_def o'_def)
  have "take off (put_members (member_offsets ec e ms) vs' (put_at o' v bs))
      = take off (take e (put_at o' v bs))"
    using conjunct2 [OF IH] oe by (metis (no_types) e_def le_add1 le_trans min.absorb1 take_take)
  also have "\<dots> = take off bs"
    using oe len e_le by (simp add: take_put_at e_def min_def)
  finally show ?case using conjunct1 [OF IH] by (simp add: vs Let_def e_def o'_def)
qed

lemma get_put_members:
  assumes "valid_layout ec ms" "members_ok ec ms vs" "members_end ec off ms \<le> length bs"
  shows "get_members ec ms (member_offsets ec off ms)
           (put_members (member_offsets ec off ms) vs bs) = vs"
  using assms
proof (induction ms arbitrary: off vs bs)
  case Nil
  then show ?case by simp
next
  case (Cons m ms)
  define o' where "o' = align_up off (basic_align ec (snd m))"
  define e where "e = o' + basic_msize ec (snd m)"
  obtain v vs' where vs: "vs = v # vs'" using Cons.prems by (cases vs) auto
  have len: "length v = basic_fsize ec (snd m)" and e_eq: "e = o' + length v"
    using Cons.prems vs by (simp_all add: basic_msize_fsize e_def)
  have e_le: "e \<le> length bs"
    using Cons.prems(3) members_end_ge [of e ec ms] by (simp add: e_def o'_def)
  let ?bs' = "put_members (member_offsets ec e ms) vs' (put_at o' v bs)"
  have hyps: "valid_layout ec ms" "members_ok ec ms vs'"
    "members_end ec e ms \<le> length (put_at o' v bs)"
    using Cons.prems vs e_le len by (simp_all add: e_def o'_def basic_msize_fsize)
  have rest: "get_members ec ms (member_offsets ec e ms) ?bs' = vs'"
    using hyps by (rule Cons.IH)
  have "take (length v) (drop o' ?bs') = drop o' (take e ?bs')"
    by (simp add: e_eq take_drop add.commute)
  also have "take e ?bs' = take e (put_at o' v bs)"
    using put_members_length_take [OF hyps] by simp
  also have "drop o' (take e (put_at o' v bs)) = v"
    using e_le by (simp add: e_eq put_at_def drop_take)
  finally show ?case using rest len by (simp add: vs Let_def e_def o'_def)
qed

lemma READ_MEMBERS_ok:
  "length s = FSZ ec ms \<Longrightarrow> members_ok ec ms (READ_MEMBERS ec ms s)"
  by (induction ms arbitrary: s) auto

lemma WRITE_READ_MEMBERS:
  "length s = FSZ ec ms \<Longrightarrow> WRITE_MEMBERS (READ_MEMBERS ec ms s) = s"
  by (induction ms arbitrary: s) (auto simp: WRITE_MEMBERS_def)

lemma get_members_ok:
  "valid_layout ec ms \<Longrightarrow> members_end ec off ms \<le> length bs
    \<Longrightarrow> members_ok ec ms (get_members ec ms (member_offsets ec off ms) bs)"
proof (induction ms arbitrary: off)
  case (Cons m ms)
  define e where "e = align_up off (basic_align ec (snd m)) + basic_msize ec (snd m)"
  have "e \<le> length bs" using Cons.prems(2) members_end_ge [of e ec ms] by (simp add: e_def)
  then show ?case using Cons by (simp add: Let_def e_def basic_msize_fsize)
qed simp

lemma length_WRITE_MEMBERS: "members_ok ec ms vs \<Longrightarrow> length (WRITE_MEMBERS vs) = FSZ ec ms"
  by (induction ms arbitrary: vs) (auto simp: WRITE_MEMBERS_def members_ok_def list_all2_Cons1)

text \<open>Swapping the members of a structure: the host's byte order does not matter.\<close>

definition swap_vals :: "layout \<Rightarrow> struct_val \<Rightarrow> struct_val" where
  "swap_vals def vs = map2 (\<lambda>m v. swap_bytes (snd m) v) def vs"

lemma SWAP_MEMBERS_eq:
  "valid_layout ec ms \<Longrightarrow> members_ok ec ms vs \<Longrightarrow> SWAP_MEMBERS order ec ms vs = swap_vals ms vs"
proof (induction ms arbitrary: vs)
  case (Cons m ms)
  then show ?case by (cases vs) (auto simp: swap_vals_def SWAP_FIELD_eq)
qed (simp add: swap_vals_def)

lemma swap_vals_ok [simp]: "members_ok ec ms vs \<Longrightarrow> members_ok ec ms (swap_vals ms vs)"
  by (induction ms arbitrary: vs)
    (auto simp: swap_vals_def members_ok_def list_all2_Cons1 swap_bytes_def)

lemma swap_vals_swap_vals [simp]: "members_ok ec ms vs \<Longrightarrow> swap_vals ms (swap_vals ms vs) = vs"
  by (induction ms arbitrary: vs)
    (auto simp: swap_vals_def members_ok_def list_all2_Cons1 swap_bytes_def)

lemma swap_if_eq:
  "valid_layout ec def \<Longrightarrow> members_ok ec def vs
    \<Longrightarrow> swap_if sw ec def st vs = (if sw then swap_vals def vs else vs)"
  by (simp add: swap_if_def SWAP_MEMBERS_eq)

section \<open>Arrays of structures\<close>

lemma write_bytes_Some [simp]:
  "write_bytes (Some (b, off)) xs st =
     (case mem st b of None \<Rightarrow> None
      | Some bs \<Rightarrow> if off + length xs \<le> length bs
          then Some (st\<lparr>mem := (mem st)(b \<mapsto> put_at off xs bs)\<rparr>) else None)"
  by (simp add: write_bytes_def assert_that_def put_at_def split: option.split)

lemma mem_upd_idem: "mem st b = Some D \<Longrightarrow> st\<lparr>mem := (mem st)(b \<mapsto> D)\<rparr> = st"
  by (simp add: fun_upd_idem)

lemma ptr_off_Some [simp]: "ptr_off (Some (b, off)) k = Some (b, off + k)"
  by (simp add: ptr_off_def)

definition segment :: "nat \<Rightarrow> nat \<Rightarrow> 'a list \<Rightarrow> 'a list" where
  "segment off n xs = take n (drop off xs)"

lemma length_segment [simp]: "off + n \<le> length xs \<Longrightarrow> length (segment off n xs) = n"
  by (simp add: segment_def)

lemma drop_put_at:
  "off + length v \<le> n \<Longrightarrow> off + length v \<le> length xs \<Longrightarrow> drop n (put_at off v xs) = drop n xs"
  by (auto simp: put_at_def)

lemma segment_take_drop_eq:
  assumes "length bs' = length bs" "take p bs' = take p bs" "drop (p + n) bs' = drop (p + n) bs"
    and "x + m \<le> p \<or> p + n \<le> x"
  shows "segment x m bs' = segment x m bs"
  using assms(4)
proof
  assume "x + m \<le> p"
  then have "segment x m ys = take m (drop x (take p ys))" for ys :: "'a list"
    by (simp add: segment_def drop_take min_def)
  then show ?thesis using assms(2) by simp
next
  assume "p + n \<le> x"
  then have "segment x m ys = take m (drop (x - (p + n)) (drop (p + n) ys))" for ys :: "'a list"
    by (simp add: segment_def)
  then show ?thesis using assms(3) by (simp only:)
qed

lemma segment_put_at_before:
  "off + n \<le> o' \<Longrightarrow> o' + length v \<le> length xs \<Longrightarrow> segment off n (put_at o' v xs) = segment off n xs"
  by (auto simp: segment_def put_at_def min_def take_drop simp del: drop_append)

lemma segment_put_at_after:
  "o' + length v \<le> off \<Longrightarrow> off \<le> length xs \<Longrightarrow> segment off n (put_at o' v xs) = segment off n xs"
  by (auto simp: segment_def put_at_def)

lemma segment_put_at_same:
  "o' + length v \<le> length xs \<Longrightarrow> segment o' (length v) (put_at o' v xs) = v"
  by (simp add: segment_def put_at_def)

text \<open>The C structure found in the bytes of an object, and the one read from a file.\<close>

definition mem_struct :: "int \<Rightarrow> layout \<Rightarrow> byte list \<Rightarrow> struct_val" where
  "mem_struct ec def bs = get_members ec def (member_offsets ec 0 def) bs"

definition file_struct :: "bool \<Rightarrow> int \<Rightarrow> layout \<Rightarrow> byte list \<Rightarrow> struct_val" where
  "file_struct sw ec def s =
     (let vs = READ_MEMBERS ec def s in if sw then swap_vals def vs else vs)"

definition file_bytes :: "bool \<Rightarrow> layout \<Rightarrow> struct_val \<Rightarrow> byte list" where
  "file_bytes sw def vs = WRITE_MEMBERS (if sw then swap_vals def vs else vs)"

lemma file_bytes_file_struct [repr_simps]:
  "length s = FSZ ec def \<Longrightarrow> file_bytes sw def (file_struct sw ec def s) = s"
  by (simp add: file_bytes_def file_struct_def Let_def WRITE_READ_MEMBERS READ_MEMBERS_ok
      swap_vals_swap_vals [OF READ_MEMBERS_ok])

lemma file_struct_ok: "length s = FSZ ec def \<Longrightarrow> members_ok ec def (file_struct sw ec def s)"
  by (simp add: file_struct_def Let_def READ_MEMBERS_ok)

lemma length_file_bytes: "members_ok ec def vs \<Longrightarrow> length (file_bytes sw def vs) = FSZ ec def"
  by (simp add: file_bytes_def length_WRITE_MEMBERS)

text \<open>
  The destination may be a block of its own or the source itself.  In both cases the
  structures converted are those the source held when the call was made.
\<close>

lemma comp_tom_loop_correct:
  assumes "valid_layout ec def"
    and "mem st sb = Some S" and "so + n * FSZ ec def \<le> length S"
    and "mem st db = Some D" and "dof + n * struct_size ec def \<le> length D"
    and "db \<noteq> sb \<or> dof = so"
  shows "\<exists>D'. comp_tom_loop ec def sw (Some (db, dof)) (Some (sb, so)) n st
               = Some (st\<lparr>mem := (mem st)(db \<mapsto> D')\<rparr>)
    \<and> length D' = length D \<and> take dof D' = take dof D
    \<and> drop (dof + n * struct_size ec def) D' = drop (dof + n * struct_size ec def) D
    \<and> (\<forall>i<n. mem_struct ec def (segment (dof + i * struct_size ec def) (struct_size ec def) D')
             = file_struct sw ec def (segment (so + i * FSZ ec def) (FSZ ec def) S))"
  using assms(2-)
proof (induction n arbitrary: st S D)
  case 0
  then show ?case using mem_upd_idem [of st db D] by (intro exI [of _ D]) (simp add: fun_upd_def)
next
  case (Suc n)
  let ?m = "struct_size ec def" and ?f = "FSZ ec def"
  define s where "s = segment (so + n * ?f) ?f S"
  define old where "old = segment (dof + n * ?m) ?m D"
  define t where "t = file_struct sw ec def s"
  define v where "v = put_members (member_offsets ec 0 def) t old"
  define D1 where "D1 = put_at (dof + n * ?m) v D"
  define st1 where "st1 = st\<lparr>mem := (mem st)(db \<mapsto> D1)\<rparr>"
  have fm: "?f \<le> ?m" using assms(1) by (rule FSZ_le_struct_size)
  have fmn: "n * ?f \<le> n * ?m" using fm by simp
  have s_len: "length s = ?f" using Suc.prems(2) by (simp add: s_def add.assoc)
  have old_len: "length old = ?m" using Suc.prems(4) by (simp add: old_def add.assoc)
  have t_ok: "members_ok ec def t" unfolding t_def by (rule file_struct_ok [OF s_len])
  have end_le: "members_end ec 0 def \<le> length old"
    using members_end_le_struct_size [of ec def] old_len by simp
  have v_len: "length v = ?m"
    using put_members_length_take [OF assms(1) t_ok end_le] old_len by (simp add: v_def)
  have v_struct: "mem_struct ec def v = t"
    using get_put_members [OF assms(1) t_ok end_le] by (simp add: v_def mem_struct_def)
  have swap: "swap_if sw ec def st (READ_MEMBERS ec def s) = t"
    using READ_MEMBERS_ok [OF s_len] assms(1)
    by (simp add: swap_if_eq t_def file_struct_def Let_def)
  have step: "comp_tom_loop ec def sw (Some (db, dof)) (Some (sb, so)) (Suc n) st
      = comp_tom_loop ec def sw (Some (db, dof)) (Some (sb, so)) n st1"
    using Suc.prems v_len swap
    by (simp add: store_struct_def s_def [unfolded segment_def, symmetric]
        old_def [unfolded segment_def, symmetric] v_def [symmetric] D1_def st1_def add.assoc)
  have D1_len: "length D1 = length D" using Suc.prems(4) v_len by (simp add: D1_def)
  define S1 where "S1 = (if db = sb then D1 else S)"
  have S1: "mem st1 sb = Some S1" "length S1 = length S"
    using Suc.prems D1_len by (auto simp: st1_def S1_def)
  have same: "segment (so + i * ?f) ?f S1 = segment (so + i * ?f) ?f S" if "i < n" for i
  proof (cases "db = sb")
    case True
    have "Suc i * ?f \<le> n * ?f" using that by (intro mult_le_mono1) simp
    then have "i * ?f + ?f \<le> n * ?f" by simp
    moreover have "dof = so" using Suc.prems(5) True by simp
    ultimately have "so + i * ?f + ?f \<le> dof + n * ?m" using fmn by linarith
    moreover have "D = S" using True Suc.prems by simp
    ultimately show ?thesis
      using True Suc.prems(4) v_len by (simp add: S1_def D1_def segment_put_at_before)
  qed (simp add: S1_def)
  have hyps: "so + n * ?f \<le> length S1" "mem st1 db = Some D1" "dof + n * ?m \<le> length D1"
    using S1(2) D1_len Suc.prems(2,4) by (simp_all add: st1_def)
  obtain D' where D': "comp_tom_loop ec def sw (Some (db, dof)) (Some (sb, so)) n st1
        = Some (st1\<lparr>mem := (mem st1)(db \<mapsto> D')\<rparr>)"
    "length D' = length D1" "take dof D' = take dof D1"
    "drop (dof + n * ?m) D' = drop (dof + n * ?m) D1"
    "\<forall>i<n. mem_struct ec def (segment (dof + i * ?m) ?m D')
       = file_struct sw ec def (segment (so + i * ?f) ?f S1)"
    using Suc.IH [OF S1(1) hyps Suc.prems(5)] by blast
  have last: "segment (dof + n * ?m) ?m D' = v"
    using D'(4) Suc.prems(4) v_len segment_put_at_same [of "dof + n * ?m" v D]
    by (simp add: segment_def D1_def add.assoc)
  have "\<forall>i<Suc n. mem_struct ec def (segment (dof + i * ?m) ?m D')
       = file_struct sw ec def (segment (so + i * ?f) ?f S)"
    using D'(5) same last v_struct by (auto simp: less_Suc_eq t_def s_def)
  moreover have "drop (dof + Suc n * ?m) D' = drop (dof + Suc n * ?m) D"
  proof -
    have "drop (dof + Suc n * ?m) D' = drop ?m (drop (dof + n * ?m) D')" by (simp add: add.commute add.left_commute)
    also have "\<dots> = drop (dof + Suc n * ?m) D1" using D'(4) by (simp add: add.commute add.left_commute)
    also have "\<dots> = drop (dof + Suc n * ?m) D"
      using Suc.prems(4) v_len by (simp add: D1_def put_at_def add.assoc add.commute add.left_commute)
    finally show ?thesis .
  qed
  moreover have "take dof D' = take dof D"
    using D'(3) Suc.prems(4) v_len by (simp add: D1_def take_put_at)
  moreover have "length D' = length D" using D'(2) D1_len by simp
  moreover have "st1\<lparr>mem := (mem st1)(db \<mapsto> D')\<rparr> = st\<lparr>mem := (mem st)(db \<mapsto> D')\<rparr>"
    by (simp add: st1_def)
  ultimately show ?case
    using D'(1) unfolding step by (intro exI [of _ D'] conjI) (simp only:)+
qed

lemma comp_tof_loop_correct:
  assumes "valid_layout ec def"
    and "mem st sb = Some S" and "so + (k + n) * struct_size ec def \<le> length S"
    and "mem st db = Some D" and "dof + (k + n) * FSZ ec def \<le> length D"
    and "db \<noteq> sb \<or> dof = so"
  shows "\<exists>D'. comp_tof_loop ec def sw (Some (db, dof)) (Some (sb, so)) k n st
               = Some (st\<lparr>mem := (mem st)(db \<mapsto> D')\<rparr>)
    \<and> length D' = length D \<and> take (dof + k * FSZ ec def) D' = take (dof + k * FSZ ec def) D
    \<and> drop (dof + (k + n) * FSZ ec def) D' = drop (dof + (k + n) * FSZ ec def) D
    \<and> (\<forall>i<n. segment (dof + (k + i) * FSZ ec def) (FSZ ec def) D'
             = file_bytes sw def (mem_struct ec def
                 (segment (so + (k + i) * struct_size ec def) (struct_size ec def) S)))"
  using assms(2-)
proof (induction n arbitrary: k st S D)
  case 0
  then show ?case using mem_upd_idem [of st db D] by (intro exI [of _ D]) (simp add: fun_upd_def)
next
  case (Suc n)
  let ?m = "struct_size ec def" and ?f = "FSZ ec def"
  define s where "s = segment (so + k * ?m) ?m S"
  define t where "t = mem_struct ec def s"
  define v where "v = file_bytes sw def t"
  define D1 where "D1 = put_at (dof + k * ?f) v D"
  define st1 where "st1 = st\<lparr>mem := (mem st)(db \<mapsto> D1)\<rparr>"
  have fm: "?f \<le> ?m" using assms(1) by (rule FSZ_le_struct_size)
  have kS: "so + k * ?m + ?m \<le> length S" and kD: "dof + k * ?f + ?f \<le> length D"
    using Suc.prems(2,4) by (simp_all add: algebra_simps)
  have s_len: "length s = ?m" using kS by (simp add: s_def)
  have t_ok: "members_ok ec def t"
    unfolding t_def mem_struct_def
    using assms(1) s_len members_end_le_struct_size by (intro get_members_ok) simp_all
  have v_len: "length v = ?f" using t_ok by (simp add: v_def length_file_bytes)
  have swap: "WRITE_MEMBERS (swap_if sw ec def st t) = v"
    using t_ok assms(1) by (simp add: swap_if_eq v_def file_bytes_def)
  have step: "comp_tof_loop ec def sw (Some (db, dof)) (Some (sb, so)) k (Suc n) st
      = comp_tof_loop ec def sw (Some (db, dof)) (Some (sb, so)) (Suc k) n st1"
    using Suc.prems(1,3) kS kD v_len swap
    by (simp add: load_struct_def s_def [unfolded segment_def, symmetric]
        t_def [unfolded mem_struct_def, symmetric] D1_def st1_def add.assoc)
  have D1_len: "length D1 = length D" using kD v_len by (simp add: D1_def)
  define S1 where "S1 = (if db = sb then D1 else S)"
  have S1: "mem st1 sb = Some S1" "length S1 = length S"
    using Suc.prems D1_len by (auto simp: st1_def S1_def)
  have same: "segment (so + (Suc k + i) * ?m) ?m S1 = segment (so + (Suc k + i) * ?m) ?m S"
    if "i < n" for i
  proof (cases "db = sb")
    case True
    have D_S: "D = S" using True Suc.prems by simp
    have "Suc k * ?f \<le> Suc k * ?m" using fm by (rule mult_le_mono2)
    then have below: "dof + k * ?f + length v \<le> so + (Suc k + i) * ?m"
      using Suc.prems(5) True v_len by (simp add: algebra_simps)
    have "(Suc k + i) * ?m \<le> (k + Suc n) * ?m"
      using that by (intro mult_le_mono1) simp
    then have "so + (Suc k + i) * ?m \<le> length D"
      using Suc.prems(2) unfolding D_S by (rule order_trans [OF add_left_mono])
    with below have "segment (so + (Suc k + i) * ?m) ?m D1 = segment (so + (Suc k + i) * ?m) ?m D"
      unfolding D1_def by (rule segment_put_at_after)
    then show ?thesis using D_S by (simp only: S1_def True refl if_True)
  qed (simp add: S1_def)
  have hyps: "so + (Suc k + n) * ?m \<le> length S1" "mem st1 db = Some D1"
    "dof + (Suc k + n) * ?f \<le> length D1"
    using S1(2) D1_len Suc.prems(2,4) by (simp_all add: st1_def)
  obtain D' where D': "comp_tof_loop ec def sw (Some (db, dof)) (Some (sb, so)) (Suc k) n st1
        = Some (st1\<lparr>mem := (mem st1)(db \<mapsto> D')\<rparr>)"
    "length D' = length D1" "take (dof + Suc k * ?f) D' = take (dof + Suc k * ?f) D1"
    "drop (dof + (Suc k + n) * ?f) D' = drop (dof + (Suc k + n) * ?f) D1"
    "\<forall>i<n. segment (dof + (Suc k + i) * ?f) ?f D'
       = file_bytes sw def (mem_struct ec def (segment (so + (Suc k + i) * ?m) ?m S1))"
    using Suc.IH [OF S1(1) hyps Suc.prems(5)] by blast
  have "segment (dof + k * ?f) ?f D' = segment (dof + k * ?f) ?f (take (dof + Suc k * ?f) D')"
    by (simp add: segment_def take_drop min_def algebra_simps)
  also have "\<dots> = segment (dof + k * ?f) ?f D1"
    unfolding D'(3) by (simp add: segment_def take_drop min_def algebra_simps)
  also have "\<dots> = v" using kD v_len segment_put_at_same [of "dof + k * ?f" v D] by (simp add: D1_def)
  finally have first: "segment (dof + k * ?f) ?f D' = v" .
  have each: "segment (dof + (k + i) * ?f) ?f D'
       = file_bytes sw def (mem_struct ec def (segment (so + (k + i) * ?m) ?m S))"
    if "i < Suc n" for i
    using that first D'(5) same by (cases i) (auto simp: v_def t_def s_def)
  have "\<forall>i<Suc n. segment (dof + (k + i) * ?f) ?f D'
       = file_bytes sw def (mem_struct ec def (segment (so + (k + i) * ?m) ?m S))"
    using each by blast
  moreover have "drop (dof + (k + Suc n) * ?f) D' = drop (dof + (k + Suc n) * ?f) D"
  proof -
    have "drop (dof + (Suc k + n) * ?f) D1 = drop (dof + (Suc k + n) * ?f) D"
      unfolding D1_def using kD v_len by (intro drop_put_at) (simp_all add: algebra_simps)
    then show ?thesis using D'(4) by simp
  qed
  moreover have "take (dof + k * ?f) D' = take (dof + k * ?f) D"
  proof -
    have "take (dof + k * ?f) D' = take (dof + k * ?f) (take (dof + Suc k * ?f) D')"
      by (simp add: min_def)
    also have "\<dots> = take (dof + k * ?f) D1" unfolding D'(3) by (simp add: min_def)
    also have "\<dots> = take (dof + k * ?f) D" using kD v_len by (simp add: D1_def take_put_at)
    finally show ?thesis .
  qed
  moreover have "length D' = length D" using D'(2) D1_len by simp
  moreover have "st1\<lparr>mem := (mem st1)(db \<mapsto> D')\<rparr> = st\<lparr>mem := (mem st)(db \<mapsto> D')\<rparr>"
    by (simp add: st1_def)
  ultimately show ?case
    using D'(1) unfolding step by (intro exI [of _ D'] conjI) (simp only:)+
qed

section \<open>Arrays of integers\<close>

definition elem :: "nat \<Rightarrow> nat \<Rightarrow> nat \<Rightarrow> byte list \<Rightarrow> byte list" where
  "elem off sz i bs = segment (off + i * sz) sz bs"

lemma length_elem: "i < n \<Longrightarrow> off + n * sz \<le> length bs \<Longrightarrow> length (elem off sz i bs) = sz"
proof -
  assume i: "i < n" and le: "off + n * sz \<le> length bs"
  have "Suc i * sz \<le> n * sz" using i by (intro mult_le_mono1) simp
  then have "off + i * sz + sz \<le> length bs" using le by simp
  then show ?thesis by (simp add: elem_def)
qed

lemma segment_elems:
  "segment off (n * sz) bs = concat (map (\<lambda>i. elem off sz i bs) [0..<n])"
proof (induction n)
  case (Suc n)
  have "segment off (Suc n * sz) bs = take (n * sz + sz) (drop off bs)"
    by (simp add: segment_def add.commute)
  also have "\<dots> = segment off (n * sz) bs @ elem off sz n bs"
    unfolding take_add by (simp add: segment_def elem_def add.commute)
  finally show ?case by (simp only: Suc) simp
qed (simp add: segment_def)

lemma segment_segment:
  "i + k \<le> n \<Longrightarrow> segment i k (segment off n bs) = segment (off + i) k bs"
  by (simp add: segment_def take_drop min_def add.commute add.left_commute)

lemma elem_segment:
  assumes "i < n"
  shows "elem 0 sz i (segment off (n * sz) bs) = elem off sz i bs"
proof -
  have "Suc i * sz \<le> n * sz" using assms by (intro mult_le_mono1) simp
  then show ?thesis by (simp add: elem_def segment_segment)
qed

lemma elem_put_at_segment:
  assumes "i < n" "so + n * sz \<le> length S" "dof + n * sz \<le> length D"
  shows "elem dof sz i (put_at dof (segment so (n * sz) S) D) = elem so sz i S"
proof -
  have "segment dof (n * sz) (put_at dof (segment so (n * sz) S) D) = segment so (n * sz) S"
    using segment_put_at_same [of dof "segment so (n * sz) S" D] assms by simp
  then show ?thesis using assms(1) by (metis elem_segment)
qed

text \<open>An integral type is laid out as a structure with one member.\<close>

definition prim_layout :: "basic \<Rightarrow> layout" where
  "prim_layout b = [('''', b)]"

lemma align_up_0 [simp]: "align_up 0 a = 0"
  by (cases a) (simp_all add: align_up_def)

lemma align_up_self [simp]: "0 < a \<Longrightarrow> align_up a a = a"
proof -
  assume a: "0 < a"
  then have "a + a - 1 = (a - 1) + 1 * a" by simp
  with a have "(a + a - 1) div a = 1" by (metis add.commute div_mult_self1 div_less diff_less less_not_refl zero_less_one add_0)
  then show ?thesis by (simp add: align_up_def)
qed

lemma prim_layout_sizes:
  assumes "valid_layout ec (prim_layout b)" "b \<noteq> IDENT"
  shows "FSZ ec (prim_layout b) = basic_fsize ec b" "struct_size ec (prim_layout b) = basic_fsize ec b"
    "member_offsets ec 0 (prim_layout b) = [0]" "0 < basic_fsize ec b"
  using assms
  by (cases b; simp add: prim_layout_def struct_size_def struct_align_def Let_def)+

lemma swap_prims_eq_comp:
  assumes "valid_layout ec (prim_layout b)" "b \<noteq> IDENT"
  shows "swap_prims ec b sw dst src k n st = comp_tof_loop ec (prim_layout b) sw dst src k n st"
proof (induction n arbitrary: k st)
  case (Suc n)
  have val: "WRITE_MEMBERS (swap_if sw ec (prim_layout b) st (get_members ec (prim_layout b) [0] x))
      = (if sw then SWAP_FIELD (host_order st) ec b x else x)"
    if "read_bytes (ptr_off src (k * basic_fsize ec b)) (basic_fsize ec b) st = Some x" for x
    using read_bytes_length [OF that] by (simp add: prim_layout_def WRITE_MEMBERS_def swap_if_def)
  show ?case
    by (auto simp: Let_def load_struct_def prim_layout_sizes [OF assms] Suc val
        intro!: Option.bind_cong)
qed simp

lemma mem_struct_prim:
  assumes "valid_layout ec (prim_layout b)" "b \<noteq> IDENT" "length bs = basic_fsize ec b"
  shows "mem_struct ec (prim_layout b) bs = [bs]"
  unfolding mem_struct_def prim_layout_sizes(3) [OF assms(1,2)]
  using assms(3) by (simp add: prim_layout_def)

lemma file_struct_prim:
  assumes "length bs = basic_fsize ec b"
  shows "file_struct sw ec (prim_layout b) bs = [if sw then swap_bytes b bs else bs]"
  using assms by (simp add: file_struct_def prim_layout_def swap_vals_def)

lemma file_bytes_prim:
  "file_bytes sw (prim_layout b) [bs] = (if sw then swap_bytes b bs else bs)"
  by (simp add: file_bytes_def prim_layout_def swap_vals_def WRITE_MEMBERS_def)

lemma memcpy_correct:
  assumes "mem st sb = Some S" "so + n \<le> length S" "mem st db = Some D" "dof + n \<le> length D"
  shows "memcpy (Some (db, dof)) (Some (sb, so)) n st
    = Some (st\<lparr>mem := (mem st)(db \<mapsto> put_at dof (segment so n S) D)\<rparr>)"
proof (cases "n = 0")
  case True
  then have "put_at dof (segment so n S) D = D" by (simp add: put_at_def segment_def)
  with True mem_upd_idem [of st db D] assms show ?thesis by (simp add: memcpy_def)
next
  case False
  with assms show ?thesis by (simp add: memcpy_def segment_def)
qed

section \<open>The converters of fixed-size types\<close>

definition std_class :: "int \<Rightarrow> bool" where
  "std_class ec \<longleftrightarrow> ec = ELFCLASS32 \<or> ec = ELFCLASS64"

lemma comp_layout_valid: "comp_layout t ec = Some def \<Longrightarrow> valid_layout ec def"
  by (auto simp: comp_layout_def Let_def DEF_simps split: if_splits)

text \<open>The layout of every type that has a fixed size in the class.\<close>

definition type_layout :: "int \<Rightarrow> int \<Rightarrow> layout option" where
  "type_layout t ec =
     (case prim_basic t of
        Some b \<Rightarrow> if ec = ELFCLASS32 \<and> (b = XWORD \<or> b = SXWORD) then None else Some (prim_layout b)
      | None \<Rightarrow> comp_layout t ec)"

lemma prim_basic_not_IDENT: "prim_basic t = Some b \<Longrightarrow> b \<noteq> IDENT \<and> b \<noteq> BYTE \<and> 0 \<le> t \<and> t < ELF_T_NUM"
  by (auto simp: prim_basic_def split: if_splits)

lemma comp_layout_not_special:
  "comp_layout t ec = Some def \<Longrightarrow> t \<noteq> ELF_T_BYTE \<and> t \<noteq> ELF_T_NOTE \<and> t \<noteq> ELF_T_GNUHASH
     \<and> t \<noteq> ELF_T_VDEF \<and> t \<noteq> ELF_T_VNEED \<and> 0 \<le> t \<and> t < ELF_T_NUM"
  by (auto simp: comp_layout_def Let_def split: if_splits)

lemma prim_basic_not_special:
  "prim_basic t = Some b \<Longrightarrow> t \<noteq> ELF_T_BYTE \<and> t \<noteq> ELF_T_NOTE \<and> t \<noteq> ELF_T_GNUHASH
     \<and> t \<noteq> ELF_T_VDEF \<and> t \<noteq> ELF_T_VNEED"
  by (auto simp: prim_basic_def split: if_splits)

lemma type_layout_cases:
  assumes "type_layout t ec = Some def" "std_class ec"
  obtains (prim) b where "prim_basic t = Some b" "def = prim_layout b" "b \<noteq> IDENT"
      "valid_layout ec (prim_layout b)" "\<not> (ec = ELFCLASS32 \<and> (b = XWORD \<or> b = SXWORD))"
  | (comp) "comp_layout t ec = Some def" "prim_basic t = None"
proof (cases "prim_basic t")
  case None
  then show ?thesis using assms comp by (simp add: type_layout_def)
next
  case (Some b)
  then have "\<not> (ec = ELFCLASS32 \<and> (b = XWORD \<or> b = SXWORD))" "def = prim_layout b"
    using assms by (auto simp: type_layout_def split: if_splits)
  then show ?thesis
    using Some assms(2) prim_basic_not_IDENT [OF Some]
    by (intro prim [of b]) (auto simp: prim_layout_def std_class_def)
qed

lemma type_layout_valid:
  assumes "type_layout t ec = Some def" "std_class ec"
  shows "valid_layout ec def"
  using assms by (cases rule: type_layout_cases) (auto simp: comp_layout_valid)

lemma type_layout_sizes:
  assumes "type_layout t ec = Some def" "std_class ec"
  shows "fsize_table t ec = FSZ ec def" and "msize_table t ec = struct_size ec def"
    and "0 \<le> t" and "t < ELF_T_NUM" and "0 < FSZ ec def"
proof -
  have "0 < FSZ ec def" if "comp_layout t ec = Some def"
    using that by (auto simp: comp_layout_def Let_def DEF_simps split: if_splits)
  with assms show "fsize_table t ec = FSZ ec def" "msize_table t ec = struct_size ec def"
    "0 \<le> t" "t < ELF_T_NUM" "0 < FSZ ec def"
    by (cases rule: type_layout_cases;
        auto simp: fsize_table_def msize_table_def prim_layout_sizes basic_msize_fsize
          dest: prim_basic_not_IDENT comp_layout_not_special;
        auto simp: prim_layout_def basic_msize_fsize)+
qed

lemma translate_fixed:
  assumes "type_layout t ec = Some def" "std_class ec"
  shows "translate t dir ec =
    (case prim_basic t of
       Some b \<Rightarrow> if dir = ELF_TOFILE then cvt_prim_tof ec b else cvt_prim_tom ec b
     | None \<Rightarrow> if dir = ELF_TOFILE then cvt_comp_tof ec def else cvt_comp_tom ec def)"
  using assms
proof (cases rule: type_layout_cases)
  case (prim b)
  then show ?thesis
    using assms(2) prim_basic_not_IDENT [OF prim(1)] prim_basic_not_special [OF prim(1)]
    by (auto simp: fun_eq_iff translate_def libelf_get_translator_def cvt_table_def Let_def
        std_class_def)
next
  case comp
  then show ?thesis
    using assms(2) comp_layout_not_special [OF comp(1)]
    by (auto simp: fun_eq_iff translate_def libelf_get_translator_def cvt_table_def Let_def
        std_class_def)
qed

lemma unat_mult_of_nat:
  assumes "unat (c :: u64) * n < 2 ^ 64"
  shows "unat (c * of_nat n) = unat c * n"
proof (cases "c = 0")
  case False
  then have "0 < unat c" by (simp add: unat_gt_0)
  then have "n \<le> unat c * n" by simp
  then have "n < 2 ^ 64" using assms by linarith
  then have "unat (of_nat n :: u64) = n" by (simp add: unat_of_nat take_bit_nat_eq_self)
  then show ?thesis using assms by (simp add: unat_word_ariths)
qed simp

text \<open>The description of a conversion that the clients of a converter rely on.\<close>

definition tom_result where
  "tom_result ec def sw st so db dof n D S st' D' \<longleftrightarrow>
     st' = st\<lparr>mem := (mem st)(db \<mapsto> D')\<rparr> \<and> length D' = length D \<and> take dof D' = take dof D
     \<and> drop (dof + n * struct_size ec def) D' = drop (dof + n * struct_size ec def) D
     \<and> (\<forall>i<n. mem_struct ec def (elem dof (struct_size ec def) i D')
              = file_struct sw ec def (elem so (FSZ ec def) i S))"

definition tof_result where
  "tof_result ec def sw st so db dof n D S st' D' \<longleftrightarrow>
     st' = st\<lparr>mem := (mem st)(db \<mapsto> D')\<rparr> \<and> length D' = length D \<and> take dof D' = take dof D
     \<and> drop (dof + n * FSZ ec def) D' = drop (dof + n * FSZ ec def) D
     \<and> (\<forall>i<n. elem dof (FSZ ec def) i D'
              = file_bytes sw def (mem_struct ec def (elem so (struct_size ec def) i S)))"

lemma memcpy_tof_result:
  assumes "valid_layout ec (prim_layout b)" "b \<noteq> IDENT"
    and "mem st sb = Some S" "so + n * basic_fsize ec b \<le> length S"
    and "mem st db = Some D" "dof + n * basic_fsize ec b \<le> length D"
  shows "\<exists>st' D'. memcpy (Some (db, dof)) (Some (sb, so)) (n * basic_fsize ec b) st = Some st'
    \<and> tof_result ec (prim_layout b) False st so db dof n D S st' D'"
proof -
  let ?D' = "put_at dof (segment so (n * basic_fsize ec b) S) D"
  have "elem dof (basic_fsize ec b) i ?D'
      = file_bytes False (prim_layout b) (mem_struct ec (prim_layout b) (elem so (basic_fsize ec b) i S))"
    if "i < n" for i
    using elem_put_at_segment [OF that assms(4,6)] length_elem [OF that assms(4)]
    by (simp add: mem_struct_prim [OF assms(1,2)] file_bytes_prim)
  then have "tof_result ec (prim_layout b) False st so db dof n D S
      (st\<lparr>mem := (mem st)(db \<mapsto> ?D')\<rparr>) ?D'"
    using assms(4,6)
    by (simp add: tof_result_def prim_layout_sizes [OF assms(1,2)] take_put_at drop_put_at)
  then show ?thesis using memcpy_correct [OF assms(3-6)] by blast
qed

lemma prim_tof_is_tom:
  assumes "valid_layout ec (prim_layout b)" "b \<noteq> IDENT"
    and "so + n * basic_fsize ec b \<le> length S" "dof + n * basic_fsize ec b \<le> length D"
    and "tof_result ec (prim_layout b) sw st so db dof n D S st' D'"
  shows "tom_result ec (prim_layout b) sw st so db dof n D S st' D'"
proof -
  have D': "dof + n * basic_fsize ec b \<le> length D'" using assms by (simp add: tof_result_def)
  have "mem_struct ec (prim_layout b) (elem dof (basic_fsize ec b) i D')
      = file_struct sw ec (prim_layout b) (elem so (basic_fsize ec b) i S)" if "i < n" for i
    using assms(5) that length_elem [OF that D'] length_elem [OF that assms(3)]
    by (simp add: tof_result_def prim_layout_sizes [OF assms(1,2)] mem_struct_prim [OF assms(1,2)]
        file_struct_prim file_bytes_prim)
  then show ?thesis
    using assms(5) by (simp add: tof_result_def tom_result_def prim_layout_sizes [OF assms(1,2)])
qed

lemma prim_tof_correct:
  assumes "valid_layout ec (prim_layout b)" "b \<noteq> IDENT"
    and "mem st sb = Some S" "so + n * basic_fsize ec b \<le> length S"
    and "mem st db = Some D" "dof + n * basic_fsize ec b \<le> length D"
    and "db \<noteq> sb \<or> dof = so"
  shows "\<exists>st' D'. swap_prims ec b sw (Some (db, dof)) (Some (sb, so)) 0 n st = Some st'
    \<and> tof_result ec (prim_layout b) sw st so db dof n D S st' D'"
  using comp_tof_loop_correct [OF assms(1,3), of so 0 n db D dof sw] assms(4-)
  by (auto simp: swap_prims_eq_comp [OF assms(1,2)] tof_result_def elem_def
      prim_layout_sizes [OF assms(1,2)])

lemma translate_tof_correct:
  assumes "type_layout t ec = Some def" "std_class ec"
    and "mem st sb = Some S" "so + unat count * struct_size ec def \<le> length S"
    and "mem st db = Some D" "dof + unat count * FSZ ec def \<le> length D"
    and "db \<noteq> sb \<or> dof = so" and "unat count * struct_size ec def < 2 ^ 64"
  shows "\<exists>st' D'. translate t ELF_TOFILE ec (Some (db, dof)) dsz (Some (sb, so)) count sw st
      = Some (True, st') \<and> tof_result ec def sw st so db dof (unat count) D S st' D'"
  using assms(1,2)
proof (cases rule: type_layout_cases)
  case (prim b)
  note sz = prim_layout_sizes [OF prim(4,3)]
  have cnt: "unat (count * of_nat (basic_fsize ec b)) = unat count * basic_fsize ec b"
    using assms(8) prim by (intro unat_mult_of_nat) (simp add: sz)
  show ?thesis
    using memcpy_tof_result [OF prim(4,3) assms(3) _ assms(5), of so "unat count" dof]
      prim_tof_correct [OF prim(4,3) assms(3) _ assms(5) _ assms(7), of "unat count" sw] assms(4,6)
    by (cases sw)
      (auto simp: translate_fixed [OF assms(1,2)] prim(1,2) sz cvt_prim_tof_def Let_def cnt)
next
  case comp
  show ?thesis
    using comp_tof_loop_correct [OF type_layout_valid [OF assms(1,2)] assms(3), of so 0 "unat count" db D dof sw]
      assms(4-7)
    by (auto simp: translate_fixed [OF assms(1,2)] comp(2) cvt_comp_tof_def tof_result_def elem_def)
qed

lemma translate_tom_correct:
  assumes "type_layout t ec = Some def" "std_class ec"
    and "mem st sb = Some S" "so + unat count * FSZ ec def \<le> length S"
    and "mem st db = Some D" "dof + unat count * struct_size ec def \<le> length D"
    and "db \<noteq> sb \<or> dof = so" and "unat count * struct_size ec def \<le> unat dsz"
  shows "\<exists>st' D'. translate t ELF_TOMEMORY ec (Some (db, dof)) dsz (Some (sb, so)) count sw st
      = Some (True, st') \<and> tom_result ec def sw st so db dof (unat count) D S st' D'"
proof -
  have lt: "unat count * struct_size ec def < 2 ^ 64"
    using assms(8) unat_u64_less [of dsz] by simp
  have enough: "\<not> dsz < count * of_nat (struct_size ec def)"
    using assms(8) unat_mult_of_nat [OF lt] by (simp add: word_less_nat_alt)
  from assms(1,2) show ?thesis
  proof (cases rule: type_layout_cases)
    case (prim b)
    note sz = prim_layout_sizes [OF prim(4,3)]
    have S: "so + unat count * basic_fsize ec b \<le> length S" "dof + unat count * basic_fsize ec b \<le> length D"
      using assms(4,6) prim by (simp_all add: sz)
    have cnt: "unat (count * of_nat (basic_fsize ec b)) = unat count * basic_fsize ec b"
      using lt prim by (intro unat_mult_of_nat) (simp add: sz)
    have goal: "\<exists>st' D'. translate t ELF_TOMEMORY ec (Some (db, dof)) dsz (Some (sb, so)) count sw st
      = Some (True, st') \<and> tof_result ec def sw st so db dof (unat count) D S st' D'"
      using memcpy_tof_result [OF prim(4,3) assms(3) S(1) assms(5) S(2)]
        prim_tof_correct [OF prim(4,3) assms(3) S(1) assms(5) S(2) assms(7), of sw] enough
      by (cases sw)
        (auto simp: translate_fixed [OF assms(1,2)] prim(1,2) sz cvt_prim_tom_def Let_def cnt)
    then show ?thesis
      using prim_tof_is_tom [OF prim(4,3) S] unfolding prim(2) by blast
  next
    case comp
    show ?thesis
      using comp_tom_loop_correct [OF type_layout_valid [OF assms(1,2)] assms(3-7), of sw] enough
      by (auto simp: translate_fixed [OF assms(1,2)] comp(2) cvt_comp_tom_def tom_result_def elem_def)
  qed
qed

text \<open>
  Converting an array to memory and back gives the bytes of the file, whatever the
  type, the class and the byte order.
\<close>

lemma translate_roundtrip:
  assumes "type_layout t ec = Some def" "std_class ec"
    and "mem st sb = Some S" "so + unat count * FSZ ec def \<le> length S"
    and "mem st mb = Some M" "mo + unat count * struct_size ec def \<le> length M"
    and "mem st fb = Some F" "fo + unat count * FSZ ec def \<le> length F"
    and "mb \<noteq> sb" "fb \<noteq> mb" "unat count * struct_size ec def \<le> unat msz"
  shows "\<exists>st1 st2 F'. translate t ELF_TOMEMORY ec (Some (mb, mo)) msz (Some (sb, so)) count sw st
            = Some (True, st1)
      \<and> translate t ELF_TOFILE ec (Some (fb, fo)) fsz (Some (mb, mo)) count sw st1
            = Some (True, st2)
      \<and> mem st2 fb = Some F'
      \<and> segment fo (unat count * FSZ ec def) F' = segment so (unat count * FSZ ec def) S"
proof -
  obtain st1 M' where 1: "translate t ELF_TOMEMORY ec (Some (mb, mo)) msz (Some (sb, so)) count sw st
       = Some (True, st1)" "tom_result ec def sw st so mb mo (unat count) M S st1 M'"
    using translate_tom_correct [OF assms(1-6) _ assms(11), of sw] assms(9) by blast
  have st1: "mem st1 mb = Some M'" "mo + unat count * struct_size ec def \<le> length M'"
    "mem st1 fb = Some F" "unat count * struct_size ec def < 2 ^ 64"
    using assms 1 unat_u64_less [of msz] by (simp_all add: tom_result_def)
  obtain st2 F' where 2: "translate t ELF_TOFILE ec (Some (fb, fo)) fsz (Some (mb, mo)) count sw st1
       = Some (True, st2)" "tof_result ec def sw st1 mo fb fo (unat count) F M' st2 F'"
    using translate_tof_correct [OF assms(1,2) st1(1-3) assms(8) _ st1(4)] assms(10) by blast
  have "elem fo (FSZ ec def) i F' = elem so (FSZ ec def) i S" if "i < unat count" for i
    using that 1(2) 2(2) length_elem [OF that assms(4)]
    by (simp add: tom_result_def tof_result_def file_bytes_file_struct)
  then have "segment fo (unat count * FSZ ec def) F' = segment so (unat count * FSZ ec def) S"
    unfolding segment_elems by (intro arg_cong [where f = concat] map_cong) simp_all
  then show ?thesis using 1(1) 2 by (auto simp: tof_result_def)
qed

end
