(* ===== verification/Elf_Xlate.thy ===== *)
theory Elf_Xlate
  imports Elf_Convert_Facts
begin

text \<open>
  Translation of data buffers: \<open>libelf_xlate.c\<close> and \<open>gelf_xlate.c\<close>.
  \<open>libelf_xlate_buf\<close> is the function on two descriptors that are distinct objects;
  \<open>libelf_xlate\<close> adds the tests of the pointers themselves.
\<close>

section \<open>Definitions\<close>

definition libelf_xlate_buf ::
  "Elf_Data \<Rightarrow> Elf_Data \<Rightarrow> u32 \<Rightarrow> int \<Rightarrow> direction \<Rightarrow> store \<Rightarrow> ((bool \<times> Elf_Data) \<times> store) option"
where
  "libelf_xlate_buf dst src encoding elfclass direction st =
     (let fail = (\<lambda>E st. Some ((False, dst), set_error E st));
          host = libelf_byteorder (globals st);
          encoding = (if encoding = ELFDATANONE then host else encoding)
      in if encoding \<noteq> ELFDATA2LSB \<and> encoding \<noteq> ELFDATA2MSB then fail ELF_E_ARGUMENT st
      else
        do { assert_that (elfclass = ELFCLASS32 \<or> elfclass = ELFCLASS64);
             if d_version dst \<noteq> d_version src then fail ELF_E_UNIMPL st
             else if d_buf src = None \<or> d_buf dst = None then fail ELF_E_DATA st
             else if d_type src < 0 \<or> d_type src \<ge> ELF_T_NUM then fail ELF_E_DATA st
             else
               let (fsz, st) = (if elfclass = ELFCLASS32 then elf32_fsize else elf64_fsize)
                                 (d_type src) 1 (d_version src) st
               in if fsz = 0 then Some ((False, dst), st)
               else
                 do { (msz, st) \<leftarrow> libelf_msize (d_type src) elfclass (d_version src) st;
                      assert_that (msz > 0);
                      if d_size src mod (if direction = ELF_TOMEMORY then fsz else msz) \<noteq> 0
                      then fail ELF_E_DATA st
                      else
                        let cnt = d_size src div (if direction = ELF_TOMEMORY then fsz else msz);
                            dsz = cnt * (if direction = ELF_TOMEMORY then msz else fsz);
                            sb = addr (d_buf src) st;
                            se = sb + d_size src;
                            db = addr (d_buf dst) st;
                            de = db + d_size dst;
                            malign = (ucast (libelf_malign (d_type src) elfclass) :: u64)
                        in if d_size dst < dsz then fail ELF_E_DATA st
                        else if db \<noteq> sb \<and> de > sb \<and> se > db then fail ELF_E_DATA st
                        else
                          do { assert_that (malign \<noteq> 0);
                               if (if direction = ELF_TOMEMORY then db else sb) mod malign \<noteq> 0
                               then fail ELF_E_DATA st
                               else
                                 let dst = dst\<lparr>d_type := d_type src, d_size := dsz\<rparr>;
                                     byteswap = (encoding \<noteq> host)
                                 in if d_size src = 0 \<or> (db = sb \<and> \<not> byteswap \<and> fsz = msz)
                                 then Some ((True, dst), st)
                                 else
                                   do { (ok, st) \<leftarrow> translate (d_type src) direction elfclass
                                          (d_buf dst) dsz (d_buf src) cnt byteswap st;
                                        if ok then Some ((True, dst), st)
                                        else Some ((False, dst), set_error ELF_E_DATA st) } } } })"

definition libelf_xlate ::
  "data_ref option \<Rightarrow> data_ref option \<Rightarrow> u32 \<Rightarrow> int \<Rightarrow> direction \<Rightarrow> store
    \<Rightarrow> (data_ref option \<times> store) option"
where
  "libelf_xlate dstr srcr encoding elfclass direction st =
     (case (dstr, srcr) of
        (Some d, Some s) \<Rightarrow>
          if d = s then Some (None, set_error ELF_E_ARGUMENT st)
          else
            do { dst \<leftarrow> datas st d;
                 src \<leftarrow> datas st s;
                 ((ok, dst'), st1) \<leftarrow>
                   libelf_xlate_buf (d_data dst) (d_data src) encoding elfclass direction st;
                 Some (if ok then Some d else None,
                       set_data d (dst\<lparr>d_data := dst'\<rparr>) st1) }
      | _ \<Rightarrow> Some (None, set_error ELF_E_ARGUMENT st))"

definition elf32_xlatetof :: "data_ref option \<Rightarrow> data_ref option \<Rightarrow> u32 \<Rightarrow> store \<Rightarrow> (data_ref option \<times> store) option" where
  "elf32_xlatetof dst src encoding st = libelf_xlate dst src encoding ELFCLASS32 ELF_TOFILE st"

definition elf64_xlatetof :: "data_ref option \<Rightarrow> data_ref option \<Rightarrow> u32 \<Rightarrow> store \<Rightarrow> (data_ref option \<times> store) option" where
  "elf64_xlatetof dst src encoding st = libelf_xlate dst src encoding ELFCLASS64 ELF_TOFILE st"

definition elf32_xlatetom :: "data_ref option \<Rightarrow> data_ref option \<Rightarrow> u32 \<Rightarrow> store \<Rightarrow> (data_ref option \<times> store) option" where
  "elf32_xlatetom dst src encoding st = libelf_xlate dst src encoding ELFCLASS32 ELF_TOMEMORY st"

definition elf64_xlatetom :: "data_ref option \<Rightarrow> data_ref option \<Rightarrow> u32 \<Rightarrow> store \<Rightarrow> (data_ref option \<times> store) option" where
  "elf64_xlatetom dst src encoding st = libelf_xlate dst src encoding ELFCLASS64 ELF_TOMEMORY st"

definition gelf_xlatetom :: "elf_ref option \<Rightarrow> data_ref option \<Rightarrow> data_ref option \<Rightarrow> u32 \<Rightarrow> store \<Rightarrow> (data_ref option \<times> store) option" where
  "gelf_xlatetom er dst src encoding st =
     (case er of
        Some e \<Rightarrow> do { elf \<leftarrow> elfs st e;
                       libelf_xlate dst src encoding (e_class elf) ELF_TOMEMORY st }
      | None \<Rightarrow> Some (None, set_error ELF_E_ARGUMENT st))"

definition gelf_xlatetof :: "elf_ref option \<Rightarrow> data_ref option \<Rightarrow> data_ref option \<Rightarrow> u32 \<Rightarrow> store \<Rightarrow> (data_ref option \<times> store) option" where
  "gelf_xlatetof er dst src encoding st =
     (case er of
        Some e \<Rightarrow> do { elf \<leftarrow> elfs st e;
                       libelf_xlate dst src encoding (e_class elf) ELF_TOFILE st }
      | None \<Rightarrow> Some (None, set_error ELF_E_ARGUMENT st))"

section \<open>What a translation does\<close>

lemma type_layout_small:
  assumes "type_layout t ec = Some def" "std_class ec"
  shows "FSZ ec def \<le> 64" "struct_size ec def \<le> 64" "struct_size ec def \<noteq> 0"
    "libelf_malign t ec \<noteq> 0"
  using assms(2,1)
  by (auto simp: std_class_def type_layout_def prim_basic_def comp_layout_def Let_def DEF_simps
      prim_layout_def struct_size_def struct_align_def align_up_def libelf_malign_def
      malign_table_def split: if_splits)
    (simp_all flip: numeral_2_eq_2 numeral_3_eq_3)

lemma unat_small: "n \<le> 64 \<Longrightarrow> unat (of_nat n :: u64) = n"
  by (simp add: unat_of_nat take_bit_nat_eq_self)

lemma of_nat_small_0: "n \<le> 64 \<Longrightarrow> (of_nat n :: u64) = 0 \<longleftrightarrow> n = 0"
  by (subst unat_eq_zero [symmetric]) (simp only: unat_small)

text \<open>The conditions a translation checks, and what its caller promises about the buffers.\<close>

definition xlate_ready where
  "xlate_ready dst src encoding ec st sfsz dfsz n sb so S db dof D \<longleftrightarrow>
     encoding \<in> {ELFDATA2LSB, ELFDATA2MSB} \<and> d_version dst = EV_CURRENT \<and> d_version src = EV_CURRENT
     \<and> d_buf src = Some (sb, so) \<and> d_buf dst = Some (db, dof)
     \<and> unat (d_size src) = n * sfsz \<and> n * dfsz \<le> unat (d_size dst)
     \<and> mem st sb = Some S \<and> so + n * sfsz \<le> length S
     \<and> mem st db = Some D \<and> dof + n * dfsz \<le> length D
     \<and> (db \<noteq> sb \<or> dof = so)
     \<and> (addr (d_buf dst) st = addr (d_buf src) st \<longrightarrow> db = sb)
     \<and> \<not> (addr (d_buf dst) st \<noteq> addr (d_buf src) st
          \<and> addr (d_buf src) st < addr (d_buf dst) st + d_size dst
          \<and> addr (d_buf dst) st < addr (d_buf src) st + d_size src)"

lemma xlate_counts:
  assumes "unat (d_size src) = n * sfsz" "sfsz \<le> 64" "sfsz \<noteq> 0" "dfsz \<le> 64"
    "n * dfsz \<le> unat (d_size dst)"
  shows "d_size src mod of_nat sfsz = 0" "unat (d_size src div of_nat sfsz) = n"
    "unat (d_size src div of_nat sfsz * of_nat dfsz) = n * dfsz"
    "\<not> d_size dst < d_size src div of_nat sfsz * of_nat dfsz"
proof -
  have "unat (d_size src mod of_nat sfsz) = 0"
    using assms by (simp add: unat_mod unat_small)
  then show "d_size src mod of_nat sfsz = 0" by (simp add: unat_eq_zero)
  show n: "unat (d_size src div of_nat sfsz) = n"
    using assms by (simp add: unat_div unat_small)
  show dsz: "unat (d_size src div of_nat sfsz * of_nat dfsz) = n * dfsz"
    using assms(5) unat_u64_less [of "d_size dst"] n by (subst unat_mult_of_nat) simp_all
  show "\<not> d_size dst < d_size src div of_nat sfsz * of_nat dfsz"
    using assms(5) by (simp add: word_less_nat_alt dsz)
qed

lemma xlate_passes:
  assumes "type_layout (d_type src) ec = Some def" "std_class ec"
    and "sfsz = (if dir = ELF_TOMEMORY then FSZ ec def else struct_size ec def)"
    and "dfsz = (if dir = ELF_TOMEMORY then struct_size ec def else FSZ ec def)"
    and "xlate_ready dst src encoding ec st sfsz dfsz n sb so S db dof D"
    and "addr (if dir = ELF_TOMEMORY then d_buf dst else d_buf src) st
          mod ucast (libelf_malign (d_type src) ec) = 0"
  shows "libelf_xlate_buf dst src encoding ec dir st =
    (let dsz = of_nat (n * dfsz); dst' = dst\<lparr>d_type := d_type src, d_size := dsz\<rparr>;
         byteswap = (encoding \<noteq> libelf_byteorder (globals st))
     in if n = 0 \<or> addr (d_buf dst) st = addr (d_buf src) st \<and> \<not> byteswap \<and> FSZ ec def = struct_size ec def
        then Some ((True, dst'), st)
        else do { (ok, st) \<leftarrow> translate (d_type src) dir ec (d_buf dst) dsz (d_buf src) (of_nat n) byteswap st;
                  if ok then Some ((True, dst'), st)
                  else Some ((False, dst'), set_error ELF_E_DATA st) })"
proof -
  note sizes = type_layout_sizes [OF assms(1,2)] and small = type_layout_small [OF assms(1,2)]
  let ?f = "of_nat (FSZ ec def) :: u64" and ?m = "of_nat (struct_size ec def) :: u64"
  have sf: "sfsz \<le> 64" "sfsz \<noteq> 0" "dfsz \<le> 64"
    using assms(3,4) small sizes(5) by auto
  note r = assms(5) [unfolded xlate_ready_def]
  have cnts: "unat (d_size src) = n * sfsz" "n * dfsz \<le> unat (d_size dst)" using r by auto
  note c = xlate_counts [OF cnts(1) sf(1,2,3) cnts(2)]
  have v: "d_version src = EV_CURRENT" using r by blast
  have f0: "?f \<noteq> 0" using small(1) sizes(5) by (simp only: of_nat_small_0)
  have range: "\<not> (d_type src < ELF_T_FIRST \<or> d_type src > ELF_T_LAST)" using sizes(3,4) by simp
  have fsz: "libelf_fsize (d_type src) ec EV_CURRENT 1 st = (?f, st)"
    using f0 range by (simp only: libelf_fsize_def Let_def sizes(1) mult_1_right if_False not_True_eq_False refl)
  have fs: "(if ec = ELFCLASS32 then elf32_fsize else elf64_fsize) (d_type src) 1 (d_version src) st = (?f, st)"
    using assms(2) fsz by (cases "ec = ELFCLASS32") (simp_all add: v elf32_fsize_def elf64_fsize_def std_class_def)
  have ms: "libelf_msize (d_type src) ec (d_version src) st = Some (?m, st)"
    using assms(2) range by (simp add: v libelf_msize_def sizes(2) std_class_def)
  have m0: "?m \<noteq> 0" using small(2,3) by (simp only: of_nat_small_0) simp
  then have nz: "?f \<noteq> 0" "?m > 0" using f0 by (simp_all only: word_gt_0) simp_all
  have dirs: "(if dir = ELF_TOMEMORY then ?f else ?m) = of_nat sfsz"
    "(if dir = ELF_TOMEMORY then ?m else ?f) = of_nat dfsz"
    using assms(3,4) by simp_all
  have eq_n: "d_size src div of_nat sfsz = of_nat n"
    unfolding c(2) [symmetric] by simp
  have eq_dsz: "of_nat n * of_nat dfsz = (of_nat (n * dfsz) :: u64)" by simp
  have eq_0: "(d_size src = 0) = (n = 0)"
    using cnts(1) sf(2) by (metis mult_is_0 unat_eq_zero)
  have eq_fm: "(?f = ?m) = (FSZ ec def = struct_size ec def)"
    using small(1,2) by (metis unat_small)
  have align: "(ucast (libelf_malign (d_type src) ec) :: u64) \<noteq> 0"
    using small(4) by (simp add: ucast_u32_u64_0)
  have d: "\<not> d_size dst < of_nat (n * dfsz)" using c(4) unfolding eq_n eq_dsz .
  let ?host = "libelf_byteorder (globals st)"
  have chk: "encoding = ELFDATA2LSB \<or> encoding = ELFDATA2MSB" "d_version dst = EV_CURRENT"
    "d_version src = EV_CURRENT" "d_buf src = Some (sb, so)" "d_buf dst = Some (db, dof)"
    using r by blast+
  have checks: "(if encoding = ELFDATANONE then ?host else encoding) = encoding"
    "(encoding \<noteq> ELFDATA2LSB \<and> encoding \<noteq> ELFDATA2MSB) = False"
    "(d_version dst \<noteq> d_version src) = False" "(d_buf src = None \<or> d_buf dst = None) = False"
    using chk by auto
  have types: "(d_type src < 0 \<or> ELF_T_NUM \<le> d_type src) = False"
    "assert_that (ec = ELFCLASS32 \<or> ec = ELFCLASS64) = Some ()"
    "assert_that (0 < ?m) = Some ()" "(?f = 0) = False"
    "assert_that (ucast (libelf_malign (d_type src) ec) \<noteq> (0 :: u64)) = Some ()"
    using sizes(3,4) assms(2) nz align by (auto simp: std_class_def)
  have overlap: "(addr (d_buf dst) st \<noteq> addr (d_buf src) st
      \<and> addr (d_buf src) st < addr (d_buf dst) st + d_size dst
      \<and> addr (d_buf dst) st < addr (d_buf src) st + d_size src) = False"
    using r by blast
  have aligned: "(if dir = ELF_TOMEMORY then addr (d_buf dst) st else addr (d_buf src) st)
      mod ucast (libelf_malign (d_type src) ec) = 0"
    using assms(6) by (simp only: if_distrib [of "\<lambda>p. addr p st"])
  have buf: "d_buf (dst\<lparr>d_type := t, d_size := k\<rparr>) = d_buf dst" for t k by simp
  show ?thesis
    unfolding libelf_xlate_buf_def Let_def fs prod.case
    by (simp only: checks types overlap aligned ms dirs c(1) d eq_n eq_dsz eq_0 eq_fm if_False if_True
        Option.bind.simps prod.case not_True_eq_False not_False_eq_True refl buf)
qed

text \<open>Where a structure has no padding, its bytes in memory are its bytes in a file.\<close>

lemma get_members_no_padding:
  assumes "valid_layout ec ms" "members_end ec off ms = off + FSZ ec ms"
  shows "get_members ec ms (member_offsets ec off ms) bs = READ_MEMBERS ec ms (drop off bs)"
  using assms
proof (induction ms arbitrary: off)
  case (Cons m ms)
  let ?o = "align_up off (basic_align ec (snd m))"
  have sz: "basic_msize ec (snd m) = basic_fsize ec (snd m)"
    using Cons.prems(1) by (simp add: basic_msize_fsize)
  have "off \<le> ?o" by (simp add: align_up_ge)
  moreover have "?o + basic_msize ec (snd m) + FSZ ec ms \<le> members_end ec (?o + basic_msize ec (snd m)) ms"
    using Cons.prems(1) by (intro FSZ_le_members_end) simp
  ultimately have o: "?o = off"
    and "members_end ec (off + basic_fsize ec (snd m)) ms = off + basic_fsize ec (snd m) + FSZ ec ms"
    using Cons.prems(2) sz by simp_all
  with Cons show ?case by (simp add: Let_def sz add.commute)
qed simp

lemma mem_struct_no_padding:
  assumes "valid_layout ec def" "FSZ ec def = struct_size ec def"
  shows "mem_struct ec def bs = file_struct False ec def bs"
proof -
  have "members_end ec 0 def = 0 + FSZ ec def"
    using FSZ_le_members_end [OF assms(1), of 0] members_end_le_struct_size [of ec def] assms(2)
    by simp
  then show ?thesis
    using get_members_no_padding [OF assms(1)] by (simp add: mem_struct_def file_struct_def)
qed

lemma unchanged_is_tom_result:
  assumes "valid_layout ec def" "FSZ ec def = struct_size ec def" "mem st db = Some D"
  shows "tom_result ec def False st dof db dof n D D st D"
  using assms mem_upd_idem [OF assms(3)]
  by (simp add: tom_result_def mem_struct_no_padding)

lemma unchanged_is_tof_result:
  assumes "valid_layout ec def" "FSZ ec def = struct_size ec def" "mem st db = Some D"
    "dof + n * FSZ ec def \<le> length D"
  shows "tof_result ec def False st dof db dof n D D st D"
  using assms mem_upd_idem [OF assms(3)] length_elem [OF _ assms(4)]
  by (auto simp: tof_result_def mem_struct_no_padding file_bytes_file_struct)

lemma of_nat_bounded: "k \<le> unat (x :: u64) \<Longrightarrow> unat (of_nat k :: u64) = k"
  using unat_u64_less [of x] by (simp add: unat_of_nat take_bit_nat_eq_self)

lemma xlate_translates:
  assumes "type_layout (d_type src) ec = Some def" "std_class ec"
    and "sfsz = (if dir = ELF_TOMEMORY then FSZ ec def else struct_size ec def)"
    and "dfsz = (if dir = ELF_TOMEMORY then struct_size ec def else FSZ ec def)"
    and "xlate_ready dst src encoding ec st sfsz dfsz n sb so S db dof D"
    and "addr (if dir = ELF_TOMEMORY then d_buf dst else d_buf src) st
          mod ucast (libelf_malign (d_type src) ec) = 0"
    and "\<not> (n = 0 \<or> addr (d_buf dst) st = addr (d_buf src) st
            \<and> \<not> encoding \<noteq> libelf_byteorder (globals st) \<and> FSZ ec def = struct_size ec def)"
    and "translate (d_type src) dir ec (Some (db, dof)) (of_nat (n * dfsz)) (Some (sb, so)) (of_nat n)
          (encoding \<noteq> libelf_byteorder (globals st)) st = Some (True, st')"
  shows "libelf_xlate_buf dst src encoding ec dir st
    = Some ((True, dst\<lparr>d_type := d_type src, d_size := of_nat (n * dfsz)\<rparr>), st')"
proof -
  have bufs: "d_buf src = Some (sb, so)" "d_buf dst = Some (db, dof)"
    using assms(5) unfolding xlate_ready_def by blast+
  show ?thesis
    unfolding xlate_passes [OF assms(1-6)] Let_def
    by (simp only: assms(7) if_False assms(8) [folded bufs] Option.bind.simps prod.case if_True)
qed

lemma xlate_skips:
  assumes "type_layout (d_type src) ec = Some def" "std_class ec"
    and "sfsz = (if dir = ELF_TOMEMORY then FSZ ec def else struct_size ec def)"
    and "dfsz = (if dir = ELF_TOMEMORY then struct_size ec def else FSZ ec def)"
    and "xlate_ready dst src encoding ec st sfsz dfsz n sb so S db dof D"
    and "addr (if dir = ELF_TOMEMORY then d_buf dst else d_buf src) st
          mod ucast (libelf_malign (d_type src) ec) = 0"
    and "n = 0 \<or> addr (d_buf dst) st = addr (d_buf src) st
            \<and> \<not> encoding \<noteq> libelf_byteorder (globals st) \<and> FSZ ec def = struct_size ec def"
  shows "libelf_xlate_buf dst src encoding ec dir st
    = Some ((True, dst\<lparr>d_type := d_type src, d_size := of_nat (n * dfsz)\<rparr>), st)"
  unfolding xlate_passes [OF assms(1-6)] Let_def by (simp only: assms(7) if_True)

text \<open>
  In both directions a translation whose arguments are acceptable converts every element
  of the source as it was before the call, and nothing but the destination's elements
  changes.  This includes translation in place.
\<close>

lemma xlate_tom_correct:
  assumes "type_layout (d_type src) ec = Some def" "std_class ec"
    and "xlate_ready dst src encoding ec st (FSZ ec def) (struct_size ec def) n sb so S db dof D"
    and "addr (d_buf dst) st mod ucast (libelf_malign (d_type src) ec) = 0"
  shows "\<exists>st' D'. libelf_xlate_buf dst src encoding ec ELF_TOMEMORY st
      = Some ((True, dst\<lparr>d_type := d_type src, d_size := of_nat (n * struct_size ec def)\<rparr>), st')
    \<and> tom_result ec def (encoding \<noteq> libelf_byteorder (globals st)) st so db dof n D S st' D'"
proof -
  let ?sw = "encoding \<noteq> libelf_byteorder (globals st)" and ?m = "struct_size ec def"
  let ?skip = "n = 0 \<or> addr (d_buf dst) st = addr (d_buf src) st \<and> \<not> ?sw \<and> FSZ ec def = ?m"
  note r = assms(3) [unfolded xlate_ready_def]
  have bufs: "mem st sb = Some S" "so + n * FSZ ec def \<le> length S" "mem st db = Some D"
    "dof + n * ?m \<le> length D" "db \<noteq> sb \<or> dof = so" "n * ?m \<le> unat (d_size dst)"
    "addr (d_buf dst) st = addr (d_buf src) st \<longrightarrow> db = sb"
    using r by blast+
  show ?thesis
  proof (cases ?skip)
    case True
    have "tom_result ec def ?sw st so db dof n D S st D"
    proof (cases "n = 0")
      case False
      then have same: "db = sb" "\<not> ?sw" "FSZ ec def = ?m" using True bufs(7) by blast+
      then have "D = S" "dof = so" using bufs(1,3,5) by auto
      then show ?thesis
        using unchanged_is_tom_result [OF type_layout_valid [OF assms(1,2)] same(3) bufs(3)] same(2)
        by metis
    qed (use mem_upd_idem [OF bufs(3)] in \<open>simp add: tom_result_def\<close>)
    then show ?thesis
      using xlate_skips [OF assms(1,2) _ _ assms(3), of ELF_TOMEMORY] assms(4) True by auto
  next
    case False
    have "n * 1 \<le> n * ?m"
      using type_layout_small(3) [OF assms(1,2)] by (intro mult_le_mono2) simp
    then have n: "unat (of_nat n :: u64) = n" 
      using bufs(6) by (intro of_nat_bounded [of n "d_size dst"]) linarith
    have dsz: "n * ?m \<le> unat (of_nat (n * ?m) :: u64)" by (simp only: of_nat_bounded [OF bufs(6)])
    obtain st' D' where T: "translate (d_type src) ELF_TOMEMORY ec (Some (db, dof)) (of_nat (n * ?m))
        (Some (sb, so)) (of_nat n) ?sw st = Some (True, st')" "tom_result ec def ?sw st so db dof n D S st' D'"
      using translate_tom_correct [OF assms(1,2) bufs(1) _ bufs(3) _ bufs(5), of "of_nat n"
          "of_nat (n * ?m)" ?sw, unfolded n] bufs(2,4) dsz by blast
    show ?thesis
      using xlate_translates [OF assms(1,2) _ _ assms(3) _ False, of ELF_TOMEMORY st'] assms(4) T
      by auto
  qed
qed

lemma xlate_tof_correct:
  assumes "type_layout (d_type src) ec = Some def" "std_class ec"
    and "xlate_ready dst src encoding ec st (struct_size ec def) (FSZ ec def) n sb so S db dof D"
    and "addr (d_buf src) st mod ucast (libelf_malign (d_type src) ec) = 0"
  shows "\<exists>st' D'. libelf_xlate_buf dst src encoding ec ELF_TOFILE st
      = Some ((True, dst\<lparr>d_type := d_type src, d_size := of_nat (n * FSZ ec def)\<rparr>), st')
    \<and> tof_result ec def (encoding \<noteq> libelf_byteorder (globals st)) st so db dof n D S st' D'"
proof -
  let ?sw = "encoding \<noteq> libelf_byteorder (globals st)" and ?m = "struct_size ec def"
  let ?skip = "n = 0 \<or> addr (d_buf dst) st = addr (d_buf src) st \<and> \<not> ?sw \<and> FSZ ec def = ?m"
  note r = assms(3) [unfolded xlate_ready_def]
  have bufs: "mem st sb = Some S" "so + n * ?m \<le> length S" "mem st db = Some D"
    "dof + n * FSZ ec def \<le> length D" "db \<noteq> sb \<or> dof = so" "n * ?m \<le> unat (d_size src)"
    "addr (d_buf dst) st = addr (d_buf src) st \<longrightarrow> db = sb"
    using r by (blast, blast, blast, blast, blast, simp, blast)
  show ?thesis
  proof (cases ?skip)
    case True
    have "tof_result ec def ?sw st so db dof n D S st D"
    proof (cases "n = 0")
      case False
      then have same: "db = sb" "\<not> ?sw" "FSZ ec def = ?m" using True bufs(7) by blast+
      then have "D = S" "dof = so" using bufs(1,3,5) by auto
      then show ?thesis
        using unchanged_is_tof_result [OF type_layout_valid [OF assms(1,2)] same(3) bufs(3,4)] same(2)
        by metis
    qed (use mem_upd_idem [OF bufs(3)] in \<open>simp add: tof_result_def\<close>)
    then show ?thesis
      using xlate_skips [OF assms(1,2) _ _ assms(3), of ELF_TOFILE] assms(4) True by auto
  next
    case False
    have "n * 1 \<le> n * ?m"
      using type_layout_small(3) [OF assms(1,2)] by (intro mult_le_mono2) simp
    then have n: "unat (of_nat n :: u64) = n" 
      using bufs(6) by (intro of_nat_bounded [of n "d_size src"]) linarith
    have lt: "n * ?m < 2 ^ 64" using bufs(6) unat_u64_less [of "d_size src"] by linarith
    obtain st' D' where T: "translate (d_type src) ELF_TOFILE ec (Some (db, dof)) (of_nat (n * FSZ ec def))
        (Some (sb, so)) (of_nat n) ?sw st = Some (True, st')" "tof_result ec def ?sw st so db dof n D S st' D'"
      using translate_tof_correct [OF assms(1,2) bufs(1) _ bufs(3) _ bufs(5), of "of_nat n"
          "of_nat (n * FSZ ec def)" ?sw, unfolded n] bufs(2,4) lt by blast
    show ?thesis
      using xlate_translates [OF assms(1,2) _ _ assms(3) _ False, of ELF_TOFILE st'] assms(4) T
      by auto
  qed
qed

section \<open>Properties\<close>

text \<open>A store with three blocks and two data descriptors, for the instances below.\<close>

definition demo_file :: "byte list" where
  "demo_file = [0, 0, 0, 1, 0, 0, 0, 2, 0, 0, 0, 3, 0, 0, 0, 4]"

definition demo_data :: "nat \<Rightarrow> Elf_Data" where
  "demo_data b = \<lparr>d_align = 4, d_buf = Some (b, 0), d_off = 0, d_size = 16, d_type = ELF_T_REL,
     d_version = EV_CURRENT\<rparr>"

definition demo_store :: store where
  "demo_store = (initial_store ELFDATA2LSB (\<lambda>b. of_nat (4096 * Suc b)))
     \<lparr>mem := [0 \<mapsto> demo_file, 1 \<mapsto> replicate 16 0, 2 \<mapsto> replicate 16 0],
      datas := [0 \<mapsto> \<lparr>d_data = demo_data 0, d_scn = None, d_flags = 0\<rparr>,
                1 \<mapsto> \<lparr>d_data = demo_data 1, d_scn = None, d_flags = 0\<rparr>]\<rparr>"

lemma demo_layout: "type_layout ELF_T_REL ELFCLASS32 = Some Elf32_Rel_DEF"
  by (simp add: type_layout_def prim_basic_def comp_layout_def)

lemma demo_sizes: "FSZ ELFCLASS32 Elf32_Rel_DEF = 8" "struct_size ELFCLASS32 Elf32_Rel_DEF = 8"
  by (simp_all add: Elf32_Rel_DEF_def struct_size_def struct_align_def align_up_def)

text \<open>
  C1. Translation to memory is correct.  When the source holds \<open>n\<close> file elements and the
  destination has room for \<open>n\<close> memory elements (in a block of its own or at the same
  address), the pointer to the destination is returned, its type and size are set, and
  every structure found there is the one the file bytes of the source denote, whatever the
  order in which the elements are written; no other byte changes.
\<close>

theorem xlate_to_memory:
  assumes "datas st d = Some dst" "datas st s = Some src" "d \<noteq> s"
    and "type_layout (d_type (d_data src)) ec = Some def" "std_class ec"
    and "xlate_ready (d_data dst) (d_data src) encoding ec st (FSZ ec def) (struct_size ec def) n sb so S db dof D"
    and "addr (d_buf (d_data dst)) st mod ucast (libelf_malign (d_type (d_data src)) ec) = 0"
  shows "\<exists>st' D' dst'. libelf_xlate (Some d) (Some s) encoding ec ELF_TOMEMORY st = Some (Some d, set_data d dst' st')
    \<and> d_data dst' = (d_data dst)\<lparr>d_type := d_type (d_data src), d_size := of_nat (n * struct_size ec def)\<rparr>
    \<and> tom_result ec def (encoding \<noteq> libelf_byteorder (globals st)) st so db dof n D S st' D'"
  using xlate_tom_correct [OF assms(4-7)] assms(1-3) unfolding libelf_xlate_def by force

theorem xlate_to_memory_witness:
  "\<exists>st' D' dst'. libelf_xlate (Some 1) (Some 0) ELFDATA2MSB ELFCLASS32 ELF_TOMEMORY demo_store
      = Some (Some 1, set_data 1 dst' st')
    \<and> d_data dst' = demo_data 1
    \<and> tom_result ELFCLASS32 Elf32_Rel_DEF True demo_store 0 1 0 2 (replicate 16 0) demo_file st' D'"
proof -
  have ready: "xlate_ready (demo_data 1) (demo_data 0) ELFDATA2MSB ELFCLASS32 demo_store 8 8 2 0 0
      demo_file 1 0 (replicate 16 0)"
    by (simp add: xlate_ready_def demo_data_def demo_store_def demo_file_def addr_def initial_store_def)
  have aligned: "addr (d_buf (demo_data 1)) demo_store
      mod ucast (libelf_malign (d_type (demo_data 0)) ELFCLASS32) = 0"
    by (simp add: demo_data_def demo_store_def addr_def initial_store_def libelf_malign_def
        malign_table_def prim_basic_def comp_layout_def Elf32_Rel_DEF_def struct_align_def)
  show ?thesis
    using xlate_to_memory [of demo_store 1 "\<lparr>d_data = demo_data 1, d_scn = None, d_flags = 0\<rparr>" 0
        "\<lparr>d_data = demo_data 0, d_scn = None, d_flags = 0\<rparr>" ELFCLASS32 Elf32_Rel_DEF ELFDATA2MSB 2
        0 0 demo_file 1 0 "replicate 16 0"] ready aligned demo_layout
    by (simp add: demo_sizes std_class_def demo_store_def demo_data_def initial_store_def
        initial_globals_def)
qed

text \<open>
  C2. Translation to a file is correct: every element written is the file form of the
  structure that the source held when the call was made, in place or not.
\<close>

theorem xlate_to_file:
  assumes "datas st d = Some dst" "datas st s = Some src" "d \<noteq> s"
    and "type_layout (d_type (d_data src)) ec = Some def" "std_class ec"
    and "xlate_ready (d_data dst) (d_data src) encoding ec st (struct_size ec def) (FSZ ec def) n sb so S db dof D"
    and "addr (d_buf (d_data src)) st mod ucast (libelf_malign (d_type (d_data src)) ec) = 0"
  shows "\<exists>st' D' dst'. libelf_xlate (Some d) (Some s) encoding ec ELF_TOFILE st = Some (Some d, set_data d dst' st')
    \<and> d_data dst' = (d_data dst)\<lparr>d_type := d_type (d_data src), d_size := of_nat (n * FSZ ec def)\<rparr>
    \<and> tof_result ec def (encoding \<noteq> libelf_byteorder (globals st)) st so db dof n D S st' D'"
  using xlate_tof_correct [OF assms(4-7)] assms(1-3) unfolding libelf_xlate_def by force

theorem xlate_to_file_witness:
  "\<exists>st' D' dst'. libelf_xlate (Some 1) (Some 0) ELFDATA2MSB ELFCLASS32 ELF_TOFILE demo_store
      = Some (Some 1, set_data 1 dst' st')
    \<and> d_data dst' = demo_data 1
    \<and> tof_result ELFCLASS32 Elf32_Rel_DEF True demo_store 0 1 0 2 (replicate 16 0) demo_file st' D'"
proof -
  have ready: "xlate_ready (demo_data 1) (demo_data 0) ELFDATA2MSB ELFCLASS32 demo_store 8 8 2 0 0
      demo_file 1 0 (replicate 16 0)"
    by (simp add: xlate_ready_def demo_data_def demo_store_def demo_file_def addr_def initial_store_def)
  have aligned: "addr (d_buf (demo_data 0)) demo_store
      mod ucast (libelf_malign (d_type (demo_data 0)) ELFCLASS32) = 0"
    by (simp add: demo_data_def demo_store_def addr_def initial_store_def libelf_malign_def
        malign_table_def prim_basic_def comp_layout_def Elf32_Rel_DEF_def struct_align_def)
  show ?thesis
    using xlate_to_file [of demo_store 1 "\<lparr>d_data = demo_data 1, d_scn = None, d_flags = 0\<rparr>" 0
        "\<lparr>d_data = demo_data 0, d_scn = None, d_flags = 0\<rparr>" ELFCLASS32 Elf32_Rel_DEF ELFDATA2MSB 2
        0 0 demo_file 1 0 "replicate 16 0"] ready aligned demo_layout
    by (simp add: demo_sizes std_class_def demo_store_def demo_data_def initial_store_def
        initial_globals_def)
qed

text \<open>
  C3. Conversion to memory followed by conversion back to the file gives the bytes of the
  file again, for every type of fixed size, both classes and both byte orders, and both
  conversions succeed.
\<close>

theorem convert_roundtrip:
  assumes "type_layout t ec = Some def" "std_class ec"
    and "mem st sb = Some S" "so + unat count * FSZ ec def \<le> length S"
    and "mem st mb = Some M" "mo + unat count * struct_size ec def \<le> length M"
    and "mem st fb = Some F" "fo + unat count * FSZ ec def \<le> length F"
    and "mb \<noteq> sb" "fb \<noteq> mb" "unat count * struct_size ec def \<le> unat msz"
  shows "\<exists>st1 st2 F'. translate t ELF_TOMEMORY ec (Some (mb, mo)) msz (Some (sb, so)) count sw st
            = Some (True, st1)
      \<and> translate t ELF_TOFILE ec (Some (fb, fo)) fsz (Some (mb, mo)) count sw st1
            = Some (True, st2)
      \<and> mem st2 fb = Some F'
      \<and> segment fo (unat count * FSZ ec def) F' = segment so (unat count * FSZ ec def) S"
  by (rule translate_roundtrip [OF assms])

theorem convert_roundtrip_witness:
  "\<exists>st1 st2 F'. translate ELF_T_REL ELF_TOMEMORY ELFCLASS32 (Some (1, 0)) 16 (Some (0, 0)) 2 True demo_store
            = Some (True, st1)
      \<and> translate ELF_T_REL ELF_TOFILE ELFCLASS32 (Some (2, 0)) 16 (Some (1, 0)) 2 True st1
            = Some (True, st2)
      \<and> mem st2 2 = Some F' \<and> segment 0 16 F' = segment 0 16 demo_file"
  using convert_roundtrip [of ELF_T_REL ELFCLASS32 Elf32_Rel_DEF demo_store 0 demo_file 0 2 1
      "replicate 16 0" 0 2 "replicate 16 0" 0 16 True 16] demo_layout
  by (simp add: demo_sizes std_class_def demo_store_def demo_file_def)

text \<open>
  The byte-swap macros reverse the bytes of a member's object representation and leave
  \<open>e_ident\<close> alone, whatever the byte order of the machine they run on.
\<close>

theorem SWAP_FIELD_reverses:
  assumes "length bs = basic_fsize ec b" "b = XWORD \<or> b = SXWORD \<longrightarrow> ec = ELFCLASS64"
  shows "SWAP_FIELD order ec b bs = (if b = IDENT then bs else rev bs)"
  using SWAP_FIELD_eq [OF assms] by (simp add: swap_bytes_def)

theorem SWAP_FIELD_reverses_witness:
  "SWAP_FIELD ELFDATA2LSB ELFCLASS64 XWORD [1, 2, 3, 4, 5, 6, 7, 8] = [8, 7, 6, 5, 4, 3, 2, 1]"
  using SWAP_FIELD_reverses [of "[1, 2, 3, 4, 5, 6, 7, 8]" ELFCLASS64 XWORD ELFDATA2LSB] by simp

end
