(* ===== verification/Elf_Objects.thy ===== *)
theory Elf_Objects
  imports Elf_Xlate
begin

text \<open>
  C structures as values: the records of \<open>Elf_Types\<close> and their members' object
  representations, in the order of the structure definitions.  A record is read from and
  written to memory through these; so is an object that the translator fills in.
\<close>

section \<open>Records and members\<close>

text \<open>The number of bytes of an address.\<close>

definition wbytes :: "'w::len itself \<Rightarrow> nat" where
  "wbytes _ = LENGTH('w) div 8"

definition ehdr_of :: "u32 \<Rightarrow> struct_val \<Rightarrow> 'w::len Elf_Ehdr" where
  "ehdr_of o' vs =
     \<lparr>eh_ident = vs ! 0, eh_type = native_val o' (vs ! 1), eh_machine = native_val o' (vs ! 2),
      eh_version = native_val o' (vs ! 3), eh_entry = native_val o' (vs ! 4),
      eh_phoff = native_val o' (vs ! 5), eh_shoff = native_val o' (vs ! 6),
      eh_flags = native_val o' (vs ! 7), eh_ehsize = native_val o' (vs ! 8),
      eh_phentsize = native_val o' (vs ! 9), eh_phnum = native_val o' (vs ! 10),
      eh_shentsize = native_val o' (vs ! 11), eh_shnum = native_val o' (vs ! 12),
      eh_shstrndx = native_val o' (vs ! 13)\<rparr>"

definition ehdr_members :: "u32 \<Rightarrow> 'w::len Elf_Ehdr \<Rightarrow> struct_val" where
  "ehdr_members o' x =
     (let w = wbytes TYPE('w)
      in [eh_ident x, native_bytes o' 2 (eh_type x), native_bytes o' 2 (eh_machine x),
          native_bytes o' 4 (eh_version x), native_bytes o' w (eh_entry x),
          native_bytes o' w (eh_phoff x), native_bytes o' w (eh_shoff x),
          native_bytes o' 4 (eh_flags x), native_bytes o' 2 (eh_ehsize x),
          native_bytes o' 2 (eh_phentsize x), native_bytes o' 2 (eh_phnum x),
          native_bytes o' 2 (eh_shentsize x), native_bytes o' 2 (eh_shnum x),
          native_bytes o' 2 (eh_shstrndx x)])"

definition phdr32_of :: "u32 \<Rightarrow> struct_val \<Rightarrow> 32 Elf_Phdr" where
  "phdr32_of o' vs =
     \<lparr>p_type = native_val o' (vs ! 0), p_flags = native_val o' (vs ! 6),
      p_offset = native_val o' (vs ! 1), p_vaddr = native_val o' (vs ! 2),
      p_paddr = native_val o' (vs ! 3), p_filesz = native_val o' (vs ! 4),
      p_memsz = native_val o' (vs ! 5), p_align = native_val o' (vs ! 7)\<rparr>"

definition phdr32_members :: "u32 \<Rightarrow> 32 Elf_Phdr \<Rightarrow> struct_val" where
  "phdr32_members o' x =
     [native_bytes o' 4 (p_type x), native_bytes o' 4 (p_offset x), native_bytes o' 4 (p_vaddr x),
      native_bytes o' 4 (p_paddr x), native_bytes o' 4 (p_filesz x), native_bytes o' 4 (p_memsz x),
      native_bytes o' 4 (p_flags x), native_bytes o' 4 (p_align x)]"

definition phdr64_of :: "u32 \<Rightarrow> struct_val \<Rightarrow> 64 Elf_Phdr" where
  "phdr64_of o' vs =
     \<lparr>p_type = native_val o' (vs ! 0), p_flags = native_val o' (vs ! 1),
      p_offset = native_val o' (vs ! 2), p_vaddr = native_val o' (vs ! 3),
      p_paddr = native_val o' (vs ! 4), p_filesz = native_val o' (vs ! 5),
      p_memsz = native_val o' (vs ! 6), p_align = native_val o' (vs ! 7)\<rparr>"

definition phdr64_members :: "u32 \<Rightarrow> 64 Elf_Phdr \<Rightarrow> struct_val" where
  "phdr64_members o' x =
     [native_bytes o' 4 (p_type x), native_bytes o' 4 (p_flags x), native_bytes o' 8 (p_offset x),
      native_bytes o' 8 (p_vaddr x), native_bytes o' 8 (p_paddr x), native_bytes o' 8 (p_filesz x),
      native_bytes o' 8 (p_memsz x), native_bytes o' 8 (p_align x)]"

definition shdr_of :: "u32 \<Rightarrow> struct_val \<Rightarrow> 'w::len Elf_Shdr" where
  "shdr_of o' vs =
     \<lparr>sh_name = native_val o' (vs ! 0), sh_type = native_val o' (vs ! 1),
      sh_flags = native_val o' (vs ! 2), sh_addr = native_val o' (vs ! 3),
      sh_offset = native_val o' (vs ! 4), sh_size = native_val o' (vs ! 5),
      sh_link = native_val o' (vs ! 6), sh_info = native_val o' (vs ! 7),
      sh_addralign = native_val o' (vs ! 8), sh_entsize = native_val o' (vs ! 9)\<rparr>"

definition shdr_members :: "u32 \<Rightarrow> 'w::len Elf_Shdr \<Rightarrow> struct_val" where
  "shdr_members o' x =
     (let w = wbytes TYPE('w)
      in [native_bytes o' 4 (sh_name x), native_bytes o' 4 (sh_type x),
          native_bytes o' w (sh_flags x), native_bytes o' w (sh_addr x),
          native_bytes o' w (sh_offset x), native_bytes o' w (sh_size x),
          native_bytes o' 4 (sh_link x), native_bytes o' 4 (sh_info x),
          native_bytes o' w (sh_addralign x), native_bytes o' w (sh_entsize x)])"

definition sym32_of :: "u32 \<Rightarrow> struct_val \<Rightarrow> 32 Elf_Sym" where
  "sym32_of o' vs =
     \<lparr>st_name = native_val o' (vs ! 0), st_info = native_val o' (vs ! 3),
      st_other = native_val o' (vs ! 4), st_shndx = native_val o' (vs ! 5),
      st_value = native_val o' (vs ! 1), st_size = native_val o' (vs ! 2)\<rparr>"

definition sym32_members :: "u32 \<Rightarrow> 32 Elf_Sym \<Rightarrow> struct_val" where
  "sym32_members o' x =
     [native_bytes o' 4 (st_name x), native_bytes o' 4 (st_value x), native_bytes o' 4 (st_size x),
      native_bytes o' 1 (st_info x), native_bytes o' 1 (st_other x), native_bytes o' 2 (st_shndx x)]"

definition sym64_of :: "u32 \<Rightarrow> struct_val \<Rightarrow> 64 Elf_Sym" where
  "sym64_of o' vs =
     \<lparr>st_name = native_val o' (vs ! 0), st_info = native_val o' (vs ! 1),
      st_other = native_val o' (vs ! 2), st_shndx = native_val o' (vs ! 3),
      st_value = native_val o' (vs ! 4), st_size = native_val o' (vs ! 5)\<rparr>"

definition sym64_members :: "u32 \<Rightarrow> 64 Elf_Sym \<Rightarrow> struct_val" where
  "sym64_members o' x =
     [native_bytes o' 4 (st_name x), native_bytes o' 1 (st_info x), native_bytes o' 1 (st_other x),
      native_bytes o' 2 (st_shndx x), native_bytes o' 8 (st_value x), native_bytes o' 8 (st_size x)]"

definition rel_of :: "u32 \<Rightarrow> struct_val \<Rightarrow> 'w::len Elf_Rel" where
  "rel_of o' vs = \<lparr>r_offset = native_val o' (vs ! 0), r_info = native_val o' (vs ! 1)\<rparr>"

definition rel_members :: "u32 \<Rightarrow> 'w::len Elf_Rel \<Rightarrow> struct_val" where
  "rel_members o' x =
     (let w = wbytes TYPE('w) in [native_bytes o' w (r_offset x), native_bytes o' w (r_info x)])"

definition rela_of :: "u32 \<Rightarrow> struct_val \<Rightarrow> 'w::len Elf_Rela" where
  "rela_of o' vs = \<lparr>ra_offset = native_val o' (vs ! 0), ra_info = native_val o' (vs ! 1),
     ra_addend = native_val o' (vs ! 2)\<rparr>"

definition rela_members :: "u32 \<Rightarrow> 'w::len Elf_Rela \<Rightarrow> struct_val" where
  "rela_members o' x =
     (let w = wbytes TYPE('w)
      in [native_bytes o' w (ra_offset x), native_bytes o' w (ra_info x), native_bytes o' w (ra_addend x)])"

definition dyn_of :: "u32 \<Rightarrow> struct_val \<Rightarrow> 'w::len Elf_Dyn" where
  "dyn_of o' vs = \<lparr>d_tag = native_val o' (vs ! 0), d_val = native_val o' (vs ! 1)\<rparr>"

definition dyn_members :: "u32 \<Rightarrow> 'w::len Elf_Dyn \<Rightarrow> struct_val" where
  "dyn_members o' x =
     (let w = wbytes TYPE('w) in [native_bytes o' w (d_tag x), native_bytes o' w (d_val x)])"

definition cap_of :: "u32 \<Rightarrow> struct_val \<Rightarrow> 'w::len Elf_Cap" where
  "cap_of o' vs = \<lparr>c_tag = native_val o' (vs ! 0), c_val = native_val o' (vs ! 1)\<rparr>"

definition cap_members :: "u32 \<Rightarrow> 'w::len Elf_Cap \<Rightarrow> struct_val" where
  "cap_members o' x =
     (let w = wbytes TYPE('w) in [native_bytes o' w (c_tag x), native_bytes o' w (c_val x)])"

definition move_of :: "u32 \<Rightarrow> struct_val \<Rightarrow> 'w::len Elf_Move" where
  "move_of o' vs =
     \<lparr>m_value = native_val o' (vs ! 0), m_info = native_val o' (vs ! 1),
      m_poffset = native_val o' (vs ! 2), m_repeat = native_val o' (vs ! 3),
      m_stride = native_val o' (vs ! 4)\<rparr>"

definition move_members :: "u32 \<Rightarrow> 'w::len Elf_Move \<Rightarrow> struct_val" where
  "move_members o' x =
     (let w = wbytes TYPE('w)
      in [native_bytes o' 8 (m_value x), native_bytes o' w (m_info x), native_bytes o' w (m_poffset x),
          native_bytes o' 2 (m_repeat x), native_bytes o' 2 (m_stride x)])"

definition syminfo_of :: "u32 \<Rightarrow> struct_val \<Rightarrow> Elf_Syminfo" where
  "syminfo_of o' vs = \<lparr>si_boundto = native_val o' (vs ! 0), si_flags = native_val o' (vs ! 1)\<rparr>"

definition syminfo_members :: "u32 \<Rightarrow> Elf_Syminfo \<Rightarrow> struct_val" where
  "syminfo_members o' x = [native_bytes o' 2 (si_boundto x), native_bytes o' 2 (si_flags x)]"

section \<open>The contract of a structure type\<close>

text \<open>
  \<open>of_members\<close> and \<open>to_members\<close> are inverse on well-formed values (only \<open>e_ident\<close> has a
  length to respect).  The laws give what the accessors of every entry type rely on: what
  is stored is what is loaded, and other bytes stay.
\<close>

locale struct_codec =
  fixes ec :: int and def :: layout
    and of_members :: "u32 \<Rightarrow> struct_val \<Rightarrow> 'r"
    and to_members :: "u32 \<Rightarrow> 'r \<Rightarrow> struct_val"
    and wf :: "'r \<Rightarrow> bool"
  assumes valid: "valid_layout ec def"
    and to_ok: "wf x \<Longrightarrow> members_ok ec def (to_members order x)"
    and of_to: "wf x \<Longrightarrow> of_members order (to_members order x) = x"
    and of_wf: "members_ok ec def vs \<Longrightarrow> wf (of_members order vs)"
    and to_of: "members_ok ec def vs \<Longrightarrow> to_members order (of_members order vs) = vs"
begin

lemma load_total:
  assumes "mem st b = Some bs" "off + struct_size ec def \<le> length bs"
  shows "load_struct ec def (Some (b, off)) st
    = Some (mem_struct ec def (segment off (struct_size ec def) bs))"
    "members_ok ec def (mem_struct ec def (segment off (struct_size ec def) bs))"
proof -
  show "load_struct ec def (Some (b, off)) st
    = Some (mem_struct ec def (segment off (struct_size ec def) bs))"
    using assms by (simp add: load_struct_def mem_struct_def segment_def)
  show "members_ok ec def (mem_struct ec def (segment off (struct_size ec def) bs))"
    unfolding mem_struct_def using valid assms(2) members_end_le_struct_size [of ec def]
    by (intro get_members_ok) simp_all
qed

lemma store_then_load:
  assumes "mem st b = Some bs" "off + struct_size ec def \<le> length bs" "wf x"
  shows "\<exists>bs'. store_struct ec def (Some (b, off)) (to_members order x) st
      = Some (st\<lparr>mem := (mem st)(b \<mapsto> bs')\<rparr>)
    \<and> length bs' = length bs \<and> take off bs' = take off bs
    \<and> drop (off + struct_size ec def) bs' = drop (off + struct_size ec def) bs
    \<and> mem_struct ec def (segment off (struct_size ec def) bs') = to_members order x"
proof -
  let ?m = "struct_size ec def" and ?t = "to_members order x"
  let ?v = "put_members (member_offsets ec 0 def) ?t (segment off ?m bs)"
  have "members_end ec 0 def \<le> length (segment off ?m bs)"
    using members_end_le_struct_size [of ec def] assms(2) by simp
  note put = put_members_length_take [OF valid to_ok [OF assms(3)] this]
    get_put_members [OF valid to_ok [OF assms(3)] this]
  have len: "length ?v = ?m" using put(1) assms(2) by simp
  have "store_struct ec def (Some (b, off)) ?t st
      = Some (st\<lparr>mem := (mem st)(b \<mapsto> put_at off ?v bs)\<rparr>)"
    using assms len by (simp add: store_struct_def segment_def)
  then show ?thesis
    using assms(2) len put(2) segment_put_at_same [of off ?v bs]
    by (intro exI [of _ "put_at off ?v bs"])
      (simp add: take_put_at drop_put_at mem_struct_def)
qed

text \<open>The value found at an address after it was stored there.\<close>

lemma load_after_store:
  assumes "mem st b = Some bs" "off + struct_size ec def \<le> length bs" "wf x"
    and "store_struct ec def (Some (b, off)) (to_members order x) st = Some st'"
  shows "map_option (of_members order) (load_struct ec def (Some (b, off)) st') = Some x"
proof -
  obtain bs' where bs': "st' = st\<lparr>mem := (mem st)(b \<mapsto> bs')\<rparr>" "length bs' = length bs"
    "mem_struct ec def (segment off (struct_size ec def) bs') = to_members order x"
    using store_then_load [OF assms(1-3), of order] assms(4) by auto
  then have "load_struct ec def (Some (b, off)) st' = Some (to_members order x)"
    using load_total(1) [of st' b bs' off] assms(2) by simp
  then show ?thesis by (simp add: of_to [OF assms(3)])
qed

end


lemma native_val_bytes:
  "LENGTH('a::len) \<le> 8 * n \<Longrightarrow> native_val o' (native_bytes o' n (w :: 'a word)) = w"
  by (simp add: native_val_def native_bytes_def word_of_le_of_word)

lemma length_native_bytes [simp]: "length (native_bytes o' n w) = n"
  by (simp add: native_bytes_def)

lemma members_ok_Cons:
  "members_ok ec (m # ms) vs \<longleftrightarrow>
     (\<exists>v vs'. vs = v # vs' \<and> length v = basic_fsize ec (snd m) \<and> members_ok ec ms vs')"
  by (auto simp: members_ok_def list_all2_Cons1)

lemmas object_simps = native_val_bytes members_ok_Cons wbytes_def Let_def DEF_simps
  ehdr_of_def ehdr_members_def phdr32_of_def phdr32_members_def phdr64_of_def phdr64_members_def
  shdr_of_def shdr_members_def sym32_of_def sym32_members_def sym64_of_def sym64_members_def
  rel_of_def rel_members_def rela_of_def rela_members_def dyn_of_def dyn_members_def
  cap_of_def cap_members_def move_of_def move_members_def syminfo_of_def syminfo_members_def

definition ehdr_wf :: "'w::len Elf_Ehdr \<Rightarrow> bool" where
  "ehdr_wf x \<longleftrightarrow> length (eh_ident x) = EI_NIDENT"

interpretation ehdr32: struct_codec ELFCLASS32 Elf32_Ehdr_DEF "ehdr_of :: u32 \<Rightarrow> struct_val \<Rightarrow> 32 Elf_Ehdr" "ehdr_members" "ehdr_wf"
  by unfold_locales (auto simp: object_simps ehdr_wf_def)

interpretation ehdr64: struct_codec ELFCLASS64 Elf64_Ehdr_DEF "ehdr_of :: u32 \<Rightarrow> struct_val \<Rightarrow> 64 Elf_Ehdr" "ehdr_members" "ehdr_wf"
  by unfold_locales (auto simp: object_simps ehdr_wf_def)

interpretation shdr32: struct_codec ELFCLASS32 Elf32_Shdr_DEF "shdr_of :: u32 \<Rightarrow> struct_val \<Rightarrow> 32 Elf_Shdr" "shdr_members" "\<lambda>x. True"
  by unfold_locales (auto simp: object_simps ehdr_wf_def)

interpretation shdr64: struct_codec ELFCLASS64 Elf64_Shdr_DEF "shdr_of :: u32 \<Rightarrow> struct_val \<Rightarrow> 64 Elf_Shdr" "shdr_members" "\<lambda>x. True"
  by unfold_locales (auto simp: object_simps ehdr_wf_def)

interpretation rel32: struct_codec ELFCLASS32 Elf32_Rel_DEF "rel_of :: u32 \<Rightarrow> struct_val \<Rightarrow> 32 Elf_Rel" "rel_members" "\<lambda>x. True"
  by unfold_locales (auto simp: object_simps ehdr_wf_def)

interpretation rel64: struct_codec ELFCLASS64 Elf64_Rel_DEF "rel_of :: u32 \<Rightarrow> struct_val \<Rightarrow> 64 Elf_Rel" "rel_members" "\<lambda>x. True"
  by unfold_locales (auto simp: object_simps ehdr_wf_def)

interpretation rela32: struct_codec ELFCLASS32 Elf32_Rela_DEF "rela_of :: u32 \<Rightarrow> struct_val \<Rightarrow> 32 Elf_Rela" "rela_members" "\<lambda>x. True"
  by unfold_locales (auto simp: object_simps ehdr_wf_def)

interpretation rela64: struct_codec ELFCLASS64 Elf64_Rela_DEF "rela_of :: u32 \<Rightarrow> struct_val \<Rightarrow> 64 Elf_Rela" "rela_members" "\<lambda>x. True"
  by unfold_locales (auto simp: object_simps ehdr_wf_def)

interpretation dyn32: struct_codec ELFCLASS32 Elf32_Dyn_DEF "dyn_of :: u32 \<Rightarrow> struct_val \<Rightarrow> 32 Elf_Dyn" "dyn_members" "\<lambda>x. True"
  by unfold_locales (auto simp: object_simps ehdr_wf_def)

interpretation dyn64: struct_codec ELFCLASS64 Elf64_Dyn_DEF "dyn_of :: u32 \<Rightarrow> struct_val \<Rightarrow> 64 Elf_Dyn" "dyn_members" "\<lambda>x. True"
  by unfold_locales (auto simp: object_simps ehdr_wf_def)

interpretation cap32: struct_codec ELFCLASS32 Elf32_Cap_DEF "cap_of :: u32 \<Rightarrow> struct_val \<Rightarrow> 32 Elf_Cap" "cap_members" "\<lambda>x. True"
  by unfold_locales (auto simp: object_simps ehdr_wf_def)

interpretation cap64: struct_codec ELFCLASS64 Elf64_Cap_DEF "cap_of :: u32 \<Rightarrow> struct_val \<Rightarrow> 64 Elf_Cap" "cap_members" "\<lambda>x. True"
  by unfold_locales (auto simp: object_simps ehdr_wf_def)

interpretation move32: struct_codec ELFCLASS32 Elf32_Move_DEF "move_of :: u32 \<Rightarrow> struct_val \<Rightarrow> 32 Elf_Move" "move_members" "\<lambda>x. True"
  by unfold_locales (auto simp: object_simps ehdr_wf_def)

interpretation move64: struct_codec ELFCLASS64 Elf64_Move_DEF "move_of :: u32 \<Rightarrow> struct_val \<Rightarrow> 64 Elf_Move" "move_members" "\<lambda>x. True"
  by unfold_locales (auto simp: object_simps ehdr_wf_def)

interpretation phdr32: struct_codec ELFCLASS32 Elf32_Phdr_DEF "phdr32_of" "phdr32_members" "\<lambda>x. True"
  by unfold_locales (auto simp: object_simps ehdr_wf_def)

interpretation phdr64: struct_codec ELFCLASS64 Elf64_Phdr_DEF "phdr64_of" "phdr64_members" "\<lambda>x. True"
  by unfold_locales (auto simp: object_simps ehdr_wf_def)

interpretation sym32: struct_codec ELFCLASS32 Elf32_Sym_DEF "sym32_of" "sym32_members" "\<lambda>x. True"
  by unfold_locales (auto simp: object_simps ehdr_wf_def)

interpretation sym64: struct_codec ELFCLASS64 Elf64_Sym_DEF "sym64_of" "sym64_members" "\<lambda>x. True"
  by unfold_locales (auto simp: object_simps ehdr_wf_def)

interpretation syminfo32: struct_codec ELFCLASS32 Elf32_Syminfo_DEF "syminfo_of" "syminfo_members" "\<lambda>x. True"
  by unfold_locales (auto simp: object_simps ehdr_wf_def)

interpretation syminfo64: struct_codec ELFCLASS64 Elf64_Syminfo_DEF "syminfo_of" "syminfo_members" "\<lambda>x. True"
  by unfold_locales (auto simp: object_simps ehdr_wf_def)

section \<open>Objects filled in by the translator\<close>

text \<open>
  Allocation of \<open>n\<close> zeroed bytes with \<open>calloc(k, sz)\<close>: it fails when the product
  overflows or the allocator says so.
\<close>

definition calloc_ok :: "u64 \<Rightarrow> u64 \<Rightarrow> store \<Rightarrow> bool \<times> store" where
  "calloc_ok k sz st = (if unat k * unat sz \<ge> 2 ^ 64 then (False, st) else alloc_ok st)"

text \<open>
  A typed object that the code passes to the translator as bytes: its representation lives
  in a block of its own while the converter runs, and is read back as structures.
\<close>

definition load_objects ::
  "int \<Rightarrow> int \<Rightarrow> u64 \<Rightarrow> ptr \<Rightarrow> u64 \<Rightarrow> bool \<Rightarrow> store \<Rightarrow> ((bool \<times> struct_val list) \<times> store) option"
where
  "load_objects t ec dsz src cnt swap st =
     do { def \<leftarrow> comp_layout t ec;
          let b = fresh st;
          (ok, st1) \<leftarrow> translate t ELF_TOMEMORY ec (Some (b, 0)) dsz src cnt swap
             (st\<lparr>mem := (mem st)(b \<mapsto> replicate (unat dsz) 0), fresh := Suc b\<rparr>);
          bs \<leftarrow> mem st1 b;
          Some ((ok, map (\<lambda>i. mem_struct ec def (elem 0 (struct_size ec def) i bs)) [0..<unat cnt]),
                st1\<lparr>mem := (mem st1)(b := None)\<rparr>) }"

text \<open>
  When the file has the bytes, the objects are those the bytes denote and nothing else
  in the store has changed.
\<close>

lemma load_objects_correct:
  assumes "comp_layout t ec = Some def" "std_class ec"
    and "mem st sb = Some S" "so + unat cnt * FSZ ec def \<le> length S"
    and "unat cnt * struct_size ec def \<le> unat dsz" "mem st (fresh st) = None"
  shows "load_objects t ec dsz (Some (sb, so)) cnt swap st
    = Some ((True, map (\<lambda>i. file_struct swap ec def (elem so (FSZ ec def) i S)) [0..<unat cnt]),
            st\<lparr>fresh := Suc (fresh st)\<rparr>)"
proof -
  let ?b = "fresh st" and ?Z = "replicate (unat dsz) (0 :: byte)"
  let ?st = "st\<lparr>mem := (mem st)(?b \<mapsto> ?Z), fresh := Suc ?b\<rparr>"
  have t: "type_layout t ec = Some def"
    using assms(1) by (auto simp: type_layout_def prim_basic_def comp_layout_def Let_def split: if_splits)
  have ne: "?b \<noteq> sb" using assms(3,6) by auto
  have h: "mem ?st sb = Some S" "mem ?st ?b = Some ?Z" "0 + unat cnt * struct_size ec def \<le> length ?Z"
    using assms(3,5) ne by simp_all
  obtain st' D' where *: "translate t ELF_TOMEMORY ec (Some (?b, 0)) dsz (Some (sb, so)) cnt swap ?st
      = Some (True, st')" "tom_result ec def swap ?st so ?b 0 (unat cnt) ?Z S st' D'"
    using translate_tom_correct [OF t assms(2) h(1) assms(4) h(2,3) _ assms(5), of swap] ne by auto
  then have st': "st' = ?st\<lparr>mem := (mem ?st)(?b \<mapsto> D')\<rparr>"
    and D': "\<And>i. i < unat cnt \<Longrightarrow> mem_struct ec def (elem 0 (struct_size ec def) i D')
      = file_struct swap ec def (elem so (FSZ ec def) i S)"
    by (simp_all add: tom_result_def)
  have "(mem st)(?b := None) = mem st" using assms(6) by (simp add: fun_upd_idem)
  then have "st'\<lparr>mem := (mem st')(?b := None)\<rparr> = st\<lparr>fresh := Suc ?b\<rparr>"
    unfolding st' by simp
  moreover have "mem st' ?b = Some D'" by (simp add: st')
  moreover have "map (\<lambda>i. mem_struct ec def (elem 0 (struct_size ec def) i D')) [0..<unat cnt]
      = map (\<lambda>i. file_struct swap ec def (elem so (FSZ ec def) i S)) [0..<unat cnt]"
    using D' by simp
  ultimately show ?thesis
    using *(1) assms(1) unfolding load_objects_def by (simp add: Let_def)
qed

section \<open>Range-checked copies\<close>

text \<open>
  \<open>LIBELF_COPY_U32\<close> and \<open>LIBELF_COPY_S32\<close> leave the function at the first value that does
  not fit, so the fields before it have been written and those after it have not.  A copy
  is a pair: whether all values fitted so far, and the object.
\<close>

definition copy_field :: "('h \<Rightarrow> 'h) \<Rightarrow> bool \<times> 'h \<Rightarrow> bool \<times> 'h" where
  "copy_field f r = (if fst r then (True, f (snd r)) else r)"

definition LIBELF_COPY_U32 :: "u64 \<Rightarrow> (u32 \<Rightarrow> 'h \<Rightarrow> 'h) \<Rightarrow> bool \<times> 'h \<Rightarrow> bool \<times> 'h" where
  "LIBELF_COPY_U32 v f r =
     (if fst r then (if v > 0xFFFFFFFF then (False, snd r) else (True, f (ucast (v AND 0xFFFFFFFF)) (snd r)))
      else r)"

definition LIBELF_COPY_S32 :: "u64 \<Rightarrow> (u32 \<Rightarrow> 'h \<Rightarrow> 'h) \<Rightarrow> bool \<times> 'h \<Rightarrow> bool \<times> 'h" where
  "LIBELF_COPY_S32 v f r =
     (if fst r then (if sint v > 0x7FFFFFFF \<or> sint v < - 0x80000000 then (False, snd r)
                     else (True, f (word_of_int (sint v)) (snd r)))
      else r)"

lemma copy_field_simps [simp]:
  "copy_field f (True, h) = (True, f h)"
  "copy_field f (False, h) = (False, h)"
  by (simp_all add: copy_field_def)

lemma ucast_and_u32: "ucast ((v :: u64) AND 0xFFFFFFFF) = (ucast v :: u32)"
proof -
  have m: "(0xFFFFFFFF :: u64) = mask 32" by (simp add: mask_eq_exp_minus_1)
  show ?thesis
    unfolding m
    by (intro bit_word_eqI) (simp add: bit_ucast_iff bit_and_iff bit_mask_iff del: mask_numeral)
qed

lemma LIBELF_COPY_U32_simps [simp]:
  "v \<le> 0xFFFFFFFF \<Longrightarrow> LIBELF_COPY_U32 v f (True, h) = (True, f (ucast v) h)"
  "LIBELF_COPY_U32 v f (False, h) = (False, h)"
  by (simp_all add: LIBELF_COPY_U32_def ucast_and_u32 not_less)

lemma LIBELF_COPY_U32_fst:
  "fst (LIBELF_COPY_U32 v f r) \<longleftrightarrow> fst r \<and> v \<le> 0xFFFFFFFF"
  by (auto simp: LIBELF_COPY_U32_def not_less)

lemma LIBELF_COPY_S32_fst:
  "fst (LIBELF_COPY_S32 v f r) \<longleftrightarrow> fst r \<and> sint v \<le> 0x7FFFFFFF \<and> - 0x80000000 \<le> sint v"
  by (auto simp: LIBELF_COPY_S32_def not_less)

lemma copy_field_fst [simp]: "fst (copy_field f r) = fst r"
  by (simp add: copy_field_def)

lemma ucast_u32_le [simp]: "(ucast (x :: u32) :: u64) \<le> 0xFFFFFFFF"
  using unat_u32_less [of x] by (simp add: word_le_nat_alt unat_ucast_u32_u64)

lemma ucast_u32_u64_u32 [simp]: "(ucast (ucast (x :: u32) :: u64) :: u32) = x"
  by (rule bit_word_eqI) (simp add: bit_ucast_iff)

lemma ucast_u64_u32_u64:
  assumes "v \<le> (0xFFFFFFFF :: u64)"
  shows "ucast (ucast v :: u32) = v"
proof -
  have "unat v < 2 ^ 32" using assms by (simp add: word_le_nat_alt)
  then have "take_bit 32 v = v"
    by (simp add: word_unat_eq_iff unsigned_take_bit_eq take_bit_nat_eq_self)
  then show ?thesis by (simp add: unsigned_ucast_eq word_unat_eq_iff flip: take_bit_eq_mod)
qed

end
