(* ===== verification/Libelf_OS.thy ===== *)
theory Libelf_OS
  imports Libelf_State
begin

text \<open>
  The operating system as the library sees it.  It is not part of the library, so it is a
  parameter: a function from the calls made so far, the present one included, to the reply
  to the present one.  An operation that makes system calls takes that function and returns
  the calls it has made.
\<close>

datatype syscall =
    Fstat int
  | Mmap int u64
  | Munmap ptr u64
  | Read int u64
  | Write int "byte list"
  | Ftruncate int u64
  | Lseek int u64

datatype file_type = Regular | Character_device | Fifo | Socket | Other_file

text \<open>
  A reply: the value returned, \<open>errno\<close> when that signals an error, the bytes that a \<open>read\<close>
  or a mapping delivers, and what \<open>fstat\<close> tells about the file.
\<close>

record reply =
  r_value :: int
  r_errno :: u32
  r_bytes :: "byte list"
  r_mode :: file_type
  r_size :: u64

type_synonym trace = "syscall list"
type_synonym os = "trace \<Rightarrow> reply"

definition call :: "os \<Rightarrow> syscall \<Rightarrow> trace \<Rightarrow> reply \<times> trace" where
  "call os c tr = (os (tr @ [c]), tr @ [c])"

text \<open>
  A successful mapping is a new block; a failed one is \<open>MAP_FAILED\<close>, an address where there
  is no object.
\<close>

definition map_block :: "reply \<Rightarrow> store \<Rightarrow> ptr \<times> store" where
  "map_block r st =
     (Some (fresh st, 0),
      st\<lparr>mem := (if r_value r < 0 then mem st else (mem st)(fresh st \<mapsto> r_bytes r)), fresh := Suc (fresh st)\<rparr>)"

text \<open>Removing a mapping; the code maps whole files, so the block goes as a whole.\<close>

definition unmap_block :: "ptr \<Rightarrow> store \<Rightarrow> store option" where
  "unmap_block p st = free_ptr p st"

text \<open>A system that answers every call with success and nothing else, for the instances of the properties.\<close>

definition demo_os :: os where
  "demo_os tr = \<lparr>r_value = 0, r_errno = 0, r_bytes = [], r_mode = Regular, r_size = 0\<rparr>"

end
