(* ===== verification/Eu_State.thy ===== *)
theory Eu_State
  imports Elf_Objects Libelf_OS
begin

text \<open>
  The second library of the repository, \<open>src/elfutils_libelf/libelf\<close>: its constants
  (\<open>libelf.h\<close>), its private descriptors (\<open>libelfP.h\<close>), the state its operations work on, error
  numbers (\<open>elf_error.c\<close>), version and fill byte (\<open>elf_version.c\<close>, \<open>elf_fill.c\<close>) and the small
  queries.  Names of the first library that mean something else here carry the prefix \<open>eu_\<close>.

  The ELF structures are those of \<open>Elf_Types\<close>; memory, allocator and byte order of the host are
  those of \<open>Libelf_State\<close>, in the field \<open>eu_mach\<close>.  The locks of the descriptors are left out: the
  model is of one thread.
\<close>

section \<open>Constants\<close>

text \<open>\<open>Elf_Type\<close> of \<open>libelf.h\<close>.\<close>

abbreviation (input) EU_T_BYTE :: int where "EU_T_BYTE \<equiv> 0"
abbreviation (input) EU_T_ADDR :: int where "EU_T_ADDR \<equiv> 1"
abbreviation (input) EU_T_DYN :: int where "EU_T_DYN \<equiv> 2"
abbreviation (input) EU_T_EHDR :: int where "EU_T_EHDR \<equiv> 3"
abbreviation (input) EU_T_HALF :: int where "EU_T_HALF \<equiv> 4"
abbreviation (input) EU_T_OFF :: int where "EU_T_OFF \<equiv> 5"
abbreviation (input) EU_T_PHDR :: int where "EU_T_PHDR \<equiv> 6"
abbreviation (input) EU_T_RELA :: int where "EU_T_RELA \<equiv> 7"
abbreviation (input) EU_T_REL :: int where "EU_T_REL \<equiv> 8"
abbreviation (input) EU_T_SHDR :: int where "EU_T_SHDR \<equiv> 9"
abbreviation (input) EU_T_SWORD :: int where "EU_T_SWORD \<equiv> 10"
abbreviation (input) EU_T_SYM :: int where "EU_T_SYM \<equiv> 11"
abbreviation (input) EU_T_WORD :: int where "EU_T_WORD \<equiv> 12"
abbreviation (input) EU_T_XWORD :: int where "EU_T_XWORD \<equiv> 13"
abbreviation (input) EU_T_SXWORD :: int where "EU_T_SXWORD \<equiv> 14"
abbreviation (input) EU_T_VDEF :: int where "EU_T_VDEF \<equiv> 15"
abbreviation (input) EU_T_VDAUX :: int where "EU_T_VDAUX \<equiv> 16"
abbreviation (input) EU_T_VNEED :: int where "EU_T_VNEED \<equiv> 17"
abbreviation (input) EU_T_VNAUX :: int where "EU_T_VNAUX \<equiv> 18"
abbreviation (input) EU_T_NHDR :: int where "EU_T_NHDR \<equiv> 19"
abbreviation (input) EU_T_SYMINFO :: int where "EU_T_SYMINFO \<equiv> 20"
abbreviation (input) EU_T_MOVE :: int where "EU_T_MOVE \<equiv> 21"
abbreviation (input) EU_T_LIB :: int where "EU_T_LIB \<equiv> 22"
abbreviation (input) EU_T_GNUHASH :: int where "EU_T_GNUHASH \<equiv> 23"
abbreviation (input) EU_T_AUXV :: int where "EU_T_AUXV \<equiv> 24"
abbreviation (input) EU_T_CHDR :: int where "EU_T_CHDR \<equiv> 25"
abbreviation (input) EU_T_NHDR8 :: int where "EU_T_NHDR8 \<equiv> 26"
abbreviation (input) EU_T_NUM :: int where "EU_T_NUM \<equiv> 27"

text \<open>Flags; the last three are internal.\<close>

abbreviation (input) EU_F_DIRTY :: u32 where "EU_F_DIRTY \<equiv> 0x1"
abbreviation (input) EU_F_LAYOUT :: u32 where "EU_F_LAYOUT \<equiv> 0x4"
abbreviation (input) EU_F_PERMISSIVE :: u32 where "EU_F_PERMISSIVE \<equiv> 0x8"
abbreviation (input) EU_F_MMAPPED :: u32 where "EU_F_MMAPPED \<equiv> 0x40"
abbreviation (input) EU_F_MALLOCED :: u32 where "EU_F_MALLOCED \<equiv> 0x80"
abbreviation (input) EU_F_FILEDATA :: u32 where "EU_F_FILEDATA \<equiv> 0x100"

datatype eu_cmd =
    EU_C_NULL | EU_C_READ | EU_C_RDWR | EU_C_WRITE | EU_C_CLR | EU_C_SET | EU_C_FDDONE | EU_C_FDREAD
  | EU_C_READ_MMAP | EU_C_RDWR_MMAP | EU_C_WRITE_MMAP | EU_C_READ_MMAP_PRIVATE | EU_C_EMPTY | EU_C_NUM

text \<open>The error numbers of \<open>libelfP.h\<close>.\<close>

abbreviation (input) EU_E_NOERROR :: int where "EU_E_NOERROR \<equiv> 0"
abbreviation (input) EU_E_UNKNOWN_ERROR :: int where "EU_E_UNKNOWN_ERROR \<equiv> 1"
abbreviation (input) EU_E_UNKNOWN_VERSION :: int where "EU_E_UNKNOWN_VERSION \<equiv> 2"
abbreviation (input) EU_E_UNKNOWN_TYPE :: int where "EU_E_UNKNOWN_TYPE \<equiv> 3"
abbreviation (input) EU_E_INVALID_HANDLE :: int where "EU_E_INVALID_HANDLE \<equiv> 4"
abbreviation (input) EU_E_SOURCE_SIZE :: int where "EU_E_SOURCE_SIZE \<equiv> 5"
abbreviation (input) EU_E_DEST_SIZE :: int where "EU_E_DEST_SIZE \<equiv> 6"
abbreviation (input) EU_E_INVALID_ENCODING :: int where "EU_E_INVALID_ENCODING \<equiv> 7"
abbreviation (input) EU_E_NOMEM :: int where "EU_E_NOMEM \<equiv> 8"
abbreviation (input) EU_E_INVALID_FILE :: int where "EU_E_INVALID_FILE \<equiv> 9"
abbreviation (input) EU_E_INVALID_ELF :: int where "EU_E_INVALID_ELF \<equiv> 10"
abbreviation (input) EU_E_INVALID_OP :: int where "EU_E_INVALID_OP \<equiv> 11"
abbreviation (input) EU_E_NO_VERSION :: int where "EU_E_NO_VERSION \<equiv> 12"
abbreviation (input) EU_E_INVALID_CMD :: int where "EU_E_INVALID_CMD \<equiv> 13"
abbreviation (input) EU_E_RANGE :: int where "EU_E_RANGE \<equiv> 14"
abbreviation (input) EU_E_ARCHIVE_FMAG :: int where "EU_E_ARCHIVE_FMAG \<equiv> 15"
abbreviation (input) EU_E_INVALID_ARCHIVE :: int where "EU_E_INVALID_ARCHIVE \<equiv> 16"
abbreviation (input) EU_E_NO_ARCHIVE :: int where "EU_E_NO_ARCHIVE \<equiv> 17"
abbreviation (input) EU_E_NO_INDEX :: int where "EU_E_NO_INDEX \<equiv> 18"
abbreviation (input) EU_E_READ_ERROR :: int where "EU_E_READ_ERROR \<equiv> 19"
abbreviation (input) EU_E_WRITE_ERROR :: int where "EU_E_WRITE_ERROR \<equiv> 20"
abbreviation (input) EU_E_INVALID_CLASS :: int where "EU_E_INVALID_CLASS \<equiv> 21"
abbreviation (input) EU_E_INVALID_INDEX :: int where "EU_E_INVALID_INDEX \<equiv> 22"
abbreviation (input) EU_E_INVALID_OPERAND :: int where "EU_E_INVALID_OPERAND \<equiv> 23"
abbreviation (input) EU_E_INVALID_SECTION :: int where "EU_E_INVALID_SECTION \<equiv> 24"
abbreviation (input) EU_E_INVALID_COMMAND :: int where "EU_E_INVALID_COMMAND \<equiv> 25"
abbreviation (input) EU_E_WRONG_ORDER_EHDR :: int where "EU_E_WRONG_ORDER_EHDR \<equiv> 26"
abbreviation (input) EU_E_FD_DISABLED :: int where "EU_E_FD_DISABLED \<equiv> 27"
abbreviation (input) EU_E_FD_MISMATCH :: int where "EU_E_FD_MISMATCH \<equiv> 28"
abbreviation (input) EU_E_OFFSET_RANGE :: int where "EU_E_OFFSET_RANGE \<equiv> 29"
abbreviation (input) EU_E_NOT_NUL_SECTION :: int where "EU_E_NOT_NUL_SECTION \<equiv> 30"
abbreviation (input) EU_E_DATA_MISMATCH :: int where "EU_E_DATA_MISMATCH \<equiv> 31"
abbreviation (input) EU_E_INVALID_SECTION_HEADER :: int where "EU_E_INVALID_SECTION_HEADER \<equiv> 32"
abbreviation (input) EU_E_INVALID_DATA :: int where "EU_E_INVALID_DATA \<equiv> 33"
abbreviation (input) EU_E_DATA_ENCODING :: int where "EU_E_DATA_ENCODING \<equiv> 34"
abbreviation (input) EU_E_SECTION_TOO_SMALL :: int where "EU_E_SECTION_TOO_SMALL \<equiv> 35"
abbreviation (input) EU_E_INVALID_ALIGN :: int where "EU_E_INVALID_ALIGN \<equiv> 36"
abbreviation (input) EU_E_INVALID_SHENTSIZE :: int where "EU_E_INVALID_SHENTSIZE \<equiv> 37"
abbreviation (input) EU_E_UPDATE_RO :: int where "EU_E_UPDATE_RO \<equiv> 38"
abbreviation (input) EU_E_NOFILE :: int where "EU_E_NOFILE \<equiv> 39"
abbreviation (input) EU_E_GROUP_NOT_REL :: int where "EU_E_GROUP_NOT_REL \<equiv> 40"
abbreviation (input) EU_E_INVALID_PHDR :: int where "EU_E_INVALID_PHDR \<equiv> 41"
abbreviation (input) EU_E_NO_PHDR :: int where "EU_E_NO_PHDR \<equiv> 42"
abbreviation (input) EU_E_INVALID_OFFSET :: int where "EU_E_INVALID_OFFSET \<equiv> 43"
abbreviation (input) EU_E_INVALID_SECTION_TYPE :: int where "EU_E_INVALID_SECTION_TYPE \<equiv> 44"
abbreviation (input) EU_E_INVALID_SECTION_FLAGS :: int where "EU_E_INVALID_SECTION_FLAGS \<equiv> 45"
abbreviation (input) EU_E_NOT_COMPRESSED :: int where "EU_E_NOT_COMPRESSED \<equiv> 46"
abbreviation (input) EU_E_ALREADY_COMPRESSED :: int where "EU_E_ALREADY_COMPRESSED \<equiv> 47"
abbreviation (input) EU_E_UNKNOWN_COMPRESSION_TYPE :: int where "EU_E_UNKNOWN_COMPRESSION_TYPE \<equiv> 48"
abbreviation (input) EU_E_COMPRESS_ERROR :: int where "EU_E_COMPRESS_ERROR \<equiv> 49"
abbreviation (input) EU_E_DECOMPRESS_ERROR :: int where "EU_E_DECOMPRESS_ERROR \<equiv> 50"
abbreviation (input) EU_E_NUM :: int where "EU_E_NUM \<equiv> 51"

section \<open>Descriptors\<close>

text \<open>
  A pointer into the array of sections of a block is the descriptor, the number of the block in
  its list and the index in the array; so the next section is the next index, as in the code.  A
  pointer to an \<open>Elf_Data\<close> is one into the data list of a section, whose elements never move, or
  to the raw data of a section.
\<close>

type_synonym eu_scn_ref = "nat \<times> nat \<times> nat"

datatype eu_data_ref = ListData eu_scn_ref nat | RawData eu_scn_ref

text \<open>
  \<open>Elf_Data_List\<close>: the data, the section it belongs to and its flags.  The link \<open>next\<close> is the
  order of the list.
\<close>

record eu_data_node =
  dn_data :: Elf_Data
  dn_scn :: "eu_scn_ref option"
  dn_flags :: u32

text \<open>
  \<open>Elf_Scn\<close>.  The list \<open>sc_data_list\<close> is what the links lead through from the data that is part of
  the section, empty as long as that has never been set; \<open>sc_data_rear\<close> is the index of the element
  that \<open>data_list_rear\<close> points to.
\<close>

record Eu_Scn =
  sc_data_list :: "eu_data_node list"
  sc_data_rear :: "nat option"
  sc_rawdata :: Elf_Data
  sc_rawdata_scn :: "eu_scn_ref option"
  sc_data_read :: bool
  sc_shndx_index :: int
  sc_index :: u64
  sc_elf :: "nat option"
  sc_shdr :: "Shdr option"
  sc_shdr_flags :: u32
  sc_flags :: u32
  sc_rawdata_base :: ptr
  sc_data_base :: ptr
  sc_zdata_base :: ptr
  sc_zdata_size :: u64
  sc_zdata_align :: u64
  sc_list :: "nat option"

record Eu_ScnList =
  sl_cnt :: u32
  sl_max :: u32
  sl_data :: "Eu_Scn list"

text \<open>
  \<open>struct Elf\<close>, with the members of the union \<open>state\<close> side by side.  The list of blocks of
  sections starts with the one that is part of the descriptor; \<open>ee_scns_last\<close> is the number of
  the last block, \<open>None\<close> before sections were looked at.  \<open>ee_shdr\<close> tells whether the pointer to
  the array of section headers is set: the headers themselves are in the sections that point
  into it.  An archive keeps the list of its open members (\<open>ee_children\<close>, linked by \<open>ee_next\<close>).
\<close>

record Eu_Elf =
  ee_map_address :: ptr
  ee_parent :: "nat option"
  ee_next :: "nat option"
  ee_kind :: Elf_Kind
  ee_cmd :: eu_cmd
  ee_class :: int
  ee_fildes :: int
  ee_start_offset :: u64
  ee_maximum_size :: u64
  ee_flags :: u32
  ee_ref_count :: int
  ee_ehdr :: "Ehdr option"
  ee_shdr :: bool
  ee_phdr :: "Phdrs option"
  ee_scns :: "Eu_ScnList list"
  ee_scns_last :: "nat option"
  ee_scnincr :: u32
  ee_ehdr_flags :: u32
  ee_phdr_flags :: u32
  ee_shdr_malloced :: bool
  ee_children :: "nat option"
  ee_ar_sym :: "Elf_Arsym list option"
  ee_ar_sym_num :: u64
  ee_long_names :: "byte list option"
  ee_long_names_len :: u64
  ee_offset :: u64
  ee_ar_hdr :: "Elf_Arhdr option"

record eu_store =
  eu_mach :: store
  eu_elfs :: "nat \<Rightarrow> Eu_Elf option"
  eu_global_error :: int
  eu_libelf_version :: u32
  eu_version_initialized :: bool
  eu_fill_byte :: int

section \<open>Errors, version and fill byte\<close>

definition eu_seterrno :: "int \<Rightarrow> eu_store \<Rightarrow> eu_store" where
  "eu_seterrno v es =
     es\<lparr>eu_global_error := (if v \<ge> 0 \<and> v < EU_E_NUM then v else EU_E_UNKNOWN_ERROR)\<rparr>"

definition eu_elf_errno :: "eu_store \<Rightarrow> int \<times> eu_store" where
  "eu_elf_errno es =
     (let result = eu_global_error es
      in (result, es\<lparr>eu_global_error := EU_E_NOERROR\<rparr>))"

text \<open>The strings of \<open>msgstr\<close> in the order in which \<open>msgidx\<close> finds them.\<close>

definition eu_messages :: "string list" where
  "eu_messages =
     [''no error'',
      ''unknown error'',
      ''unknown version'',
      ''unknown type'',
      (''invalid `Elf'' @ [CHR 0x27] @ '' handle''),
      ''invalid size of source operand'',
      ''invalid size of destination operand'',
      ''invalid encoding'',
      ''out of memory'',
      ''invalid file descriptor'',
      ''invalid ELF file data'',
      ''invalid operation'',
      ''ELF version not set'',
      ''invalid command'',
      ''offset out of range'',
      ''invalid fmag field in archive header'',
      ''invalid archive file'',
      ''descriptor is not for an archive'',
      ''no index available'',
      ''cannot read data from file'',
      ''cannot write data to file'',
      ''invalid binary class'',
      ''invalid section index'',
      ''invalid operand'',
      ''invalid section'',
      ''invalid command'',
      ''executable header not created first'',
      ''file descriptor disabled'',
      ''archive/member file descriptor mismatch'',
      ''offset out of range'',
      ''cannot manipulate null section'',
      ''data/scn mismatch'',
      ''invalid section header'',
      ''invalid data'',
      ''unknown data encoding'',
      (''section `sh_size'' @ [CHR 0x27] @ '' too small for data''),
      ''invalid section alignment'',
      ''invalid section entry size'',
      ''update() for write on read-only file'',
      ''no such file'',
      ''only relocatable files can contain section groups'',
      ''program header only allowed in executables, shared objects, and core files'',
      ''file has no program header'',
      ''invalid offset'',
      ''invalid section type'',
      ''invalid section flags'',
      ''section does not contain compressed data'',
      ''section contains compressed data'',
      ''unknown compression type'',
      ''cannot compress data'',
      ''cannot decompress data'']"

text \<open>The argument \<open>gettext\<close> translates a message into the user's language.\<close>

definition eu_elf_errmsg :: "(string \<Rightarrow> string) \<Rightarrow> int \<Rightarrow> eu_store \<Rightarrow> string option" where
  "eu_elf_errmsg gettext err es =
     (let last_error = eu_global_error es
      in if err = 0 then
           (if last_error \<noteq> 0 then Some (gettext (eu_messages ! nat last_error)) else None)
         else if err < -1 \<or> err \<ge> EU_E_NUM then Some (gettext (eu_messages ! 1))
         else Some (gettext (eu_messages ! nat (if err = -1 then last_error else err))))"

definition eu_elf_version :: "u32 \<Rightarrow> eu_store \<Rightarrow> u32 \<times> eu_store" where
  "eu_elf_version v es =
     (if v = EV_NONE then (eu_libelf_version es, es)
      else if v < 2 then
        (eu_libelf_version es, es\<lparr>eu_libelf_version := v, eu_version_initialized := True\<rparr>)
      else (EV_NONE, eu_seterrno EU_E_UNKNOWN_VERSION es))"

definition eu_elf_fill :: "int \<Rightarrow> eu_store \<Rightarrow> eu_store" where
  "eu_elf_fill fill es = es\<lparr>eu_fill_byte := fill\<rparr>"

section \<open>Access to the descriptors\<close>

definition eu_put_elf :: "nat \<Rightarrow> Eu_Elf \<Rightarrow> eu_store \<Rightarrow> eu_store" where
  "eu_put_elf e x es = es\<lparr>eu_elfs := (eu_elfs es)(e \<mapsto> x)\<rparr>"

definition block_scn :: "Eu_Elf \<Rightarrow> nat \<Rightarrow> nat \<Rightarrow> Eu_Scn option" where
  "block_scn elf k i =
     (if k < length (ee_scns elf) \<and> i < length (sl_data (ee_scns elf ! k))
      then Some (sl_data (ee_scns elf ! k) ! i) else None)"

definition eu_scn :: "eu_scn_ref \<Rightarrow> eu_store \<Rightarrow> Eu_Scn option" where
  "eu_scn s es = (case s of (e, k, i) \<Rightarrow> Option.bind (eu_elfs es e) (\<lambda>elf. block_scn elf k i))"

definition set_block_scn :: "nat \<Rightarrow> nat \<Rightarrow> Eu_Scn \<Rightarrow> Eu_Elf \<Rightarrow> Eu_Elf" where
  "set_block_scn k i x elf =
     elf\<lparr>ee_scns := (ee_scns elf)[k := (ee_scns elf ! k)\<lparr>sl_data := (sl_data (ee_scns elf ! k))[i := x]\<rparr>]\<rparr>"

definition eu_put_scn :: "eu_scn_ref \<Rightarrow> Eu_Scn \<Rightarrow> eu_store \<Rightarrow> eu_store" where
  "eu_put_scn s x es =
     (case s of (e, k, i) \<Rightarrow>
        (case eu_elfs es e of None \<Rightarrow> es | Some elf \<Rightarrow> eu_put_elf e (set_block_scn k i x elf) es))"

definition eu_data :: "eu_data_ref \<Rightarrow> eu_store \<Rightarrow> (Elf_Data \<times> eu_scn_ref option) option" where
  "eu_data d es =
     (case d of
        ListData s j \<Rightarrow>
          do { scn \<leftarrow> eu_scn s es;
               assert_that (j < length (sc_data_list scn));
               Some (dn_data (sc_data_list scn ! j), dn_scn (sc_data_list scn ! j)) }
      | RawData s \<Rightarrow>
          do { scn \<leftarrow> eu_scn s es; Some (sc_rawdata scn, sc_rawdata_scn scn) })"

definition eu_alloc :: "eu_store \<Rightarrow> bool \<times> eu_store" where
  "eu_alloc es = (let (ok, st) = alloc_ok (eu_mach es) in (ok, es\<lparr>eu_mach := st\<rparr>))"

text \<open>A section in memory that \<open>calloc\<close> has cleared.\<close>

definition zero_scn :: Eu_Scn where
  "zero_scn =
     \<lparr>sc_data_list = [], sc_data_rear = None, sc_rawdata = zero_data, sc_rawdata_scn = None, sc_data_read = False,
      sc_shndx_index = 0, sc_index = 0, sc_elf = None, sc_shdr = None, sc_shdr_flags = 0, sc_flags = 0,
      sc_rawdata_base = None, sc_data_base = None, sc_zdata_base = None, sc_zdata_size = 0,
      sc_zdata_align = 0, sc_list = None\<rparr>"

section \<open>Queries\<close>

definition eu_elf_kind :: "nat option \<Rightarrow> eu_store \<Rightarrow> Elf_Kind option" where
  "eu_elf_kind er es =
     (case er of None \<Rightarrow> Some ELF_K_NONE | Some e \<Rightarrow> map_option ee_kind (eu_elfs es e))"

definition eu_gelf_getclass :: "nat option \<Rightarrow> eu_store \<Rightarrow> int option" where
  "eu_gelf_getclass er es =
     (case er of None \<Rightarrow> Some ELFCLASSNONE
      | Some e \<Rightarrow>
          map_option (\<lambda>elf. if ee_kind elf \<noteq> ELF_K_ELF then ELFCLASSNONE else ee_class elf) (eu_elfs es e))"

definition eu_elf_getbase :: "nat option \<Rightarrow> eu_store \<Rightarrow> u64 option" where
  "eu_elf_getbase er es =
     (case er of None \<Rightarrow> Some (-1) | Some e \<Rightarrow> map_option ee_start_offset (eu_elfs es e))"

text \<open>The result is the identification and what is stored in \<open>*ptr\<close>.\<close>

definition eu_elf_getident :: "nat option \<Rightarrow> eu_store \<Rightarrow> (byte list option \<times> u64) option" where
  "eu_elf_getident er es =
     (case er of None \<Rightarrow> Some (None, 0)
      | Some e \<Rightarrow>
          do { elf \<leftarrow> eu_elfs es e;
               if ee_kind elf \<noteq> ELF_K_ELF then Some (None, 0)
               else do { eh \<leftarrow> ee_ehdr elf;
                         Some (Some (case eh of Ehdr32 h \<Rightarrow> eh_ident h | Ehdr64 h \<Rightarrow> eh_ident h), of_nat EI_NIDENT) } })"

section \<open>Facts every component uses\<close>

lemma eu_seterrno_code [simp]:
  "0 \<le> v \<Longrightarrow> v < EU_E_NUM \<Longrightarrow> eu_global_error (eu_seterrno v es) = v"
  by (simp add: eu_seterrno_def)

lemma eu_seterrno_frame [simp]:
  "eu_mach (eu_seterrno v es) = eu_mach es" "eu_elfs (eu_seterrno v es) = eu_elfs es"
  "eu_libelf_version (eu_seterrno v es) = eu_libelf_version es"
  "eu_version_initialized (eu_seterrno v es) = eu_version_initialized es"
  "eu_fill_byte (eu_seterrno v es) = eu_fill_byte es"
  "eu_scn s (eu_seterrno v es) = eu_scn s es"
  by (simp_all add: eu_seterrno_def eu_scn_def split: prod.split)

lemma eu_put_elf_frame [simp]:
  "eu_mach (eu_put_elf e x es) = eu_mach es" "eu_elfs (eu_put_elf e x es) = (eu_elfs es)(e \<mapsto> x)"
  "eu_global_error (eu_put_elf e x es) = eu_global_error es"
  "eu_libelf_version (eu_put_elf e x es) = eu_libelf_version es"
  "eu_version_initialized (eu_put_elf e x es) = eu_version_initialized es"
  "eu_fill_byte (eu_put_elf e x es) = eu_fill_byte es"
  by (simp_all add: eu_put_elf_def)

lemma eu_alloc_frame:
  assumes "eu_alloc es = (ok, es')"
  shows "eu_elfs es' = eu_elfs es" "eu_global_error es' = eu_global_error es"
    "eu_libelf_version es' = eu_libelf_version es" "eu_fill_byte es' = eu_fill_byte es"
    "mem (eu_mach es') = mem (eu_mach es)" "fresh (eu_mach es') = fresh (eu_mach es)"
    "globals (eu_mach es') = globals (eu_mach es)" "base (eu_mach es') = base (eu_mach es)"
  using assms by (auto simp: eu_alloc_def split: prod.splits dest: alloc_ok_D)

lemma eu_alloc_Nil [simp]: "oom (eu_mach es) = [] \<Longrightarrow> eu_alloc es = (True, es)"
  by (simp add: eu_alloc_def)

lemma set_block_scn_frame [simp]:
  "length (ee_scns (set_block_scn k i x elf)) = length (ee_scns elf)"
  "ee_kind (set_block_scn k i x elf) = ee_kind elf" "ee_class (set_block_scn k i x elf) = ee_class elf"
  "ee_ehdr (set_block_scn k i x elf) = ee_ehdr elf" "ee_phdr (set_block_scn k i x elf) = ee_phdr elf"
  "ee_scns_last (set_block_scn k i x elf) = ee_scns_last elf" "ee_scnincr (set_block_scn k i x elf) = ee_scnincr elf"
  "ee_flags (set_block_scn k i x elf) = ee_flags elf" "ee_cmd (set_block_scn k i x elf) = ee_cmd elf"
  "ee_shdr (set_block_scn k i x elf) = ee_shdr elf" "ee_map_address (set_block_scn k i x elf) = ee_map_address elf"
  by (simp_all add: set_block_scn_def)

lemma block_scn_set_block_scn:
  "block_scn (set_block_scn k i x elf) k' i' =
     (if k' = k \<and> i' = i \<and> block_scn elf k i \<noteq> None then Some x else block_scn elf k' i')"
  by (auto simp: block_scn_def set_block_scn_def nth_list_update)

lemma set_block_scn_counts [simp]:
  "k < length (ee_scns elf) \<Longrightarrow> sl_cnt (ee_scns (set_block_scn k' i x elf) ! k) = sl_cnt (ee_scns elf ! k)"
  "k < length (ee_scns elf) \<Longrightarrow> sl_max (ee_scns (set_block_scn k' i x elf) ! k) = sl_max (ee_scns elf ! k)"
  "k < length (ee_scns elf) \<Longrightarrow>
    length (sl_data (ee_scns (set_block_scn k' i x elf) ! k)) = length (sl_data (ee_scns elf ! k))"
  by (cases "k = k'"; simp add: set_block_scn_def)+

lemma eu_scn_put_scn:
  "eu_scn s' (eu_put_scn s x es) = (if s' = s \<and> eu_scn s es \<noteq> None then Some x else eu_scn s' es)"
  by (cases s; cases s')
    (auto simp: eu_scn_def eu_put_scn_def block_scn_set_block_scn split: option.splits)

lemma eu_errno_clears:
  "fst (eu_elf_errno es) = eu_global_error es" "fst (eu_elf_errno (snd (eu_elf_errno es))) = 0"
  by (simp_all add: eu_elf_errno_def)

end
