(* ===== verification/Elf_Flags.thy ===== *)
theory Elf_Flags
  imports Libelf_State
begin

text \<open>
  The flag words of descriptors: \<open>elf_flag.c\<close>.  An \<open>Elf_Arhdr\<close> lives in the descriptor
  of its archive member, so the pointer to it is that descriptor's number here.
\<close>

section \<open>Definitions\<close>

definition elf_flagarhdr :: "elf_ref option \<Rightarrow> Elf_Cmd \<Rightarrow> u32 \<Rightarrow> store \<Rightarrow> (u32 \<times> store) option" where
  "elf_flagarhdr a c flags st =
     (case a of None \<Rightarrow> Some (0, st)
      | Some e \<Rightarrow>
          if (c \<noteq> ELF_C_SET \<and> c \<noteq> ELF_C_CLR) \<or> flags AND NOT ELF_F_DIRTY \<noteq> 0
          then Some (0, set_error ELF_E_ARGUMENT st)
          else
            do { elf \<leftarrow> elfs st e;
                 case e_hdr elf of Rawhdr p \<Rightarrow> None
                 | Arhdr hdr \<Rightarrow>
                     (let r = (if c = ELF_C_SET then ar_flags hdr OR flags
                               else ar_flags hdr AND NOT flags)
                      in Some (r AND LIBELF_F_API_MASK,
                               set_elf e (elf\<lparr>e_hdr := Arhdr (hdr\<lparr>ar_flags := r\<rparr>)\<rparr>) st)) })"

definition elf_flagdata :: "data_ref option \<Rightarrow> Elf_Cmd \<Rightarrow> u32 \<Rightarrow> store \<Rightarrow> (u32 \<times> store) option" where
  "elf_flagdata dr c flags st =
     (case dr of None \<Rightarrow> Some (0, st)
      | Some d \<Rightarrow>
          if (c \<noteq> ELF_C_SET \<and> c \<noteq> ELF_C_CLR) \<or> flags AND NOT ELF_F_DIRTY \<noteq> 0
          then Some (0, set_error ELF_E_ARGUMENT st)
          else
            do { ld \<leftarrow> datas st d;
                 let r = (if c = ELF_C_SET then d_flags ld OR flags else d_flags ld AND NOT flags);
                 Some (r AND LIBELF_F_API_MASK, set_data d (ld\<lparr>d_flags := r\<rparr>) st) })"

definition elf_flagelf :: "elf_ref option \<Rightarrow> Elf_Cmd \<Rightarrow> u32 \<Rightarrow> store \<Rightarrow> (u32 \<times> store) option" where
  "elf_flagelf er c flags st =
     (case er of None \<Rightarrow> Some (0, st)
      | Some e \<Rightarrow>
          do { elf \<leftarrow> elfs st e;
               if (c \<noteq> ELF_C_SET \<and> c \<noteq> ELF_C_CLR) \<or> e_kind elf \<noteq> ELF_K_ELF
                  \<or> flags AND NOT (ELF_F_ARCHIVE OR ELF_F_ARCHIVE_SYSV OR ELF_F_DIRTY OR ELF_F_LAYOUT) \<noteq> 0
               then Some (0, set_error ELF_E_ARGUMENT st)
               else if flags AND ELF_F_ARCHIVE_SYSV \<noteq> 0 \<and> flags AND ELF_F_ARCHIVE = 0
               then Some (0, set_error ELF_E_ARGUMENT st)
               else if flags AND ELF_F_ARCHIVE \<noteq> 0 \<and> e_cmd elf \<noteq> ELF_C_WRITE
               then Some (0, set_error ELF_E_MODE st)
               else
                 let r = (if c = ELF_C_SET then e_flags elf OR flags else e_flags elf AND NOT flags)
                 in Some (r AND LIBELF_F_API_MASK, set_elf e (elf\<lparr>e_flags := r\<rparr>) st) })"

text \<open>The member of the union \<open>e_ehdr\<close>, and of \<open>e_phdr\<close>, that the class selects is \<open>NULL\<close>.\<close>

definition ehdr_NULL :: "Elf \<Rightarrow> bool" where
  "ehdr_NULL elf = (e_ehdr elf = None)"

definition phdr_NULL :: "Elf \<Rightarrow> bool" where
  "phdr_NULL elf = (e_phdr elf = None)"

definition elf_flagehdr :: "elf_ref option \<Rightarrow> Elf_Cmd \<Rightarrow> u32 \<Rightarrow> store \<Rightarrow> (u32 \<times> store) option" where
  "elf_flagehdr er c flags st =
     (case er of None \<Rightarrow> Some (0, st)
      | Some e \<Rightarrow>
          do { elf \<leftarrow> elfs st e;
               if (c \<noteq> ELF_C_SET \<and> c \<noteq> ELF_C_CLR) \<or> e_kind elf \<noteq> ELF_K_ELF
                  \<or> flags AND NOT ELF_F_DIRTY \<noteq> 0
                  \<or> (e_class elf \<noteq> ELFCLASS32 \<and> e_class elf \<noteq> ELFCLASS64)
               then Some (0, set_error ELF_E_ARGUMENT st)
               else if ehdr_NULL elf then Some (0, set_error ELF_E_SEQUENCE st)
               else elf_flagelf er c flags st })"

definition elf_flagphdr :: "elf_ref option \<Rightarrow> Elf_Cmd \<Rightarrow> u32 \<Rightarrow> store \<Rightarrow> (u32 \<times> store) option" where
  "elf_flagphdr er c flags st =
     (case er of None \<Rightarrow> Some (0, st)
      | Some e \<Rightarrow>
          do { elf \<leftarrow> elfs st e;
               if (c \<noteq> ELF_C_SET \<and> c \<noteq> ELF_C_CLR) \<or> e_kind elf \<noteq> ELF_K_ELF
                  \<or> flags AND NOT ELF_F_DIRTY \<noteq> 0
                  \<or> (e_class elf \<noteq> ELFCLASS32 \<and> e_class elf \<noteq> ELFCLASS64)
               then Some (0, set_error ELF_E_ARGUMENT st)
               else if phdr_NULL elf then Some (0, set_error ELF_E_SEQUENCE st)
               else elf_flagelf er c flags st })"

definition elf_flagscn :: "scn_ref option \<Rightarrow> Elf_Cmd \<Rightarrow> u32 \<Rightarrow> store \<Rightarrow> (u32 \<times> store) option" where
  "elf_flagscn sr c flags st =
     (case sr of None \<Rightarrow> Some (0, st)
      | Some s \<Rightarrow>
          if (c \<noteq> ELF_C_SET \<and> c \<noteq> ELF_C_CLR) \<or> flags AND NOT ELF_F_DIRTY \<noteq> 0
          then Some (0, set_error ELF_E_ARGUMENT st)
          else
            do { scn \<leftarrow> scns st s;
                 let r = (if c = ELF_C_SET then s_flags scn OR flags else s_flags scn AND NOT flags);
                 Some (r AND LIBELF_F_API_MASK, set_scn s (scn\<lparr>s_flags := r\<rparr>) st) })"

definition elf_flagshdr :: "scn_ref option \<Rightarrow> Elf_Cmd \<Rightarrow> u32 \<Rightarrow> store \<Rightarrow> (u32 \<times> store) option" where
  "elf_flagshdr s c flags st = elf_flagscn s c flags st"

section \<open>The contract of a flag operation\<close>

text \<open>
  \<open>word r st\<close> is the flag word of the object \<open>r\<close>, \<open>accepts\<close> the condition on the other
  arguments and the state, \<open>allowed\<close> the bits a caller may pass.
\<close>

definition flag_result :: "Elf_Cmd \<Rightarrow> u32 \<Rightarrow> u32 \<Rightarrow> u32" where
  "flag_result c w flags = (if c = ELF_C_SET then w OR flags else w AND NOT flags)"

locale flag_word =
  fixes flagop :: "nat option \<Rightarrow> Elf_Cmd \<Rightarrow> u32 \<Rightarrow> store \<Rightarrow> (u32 \<times> store) option"
    and fword :: "nat \<Rightarrow> store \<Rightarrow> u32 option"
    and accepts :: "nat \<Rightarrow> Elf_Cmd \<Rightarrow> u32 \<Rightarrow> store \<Rightarrow> bool"
    and allowed :: u32
  assumes null: "flagop None c flags st = Some (0, st)"
    and accept: "\<lbrakk>fword r st = Some w; accepts r c flags st\<rbrakk>
      \<Longrightarrow> \<exists>st'. flagop (Some r) c flags st = Some (flag_result c w flags AND LIBELF_F_API_MASK, st')
             \<and> fword r st' = Some (flag_result c w flags)
             \<and> libelf_error (globals st') = libelf_error (globals st)"
    and reject: "\<lbrakk>fword r st = Some w; \<not> accepts r c flags st\<rbrakk>
      \<Longrightarrow> \<exists>st'. flagop (Some r) c flags st = Some (0, st') \<and> fword r st' = Some w
             \<and> libelf_error (globals st') \<noteq> 0"
    and accepts_cmd: "accepts r c flags st \<Longrightarrow> c = ELF_C_SET \<or> c = ELF_C_CLR"
    and accepts_allowed: "accepts r c flags st \<Longrightarrow> flags AND NOT allowed = 0"
    and allowed_api: "allowed AND NOT LIBELF_F_API_MASK = 0"
begin

lemma total: "fword r st = Some w \<Longrightarrow> flagop (Some r) c flags st \<noteq> None"
  using accept reject by (cases "accepts r c flags st") (metis option.distinct(1))+

lemma flags_are_api:
  assumes "accepts r c flags st"
  shows "flags AND NOT LIBELF_F_API_MASK = 0"
proof (rule bit_word_eqI)
  fix n assume "n < LENGTH(32)"
  have "\<not> (bit flags n \<and> \<not> bit allowed n)" "\<not> (bit allowed n \<and> \<not> bit (LIBELF_F_API_MASK :: u32) n)"
    using arg_cong [OF accepts_allowed [OF assms], of "\<lambda>w. bit w n"]
      arg_cong [OF allowed_api, of "\<lambda>w. bit w n"] \<open>n < LENGTH(32)\<close>
    by (simp_all only: bit_and_iff bit_not_iff bit_0_eq bot_apply) auto
  then show "bit (flags AND NOT LIBELF_F_API_MASK) n = bit (0 :: u32) n"
    by (simp only: bit_and_iff bit_not_iff bit_0_eq bot_apply) auto
qed

text \<open>No call, accepted or not, changes a flag the library keeps for itself.\<close>

lemma internal_kept:
  assumes "fword r st = Some w" "flagop (Some r) c flags st = Some (x, st')" "fword r st' = Some w'"
  shows "w' AND NOT LIBELF_F_API_MASK = w AND NOT LIBELF_F_API_MASK"
proof (cases "accepts r c flags st")
  case True
  have w': "w' = flag_result c w flags" using accept [OF assms(1) True] assms(2,3) by auto
  show ?thesis
  proof (rule bit_word_eqI)
    fix n assume "n < LENGTH(32)"
    have "\<not> (bit flags n \<and> \<not> bit (LIBELF_F_API_MASK :: u32) n)"
      using arg_cong [OF flags_are_api [OF True], of "\<lambda>w. bit w n"] \<open>n < LENGTH(32)\<close>
      by (simp only: bit_and_iff bit_not_iff bit_0_eq bot_apply) auto
    then show "bit (w' AND NOT LIBELF_F_API_MASK) n = bit (w AND NOT LIBELF_F_API_MASK) n"
      using \<open>n < LENGTH(32)\<close>
      by (cases "c = ELF_C_SET")
        (auto simp only: w' flag_result_def if_True if_False refl bit_and_iff bit_or_iff bit_not_iff)
  qed
next
  case False
  then show ?thesis using reject [OF assms(1) False] assms(2,3) by auto
qed

text \<open>Setting flags and clearing them again clears them and leaves the others.\<close>

lemma set_then_clear:
  assumes "fword r st = Some w" "accepts r ELF_C_SET flags st"
    and "flagop (Some r) ELF_C_SET flags st = Some (x, st1)" "accepts r ELF_C_CLR flags st1"
  shows "\<exists>st2. flagop (Some r) ELF_C_CLR flags st1 = Some ((w AND NOT flags) AND LIBELF_F_API_MASK, st2)
    \<and> fword r st2 = Some (w AND NOT flags)"
proof -
  have "fword r st1 = Some (w OR flags)"
    using accept [OF assms(1,2)] assms(3) by (auto simp: flag_result_def)
  from accept [OF this assms(4)] obtain st2 where
    "flagop (Some r) ELF_C_CLR flags st1 = Some (((w OR flags) AND NOT flags) AND LIBELF_F_API_MASK, st2)"
    "fword r st2 = Some ((w OR flags) AND NOT flags)"
    by (auto simp: flag_result_def)
  moreover have "(w OR flags) AND NOT flags = w AND NOT flags"
    by (rule bit_word_eqI) (auto simp: bit_and_iff bit_or_iff bit_not_iff)
  ultimately show ?thesis by auto
qed

end

lemma set_error_nonzero [simp]: "E \<noteq> ELF_E_NONE \<Longrightarrow> LIBELF_ERROR E x \<noteq> 0"
  using LIBELF_ERROR_low [of E x] by (cases E) auto

definition data_word :: "data_ref \<Rightarrow> store \<Rightarrow> u32 option" where
  "data_word d st = map_option d_flags (datas st d)"

definition scn_word :: "scn_ref \<Rightarrow> store \<Rightarrow> u32 option" where
  "scn_word s st = map_option s_flags (scns st s)"

definition elf_word :: "elf_ref \<Rightarrow> store \<Rightarrow> u32 option" where
  "elf_word e st = map_option e_flags (elfs st e)"

definition arhdr_word :: "elf_ref \<Rightarrow> store \<Rightarrow> u32 option" where
  "arhdr_word e st =
     (case elfs st e of Some elf \<Rightarrow> (case e_hdr elf of Arhdr a \<Rightarrow> Some (ar_flags a) | _ \<Rightarrow> None)
      | None \<Rightarrow> None)"

definition dirty_only :: "nat \<Rightarrow> Elf_Cmd \<Rightarrow> u32 \<Rightarrow> store \<Rightarrow> bool" where
  "dirty_only r c flags st \<longleftrightarrow> (c = ELF_C_SET \<or> c = ELF_C_CLR) \<and> flags AND NOT ELF_F_DIRTY = 0"

definition elf_flags_ok :: "elf_ref \<Rightarrow> Elf_Cmd \<Rightarrow> u32 \<Rightarrow> store \<Rightarrow> bool" where
  "elf_flags_ok e c flags st \<longleftrightarrow>
     (c = ELF_C_SET \<or> c = ELF_C_CLR)
     \<and> flags AND NOT (ELF_F_ARCHIVE OR ELF_F_ARCHIVE_SYSV OR ELF_F_DIRTY OR ELF_F_LAYOUT) = 0
     \<and> (flags AND ELF_F_ARCHIVE_SYSV \<noteq> 0 \<longrightarrow> flags AND ELF_F_ARCHIVE \<noteq> 0)
     \<and> (case elfs st e of None \<Rightarrow> False
        | Some elf \<Rightarrow> e_kind elf = ELF_K_ELF
            \<and> (flags AND ELF_F_ARCHIVE \<noteq> 0 \<longrightarrow> e_cmd elf = ELF_C_WRITE))"

interpretation data_flags: flag_word elf_flagdata data_word dirty_only ELF_F_DIRTY
  by unfold_locales
    (auto simp: elf_flagdata_def data_word_def dirty_only_def flag_result_def Let_def)

interpretation scn_flags: flag_word elf_flagscn scn_word dirty_only ELF_F_DIRTY
  by unfold_locales
    (auto simp: elf_flagscn_def scn_word_def dirty_only_def flag_result_def Let_def)

interpretation arhdr_flags: flag_word elf_flagarhdr arhdr_word dirty_only ELF_F_DIRTY
  by unfold_locales
    (auto simp: elf_flagarhdr_def arhdr_word_def dirty_only_def flag_result_def Let_def
      split: option.split_asm ar_hdr_ref.split_asm)

lemma elf_flagelf_eq:
  assumes "elfs st e = Some elf"
  shows "elf_flagelf (Some e) c flags st =
    Some (if elf_flags_ok e c flags st
          then (flag_result c (e_flags elf) flags AND LIBELF_F_API_MASK,
                set_elf e (elf\<lparr>e_flags := flag_result c (e_flags elf) flags\<rparr>) st)
          else (0, set_error (if (c = ELF_C_SET \<or> c = ELF_C_CLR) \<and> e_kind elf = ELF_K_ELF
                \<and> flags AND NOT (ELF_F_ARCHIVE OR ELF_F_ARCHIVE_SYSV OR ELF_F_DIRTY OR ELF_F_LAYOUT) = 0
                \<and> (flags AND ELF_F_ARCHIVE_SYSV \<noteq> 0 \<longrightarrow> flags AND ELF_F_ARCHIVE \<noteq> 0)
                then ELF_E_MODE else ELF_E_ARGUMENT) st))"
  unfolding elf_flagelf_def elf_flags_ok_def flag_result_def Let_def assms option.case Option.bind.simps
  by (simp only: if_distrib [of Some] de_Morgan_conj de_Morgan_disj not_not)
    (cases "c = ELF_C_SET"; cases "c = ELF_C_CLR"; cases "e_kind elf = ELF_K_ELF"; simp)

interpretation elf_flags: flag_word elf_flagelf elf_word elf_flags_ok
    "ELF_F_ARCHIVE OR ELF_F_ARCHIVE_SYSV OR ELF_F_DIRTY OR ELF_F_LAYOUT"
proof (unfold_locales, goal_cases)
  case 1
  show ?case by (simp add: elf_flagelf_def)
next
  case (2 r st w c flags)
  then show ?case by (auto simp: elf_word_def elf_flagelf_eq)
next
  case (3 r st w c flags)
  then show ?case by (auto simp: elf_word_def elf_flagelf_eq)
qed (auto simp: elf_flags_ok_def)

end
