(* ===== verification/Elf_Header.thy ===== *)
theory Elf_Header
  imports Elf_Objects Elf_Flags
begin

text \<open>
  The ELF header and the program header table: \<open>libelf_ehdr.c\<close>, \<open>libelf_extended.c\<close>,
  \<open>libelf_phdr.c\<close>, \<open>elf_phnum.c\<close>, \<open>elf_shnum.c\<close>, \<open>elf_shstrndx.c\<close>, \<open>gelf_ehdr.c\<close>,
  \<open>gelf_phdr.c\<close> and \<open>gelf_getclass.c\<close>.

  A header that the C code returns by pointer is returned as its value and stays in the
  descriptor, so \<open>None\<close> stands for \<open>NULL\<close>.  For an output argument \<open>d\<close> the model takes
  whether the pointer is non-\<open>NULL\<close> and returns what is stored through it.
\<close>

section \<open>Fields that both classes have\<close>

primrec ehdr_phnum :: "Ehdr \<Rightarrow> u16" where
  "ehdr_phnum (Ehdr32 h) = eh_phnum h"
| "ehdr_phnum (Ehdr64 h) = eh_phnum h"

primrec ehdr_shnum :: "Ehdr \<Rightarrow> u16" where
  "ehdr_shnum (Ehdr32 h) = eh_shnum h"
| "ehdr_shnum (Ehdr64 h) = eh_shnum h"

primrec ehdr_shstrndx :: "Ehdr \<Rightarrow> u16" where
  "ehdr_shstrndx (Ehdr32 h) = eh_shstrndx h"
| "ehdr_shstrndx (Ehdr64 h) = eh_shstrndx h"

primrec ehdr_shoff :: "Ehdr \<Rightarrow> u64" where
  "ehdr_shoff (Ehdr32 h) = ucast (eh_shoff h)"
| "ehdr_shoff (Ehdr64 h) = eh_shoff h"

primrec ehdr_phoff :: "Ehdr \<Rightarrow> u64" where
  "ehdr_phoff (Ehdr32 h) = ucast (eh_phoff h)"
| "ehdr_phoff (Ehdr64 h) = eh_phoff h"

primrec shdr_type :: "Shdr \<Rightarrow> u32" where
  "shdr_type (Shdr32 h) = sh_type h"
| "shdr_type (Shdr64 h) = sh_type h"

primrec shdr_size :: "Shdr \<Rightarrow> u64" where
  "shdr_size (Shdr32 h) = ucast (sh_size h)"
| "shdr_size (Shdr64 h) = sh_size h"

primrec shdr_offset :: "Shdr \<Rightarrow> u64" where
  "shdr_offset (Shdr32 h) = ucast (sh_offset h)"
| "shdr_offset (Shdr64 h) = sh_offset h"

primrec shdr_info :: "Shdr \<Rightarrow> u32" where
  "shdr_info (Shdr32 h) = sh_info h"
| "shdr_info (Shdr64 h) = sh_info h"

primrec shdr_link :: "Shdr \<Rightarrow> u32" where
  "shdr_link (Shdr32 h) = sh_link h"
| "shdr_link (Shdr64 h) = sh_link h"

text \<open>The object that a translator has filled in, as a header of the class.\<close>

definition ehdr_object :: "int \<Rightarrow> u32 \<Rightarrow> struct_val \<Rightarrow> Ehdr" where
  "ehdr_object ec order vs =
     (if ec = ELFCLASS32 then Ehdr32 (ehdr_of order vs) else Ehdr64 (ehdr_of order vs))"

definition shdr_object :: "int \<Rightarrow> u32 \<Rightarrow> struct_val \<Rightarrow> Shdr" where
  "shdr_object ec order vs =
     (if ec = ELFCLASS32 then Shdr32 (shdr_of order vs) else Shdr64 (shdr_of order vs))"

definition phdr_objects :: "int \<Rightarrow> u32 \<Rightarrow> struct_val list \<Rightarrow> Phdrs" where
  "phdr_objects ec order vs =
     (if ec = ELFCLASS32 then Phdrs32 (map (phdr32_of order) vs)
      else Phdrs64 (map (phdr64_of order) vs))"

definition swap_needed :: "Elf \<Rightarrow> store \<Rightarrow> bool" where
  "swap_needed elf st \<longleftrightarrow> e_byteorder elf \<noteq> libelf_byteorder (globals st)"

section \<open>The ELF header\<close>

definition libelf_load_extended ::
  "elf_ref \<Rightarrow> int \<Rightarrow> u64 \<Rightarrow> u16 \<Rightarrow> u16 \<Rightarrow> store \<Rightarrow> (bool \<times> store) option"
where
  "libelf_load_extended e ec shoff phnum strndx st =
     do { elf \<leftarrow> elfs st e;
          assert_that (e_scn elf = []);
          let (fsz, st) = libelf_fsize ELF_T_SHDR ec (e_version elf) 1 st;
          assert_that (fsz > 0);
          if e_rawsize elf < shoff + fsz then Some (False, set_error ELF_E_HEADER st)
          else
            do { (s, st) \<leftarrow> libelf_allocate_scn e 0 st;
                 case s of None \<Rightarrow> Some (False, st)
                 | Some s \<Rightarrow>
                     do { ((_, vs), st) \<leftarrow> load_objects ELF_T_SHDR ec 64 (ptr_add (e_rawfile elf) shoff) 1
                            (swap_needed elf st) st;
                          scn \<leftarrow> scns st s;
                          elf \<leftarrow> elfs st e;
                          let shdr = shdr_object ec (host_order st) (hd vs);
                          let st = set_scn s (scn\<lparr>s_shdr := shdr\<rparr>) st;
                          if shdr_type shdr \<noteq> SHT_NULL then Some (False, set_error ELF_E_SECTION st)
                          else
                            Some (True, set_elf e (elf\<lparr>
                              e_nscn := shdr_size shdr,
                              e_nphdr := (if ucast phnum \<noteq> PN_XNUM then ucast phnum else ucast (shdr_info shdr)),
                              e_strndx := (if ucast strndx \<noteq> SHN_XINDEX then ucast strndx
                                           else ucast (shdr_link shdr))\<rparr>) st) } } }"

definition EHDR_INIT :: "int \<Rightarrow> store \<Rightarrow> Ehdr" where
  "EHDR_INIT ec st =
     (let v = libelf_version (globals st);
          ident = ELFMAG @ [if ec = ELFCLASS32 then 1 else 2, 0, ucast (v AND 0xFF)] @ replicate 9 0
      in if ec = ELFCLASS32 then
           Ehdr32 \<lparr>eh_ident = ident, eh_type = 0, eh_machine = 0, eh_version = v, eh_entry = 0,
             eh_phoff = 0, eh_shoff = 0, eh_flags = 0, eh_ehsize = 0, eh_phentsize = 0, eh_phnum = 0,
             eh_shentsize = 0, eh_shnum = 0, eh_shstrndx = 0\<rparr>
         else
           Ehdr64 \<lparr>eh_ident = ident, eh_type = 0, eh_machine = 0, eh_version = v, eh_entry = 0,
             eh_phoff = 0, eh_shoff = 0, eh_flags = 0, eh_ehsize = 0, eh_phentsize = 0, eh_phnum = 0,
             eh_shentsize = 0, eh_shnum = 0, eh_shstrndx = 0\<rparr>)"

text \<open>The condition under which a header's counts cannot be right.\<close>

definition bad_counts :: "Ehdr \<Rightarrow> bool" where
  "bad_counts eh \<longleftrightarrow>
     ucast (ehdr_shnum eh) \<ge> SHN_LORESERVE
     \<or> (ehdr_shoff eh = 0 \<and> (ehdr_shnum eh \<noteq> 0 \<or> ucast (ehdr_phnum eh) = PN_XNUM
           \<or> ucast (ehdr_shstrndx eh) = SHN_XINDEX))"

definition uses_extended :: "Ehdr \<Rightarrow> bool" where
  "uses_extended eh \<longleftrightarrow>
     (ehdr_shnum eh = 0 \<and> ehdr_shoff eh \<noteq> 0) \<or> ucast (ehdr_phnum eh) = PN_XNUM
     \<or> ucast (ehdr_shstrndx eh) = SHN_XINDEX"

text \<open>The second half of \<open>_libelf_ehdr\<close>: fill the new header from the file.\<close>

definition libelf_ehdr_load :: "elf_ref \<Rightarrow> int \<Rightarrow> u64 \<Rightarrow> store \<Rightarrow> (Ehdr option \<times> store) option" where
  "libelf_ehdr_load e ec msz st =
     do { elf \<leftarrow> elfs st e;
          ((_, vs), st) \<leftarrow> load_objects ELF_T_EHDR ec msz (e_rawfile elf) 1 (swap_needed elf st) st;
          let eh = ehdr_object ec (host_order st) (hd vs);
          let elf = elf\<lparr>e_ehdr := Some eh\<rparr>;
          let st = set_elf e elf st;
          if bad_counts eh then Some (None, set_error ELF_E_HEADER st)
          else if uses_extended eh then
            do { (ok, st) \<leftarrow> libelf_load_extended e ec (ehdr_shoff eh) (ehdr_phnum eh) (ehdr_shstrndx eh) st;
                 Some (if ok then Some eh else None, st) }
          else
            Some (Some eh, set_elf e (elf\<lparr>e_nphdr := ucast (ehdr_phnum eh),
              e_nscn := ucast (ehdr_shnum eh), e_strndx := ucast (ehdr_shstrndx eh)\<rparr>) st) }"

definition libelf_ehdr :: "elf_ref option \<Rightarrow> int \<Rightarrow> bool \<Rightarrow> store \<Rightarrow> (Ehdr option \<times> store) option" where
  "libelf_ehdr er ec allocate st =
     do { assert_that (ec = ELFCLASS32 \<or> ec = ELFCLASS64);
          case er of None \<Rightarrow> Some (None, set_error ELF_E_ARGUMENT st)
          | Some e \<Rightarrow>
              do { elf \<leftarrow> elfs st e;
                   if e_kind elf \<noteq> ELF_K_ELF then Some (None, set_error ELF_E_ARGUMENT st)
                   else if e_class elf \<noteq> ELFCLASSNONE \<and> e_class elf \<noteq> ec
                   then Some (None, set_error ELF_E_CLASS st)
                   else if e_version elf \<noteq> EV_CURRENT then Some (None, set_error ELF_E_VERSION st)
                   else
                     let elf = (if e_class elf = ELFCLASSNONE then elf\<lparr>e_class := ec\<rparr> else elf);
                         st = set_elf e elf st
                     in if e_ehdr elf \<noteq> None then Some (e_ehdr elf, st)
                     else
                       let (fsz, st) = libelf_fsize ELF_T_EHDR ec (e_version elf) 1 st
                       in do { assert_that (fsz > 0);
                               if e_cmd elf \<noteq> ELF_C_WRITE \<and> e_rawsize elf < fsz
                               then Some (None, set_error ELF_E_HEADER st)
                               else
                                 do { (msz, st) \<leftarrow> libelf_msize ELF_T_EHDR ec EV_CURRENT st;
                                      assert_that (msz > 0);
                                      let (ok, st) = calloc_ok 1 msz st;
                                      if \<not> ok then Some (None, set_error ELF_E_RESOURCE st)
                                      else
                                        let eh = EHDR_INIT ec st;
                                            elf = elf\<lparr>e_ehdr := Some eh,
                                                e_flags := (if allocate then e_flags elf OR ELF_F_DIRTY
                                                            else e_flags elf)\<rparr>;
                                            st = set_elf e elf st
                                        in if e_cmd elf = ELF_C_WRITE then Some (Some eh, st)
                                        else libelf_ehdr_load e ec msz st } } } }"

section \<open>Extended numbering\<close>

definition libelf_getscn0 :: "elf_ref \<Rightarrow> store \<Rightarrow> (scn_ref option \<times> store) option" where
  "libelf_getscn0 e st =
     do { elf \<leftarrow> elfs st e;
          case e_scn elf of s # ss \<Rightarrow> Some (Some s, st)
          | [] \<Rightarrow> libelf_allocate_scn e SHN_UNDEF st }"

text \<open>
  Fields of the unions \<open>e_ehdr\<close> and \<open>s_shdr\<close> are written through the member of the class
  \<open>ec\<close>; a value of the other class in the union would be reinterpreted, so it faults.
\<close>

definition upd_ehdr ::
  "int \<Rightarrow> (32 Elf_Ehdr \<Rightarrow> 32 Elf_Ehdr) \<Rightarrow> (64 Elf_Ehdr \<Rightarrow> 64 Elf_Ehdr) \<Rightarrow> elf_ref \<Rightarrow> store \<Rightarrow> store option"
where
  "upd_ehdr ec f32 f64 e st =
     do { elf \<leftarrow> elfs st e;
          eh \<leftarrow> e_ehdr elf;
          case eh of
            Ehdr32 h \<Rightarrow> do { assert_that (ec = ELFCLASS32);
                             Some (set_elf e (elf\<lparr>e_ehdr := Some (Ehdr32 (f32 h))\<rparr>) st) }
          | Ehdr64 h \<Rightarrow> do { assert_that (ec \<noteq> ELFCLASS32);
                             Some (set_elf e (elf\<lparr>e_ehdr := Some (Ehdr64 (f64 h))\<rparr>) st) } }"

definition upd_shdr ::
  "int \<Rightarrow> (32 Elf_Shdr \<Rightarrow> 32 Elf_Shdr) \<Rightarrow> (64 Elf_Shdr \<Rightarrow> 64 Elf_Shdr) \<Rightarrow> scn_ref \<Rightarrow> store \<Rightarrow> store option"
where
  "upd_shdr ec f32 f64 s st =
     do { scn \<leftarrow> scns st s;
          case s_shdr scn of
            Shdr32 h \<Rightarrow> do { assert_that (ec = ELFCLASS32);
                             Some (set_scn s (scn\<lparr>s_shdr := Shdr32 (f32 h)\<rparr>) st) }
          | Shdr64 h \<Rightarrow> do { assert_that (ec \<noteq> ELFCLASS32);
                             Some (set_scn s (scn\<lparr>s_shdr := Shdr64 (f64 h)\<rparr>) st) } }"

definition libelf_setshnum :: "elf_ref \<Rightarrow> int \<Rightarrow> u64 \<Rightarrow> store \<Rightarrow> (bool \<times> store) option" where
  "libelf_setshnum e ec shnum st =
     (if shnum \<ge> SHN_LORESERVE then
        do { (s, st) \<leftarrow> libelf_getscn0 e st;
             case s of None \<Rightarrow> Some (False, st)
             | Some s \<Rightarrow>
                 do { scn \<leftarrow> scns st s;
                      assert_that (s_ndx scn = SHN_UNDEF);
                      st \<leftarrow> upd_shdr ec (\<lambda>h. h\<lparr>sh_size := ucast shnum\<rparr>) (\<lambda>h. h\<lparr>sh_size := shnum\<rparr>) s st;
                      (_, st) \<leftarrow> elf_flagshdr (Some s) ELF_C_SET ELF_F_DIRTY st;
                      st \<leftarrow> upd_ehdr ec (\<lambda>h. h\<lparr>eh_shnum := 0\<rparr>) (\<lambda>h. h\<lparr>eh_shnum := 0\<rparr>) e st;
                      Some (True, st) } }
      else
        do { st \<leftarrow> upd_ehdr ec (\<lambda>h. h\<lparr>eh_shnum := ucast (shnum AND 0xFFFF)\<rparr>)
               (\<lambda>h. h\<lparr>eh_shnum := ucast (shnum AND 0xFFFF)\<rparr>) e st;
             Some (True, st) })"

definition libelf_setshstrndx :: "elf_ref \<Rightarrow> int \<Rightarrow> u64 \<Rightarrow> store \<Rightarrow> (bool \<times> store) option" where
  "libelf_setshstrndx e ec shstrndx st =
     (if shstrndx \<ge> SHN_LORESERVE then
        do { (s, st) \<leftarrow> libelf_getscn0 e st;
             case s of None \<Rightarrow> Some (False, st)
             | Some s \<Rightarrow>
                 do { scn \<leftarrow> scns st s;
                      assert_that (s_ndx scn = SHN_UNDEF);
                      st \<leftarrow> upd_shdr ec (\<lambda>h. h\<lparr>sh_link := ucast shstrndx\<rparr>)
                        (\<lambda>h. h\<lparr>sh_link := ucast shstrndx\<rparr>) s st;
                      (_, st) \<leftarrow> elf_flagshdr (Some s) ELF_C_SET ELF_F_DIRTY st;
                      st \<leftarrow> upd_ehdr ec (\<lambda>h. h\<lparr>eh_shstrndx := ucast (SHN_XINDEX AND 0xFFFF)\<rparr>)
                        (\<lambda>h. h\<lparr>eh_shstrndx := ucast (SHN_XINDEX AND 0xFFFF)\<rparr>) e st;
                      Some (True, st) } }
      else
        do { st \<leftarrow> upd_ehdr ec (\<lambda>h. h\<lparr>eh_shstrndx := ucast (shstrndx AND 0xFFFF)\<rparr>)
               (\<lambda>h. h\<lparr>eh_shstrndx := ucast (shstrndx AND 0xFFFF)\<rparr>) e st;
             Some (True, st) })"

definition libelf_setphnum :: "elf_ref \<Rightarrow> int \<Rightarrow> u64 \<Rightarrow> store \<Rightarrow> (bool \<times> store) option" where
  "libelf_setphnum e ec phnum st =
     (if phnum \<ge> PN_XNUM then
        do { (s, st) \<leftarrow> libelf_getscn0 e st;
             case s of None \<Rightarrow> Some (False, st)
             | Some s \<Rightarrow>
                 do { scn \<leftarrow> scns st s;
                      assert_that (s_ndx scn = SHN_UNDEF);
                      st \<leftarrow> upd_shdr ec (\<lambda>h. h\<lparr>sh_info := ucast phnum\<rparr>) (\<lambda>h. h\<lparr>sh_info := ucast phnum\<rparr>) s st;
                      (_, st) \<leftarrow> elf_flagshdr (Some s) ELF_C_SET ELF_F_DIRTY st;
                      st \<leftarrow> upd_ehdr ec (\<lambda>h. h\<lparr>eh_phnum := ucast (PN_XNUM AND 0xFFFF)\<rparr>)
                        (\<lambda>h. h\<lparr>eh_phnum := ucast (PN_XNUM AND 0xFFFF)\<rparr>) e st;
                      Some (True, st) } }
      else
        do { st \<leftarrow> upd_ehdr ec (\<lambda>h. h\<lparr>eh_phnum := ucast (phnum AND 0xFFFF)\<rparr>)
               (\<lambda>h. h\<lparr>eh_phnum := ucast (phnum AND 0xFFFF)\<rparr>) e st;
             Some (True, st) })"

section \<open>Counts\<close>

text \<open>The test the count operations share: an ELF object of one of the two classes.\<close>

definition elf_class_of :: "elf_ref option \<Rightarrow> store \<Rightarrow> (int option) option" where
  "elf_class_of er st =
     (case er of None \<Rightarrow> Some None
      | Some e \<Rightarrow>
          do { elf \<leftarrow> elfs st e;
               Some (if e_kind elf = ELF_K_ELF \<and> (e_class elf = ELFCLASS32 \<or> e_class elf = ELFCLASS64)
                     then Some (e_class elf) else None) })"

definition libelf_getcount :: "(Elf \<Rightarrow> u64) \<Rightarrow> elf_ref option \<Rightarrow> store \<Rightarrow> ((int \<times> u64 option) \<times> store) option" where
  "libelf_getcount field er st =
     do { ec \<leftarrow> elf_class_of er st;
          case ec of None \<Rightarrow> Some ((-1, None), set_error ELF_E_ARGUMENT st)
          | Some ec \<Rightarrow>
              do { (eh, st) \<leftarrow> libelf_ehdr er ec False st;
                   case eh of None \<Rightarrow> Some ((-1, None), st)
                   | Some _ \<Rightarrow> do { e \<leftarrow> er; elf \<leftarrow> elfs st e; Some ((0, Some (field elf)), st) } } }"

definition libelf_getphdrnum :: "elf_ref option \<Rightarrow> store \<Rightarrow> ((int \<times> u64 option) \<times> store) option" where
  "libelf_getphdrnum er st = libelf_getcount e_nphdr er st"

definition elf_getphdrnum :: "elf_ref option \<Rightarrow> store \<Rightarrow> ((int \<times> u64 option) \<times> store) option" where
  "elf_getphdrnum er st = libelf_getphdrnum er st"

definition elf_getphnum :: "elf_ref option \<Rightarrow> store \<Rightarrow> ((bool \<times> u64 option) \<times> store) option" where
  "elf_getphnum er st = do { ((r, n), st) \<leftarrow> libelf_getphdrnum er st; Some ((r \<ge> 0, n), st) }"

definition libelf_getshdrnum :: "elf_ref option \<Rightarrow> store \<Rightarrow> ((int \<times> u64 option) \<times> store) option" where
  "libelf_getshdrnum er st = libelf_getcount e_nscn er st"

definition elf_getshdrnum :: "elf_ref option \<Rightarrow> store \<Rightarrow> ((int \<times> u64 option) \<times> store) option" where
  "elf_getshdrnum er st = libelf_getshdrnum er st"

definition elf_getshnum :: "elf_ref option \<Rightarrow> store \<Rightarrow> ((bool \<times> u64 option) \<times> store) option" where
  "elf_getshnum er st = do { ((r, n), st) \<leftarrow> libelf_getshdrnum er st; Some ((r \<ge> 0, n), st) }"

definition libelf_getshdrstrndx :: "elf_ref option \<Rightarrow> store \<Rightarrow> ((int \<times> u64 option) \<times> store) option" where
  "libelf_getshdrstrndx er st = libelf_getcount e_strndx er st"

definition elf_getshdrstrndx :: "elf_ref option \<Rightarrow> store \<Rightarrow> ((int \<times> u64 option) \<times> store) option" where
  "elf_getshdrstrndx er st = libelf_getshdrstrndx er st"

definition elf_getshstrndx :: "elf_ref option \<Rightarrow> store \<Rightarrow> ((bool \<times> u64 option) \<times> store) option" where
  "elf_getshstrndx er st = do { ((r, n), st) \<leftarrow> libelf_getshdrstrndx er st; Some ((r \<ge> 0, n), st) }"

definition elf_setshstrndx :: "elf_ref option \<Rightarrow> u64 \<Rightarrow> store \<Rightarrow> (bool \<times> store) option" where
  "elf_setshstrndx er strndx st =
     do { ec \<leftarrow> elf_class_of er st;
          case ec of None \<Rightarrow> Some (False, set_error ELF_E_ARGUMENT st)
          | Some ec \<Rightarrow>
              do { (eh, st) \<leftarrow> libelf_ehdr er ec False st;
                   case eh of None \<Rightarrow> Some (False, set_error ELF_E_ARGUMENT st)
                   | Some _ \<Rightarrow> do { e \<leftarrow> er; libelf_setshstrndx e ec strndx st } } }"

definition gelf_getclass :: "elf_ref option \<Rightarrow> store \<Rightarrow> int option" where
  "gelf_getclass er st =
     (case er of None \<Rightarrow> Some ELFCLASSNONE | Some e \<Rightarrow> do { elf \<leftarrow> elfs st e; Some (e_class elf) })"

section \<open>The program header table\<close>

text \<open>
  \<open>e_phdr\<close> shares its storage with \<open>e_nchildren\<close> of an archive: for an archive descriptor
  with open members the code reads that count as a pointer.
\<close>

definition read_e_phdr :: "Elf \<Rightarrow> Phdrs option option" where
  "read_e_phdr elf =
     (if e_kind elf = ELF_K_AR then (if e_nchildren elf = 0 then Some None else None)
      else Some (e_phdr elf))"

definition libelf_getphdr :: "elf_ref option \<Rightarrow> int \<Rightarrow> store \<Rightarrow> (Phdrs option \<times> store) option" where
  "libelf_getphdr er ec st =
     do { assert_that (ec = ELFCLASS32 \<or> ec = ELFCLASS64);
          case er of None \<Rightarrow> Some (None, set_error ELF_E_ARGUMENT st)
          | Some e \<Rightarrow>
              do { elf \<leftarrow> elfs st e;
                   ph \<leftarrow> read_e_phdr elf;
                   case ph of Some p \<Rightarrow> Some (Some p, st)
                   | None \<Rightarrow>
                       do { (eh, st) \<leftarrow> libelf_ehdr er ec False st;
                            case eh of None \<Rightarrow> Some (None, st)
                            | Some eh \<Rightarrow>
                                do { elf \<leftarrow> elfs st e;
                                     let phnum = e_nphdr elf;
                                     let phoff = ehdr_phoff eh;
                                     (fsz, st) \<leftarrow> gelf_fsize er ELF_T_PHDR phnum (e_version elf) st;
                                     assert_that (fsz > 0);
                                     if e_rawsize elf < phoff + fsz
                                     then Some (None, set_error ELF_E_HEADER st)
                                     else
                                       do { (msz, st) \<leftarrow> libelf_msize ELF_T_PHDR ec EV_CURRENT st;
                                            assert_that (msz > 0);
                                            let (ok, st) = calloc_ok phnum msz st;
                                            if \<not> ok then Some (None, set_error ELF_E_RESOURCE st)
                                            else
                                              do { ((_, vs), st) \<leftarrow> load_objects ELF_T_PHDR ec (phnum * msz)
                                                     (ptr_add (e_rawfile elf) phoff) phnum
                                                     (swap_needed elf st) st;
                                                   let ph = phdr_objects ec (host_order st) vs;
                                                   Some (Some ph, set_elf e (elf\<lparr>e_phdr := Some ph\<rparr>) st) } } } } } }"

definition zero_Elf_Phdr :: "'w::len Elf_Phdr" where
  "zero_Elf_Phdr = \<lparr>p_type = 0, p_flags = 0, p_offset = 0, p_vaddr = 0, p_paddr = 0,
     p_filesz = 0, p_memsz = 0, p_align = 0\<rparr>"

definition libelf_newphdr :: "elf_ref option \<Rightarrow> int \<Rightarrow> u64 \<Rightarrow> store \<Rightarrow> (Phdrs option \<times> store) option" where
  "libelf_newphdr er ec count st =
     (case er of None \<Rightarrow> Some (None, set_error ELF_E_ARGUMENT st)
      | Some e \<Rightarrow>
          do { (eh, st) \<leftarrow> libelf_ehdr er ec False st;
               case eh of None \<Rightarrow> Some (None, set_error ELF_E_SEQUENCE st)
               | Some _ \<Rightarrow>
                   do { elf \<leftarrow> elfs st e;
                        assert_that (e_class elf = ec);
                        assert_that (ec = ELFCLASS32 \<or> ec = ELFCLASS64);
                        assert_that (e_version elf = EV_CURRENT);
                        (msz, st) \<leftarrow> libelf_msize ELF_T_PHDR ec (e_version elf) st;
                        assert_that (msz > 0);
                        let (ok, st) = (if count > 0 then calloc_ok count msz st else (True, st));
                        if \<not> ok then Some (None, set_error ELF_E_RESOURCE st)
                        else
                          do { let newphdr =
                                 (if count = 0 then None
                                  else Some (if ec = ELFCLASS32
                                             then Phdrs32 (replicate (unat count) zero_Elf_Phdr)
                                             else Phdrs64 (replicate (unat count) zero_Elf_Phdr)));
                               let st = set_elf e (elf\<lparr>e_phdr := newphdr, e_nphdr := count\<rparr>) st;
                               (_, st) \<leftarrow> elf_flagphdr er ELF_C_SET ELF_F_DIRTY st;
                               Some (newphdr, st) } } })"

section \<open>The class-independent interface\<close>

definition elf32_getehdr :: "elf_ref option \<Rightarrow> store \<Rightarrow> (Ehdr option \<times> store) option" where
  "elf32_getehdr er st = libelf_ehdr er ELFCLASS32 False st"

definition elf64_getehdr :: "elf_ref option \<Rightarrow> store \<Rightarrow> (Ehdr option \<times> store) option" where
  "elf64_getehdr er st = libelf_ehdr er ELFCLASS64 False st"

definition elf32_newehdr :: "elf_ref option \<Rightarrow> store \<Rightarrow> (Ehdr option \<times> store) option" where
  "elf32_newehdr er st = libelf_ehdr er ELFCLASS32 True st"

definition elf64_newehdr :: "elf_ref option \<Rightarrow> store \<Rightarrow> (Ehdr option \<times> store) option" where
  "elf64_newehdr er st = libelf_ehdr er ELFCLASS64 True st"

definition gelf_newehdr :: "elf_ref option \<Rightarrow> int \<Rightarrow> store \<Rightarrow> (Ehdr option \<times> store) option" where
  "gelf_newehdr er ec st =
     (if er \<noteq> None \<and> (ec = ELFCLASS32 \<or> ec = ELFCLASS64) then libelf_ehdr er ec True st
      else Some (None, set_error ELF_E_ARGUMENT st))"

definition ehdr_widen :: "32 Elf_Ehdr \<Rightarrow> GElf_Ehdr" where
  "ehdr_widen h =
     \<lparr>eh_ident = eh_ident h, eh_type = eh_type h, eh_machine = eh_machine h,
      eh_version = eh_version h, eh_entry = ucast (eh_entry h), eh_phoff = ucast (eh_phoff h),
      eh_shoff = ucast (eh_shoff h), eh_flags = eh_flags h, eh_ehsize = eh_ehsize h,
      eh_phentsize = eh_phentsize h, eh_phnum = eh_phnum h, eh_shentsize = eh_shentsize h,
      eh_shnum = eh_shnum h, eh_shstrndx = eh_shstrndx h\<rparr>"

definition gelf_getehdr :: "elf_ref option \<Rightarrow> bool \<Rightarrow> store \<Rightarrow> (GElf_Ehdr option \<times> store) option" where
  "gelf_getehdr er d st =
     (case er of None \<Rightarrow> Some (None, set_error ELF_E_ARGUMENT st)
      | Some e \<Rightarrow>
          do { elf \<leftarrow> elfs st e;
               let ec = e_class elf;
               if \<not> d \<or> (ec \<noteq> ELFCLASS32 \<and> ec \<noteq> ELFCLASS64)
               then Some (None, set_error ELF_E_ARGUMENT st)
               else
                 do { (eh, st) \<leftarrow> libelf_ehdr er ec False st;
                      Some (map_option (\<lambda>eh. case eh of Ehdr32 h \<Rightarrow> ehdr_widen h | Ehdr64 h \<Rightarrow> h) eh, st) } })"

text \<open>The copies of \<open>gelf_update_ehdr\<close> into a 32-bit header, in their order.\<close>

definition ehdr_narrow :: "GElf_Ehdr \<Rightarrow> 32 Elf_Ehdr \<Rightarrow> bool \<times> 32 Elf_Ehdr" where
  "ehdr_narrow s h =
     (copy_field (\<lambda>h. h\<lparr>eh_flags := eh_flags s, eh_ehsize := eh_ehsize s,
          eh_phentsize := eh_phentsize s, eh_phnum := eh_phnum s, eh_shentsize := eh_shentsize s,
          eh_shnum := eh_shnum s, eh_shstrndx := eh_shstrndx s\<rparr>)
      (LIBELF_COPY_U32 (eh_shoff s) (\<lambda>v h. h\<lparr>eh_shoff := v\<rparr>)
      (LIBELF_COPY_U32 (eh_phoff s) (\<lambda>v h. h\<lparr>eh_phoff := v\<rparr>)
      (LIBELF_COPY_U32 (eh_entry s) (\<lambda>v h. h\<lparr>eh_entry := v\<rparr>)
      (copy_field (\<lambda>h. h\<lparr>eh_ident := eh_ident s, eh_type := eh_type s, eh_machine := eh_machine s,
          eh_version := eh_version s\<rparr>) (True, h))))))"

definition gelf_update_ehdr :: "elf_ref option \<Rightarrow> GElf_Ehdr option \<Rightarrow> store \<Rightarrow> (bool \<times> store) option" where
  "gelf_update_ehdr er sr st =
     do { ec \<leftarrow> elf_class_of er st;
          case (sr, er, ec) of
            (Some s, Some e, Some ec) \<Rightarrow>
              do { elf \<leftarrow> elfs st e;
                   if e_cmd elf = ELF_C_READ then Some (False, set_error ELF_E_MODE st)
                   else
                     do { (eh, st) \<leftarrow> libelf_ehdr er ec False st;
                          case eh of None \<Rightarrow> Some (False, st)
                          | Some _ \<Rightarrow>
                              do { (_, st) \<leftarrow> elf_flagehdr er ELF_C_SET ELF_F_DIRTY st;
                                   elf \<leftarrow> elfs st e;
                                   eh \<leftarrow> e_ehdr elf;
                                   case eh of
                                     Ehdr64 h \<Rightarrow> Some (True, set_elf e (elf\<lparr>e_ehdr := Some (Ehdr64 s)\<rparr>) st)
                                   | Ehdr32 h \<Rightarrow>
                                       (let (ok, h') = ehdr_narrow s h;
                                            st = set_elf e (elf\<lparr>e_ehdr := Some (Ehdr32 h')\<rparr>) st
                                        in Some (if ok then (True, st) else (False, set_error ELF_E_RANGE st))) } } }
          | _ \<Rightarrow> Some (False, set_error ELF_E_ARGUMENT st) }"

definition elf32_getphdr :: "elf_ref option \<Rightarrow> store \<Rightarrow> (Phdrs option \<times> store) option" where
  "elf32_getphdr er st = libelf_getphdr er ELFCLASS32 st"

definition elf64_getphdr :: "elf_ref option \<Rightarrow> store \<Rightarrow> (Phdrs option \<times> store) option" where
  "elf64_getphdr er st = libelf_getphdr er ELFCLASS64 st"

definition elf32_newphdr :: "elf_ref option \<Rightarrow> u64 \<Rightarrow> store \<Rightarrow> (Phdrs option \<times> store) option" where
  "elf32_newphdr er count st = libelf_newphdr er ELFCLASS32 count st"

definition elf64_newphdr :: "elf_ref option \<Rightarrow> u64 \<Rightarrow> store \<Rightarrow> (Phdrs option \<times> store) option" where
  "elf64_newphdr er count st = libelf_newphdr er ELFCLASS64 count st"

definition gelf_newphdr :: "elf_ref option \<Rightarrow> u64 \<Rightarrow> store \<Rightarrow> (Phdrs option \<times> store) option" where
  "gelf_newphdr er count st =
     (case er of None \<Rightarrow> Some (None, set_error ELF_E_ARGUMENT st)
      | Some e \<Rightarrow> do { elf \<leftarrow> elfs st e; libelf_newphdr er (e_class elf) count st })"

definition phdr_widen :: "32 Elf_Phdr \<Rightarrow> GElf_Phdr" where
  "phdr_widen p =
     \<lparr>p_type = p_type p, p_flags = p_flags p, p_offset = ucast (p_offset p),
      p_vaddr = ucast (p_vaddr p), p_paddr = ucast (p_paddr p), p_filesz = ucast (p_filesz p),
      p_memsz = ucast (p_memsz p), p_align = ucast (p_align p)\<rparr>"

text \<open>The entry at an index of a program header table; beyond its end the read is undefined.\<close>

definition phdr_at :: "Phdrs \<Rightarrow> nat \<Rightarrow> GElf_Phdr option" where
  "phdr_at ps i =
     (case ps of
        Phdrs32 xs \<Rightarrow> if i < length xs then Some (phdr_widen (xs ! i)) else None
      | Phdrs64 xs \<Rightarrow> if i < length xs then Some (xs ! i) else None)"

definition gelf_getphdr :: "elf_ref option \<Rightarrow> int \<Rightarrow> bool \<Rightarrow> store \<Rightarrow> (GElf_Phdr option \<times> store) option" where
  "gelf_getphdr er index d st =
     do { ec \<leftarrow> elf_class_of er st;
          case ec of None \<Rightarrow> Some (None, set_error ELF_E_ARGUMENT st)
          | Some ec \<Rightarrow>
              if \<not> d \<or> index < 0 then Some (None, set_error ELF_E_ARGUMENT st)
              else
                do { ((r, phnum), st) \<leftarrow> elf_getphdrnum er st;
                     case phnum of None \<Rightarrow> Some (None, set_error ELF_E_ARGUMENT st)
                     | Some phnum \<Rightarrow>
                         if word_of_int index \<ge> phnum then Some (None, set_error ELF_E_ARGUMENT st)
                         else
                           do { (eh, st) \<leftarrow> libelf_ehdr er ec False st;
                                case eh of None \<Rightarrow> Some (None, st)
                                | Some _ \<Rightarrow>
                                    do { (ph, st) \<leftarrow> libelf_getphdr er ec st;
                                         case ph of None \<Rightarrow> Some (None, st)
                                         | Some ph \<Rightarrow> do { p \<leftarrow> phdr_at ph (nat index); Some (Some p, st) } } } } }"

definition phdr_narrow :: "GElf_Phdr \<Rightarrow> 32 Elf_Phdr \<Rightarrow> bool \<times> 32 Elf_Phdr" where
  "phdr_narrow s p =
     (LIBELF_COPY_U32 (p_align s) (\<lambda>v p. p\<lparr>p_align := v\<rparr>)
     (LIBELF_COPY_U32 (p_memsz s) (\<lambda>v p. p\<lparr>p_memsz := v\<rparr>)
     (LIBELF_COPY_U32 (p_filesz s) (\<lambda>v p. p\<lparr>p_filesz := v\<rparr>)
     (LIBELF_COPY_U32 (p_paddr s) (\<lambda>v p. p\<lparr>p_paddr := v\<rparr>)
     (LIBELF_COPY_U32 (p_vaddr s) (\<lambda>v p. p\<lparr>p_vaddr := v\<rparr>)
     (LIBELF_COPY_U32 (p_offset s) (\<lambda>v p. p\<lparr>p_offset := v\<rparr>)
     (copy_field (\<lambda>p. p\<lparr>p_type := p_type s, p_flags := p_flags s\<rparr>) (True, p))))))))"

text \<open>The table is read through the pointer in the descriptor, which may be \<open>NULL\<close>.\<close>

definition gelf_update_phdr :: "elf_ref option \<Rightarrow> int \<Rightarrow> GElf_Phdr option \<Rightarrow> store \<Rightarrow> (bool \<times> store) option" where
  "gelf_update_phdr er ndx sr st =
     do { ec \<leftarrow> elf_class_of er st;
          case (sr, er, ec) of
            (Some s, Some e, Some ec) \<Rightarrow>
              do { ((r, phnum), st) \<leftarrow> elf_getphdrnum er st;
                   case phnum of None \<Rightarrow> Some (False, set_error ELF_E_ARGUMENT st)
                   | Some phnum \<Rightarrow>
                       do { elf \<leftarrow> elfs st e;
                            if e_cmd elf = ELF_C_READ then Some (False, set_error ELF_E_MODE st)
                            else
                              do { (eh, st) \<leftarrow> libelf_ehdr er ec False st;
                                   case eh of None \<Rightarrow> Some (False, st)
                                   | Some _ \<Rightarrow>
                                       if ndx < 0 \<or> word_of_int ndx > phnum
                                       then Some (False, set_error ELF_E_ARGUMENT st)
                                       else
                                         do { (_, st) \<leftarrow> elf_flagphdr er ELF_C_SET ELF_F_DIRTY st;
                                              elf \<leftarrow> elfs st e;
                                              ph \<leftarrow> e_phdr elf;
                                              case ph of
                                                Phdrs64 xs \<Rightarrow>
                                                  do { assert_that (nat ndx < length xs);
                                                       Some (True, set_elf e (elf\<lparr>e_phdr :=
                                                         Some (Phdrs64 (xs[nat ndx := s]))\<rparr>) st) }
                                              | Phdrs32 xs \<Rightarrow>
                                                  do { assert_that (nat ndx < length xs);
                                                       let (ok, p) = phdr_narrow s (xs ! nat ndx);
                                                       let st = set_elf e (elf\<lparr>e_phdr :=
                                                         Some (Phdrs32 (xs[nat ndx := p]))\<rparr>) st;
                                                       Some (if ok then (True, st)
                                                             else (False, set_error ELF_E_RANGE st)) } } } } }
          | _ \<Rightarrow> Some (False, set_error ELF_E_ARGUMENT st) }"

section \<open>What the number setters do\<close>

text \<open>
  The counts of a file live in the header and, when they are large, in section header 0.
  \<open>numbers\<close> is that pair; each setter refines a function on it, and reading the pair the
  way \<open>_libelf_ehdr\<close> and \<open>_libelf_load_extended\<close> do gives the number that was set.
\<close>

definition ehdr_class :: "Ehdr \<Rightarrow> int" where
  "ehdr_class eh = (case eh of Ehdr32 h \<Rightarrow> ELFCLASS32 | Ehdr64 h \<Rightarrow> ELFCLASS64)"

definition shdr_class :: "Shdr \<Rightarrow> int" where
  "shdr_class sh = (case sh of Shdr32 h \<Rightarrow> ELFCLASS32 | Shdr64 h \<Rightarrow> ELFCLASS64)"

definition numbering_ready :: "elf_ref \<Rightarrow> int \<Rightarrow> scn_ref \<Rightarrow> store \<Rightarrow> bool" where
  "numbering_ready e ec s st \<longleftrightarrow>
     (\<exists>elf eh ss scn. elfs st e = Some elf \<and> e_ehdr elf = Some eh \<and> ehdr_class eh = ec
        \<and> e_scn elf = s # ss \<and> scns st s = Some scn \<and> s_ndx scn = 0 \<and> shdr_class (s_shdr scn) = ec)"

definition numbers :: "elf_ref \<Rightarrow> scn_ref \<Rightarrow> store \<Rightarrow> (Ehdr \<times> Shdr) option" where
  "numbers e s st =
     do { elf \<leftarrow> elfs st e; eh \<leftarrow> e_ehdr elf; scn \<leftarrow> scns st s; Some (eh, s_shdr scn) }"

definition map_ehdr :: "(32 Elf_Ehdr \<Rightarrow> 32 Elf_Ehdr) \<Rightarrow> (64 Elf_Ehdr \<Rightarrow> 64 Elf_Ehdr) \<Rightarrow> Ehdr \<Rightarrow> Ehdr" where
  "map_ehdr f g eh = (case eh of Ehdr32 h \<Rightarrow> Ehdr32 (f h) | Ehdr64 h \<Rightarrow> Ehdr64 (g h))"

definition map_shdr :: "(32 Elf_Shdr \<Rightarrow> 32 Elf_Shdr) \<Rightarrow> (64 Elf_Shdr \<Rightarrow> 64 Elf_Shdr) \<Rightarrow> Shdr \<Rightarrow> Shdr" where
  "map_shdr f g sh = (case sh of Shdr32 h \<Rightarrow> Shdr32 (f h) | Shdr64 h \<Rightarrow> Shdr64 (g h))"

definition put_phnum :: "u64 \<Rightarrow> Ehdr \<times> Shdr \<Rightarrow> Ehdr \<times> Shdr" where
  "put_phnum n v =
     (if n \<ge> PN_XNUM
      then (map_ehdr (\<lambda>h. h\<lparr>eh_phnum := 0xFFFF\<rparr>) (\<lambda>h. h\<lparr>eh_phnum := 0xFFFF\<rparr>) (fst v),
            map_shdr (\<lambda>h. h\<lparr>sh_info := ucast n\<rparr>) (\<lambda>h. h\<lparr>sh_info := ucast n\<rparr>) (snd v))
      else (map_ehdr (\<lambda>h. h\<lparr>eh_phnum := ucast n\<rparr>) (\<lambda>h. h\<lparr>eh_phnum := ucast n\<rparr>) (fst v), snd v))"

definition put_shnum :: "u64 \<Rightarrow> Ehdr \<times> Shdr \<Rightarrow> Ehdr \<times> Shdr" where
  "put_shnum n v =
     (if n \<ge> SHN_LORESERVE
      then (map_ehdr (\<lambda>h. h\<lparr>eh_shnum := 0\<rparr>) (\<lambda>h. h\<lparr>eh_shnum := 0\<rparr>) (fst v),
            map_shdr (\<lambda>h. h\<lparr>sh_size := ucast n\<rparr>) (\<lambda>h. h\<lparr>sh_size := n\<rparr>) (snd v))
      else (map_ehdr (\<lambda>h. h\<lparr>eh_shnum := ucast n\<rparr>) (\<lambda>h. h\<lparr>eh_shnum := ucast n\<rparr>) (fst v), snd v))"

definition put_shstrndx :: "u64 \<Rightarrow> Ehdr \<times> Shdr \<Rightarrow> Ehdr \<times> Shdr" where
  "put_shstrndx n v =
     (if n \<ge> SHN_LORESERVE
      then (map_ehdr (\<lambda>h. h\<lparr>eh_shstrndx := 0xFFFF\<rparr>) (\<lambda>h. h\<lparr>eh_shstrndx := 0xFFFF\<rparr>) (fst v),
            map_shdr (\<lambda>h. h\<lparr>sh_link := ucast n\<rparr>) (\<lambda>h. h\<lparr>sh_link := ucast n\<rparr>) (snd v))
      else (map_ehdr (\<lambda>h. h\<lparr>eh_shstrndx := ucast n\<rparr>) (\<lambda>h. h\<lparr>eh_shstrndx := ucast n\<rparr>) (fst v), snd v))"

definition get_phnum :: "Ehdr \<times> Shdr \<Rightarrow> u64" where
  "get_phnum v = (if ucast (ehdr_phnum (fst v)) \<noteq> PN_XNUM then ucast (ehdr_phnum (fst v))
     else ucast (shdr_info (snd v)))"

definition get_shnum :: "Ehdr \<times> Shdr \<Rightarrow> u64" where
  "get_shnum v = (if ehdr_shnum (fst v) \<noteq> 0 then ucast (ehdr_shnum (fst v)) else shdr_size (snd v))"

definition get_shstrndx :: "Ehdr \<times> Shdr \<Rightarrow> u64" where
  "get_shstrndx v = (if ucast (ehdr_shstrndx (fst v)) \<noteq> SHN_XINDEX then ucast (ehdr_shstrndx (fst v))
     else ucast (shdr_link (snd v)))"

lemma map_ehdr_class [simp]: "ehdr_class (map_ehdr f g eh) = ehdr_class eh"
  by (simp add: map_ehdr_def ehdr_class_def split: Ehdr.split)

lemma map_shdr_class [simp]: "shdr_class (map_shdr f g sh) = shdr_class sh"
  by (simp add: map_shdr_def shdr_class_def split: Shdr.split)

lemma upd_ehdr_eq:
  assumes "elfs st e = Some elf" "e_ehdr elf = Some eh" "ehdr_class eh = ec"
  shows "upd_ehdr ec f g e st = Some (set_elf e (elf\<lparr>e_ehdr := Some (map_ehdr f g eh)\<rparr>) st)"
  using assms by (auto simp: upd_ehdr_def map_ehdr_def ehdr_class_def split: Ehdr.split)

lemma upd_shdr_eq:
  assumes "scns st s = Some scn" "shdr_class (s_shdr scn) = ec"
  shows "upd_shdr ec f g s st = Some (set_scn s (scn\<lparr>s_shdr := map_shdr f g (s_shdr scn)\<rparr>) st)"
  using assms by (auto simp: upd_shdr_def map_shdr_def shdr_class_def split: Shdr.split)

text \<open>One setter: \<open>put\<close> is its effect on the numbers, \<open>get\<close> reads it back.\<close>

locale number_setter =
  fixes setter :: "elf_ref \<Rightarrow> int \<Rightarrow> u64 \<Rightarrow> store \<Rightarrow> (bool \<times> store) option"
    and put :: "u64 \<Rightarrow> Ehdr \<times> Shdr \<Rightarrow> Ehdr \<times> Shdr"
    and get :: "Ehdr \<times> Shdr \<Rightarrow> u64"
    and valid :: "u64 \<Rightarrow> bool"
  assumes refines: "numbering_ready e ec s st \<Longrightarrow> numbers e s st = Some v
      \<Longrightarrow> \<exists>st'. setter e ec n st = Some (True, st') \<and> numbering_ready e ec s st'
            \<and> numbers e s st' = Some (put n v)"
    and get_put: "valid n \<Longrightarrow> get (put n v) = n"
begin

lemma set_then_get:
  assumes "numbering_ready e ec s st" "numbers e s st = Some v" "valid n"
  shows "\<exists>st' v'. setter e ec n st = Some (True, st') \<and> numbers e s st' = Some v' \<and> get v' = n"
  using refines [OF assms(1,2)] get_put [OF assms(3)] by blast

lemma never_faults: "numbering_ready e ec s st \<Longrightarrow> setter e ec n st \<noteq> None"
proof -
  assume r: "numbering_ready e ec s st"
  then obtain v where "numbers e s st = Some v" by (auto simp: numbering_ready_def numbers_def)
  with refines [OF r] show ?thesis by fastforce
qed

end

lemma and_FFFF_u16: "(ucast ((n :: u64) AND 0xFFFF) :: u16) = ucast n"
proof -
  have m: "(0xFFFF :: u64) = mask 16" by (simp add: mask_eq_exp_minus_1)
  show ?thesis
    unfolding m by (intro bit_word_eqI) (simp add: bit_ucast_iff bit_and_iff bit_mask_iff del: mask_numeral)
qed

lemma ucast_u64_u16_u64:
  assumes "n < (0x10000 :: u64)"
  shows "ucast (ucast n :: u16) = n"
proof -
  have "unat n < 2 ^ 16" using assms by (simp add: word_less_nat_alt)
  then have "take_bit 16 n = n"
    by (simp add: word_unat_eq_iff unsigned_take_bit_eq take_bit_nat_eq_self)
  then show ?thesis by (simp add: unsigned_ucast_eq word_unat_eq_iff flip: take_bit_eq_mod)
qed

lemma setter_core:
  assumes "numbering_ready e ec s st" "numbers e s st = Some (eh, sh)"
  obtains elf ss scn where "elfs st e = Some elf" "e_ehdr elf = Some eh" "ehdr_class eh = ec"
    "e_scn elf = s # ss" "scns st s = Some scn" "s_ndx scn = 0" "s_shdr scn = sh" "shdr_class sh = ec"
  using assms by (auto simp: numbering_ready_def numbers_def)

lemma small_set:
  assumes "numbering_ready e ec s st" "numbers e s st = Some (eh, sh)"
  shows "\<exists>st'. upd_ehdr ec f g e st = Some st' \<and> numbering_ready e ec s st'
    \<and> numbers e s st' = Some (map_ehdr f g eh, sh)"
proof -
  obtain elf ss scn where *: "elfs st e = Some elf" "e_ehdr elf = Some eh" "ehdr_class eh = ec"
    "e_scn elf = s # ss" "scns st s = Some scn" "s_ndx scn = 0" "s_shdr scn = sh" "shdr_class sh = ec"
    by (rule setter_core [OF assms])
  let ?st' = "set_elf e (elf\<lparr>e_ehdr := Some (map_ehdr f g eh)\<rparr>) st"
  have "upd_ehdr ec f g e st = Some ?st'" by (rule upd_ehdr_eq [OF *(1-3)])
  moreover have "numbering_ready e ec s ?st'" using * by (simp add: numbering_ready_def)
  moreover have "numbers e s ?st' = Some (map_ehdr f g eh, sh)" using * by (simp add: numbers_def)
  ultimately show ?thesis by blast
qed

lemma large_set:
  assumes "numbering_ready e ec s st" "numbers e s st = Some (eh, sh)"
  shows "\<exists>st'. do { (s, st) \<leftarrow> libelf_getscn0 e st;
             case s of None \<Rightarrow> Some (False, st)
             | Some s \<Rightarrow>
                 do { scn \<leftarrow> scns st s;
                      assert_that (s_ndx scn = SHN_UNDEF);
                      st \<leftarrow> upd_shdr ec f g s st;
                      (_, st) \<leftarrow> elf_flagshdr (Some s) ELF_C_SET ELF_F_DIRTY st;
                      st \<leftarrow> upd_ehdr ec f' g' e st;
                      Some (True, st) } } = Some (True, st') \<and> numbering_ready e ec s st'
    \<and> numbers e s st' = Some (map_ehdr f' g' eh, map_shdr f g sh)"
proof -
  obtain elf ss scn where *: "elfs st e = Some elf" "e_ehdr elf = Some eh" "ehdr_class eh = ec"
    "e_scn elf = s # ss" "scns st s = Some scn" "s_ndx scn = 0" "s_shdr scn = sh" "shdr_class sh = ec"
    by (rule setter_core [OF assms])
  define st1 where "st1 = set_scn s (scn\<lparr>s_shdr := map_shdr f g sh\<rparr>) st"
  define st2 where "st2 = set_scn s (scn\<lparr>s_shdr := map_shdr f g sh, s_flags := s_flags scn OR ELF_F_DIRTY\<rparr>) st1"
  define st' where "st' = set_elf e (elf\<lparr>e_ehdr := Some (map_ehdr f' g' eh)\<rparr>) st2"
  have 0: "libelf_getscn0 e st = Some (Some s, st)" using *(1,4) by (simp add: libelf_getscn0_def)
  have 1: "upd_shdr ec f g s st = Some st1" using upd_shdr_eq [OF *(5)] *(7,8) by (simp add: st1_def)
  have 2: "elf_flagshdr (Some s) ELF_C_SET ELF_F_DIRTY st1
      = Some ((s_flags scn OR ELF_F_DIRTY) AND LIBELF_F_API_MASK, st2)"
    by (simp add: elf_flagshdr_def elf_flagscn_def st1_def st2_def Let_def)
  have 3: "upd_ehdr ec f' g' e st2 = Some st'"
    using upd_ehdr_eq [of st2 e elf] *(1-3) by (simp add: st'_def st2_def st1_def)
  have "numbering_ready e ec s st'" using *
    by (simp add: numbering_ready_def st'_def st2_def st1_def)
  moreover have "numbers e s st' = Some (map_ehdr f' g' eh, map_shdr f g sh)"
    by (simp add: numbers_def st'_def st2_def st1_def)
  ultimately show ?thesis using 0 1 2 3 *(5,6) by simp
qed

lemma escape: "(ucast ((0xFFFF :: u64) AND 0xFFFF) :: u16) = 0xFFFF"
  by simp

lemma small_u16:
  "n < 0xFFFF \<Longrightarrow> ucast (ucast (n :: u64) :: u16) = n"
  "n < 0xFF00 \<Longrightarrow> ucast (ucast (n :: u64) :: u16) = n"
  using ucast_u64_u16_u64 [of n] by (auto simp: order_less_trans)

lemma small_u16_0: "n < 0xFF00 \<Longrightarrow> (ucast (n :: u64) :: u16) = 0 \<longleftrightarrow> n = 0"
  using small_u16(2) [of n] by (metis ucast_0)

lemmas number_simps = get_phnum_def get_shnum_def get_shstrndx_def put_phnum_def put_shnum_def
  put_shstrndx_def map_ehdr_def map_shdr_def

interpretation phnum: number_setter libelf_setphnum put_phnum get_phnum "\<lambda>n. n \<le> 0xFFFFFFFF"
proof (unfold_locales, goal_cases)
  case (1 e ec s st v n)
  obtain eh sh where v: "v = (eh, sh)" by (cases v)
  show ?case
    using small_set [OF 1(1) 1(2) [unfolded v]] large_set [OF 1(1) 1(2) [unfolded v]]
    unfolding libelf_setphnum_def put_phnum_def v escape by (simp add: and_FFFF_u16)
next
  case (2 n v)
  then show ?case
    by (cases v) (auto simp: number_simps ucast_u64_u32_u64 small_u16 small_u16_0 not_le
        split: Ehdr.split Shdr.split)
qed

interpretation shnum: number_setter libelf_setshnum put_shnum get_shnum "\<lambda>n. 0 < n \<and> n \<le> 0xFFFFFFFF"
proof (unfold_locales, goal_cases)
  case (1 e ec s st v n)
  obtain eh sh where v: "v = (eh, sh)" by (cases v)
  show ?case
    using small_set [OF 1(1) 1(2) [unfolded v]] large_set [OF 1(1) 1(2) [unfolded v]]
    unfolding libelf_setshnum_def put_shnum_def v by (simp add: and_FFFF_u16)
next
  case (2 n v)
  then show ?case
    by (cases v) (auto simp: number_simps ucast_u64_u32_u64 small_u16 small_u16_0 not_le
        split: Ehdr.split Shdr.split)
qed

interpretation shstrndx: number_setter libelf_setshstrndx put_shstrndx get_shstrndx "\<lambda>n. n \<le> 0xFFFFFFFF"
proof (unfold_locales, goal_cases)
  case (1 e ec s st v n)
  obtain eh sh where v: "v = (eh, sh)" by (cases v)
  show ?case
    using small_set [OF 1(1) 1(2) [unfolded v]] large_set [OF 1(1) 1(2) [unfolded v]]
    unfolding libelf_setshstrndx_def put_shstrndx_def v escape by (simp add: and_FFFF_u16)
next
  case (2 n v)
  then show ?case
    by (cases v) (auto simp: number_simps ucast_u64_u32_u64 small_u16 small_u16_0 not_le
        split: Ehdr.split Shdr.split)
qed

section \<open>What reading a header does\<close>

lemma set_elf_same: "elfs st e = Some elf \<Longrightarrow> set_elf e elf st = st"
  by (simp add: set_elf_def fun_upd_idem)

lemma set_elf_set_elf [simp]: "set_elf e x (set_elf e y st) = set_elf e x st"
  by (simp add: set_elf_def)

lemma libelf_ehdr_cached:
  assumes "elfs st e = Some elf" "e_kind elf = ELF_K_ELF" "e_class elf = ec" "std_class ec"
    and "e_version elf = EV_CURRENT" "e_ehdr elf = Some eh"
  shows "libelf_ehdr (Some e) ec allocate st = Some (Some eh, st)"
proof -
  have "e_class elf \<noteq> ELFCLASSNONE" using assms(3,4) by (auto simp: std_class_def)
  then show ?thesis
    using assms by (simp add: libelf_ehdr_def std_class_def set_elf_same)
qed

definition ehdr_layout :: "int \<Rightarrow> layout" where
  "ehdr_layout ec = (if ec = ELFCLASS64 then Elf64_Ehdr_DEF else Elf32_Ehdr_DEF)"

definition shdr_layout :: "int \<Rightarrow> layout" where
  "shdr_layout ec = (if ec = ELFCLASS64 then Elf64_Shdr_DEF else Elf32_Shdr_DEF)"

lemma header_layouts:
  "comp_layout ELF_T_EHDR ec = Some (ehdr_layout ec)" "comp_layout ELF_T_SHDR ec = Some (shdr_layout ec)"
  by (simp_all add: comp_layout_def ehdr_layout_def shdr_layout_def)

lemma layout_type:
  "comp_layout t ec = Some def \<Longrightarrow> type_layout t ec = Some def"
  by (auto simp: type_layout_def prim_basic_def comp_layout_def Let_def split: if_splits)

lemma ehdr_sizes:
  assumes "std_class ec"
  shows "FSZ ec (ehdr_layout ec) = (if ec = ELFCLASS64 then 64 else 52)"
    "struct_size ec (ehdr_layout ec) = (if ec = ELFCLASS64 then 64 else 52)"
    "FSZ ec (shdr_layout ec) = (if ec = ELFCLASS64 then 64 else 40)"
    "struct_size ec (shdr_layout ec) = (if ec = ELFCLASS64 then 64 else 40)"
  using assms
  by (auto simp: std_class_def ehdr_layout_def shdr_layout_def DEF_simps struct_size_def struct_align_def align_up_def)

lemma table_sizes:
  assumes "std_class ec"
  shows "libelf_fsize ELF_T_EHDR ec EV_CURRENT 1 st = (of_nat (FSZ ec (ehdr_layout ec)), st)"
    "libelf_msize ELF_T_EHDR ec EV_CURRENT st = Some (of_nat (struct_size ec (ehdr_layout ec)), st)"
    "libelf_fsize ELF_T_SHDR ec EV_CURRENT 1 st = (of_nat (FSZ ec (shdr_layout ec)), st)"
proof -
  note t1 = type_layout_sizes [OF layout_type [OF header_layouts(1)] assms]
  note t2 = type_layout_sizes [OF layout_type [OF header_layouts(2)] assms]
  have "(of_nat (FSZ ec (ehdr_layout ec)) :: u64) \<noteq> 0" "(of_nat (FSZ ec (shdr_layout ec)) :: u64) \<noteq> 0"
    using ehdr_sizes [OF assms] by auto
  then show "libelf_fsize ELF_T_EHDR ec EV_CURRENT 1 st = (of_nat (FSZ ec (ehdr_layout ec)), st)"
    "libelf_msize ELF_T_EHDR ec EV_CURRENT st = Some (of_nat (struct_size ec (ehdr_layout ec)), st)"
    "libelf_fsize ELF_T_SHDR ec EV_CURRENT 1 st = (of_nat (FSZ ec (shdr_layout ec)), st)"
    using t1 t2 assms
    by (simp_all add: libelf_fsize_def libelf_msize_def std_class_def Let_def)
qed

text \<open>A descriptor of an ELF file whose header has not been read, and its first bytes.\<close>

definition unread :: "elf_ref \<Rightarrow> int \<Rightarrow> Elf \<Rightarrow> nat \<Rightarrow> nat \<Rightarrow> byte list \<Rightarrow> store \<Rightarrow> bool" where
  "unread e ec elf b off S st \<longleftrightarrow>
     elfs st e = Some elf \<and> e_kind elf = ELF_K_ELF \<and> (e_class elf = ELFCLASSNONE \<or> e_class elf = ec)
     \<and> e_version elf = EV_CURRENT \<and> e_ehdr elf = None \<and> e_cmd elf \<noteq> ELF_C_WRITE \<and> e_scn elf = []
     \<and> e_rawfile elf = Some (b, off) \<and> mem st b = Some S \<and> off + unat (e_rawsize elf) \<le> length S
     \<and> FSZ ec (ehdr_layout ec) \<le> unat (e_rawsize elf)
     \<and> oom st = [] \<and> mem st (fresh st) = None \<and> mem st (Suc (fresh st)) = None
     \<and> mem st (Suc (Suc (fresh st))) = None"

definition file_ehdr :: "int \<Rightarrow> Elf \<Rightarrow> nat \<Rightarrow> byte list \<Rightarrow> store \<Rightarrow> Ehdr" where
  "file_ehdr ec elf off S st = ehdr_object ec (host_order st)
     (file_struct (swap_needed elf st) ec (ehdr_layout ec) (segment off (FSZ ec (ehdr_layout ec)) S))"

definition file_shdr :: "int \<Rightarrow> Elf \<Rightarrow> nat \<Rightarrow> byte list \<Rightarrow> store \<Rightarrow> Shdr" where
  "file_shdr ec elf off S st = shdr_object ec (host_order st)
     (file_struct (swap_needed elf st) ec (shdr_layout ec) (segment off (FSZ ec (shdr_layout ec)) S))"

lemma upt_1 [simp]: "[0..<Suc 0] = [0]" by simp

lemma calloc_one: "m < 2 ^ 64 \<Longrightarrow> oom st = [] \<Longrightarrow> calloc_ok 1 (of_nat m) st = (True, st)"
  by (simp add: calloc_ok_def unat_of_nat take_bit_nat_eq_self)

lemma libelf_ehdr_unread_load:
  fixes allocate :: bool
  assumes u: "unread e ec elf b off S st" and std: "std_class ec"
  shows "libelf_ehdr (Some e) ec allocate st =
    libelf_ehdr_load e ec (of_nat (struct_size ec (ehdr_layout ec)))
      (set_elf e (elf\<lparr>e_class := ec, e_ehdr := Some (EHDR_INIT ec st),
         e_flags := (if allocate then e_flags elf OR ELF_F_DIRTY else e_flags elf)\<rparr>) st)"
proof -
  let ?f = "FSZ ec (ehdr_layout ec)" and ?m = "struct_size ec (ehdr_layout ec)"
  have u': "elfs st e = Some elf" "e_kind elf = ELF_K_ELF" "e_class elf = ELFCLASSNONE \<or> e_class elf = ec"
    "e_version elf = EV_CURRENT" "e_ehdr elf = None" "e_cmd elf \<noteq> ELF_C_WRITE"
    "?f \<le> unat (e_rawsize elf)" "oom st = []"
    using u by (simp_all add: unread_def)
  have m: "(of_nat ?m :: u64) \<noteq> 0" "(of_nat ?f :: u64) \<noteq> 0" "unat (of_nat ?f :: u64) = ?f" "?m < 2 ^ 64"
    using ehdr_sizes [OF std] by auto
  have size: "\<not> e_rawsize elf < of_nat ?f" using u'(7) m(3) by (simp add: word_less_nat_alt)
  have class_upd: "(if e_class elf = ELFCLASSNONE then elf\<lparr>e_class := ec\<rparr> else elf) = elf\<lparr>e_class := ec\<rparr>"
    using u'(3) by auto
  have class_ok: "\<not> (e_class elf \<noteq> ELFCLASSNONE \<and> e_class elf \<noteq> ec)" using u'(3) by blast
  have init: "EHDR_INIT ec (set_elf e x st) = EHDR_INIT ec st" for x
    by (simp add: EHDR_INIT_def)
  show ?thesis
    unfolding libelf_ehdr_def Let_def
    using std m u' size
    by (simp add: class_upd class_ok table_sizes [OF std] calloc_one init word_gt_0 std_class_def
        del: de_Morgan_conj)
qed

lemma libelf_ehdr_unread:
  fixes allocate :: bool
  assumes u: "unread e ec elf b off S st" and std: "std_class ec"
  defines "eh \<equiv> file_ehdr ec elf off S st"
  defines "elf1 \<equiv> elf\<lparr>e_class := ec, e_ehdr := Some eh,
     e_flags := (if allocate then e_flags elf OR ELF_F_DIRTY else e_flags elf)\<rparr>"
  defines "st1 \<equiv> (set_elf e elf1 st)\<lparr>fresh := Suc (fresh st)\<rparr>"
  shows "libelf_ehdr (Some e) ec allocate st =
    (if bad_counts eh then Some (None, set_error ELF_E_HEADER st1)
     else if uses_extended eh then
       do { (ok, st) \<leftarrow> libelf_load_extended e ec (ehdr_shoff eh) (ehdr_phnum eh) (ehdr_shstrndx eh) st1;
            Some (if ok then Some eh else None, st) }
     else Some (Some eh, set_elf e (elf1\<lparr>e_nphdr := ucast (ehdr_phnum eh),
       e_nscn := ucast (ehdr_shnum eh), e_strndx := ucast (ehdr_shstrndx eh)\<rparr>) st1))"
proof -
  let ?f = "FSZ ec (ehdr_layout ec)" and ?m = "struct_size ec (ehdr_layout ec)"
  have u': "e_rawfile elf = Some (b, off)" "mem st b = Some S" "off + unat (e_rawsize elf) \<le> length S"
    "?f \<le> unat (e_rawsize elf)" "mem st (fresh st) = None"
    using u by (simp_all add: unread_def)
  have m: "unat (of_nat ?m :: u64) = ?m" using ehdr_sizes [OF std] by auto
  define elf0 where "elf0 = elf\<lparr>e_class := ec, e_ehdr := Some (EHDR_INIT ec st),
     e_flags := (if allocate then e_flags elf OR ELF_F_DIRTY else e_flags elf)\<rparr>"
  define st0 where "st0 = set_elf e elf0 st"
  have swap: "swap_needed elf0 st0 = swap_needed elf st"
    by (simp add: swap_needed_def elf0_def st0_def)
  have raw: "e_rawfile elf0 = Some (b, off)" using u'(1) by (simp add: elf0_def)
  have load: "load_objects ELF_T_EHDR ec (of_nat ?m) (e_rawfile elf0) 1 (swap_needed elf0 st0) st0
    = Some ((True, [file_struct (swap_needed elf st) ec (ehdr_layout ec) (segment off ?f S)]),
            st0\<lparr>fresh := Suc (fresh st)\<rparr>)"
    unfolding raw swap
    using load_objects_correct [OF header_layouts(1) std, of st0 b S off 1 "of_nat ?m"] u' m
    by (simp add: elem_def st0_def)
  have eh': "ehdr_object ec (host_order (st0\<lparr>fresh := Suc (fresh st)\<rparr>))
      (hd [file_struct (swap_needed elf st) ec (ehdr_layout ec) (segment off ?f S)]) = eh"
    by (simp add: eh_def file_ehdr_def st0_def)
  have elf1': "elf0\<lparr>e_ehdr := Some eh\<rparr> = elf1"
    by (cases allocate) (simp_all add: elf0_def elf1_def)
  have upd: "set_elf e elf1 (st0\<lparr>fresh := Suc (fresh st)\<rparr>) = st1"
    by (cases st) (simp add: st0_def st1_def set_elf_def)
  have "elfs st0 e = Some elf0" by (simp add: st0_def)
  then have "libelf_ehdr_load e ec (of_nat ?m) st0 =
    (if bad_counts eh then Some (None, set_error ELF_E_HEADER st1)
     else if uses_extended eh then
       do { (ok, st) \<leftarrow> libelf_load_extended e ec (ehdr_shoff eh) (ehdr_phnum eh) (ehdr_shstrndx eh) st1;
            Some (if ok then Some eh else None, st) }
     else Some (Some eh, set_elf e (elf1\<lparr>e_nphdr := ucast (ehdr_phnum eh),
       e_nscn := ucast (ehdr_shnum eh), e_strndx := ucast (ehdr_shstrndx eh)\<rparr>) st1))"
    unfolding libelf_ehdr_load_def
    by (simp only: Option.bind.simps load prod.case Let_def eh' elf1' upd)
  then show ?thesis
    unfolding libelf_ehdr_unread_load [OF u std] elf0_def [symmetric] st0_def [symmetric] .
qed

definition new_scn :: "elf_ref \<Rightarrow> int \<Rightarrow> u64 \<Rightarrow> Shdr \<Rightarrow> Elf_Scn" where
  "new_scn e ec ndx sh = \<lparr>s_shdr = sh, s_data = [], s_rawdata = [], s_elf = Some e, s_flags = 0,
     s_ndx = ndx, s_offset = 0, s_rawoff = 0, s_size = 0\<rparr>"

lemma libelf_load_extended_eq:
  assumes "elfs st e = Some elf" "e_class elf = ec" "std_class ec" "e_version elf = EV_CURRENT"
    and "e_scn elf = []" "e_rawfile elf = Some (b, off)" "mem st b = Some S"
    and "off + unat (e_rawsize elf) \<le> length S" "oom st = []" "mem st (Suc (fresh st)) = None"
    and "unat shoff + FSZ ec (shdr_layout ec) \<le> unat (e_rawsize elf)" "off + unat shoff < 2 ^ 64"
  defines "s \<equiv> fresh st" and "sh \<equiv> file_shdr ec elf (off + unat shoff) S st"
  defines "elf1 \<equiv> elf\<lparr>e_scn := [s]\<rparr>"
  defines "st1 \<equiv> (set_elf e elf1 (set_scn s (new_scn e ec 0 sh) st))\<lparr>fresh := Suc (Suc s)\<rparr>"
  shows "libelf_load_extended e ec shoff phnum strndx st =
    Some (if shdr_type sh \<noteq> SHT_NULL then (False, set_error ELF_E_SECTION st1)
          else (True, set_elf e (elf1\<lparr>e_nscn := shdr_size sh,
                 e_nphdr := (if ucast phnum \<noteq> PN_XNUM then ucast phnum else ucast (shdr_info sh)),
                 e_strndx := (if ucast strndx \<noteq> SHN_XINDEX then ucast strndx else ucast (shdr_link sh))\<rparr>) st1))"
proof -
  let ?f = "FSZ ec (shdr_layout ec)" and ?m = "struct_size ec (shdr_layout ec)"
  have f64: "?f \<le> 64" "?m \<le> 64" "unat (of_nat ?f :: u64) = ?f" "(of_nat ?f :: u64) > 0"
    using ehdr_sizes [OF assms(3)] by (auto simp: word_gt_0)
  have "unat (shoff + of_nat ?f) = unat shoff + ?f"
    using assms(11) unat_u64_less [of "e_rawsize elf"] f64(3) by (subst unat_add_lem [THEN iffD1]) simp_all
  then have room: "\<not> e_rawsize elf < shoff + of_nat ?f"
    using assms(11) by (simp add: word_less_nat_alt)
  define st0 where "st0 = (set_elf e elf1 (set_scn s (new_scn e ec 0 (zero_shdr ec)) st))\<lparr>fresh := Suc s\<rparr>"
  have alloc: "libelf_allocate_scn e 0 st = Some (Some s, st0)"
    using assms(1,2,5,9) by (simp add: libelf_allocate_scn_def st0_def s_def elf1_def new_scn_def Let_def)
  have src: "ptr_add (e_rawfile elf) shoff = Some (b, off + unat shoff)"
    using assms(6,12) by (simp add: ptr_add_def)
  have swap: "swap_needed elf st0 = swap_needed elf st" by (simp add: swap_needed_def st0_def)
  have load: "load_objects ELF_T_SHDR ec 64 (Some (b, off + unat shoff)) 1 (swap_needed elf st) st0
    = Some ((True, [file_struct (swap_needed elf st) ec (shdr_layout ec) (segment (off + unat shoff) ?f S)]),
            st0\<lparr>fresh := Suc (Suc s)\<rparr>)"
    using load_objects_correct [OF header_layouts(2) assms(3), of st0 b S "off + unat shoff" 1 64]
      assms(7,8,10,11) f64(2)
    by (simp add: elem_def st0_def s_def)
  define st0' where "st0' = st0\<lparr>fresh := Suc (Suc s)\<rparr>"
  have sh': "shdr_object ec (host_order st0')
      (file_struct (swap_needed elf st) ec (shdr_layout ec) (segment (off + unat shoff) ?f S)) = sh"
    by (simp add: sh_def file_shdr_def st0'_def st0_def)
  have st0'_facts: "scns st0' s = Some (new_scn e ec 0 (zero_shdr ec))" "elfs st0' e = Some elf1"
    by (simp_all add: st0'_def st0_def)
  have upd: "set_scn s ((new_scn e ec 0 (zero_shdr ec))\<lparr>s_shdr := sh\<rparr>) st0' = st1"
    by (cases st) (simp add: st0'_def st0_def st1_def new_scn_def set_scn_def set_elf_def)
  show ?thesis
    unfolding libelf_load_extended_def assms(1) Option.bind.simps assms(4,5) table_sizes(3) [OF assms(3)]
    by (simp add: f64(4) room alloc src swap load [folded st0'_def] sh' st0'_facts upd Let_def
        del: One_nat_def)
qed

lemma libelf_ehdr_counts:
  fixes allocate :: bool
  assumes u: "unread e ec elf b off S st" and std: "std_class ec"
  defines "eh \<equiv> file_ehdr ec elf off S st" and "sh \<equiv> file_shdr ec elf (off + unat (ehdr_shoff (file_ehdr ec elf off S st))) S st"
  assumes ok: "\<not> bad_counts eh"
    and ext: "uses_extended eh \<Longrightarrow> unat (ehdr_shoff eh) + FSZ ec (shdr_layout ec) \<le> unat (e_rawsize elf)
      \<and> off + unat (ehdr_shoff eh) < 2 ^ 64 \<and> shdr_type sh = SHT_NULL"
  shows "\<exists>st' elf'. libelf_ehdr (Some e) ec allocate st = Some (Some eh, st')
    \<and> elfs st' e = Some elf' \<and> e_ehdr elf' = Some eh \<and> e_class elf' = ec
    \<and> e_nphdr elf' = get_phnum (eh, sh) \<and> e_strndx elf' = get_shstrndx (eh, sh)
    \<and> e_nscn elf' = (if uses_extended eh then shdr_size sh else ucast (ehdr_shnum eh))
    \<and> (uses_extended eh \<longrightarrow> (\<exists>s scn. e_scn elf' = [s] \<and> scns st' s = Some scn \<and> s_ndx scn = 0
           \<and> s_shdr scn = sh)) \<and> (\<not> uses_extended eh \<longrightarrow> e_scn elf' = [])"
proof -
  define elf1 where "elf1 = elf\<lparr>e_class := ec, e_ehdr := Some eh,
     e_flags := (if allocate then e_flags elf OR ELF_F_DIRTY else e_flags elf)\<rparr>"
  define st1 where "st1 = (set_elf e elf1 st)\<lparr>fresh := Suc (fresh st)\<rparr>"
  note load = libelf_ehdr_unread [OF u std, of allocate, folded eh_def, folded elf1_def, folded st1_def]
  note u' = u [unfolded unread_def]
  show ?thesis
  proof (cases "uses_extended eh")
    case False
    then have "ucast (ehdr_phnum eh) \<noteq> PN_XNUM" "ucast (ehdr_shstrndx eh) \<noteq> SHN_XINDEX"
      by (auto simp: uses_extended_def)
    then show ?thesis
      using load ok u' False by (simp add: elf1_def get_phnum_def get_shstrndx_def)
  next
    case True
    have sh: "file_shdr ec elf1 (off + unat (ehdr_shoff eh)) S st1 = sh"
      by (simp add: sh_def eh_def file_shdr_def st1_def swap_needed_def elf1_def)
    have h: "elfs st1 e = Some elf1" "e_class elf1 = ec" "e_version elf1 = EV_CURRENT" "e_scn elf1 = []"
      "e_rawfile elf1 = Some (b, off)" "mem st1 b = Some S" "off + unat (e_rawsize elf1) \<le> length S"
      "oom st1 = []" "mem st1 (Suc (fresh st1)) = None"
      "unat (ehdr_shoff eh) + FSZ ec (shdr_layout ec) \<le> unat (e_rawsize elf1)"
      using u' ext [OF True] by (auto simp: st1_def elf1_def)
    note le = libelf_load_extended_eq [OF h(1,2) std h(3-9) h(10), unfolded sh]
    show ?thesis
      using load ok True ext [OF True] le
      by (simp add: get_phnum_def get_shstrndx_def new_scn_def elf1_def)
  qed
qed

section \<open>The class-independent header\<close>

definition ehdr_fits :: "GElf_Ehdr \<Rightarrow> bool" where
  "ehdr_fits s \<longleftrightarrow> eh_entry s \<le> 0xFFFFFFFF \<and> eh_phoff s \<le> 0xFFFFFFFF \<and> eh_shoff s \<le> 0xFFFFFFFF"

lemma ehdr_narrow_fits: "fst (ehdr_narrow s h) = ehdr_fits s"
  by (auto simp: ehdr_narrow_def LIBELF_COPY_U32_fst ehdr_fits_def)

lemma ehdr_narrow_widen:
  assumes "ehdr_fits s"
  shows "ehdr_widen (snd (ehdr_narrow s h)) = s"
  using assms by (simp add: ehdr_narrow_def ehdr_fits_def ehdr_widen_def ucast_u64_u32_u64)

definition phdr_fits :: "GElf_Phdr \<Rightarrow> bool" where
  "phdr_fits s \<longleftrightarrow> p_offset s \<le> 0xFFFFFFFF \<and> p_vaddr s \<le> 0xFFFFFFFF \<and> p_paddr s \<le> 0xFFFFFFFF
     \<and> p_filesz s \<le> 0xFFFFFFFF \<and> p_memsz s \<le> 0xFFFFFFFF \<and> p_align s \<le> 0xFFFFFFFF"

lemma phdr_narrow_fits: "fst (phdr_narrow s p) = phdr_fits s"
  by (auto simp: phdr_narrow_def LIBELF_COPY_U32_fst phdr_fits_def)

lemma phdr_narrow_widen:
  assumes "phdr_fits s"
  shows "phdr_widen (snd (phdr_narrow s p)) = s"
  using assms by (simp add: phdr_narrow_def phdr_fits_def phdr_widen_def ucast_u64_u32_u64)

text \<open>A writable descriptor of a class whose header has been read.\<close>

definition header_ready :: "elf_ref \<Rightarrow> Elf \<Rightarrow> Ehdr \<Rightarrow> store \<Rightarrow> bool" where
  "header_ready e elf eh st \<longleftrightarrow>
     elfs st e = Some elf \<and> e_kind elf = ELF_K_ELF \<and> std_class (e_class elf)
     \<and> e_version elf = EV_CURRENT \<and> e_ehdr elf = Some eh \<and> ehdr_class eh = e_class elf"

lemma header_ready_class:
  "header_ready e elf eh st \<Longrightarrow> elf_class_of (Some e) st = Some (Some (e_class elf))"
  by (auto simp: header_ready_def elf_class_of_def std_class_def)

lemma header_ready_ehdr:
  "header_ready e elf eh st \<Longrightarrow> libelf_ehdr (Some e) (e_class elf) a st = Some (Some eh, st)"
  by (rule libelf_ehdr_cached) (auto simp: header_ready_def)

lemma elf_flagehdr_dirty:
  assumes "header_ready e elf eh st"
  shows "elf_flagehdr (Some e) ELF_C_SET ELF_F_DIRTY st
    = Some ((e_flags elf OR ELF_F_DIRTY) AND LIBELF_F_API_MASK,
            set_elf e (elf\<lparr>e_flags := e_flags elf OR ELF_F_DIRTY\<rparr>) st)"
  using assms
  by (auto simp: header_ready_def elf_flagehdr_def ehdr_NULL_def elf_flagelf_def std_class_def Let_def)

text \<open>What \<open>gelf_update_ehdr\<close> does on a header that has been read.\<close>

lemma gelf_update_ehdr_eq:
  assumes r: "header_ready e elf eh st" and c: "e_cmd elf \<noteq> ELF_C_READ"
  defines "elf1 \<equiv> elf\<lparr>e_flags := e_flags elf OR ELF_F_DIRTY\<rparr>"
  shows "gelf_update_ehdr (Some e) (Some s) st =
    Some (case eh of
        Ehdr64 h \<Rightarrow> (True, set_elf e (elf1\<lparr>e_ehdr := Some (Ehdr64 s)\<rparr>) st)
      | Ehdr32 h \<Rightarrow>
          (let st' = set_elf e (elf1\<lparr>e_ehdr := Some (Ehdr32 (snd (ehdr_narrow s h)))\<rparr>) st
           in if ehdr_fits s then (True, st') else (False, set_error ELF_E_RANGE st')))"
proof -
  have e: "elfs st e = Some elf" and eh: "e_ehdr elf = Some eh" using r by (auto simp: header_ready_def)
  have fits: "ehdr_narrow s h = (ehdr_fits s, snd (ehdr_narrow s h))" for h
    using ehdr_narrow_fits [of s h] by (cases "ehdr_narrow s h") simp
  show ?thesis
    unfolding gelf_update_ehdr_def header_ready_class [OF r] Option.bind.simps option.case prod.case e
    using c
    by (simp add: header_ready_ehdr [OF r] elf_flagehdr_dirty [OF r] elf1_def [symmetric] eh
        del: set_elf_frame(3))
      (cases eh; subst fits; simp add: elf1_def eh Let_def)
qed

section \<open>Properties\<close>

text \<open>Images of 64-bit headers and a descriptor over one, for the instances below.\<close>

definition demo_image :: "byte list" where
  "demo_image =
     [0, 0, 0, 0, 0, 0, 0, 0, 0, 0, 0, 0, 0, 0, 0, 0,
      0, 0, 0, 0, 0, 0, 0, 0, 0, 0, 0, 0, 0, 0, 0, 0,
      0, 0, 0, 0, 0, 0, 0, 0, 64, 0, 0, 0, 0, 0, 0, 0,
      0, 0, 0, 0, 0, 0, 0, 0, 255, 255, 64, 0, 5, 0, 1, 0,
      0, 0, 0, 0, 0, 0, 0, 0, 0, 0, 0, 0, 0, 0, 0, 0,
      0, 0, 0, 0, 0, 0, 0, 0, 0, 0, 0, 0, 0, 0, 0, 0,
      0, 0, 0, 0, 0, 0, 0, 0, 0, 0, 0, 0, 112, 17, 1, 0,
      0, 0, 0, 0, 0, 0, 0, 0, 0, 0, 0, 0, 0, 0, 0, 0]"

definition demo_bad_image :: "byte list" where
  "demo_bad_image =
     [0, 0, 0, 0, 0, 0, 0, 0, 0, 0, 0, 0, 0, 0, 0, 0,
      0, 0, 0, 0, 0, 0, 0, 0, 0, 0, 0, 0, 0, 0, 0, 0,
      0, 0, 0, 0, 0, 0, 0, 0, 0, 0, 0, 0, 0, 0, 0, 0,
      0, 0, 0, 0, 0, 0, 0, 0, 0, 0, 0, 0, 1, 0, 0, 0]"

definition demo_elf :: "byte list \<Rightarrow> Elf" where
  "demo_elf img = (new_elf EV_CURRENT)\<lparr>e_kind := ELF_K_ELF, e_class := ELFCLASS64, e_cmd := ELF_C_READ,
     e_byteorder := ELFDATA2LSB, e_rawfile := Some (0, 0), e_rawsize := of_nat (length img)\<rparr>"

definition demo_elf_store :: "byte list \<Rightarrow> store" where
  "demo_elf_store img = (initial_store ELFDATA2LSB (\<lambda>b. of_nat (4096 * Suc b)))
     \<lparr>mem := [0 \<mapsto> img], elfs := [0 \<mapsto> demo_elf img], fresh := 1\<rparr>"

lemma demo_unread:
  assumes "64 \<le> length img" "length img < 2 ^ 64"
  shows "unread 0 ELFCLASS64 (demo_elf img) 0 0 img (demo_elf_store img)"
  using assms ehdr_sizes(1) [of ELFCLASS64]
  by (simp add: unread_def demo_elf_def demo_elf_store_def new_elf_def initial_store_def std_class_def
      unat_of_nat take_bit_nat_eq_self)

lemma demo_ehdr:
  "file_ehdr ELFCLASS64 (demo_elf demo_image) 0 demo_image (demo_elf_store demo_image)
    = Ehdr64 \<lparr>eh_ident = [0, 0, 0, 0, 0, 0, 0, 0, 0, 0, 0, 0, 0, 0, 0, 0], eh_type = 0,
       eh_machine = 0, eh_version = 0, eh_entry = 0,
       eh_phoff = 0, eh_shoff = 64, eh_flags = 0, eh_ehsize = 0, eh_phentsize = 0, eh_phnum = 0xFFFF,
       eh_shentsize = 64, eh_shnum = 5, eh_shstrndx = 1\<rparr>"
  by (simp add: file_ehdr_def ehdr_object_def file_struct_def ehdr_layout_def Elf64_Ehdr_DEF_def
      swap_needed_def demo_elf_def demo_elf_store_def initial_store_def initial_globals_def
      demo_image_def segment_def ehdr_of_def native_val_def word_of_le_def)

lemma demo_bad_ehdr:
  "file_ehdr ELFCLASS64 (demo_elf demo_bad_image) 0 demo_bad_image (demo_elf_store demo_bad_image)
    = Ehdr64 \<lparr>eh_ident = [0, 0, 0, 0, 0, 0, 0, 0, 0, 0, 0, 0, 0, 0, 0, 0], eh_type = 0,
       eh_machine = 0, eh_version = 0, eh_entry = 0,
       eh_phoff = 0, eh_shoff = 0, eh_flags = 0, eh_ehsize = 0, eh_phentsize = 0, eh_phnum = 0,
       eh_shentsize = 0, eh_shnum = 1, eh_shstrndx = 0\<rparr>"
  by (simp add: file_ehdr_def ehdr_object_def file_struct_def ehdr_layout_def Elf64_Ehdr_DEF_def
      swap_needed_def demo_elf_def demo_elf_store_def initial_store_def initial_globals_def
      demo_bad_image_def segment_def ehdr_of_def native_val_def word_of_le_def)

lemma demo_shdr:
  "file_shdr ELFCLASS64 (demo_elf demo_image) 64 demo_image (demo_elf_store demo_image)
    = Shdr64 \<lparr>sh_name = 0, sh_type = 0, sh_flags = 0, sh_addr = 0, sh_offset = 0, sh_size = 0,
       sh_link = 0, sh_info = 70000, sh_addralign = 0, sh_entsize = 0\<rparr>"
  by (simp add: file_shdr_def shdr_object_def file_struct_def shdr_layout_def Elf64_Shdr_DEF_def
      swap_needed_def demo_elf_def demo_elf_store_def initial_store_def initial_globals_def
      demo_image_def segment_def shdr_of_def native_val_def word_of_le_def)

text \<open>
  C5. Reading the ELF header of a file decodes it and takes the counts from it: the number
  of program headers and the index of the section name table come from the header or, for
  their escape values, from section header 0 of the file.  With extended numbering of any
  kind the number of sections is always the size field of section header 0, even where the
  header holds it.
\<close>

theorem ehdr_read_counts:
  fixes allocate :: bool
  assumes "unread e ec elf b off S st" "std_class ec"
    and "eh = file_ehdr ec elf off S st" "sh = file_shdr ec elf (off + unat (ehdr_shoff eh)) S st"
    and "\<not> bad_counts eh"
    and "uses_extended eh \<Longrightarrow> unat (ehdr_shoff eh) + FSZ ec (shdr_layout ec) \<le> unat (e_rawsize elf)
      \<and> off + unat (ehdr_shoff eh) < 2 ^ 64 \<and> shdr_type sh = SHT_NULL"
  shows "\<exists>st' elf'. libelf_ehdr (Some e) ec allocate st = Some (Some eh, st')
    \<and> elfs st' e = Some elf' \<and> e_ehdr elf' = Some eh
    \<and> e_nphdr elf' = get_phnum (eh, sh) \<and> e_strndx elf' = get_shstrndx (eh, sh)
    \<and> e_nscn elf' = (if uses_extended eh then shdr_size sh else ucast (ehdr_shnum eh))"
  using libelf_ehdr_counts [OF assms(1,2), of allocate] assms(3-) by blast

theorem ehdr_read_counts_witness:
  "\<exists>st' elf' eh. libelf_ehdr (Some 0) ELFCLASS64 False (demo_elf_store demo_image) = Some (Some eh, st')
    \<and> elfs st' 0 = Some elf' \<and> ehdr_shnum eh = 5
    \<and> e_nphdr elf' = 70000 \<and> e_strndx elf' = 1 \<and> e_nscn elf' = 0"
proof -
  have len: "length demo_image = 128" by (simp add: demo_image_def)
  then have u: "unread 0 ELFCLASS64 (demo_elf demo_image) 0 0 demo_image (demo_elf_store demo_image)"
    by (intro demo_unread) simp_all
  have sz: "e_rawsize (demo_elf demo_image) = 128" using len by (simp add: demo_elf_def)
  show ?thesis
    using ehdr_read_counts [OF u _ refl refl, of False] ehdr_sizes(3) [of ELFCLASS64]
    by (simp add: std_class_def demo_ehdr demo_shdr bad_counts_def uses_extended_def get_phnum_def
        get_shstrndx_def sz) fastforce
qed

text \<open>
  A header with impossible counts is reported as malformed once only: the rejected
  header stays in the descriptor, and the next request for it succeeds.
\<close>

lemma ehdr_error_not_sticky:
  assumes "unread e ec elf b off S st" "std_class ec" "eh = file_ehdr ec elf off S st" "bad_counts eh"
  shows "\<exists>st'. libelf_ehdr (Some e) ec False st = Some (None, st')
    \<and> fst (elf_errno st') = error_code ELF_E_HEADER
    \<and> libelf_ehdr (Some e) ec False st' = Some (Some eh, st')"
proof -
  define elf1 where "elf1 = elf\<lparr>e_class := ec, e_ehdr := Some eh\<rparr>"
  define st' where "st' = set_error ELF_E_HEADER ((set_elf e elf1 st)\<lparr>fresh := Suc (fresh st)\<rparr>)"
  have "libelf_ehdr (Some e) ec False st = Some (None, st')"
    using libelf_ehdr_unread [OF assms(1,2), of False] assms(3,4) by (simp add: st'_def elf1_def)
  moreover have "libelf_ehdr (Some e) ec False st' = Some (Some eh, st')"
    using assms(1,2)
    by (intro libelf_ehdr_cached [of st' e elf1]) (auto simp: st'_def elf1_def unread_def)
  moreover have "fst (elf_errno st') = error_code ELF_E_HEADER"
    by (simp only: elf_errno_returns_and_clears st'_def set_error_os_frame LIBELF_ERROR_low)
  ultimately show ?thesis by blast
qed

lemma ehdr_error_not_sticky_witness:
  "\<exists>st' eh. libelf_ehdr (Some 0) ELFCLASS64 False (demo_elf_store demo_bad_image) = Some (None, st')
    \<and> fst (elf_errno st') = 5 \<and> libelf_ehdr (Some 0) ELFCLASS64 False st' = Some (Some eh, st')"
proof -
  have "unread 0 ELFCLASS64 (demo_elf demo_bad_image) 0 0 demo_bad_image (demo_elf_store demo_bad_image)"
    by (rule demo_unread) (simp_all add: demo_bad_image_def)
  then show ?thesis
    using ehdr_error_not_sticky [of 0 ELFCLASS64 "demo_elf demo_bad_image" 0 0 demo_bad_image
        "demo_elf_store demo_bad_image", OF _ _ refl]
    by (simp add: std_class_def demo_bad_ehdr bad_counts_def) blast
qed


definition demo_numbering :: store where
  "demo_numbering = (demo_elf_store [])
     \<lparr>elfs := [0 \<mapsto> (demo_elf [])\<lparr>e_cmd := ELF_C_WRITE, e_scn := [1],
         e_ehdr := Some (EHDR_INIT ELFCLASS64 (demo_elf_store []))\<rparr>],
      scns := [1 \<mapsto> new_scn 0 ELFCLASS64 0 (zero_shdr ELFCLASS64)]\<rparr>"


text \<open>
  Numbers the library itself writes are not always read back: with so many program
  headers that their number is in section header 0 and few enough sections that theirs is
  in the header, a reader uses extended numbering and takes the number of sections from
  section header 0, where it is 0.
\<close>

lemma phnum_escape_loses_shnum:
  assumes "PN_XNUM \<le> p" "0 < n" "n < SHN_LORESERVE" "std_class ec" "ehdr_class eh = ec"
  shows "uses_extended (fst (put_shnum n (put_phnum p (eh, zero_shdr ec))))
    \<and> get_shnum (put_shnum n (put_phnum p (eh, zero_shdr ec))) = n
    \<and> shdr_size (snd (put_shnum n (put_phnum p (eh, zero_shdr ec)))) = 0"
  using assms
  by (auto simp: number_simps uses_extended_def small_u16 small_u16_0 zero_shdr_def zero_Elf_Shdr_def
      not_le [symmetric] split: Ehdr.split Shdr.split)

lemma phnum_escape_loses_shnum_witness:
  "uses_extended (fst (put_shnum 5 (put_phnum 70000 (EHDR_INIT ELFCLASS64 demo_numbering, zero_shdr ELFCLASS64))))
    \<and> get_shnum (put_shnum 5 (put_phnum 70000 (EHDR_INIT ELFCLASS64 demo_numbering, zero_shdr ELFCLASS64))) = 5
    \<and> shdr_size (snd (put_shnum 5 (put_phnum 70000
         (EHDR_INIT ELFCLASS64 demo_numbering, zero_shdr ELFCLASS64)))) = 0"
  by (rule phnum_escape_loses_shnum)
    (simp_all add: std_class_def ehdr_class_def EHDR_INIT_def Let_def)

text \<open>
  \<open>elf_setshstrndx\<close> stores the index in the header, but \<open>elf_getshdrstrndx\<close> goes on
  returning the index that was read from the file.
\<close>

lemma setshstrndx_not_seen_by_get:
  assumes "header_ready e elf eh st" "numbering_ready e (e_class elf) s st"
  shows "\<exists>st'. elf_setshstrndx (Some e) i st = Some (True, st')
    \<and> elf_getshdrstrndx (Some e) st' = Some ((0, Some (e_strndx elf)), st')"
proof -
  have set_eq: "elf_setshstrndx (Some e) i st = libelf_setshstrndx e (e_class elf) i st"
    using header_ready_class [OF assms(1)] header_ready_ehdr [OF assms(1)]
    by (simp add: elf_setshstrndx_def)
  have e: "elfs st e = Some elf" "e_ehdr elf = Some eh" using assms(1) by (auto simp: header_ready_def)
  obtain sh where v: "numbers e s st = Some (eh, sh)"
    using assms(2) e by (auto simp: numbering_ready_def numbers_def)
  obtain st' elf' eh' where st': "libelf_setshstrndx e (e_class elf) i st = Some (True, st')"
    "elfs st' e = Some elf'" "elf' = elf\<lparr>e_ehdr := Some eh'\<rparr>" "ehdr_class eh' = e_class elf"
  proof -
    obtain ss scn where s: "e_scn elf = s # ss" "scns st s = Some scn" "s_ndx scn = 0"
      "shdr_class (s_shdr scn) = e_class elf"
      using assms(2) e by (auto simp: numbering_ready_def)
    have cls: "ehdr_class eh = e_class elf" using assms(1) by (simp add: header_ready_def)
    show ?thesis
    proof (cases "i \<ge> SHN_LORESERVE")
      case True
      show ?thesis
        using True s e cls
        by (intro that [OF _ _ refl, of _ "map_ehdr (\<lambda>h. h\<lparr>eh_shstrndx := ucast (SHN_XINDEX AND 0xFFFF)\<rparr>)
              (\<lambda>h. h\<lparr>eh_shstrndx := ucast (SHN_XINDEX AND 0xFFFF)\<rparr>) eh"])
          (auto simp: libelf_setshstrndx_def libelf_getscn0_def upd_shdr_eq elf_flagshdr_def
            elf_flagscn_def upd_ehdr_eq Let_def)
    next
      case False
      then show ?thesis
        using s e cls
        by (intro that [OF _ _ refl, of _ "map_ehdr (\<lambda>h. h\<lparr>eh_shstrndx := ucast (i AND 0xFFFF)\<rparr>)
              (\<lambda>h. h\<lparr>eh_shstrndx := ucast (i AND 0xFFFF)\<rparr>) eh"])
          (auto simp: libelf_setshstrndx_def upd_ehdr_eq)
    qed
  qed
  then have r': "header_ready e elf' eh' st'" using assms(1) by (simp add: header_ready_def)
  have "elf_getshdrstrndx (Some e) st' = Some ((0, Some (e_strndx elf)), st')"
    using header_ready_class [OF r'] header_ready_ehdr [OF r'] st'(2,3)
    by (simp add: elf_getshdrstrndx_def libelf_getshdrstrndx_def libelf_getcount_def)
  then show ?thesis using set_eq st'(1) by auto
qed

lemma setshstrndx_not_seen_by_get_witness:
  "\<exists>st'. elf_setshstrndx (Some 0) 7 demo_numbering = Some (True, st')
    \<and> elf_getshdrstrndx (Some 0) st' = Some ((0, Some 0), st')"
proof -
  have "header_ready 0 ((demo_elf [])\<lparr>e_cmd := ELF_C_WRITE, e_scn := [1],
         e_ehdr := Some (EHDR_INIT ELFCLASS64 (demo_elf_store []))\<rparr>)
      (EHDR_INIT ELFCLASS64 (demo_elf_store [])) demo_numbering"
    by (simp add: header_ready_def demo_numbering_def demo_elf_def new_elf_def std_class_def
        ehdr_class_def EHDR_INIT_def Let_def)
  moreover have "numbering_ready 0 ELFCLASS64 1 demo_numbering"
    by (simp add: numbering_ready_def demo_numbering_def new_scn_def ehdr_class_def shdr_class_def
        EHDR_INIT_def zero_shdr_def Let_def)
  ultimately show ?thesis
    using setshstrndx_not_seen_by_get [of 0 "(demo_elf [])\<lparr>e_cmd := ELF_C_WRITE, e_scn := [1],
         e_ehdr := Some (EHDR_INIT ELFCLASS64 (demo_elf_store []))\<rparr>"
        "EHDR_INIT ELFCLASS64 (demo_elf_store [])" demo_numbering 1 7]
    by (simp add: demo_elf_def new_elf_def)
qed

text \<open>
  Updating the header and getting it again gives what was written.  For a 32-bit
  object this needs addresses and offsets that fit; otherwise the update fails with a
  range error, and the fields that come before the offending one have been written.
\<close>

lemma update_ehdr_then_get:
  assumes "header_ready e elf eh st" "e_cmd elf \<noteq> ELF_C_READ"
    and "e_class elf = ELFCLASS32 \<Longrightarrow> ehdr_fits s"
  shows "\<exists>st'. gelf_update_ehdr (Some e) (Some s) st = Some (True, st')
    \<and> gelf_getehdr (Some e) True st' = Some (Some s, st')"
proof -
  have cls: "std_class (e_class elf)" using assms(1) by (simp add: header_ready_def)
  show ?thesis
  proof (cases eh)
    case (Ehdr32 h)
    let ?elf = "elf\<lparr>e_flags := e_flags elf OR ELF_F_DIRTY, e_ehdr := Some (Ehdr32 (snd (ehdr_narrow s h)))\<rparr>"
    have f: "ehdr_fits s" using assms(1,3) Ehdr32 by (auto simp: header_ready_def ehdr_class_def)
    have "header_ready e ?elf (Ehdr32 (snd (ehdr_narrow s h))) (set_elf e ?elf st)"
      using assms(1) Ehdr32 by (auto simp: header_ready_def ehdr_class_def)
    from header_ready_ehdr [OF this] show ?thesis
      using gelf_update_ehdr_eq [OF assms(1,2), of s] Ehdr32 f cls
      by (auto simp: gelf_getehdr_def ehdr_narrow_widen std_class_def Let_def)
  next
    case (Ehdr64 h)
    let ?elf = "elf\<lparr>e_flags := e_flags elf OR ELF_F_DIRTY, e_ehdr := Some (Ehdr64 s)\<rparr>"
    have "header_ready e ?elf (Ehdr64 s) (set_elf e ?elf st)"
      using assms(1) Ehdr64 by (auto simp: header_ready_def ehdr_class_def)
    from header_ready_ehdr [OF this] show ?thesis
      using gelf_update_ehdr_eq [OF assms(1,2), of s] Ehdr64 cls
      by (auto simp: gelf_getehdr_def std_class_def Let_def)
  qed
qed

definition demo_update :: "64 Elf_Ehdr" where
  "demo_update = \<lparr>eh_ident = replicate 16 0, eh_type = 1, eh_machine = 62, eh_version = 1, eh_entry = 0,
     eh_phoff = 0, eh_shoff = 4096, eh_flags = 0, eh_ehsize = 64, eh_phentsize = 0, eh_phnum = 0,
     eh_shentsize = 64, eh_shnum = 3, eh_shstrndx = 2\<rparr>"

lemma update_ehdr_then_get_witness:
  "\<exists>st'. gelf_update_ehdr (Some 0) (Some demo_update) demo_numbering = Some (True, st')
    \<and> gelf_getehdr (Some 0) True st' = Some (Some demo_update, st')"
proof -
  have "header_ready 0 ((demo_elf [])\<lparr>e_cmd := ELF_C_WRITE, e_scn := [1],
         e_ehdr := Some (EHDR_INIT ELFCLASS64 (demo_elf_store []))\<rparr>)
      (EHDR_INIT ELFCLASS64 (demo_elf_store [])) demo_numbering"
    by (simp add: header_ready_def demo_numbering_def demo_elf_def new_elf_def std_class_def
        ehdr_class_def EHDR_INIT_def Let_def)
  then show ?thesis by (rule update_ehdr_then_get) (simp_all add: demo_elf_def)
qed

end
