(* ===== verification/Elf_Sections.thy ===== *)
theory Elf_Sections
  imports Elf_Header
begin

text \<open>
  Section descriptors and section headers: \<open>elf_scn.c\<close>, \<open>libelf_shdr.c\<close> and
  \<open>gelf_shdr.c\<close>.  The list of an ELF descriptor's sections is \<open>e_scn\<close>; a pointer to a
  section header is the number of the section it belongs to.
\<close>

section \<open>Definitions\<close>

text \<open>\<open>CHECK_EHDR\<close>: the section header table lies in the file.\<close>

definition check_ehdr :: "Elf \<Rightarrow> u64 \<Rightarrow> u64 \<Rightarrow> u64 \<Rightarrow> u16 \<Rightarrow> bool" where
  "check_ehdr elf fsz shnum shoff shentsize \<longleftrightarrow>
     \<not> (shoff > e_rawsize elf \<or> fsz \<noteq> ucast shentsize \<or> shnum > -1 div fsz
        \<or> fsz * shnum > e_rawsize elf - shoff)"

primrec ehdr_shentsize :: "Ehdr \<Rightarrow> u16" where
  "ehdr_shentsize (Ehdr32 h) = eh_shentsize h"
| "ehdr_shentsize (Ehdr64 h) = eh_shentsize h"

text \<open>The loop over the table; \<open>n\<close> is the number of iterations left.\<close>

fun load_sections ::
  "nat \<Rightarrow> elf_ref \<Rightarrow> int \<Rightarrow> u64 \<Rightarrow> bool \<Rightarrow> u64 \<Rightarrow> ptr \<Rightarrow> store \<Rightarrow> (bool \<times> store) option"
where
  "load_sections 0 e ec fsz swap i src st = Some (True, st)"
| "load_sections (Suc n) e ec fsz swap i src st =
     do { (s, st) \<leftarrow> libelf_allocate_scn e i st;
          case s of None \<Rightarrow> Some (False, st)
          | Some s \<Rightarrow>
              do { ((_, vs), st) \<leftarrow> load_objects ELF_T_SHDR ec 64 src 1 swap st;
                   scn \<leftarrow> scns st s;
                   let shdr = shdr_object ec (host_order st) (hd vs);
                   let st = set_scn s (scn\<lparr>s_shdr := shdr, s_offset := shdr_offset shdr,
                     s_rawoff := shdr_offset shdr, s_size := shdr_size shdr\<rparr>) st;
                   load_sections n e ec fsz swap (i + 1) (ptr_add src fsz) st } }"

definition libelf_load_section_headers :: "elf_ref \<Rightarrow> Ehdr \<Rightarrow> store \<Rightarrow> (bool \<times> store) option" where
  "libelf_load_section_headers e eh st =
     do { elf \<leftarrow> elfs st e;
          assert_that (e_flags elf AND LIBELF_F_SHDRS_LOADED = 0);
          let ec = e_class elf;
          let (fsz, st) = libelf_fsize ELF_T_SHDR ec (e_version elf) 1 st;
          assert_that (fsz > 0);
          let shnum = e_nscn elf;
          let shoff = ehdr_shoff eh;
          if \<not> check_ehdr elf fsz shnum shoff (ehdr_shentsize eh)
          then Some (False, set_error ELF_E_HEADER st)
          else
            do { let swap = swap_needed elf st;
                 let src = ptr_add (e_rawfile elf) shoff;
                 assert_that (length (e_scn elf) \<le> 1);
                 let (i, src) = (if e_scn elf = [] then (0, src) else (1, ptr_add src fsz));
                 (ok, st) \<leftarrow> load_sections (unat shnum - unat i) e ec fsz swap i src st;
                 if \<not> ok then Some (False, st)
                 else
                   do { elf \<leftarrow> elfs st e;
                        Some (True, set_elf e (elf\<lparr>e_flags := e_flags elf OR LIBELF_F_SHDRS_LOADED\<rparr>) st) } } }"

fun find_scn :: "scn_ref list \<Rightarrow> u64 \<Rightarrow> store \<Rightarrow> (scn_ref option) option" where
  "find_scn [] index st = Some None"
| "find_scn (s # ss) index st =
     do { scn \<leftarrow> scns st s; if s_ndx scn = index then Some (Some s) else find_scn ss index st }"

text \<open>The condition under which a section operation brings in the section headers first.\<close>

definition load_if_needed :: "elf_ref \<Rightarrow> Ehdr \<Rightarrow> store \<Rightarrow> (bool \<times> store) option" where
  "load_if_needed e eh st =
     do { elf \<leftarrow> elfs st e;
          if e_cmd elf \<noteq> ELF_C_WRITE \<and> e_flags elf AND LIBELF_F_SHDRS_LOADED = 0
          then libelf_load_section_headers e eh st else Some (True, st) }"

definition elf_getscn :: "elf_ref option \<Rightarrow> u64 \<Rightarrow> store \<Rightarrow> (scn_ref option \<times> store) option" where
  "elf_getscn er index st =
     do { ec \<leftarrow> elf_class_of er st;
          case (er, ec) of
            (Some e, Some ec) \<Rightarrow>
              do { (eh, st) \<leftarrow> libelf_ehdr er ec False st;
                   case eh of None \<Rightarrow> Some (None, st)
                   | Some eh \<Rightarrow>
                       do { (ok, st) \<leftarrow> load_if_needed e eh st;
                            if \<not> ok then Some (None, st)
                            else
                              do { elf \<leftarrow> elfs st e;
                                   r \<leftarrow> find_scn (e_scn elf) index st;
                                   case r of Some s \<Rightarrow> Some (Some s, st)
                                   | None \<Rightarrow> Some (None, set_error ELF_E_ARGUMENT st) } } }
          | _ \<Rightarrow> Some (None, set_error ELF_E_ARGUMENT st) }"

definition elf_ndxscn :: "scn_ref option \<Rightarrow> store \<Rightarrow> (u64 \<times> store) option" where
  "elf_ndxscn sr st =
     (case sr of None \<Rightarrow> Some (SHN_UNDEF, set_error ELF_E_ARGUMENT st)
      | Some s \<Rightarrow> do { scn \<leftarrow> scns st s; Some (s_ndx scn, st) })"

text \<open>The end of \<open>elf_newscn\<close>: the section numbered \<open>e_nscn\<close> is appended.\<close>

definition append_scn :: "elf_ref \<Rightarrow> store \<Rightarrow> (scn_ref option \<times> store) option" where
  "append_scn e st =
     do { elf \<leftarrow> elfs st e;
          assert_that (e_nscn elf > 0);
          (s, st) \<leftarrow> libelf_allocate_scn e (e_nscn elf) st;
          case s of None \<Rightarrow> Some (None, st)
          | Some _ \<Rightarrow>
              do { elf \<leftarrow> elfs st e;
                   let st = set_elf e (elf\<lparr>e_nscn := e_nscn elf + 1\<rparr>) st;
                   (_, st) \<leftarrow> elf_flagscn s ELF_C_SET ELF_F_DIRTY st;
                   Some (s, st) } }"

definition elf_newscn :: "elf_ref option \<Rightarrow> store \<Rightarrow> (scn_ref option \<times> store) option" where
  "elf_newscn er st =
     (case er of None \<Rightarrow> Some (None, set_error ELF_E_ARGUMENT st)
      | Some e \<Rightarrow>
          do { elf \<leftarrow> elfs st e;
               let ec = e_class elf;
               if e_kind elf \<noteq> ELF_K_ELF then Some (None, set_error ELF_E_ARGUMENT st)
               else if ec \<noteq> ELFCLASS32 \<and> ec \<noteq> ELFCLASS64 then Some (None, set_error ELF_E_CLASS st)
               else
                 do { (eh, st) \<leftarrow> libelf_ehdr er ec False st;
                      case eh of None \<Rightarrow> Some (None, st)
                      | Some eh \<Rightarrow>
                          do { (ok, st) \<leftarrow> load_if_needed e eh st;
                               if \<not> ok then Some (None, st)
                               else
                                 do { elf \<leftarrow> elfs st e;
                                      if e_scn elf \<noteq> [] then append_scn e st
                                      else
                                        do { assert_that (e_nscn elf = 0);
                                             (s0, st) \<leftarrow> libelf_allocate_scn e SHN_UNDEF st;
                                             case s0 of None \<Rightarrow> Some (None, st)
                                             | Some _ \<Rightarrow>
                                                 do { elf \<leftarrow> elfs st e;
                                                      append_scn e
                                                        (set_elf e (elf\<lparr>e_nscn := e_nscn elf + 1\<rparr>) st) } } } } } })"

text \<open>The element after one of a list; a section is always on its descriptor's list.\<close>

fun next_in :: "scn_ref \<Rightarrow> scn_ref list \<Rightarrow> (scn_ref option) option" where
  "next_in s [] = None"
| "next_in s (t # ts) = (if s = t then Some (case ts of [] \<Rightarrow> None | u # us \<Rightarrow> Some u) else next_in s ts)"

definition elf_nextscn :: "elf_ref option \<Rightarrow> scn_ref option \<Rightarrow> store \<Rightarrow> (scn_ref option \<times> store) option" where
  "elf_nextscn er sr st =
     (case er of None \<Rightarrow> Some (None, set_error ELF_E_ARGUMENT st)
      | Some e \<Rightarrow>
          do { elf \<leftarrow> elfs st e;
               if e_kind elf \<noteq> ELF_K_ELF then Some (None, set_error ELF_E_ARGUMENT st)
               else
                 case sr of None \<Rightarrow> elf_getscn er 1 st
                 | Some s \<Rightarrow>
                     do { scn \<leftarrow> scns st s;
                          if s_elf scn \<noteq> Some e then Some (None, set_error ELF_E_ARGUMENT st)
                          else do { r \<leftarrow> next_in s (e_scn elf); Some (r, st) } } })"

definition libelf_getshdr :: "scn_ref option \<Rightarrow> int \<Rightarrow> store \<Rightarrow> (scn_ref option \<times> store) option" where
  "libelf_getshdr sr ec st =
     (case sr of None \<Rightarrow> Some (None, set_error ELF_E_ARGUMENT st)
      | Some s \<Rightarrow>
          do { scn \<leftarrow> scns st s;
               case s_elf scn of None \<Rightarrow> Some (None, set_error ELF_E_ARGUMENT st)
               | Some e \<Rightarrow>
                   do { elf \<leftarrow> elfs st e;
                        if e_kind elf \<noteq> ELF_K_ELF then Some (None, set_error ELF_E_ARGUMENT st)
                        else
                          let ec = (if ec = ELFCLASSNONE then e_class elf else ec)
                          in if ec \<noteq> e_class elf then Some (None, set_error ELF_E_CLASS st)
                             else Some (Some s, st) } })"

definition elf32_getshdr :: "scn_ref option \<Rightarrow> store \<Rightarrow> (scn_ref option \<times> store) option" where
  "elf32_getshdr s st = libelf_getshdr s ELFCLASS32 st"

definition elf64_getshdr :: "scn_ref option \<Rightarrow> store \<Rightarrow> (scn_ref option \<times> store) option" where
  "elf64_getshdr s st = libelf_getshdr s ELFCLASS64 st"

definition shdr_widen :: "32 Elf_Shdr \<Rightarrow> GElf_Shdr" where
  "shdr_widen h =
     \<lparr>sh_name = sh_name h, sh_type = sh_type h, sh_flags = ucast (sh_flags h),
      sh_addr = ucast (sh_addr h), sh_offset = ucast (sh_offset h), sh_size = ucast (sh_size h),
      sh_link = sh_link h, sh_info = sh_info h, sh_addralign = ucast (sh_addralign h),
      sh_entsize = ucast (sh_entsize h)\<rparr>"

definition gelf_getshdr :: "scn_ref option \<Rightarrow> bool \<Rightarrow> store \<Rightarrow> (GElf_Shdr option \<times> store) option" where
  "gelf_getshdr sr d st =
     (if \<not> d then Some (None, set_error ELF_E_ARGUMENT st)
      else
        do { (sh, st) \<leftarrow> libelf_getshdr sr ELFCLASSNONE st;
             case sh of None \<Rightarrow> Some (None, st)
             | Some s \<Rightarrow>
                 do { scn \<leftarrow> scns st s;
                      e \<leftarrow> s_elf scn;
                      elf \<leftarrow> elfs st e;
                      assert_that (e_class elf = ELFCLASS32 \<or> e_class elf = ELFCLASS64);
                      case s_shdr scn of
                        Shdr32 h \<Rightarrow> do { assert_that (e_class elf = ELFCLASS32); Some (Some (shdr_widen h), st) }
                      | Shdr64 h \<Rightarrow> do { assert_that (e_class elf = ELFCLASS64); Some (Some h, st) } } })"

text \<open>The copies of \<open>gelf_update_shdr\<close> into a 32-bit header, in their order.\<close>

definition shdr_narrow :: "GElf_Shdr \<Rightarrow> 32 Elf_Shdr \<Rightarrow> bool \<times> 32 Elf_Shdr" where
  "shdr_narrow s h =
     (LIBELF_COPY_U32 (sh_entsize s) (\<lambda>v h. h\<lparr>sh_entsize := v\<rparr>)
     (LIBELF_COPY_U32 (sh_addralign s) (\<lambda>v h. h\<lparr>sh_addralign := v\<rparr>)
     (copy_field (\<lambda>h. h\<lparr>sh_link := sh_link s, sh_info := sh_info s\<rparr>)
     (LIBELF_COPY_U32 (sh_size s) (\<lambda>v h. h\<lparr>sh_size := v\<rparr>)
     (LIBELF_COPY_U32 (sh_offset s) (\<lambda>v h. h\<lparr>sh_offset := v\<rparr>)
     (LIBELF_COPY_U32 (sh_addr s) (\<lambda>v h. h\<lparr>sh_addr := v\<rparr>)
     (LIBELF_COPY_U32 (sh_flags s) (\<lambda>v h. h\<lparr>sh_flags := v\<rparr>)
     (copy_field (\<lambda>h. h\<lparr>sh_name := sh_name s, sh_type := sh_type s\<rparr>) (True, h)))))))))"

definition gelf_update_shdr :: "scn_ref option \<Rightarrow> GElf_Shdr option \<Rightarrow> store \<Rightarrow> (bool \<times> store) option" where
  "gelf_update_shdr sr hr st =
     (case (hr, sr) of
        (Some h, Some s) \<Rightarrow>
          do { scn \<leftarrow> scns st s;
               ec \<leftarrow> elf_class_of (s_elf scn) st;
               case (s_elf scn, ec) of
                 (Some e, Some ec) \<Rightarrow>
                   do { elf \<leftarrow> elfs st e;
                        if e_cmd elf = ELF_C_READ then Some (False, set_error ELF_E_MODE st)
                        else
                          do { (_, st) \<leftarrow> elf_flagscn sr ELF_C_SET ELF_F_DIRTY st;
                               scn \<leftarrow> scns st s;
                               if ec = ELFCLASS64
                               then Some (True, set_scn s (scn\<lparr>s_shdr := Shdr64 h\<rparr>) st)
                               else
                                 case s_shdr scn of Shdr64 _ \<Rightarrow> None
                                 | Shdr32 h32 \<Rightarrow>
                                     (let (ok, h') = shdr_narrow h h32;
                                          st = set_scn s (scn\<lparr>s_shdr := Shdr32 h'\<rparr>) st
                                      in Some (if ok then (True, st) else (False, set_error ELF_E_RANGE st))) } }
               | _ \<Rightarrow> Some (False, set_error ELF_E_ARGUMENT st) }
      | _ \<Rightarrow> Some (False, set_error ELF_E_ARGUMENT st))"

section \<open>Loading the table\<close>

text \<open>No block has been allocated under the numbers still to be given out.\<close>

definition fresh_mem :: "store \<Rightarrow> bool" where
  "fresh_mem st \<longleftrightarrow> (\<forall>b \<ge> fresh st. mem st b = None)"

definition loaded_scn :: "elf_ref \<Rightarrow> u64 \<Rightarrow> Shdr \<Rightarrow> Elf_Scn" where
  "loaded_scn e ndx sh = \<lparr>s_shdr = sh, s_data = [], s_rawdata = [], s_elf = Some e, s_flags = 0,
     s_ndx = ndx, s_offset = shdr_offset sh, s_rawoff = shdr_offset sh, s_size = shdr_size sh\<rparr>"

lemma file_shdr_cong:
  "e_byteorder elf = e_byteorder elf' \<Longrightarrow> globals st = globals st'
    \<Longrightarrow> file_shdr ec elf off S st = file_shdr ec elf' off S st'"
  by (simp add: file_shdr_def swap_needed_def)

lemma load_sections_step:
  fixes i :: u64
  assumes "elfs st e = Some elf" "e_class elf = ec" "std_class ec" "mem st b = Some S"
    and "off + FSZ ec (shdr_layout ec) \<le> length S" "oom st = []" "fresh_mem st"
  defines "s \<equiv> fresh st"
  defines "st' \<equiv> (set_elf e (elf\<lparr>e_scn := e_scn elf @ [s]\<rparr>)
      (set_scn s (loaded_scn e i (file_shdr ec elf off S st)) st))\<lparr>fresh := Suc (Suc s)\<rparr>"
  shows "load_sections (Suc n) e ec fsz (swap_needed elf st) i (Some (b, off)) st
    = load_sections n e ec fsz (swap_needed elf st) (i + 1) (ptr_add (Some (b, off)) fsz) st'"
proof -
  let ?f = "FSZ ec (shdr_layout ec)" and ?m = "struct_size ec (shdr_layout ec)"
  have m64: "?m \<le> 64" using ehdr_sizes [OF assms(3)] by auto
  define st0 where "st0 = (set_elf e (elf\<lparr>e_scn := e_scn elf @ [s]\<rparr>)
      (set_scn s (new_scn e ec i (zero_shdr ec)) st))\<lparr>fresh := Suc s\<rparr>"
  have alloc: "libelf_allocate_scn e i st = Some (Some s, st0)"
    using assms(1,2,6) by (simp add: libelf_allocate_scn_def st0_def s_def new_scn_def Let_def)
  define st1 where "st1 = st0\<lparr>fresh := Suc (Suc s)\<rparr>"
  have none: "mem st (Suc s) = None" using assms(7) by (simp add: fresh_mem_def s_def)
  have load: "load_objects ELF_T_SHDR ec 64 (Some (b, off)) 1 (swap_needed elf st) st0
    = Some ((True, [file_struct (swap_needed elf st) ec (shdr_layout ec) (segment off ?f S)]), st1)"
    using load_objects_correct [OF header_layouts(2) assms(3), of st0 b S off 1 64]
      assms(4,5) none m64
    by (simp add: elem_def st0_def st1_def)
  have sh: "shdr_object ec (host_order st1)
      (file_struct (swap_needed elf st) ec (shdr_layout ec) (segment off ?f S)) = file_shdr ec elf off S st"
    by (simp add: file_shdr_def st1_def st0_def)
  have scn: "scns st1 s = Some (new_scn e ec i (zero_shdr ec))" by (simp add: st1_def st0_def)
  have upd: "set_scn s ((new_scn e ec i (zero_shdr ec))\<lparr>s_shdr := sh, s_offset := shdr_offset sh,
      s_rawoff := shdr_offset sh, s_size := shdr_size sh\<rparr>) st1
    = (set_elf e (elf\<lparr>e_scn := e_scn elf @ [s]\<rparr>) (set_scn s (loaded_scn e i sh) st))\<lparr>fresh := Suc (Suc s)\<rparr>" for sh
    by (cases st) (simp add: st0_def st1_def new_scn_def loaded_scn_def set_scn_def set_elf_def)
  show ?thesis
    by (simp add: alloc load sh scn upd st'_def Let_def)
qed

text \<open>What a complete run of the loop leaves behind, section by section.\<close>

definition table_loaded ::
  "elf_ref \<Rightarrow> int \<Rightarrow> Elf \<Rightarrow> nat \<Rightarrow> byte list \<Rightarrow> nat \<Rightarrow> nat \<Rightarrow> store \<Rightarrow> store \<Rightarrow> bool"
where
  "table_loaded e ec elf off S i n st st' \<longleftrightarrow>
     elfs st' = (elfs st)(e \<mapsto> elf\<lparr>e_scn := e_scn elf @ map (\<lambda>k. fresh st + 2 * k) [0..<n]\<rparr>)
     \<and> (\<forall>k<n. scns st' (fresh st + 2 * k)
          = Some (loaded_scn e (of_nat (i + k)) (file_shdr ec elf (off + k * FSZ ec (shdr_layout ec)) S st)))
     \<and> (\<forall>s<fresh st. scns st' s = scns st s)
     \<and> mem st' = mem st \<and> datas st' = datas st \<and> globals st' = globals st \<and> oom st' = oom st
     \<and> fresh st' = fresh st + 2 * n"

lemma load_sections_correct:
  assumes "elfs st e = Some elf" "e_class elf = ec" "std_class ec" "mem st b = Some S"
    and "off + n * FSZ ec (shdr_layout ec) \<le> length S" "length S < 2 ^ 64" "oom st = []" "fresh_mem st"
    and "swap = swap_needed elf st" "fsz = of_nat (FSZ ec (shdr_layout ec))"
  shows "\<exists>st'. load_sections n e ec fsz swap (of_nat i) (Some (b, off)) st = Some (True, st')
    \<and> table_loaded e ec elf off S i n st st'"
  using assms
proof (induction n arbitrary: elf off i st)
  case 0
  then show ?case
    by (intro exI [of _ st]) (simp add: table_loaded_def fun_upd_idem)
next
  case (Suc n)
  let ?F = "FSZ ec (shdr_layout ec)"
  let ?sh = "file_shdr ec elf off S st" and ?s = "fresh st"
  define elf1 where "elf1 = elf\<lparr>e_scn := e_scn elf @ [?s]\<rparr>"
  define st1 where "st1 = (set_elf e elf1
      (set_scn ?s (loaded_scn e (of_nat i) ?sh) st))\<lparr>fresh := Suc (Suc ?s)\<rparr>"
  have fsz: "unat fsz = ?F" using ehdr_sizes [OF Suc.prems(3)] Suc.prems(10) by auto
  have next_ptr: "ptr_add (Some (b, off)) fsz = Some (b, off + ?F)"
    using Suc.prems(5,6) fsz by (simp add: ptr_add_def)
  have step: "load_sections (Suc n) e ec fsz swap (of_nat i) (Some (b, off)) st
      = load_sections n e ec fsz swap (of_nat (Suc i)) (Some (b, off + ?F)) st1"
    unfolding Suc.prems(9)
    using load_sections_step [OF Suc.prems(1-4) _ Suc.prems(7,8), of off n fsz "of_nat i"] Suc.prems(5)
    by (simp only: next_ptr elf1_def st1_def) (simp add: add.commute)
  have shift: "file_shdr ec elf1 o' S st1 = file_shdr ec elf o' S st" for o'
    by (rule file_shdr_cong) (simp_all add: elf1_def st1_def)
  have IH: "\<exists>st'. load_sections n e ec fsz swap (of_nat (Suc i)) (Some (b, off + ?F)) st1 = Some (True, st')
      \<and> table_loaded e ec elf1 (off + ?F) S (Suc i) n st1 st'"
    using Suc.prems by (intro Suc.IH) (auto simp: st1_def elf1_def fresh_mem_def swap_needed_def)
  then obtain st' where st': "load_sections n e ec fsz swap (of_nat (Suc i)) (Some (b, off + ?F)) st1
      = Some (True, st')" "table_loaded e ec elf1 (off + ?F) S (Suc i) n st1 st'" by blast
  have refs: "map (\<lambda>k. ?s + 2 * k) [0..<Suc n] = ?s # map (\<lambda>k. fresh st1 + 2 * k) [0..<n]"
    by (simp add: upt_conv_Cons st1_def del: upt_Suc flip: map_Suc_upt)
  have at: "scns st' (?s + 2 * k)
      = Some (loaded_scn e (of_nat (i + k)) (file_shdr ec elf (off + k * ?F) S st))" if "k < Suc n" for k
  proof (cases k)
    case 0
    then show ?thesis using st'(2) by (simp add: table_loaded_def st1_def)
  next
    case (Suc j)
    then have "scns st' (fresh st1 + 2 * j) = Some (loaded_scn e (of_nat (Suc i + j))
        (file_shdr ec elf1 (off + ?F + j * ?F) S st1))"
      using st'(2) that by (simp only: table_loaded_def)
    moreover have "fresh st1 + 2 * j = ?s + 2 * k" "Suc i + j = i + k" "off + ?F + j * ?F = off + k * ?F"
      using Suc by (simp_all add: st1_def)
    ultimately show ?thesis by (simp only: shift)
  qed
  have "table_loaded e ec elf off S i (Suc n) st st'"
    unfolding table_loaded_def refs using st'(2) at by (auto simp: table_loaded_def st1_def elf1_def)
  then show ?case using step st'(1) by auto
qed

section \<open>The list of sections\<close>

text \<open>
  The sections of a descriptor are distinct objects that belong to it and are numbered by
  their position in the list.
\<close>

definition section_list :: "elf_ref \<Rightarrow> scn_ref list \<Rightarrow> store \<Rightarrow> bool" where
  "section_list e ss st \<longleftrightarrow>
     distinct ss \<and> length ss < 2 ^ 64
     \<and> (\<forall>i<length ss. \<exists>scn. scns st (ss ! i) = Some scn \<and> s_ndx scn = of_nat i \<and> s_elf scn = Some e)
     \<and> (\<forall>s\<in>set ss. s < fresh st)"

lemma section_list_mono:
  assumes "section_list e ss st" "fresh st \<le> fresh st'"
    and "\<And>s scn. s \<in> set ss \<Longrightarrow> scns st s = Some scn
      \<Longrightarrow> \<exists>scn'. scns st' s = Some scn' \<and> s_ndx scn' = s_ndx scn \<and> s_elf scn' = s_elf scn"
  shows "section_list e ss st'"
  unfolding section_list_def
proof (intro conjI allI impI ballI)
  fix i assume i: "i < length ss"
  then obtain scn where scn: "scns st (ss ! i) = Some scn" "s_ndx scn = of_nat i" "s_elf scn = Some e"
    using assms(1) by (auto simp: section_list_def)
  show "\<exists>scn. scns st' (ss ! i) = Some scn \<and> s_ndx scn = of_nat i \<and> s_elf scn = Some e"
    using assms(3) [OF nth_mem [OF i] scn(1)] scn(2,3) by auto
next
  fix s assume "s \<in> set ss"
  then show "s < fresh st'" using assms(1,2) by (auto simp: section_list_def)
qed (use assms(1) in \<open>simp_all add: section_list_def\<close>)

lemma find_scn_section_list:
  assumes "section_list e ss st"
  shows "find_scn ss i st = Some (if unat i < length ss then Some (ss ! unat i) else None)"
proof -
  have "find_scn (drop k ss) i st
      = Some (if k \<le> unat i \<and> unat i < length ss then Some (ss ! unat i) else None)" if "k \<le> length ss" for k
    using that
  proof (induction "length ss - k" arbitrary: k)
    case 0
    then show ?case by simp
  next
    case (Suc d)
    then have k: "k < length ss" by simp
    then obtain scn where scn: "scns st (ss ! k) = Some scn" "s_ndx scn = of_nat k"
      using assms by (auto simp: section_list_def)
    have "k < 2 ^ 64" using k assms by (simp add: section_list_def)
    then have "(of_nat k = i) = (k = unat i)"
      by (auto simp: unat_of_nat take_bit_nat_eq_self)
    moreover have "find_scn (drop (Suc k) ss) i st
        = Some (if Suc k \<le> unat i \<and> unat i < length ss then Some (ss ! unat i) else None)"
      using Suc by (intro Suc(1)) auto
    ultimately show ?case
      using k scn by (subst Cons_nth_drop_Suc [OF k, symmetric]) auto
  qed
  from this [of 0] show ?thesis by simp
qed

text \<open>Appending a new section.\<close>

lemma allocate_scn_appends:
  assumes "elfs st e = Some elf" "section_list e (e_scn elf) st" "oom st = []"
    and "Suc (length (e_scn elf)) < 2 ^ 64"
  defines "s \<equiv> fresh st" and "n \<equiv> of_nat (length (e_scn elf))"
  defines "st' \<equiv> (set_elf e (elf\<lparr>e_scn := e_scn elf @ [s]\<rparr>)
      (set_scn s (new_scn e (e_class elf) n (zero_shdr (e_class elf))) st))\<lparr>fresh := Suc s\<rparr>"
  shows "libelf_allocate_scn e n st = Some (Some s, st')" "section_list e (e_scn elf @ [s]) st'"
proof -
  show "libelf_allocate_scn e n st = Some (Some s, st')"
    using assms(1,3) by (simp add: libelf_allocate_scn_def st'_def s_def new_scn_def Let_def)
  have old: "x < fresh st" if "x \<in> set (e_scn elf)" for x using assms(2) that by (simp add: section_list_def)
  then have "s \<notin> set (e_scn elf)" by (auto simp: s_def)
  moreover from this have "e_scn elf ! i \<noteq> s" if "i < length (e_scn elf)" for i
    using that nth_mem by metis
  ultimately show "section_list e (e_scn elf @ [s]) st'"
    using assms(2,4) old
    unfolding section_list_def
    by (auto simp: st'_def s_def n_def new_scn_def nth_append less_Suc_eq)
qed

text \<open>The sections that a successor function visits from one on, in at most \<open>n\<close> steps.\<close>

fun walk ::
  "('e \<Rightarrow> 's \<Rightarrow> 'st \<Rightarrow> ('s option \<times> 'st) option) \<Rightarrow> nat \<Rightarrow> 'e \<Rightarrow> 's \<Rightarrow> 'st \<Rightarrow> 's list option"
where
  "walk succ 0 e s st = None"
| "walk succ (Suc n) e s st =
     (case succ e s st of Some (Some t, st') \<Rightarrow> map_option ((#) s) (walk succ n e t st')
      | Some (None, _) \<Rightarrow> Some [s] | None \<Rightarrow> None)"

text \<open>
  The interface of a numbered list of sections, which both libraries provide: \<open>ready e ss st\<close> says
  that the list of \<open>e\<close> is \<open>ss\<close> and complete, \<open>missed\<close> is what a lookup behind the end does to the
  error number, and a list that is shorter than \<open>limit\<close> can grow.
\<close>

locale numbered_sections =
  fixes lookup :: "'e \<Rightarrow> u64 \<Rightarrow> 'st \<Rightarrow> ('s option \<times> 'st) option"
    and add :: "'e \<Rightarrow> 'st \<Rightarrow> ('s option \<times> 'st) option"
    and number :: "'s \<Rightarrow> 'st \<Rightarrow> u64 option"
    and succ :: "'e \<Rightarrow> 's \<Rightarrow> 'st \<Rightarrow> ('s option \<times> 'st) option"
    and ready :: "'e \<Rightarrow> 's list \<Rightarrow> 'st \<Rightarrow> bool"
    and missed :: "'st \<Rightarrow> 'st"
    and limit :: nat
  assumes bounded: "ready e ss st \<Longrightarrow> length ss < 2 ^ 64" and limit: "limit \<le> 2 ^ 64"
    and number: "ready e ss st \<Longrightarrow> j < length ss \<Longrightarrow> number (ss ! j) st = Some (of_nat j)"
    and hit: "ready e ss st \<Longrightarrow> unat i < length ss \<Longrightarrow> lookup e i st = Some (Some (ss ! unat i), st)"
    and miss: "ready e ss st \<Longrightarrow> ss \<noteq> [] \<Longrightarrow> length ss \<le> unat i
      \<Longrightarrow> lookup e i st = Some (None, missed st)"
    and add: "ready e ss st \<Longrightarrow> ss \<noteq> [] \<Longrightarrow> Suc (length ss) < limit
      \<Longrightarrow> \<exists>s st'. add e st = Some (Some s, st') \<and> ready e (ss @ [s]) st'"
    and succ: "ready e ss st \<Longrightarrow> j < length ss
      \<Longrightarrow> succ e (ss ! j) st = Some (if Suc j < length ss then Some (ss ! Suc j) else None, st)"
begin

lemma lookup_number:
  assumes "ready e ss st" "s \<in> set ss"
  shows "\<exists>n. number s st = Some n \<and> lookup e n st = Some (Some s, st)"
proof -
  obtain i where i: "i < length ss" "s = ss ! i" using assms(2) by (auto simp: in_set_conv_nth)
  then have "i < 2 ^ 64" using bounded [OF assms(1)] by simp
  then have "unat (of_nat i :: u64) = i" by (simp add: unat_of_nat take_bit_nat_eq_self)
  then show ?thesis using number [OF assms(1) i(1)] hit [OF assms(1), of "of_nat i"] i by auto
qed

lemma number_inj:
  assumes "ready e ss st" "i < length ss" "j < length ss" "number (ss ! i) st = number (ss ! j) st"
  shows "i = j"
proof -
  have "i < 2 ^ 64" "j < 2 ^ 64" using bounded [OF assms(1)] assms(2,3) by simp_all
  moreover have "(of_nat i :: u64) = of_nat j"
    using number [OF assms(1)] assms(2,3,4) by simp
  moreover have "unat (of_nat k :: u64) = k" if "k < 2 ^ 64" for k
    using that by (simp add: unat_of_nat take_bit_nat_eq_self)
  ultimately show ?thesis by metis
qed

text \<open>A new section gets the next number and is found under it; the others keep theirs.\<close>

lemma add_then_lookup:
  assumes "ready e ss st" "ss \<noteq> []" "Suc (length ss) < limit"
  shows "\<exists>s st'. add e st = Some (Some s, st') \<and> number s st' = Some (of_nat (length ss))
    \<and> lookup e (of_nat (length ss)) st' = Some (Some s, st')
    \<and> (\<forall>i. unat i < length ss \<longrightarrow> lookup e i st' = Some (Some (ss ! unat i), st'))"
proof -
  obtain s st' where s: "add e st = Some (Some s, st')" "ready e (ss @ [s]) st'"
    using add [OF assms] by blast
  have "unat (of_nat (length ss) :: u64) = length ss"
    using bounded [OF assms(1)] by (simp add: unat_of_nat take_bit_nat_eq_self)
  then show ?thesis
    using s number [OF s(2), of "length ss"] hit [OF s(2), of "of_nat (length ss)"] hit [OF s(2)]
    by (auto simp: nth_append)
qed

text \<open>Following the list from its first element visits every section once, in order.\<close>

lemma walk_visits_all:
  assumes "ready e ss st" "i < length ss" "length ss - i \<le> n"
  shows "walk succ n e (ss ! i) st = Some (drop i ss)"
  using assms
proof (induction n arbitrary: i)
  case (Suc n)
  have d: "drop i ss = ss ! i # drop (Suc i) ss" using Suc.prems(2) by (simp add: Cons_nth_drop_Suc)
  show ?case
  proof (cases "Suc i < length ss")
    case True
    then have "walk succ n e (ss ! Suc i) st = Some (drop (Suc i) ss)"
      using Suc by (intro Suc.IH) auto
    then show ?thesis using succ [OF Suc.prems(1,2)] True d by simp
  next
    case False
    then show ?thesis using succ [OF Suc.prems(1,2)] d by simp
  qed
qed simp

end

text \<open>A descriptor whose header and sections are in memory.\<close>

definition sections_ready :: "elf_ref \<Rightarrow> scn_ref list \<Rightarrow> store \<Rightarrow> bool" where
  "sections_ready e ss st \<longleftrightarrow>
     (\<exists>elf eh. header_ready e elf eh st \<and> e_scn elf = ss \<and> e_nscn elf = of_nat (length ss)
        \<and> (e_cmd elf = ELF_C_WRITE \<or> e_flags elf AND LIBELF_F_SHDRS_LOADED \<noteq> 0))
     \<and> section_list e ss st \<and> oom st = []"

lemma load_if_needed_done:
  assumes "elfs st e = Some elf" "e_cmd elf = ELF_C_WRITE \<or> e_flags elf AND LIBELF_F_SHDRS_LOADED \<noteq> 0"
  shows "load_if_needed e eh st = Some (True, st)"
  using assms by (auto simp: load_if_needed_def)

lemma sections_readyE:
  assumes "sections_ready e ss st"
  obtains elf eh where "header_ready e elf eh st" "elfs st e = Some elf" "e_scn elf = ss"
    "e_nscn elf = of_nat (length ss)" "load_if_needed e eh st = Some (True, st)"
    "section_list e ss st" "oom st = []"
    "e_cmd elf = ELF_C_WRITE \<or> e_flags elf AND LIBELF_F_SHDRS_LOADED \<noteq> 0"
proof -
  obtain elf eh where *: "header_ready e elf eh st" "e_scn elf = ss" "e_nscn elf = of_nat (length ss)"
    "e_cmd elf = ELF_C_WRITE \<or> e_flags elf AND LIBELF_F_SHDRS_LOADED \<noteq> 0"
    using assms by (auto simp: sections_ready_def)
  moreover have e: "elfs st e = Some elf" using *(1) by (simp add: header_ready_def)
  ultimately show thesis
    using that load_if_needed_done [OF e *(4)] assms by (auto simp: sections_ready_def)
qed

lemma elf_getscn_ready:
  assumes "sections_ready e ss st"
  shows "elf_getscn (Some e) i st =
    Some (if unat i < length ss then (Some (ss ! unat i), st) else (None, set_error ELF_E_ARGUMENT st))"
proof -
  obtain elf eh where *: "header_ready e elf eh st" "elfs st e = Some elf" "e_scn elf = ss"
    "load_if_needed e eh st = Some (True, st)" "section_list e ss st"
    using assms by (rule sections_readyE)
  show ?thesis
    using * header_ready_class [OF *(1)] header_ready_ehdr [OF *(1)] find_scn_section_list [OF *(5)]
    by (simp add: elf_getscn_def)
qed

lemma elf_newscn_ready:
  assumes "sections_ready e ss st" "ss \<noteq> []" "Suc (length ss) < 2 ^ 64"
  shows "\<exists>s st'. elf_newscn (Some e) st = Some (Some s, st') \<and> sections_ready e (ss @ [s]) st'"
proof -
  obtain elf eh where *: "header_ready e elf eh st" "elfs st e = Some elf" "e_scn elf = ss"
    "e_nscn elf = of_nat (length ss)"
    "load_if_needed e eh st = Some (True, st)" "section_list e ss st" "oom st = []"
    "e_cmd elf = ELF_C_WRITE \<or> e_flags elf AND LIBELF_F_SHDRS_LOADED \<noteq> 0"
    using assms(1) by (rule sections_readyE)
  define s where "s = fresh st"
  define n where "n = (of_nat (length ss) :: u64)"
  define st1 where "st1 = (set_elf e (elf\<lparr>e_scn := ss @ [s]\<rparr>)
      (set_scn s (new_scn e (e_class elf) n (zero_shdr (e_class elf))) st))\<lparr>fresh := Suc s\<rparr>"
  have alloc: "libelf_allocate_scn e n st = Some (Some s, st1)" "section_list e (ss @ [s]) st1"
    using allocate_scn_appends [OF *(2) _ *(7)] *(3,6) assms(3) by (simp_all add: s_def n_def st1_def)
  have st1: "elfs st1 e = Some (elf\<lparr>e_scn := ss @ [s]\<rparr>)"
    "scns st1 s = Some (new_scn e (e_class elf) n (zero_shdr (e_class elf)))"
    by (simp_all add: st1_def)
  define scn where "scn = (new_scn e (e_class elf) n (zero_shdr (e_class elf)))\<lparr>s_flags := ELF_F_DIRTY\<rparr>"
  define elf2 where "elf2 = elf\<lparr>e_scn := ss @ [s], e_nscn := n + 1\<rparr>"
  define st2 where "st2 = set_scn s scn (set_elf e elf2 st1)"
  have n0: "0 < n"
    using assms(2,3) by (auto simp: n_def word_gt_0 unat_of_nat take_bit_nat_eq_self dest!: arg_cong [of _ _ unat])
  have flag: "elf_flagscn (Some s) ELF_C_SET ELF_F_DIRTY (set_elf e elf2 st1) = Some (ELF_F_DIRTY, st2)"
    using st1(2) by (simp add: elf_flagscn_def new_scn_def scn_def st2_def Let_def)
  have app: "append_scn e st = Some (Some s, st2)"
    using *(2,4) n0 alloc(1) st1(1) flag
    by (simp add: append_scn_def n_def [symmetric] elf2_def [symmetric])
  have cls: "e_kind elf = ELF_K_ELF" "e_class elf = ELFCLASS32 \<or> e_class elf = ELFCLASS64"
    using *(1) by (auto simp: header_ready_def std_class_def)
  have new: "elf_newscn (Some e) st = Some (Some s, st2)"
    using *(2,3,5) cls header_ready_ehdr [OF *(1)] assms(2) app by (auto simp: elf_newscn_def Let_def)
  have "header_ready e elf2 eh st2"
    using *(1) by (simp add: header_ready_def elf2_def st2_def)
  moreover have "section_list e (ss @ [s]) st2"
    by (rule section_list_mono [OF alloc(2)])
      (use st1(2) in \<open>auto simp: st2_def scn_def new_scn_def\<close>)
  moreover have "oom st2 = []" using *(7) by (simp add: st2_def st1_def)
  ultimately have "sections_ready e (ss @ [s]) st2"
    unfolding sections_ready_def using *(8) by (auto simp: elf2_def n_def)
  with new show ?thesis by blast
qed

lemma next_in_nth:
  "distinct ss \<Longrightarrow> i < length ss
    \<Longrightarrow> next_in (ss ! i) ss = Some (if Suc i < length ss then Some (ss ! Suc i) else None)"
proof (induction ss arbitrary: i)
  case (Cons t ts)
  then show ?case by (cases i) (auto split: list.split simp: nth_Cons')
qed simp

lemma elf_nextscn_ready:
  assumes "sections_ready e ss st" "i < length ss"
  shows "elf_nextscn (Some e) (Some (ss ! i)) st
    = Some (if Suc i < length ss then Some (ss ! Suc i) else None, st)"
proof -
  obtain elf eh where *: "header_ready e elf eh st" "elfs st e = Some elf" "e_scn elf = ss"
    "section_list e ss st"
    using assms(1) by (rule sections_readyE)
  have "e_kind elf = ELF_K_ELF" using *(1) by (simp add: header_ready_def)
  then show ?thesis
    using * assms(2) next_in_nth [of ss i] by (auto simp: elf_nextscn_def section_list_def)
qed

interpretation sections: numbered_sections "\<lambda>e. elf_getscn (Some e)" "\<lambda>e. elf_newscn (Some e)"
  "\<lambda>s st. map_option fst (elf_ndxscn (Some s) st)" "\<lambda>e s. elf_nextscn (Some e) (Some s)" sections_ready
  "set_error ELF_E_ARGUMENT" "2 ^ 64"
proof (unfold_locales, goal_cases)
  case (1 e ss st)
  then show ?case by (simp add: sections_ready_def section_list_def)
next
  case (3 e ss st i)
  then show ?case by (auto simp: sections_ready_def section_list_def elf_ndxscn_def)
next
  case (6 e ss st)
  then show ?case by (rule elf_newscn_ready)
next
  case (7 e ss st i)
  then show ?case by (rule elf_nextscn_ready)
qed (simp_all add: elf_getscn_ready)

section \<open>Bringing in the sections of a file\<close>

lemma check_ehdr_bounds:
  assumes "check_ehdr elf fsz shnum shoff shentsize" "fsz > 0"
  shows "fsz = ucast shentsize" "unat shoff + unat shnum * unat fsz \<le> unat (e_rawsize elf)"
proof -
  have c: "shoff \<le> e_rawsize elf" "shnum \<le> -1 div fsz" "fsz * shnum \<le> e_rawsize elf - shoff"
    using assms(1) by (auto simp: check_ehdr_def not_less)
  have "unat shnum \<le> (2 ^ 64 - 1) div unat fsz"
    using c(2) by (simp add: word_le_nat_alt unat_div unsigned_minus_1_eq_mask mask_eq_exp_minus_1)
  then have "unat shnum * unat fsz \<le> 2 ^ 64 - 1"
    by (metis div_times_less_eq_dividend mult_le_mono1 order_trans)
  then have "unat (fsz * shnum) = unat shnum * unat fsz"
    by (simp add: unat_word_ariths mult.commute)
  moreover have "unat (fsz * shnum) \<le> unat (e_rawsize elf) - unat shoff"
    using c(1,3) by (simp add: word_le_nat_alt unat_sub)
  moreover have "unat shoff \<le> unat (e_rawsize elf)" using c(1) by (simp add: word_le_nat_alt)
  ultimately show "unat shoff + unat shnum * unat fsz \<le> unat (e_rawsize elf)" by linarith
  show "fsz = ucast shentsize" using assms(1) by (simp add: check_ehdr_def)
qed

text \<open>
  A file whose header has been read and whose sections have not, except section 0 when it
  holds extended numbers; the section header table lies in the file.
\<close>

definition table_readable :: "elf_ref \<Rightarrow> Elf \<Rightarrow> Ehdr \<Rightarrow> nat \<Rightarrow> nat \<Rightarrow> byte list \<Rightarrow> store \<Rightarrow> bool" where
  "table_readable e elf eh b off S st \<longleftrightarrow>
     header_ready e elf eh st \<and> e_cmd elf \<noteq> ELF_C_WRITE \<and> e_flags elf AND LIBELF_F_SHDRS_LOADED = 0
     \<and> length (e_scn elf) \<le> 1 \<and> length (e_scn elf) \<le> unat (e_nscn elf)
     \<and> section_list e (e_scn elf) st \<and> e_rawfile elf = Some (b, off)
     \<and> mem st b = Some S \<and> off + unat (e_rawsize elf) \<le> length S \<and> length S < 2 ^ 64
     \<and> oom st = [] \<and> fresh_mem st
     \<and> check_ehdr elf (of_nat (FSZ (e_class elf) (shdr_layout (e_class elf)))) (e_nscn elf)
         (ehdr_shoff eh) (ehdr_shentsize eh)"

definition entry_off :: "int \<Rightarrow> Ehdr \<Rightarrow> nat \<Rightarrow> nat \<Rightarrow> nat" where
  "entry_off ec eh off i = off + unat (ehdr_shoff eh) + i * FSZ ec (shdr_layout ec)"

lemma load_section_headers_correct:
  assumes r: "table_readable e elf eh b off S st"
  shows "\<exists>st' ss. libelf_load_section_headers e eh st = Some (True, st')
    \<and> elfs st' e = Some (elf\<lparr>e_scn := ss, e_flags := e_flags elf OR LIBELF_F_SHDRS_LOADED\<rparr>)
    \<and> length ss = unat (e_nscn elf) \<and> sections_ready e ss st' \<and> mem st' = mem st
    \<and> take (length (e_scn elf)) ss = e_scn elf
    \<and> (\<forall>i. length (e_scn elf) \<le> i \<longrightarrow> i < unat (e_nscn elf) \<longrightarrow>
         scns st' (ss ! i) = Some (loaded_scn e (of_nat i)
           (file_shdr (e_class elf) elf (entry_off (e_class elf) eh off i) S st)))"
proof -
  define ec where "ec = e_class elf"
  define F where "F = FSZ ec (shdr_layout ec)"
  let ?old = "e_scn elf"
  define i0 where "i0 = length ?old"
  define n where "n = unat (e_nscn elf) - i0"
  have r': "header_ready e elf eh st" "e_cmd elf \<noteq> ELF_C_WRITE" "e_flags elf AND LIBELF_F_SHDRS_LOADED = 0"
    "i0 \<le> 1" "i0 \<le> unat (e_nscn elf)" "section_list e ?old st" "e_rawfile elf = Some (b, off)"
    "mem st b = Some S" "off + unat (e_rawsize elf) \<le> length S" "length S < 2 ^ 64" "oom st = []"
    "fresh_mem st" "check_ehdr elf (of_nat F) (e_nscn elf) (ehdr_shoff eh) (ehdr_shentsize eh)"
    using r unfolding table_readable_def ec_def F_def i0_def by blast+
  have h: "elfs st e = Some elf" "std_class ec" "e_version elf = EV_CURRENT"
    using r'(1) by (simp_all add: header_ready_def ec_def)
  have F: "unat (of_nat F :: u64) = F" "(0 :: u64) < of_nat F"
    using ehdr_sizes [OF h(2)] by (auto simp: F_def word_gt_0)
  have fit: "unat (ehdr_shoff eh) + unat (e_nscn elf) * F \<le> unat (e_rawsize elf)"
    using check_ehdr_bounds(2) [OF r'(13) F(2)] F(1) by simp
  define src where "src = off + unat (ehdr_shoff eh) + i0 * F"
  have "i0 * F \<le> unat (e_nscn elf) * F" using r'(5) by simp
  then have small: "off + unat (ehdr_shoff eh) + i0 * F < 2 ^ 64" using fit r'(9,10) by linarith
  have start: "(if ?old = [] then (0, ptr_add (e_rawfile elf) (ehdr_shoff eh))
      else (1, ptr_add (ptr_add (e_rawfile elf) (ehdr_shoff eh)) (of_nat F)))
    = (of_nat i0 :: u64, Some (b, src))"
  proof (cases "?old = []")
    case True
    then show ?thesis using small r'(7) by (simp add: i0_def src_def ptr_add_def)
  next
    case False
    then have "i0 = 1" using r'(4) by (cases ?old) (auto simp: i0_def)
    then show ?thesis using False small r'(7) F(1) by (simp add: src_def ptr_add_def)
  qed
  have count: "unat (e_nscn elf) - unat (of_nat i0 :: u64) = n"
    using r'(4) by (cases "i0 = 0") (auto simp: n_def le_Suc_eq)
  have "n * F = unat (e_nscn elf) * F - i0 * F" by (simp add: n_def diff_mult_distrib)
  then have room: "src + n * F \<le> length S"
    using fit r'(9) \<open>i0 * F \<le> unat (e_nscn elf) * F\<close> by (simp add: src_def)
  obtain st1 where st1: "load_sections n e ec (of_nat F) (swap_needed elf st) (of_nat i0) (Some (b, src)) st
      = Some (True, st1)" "table_loaded e ec elf src S i0 n st st1"
    using load_sections_correct [OF h(1) _ h(2) r'(8) _ r'(10-12) refl, of src n "of_nat F" i0] room
    by (auto simp: ec_def F_def)
  define ss where "ss = ?old @ map (\<lambda>k. fresh st + 2 * k) [0..<n]"
  define elf1 where "elf1 = elf\<lparr>e_scn := ss\<rparr>"
  define elf2 where "elf2 = elf1\<lparr>e_flags := e_flags elf OR LIBELF_F_SHDRS_LOADED\<rparr>"
  define st' where "st' = set_elf e elf2 st1"
  have t: "elfs st1 e = Some elf1" "mem st1 = mem st" "oom st1 = []" "fresh st1 = fresh st + 2 * n"
    "\<And>k. k < n \<Longrightarrow> scns st1 (fresh st + 2 * k)
        = Some (loaded_scn e (of_nat (i0 + k)) (file_shdr ec elf (src + k * F) S st))"
    "\<And>s. s < fresh st \<Longrightarrow> scns st1 s = scns st s"
    using st1(2) r'(11) by (simp_all add: table_loaded_def elf1_def ss_def F_def)
  have "libelf_load_section_headers e eh st = Some (True, st')"
    unfolding libelf_load_section_headers_def
    using h(1) r'(3,4,13) F(2) start count st1(1) t(1)
    by (simp add: ec_def [symmetric] h(3) table_sizes(3) [OF h(2)] F_def [symmetric] i0_def [symmetric]
        st'_def elf2_def elf1_def Let_def del: split_paired_Ex)
  moreover have len: "length ss = unat (e_nscn elf)" using r'(5) by (simp add: ss_def n_def i0_def)
  moreover have entry: "scns st' (ss ! i) = Some (loaded_scn e (of_nat i)
      (file_shdr ec elf (entry_off ec eh off i) S st))" if "i0 \<le> i" "i < unat (e_nscn elf)" for i
  proof -
    have k: "i - i0 < n" using that by (simp add: n_def)
    have "(i - i0) * F + i0 * F = i * F" using that(1) by (simp flip: distrib_right)
    then have "src + (i - i0) * F = entry_off ec eh off i" by (simp add: src_def entry_off_def F_def)
    moreover have "ss ! i = fresh st + 2 * (i - i0)" using that k by (simp add: ss_def nth_append i0_def)
    moreover have "i0 + (i - i0) = i" using that(1) by simp
    ultimately show ?thesis using t(5) [OF k] by (simp add: st'_def)
  qed
  moreover have "section_list e ss st'"
  proof -
    have old: "s < fresh st" if "s \<in> set ?old" for s using r'(6) that by (simp add: section_list_def)
    have "distinct ss"
      using r'(6) old unfolding ss_def section_list_def by (fastforce simp: distinct_map inj_on_def)
    moreover have "length ss < 2 ^ 64" using len unat_u64_less by metis
    moreover have "\<exists>scn. scns st' (ss ! i) = Some scn \<and> s_ndx scn = of_nat i \<and> s_elf scn = Some e"
      if "i < length ss" for i
    proof (cases "i < i0")
      case True
      then have "ss ! i = ?old ! i" "?old ! i \<in> set ?old" by (simp_all add: ss_def nth_append i0_def)
      then show ?thesis using r'(6) True t(6) old by (auto simp: st'_def section_list_def i0_def)
    next
      case False
      then show ?thesis using entry [of i] that len by (simp add: loaded_scn_def)
    qed
    moreover have "s < fresh st'" if "s \<in> set ss" for s
      using that old t(4) by (fastforce simp: ss_def st'_def)
    ultimately show ?thesis by (simp add: section_list_def)
  qed
  moreover have "header_ready e elf2 eh st'"
    using r'(1) by (simp add: header_ready_def elf2_def elf1_def st'_def)
  moreover have "(e_flags elf OR LIBELF_F_SHDRS_LOADED) AND LIBELF_F_SHDRS_LOADED \<noteq> 0"
    by (simp add: bit.conj_disj_distrib2)
  ultimately show ?thesis
    using t(2,3) unfolding sections_ready_def
    by (intro exI [of _ st'] exI [of _ ss])
      (auto simp: st'_def elf2_def elf1_def ec_def i0_def ss_def)
qed

section \<open>The class-independent section header\<close>

definition shdr_fits :: "GElf_Shdr \<Rightarrow> bool" where
  "shdr_fits s \<longleftrightarrow> sh_flags s \<le> 0xFFFFFFFF \<and> sh_addr s \<le> 0xFFFFFFFF \<and> sh_offset s \<le> 0xFFFFFFFF
     \<and> sh_size s \<le> 0xFFFFFFFF \<and> sh_addralign s \<le> 0xFFFFFFFF \<and> sh_entsize s \<le> 0xFFFFFFFF"

lemma shdr_narrow_fits: "fst (shdr_narrow s h) = shdr_fits s"
  by (auto simp: shdr_narrow_def shdr_fits_def LIBELF_COPY_U32_fst)

lemma shdr_narrow_widen:
  assumes "shdr_fits s"
  shows "shdr_widen (snd (shdr_narrow s h)) = s"
  using assms by (simp add: shdr_fits_def shdr_narrow_def shdr_widen_def ucast_u64_u32_u64)

text \<open>A section of a descriptor of a class, with a header of that class.\<close>

definition scn_ready :: "scn_ref \<Rightarrow> Elf_Scn \<Rightarrow> elf_ref \<Rightarrow> Elf \<Rightarrow> store \<Rightarrow> bool" where
  "scn_ready s scn e elf st \<longleftrightarrow>
     scns st s = Some scn \<and> s_elf scn = Some e \<and> elfs st e = Some elf \<and> e_kind elf = ELF_K_ELF
     \<and> std_class (e_class elf) \<and> shdr_class (s_shdr scn) = e_class elf"

lemma gelf_getshdr_ready:
  assumes "scn_ready s scn e elf st"
  shows "gelf_getshdr (Some s) True st
    = Some (Some (case s_shdr scn of Shdr32 h \<Rightarrow> shdr_widen h | Shdr64 h \<Rightarrow> h), st)"
  using assms
  by (auto simp: scn_ready_def gelf_getshdr_def libelf_getshdr_def std_class_def shdr_class_def Let_def
      split: Shdr.split_asm)

lemma gelf_update_shdr_ready:
  assumes "scn_ready s scn e elf st" "e_cmd elf \<noteq> ELF_C_READ"
  defines "scn1 \<equiv> scn\<lparr>s_flags := s_flags scn OR ELF_F_DIRTY\<rparr>"
  shows "gelf_update_shdr (Some s) (Some h) st =
    Some (case s_shdr scn of
        Shdr64 _ \<Rightarrow> (True, set_scn s (scn1\<lparr>s_shdr := Shdr64 h\<rparr>) st)
      | Shdr32 h32 \<Rightarrow>
          (let st' = set_scn s (scn1\<lparr>s_shdr := Shdr32 (snd (shdr_narrow h h32))\<rparr>) st
           in if shdr_fits h then (True, st') else (False, set_error ELF_E_RANGE st')))"
proof -
  have twice: "set_scn s x (set_scn s y st) = set_scn s x st" for x y by (simp add: set_scn_def)
  show ?thesis
    using assms(1,2) unfolding scn1_def
    by (cases "s_shdr scn")
      (auto simp: split_beta shdr_narrow_fits scn_ready_def gelf_update_shdr_def elf_class_of_def elf_flagscn_def std_class_def
        shdr_class_def twice Let_def)
qed

section \<open>Properties\<close>

text \<open>A 64-bit image with two section headers, and a descriptor whose header is read.\<close>

definition demo_sections_image :: "byte list" where
  "demo_sections_image = replicate 128 0 @
     [1, 0, 0, 0, 1, 0, 0, 0, 6, 0, 0, 0, 0, 0, 0, 0, 0, 0, 0, 0, 0, 0, 0, 0,
      0, 1, 0, 0, 0, 0, 0, 0, 32, 0, 0, 0, 0, 0, 0, 0, 0, 0, 0, 0, 0, 0, 0, 0,
      16, 0, 0, 0, 0, 0, 0, 0, 0, 0, 0, 0, 0, 0, 0, 0]"

definition demo_sections_elf :: Elf where
  "demo_sections_elf = (demo_elf demo_sections_image)\<lparr>e_ehdr := Some (Ehdr64 (demo_update\<lparr>eh_shoff := 64\<rparr>)),
     e_nscn := 2\<rparr>"

definition demo_sections_store :: store where
  "demo_sections_store = (demo_elf_store demo_sections_image)\<lparr>elfs := [0 \<mapsto> demo_sections_elf]\<rparr>"

lemma demo_table_readable:
  "table_readable 0 demo_sections_elf (Ehdr64 (demo_update\<lparr>eh_shoff := 64\<rparr>)) 0 0 demo_sections_image
     demo_sections_store"
proof -
  have len: "length demo_sections_image = 192" by (simp add: demo_sections_image_def)
  have F: "FSZ 2 (shdr_layout 2) = 64" using ehdr_sizes(3) [of 2] by (simp add: std_class_def)
  have "header_ready 0 demo_sections_elf (Ehdr64 (demo_update\<lparr>eh_shoff := 64\<rparr>)) demo_sections_store"
    by (simp add: header_ready_def demo_sections_store_def demo_sections_elf_def demo_elf_def new_elf_def
        std_class_def ehdr_class_def)
  then show ?thesis
    by (simp add: table_readable_def section_list_def demo_sections_store_def demo_sections_elf_def
        demo_elf_store_def demo_elf_def new_elf_def initial_store_def fresh_mem_def len F check_ehdr_def
        demo_update_def)
qed

text \<open>
  C7. Asking for a section of a file whose section headers have not been read brings in
  the table: every section gets its number and the header that the bytes at its place in
  the file denote, in the byte order of the file, and the section asked for is returned.
\<close>

theorem getscn_reads_table:
  assumes "table_readable e elf eh b off S st"
    and "length (e_scn elf) \<le> unat i" "i < e_nscn elf"
  shows "\<exists>st' s. elf_getscn (Some e) i st = Some (Some s, st')
    \<and> scns st' s = Some (loaded_scn e i
        (file_shdr (e_class elf) elf (entry_off (e_class elf) eh off (unat i)) S st))"
proof -
  have i: "unat i < unat (e_nscn elf)" using assms(3) by (simp add: word_less_nat_alt)
  obtain st' ss where *: "libelf_load_section_headers e eh st = Some (True, st')"
    "elfs st' e = Some (elf\<lparr>e_scn := ss, e_flags := e_flags elf OR LIBELF_F_SHDRS_LOADED\<rparr>)"
    "length ss = unat (e_nscn elf)" "sections_ready e ss st'"
    "scns st' (ss ! unat i) = Some (loaded_scn e i
       (file_shdr (e_class elf) elf (entry_off (e_class elf) eh off (unat i)) S st))"
    using load_section_headers_correct [OF assms(1)] assms(2) i by (auto simp del: split_paired_Ex)
  have h: "header_ready e elf eh st" "elfs st e = Some elf"
    and need: "load_if_needed e eh st = Some (True, st')"
    using assms(1) *(1) by (auto simp: table_readable_def header_ready_def load_if_needed_def)
  have "section_list e ss st'" using *(4) by (simp add: sections_ready_def)
  from find_scn_section_list [OF this, of i] have "elf_getscn (Some e) i st = Some (Some (ss ! unat i), st')"
    using header_ready_class [OF h(1)] header_ready_ehdr [OF h(1)] need *(2,3) i by (simp add: elf_getscn_def)
  with *(5) show ?thesis by blast
qed

theorem getscn_reads_table_witness:
  "\<exists>st' s scn. elf_getscn (Some 0) 1 demo_sections_store = Some (Some s, st')
    \<and> scns st' s = Some scn \<and> s_ndx scn = 1 \<and> s_offset scn = 256 \<and> s_size scn = 32"
proof -
  have F: "FSZ 2 (shdr_layout 2) = 64" using ehdr_sizes(3) [of 2] by (simp add: std_class_def)
  have "file_shdr ELFCLASS64 demo_sections_elf 128 demo_sections_image demo_sections_store
    = Shdr64 \<lparr>sh_name = 1, sh_type = 1, sh_flags = 6, sh_addr = 0, sh_offset = 256, sh_size = 32,
       sh_link = 0, sh_info = 0, sh_addralign = 16, sh_entsize = 0\<rparr>"
    by (simp add: file_shdr_def shdr_object_def file_struct_def shdr_layout_def Elf64_Shdr_DEF_def
      swap_needed_def demo_sections_elf_def demo_elf_def demo_sections_store_def demo_elf_store_def
      initial_store_def initial_globals_def
      demo_sections_image_def segment_def shdr_of_def native_val_def word_of_le_def)
  moreover have "e_class demo_sections_elf = 2" "e_scn demo_sections_elf = []" "e_nscn demo_sections_elf = 2"
    by (simp_all add: demo_sections_elf_def demo_elf_def new_elf_def)
  ultimately show ?thesis
    using getscn_reads_table [OF demo_table_readable, of 1]
    by (simp add: entry_off_def F demo_update_def) (force simp: loaded_scn_def)
qed

text \<open>A writable descriptor with its header, section 0 and section 1.\<close>

definition demo_two_sections :: store where
  "demo_two_sections = demo_numbering
     \<lparr>elfs := [0 \<mapsto> (demo_elf [])\<lparr>e_cmd := ELF_C_WRITE, e_scn := [1, 2], e_nscn := 2,
         e_ehdr := Some (EHDR_INIT ELFCLASS64 (demo_elf_store []))\<rparr>],
      scns := [1 \<mapsto> new_scn 0 ELFCLASS64 0 (zero_shdr ELFCLASS64),
               2 \<mapsto> new_scn 0 ELFCLASS64 1 (zero_shdr ELFCLASS64)], fresh := 3\<rparr>"

lemma demo_sections_ready: "sections_ready 0 [1, 2] demo_two_sections"
  by (auto simp: sections_ready_def header_ready_def demo_two_sections_def demo_numbering_def demo_elf_def
      demo_elf_store_def initial_store_def new_elf_def std_class_def ehdr_class_def EHDR_INIT_def
      section_list_def new_scn_def less_Suc_eq Let_def)

text \<open>
  A section is found again under its own index.
\<close>

lemma getscn_of_ndxscn:
  assumes "sections_ready e ss st" "s \<in> set ss"
  shows "\<exists>n. elf_ndxscn (Some s) st = Some (n, st) \<and> elf_getscn (Some e) n st = Some (Some s, st)"
proof -
  obtain n where "map_option fst (elf_ndxscn (Some s) st) = Some n"
    "elf_getscn (Some e) n st = Some (Some s, st)"
    using sections.lookup_number [OF assms] by blast
  then show ?thesis by (auto simp: elf_ndxscn_def)
qed

lemma getscn_of_ndxscn_witness:
  "\<exists>n. elf_ndxscn (Some 2) demo_two_sections = Some (n, demo_two_sections)
    \<and> elf_getscn (Some 0) n demo_two_sections = Some (Some 2, demo_two_sections)"
  by (rule getscn_of_ndxscn [OF demo_sections_ready]) simp

text \<open>
  C8. \<open>elf_newscn\<close> gives the new section the next index, under which \<open>elf_getscn\<close> finds
  it, and leaves every other section under its index.
\<close>

theorem newscn_numbers:
  assumes "sections_ready e ss st" "ss \<noteq> []" "Suc (length ss) < 2 ^ 64"
  shows "\<exists>s st'. elf_newscn (Some e) st = Some (Some s, st')
    \<and> elf_ndxscn (Some s) st' = Some (of_nat (length ss), st')
    \<and> elf_getscn (Some e) (of_nat (length ss)) st' = Some (Some s, st')
    \<and> (\<forall>i. unat i < length ss \<longrightarrow> elf_getscn (Some e) i st' = Some (Some (ss ! unat i), st'))"
proof -
  obtain s st' where *: "elf_newscn (Some e) st = Some (Some s, st')"
    "map_option fst (elf_ndxscn (Some s) st') = Some (of_nat (length ss))"
    "elf_getscn (Some e) (of_nat (length ss)) st' = Some (Some s, st')"
    "\<forall>i. unat i < length ss \<longrightarrow> elf_getscn (Some e) i st' = Some (Some (ss ! unat i), st')"
    using sections.add_then_lookup [OF assms] by blast
  then have "elf_ndxscn (Some s) st' = Some (of_nat (length ss), st')" by (auto simp: elf_ndxscn_def)
  with * show ?thesis by blast
qed

theorem newscn_numbers_witness:
  "\<exists>s st'. elf_newscn (Some 0) demo_two_sections = Some (Some s, st')
    \<and> elf_ndxscn (Some s) st' = Some (2, st')
    \<and> elf_getscn (Some 0) 2 st' = Some (Some s, st')
    \<and> elf_getscn (Some 0) 1 st' = Some (Some 2, st')"
  using newscn_numbers [OF demo_sections_ready] by fastforce

text \<open>
  Starting from \<open>elf_nextscn(e, NULL)\<close> and following \<open>elf_nextscn\<close> visits the
  sections from number 1 on, each once and in the order of their numbers, and stops.
\<close>

lemma nextscn_visits_all:
  assumes "sections_ready e ss st" "1 < length ss" "length ss \<le> n"
  shows "\<exists>s. elf_nextscn (Some e) None st = Some (Some s, st)
    \<and> walk (\<lambda>e s. elf_nextscn (Some e) (Some s)) n e s st = Some (drop 1 ss)"
proof -
  obtain elf where e: "elfs st e = Some elf" "e_kind elf = ELF_K_ELF"
    using assms(1) by (auto simp: sections_ready_def header_ready_def)
  have "elf_getscn (Some e) 1 st = Some (Some (ss ! 1), st)"
    using sections.hit [OF assms(1), of 1] assms(2) by simp
  then have "elf_nextscn (Some e) None st = Some (Some (ss ! 1), st)"
    using e by (simp add: elf_nextscn_def)
  moreover have "walk (\<lambda>e s. elf_nextscn (Some e) (Some s)) n e (ss ! 1) st = Some (drop 1 ss)"
    using assms by (intro sections.walk_visits_all) auto
  ultimately show ?thesis by blast
qed

lemma nextscn_visits_all_witness:
  "\<exists>s. elf_nextscn (Some 0) None demo_two_sections = Some (Some s, demo_two_sections)
    \<and> walk (\<lambda>e s. elf_nextscn (Some e) (Some s)) 9 0 s demo_two_sections = Some [2]"
  using nextscn_visits_all [OF demo_sections_ready, of 9] by simp



text \<open>
  Updating a section header and getting it again gives what was written; for a 32-bit
  object whose fields do not hold the values, the update fails with a range error.
\<close>

lemma update_shdr_then_get:
  assumes "scn_ready s scn e elf st" "e_cmd elf \<noteq> ELF_C_READ"
  shows "\<exists>ok st'. gelf_update_shdr (Some s) (Some h) st = Some (ok, st')
    \<and> ok = (e_class elf = ELFCLASS64 \<or> shdr_fits h)
    \<and> (if ok then gelf_getshdr (Some s) True st' = Some (Some h, st')
       else fst (elf_errno st') = error_code ELF_E_RANGE)"
proof (cases "s_shdr scn")
  case (Shdr64 h64)
  have c: "e_class elf = ELFCLASS64" using assms(1) Shdr64 by (simp add: scn_ready_def shdr_class_def)
  let ?scn = "scn\<lparr>s_flags := s_flags scn OR ELF_F_DIRTY, s_shdr := Shdr64 h\<rparr>"
  have r: "scn_ready s ?scn e elf (set_scn s ?scn st)"
    using assms(1) c by (simp add: scn_ready_def shdr_class_def)
  show ?thesis
    using gelf_update_shdr_ready [OF assms, of h] gelf_getshdr_ready [OF r] c Shdr64
    by (simp add: ex_bool_eq)
next
  case (Shdr32 h32)
  have c: "e_class elf = ELFCLASS32" using assms(1) Shdr32 by (simp add: scn_ready_def shdr_class_def)
  let ?scn = "scn\<lparr>s_flags := s_flags scn OR ELF_F_DIRTY, s_shdr := Shdr32 (snd (shdr_narrow h h32))\<rparr>"
  have r: "scn_ready s ?scn e elf (set_scn s ?scn st)"
    using assms(1) c by (simp add: scn_ready_def shdr_class_def)
  show ?thesis
    using gelf_update_shdr_ready [OF assms, of h] gelf_getshdr_ready [OF r] c Shdr32
    by (simp add: shdr_narrow_widen elf_errno_returns_and_clears(1) LIBELF_ERROR_low Let_def)
qed

definition demo_shdr_update :: GElf_Shdr where
  "demo_shdr_update = zero_Elf_Shdr\<lparr>sh_type := SHT_PROGBITS, sh_offset := 0x100000000, sh_size := 8\<rparr>"

lemma update_shdr_then_get_witness:
  "\<exists>ok st'. gelf_update_shdr (Some 2) (Some demo_shdr_update) demo_two_sections = Some (ok, st')
    \<and> ok \<and> gelf_getshdr (Some 2) True st' = Some (Some demo_shdr_update, st')"
proof -
  have "scn_ready 2 (new_scn 0 ELFCLASS64 1 (zero_shdr ELFCLASS64)) 0
      ((demo_elf [])\<lparr>e_cmd := ELF_C_WRITE, e_scn := [1, 2], e_nscn := 2,
         e_ehdr := Some (EHDR_INIT ELFCLASS64 (demo_elf_store []))\<rparr>) demo_two_sections"
    by (simp add: scn_ready_def demo_two_sections_def new_scn_def demo_elf_def new_elf_def std_class_def
        shdr_class_def zero_shdr_def)
  from update_shdr_then_get [OF this, of demo_shdr_update] show ?thesis
    by (auto simp: demo_elf_def new_elf_def split: if_splits)
qed

text \<open>
  On a new descriptor without sections, an index for the section name table that needs
  extended numbering makes section 0 without counting it; \<open>elf_newscn\<close> then stops at
  its assertion.
\<close>

lemma newscn_after_large_shstrndx_faults:
  assumes "header_ready e elf eh st" "e_cmd elf = ELF_C_WRITE" "e_scn elf = []" "e_nscn elf = 0"
    and "oom st = []" "SHN_LORESERVE \<le> n"
  shows "\<exists>st'. elf_setshstrndx (Some e) n st = Some (True, st') \<and> elf_newscn (Some e) st' = None"
proof -
  let ?s = "fresh st" and ?ec = "e_class elf"
  have h: "elfs st e = Some elf" "e_kind elf = ELF_K_ELF" "std_class ?ec" "e_ehdr elf = Some eh"
    "ehdr_class eh = ?ec" "e_version elf = EV_CURRENT"
    using assms(1) by (auto simp: header_ready_def)
  define scn where "scn = new_scn e ?ec 0 (zero_shdr ?ec)"
  define st1 where "st1 = (set_elf e (elf\<lparr>e_scn := [?s]\<rparr>) (set_scn ?s scn st))\<lparr>fresh := Suc ?s\<rparr>"
  have alloc: "libelf_getscn0 e st = Some (Some ?s, st1)"
    using assms(3,5) h(1)
    by (simp add: libelf_getscn0_def libelf_allocate_scn_def st1_def scn_def new_scn_def Let_def)
  have st1: "scns st1 ?s = Some scn" "elfs st1 e = Some (elf\<lparr>e_scn := [?s]\<rparr>)" by (simp_all add: st1_def)
  have cls: "shdr_class (s_shdr scn) = ?ec"
    using h(3) by (auto simp: scn_def new_scn_def zero_shdr_def shdr_class_def std_class_def)
  have "\<exists>st' eh'. libelf_setshstrndx e ?ec n st = Some (True, st')
    \<and> elfs st' e = Some (elf\<lparr>e_scn := [?s], e_ehdr := Some eh'\<rparr>) \<and> ehdr_class eh' = ?ec"
    using assms(6) st1 cls h(4,5) upd_shdr_eq [OF st1(1) cls]
    by (auto simp: libelf_setshstrndx_def alloc elf_flagshdr_def elf_flagscn_def upd_ehdr_eq scn_def
        new_scn_def Let_def)
  then obtain st' eh' where st': "libelf_setshstrndx e ?ec n st = Some (True, st')"
    "elfs st' e = Some (elf\<lparr>e_scn := [?s], e_ehdr := Some eh'\<rparr>)" "ehdr_class eh' = ?ec" by blast
  have set_eq: "elf_setshstrndx (Some e) n st = Some (True, st')"
    using header_ready_class [OF assms(1)] header_ready_ehdr [OF assms(1)] st'(1)
    by (simp add: elf_setshstrndx_def)
  have r': "header_ready e (elf\<lparr>e_scn := [?s], e_ehdr := Some eh'\<rparr>) eh' st'"
    using assms(1) st' by (simp add: header_ready_def)
  have "elf_newscn (Some e) st' = None"
    using st'(2) h(2,3) assms(2,4) header_ready_ehdr [OF r']
    by (auto simp: elf_newscn_def load_if_needed_def append_scn_def std_class_def Let_def)
  with set_eq show ?thesis by blast
qed

definition demo_no_sections :: store where
  "demo_no_sections = demo_numbering
     \<lparr>elfs := [0 \<mapsto> (demo_elf [])\<lparr>e_cmd := ELF_C_WRITE,
         e_ehdr := Some (EHDR_INIT ELFCLASS64 (demo_elf_store []))\<rparr>], scns := Map.empty\<rparr>"

lemma newscn_after_large_shstrndx_faults_witness:
  "\<exists>st'. elf_setshstrndx (Some 0) 0xFF00 demo_no_sections = Some (True, st') \<and> elf_newscn (Some 0) st' = None"
  by (rule newscn_after_large_shstrndx_faults
      [of 0 "(demo_elf [])\<lparr>e_cmd := ELF_C_WRITE, e_ehdr := Some (EHDR_INIT ELFCLASS64 (demo_elf_store []))\<rparr>"
        "EHDR_INIT ELFCLASS64 (demo_elf_store [])"])
    (simp_all add: demo_no_sections_def demo_numbering_def demo_elf_store_def initial_store_def header_ready_def
      demo_elf_def new_elf_def std_class_def ehdr_class_def EHDR_INIT_def Let_def)

end
