(* ===== verification/Elf_Section_Data.thy ===== *)
theory Elf_Section_Data
  imports Elf_Sections
begin

text \<open>
  The data of sections: \<open>elf_data.c\<close>, \<open>elf_strptr.c\<close>, \<open>libelf_checksum.c\<close> and
  \<open>gelf_checksum.c\<close>.  A section's translated data descriptors are its list \<open>s_data\<close>, the
  raw ones \<open>s_rawdata\<close>.
\<close>

section \<open>Data descriptors\<close>

primrec shdr_addralign :: "Shdr \<Rightarrow> u64" where
  "shdr_addralign (Shdr32 h) = ucast (sh_addralign h)"
| "shdr_addralign (Shdr64 h) = sh_addralign h"

text \<open>The header of a section, read through the member of the union for the class.\<close>

definition scn_shdr :: "int \<Rightarrow> Elf_Scn \<Rightarrow> Shdr option" where
  "scn_shdr ec scn =
     (case s_shdr scn of
        Shdr32 h \<Rightarrow> if ec = ELFCLASS32 then Some (Shdr32 h) else None
      | Shdr64 h \<Rightarrow> if ec = ELFCLASS64 then Some (Shdr64 h) else None)"

text \<open>
  \<open>STAILQ_NEXT\<close>: the next descriptor on the list that \<open>d\<close> is on.  The address of the
  public part of no descriptor is \<open>NULL\<close>, since that part comes first.
\<close>

definition next_data :: "data_ref \<Rightarrow> store \<Rightarrow> (data_ref option) option" where
  "next_data d st =
     do { ld \<leftarrow> datas st d;
          s \<leftarrow> d_scn ld;
          scn \<leftarrow> scns st s;
          if d \<in> set (s_data scn) then next_in d (s_data scn) else next_in d (s_rawdata scn) }"

definition append_data :: "scn_ref \<Rightarrow> data_ref \<Rightarrow> store \<Rightarrow> store option" where
  "append_data s d st =
     do { scn \<leftarrow> scns st s; Some (set_scn s (scn\<lparr>s_data := s_data scn @ [d]\<rparr>) st) }"

definition append_rawdata :: "scn_ref \<Rightarrow> data_ref \<Rightarrow> store \<Rightarrow> store option" where
  "append_rawdata s d st =
     do { scn \<leftarrow> scns st s; Some (set_scn s (scn\<lparr>s_rawdata := s_rawdata scn @ [d]\<rparr>) st) }"

text \<open>A range of the file, by its offset and size.\<close>

definition in_file :: "Elf \<Rightarrow> u64 \<Rightarrow> u64 \<Rightarrow> bool" where
  "in_file elf off sz \<longleftrightarrow> \<not> (off > e_rawsize elf \<or> sz > e_rawsize elf - off)"

text \<open>The end of \<open>elf_getdata\<close>: a descriptor for \<open>count\<close> elements is filled from the file.\<close>

definition getdata_load ::
  "scn_ref \<Rightarrow> Elf \<Rightarrow> Shdr \<Rightarrow> int \<Rightarrow> u64 \<Rightarrow> u64 \<Rightarrow> store \<Rightarrow> (data_ref option \<times> store) option"
where
  "getdata_load s elf sh elftype count msz st =
     do { let (dr, st) = libelf_allocate_data s st;
          case dr of None \<Rightarrow> Some (None, st)
          | Some d \<Rightarrow>
              do { ld \<leftarrow> datas st d;
                   let data = \<lparr>d_align = shdr_addralign sh, d_buf = None, d_off = 0, d_size = msz * count,
                       d_type = elftype, d_version = e_version elf\<rparr>;
                   let ld = ld\<lparr>d_data := data\<rparr>;
                   let st = set_data d ld st;
                   if shdr_type sh = SHT_NOBITS \<or> shdr_size sh = 0
                   then do { st \<leftarrow> append_data s d st; Some (Some d, st) }
                   else
                     let (buf, st) = malloc (unat (msz * count)) st
                     in if buf = None
                        then do { st \<leftarrow> libelf_release_data d st; Some (None, set_error ELF_E_RESOURCE st) }
                        else
                          let ld = ld\<lparr>d_data := data\<lparr>d_buf := buf\<rparr>,
                                d_flags := d_flags ld OR LIBELF_F_DATA_MALLOCED\<rparr>;
                              st = set_data d ld st
                          in do { (ok, st) \<leftarrow> translate elftype ELF_TOMEMORY (e_class elf) buf (msz * count)
                                    (ptr_add (e_rawfile elf) (shdr_offset sh)) count (swap_needed elf st) st;
                                  if \<not> ok
                                  then do { st \<leftarrow> libelf_release_data d st; Some (None, set_error ELF_E_DATA st) }
                                  else do { st \<leftarrow> append_data s d st; Some (Some d, st) } } } }"

definition elf_getdata :: "scn_ref option \<Rightarrow> data_ref option \<Rightarrow> store \<Rightarrow> (data_ref option \<times> store) option" where
  "elf_getdata sr dr st =
     (case sr of None \<Rightarrow> Some (None, set_error ELF_E_ARGUMENT st)
      | Some s \<Rightarrow>
          do { scn \<leftarrow> scns st s;
               case s_elf scn of None \<Rightarrow> Some (None, set_error ELF_E_ARGUMENT st)
               | Some e \<Rightarrow>
                   do { same \<leftarrow> (case dr of None \<Rightarrow> Some True
                          | Some d \<Rightarrow> do { ld \<leftarrow> datas st d; Some (d_scn ld = Some s) });
                        if \<not> same then Some (None, set_error ELF_E_ARGUMENT st)
                        else
                          do { elf \<leftarrow> elfs st e;
                               assert_that (e_kind elf = ELF_K_ELF);
                               case (dr, s_data scn) of
                                 (Some d, _) \<Rightarrow> do { r \<leftarrow> next_data d st; Some (r, st) }
                               | (None, d # ds) \<Rightarrow> Some (Some d, st)
                               | (None, []) \<Rightarrow>
                                   if e_rawfile elf = None then Some (None, set_error ELF_E_ARGUMENT st)
                                   else
                                     do { let ec = e_class elf;
                                          assert_that (ec = ELFCLASS32 \<or> ec = ELFCLASS64);
                                          sh \<leftarrow> scn_shdr ec scn;
                                          let elftype = libelf_xlate_shtype (shdr_type sh);
                                          if shdr_type sh = SHT_NULL then Some (None, set_error ELF_E_SECTION st)
                                          else if elftype < ELF_T_FIRST \<or> elftype > ELF_T_LAST
                                            \<or> (shdr_type sh \<noteq> SHT_NOBITS
                                               \<and> \<not> in_file elf (shdr_offset sh) (shdr_size sh))
                                          then Some (None, set_error ELF_E_SECTION st)
                                          else
                                            do { let (fsz, st) = (if ec = ELFCLASS32 then elf32_fsize else elf64_fsize)
                                                   elftype 1 (e_version elf) st;
                                                 if fsz = 0 then Some (None, set_error ELF_E_UNIMPL st)
                                                 else if shdr_size sh mod fsz \<noteq> 0
                                                 then Some (None, set_error ELF_E_SECTION st)
                                                 else
                                                   do { let count = shdr_size sh div fsz;
                                                        (msz, st) \<leftarrow> libelf_msize elftype ec (e_version elf) st;
                                                        if count > 0 \<and> msz > -1 div count
                                                        then Some (None, set_error ELF_E_RANGE st)
                                                        else
                                                          do { assert_that (msz > 0);
                                                               getdata_load s elf sh elftype count msz st } } } } } } })"

definition elf_newdata :: "scn_ref option \<Rightarrow> store \<Rightarrow> (data_ref option \<times> store) option" where
  "elf_newdata sr st =
     (case sr of None \<Rightarrow> Some (None, set_error ELF_E_ARGUMENT st)
      | Some s \<Rightarrow>
          do { scn \<leftarrow> scns st s;
               case s_elf scn of None \<Rightarrow> Some (None, set_error ELF_E_ARGUMENT st)
               | Some e \<Rightarrow>
                   do { elf \<leftarrow> elfs st e;
                        assert_that (e_kind elf = ELF_K_ELF);
                        (ok, st) \<leftarrow>
                          (if e_rawfile elf \<noteq> None \<and> s_size scn > 0 \<and> s_data scn = []
                           then do { (d, st) \<leftarrow> elf_getdata sr None st; Some (d \<noteq> None, st) }
                           else Some (True, st));
                        if \<not> ok then Some (None, st)
                        else
                          do { let (dr, st) = libelf_allocate_data s st;
                               case dr of None \<Rightarrow> Some (None, st)
                               | Some d \<Rightarrow>
                                   do { st \<leftarrow> append_data s d st;
                                        ld \<leftarrow> datas st d;
                                        let st = set_data d (ld\<lparr>d_data := \<lparr>d_align = 1, d_buf = None, d_off = -1,
                                          d_size = 0, d_type = ELF_T_BYTE,
                                          d_version = libelf_version (globals st)\<rparr>\<rparr>) st;
                                        (_, st) \<leftarrow> elf_flagscn sr ELF_C_SET ELF_F_DIRTY st;
                                        Some (Some d, st) } } } })"

definition elf_rawdata :: "scn_ref option \<Rightarrow> data_ref option \<Rightarrow> store \<Rightarrow> (data_ref option \<times> store) option" where
  "elf_rawdata sr dr st =
     (case sr of None \<Rightarrow> Some (None, set_error ELF_E_ARGUMENT st)
      | Some s \<Rightarrow>
          do { scn \<leftarrow> scns st s;
               case s_elf scn of None \<Rightarrow> Some (None, set_error ELF_E_ARGUMENT st)
               | Some e \<Rightarrow>
                   do { elf \<leftarrow> elfs st e;
                        if e_rawfile elf = None then Some (None, set_error ELF_E_ARGUMENT st)
                        else
                          do { assert_that (e_kind elf = ELF_K_ELF);
                               case (dr, s_rawdata scn) of
                                 (Some d, _) \<Rightarrow> do { r \<leftarrow> next_data d st; Some (r, st) }
                               | (None, d # ds) \<Rightarrow> Some (Some d, st)
                               | (None, []) \<Rightarrow>
                                   do { let ec = e_class elf;
                                        assert_that (ec = ELFCLASS32 \<or> ec = ELFCLASS64);
                                        sh \<leftarrow> scn_shdr ec scn;
                                        if shdr_type sh = SHT_NULL then Some (None, set_error ELF_E_SECTION st)
                                        else if shdr_type sh \<noteq> SHT_NOBITS
                                          \<and> \<not> in_file elf (shdr_offset sh) (shdr_size sh)
                                        then Some (None, set_error ELF_E_SECTION st)
                                        else
                                          do { let (dr, st) = libelf_allocate_data s st;
                                               case dr of None \<Rightarrow> Some (None, st)
                                               | Some d \<Rightarrow>
                                                   do { ld \<leftarrow> datas st d;
                                                        let buf = (if shdr_type sh = SHT_NOBITS \<or> shdr_size sh = 0
                                                          then None else ptr_add (e_rawfile elf) (shdr_offset sh));
                                                        let st = set_data d (ld\<lparr>d_data := \<lparr>
                                                          d_align = shdr_addralign sh, d_buf = buf, d_off = 0,
                                                          d_size = shdr_size sh, d_type = ELF_T_BYTE,
                                                          d_version = e_version elf\<rparr>\<rparr>) st;
                                                        st \<leftarrow> append_rawdata s d st;
                                                        Some (Some d, st) } } } } } })"

section \<open>String pointers\<close>

text \<open>\<open>roundup2\<close> of \<open>_elftc.h\<close>, which is the C library's \<open>roundup\<close>.\<close>

definition roundup2 :: "u64 \<Rightarrow> u64 \<Rightarrow> u64" where
  "roundup2 x y = (x + (y - 1)) div y * y"

text \<open>
  The two loops of \<open>elf_strptr\<close>.  Each iteration asks for the descriptor after \<open>d\<close>, as
  the C code does; a loop that does not end would be \<open>None\<close>.
\<close>

partial_function (option) strptr_layout ::
  "scn_ref \<Rightarrow> u64 \<Rightarrow> data_ref option \<Rightarrow> store \<Rightarrow> (ptr \<times> store) option"
where
  "strptr_layout s offset dr st =
     do { (dr, st) \<leftarrow> elf_getdata (Some s) dr st;
          case dr of None \<Rightarrow> Some (None, set_error ELF_E_ARGUMENT st)
          | Some d \<Rightarrow>
              do { ld \<leftarrow> datas st d;
                   let x = d_data ld;
                   if d_buf x = None \<or> d_size x = 0 then strptr_layout s offset (Some d) st
                   else if d_type x \<noteq> ELF_T_BYTE then Some (None, set_error ELF_E_DATA st)
                   else if offset \<ge> d_off x \<and> offset < d_off x + d_size x
                   then Some (ptr_add (d_buf x) (offset - d_off x), st)
                   else strptr_layout s offset (Some d) st } }"

partial_function (option) strptr_compute ::
  "scn_ref \<Rightarrow> u64 \<Rightarrow> u64 \<Rightarrow> data_ref option \<Rightarrow> store \<Rightarrow> (ptr \<times> store) option"
where
  "strptr_compute s offset count dr st =
     do { (dr, st) \<leftarrow> elf_getdata (Some s) dr st;
          case dr of None \<Rightarrow> Some (None, set_error ELF_E_ARGUMENT st)
          | Some d \<Rightarrow>
              if \<not> count \<le> offset then Some (None, set_error ELF_E_ARGUMENT st)
              else
                do { ld \<leftarrow> datas st d;
                     let x = d_data ld;
                     if d_buf x = None \<or> d_size x = 0 then strptr_compute s offset count (Some d) st
                     else if d_type x \<noteq> ELF_T_BYTE then Some (None, set_error ELF_E_DATA st)
                     else if d_align x > 1 \<and> d_align x AND (d_align x - 1) \<noteq> 0
                     then Some (None, set_error ELF_E_DATA st)
                     else
                       let count = (if d_align x > 1 then roundup2 count (d_align x) else count)
                       in if offset < count then Some (None, set_error ELF_E_ARGUMENT st)
                          else if offset < count + d_size x
                          then Some (ptr_add (d_buf x) (offset - count), st)
                          else strptr_compute s offset (count + d_size x) (Some d) st } }"

definition elf_strptr :: "elf_ref option \<Rightarrow> u64 \<Rightarrow> u64 \<Rightarrow> store \<Rightarrow> (ptr \<times> store) option" where
  "elf_strptr er scndx offset st =
     (case er of None \<Rightarrow> Some (None, set_error ELF_E_ARGUMENT st)
      | Some e \<Rightarrow>
          do { elf \<leftarrow> elfs st e;
               if e_kind elf \<noteq> ELF_K_ELF then Some (None, set_error ELF_E_ARGUMENT st)
               else
                 do { (sr, st) \<leftarrow> elf_getscn er scndx st;
                      case sr of None \<Rightarrow> Some (None, st)
                      | Some s \<Rightarrow>
                          do { (shdr, st) \<leftarrow> gelf_getshdr (Some s) True st;
                               case shdr of None \<Rightarrow> Some (None, st)
                               | Some shdr \<Rightarrow>
                                   if sh_type shdr \<noteq> SHT_STRTAB \<or> offset \<ge> sh_size shdr
                                   then Some (None, set_error ELF_E_ARGUMENT st)
                                   else
                                     do { elf \<leftarrow> elfs st e;
                                          if e_flags elf AND ELF_F_LAYOUT \<noteq> 0
                                          then strptr_layout s offset None st
                                          else strptr_compute s offset 0 None st } } } })"

section \<open>Checksums\<close>

definition libelf_sum :: "u64 \<Rightarrow> ptr \<Rightarrow> u64 \<Rightarrow> store \<Rightarrow> u64 option" where
  "libelf_sum c s sz st =
     (if s = None \<or> sz = 0 then Some c
      else do { bs \<leftarrow> read_bytes s (unat sz) st; Some (foldl (\<lambda>c b. c + ucast b) c bs) })"

partial_function (option) checksum_data ::
  "scn_ref \<Rightarrow> u64 \<Rightarrow> data_ref option \<Rightarrow> store \<Rightarrow> (u64 \<times> store) option"
where
  "checksum_data s checksum dr st =
     do { (dr, st) \<leftarrow> elf_rawdata (Some s) dr st;
          case dr of None \<Rightarrow> Some (checksum, st)
          | Some d \<Rightarrow>
              do { ld \<leftarrow> datas st d;
                   checksum \<leftarrow> libelf_sum checksum (d_buf (d_data ld)) (d_size (d_data ld)) st;
                   checksum_data s checksum (Some d) st } }"

text \<open>The loop over the sections; its result is \<open>None\<close> where the C code returns 0 early.\<close>

partial_function (option) checksum_sections ::
  "elf_ref \<Rightarrow> u64 \<Rightarrow> u64 \<Rightarrow> store \<Rightarrow> (u64 option \<times> store) option"
where
  "checksum_sections e shn checksum st =
     do { elf \<leftarrow> elfs st e;
          if \<not> shn < e_nscn elf then Some (Some checksum, st)
          else
            do { (sr, st) \<leftarrow> elf_getscn (Some e) shn st;
                 case sr of None \<Rightarrow> Some (None, st)
                 | Some s \<Rightarrow>
                     do { (shdr, st) \<leftarrow> gelf_getshdr (Some s) True st;
                          case shdr of None \<Rightarrow> Some (None, st)
                          | Some shdr \<Rightarrow>
                              if sh_flags shdr AND SHF_ALLOC = 0 \<or> sh_type shdr = SHT_DYNAMIC
                                \<or> sh_type shdr = SHT_DYNSYM
                              then checksum_sections e (shn + 1) checksum st
                              else
                                do { (checksum, st) \<leftarrow> checksum_data s checksum None st;
                                     checksum_sections e (shn + 1) checksum st } } } }"

definition fold_checksum :: "u64 \<Rightarrow> u64" where
  "fold_checksum c = (drop_bit 16 c AND 0xFFFF) + (c AND 0xFFFF)"

definition libelf_checksum :: "elf_ref option \<Rightarrow> int \<Rightarrow> store \<Rightarrow> (u64 \<times> store) option" where
  "libelf_checksum er elfclass st =
     (case er of None \<Rightarrow> Some (0, set_error ELF_E_ARGUMENT st)
      | Some e \<Rightarrow>
          do { elf \<leftarrow> elfs st e;
               if e_class elf \<noteq> elfclass then Some (0, set_error ELF_E_CLASS st)
               else
                 do { (eh, st) \<leftarrow> gelf_getehdr er True st;
                      case eh of None \<Rightarrow> Some (0, st)
                      | Some _ \<Rightarrow>
                          do { (c, st) \<leftarrow> checksum_sections e 1 0 st;
                               Some (case c of None \<Rightarrow> 0 | Some c \<Rightarrow> fold_checksum c, st) } } })"

definition elf32_checksum :: "elf_ref option \<Rightarrow> store \<Rightarrow> (u64 \<times> store) option" where
  "elf32_checksum er st = libelf_checksum er ELFCLASS32 st"

definition elf64_checksum :: "elf_ref option \<Rightarrow> store \<Rightarrow> (u64 \<times> store) option" where
  "elf64_checksum er st = libelf_checksum er ELFCLASS64 st"

definition gelf_checksum :: "elf_ref option \<Rightarrow> store \<Rightarrow> (u64 \<times> store) option" where
  "gelf_checksum er st =
     (case er of None \<Rightarrow> Some (0, set_error ELF_E_ARGUMENT st)
      | Some e \<Rightarrow>
          do { elf \<leftarrow> elfs st e;
               if e_class elf \<noteq> ELFCLASS32 \<and> e_class elf \<noteq> ELFCLASS64
               then Some (0, set_error ELF_E_ARGUMENT st)
               else libelf_checksum er (e_class elf) st })"

section \<open>Translated data\<close>

text \<open>
  \<open>mem_image t ec sw off S n D\<close>: \<open>D\<close> holds the \<open>n\<close> elements of type \<open>t\<close> that the file
  bytes \<open>S\<close> have from \<open>off\<close> on.
\<close>

definition fixed_size :: "int \<Rightarrow> int \<Rightarrow> bool" where
  "fixed_size t ec \<longleftrightarrow> t = ELF_T_BYTE \<or> type_layout t ec \<noteq> None"

definition mem_image :: "int \<Rightarrow> int \<Rightarrow> bool \<Rightarrow> nat \<Rightarrow> byte list \<Rightarrow> nat \<Rightarrow> byte list \<Rightarrow> bool" where
  "mem_image t ec sw off S n D \<longleftrightarrow>
     length D = n * msize_table t ec
     \<and> (if t = ELF_T_BYTE then D = segment off n S
        else case type_layout t ec of None \<Rightarrow> False
          | Some def \<Rightarrow> \<forall>i<n. mem_struct ec def (elem 0 (struct_size ec def) i D)
                            = file_struct sw ec def (elem off (FSZ ec def) i S))"

lemma byte_sizes: "fsize_table ELF_T_BYTE ec = 1" "msize_table ELF_T_BYTE ec = 1"
  by (simp_all add: fsize_table_def msize_table_def prim_basic_def comp_layout_def)

lemma comp_layout_bounds:
  assumes "comp_layout t ec = Some def" "std_class ec"
  shows "0 < struct_size ec def \<and> struct_size ec def \<le> 64 \<and> 0 < FSZ ec def \<and> FSZ ec def \<le> 64"
  using assms
  by (auto simp: comp_layout_def Let_def DEF_simps struct_size_def struct_align_def align_up_def
      std_class_def simp flip: numeral_2_eq_2 split: if_splits)

lemma prim_layout_bounds:
  assumes "valid_layout ec (prim_layout b)" "b \<noteq> IDENT"
  shows "0 < basic_fsize ec b \<and> basic_fsize ec b \<le> 8"
  using prim_layout_sizes(4) [OF assms] assms(2) by (cases b) auto

lemma type_layout_bounds:
  assumes "type_layout t ec = Some def" "std_class ec"
  shows "0 < struct_size ec def \<and> struct_size ec def \<le> 64 \<and> 0 < FSZ ec def \<and> FSZ ec def \<le> 64"
  using assms
proof (cases rule: type_layout_cases)
  case (prim b)
  then show ?thesis using prim_layout_bounds [of ec b] by (auto simp: prim_layout_sizes)
next
  case comp
  then show ?thesis using comp_layout_bounds assms(2) by blast
qed

lemma fixed_size_table:
  assumes "fixed_size t ec" "std_class ec"
  shows "0 < fsize_table t ec" "0 < msize_table t ec" "0 \<le> t" "t < ELF_T_NUM"
    "fsize_table t ec \<le> 64" "msize_table t ec \<le> 64"
proof -
  have "0 < fsize_table t ec \<and> 0 < msize_table t ec \<and> 0 \<le> t \<and> t < ELF_T_NUM
    \<and> fsize_table t ec \<le> 64 \<and> msize_table t ec \<le> 64"
  proof (cases "t = ELF_T_BYTE")
    case True
    then show ?thesis by (simp add: byte_sizes)
  next
    case False
    then obtain def where d: "type_layout t ec = Some def" using assms(1) by (auto simp: fixed_size_def)
    show ?thesis
      using type_layout_sizes [OF d assms(2)] type_layout_bounds [OF d assms(2)] by simp
  qed
  then show "0 < fsize_table t ec" "0 < msize_table t ec" "0 \<le> t" "t < ELF_T_NUM"
    "fsize_table t ec \<le> 64" "msize_table t ec \<le> 64" by blast+
qed

lemma translate_into_fresh:
  assumes "fixed_size t ec" "std_class ec" "mem st b = Some S"
    and "off + unat n * fsize_table t ec \<le> length S" "unat n * msize_table t ec < 2 ^ 64"
    and "mem st nb = Some (replicate (unat n * msize_table t ec) 0)" "nb \<noteq> b"
  shows "\<exists>D. translate t ELF_TOMEMORY ec (Some (nb, 0)) (of_nat (unat n * msize_table t ec))
      (Some (b, off)) n sw st = Some (True, st\<lparr>mem := (mem st)(nb \<mapsto> D)\<rparr>) \<and> mem_image t ec sw off S (unat n) D"
proof (cases "t = ELF_T_BYTE")
  case True
  have "translate t ELF_TOMEMORY ec (Some (nb, 0)) (of_nat (unat n * msize_table t ec)) (Some (b, off)) n sw st
    = Some (True, st\<lparr>mem := (mem st)(nb \<mapsto> segment off (unat n) S)\<rparr>)"
    using assms(2-7) True
    by (auto simp: translate_def libelf_get_translator_def cvt_table_def cvt_BYTE_tox_def byte_sizes memcpy_def
        std_class_def segment_def write_bytes_def Let_def fun_upd_idem)
  then show ?thesis using True assms(4) by (auto simp: mem_image_def byte_sizes)
next
  case False
  then obtain def where def: "type_layout t ec = Some def" using assms(1) by (auto simp: fixed_size_def)
  note sz = type_layout_sizes [OF def assms(2)]
  have dsz: "unat (of_nat (unat n * msize_table t ec) :: u64) = unat n * msize_table t ec"
    using assms(5) by (simp add: unat_of_nat take_bit_nat_eq_self del: of_nat_mult)
  show ?thesis
    using translate_tom_correct [OF def assms(2,3) _ assms(6), of off n 0 "of_nat (unat n * msize_table t ec)" sw]
      assms(4,7) dsz sz(1,2) def False
    by (auto simp: tom_result_def mem_image_def)
qed

text \<open>
  A section whose data has not been brought in, of a descriptor with a file image.
\<close>

definition data_readable ::
  "scn_ref \<Rightarrow> Elf_Scn \<Rightarrow> elf_ref \<Rightarrow> Elf \<Rightarrow> nat \<Rightarrow> nat \<Rightarrow> byte list \<Rightarrow> store \<Rightarrow> bool"
where
  "data_readable s scn e elf b off S st \<longleftrightarrow>
     scns st s = Some scn \<and> s_elf scn = Some e \<and> s_data scn = [] \<and> elfs st e = Some elf
     \<and> e_kind elf = ELF_K_ELF \<and> std_class (e_class elf) \<and> e_version elf = EV_CURRENT
     \<and> shdr_class (s_shdr scn) = e_class elf \<and> e_rawfile elf = Some (b, off) \<and> mem st b = Some S
     \<and> off + unat (e_rawsize elf) \<le> length S \<and> length S < 2 ^ 64 \<and> oom st = [] \<and> fresh_mem st"

lemma in_file_nat:
  "in_file elf x n \<longleftrightarrow> unat x + unat n \<le> unat (e_rawsize elf)"
proof -
  have "unat (e_rawsize elf - x) = unat (e_rawsize elf) - unat x" if "x \<le> e_rawsize elf"
    using that by (simp add: unat_sub)
  then show ?thesis
    by (auto simp: in_file_def word_less_nat_alt word_le_nat_alt not_less)
qed

lemma scn_shdr_eq: "shdr_class (s_shdr scn) = ec \<Longrightarrow> scn_shdr ec scn = Some (s_shdr scn)"
  by (auto simp: scn_shdr_def shdr_class_def split: Shdr.splits)

lemma fsize_msize_fixed:
  assumes "fixed_size t ec" "std_class ec"
  shows "(if ec = ELFCLASS32 then elf32_fsize else elf64_fsize) t 1 EV_CURRENT st
      = (of_nat (fsize_table t ec), st)"
    and "libelf_msize t ec EV_CURRENT st = Some (of_nat (msize_table t ec), st)"
    and "unat (of_nat (fsize_table t ec) :: u64) = fsize_table t ec"
    and "unat (of_nat (msize_table t ec) :: u64) = msize_table t ec"
proof -
  note tab = fixed_size_table [OF assms]
  show u: "unat (of_nat (fsize_table t ec) :: u64) = fsize_table t ec"
    "unat (of_nat (msize_table t ec) :: u64) = msize_table t ec"
    using tab by (simp_all add: unat_of_nat take_bit_nat_eq_self)
  have "(of_nat (fsize_table t ec) :: u64) \<noteq> 0" using u(1) tab(1) by (metis less_irrefl unat_0)
  then show "(if ec = ELFCLASS32 then elf32_fsize else elf64_fsize) t 1 EV_CURRENT st
      = (of_nat (fsize_table t ec), st)"
    using tab(3,4) assms(2)
    by (auto simp: elf32_fsize_def elf64_fsize_def libelf_fsize_def std_class_def Let_def)
  show "libelf_msize t ec EV_CURRENT st = Some (of_nat (msize_table t ec), st)"
    using tab(3,4) assms(2) by (auto simp: libelf_msize_def std_class_def)
qed

text \<open>The store after the data of a section has been brought in.\<close>

definition with_data ::
  "scn_ref \<Rightarrow> Elf_Scn \<Rightarrow> Elf \<Rightarrow> int \<Rightarrow> byte list \<Rightarrow> store \<Rightarrow> store"
where
  "with_data s scn elf t D st =
     st\<lparr>mem := (mem st)(Suc (fresh st) \<mapsto> D),
        scns := (scns st)(s \<mapsto> scn\<lparr>s_data := [fresh st]\<rparr>),
        datas := (datas st)(fresh st \<mapsto>
          \<lparr>d_data = \<lparr>d_align = shdr_addralign (s_shdr scn), d_buf = Some (Suc (fresh st), 0), d_off = 0,
             d_size = of_nat (length D), d_type = t, d_version = EV_CURRENT\<rparr>,
           d_scn = Some s, d_flags = LIBELF_F_DATA_MALLOCED\<rparr>),
        fresh := Suc (Suc (fresh st))\<rparr>"

lemma elf_getdata_fixed:
  assumes r: "data_readable s scn e elf b off S st"
  defines "sh \<equiv> s_shdr scn" and "ec \<equiv> e_class elf"
  defines "t \<equiv> libelf_xlate_shtype (shdr_type sh)"
  defines "n \<equiv> unat (shdr_size sh) div fsize_table t ec"
  assumes t: "fixed_size t ec" "shdr_type sh \<noteq> SHT_NOBITS"
    and size: "in_file elf (shdr_offset sh) (shdr_size sh)" "shdr_size sh \<noteq> 0"
      "unat (shdr_size sh) mod fsize_table t ec = 0" "n * msize_table t ec < 2 ^ 64"
  shows "\<exists>D. elf_getdata (Some s) None st = Some (Some (fresh st), with_data s scn elf t D st)
    \<and> mem_image t ec (swap_needed elf st) (off + unat (shdr_offset sh)) S n D"
proof -
  have r': "scns st s = Some scn" "s_elf scn = Some e" "s_data scn = []" "elfs st e = Some elf"
    "e_kind elf = ELF_K_ELF" "std_class ec" "e_version elf = EV_CURRENT" "shdr_class sh = ec"
    "e_rawfile elf = Some (b, off)" "mem st b = Some S" "off + unat (e_rawsize elf) \<le> length S"
    "length S < 2 ^ 64" "oom st = []" "fresh_mem st"
    using r by (simp_all add: data_readable_def ec_def sh_def)
  define F where "F = (of_nat (fsize_table t ec) :: u64)"
  define M where "M = (of_nat (msize_table t ec) :: u64)"
  define cnt where "cnt = shdr_size sh div F"
  note sizes = fsize_msize_fixed [OF t(1) r'(6), folded F_def M_def]
  note tab = fixed_size_table [OF t(1) r'(6)]
  have F0: "F \<noteq> 0" "0 < M" using sizes(3,4) tab(1,2) by (auto simp: word_gt_0)
  have cnt: "unat cnt = n" using sizes(3) by (simp add: cnt_def n_def unat_div)
  have nF: "n * fsize_table t ec = unat (shdr_size sh)"
    using size(3) unfolding n_def by (metis add.right_neutral div_mult_mod_eq)
  then have n0: "0 < n" using size(2) by (cases n) (auto simp: unat_eq_zero)
  have bytes: "unat (M * cnt) = n * msize_table t ec"
    using size(4) sizes(4) cnt by (simp add: unat_word_ariths mult.commute)
  have bytes': "M * cnt = of_nat (n * msize_table t ec)"
    using bytes by (metis of_nat_unat word_unat_eq_iff ucast_id unsigned_of_nat)
  have no_range: "\<not> (cnt > 0 \<and> M > -1 div cnt)"
  proof -
    have "msize_table t ec \<le> (2 ^ 64 - 1) div n"
      using size(4) n0 by (simp add: less_eq_div_iff_mult_less_eq mult.commute)
    then show ?thesis
      using cnt sizes(4)
      by (simp add: word_less_nat_alt unat_div unsigned_minus_1_eq_mask mask_eq_exp_minus_1 not_less)
  qed
  let ?d = "fresh st" and ?b = "Suc (fresh st)"
  let ?data = "\<lparr>d_align = shdr_addralign sh, d_buf = None, d_off = 0, d_size = M * cnt, d_type = t,
    d_version = EV_CURRENT\<rparr> :: Elf_Data"
  define ld1 where "ld1 = \<lparr>d_data = \<lparr>d_align = shdr_addralign sh, d_buf = Some (?b, 0), d_off = 0,
    d_size = M * cnt, d_type = t, d_version = EV_CURRENT\<rparr>, d_scn = Some s,
    d_flags = LIBELF_F_DATA_MALLOCED\<rparr>"
  define st1 where "st1 = st\<lparr>mem := (mem st)(?b \<mapsto> replicate (n * msize_table t ec) 0),
    datas := (datas st)(?d \<mapsto> ld1), fresh := Suc ?b\<rparr>"
  have swap: "swap_needed elf st1 = swap_needed elf st" by (simp add: swap_needed_def st1_def)
  have b: "?b \<noteq> b" using r'(10,14) by (auto simp: fresh_mem_def)
  have room: "off + unat (shdr_offset sh) + unat cnt * fsize_table t ec \<le> length S"
    using size(1) r'(11) cnt nF by (simp add: in_file_nat)
  obtain D where D: "translate t ELF_TOMEMORY ec (Some (?b, 0)) (M * cnt)
      (Some (b, off + unat (shdr_offset sh))) cnt (swap_needed elf st) st1
    = Some (True, st1\<lparr>mem := (mem st1)(?b \<mapsto> D)\<rparr>)"
    "mem_image t ec (swap_needed elf st) (off + unat (shdr_offset sh)) S n D"
    using translate_into_fresh [OF t(1) r'(6), of st1 b S "off + unat (shdr_offset sh)" cnt ?b "swap_needed elf st"]
      r'(10) room b size(4) by (auto simp: cnt bytes' st1_def)
  have src: "ptr_add (e_rawfile elf) (shdr_offset sh) = Some (b, off + unat (shdr_offset sh))"
    using r'(9,12) room by (simp add: ptr_add_def)
  have len: "of_nat (length D) = M * cnt" using D(2) bytes' by (simp add: mem_image_def)
  have load: "getdata_load s elf sh t cnt M st = Some (Some ?d, with_data s scn elf t D st)"
  proof -
    have alloc: "libelf_allocate_data s st = (Some ?d,
        (set_data ?d \<lparr>d_data = zero_data, d_scn = Some s, d_flags = 0\<rparr> st)\<lparr>fresh := ?b\<rparr>)"
      using r'(13) by (simp add: libelf_allocate_data_def)
    define st0 where "st0 = set_data ?d \<lparr>d_data = ?data, d_scn = Some s, d_flags = 0\<rparr>
        ((set_data ?d \<lparr>d_data = zero_data, d_scn = Some s, d_flags = 0\<rparr> st)\<lparr>fresh := ?b\<rparr>)"
    have mal: "malloc (unat (M * cnt)) st0 = (Some (?b, 0),
        st0\<lparr>mem := (mem st)(?b \<mapsto> replicate (n * msize_table t ec) 0), fresh := Suc ?b\<rparr>)"
      using r'(13) by (simp add: malloc_def bytes st0_def)
    have upd: "set_data ?d ld1 (st0\<lparr>mem := (mem st)(?b \<mapsto> replicate (n * msize_table t ec) 0), fresh := Suc ?b\<rparr>)
        = st1"
      by (cases st) (simp add: st0_def st1_def set_data_def)
    have app: "append_data s ?d (st1\<lparr>mem := (mem st1)(?b \<mapsto> D)\<rparr>) = Some (with_data s scn elf t D st)"
      using r'(1,3) len by (cases st) (simp add: append_data_def st1_def with_data_def set_scn_def ld1_def sh_def)
    show ?thesis
      using alloc mal upd D(1) app t(2) size(2) src swap r'(7)
      by (simp add: getdata_load_def st0_def [symmetric] ld1_def [symmetric] ec_def [symmetric] Let_def)
  qed
  have tt: "\<not> t < ELF_T_FIRST" "\<not> t > ELF_T_LAST" "shdr_type sh \<noteq> SHT_NULL"
    using tab(3,4) by (auto simp: t_def libelf_xlate_shtype_def)
  have md: "shdr_size sh mod F = 0"
    using size(3) sizes(3) by (metis unat_mod unat_eq_zero)
  have "elf_getdata (Some s) None st = getdata_load s elf sh t cnt M st"
    unfolding elf_getdata_def
    using r'(1-6,8,9) tt t(2) size(1) sizes(1) [of st] sizes(2) F0 md no_range
    by (simp add: ec_def [symmetric] sh_def [symmetric] scn_shdr_eq t_def [symmetric] r'(7) std_class_def
        cnt_def [symmetric] Let_def del: de_Morgan_conj)
  then show ?thesis using load D(2) by auto
qed

section \<open>Iterating over data\<close>

text \<open>\<open>data_pos ds dr rest\<close>: after \<open>dr\<close> the descriptors \<open>rest\<close> of the list \<open>ds\<close> are to come.\<close>

fun data_pos :: "data_ref list \<Rightarrow> data_ref option \<Rightarrow> data_ref list \<Rightarrow> bool" where
  "data_pos ds None rest = (rest = ds)"
| "data_pos ds (Some d) rest = (\<exists>pre. ds = pre @ d # rest)"

lemma data_pos_advance: "data_pos ds dr (d # rest) \<Longrightarrow> data_pos ds (Some d) rest"
  by (cases dr) auto

text \<open>The interface of the two operations that hand out a section's data one by one.\<close>

locale data_cursor =
  fixes getnext :: "scn_ref \<Rightarrow> data_ref option \<Rightarrow> store \<Rightarrow> (data_ref option \<times> store) option"
    and present :: "scn_ref \<Rightarrow> data_ref list \<Rightarrow> store \<Rightarrow> bool"
  assumes getnext: "present s ds st \<Longrightarrow> ds \<noteq> [] \<Longrightarrow> data_pos ds dr rest
      \<Longrightarrow> getnext s dr st = Some (case rest of [] \<Rightarrow> None | d # _ \<Rightarrow> Some d, st)"
    and described: "present s ds st \<Longrightarrow> d \<in> set ds \<Longrightarrow> datas st d \<noteq> None"
begin

lemma exhausted: "present s ds st \<Longrightarrow> ds \<noteq> [] \<Longrightarrow> data_pos ds dr [] \<Longrightarrow> getnext s dr st = Some (None, st)"
  using getnext [of s ds st dr "[]"] by simp

lemma advance:
  assumes "present s ds st" "ds \<noteq> []" "data_pos ds dr (d # rest)"
  shows "getnext s dr st = Some (Some d, st)" "data_pos ds (Some d) rest" "\<exists>ld. datas st d = Some ld"
proof -
  show "getnext s dr st = Some (Some d, st)" using getnext [OF assms] by simp
  show "data_pos ds (Some d) rest" by (rule data_pos_advance [OF assms(3)])
  have "d \<in> set ds" using assms(3) by (cases dr) auto
  then show "\<exists>ld. datas st d = Some ld" using described [OF assms(1)] by blast
qed

end

definition data_present :: "scn_ref \<Rightarrow> data_ref list \<Rightarrow> store \<Rightarrow> bool" where
  "data_present s ds st \<longleftrightarrow>
     (\<exists>scn e elf. scns st s = Some scn \<and> s_data scn = ds \<and> s_elf scn = Some e \<and> elfs st e = Some elf
        \<and> e_kind elf = ELF_K_ELF) \<and> distinct ds
     \<and> (\<forall>d\<in>set ds. \<exists>ld. datas st d = Some ld \<and> d_scn ld = Some s)"

definition rawdata_present :: "scn_ref \<Rightarrow> data_ref list \<Rightarrow> store \<Rightarrow> bool" where
  "rawdata_present s ds st \<longleftrightarrow>
     (\<exists>scn e elf. scns st s = Some scn \<and> s_rawdata scn = ds \<and> set (s_data scn) \<inter> set ds = {}
        \<and> s_elf scn = Some e \<and> elfs st e = Some elf \<and> e_kind elf = ELF_K_ELF \<and> e_rawfile elf \<noteq> None)
     \<and> distinct ds \<and> (\<forall>d\<in>set ds. \<exists>ld. datas st d = Some ld \<and> d_scn ld = Some s)"

lemma next_in_append:
  "distinct (pre @ d # rest)
    \<Longrightarrow> next_in d (pre @ d # rest) = Some (case rest of [] \<Rightarrow> None | u # us \<Rightarrow> Some u)"
  by (induction pre) (auto split: list.split)

interpretation translated: data_cursor "\<lambda>s. elf_getdata (Some s)" data_present
proof (unfold_locales, goal_cases)
  case (1 s ds st dr rest)
  then obtain scn e elf where *: "scns st s = Some scn" "s_data scn = ds" "s_elf scn = Some e"
    "elfs st e = Some elf" "e_kind elf = ELF_K_ELF" by (auto simp: data_present_def)
  show ?case
  proof (cases dr)
    case None
    then show ?thesis using 1 * by (cases ds) (auto simp: elf_getdata_def)
  next
    case (Some d)
    then obtain pre where pre: "ds = pre @ d # rest" using 1(3) by auto
    then obtain ld where ld: "datas st d = Some ld" "d_scn ld = Some s"
      using 1(1) by (auto simp: data_present_def)
    have "distinct ds" using 1(1) by (simp add: data_present_def)
    then show ?thesis
      using * ld Some next_in_append [of pre d rest] by (simp add: elf_getdata_def next_data_def pre)
  qed
next
  case (2 s ds st d)
  then show ?case by (auto simp: data_present_def)
qed

interpretation raw: data_cursor "\<lambda>s. elf_rawdata (Some s)" rawdata_present
proof (unfold_locales, goal_cases)
  case (1 s ds st dr rest)
  then obtain scn e elf where *: "scns st s = Some scn" "s_rawdata scn = ds" "s_elf scn = Some e"
    "elfs st e = Some elf" "e_kind elf = ELF_K_ELF" "e_rawfile elf \<noteq> None" "set (s_data scn) \<inter> set ds = {}"
    by (auto simp: rawdata_present_def)
  show ?case
  proof (cases dr)
    case None
    then show ?thesis using 1 * by (cases ds) (auto simp: elf_rawdata_def)
  next
    case (Some d)
    then obtain pre where pre: "ds = pre @ d # rest" using 1(3) by auto
    then obtain ld where ld: "datas st d = Some ld" "d_scn ld = Some s"
      using 1(1) by (auto simp: rawdata_present_def)
    have "distinct ds" "d \<notin> set (s_data scn)" using 1(1) *(7) pre by (auto simp: rawdata_present_def)
    then show ?thesis
      using * ld Some next_in_append [of pre d rest] by (auto simp: elf_rawdata_def next_data_def pre)
  qed
next
  case (2 s ds st d)
  then show ?case by (auto simp: rawdata_present_def)
qed

section \<open>Strings\<close>

text \<open>The bytes of a data descriptor, and the pieces a string table may consist of.\<close>

definition data_bytes :: "Elf_Data \<Rightarrow> store \<Rightarrow> byte list" where
  "data_bytes x st =
     (case d_buf x of None \<Rightarrow> []
      | Some (b, off) \<Rightarrow> (case mem st b of None \<Rightarrow> [] | Some bs \<Rightarrow> segment off (unat (d_size x)) bs))"

definition string_piece :: "Elf_Data \<Rightarrow> store \<Rightarrow> bool" where
  "string_piece x st \<longleftrightarrow>
     d_type x = ELF_T_BYTE \<and> d_align x \<le> 1
     \<and> (\<exists>b off bs. d_buf x = Some (b, off) \<and> mem st b = Some bs \<and> off + unat (d_size x) \<le> length bs
          \<and> length bs < 2 ^ 64)"

definition piece_bytes :: "store \<Rightarrow> data_ref \<Rightarrow> byte list" where
  "piece_bytes st d = (case datas st d of None \<Rightarrow> [] | Some ld \<Rightarrow> data_bytes (d_data ld) st)"

text \<open>The byte a pointer points at.\<close>

definition byte_at :: "ptr \<Rightarrow> store \<Rightarrow> byte option" where
  "byte_at p st = map_option hd (read_bytes p 1 st)"

lemma byte_at_Some: "mem st b = Some bs \<Longrightarrow> off < length bs \<Longrightarrow> byte_at (Some (b, off)) st = Some (bs ! off)"
  by (simp add: byte_at_def hd_drop_conv_nth take_Suc)

lemma strptr_compute_step:
  assumes p: "data_present s ds st" "ds \<noteq> []" "data_pos ds dr (d # rest)" and ld: "datas st d = Some ld"
    and piece: "string_piece (d_data ld) st" and c: "count \<le> offset"
    and small: "unat count + unat (d_size (d_data ld)) < 2 ^ 64"
  shows "length (piece_bytes st d) = unat (d_size (d_data ld))"
    and "strptr_compute s offset count dr st =
    (if unat offset < unat count + unat (d_size (d_data ld))
     then Some (ptr_add (d_buf (d_data ld)) (offset - count), st)
     else strptr_compute s offset (count + d_size (d_data ld)) (Some d) st)"
    and "unat offset < unat count + unat (d_size (d_data ld))
      \<Longrightarrow> byte_at (ptr_add (d_buf (d_data ld)) (offset - count)) st
        = Some (piece_bytes st d ! (unat offset - unat count))"
proof -
  let ?x = "d_data ld"
  obtain b off bs where x: "d_buf ?x = Some (b, off)" "mem st b = Some bs" "off + unat (d_size ?x) \<le> length bs"
    "length bs < 2 ^ 64" "d_type ?x = ELF_T_BYTE" "d_align ?x \<le> 1"
    using piece by (auto simp: string_piece_def)
  show "length (piece_bytes st d) = unat (d_size ?x)"
    using x ld by (simp add: piece_bytes_def data_bytes_def)
  have sum: "unat (count + d_size ?x) = unat count + unat (d_size ?x)"
    using small by (subst unat_add_lem [THEN iffD1]) simp_all
  have "\<not> offset < count" using c by (simp add: not_less)
  then show "strptr_compute s offset count dr st =
    (if unat offset < unat count + unat (d_size ?x)
     then Some (ptr_add (d_buf ?x) (offset - count), st)
     else strptr_compute s offset (count + d_size ?x) (Some d) st)"
    using translated.advance(1) [OF p] ld x c sum
    by (subst strptr_compute.simps) (auto simp: Let_def word_less_nat_alt word_le_nat_alt unat_eq_zero)
  show "byte_at (ptr_add (d_buf ?x) (offset - count)) st = Some (piece_bytes st d ! (unat offset - unat count))"
    if "unat offset < unat count + unat (d_size ?x)"
  proof -
    have diff: "unat (offset - count) = unat offset - unat count" using c by (simp add: unat_sub)
    have "unat offset - unat count < unat (d_size ?x)" using that c by (simp add: word_le_nat_alt)
    then show ?thesis
      using x ld diff
      by (simp add: ptr_add_def byte_at_Some piece_bytes_def data_bytes_def segment_def)
  qed
qed

lemma strptr_compute_correct:
  assumes p: "data_present s ds st" "ds \<noteq> []"
    and "data_pos ds dr rest" "\<forall>d\<in>set rest. \<exists>ld. datas st d = Some ld \<and> string_piece (d_data ld) st"
    and "count \<le> offset" "unat count + length (concat (map (piece_bytes st) rest)) < 2 ^ 64"
  shows "if unat offset < unat count + length (concat (map (piece_bytes st) rest))
    then \<exists>p. strptr_compute s offset count dr st = Some (p, st)
           \<and> byte_at p st = Some (concat (map (piece_bytes st) rest) ! (unat offset - unat count))
    else strptr_compute s offset count dr st = Some (None, set_error ELF_E_ARGUMENT st)"
  using assms(3-)
proof (induction rest arbitrary: dr count)
  case Nil
  then have "\<not> unat offset < unat count" by (simp add: word_le_nat_alt)
  then show ?case
    using translated.exhausted [OF p Nil(1)] by (subst strptr_compute.simps) simp
next
  case (Cons d rest)
  obtain ld where ld: "datas st d = Some ld" "string_piece (d_data ld) st" using Cons.prems(2) by auto
  let ?n = "unat (d_size (d_data ld))"
  have size: "length (piece_bytes st d) = ?n"
    using strptr_compute_step(1) [OF p Cons.prems(1) ld Cons.prems(3)] ld Cons.prems(4)
    by (auto simp: piece_bytes_def data_bytes_def string_piece_def)
  have small: "unat count + ?n < 2 ^ 64" using Cons.prems(4) size by simp
  note step = strptr_compute_step [OF p Cons.prems(1) ld Cons.prems(3) small]
  show ?case
  proof (cases "unat offset < unat count + ?n")
    case True
    have "unat count \<le> unat offset" using Cons.prems(3) by (simp add: word_le_nat_alt)
    then show ?thesis using step(2) step(3) [OF True] True size by (simp add: nth_append) auto
  next
    case False
    let ?c = "count + d_size (d_data ld)"
    have c: "unat ?c = unat count + ?n" using small by (subst unat_add_lem [THEN iffD1]) simp_all
    have IH: "if unat offset < unat ?c + length (concat (map (piece_bytes st) rest))
      then \<exists>p. strptr_compute s offset ?c (Some d) st = Some (p, st)
             \<and> byte_at p st = Some (concat (map (piece_bytes st) rest) ! (unat offset - unat ?c))
      else strptr_compute s offset ?c (Some d) st = Some (None, set_error ELF_E_ARGUMENT st)"
      using Cons.prems False c size by (intro Cons.IH data_pos_advance) (auto simp: word_le_nat_alt)
    have len: "unat count + length (concat (map (piece_bytes st) (d # rest)))
        = unat ?c + length (concat (map (piece_bytes st) rest))"
      using size c by simp
    have "\<not> unat offset - unat count < ?n" using False by simp
    then have idx: "concat (map (piece_bytes st) (d # rest)) ! (unat offset - unat count)
        = concat (map (piece_bytes st) rest) ! (unat offset - unat ?c)"
      using size c by (simp add: nth_append diff_diff_left)
    show ?thesis using IH unfolding len idx step(2) using False by (simp only: if_False)
  qed
qed

section \<open>Checksums of files\<close>

definition gshdr :: "Shdr \<Rightarrow> GElf_Shdr" where
  "gshdr sh = (case sh of Shdr32 h \<Rightarrow> shdr_widen h | Shdr64 h \<Rightarrow> h)"

definition sum_bytes :: "byte list \<Rightarrow> u64" where
  "sum_bytes bs = sum_list (map ucast bs)"

lemma foldl_sum_bytes: "foldl (\<lambda>c b. c + ucast b) c bs = c + sum_bytes bs"
  by (induction bs arbitrary: c) (simp_all add: sum_bytes_def add.assoc)

text \<open>The sections whose bytes count, and those bytes.\<close>

definition counted :: "Shdr \<Rightarrow> bool" where
  "counted sh \<longleftrightarrow> sh_flags (gshdr sh) AND SHF_ALLOC \<noteq> 0 \<and> sh_type (gshdr sh) \<noteq> SHT_DYNAMIC
     \<and> sh_type (gshdr sh) \<noteq> SHT_DYNSYM"

definition file_bytes_of :: "nat \<Rightarrow> byte list \<Rightarrow> Shdr \<Rightarrow> byte list" where
  "file_bytes_of off S sh =
     (if shdr_type sh = SHT_NOBITS then [] else segment (off + unat (shdr_offset sh)) (unat (shdr_size sh)) S)"

definition checksum_spec :: "nat \<Rightarrow> byte list \<Rightarrow> Shdr list \<Rightarrow> u64" where
  "checksum_spec off S shs =
     fold_checksum (sum_list (map (\<lambda>sh. sum_bytes (file_bytes_of off S sh)) (filter counted shs)))"

text \<open>A section whose raw data can be had but has not been asked for.\<close>

definition raw_readable :: "elf_ref \<Rightarrow> Elf \<Rightarrow> nat \<Rightarrow> nat \<Rightarrow> byte list \<Rightarrow> Elf_Scn \<Rightarrow> bool" where
  "raw_readable e elf b off S scn \<longleftrightarrow>
     s_elf scn = Some e \<and> s_rawdata scn = [] \<and> s_data scn = [] \<and> shdr_class (s_shdr scn) = e_class elf
     \<and> (counted (s_shdr scn) \<longrightarrow> shdr_type (s_shdr scn) \<noteq> SHT_NULL
          \<and> (shdr_type (s_shdr scn) \<noteq> SHT_NOBITS \<longrightarrow> in_file elf (shdr_offset (s_shdr scn)) (shdr_size (s_shdr scn))))"

definition image_of :: "elf_ref \<Rightarrow> Elf \<Rightarrow> nat \<Rightarrow> nat \<Rightarrow> byte list \<Rightarrow> store \<Rightarrow> bool" where
  "image_of e elf b off S st \<longleftrightarrow>
     elfs st e = Some elf \<and> e_kind elf = ELF_K_ELF \<and> std_class (e_class elf)
     \<and> e_rawfile elf = Some (b, off) \<and> mem st b = Some S \<and> off + unat (e_rawsize elf) \<le> length S
     \<and> length S < 2 ^ 64 \<and> oom st = []"

lemma checksum_data_unread:
  assumes im: "image_of e elf b off S st" and scn: "scns st s = Some scn"
    and raw: "raw_readable e elf b off S scn" and cnt: "counted (s_shdr scn)"
  shows "\<exists>st'. checksum_data s c None st = Some (c + sum_bytes (file_bytes_of off S (s_shdr scn)), st')
    \<and> elfs st' = elfs st \<and> mem st' = mem st \<and> oom st' = [] \<and> fresh st \<le> fresh st'
    \<and> scns st' = (scns st)(s \<mapsto> scn\<lparr>s_rawdata := [fresh st]\<rparr>)"
proof -
  let ?d = "fresh st" and ?sh = "s_shdr scn"
  define buf where "buf = (if shdr_type ?sh = SHT_NOBITS \<or> shdr_size ?sh = 0 then None
    else Some (b, off + unat (shdr_offset ?sh)))"
  define ld where "ld = \<lparr>d_data = \<lparr>d_align = shdr_addralign ?sh, d_buf = buf, d_off = 0,
    d_size = shdr_size ?sh, d_type = ELF_T_BYTE, d_version = e_version elf\<rparr>, d_scn = Some s, d_flags = 0\<rparr>"
  define st' where "st' = st\<lparr>datas := (datas st)(?d \<mapsto> ld), fresh := Suc ?d,
    scns := (scns st)(s \<mapsto> scn\<lparr>s_rawdata := [?d]\<rparr>)\<rparr>"
  have im': "elfs st e = Some elf" "e_kind elf = ELF_K_ELF" "e_class elf = ELFCLASS32 \<or> e_class elf = ELFCLASS64"
    "e_rawfile elf = Some (b, off)" "mem st b = Some S" "off + unat (e_rawsize elf) \<le> length S"
    "length S < 2 ^ 64" "oom st = []"
    using im by (auto simp: image_of_def std_class_def)
  have r: "s_elf scn = Some e" "s_rawdata scn = []" "s_data scn = []" "shdr_class ?sh = e_class elf"
    "shdr_type ?sh \<noteq> SHT_NULL"
    "shdr_type ?sh \<noteq> SHT_NOBITS \<Longrightarrow> in_file elf (shdr_offset ?sh) (shdr_size ?sh)"
    using raw cnt by (auto simp: raw_readable_def)
  have cond: "shdr_type ?sh = SHT_NOBITS \<or> in_file elf (shdr_offset ?sh) (shdr_size ?sh)" using r(6) by blast
  have room: "off + unat (shdr_offset ?sh) + unat (shdr_size ?sh) \<le> length S" if "shdr_type ?sh \<noteq> SHT_NOBITS"
    using r(6) [OF that] im'(6) by (simp add: in_file_nat)
  have buf: "(if shdr_type ?sh = SHT_NOBITS \<or> shdr_size ?sh = 0 then None
      else ptr_add (Some (b, off)) (shdr_offset ?sh)) = buf"
    using room im'(7) by (auto simp: buf_def ptr_add_def)
  have app: "append_rawdata s ?d (set_data ?d ld
      ((set_data ?d \<lparr>d_data = zero_data, d_scn = Some s, d_flags = 0\<rparr> st)\<lparr>fresh := Suc ?d\<rparr>)) = Some st'"
    using scn r(2) by (cases st) (simp add: append_rawdata_def st'_def set_scn_def set_data_def)
  have "elf_rawdata (Some s) None st = Some (Some ?d, st')"
    unfolding elf_rawdata_def
    using scn r(1-5) cond im' buf app scn_shdr_eq [OF r(4)]
    by (auto simp: libelf_allocate_data_def ld_def Let_def)
  moreover have "libelf_sum c buf (shdr_size ?sh) st' = Some (c + sum_bytes (file_bytes_of off S ?sh))"
    using room im'(5)
    by (auto simp: libelf_sum_def buf_def file_bytes_of_def st'_def foldl_sum_bytes segment_def)
      (simp_all add: sum_bytes_def)
  moreover have "rawdata_present s [?d] st'"
    using scn r im' by (simp add: rawdata_present_def st'_def ld_def)
  then have "elf_rawdata (Some s) (Some ?d) st' = Some (None, st')"
    by (intro raw.exhausted [of s "[?d]"]) simp_all
  then have "checksum_data s c' (Some ?d) st' = Some (c', st')" for c'
    by (subst checksum_data.simps) simp
  moreover have "datas st' ?d = Some ld" by (simp add: st'_def)
  ultimately have "checksum_data s c None st = Some (c + sum_bytes (file_bytes_of off S ?sh), st')"
    by (subst checksum_data.simps) (simp add: ld_def)
  then show ?thesis using im'(8) by (auto simp: st'_def)
qed

lemma checksum_sections_correct:
  assumes "sections_ready e ss st" "image_of e elf b off S st" "k \<le> length ss"
    and "map (scns st) (drop k ss) = map Some xs" "\<forall>scn\<in>set xs. raw_readable e elf b off S scn"
  shows "\<exists>st'. checksum_sections e (of_nat k) c st
    = Some (Some (c + sum_list (map (\<lambda>sh. sum_bytes (file_bytes_of off S sh)) (filter counted (map s_shdr xs)))), st')"
  using assms
proof (induction xs arbitrary: k c st)
  case Nil
  obtain elf' where "elfs st e = Some elf'" "e_nscn elf' = of_nat (length ss)"
    using Nil.prems(1) by (auto simp: sections_ready_def header_ready_def)
  moreover have "k = length ss" using Nil.prems(3,4) by simp
  ultimately show ?case by (subst checksum_sections.simps) simp
next
  case (Cons scn xs)
  obtain elf' where e: "elfs st e = Some elf'" "e_nscn elf' = of_nat (length ss)" "length ss < 2 ^ 64"
    using Cons.prems(1) by (auto simp: sections_ready_def header_ready_def section_list_def)
  have elf': "elf' = elf" using e(1) Cons.prems(2) by (simp add: image_of_def)
  have k: "k < length ss" using Cons.prems(3,4) by (cases "k < length ss") simp_all
  let ?s = "ss ! k"
  have d: "drop k ss = ?s # drop (Suc k) ss" using k by (simp add: Cons_nth_drop_Suc)
  then have scn: "scns st ?s = Some scn" and rest: "map (scns st) (drop (Suc k) ss) = map Some xs"
    using Cons.prems(4) by simp_all
  have uk: "unat (of_nat k :: u64) = k" using k e(3) by (simp add: unat_of_nat take_bit_nat_eq_self)
  have less: "(of_nat k :: u64) < of_nat (length ss)"
    using k e(3) by (simp add: word_less_nat_alt unat_of_nat take_bit_nat_eq_self)
  have get: "elf_getscn (Some e) (of_nat k) st = Some (Some ?s, st)"
    using elf_getscn_ready [OF Cons.prems(1), of "of_nat k"] k uk by simp
  have raw: "raw_readable e elf b off S scn" using Cons.prems(5) by simp
  then have "scn_ready ?s scn e elf st"
    using scn Cons.prems(2) by (simp add: scn_ready_def raw_readable_def image_of_def)
  then have hdr: "gelf_getshdr (Some ?s) True st = Some (Some (gshdr (s_shdr scn)), st)"
    by (simp add: gelf_getshdr_ready gshdr_def)
  have suc: "(of_nat k + 1 :: u64) = of_nat (Suc k)" by simp
  show ?case
  proof (cases "counted (s_shdr scn)")
    case False
    then have "checksum_sections e (of_nat k) c st = checksum_sections e (of_nat (Suc k)) c st"
      using e less get hdr by (subst checksum_sections.simps) (auto simp: counted_def add.commute)
    then show ?thesis using Cons.IH [OF Cons.prems(1,2) _ rest, of c] Cons.prems(5) k False by simp
  next
    case True
    obtain st' where st': "checksum_data ?s c None st = Some (c + sum_bytes (file_bytes_of off S (s_shdr scn)), st')"
      "elfs st' = elfs st" "mem st' = mem st" "oom st' = []" "fresh st \<le> fresh st'"
      "scns st' = (scns st)(?s \<mapsto> scn\<lparr>s_rawdata := [fresh st]\<rparr>)"
      using checksum_data_unread [OF Cons.prems(2) scn raw True, of c] by blast
    have list: "section_list e ss st" using Cons.prems(1) by (simp add: sections_ready_def)
    have "section_list e ss st'"
      by (rule section_list_mono [OF list st'(5)]) (use scn in \<open>auto simp: st'(6)\<close>)
    then have ready: "sections_ready e ss st'"
      using Cons.prems(1) st'(2,4) by (simp add: sections_ready_def header_ready_def)
    have "?s \<notin> set (drop (Suc k) ss)"
      using list d by (metis distinct.simps(2) distinct_drop section_list_def)
    then have rest': "map (scns st') (drop (Suc k) ss) = map Some xs"
      using rest by (auto simp: st'(6) list_eq_iff_nth_eq map_eq_conv intro: nth_mem)
    have im: "image_of e elf b off S st'" using Cons.prems(2) st' by (simp add: image_of_def)
    have "checksum_sections e (of_nat k) c st
        = checksum_sections e (of_nat (Suc k)) (c + sum_bytes (file_bytes_of off S (s_shdr scn))) st'"
      using e less get hdr True st'(1) by (subst checksum_sections.simps) (auto simp: counted_def add.commute)
    then show ?thesis
      using Cons.IH [OF ready im _ rest', of "c + sum_bytes (file_bytes_of off S (s_shdr scn))"] Cons.prems(5) k True
      by (simp add: add.assoc)
  qed
qed

lemma gshdr_simps [simp]:
  "sh_type (gshdr sh) = shdr_type sh" "sh_size (gshdr sh) = shdr_size sh"
  by (simp_all add: gshdr_def shdr_widen_def split: Shdr.split)

section \<open>Properties\<close>

text \<open>A file image that is a string table, and a descriptor with two sections over it.\<close>

definition demo_strtab :: "64 Elf_Shdr" where
  "demo_strtab = zero_Elf_Shdr\<lparr>sh_type := SHT_STRTAB, sh_flags := SHF_ALLOC, sh_size := 4, sh_addralign := 1\<rparr>"

definition demo_strings_elf :: Elf where
  "demo_strings_elf = (demo_elf [0, 102, 111, 0])\<lparr>e_ehdr := Some (Ehdr64 demo_update), e_scn := [1, 2],
     e_nscn := 2, e_flags := LIBELF_F_SHDRS_LOADED\<rparr>"

definition demo_strings :: store where
  "demo_strings = (demo_elf_store [0, 102, 111, 0])
     \<lparr>elfs := [0 \<mapsto> demo_strings_elf], fresh := 3,
      scns := [1 \<mapsto> new_scn 0 ELFCLASS64 0 (zero_shdr ELFCLASS64),
               2 \<mapsto> new_scn 0 ELFCLASS64 1 (Shdr64 demo_strtab)]\<rparr>"

lemmas demo_strings_simps = demo_strings_def demo_strings_elf_def demo_elf_store_def demo_elf_def
  initial_store_def new_elf_def new_scn_def demo_strtab_def zero_Elf_Shdr_def

lemma demo_strings_readable:
  "data_readable 2 (new_scn 0 ELFCLASS64 1 (Shdr64 demo_strtab)) 0 demo_strings_elf 0 0 [0, 102, 111, 0] demo_strings"
  by (simp add: data_readable_def demo_strings_simps std_class_def shdr_class_def fresh_mem_def)

lemma demo_strings_ready: "sections_ready 0 [1, 2] demo_strings"
  by (auto simp: sections_ready_def header_ready_def demo_strings_simps std_class_def ehdr_class_def
      section_list_def less_Suc_eq)






definition demo_pieces :: store where
  "demo_pieces = demo_strings
     \<lparr>mem := [0 \<mapsto> [0, 102, 111, 0], 1 \<mapsto> [7, 8, 9]],
      scns := (scns demo_strings)(2 \<mapsto> (new_scn 0 ELFCLASS64 1 (Shdr64 demo_strtab))\<lparr>s_data := [3, 4]\<rparr>),
      datas := [3 \<mapsto> \<lparr>d_data = \<lparr>d_align = 1, d_buf = Some (0, 2), d_off = 0, d_size = 2, d_type = ELF_T_BYTE,
                   d_version = 1\<rparr>, d_scn = Some 2, d_flags = 0\<rparr>,
                4 \<mapsto> \<lparr>d_data = \<lparr>d_align = 1, d_buf = Some (1, 0), d_off = 0, d_size = 3, d_type = ELF_T_BYTE,
                   d_version = 1\<rparr>, d_scn = Some 2, d_flags = 0\<rparr>], fresh := 5\<rparr>"


text \<open>
  The pointer that \<open>elf_strptr\<close> returns for a string table of a file points at the byte
  that the file has at that offset of the section.
\<close>

lemma strptr_reads_file:
  assumes "sections_ready e ss st" "unat i < length ss" "s = ss ! unat i"
    and "data_readable s scn e elf b off S st" "sh = s_shdr scn"
    and "shdr_type sh = SHT_STRTAB" "in_file elf (shdr_offset sh) (shdr_size sh)" "offset < shdr_size sh"
    and "e_flags elf AND ELF_F_LAYOUT = 0" "shdr_addralign sh AND (shdr_addralign sh - 1) = 0"
  shows "\<exists>p st'. elf_strptr (Some e) i offset st = Some (p, st')
    \<and> byte_at p st' = Some (S ! (off + unat (shdr_offset sh) + unat offset))"
proof -
  have r: "elfs st e = Some elf" "e_kind elf = ELF_K_ELF" "scn_ready s scn e elf st"
    using assms(4) by (auto simp: data_readable_def scn_ready_def)
  have get: "elf_getscn (Some e) i st = Some (Some s, st)"
    using elf_getscn_ready [OF assms(1), of i] assms(2,3) by simp
  have hdr: "gelf_getshdr (Some s) True st = Some (Some (gshdr sh), st)"
    using gelf_getshdr_ready [OF r(3)] by (simp add: gshdr_def assms(5))
  have t: "libelf_xlate_shtype (shdr_type sh) = ELF_T_BYTE" by (simp add: assms(6) libelf_xlate_shtype_def)
  have size: "shdr_size sh \<noteq> 0" using assms(8) by (metis word_not_simps(1))
  obtain D where D: "elf_getdata (Some s) None st = Some (Some (fresh st), with_data s scn elf ELF_T_BYTE D st)"
    "D = segment (off + unat (shdr_offset sh)) (unat (shdr_size sh)) S" "length D = unat (shdr_size sh)"
    using elf_getdata_fixed [OF assms(4)] assms(5-7) size t unat_u64_less [of "shdr_size sh"]
    by (auto simp: fixed_size_def byte_sizes mem_image_def)
  define st' where "st' = with_data s scn elf ELF_T_BYTE D st"
  have ld: "\<exists>f. datas st' (fresh st) = Some \<lparr>d_data = \<lparr>d_align = shdr_addralign sh, d_buf = Some (Suc (fresh st), 0),
      d_off = 0, d_size = shdr_size sh, d_type = ELF_T_BYTE, d_version = EV_CURRENT\<rparr>, d_scn = Some s, d_flags = f\<rparr>"
    using D(3) by (simp add: st'_def with_data_def assms(5))
  have "roundup2 0 a = 0" if "1 < a" for a :: u64
  proof -
    have "a \<noteq> 0" "0 < unat a" using that by (auto simp: word_less_nat_alt)
    then have "unat ((a - 1) div a) = 0" by (simp add: unat_div unat_minus_one)
    then show ?thesis by (simp add: roundup2_def unat_eq_zero)
  qed
  then have "strptr_compute s offset 0 None st = Some (ptr_add (Some (Suc (fresh st), 0)) offset, st')"
    using D(1) ld assms(8,10) size
    by (subst strptr_compute.simps) (auto simp: st'_def [symmetric] Let_def)
  then have "elf_strptr (Some e) i offset st = Some (ptr_add (Some (Suc (fresh st), 0)) offset, st')"
    using r(1,2) get hdr assms(6,8,9) by (auto simp: elf_strptr_def not_le)
  moreover have "byte_at (ptr_add (Some (Suc (fresh st), 0)) offset) st'
      = Some (S ! (off + unat (shdr_offset sh) + unat offset))"
  proof -
    have u: "unat offset < length D" using assms(8) D(3) by (simp add: word_less_nat_alt)
    then have "D ! unat offset = S ! (off + unat (shdr_offset sh) + unat offset)"
      by (auto simp: D(2) segment_def nth_drop)
    moreover have "ptr_add (Some (Suc (fresh st), 0)) offset = Some (Suc (fresh st), unat offset)"
      using unat_u64_less [of offset] by (simp add: ptr_add_def)
    moreover have "mem st' (Suc (fresh st)) = Some D" by (simp add: st'_def with_data_def)
    ultimately show ?thesis using u by (simp add: byte_at_Some)
  qed
  ultimately show ?thesis by blast
qed

lemma strptr_reads_file_witness:
  "\<exists>p st'. elf_strptr (Some 0) 1 2 demo_strings = Some (p, st') \<and> byte_at p st' = Some 111"
  using strptr_reads_file [OF demo_strings_ready _ _ demo_strings_readable refl, of 1 2]
  by (simp add: demo_strings_simps in_file_def)

text \<open>
  C13. The checksum of a file is the folded sum of the bytes of its allocatable sections,
  the dynamic section and the dynamic symbol table left out: neither section names nor
  headers count, nor sections that occupy no space.
\<close>

theorem checksum_of_file:
  assumes "sections_ready e ss st" "image_of e elf b off S st" "1 \<le> length ss"
    and "map (scns st) (drop 1 ss) = map Some xs" "\<forall>scn\<in>set xs. raw_readable e elf b off S scn"
  shows "\<exists>st'. gelf_checksum (Some e) st = Some (checksum_spec off S (map s_shdr xs), st')"
proof -
  obtain elf' eh where r: "header_ready e elf' eh st" using assms(1) by (auto simp: sections_ready_def)
  then have elf: "elfs st e = Some elf" "elf' = elf" "e_class elf = ELFCLASS32 \<or> e_class elf = ELFCLASS64"
    using assms(2) by (auto simp: header_ready_def image_of_def std_class_def)
  have "gelf_getehdr (Some e) True st = Some (Some (case eh of Ehdr32 h \<Rightarrow> ehdr_widen h | Ehdr64 h \<Rightarrow> h), st)"
    using header_ready_ehdr [OF r] elf by (auto simp: gelf_getehdr_def Let_def)
  then show ?thesis
    using checksum_sections_correct [OF assms, of 0] elf
    by (auto simp: gelf_checksum_def libelf_checksum_def checksum_spec_def)
qed

theorem checksum_of_file_witness: "\<exists>st'. gelf_checksum (Some 0) demo_strings = Some (213, st')"
proof -
  have "\<exists>st'. gelf_checksum (Some 0) demo_strings
      = Some (checksum_spec 0 [0, 102, 111, 0] (map s_shdr [new_scn 0 ELFCLASS64 1 (Shdr64 demo_strtab)]), st')"
    by (rule checksum_of_file [OF demo_strings_ready, of demo_strings_elf 0])
      (simp_all add: image_of_def raw_readable_def demo_strings_simps std_class_def shdr_class_def in_file_def)
  then show ?thesis
    by (simp add: checksum_spec_def new_scn_def counted_def gshdr_def demo_strtab_def zero_Elf_Shdr_def
        file_bytes_of_def segment_def sum_bytes_def fold_checksum_def)
qed

end
