(* ===== verification/Gelf_Entries.thy ===== *)
theory Gelf_Entries
  imports Elf_Section_Data
begin

text \<open>
  The class-independent access to the entries of a data buffer: \<open>gelf_sym.c\<close>,
  \<open>gelf_rel.c\<close>, \<open>gelf_rela.c\<close>, \<open>gelf_dyn.c\<close>, \<open>gelf_cap.c\<close>, \<open>gelf_move.c\<close>,
  \<open>gelf_syminfo.c\<close> and \<open>gelf_symshndx.c\<close>.  The functions of one file repeat those of the
  others for another entry type, so what they share is defined once: the tests that lead
  to an entry (\<open>entry_slot\<close>), reading it and writing it.
\<close>

section \<open>Entries\<close>

text \<open>
  The tests at the start of each function.  The result is the class and the entry's
  address, or nothing after an error; \<open>ok\<close> says that the caller's structure is there.
\<close>

definition entry_slot ::
  "int \<Rightarrow> data_ref option \<Rightarrow> int \<Rightarrow> bool \<Rightarrow> store \<Rightarrow> ((int \<times> ptr) option \<times> store) option"
where
  "entry_slot t dr ndx ok st =
     (let argument = Some (None, set_error ELF_E_ARGUMENT st)
      in case dr of None \<Rightarrow> argument
      | Some d \<Rightarrow>
          if ndx < 0 \<or> \<not> ok then argument
          else
            do { ld \<leftarrow> datas st d;
                 case d_scn ld of None \<Rightarrow> argument
                 | Some s \<Rightarrow>
                     do { scn \<leftarrow> scns st s;
                          case s_elf scn of None \<Rightarrow> argument
                          | Some e \<Rightarrow>
                              do { elf \<leftarrow> elfs st e;
                                   let ec = e_class elf;
                                   assert_that (ec = ELFCLASS32 \<or> ec = ELFCLASS64);
                                   sh \<leftarrow> scn_shdr ec scn;
                                   if libelf_xlate_shtype (shdr_type sh) \<noteq> t then argument
                                   else
                                     do { (msz, st) \<leftarrow> libelf_msize t ec (e_version elf) st;
                                          assert_that (msz > 0);
                                          if msz * of_int ndx \<ge> d_size (d_data ld)
                                          then Some (None, set_error ELF_E_ARGUMENT st)
                                          else Some (Some (ec, ptr_add (d_buf (d_data ld)) (msz * of_int ndx)), st) } } } })"

definition get_entry ::
  "int \<Rightarrow> layout \<Rightarrow> (u32 \<Rightarrow> struct_val \<Rightarrow> 'n) \<Rightarrow> ('n \<Rightarrow> 'g) \<Rightarrow> layout \<Rightarrow> (u32 \<Rightarrow> struct_val \<Rightarrow> 'g)
    \<Rightarrow> data_ref option \<Rightarrow> int \<Rightarrow> bool \<Rightarrow> store \<Rightarrow> ('g option \<times> store) option"
where
  "get_entry t def32 of32 widen def64 of64 dr ndx dst st =
     do { (slot, st) \<leftarrow> entry_slot t dr ndx dst st;
          case slot of None \<Rightarrow> Some (None, st)
          | Some (ec, p) \<Rightarrow>
              if ec = ELFCLASS32
              then do { vs \<leftarrow> load_struct ec def32 p st; Some (Some (widen (of32 (host_order st) vs)), st) }
              else do { vs \<leftarrow> load_struct ec def64 p st; Some (Some (of64 (host_order st) vs), st) } }"

text \<open>
  \<open>narrow\<close> is the sequence of assignments to a 32-bit entry; when one of them fails, those
  before it have been done.
\<close>

definition update_entry ::
  "int \<Rightarrow> layout \<Rightarrow> (u32 \<Rightarrow> struct_val \<Rightarrow> 'n) \<Rightarrow> (u32 \<Rightarrow> 'n \<Rightarrow> struct_val) \<Rightarrow> ('g \<Rightarrow> 'n \<Rightarrow> bool \<times> 'n)
    \<Rightarrow> layout \<Rightarrow> (u32 \<Rightarrow> 'g \<Rightarrow> struct_val)
    \<Rightarrow> data_ref option \<Rightarrow> int \<Rightarrow> 'g option \<Rightarrow> store \<Rightarrow> (bool \<times> store) option"
where
  "update_entry t def32 of32 to32 narrow def64 to64 dr ndx src st =
     do { (slot, st) \<leftarrow> entry_slot t dr ndx (src \<noteq> None) st;
          case slot of None \<Rightarrow> Some (False, st)
          | Some (ec, p) \<Rightarrow>
              do { g \<leftarrow> src;
                   if ec = ELFCLASS32
                   then do { vs \<leftarrow> load_struct ec def32 p st;
                             let (ok, x) = narrow g (of32 (host_order st) vs);
                             st \<leftarrow> store_struct ec def32 p (to32 (host_order st) x) st;
                             Some (if ok then (True, st) else (False, set_error ELF_E_RANGE st)) }
                   else do { st \<leftarrow> store_struct ec def64 p (to64 (host_order st) g) st; Some (True, st) } } }"

section \<open>Symbols\<close>

definition sym_widen :: "32 Elf_Sym \<Rightarrow> GElf_Sym" where
  "sym_widen x =
     \<lparr>st_name = st_name x, st_info = st_info x, st_other = st_other x, st_shndx = st_shndx x,
      st_value = ucast (st_value x), st_size = ucast (st_size x)\<rparr>"

definition sym_narrow :: "GElf_Sym \<Rightarrow> 32 Elf_Sym \<Rightarrow> bool \<times> 32 Elf_Sym" where
  "sym_narrow g x =
     LIBELF_COPY_U32 (st_size g) (\<lambda>v x. x\<lparr>st_size := v\<rparr>)
     (LIBELF_COPY_U32 (st_value g) (\<lambda>v x. x\<lparr>st_value := v\<rparr>)
     (copy_field (\<lambda>x. x\<lparr>st_name := st_name g, st_info := st_info g, st_other := st_other g,
        st_shndx := st_shndx g\<rparr>) (True, x)))"

definition gelf_getsym :: "data_ref option \<Rightarrow> int \<Rightarrow> bool \<Rightarrow> store \<Rightarrow> (GElf_Sym option \<times> store) option" where
  "gelf_getsym = get_entry ELF_T_SYM Elf32_Sym_DEF sym32_of sym_widen Elf64_Sym_DEF sym64_of"

definition gelf_update_sym :: "data_ref option \<Rightarrow> int \<Rightarrow> GElf_Sym option \<Rightarrow> store \<Rightarrow> (bool \<times> store) option" where
  "gelf_update_sym =
     update_entry ELF_T_SYM Elf32_Sym_DEF sym32_of sym32_members sym_narrow Elf64_Sym_DEF sym64_members"

section \<open>Relocations\<close>

definition ELF32_R_SYM :: "u32 \<Rightarrow> u32" where "ELF32_R_SYM i = drop_bit 8 i"
definition ELF32_R_TYPE :: "u32 \<Rightarrow> byte" where "ELF32_R_TYPE i = ucast i"
definition ELF32_R_INFO :: "u32 \<Rightarrow> u32 \<Rightarrow> u32" where "ELF32_R_INFO s t = push_bit 8 s + ucast (ucast t :: byte)"
definition ELF64_R_SYM :: "u64 \<Rightarrow> u64" where "ELF64_R_SYM i = drop_bit 32 i"
definition ELF64_R_TYPE :: "u64 \<Rightarrow> u64" where "ELF64_R_TYPE i = i AND 0xFFFFFFFF"
definition ELF64_R_INFO :: "u64 \<Rightarrow> u64 \<Rightarrow> u64" where "ELF64_R_INFO s t = push_bit 32 s + (t AND 0xFFFFFFFF)"

definition r_info_widen :: "u32 \<Rightarrow> u64" where
  "r_info_widen i = ELF64_R_INFO (ucast (ELF32_R_SYM i)) (ucast (ELF32_R_TYPE i))"

text \<open>
  The range test and the assignment.  \<open>ELF32_R_SYM(~0UL)\<close> is computed in the 64-bit type
  \<open>unsigned long\<close>, so it is \<open>2 ^ 56 - 1\<close>; \<open>ELF32_R_TYPE(~0U)\<close> is 255.
\<close>

definition copy_r_info :: "u64 \<Rightarrow> (u32 \<Rightarrow> 'x \<Rightarrow> 'x) \<Rightarrow> bool \<times> 'x \<Rightarrow> bool \<times> 'x" where
  "copy_r_info i f r =
     (if fst r then
        if ELF64_R_SYM i > drop_bit 8 (-1) \<or> ELF64_R_TYPE i > ucast (ELF32_R_TYPE (-1)) then (False, snd r)
        else (True, f (ELF32_R_INFO (ucast (ELF64_R_SYM i)) (ucast (ELF64_R_TYPE i))) (snd r))
      else r)"

definition rel_widen :: "32 Elf_Rel \<Rightarrow> GElf_Rel" where
  "rel_widen x = \<lparr>r_offset = ucast (r_offset x), r_info = r_info_widen (r_info x)\<rparr>"

definition rel_narrow :: "GElf_Rel \<Rightarrow> 32 Elf_Rel \<Rightarrow> bool \<times> 32 Elf_Rel" where
  "rel_narrow g x =
     copy_r_info (r_info g) (\<lambda>v x. x\<lparr>r_info := v\<rparr>)
     (LIBELF_COPY_U32 (r_offset g) (\<lambda>v x. x\<lparr>r_offset := v\<rparr>) (True, x))"

definition gelf_getrel :: "data_ref option \<Rightarrow> int \<Rightarrow> bool \<Rightarrow> store \<Rightarrow> (GElf_Rel option \<times> store) option" where
  "gelf_getrel = get_entry ELF_T_REL Elf32_Rel_DEF rel_of rel_widen Elf64_Rel_DEF rel_of"

definition gelf_update_rel :: "data_ref option \<Rightarrow> int \<Rightarrow> GElf_Rel option \<Rightarrow> store \<Rightarrow> (bool \<times> store) option" where
  "gelf_update_rel =
     update_entry ELF_T_REL Elf32_Rel_DEF rel_of rel_members rel_narrow Elf64_Rel_DEF rel_members"

text \<open>The addend is signed.\<close>

definition rela_widen :: "32 Elf_Rela \<Rightarrow> GElf_Rela" where
  "rela_widen x = \<lparr>ra_offset = ucast (ra_offset x), ra_info = r_info_widen (ra_info x),
     ra_addend = word_of_int (sint (ra_addend x))\<rparr>"

definition rela_narrow :: "GElf_Rela \<Rightarrow> 32 Elf_Rela \<Rightarrow> bool \<times> 32 Elf_Rela" where
  "rela_narrow g x =
     LIBELF_COPY_S32 (ra_addend g) (\<lambda>v x. x\<lparr>ra_addend := v\<rparr>)
     (copy_r_info (ra_info g) (\<lambda>v x. x\<lparr>ra_info := v\<rparr>)
     (LIBELF_COPY_U32 (ra_offset g) (\<lambda>v x. x\<lparr>ra_offset := v\<rparr>) (True, x)))"

definition gelf_getrela :: "data_ref option \<Rightarrow> int \<Rightarrow> bool \<Rightarrow> store \<Rightarrow> (GElf_Rela option \<times> store) option" where
  "gelf_getrela = get_entry ELF_T_RELA Elf32_Rela_DEF rela_of rela_widen Elf64_Rela_DEF rela_of"

definition gelf_update_rela :: "data_ref option \<Rightarrow> int \<Rightarrow> GElf_Rela option \<Rightarrow> store \<Rightarrow> (bool \<times> store) option" where
  "gelf_update_rela =
     update_entry ELF_T_RELA Elf32_Rela_DEF rela_of rela_members rela_narrow Elf64_Rela_DEF rela_members"

section \<open>Dynamic entries, capabilities, moves and symbol information\<close>

text \<open>The tag of a dynamic entry is signed.\<close>

definition dyn_widen :: "32 Elf_Dyn \<Rightarrow> GElf_Dyn" where
  "dyn_widen x = \<lparr>d_tag = word_of_int (sint (d_tag x)), d_val = ucast (d_val x)\<rparr>"

definition dyn_narrow :: "GElf_Dyn \<Rightarrow> 32 Elf_Dyn \<Rightarrow> bool \<times> 32 Elf_Dyn" where
  "dyn_narrow g x =
     LIBELF_COPY_U32 (d_val g) (\<lambda>v x. x\<lparr>d_val := v\<rparr>)
     (LIBELF_COPY_S32 (d_tag g) (\<lambda>v x. x\<lparr>d_tag := v\<rparr>) (True, x))"

definition gelf_getdyn :: "data_ref option \<Rightarrow> int \<Rightarrow> bool \<Rightarrow> store \<Rightarrow> (GElf_Dyn option \<times> store) option" where
  "gelf_getdyn = get_entry ELF_T_DYN Elf32_Dyn_DEF dyn_of dyn_widen Elf64_Dyn_DEF dyn_of"

definition gelf_update_dyn :: "data_ref option \<Rightarrow> int \<Rightarrow> GElf_Dyn option \<Rightarrow> store \<Rightarrow> (bool \<times> store) option" where
  "gelf_update_dyn =
     update_entry ELF_T_DYN Elf32_Dyn_DEF dyn_of dyn_members dyn_narrow Elf64_Dyn_DEF dyn_members"

definition cap_widen :: "32 Elf_Cap \<Rightarrow> GElf_Cap" where
  "cap_widen x = \<lparr>c_tag = ucast (c_tag x), c_val = ucast (c_val x)\<rparr>"

definition cap_narrow :: "GElf_Cap \<Rightarrow> 32 Elf_Cap \<Rightarrow> bool \<times> 32 Elf_Cap" where
  "cap_narrow g x =
     LIBELF_COPY_U32 (c_val g) (\<lambda>v x. x\<lparr>c_val := v\<rparr>)
     (LIBELF_COPY_U32 (c_tag g) (\<lambda>v x. x\<lparr>c_tag := v\<rparr>) (True, x))"

definition gelf_getcap :: "data_ref option \<Rightarrow> int \<Rightarrow> bool \<Rightarrow> store \<Rightarrow> (GElf_Cap option \<times> store) option" where
  "gelf_getcap = get_entry ELF_T_CAP Elf32_Cap_DEF cap_of cap_widen Elf64_Cap_DEF cap_of"

definition gelf_update_cap :: "data_ref option \<Rightarrow> int \<Rightarrow> GElf_Cap option \<Rightarrow> store \<Rightarrow> (bool \<times> store) option" where
  "gelf_update_cap =
     update_entry ELF_T_CAP Elf32_Cap_DEF cap_of cap_members cap_narrow Elf64_Cap_DEF cap_members"

definition move_widen :: "32 Elf_Move \<Rightarrow> GElf_Move" where
  "move_widen x = \<lparr>m_value = m_value x, m_info = ucast (m_info x), m_poffset = ucast (m_poffset x),
     m_repeat = m_repeat x, m_stride = m_stride x\<rparr>"

definition move_narrow :: "GElf_Move \<Rightarrow> 32 Elf_Move \<Rightarrow> bool \<times> 32 Elf_Move" where
  "move_narrow g x =
     copy_field (\<lambda>x. x\<lparr>m_repeat := m_repeat g, m_stride := m_stride g\<rparr>)
     (LIBELF_COPY_U32 (m_poffset g) (\<lambda>v x. x\<lparr>m_poffset := v\<rparr>)
     (LIBELF_COPY_U32 (m_info g) (\<lambda>v x. x\<lparr>m_info := v\<rparr>)
     (copy_field (\<lambda>x. x\<lparr>m_value := m_value g\<rparr>) (True, x))))"

definition gelf_getmove :: "data_ref option \<Rightarrow> int \<Rightarrow> bool \<Rightarrow> store \<Rightarrow> (GElf_Move option \<times> store) option" where
  "gelf_getmove = get_entry ELF_T_MOVE Elf32_Move_DEF move_of move_widen Elf64_Move_DEF move_of"

definition gelf_update_move :: "data_ref option \<Rightarrow> int \<Rightarrow> GElf_Move option \<Rightarrow> store \<Rightarrow> (bool \<times> store) option" where
  "gelf_update_move =
     update_entry ELF_T_MOVE Elf32_Move_DEF move_of move_members move_narrow Elf64_Move_DEF move_members"

definition syminfo_narrow :: "Elf_Syminfo \<Rightarrow> Elf_Syminfo \<Rightarrow> bool \<times> Elf_Syminfo" where
  "syminfo_narrow g x =
     copy_field (\<lambda>x. x\<lparr>si_boundto := si_boundto g, si_flags := si_flags g\<rparr>) (True, x)"

definition gelf_getsyminfo :: "data_ref option \<Rightarrow> int \<Rightarrow> bool \<Rightarrow> store \<Rightarrow> (Elf_Syminfo option \<times> store) option" where
  "gelf_getsyminfo =
     get_entry ELF_T_SYMINFO Elf32_Syminfo_DEF syminfo_of (\<lambda>x. x) Elf64_Syminfo_DEF syminfo_of"

definition gelf_update_syminfo :: "data_ref option \<Rightarrow> int \<Rightarrow> Elf_Syminfo option \<Rightarrow> store \<Rightarrow> (bool \<times> store) option" where
  "gelf_update_syminfo =
     update_entry ELF_T_SYMINFO Elf32_Syminfo_DEF syminfo_of syminfo_members syminfo_narrow
       Elf64_Syminfo_DEF syminfo_members"

section \<open>Symbols with extended section indices\<close>

text \<open>
  The tests on the second data descriptor.  \<open>checked\<close> is the descriptor whose type is
  tested: \<open>gelf_getsymshndx\<close> tests \<open>id\<close>, \<open>gelf_update_symshndx\<close> tests \<open>d\<close>.  The result is
  the address of the index.
\<close>

definition shndx_slot ::
  "data_ref \<Rightarrow> data_ref option \<Rightarrow> (data_ref \<Rightarrow> data_ref) \<Rightarrow> int \<Rightarrow> bool \<Rightarrow> store \<Rightarrow> (ptr option \<times> store) option"
where
  "shndx_slot d idr checked ndx ok st =
     (let argument = Some (None, set_error ELF_E_ARGUMENT st)
      in case idr of None \<Rightarrow> argument
      | Some i \<Rightarrow>
          do { lid \<leftarrow> datas st i;
               case d_scn lid of None \<Rightarrow> argument
               | Some s \<Rightarrow>
                   do { scn \<leftarrow> scns st s;
                        case s_elf scn of None \<Rightarrow> argument
                        | Some e \<Rightarrow>
                            do { ld \<leftarrow> datas st d;
                                 s' \<leftarrow> d_scn ld;
                                 scn' \<leftarrow> scns st s';
                                 if Some e \<noteq> s_elf scn' \<or> \<not> ok then argument
                                 else
                                   do { elf \<leftarrow> elfs st e;
                                        let ec = e_class elf;
                                        assert_that (ec = ELFCLASS32 \<or> ec = ELFCLASS64);
                                        sh \<leftarrow> scn_shdr ec scn;
                                        lc \<leftarrow> datas st (checked i);
                                        if libelf_xlate_shtype (shdr_type sh) \<noteq> ELF_T_WORD
                                           \<or> d_type (d_data lc) \<noteq> ELF_T_WORD
                                        then argument
                                        else
                                          do { (msz, st) \<leftarrow> libelf_msize ELF_T_WORD ec (e_version elf) st;
                                               assert_that (msz > 0 \<and> ndx \<ge> 0);
                                               if msz * of_int ndx \<ge> d_size (d_data lid)
                                               then Some (None, set_error ELF_E_ARGUMENT st)
                                               else Some (Some (ptr_add (d_buf (d_data lid)) (4 * of_int ndx)), st) } } } } })"

text \<open>
  The result is what is stored in \<open>*dst\<close> and in \<open>*shindex\<close>: the symbol is stored even
  when the call then fails.
\<close>

definition gelf_getsymshndx ::
  "data_ref option \<Rightarrow> data_ref option \<Rightarrow> int \<Rightarrow> bool \<Rightarrow> bool \<Rightarrow> store
    \<Rightarrow> ((GElf_Sym option \<times> u32 option) \<times> store) option"
where
  "gelf_getsymshndx dr idr ndx dst shindex st =
     do { (gsym, st) \<leftarrow> gelf_getsym dr ndx dst st;
          case gsym of None \<Rightarrow> Some ((None, None), st)
          | Some gsym \<Rightarrow>
              do { d \<leftarrow> dr;
                   (slot, st) \<leftarrow> shndx_slot d idr (\<lambda>i. i) ndx shindex st;
                   case slot of None \<Rightarrow> Some ((Some gsym, None), st)
                   | Some p \<Rightarrow>
                       do { bs \<leftarrow> read_bytes p 4 st;
                            Some ((Some gsym, Some (native_val (host_order st) bs)), st) } } }"

definition gelf_update_symshndx ::
  "data_ref option \<Rightarrow> data_ref option \<Rightarrow> int \<Rightarrow> GElf_Sym option \<Rightarrow> u32 \<Rightarrow> store \<Rightarrow> (bool \<times> store) option"
where
  "gelf_update_symshndx dr idr ndx gs xindex st =
     do { (ok, st) \<leftarrow> gelf_update_sym dr ndx gs st;
          if \<not> ok then Some (False, st)
          else
            do { d \<leftarrow> dr;
                 (slot, st) \<leftarrow> shndx_slot d idr (\<lambda>i. d) ndx True st;
                 case slot of None \<Rightarrow> Some (False, st)
                 | Some p \<Rightarrow>
                     do { st \<leftarrow> write_bytes p (native_bytes (host_order st) 4 xindex) st;
                          Some (True, st) } } }"

section \<open>The contract of an entry type\<close>

text \<open>
  The entry \<open>ndx\<close> of the data \<open>d\<close> exists: the data belongs to a section of the entry type,
  of a descriptor of the class \<open>ec\<close>, and the buffer holds the entry.
\<close>

definition entry_ready :: "int \<Rightarrow> layout \<Rightarrow> data_ref \<Rightarrow> int \<Rightarrow> int \<Rightarrow> nat \<Rightarrow> nat \<Rightarrow> byte list \<Rightarrow> store \<Rightarrow> bool" where
  "entry_ready t def d ec ndx b off bs st \<longleftrightarrow>
     (\<exists>ld s scn e elf. datas st d = Some ld \<and> d_scn ld = Some s \<and> scns st s = Some scn
        \<and> s_elf scn = Some e \<and> elfs st e = Some elf \<and> e_class elf = ec \<and> std_class ec
        \<and> e_version elf = EV_CURRENT \<and> shdr_class (s_shdr scn) = ec
        \<and> libelf_xlate_shtype (shdr_type (s_shdr scn)) = t \<and> d_buf (d_data ld) = Some (b, off)
        \<and> off + unat (d_size (d_data ld)) \<le> length bs
        \<and> (nat ndx + 1) * struct_size ec def \<le> unat (d_size (d_data ld)))
     \<and> comp_layout t ec = Some def \<and> mem st b = Some bs \<and> length bs < 2 ^ 64 \<and> 0 \<le> ndx"

lemma entry_slot_ready:
  assumes "entry_ready t def d ec ndx b off bs st"
  shows "entry_slot t (Some d) ndx True st = Some (Some (ec, Some (b, off + nat ndx * struct_size ec def)), st)"
    and "off + nat ndx * struct_size ec def + struct_size ec def \<le> length bs"
proof -
  obtain ld s scn e elf where r: "datas st d = Some ld" "d_scn ld = Some s" "scns st s = Some scn"
    "s_elf scn = Some e" "elfs st e = Some elf" "e_class elf = ec" "std_class ec" "e_version elf = EV_CURRENT"
    "shdr_class (s_shdr scn) = ec" "libelf_xlate_shtype (shdr_type (s_shdr scn)) = t"
    "d_buf (d_data ld) = Some (b, off)" "off + unat (d_size (d_data ld)) \<le> length bs"
    "(nat ndx + 1) * struct_size ec def \<le> unat (d_size (d_data ld))"
    "comp_layout t ec = Some def" "length bs < 2 ^ 64" "0 \<le> ndx"
    using assms by (auto simp: entry_ready_def)
  define i where "i = nat ndx"
  let ?m = "struct_size ec def"
  note bounds = comp_layout_bounds [OF r(14,7)]
  have t: "0 \<le> t" "t < ELF_T_NUM" "msize_table t ec = ?m"
    using type_layout_sizes [OF layout_type [OF r(14)] r(7)] by simp_all
  have off: "i * ?m + ?m \<le> unat (d_size (d_data ld))" using r(13) by (simp add: i_def)
  then have small: "i * ?m < 2 ^ 64" using unat_u64_less [of "d_size (d_data ld)"] by linarith
  have idx: "of_nat ?m * (of_int ndx :: u64) = of_nat (i * ?m)" using r(16) by (simp add: i_def mult.commute)
  have u: "unat (of_nat (i * ?m) :: u64) = i * ?m"
    using small by (simp add: unat_of_nat take_bit_nat_eq_self del: of_nat_mult)
  have less: "\<not> d_size (d_data ld) \<le> of_nat (i * ?m)"
    unfolding word_le_nat_alt u using off bounds by linarith
  have m0: "(0 :: u64) < of_nat ?m" using bounds by (simp add: word_less_nat_alt unat_of_nat take_bit_nat_eq_self)
  have ms: "libelf_msize t ec EV_CURRENT st = Some (of_nat ?m, st)"
    using t r(7) by (auto simp: libelf_msize_def std_class_def)
  have "(off + i * ?m) mod 2 ^ 64 = off + i * ?m" using off r(12,15) by simp
  then show "entry_slot t (Some d) ndx True st = Some (Some (ec, Some (b, off + nat ndx * ?m)), st)"
    using r ms m0 less
    by (simp add: entry_slot_def scn_shdr_eq std_class_def idx ptr_add_def u i_def [symmetric] Let_def
        del: of_nat_mult)
  show "off + nat ndx * ?m + ?m \<le> length bs" using off r(12) by (simp add: i_def)
qed

lemma entry_ready_write:
  "entry_ready t def d ec ndx b off bs st \<Longrightarrow> length bs' = length bs
    \<Longrightarrow> entry_ready t def d ec ndx b off bs' (st\<lparr>mem := (mem st)(b \<mapsto> bs')\<rparr>)"
  by (auto simp: entry_ready_def)

text \<open>
  One entry type: its two structures with their codecs, the copies between them, and the
  two functions.  \<open>faithful g\<close> says that a 32-bit entry can hold \<open>g\<close>.
\<close>

locale entry_type =
  c32: struct_codec ELFCLASS32 def32 of32 to32 "\<lambda>x. True" +
  c64: struct_codec ELFCLASS64 def64 of64 to64 "\<lambda>x. True"
  for def32 and of32 :: "u32 \<Rightarrow> struct_val \<Rightarrow> 'n" and to32
    and def64 and of64 :: "u32 \<Rightarrow> struct_val \<Rightarrow> 'g" and to64 +
  fixes t :: int and widen :: "'n \<Rightarrow> 'g" and narrow :: "'g \<Rightarrow> 'n \<Rightarrow> bool \<times> 'n"
    and faithful :: "'g \<Rightarrow> bool"
    and getter :: "data_ref option \<Rightarrow> int \<Rightarrow> bool \<Rightarrow> store \<Rightarrow> ('g option \<times> store) option"
    and updater :: "data_ref option \<Rightarrow> int \<Rightarrow> 'g option \<Rightarrow> store \<Rightarrow> (bool \<times> store) option"
  assumes layouts: "comp_layout t ELFCLASS32 = Some def32" "comp_layout t ELFCLASS64 = Some def64"
    and getter: "getter = get_entry t def32 of32 widen def64 of64"
    and updater: "updater = update_entry t def32 of32 to32 narrow def64 to64"
    and widen_narrow: "faithful g \<Longrightarrow> fst (narrow g x) \<and> widen (snd (narrow g x)) = g"
begin

text \<open>What the getter finds in the buffer.\<close>

definition value_at :: "int \<Rightarrow> u32 \<Rightarrow> nat \<Rightarrow> byte list \<Rightarrow> 'g" where
  "value_at ec order p bs =
     (if ec = ELFCLASS32 then widen (of32 order (mem_struct ec def32 (segment p (struct_size ec def32) bs)))
      else of64 order (mem_struct ec def64 (segment p (struct_size ec def64) bs)))"

lemma get_value:
  assumes "entry_ready t def d ec ndx b off bs st"
  shows "getter (Some d) ndx True st
    = Some (Some (value_at ec (host_order st) (off + nat ndx * struct_size ec def) bs), st)"
proof -
  have std: "ec = ELFCLASS32 \<or> ec = ELFCLASS64" and m: "mem st b = Some bs" and l: "comp_layout t ec = Some def"
    using assms by (auto simp: entry_ready_def std_class_def)
  note slot = entry_slot_ready [OF assms]
  show ?thesis
    using std
  proof
    assume ec: "ec = ELFCLASS32"
    then have def: "def = def32" using l layouts(1) by simp
    show ?thesis
      using slot c32.load_total(1) [OF m slot(2) [unfolded ec def]]
      by (simp add: getter get_entry_def ec def value_at_def)
  next
    assume ec: "ec = ELFCLASS64"
    then have def: "def = def64" using l layouts(2) by simp
    show ?thesis
      using slot c64.load_total(1) [OF m slot(2) [unfolded ec def]]
      by (simp add: getter get_entry_def ec def value_at_def)
  qed
qed

lemma update_value:
  assumes r: "entry_ready t def d ec ndx b off bs st" and f: "ec = ELFCLASS32 \<Longrightarrow> faithful g"
  defines "p \<equiv> off + nat ndx * struct_size ec def" and "m \<equiv> struct_size ec def"
  shows "\<exists>bs'. updater (Some d) ndx (Some g) st = Some (True, st\<lparr>mem := (mem st)(b \<mapsto> bs')\<rparr>)
    \<and> length bs' = length bs \<and> take p bs' = take p bs \<and> drop (p + m) bs' = drop (p + m) bs
    \<and> value_at ec (host_order st) p bs' = g"
proof -
  have std: "ec = ELFCLASS32 \<or> ec = ELFCLASS64" and mem: "mem st b = Some bs" and l: "comp_layout t ec = Some def"
    using r by (auto simp: entry_ready_def std_class_def)
  note slot = entry_slot_ready [OF r, folded p_def m_def]
  show ?thesis
    using std
  proof
    assume ec: "ec = ELFCLASS32"
    then have def: "def = def32" using l layouts(1) by simp
    note room = slot(2) [unfolded m_def ec def]
    define old where "old = of32 (host_order st) (mem_struct ELFCLASS32 def32 (segment p m bs))"
    obtain v where v: "narrow g old = (True, v)" "widen v = g"
      using widen_narrow [OF f [OF ec], of old] by (cases "narrow g old") auto
    obtain bs' where bs': "store_struct ELFCLASS32 def32 (Some (b, p)) (to32 (host_order st) v) st
        = Some (st\<lparr>mem := (mem st)(b \<mapsto> bs')\<rparr>)" "length bs' = length bs" "take p bs' = take p bs"
      "drop (p + m) bs' = drop (p + m) bs"
      "mem_struct ELFCLASS32 def32 (segment p m bs') = to32 (host_order st) v"
      using c32.store_then_load [OF mem room, where x = v and order = "host_order st"]
      by (auto simp: m_def ec def)
    have load: "load_struct ELFCLASS32 def32 (Some (b, p)) st = Some (mem_struct ELFCLASS32 def32 (segment p m bs))"
      using c32.load_total(1) [OF mem room] by (simp add: m_def ec def)
    have "updater (Some d) ndx (Some g) st = Some (True, st\<lparr>mem := (mem st)(b \<mapsto> bs')\<rparr>)"
      using slot(1) load bs'(1) v(1)
      by (simp add: updater update_entry_def ec old_def [symmetric])
    moreover have "value_at ec (host_order st) p bs' = g"
      using bs'(5) v(2) by (simp add: value_at_def ec def m_def c32.of_to)
    ultimately show ?thesis using bs' by blast
  next
    assume ec: "ec = ELFCLASS64"
    then have def: "def = def64" using l layouts(2) by simp
    note room = slot(2) [unfolded m_def ec def]
    obtain bs' where bs': "store_struct ELFCLASS64 def64 (Some (b, p)) (to64 (host_order st) g) st
        = Some (st\<lparr>mem := (mem st)(b \<mapsto> bs')\<rparr>)" "length bs' = length bs" "take p bs' = take p bs"
      "drop (p + m) bs' = drop (p + m) bs"
      "mem_struct ELFCLASS64 def64 (segment p m bs') = to64 (host_order st) g"
      using c64.store_then_load [OF mem room, where x = g and order = "host_order st"] by (auto simp: m_def ec def)
    have "updater (Some d) ndx (Some g) st = Some (True, st\<lparr>mem := (mem st)(b \<mapsto> bs')\<rparr>)"
      using slot(1) bs'(1) by (simp add: updater update_entry_def ec)
    moreover have "value_at ec (host_order st) p bs' = g"
      using bs'(5) by (simp add: value_at_def ec def m_def c64.of_to)
    ultimately show ?thesis using bs' by blast
  qed
qed

text \<open>Updating an entry and getting it gives what was written; other entries are as before.\<close>

lemma update_then_get:
  assumes r: "entry_ready t def d ec ndx b off bs st" and f: "ec = ELFCLASS32 \<Longrightarrow> faithful g"
  shows "\<exists>st'. updater (Some d) ndx (Some g) st = Some (True, st')
    \<and> getter (Some d) ndx True st' = Some (Some g, st')
    \<and> (\<forall>j. j \<noteq> ndx \<longrightarrow> entry_ready t def d ec j b off bs st
         \<longrightarrow> (\<exists>x. getter (Some d) j True st = Some (Some x, st) \<and> getter (Some d) j True st' = Some (Some x, st')))"
proof -
  let ?m = "struct_size ec def" and ?p = "\<lambda>j. off + nat j * struct_size ec def"
  obtain bs' where bs': "updater (Some d) ndx (Some g) st = Some (True, st\<lparr>mem := (mem st)(b \<mapsto> bs')\<rparr>)"
    "length bs' = length bs" "take (?p ndx) bs' = take (?p ndx) bs"
    "drop (?p ndx + ?m) bs' = drop (?p ndx + ?m) bs" "value_at ec (host_order st) (?p ndx) bs' = g"
    using update_value [OF r f] by blast
  let ?st' = "st\<lparr>mem := (mem st)(b \<mapsto> bs')\<rparr>"
  have "getter (Some d) ndx True ?st' = Some (Some g, ?st')"
    using get_value [OF entry_ready_write [OF r bs'(2)]] bs'(5) by simp
  moreover have "getter (Some d) j True ?st' = Some (Some (value_at ec (host_order st) (?p j) bs), ?st')
      \<and> getter (Some d) j True st = Some (Some (value_at ec (host_order st) (?p j) bs), st)"
    if j: "j \<noteq> ndx" "entry_ready t def d ec j b off bs st" for j
  proof -
    have "0 \<le> ndx" "0 \<le> j" using r j(2) by (auto simp: entry_ready_def)
    then have ne: "nat j \<noteq> nat ndx" using j(1) by auto
    have "nat j * ?m + ?m \<le> nat ndx * ?m \<or> nat ndx * ?m + ?m \<le> nat j * ?m"
    proof (cases "nat j < nat ndx")
      case True
      then have "Suc (nat j) * ?m \<le> nat ndx * ?m" by (intro mult_le_mono1 Suc_leI)
      then show ?thesis by simp
    next
      case False
      then have "nat ndx < nat j" using ne by linarith
      then have "Suc (nat ndx) * ?m \<le> nat j * ?m" by (intro mult_le_mono1 Suc_leI)
      then show ?thesis by simp
    qed
    then have seg: "segment (?p j) ?m bs' = segment (?p j) ?m bs"
      by (intro segment_take_drop_eq [OF bs'(2-4)]) auto
    have "ec = ELFCLASS32 \<longrightarrow> def = def32" "ec \<noteq> ELFCLASS32 \<longrightarrow> def = def64"
      using r layouts by (auto simp: entry_ready_def std_class_def)
    then have "value_at ec (host_order st) (?p j) bs' = value_at ec (host_order st) (?p j) bs"
      using seg by (auto simp: value_at_def)
    then show ?thesis
      using get_value [OF j(2)] get_value [OF entry_ready_write [OF j(2) bs'(2)]] by simp
  qed
  ultimately show ?thesis using bs'(1) by blast
qed

end

section \<open>The entry types\<close>

definition fits_u32 :: "u64 \<Rightarrow> bool" where "fits_u32 v \<longleftrightarrow> v \<le> 0xFFFFFFFF"

definition fits_s32 :: "u64 \<Rightarrow> bool" where "fits_s32 v \<longleftrightarrow> sint v \<le> 0x7FFFFFFF \<and> - 0x80000000 \<le> sint v"

definition fits_r_info :: "u64 \<Rightarrow> bool" where
  "fits_r_info i \<longleftrightarrow> ELF64_R_SYM i < 0x1000000 \<and> ELF64_R_TYPE i < 0x100"

lemma LIBELF_COPY_S32_ok: "fits_s32 v \<Longrightarrow> LIBELF_COPY_S32 v f (True, h) = (True, f (word_of_int (sint v)) h)"
  by (simp add: fits_s32_def LIBELF_COPY_S32_def)

lemma LIBELF_COPY_U32_ok: "fits_u32 v \<Longrightarrow> LIBELF_COPY_U32 v f (True, h) = (True, f (ucast v) h)"
  by (simp add: fits_u32_def)

lemma fits_u32_back: "fits_u32 v \<Longrightarrow> ucast (ucast v :: u32) = v"
  by (simp add: fits_u32_def ucast_u64_u32_u64)

lemma sint_word_of_int_u32:
  "k \<le> 0x7FFFFFFF \<Longrightarrow> - 0x80000000 \<le> k \<Longrightarrow> sint (word_of_int k :: u32) = k"
  by (simp add: signed_of_int signed_take_bit_int_eq_self)

lemma fits_s32_back:
  assumes "fits_s32 v"
  shows "scast (scast v :: u32) = v"
proof -
  have "sint (word_of_int (sint v) :: u32) = sint v"
    using assms by (intro sint_word_of_int_u32) (auto simp: fits_s32_def)
  then have "word_of_int (sint (word_of_int (sint v) :: u32)) = (word_of_int (sint v) :: u64)" by (rule arg_cong)
  then show ?thesis by simp
qed

lemma less_exp_bit:
  assumes "unat w < 2 ^ k" "bit (w :: u64) n"
  shows "n < k"
proof -
  have "take_bit k w = w" using assms(1)
    by (simp add: word_unat_eq_iff unsigned_take_bit_eq take_bit_nat_eq_self)
  then show ?thesis using assms(2) by (metis bit_take_bit_iff)
qed

lemma r_info_back:
  assumes "fits_r_info i"
  shows "r_info_widen (ELF32_R_INFO (ucast (ELF64_R_SYM i)) (ucast (ELF64_R_TYPE i))) = i"
proof -
  have m: "(0xFFFFFFFF :: u64) = mask 32" by (simp add: mask_eq_exp_minus_1)
  have s: "bit i n \<Longrightarrow> 32 \<le> n \<Longrightarrow> n < 56" for n
    using less_exp_bit [of "drop_bit 32 i" 24 "n - 32"] assms
    by (simp add: fits_r_info_def ELF64_R_SYM_def bit_drop_bit_eq word_less_nat_alt)
  have t: "bit i n \<Longrightarrow> n < 32 \<Longrightarrow> n < 8" for n
    using less_exp_bit [of "i AND mask 32" 8 n] assms
    by (simp add: fits_r_info_def ELF64_R_TYPE_def m bit_and_iff bit_mask_iff word_less_nat_alt del: mask_numeral)
  let ?w = "ELF32_R_INFO (ucast (ELF64_R_SYM i)) (ucast (ELF64_R_TYPE i))"
  have w: "?w = push_bit 8 (ucast (ELF64_R_SYM i)) OR ucast (ucast (ucast (ELF64_R_TYPE i) :: u32) :: byte)"
    unfolding ELF32_R_INFO_def
    by (rule disjunctive_add) (auto simp: bit_push_bit_iff bit_ucast_iff)
  have bw: "bit ?w n \<longleftrightarrow> n < 32 \<and> (if n < 8 then bit i n else bit i (24 + n))" for n
    unfolding w
    unfolding ELF64_R_SYM_def ELF64_R_TYPE_def m
    by (auto simp: bit_or_iff bit_push_bit_iff bit_ucast_iff bit_drop_bit_eq bit_and_iff bit_mask_iff
        simp del: mask_numeral)
  have "r_info_widen ?w = push_bit 32 (ucast (drop_bit 8 ?w)) OR (ucast (ucast ?w :: byte) AND mask 32)"
    unfolding r_info_widen_def ELF64_R_INFO_def ELF32_R_SYM_def ELF32_R_TYPE_def m
    by (rule disjunctive_add)
      (auto simp: bit_push_bit_iff bit_and_iff bit_mask_iff simp del: mask_numeral)
  also have "\<dots> = i"
  proof (rule bit_word_eqI)
    fix n :: nat assume "n < LENGTH(64)"
    then show "bit (push_bit 32 (ucast (drop_bit 8 ?w)) OR (ucast (ucast ?w :: byte) AND mask 32) :: u64) n = bit i n"
      using s [of n] t [of n]
      by (cases "32 \<le> n") (auto simp: bit_or_iff bit_push_bit_iff bit_ucast_iff bit_drop_bit_eq bit_and_iff bit_mask_iff bw
          simp del: mask_numeral)
  qed
  finally show ?thesis .
qed

lemma copy_r_info_ok:
  assumes "fits_r_info i"
  shows "copy_r_info i f (True, h) = (True, f (ELF32_R_INFO (ucast (ELF64_R_SYM i)) (ucast (ELF64_R_TYPE i))) h)"
proof -
  have t: "(ucast (ELF32_R_TYPE (-1)) :: u64) = mask 8"
    unfolding ELF32_R_TYPE_def
    by (rule bit_word_eqI) (auto simp: bit_ucast_iff bit_mask_iff simp del: mask_numeral)
  have "unat (ELF64_R_SYM i) < 0x1000000" "unat (ELF64_R_TYPE i) < 0x100"
    using assms by (auto simp: fits_r_info_def word_less_nat_alt)
  then have "\<not> ELF64_R_SYM i > drop_bit 8 (-1)" "\<not> ELF64_R_TYPE i > ucast (ELF32_R_TYPE (-1))"
    unfolding t by (simp_all add: word_less_nat_alt mask_eq_exp_minus_1)
  then show ?thesis by (simp add: copy_r_info_def)
qed

lemmas copy_ok = LIBELF_COPY_U32_ok LIBELF_COPY_S32_ok copy_r_info_ok fits_u32_back fits_s32_back r_info_back

interpretation syms: entry_type Elf32_Sym_DEF sym32_of sym32_members Elf64_Sym_DEF sym64_of sym64_members
  ELF_T_SYM sym_widen sym_narrow "\<lambda>g. fits_u32 (st_value g) \<and> fits_u32 (st_size g)" gelf_getsym gelf_update_sym
  by unfold_locales
    (auto simp: comp_layout_def gelf_getsym_def gelf_update_sym_def sym_widen_def sym_narrow_def copy_ok)

interpretation rels: entry_type Elf32_Rel_DEF rel_of rel_members Elf64_Rel_DEF rel_of rel_members
  ELF_T_REL rel_widen rel_narrow "\<lambda>g. fits_u32 (r_offset g) \<and> fits_r_info (r_info g)" gelf_getrel gelf_update_rel
  by unfold_locales
    (auto simp: comp_layout_def gelf_getrel_def gelf_update_rel_def rel_widen_def rel_narrow_def copy_ok)

interpretation relas: entry_type Elf32_Rela_DEF rela_of rela_members Elf64_Rela_DEF rela_of rela_members
  ELF_T_RELA rela_widen rela_narrow
  "\<lambda>g. fits_u32 (ra_offset g) \<and> fits_r_info (ra_info g) \<and> fits_s32 (ra_addend g)" gelf_getrela gelf_update_rela
  by unfold_locales
    (auto simp: comp_layout_def gelf_getrela_def gelf_update_rela_def rela_widen_def rela_narrow_def copy_ok)

interpretation dyns: entry_type Elf32_Dyn_DEF dyn_of dyn_members Elf64_Dyn_DEF dyn_of dyn_members
  ELF_T_DYN dyn_widen dyn_narrow "\<lambda>g. fits_s32 (d_tag g) \<and> fits_u32 (d_val g)" gelf_getdyn gelf_update_dyn
  by unfold_locales
    (auto simp: comp_layout_def gelf_getdyn_def gelf_update_dyn_def dyn_widen_def dyn_narrow_def copy_ok)

interpretation caps: entry_type Elf32_Cap_DEF cap_of cap_members Elf64_Cap_DEF cap_of cap_members
  ELF_T_CAP cap_widen cap_narrow "\<lambda>g. fits_u32 (c_tag g) \<and> fits_u32 (c_val g)" gelf_getcap gelf_update_cap
  by unfold_locales
    (auto simp: comp_layout_def gelf_getcap_def gelf_update_cap_def cap_widen_def cap_narrow_def copy_ok)

interpretation moves: entry_type Elf32_Move_DEF move_of move_members Elf64_Move_DEF move_of move_members
  ELF_T_MOVE move_widen move_narrow "\<lambda>g. fits_u32 (m_info g) \<and> fits_u32 (m_poffset g)"
  gelf_getmove gelf_update_move
  by unfold_locales
    (auto simp: comp_layout_def gelf_getmove_def gelf_update_move_def move_widen_def move_narrow_def copy_ok)

interpretation syminfos: entry_type Elf32_Syminfo_DEF syminfo_of syminfo_members Elf64_Syminfo_DEF syminfo_of
  syminfo_members ELF_T_SYMINFO "\<lambda>x. x" syminfo_narrow "\<lambda>g. True" gelf_getsyminfo gelf_update_syminfo
  by unfold_locales
    (auto simp: comp_layout_def gelf_getsyminfo_def gelf_update_syminfo_def syminfo_narrow_def)

section \<open>Properties\<close>

text \<open>A symbol table of two 32-bit symbols in a big-endian file, read on a little-endian host.\<close>

definition demo_symbols :: "byte list" where
  "demo_symbols =
     [0, 0, 0, 0, 0, 0, 0, 0, 0, 0, 0, 0, 0, 0, 0, 0,
      0, 0, 0, 7, 0, 0, 16, 0, 0, 0, 0, 4, 18, 0, 0, 1]"

definition demo_symtab :: "32 Elf_Shdr" where
  "demo_symtab = zero_Elf_Shdr\<lparr>sh_type := SHT_SYMTAB, sh_size := 32, sh_addralign := 4\<rparr>"

definition demo_sym_elf :: Elf where
  "demo_sym_elf = (demo_elf demo_symbols)\<lparr>e_class := ELFCLASS32, e_byteorder := ELFDATA2MSB, e_cmd := ELF_C_RDWR\<rparr>"

definition demo_sym_scn :: Elf_Scn where
  "demo_sym_scn = new_scn 0 ELFCLASS32 1 (Shdr32 demo_symtab)"

definition demo_sym_store :: store where
  "demo_sym_store = (demo_elf_store demo_symbols)
     \<lparr>elfs := [0 \<mapsto> demo_sym_elf], fresh := 3, scns := [2 \<mapsto> demo_sym_scn]\<rparr>"

lemmas demo_sym_simps = demo_sym_store_def demo_sym_elf_def demo_sym_scn_def demo_elf_store_def demo_elf_def
  initial_store_def initial_globals_def new_elf_def new_scn_def demo_symtab_def zero_Elf_Shdr_def

lemma demo_symbols_readable: "data_readable 2 demo_sym_scn 0 demo_sym_elf 0 0 demo_symbols demo_sym_store"
  by (simp add: data_readable_def demo_sym_simps std_class_def shdr_class_def fresh_mem_def)
    (simp add: demo_symbols_def)

text \<open>The symbol that the file has at an index.\<close>

definition file_sym :: "int \<Rightarrow> Elf \<Rightarrow> nat \<Rightarrow> nat \<Rightarrow> byte list \<Rightarrow> store \<Rightarrow> GElf_Sym" where
  "file_sym ec elf off i S st =
     (if ec = ELFCLASS32
      then sym_widen (sym32_of (host_order st) (file_struct (swap_needed elf st) ec Elf32_Sym_DEF
             (elem off (FSZ ec Elf32_Sym_DEF) i S)))
      else sym64_of (host_order st) (file_struct (swap_needed elf st) ec Elf64_Sym_DEF
             (elem off (FSZ ec Elf64_Sym_DEF) i S)))"

text \<open>
  Reading a symbol table of a file and getting a symbol from it gives the symbol that
  the file's bytes denote at that index, for both classes and byte orders.
\<close>

lemma getsym_reads_file:
  assumes r: "data_readable s scn e elf b off S st" and sh: "sh = s_shdr scn" and ec: "ec = e_class elf"
    and ty: "shdr_type sh = SHT_SYMTAB \<or> shdr_type sh = SHT_DYNSYM"
    and n: "n = unat (shdr_size sh) div fsize_table ELF_T_SYM ec"
    and size: "in_file elf (shdr_offset sh) (shdr_size sh)"
      "unat (shdr_size sh) mod fsize_table ELF_T_SYM ec = 0" "n * msize_table ELF_T_SYM ec < 2 ^ 64"
    and i: "i < n"
  shows "\<exists>d st'. elf_getdata (Some s) None st = Some (Some d, st')
    \<and> gelf_getsym (Some d) (int i) True st' = Some (Some (file_sym ec elf (off + unat (shdr_offset sh)) i S st), st')"
proof -
  have std: "std_class ec" "shdr_class sh = ec" "scns st s = Some scn" "s_elf scn = Some e"
    "elfs st e = Some elf" "e_version elf = EV_CURRENT"
    using r by (auto simp: data_readable_def ec sh)
  define def where "def = (if ec = ELFCLASS64 then Elf64_Sym_DEF else Elf32_Sym_DEF)"
  have l: "comp_layout ELF_T_SYM ec = Some def" by (simp add: comp_layout_def def_def)
  note tl = layout_type [OF l]
  have t: "libelf_xlate_shtype (shdr_type sh) = ELF_T_SYM" "shdr_type sh \<noteq> SHT_NOBITS"
    using ty by (auto simp: libelf_xlate_shtype_def)
  have fx: "fixed_size ELF_T_SYM ec" using tl by (simp add: fixed_size_def)
  have m: "msize_table ELF_T_SYM ec = struct_size ec def" using type_layout_sizes(2) [OF tl std(1)] by simp
  have "shdr_size sh \<noteq> 0" using n i by auto
  then obtain D where D: "elf_getdata (Some s) None st = Some (Some (fresh st), with_data s scn elf ELF_T_SYM D st)"
    "mem_image ELF_T_SYM ec (swap_needed elf st) (off + unat (shdr_offset sh)) S n D"
    using elf_getdata_fixed [OF r] t fx size n unfolding sh ec by auto
  define st' where "st' = with_data s scn elf ELF_T_SYM D st"
  have len: "length D = n * struct_size ec def" and img: "mem_struct ec def (elem 0 (struct_size ec def) i D)
      = file_struct (swap_needed elf st) ec def (elem (off + unat (shdr_offset sh)) (FSZ ec def) i S)"
    using D(2) i tl m by (auto simp: mem_image_def)
  have small: "length D < 2 ^ 64" using len size(3) m by simp
  have fit: "(i + 1) * struct_size ec def \<le> length D"
    unfolding len using i by (intro mult_le_mono1) simp
  have ready: "entry_ready ELF_T_SYM def (fresh st) ec (int i) (Suc (fresh st)) 0 D st'"
    using std t(1) l small fit sh ec
    by (auto simp: entry_ready_def st'_def with_data_def unat_of_nat take_bit_nat_eq_self)
  have order: "host_order st' = host_order st" by (simp add: st'_def with_data_def)
  have "syms.value_at ec (host_order st) (i * struct_size ec def) D
      = file_sym ec elf (off + unat (shdr_offset sh)) i S st"
    using std(1) img
    by (auto simp: syms.value_at_def file_sym_def def_def elem_def std_class_def)
  then have "gelf_getsym (Some (fresh st)) (int i) True st'
      = Some (Some (file_sym ec elf (off + unat (shdr_offset sh)) i S st), st')"
    using syms.get_value [OF ready] order by simp
  with D(1) show ?thesis by (auto simp: st'_def)
qed

lemma getsym_reads_file_witness:
  "\<exists>d st'. elf_getdata (Some 2) None demo_sym_store = Some (Some d, st')
    \<and> gelf_getsym (Some d) 1 True st' = Some (Some \<lparr>st_name = 7, st_info = 18, st_other = 0, st_shndx = 1,
        st_value = 4096, st_size = 4\<rparr>, st')"
proof -
  have "file_sym ELFCLASS32 demo_sym_elf 0 1 demo_symbols demo_sym_store
    = \<lparr>st_name = 7, st_info = 18, st_other = 0, st_shndx = 1, st_value = 4096, st_size = 4\<rparr>"
    by (simp add: file_sym_def file_struct_def Elf32_Sym_DEF_def FSZ_def elem_def segment_def demo_symbols_def
        swap_needed_def demo_sym_simps sym32_of_def sym_widen_def native_val_def word_of_le_def
        swap_vals_def swap_bytes_def)
  moreover have "e_class demo_sym_elf = 1" "s_shdr demo_sym_scn = Shdr32 demo_symtab"
    by (simp_all add: demo_sym_simps)
  moreover have "fsize_table ELF_T_SYM ELFCLASS32 = 16" "msize_table ELF_T_SYM ELFCLASS32 = 16"
    by (simp_all add: fsize_table_def msize_table_def prim_basic_def comp_layout_def DEF_simps FSZ_def
        struct_size_def struct_align_def align_up_def)
  moreover have "in_file demo_sym_elf 0 32" by (simp add: in_file_def demo_sym_simps demo_symbols_def)
  ultimately show ?thesis
    using getsym_reads_file [OF demo_symbols_readable refl refl _ refl, of 1]
    by (simp add: demo_symtab_def zero_Elf_Shdr_def)
qed

text \<open>
  C14. Updating a symbol and getting it again gives what was written, and every other symbol
  of the table is as before.  For a 32-bit object the value and size must fit.
\<close>

theorem update_sym_then_get:
  assumes "entry_ready ELF_T_SYM def d ec ndx b off bs st"
    and "ec = ELFCLASS32 \<Longrightarrow> fits_u32 (st_value g) \<and> fits_u32 (st_size g)"
  shows "\<exists>st'. gelf_update_sym (Some d) ndx (Some g) st = Some (True, st')
    \<and> gelf_getsym (Some d) ndx True st' = Some (Some g, st')
    \<and> (\<forall>j. j \<noteq> ndx \<longrightarrow> entry_ready ELF_T_SYM def d ec j b off bs st
         \<longrightarrow> (\<exists>x. gelf_getsym (Some d) j True st = Some (Some x, st)
               \<and> gelf_getsym (Some d) j True st' = Some (Some x, st')))"
  using syms.update_then_get [OF assms] .

text \<open>
  Updating a relocation with addend and getting it again gives what was written: the
  offset, the symbol and type packed in the information word, and the signed addend.
\<close>

theorem update_rela_then_get:
  assumes "entry_ready ELF_T_RELA def d ec ndx b off bs st"
    and "ec = ELFCLASS32 \<Longrightarrow> fits_u32 (ra_offset g) \<and> fits_r_info (ra_info g) \<and> fits_s32 (ra_addend g)"
  shows "\<exists>st'. gelf_update_rela (Some d) ndx (Some g) st = Some (True, st')
    \<and> gelf_getrela (Some d) ndx True st' = Some (Some g, st')
    \<and> (\<forall>j. j \<noteq> ndx \<longrightarrow> entry_ready ELF_T_RELA def d ec j b off bs st
         \<longrightarrow> (\<exists>x. gelf_getrela (Some d) j True st = Some (Some x, st)
               \<and> gelf_getrela (Some d) j True st' = Some (Some x, st')))"
  using relas.update_then_get [OF assms] .

text \<open>A store with the data of a 32-bit section whose type and contents are arguments.\<close>

definition demo_entries :: "u32 \<Rightarrow> byte list \<Rightarrow> store" where
  "demo_entries sht bs = demo_sym_store
     \<lparr>scns := [2 \<mapsto> new_scn 0 ELFCLASS32 1 (Shdr32 (demo_symtab\<lparr>sh_type := sht\<rparr>))],
      mem := [0 \<mapsto> demo_symbols, 4 \<mapsto> bs],
      datas := [3 \<mapsto> \<lparr>d_data = \<lparr>d_align = 4, d_buf = Some (4, 0), d_off = 0, d_size = of_nat (length bs),
          d_type = libelf_xlate_shtype sht, d_version = 1\<rparr>, d_scn = Some 2, d_flags = 0\<rparr>], fresh := 5\<rparr>"

lemma demo_entry_ready:
  assumes "comp_layout t ELFCLASS32 = Some def" "libelf_xlate_shtype sht = t"
    and "(nat i + 1) * struct_size ELFCLASS32 def \<le> length bs" "length bs < 2 ^ 64" "0 \<le> i"
  shows "entry_ready t def 3 ELFCLASS32 i 4 0 bs (demo_entries sht bs)"
  using assms
  by (simp add: entry_ready_def demo_entries_def demo_sym_simps std_class_def shdr_class_def unat_of_nat
      take_bit_nat_eq_self)

theorem update_sym_then_get_witness:
  "\<exists>st'. gelf_update_sym (Some 3) 1 (Some \<lparr>st_name = 9, st_info = 1, st_other = 2, st_shndx = 3,
        st_value = 0xFFFFFFFF, st_size = 5\<rparr>) (demo_entries SHT_SYMTAB (replicate 48 0)) = Some (True, st')
    \<and> gelf_getsym (Some 3) 1 True st' = Some (Some \<lparr>st_name = 9, st_info = 1, st_other = 2, st_shndx = 3,
        st_value = 0xFFFFFFFF, st_size = 5\<rparr>, st')"
proof -
  have "struct_size ELFCLASS32 Elf32_Sym_DEF = 16"
    by (simp add: Elf32_Sym_DEF_def struct_size_def struct_align_def align_up_def)
  then have "entry_ready ELF_T_SYM Elf32_Sym_DEF 3 ELFCLASS32 1 4 0 (replicate 48 0)
      (demo_entries SHT_SYMTAB (replicate 48 0))"
    by (intro demo_entry_ready) (simp_all add: comp_layout_def libelf_xlate_shtype_def)
  from update_sym_then_get [OF this, of "\<lparr>st_name = 9, st_info = 1, st_other = 2, st_shndx = 3,
        st_value = 0xFFFFFFFF, st_size = 5\<rparr>"]
  show ?thesis by (simp add: fits_u32_def) blast
qed

theorem update_rela_then_get_witness:
  "\<exists>st'. gelf_update_rela (Some 3) 0 (Some \<lparr>ra_offset = 16, ra_info = 0x100000002, ra_addend = -8\<rparr>)
        (demo_entries SHT_RELA (replicate 12 0)) = Some (True, st')
    \<and> gelf_getrela (Some 3) 0 True st' = Some (Some \<lparr>ra_offset = 16, ra_info = 0x100000002, ra_addend = -8\<rparr>, st')"
proof -
  have "struct_size ELFCLASS32 Elf32_Rela_DEF = 12"
    by (simp add: Elf32_Rela_DEF_def struct_size_def struct_align_def align_up_def)
  then have "entry_ready ELF_T_RELA Elf32_Rela_DEF 3 ELFCLASS32 0 4 0 (replicate 12 0)
      (demo_entries SHT_RELA (replicate 12 0))"
    by (intro demo_entry_ready) (simp_all add: comp_layout_def libelf_xlate_shtype_def)
  moreover have "ELF64_R_SYM 0x100000002 = 1" "ELF64_R_TYPE 0x100000002 = 2"
    by (simp_all add: ELF64_R_SYM_def ELF64_R_TYPE_def)
  ultimately show ?thesis
    using update_rela_then_get [of Elf32_Rela_DEF 3 ELFCLASS32 0 4 0 "replicate 12 0"
        "demo_entries SHT_RELA (replicate 12 0)" "\<lparr>ra_offset = 16, ra_info = 0x100000002, ra_addend = -8\<rparr>"]
    by (simp add: fits_u32_def fits_r_info_def fits_s32_def) blast
qed

text \<open>
  Updating the extended section index of a symbol fails with ARGUMENT although the index
  table itself is in order: the type tested is that of the symbol data.  The symbol has been
  written by then.
\<close>

lemma update_symshndx_fails:
  assumes r: "entry_ready ELF_T_SYM def d ec ndx b off bs st"
    and g: "ec = ELFCLASS32 \<Longrightarrow> fits_u32 (st_value g) \<and> fits_u32 (st_size g)"
    and ld: "datas st d = Some ld" "d_scn ld = Some s" "d_type (d_data ld) \<noteq> ELF_T_WORD"
    and lid: "datas st i = Some lid" "d_scn lid = Some s'" "scns st s' = Some scn'"
    and scns: "map_option s_elf (scns st s) = Some (s_elf scn')" "shdr_class (s_shdr scn') = ec"
  shows "\<exists>st'. gelf_update_symshndx (Some d) (Some i) ndx (Some g) x st = Some (False, st')
    \<and> libelf_error (globals st') = LIBELF_ERROR ELF_E_ARGUMENT 0 \<and> gelf_getsym (Some d) ndx True st' = Some (Some g, st')"
proof -
  from syms.update_value [OF r g] obtain bs' where
    up: "gelf_update_sym (Some d) ndx (Some g) st = Some (True, st\<lparr>mem := (mem st)(b \<mapsto> bs')\<rparr>)"
    and len: "length bs' = length bs"
    and val: "syms.value_at ec (host_order st) (off + nat ndx * struct_size ec def) bs' = g" by blast
  define st1 where "st1 = st\<lparr>mem := (mem st)(b \<mapsto> bs')\<rparr>"
  let ?st' = "set_error ELF_E_ARGUMENT st1"
  have "entry_ready ELF_T_SYM def d ec ndx b off bs' st1"
    using entry_ready_write [OF r len] by (simp add: st1_def)
  then have r': "entry_ready ELF_T_SYM def d ec ndx b off bs' ?st'"
    by (simp add: entry_ready_def)
  have shdr: "scn_shdr c scn' = Some (s_shdr scn')" if "shdr_class (s_shdr scn') = c" for c
    using that by (auto simp: scn_shdr_def shdr_class_def split: Shdr.split)
  have "gelf_getsym (Some d) ndx True ?st' = Some (Some g, ?st')"
    using syms.get_value [OF r'] val by (simp add: st1_def)
  moreover have "gelf_update_symshndx (Some d) (Some i) ndx (Some g) x st = Some (False, ?st')"
    using r ld lid scns
    by (auto simp: gelf_update_symshndx_def up st1_def [symmetric] shndx_slot_def entry_ready_def std_class_def
        shdr) (simp_all add: st1_def shdr)
  ultimately show ?thesis by (auto simp: set_error_os_def)
qed

lemma copy_r_info_truncates:
  assumes t: "ELF64_R_TYPE i < 0x100"
  shows "copy_r_info i f (True, h) = copy_r_info (i AND mask 56) f (True, h)" "fits_r_info (i AND mask 56)"
proof -
  have m: "(0xFFFFFFFF :: u64) = mask 32" by (simp add: mask_eq_exp_minus_1)
  have ty: "ELF64_R_TYPE (i AND mask 56) = ELF64_R_TYPE i"
    unfolding ELF64_R_TYPE_def m
    by (rule bit_word_eqI) (auto simp: bit_and_iff bit_mask_iff simp del: mask_numeral)
  have sy: "ELF64_R_SYM (i AND mask 56) = take_bit 24 (ELF64_R_SYM i)"
    unfolding ELF64_R_SYM_def
    by (rule bit_word_eqI)
      (auto simp: bit_and_iff bit_mask_iff bit_drop_bit_eq bit_take_bit_iff simp del: mask_numeral)
  have lt: "take_bit 24 (ELF64_R_SYM i) < 0x1000000"
    using take_bit_nat_less_exp [of 24 "unat (ELF64_R_SYM i)"]
    by (simp add: word_less_nat_alt unsigned_take_bit_eq)
  have "drop_bit 32 i \<le> drop_bit 8 (-1)"
  proof -
    have "unat i div 2 ^ 32 < 2 ^ 32"
      using unsigned_less [of i, where ?'a = nat] by (simp add: less_mult_imp_div_less)
    then have "unat (drop_bit 32 i) < 2 ^ 32" by (simp add: unsigned_drop_bit_eq drop_bit_eq_div unat_div_distrib)
    then show ?thesis by (simp add: word_le_nat_alt mask_eq_exp_minus_1)
  qed
  moreover have "push_bit 8 (ucast (take_bit 24 (ELF64_R_SYM i)) :: u32) = push_bit 8 (ucast (ELF64_R_SYM i))"
    by (rule bit_word_eqI) (auto simp: bit_push_bit_iff bit_ucast_iff bit_take_bit_iff)
  moreover have "take_bit 24 (ELF64_R_SYM i) \<le> drop_bit 8 (-1)"
    using lt by (simp add: word_le_nat_alt word_less_nat_alt mask_eq_exp_minus_1)
  ultimately show "copy_r_info i f (True, h) = copy_r_info (i AND mask 56) f (True, h)"
    unfolding copy_r_info_def ty sy ELF32_R_INFO_def by (auto simp: ELF64_R_SYM_def not_le)
  show "fits_r_info (i AND mask 56)" unfolding fits_r_info_def ty sy using lt t by simp
qed

text \<open>
  A relocation whose symbol index needs more than 24 bits is accepted for a 32-bit object
  and read back with the top eight bits of the index cut off: the limit that is tested is
  that of a 64-bit long.
\<close>

lemma update_rel_truncates_symbol:
  assumes r: "entry_ready ELF_T_REL def d ELFCLASS32 ndx b off bs st"
    and g: "fits_u32 (r_offset g)" "ELF64_R_TYPE (r_info g) < 0x100"
  shows "\<exists>st'. gelf_update_rel (Some d) ndx (Some g) st = Some (True, st')
    \<and> gelf_getrel (Some d) ndx True st' = Some (Some (g\<lparr>r_info := r_info g AND mask 56\<rparr>), st')"
proof -
  let ?g = "g\<lparr>r_info := r_info g AND mask 56\<rparr>"
  note t = copy_r_info_truncates [OF g(2)]
  have "rel_narrow g x = rel_narrow ?g x" for x
    by (simp add: rel_narrow_def LIBELF_COPY_U32_ok g(1) t(1))
  then have "gelf_update_rel (Some d) ndx (Some g) st = gelf_update_rel (Some d) ndx (Some ?g) st"
    using entry_slot_ready(1) [OF r] by (simp add: gelf_update_rel_def update_entry_def)
  then show ?thesis using rels.update_then_get [OF r, of ?g] g(1) t(2) by auto
qed

lemma update_rel_truncates_symbol_witness:
  "\<exists>st'. gelf_update_rel (Some 3) 0 (Some \<lparr>r_offset = 16, r_info = 0x0100010200000003\<rparr>)
        (demo_entries SHT_REL (replicate 8 0)) = Some (True, st')
    \<and> gelf_getrel (Some 3) 0 True st' = Some (Some \<lparr>r_offset = 16, r_info = 0x10200000003\<rparr>, st')"
proof -
  have "struct_size ELFCLASS32 Elf32_Rel_DEF = 8"
    by (simp add: Elf32_Rel_DEF_def struct_size_def struct_align_def align_up_def)
  then have "entry_ready ELF_T_REL Elf32_Rel_DEF 3 ELFCLASS32 0 4 0 (replicate 8 0)
      (demo_entries SHT_REL (replicate 8 0))"
    by (intro demo_entry_ready) (simp_all add: comp_layout_def libelf_xlate_shtype_def)
  from update_rel_truncates_symbol [OF this, of "\<lparr>r_offset = 16, r_info = 0x0100010200000003\<rparr>"]
  show ?thesis by (simp add: fits_u32_def ELF64_R_TYPE_def mask_eq_exp_minus_1)
qed

text \<open>The store with a section of extended indices beside the symbols.\<close>

definition demo_shndx :: store where
  "demo_shndx = (demo_entries SHT_SYMTAB (replicate 48 0))
     \<lparr>scns := [2 \<mapsto> new_scn 0 ELFCLASS32 1 (Shdr32 (demo_symtab\<lparr>sh_type := SHT_SYMTAB\<rparr>)),
              6 \<mapsto> new_scn 0 ELFCLASS32 2 (Shdr32 (demo_symtab\<lparr>sh_type := SHT_SYMTAB_SHNDX\<rparr>))],
      mem := [0 \<mapsto> demo_symbols, 4 \<mapsto> replicate 48 0, 5 \<mapsto> replicate 12 0],
      datas := [3 \<mapsto> \<lparr>d_data = \<lparr>d_align = 4, d_buf = Some (4, 0), d_off = 0, d_size = 48,
          d_type = ELF_T_SYM, d_version = 1\<rparr>, d_scn = Some 2, d_flags = 0\<rparr>,
        7 \<mapsto> \<lparr>d_data = \<lparr>d_align = 4, d_buf = Some (5, 0), d_off = 0, d_size = 12,
          d_type = ELF_T_WORD, d_version = 1\<rparr>, d_scn = Some 6, d_flags = 0\<rparr>], fresh := 8\<rparr>"

lemma update_symshndx_fails_witness:
  "\<exists>st'. gelf_update_symshndx (Some 3) (Some 7) 1 (Some \<lparr>st_name = 9, st_info = 1, st_other = 2,
        st_shndx = 0xFFFF, st_value = 0, st_size = 5\<rparr>) 65540 demo_shndx = Some (False, st')
    \<and> libelf_error (globals st') = LIBELF_ERROR ELF_E_ARGUMENT 0
    \<and> gelf_getsym (Some 3) 1 True st' = Some (Some \<lparr>st_name = 9, st_info = 1, st_other = 2,
        st_shndx = 0xFFFF, st_value = 0, st_size = 5\<rparr>, st')"
proof -
  have "struct_size ELFCLASS32 Elf32_Sym_DEF = 16"
    by (simp add: Elf32_Sym_DEF_def struct_size_def struct_align_def align_up_def)
  then have "entry_ready ELF_T_SYM Elf32_Sym_DEF 3 ELFCLASS32 1 4 0 (replicate 48 0) demo_shndx"
    by (simp add: entry_ready_def demo_shndx_def demo_entries_def demo_sym_simps std_class_def shdr_class_def
        comp_layout_def libelf_xlate_shtype_def)
  from update_symshndx_fails [OF this, of "\<lparr>st_name = 9, st_info = 1, st_other = 2,
        st_shndx = 0xFFFF, st_value = 0, st_size = 5\<rparr>" "the (datas demo_shndx 3)" 2 7
        "the (datas demo_shndx 7)" 6 "the (scns demo_shndx 6)" 65540]
  show ?thesis
    by (simp add: fits_u32_def demo_shndx_def demo_entries_def demo_sym_simps shdr_class_def)
qed

end
