(* ===== verification/Eu_Entries.thy ===== *)
theory Eu_Entries
  imports Eu_State Gelf_Entries
begin

text \<open>
  Access to the entries of a data buffer in elfutils: the functions \<open>gelf_get*\<close> and
  \<open>gelf_update_*\<close> on symbols, relocations, dynamic entries, auxiliary vectors, moves, symbol
  information, libraries and version indices by index, and on version definitions and needs by
  offset.  Functions of the same shape are one definition, which is given the layouts and the
  copies of the entry type.

  The caller's structure is the result of a function that reads and an argument of one that
  writes.  An index is an \<open>int\<close>; it is kept as the word of 32 bits that the comparison with
  the number of entries makes of it.
\<close>

section \<open>Entries that only this library knows\<close>

record Elf_Verdef =
  vd_version :: u16
  vd_flags :: u16
  vd_ndx :: u16
  vd_cnt :: u16
  vd_hash :: u32
  vd_aux :: u32
  vd_next :: u32

record Elf_Verdaux =
  vda_name :: u32
  vda_next :: u32

record Elf_Verneed =
  vn_version :: u16
  vn_cnt :: u16
  vn_file :: u32
  vn_aux :: u32
  vn_next :: u32

record Elf_Vernaux =
  vna_hash :: u32
  vna_flags :: u16
  vna_other :: u16
  vna_name :: u32
  vna_next :: u32

record Elf_Lib =
  l_name :: u32
  l_time_stamp :: u32
  l_checksum :: u32
  l_version :: u32
  l_flags :: u32

record (overloaded) 'w Elf_auxv =
  a_type :: "'w word"
  a_val :: "'w word"

definition Elf32_auxv_DEF :: layout where
  "Elf32_auxv_DEF = [(''a_type'', WORD), (''a_un.a_val'', WORD)]"

definition Elf64_auxv_DEF :: layout where
  "Elf64_auxv_DEF = [(''a_type'', XWORD), (''a_un.a_val'', XWORD)]"

definition Elf_Lib_DEF :: layout where
  "Elf_Lib_DEF =
     [(''l_name'', WORD), (''l_time_stamp'', WORD), (''l_checksum'', WORD), (''l_version'', WORD),
      (''l_flags'', WORD)]"

text \<open>\<open>Elf32_Versym\<close> and \<open>Elf64_Versym\<close> are halfwords.\<close>

definition Elf_Versym_DEF :: layout where
  "Elf_Versym_DEF = [(''versym'', HALF)]"

definition verdef_of :: "u32 \<Rightarrow> struct_val \<Rightarrow> Elf_Verdef" where
  "verdef_of o' vs =
     \<lparr>vd_version = native_val o' (vs ! 0), vd_flags = native_val o' (vs ! 1), vd_ndx = native_val o' (vs ! 2),
      vd_cnt = native_val o' (vs ! 3), vd_hash = native_val o' (vs ! 4), vd_aux = native_val o' (vs ! 5),
      vd_next = native_val o' (vs ! 6)\<rparr>"

definition verdef_members :: "u32 \<Rightarrow> Elf_Verdef \<Rightarrow> struct_val" where
  "verdef_members o' x =
     [native_bytes o' 2 (vd_version x), native_bytes o' 2 (vd_flags x), native_bytes o' 2 (vd_ndx x),
      native_bytes o' 2 (vd_cnt x), native_bytes o' 4 (vd_hash x), native_bytes o' 4 (vd_aux x),
      native_bytes o' 4 (vd_next x)]"

definition verdaux_of :: "u32 \<Rightarrow> struct_val \<Rightarrow> Elf_Verdaux" where
  "verdaux_of o' vs = \<lparr>vda_name = native_val o' (vs ! 0), vda_next = native_val o' (vs ! 1)\<rparr>"

definition verdaux_members :: "u32 \<Rightarrow> Elf_Verdaux \<Rightarrow> struct_val" where
  "verdaux_members o' x = [native_bytes o' 4 (vda_name x), native_bytes o' 4 (vda_next x)]"

definition verneed_of :: "u32 \<Rightarrow> struct_val \<Rightarrow> Elf_Verneed" where
  "verneed_of o' vs =
     \<lparr>vn_version = native_val o' (vs ! 0), vn_cnt = native_val o' (vs ! 1), vn_file = native_val o' (vs ! 2),
      vn_aux = native_val o' (vs ! 3), vn_next = native_val o' (vs ! 4)\<rparr>"

definition verneed_members :: "u32 \<Rightarrow> Elf_Verneed \<Rightarrow> struct_val" where
  "verneed_members o' x =
     [native_bytes o' 2 (vn_version x), native_bytes o' 2 (vn_cnt x), native_bytes o' 4 (vn_file x),
      native_bytes o' 4 (vn_aux x), native_bytes o' 4 (vn_next x)]"

definition vernaux_of :: "u32 \<Rightarrow> struct_val \<Rightarrow> Elf_Vernaux" where
  "vernaux_of o' vs =
     \<lparr>vna_hash = native_val o' (vs ! 0), vna_flags = native_val o' (vs ! 1), vna_other = native_val o' (vs ! 2),
      vna_name = native_val o' (vs ! 3), vna_next = native_val o' (vs ! 4)\<rparr>"

definition vernaux_members :: "u32 \<Rightarrow> Elf_Vernaux \<Rightarrow> struct_val" where
  "vernaux_members o' x =
     [native_bytes o' 4 (vna_hash x), native_bytes o' 2 (vna_flags x), native_bytes o' 2 (vna_other x),
      native_bytes o' 4 (vna_name x), native_bytes o' 4 (vna_next x)]"

definition lib_of :: "u32 \<Rightarrow> struct_val \<Rightarrow> Elf_Lib" where
  "lib_of o' vs =
     \<lparr>l_name = native_val o' (vs ! 0), l_time_stamp = native_val o' (vs ! 1), l_checksum = native_val o' (vs ! 2),
      l_version = native_val o' (vs ! 3), l_flags = native_val o' (vs ! 4)\<rparr>"

definition lib_members :: "u32 \<Rightarrow> Elf_Lib \<Rightarrow> struct_val" where
  "lib_members o' x =
     [native_bytes o' 4 (l_name x), native_bytes o' 4 (l_time_stamp x), native_bytes o' 4 (l_checksum x),
      native_bytes o' 4 (l_version x), native_bytes o' 4 (l_flags x)]"

definition auxv_of :: "u32 \<Rightarrow> struct_val \<Rightarrow> 'w::len Elf_auxv" where
  "auxv_of o' vs = \<lparr>a_type = native_val o' (vs ! 0), a_val = native_val o' (vs ! 1)\<rparr>"

definition auxv_members :: "u32 \<Rightarrow> 'w::len Elf_auxv \<Rightarrow> struct_val" where
  "auxv_members o' x =
     (let w = wbytes TYPE('w) in [native_bytes o' w (a_type x), native_bytes o' w (a_val x)])"

definition versym_of :: "u32 \<Rightarrow> struct_val \<Rightarrow> u16" where
  "versym_of o' vs = native_val o' (vs ! 0)"

definition versym_members :: "u32 \<Rightarrow> u16 \<Rightarrow> struct_val" where
  "versym_members o' x = [native_bytes o' 2 x]"

lemmas entry_simps = object_simps Elf32_auxv_DEF_def Elf64_auxv_DEF_def Elf_Lib_DEF_def Elf_Versym_DEF_def
  verdef_of_def verdef_members_def verdaux_of_def verdaux_members_def verneed_of_def verneed_members_def
  vernaux_of_def vernaux_members_def lib_of_def lib_members_def auxv_of_def auxv_members_def
  versym_of_def versym_members_def

section \<open>The way to an entry\<close>

text \<open>The chain \<open>data_scn->s->elf\<close>.\<close>

definition data_elf :: "eu_scn_ref option \<Rightarrow> eu_store \<Rightarrow> (eu_scn_ref \<times> Eu_Elf) option" where
  "data_elf sr es =
     do { s \<leftarrow> sr; scn \<leftarrow> eu_scn s es; e \<leftarrow> sc_elf scn; elf \<leftarrow> eu_elfs es e; Some (s, elf) }"

definition INVALID_NDX :: "u32 \<Rightarrow> nat \<Rightarrow> Elf_Data \<Rightarrow> bool" where
  "INVALID_NDX ndx sz x \<longleftrightarrow> d_size x div of_nat sz \<le> ucast ndx"

text \<open>The address of an array element; a negative index is one before the array.\<close>

definition entry_ptr :: "Elf_Data \<Rightarrow> u32 \<Rightarrow> nat \<Rightarrow> ptr" where
  "entry_ptr x ndx sz = (if sint ndx < 0 then None else ptr_off (d_buf x) (nat (sint ndx) * sz))"

text \<open>\<open>s->flags |= ELF_F_DIRTY\<close>\<close>

definition mark_dirty :: "eu_scn_ref \<Rightarrow> eu_store \<Rightarrow> eu_store option" where
  "mark_dirty s es =
     do { scn \<leftarrow> eu_scn s es; Some (eu_put_scn s (scn\<lparr>sc_flags := sc_flags scn OR EU_F_DIRTY\<rparr>) es) }"

definition eu_load :: "int \<Rightarrow> layout \<Rightarrow> (u32 \<Rightarrow> struct_val \<Rightarrow> 'x) \<Rightarrow> ptr \<Rightarrow> eu_store \<Rightarrow> 'x option" where
  "eu_load ec def of' p es = map_option (of' (host_order (eu_mach es))) (load_struct ec def p (eu_mach es))"

definition eu_save :: "int \<Rightarrow> layout \<Rightarrow> (u32 \<Rightarrow> 'x \<Rightarrow> struct_val) \<Rightarrow> ptr \<Rightarrow> 'x \<Rightarrow> eu_store \<Rightarrow> eu_store option" where
  "eu_save ec def to p x es =
     do { st \<leftarrow> store_struct ec def p (to (host_order (eu_mach es)) x) (eu_mach es); Some (es\<lparr>eu_mach := st\<rparr>) }"

section \<open>Entries whose layout depends on the class\<close>

definition eu_get_entry ::
  "int \<Rightarrow> layout \<Rightarrow> (u32 \<Rightarrow> struct_val \<Rightarrow> 'n) \<Rightarrow> ('n \<Rightarrow> 'g) \<Rightarrow> layout \<Rightarrow> (u32 \<Rightarrow> struct_val \<Rightarrow> 'g)
    \<Rightarrow> eu_data_ref option \<Rightarrow> u32 \<Rightarrow> eu_store \<Rightarrow> ('g option \<times> eu_store) option"
where
  "eu_get_entry t def32 of32 widen def64 of64 dr ndx es =
     (case dr of None \<Rightarrow> Some (None, es)
      | Some d \<Rightarrow>
          do { (x, sr) \<leftarrow> eu_data d es;
               if d_type x \<noteq> t then Some (None, eu_seterrno EU_E_INVALID_HANDLE es)
               else
                 do { (s, elf) \<leftarrow> data_elf sr es;
                      if ee_class elf = ELFCLASS32 then
                        (let sz = struct_size ELFCLASS32 def32
                         in if INVALID_NDX ndx sz x then Some (None, eu_seterrno EU_E_INVALID_INDEX es)
                            else do { src \<leftarrow> eu_load ELFCLASS32 def32 of32 (entry_ptr x ndx sz) es;
                                      Some (Some (widen src), es) })
                      else
                        (let sz = struct_size ELFCLASS64 def64
                         in if INVALID_NDX ndx sz x then Some (None, eu_seterrno EU_E_INVALID_INDEX es)
                            else do { src \<leftarrow> eu_load ELFCLASS64 def64 of64 (entry_ptr x ndx sz) es;
                                      Some (Some src, es) }) } })"

text \<open>\<open>fits\<close> is the range test for objects of 32 bits.\<close>

definition eu_update_entry ::
  "int \<Rightarrow> layout \<Rightarrow> (u32 \<Rightarrow> 'n \<Rightarrow> struct_val) \<Rightarrow> ('g \<Rightarrow> bool) \<Rightarrow> ('g \<Rightarrow> 'n) \<Rightarrow> layout \<Rightarrow> (u32 \<Rightarrow> 'g \<Rightarrow> struct_val)
    \<Rightarrow> eu_data_ref option \<Rightarrow> u32 \<Rightarrow> 'g \<Rightarrow> eu_store \<Rightarrow> (int \<times> eu_store) option"
where
  "eu_update_entry t def32 to32 fits narrow def64 to64 dr ndx src es =
     (case dr of None \<Rightarrow> Some (0, es)
      | Some d \<Rightarrow>
          do { (x, sr) \<leftarrow> eu_data d es;
               if d_type x \<noteq> t then Some (0, eu_seterrno EU_E_DATA_MISMATCH es)
               else
                 do { (s, elf) \<leftarrow> data_elf sr es;
                      if ee_class elf = ELFCLASS32 then
                        (let sz = struct_size ELFCLASS32 def32
                         in if \<not> fits src then Some (0, eu_seterrno EU_E_INVALID_DATA es)
                            else if INVALID_NDX ndx sz x then Some (0, eu_seterrno EU_E_INVALID_INDEX es)
                            else do { es \<leftarrow> eu_save ELFCLASS32 def32 to32 (entry_ptr x ndx sz) (narrow src) es;
                                      es \<leftarrow> mark_dirty s es;
                                      Some (1, es) })
                      else
                        (let sz = struct_size ELFCLASS64 def64
                         in if INVALID_NDX ndx sz x then Some (0, eu_seterrno EU_E_INVALID_INDEX es)
                            else do { es \<leftarrow> eu_save ELFCLASS64 def64 to64 (entry_ptr x ndx sz) src es;
                                      es \<leftarrow> mark_dirty s es;
                                      Some (1, es) }) } })"

definition eu_sym_widen :: "32 Elf_Sym \<Rightarrow> GElf_Sym" where
  "eu_sym_widen x =
     \<lparr>st_name = st_name x, st_info = st_info x, st_other = st_other x, st_shndx = st_shndx x,
      st_value = ucast (st_value x), st_size = ucast (st_size x)\<rparr>"

definition eu_sym_fits :: "GElf_Sym \<Rightarrow> bool" where
  "eu_sym_fits g \<longleftrightarrow> \<not> (st_value g > 0xffffffff \<or> st_size g > 0xffffffff)"

definition eu_sym_narrow :: "GElf_Sym \<Rightarrow> 32 Elf_Sym" where
  "eu_sym_narrow g =
     \<lparr>st_name = st_name g, st_info = st_info g, st_other = st_other g, st_shndx = st_shndx g,
      st_value = ucast (st_value g), st_size = ucast (st_size g)\<rparr>"

definition eu_gelf_getsym :: "eu_data_ref option \<Rightarrow> u32 \<Rightarrow> eu_store \<Rightarrow> (GElf_Sym option \<times> eu_store) option" where
  "eu_gelf_getsym = eu_get_entry EU_T_SYM Elf32_Sym_DEF sym32_of eu_sym_widen Elf64_Sym_DEF sym64_of"

definition eu_gelf_update_sym :: "eu_data_ref option \<Rightarrow> u32 \<Rightarrow> GElf_Sym \<Rightarrow> eu_store \<Rightarrow> (int \<times> eu_store) option" where
  "eu_gelf_update_sym =
     eu_update_entry EU_T_SYM Elf32_Sym_DEF sym32_members eu_sym_fits eu_sym_narrow Elf64_Sym_DEF sym64_members"

text \<open>The parts of the information word of a relocation, as \<open>elf.h\<close> defines them.\<close>

definition eu_r_info_widen :: "u32 \<Rightarrow> u64" where
  "eu_r_info_widen i = push_bit 32 (ucast (drop_bit 8 i)) + ucast (i AND 0xff)"

definition eu_r_info_fits :: "u64 \<Rightarrow> bool" where
  "eu_r_info_fits i \<longleftrightarrow> \<not> (drop_bit 32 i > 0xffffff \<or> i AND 0xffffffff > 0xff)"

definition eu_r_info_narrow :: "u64 \<Rightarrow> u32" where
  "eu_r_info_narrow i = ucast (push_bit 8 (drop_bit 32 i) + ((i AND 0xffffffff) AND 0xff))"

definition eu_rel_widen :: "32 Elf_Rel \<Rightarrow> GElf_Rel" where
  "eu_rel_widen x = \<lparr>r_offset = ucast (r_offset x), r_info = eu_r_info_widen (r_info x)\<rparr>"

definition eu_rel_fits :: "GElf_Rel \<Rightarrow> bool" where
  "eu_rel_fits g \<longleftrightarrow> \<not> r_offset g > 0xffffffff \<and> eu_r_info_fits (r_info g)"

definition eu_rel_narrow :: "GElf_Rel \<Rightarrow> 32 Elf_Rel" where
  "eu_rel_narrow g = \<lparr>r_offset = ucast (r_offset g), r_info = eu_r_info_narrow (r_info g)\<rparr>"

definition eu_gelf_getrel :: "eu_data_ref option \<Rightarrow> u32 \<Rightarrow> eu_store \<Rightarrow> (GElf_Rel option \<times> eu_store) option" where
  "eu_gelf_getrel = eu_get_entry EU_T_REL Elf32_Rel_DEF rel_of eu_rel_widen Elf64_Rel_DEF rel_of"

definition eu_gelf_update_rel :: "eu_data_ref option \<Rightarrow> u32 \<Rightarrow> GElf_Rel \<Rightarrow> eu_store \<Rightarrow> (int \<times> eu_store) option" where
  "eu_gelf_update_rel =
     eu_update_entry EU_T_REL Elf32_Rel_DEF rel_members eu_rel_fits eu_rel_narrow Elf64_Rel_DEF rel_members"

definition eu_rela_widen :: "32 Elf_Rela \<Rightarrow> GElf_Rela" where
  "eu_rela_widen x = \<lparr>ra_offset = ucast (ra_offset x), ra_info = eu_r_info_widen (ra_info x),
     ra_addend = scast (ra_addend x)\<rparr>"

definition eu_rela_fits :: "GElf_Rela \<Rightarrow> bool" where
  "eu_rela_fits g \<longleftrightarrow>
     \<not> ra_offset g > 0xffffffff \<and> eu_r_info_fits (ra_info g)
     \<and> \<not> (sint (ra_addend g) < - 0x80000000 \<or> sint (ra_addend g) > 0x7fffffff)"

definition eu_rela_narrow :: "GElf_Rela \<Rightarrow> 32 Elf_Rela" where
  "eu_rela_narrow g = \<lparr>ra_offset = ucast (ra_offset g), ra_info = eu_r_info_narrow (ra_info g),
     ra_addend = scast (ra_addend g)\<rparr>"

definition eu_gelf_getrela :: "eu_data_ref option \<Rightarrow> u32 \<Rightarrow> eu_store \<Rightarrow> (GElf_Rela option \<times> eu_store) option" where
  "eu_gelf_getrela = eu_get_entry EU_T_RELA Elf32_Rela_DEF rela_of eu_rela_widen Elf64_Rela_DEF rela_of"

definition eu_gelf_update_rela :: "eu_data_ref option \<Rightarrow> u32 \<Rightarrow> GElf_Rela \<Rightarrow> eu_store \<Rightarrow> (int \<times> eu_store) option" where
  "eu_gelf_update_rela =
     eu_update_entry EU_T_RELA Elf32_Rela_DEF rela_members eu_rela_fits eu_rela_narrow Elf64_Rela_DEF rela_members"

definition eu_dyn_widen :: "32 Elf_Dyn \<Rightarrow> GElf_Dyn" where
  "eu_dyn_widen x = \<lparr>d_tag = scast (d_tag x), d_val = ucast (d_val x)\<rparr>"

definition eu_dyn_fits :: "GElf_Dyn \<Rightarrow> bool" where
  "eu_dyn_fits g \<longleftrightarrow> \<not> (sint (d_tag g) < - 0x80000000 \<or> sint (d_tag g) > 0x7fffffff \<or> d_val g > 0xffffffff)"

definition eu_dyn_narrow :: "GElf_Dyn \<Rightarrow> 32 Elf_Dyn" where
  "eu_dyn_narrow g = \<lparr>d_tag = scast (d_tag g), d_val = ucast (d_val g)\<rparr>"

definition eu_gelf_getdyn :: "eu_data_ref option \<Rightarrow> u32 \<Rightarrow> eu_store \<Rightarrow> (GElf_Dyn option \<times> eu_store) option" where
  "eu_gelf_getdyn = eu_get_entry EU_T_DYN Elf32_Dyn_DEF dyn_of eu_dyn_widen Elf64_Dyn_DEF dyn_of"

definition eu_gelf_update_dyn :: "eu_data_ref option \<Rightarrow> u32 \<Rightarrow> GElf_Dyn \<Rightarrow> eu_store \<Rightarrow> (int \<times> eu_store) option" where
  "eu_gelf_update_dyn =
     eu_update_entry EU_T_DYN Elf32_Dyn_DEF dyn_members eu_dyn_fits eu_dyn_narrow Elf64_Dyn_DEF dyn_members"

section \<open>Entries with one layout\<close>

text \<open>
  Each of these functions first asserts that the structures of the two classes have the same
  size; \<open>def32\<close> and \<open>def64\<close> are their layouts, and the entry is one of the second.
\<close>

definition eu_get_flat ::
  "int \<Rightarrow> layout \<Rightarrow> layout \<Rightarrow> (u32 \<Rightarrow> struct_val \<Rightarrow> 'g) \<Rightarrow> eu_data_ref option \<Rightarrow> u32 \<Rightarrow> eu_store
    \<Rightarrow> ('g option \<times> eu_store) option"
where
  "eu_get_flat t def32 def64 of64 dr ndx es =
     (case dr of None \<Rightarrow> Some (None, es)
      | Some d \<Rightarrow>
          do { (x, sr) \<leftarrow> eu_data d es;
               if d_type x \<noteq> t then Some (None, eu_seterrno EU_E_INVALID_HANDLE es)
               else
                 do { let sz = struct_size ELFCLASS64 def64;
                      assert_that (sz = struct_size ELFCLASS32 def32);
                      (s, elf) \<leftarrow> data_elf sr es;
                      if INVALID_NDX ndx sz x then Some (None, eu_seterrno EU_E_INVALID_INDEX es)
                      else do { src \<leftarrow> eu_load ELFCLASS64 def64 of64 (entry_ptr x ndx sz) es;
                                Some (Some src, es) } } })"

definition eu_update_flat ::
  "int \<Rightarrow> layout \<Rightarrow> layout \<Rightarrow> (u32 \<Rightarrow> 'g \<Rightarrow> struct_val) \<Rightarrow> eu_data_ref option \<Rightarrow> u32 \<Rightarrow> 'g \<Rightarrow> eu_store
    \<Rightarrow> (int \<times> eu_store) option"
where
  "eu_update_flat t def32 def64 to64 dr ndx src es =
     (case dr of None \<Rightarrow> Some (0, es)
      | Some d \<Rightarrow>
          do { (x, sr) \<leftarrow> eu_data d es;
               if d_type x \<noteq> t then Some (0, eu_seterrno EU_E_DATA_MISMATCH es)
               else
                 do { let sz = struct_size ELFCLASS64 def64;
                      assert_that (sz = struct_size ELFCLASS32 def32);
                      (s, elf) \<leftarrow> data_elf sr es;
                      if INVALID_NDX ndx sz x then Some (0, eu_seterrno EU_E_INVALID_INDEX es)
                      else do { es \<leftarrow> eu_save ELFCLASS64 def64 to64 (entry_ptr x ndx sz) src es;
                                es \<leftarrow> mark_dirty s es;
                                Some (1, es) } } })"

text \<open>
  The functions that write moves and version indices look at the index before they look at the
  type.
\<close>

definition eu_update_flat_index_first ::
  "int \<Rightarrow> layout \<Rightarrow> layout \<Rightarrow> (u32 \<Rightarrow> 'g \<Rightarrow> struct_val) \<Rightarrow> eu_data_ref option \<Rightarrow> u32 \<Rightarrow> 'g \<Rightarrow> eu_store
    \<Rightarrow> (int \<times> eu_store) option"
where
  "eu_update_flat_index_first t def32 def64 to64 dr ndx src es =
     (case dr of None \<Rightarrow> Some (0, es)
      | Some d \<Rightarrow>
          do { (x, sr) \<leftarrow> eu_data d es;
               let sz = struct_size ELFCLASS64 def64;
               assert_that (sz = struct_size ELFCLASS32 def32);
               if INVALID_NDX ndx sz x then Some (0, eu_seterrno EU_E_INVALID_INDEX es)
               else if d_type x \<noteq> t then Some (0, eu_seterrno EU_E_DATA_MISMATCH es)
               else
                 do { (s, elf) \<leftarrow> data_elf sr es;
                      es \<leftarrow> eu_save ELFCLASS64 def64 to64 (entry_ptr x ndx sz) src es;
                      es \<leftarrow> mark_dirty s es;
                      Some (1, es) } })"

definition eu_gelf_getsyminfo :: "eu_data_ref option \<Rightarrow> u32 \<Rightarrow> eu_store \<Rightarrow> (Elf_Syminfo option \<times> eu_store) option" where
  "eu_gelf_getsyminfo = eu_get_flat EU_T_SYMINFO Elf32_Syminfo_DEF Elf64_Syminfo_DEF syminfo_of"

definition eu_gelf_update_syminfo ::
  "eu_data_ref option \<Rightarrow> u32 \<Rightarrow> Elf_Syminfo \<Rightarrow> eu_store \<Rightarrow> (int \<times> eu_store) option" where
  "eu_gelf_update_syminfo = eu_update_flat EU_T_SYMINFO Elf32_Syminfo_DEF Elf64_Syminfo_DEF syminfo_members"

definition eu_gelf_getlib :: "eu_data_ref option \<Rightarrow> u32 \<Rightarrow> eu_store \<Rightarrow> (Elf_Lib option \<times> eu_store) option" where
  "eu_gelf_getlib = eu_get_flat EU_T_LIB Elf_Lib_DEF Elf_Lib_DEF lib_of"

definition eu_gelf_update_lib :: "eu_data_ref option \<Rightarrow> u32 \<Rightarrow> Elf_Lib \<Rightarrow> eu_store \<Rightarrow> (int \<times> eu_store) option" where
  "eu_gelf_update_lib = eu_update_flat EU_T_LIB Elf_Lib_DEF Elf_Lib_DEF lib_members"

definition eu_gelf_getversym :: "eu_data_ref option \<Rightarrow> u32 \<Rightarrow> eu_store \<Rightarrow> (u16 option \<times> eu_store) option" where
  "eu_gelf_getversym = eu_get_flat EU_T_HALF Elf_Versym_DEF Elf_Versym_DEF versym_of"

definition eu_gelf_update_versym :: "eu_data_ref option \<Rightarrow> u32 \<Rightarrow> u16 \<Rightarrow> eu_store \<Rightarrow> (int \<times> eu_store) option" where
  "eu_gelf_update_versym = eu_update_flat_index_first EU_T_HALF Elf_Versym_DEF Elf_Versym_DEF versym_members"

definition eu_gelf_getmove :: "eu_data_ref option \<Rightarrow> u32 \<Rightarrow> eu_store \<Rightarrow> (GElf_Move option \<times> eu_store) option" where
  "eu_gelf_getmove = eu_get_flat EU_T_MOVE Elf32_Move_DEF Elf64_Move_DEF move_of"

definition eu_gelf_update_move :: "eu_data_ref option \<Rightarrow> u32 \<Rightarrow> GElf_Move \<Rightarrow> eu_store \<Rightarrow> (int \<times> eu_store) option" where
  "eu_gelf_update_move = eu_update_flat_index_first EU_T_MOVE Elf32_Move_DEF Elf64_Move_DEF move_members"

section \<open>Auxiliary vectors\<close>

text \<open>
  The test here is on the end of the entry: \<open>(ndx + 1) * sizeof\<close> with \<open>ndx + 1\<close> an \<open>int\<close>, so
  the index -1 passes it; the function that writes refuses negative indices first.
\<close>

definition eu_behind :: "u32 \<Rightarrow> nat \<Rightarrow> Elf_Data \<Rightarrow> bool" where
  "eu_behind ndx sz x \<longleftrightarrow> word_of_int (sint ndx + 1) * of_nat sz > d_size x"

definition eu_auxv_widen :: "32 Elf_auxv \<Rightarrow> 64 Elf_auxv" where
  "eu_auxv_widen x = \<lparr>a_type = ucast (a_type x), a_val = ucast (a_val x)\<rparr>"

definition eu_auxv_fits :: "64 Elf_auxv \<Rightarrow> bool" where
  "eu_auxv_fits g \<longleftrightarrow> \<not> (a_type g > 0xffffffff \<or> a_val g > 0xffffffff)"

definition eu_auxv_narrow :: "64 Elf_auxv \<Rightarrow> 32 Elf_auxv" where
  "eu_auxv_narrow g = \<lparr>a_type = ucast (a_type g), a_val = ucast (a_val g)\<rparr>"

definition eu_gelf_getauxv :: "eu_data_ref option \<Rightarrow> u32 \<Rightarrow> eu_store \<Rightarrow> (64 Elf_auxv option \<times> eu_store) option" where
  "eu_gelf_getauxv dr ndx es =
     (case dr of None \<Rightarrow> Some (None, es)
      | Some d \<Rightarrow>
          do { (x, sr) \<leftarrow> eu_data d es;
               if d_type x \<noteq> EU_T_AUXV then Some (None, eu_seterrno EU_E_INVALID_HANDLE es)
               else
                 do { (s, elf) \<leftarrow> data_elf sr es;
                      if ee_class elf = ELFCLASS32 then
                        (let sz = struct_size ELFCLASS32 Elf32_auxv_DEF
                         in if eu_behind ndx sz x then Some (None, eu_seterrno EU_E_INVALID_INDEX es)
                            else do { src \<leftarrow> eu_load ELFCLASS32 Elf32_auxv_DEF auxv_of (entry_ptr x ndx sz) es;
                                      Some (Some (eu_auxv_widen src), es) })
                      else
                        (let sz = struct_size ELFCLASS64 Elf64_auxv_DEF
                         in if eu_behind ndx sz x then Some (None, eu_seterrno EU_E_INVALID_INDEX es)
                            else do { src \<leftarrow> eu_load ELFCLASS64 Elf64_auxv_DEF auxv_of (entry_ptr x ndx sz) es;
                                      Some (Some src, es) }) } })"

definition eu_gelf_update_auxv :: "eu_data_ref option \<Rightarrow> u32 \<Rightarrow> 64 Elf_auxv \<Rightarrow> eu_store \<Rightarrow> (int \<times> eu_store) option" where
  "eu_gelf_update_auxv dr ndx src es =
     (case dr of None \<Rightarrow> Some (0, es)
      | Some d \<Rightarrow>
          if sint ndx < 0 then Some (0, eu_seterrno EU_E_INVALID_INDEX es)
          else
            do { (x, sr) \<leftarrow> eu_data d es;
                 if d_type x \<noteq> EU_T_AUXV then Some (0, eu_seterrno EU_E_DATA_MISMATCH es)
                 else
                   do { (s, elf) \<leftarrow> data_elf sr es;
                        if ee_class elf = ELFCLASS32 then
                          (let sz = struct_size ELFCLASS32 Elf32_auxv_DEF
                           in if \<not> eu_auxv_fits src then Some (0, eu_seterrno EU_E_INVALID_DATA es)
                              else if eu_behind ndx sz x then Some (0, eu_seterrno EU_E_INVALID_INDEX es)
                              else do { es \<leftarrow> eu_save ELFCLASS32 Elf32_auxv_DEF auxv_members (entry_ptr x ndx sz)
                                          (eu_auxv_narrow src) es;
                                        es \<leftarrow> mark_dirty s es;
                                        Some (1, es) })
                        else
                          (let sz = struct_size ELFCLASS64 Elf64_auxv_DEF
                           in if eu_behind ndx sz x then Some (0, eu_seterrno EU_E_INVALID_INDEX es)
                              else do { es \<leftarrow> eu_save ELFCLASS64 Elf64_auxv_DEF auxv_members (entry_ptr x ndx sz) src es;
                                        es \<leftarrow> mark_dirty s es;
                                        Some (1, es) }) } })"

section \<open>Symbols with extended section indices\<close>

text \<open>
  The second descriptor may be absent.  The results are the symbol and the section index that
  is stored in \<open>*dstshndx\<close>, both or none.
\<close>

definition eu_shndx_at :: "Elf_Data \<Rightarrow> u32 \<Rightarrow> eu_store \<Rightarrow> u32 option" where
  "eu_shndx_at x ndx es =
     map_option (native_val (host_order (eu_mach es))) (read_bytes (entry_ptr x ndx 4) 4 (eu_mach es))"

definition eu_gelf_getsymshndx ::
  "eu_data_ref option \<Rightarrow> eu_data_ref option \<Rightarrow> u32 \<Rightarrow> eu_store \<Rightarrow> ((GElf_Sym \<times> u32) option \<times> eu_store) option"
where
  "eu_gelf_getsymshndx symdata shndxdata ndx es =
     (case symdata of None \<Rightarrow> Some (None, es)
      | Some d \<Rightarrow>
          do { (x, sr) \<leftarrow> eu_data d es;
               sx \<leftarrow> (case shndxdata of None \<Rightarrow> Some None
                     | Some i \<Rightarrow> map_option (\<lambda>(y, _). Some y) (eu_data i es));
               if d_type x \<noteq> EU_T_SYM \<or> (case sx of None \<Rightarrow> False | Some y \<Rightarrow> d_type y \<noteq> EU_T_WORD)
               then Some (None, eu_seterrno EU_E_INVALID_HANDLE es)
               else
                 do { (s, elf) \<leftarrow> data_elf sr es;
                      if (case sx of None \<Rightarrow> False | Some y \<Rightarrow> INVALID_NDX ndx 4 y)
                      then Some (None, eu_seterrno EU_E_INVALID_INDEX es)
                      else
                        do { shndx \<leftarrow> (case sx of None \<Rightarrow> Some 0 | Some y \<Rightarrow> eu_shndx_at y ndx es);
                             (sym, es) \<leftarrow> eu_gelf_getsym symdata ndx es;
                             Some (map_option (\<lambda>y. (y, shndx)) sym, es) } } })"

definition eu_gelf_update_symshndx ::
  "eu_data_ref option \<Rightarrow> eu_data_ref option \<Rightarrow> u32 \<Rightarrow> GElf_Sym \<Rightarrow> u32 \<Rightarrow> eu_store \<Rightarrow> (int \<times> eu_store) option"
where
  "eu_gelf_update_symshndx symdata shndxdata ndx src srcshndx es =
     (case symdata of None \<Rightarrow> Some (0, es)
      | Some d \<Rightarrow>
          do { (x, sr) \<leftarrow> eu_data d es;
               if d_type x \<noteq> EU_T_SYM then Some (0, eu_seterrno EU_E_DATA_MISMATCH es)
               else
                 do { (s, elf) \<leftarrow> data_elf sr es;
                      sx \<leftarrow> (case shndxdata of None \<Rightarrow> Some None
                            | Some i \<Rightarrow> map_option (\<lambda>(y, _). Some y) (eu_data i es));
                      if (case sx of None \<Rightarrow> srcshndx \<noteq> 0 | Some y \<Rightarrow> eu_behind ndx 4 y)
                      then Some (0, eu_seterrno EU_E_INVALID_INDEX es)
                      else
                        do { (r, es) \<leftarrow> eu_gelf_update_sym symdata ndx src es;
                             if r = 0 then Some (0, es)
                             else case sx of None \<Rightarrow> Some (1, es)
                               | Some y \<Rightarrow>
                                   do { st \<leftarrow> write_bytes (entry_ptr y ndx 4)
                                          (native_bytes (host_order (eu_mach es)) 4 srcshndx) (eu_mach es);
                                        Some (1, es\<lparr>eu_mach := st\<rparr>) } } } })"

section \<open>Version definitions and needs\<close>

text \<open>
  These entries are found by offset.  Reading tests that the offset is a multiple of \<open>step\<close>:
  the alignment of the entry for definitions, its size for needs.  Writing does not.
\<close>

definition eu_get_offset ::
  "int \<Rightarrow> layout \<Rightarrow> nat \<Rightarrow> (u32 \<Rightarrow> struct_val \<Rightarrow> 'g) \<Rightarrow> eu_data_ref option \<Rightarrow> int \<Rightarrow> eu_store
    \<Rightarrow> ('g option \<times> eu_store) option"
where
  "eu_get_offset t def step of' dr offset es =
     (case dr of None \<Rightarrow> Some (None, es)
      | Some d \<Rightarrow>
          do { (x, sr) \<leftarrow> eu_data d es;
               if d_type x \<noteq> t then Some (None, eu_seterrno EU_E_INVALID_HANDLE es)
               else
                 do { (s, elf) \<leftarrow> data_elf sr es;
                      if offset < 0 \<or> word_of_int offset + of_nat (struct_size ELFCLASS64 def) > d_size x
                         \<or> nat offset mod step \<noteq> 0
                      then Some (None, eu_seterrno EU_E_OFFSET_RANGE es)
                      else do { y \<leftarrow> eu_load ELFCLASS64 def of' (ptr_off (d_buf x) (nat offset)) es;
                                Some (Some y, es) } } })"

definition eu_update_offset ::
  "int \<Rightarrow> layout \<Rightarrow> (u32 \<Rightarrow> 'g \<Rightarrow> struct_val) \<Rightarrow> eu_data_ref option \<Rightarrow> int \<Rightarrow> 'g \<Rightarrow> eu_store
    \<Rightarrow> (int \<times> eu_store) option"
where
  "eu_update_offset t def to dr offset src es =
     (case dr of None \<Rightarrow> Some (0, es)
      | Some d \<Rightarrow>
          do { (x, sr) \<leftarrow> eu_data d es;
               if offset < 0 \<or> word_of_int offset + of_nat (struct_size ELFCLASS64 def) > d_size x
               then Some (0, eu_seterrno EU_E_INVALID_INDEX es)
               else if d_type x \<noteq> t then Some (0, eu_seterrno EU_E_DATA_MISMATCH es)
               else
                 do { (s, elf) \<leftarrow> data_elf sr es;
                      es \<leftarrow> eu_save ELFCLASS64 def to (ptr_off (d_buf x) (nat offset)) src es;
                      es \<leftarrow> mark_dirty s es;
                      Some (1, es) } })"

definition eu_gelf_getverdef :: "eu_data_ref option \<Rightarrow> int \<Rightarrow> eu_store \<Rightarrow> (Elf_Verdef option \<times> eu_store) option" where
  "eu_gelf_getverdef = eu_get_offset EU_T_VDEF Elf_Verdef_DEF (struct_align ELFCLASS64 Elf_Verdef_DEF) verdef_of"

definition eu_gelf_update_verdef :: "eu_data_ref option \<Rightarrow> int \<Rightarrow> Elf_Verdef \<Rightarrow> eu_store \<Rightarrow> (int \<times> eu_store) option" where
  "eu_gelf_update_verdef = eu_update_offset EU_T_VDEF Elf_Verdef_DEF verdef_members"

definition eu_gelf_getverdaux :: "eu_data_ref option \<Rightarrow> int \<Rightarrow> eu_store \<Rightarrow> (Elf_Verdaux option \<times> eu_store) option" where
  "eu_gelf_getverdaux = eu_get_offset EU_T_VDEF Elf_Verdaux_DEF (struct_align ELFCLASS64 Elf_Verdaux_DEF) verdaux_of"

definition eu_gelf_update_verdaux :: "eu_data_ref option \<Rightarrow> int \<Rightarrow> Elf_Verdaux \<Rightarrow> eu_store \<Rightarrow> (int \<times> eu_store) option" where
  "eu_gelf_update_verdaux = eu_update_offset EU_T_VDEF Elf_Verdaux_DEF verdaux_members"

definition eu_gelf_getverneed :: "eu_data_ref option \<Rightarrow> int \<Rightarrow> eu_store \<Rightarrow> (Elf_Verneed option \<times> eu_store) option" where
  "eu_gelf_getverneed = eu_get_offset EU_T_VNEED Elf_Verneed_DEF (struct_size ELFCLASS64 Elf_Verneed_DEF) verneed_of"

definition eu_gelf_update_verneed :: "eu_data_ref option \<Rightarrow> int \<Rightarrow> Elf_Verneed \<Rightarrow> eu_store \<Rightarrow> (int \<times> eu_store) option" where
  "eu_gelf_update_verneed = eu_update_offset EU_T_VNEED Elf_Verneed_DEF verneed_members"

definition eu_gelf_getvernaux :: "eu_data_ref option \<Rightarrow> int \<Rightarrow> eu_store \<Rightarrow> (Elf_Vernaux option \<times> eu_store) option" where
  "eu_gelf_getvernaux = eu_get_offset EU_T_VNEED Elf_Vernaux_DEF (struct_size ELFCLASS64 Elf_Vernaux_DEF) vernaux_of"

definition eu_gelf_update_vernaux :: "eu_data_ref option \<Rightarrow> int \<Rightarrow> Elf_Vernaux \<Rightarrow> eu_store \<Rightarrow> (int \<times> eu_store) option" where
  "eu_gelf_update_vernaux = eu_update_offset EU_T_VNEED Elf_Vernaux_DEF vernaux_members"

section \<open>What is written is read back\<close>

text \<open>
  The data \<open>d\<close> is in memory: \<open>n\<close> bytes from offset \<open>o'\<close> of it are at \<open>off\<close> in the block \<open>b\<close>, and
  belong to a section of a descriptor of the class \<open>ec\<close>.
\<close>

definition eu_data_ready :: "int \<Rightarrow> eu_data_ref \<Rightarrow> int \<Rightarrow> nat \<Rightarrow> nat \<Rightarrow> nat \<Rightarrow> byte list \<Rightarrow> eu_store \<Rightarrow> bool" where
  "eu_data_ready t d ec b off n bs es \<longleftrightarrow>
     (\<exists>x s scn e elf. eu_data d es = Some (x, Some s) \<and> eu_scn s es = Some scn \<and> sc_elf scn = Some e
        \<and> eu_elfs es e = Some elf \<and> ee_class elf = ec \<and> d_type x = t \<and> d_buf x = Some (b, off)
        \<and> n = unat (d_size x))
     \<and> std_class ec \<and> mem (eu_mach es) b = Some bs \<and> off + n \<le> length bs"

lemma eu_mach_frame [simp]:
  "eu_scn s (es\<lparr>eu_mach := st\<rparr>) = eu_scn s es" "eu_data d (es\<lparr>eu_mach := st\<rparr>) = eu_data d es"
  by (auto simp: eu_scn_def eu_data_def split: prod.split eu_data_ref.split)

lemma eu_put_scn_mach [simp]: "eu_mach (eu_put_scn s x es) = eu_mach es"
  by (cases s) (auto simp: eu_put_scn_def split: option.splits)

lemma eu_put_scn_class:
  "eu_elfs es e = Some elf \<Longrightarrow> \<exists>elf'. eu_elfs (eu_put_scn s x es) e = Some elf' \<and> ee_class elf' = ee_class elf"
  by (cases s) (auto simp: eu_put_scn_def split: option.splits)

text \<open>Marking a section leaves the data and the way to the descriptor alone.\<close>

lemma mark_dirty_keeps:
  assumes "eu_scn s es = Some scn" "mark_dirty s es = Some es'"
  shows "eu_mach es' = eu_mach es" "eu_data d es' = eu_data d es"
    "eu_scn s' es = Some scn' \<Longrightarrow> \<exists>scn''. eu_scn s' es' = Some scn'' \<and> sc_elf scn'' = sc_elf scn'"
    "eu_elfs es e = Some elf \<Longrightarrow> \<exists>elf'. eu_elfs es' e = Some elf' \<and> ee_class elf' = ee_class elf"
proof -
  let ?x = "scn\<lparr>sc_flags := sc_flags scn OR EU_F_DIRTY\<rparr>"
  have es': "es' = eu_put_scn s ?x es" using assms by (simp add: mark_dirty_def)
  show "eu_mach es' = eu_mach es" by (simp add: es')
  show "eu_data d es' = eu_data d es"
    using assms(1) by (auto simp: es' eu_data_def eu_scn_put_scn split: eu_data_ref.split)
  show "\<exists>scn''. eu_scn s' es' = Some scn'' \<and> sc_elf scn'' = sc_elf scn'" if "eu_scn s' es = Some scn'"
    using that assms(1) by (auto simp: es' eu_scn_put_scn)
  show "\<exists>elf'. eu_elfs es' e = Some elf' \<and> ee_class elf' = ee_class elf" if "eu_elfs es e = Some elf"
    using eu_put_scn_class [OF that] by (simp add: es')
qed

lemma eu_data_ready_write:
  assumes "eu_data_ready t d ec b off n bs es" "length bs' = length bs"
    and "mark_dirty s (es\<lparr>eu_mach := (eu_mach es)\<lparr>mem := (mem (eu_mach es))(b \<mapsto> bs')\<rparr>\<rparr>) = Some es'"
  shows "eu_data_ready t d ec b off n bs' es'" "eu_mach es' = (eu_mach es)\<lparr>mem := (mem (eu_mach es))(b \<mapsto> bs')\<rparr>"
proof -
  let ?es = "es\<lparr>eu_mach := (eu_mach es)\<lparr>mem := (mem (eu_mach es))(b \<mapsto> bs')\<rparr>\<rparr>"
  obtain scn where scn: "eu_scn s ?es = Some scn" using assms(3) by (auto simp: mark_dirty_def)
  note keeps = mark_dirty_keeps [OF scn assms(3)]
  obtain x s' scn' e elf where r: "eu_data d es = Some (x, Some s')" "eu_scn s' es = Some scn'" "sc_elf scn' = Some e"
    "eu_elfs es e = Some elf" "ee_class elf = ec" "d_type x = t" "d_buf x = Some (b, off)" "n = unat (d_size x)"
    "std_class ec" "mem (eu_mach es) b = Some bs" "off + n \<le> length bs"
    using assms(1) by (auto simp: eu_data_ready_def)
  obtain scn'' where "eu_scn s' es' = Some scn''" "sc_elf scn'' = Some e" using keeps(3) [of s' scn'] r by auto
  moreover obtain elf' where "eu_elfs es' e = Some elf'" "ee_class elf' = ec" using keeps(4) [of e elf] r by auto
  ultimately show "eu_data_ready t d ec b off n bs' es'"
    using r keeps(1,2) assms(2) by (auto simp: eu_data_ready_def)
  show "eu_mach es' = (eu_mach es)\<lparr>mem := (mem (eu_mach es))(b \<mapsto> bs')\<rparr>" using keeps(1) by simp
qed

lemma eu_data_readyE:
  assumes "eu_data_ready t d ec b off n bs es"
  obtains x s elf where "eu_data d es = Some (x, Some s)" "data_elf (Some s) es = Some (s, elf)" "ee_class elf = ec"
    "d_type x = t" "d_buf x = Some (b, off)" "n = unat (d_size x)" "std_class ec" "mem (eu_mach es) b = Some bs"
    "off + n \<le> length bs" "\<And>st. mark_dirty s (es\<lparr>eu_mach := st\<rparr>) \<noteq> None"
  using assms by (auto simp: eu_data_ready_def data_elf_def mark_dirty_def)

text \<open>The address of a valid index.\<close>

lemma valid_index:
  assumes "(nat (sint ndx) + 1) * sz \<le> unat (d_size x)" "0 \<le> sint ndx" "0 < sz" "sz < 2 ^ 32" "d_buf x = Some (b, off)"
  shows "\<not> INVALID_NDX ndx sz x" "entry_ptr x ndx sz = Some (b, off + nat (sint ndx) * sz)"
proof -
  have "sint ndx < 2 ^ 32" using sint_less [of ndx] by simp
  then have "uint ndx = sint ndx" using assms(2) by (simp add: uint_sint take_bit_int_eq_self)
  then have n: "nat (sint ndx) = unat ndx" by (metis nat_uint_eq)
  show "entry_ptr x ndx sz = Some (b, off + nat (sint ndx) * sz)"
    using assms(2,5) by (simp add: entry_ptr_def)
  have "(unat ndx + 1) * sz div sz \<le> unat (d_size x) div sz"
    using assms(1) unfolding n by (rule div_le_mono)
  then have "unat ndx + 1 \<le> unat (d_size x) div sz" using assms(3) by simp
  moreover have "unat (of_nat sz :: u64) = sz" using assms(4) by (intro unat_of_nat_u64) simp
  ultimately show "\<not> INVALID_NDX ndx sz x"
    by (simp add: INVALID_NDX_def word_le_nat_alt unat_div unat_ucast_u32_u64)
qed

text \<open>
  The contract of a kind of entry: a getter, an updater, and for every valid index the place
  and the size of the entry in the data.  \<open>ok\<close> says that an entry of the class can hold a value.
\<close>

locale eu_entry_access =
  fixes t :: int and size_of :: "int \<Rightarrow> nat" and pos :: "int \<Rightarrow> 'i \<Rightarrow> nat" and valid :: "int \<Rightarrow> nat \<Rightarrow> 'i \<Rightarrow> bool"
    and ok :: "int \<Rightarrow> 'g \<Rightarrow> bool" and decode :: "int \<Rightarrow> u32 \<Rightarrow> byte list \<Rightarrow> 'g"
    and getter :: "eu_data_ref option \<Rightarrow> 'i \<Rightarrow> eu_store \<Rightarrow> ('g option \<times> eu_store) option"
    and updater :: "eu_data_ref option \<Rightarrow> 'i \<Rightarrow> 'g \<Rightarrow> eu_store \<Rightarrow> (int \<times> eu_store) option"
  assumes get: "eu_data_ready t d ec b off n bs es \<Longrightarrow> valid ec n i
      \<Longrightarrow> getter (Some d) i es
        = Some (Some (decode ec (host_order (eu_mach es)) (segment (off + pos ec i) (size_of ec) bs)), es)"
    and update: "eu_data_ready t d ec b off n bs es \<Longrightarrow> valid ec n i \<Longrightarrow> ok ec g
      \<Longrightarrow> \<exists>bs' es'. updater (Some d) i g es = Some (1, es') \<and> eu_data_ready t d ec b off n bs' es'
        \<and> eu_mach es' = (eu_mach es)\<lparr>mem := (mem (eu_mach es))(b \<mapsto> bs')\<rparr> \<and> length bs' = length bs
        \<and> take (off + pos ec i) bs' = take (off + pos ec i) bs
        \<and> drop (off + pos ec i + size_of ec) bs' = drop (off + pos ec i + size_of ec) bs
        \<and> decode ec (host_order (eu_mach es)) (segment (off + pos ec i) (size_of ec) bs') = g"
begin

text \<open>What was written is read, and an entry at another place reads as before.\<close>

lemma update_then_get:
  assumes "eu_data_ready t d ec b off n bs es" "valid ec n i" "ok ec g"
  shows "\<exists>es'. updater (Some d) i g es = Some (1, es') \<and> getter (Some d) i es' = Some (Some g, es')
    \<and> (\<forall>j. valid ec n j \<longrightarrow> pos ec j + size_of ec \<le> pos ec i \<or> pos ec i + size_of ec \<le> pos ec j
         \<longrightarrow> map_option fst (getter (Some d) j es') = map_option fst (getter (Some d) j es))"
proof -
  obtain bs' es' where u: "updater (Some d) i g es = Some (1, es')" "eu_data_ready t d ec b off n bs' es'"
    "eu_mach es' = (eu_mach es)\<lparr>mem := (mem (eu_mach es))(b \<mapsto> bs')\<rparr>" "length bs' = length bs"
    "take (off + pos ec i) bs' = take (off + pos ec i) bs"
    "drop (off + pos ec i + size_of ec) bs' = drop (off + pos ec i + size_of ec) bs"
    "decode ec (host_order (eu_mach es)) (segment (off + pos ec i) (size_of ec) bs') = g"
    using update [OF assms] by blast
  have o': "host_order (eu_mach es') = host_order (eu_mach es)" by (simp add: u(3))
  have "getter (Some d) i es' = Some (Some g, es')" using get [OF u(2) assms(2)] u(7) o' by simp
  moreover have "map_option fst (getter (Some d) j es') = map_option fst (getter (Some d) j es)"
    if j: "valid ec n j" "pos ec j + size_of ec \<le> pos ec i \<or> pos ec i + size_of ec \<le> pos ec j" for j
  proof -
    have "segment (off + pos ec j) (size_of ec) bs' = segment (off + pos ec j) (size_of ec) bs"
      using j(2) by (intro segment_take_drop_eq [OF u(4,5,6)]) auto
    then show ?thesis using get [OF u(2) j(1)] get [OF assms(1) j(1)] o' by simp
  qed
  ultimately show ?thesis using u(1) by blast
qed

end

text \<open>Entries with a layout for each class, found by index.\<close>

locale eu_indexed_entry =
  c32: struct_codec ELFCLASS32 def32 of32 to32 "\<lambda>x. True" +
  c64: struct_codec ELFCLASS64 def64 of64 to64 "\<lambda>x. True"
  for def32 and of32 :: "u32 \<Rightarrow> struct_val \<Rightarrow> 'n" and to32
    and def64 and of64 :: "u32 \<Rightarrow> struct_val \<Rightarrow> 'g" and to64 +
  fixes t :: int and widen :: "'n \<Rightarrow> 'g" and fits :: "'g \<Rightarrow> bool" and narrow :: "'g \<Rightarrow> 'n"
    and getter :: "eu_data_ref option \<Rightarrow> u32 \<Rightarrow> eu_store \<Rightarrow> ('g option \<times> eu_store) option"
    and updater :: "eu_data_ref option \<Rightarrow> u32 \<Rightarrow> 'g \<Rightarrow> eu_store \<Rightarrow> (int \<times> eu_store) option"
  assumes getter: "getter = eu_get_entry t def32 of32 widen def64 of64"
    and updater: "updater = eu_update_entry t def32 to32 fits narrow def64 to64"
    and widen_narrow: "fits g \<Longrightarrow> widen (narrow g) = g"
    and sizes: "0 < struct_size ELFCLASS32 def32" "struct_size ELFCLASS32 def32 < 2 ^ 32"
      "0 < struct_size ELFCLASS64 def64" "struct_size ELFCLASS64 def64 < 2 ^ 32"
begin

definition entry_size :: "int \<Rightarrow> nat" where
  "entry_size ec = (if ec = ELFCLASS32 then struct_size ELFCLASS32 def32 else struct_size ELFCLASS64 def64)"

definition decode_entry :: "int \<Rightarrow> u32 \<Rightarrow> byte list \<Rightarrow> 'g" where
  "decode_entry ec o' xs =
     (if ec = ELFCLASS32 then widen (of32 o' (mem_struct ec def32 xs)) else of64 o' (mem_struct ec def64 xs))"

definition valid_entry :: "int \<Rightarrow> nat \<Rightarrow> u32 \<Rightarrow> bool" where
  "valid_entry ec n i \<longleftrightarrow> 0 \<le> sint i \<and> (nat (sint i) + 1) * entry_size ec \<le> n"

lemma get_valid:
  assumes "eu_data_ready t d ec b off n bs es" "valid_entry ec n i"
  shows "getter (Some d) i es = Some (Some (decode_entry ec (host_order (eu_mach es))
      (segment (off + nat (sint i) * entry_size ec) (entry_size ec) bs)), es)"
proof -
  obtain x s elf where r: "eu_data d es = Some (x, Some s)" "data_elf (Some s) es = Some (s, elf)" "ee_class elf = ec"
    "d_type x = t" "d_buf x = Some (b, off)" "n = unat (d_size x)" "std_class ec" "mem (eu_mach es) b = Some bs"
    "off + n \<le> length bs" by (rule eu_data_readyE [OF assms(1)])
  have v: "0 \<le> sint i" "(nat (sint i) + 1) * entry_size ec \<le> unat (d_size x)"
    using assms(2) r(6) by (simp_all add: valid_entry_def)
  note idx = valid_index [OF v(2,1) _ _ r(5)]
  have len: "off + nat (sint i) * entry_size ec + entry_size ec \<le> length bs" using v(2) r(6,9) by simp
  from r(7) show ?thesis unfolding std_class_def
  proof
    assume ec: "ec = ELFCLASS32"
    show ?thesis
      using idx sizes r c32.load_total(1) [OF r(8), of "off + nat (sint i) * entry_size ec"] len
      by (simp add: getter eu_get_entry_def ec entry_size_def eu_load_def decode_entry_def Let_def)
  next
    assume ec: "ec = ELFCLASS64"
    show ?thesis
      using idx sizes r c64.load_total(1) [OF r(8), of "off + nat (sint i) * entry_size ec"] len
      by (simp add: getter eu_get_entry_def ec entry_size_def eu_load_def decode_entry_def Let_def)
  qed
qed

lemma update_valid:
  assumes "eu_data_ready t d ec b off n bs es" "valid_entry ec n i" "ec = ELFCLASS32 \<longrightarrow> fits g"
  shows "\<exists>bs' es'. updater (Some d) i g es = Some (1, es') \<and> eu_data_ready t d ec b off n bs' es'
    \<and> eu_mach es' = (eu_mach es)\<lparr>mem := (mem (eu_mach es))(b \<mapsto> bs')\<rparr> \<and> length bs' = length bs
    \<and> take (off + nat (sint i) * entry_size ec) bs' = take (off + nat (sint i) * entry_size ec) bs
    \<and> drop (off + nat (sint i) * entry_size ec + entry_size ec) bs' = drop (off + nat (sint i) * entry_size ec + entry_size ec) bs
    \<and> decode_entry ec (host_order (eu_mach es)) (segment (off + nat (sint i) * entry_size ec) (entry_size ec) bs') = g"
proof -
  obtain x s elf where r: "eu_data d es = Some (x, Some s)" "data_elf (Some s) es = Some (s, elf)" "ee_class elf = ec"
    "d_type x = t" "d_buf x = Some (b, off)" "n = unat (d_size x)" "std_class ec" "mem (eu_mach es) b = Some bs"
    "off + n \<le> length bs" and dirty: "\<And>st. mark_dirty s (es\<lparr>eu_mach := st\<rparr>) \<noteq> None"
    by (rule eu_data_readyE [OF assms(1)]) blast
  have v: "0 \<le> sint i" "(nat (sint i) + 1) * entry_size ec \<le> unat (d_size x)"
    using assms(2) r(6) by (simp_all add: valid_entry_def)
  note idx = valid_index [OF v(2,1) _ _ r(5)]
  let ?p = "off + nat (sint i) * entry_size ec" and ?o = "host_order (eu_mach es)"
  have len: "?p + entry_size ec \<le> length bs" using v(2) r(6,9) by simp
  obtain bs' where st: "eu_update_entry t def32 to32 fits narrow def64 to64 (Some d) i g es
      = Option.bind (mark_dirty s (es\<lparr>eu_mach := (eu_mach es)\<lparr>mem := (mem (eu_mach es))(b \<mapsto> bs')\<rparr>\<rparr>)) (\<lambda>es. Some (1, es))"
    and bs': "length bs' = length bs" "take ?p bs' = take ?p bs" "drop (?p + entry_size ec) bs' = drop (?p + entry_size ec) bs"
      "decode_entry ec ?o (segment ?p (entry_size ec) bs') = g"
  proof -
    from r(7) consider "ec = ELFCLASS32" | "ec = ELFCLASS64" by (auto simp: std_class_def)
    then show thesis
    proof cases
      case 1
      with c32.store_then_load [OF r(8), where off = ?p and x = "narrow g" and order = ?o] len obtain bs' where
        "store_struct ELFCLASS32 def32 (Some (b, ?p)) (to32 ?o (narrow g)) (eu_mach es)
          = Some ((eu_mach es)\<lparr>mem := (mem (eu_mach es))(b \<mapsto> bs')\<rparr>)"
        "length bs' = length bs" "take ?p bs' = take ?p bs" "drop (?p + entry_size ec) bs' = drop (?p + entry_size ec) bs"
        "mem_struct ELFCLASS32 def32 (segment ?p (entry_size ec) bs') = to32 ?o (narrow g)"
        by (auto simp: entry_size_def)
      then show thesis
        using 1 idx sizes r assms(3) c32.of_to [where x = "narrow g" and order = ?o] widen_narrow [of g]
        by (intro that [of bs'])
          (auto simp: eu_update_entry_def eu_save_def entry_size_def decode_entry_def Let_def)
    next
      case 2
      with c64.store_then_load [OF r(8), where off = ?p and x = g and order = ?o] len obtain bs' where
        "store_struct ELFCLASS64 def64 (Some (b, ?p)) (to64 ?o g) (eu_mach es)
          = Some ((eu_mach es)\<lparr>mem := (mem (eu_mach es))(b \<mapsto> bs')\<rparr>)"
        "length bs' = length bs" "take ?p bs' = take ?p bs" "drop (?p + entry_size ec) bs' = drop (?p + entry_size ec) bs"
        "mem_struct ELFCLASS64 def64 (segment ?p (entry_size ec) bs') = to64 ?o g"
        by (auto simp: entry_size_def)
      then show thesis
        using 2 idx sizes r c64.of_to [where x = g and order = ?o]
        by (intro that [of bs'])
          (auto simp: eu_update_entry_def eu_save_def entry_size_def decode_entry_def Let_def)
    qed
  qed
  obtain es' where es': "mark_dirty s (es\<lparr>eu_mach := (eu_mach es)\<lparr>mem := (mem (eu_mach es))(b \<mapsto> bs')\<rparr>\<rparr>) = Some es'"
    using dirty by blast
  show ?thesis
    using eu_data_ready_write [OF assms(1) bs'(1) es'] bs' st es' by (auto simp: updater)
qed

end

sublocale eu_indexed_entry \<subseteq> access: eu_entry_access t entry_size "\<lambda>ec i. nat (sint i) * entry_size ec" valid_entry
    "\<lambda>ec g. ec = ELFCLASS32 \<longrightarrow> fits g" decode_entry getter updater
  by unfold_locales (erule (1) get_valid, erule (2) update_valid)

text \<open>Entries with one layout: what is common to those found by index and those found by offset.\<close>

locale eu_flat_entry =
  c64: struct_codec ELFCLASS64 def64 of64 to64 "\<lambda>x. True"
  for def64 and of64 :: "u32 \<Rightarrow> struct_val \<Rightarrow> 'g" and to64 +
  fixes t :: int and place :: "'i \<Rightarrow> nat" and good :: "nat \<Rightarrow> 'i \<Rightarrow> bool"
    and getter :: "eu_data_ref option \<Rightarrow> 'i \<Rightarrow> eu_store \<Rightarrow> ('g option \<times> eu_store) option"
    and updater :: "eu_data_ref option \<Rightarrow> 'i \<Rightarrow> 'g \<Rightarrow> eu_store \<Rightarrow> (int \<times> eu_store) option"
  assumes inside: "good n i \<Longrightarrow> place i + struct_size ELFCLASS64 def64 \<le> n"
    and get_is_load: "eu_data d es = Some (x, sr) \<Longrightarrow> data_elf sr es = Some (s, elf) \<Longrightarrow> d_type x = t
      \<Longrightarrow> d_buf x = Some (b, off) \<Longrightarrow> good (unat (d_size x)) i
      \<Longrightarrow> getter (Some d) i es
        = Option.bind (eu_load ELFCLASS64 def64 of64 (Some (b, off + place i)) es) (\<lambda>y. Some (Some y, es))"
    and update_is_save: "eu_data d es = Some (x, sr) \<Longrightarrow> data_elf sr es = Some (s, elf) \<Longrightarrow> d_type x = t
      \<Longrightarrow> d_buf x = Some (b, off) \<Longrightarrow> good (unat (d_size x)) i
      \<Longrightarrow> updater (Some d) i g es
        = Option.bind (eu_save ELFCLASS64 def64 to64 (Some (b, off + place i)) g es)
            (\<lambda>es. Option.bind (mark_dirty s es) (\<lambda>es. Some (1, es)))"
begin

lemma get_good:
  assumes "eu_data_ready t d ec b off n bs es" "good n i"
  shows "getter (Some d) i es = Some (Some (of64 (host_order (eu_mach es))
      (mem_struct ELFCLASS64 def64 (segment (off + place i) (struct_size ELFCLASS64 def64) bs))), es)"
proof -
  obtain x s elf where r: "eu_data d es = Some (x, Some s)" "data_elf (Some s) es = Some (s, elf)"
    "d_type x = t" "d_buf x = Some (b, off)" "n = unat (d_size x)" "mem (eu_mach es) b = Some bs"
    "off + n \<le> length bs" by (rule eu_data_readyE [OF assms(1)])
  have "off + place i + struct_size ELFCLASS64 def64 \<le> length bs" using inside [OF assms(2)] r(7) by simp
  then show ?thesis
    using get_is_load [OF r(1-4)] assms(2) r(5) c64.load_total(1) [OF r(6)] by (simp add: eu_load_def)
qed

lemma update_good:
  assumes "eu_data_ready t d ec b off n bs es" "good n i"
  shows "\<exists>bs' es'. updater (Some d) i g es = Some (1, es') \<and> eu_data_ready t d ec b off n bs' es'
    \<and> eu_mach es' = (eu_mach es)\<lparr>mem := (mem (eu_mach es))(b \<mapsto> bs')\<rparr> \<and> length bs' = length bs
    \<and> take (off + place i) bs' = take (off + place i) bs
    \<and> drop (off + place i + struct_size ELFCLASS64 def64) bs' = drop (off + place i + struct_size ELFCLASS64 def64) bs
    \<and> of64 (host_order (eu_mach es)) (mem_struct ELFCLASS64 def64
        (segment (off + place i) (struct_size ELFCLASS64 def64) bs')) = g"
proof -
  obtain x s elf where r: "eu_data d es = Some (x, Some s)" "data_elf (Some s) es = Some (s, elf)"
    "d_type x = t" "d_buf x = Some (b, off)" "n = unat (d_size x)" "mem (eu_mach es) b = Some bs"
    "off + n \<le> length bs" and dirty: "\<And>st. mark_dirty s (es\<lparr>eu_mach := st\<rparr>) \<noteq> None"
    by (rule eu_data_readyE [OF assms(1)]) blast
  let ?p = "off + place i" and ?o = "host_order (eu_mach es)"
  have len: "?p + struct_size ELFCLASS64 def64 \<le> length bs" using inside [OF assms(2)] r(7) by simp
  obtain bs' where bs': "store_struct ELFCLASS64 def64 (Some (b, ?p)) (to64 ?o g) (eu_mach es)
      = Some ((eu_mach es)\<lparr>mem := (mem (eu_mach es))(b \<mapsto> bs')\<rparr>)" "length bs' = length bs"
    "take ?p bs' = take ?p bs"
    "drop (?p + struct_size ELFCLASS64 def64) bs' = drop (?p + struct_size ELFCLASS64 def64) bs"
    "mem_struct ELFCLASS64 def64 (segment ?p (struct_size ELFCLASS64 def64) bs') = to64 ?o g"
    using c64.store_then_load [OF r(6) len, where x = g and order = ?o] by auto
  obtain es' where es': "mark_dirty s (es\<lparr>eu_mach := (eu_mach es)\<lparr>mem := (mem (eu_mach es))(b \<mapsto> bs')\<rparr>\<rparr>) = Some es'"
    using dirty by blast
  have "updater (Some d) i g es = Some (1, es')"
    using update_is_save [OF r(1-4)] assms(2) r(5) bs'(1) es' by (simp add: eu_save_def)
  then show ?thesis
    using eu_data_ready_write [OF assms(1) bs'(2) es'] bs'(2-5) c64.of_to [where x = g and order = ?o] by auto
qed

end

sublocale eu_flat_entry \<subseteq> access: eu_entry_access t "\<lambda>ec. struct_size ELFCLASS64 def64" "\<lambda>ec. place" "\<lambda>ec. good"
    "\<lambda>ec g. True" "\<lambda>ec o' xs. of64 o' (mem_struct ELFCLASS64 def64 xs)" getter updater
  by unfold_locales (erule (1) get_good, erule (1) update_good)

text \<open>Index and offset of an entry with one layout.\<close>

definition index_good :: "nat \<Rightarrow> nat \<Rightarrow> u32 \<Rightarrow> bool" where
  "index_good sz n i \<longleftrightarrow> 0 \<le> sint i \<and> (nat (sint i) + 1) * sz \<le> n"

definition offset_good :: "nat \<Rightarrow> nat \<Rightarrow> nat \<Rightarrow> int \<Rightarrow> bool" where
  "offset_good step sz n i \<longleftrightarrow> 0 \<le> i \<and> nat i mod step = 0 \<and> i < 2 ^ 31 \<and> nat i + sz \<le> n"

lemma offset_in_range:
  assumes "offset_good step sz (unat m) i" "sz < 2 ^ 32"
  shows "\<not> word_of_int i + of_nat sz > (m :: u64)"
proof -
  obtain k where k: "i = int k" "k < 2 ^ 31" using assms(1) by (auto simp: offset_good_def elim: nonneg_int_cases)
  then have "word_of_int i + of_nat sz = (of_nat (k + sz) :: u64)" by simp
  moreover have "unat (of_nat (k + sz) :: u64) = k + sz" using k(2) assms(2) by (intro unat_of_nat_u64) simp
  ultimately show ?thesis using assms(1) k(1) by (simp add: offset_good_def word_less_nat_alt not_less)
qed

lemma eu_get_offset_load:
  assumes "eu_data d es = Some (x, sr)" "data_elf sr es = Some (s, elf)" "d_type x = t" "d_buf x = Some (b, off)"
    and "offset_good step (struct_size ELFCLASS64 def) (unat (d_size x)) i" "struct_size ELFCLASS64 def < 2 ^ 32"
  shows "eu_get_offset t def step of' (Some d) i es
    = Option.bind (eu_load ELFCLASS64 def of' (Some (b, off + nat i)) es) (\<lambda>y. Some (Some y, es))"
  using assms offset_in_range [OF assms(5,6)] by (simp add: eu_get_offset_def offset_good_def)

lemma eu_update_offset_save:
  assumes "eu_data d es = Some (x, sr)" "data_elf sr es = Some (s, elf)" "d_type x = t" "d_buf x = Some (b, off)"
    and "offset_good step (struct_size ELFCLASS64 def) (unat (d_size x)) i" "struct_size ELFCLASS64 def < 2 ^ 32"
  shows "eu_update_offset t def to (Some d) i g es
    = Option.bind (eu_save ELFCLASS64 def to (Some (b, off + nat i)) g es)
        (\<lambda>es. Option.bind (mark_dirty s es) (\<lambda>es. Some (1, es)))"
  using assms offset_in_range [OF assms(5,6)] by (simp add: eu_update_offset_def offset_good_def)

lemma eu_get_flat_load:
  assumes "eu_data d es = Some (x, sr)" "data_elf sr es = Some (s, elf)" "d_type x = t" "d_buf x = Some (b, off)"
    and "index_good (struct_size ELFCLASS64 def64) (unat (d_size x)) i"
    and "struct_size ELFCLASS64 def64 = struct_size ELFCLASS32 def32" "0 < struct_size ELFCLASS64 def64"
      "struct_size ELFCLASS64 def64 < 2 ^ 32"
  shows "eu_get_flat t def32 def64 of64 (Some d) i es
    = Option.bind (eu_load ELFCLASS64 def64 of64 (Some (b, off + nat (sint i) * struct_size ELFCLASS64 def64)) es)
        (\<lambda>y. Some (Some y, es))"
  using assms valid_index [of i "struct_size ELFCLASS64 def64" x b off]
  by (simp add: eu_get_flat_def index_good_def)

lemma eu_update_flat_save:
  assumes "eu_data d es = Some (x, sr)" "data_elf sr es = Some (s, elf)" "d_type x = t" "d_buf x = Some (b, off)"
    and "index_good (struct_size ELFCLASS64 def64) (unat (d_size x)) i"
    and "struct_size ELFCLASS64 def64 = struct_size ELFCLASS32 def32" "0 < struct_size ELFCLASS64 def64"
      "struct_size ELFCLASS64 def64 < 2 ^ 32"
  shows "eu_update_flat t def32 def64 to64 (Some d) i g es
    = Option.bind (eu_save ELFCLASS64 def64 to64 (Some (b, off + nat (sint i) * struct_size ELFCLASS64 def64)) g es)
        (\<lambda>es. Option.bind (mark_dirty s es) (\<lambda>es. Some (1, es)))"
    and "eu_update_flat_index_first t def32 def64 to64 (Some d) i g es
    = Option.bind (eu_save ELFCLASS64 def64 to64 (Some (b, off + nat (sint i) * struct_size ELFCLASS64 def64)) g es)
        (\<lambda>es. Option.bind (mark_dirty s es) (\<lambda>es. Some (1, es)))"
  using assms valid_index [of i "struct_size ELFCLASS64 def64" x b off]
  by (simp_all add: eu_update_flat_def eu_update_flat_index_first_def index_good_def)

text \<open>The information words of the two classes, here and in the other library.\<close>

lemma eu_r_info_agrees:
  "eu_r_info_widen i = r_info_widen i"
  "eu_r_info_narrow v = ELF32_R_INFO (ucast (ELF64_R_SYM v)) (ucast (ELF64_R_TYPE v))"
  "eu_r_info_fits v \<longleftrightarrow> fits_r_info v"
proof -
  have m8: "(0xff :: u64) = mask 8" "(0xff :: u32) = mask 8" and m32: "(0xffffffff :: u64) = mask 32"
    by (simp_all add: mask_eq_exp_minus_1)
  have "(ucast (i AND 0xff) :: u64) = ucast (ucast i :: byte) AND 0xFFFFFFFF"
    unfolding m8 m32 by (rule bit_word_eqI)
      (auto simp: bit_ucast_iff bit_and_iff bit_mask_iff simp del: mask_numeral)
  then show "eu_r_info_widen i = r_info_widen i"
    by (simp add: eu_r_info_widen_def r_info_widen_def ELF64_R_INFO_def ELF32_R_SYM_def ELF32_R_TYPE_def)
  have "(ucast (push_bit 8 (drop_bit 32 v)) :: u32) = push_bit 8 (ucast (drop_bit 32 v))"
    by (rule bit_word_eqI) (auto simp: bit_ucast_iff bit_push_bit_iff)
  moreover have "(ucast ((v AND 0xffffffff) AND 0xff) :: u32) = ucast (ucast (ucast (v AND 0xFFFFFFFF) :: u32) :: byte)"
    unfolding m8 m32 by (rule bit_word_eqI)
      (auto simp: bit_ucast_iff bit_and_iff bit_mask_iff simp del: mask_numeral)
  ultimately show "eu_r_info_narrow v = ELF32_R_INFO (ucast (ELF64_R_SYM v)) (ucast (ELF64_R_TYPE v))"
    unfolding eu_r_info_narrow_def ucast_u32_add ELF32_R_INFO_def ELF64_R_SYM_def ELF64_R_TYPE_def by (simp only:)
  show "eu_r_info_fits v \<longleftrightarrow> fits_r_info v"
    by (simp add: eu_r_info_fits_def fits_r_info_def ELF64_R_SYM_def ELF64_R_TYPE_def word_less_nat_alt) linarith
qed

lemma eu_fits_back:
  "\<not> v > 0xffffffff \<Longrightarrow> ucast (ucast v :: u32) = (v :: u64)"
  "\<not> sint w < - 0x80000000 \<Longrightarrow> \<not> sint w > 0x7fffffff \<Longrightarrow> scast (scast w :: u32) = (w :: u64)"
  "eu_r_info_fits u \<Longrightarrow> eu_r_info_widen (eu_r_info_narrow u) = u"
  using fits_u32_back [of v] fits_s32_back [of w] r_info_back [of u]
  by (auto simp: fits_u32_def fits_s32_def eu_r_info_agrees not_less)

lemmas entry_sizes = struct_size_def struct_align_def align_up_def DEF_simps
  Elf32_auxv_DEF_def Elf64_auxv_DEF_def Elf_Lib_DEF_def Elf_Versym_DEF_def

interpretation eu_syms: eu_indexed_entry Elf32_Sym_DEF sym32_of sym32_members Elf64_Sym_DEF sym64_of sym64_members
  EU_T_SYM eu_sym_widen eu_sym_fits eu_sym_narrow eu_gelf_getsym eu_gelf_update_sym
  by unfold_locales (auto simp: eu_gelf_getsym_def eu_gelf_update_sym_def eu_sym_widen_def eu_sym_narrow_def
      eu_sym_fits_def eu_fits_back entry_sizes)

interpretation eu_rels: eu_indexed_entry Elf32_Rel_DEF rel_of rel_members Elf64_Rel_DEF rel_of rel_members
  EU_T_REL eu_rel_widen eu_rel_fits eu_rel_narrow eu_gelf_getrel eu_gelf_update_rel
  by unfold_locales (auto simp: eu_gelf_getrel_def eu_gelf_update_rel_def eu_rel_widen_def eu_rel_narrow_def
      eu_rel_fits_def eu_fits_back entry_sizes)

interpretation eu_relas: eu_indexed_entry Elf32_Rela_DEF rela_of rela_members Elf64_Rela_DEF rela_of rela_members
  EU_T_RELA eu_rela_widen eu_rela_fits eu_rela_narrow eu_gelf_getrela eu_gelf_update_rela
  by unfold_locales (auto simp: eu_gelf_getrela_def eu_gelf_update_rela_def eu_rela_widen_def eu_rela_narrow_def
      eu_rela_fits_def eu_fits_back entry_sizes)

interpretation eu_dyns: eu_indexed_entry Elf32_Dyn_DEF dyn_of dyn_members Elf64_Dyn_DEF dyn_of dyn_members
  EU_T_DYN eu_dyn_widen eu_dyn_fits eu_dyn_narrow eu_gelf_getdyn eu_gelf_update_dyn
  by unfold_locales (auto simp: eu_gelf_getdyn_def eu_gelf_update_dyn_def eu_dyn_widen_def eu_dyn_narrow_def
      eu_dyn_fits_def eu_fits_back entry_sizes)

interpretation lib64: struct_codec ELFCLASS64 Elf_Lib_DEF lib_of lib_members "\<lambda>x. True"
  by unfold_locales (auto simp: entry_simps)

interpretation versym64: struct_codec ELFCLASS64 Elf_Versym_DEF versym_of versym_members "\<lambda>x. True"
  by unfold_locales (auto simp: entry_simps)

interpretation verdef64: struct_codec ELFCLASS64 Elf_Verdef_DEF verdef_of verdef_members "\<lambda>x. True"
  by unfold_locales (auto simp: entry_simps)

interpretation verdaux64: struct_codec ELFCLASS64 Elf_Verdaux_DEF verdaux_of verdaux_members "\<lambda>x. True"
  by unfold_locales (auto simp: entry_simps)

interpretation verneed64: struct_codec ELFCLASS64 Elf_Verneed_DEF verneed_of verneed_members "\<lambda>x. True"
  by unfold_locales (auto simp: entry_simps)

interpretation vernaux64: struct_codec ELFCLASS64 Elf_Vernaux_DEF vernaux_of vernaux_members "\<lambda>x. True"
  by unfold_locales (auto simp: entry_simps)

lemma flat_sizes:
  "struct_size ELFCLASS32 Elf32_Syminfo_DEF = 4" "struct_size ELFCLASS64 Elf64_Syminfo_DEF = 4"
  "struct_size ELFCLASS32 Elf_Lib_DEF = 20" "struct_size ELFCLASS64 Elf_Lib_DEF = 20"
  "struct_size ELFCLASS32 Elf_Versym_DEF = 2" "struct_size ELFCLASS64 Elf_Versym_DEF = 2"
  "struct_size ELFCLASS64 Elf_Verdef_DEF = 20" "struct_size ELFCLASS64 Elf_Verdaux_DEF = 8"
  "struct_size ELFCLASS64 Elf_Verneed_DEF = 16" "struct_size ELFCLASS64 Elf_Vernaux_DEF = 16"
  "struct_align ELFCLASS64 Elf_Verdef_DEF = 4" "struct_align ELFCLASS64 Elf_Verdaux_DEF = 4"
  by code_simp+

lemma index_good_inside: "index_good sz n i \<Longrightarrow> nat (sint i) * sz + sz \<le> n"
  by (simp add: index_good_def)

lemma offset_good_inside: "offset_good step sz n i \<Longrightarrow> nat i + sz \<le> n"
  by (simp add: offset_good_def)

interpretation eu_syminfos: eu_flat_entry Elf64_Syminfo_DEF syminfo_of syminfo_members EU_T_SYMINFO
  "\<lambda>i. nat (sint i) * struct_size ELFCLASS64 Elf64_Syminfo_DEF" "index_good (struct_size ELFCLASS64 Elf64_Syminfo_DEF)"
  eu_gelf_getsyminfo eu_gelf_update_syminfo
  unfolding eu_gelf_getsyminfo_def eu_gelf_update_syminfo_def
  by unfold_locales (erule index_good_inside, (rule eu_get_flat_load eu_update_flat_save; simp add: flat_sizes)+)

interpretation eu_libs: eu_flat_entry Elf_Lib_DEF lib_of lib_members EU_T_LIB
  "\<lambda>i. nat (sint i) * struct_size ELFCLASS64 Elf_Lib_DEF" "index_good (struct_size ELFCLASS64 Elf_Lib_DEF)"
  eu_gelf_getlib eu_gelf_update_lib
  unfolding eu_gelf_getlib_def eu_gelf_update_lib_def
  by unfold_locales (erule index_good_inside, (rule eu_get_flat_load eu_update_flat_save; simp add: flat_sizes)+)

interpretation eu_versyms: eu_flat_entry Elf_Versym_DEF versym_of versym_members EU_T_HALF
  "\<lambda>i. nat (sint i) * struct_size ELFCLASS64 Elf_Versym_DEF" "index_good (struct_size ELFCLASS64 Elf_Versym_DEF)"
  eu_gelf_getversym eu_gelf_update_versym
  unfolding eu_gelf_getversym_def eu_gelf_update_versym_def
  by unfold_locales (erule index_good_inside, (rule eu_get_flat_load eu_update_flat_save; simp add: flat_sizes)+)

interpretation eu_verdefs: eu_flat_entry Elf_Verdef_DEF verdef_of verdef_members EU_T_VDEF nat
  "offset_good (struct_align ELFCLASS64 Elf_Verdef_DEF) (struct_size ELFCLASS64 Elf_Verdef_DEF)"
  eu_gelf_getverdef eu_gelf_update_verdef
  unfolding eu_gelf_getverdef_def eu_gelf_update_verdef_def
  by unfold_locales (erule offset_good_inside, (rule eu_get_offset_load eu_update_offset_save; simp add: flat_sizes)+)

interpretation eu_verdauxs: eu_flat_entry Elf_Verdaux_DEF verdaux_of verdaux_members EU_T_VDEF nat
  "offset_good (struct_align ELFCLASS64 Elf_Verdaux_DEF) (struct_size ELFCLASS64 Elf_Verdaux_DEF)"
  eu_gelf_getverdaux eu_gelf_update_verdaux
  unfolding eu_gelf_getverdaux_def eu_gelf_update_verdaux_def
  by unfold_locales (erule offset_good_inside, (rule eu_get_offset_load eu_update_offset_save; simp add: flat_sizes)+)

interpretation eu_verneeds: eu_flat_entry Elf_Verneed_DEF verneed_of verneed_members EU_T_VNEED nat
  "offset_good (struct_size ELFCLASS64 Elf_Verneed_DEF) (struct_size ELFCLASS64 Elf_Verneed_DEF)"
  eu_gelf_getverneed eu_gelf_update_verneed
  unfolding eu_gelf_getverneed_def eu_gelf_update_verneed_def
  by unfold_locales (erule offset_good_inside, (rule eu_get_offset_load eu_update_offset_save; simp add: flat_sizes)+)

interpretation eu_vernauxs: eu_flat_entry Elf_Vernaux_DEF vernaux_of vernaux_members EU_T_VNEED nat
  "offset_good (struct_size ELFCLASS64 Elf_Vernaux_DEF) (struct_size ELFCLASS64 Elf_Vernaux_DEF)"
  eu_gelf_getvernaux eu_gelf_update_vernaux
  unfolding eu_gelf_getvernaux_def eu_gelf_update_vernaux_def
  by unfold_locales (erule offset_good_inside, (rule eu_get_offset_load eu_update_offset_save; simp add: flat_sizes)+)

section \<open>Properties\<close>

lemma other_multiple:
  fixes k l sz :: nat
  assumes "k \<noteq> l"
  shows "k * sz + sz \<le> l * sz \<or> l * sz + sz \<le> k * sz"
proof -
  have "k < l \<or> l < k" using assms by linarith
  then have "Suc k * sz \<le> l * sz \<or> Suc l * sz \<le> k * sz" using mult_le_mono1 Suc_leI by blast
  then show ?thesis by (simp add: add.commute)
qed

text \<open>
  \<open>gelf_getrela\<close> returns the relocation that \<open>gelf_update_rela\<close> wrote at an index, in objects
  of both classes; where the class is 32 bits, for every relocation that the function accepts.
  The relocations at other indices stay.
\<close>

lemma eu_update_rela_then_get:
  assumes "eu_data_ready EU_T_RELA d ec b off n bs es" "ec = ELFCLASS32 \<longrightarrow> eu_rela_fits g"
    and sz: "sz = struct_size ec (if ec = ELFCLASS32 then Elf32_Rela_DEF else Elf64_Rela_DEF)"
    and i: "0 \<le> sint i" "(nat (sint i) + 1) * sz \<le> n"
  shows "\<exists>es'. eu_gelf_update_rela (Some d) i g es = Some (1, es') \<and> eu_gelf_getrela (Some d) i es' = Some (Some g, es')
    \<and> (\<forall>j. 0 \<le> sint j \<and> (nat (sint j) + 1) * sz \<le> n \<and> j \<noteq> i
         \<longrightarrow> map_option fst (eu_gelf_getrela (Some d) j es') = map_option fst (eu_gelf_getrela (Some d) j es))"
proof -
  have s: "eu_relas.entry_size ec = sz"
    using assms(1) by (auto simp: sz eu_relas.entry_size_def eu_data_ready_def std_class_def)
  have v: "eu_relas.valid_entry ec n j \<longleftrightarrow> 0 \<le> sint j \<and> (nat (sint j) + 1) * sz \<le> n" for j
    by (simp add: eu_relas.valid_entry_def s)
  have "nat (sint j) \<noteq> nat (sint i)" if "j \<noteq> i" "0 \<le> sint j" for j
    using that i(1) by (metis int_nat_eq signed_word_eqI)
  then show ?thesis
    using eu_relas.access.update_then_get [OF assms(1) _ assms(2), of i] v i other_multiple s by metis
qed

text \<open>
  C28. The two libraries read the same symbol from the same bytes: where each has a symbol table
  in the same memory and the same byte order, \<open>gelf_getsym\<close> of either gives the same result.
\<close>

theorem eu_getsym_agrees:
  assumes "eu_data_ready EU_T_SYM d ec b off n bs es" "entry_ready ELF_T_SYM def d' ec (sint i) b off bs st"
    and "host_order (eu_mach es) = host_order st" "(nat (sint i) + 1) * struct_size ec def \<le> n"
  shows "\<exists>g. eu_gelf_getsym (Some d) i es = Some (Some g, es) \<and> gelf_getsym (Some d') (sint i) True st = Some (Some g, st)"
proof -
  have l: "comp_layout ELF_T_SYM ec = Some def" "0 \<le> sint i" "std_class ec"
    using assms(1,2) by (auto simp: entry_ready_def eu_data_ready_def)
  then have def: "def = (if ec = ELFCLASS32 then Elf32_Sym_DEF else Elf64_Sym_DEF)"
    by (auto simp: comp_layout_def std_class_def)
  have s: "eu_syms.entry_size ec = struct_size ec def"
    using l(3) by (auto simp: eu_syms.entry_size_def def std_class_def)
  have "eu_syms.valid_entry ec n i" using l(2) assms(4) by (simp add: eu_syms.valid_entry_def s)
  note eu_syms.get_valid [OF assms(1) this] syms.get_value [OF assms(2)]
  moreover have "eu_sym_widen x = sym_widen x" for x by (simp add: eu_sym_widen_def sym_widen_def)
  ultimately show ?thesis
    using l(3) assms(3)
    by (auto simp: s def eu_syms.decode_entry_def syms.value_at_def std_class_def)
qed

text \<open>
  The two structures of a move do not have the same size, so the assertion of that fails and
  both functions on moves stop the program for every data of that type.
\<close>

lemma eu_getmove_aborts:
  assumes "eu_data d es = Some (x, sr)"
  shows "d_type x = EU_T_MOVE \<Longrightarrow> eu_gelf_getmove (Some d) i es = None" "eu_gelf_update_move (Some d) i g es = None"
proof -
  have "struct_size ELFCLASS64 Elf64_Move_DEF \<noteq> struct_size ELFCLASS32 Elf32_Move_DEF" by code_simp
  then show "d_type x = EU_T_MOVE \<Longrightarrow> eu_gelf_getmove (Some d) i es = None" "eu_gelf_update_move (Some d) i g es = None"
    using assms by (simp_all add: eu_gelf_getmove_def eu_get_flat_def eu_gelf_update_move_def
        eu_update_flat_index_first_def)
qed

text \<open>The index -1 passes the test for auxiliary vectors and the entry before the buffer is read.\<close>

lemma eu_getauxv_before_buffer:
  assumes "eu_data_ready EU_T_AUXV d ec b off n bs es"
  shows "eu_gelf_getauxv (Some d) (-1) es = None"
  using assms
  by (auto simp: eu_data_ready_def eu_gelf_getauxv_def data_elf_def eu_behind_def entry_ptr_def eu_load_def
      load_struct_def read_bytes_def)

text \<open>
  An example: an object of 64 bits with one relocation section, whose data is 48 bytes of
  memory.
\<close>

definition demo_node :: "int \<Rightarrow> u64 \<Rightarrow> eu_data_node" where
  "demo_node t n = \<lparr>dn_data = \<lparr>d_align = 8, d_buf = Some (4, 0), d_off = 0, d_size = n, d_type = t, d_version = 1\<rparr>,
     dn_scn = Some (0, 0, 1), dn_flags = EU_F_DIRTY\<rparr>"

definition demo_eu_elf :: "int \<Rightarrow> int \<Rightarrow> u64 \<Rightarrow> Eu_Elf" where
  "demo_eu_elf ec t n =
     \<lparr>ee_map_address = None, ee_parent = None, ee_next = None, ee_kind = ELF_K_ELF, ee_cmd = EU_C_WRITE,
      ee_class = ec, ee_fildes = 3, ee_start_offset = 0, ee_maximum_size = 0, ee_flags = 0, ee_ref_count = 1,
      ee_ehdr = None, ee_shdr = False, ee_phdr = None,
      ee_scns = [\<lparr>sl_cnt = 2, sl_max = 2, sl_data =
        [zero_scn\<lparr>sc_elf := Some 0, sc_list := Some 0\<rparr>,
         zero_scn\<lparr>sc_data_list := [demo_node t n], sc_index := 1, sc_elf := Some 0, sc_list := Some 0\<rparr>]\<rparr>],
      ee_scns_last = Some 0, ee_scnincr = 2, ee_ehdr_flags = 0, ee_phdr_flags = 0, ee_shdr_malloced = False,
      ee_children = None, ee_ar_sym = None, ee_ar_sym_num = 0, ee_long_names = None, ee_long_names_len = 0,
      ee_offset = 0, ee_ar_hdr = None\<rparr>"

definition demo_eu_store :: "int \<Rightarrow> int \<Rightarrow> byte list \<Rightarrow> eu_store" where
  "demo_eu_store ec t bs =
     \<lparr>eu_mach = (initial_store ELFDATA2LSB (\<lambda>b. 0))\<lparr>mem := [4 \<mapsto> bs], fresh := 5\<rparr>,
      eu_elfs = [0 \<mapsto> demo_eu_elf ec t (of_nat (length bs))], eu_global_error = 0, eu_libelf_version = 1,
      eu_version_initialized = True, eu_fill_byte = 0\<rparr>"

lemmas demo_eu_simps = demo_eu_store_def demo_eu_elf_def demo_node_def

lemma demo_eu_data:
  "length bs < 2 ^ 32 \<Longrightarrow> std_class ec
    \<Longrightarrow> eu_data_ready t (ListData (0, 0, 1) 0) ec 4 0 (length bs) bs (demo_eu_store ec t bs)"
  by (simp add: eu_data_ready_def demo_eu_simps eu_data_def eu_scn_def block_scn_def zero_scn_def unat_of_nat_u64
      del: of_nat_less_numeral_iff)

lemma eu_update_rela_then_get_witness:
  "\<exists>es'. eu_gelf_update_rela (Some (ListData (0, 0, 1) 0)) 1 \<lparr>ra_offset = 0x1000, ra_info = 0x300000001, ra_addend = -4\<rparr>
      (demo_eu_store ELFCLASS32 EU_T_RELA (replicate 24 0)) = Some (1, es')
    \<and> eu_gelf_getrela (Some (ListData (0, 0, 1) 0)) 1 es'
      = Some (Some \<lparr>ra_offset = 0x1000, ra_info = 0x300000001, ra_addend = -4\<rparr>, es')"
proof -
  let ?bs = "replicate 24 (0 :: byte)"
  have r: "eu_data_ready EU_T_RELA (ListData (0, 0, 1) 0) ELFCLASS32 4 0 24 ?bs (demo_eu_store ELFCLASS32 EU_T_RELA ?bs)"
    using demo_eu_data [of ?bs ELFCLASS32 EU_T_RELA] by (simp add: std_class_def)
  have f: "eu_rela_fits \<lparr>ra_offset = 0x1000, ra_info = 0x300000001, ra_addend = -4\<rparr>"
    by (simp add: eu_rela_fits_def eu_r_info_fits_def)
  have sz: "struct_size ELFCLASS32 Elf32_Rela_DEF = 12" by code_simp
  show ?thesis using eu_update_rela_then_get [OF r, of "\<lparr>ra_offset = 0x1000, ra_info = 0x300000001, ra_addend = -4\<rparr>" 12 1] f sz
    by auto
qed

theorem eu_getsym_agrees_witness:
  "\<exists>g es st. eu_gelf_getsym (Some (ListData (0, 0, 1) 0)) 1
      (demo_eu_store ELFCLASS32 EU_T_SYM (replicate 32 1)) = Some (Some g, es)
    \<and> gelf_getsym (Some 3) 1 True (demo_entries SHT_SYMTAB (replicate 32 1)) = Some (Some g, st)"
proof -
  let ?bs = "replicate 32 1 :: byte list"
  have len: "length ?bs = 32" by simp
  have sz: "struct_size ELFCLASS32 Elf32_Sym_DEF = 16" by code_simp
  have a: "eu_data_ready EU_T_SYM (ListData (0, 0, 1) 0) ELFCLASS32 4 0 32 ?bs (demo_eu_store ELFCLASS32 EU_T_SYM ?bs)"
    using demo_eu_data [of ?bs ELFCLASS32 EU_T_SYM] len by (simp add: std_class_def)
  have b: "entry_ready ELF_T_SYM Elf32_Sym_DEF 3 ELFCLASS32 (sint (1 :: u32)) 4 0 ?bs (demo_entries SHT_SYMTAB ?bs)"
    using len sz by (intro demo_entry_ready) (simp_all add: comp_layout_def libelf_xlate_shtype_def)
  have "host_order (eu_mach (demo_eu_store ELFCLASS32 EU_T_SYM ?bs)) = host_order (demo_entries SHT_SYMTAB ?bs)"
    by (simp add: demo_eu_store_def demo_entries_def demo_sym_simps)
  from eu_getsym_agrees [OF a b this] show ?thesis using sz by auto
qed

end
