(* ===== verification/Eu_Notes.thy ===== *)
theory Eu_Notes
  imports Eu_Entries
begin

text \<open>
  The notes of a buffer: \<open>gelf_getnote.c\<close>, which finds the parts of one note and the offset of
  the next.
\<close>

section \<open>The code\<close>

record Elf_Nhdr =
  n_namesz :: u32
  n_descsz :: u32
  n_type :: u32

definition Elf_Nhdr_DEF :: layout where
  "Elf_Nhdr_DEF = [(''n_namesz'', WORD), (''n_descsz'', WORD), (''n_type'', WORD)]"

definition nhdr_of :: "u32 \<Rightarrow> struct_val \<Rightarrow> Elf_Nhdr" where
  "nhdr_of o' vs = \<lparr>n_namesz = native_val o' (vs ! 0), n_descsz = native_val o' (vs ! 1), n_type = native_val o' (vs ! 2)\<rparr>"

definition nhdr_members :: "u32 \<Rightarrow> Elf_Nhdr \<Rightarrow> struct_val" where
  "nhdr_members o' x = [native_bytes o' 4 (n_namesz x), native_bytes o' 4 (n_descsz x), native_bytes o' 4 (n_type x)]"

text \<open>
  \<open>-4U\<close> and \<open>-8U\<close> have 32 bits, so the macros also clear the upper half of a \<open>size_t\<close>; applied
  to a \<open>GElf_Word\<close> they are as intended.
\<close>

definition NOTE_ALIGN4 :: "u64 \<Rightarrow> u64" where
  "NOTE_ALIGN4 n = (n + 3) AND 0xFFFFFFFC"

definition NOTE_ALIGN8 :: "u64 \<Rightarrow> u64" where
  "NOTE_ALIGN8 n = (n + 7) AND 0xFFFFFFF8"

definition NOTE_ALIGN4_word :: "u32 \<Rightarrow> u32" where
  "NOTE_ALIGN4_word n = (n + 3) AND 0xFFFFFFFC"

definition NOTE_ALIGN8_word :: "u32 \<Rightarrow> u32" where
  "NOTE_ALIGN8_word n = (n + 7) AND 0xFFFFFFF8"

text \<open>The values stored through the pointers: the offset of the name, that of the descriptor, the header.\<close>

record note_out =
  name_offset :: "u64 option"
  desc_offset :: "u64 option"
  note_hdr :: "Elf_Nhdr option"

definition no_note :: note_out where
  "no_note = \<lparr>name_offset = None, desc_offset = None, note_hdr = None\<rparr>"

definition eu_gelf_getnote :: "eu_data_ref option \<Rightarrow> u64 \<Rightarrow> eu_store \<Rightarrow> ((u64 \<times> note_out) \<times> eu_store) option" where
  "eu_gelf_getnote dr offset es =
     (case dr of None \<Rightarrow> Some ((0, no_note), es)
      | Some d \<Rightarrow>
          do { (x, sr) \<leftarrow> eu_data d es;
               if d_type x \<noteq> EU_T_NHDR \<and> d_type x \<noteq> EU_T_NHDR8
               then Some ((0, no_note), eu_seterrno EU_E_INVALID_HANDLE es)
               else
                 do { (s, elf) \<leftarrow> data_elf sr es;
                      if offset > d_size x \<or> d_size x - offset < 12
                      then Some ((0, no_note), eu_seterrno EU_E_OFFSET_RANGE es)
                      else
                        do { n \<leftarrow> eu_load ELFCLASS64 Elf_Nhdr_DEF nhdr_of (ptr_off (d_buf x) (unat offset)) es;
                             let offset = offset + 12;
                             if offset > d_size x then Some ((0, no_note), es)
                             else
                               do { let out = no_note\<lparr>name_offset := Some offset\<rparr>;
                                    let offset = offset + ucast (n_namesz n);
                                    if offset > d_size x then Some ((0, out), es)
                                    else
                                      do { let descsz = (if d_type x = EU_T_NHDR8 then NOTE_ALIGN8_word (n_descsz n)
                                                         else NOTE_ALIGN4_word (n_descsz n));
                                           let offset = (if d_type x = EU_T_NHDR8 then NOTE_ALIGN8 offset
                                                         else NOTE_ALIGN4 offset);
                                           if offset > d_size x \<or> d_size x - offset < ucast descsz
                                              \<or> (descsz = 0 \<and> n_descsz n \<noteq> 0)
                                           then Some ((0, out), es)
                                           else Some ((offset + ucast descsz,
                                                  out\<lparr>desc_offset := Some offset, note_hdr := Some n\<rparr>), es) } } } } })"

text \<open>The loop of a client that visits the notes: the headers with the offsets of names and descriptors.\<close>

partial_function (option) note_walk ::
  "eu_data_ref \<Rightarrow> u64 \<Rightarrow> eu_store \<Rightarrow> (Elf_Nhdr \<times> u64 \<times> u64) list option"
where
  "note_walk d offset es =
     Option.bind (eu_gelf_getnote (Some d) offset es) (\<lambda>((next, out), es).
       if next = 0 then Some []
       else
         do { n \<leftarrow> note_hdr out;
              no \<leftarrow> name_offset out;
              de \<leftarrow> desc_offset out;
              ns \<leftarrow> note_walk d next es;
              Some ((n, no, de) # ns) })"

section \<open>Alignment\<close>

text \<open>The alignment of the type of the data.\<close>

definition note_align :: "int \<Rightarrow> nat" where
  "note_align t = (if t = EU_T_NHDR8 then 8 else 4)"

lemma nat_and_high:
  assumes "m < 2 ^ 32" "k \<le> 32"
  shows "(m :: nat) AND push_bit k (mask (32 - k)) = m div 2 ^ k * 2 ^ k"
proof -
  have "bit m j \<Longrightarrow> j < 32" for j
    using assms(1) by (metis bit_take_bit_iff take_bit_nat_eq_self)
  then have "m AND push_bit k (mask (32 - k)) = push_bit k (drop_bit k m)"
    by (intro bit_eqI) (force simp: bit_and_iff bit_push_bit_iff bit_mask_iff bit_drop_bit_eq simp del: mask_numeral)
  then show ?thesis by (simp add: push_bit_eq_mult drop_bit_eq_div)
qed

lemma note_masks:
  "m < 2 ^ 32 \<Longrightarrow> m AND 0xFFFFFFFC = m div 4 * (4 :: nat)" "m < 2 ^ 32 \<Longrightarrow> m AND 0xFFFFFFF8 = m div 8 * (8 :: nat)"
  using nat_and_high [of m 2] nat_and_high [of m 3] by (simp_all add: push_bit_eq_mult mask_eq_exp_minus_1)

lemma NOTE_ALIGN_nat:
  "unat n + 3 < 2 ^ 32 \<Longrightarrow> unat (NOTE_ALIGN4 n) = align_up (unat n) 4"
  "unat n + 7 < 2 ^ 32 \<Longrightarrow> unat (NOTE_ALIGN8 n) = align_up (unat n) 8"
  by (simp_all add: NOTE_ALIGN4_def NOTE_ALIGN8_def unsigned_and_eq unat_add_small align_up_def note_masks)

lemma NOTE_ALIGN_word_nat:
  "unat n + 3 < 2 ^ 32 \<Longrightarrow> unat (NOTE_ALIGN4_word n) = align_up (unat n) 4"
  "unat n + 7 < 2 ^ 32 \<Longrightarrow> unat (NOTE_ALIGN8_word n) = align_up (unat n) 8"
  by (simp_all add: NOTE_ALIGN4_word_def NOTE_ALIGN8_word_def unsigned_and_eq unat_plus_if_size word_size align_up_def
      note_masks)

text \<open>Where the addition wraps around, the result is 0.\<close>

lemma NOTE_ALIGN_word_wraps:
  "2 ^ 32 \<le> unat n + 3 \<Longrightarrow> NOTE_ALIGN4_word n = 0" "2 ^ 32 \<le> unat n + 7 \<Longrightarrow> NOTE_ALIGN8_word n = 0"
  using unat_u32_less [of n]
  by (simp_all add: NOTE_ALIGN4_word_def NOTE_ALIGN8_word_def word_unat_eq_iff unsigned_and_eq unat_plus_if_size
      word_size note_masks)

interpretation nhdr64: struct_codec ELFCLASS64 Elf_Nhdr_DEF nhdr_of nhdr_members "\<lambda>x. True"
  by unfold_locales (auto simp: entry_simps Elf_Nhdr_DEF_def nhdr_of_def nhdr_members_def)

lemma nhdr_size: "struct_size ELFCLASS64 Elf_Nhdr_DEF = 12"
  by code_simp

section \<open>One note\<close>

text \<open>The header at a place, and the end of the note: that of the descriptor with its padding.\<close>

definition hdr_at :: "u32 \<Rightarrow> byte list \<Rightarrow> nat \<Rightarrow> Elf_Nhdr" where
  "hdr_at o' data p = nhdr_of o' (mem_struct ELFCLASS64 Elf_Nhdr_DEF (segment p 12 data))"

definition desc_at :: "nat \<Rightarrow> Elf_Nhdr \<Rightarrow> nat \<Rightarrow> nat" where
  "desc_at a h p = align_up (p + 12 + unat (n_namesz h)) a"

definition note_end :: "nat \<Rightarrow> Elf_Nhdr \<Rightarrow> nat \<Rightarrow> nat" where
  "note_end a h p = desc_at a h p + align_up (unat (n_descsz h)) a"

text \<open>Data of notes, small enough for the offsets not to lose their upper half.\<close>

definition notes_ready :: "int \<Rightarrow> eu_data_ref \<Rightarrow> byte list \<Rightarrow> eu_store \<Rightarrow> bool" where
  "notes_ready t d data es \<longleftrightarrow>
     (\<exists>ec b off bs. eu_data_ready t d ec b off (length data) bs es \<and> data = segment off (length data) bs)
     \<and> (t = EU_T_NHDR \<or> t = EU_T_NHDR8) \<and> length data + 8 < 2 ^ 32"

text \<open>The last test, on the place \<open>w\<close> and the size \<open>z\<close> of the descriptor.\<close>

definition padded_size :: "int \<Rightarrow> u32 \<Rightarrow> u32" where
  "padded_size t z = (if t = EU_T_NHDR8 then NOTE_ALIGN8_word z else NOTE_ALIGN4_word z)"

lemma padded_size_nat:
  "unat z + 8 < 2 ^ 32 \<Longrightarrow> unat (padded_size t z) = align_up (unat z) (note_align t)"
  "unat (padded_size t z) = align_up (unat z) (note_align t) \<or> (padded_size t z = 0 \<and> z \<noteq> 0)"
proof -
  show "unat (padded_size t z) = align_up (unat z) (note_align t)" if "unat z + 8 < 2 ^ 32"
    using that NOTE_ALIGN_word_nat [of z] by (simp add: padded_size_def note_align_def)
  have "z \<noteq> 0" if "2 ^ 32 \<le> unat z + 7" using that by auto
  then show "unat (padded_size t z) = align_up (unat z) (note_align t) \<or> (padded_size t z = 0 \<and> z \<noteq> 0)"
    using NOTE_ALIGN_word_nat [of z] NOTE_ALIGN_word_wraps [of z] by (cases "2 ^ 32 \<le> unat z + 7"; cases "2 ^ 32 \<le> unat z + 3")
      (auto simp: padded_size_def note_align_def)
qed

lemma eq_of_nat: "unat w = n \<Longrightarrow> (w :: u64) = of_nat n"
  by (metis of_nat_unat ucast_id)

lemma descriptor_fits:
  fixes w sz :: u64
  assumes w: "unat w = D" and small: "unat sz + 8 < 2 ^ 32"
  shows "(w > sz \<or> sz - w < ucast (padded_size t z) \<or> (padded_size t z = 0 \<and> z \<noteq> 0))
      \<longleftrightarrow> \<not> D + align_up (unat z) (note_align t) \<le> unat sz" (is "?bad \<longleftrightarrow> _")
    and "D + align_up (unat z) (note_align t) \<le> unat sz \<Longrightarrow> w + ucast (padded_size t z) = of_nat (D + align_up (unat z) (note_align t))"
proof -
  have a: "0 < note_align t" by (simp add: note_align_def)
  have diff: "(sz - w < ucast (padded_size t z)) = (unat sz < D + unat (padded_size t z))" if "D \<le> unat sz"
  proof -
    have "unat (sz - w) = unat sz - D" using that w by (simp add: unat_sub_if_size)
    then show ?thesis using that by (auto simp: word_less_nat_alt unat_ucast_u32_u64)
  qed
  have fits: "unat (padded_size t z) = align_up (unat z) (note_align t)" "z = 0 \<or> padded_size t z \<noteq> 0"
    if "D + align_up (unat z) (note_align t) \<le> unat sz"
  proof -
    have le: "unat z \<le> align_up (unat z) (note_align t)" using a by (rule align_up_ge)
    then show 1: "unat (padded_size t z) = align_up (unat z) (note_align t)"
      using that small by (intro padded_size_nat(1)) linarith
    show "z = 0 \<or> padded_size t z \<noteq> 0" using 1 le by (metis le_zero_eq unat_0 unat_eq_zero)
  qed
  show "?bad \<longleftrightarrow> \<not> D + align_up (unat z) (note_align t) \<le> unat sz"
  proof (cases "D \<le> unat sz")
    case True
    then have "(w > sz) = False" by (simp add: word_less_nat_alt w)
    then show ?thesis using diff [OF True] fits padded_size_nat(2) [of t z] by auto
  next
    case False
    then show ?thesis by (simp add: word_less_nat_alt w)
  qed
  show "w + ucast (padded_size t z) = of_nat (D + align_up (unat z) (note_align t))"
    if "D + align_up (unat z) (note_align t) \<le> unat sz"
  proof -
      have "w = of_nat D" using w by (rule eq_of_nat)
      moreover have "ucast (padded_size t z) = (of_nat (align_up (unat z) (note_align t)) :: u64)"
        unfolding fits(1) [OF that, symmetric] by (simp add: of_nat_unat)
      ultimately show ?thesis by simp
  qed
qed

lemma getnote_at:
  assumes "notes_ready t d data es" and p: "unat offset = p" and h: "h = hdr_at (host_order (eu_mach es)) data p"
  shows "p + 12 \<le> length data \<Longrightarrow> note_end (note_align t) h p \<le> length data
    \<Longrightarrow> eu_gelf_getnote (Some d) offset es
      = Some ((of_nat (note_end (note_align t) h p), \<lparr>name_offset = Some (of_nat (p + 12)),
          desc_offset = Some (of_nat (desc_at (note_align t) h p)), note_hdr = Some h\<rparr>), es)" (is "_ \<Longrightarrow> _ \<Longrightarrow> ?finds")
    and "\<not> (p + 12 \<le> length data \<and> note_end (note_align t) h p \<le> length data)
    \<Longrightarrow> \<exists>out es'. eu_gelf_getnote (Some d) offset es = Some ((0, out), es')" (is "_ \<Longrightarrow> ?rejects")
proof -
  obtain ec b off bs where "eu_data_ready t d ec b off (length data) bs es" and data: "data = segment off (length data) bs"
    and t: "t = EU_T_NHDR \<or> t = EU_T_NHDR8" and small: "length data + 8 < 2 ^ 32"
    using assms(1) unfolding notes_ready_def by blast
  then obtain x s elf where r: "eu_data d es = Some (x, Some s)" "data_elf (Some s) es = Some (s, elf)"
    "d_type x = t" "d_buf x = Some (b, off)" "length data = unat (d_size x)" "mem (eu_mach es) b = Some bs"
    "off + length data \<le> length bs" by (metis eu_data_readyE)
  let ?N = "length data" and ?a = "note_align t"
  have a: "0 < ?a" by (simp add: note_align_def)
  have gt: "w > d_size x \<longleftrightarrow> ?N < unat w" for w by (simp add: word_less_nat_alt r(5))
  have room: "(offset > d_size x \<or> d_size x - offset < 12) \<longleftrightarrow> \<not> p + 12 \<le> ?N"
  proof (cases "p \<le> ?N")
    case True
    then have "unat (d_size x - offset) = ?N - p" using p r(5) by (simp add: unat_sub_if_size)
    then have "(d_size x - offset < 12) = (?N - p < 12)" by (simp add: word_less_nat_alt)
    moreover have "\<not> ?N < p" using True by simp
    ultimately show ?thesis using p unfolding gt by auto
  next
    case False
    then show ?thesis using p by (auto simp: gt)
  qed
  have "?rejects" if "\<not> p + 12 \<le> ?N" using that room r(1-4) t by (simp add: eu_gelf_getnote_def)
  have body: "eu_gelf_getnote (Some d) offset es
      = (if ?N < p + 12 + unat (n_namesz h) then Some ((0, \<lparr>name_offset = Some (offset + 12), desc_offset = None, note_hdr = None\<rparr>), es)
         else if note_end ?a h p \<le> ?N then
           Some ((of_nat (note_end ?a h p), \<lparr>name_offset = Some (of_nat (p + 12)),
             desc_offset = Some (of_nat (desc_at ?a h p)), note_hdr = Some h\<rparr>), es)
         else Some ((0, \<lparr>name_offset = Some (offset + 12), desc_offset = None, note_hdr = None\<rparr>), es))"
    (is "_ = ?R") if "p + 12 \<le> ?N"
  proof -
    have "segment (off + p) 12 bs = segment p 12 data"
      using that by (subst data) (simp add: segment_segment)
    then have load: "eu_load ELFCLASS64 Elf_Nhdr_DEF nhdr_of (ptr_off (d_buf x) (unat offset)) es = Some h"
      using nhdr64.load_total(1) [OF r(6), of "off + p"] that r(4,7) p
      by (simp add: eu_load_def nhdr_size h hdr_at_def)
    have 1: "unat (offset + 12) = p + 12" using that small p by (subst unat_add_small) simp_all
    have 2: "unat (offset + 12 + ucast (n_namesz h)) = p + 12 + unat (n_namesz h)"
      using 1 that small unat_u32_less [of "n_namesz h"] by (subst unat_add_small) (simp_all add: unat_ucast_u32_u64)
    have 3: "unat (if t = EU_T_NHDR8 then NOTE_ALIGN8 (offset + 12 + ucast (n_namesz h))
        else NOTE_ALIGN4 (offset + 12 + ucast (n_namesz h))) = desc_at ?a h p" if "p + 12 + unat (n_namesz h) \<le> ?N"
      using that small 2 NOTE_ALIGN_nat [of "offset + 12 + ucast (n_namesz h)"] by (simp add: desc_at_def note_align_def)
    let ?w = "offset + 12 + ucast (n_namesz h)"
    let ?o = "if t = EU_T_NHDR8 then NOTE_ALIGN8 ?w else NOTE_ALIGN4 ?w"
    let ?fails = "Some ((0, \<lparr>name_offset = Some (offset + 12), desc_offset = None, note_hdr = None\<rparr>), es)"
    let ?ds = "padded_size t (n_descsz h)"
    have o1: "offset + 12 = of_nat (p + 12)" using 1 by (rule eq_of_nat)
    let ?bad = "?o > d_size x \<or> d_size x - ?o < ucast ?ds \<or> (?ds = 0 \<and> n_descsz h \<noteq> 0)"
    have start: "eu_gelf_getnote (Some d) offset es
      = (if ?N < p + 12 + unat (n_namesz h) then ?fails else if ?bad then ?fails
         else Some ((?o + ucast ?ds, \<lparr>name_offset = Some (offset + 12), desc_offset = Some ?o, note_hdr = Some h\<rparr>), es))"
    proof -
      have g1: "(offset > d_size x \<or> d_size x - offset < 12) = False" using room \<open>p + 12 \<le> ?N\<close> by simp
      have g2: "(offset + 12 > d_size x) = False" using gt 1 \<open>p + 12 \<le> ?N\<close> by simp
      have g3: "(?w > d_size x) = (?N < p + 12 + unat (n_namesz h))" using gt 2 by simp
      have g4: "(t \<noteq> EU_T_NHDR \<and> t \<noteq> EU_T_NHDR8) = False" using t by blast
      show ?thesis
        unfolding eu_gelf_getnote_def option.case r(1) bind.bind_lunit prod.case r(3) g4 if_False r(2) g1 load Let_def g2 g3
          padded_size_def no_note_def
        by simp
    qed
    also have "\<dots> = ?R"
    proof (cases "?N < p + 12 + unat (n_namesz h)")
      case False
      then have o: "unat ?o = desc_at ?a h p" using 3 by simp
      have s: "unat (d_size x) + 8 < 2 ^ 32" using small r(5) by simp
      have o': "?o = of_nat (desc_at ?a h p)" using o by (rule eq_of_nat)
      have bad: "?bad = (\<not> note_end ?a h p \<le> ?N)"
        using descriptor_fits(1) [OF o s, of t "n_descsz h"] unfolding note_end_def r(5) .
      have end': "?o + ucast ?ds = of_nat (note_end ?a h p)" if "note_end ?a h p \<le> ?N"
        using descriptor_fits(2) [OF o s, where t = t and z = "n_descsz h"] that unfolding note_end_def r(5) by blast
      show ?thesis
      proof (cases "note_end ?a h p \<le> ?N")
        case True
        then show ?thesis unfolding bad end' [OF True] unfolding o' unfolding o1
          using False \<open>\<not> ?N < p + 12 + unat (n_namesz h)\<close> by simp
      next
        case False
        then show ?thesis unfolding bad by simp
      qed
    qed simp
    finally show ?thesis .
  qed
  show "?finds" if "p + 12 \<le> ?N" "note_end ?a h p \<le> ?N"
  proof -
    have "p + 12 + unat (n_namesz h) \<le> note_end ?a h p"
      using align_up_ge [OF a, of "p + 12 + unat (n_namesz h)"] by (simp add: note_end_def desc_at_def)
    then show ?thesis using body that by simp
  qed
  show "?rejects" if "\<not> (p + 12 \<le> ?N \<and> note_end ?a h p \<le> ?N)"
    using that body \<open>\<not> p + 12 \<le> ?N \<Longrightarrow> ?rejects\<close> by (cases "p + 12 \<le> ?N") simp_all
qed

section \<open>All the notes of a buffer\<close>

lemma note_end_ge: "p + 12 + unat (n_namesz h) \<le> desc_at (note_align t) h p"
  "desc_at (note_align t) h p + unat (n_descsz h) \<le> note_end (note_align t) h p"
  unfolding desc_at_def note_end_def using align_up_ge [of "note_align t"] by (simp_all add: note_align_def)

text \<open>A note that is reported is inside the data, and the next one starts after it.\<close>

lemma getnote_total:
  assumes "notes_ready t d data es"
  obtains (found) h where "h = hdr_at (host_order (eu_mach es)) data (unat offset)"
      "note_end (note_align t) h (unat offset) \<le> length data"
      "eu_gelf_getnote (Some d) offset es
        = Some ((of_nat (note_end (note_align t) h (unat offset)), \<lparr>name_offset = Some (of_nat (unat offset + 12)),
            desc_offset = Some (of_nat (desc_at (note_align t) h (unat offset))), note_hdr = Some h\<rparr>), es)"
    | (none) out es' where "eu_gelf_getnote (Some d) offset es = Some ((0, out), es')"
  using getnote_at [OF assms refl refl, of offset] by blast

lemma notes_ready_small: "notes_ready t d data es \<Longrightarrow> n \<le> length data \<Longrightarrow> unat (of_nat n :: u64) = n"
  by (rule unat_of_nat_u64) (simp add: notes_ready_def)

text \<open>The walk ends, whatever the bytes are.\<close>

lemma note_walk_stops:
  "eu_gelf_getnote (Some d) offset es = Some ((0, out), es') \<Longrightarrow> note_walk d offset es = Some []"
  by (subst note_walk.simps) simp

lemma note_walk_found:
  assumes "notes_ready t d data es" "h = hdr_at (host_order (eu_mach es)) data p" "unat offset = p"
    and "p + 12 \<le> length data" "note_end (note_align t) h p \<le> length data"
  shows "note_walk d offset es
    = map_option (Cons (h, of_nat (p + 12), of_nat (desc_at (note_align t) h p)))
        (note_walk d (of_nat (note_end (note_align t) h p)) es)"
proof -
  have "of_nat (note_end (note_align t) h p) \<noteq> (0 :: u64)"
    using notes_ready_small [OF assms(1,5)] note_end_ge [where p = p and h = h and t = t] by (metis add_is_0 le_zero_eq unat_0 zero_neq_numeral)
  then show ?thesis
    using getnote_at(1) [OF assms(1,3,2,4,5)]
    by (subst note_walk.simps) (simp add: map_conv_bind_option comp_def del: of_nat_add)
qed

lemma note_walk_ends:
  assumes "notes_ready t d data es"
  shows "\<exists>ns. note_walk d offset es = Some ns"
proof (induction "length data - unat offset" arbitrary: offset rule: less_induct)
  case less
  show ?case
  proof (rule getnote_total [OF assms, of offset])
    fix h assume found: "h = hdr_at (host_order (eu_mach es)) data (unat offset)"
      "note_end (note_align t) h (unat offset) \<le> length data"
    let ?e = "note_end (note_align t) h (unat offset)"
    have "unat offset + 12 \<le> ?e" using note_end_ge [where p = "unat offset" and h = h and t = t] by simp
    moreover have "unat (of_nat ?e :: u64) = ?e" using notes_ready_small [OF assms found(2)] .
    ultimately have "length data - unat (of_nat ?e :: u64) < length data - unat offset" using found(2) by simp
    from less [OF this] show ?thesis
      using note_walk_found [OF assms found(1) refl _ found(2)] \<open>unat offset + 12 \<le> ?e\<close> found(2) by auto
  next
    fix out es' assume "eu_gelf_getnote (Some d) offset es = Some ((0, out), es')"
    then show ?thesis using note_walk_stops by blast
  qed
qed

text \<open>The bytes of notes, padded as the specification of the format says.\<close>

type_synonym whole_note = "Elf_Nhdr \<times> byte list \<times> byte list"

definition pad_to :: "nat \<Rightarrow> byte list \<Rightarrow> byte list" where
  "pad_to a xs = xs @ replicate (align_up (length xs) a - length xs) 0"

definition note_bytes :: "u32 \<Rightarrow> nat \<Rightarrow> whole_note \<Rightarrow> byte list" where
  "note_bytes o' a n = (case n of (h, name, desc) \<Rightarrow>
     pad_to a (concat (nhdr_members o' h) @ name) @ pad_to a desc)"

definition note_ok :: "whole_note \<Rightarrow> bool" where
  "note_ok n \<longleftrightarrow> (case n of (h, name, desc) \<Rightarrow> unat (n_namesz h) = length name \<and> unat (n_descsz h) = length desc)"

definition read_note :: "byte list \<Rightarrow> Elf_Nhdr \<times> u64 \<times> u64 \<Rightarrow> whole_note" where
  "read_note data x = (case x of (h, no, de) \<Rightarrow>
     (h, segment (unat no) (unat (n_namesz h)) data, segment (unat de) (unat (n_descsz h)) data))"

lemma pad_to_facts [simp]: "0 < a \<Longrightarrow> length (pad_to a xs) = align_up (length xs) a"
  "length xs = n \<Longrightarrow> take n (pad_to a xs) = xs"
  by (simp_all add: pad_to_def align_up_ge)

lemma align_up_add: "a dvd p \<Longrightarrow> 0 < a \<Longrightarrow> align_up (p + x) a = p + align_up x a"
proof -
  assume "a dvd p" "0 < a"
  then obtain k where "p = k * a" by (metis dvd_mult_div_cancel mult.commute)
  then have "(p + x + a - 1) div a = k + (x + a - 1) div a"
    using \<open>0 < a\<close> div_mult_self3 [of a k "x + a - 1"] by (simp add: ac_simps)
  then show ?thesis using \<open>p = k * a\<close> by (simp add: align_up_def algebra_simps)
qed

lemma nhdr_bytes: "length (concat (nhdr_members o' h)) = 12"
  "mem_struct ELFCLASS64 Elf_Nhdr_DEF (concat (nhdr_members o' h)) = nhdr_members o' h"
  by (simp_all add: nhdr_members_def mem_struct_def Elf_Nhdr_DEF_def entry_simps align_up_def)

text \<open>Where the parts of a note are in the data that holds it.\<close>

lemma note_parts:
  assumes data: "data = pre @ note_bytes o' a (h, name, desc) @ rest" and ok: "note_ok (h, name, desc)"
    and a: "0 < a" "a dvd length pre"
  shows "hdr_at o' data (length pre) = h" "segment (length pre + 12) (length name) data = name"
    "segment (desc_at a h (length pre)) (length desc) data = desc"
    "note_end a h (length pre) = length (pre @ note_bytes o' a (h, name, desc))"
proof -
  let ?hb = "concat (nhdr_members o' h)"
  have sizes: "unat (n_namesz h) = length name" "unat (n_descsz h) = length desc" using ok by (simp_all add: note_ok_def)
  have d: "desc_at a h (length pre) = length pre + align_up (12 + length name) a"
    using align_up_add [OF a(2,1)] by (simp add: desc_at_def sizes add.assoc)
  show "note_end a h (length pre) = length (pre @ note_bytes o' a (h, name, desc))"
    using a by (simp add: note_end_def d sizes note_bytes_def nhdr_bytes)
  have "segment (length pre) 12 data = ?hb"
    by (simp add: data segment_def note_bytes_def pad_to_def nhdr_bytes)
  then show "hdr_at o' data (length pre) = h"
    using nhdr64.of_to [where x = h and order = o'] by (simp add: hdr_at_def nhdr_bytes)
  show "segment (length pre + 12) (length name) data = name"
    by (simp add: data segment_def note_bytes_def pad_to_def nhdr_bytes)
  have "drop (desc_at a h (length pre)) data = pad_to a desc @ rest"
    using a by (simp add: d data note_bytes_def nhdr_bytes)
  then show "segment (desc_at a h (length pre)) (length desc) data = desc"
    by (simp add: segment_def pad_to_def)
qed

lemma note_walk_from:
  assumes "notes_ready t d data es" "a = note_align t"
  shows "\<lbrakk>data = pre @ concat (map (note_bytes (host_order (eu_mach es)) a) ns); \<forall>n \<in> set ns. note_ok n;
      a dvd length pre; unat offset = length pre\<rbrakk>
    \<Longrightarrow> \<exists>ps. note_walk d offset es = Some ps \<and> map (read_note data) ps = ns"
proof (induction ns arbitrary: pre offset)
  case Nil
  then have "\<not> unat offset + 12 \<le> length data" by simp
  then obtain out es' where "eu_gelf_getnote (Some d) offset es = Some ((0, out), es')"
    using getnote_at(2) [OF assms(1) refl refl] by blast
  then show ?case using note_walk_stops by auto
next
  case (Cons n ns)
  obtain h name desc where n: "n = (h, name, desc)" by (cases n)
  let ?o = "host_order (eu_mach es)" and ?p = "length pre"
  let ?pre = "pre @ note_bytes ?o a n"
  have a: "0 < a" using assms(2) by (simp add: note_align_def)
  have ok: "note_ok (h, name, desc)" using Cons.prems(2) n by simp
  have data: "data = pre @ note_bytes ?o a (h, name, desc) @ concat (map (note_bytes ?o a) ns)"
    using Cons.prems(1) n by simp
  note parts = note_parts [OF data ok a Cons.prems(3)]
  have e: "note_end a h ?p = length ?pre" using parts(4) n by simp
  have inside: "note_end (note_align t) h ?p \<le> length data" using data e assms(2) n by simp
  then have room: "?p + 12 \<le> length data" using note_end_ge [where p = ?p and h = h and t = t] by simp
  have small: "unat (of_nat m :: u64) = m" if "m \<le> length data" for m
    using notes_ready_small [OF assms(1) that] .
  have 1: "data = ?pre @ concat (map (note_bytes ?o a) ns)" using data n by simp
  have 2: "a dvd length ?pre" using Cons.prems(3) a by (simp add: n note_bytes_def)
  have 3: "unat (of_nat (length ?pre) :: u64) = length ?pre" using small inside e assms(2) by metis
  obtain ps where ps: "note_walk d (of_nat (length ?pre)) es = Some ps" "map (read_note data) ps = ns"
    using Cons.IH [OF 1 _ 2 3] Cons.prems(2) by auto
  have "read_note data (h, of_nat (?p + 12), of_nat (desc_at a h ?p)) = n"
    using parts(2,3) ok room small [of "?p + 12"] small [of "desc_at a h ?p"] inside note_end_ge [where p = ?p and h = h and t = t] assms(2) n
    by (simp add: read_note_def note_ok_def del: of_nat_add)
  then show ?case
    using note_walk_found [OF assms(1) parts(1) [symmetric] Cons.prems(4) room inside] ps e assms(2) by simp
qed

text \<open>
  C29. \<open>gelf_getnote\<close> is defined for every offset and any bytes: it either reports that there is no
  note, or the name and the descriptor it reports are inside the data, one after the other, and the
  offset of the next note is past them and not past the end of the data.
\<close>

theorem eu_getnote_bounds:
  assumes "notes_ready t d data es"
  shows "\<exists>next out es'. eu_gelf_getnote (Some d) offset es = Some ((next, out), es')
    \<and> (next = 0 \<or> (\<exists>h no de. note_hdr out = Some h \<and> name_offset out = Some no \<and> desc_offset out = Some de
        \<and> unat no = unat offset + 12 \<and> unat no + unat (n_namesz h) \<le> unat de
        \<and> unat de + unat (n_descsz h) \<le> unat next \<and> unat next \<le> length data))"
proof (rule getnote_total [OF assms, of offset])
  fix h assume found: "note_end (note_align t) h (unat offset) \<le> length data"
    "eu_gelf_getnote (Some d) offset es
      = Some ((of_nat (note_end (note_align t) h (unat offset)), \<lparr>name_offset = Some (of_nat (unat offset + 12)),
          desc_offset = Some (of_nat (desc_at (note_align t) h (unat offset))), note_hdr = Some h\<rparr>), es)"
  note ge = note_end_ge [where p = "unat offset" and h = h and t = t]
  have "unat (of_nat m :: u64) = m" if "m \<le> note_end (note_align t) h (unat offset)" for m
    using notes_ready_small [OF assms, of m] that found(1) by simp
  then show ?thesis using found ge by (simp del: of_nat_add)
qed auto

text \<open>
  C30. Reading back: a buffer that holds notes, each padded to the alignment of its type, is walked
  from its start to its end; the walk finds each note's header, name and descriptor, in order.
\<close>

theorem note_walk_reads:
  assumes "notes_ready t d data es" "\<forall>n \<in> set ns. note_ok n"
    and "data = concat (map (note_bytes (host_order (eu_mach es)) (note_align t)) ns)"
  shows "\<exists>ps. note_walk d 0 es = Some ps \<and> map (read_note data) ps = ns"
  using note_walk_from [OF assms(1) refl, of "[]" ns 0] assms(2,3) by simp

text \<open>
  The loop over the notes of a buffer ends, whatever the bytes and wherever it starts.
\<close>

lemma note_walk_terminates:
  assumes "notes_ready t d data es"
  shows "\<exists>ps. note_walk d offset es = Some ps"
  using assms by (rule note_walk_ends)

section \<open>Examples\<close>

definition demo_note :: whole_note where
  "demo_note = (\<lparr>n_namesz = 4, n_descsz = 5, n_type = 3\<rparr>, [71, 78, 85, 0], [1, 2, 3, 4, 5])"

lemma demo_notes_ready:
  assumes "length data < 1000" "t = EU_T_NHDR \<or> t = EU_T_NHDR8"
  shows "notes_ready t (ListData (0, 0, 1) 0) data (demo_eu_store ELFCLASS64 t data)"
proof -
  have "eu_data_ready t (ListData (0, 0, 1) 0) ELFCLASS64 4 0 (length data) data (demo_eu_store ELFCLASS64 t data)"
    using demo_eu_data [of data ELFCLASS64 t] assms by (simp add: std_class_def)
  moreover have "data = segment 0 (length data) data" by (simp add: segment_def)
  ultimately show ?thesis using assms unfolding notes_ready_def by fastforce
qed

lemma demo_note_bytes: "note_bytes ELFDATA2LSB 8 demo_note
    = [4, 0, 0, 0, 5, 0, 0, 0, 3, 0, 0, 0, 71, 78, 85, 0, 1, 2, 3, 4, 5, 0, 0, 0]"
  by code_simp

theorem eu_getnote_bounds_witness:
  "\<exists>next out es'. eu_gelf_getnote (Some (ListData (0, 0, 1) 0)) 0
      (demo_eu_store ELFCLASS64 EU_T_NHDR8 (note_bytes ELFDATA2LSB 8 demo_note)) = Some ((next, out), es') \<and> unat next \<le> 24"
proof -
  let ?data = "note_bytes ELFDATA2LSB 8 demo_note"
  have len: "length ?data = 24" by (simp add: demo_note_bytes)
  from eu_getnote_bounds [OF demo_notes_ready [of ?data EU_T_NHDR8], of 0] show ?thesis using len by fastforce
qed

theorem note_walk_reads_witness:
  "\<exists>ps. note_walk (ListData (0, 0, 1) 0) 0
      (demo_eu_store ELFCLASS64 EU_T_NHDR8 (note_bytes ELFDATA2LSB 8 demo_note @ note_bytes ELFDATA2LSB 8 demo_note)) = Some ps
    \<and> map (read_note (note_bytes ELFDATA2LSB 8 demo_note @ note_bytes ELFDATA2LSB 8 demo_note)) ps = [demo_note, demo_note]"
proof -
  let ?b = "note_bytes ELFDATA2LSB 8 demo_note"
  have len: "length (?b @ ?b) < 1000" by (simp add: demo_note_bytes)
  have ok: "note_ok demo_note" by code_simp
  have "host_order (eu_mach (demo_eu_store ELFCLASS64 EU_T_NHDR8 (?b @ ?b))) = ELFDATA2LSB"
    by (simp add: demo_eu_store_def initial_store_def initial_globals_def)
  then show ?thesis
    using note_walk_reads [OF demo_notes_ready [OF len, of EU_T_NHDR8], of "[demo_note, demo_note]"] ok
    by (simp add: note_align_def)
qed

lemma note_walk_terminates_witness:
  "\<exists>ps. note_walk (ListData (0, 0, 1) 0) 3 (demo_eu_store ELFCLASS64 EU_T_NHDR (replicate 100 1)) = Some ps"
  using note_walk_terminates [OF demo_notes_ready [of "replicate 100 1" EU_T_NHDR], of 3] by simp

end
