(* ===== verification/Eu_Xlate.thy ===== *)
theory Eu_Xlate
  imports Eu_Notes Elf_Xlate
begin

text \<open>
  The conversions between memory and file of elfutils (\<open>gelf_xlate.c\<close> and the headers it includes,
  \<open>abstract.h\<close>, \<open>version_xlate.h\<close>, \<open>gnuhash_xlate.h\<close>, \<open>note_xlate.h\<close>, \<open>chdr_xlate.h\<close>), the sizes of
  the types (\<open>gelf_fsize.c\<close>, \<open>elf32_fsize.c\<close>) and the functions that choose a conversion
  (\<open>elf32_xlatetom.c\<close>, \<open>elf32_xlatetof.c\<close>, \<open>gelf_xlatetom.c\<close>, \<open>gelf_xlatetof.c\<close>).

  A conversion works on bytes: a structure in memory has the size and the places of members that
  it has in the file, so one function serves both directions.
\<close>

section \<open>Moving members\<close>

text \<open>
  The members of a structure as a conversion moves them: the offset, the number of bytes, and
  whether their order is reversed.  They are moved one after the other, so later ones see what
  earlier ones have written when source and destination overlap.
\<close>

type_synonym moves = "(nat \<times> nat \<times> bool) list"

fun cvt_members :: "moves \<Rightarrow> ptr \<Rightarrow> ptr \<Rightarrow> store \<Rightarrow> store option" where
  "cvt_members [] dest src st = Some st"
| "cvt_members ((off, n, swapped) # ms) dest src st =
     do { bs \<leftarrow> read_bytes (ptr_off src off) n st;
          st \<leftarrow> write_bytes (ptr_off dest off) (if swapped then rev bs else bs) st;
          cvt_members ms dest src st }"

definition layout_moves :: "int \<Rightarrow> layout \<Rightarrow> moves" where
  "layout_moves ec def =
     map2 (\<lambda>off m. (off, basic_fsize ec (snd m), snd m \<noteq> IDENT \<and> snd m \<noteq> BYTE)) (member_offsets ec 0 def) def"

text \<open>Integers: from the low end when the destination is in front of the source, else from the high end.\<close>

fun cvt_up :: "nat \<Rightarrow> nat \<Rightarrow> nat \<Rightarrow> ptr \<Rightarrow> ptr \<Rightarrow> store \<Rightarrow> store option" where
  "cvt_up bytes 0 off dest src st = Some st"
| "cvt_up bytes (Suc n) off dest src st =
     do { st \<leftarrow> cvt_members [(off, bytes, True)] dest src st; cvt_up bytes n (off + bytes) dest src st }"

fun cvt_down :: "nat \<Rightarrow> nat \<Rightarrow> nat \<Rightarrow> ptr \<Rightarrow> ptr \<Rightarrow> store \<Rightarrow> store option" where
  "cvt_down bytes 0 off dest src st = Some st"
| "cvt_down bytes (Suc n) off dest src st =
     do { st \<leftarrow> cvt_members [(off - bytes, bytes, True)] dest src st; cvt_down bytes n (off - bytes) dest src st }"

definition cvt_fundamental :: "nat \<Rightarrow> ptr \<Rightarrow> ptr \<Rightarrow> nat \<Rightarrow> store \<Rightarrow> store option" where
  "cvt_fundamental bytes dest src len st =
     (if addr dest st < addr src st then cvt_up bytes (len div bytes) 0 dest src st
      else cvt_down bytes (len div bytes) len dest src st)"

text \<open>Structures, always from the low end.\<close>

fun cvt_structs :: "nat \<Rightarrow> moves \<Rightarrow> nat \<Rightarrow> nat \<Rightarrow> ptr \<Rightarrow> ptr \<Rightarrow> store \<Rightarrow> store option" where
  "cvt_structs sz ms 0 off dest src st = Some st"
| "cvt_structs sz ms (Suc n) off dest src st =
     do { st \<leftarrow> cvt_members ms (ptr_off dest off) (ptr_off src off) st;
          cvt_structs sz ms n (off + sz) dest src st }"

definition cvt_struct :: "nat \<Rightarrow> moves \<Rightarrow> ptr \<Rightarrow> ptr \<Rightarrow> nat \<Rightarrow> store \<Rightarrow> store option" where
  "cvt_struct sz ms dest src len st = cvt_structs sz ms (len div sz) 0 dest src st"

definition elf_cvt_Byte :: "ptr \<Rightarrow> ptr \<Rightarrow> nat \<Rightarrow> store \<Rightarrow> store option" where
  "elf_cvt_Byte dest src n st = memcpy dest src n st"

section \<open>The structures\<close>

definition Elf32_Chdr_DEF :: layout where
  "Elf32_Chdr_DEF = [(''ch_type'', WORD), (''ch_size'', WORD), (''ch_addralign'', WORD)]"

definition Elf64_Chdr_DEF :: layout where
  "Elf64_Chdr_DEF = [(''ch_type'', WORD), (''ch_reserved'', WORD), (''ch_size'', XWORD), (''ch_addralign'', XWORD)]"

text \<open>The types with a conversion that is made from their description.\<close>

definition eu_struct_layout :: "int \<Rightarrow> int \<Rightarrow> layout option" where
  "eu_struct_layout t ec =
     (if t = EU_T_EHDR then Some (if ec = ELFCLASS64 then Elf64_Ehdr_DEF else Elf32_Ehdr_DEF)
      else if t = EU_T_PHDR then Some (if ec = ELFCLASS64 then Elf64_Phdr_DEF else Elf32_Phdr_DEF)
      else if t = EU_T_SHDR then Some (if ec = ELFCLASS64 then Elf64_Shdr_DEF else Elf32_Shdr_DEF)
      else if t = EU_T_SYM then Some (if ec = ELFCLASS64 then Elf64_Sym_DEF else Elf32_Sym_DEF)
      else if t = EU_T_REL then Some (if ec = ELFCLASS64 then Elf64_Rel_DEF else Elf32_Rel_DEF)
      else if t = EU_T_RELA then Some (if ec = ELFCLASS64 then Elf64_Rela_DEF else Elf32_Rela_DEF)
      else if t = EU_T_DYN then Some (if ec = ELFCLASS64 then Elf64_Dyn_DEF else Elf32_Dyn_DEF)
      else if t = EU_T_SYMINFO then Some Elf32_Syminfo_DEF
      else if t = EU_T_LIB then Some Elf_Lib_DEF
      else if t = EU_T_AUXV then Some (if ec = ELFCLASS64 then Elf64_auxv_DEF else Elf32_auxv_DEF)
      else None)"

text \<open>The integer types: the number of bytes.\<close>

definition eu_fundamental :: "int \<Rightarrow> int \<Rightarrow> nat option" where
  "eu_fundamental t ec =
     (if t = EU_T_ADDR \<or> t = EU_T_OFF then Some (if ec = ELFCLASS64 then 8 else 4)
      else if t = EU_T_HALF then Some 2
      else if t = EU_T_WORD \<or> t = EU_T_SWORD then Some 4
      else if t = EU_T_XWORD \<or> t = EU_T_SXWORD then Some 8
      else None)"

text \<open>
  The description of \<open>Elf32_Move\<close> gives \<open>m_info\<close> and \<open>m_poffset\<close> eight bytes, in the structure they
  have four: the conversion swaps over the ends of the members.
\<close>

definition Elf32_Move_moves :: moves where
  "Elf32_Move_moves = [(0, 8, True), (8, 8, True), (12, 8, True), (16, 2, True), (18, 2, True)]"

definition Elf64_Move_moves :: moves where
  "Elf64_Move_moves = [(0, 8, True), (8, 8, True), (16, 8, True), (24, 2, True), (26, 2, True)]"

text \<open>\<open>__libelf_type_sizes\<close>: the sizes of the types in the file, which are taken for those in memory too.\<close>

definition eu_type_size :: "int \<Rightarrow> int \<Rightarrow> nat" where
  "eu_type_size ec t =
     (case eu_fundamental t ec of Some n \<Rightarrow> n
      | None \<Rightarrow>
          (case eu_struct_layout t ec of Some def \<Rightarrow> FSZ ec def
           | None \<Rightarrow>
               if t = EU_T_BYTE then 1
               else if t = EU_T_VDEF then FSZ ec Elf_Verdef_DEF
               else if t = EU_T_VDAUX then FSZ ec Elf_Verdaux_DEF
               else if t = EU_T_VNEED then FSZ ec Elf_Verneed_DEF
               else if t = EU_T_VNAUX then FSZ ec Elf_Vernaux_DEF
               else if t = EU_T_NHDR \<or> t = EU_T_NHDR8 then FSZ ec Elf_Nhdr_DEF
               else if t = EU_T_MOVE then 28
               else if t = EU_T_CHDR then FSZ ec (if ec = ELFCLASS64 then Elf64_Chdr_DEF else Elf32_Chdr_DEF)
               else 4))"

definition eu_elf_fsize :: "int \<Rightarrow> int \<Rightarrow> u64 \<Rightarrow> u32 \<Rightarrow> eu_store \<Rightarrow> u64 \<times> eu_store" where
  "eu_elf_fsize bits t count version es =
     (if version = EV_NONE \<or> version \<ge> 2 then (0, eu_seterrno EU_E_UNKNOWN_VERSION es)
      else if t \<ge> EU_T_NUM then (0, eu_seterrno EU_E_UNKNOWN_TYPE es)
      else (count * of_nat (eu_type_size bits t), es))"

text \<open>A descriptor without a class has no row in the table.\<close>

definition eu_gelf_fsize :: "nat option \<Rightarrow> int \<Rightarrow> u64 \<Rightarrow> u32 \<Rightarrow> eu_store \<Rightarrow> (u64 \<times> eu_store) option" where
  "eu_gelf_fsize er t count version es =
     (case er of None \<Rightarrow> Some (0, es)
      | Some e \<Rightarrow>
          if version = EV_NONE \<or> version \<ge> 2 then Some (0, eu_seterrno EU_E_UNKNOWN_VERSION es)
          else if t \<ge> EU_T_NUM then Some (0, eu_seterrno EU_E_UNKNOWN_TYPE es)
          else
            do { elf \<leftarrow> eu_elfs es e;
                 assert_that (ee_class elf = ELFCLASS32 \<or> ee_class elf = ELFCLASS64);
                 Some (count * of_nat (eu_type_size (ee_class elf) t), es) })"

section \<open>Chains of version records\<close>

text \<open>
  The loops that follow offsets found in the data need not end.  They run with a number of steps
  that they may take: \<open>Running\<close> is a run that has used them up, \<open>Fault\<close> an access outside the buffers.
\<close>

datatype 'a outcome = Returned 'a | Fault | Running

definition of_option :: "'a option \<Rightarrow> 'a outcome" where
  "of_option r = (case r of None \<Rightarrow> Fault | Some x \<Rightarrow> Returned x)"

definition and_then :: "'a outcome \<Rightarrow> ('a \<Rightarrow> 'b outcome) \<Rightarrow> 'b outcome" where
  "and_then r f = (case r of Returned x \<Rightarrow> f x | Fault \<Rightarrow> Fault | Running \<Rightarrow> Running)"

text \<open>A 32-bit member as the machine reads it.\<close>

definition word_at :: "ptr \<Rightarrow> nat \<Rightarrow> store \<Rightarrow> u32 option" where
  "word_at p off st = map_option (native_val (host_order st)) (read_bytes (ptr_off p off) 4 st)"

text \<open>
  \<open>elf_cvt_Verdef\<close> and \<open>elf_cvt_Verneed\<close> differ in the records: their sizes and members, and where
  a record keeps the distance to its first auxiliary record and to the next one.
\<close>

record version_records =
  vr_size :: nat
  vr_moves :: moves
  vr_aux :: nat
  vr_next :: nat
  va_size :: nat
  va_moves :: moves
  va_next :: nat

text \<open>The result tells whether the chain has ended; else an offset was out of range and the function returns.\<close>

fun cvt_aux_chain ::
  "nat \<Rightarrow> version_records \<Rightarrow> bool \<Rightarrow> ptr \<Rightarrow> ptr \<Rightarrow> u64 \<Rightarrow> u64 \<Rightarrow> store \<Rightarrow> (bool \<times> store) outcome"
where
  "cvt_aux_chain 0 v encode dest src len aux_offset st = Running"
| "cvt_aux_chain (Suc fuel) v encode dest src len aux_offset st =
     (if aux_offset > len \<or> len - aux_offset < of_nat (va_size v) then Returned (False, st)
      else
        and_then
          (of_option
            (do { let adest = ptr_off dest (unat aux_offset);
                  let asrc = ptr_off src (unat aux_offset);
                  before \<leftarrow> word_at asrc (va_next v) st;
                  st \<leftarrow> cvt_members (va_moves v) adest asrc st;
                  after \<leftarrow> word_at adest (va_next v) st;
                  go_on \<leftarrow> word_at asrc (va_next v) st;
                  Some (aux_offset + ucast (if encode then before else after), go_on, st) }))
          (\<lambda>(aux_offset, go_on, st).
             if go_on \<noteq> 0 then cvt_aux_chain fuel v encode dest src len aux_offset st
             else Returned (True, st)))"

fun cvt_version_chain ::
  "nat \<Rightarrow> version_records \<Rightarrow> bool \<Rightarrow> ptr \<Rightarrow> ptr \<Rightarrow> u64 \<Rightarrow> u64 \<Rightarrow> store \<Rightarrow> store outcome"
where
  "cvt_version_chain 0 v encode dest src len def_offset st = Running"
| "cvt_version_chain (Suc fuel) v encode dest src len def_offset st =
     (if def_offset > len \<or> len - def_offset < of_nat (vr_size v) then Returned st
      else
        (let ddest = ptr_off dest (unat def_offset);
             dsrc = ptr_off src (unat def_offset)
         in and_then
              (of_option
                (do { st \<leftarrow> (if encode then Some st else cvt_members (vr_moves v) ddest dsrc st);
                      aux \<leftarrow> word_at (if encode then dsrc else ddest) (vr_aux v) st;
                      Some (def_offset + ucast aux, st) }))
              (\<lambda>(aux_offset, st).
                 and_then (cvt_aux_chain fuel v encode dest src len aux_offset st)
                   (\<lambda>(ended, st).
                      if \<not> ended then Returned st
                      else
                        and_then
                          (of_option
                            (do { step \<leftarrow> word_at (if encode then dsrc else ddest) (vr_next v) st;
                                  st \<leftarrow> (if encode then cvt_members (vr_moves v) ddest dsrc st else Some st);
                                  go_on \<leftarrow> word_at dsrc (vr_next v) st;
                                  Some (def_offset + ucast step, go_on, st) }))
                          (\<lambda>(def_offset, go_on, st).
                             if go_on \<noteq> 0 then cvt_version_chain fuel v encode dest src len def_offset st
                             else Returned st)))))"

definition cvt_version :: "nat \<Rightarrow> version_records \<Rightarrow> ptr \<Rightarrow> ptr \<Rightarrow> u64 \<Rightarrow> bool \<Rightarrow> store \<Rightarrow> store outcome" where
  "cvt_version fuel v dest src len encode st =
     (if len = 0 then Returned st
      else and_then (of_option (memcpy dest src (unat len) st)) (cvt_version_chain fuel v encode dest src len 0))"

definition verdef_records :: version_records where
  "verdef_records =
     \<lparr>vr_size = 20, vr_moves = layout_moves ELFCLASS64 Elf_Verdef_DEF, vr_aux = 12, vr_next = 16,
      va_size = 8, va_moves = layout_moves ELFCLASS64 Elf_Verdaux_DEF, va_next = 4\<rparr>"

definition elf_cvt_Verdef :: "nat \<Rightarrow> ptr \<Rightarrow> ptr \<Rightarrow> u64 \<Rightarrow> bool \<Rightarrow> store \<Rightarrow> store outcome" where
  "elf_cvt_Verdef fuel = cvt_version fuel verdef_records"

definition verneed_records :: version_records where
  "verneed_records =
     \<lparr>vr_size = 16, vr_moves = layout_moves ELFCLASS64 Elf_Verneed_DEF, vr_aux = 8, vr_next = 12,
      va_size = 16, va_moves = layout_moves ELFCLASS64 Elf_Vernaux_DEF, va_next = 12\<rparr>"

definition elf_cvt_Verneed :: "nat \<Rightarrow> ptr \<Rightarrow> ptr \<Rightarrow> u64 \<Rightarrow> bool \<Rightarrow> store \<Rightarrow> store outcome" where
  "elf_cvt_Verneed fuel = cvt_version fuel verneed_records"

section \<open>Hash tables, notes and compressed sections\<close>

text \<open>A run of words from the position \<open>pos\<close> on; \<open>None\<close> when the data ended before the last of them.\<close>

fun gnu_words :: "nat \<Rightarrow> nat \<Rightarrow> nat \<Rightarrow> ptr \<Rightarrow> ptr \<Rightarrow> u64 \<Rightarrow> store \<Rightarrow> (u64 option \<times> store) option" where
  "gnu_words bytes 0 pos dest src len st = Some (Some len, st)"
| "gnu_words bytes (Suc n) pos dest src len st =
     (if len < of_nat bytes then Some (None, st)
      else do { st \<leftarrow> cvt_members [(pos, bytes, True)] dest src st;
                gnu_words bytes n (pos + bytes) dest src (len - of_nat bytes) st })"

definition elf_cvt_gnuhash :: "ptr \<Rightarrow> ptr \<Rightarrow> u64 \<Rightarrow> bool \<Rightarrow> store \<Rightarrow> store option" where
  "elf_cvt_gnuhash dest src len encode st =
     do { (rest, st) \<leftarrow> gnu_words 4 4 0 dest src len st;
          case rest of None \<Rightarrow> Some st
          | Some len \<Rightarrow>
              do { bitmask_words \<leftarrow> word_at (if encode then src else dest) 8 st;
                   (rest, st) \<leftarrow> gnu_words 8 (unat bitmask_words) 16 dest src len st;
                   case rest of None \<Rightarrow> Some st
                   | Some len \<Rightarrow>
                       do { (_, st) \<leftarrow> gnu_words 4 (unat len div 4) (16 + 8 * unat bitmask_words) dest src len st;
                            Some st } } }"

text \<open>\<open>memcpy\<close> may only be used for areas that do not overlap.\<close>

definition memcpy_apart :: "ptr \<Rightarrow> ptr \<Rightarrow> nat \<Rightarrow> store \<Rightarrow> store option" where
  "memcpy_apart dest src n st =
     do { (db, dof) \<leftarrow> dest;
          (sb, so) \<leftarrow> src;
          assert_that (db \<noteq> sb \<or> dof + n \<le> so \<or> so + n \<le> dof);
          memcpy dest src n st }"

definition note_pad :: "bool \<Rightarrow> u64 \<Rightarrow> u64" where
  "note_pad nhdr8 n = (if nhdr8 then NOTE_ALIGN8 n else NOTE_ALIGN4 n)"

text \<open>The data behind the header is copied unless source and destination are the same.\<close>

function cvt_notes :: "bool \<Rightarrow> ptr \<Rightarrow> ptr \<Rightarrow> nat \<Rightarrow> u64 \<Rightarrow> bool \<Rightarrow> store \<Rightarrow> store option" where
  "cvt_notes nhdr8 dest src pos len encode st =
     (let d = ptr_off dest pos; s = ptr_off src pos;
          rest = (\<lambda>st. if len > 0 \<and> s \<noteq> d then memcpy_apart d s (unat len) st else Some st)
      in if len < 12 then rest st
         else
           (case cvt_struct 12 (layout_moves ELFCLASS64 Elf_Nhdr_DEF) d s 12 st of None \<Rightarrow> None
            | Some st \<Rightarrow>
                (case (word_at (if encode then s else d) 0 st, word_at (if encode then s else d) 4 st) of
                   (Some namesz, Some descsz) \<Rightarrow>
                     (let note_len = note_pad nhdr8 (12 + ucast namesz)
                      in if note_len > len \<or> note_len < 12 then rest st
                         else
                           (let note_len = note_pad nhdr8 (note_len + ucast descsz)
                            in if note_len > len \<or> note_len < 12 then rest st
                               else
                                 (case (if s \<noteq> d then memcpy_apart (ptr_off d 12) (ptr_off s 12) (unat (note_len - 12)) st
                                        else Some st) of None \<Rightarrow> None
                                  | Some st \<Rightarrow> cvt_notes nhdr8 dest src (pos + unat note_len) (len - note_len) encode st)))
                 | _ \<Rightarrow> None)))"
  by pat_completeness auto

termination
  by (relation "measure (\<lambda>(nhdr8, dest, src, pos, len, encode, st). unat len)")
    (auto simp: word_less_nat_alt word_le_nat_alt unat_sub)

definition elf_cvt_note :: "bool \<Rightarrow> ptr \<Rightarrow> ptr \<Rightarrow> u64 \<Rightarrow> bool \<Rightarrow> store \<Rightarrow> store option" where
  "elf_cvt_note nhdr8 dest src len encode st = cvt_notes nhdr8 dest src 0 len encode st"

definition cvt_chdr :: "int \<Rightarrow> ptr \<Rightarrow> ptr \<Rightarrow> u64 \<Rightarrow> store \<Rightarrow> store option" where
  "cvt_chdr ec dest src len st =
     (let def = (if ec = ELFCLASS64 then Elf64_Chdr_DEF else Elf32_Chdr_DEF); sz = struct_size ec def
      in if len = 0 then Some st
         else
           do { st \<leftarrow> (if dest \<noteq> src then memcpy dest src (unat len) st else Some st);
                if unat len \<ge> sz then cvt_struct sz (layout_moves ec def) dest src sz st else Some st })"

section \<open>The table of conversions\<close>

definition elf_xfct :: "nat \<Rightarrow> int \<Rightarrow> int \<Rightarrow> ptr \<Rightarrow> ptr \<Rightarrow> u64 \<Rightarrow> bool \<Rightarrow> store \<Rightarrow> store outcome" where
  "elf_xfct fuel ec t dest src len encode st =
     (case eu_fundamental t ec of Some n \<Rightarrow> of_option (cvt_fundamental n dest src (unat len) st)
      | None \<Rightarrow>
          (case eu_struct_layout t ec of
             Some def \<Rightarrow> of_option (cvt_struct (struct_size ec def) (layout_moves ec def) dest src (unat len) st)
           | None \<Rightarrow>
               if t = EU_T_BYTE then of_option (elf_cvt_Byte dest src (unat len) st)
               else if t = EU_T_VDEF \<or> t = EU_T_VDAUX then elf_cvt_Verdef fuel dest src len encode st
               else if t = EU_T_VNEED \<or> t = EU_T_VNAUX then elf_cvt_Verneed fuel dest src len encode st
               else if t = EU_T_NHDR then of_option (elf_cvt_note False dest src len encode st)
               else if t = EU_T_NHDR8 then of_option (elf_cvt_note True dest src len encode st)
               else if t = EU_T_MOVE then
                 of_option (cvt_struct (if ec = ELFCLASS64 then 32 else 24)
                   (if ec = ELFCLASS64 then Elf64_Move_moves else Elf32_Move_moves) dest src (unat len) st)
               else if t = EU_T_CHDR then of_option (cvt_chdr ec dest src len st)
               else if ec = ELFCLASS64 then of_option (elf_cvt_gnuhash dest src len encode st)
               else of_option (cvt_fundamental 4 dest src (unat len) st)))"

text \<open>
  The result is the descriptor \<open>dest\<close> as the call leaves it.  The two functions differ in the
  first check, which only \<open>elf32_xlatetom\<close> leaves out for notes, and in the direction.
\<close>

definition eu_xlate ::
  "nat \<Rightarrow> int \<Rightarrow> bool \<Rightarrow> bool \<Rightarrow> Elf_Data \<Rightarrow> Elf_Data \<Rightarrow> u32 \<Rightarrow> eu_store \<Rightarrow> (Elf_Data option \<times> eu_store) outcome"
where
  "eu_xlate fuel bits whole encode dest src encoding es =
     (if \<not> (0 \<le> d_type src \<and> d_type src < EU_T_NUM) then Fault
      else if whole \<and> d_size src mod of_nat (eu_type_size bits (d_type src)) \<noteq> 0
      then Returned (None, eu_seterrno EU_E_INVALID_DATA es)
      else if d_size src > d_size dest then Returned (None, eu_seterrno EU_E_DEST_SIZE es)
      else if encoding \<noteq> ELFDATA2LSB \<and> encoding \<noteq> ELFDATA2MSB
      then Returned (None, eu_seterrno EU_E_INVALID_ENCODING es)
      else
        and_then
          (if encoding = host_order (eu_mach es) then
             (if d_buf src \<noteq> d_buf dest then of_option (memcpy (d_buf dest) (d_buf src) (unat (d_size src)) (eu_mach es))
              else Returned (eu_mach es))
           else elf_xfct fuel bits (d_type src) (d_buf dest) (d_buf src) (d_size src) encode (eu_mach es))
          (\<lambda>st. Returned (Some (dest\<lparr>d_type := d_type src, d_size := d_size src\<rparr>), es\<lparr>eu_mach := st\<rparr>)))"

definition eu_xlatetom ::
  "nat \<Rightarrow> int \<Rightarrow> Elf_Data \<Rightarrow> Elf_Data \<Rightarrow> u32 \<Rightarrow> eu_store \<Rightarrow> (Elf_Data option \<times> eu_store) outcome"
where
  "eu_xlatetom fuel bits dest src encoding es =
     eu_xlate fuel bits (d_type src \<noteq> EU_T_NHDR \<and> d_type src \<noteq> EU_T_NHDR8) False dest src encoding es"

definition eu_xlatetof ::
  "nat \<Rightarrow> int \<Rightarrow> Elf_Data \<Rightarrow> Elf_Data \<Rightarrow> u32 \<Rightarrow> eu_store \<Rightarrow> (Elf_Data option \<times> eu_store) outcome"
where
  "eu_xlatetof fuel bits dest src encoding es = eu_xlate fuel bits True True dest src encoding es"

definition eu_gelf_xlatetom ::
  "nat \<Rightarrow> nat option \<Rightarrow> Elf_Data \<Rightarrow> Elf_Data \<Rightarrow> u32 \<Rightarrow> eu_store \<Rightarrow> (Elf_Data option \<times> eu_store) outcome"
where
  "eu_gelf_xlatetom fuel er dest src encoding es =
     (case er of None \<Rightarrow> Returned (None, es)
      | Some e \<Rightarrow>
          (case eu_elfs es e of None \<Rightarrow> Fault
           | Some elf \<Rightarrow> eu_xlatetom fuel (if ee_class elf = ELFCLASS32 then ELFCLASS32 else ELFCLASS64) dest src encoding es))"

definition eu_gelf_xlatetof ::
  "nat \<Rightarrow> nat option \<Rightarrow> Elf_Data \<Rightarrow> Elf_Data \<Rightarrow> u32 \<Rightarrow> eu_store \<Rightarrow> (Elf_Data option \<times> eu_store) outcome"
where
  "eu_gelf_xlatetof fuel er dest src encoding es =
     (case er of None \<Rightarrow> Returned (None, es)
      | Some e \<Rightarrow>
          (case eu_elfs es e of None \<Rightarrow> Fault
           | Some elf \<Rightarrow> eu_xlatetof fuel (if ee_class elf = ELFCLASS32 then ELFCLASS32 else ELFCLASS64) dest src encoding es))"

end
