(* ===== verification/Eu_Sections.thy ===== *)
theory Eu_Sections
  imports Eu_State Elf_Sections
begin

text \<open>
  The sections of a descriptor of elfutils: a list of blocks, each an array that never moves, so
  that pointers to sections stay valid.  The operations that create, find and number sections
  (\<open>elf_newscn.c\<close>, \<open>elf_getscn.c\<close>, \<open>elf_nextscn.c\<close>, \<open>elf_ndxscn.c\<close>), the well-formedness of
  the list, and the contract of a numbered list of sections that both libraries keep.
\<close>

section \<open>The code\<close>

definition eu_elf_ndxscn :: "eu_scn_ref option \<Rightarrow> eu_store \<Rightarrow> u64 option" where
  "eu_elf_ndxscn sr es =
     (case sr of None \<Rightarrow> Some 0 | Some s \<Rightarrow> map_option sc_index (eu_scn s es))"

text \<open>
  A place for a section: the next one of the last block, or the first one of a new block that
  has twice the size.  The second result tells whether it is the zeroth section.
\<close>

definition eu_new_slot :: "nat \<Rightarrow> eu_store \<Rightarrow> (((nat \<times> nat) option \<times> bool) \<times> eu_store) option" where
  "eu_new_slot e es =
     do { elf \<leftarrow> eu_elfs es e;
          l \<leftarrow> ee_scns_last elf;
          assert_that (l < length (ee_scns elf));
          let blk = ee_scns elf ! l;
          if sl_cnt blk < sl_max blk then
            do { let i = unat (sl_cnt blk);
                 let cnt = sl_cnt blk + 1;
                 assert_that (i < length (sl_data blk));
                 if cnt = 1 \<and> l = 0 then
                   Some ((Some (l, i), True),
                     eu_put_elf e (elf\<lparr>ee_scns := (ee_scns elf)[l := blk\<lparr>sl_cnt := cnt\<rparr>]\<rparr>) es)
                 else
                   do { assert_that (cnt > 1);
                        let scn = (sl_data blk ! i)\<lparr>sc_index := sc_index (sl_data blk ! (i - 1)) + 1\<rparr>;
                        Some ((Some (l, i), False),
                          eu_put_elf e (elf\<lparr>ee_scns := (ee_scns elf)
                            [l := blk\<lparr>sl_cnt := cnt, sl_data := (sl_data blk)[i := scn]\<rparr>]\<rparr>) es) } }
          else
            do { assert_that (ee_scnincr elf > 0);
                 let incr = ee_scnincr elf * 2;
                 let elf = elf\<lparr>ee_scnincr := incr\<rparr>;
                 let (ok, es) = eu_alloc (eu_put_elf e elf es);
                 if \<not> ok then Some ((None, False), eu_seterrno EU_E_NOMEM es)
                 else
                   do { assert_that (incr > 0);
                        let j = unat (sl_max blk - 1);
                        assert_that (j < length (sl_data blk));
                        let scn = zero_scn\<lparr>sc_index := 1 + sc_index (sl_data blk ! j)\<rparr>;
                        let newp = \<lparr>sl_cnt = 1, sl_max = incr, sl_data = (replicate (unat incr) zero_scn)[0 := scn]\<rparr>;
                        Some ((Some (l + 1, 0), False),
                          eu_put_elf e (elf\<lparr>ee_scns := take (l + 1) (ee_scns elf) @ [newp],
                            ee_scns_last := Some (l + 1)\<rparr>) es) } } }"

text \<open>The section header of a new section, and the fields that lead back from the section.\<close>

definition eu_init_scn :: "nat \<Rightarrow> Eu_Elf \<Rightarrow> Eu_Scn \<Rightarrow> Eu_Scn" where
  "eu_init_scn e elf scn =
     scn\<lparr>sc_shdr := Some (zero_shdr (ee_class elf)), sc_elf := Some e,
       sc_shdr_flags := EU_F_DIRTY OR EU_F_MALLOCED, sc_list := ee_scns_last elf, sc_data_read := True\<rparr>"

text \<open>
  When the header cannot be allocated, the code leaves with \<open>result\<close> pointing to the new section,
  which is counted but has no header and does not lead back to the descriptor.
\<close>

partial_function (option) eu_newscn_from ::
  "nat \<Rightarrow> eu_store \<Rightarrow> (eu_scn_ref option \<times> eu_store) option"
where
  "eu_newscn_from e es =
     Option.bind (eu_new_slot e es) (\<lambda>((r, first), es).
       case r of None \<Rightarrow> Some (None, es)
       | Some (k, i) \<Rightarrow>
           do { elf \<leftarrow> eu_elfs es e;
                scn \<leftarrow> eu_scn (e, k, i) es;
                (if \<not> fst (eu_alloc es)
                 then Some (Some (e, k, i), eu_seterrno EU_E_NOMEM (eu_put_scn (e, k, i) (scn\<lparr>sc_shdr := None\<rparr>) (snd (eu_alloc es))))
                 else if first then eu_newscn_from e (eu_put_scn (e, k, i) (eu_init_scn e elf scn) (snd (eu_alloc es)))
                 else
                   Some (Some (e, k, i),
                     eu_put_scn (e, k, i)
                       ((eu_init_scn e elf scn)\<lparr>sc_flags := sc_flags scn OR EU_F_DIRTY\<rparr>) (snd (eu_alloc es)))) })"

definition eu_elf_newscn :: "nat option \<Rightarrow> eu_store \<Rightarrow> (eu_scn_ref option \<times> eu_store) option" where
  "eu_elf_newscn er es = (case er of None \<Rightarrow> Some (None, es) | Some e \<Rightarrow> eu_newscn_from e es)"

fun eu_find_scn :: "u64 \<Rightarrow> nat \<Rightarrow> Eu_ScnList list \<Rightarrow> (nat \<times> nat) option" where
  "eu_find_scn idx k [] = None"
| "eu_find_scn idx k (b # bs) =
     (if idx < ucast (sl_max b) then
        (if idx < ucast (sl_cnt b) then Some (k, unat idx) else None)
      else eu_find_scn (idx - ucast (sl_max b)) (k + 1) bs)"

definition eu_lookup_scn :: "nat \<Rightarrow> u64 \<Rightarrow> eu_store \<Rightarrow> (eu_scn_ref option \<times> eu_store) option" where
  "eu_lookup_scn e idx es =
     do { elf \<leftarrow> eu_elfs es e;
          case eu_find_scn idx 0 (ee_scns elf) of
            Some (k, i) \<Rightarrow> Some (Some (e, k, i), es)
          | None \<Rightarrow> Some (None, eu_seterrno EU_E_INVALID_INDEX es) }"

text \<open>Section 0 is made when it is asked for.\<close>

definition eu_elf_getscn :: "nat option \<Rightarrow> u64 \<Rightarrow> eu_store \<Rightarrow> (eu_scn_ref option \<times> eu_store) option" where
  "eu_elf_getscn er idx es =
     (case er of None \<Rightarrow> Some (None, es)
      | Some e \<Rightarrow>
          do { elf \<leftarrow> eu_elfs es e;
               if ee_kind elf \<noteq> ELF_K_ELF then Some (None, eu_seterrno EU_E_INVALID_HANDLE es)
               else
                 do { assert_that (ee_scns elf \<noteq> []);
                      let runp = hd (ee_scns elf);
                      if idx = 0 \<and> sl_cnt runp = 0 \<and> sl_max runp > 0 then
                        do { scn0 \<leftarrow> eu_scn (e, 0, 0) es;
                             let (ok, es) = eu_alloc es;
                             if \<not> ok
                             then Some (None, eu_seterrno EU_E_NOMEM (eu_put_scn (e, 0, 0) (scn0\<lparr>sc_shdr := None\<rparr>) es))
                             else
                               do { let es = eu_put_scn (e, 0, 0) (eu_init_scn e elf scn0) es;
                                    elf \<leftarrow> eu_elfs es e;
                                    let es = eu_put_elf e (elf\<lparr>ee_scns := (ee_scns elf)[0 := (ee_scns elf ! 0)\<lparr>sl_cnt := 1\<rparr>]\<rparr>) es;
                                    eu_lookup_scn e idx es } }
                      else eu_lookup_scn e idx es } })"

text \<open>
  The pointers that the code compares are pointers into the array of one block, so the section
  must lie in the block it names.
\<close>

definition eu_elf_nextscn :: "nat option \<Rightarrow> eu_scn_ref option \<Rightarrow> eu_store \<Rightarrow> (eu_scn_ref option \<times> eu_store) option" where
  "eu_elf_nextscn er sr es =
     (case er of None \<Rightarrow> Some (None, es)
      | Some e \<Rightarrow>
          do { (e, k, i) \<leftarrow> (case sr of None \<Rightarrow> Some (e, 0, 0)
                | Some (e', k, i) \<Rightarrow> do { scn \<leftarrow> eu_scn (e', k, i) es; assert_that (sc_list scn = Some k); Some (e', k, i) });
               elf \<leftarrow> eu_elfs es e;
               assert_that (k < length (ee_scns elf));
               let blk = ee_scns elf ! k;
               if i + 1 < unat (sl_cnt blk) then Some (Some (e, k, i + 1), es)
               else if i + 1 = unat (sl_max blk) \<and> k + 1 < length (ee_scns elf) then
                 do { assert_that (sl_cnt (ee_scns elf ! (k + 1)) > 0); Some (Some (e, k + 1, 0), es) }
               else Some (None, es) })"

section \<open>Well-formed lists\<close>

text \<open>The sections in use, in order: as pointers and as they are.\<close>

fun refs_from :: "nat \<Rightarrow> nat \<Rightarrow> Eu_ScnList list \<Rightarrow> eu_scn_ref list" where
  "refs_from e k [] = []"
| "refs_from e k (b # bs) = map (\<lambda>i. (e, k, i)) [0..<unat (sl_cnt b)] @ refs_from e (Suc k) bs"

definition eu_sections :: "nat \<Rightarrow> Eu_Elf \<Rightarrow> eu_scn_ref list" where
  "eu_sections e elf = refs_from e 0 (ee_scns elf)"

definition used_scns :: "Eu_ScnList list \<Rightarrow> Eu_Scn list" where
  "used_scns bs = concat (map (\<lambda>b. take (unat (sl_cnt b)) (sl_data b)) bs)"

definition block_wf :: "Eu_ScnList \<Rightarrow> bool" where
  "block_wf b \<longleftrightarrow> 0 < sl_max b \<and> length (sl_data b) = unat (sl_max b) \<and> sl_cnt b \<le> sl_max b"

text \<open>
  Every block but the last is full, every block but the first has a section, and the sections in
  use are numbered from 0 on.
\<close>

definition scns_wf :: "Eu_Elf \<Rightarrow> bool" where
  "scns_wf elf \<longleftrightarrow>
     ee_scns elf \<noteq> [] \<and> ee_scns_last elf = Some (length (ee_scns elf) - 1) \<and> 0 < ee_scnincr elf
     \<and> (\<forall>b \<in> set (ee_scns elf). block_wf b)
     \<and> (\<forall>b \<in> set (butlast (ee_scns elf)). sl_cnt b = sl_max b)
     \<and> (\<forall>b \<in> set (tl (ee_scns elf)). 0 < sl_cnt b)
     \<and> map sc_index (used_scns (ee_scns elf)) = map of_nat [0..<length (used_scns (ee_scns elf))]
     \<and> sc_index (sl_data (hd (ee_scns elf)) ! 0) = 0"

lemma used_scns_simps [simp]:
  "used_scns [] = []" "used_scns (b # bs) = take (unat (sl_cnt b)) (sl_data b) @ used_scns bs"
  "used_scns (xs @ ys) = used_scns xs @ used_scns ys"
  by (simp_all add: used_scns_def)

lemma refs_from_append [simp]: "refs_from e k (xs @ ys) = refs_from e k xs @ refs_from e (k + length xs) ys"
  by (induction xs arbitrary: k) simp_all

lemma block_wfD:
  assumes "block_wf b"
  shows "0 < sl_max b" "0 < unat (sl_max b)" "length (sl_data b) = unat (sl_max b)" "unat (sl_cnt b) \<le> unat (sl_max b)"
    "length (take (unat (sl_cnt b)) (sl_data b)) = unat (sl_cnt b)"
  using assms by (auto simp: block_wf_def word_le_nat_alt word_less_nat_alt)

lemma length_refs_from: "\<forall>b \<in> set bs. block_wf b \<Longrightarrow> length (refs_from e k bs) = length (used_scns bs)"
  by (induction bs arbitrary: k) (simp_all add: block_wfD)

lemma scns_wf_snoc:
  "ee_scns elf = bs @ [b] \<Longrightarrow> scns_wf elf \<longleftrightarrow>
     ee_scns_last elf = Some (length bs) \<and> 0 < ee_scnincr elf
     \<and> (\<forall>c \<in> set bs. block_wf c \<and> sl_cnt c = sl_max c) \<and> block_wf b \<and> (bs \<noteq> [] \<longrightarrow> 0 < sl_cnt b)
     \<and> map sc_index (used_scns (bs @ [b])) = map of_nat [0..<length (used_scns (bs @ [b]))]
     \<and> sc_index (sl_data (hd (bs @ [b])) ! 0) = 0"
proof -
  assume e: "ee_scns elf = bs @ [b]"
  have tl: "(\<forall>c \<in> set (tl (bs @ [b])). 0 < sl_cnt c) \<longleftrightarrow> (bs \<noteq> [] \<longrightarrow> 0 < sl_cnt b)"
    if "\<forall>c \<in> set bs. block_wf c \<and> sl_cnt c = sl_max c"
    using that by (cases bs) (auto dest: block_wfD(1))
  show ?thesis unfolding scns_wf_def e using tl by auto
qed

lemma scns_wfE:
  assumes "scns_wf elf"
  obtains bs b where "ee_scns elf = bs @ [b]" "ee_scns_last elf = Some (length bs)" "0 < ee_scnincr elf"
    "\<forall>c \<in> set bs. block_wf c \<and> sl_cnt c = sl_max c" "block_wf b" "bs \<noteq> [] \<longrightarrow> 0 < sl_cnt b"
    "map sc_index (used_scns (bs @ [b])) = map of_nat [0..<length (used_scns (bs @ [b]))]"
    "sc_index (sl_data (hd (bs @ [b])) ! 0) = 0"
proof -
  have "ee_scns elf = butlast (ee_scns elf) @ [last (ee_scns elf)]" using assms by (simp add: scns_wf_def)
  then show thesis using that scns_wf_snoc [of elf] assms by blast
qed

lemma scns_wf_blocks: "scns_wf elf \<Longrightarrow> b \<in> set (ee_scns elf) \<Longrightarrow> block_wf b"
  by (simp add: scns_wf_def)

text \<open>The pointers of a list and what is found there.\<close>

lemma refs_from_scns:
  assumes "eu_elfs es e = Some elf" "ee_scns elf = pre @ bs" "\<forall>b \<in> set bs. block_wf b"
  shows "map (\<lambda>s. eu_scn s es) (refs_from e (length pre) bs) = map Some (used_scns bs)"
  using assms(2,3)
proof (induction bs arbitrary: pre)
  case (Cons b bs)
  have w: "block_wf b" using Cons.prems(2) by simp
  have "map (\<lambda>s. eu_scn s es) (map (\<lambda>i. (e, length pre, i)) [0..<unat (sl_cnt b)])
      = map Some (take (unat (sl_cnt b)) (sl_data b))"
    using block_wfD(3-5) [OF w] assms(1) Cons.prems(1)
    by (intro nth_equalityI) (auto simp: eu_scn_def block_scn_def nth_append)
  then show ?case using Cons.IH [of "pre @ [b]"] Cons.prems by simp
qed simp

lemma eu_sections_scns:
  assumes "eu_elfs es e = Some elf" "scns_wf elf"
  shows "map (\<lambda>s. eu_scn s es) (eu_sections e elf) = map Some (used_scns (ee_scns elf))"
  using refs_from_scns [OF assms(1), of "[]" "ee_scns elf"] scns_wf_blocks [OF assms(2)] by (simp add: eu_sections_def)

lemma length_eu_sections: "scns_wf elf \<Longrightarrow> length (eu_sections e elf) = length (used_scns (ee_scns elf))"
  unfolding eu_sections_def using scns_wf_blocks by (intro length_refs_from) blast

lemma eu_section_nth:
  assumes "eu_elfs es e = Some elf" "scns_wf elf" "j < length (eu_sections e elf)"
  shows "eu_scn (eu_sections e elf ! j) es = Some (used_scns (ee_scns elf) ! j)"
    "sc_index (used_scns (ee_scns elf) ! j) = of_nat j"
proof -
  have l: "j < length (used_scns (ee_scns elf))" using assms(2,3) length_eu_sections by simp
  show "eu_scn (eu_sections e elf ! j) es = Some (used_scns (ee_scns elf) ! j)"
    using arg_cong [OF eu_sections_scns [OF assms(1,2)], of "\<lambda>xs. xs ! j"] assms(3) l by simp
  have "map sc_index (used_scns (ee_scns elf)) = map of_nat [0..<length (used_scns (ee_scns elf))]"
    using assms(2) by (simp add: scns_wf_def)
  from arg_cong [OF this, of "\<lambda>xs. xs ! j"] show "sc_index (used_scns (ee_scns elf) ! j) = of_nat j"
    using l by simp
qed

lemma refs_from_blocks: "(e', k', i) \<in> set (refs_from e k bs) \<longleftrightarrow>
    e' = e \<and> k \<le> k' \<and> k' < k + length bs \<and> i < unat (sl_cnt (bs ! (k' - k)))"
proof (induction bs arbitrary: k)
  case (Cons b bs)
  then show ?case by (cases "k' = k") (auto simp: nth_Cons' less_eq_Suc_le)
qed simp

lemma eu_sectionsE:
  assumes "s \<in> set (eu_sections e elf)"
  obtains k i where "s = (e, k, i)" "k < length (ee_scns elf)" "i < unat (sl_cnt (ee_scns elf ! k))"
proof -
  obtain e' k i where s: "s = (e', k, i)" by (cases s)
  then show thesis using assms that by (simp add: eu_sections_def refs_from_blocks)
qed

section \<open>Finding sections\<close>

lemma eu_find_scn_nth:
  assumes "\<forall>c \<in> set bs. block_wf c \<and> sl_cnt c = sl_max c" "block_wf b"
  shows "map_option (Pair e) (eu_find_scn idx k (bs @ [b]))
    = (if unat idx < length (refs_from e k (bs @ [b])) then Some (refs_from e k (bs @ [b]) ! unat idx) else None)"
  using assms(1)
proof (induction bs arbitrary: idx k)
  case Nil
  then show ?case using block_wfD(4) [OF assms(2)]
    by (auto simp: word_less_nat_alt unat_ucast_u32_u64)
next
  case (Cons c bs)
  have c: "sl_cnt c = sl_max c" "0 < unat (sl_max c)" using Cons.prems block_wfD(2) by auto
  show ?case
  proof (cases "unat idx < unat (sl_max c)")
    case True
    then show ?thesis using c by (simp add: word_less_nat_alt unat_ucast_u32_u64 nth_append)
  next
    case False
    then have "unat (idx - ucast (sl_max c)) = unat idx - unat (sl_max c)"
      by (simp add: unat_sub_if_size unat_ucast_u32_u64)
    then show ?thesis using False c Cons.IH [of "idx - ucast (sl_max c)" "Suc k"] Cons.prems
      by (auto simp add: word_less_nat_alt unat_ucast_u32_u64 nth_append)
  qed
qed

lemma eu_lookup_scn_nth:
  assumes "eu_elfs es e = Some elf" "scns_wf elf"
  shows "eu_lookup_scn e idx es
    = Some (if unat idx < length (eu_sections e elf) then (Some (eu_sections e elf ! unat idx), es)
        else (None, eu_seterrno EU_E_INVALID_INDEX es))"
proof -
  obtain bs b where b: "ee_scns elf = bs @ [b]" "\<forall>c \<in> set bs. block_wf c \<and> sl_cnt c = sl_max c" "block_wf b"
    using scns_wfE [OF assms(2)] by metis
  from eu_find_scn_nth [OF b(2,3), of e idx 0] show ?thesis
    by (cases "eu_find_scn idx 0 (bs @ [b])")
      (auto simp: eu_lookup_scn_def assms(1) b(1) eu_sections_def split: if_splits)
qed

text \<open>The successor of a section in the list.\<close>

lemma refs_from_next:
  assumes "j < length (refs_from e k bs)" "refs_from e k bs ! j = (e', k', i)" "\<forall>b \<in> set (tl bs). 0 < sl_cnt b"
  shows "if i + 1 < unat (sl_cnt (bs ! (k' - k))) then Suc j < length (refs_from e k bs) \<and> refs_from e k bs ! Suc j = (e, k', i + 1)
    else if k' + 1 < k + length bs then Suc j < length (refs_from e k bs) \<and> refs_from e k bs ! Suc j = (e, k' + 1, 0)
    else Suc j = length (refs_from e k bs)"
  using assms
proof (induction bs arbitrary: j k)
  case (Cons b bs)
  let ?n = "unat (sl_cnt b)"
  show ?case
  proof (cases "j < ?n")
    case True
    then have i: "k' = k" "i = j" using Cons.prems(2) by (auto simp: nth_append)
    have nx: "0 < length (refs_from e (Suc k) bs) \<and> refs_from e (Suc k) bs ! 0 = (e, Suc k, 0)" if "bs \<noteq> []"
      using that Cons.prems(3) by (cases bs) (auto simp: word_less_nat_alt nth_append)
    show ?thesis
    proof (cases "bs = []")
      case False
      then have "0 < length (refs_from e (Suc k) bs)" using nx by blast
      then show ?thesis using i True nx [OF False] False by (cases "Suc j = ?n") (auto simp: nth_append)
    qed (use i True in \<open>auto simp: nth_append\<close>)
  next
    case False
    then have j: "j - ?n < length (refs_from e (Suc k) bs)" "refs_from e (Suc k) bs ! (j - ?n) = (e', k', i)"
      using Cons.prems(1,2) by (auto simp: nth_append)
    then have "Suc k \<le> k'" by (metis nth_mem refs_from_blocks)
    then have "(b # bs) ! (k' - k) = bs ! (k' - Suc k)" by (simp add: nth_Cons')
    moreover have "\<forall>b \<in> set (tl bs). 0 < sl_cnt b" using Cons.prems(3) by (cases bs) auto
    note Cons.IH [OF j this]
    ultimately show ?thesis using False Cons.prems(1)
      by (auto simp: nth_append Suc_diff_le split: if_splits)
  qed
qed simp

section \<open>Making sections\<close>

text \<open>Well-formedness looks at the counts and the numbers only.\<close>

definition block_shape :: "Eu_ScnList \<Rightarrow> u32 \<times> u32 \<times> u64 list" where
  "block_shape b = (sl_cnt b, sl_max b, map sc_index (sl_data b))"

definition shapes_wf :: "(u32 \<times> u32 \<times> u64 list) list \<Rightarrow> bool" where
  "shapes_wf sh \<longleftrightarrow>
     (let numbers = concat (map (\<lambda>(c, m, xs). take (unat c) xs) sh) in
        sh \<noteq> [] \<and> (\<forall>(c, m, xs) \<in> set sh. 0 < m \<and> length xs = unat m \<and> c \<le> m)
        \<and> (\<forall>(c, m, xs) \<in> set (butlast sh). c = m) \<and> (\<forall>(c, m, xs) \<in> set (tl sh). 0 < c)
        \<and> numbers = map of_nat [0..<length numbers] \<and> snd (snd (hd sh)) ! 0 = 0)"

lemma used_scns_shape:
  "concat (map (\<lambda>(c, m, xs). take (unat c) xs) (map block_shape bs)) = map sc_index (used_scns bs)"
  by (simp add: used_scns_def map_concat comp_def block_shape_def take_map)

lemma scns_wf_shapes: "scns_wf elf \<longleftrightarrow>
    ee_scns_last elf = Some (length (ee_scns elf) - 1) \<and> 0 < ee_scnincr elf \<and> shapes_wf (map block_shape (ee_scns elf))"
proof -
  have 1: "(\<forall>b \<in> set (ee_scns elf). block_wf b) \<longleftrightarrow>
      (\<forall>(c, m, xs) \<in> set (map block_shape (ee_scns elf)). 0 < m \<and> length xs = unat m \<and> c \<le> m)"
    by (simp add: block_wf_def block_shape_def)
  have 2: "(\<forall>b \<in> set (butlast (ee_scns elf)). sl_cnt b = sl_max b) \<longleftrightarrow>
      (\<forall>(c, m, xs) \<in> set (butlast (map block_shape (ee_scns elf))). c = m)"
    by (simp add: map_butlast [symmetric] block_shape_def)
  have 3: "(\<forall>b \<in> set (tl (ee_scns elf)). 0 < sl_cnt b) \<longleftrightarrow>
      (\<forall>(c, m, xs) \<in> set (tl (map block_shape (ee_scns elf))). 0 < c)"
    by (simp add: map_tl [symmetric] block_shape_def)
  have 4: "snd (snd (hd (map block_shape (ee_scns elf)))) ! 0 = sc_index (sl_data (hd (ee_scns elf)) ! 0)"
    if "ee_scns elf \<noteq> []" "\<forall>b \<in> set (ee_scns elf). block_wf b"
  proof -
    have "0 < length (sl_data (hd (ee_scns elf)))" using that by (metis block_wfD(2,3) hd_in_set)
    then show ?thesis using that by (simp add: hd_map block_shape_def)
  qed
  show ?thesis
  proof (cases "ee_scns elf \<noteq> [] \<and> (\<forall>b \<in> set (ee_scns elf). block_wf b)")
    case True
    show ?thesis
      unfolding scns_wf_def shapes_wf_def Let_def used_scns_shape 4 [OF conjunct1 [OF True] conjunct2 [OF True]]
        1 2 3 map_is_Nil_conv length_map by blast
  next
    case False
    then show ?thesis unfolding scns_wf_def shapes_wf_def Let_def 1 map_is_Nil_conv by blast
  qed
qed

lemma refs_from_shape: "map block_shape bs' = map block_shape bs \<Longrightarrow> refs_from e k bs' = refs_from e k bs"
proof (induction bs arbitrary: k bs')
  case (Cons b bs)
  then obtain b' cs where "bs' = b' # cs" "block_shape b' = block_shape b" "map block_shape cs = map block_shape bs" by auto
  moreover from this have "sl_cnt b' = sl_cnt b" by (simp add: block_shape_def)
  ultimately show ?case using Cons.IH [of cs "Suc k"] by simp
qed simp

lemma scns_wf_cong:
  assumes "map block_shape (ee_scns elf') = map block_shape (ee_scns elf)"
    and "ee_scns_last elf' = ee_scns_last elf" "ee_scnincr elf' = ee_scnincr elf"
  shows "scns_wf elf' = scns_wf elf" "eu_sections e elf' = eu_sections e elf"
  using assms refs_from_shape [OF assms(1), of e 0] map_eq_imp_length_eq [OF assms(1)]
  by (simp_all add: scns_wf_shapes eu_sections_def)

lemma block_shape_update:
  "k < length bs \<Longrightarrow> block_shape c = block_shape (bs ! k) \<Longrightarrow> map block_shape (bs[k := c]) = map block_shape bs"
  by (simp add: map_update list_update_same_conv)

lemma put_scn_wf:
  assumes "eu_elfs es e = Some elf" "scns_wf elf" "eu_scn (e, k, i) es = Some x" "sc_index y = sc_index x"
  shows "eu_elfs (eu_put_scn (e, k, i) y es) = (eu_elfs es)(e \<mapsto> set_block_scn k i y elf)"
    "scns_wf (set_block_scn k i y elf)" "eu_sections e (set_block_scn k i y elf) = eu_sections e elf"
proof -
  have b: "k < length (ee_scns elf)" "i < length (sl_data (ee_scns elf ! k))" "x = sl_data (ee_scns elf ! k) ! i"
    using assms(1,3) by (auto simp: eu_scn_def block_scn_def split: if_splits)
  have "map sc_index ((sl_data (ee_scns elf ! k))[i := y]) = map sc_index (sl_data (ee_scns elf ! k))"
    using b(2,3) assms(4) by (intro nth_equalityI) (simp_all add: nth_list_update)
  then have "block_shape ((ee_scns elf ! k)\<lparr>sl_data := (sl_data (ee_scns elf ! k))[i := y]\<rparr>) = block_shape (ee_scns elf ! k)"
    by (simp add: block_shape_def)
  from block_shape_update [OF b(1) this] have "map block_shape (ee_scns (set_block_scn k i y elf)) = map block_shape (ee_scns elf)"
    by (simp add: set_block_scn_def)
  then show "scns_wf (set_block_scn k i y elf)" "eu_sections e (set_block_scn k i y elf) = eu_sections e elf"
    using scns_wf_cong [of "set_block_scn k i y elf" elf] assms(2) by simp_all
  show "eu_elfs (eu_put_scn (e, k, i) y es) = (eu_elfs es)(e \<mapsto> set_block_scn k i y elf)"
    by (simp add: eu_put_scn_def assms(1))
qed

text \<open>The two ways to get a place for a section.\<close>

lemma new_slot_in_block:
  assumes "eu_elfs es e = Some elf" "scns_wf elf" "ee_scns elf = bs @ [b]" "sl_cnt b < sl_max b"
  shows "\<exists>elf'. eu_new_slot e es = Some ((Some (length bs, unat (sl_cnt b)), eu_sections e elf = []), eu_put_elf e elf' es)
    \<and> (\<exists>xs. elf' = elf\<lparr>ee_scns := xs\<rparr> \<and> sl_max (last xs) = sl_max b) \<and> scns_wf elf'
    \<and> eu_sections e elf' = eu_sections e elf @ [(e, length bs, unat (sl_cnt b))]
    \<and> (\<forall>s \<in> set (eu_sections e elf). eu_scn s (eu_put_elf e elf' es) = eu_scn s es)"
proof -
  have w: "ee_scns_last elf = Some (length bs)" "0 < ee_scnincr elf"
    "\<forall>c \<in> set bs. block_wf c \<and> sl_cnt c = sl_max c" "block_wf b" "bs \<noteq> [] \<longrightarrow> 0 < sl_cnt b"
    "map sc_index (used_scns (bs @ [b])) = map of_nat [0..<length (used_scns (bs @ [b]))]"
    "sc_index (sl_data (hd (bs @ [b])) ! 0) = 0"
    using assms(2) scns_wf_snoc [OF assms(3)] by auto
  let ?n = "unat (sl_cnt b)" and ?L = "length (used_scns (bs @ [b]))"
  let ?d = "sl_data b"
  have n: "?n < length ?d" "?n < unat (sl_max b)" using assms(4) block_wfD(3) [OF w(4)] by (auto simp: word_less_nat_alt)
  have n1: "unat (sl_cnt b + 1) = ?n + 1"
    using n(2) unat_u32_less [of "sl_max b"] by (simp add: unat_plus_if_size word_size)
  have first: "(sl_cnt b + 1 = 1 \<and> length bs = 0) = (eu_sections e elf = [])"
  proof -
    have "length (eu_sections e elf) = ?L" using length_eu_sections [OF assms(2)] assms(3) by simp
    then have "eu_sections e elf = [] \<longleftrightarrow> ?L = 0" by auto
    also have "\<dots> \<longleftrightarrow> bs = [] \<and> sl_cnt b = 0"
      using w(3,5) n(1) by (cases bs) (auto simp: word_less_nat_alt unat_eq_0 dest!: block_wfD(2,3))
    finally show ?thesis by auto
  qed
  define scn where "scn = (?d ! ?n)\<lparr>sc_index := of_nat ?L\<rparr>"
  define b' where "b' = b\<lparr>sl_cnt := sl_cnt b + 1, sl_data := ?d[?n := scn]\<rparr>"
  define elf' where "elf' = elf\<lparr>ee_scns := bs @ [b']\<rparr>"
  have idx: "sc_index (?d ! (?n - 1)) + 1 = of_nat ?L" if "0 < ?n"
  proof -
    have L: "?L = length (used_scns bs) + ?n" using block_wfD(5) [OF w(4)] by simp
    have lt: "?L - 1 < ?L" using that L by simp
    have "used_scns (bs @ [b]) ! (?L - 1) = ?d ! (?n - 1)" using that n(1) L by (simp add: nth_append)
    moreover have "sc_index (used_scns (bs @ [b]) ! (?L - 1)) = of_nat (?L - 1)"
      using arg_cong [OF w(6), of "\<lambda>xs. xs ! (?L - 1)"] lt
      by (simp only: nth_map length_upt nth_upt diff_zero add_0)
    ultimately have "sc_index (?d ! (?n - 1)) = of_nat (?L - 1)" by simp
    moreover have "?L - 1 + 1 = ?L" using that L by simp
    ultimately show ?thesis by (metis of_nat_1 of_nat_add)
  qed
  have slot: "eu_new_slot e es = Some ((Some (length bs, ?n), eu_sections e elf = []), eu_put_elf e elf' es)"
  proof (cases "eu_sections e elf = []")
    case True
    then have z: "sl_cnt b = 0" "bs = []" using first by auto
    then have "sc_index (?d ! 0) = of_nat ?L" using w(7) by simp
    then have "scn = ?d ! 0" using z by (simp add: scn_def)
    then have "b' = b\<lparr>sl_cnt := 1\<rparr>" using z by (simp add: b'_def)
    then show ?thesis using True z assms(1,3,4) w(1) n by (simp add: eu_new_slot_def elf'_def Let_def)
  next
    case False
    then have z: "\<not> (sl_cnt b + 1 = 1 \<and> length bs = 0)" using first by simp
    then have pos: "0 < ?n" using w(5) by (cases "bs = []") (auto simp: word_less_nat_alt unat_eq_0 unat_gt_0)
    then have "1 < sl_cnt b + 1" using n1 by (simp add: word_less_nat_alt)
    then show ?thesis using False z idx [OF pos] assms(1,3,4) w(1) n
      by (simp add: eu_new_slot_def elf'_def b'_def scn_def Let_def list_update_append)
  qed
  have take: "take (?n + 1) (?d[?n := scn]) = take ?n ?d @ [scn]"
    using n(1) by (simp add: take_Suc_conv_app_nth)
  have used: "used_scns (bs @ [b']) = used_scns (bs @ [b]) @ [scn]"
    using n1 take by (simp add: b'_def)
  have wb: "block_wf b'"
    using block_wfD(1,3) [OF w(4)] n(2) n1 by (simp add: block_wf_def b'_def word_le_nat_alt)
  have "sc_index (sl_data (hd (bs @ [b'])) ! 0) = 0"
  proof (cases bs)
    case Nil
    then show ?thesis using w(7) n(1) by (cases ?n) (auto simp: b'_def scn_def nth_list_update)
  qed (use w(7) in simp)
  moreover have "0 < sl_cnt b'" using n1 by (simp add: b'_def word_less_nat_alt)
  moreover have "map sc_index (used_scns (bs @ [b'])) = map of_nat [0..<length (used_scns (bs @ [b']))]"
    unfolding used using w(6) by (simp add: scn_def)
  ultimately have "scns_wf elf'"
    using scns_wf_snoc [of elf' bs b'] w(1-3) wb by (simp add: elf'_def)
  moreover have "eu_sections e elf' = eu_sections e elf @ [(e, length bs, ?n)]"
    using n1 by (simp add: eu_sections_def elf'_def assms(3) b'_def)
  moreover have "eu_scn s (eu_put_elf e elf' es) = eu_scn s es" if S: "s \<in> set (eu_sections e elf)" for s
  proof -
    obtain k i where s: "s = (e, k, i)" "k < length (ee_scns elf)" "i < unat (sl_cnt (ee_scns elf ! k))"
      using eu_sectionsE [OF S] by metis
    then show ?thesis using n(1)
      by (auto simp: eu_scn_def block_scn_def assms(1,3) elf'_def nth_append b'_def split: if_splits)
  qed
  moreover have "sl_max (last (bs @ [b'])) = sl_max b" by (simp add: b'_def)
  then have "\<exists>xs. elf' = elf\<lparr>ee_scns := xs\<rparr> \<and> sl_max (last xs) = sl_max b" unfolding elf'_def by blast
  ultimately show ?thesis using slot by blast
qed

lemma new_slot_in_new_block:
  assumes "eu_elfs es e = Some elf" "scns_wf elf" "ee_scns elf = bs @ [b]" "sl_cnt b = sl_max b"
    and "unat (ee_scnincr elf) < 2 ^ 31"
  shows "\<not> fst (eu_alloc es) \<Longrightarrow> eu_new_slot e es
      = Some ((None, False), eu_seterrno EU_E_NOMEM
          (snd (eu_alloc (eu_put_elf e (elf\<lparr>ee_scnincr := ee_scnincr elf * 2\<rparr>) es))))"
    and "fst (eu_alloc es) \<Longrightarrow> \<exists>elf'. eu_new_slot e es
      = Some ((Some (Suc (length bs), 0), False), eu_put_elf e elf' (snd (eu_alloc es)))
    \<and> (\<exists>xs. elf' = elf\<lparr>ee_scnincr := ee_scnincr elf * 2, ee_scns := xs, ee_scns_last := Some (Suc (length bs))\<rparr>) \<and> scns_wf elf'
    \<and> sl_max (last (ee_scns elf')) = ee_scnincr elf * 2
    \<and> eu_sections e elf' = eu_sections e elf @ [(e, Suc (length bs), 0)] \<and> eu_sections e elf \<noteq> []
    \<and> (\<forall>s \<in> set (eu_sections e elf). eu_scn s (eu_put_elf e elf' (snd (eu_alloc es))) = eu_scn s es)"
proof -
  have w: "ee_scns_last elf = Some (length bs)" "0 < ee_scnincr elf"
    "\<forall>c \<in> set bs. block_wf c \<and> sl_cnt c = sl_max c" "block_wf b"
    "map sc_index (used_scns (bs @ [b])) = map of_nat [0..<length (used_scns (bs @ [b]))]"
    "sc_index (sl_data (hd (bs @ [b])) ! 0) = 0"
    using assms(2) scns_wf_snoc [OF assms(3)] by auto
  let ?incr = "ee_scnincr elf * 2" and ?L = "length (used_scns (bs @ [b]))"
  have incr: "unat ?incr = unat (ee_scnincr elf) * 2" using assms(5) by (simp add: unat_mult_lem [THEN iffD1])
  then have pos: "0 < unat ?incr" "0 < ?incr" using w(2) by (auto simp: word_less_nat_alt)
  have alloc: "eu_alloc (eu_put_elf e (elf\<lparr>ee_scnincr := ?incr\<rparr>) es)
      = (fst (eu_alloc es), eu_put_elf e (elf\<lparr>ee_scnincr := ?incr\<rparr>) (snd (eu_alloc es)))"
    by (simp add: eu_alloc_def eu_put_elf_def split: prod.split)
  show "\<not> fst (eu_alloc es) \<Longrightarrow> eu_new_slot e es
      = Some ((None, False), eu_seterrno EU_E_NOMEM
          (snd (eu_alloc (eu_put_elf e (elf\<lparr>ee_scnincr := ?incr\<rparr>) es))))"
    using w(1,2) assms(1,3,4) by (simp add: eu_new_slot_def alloc Let_def)
  define j where "j = unat (sl_max b - 1)"
  have m: "j = unat (sl_max b) - 1" "j < length (sl_data b)"
    using block_wfD(2,3) [OF w(4)] unfolding j_def by (simp_all add: unat_sub_if_size word_size Suc_leI)
  have idx: "1 + sc_index (sl_data b ! j) = of_nat ?L" and ne: "0 < ?L"
  proof -
    have L: "?L = length (used_scns bs) + unat (sl_max b)" using block_wfD(3) [OF w(4)] assms(4) by simp
    then show lt: "0 < ?L" using block_wfD(2) [OF w(4)] by simp
    then have lt: "?L - 1 < ?L" by simp
    have "used_scns (bs @ [b]) ! (?L - 1) = sl_data b ! j"
      using L m block_wfD(2,3) [OF w(4)] assms(4) by (simp add: nth_append)
    moreover have "sc_index (used_scns (bs @ [b]) ! (?L - 1)) = of_nat (?L - 1)"
      using arg_cong [OF w(5), of "\<lambda>xs. xs ! (?L - 1)"] lt
      by (simp only: nth_map length_upt nth_upt diff_zero add_0)
    ultimately have "sc_index (sl_data b ! j) = of_nat (?L - 1)" by simp
    moreover have "1 + (?L - 1) = ?L" using lt by simp
    ultimately show "1 + sc_index (sl_data b ! j) = of_nat ?L" by (metis of_nat_1 of_nat_add)
  qed
  define scn where "scn = zero_scn\<lparr>sc_index := of_nat ?L\<rparr>"
  define p where "p = \<lparr>sl_cnt = 1, sl_max = ?incr, sl_data = (replicate (unat ?incr) zero_scn)[0 := scn]\<rparr>"
  define elf' where "elf' = elf\<lparr>ee_scnincr := ?incr, ee_scns := bs @ [b, p], ee_scns_last := Some (Suc (length bs))\<rparr>"
  have slot: "eu_new_slot e es = Some ((Some (Suc (length bs), 0), False), eu_put_elf e elf' (snd (eu_alloc es)))"
    if "fst (eu_alloc es)"
    using that w(1,2) assms(1,3,4) pos(2) m(2) idx
    by (simp add: eu_new_slot_def alloc Let_def j_def p_def scn_def elf'_def add.commute)
  have used: "used_scns (bs @ [b, p]) = used_scns (bs @ [b]) @ [scn]"
    using pos(1) by (cases "unat ?incr") (simp_all add: p_def)
  have wp: "block_wf p" "0 < sl_cnt p" using pos by (auto simp: block_wf_def p_def word_le_nat_alt)
  have hd: "hd (bs @ [b, p]) = hd (bs @ [b])" by (cases bs) simp_all
  have "map sc_index (used_scns (bs @ [b, p])) = map of_nat [0..<length (used_scns (bs @ [b, p]))]"
    unfolding used using w(5) by (simp add: scn_def)
  then have wf: "scns_wf elf'"
    using scns_wf_snoc [of elf' "bs @ [b]" p] w wp hd pos(2) assms(4) by (simp add: elf'_def)
  have secs: "eu_sections e elf' = eu_sections e elf @ [(e, Suc (length bs), 0)]"
    by (simp add: eu_sections_def elf'_def assms(3) p_def)
  have keep: "eu_scn s (eu_put_elf e elf' (snd (eu_alloc es))) = eu_scn s es" if S: "s \<in> set (eu_sections e elf)" for s
  proof -
    obtain k i where "s = (e, k, i)" "k < Suc (length bs)"
      using eu_sectionsE [OF S] assms(3) by (metis length_append_singleton)
    then show ?thesis
      by (auto simp: eu_scn_def block_scn_def assms(1,3) elf'_def nth_append less_Suc_eq)
  qed
  have "length (eu_sections e elf) = ?L" using length_eu_sections [OF assms(2)] assms(3) by simp
  then have "eu_sections e elf \<noteq> []" using ne by (metis length_greater_0_conv)
  moreover have frame: "\<exists>xs. elf' = elf\<lparr>ee_scnincr := ?incr, ee_scns := xs, ee_scns_last := Some (Suc (length bs))\<rparr>"
    unfolding elf'_def by blast
  moreover have last: "sl_max (last (ee_scns elf')) = ee_scnincr elf * 2" by (simp add: elf'_def p_def)
  ultimately show "fst (eu_alloc es) \<Longrightarrow> \<exists>elf'. eu_new_slot e es
      = Some ((Some (Suc (length bs), 0), False), eu_put_elf e elf' (snd (eu_alloc es)))
    \<and> (\<exists>xs. elf' = elf\<lparr>ee_scnincr := ?incr, ee_scns := xs, ee_scns_last := Some (Suc (length bs))\<rparr>) \<and> scns_wf elf'
    \<and> sl_max (last (ee_scns elf')) = ee_scnincr elf * 2
    \<and> eu_sections e elf' = eu_sections e elf @ [(e, Suc (length bs), 0)] \<and> eu_sections e elf \<noteq> []
    \<and> (\<forall>s \<in> set (eu_sections e elf). eu_scn s (eu_put_elf e elf' (snd (eu_alloc es))) = eu_scn s es)"
    using slot wf secs keep frame last by blast
qed

text \<open>
  A place is found, or there is no memory for a new block.  The list stays well formed, the
  sections that were there are as they were, and the new one is behind them.
\<close>

definition only_scns :: "Eu_Elf \<Rightarrow> Eu_Elf \<Rightarrow> bool" where
  "only_scns elf elf' \<longleftrightarrow> (\<exists>n xs l. elf' = elf\<lparr>ee_scnincr := n, ee_scns := xs, ee_scns_last := l\<rparr>)"

lemma only_scnsI:
  "only_scns elf (elf\<lparr>ee_scns := xs\<rparr>)" "only_scns elf (elf\<lparr>ee_scnincr := n, ee_scns := xs, ee_scns_last := l\<rparr>)"
  "only_scns elf (elf\<lparr>ee_scnincr := n\<rparr>)" "only_scns elf elf" "only_scns elf (set_block_scn k i y elf)"
  unfolding only_scns_def set_block_scn_def by (cases elf; simp; blast)+

lemma only_scns_trans: "only_scns a b \<Longrightarrow> only_scns b c \<Longrightarrow> only_scns a c"
  unfolding only_scns_def by (elim exE) (simp, blast)

lemma only_scns_fields:
  assumes "only_scns elf elf'"
  shows "ee_kind elf' = ee_kind elf" "ee_class elf' = ee_class elf" "ee_ehdr elf' = ee_ehdr elf"
    "ee_phdr elf' = ee_phdr elf" "ee_cmd elf' = ee_cmd elf" "ee_flags elf' = ee_flags elf"
    "ee_map_address elf' = ee_map_address elf" "ee_shdr elf' = ee_shdr elf"
  using assms by (auto simp: only_scns_def)

definition grows :: "nat \<Rightarrow> eu_scn_ref list \<Rightarrow> Eu_Elf \<Rightarrow> eu_store \<Rightarrow> Eu_Elf \<Rightarrow> eu_store \<Rightarrow> bool" where
  "grows e new elf es elf' es' \<longleftrightarrow>
     scns_wf elf' \<and> eu_elfs es' = (eu_elfs es)(e \<mapsto> elf') \<and> only_scns elf elf'
     \<and> eu_sections e elf' = eu_sections e elf @ new
     \<and> (\<forall>s \<in> set (eu_sections e elf). eu_scn s es' = eu_scn s es)"

text \<open>
  The size of a new block is twice that of the last; it must not wrap around.  In a list that only
  \<open>elf_newscn\<close> extended, it does not exceed the size of the last block.
\<close>

definition has_room :: "Eu_Elf \<Rightarrow> bool" where
  "has_room elf \<longleftrightarrow> (sl_cnt (last (ee_scns elf)) = sl_max (last (ee_scns elf)) \<longrightarrow> unat (ee_scnincr elf) < 2 ^ 31)"

definition incr_ok :: "Eu_Elf \<Rightarrow> bool" where
  "incr_ok elf \<longleftrightarrow> unat (ee_scnincr elf) \<le> 10 \<or> ee_scnincr elf \<le> sl_max (last (ee_scns elf))"

lemma eu_new_slot_grows:
  assumes "eu_elfs es e = Some elf" "scns_wf elf" "has_room elf"
  shows "\<exists>r elf' es'. eu_new_slot e es = Some ((r, r \<noteq> None \<and> eu_sections e elf = []), es')
    \<and> grows e (case r of None \<Rightarrow> [] | Some (k, i) \<Rightarrow> [(e, k, i)]) elf es elf' es'
    \<and> (unat (ee_scnincr elf) < 2 ^ 31 \<longrightarrow> unat (ee_scnincr elf') \<le> 2 * unat (ee_scnincr elf))
    \<and> (incr_ok elf \<and> r \<noteq> None \<longrightarrow> incr_ok elf') \<and> (\<forall>k i. r = Some (k, i) \<longrightarrow> ee_scns_last elf' = Some k)
    \<and> (r = None \<longrightarrow> eu_global_error es' = EU_E_NOMEM)
    \<and> (oom (eu_mach es) = [] \<longrightarrow> r \<noteq> None \<and> eu_mach es' = eu_mach es)"
proof -
  obtain bs b where b: "ee_scns elf = bs @ [b]" "block_wf b" "ee_scns_last elf = Some (length bs)" using scns_wfE [OF assms(2)] by metis
  show ?thesis
  proof (cases "sl_cnt b < sl_max b")
    case True
    obtain elf' xs where slot: "eu_new_slot e es = Some ((Some (length bs, unat (sl_cnt b)), eu_sections e elf = []), eu_put_elf e elf' es)"
      and elf': "elf' = elf\<lparr>ee_scns := xs\<rparr>" "sl_max (last xs) = sl_max b" "scns_wf elf'" "eu_sections e elf' = eu_sections e elf @ [(e, length bs, unat (sl_cnt b))]"
        "\<forall>s \<in> set (eu_sections e elf). eu_scn s (eu_put_elf e elf' es) = eu_scn s es"
      using new_slot_in_block [OF assms(1,2) b(1) True] by blast
    have "grows e [(e, length bs, unat (sl_cnt b))] elf es elf' (eu_put_elf e elf' es)"
      using elf' only_scnsI(1) by (simp add: grows_def)
    then show ?thesis
      by (intro exI [of _ "Some (length bs, unat (sl_cnt b))"] exI [of _ elf'] exI [of _ "eu_put_elf e elf' es"])
        (simp add: slot elf'(1,2) b incr_ok_def)
  next
    case False
    then have full: "sl_cnt b = sl_max b" using b(2) by (simp add: block_wf_def)
    then have incr0: "unat (ee_scnincr elf) < 2 ^ 31" using assms(3) b(1) by (simp add: has_room_def)
    note new = new_slot_in_new_block [OF assms(1,2) b(1) full incr0]
    have frame: "eu_elfs (snd (eu_alloc es)) = eu_elfs es" by (rule eu_alloc_frame(1) [of es "fst (eu_alloc es)"]) simp
    have incr: "unat (ee_scnincr elf * 2) = 2 * unat (ee_scnincr elf)"
      using incr0 by (simp add: unat_mult_lem [THEN iffD1])
    show ?thesis
    proof (cases "fst (eu_alloc es)")
      case True
      obtain elf' xs where slot: "eu_new_slot e es = Some ((Some (Suc (length bs), 0), False), eu_put_elf e elf' (snd (eu_alloc es)))"
        and elf': "elf' = elf\<lparr>ee_scnincr := ee_scnincr elf * 2, ee_scns := xs, ee_scns_last := Some (Suc (length bs))\<rparr>" "scns_wf elf'"
          "sl_max (last (ee_scns elf')) = ee_scnincr elf * 2"
          "eu_sections e elf' = eu_sections e elf @ [(e, Suc (length bs), 0)]" "eu_sections e elf \<noteq> []"
          "\<forall>s \<in> set (eu_sections e elf). eu_scn s (eu_put_elf e elf' (snd (eu_alloc es))) = eu_scn s es"
        using new(2) [OF True] by blast
      have "grows e [(e, Suc (length bs), 0)] elf es elf' (eu_put_elf e elf' (snd (eu_alloc es)))"
        using elf' only_scnsI(2) frame by (simp add: grows_def)
      moreover have "ee_scnincr elf' = ee_scnincr elf * 2" "ee_scns_last elf' = Some (Suc (length bs))" by (simp_all add: elf'(1))
      ultimately show ?thesis
        by (intro exI [of _ "Some (Suc (length bs), 0)"] exI [of _ elf'] exI [of _ "eu_put_elf e elf' (snd (eu_alloc es))"])
          (simp add: slot elf'(3,5) incr incr_ok_def)
    next
      case False
      let ?elf = "elf\<lparr>ee_scnincr := ee_scnincr elf * 2\<rparr>"
      let ?es = "eu_seterrno EU_E_NOMEM (snd (eu_alloc (eu_put_elf e ?elf es)))"
      have "0 < unat (ee_scnincr elf)" using assms(2) by (auto simp: scns_wf_def word_less_nat_alt)
      then have pos: "0 < ee_scnincr elf * 2" using incr by (simp add: word_less_nat_alt)
      have elfs: "eu_elfs ?es = (eu_elfs es)(e \<mapsto> ?elf)"
        using eu_alloc_frame(1) [of "eu_put_elf e ?elf es" "fst (eu_alloc (eu_put_elf e ?elf es))"] by simp
      have wf: "scns_wf ?elf" "eu_sections e ?elf = eu_sections e elf"
        using assms(2) pos by (simp_all add: scns_wf_def eu_sections_def)
      have "eu_scn s ?es = eu_scn s es" if "s \<in> set (eu_sections e elf)" for s
        using elfs assms(1) by (auto simp: eu_scn_def block_scn_def split: prod.split)
      then have "grows e [] elf es ?elf ?es" using elfs wf only_scnsI(3) by (simp add: grows_def)
      moreover have "oom (eu_mach es) \<noteq> []" using False by auto
      ultimately show ?thesis
        by (intro exI [of _ None] exI [of _ ?elf] exI [of _ ?es]) (simp add: new(1) [OF False] incr)
    qed
  qed
qed

lemma refs_from_distinct: "distinct (refs_from e k bs)"
proof (induction bs arbitrary: k)
  case (Cons b bs)
  then show ?case by (auto simp: distinct_map inj_on_def refs_from_blocks)
qed simp

lemma grows_trans:
  "grows e n1 elf es elf1 es1 \<Longrightarrow> grows e n2 elf1 es1 elf2 es2 \<Longrightarrow> grows e (n1 @ n2) elf es elf2 es2"
  unfolding grows_def by (auto intro: only_scns_trans)

lemma grows_self: "grows e new elf es elf' es' \<Longrightarrow> eu_elfs es' e = Some elf'"
  by (simp add: grows_def)

lemma eu_alloc_elfs [simp]: "eu_elfs (snd (eu_alloc es)) = eu_elfs es" "eu_scn s (snd (eu_alloc es)) = eu_scn s es"
  using eu_alloc_frame(1) [of es "fst (eu_alloc es)" "snd (eu_alloc es)"] by (simp_all add: eu_scn_def)

lemma eu_scn_cong: "eu_elfs es' = eu_elfs es \<Longrightarrow> eu_scn s es' = eu_scn s es"
  by (simp add: eu_scn_def)

text \<open>Filling in a section that was made does not change the list.\<close>

lemma grows_put:
  assumes "grows e new elf es elf' es'" "(e, k, i) \<in> set new" "eu_scn (e, k, i) es' = Some x" "sc_index y = sc_index x"
    and "eu_elfs es2 = eu_elfs es'"
  shows "grows e new elf es (set_block_scn k i y elf') (eu_put_scn (e, k, i) y es2)"
    "eu_scn (e, k, i) (eu_put_scn (e, k, i) y es2) = Some y"
proof -
  have scn2: "eu_scn s es2 = eu_scn s es'" for s using assms(5) by (rule eu_scn_cong)
  have elf': "eu_elfs es2 e = Some elf'" "scns_wf elf'" "eu_sections e elf' = eu_sections e elf @ new"
    "only_scns elf elf'"
    using assms(1,5) by (simp_all add: grows_def)
  have "(e, k, i) \<notin> set (eu_sections e elf)"
    using refs_from_distinct [of e 0 "ee_scns elf'"] elf'(3) assms(2) unfolding eu_sections_def by (metis disjoint_iff distinct_append)
  then have "eu_scn s (eu_put_scn (e, k, i) y es2) = eu_scn s es" if "s \<in> set (eu_sections e elf)" for s
    using that assms(1) scn2 by (auto simp: eu_scn_put_scn grows_def)
  then show "grows e new elf es (set_block_scn k i y elf') (eu_put_scn (e, k, i) y es2)"
    using put_scn_wf [OF elf'(1,2), of k i x y] assms(1,3-5) scn2 elf' only_scns_trans [OF elf'(4) only_scnsI(5)]
    by (simp add: grows_def)
  show "eu_scn (e, k, i) (eu_put_scn (e, k, i) y es2) = Some y"
    using assms(3) scn2 by (simp add: eu_scn_put_scn)
qed

definition linked :: "eu_scn_ref \<Rightarrow> eu_store \<Rightarrow> bool" where
  "linked s es \<longleftrightarrow> (case s of (e, k, i) \<Rightarrow>
     \<exists>scn. eu_scn s es = Some scn \<and> sc_elf scn = Some e \<and> sc_list scn = Some k \<and> sc_shdr scn \<noteq> None)"

lemma set_block_incr [simp]: "incr_ok (set_block_scn k i y elf) = incr_ok elf" "has_room (set_block_scn k i y elf) = has_room elf"
proof -
  have "sl_max (last (ee_scns (set_block_scn k i y elf))) = sl_max (last (ee_scns elf))
      \<and> sl_cnt (last (ee_scns (set_block_scn k i y elf))) = sl_cnt (last (ee_scns elf))"
    by (cases "ee_scns elf" rule: rev_cases) (auto simp: set_block_scn_def list_update_append nth_append split: nat.splits)
  then show "incr_ok (set_block_scn k i y elf) = incr_ok elf" "has_room (set_block_scn k i y elf) = has_room elf"
    by (simp_all add: incr_ok_def has_room_def)
qed

text \<open>One pass of \<open>elf_newscn\<close>: a place, and the fields of the section there.\<close>

lemma newscn_pass:
  assumes "eu_elfs es e = Some elf" "scns_wf elf" "has_room elf"
  obtains (none) elf' es' where "eu_newscn_from e es = Some (None, es')" "grows e [] elf es elf' es'"
      "eu_global_error es' = EU_E_NOMEM" "oom (eu_mach es) \<noteq> []"
    | (bare) s elf' es' where "eu_newscn_from e es = Some (Some s, es')" "grows e [s] elf es elf' es'"
      "eu_global_error es' = EU_E_NOMEM" "oom (eu_mach es) \<noteq> []"
    | (first) s elf' es' where "eu_newscn_from e es = eu_newscn_from e es'" "grows e [s] elf es elf' es'" "eu_sections e elf = []"
      "linked s es'" "oom (eu_mach es) = [] \<Longrightarrow> eu_mach es' = eu_mach es" "incr_ok elf \<Longrightarrow> incr_ok elf'"
      "unat (ee_scnincr elf) < 2 ^ 31 \<Longrightarrow> unat (ee_scnincr elf') \<le> 2 * unat (ee_scnincr elf)"
    | (made) s elf' es' where "eu_newscn_from e es = Some (Some s, es')" "grows e [s] elf es elf' es'" "eu_sections e elf \<noteq> []"
      "linked s es'" "oom (eu_mach es) = [] \<Longrightarrow> eu_mach es' = eu_mach es" "incr_ok elf \<Longrightarrow> incr_ok elf'"
proof -
  obtain r elf1 es1 where slot: "eu_new_slot e es = Some ((r, r \<noteq> None \<and> eu_sections e elf = []), es1)"
    and g: "grows e (case r of None \<Rightarrow> [] | Some (k, i) \<Rightarrow> [(e, k, i)]) elf es elf1 es1"
    and more: "unat (ee_scnincr elf) < 2 ^ 31 \<longrightarrow> unat (ee_scnincr elf1) \<le> 2 * unat (ee_scnincr elf)"
      "incr_ok elf \<and> r \<noteq> None \<longrightarrow> incr_ok elf1" "\<forall>k i. r = Some (k, i) \<longrightarrow> ee_scns_last elf1 = Some k"
      "r = None \<longrightarrow> eu_global_error es1 = EU_E_NOMEM" "oom (eu_mach es) = [] \<longrightarrow> r \<noteq> None \<and> eu_mach es1 = eu_mach es"
    using eu_new_slot_grows [OF assms] by blast
  note step = eu_newscn_from.simps [of e es, unfolded slot]
  show thesis
  proof (cases r)
    case None
    then show thesis using step g more(4,5) by (intro none) auto
  next
    case (Some a)
    obtain k i where a: "a = (k, i)" by (cases a)
    let ?s = "(e, k, i)"
    have g: "grows e [?s] elf es elf1 es1" using g Some a by simp
    note elf1 = grows_self [OF g]
    have wf1: "scns_wf elf1" and s: "?s \<in> set (eu_sections e elf1)" using g by (auto simp: grows_def)
    obtain scn where scn: "eu_scn ?s es1 = Some scn"
      using eu_section_nth(1) [OF elf1 wf1] s by (metis in_set_conv_nth)
    let ?es = "snd (eu_alloc es1)"
    define y where "y = eu_init_scn e elf1 scn"
    define y' where "y' = y\<lparr>sc_flags := sc_flags scn OR EU_F_DIRTY\<rparr>"
    define b0 where "b0 = scn\<lparr>sc_shdr := None\<rparr>"
    have idx: "sc_index y = sc_index scn" "sc_index y' = sc_index scn" "sc_index b0 = sc_index scn"
      by (simp_all add: y_def y'_def b0_def eu_init_scn_def)
    note put = grows_put [OF g _ scn _ eu_alloc_elfs(1)]
    have links: "linked ?s (eu_put_scn ?s y ?es)" "linked ?s (eu_put_scn ?s y' ?es)"
      using put(2) [of y] put(2) [of y'] idx more(3) Some a
      by (auto simp: linked_def y_def y'_def eu_init_scn_def)
    have inc: "incr_ok (set_block_scn k i z elf1)" if "incr_ok elf" for z using that more(2) Some by simp
    have mach: "eu_mach (eu_put_scn ?s z ?es) = eu_mach es" if "oom (eu_mach es) = []" for z
      using that more(5) by (simp add: eu_put_scn_def split: option.split)
    show thesis
    proof (cases "fst (eu_alloc es1)")
      case False
      then have "oom (eu_mach es) \<noteq> []" using more(5) by auto
      moreover have "eu_newscn_from e es = Some (Some ?s, eu_seterrno EU_E_NOMEM (eu_put_scn ?s b0 ?es))"
        using step Some a elf1 scn False by (simp add: b0_def)
      moreover have "grows e [?s] elf es (set_block_scn k i b0 elf1) (eu_seterrno EU_E_NOMEM (eu_put_scn ?s b0 ?es))"
        using put(1) [of b0] idx by (simp add: grows_def)
      ultimately show thesis by (intro bare) auto
    next
      case True
      show thesis
      proof (cases "eu_sections e elf = []")
        case zeroth: True
        have eq: "eu_newscn_from e es = eu_newscn_from e (eu_put_scn ?s y ?es)"
          using step Some a elf1 scn True zeroth by (simp add: y_def)
        have "unat (ee_scnincr (set_block_scn k i y elf1)) \<le> 2 * unat (ee_scnincr elf)"
          if "unat (ee_scnincr elf) < 2 ^ 31" using that more(1) by simp
        from first [OF eq put(1) [of y] zeroth links(1) mach inc this] show thesis using idx by simp
      next
        case False
        have "eu_newscn_from e es = Some (Some ?s, eu_put_scn ?s y' ?es)"
          using step Some a elf1 scn True False by (simp add: y_def y'_def)
        from made [OF this put(1) [of y'] False links(2) mach inc] show thesis using idx by simp
      qed
    qed
  qed
qed

lemma grows_refl: "eu_elfs es e = Some elf \<Longrightarrow> scns_wf elf \<Longrightarrow> eu_elfs es' = eu_elfs es \<Longrightarrow> grows e [] elf es elf es'"
  using eu_scn_cong [of es' es] by (simp add: grows_def only_scnsI(4) fun_upd_idem)

text \<open>All passes together.\<close>

lemma eu_newscn_grows:
  assumes "eu_elfs es e = Some elf" "scns_wf elf" "unat (ee_scnincr elf) < 2 ^ 30"
  shows "\<exists>r new elf' es'. eu_elf_newscn (Some e) es = Some (r, es') \<and> grows e new elf es elf' es' \<and> length new \<le> 2
    \<and> (case r of None \<Rightarrow> eu_global_error es' = EU_E_NOMEM | Some s \<Rightarrow> new \<noteq> [] \<and> s = last new)"
proof -
  have "has_room elf" using assms(3) by (simp add: has_room_def)
  with assms(1,2) show ?thesis
  proof (cases rule: newscn_pass)
    case (none elf' es')
    then show ?thesis by (intro exI [of _ None] exI [of _ "[]"] exI [of _ elf'] exI [of _ es']) (simp add: eu_elf_newscn_def)
  next
    case (bare s elf' es')
    then show ?thesis by (intro exI [of _ "Some s"] exI [of _ "[s]"] exI [of _ elf'] exI [of _ es']) (simp add: eu_elf_newscn_def)
  next
    case (made s elf' es')
    then show ?thesis by (intro exI [of _ "Some s"] exI [of _ "[s]"] exI [of _ elf'] exI [of _ es']) (simp add: eu_elf_newscn_def)
  next
    case (first s elf1 es1)
    have elf1: "eu_elfs es1 e = Some elf1" "scns_wf elf1" "eu_sections e elf1 \<noteq> []"
      using first(2) by (auto simp: grows_def)
    have "has_room elf1" using first(7) assms(3) by (simp add: has_room_def)
    with elf1(1,2) show ?thesis
    proof (cases rule: newscn_pass)
      case (none elf' es')
      then show ?thesis using first(1) grows_trans [OF first(2)]
        by (intro exI [of _ None] exI [of _ "[s]"] exI [of _ elf'] exI [of _ es']) (force simp: eu_elf_newscn_def)
    next
      case (bare t elf' es')
      then show ?thesis using first(1) grows_trans [OF first(2)]
        by (intro exI [of _ "Some t"] exI [of _ "[s, t]"] exI [of _ elf'] exI [of _ es']) (force simp: eu_elf_newscn_def)
    next
      case (made t elf' es')
      then show ?thesis using first(1) grows_trans [OF first(2)]
        by (intro exI [of _ "Some t"] exI [of _ "[s, t]"] exI [of _ elf'] exI [of _ es']) (force simp: eu_elf_newscn_def)
    next
      case second: first
      then show ?thesis using elf1(3) by simp
    qed
  qed
qed

text \<open>\<open>elf_getscn\<close> adds at most section 0.\<close>

lemma zeroth_section:
  assumes "eu_elfs es e = Some elf" "scns_wf elf" "sl_cnt (hd (ee_scns elf)) = 0"
  defines "elf1 \<equiv> elf\<lparr>ee_scns := (ee_scns elf)[0 := (ee_scns elf ! 0)\<lparr>sl_cnt := 1\<rparr>]\<rparr>"
  shows "eu_sections e elf = []" "grows e [(e, 0, 0)] elf es elf1 (eu_put_elf e elf1 es)"
    "sl_max (hd (ee_scns elf)) > 0" "\<exists>x. eu_scn (e, 0, 0) es = Some x" "ee_scns_last elf = Some 0"
proof -
  obtain bs b where b: "ee_scns elf = bs @ [b]" "\<forall>c \<in> set bs. block_wf c \<and> sl_cnt c = sl_max c" "block_wf b"
    "ee_scns_last elf = Some (length bs)" using scns_wfE [OF assms(2)] by metis
  have "bs = []"
  proof (rule ccontr)
    assume "bs \<noteq> []"
    then have "sl_max (hd bs) = 0" "block_wf (hd bs)" using b(1,2) assms(3) by (cases bs; auto)+
    then show False using block_wfD(1) [of "hd bs"] by simp
  qed
  then have one: "ee_scns elf = [b]" "sl_cnt b = 0" "ee_scns_last elf = Some 0" using b(1,4) assms(3) by auto
  have d: "0 < length (sl_data b)" "sl_cnt b < sl_max b" using block_wfD(1-3) [OF b(3)] one(2) by auto
  show "eu_sections e elf = []" "sl_max (hd (ee_scns elf)) > 0" "ee_scns_last elf = Some 0"
    using one d(2) by (simp_all add: eu_sections_def)
  show "\<exists>x. eu_scn (e, 0, 0) es = Some x" using assms(1) one d(1) by (simp add: eu_scn_def block_scn_def)
  have slot: "eu_new_slot e es = Some ((Some (0, 0), True), eu_put_elf e elf1 es)"
    using assms(1) one d by (simp add: eu_new_slot_def elf1_def)
  have "has_room elf" using one(1) d(2) by (auto simp: has_room_def)
  from eu_new_slot_grows [OF assms(1,2) this] obtain r elf' es' where
      r: "eu_new_slot e es = Some ((r, r \<noteq> None \<and> eu_sections e elf = []), es')"
        "grows e (case r of None \<Rightarrow> [] | Some (k, i) \<Rightarrow> [(e, k, i)]) elf es elf' es'" by blast
  have "r = Some (0, 0)" "es' = eu_put_elf e elf1 es" using r(1) slot by simp_all
  then have g: "grows e [(e, 0, 0)] elf es elf' (eu_put_elf e elf1 es)" using r(2) by simp
  have "elf' = elf1" using grows_self [OF g] by simp
  then show "grows e [(e, 0, 0)] elf es elf1 (eu_put_elf e elf1 es)" using g by simp
qed

lemma eu_getscn_grows:
  assumes "eu_elfs es e = Some elf" "scns_wf elf" "ee_kind elf = ELF_K_ELF"
  shows "\<exists>r new elf' es'. eu_elf_getscn (Some e) idx es = Some (r, es') \<and> grows e new elf es elf' es'
    \<and> (new \<noteq> [] \<longrightarrow> idx = 0 \<and> eu_sections e elf = [] \<and> new = [(e, 0, 0)] \<and> linked (e, 0, 0) es')
    \<and> (case r of None \<Rightarrow> length (eu_sections e elf) \<le> unat idx \<and> eu_global_error es' \<in> {EU_E_INVALID_INDEX, EU_E_NOMEM}
       | Some s \<Rightarrow> unat idx < length (eu_sections e elf') \<and> s = eu_sections e elf' ! unat idx)"
proof (cases "idx = 0 \<and> sl_cnt (hd (ee_scns elf)) = 0")
  case True
  note z = zeroth_section [OF assms(1,2)]
  have cnt: "sl_cnt (hd (ee_scns elf)) = 0" using True by simp
  obtain x where x: "eu_scn (e, 0, 0) es = Some x" using z(4) [OF cnt] by blast
  have ne: "ee_scns elf \<noteq> []" using assms(2) by (simp add: scns_wf_def)
  show ?thesis
  proof (cases "fst (eu_alloc es)")
    case False
    let ?es = "eu_seterrno EU_E_NOMEM (eu_put_scn (e, 0, 0) (x\<lparr>sc_shdr := None\<rparr>) (snd (eu_alloc es)))"
    let ?elf = "set_block_scn 0 0 (x\<lparr>sc_shdr := None\<rparr>) elf"
    have "eu_elf_getscn (Some e) idx es = Some (None, ?es)"
      using assms(1,3) ne True x False z(3) [OF cnt] by (simp add: eu_elf_getscn_def case_prod_beta)
    moreover have "grows e [] elf es ?elf ?es"
      using put_scn_wf [OF assms(1,2) x, of "x\<lparr>sc_shdr := None\<rparr>"] z(1) [OF cnt] assms(1) only_scnsI(5)
      by (simp add: grows_def eu_put_scn_def)
    ultimately show ?thesis using z(1) [OF cnt] by (intro exI [of _ None] exI [of _ "[]"] exI conjI) auto
  next
    case ok: True
    let ?es = "snd (eu_alloc es)"
    define y where "y = eu_init_scn e elf x"
    define elf1 where "elf1 = elf\<lparr>ee_scns := (ee_scns elf)[0 := (ee_scns elf ! 0)\<lparr>sl_cnt := 1\<rparr>]\<rparr>"
    define es' where "es' = eu_put_scn (e, 0, 0) y (eu_put_elf e elf1 ?es)"
    obtain b bs where b: "ee_scns elf = b # bs" using ne by (cases "ee_scns elf") auto
    have g: "grows e [(e, 0, 0)] elf es elf1 (eu_put_elf e elf1 es)" using z(2) [OF cnt] by (simp add: elf1_def)
    have x1: "eu_scn (e, 0, 0) (eu_put_elf e elf1 es) = Some x"
      using x assms(1) b by (simp add: eu_scn_def block_scn_def elf1_def split: if_splits)
    have idx: "sc_index y = sc_index x" by (simp add: y_def eu_init_scn_def)
    have g': "grows e [(e, 0, 0)] elf es (set_block_scn 0 0 y elf1) es'" and y: "eu_scn (e, 0, 0) es' = Some y"
      using grows_put [OF g _ x1 idx, of "eu_put_elf e elf1 ?es"] by (simp_all add: es'_def)
    have put: "(let es = eu_put_scn (e, 0, 0) y ?es in
        do { elf \<leftarrow> eu_elfs es e;
             let es = eu_put_elf e (elf\<lparr>ee_scns := (ee_scns elf)[0 := (ee_scns elf ! 0)\<lparr>sl_cnt := 1\<rparr>]\<rparr>) es;
             eu_lookup_scn e idx es }) = eu_lookup_scn e idx es'"
      using assms(1) b by (cases b) (simp add: eu_put_scn_def es'_def elf1_def eu_put_elf_def set_block_scn_def)
    have "eu_elf_getscn (Some e) idx es = eu_lookup_scn e idx es'"
      using assms(1,3) ne True x ok z(3) [OF cnt] put by (simp add: eu_elf_getscn_def case_prod_beta y_def)
    moreover have "eu_elfs es' e = Some (set_block_scn 0 0 y elf1)" "scns_wf (set_block_scn 0 0 y elf1)"
      "eu_sections e (set_block_scn 0 0 y elf1) = [(e, 0, 0)]"
      using g' z(1) [OF cnt] by (auto simp: grows_def)
    ultimately have "eu_elf_getscn (Some e) idx es = Some (Some (e, 0, 0), es')"
      using True by (simp add: eu_lookup_scn_nth)
    moreover have "linked (e, 0, 0) es'" using y z(5) [OF cnt] by (simp add: linked_def y_def eu_init_scn_def)
    ultimately show ?thesis
      using g' z(1) [OF cnt] True
      by (intro exI [of _ "Some (e, 0, 0)"] exI [of _ "[(e, 0, 0)]"] exI [of _ "set_block_scn 0 0 y elf1"] exI [of _ es'])
        (simp add: grows_def)
  qed
next
  case False
  have ne: "ee_scns elf \<noteq> []" using assms(2) by (simp add: scns_wf_def)
  then have get: "eu_elf_getscn (Some e) idx es = eu_lookup_scn e idx es"
    using False assms(1,3) by (auto simp: eu_elf_getscn_def)
  show ?thesis
  proof (cases "unat idx < length (eu_sections e elf)")
    case True
    then show ?thesis using eu_lookup_scn_nth [OF assms(1,2), of idx] grows_refl [OF assms(1,2), of es]
      by (intro exI [of _ "Some (eu_sections e elf ! unat idx)"] exI [of _ "[]"] exI [of _ elf] exI [of _ es])
        (simp add: get)
  next
    case False
    then show ?thesis using eu_lookup_scn_nth [OF assms(1,2), of idx] grows_refl [OF assms(1,2), of "eu_seterrno EU_E_INVALID_INDEX es"]
      by (intro exI [of _ None] exI [of _ "[]"] exI [of _ elf] exI [of _ "eu_seterrno EU_E_INVALID_INDEX es"])
        (simp add: get)
  qed
qed

section \<open>The contract of a numbered list\<close>

definition eu_sections_ready :: "nat \<Rightarrow> eu_scn_ref list \<Rightarrow> eu_store \<Rightarrow> bool" where
  "eu_sections_ready e ss es \<longleftrightarrow>
     (\<exists>elf. eu_elfs es e = Some elf \<and> ee_kind elf = ELF_K_ELF \<and> scns_wf elf \<and> incr_ok elf \<and> ss = eu_sections e elf)
     \<and> (\<forall>s \<in> set ss. linked s es) \<and> length ss < 2 ^ 31 \<and> oom (eu_mach es) = []"

lemma eu_sections_room:
  assumes "scns_wf elf" "incr_ok elf" "length (eu_sections e elf) < 2 ^ 31"
  shows "has_room elf"
proof -
  obtain bs b where b: "ee_scns elf = bs @ [b]" "block_wf b" using scns_wfE [OF assms(1)] by metis
  then have "unat (sl_cnt b) \<le> length (eu_sections e elf)" by (simp add: eu_sections_def)
  then show ?thesis using assms(2,3) b(1) by (auto simp: has_room_def incr_ok_def word_le_nat_alt)
qed

lemma linked_cong: "eu_scn s es' = eu_scn s es \<Longrightarrow> linked s es' = linked s es"
  by (simp add: linked_def split: prod.split)

lemma eu_newscn_ready:
  assumes "eu_sections_ready e ss es" "ss \<noteq> []" "Suc (length ss) < 2 ^ 31"
  shows "\<exists>s es'. eu_elf_newscn (Some e) es = Some (Some s, es') \<and> eu_sections_ready e (ss @ [s]) es'"
proof -
  obtain elf where elf: "eu_elfs es e = Some elf" "ee_kind elf = ELF_K_ELF" "scns_wf elf" "incr_ok elf" "ss = eu_sections e elf"
    and r: "\<forall>s \<in> set ss. linked s es" "length ss < 2 ^ 31" "oom (eu_mach es) = []"
    using assms(1) by (auto simp: eu_sections_ready_def)
  have "has_room elf" using eu_sections_room elf r(2) by blast
  with elf(1,3) show ?thesis
  proof (cases rule: newscn_pass)
    case (made s elf' es')
    have g: "scns_wf elf'" "eu_elfs es' e = Some elf'" "only_scns elf elf'" "eu_sections e elf' = ss @ [s]"
      "\<forall>s \<in> set ss. eu_scn s es' = eu_scn s es"
      using made(2) elf(5) by (simp_all add: grows_def)
    have "linked t es'" if "t \<in> set ss" for t using linked_cong [of t es' es] g(5) r(1) that by blast
    then have "\<forall>t \<in> set (ss @ [s]). linked t es'" using made(4) by simp
    then have "eu_sections_ready e (ss @ [s]) es'"
      using g only_scns_fields(1) [OF g(3)] made(5,6) elf(2,4) r(3) assms(3) by (simp add: eu_sections_ready_def)
    then show ?thesis using made(1) by (simp add: eu_elf_newscn_def)
  qed (use elf(5) assms(2) r(3) in auto)
qed

lemma eu_nextscn_ready:
  assumes "eu_sections_ready e ss es" "j < length ss"
  shows "eu_elf_nextscn (Some e) (Some (ss ! j)) es = Some (if Suc j < length ss then Some (ss ! Suc j) else None, es)"
proof -
  obtain elf where elf: "eu_elfs es e = Some elf" "scns_wf elf" "ss = eu_sections e elf" "\<forall>s \<in> set ss. linked s es"
    using assms(1) by (auto simp: eu_sections_ready_def)
  obtain bs b where b: "ee_scns elf = bs @ [b]" "\<forall>c \<in> set bs. block_wf c \<and> sl_cnt c = sl_max c" "block_wf b"
    using scns_wfE [OF elf(2)] by metis
  obtain k i where s: "ss ! j = (e, k, i)" "k < length (ee_scns elf)" "i < unat (sl_cnt (ee_scns elf ! k))"
    using eu_sectionsE elf(3) nth_mem [OF assms(2)] by metis
  have "linked (e, k, i) es" using elf(4) nth_mem [OF assms(2)] s(1) by simp
  then obtain scn where scn: "eu_scn (e, k, i) es = Some scn" "sc_list scn = Some k" by (auto simp: linked_def)
  have tl: "\<forall>b \<in> set (tl (ee_scns elf)). 0 < sl_cnt b" using elf(2) by (simp add: scns_wf_def)
  have j: "j < length (refs_from e 0 (ee_scns elf))" "refs_from e 0 (ee_scns elf) ! j = (e, k, i)"
    using assms(2) s(1) elf(3) by (simp_all add: eu_sections_def)
  note nx = refs_from_next [OF j tl]
  let ?blk = "ee_scns elf ! k"
  have wk: "unat (sl_cnt ?blk) \<le> unat (sl_max ?blk)"
    using scns_wf_blocks [OF elf(2) nth_mem [OF s(2)]] block_wfD(4) by blast
  have full: "i + 1 = unat (sl_max ?blk)" if "\<not> i + 1 < unat (sl_cnt ?blk)" "k + 1 < length (ee_scns elf)"
  proof -
    have "sl_cnt ?blk = sl_max ?blk" using that(2) b(1,2) by (auto simp: nth_append)
    then show ?thesis using that(1) s(3) by simp
  qed
  have pos: "0 < sl_cnt (ee_scns elf ! (k + 1))" if "k + 1 < length (ee_scns elf)"
    using that tl by (metis Suc_eq_plus1 length_tl less_diff_conv nth_mem nth_tl)
  have nxt: "eu_elf_nextscn (Some e) (Some (e, k, i)) es
      = (if i + 1 < unat (sl_cnt ?blk) then Some (Some (e, k, i + 1), es)
         else if k + 1 < length (ee_scns elf) then Some (Some (e, k + 1, 0), es) else Some (None, es))"
    using full pos by (auto simp: eu_elf_nextscn_def scn elf(1) s(2))
  show ?thesis unfolding elf(3) eu_sections_def using nx nxt j(2) by (auto split: if_splits)
qed

interpretation eu_list: numbered_sections "\<lambda>e. eu_elf_getscn (Some e)" "\<lambda>e. eu_elf_newscn (Some e)"
  "\<lambda>s. eu_elf_ndxscn (Some s)" "\<lambda>e s. eu_elf_nextscn (Some e) (Some s)" eu_sections_ready
  "eu_seterrno EU_E_INVALID_INDEX" "2 ^ 31"
proof (unfold_locales, goal_cases)
  case (1 e ss es)
  then show ?case by (auto simp: eu_sections_ready_def)
next
  case (3 e ss es j)
  then show ?case using eu_section_nth by (auto simp: eu_sections_ready_def eu_elf_ndxscn_def)
next
  case (4 e ss es i)
  then obtain elf where elf: "eu_elfs es e = Some elf" "ee_kind elf = ELF_K_ELF" "scns_wf elf" "ss = eu_sections e elf"
    by (auto simp: eu_sections_ready_def)
  have "ss \<noteq> []" using 4(2) by auto
  then have "\<not> (i = 0 \<and> sl_cnt (hd (ee_scns elf)) = 0)" "ee_scns elf \<noteq> []"
    using zeroth_section(1) [OF elf(1,3)] elf(3,4) by (auto simp: scns_wf_def)
  then show ?case using elf 4(2) eu_lookup_scn_nth [OF elf(1,3), of i] by (auto simp: eu_elf_getscn_def)
next
  case (5 e ss es i)
  then obtain elf where elf: "eu_elfs es e = Some elf" "ee_kind elf = ELF_K_ELF" "scns_wf elf" "ss = eu_sections e elf"
    by (auto simp: eu_sections_ready_def)
  then have "\<not> (i = 0 \<and> sl_cnt (hd (ee_scns elf)) = 0)" "ee_scns elf \<noteq> []"
    using zeroth_section(1) [OF elf(1,3)] 5(2) by (auto simp: scns_wf_def)
  then show ?case using elf 5(3) eu_lookup_scn_nth [OF elf(1,3), of i] by (auto simp: eu_elf_getscn_def)
next
  case (6 e ss es)
  then show ?case by (rule eu_newscn_ready)
next
  case (7 e ss es j)
  then show ?case by (rule eu_nextscn_ready)
qed simp

text \<open>
  C31. The list of sections stays well formed whatever memory there is: every call of
  \<open>elf_newscn\<close> and \<open>elf_getscn\<close> on a descriptor with a well-formed list is defined, leaves a
  well-formed list that continues the old one, and keeps the sections that were there.  A section
  that is returned is the new one, or the one asked for.
\<close>

theorem eu_section_list_wf:
  assumes "eu_elfs es e = Some elf" "scns_wf elf" "unat (ee_scnincr elf) < 2 ^ 30" "ee_kind elf = ELF_K_ELF"
  shows "(\<exists>r new elf' es'. eu_elf_newscn (Some e) es = Some (r, es') \<and> eu_elfs es' e = Some elf' \<and> scns_wf elf'
      \<and> eu_sections e elf' = eu_sections e elf @ new \<and> length new \<le> 2
      \<and> (\<forall>s \<in> set (eu_sections e elf). eu_scn s es' = eu_scn s es)
      \<and> (case r of None \<Rightarrow> eu_global_error es' = EU_E_NOMEM | Some s \<Rightarrow> new \<noteq> [] \<and> s = last new))
    \<and> (\<exists>r new elf' es'. eu_elf_getscn (Some e) idx es = Some (r, es') \<and> eu_elfs es' e = Some elf' \<and> scns_wf elf'
      \<and> eu_sections e elf' = eu_sections e elf @ new \<and> (new \<noteq> [] \<longrightarrow> eu_sections e elf = [] \<and> new = [(e, 0, 0)])
      \<and> (\<forall>s \<in> set (eu_sections e elf). eu_scn s es' = eu_scn s es)
      \<and> (case r of None \<Rightarrow> length (eu_sections e elf) \<le> unat idx | Some s \<Rightarrow> s = eu_sections e elf' ! unat idx))"
proof (rule conjI)
  obtain r new elf' es' where "eu_elf_newscn (Some e) es = Some (r, es')" "grows e new elf es elf' es'" "length new \<le> 2"
    "case r of None \<Rightarrow> eu_global_error es' = EU_E_NOMEM | Some s \<Rightarrow> new \<noteq> [] \<and> s = last new"
    using eu_newscn_grows [OF assms(1-3)] by blast
  then show "\<exists>r new elf' es'. eu_elf_newscn (Some e) es = Some (r, es') \<and> eu_elfs es' e = Some elf' \<and> scns_wf elf'
      \<and> eu_sections e elf' = eu_sections e elf @ new \<and> length new \<le> 2
      \<and> (\<forall>s \<in> set (eu_sections e elf). eu_scn s es' = eu_scn s es)
      \<and> (case r of None \<Rightarrow> eu_global_error es' = EU_E_NOMEM | Some s \<Rightarrow> new \<noteq> [] \<and> s = last new)"
    unfolding grows_def by (intro exI [of _ r] exI [of _ new] exI [of _ elf'] exI [of _ es']) simp
  obtain r new elf' es' where "eu_elf_getscn (Some e) idx es = Some (r, es')" "grows e new elf es elf' es'"
    "new \<noteq> [] \<longrightarrow> idx = 0 \<and> eu_sections e elf = [] \<and> new = [(e, 0, 0)] \<and> linked (e, 0, 0) es'"
    "case r of None \<Rightarrow> length (eu_sections e elf) \<le> unat idx \<and> eu_global_error es' \<in> {EU_E_INVALID_INDEX, EU_E_NOMEM}
       | Some s \<Rightarrow> unat idx < length (eu_sections e elf') \<and> s = eu_sections e elf' ! unat idx"
    using eu_getscn_grows [OF assms(1,2,4), of idx] by blast
  then show "\<exists>r new elf' es'. eu_elf_getscn (Some e) idx es = Some (r, es') \<and> eu_elfs es' e = Some elf' \<and> scns_wf elf'
      \<and> eu_sections e elf' = eu_sections e elf @ new \<and> (new \<noteq> [] \<longrightarrow> eu_sections e elf = [] \<and> new = [(e, 0, 0)])
      \<and> (\<forall>s \<in> set (eu_sections e elf). eu_scn s es' = eu_scn s es)
      \<and> (case r of None \<Rightarrow> length (eu_sections e elf) \<le> unat idx | Some s \<Rightarrow> s = eu_sections e elf' ! unat idx)"
    unfolding grows_def
    by (intro exI [of _ r] exI [of _ new] exI [of _ elf'] exI [of _ es']) (auto split: option.splits)
qed

text \<open>
  C32. As in the other library, a new section gets the next number and is found under it, and
  sections keep their numbers; and following the list from its first section visits every section
  once, in order, however the sections are cut into blocks.
\<close>

theorem eu_newscn_numbers:
  assumes "eu_sections_ready e ss es" "ss \<noteq> []" "Suc (length ss) < 2 ^ 31"
  shows "\<exists>s es'. eu_elf_newscn (Some e) es = Some (Some s, es') \<and> eu_elf_ndxscn (Some s) es' = Some (of_nat (length ss))
    \<and> eu_elf_getscn (Some e) (of_nat (length ss)) es' = Some (Some s, es')
    \<and> (\<forall>i. unat i < length ss \<longrightarrow> eu_elf_getscn (Some e) i es' = Some (Some (ss ! unat i), es'))
    \<and> walk (\<lambda>e s. eu_elf_nextscn (Some e) (Some s)) (Suc (length ss)) e (ss ! 0) es' = Some (ss @ [s])"
proof -
  obtain s es' where s: "eu_elf_newscn (Some e) es = Some (Some s, es')" "eu_sections_ready e (ss @ [s]) es'"
    using eu_list.add [OF assms] by blast
  have "walk (\<lambda>e s. eu_elf_nextscn (Some e) (Some s)) (Suc (length ss)) e ((ss @ [s]) ! 0) es' = Some (drop 0 (ss @ [s]))"
    using s(2) assms(2) by (intro eu_list.walk_visits_all) auto
  then show ?thesis using s eu_list.add_then_lookup [OF assms] assms(2) by (auto simp: nth_append)
qed

section \<open>Examples\<close>

text \<open>A descriptor with room for one section in its first block, so that the second needs a new block.\<close>

definition demo_list_elf :: "nat \<Rightarrow> Eu_Elf" where
  "demo_list_elf n =
     \<lparr>ee_map_address = None, ee_parent = None, ee_next = None, ee_kind = ELF_K_ELF, ee_cmd = EU_C_WRITE,
      ee_class = ELFCLASS64, ee_fildes = 3, ee_start_offset = 0, ee_maximum_size = 0, ee_flags = 0, ee_ref_count = 1,
      ee_ehdr = None, ee_shdr = False, ee_phdr = None,
      ee_scns = [\<lparr>sl_cnt = of_nat n, sl_max = 1, sl_data =
        [zero_scn\<lparr>sc_elf := Some 0, sc_list := Some 0, sc_shdr := Some (zero_shdr ELFCLASS64)\<rparr>]\<rparr>],
      ee_scns_last = Some 0, ee_scnincr = 10, ee_ehdr_flags = 0, ee_phdr_flags = 0, ee_shdr_malloced = False,
      ee_children = None, ee_ar_sym = None, ee_ar_sym_num = 0, ee_long_names = None, ee_long_names_len = 0,
      ee_offset = 0, ee_ar_hdr = None\<rparr>"

definition demo_list_store :: "nat \<Rightarrow> bool list \<Rightarrow> eu_store" where
  "demo_list_store n fails =
     \<lparr>eu_mach = (initial_store ELFDATA2LSB (\<lambda>b. 0))\<lparr>oom := fails\<rparr>,
      eu_elfs = [0 \<mapsto> demo_list_elf n], eu_global_error = 0, eu_libelf_version = 1,
      eu_version_initialized = True, eu_fill_byte = 0\<rparr>"

lemma demo_list:
  assumes "n \<le> 1"
  shows "scns_wf (demo_list_elf n)" "eu_sections 0 (demo_list_elf n) = replicate n (0, 0, 0)"
    "eu_elfs (demo_list_store n fails) 0 = Some (demo_list_elf n)"
proof -
  have "n = 0 \<or> n = 1" using assms by auto
  then show "scns_wf (demo_list_elf n)" "eu_sections 0 (demo_list_elf n) = replicate n (0, 0, 0)"
    "eu_elfs (demo_list_store n fails) 0 = Some (demo_list_elf n)"
    by (auto simp: scns_wf_def demo_list_elf_def demo_list_store_def block_wf_def zero_scn_def eu_sections_def)
qed

theorem eu_section_list_wf_witness:
  "(\<exists>r es'. eu_elf_newscn (Some 0) (demo_list_store 0 [True, False]) = Some (r, es'))
    \<and> (\<exists>r es'. eu_elf_getscn (Some 0) 0 (demo_list_store 0 [True, False]) = Some (r, es'))"
proof -
  have d: "unat (ee_scnincr (demo_list_elf 0)) < 2 ^ 30" "ee_kind (demo_list_elf 0) = ELF_K_ELF"
    by (simp_all add: demo_list_elf_def)
  show ?thesis
    using eu_section_list_wf [OF demo_list(3) [of 0 "[True, False]"] demo_list(1) d, of 0] by blast
qed

theorem eu_newscn_numbers_witness:
  "\<exists>s es'. eu_elf_newscn (Some 0) (demo_list_store 1 []) = Some (Some s, es') \<and> eu_elf_ndxscn (Some s) es' = Some 1
    \<and> walk (\<lambda>e s. eu_elf_nextscn (Some e) (Some s)) 2 0 (0, 0, 0) es' = Some [(0, 0, 0), s]"
proof -
  have "linked (0, 0, 0) (demo_list_store 1 [])"
    by (simp add: linked_def demo_list_store_def demo_list_elf_def eu_scn_def block_scn_def)
  then have "eu_sections_ready 0 [(0, 0, 0)] (demo_list_store 1 [])"
    using demo_list(1,2) [of 1] demo_list(3) [of 1 "[]"]
    by (simp add: eu_sections_ready_def incr_ok_def) (simp add: demo_list_elf_def demo_list_store_def initial_store_def)
  from eu_newscn_numbers [OF this] obtain s es' where
      "eu_elf_newscn (Some 0) (demo_list_store 1 []) = Some (Some s, es')" "eu_elf_ndxscn (Some s) es' = Some (of_nat 1)"
      "walk (\<lambda>e s. eu_elf_nextscn (Some e) (Some s)) (Suc 1) 0 (0, 0, 0) es' = Some [(0, 0, 0), s]"
    by (auto simp del: walk.simps)
  then show ?thesis unfolding Suc_1 of_nat_1 by blast
qed

end
