(* ===== verification/Eu_Headers.thy ===== *)
theory Eu_Headers
  imports Eu_Sections
begin

text \<open>
  The headers of elfutils: the ELF header (\<open>elf32_getehdr.c\<close>, \<open>elf32_newehdr.c\<close>,
  \<open>gelf_getehdr.c\<close>, \<open>gelf_update_ehdr.c\<close>), the program headers (\<open>elf32_getphdr.c\<close>,
  \<open>elf32_newphdr.c\<close>, \<open>gelf_getphdr.c\<close>, \<open>gelf_update_phdr.c\<close>), the section headers
  (\<open>elf32_getshdr.c\<close>, \<open>gelf_getshdr.c\<close>, \<open>gelf_update_shdr.c\<close>, \<open>elf32_offscn.c\<close>) and the numbers
  (\<open>elf_getphdrnum.c\<close>, \<open>elf_getshdrnum.c\<close>, \<open>elf_getshdrstrndx.c\<close>).

  Each \<open>elf32_\<close> file is compiled a second time for the other class; the argument \<open>bits\<close> is that
  class.  Three things outside the sources are arguments: \<open>pread\<close> (the bytes that the system call
  delivers, \<open>None\<close> for an error), \<open>unaligned\<close> (the switch \<open>ALLOW_UNALIGNED\<close>), and the memory
  that holds the mapped file, which is part of the store.
\<close>

section \<open>Reading a file\<close>

type_synonym pread = "int \<Rightarrow> nat \<Rightarrow> nat \<Rightarrow> byte list option"

text \<open>\<open>pread_retry\<close> of \<open>system.h\<close>: the value returned and what is in the buffer by then.\<close>

function pread_retry_loop :: "pread \<Rightarrow> int \<Rightarrow> nat \<Rightarrow> nat \<Rightarrow> byte list \<Rightarrow> int \<times> byte list" where
  "pread_retry_loop pr fd len off got =
     (case pr fd (len - length got) (off + length got) of
        None \<Rightarrow> (-1, got)
      | Some bs \<Rightarrow>
          if bs = [] then (int (length got), got)
          else if length (got @ bs) < len then pread_retry_loop pr fd len off (got @ bs)
          else (int (length (got @ bs)), got @ bs))"
  by pat_completeness auto

termination
  by (relation "measure (\<lambda>(pr, fd, len, off, got). len - length got)") (auto simp flip: length_greater_0_conv)

definition pread_retry :: "pread \<Rightarrow> int \<Rightarrow> nat \<Rightarrow> nat \<Rightarrow> int \<times> byte list" where
  "pread_retry pr fd len off = pread_retry_loop pr fd len off []"

section \<open>The ELF header\<close>

definition zero_ehdr :: "int \<Rightarrow> Ehdr" where
  "zero_ehdr ec =
     (if ec = ELFCLASS32 then
        Ehdr32 \<lparr>eh_ident = replicate EI_NIDENT 0, eh_type = 0, eh_machine = 0, eh_version = 0, eh_entry = 0,
          eh_phoff = 0, eh_shoff = 0, eh_flags = 0, eh_ehsize = 0, eh_phentsize = 0, eh_phnum = 0,
          eh_shentsize = 0, eh_shnum = 0, eh_shstrndx = 0\<rparr>
      else
        Ehdr64 \<lparr>eh_ident = replicate EI_NIDENT 0, eh_type = 0, eh_machine = 0, eh_version = 0, eh_entry = 0,
          eh_phoff = 0, eh_shoff = 0, eh_flags = 0, eh_ehsize = 0, eh_phentsize = 0, eh_phnum = 0,
          eh_shentsize = 0, eh_shnum = 0, eh_shstrndx = 0\<rparr>)"

definition eu_getehdr :: "int \<Rightarrow> nat option \<Rightarrow> eu_store \<Rightarrow> (Ehdr option \<times> eu_store) option" where
  "eu_getehdr bits er es =
     (case er of None \<Rightarrow> Some (None, es)
      | Some e \<Rightarrow>
          do { elf \<leftarrow> eu_elfs es e;
               if ee_kind elf \<noteq> ELF_K_ELF then Some (None, eu_seterrno EU_E_INVALID_HANDLE es)
               else if ee_class elf = ELFCLASSNONE then Some (ee_ehdr elf, eu_put_elf e (elf\<lparr>ee_class := bits\<rparr>) es)
               else if ee_class elf \<noteq> bits then Some (None, eu_seterrno EU_E_INVALID_CLASS es)
               else Some (ee_ehdr elf, es) })"

definition eu_newehdr :: "int \<Rightarrow> nat option \<Rightarrow> eu_store \<Rightarrow> (Ehdr option \<times> eu_store) option" where
  "eu_newehdr bits er es =
     (case er of None \<Rightarrow> Some (None, es)
      | Some e \<Rightarrow>
          do { elf \<leftarrow> eu_elfs es e;
               if ee_kind elf \<noteq> ELF_K_ELF then Some (None, eu_seterrno EU_E_INVALID_HANDLE es)
               else if ee_class elf \<noteq> ELFCLASSNONE \<and> ee_class elf \<noteq> bits
               then Some (None, eu_seterrno EU_E_INVALID_CLASS es)
               else
                 let elf = elf\<lparr>ee_class := bits\<rparr>;
                     elf = (if ee_ehdr elf = None
                       then elf\<lparr>ee_ehdr := Some (zero_ehdr bits), ee_ehdr_flags := ee_ehdr_flags elf OR EU_F_DIRTY\<rparr>
                       else elf)
                 in Some (ee_ehdr elf, eu_put_elf e elf es) })"

definition eu_gelf_newehdr :: "nat option \<Rightarrow> int \<Rightarrow> eu_store \<Rightarrow> (Ehdr option \<times> eu_store) option" where
  "eu_gelf_newehdr er ec es = (if ec = ELFCLASS32 then eu_newehdr ELFCLASS32 er es else eu_newehdr ELFCLASS64 er es)"

definition eu_gelf_getehdr :: "nat option \<Rightarrow> eu_store \<Rightarrow> (GElf_Ehdr option \<times> eu_store) option" where
  "eu_gelf_getehdr er es =
     (case er of None \<Rightarrow> Some (None, es)
      | Some e \<Rightarrow>
          do { elf \<leftarrow> eu_elfs es e;
               if ee_kind elf \<noteq> ELF_K_ELF then Some (None, eu_seterrno EU_E_INVALID_HANDLE es)
               else
                 (case ee_ehdr elf of None \<Rightarrow> Some (None, eu_seterrno EU_E_WRONG_ORDER_EHDR es)
                  | Some (Ehdr32 h) \<Rightarrow> do { assert_that (ee_class elf = ELFCLASS32); Some (Some (ehdr_widen h), es) }
                  | Some (Ehdr64 h) \<Rightarrow> do { assert_that (ee_class elf \<noteq> ELFCLASS32); Some (Some h, es) }) })"

definition eu_ehdr_narrow :: "GElf_Ehdr \<Rightarrow> 32 Elf_Ehdr" where
  "eu_ehdr_narrow s =
     \<lparr>eh_ident = eh_ident s, eh_type = eh_type s, eh_machine = eh_machine s, eh_version = eh_version s,
      eh_entry = ucast (eh_entry s), eh_phoff = ucast (eh_phoff s), eh_shoff = ucast (eh_shoff s),
      eh_flags = eh_flags s, eh_ehsize = eh_ehsize s, eh_phentsize = eh_phentsize s, eh_phnum = eh_phnum s,
      eh_shentsize = eh_shentsize s, eh_shnum = eh_shnum s, eh_shstrndx = eh_shstrndx s\<rparr>"

definition eu_gelf_update_ehdr :: "nat option \<Rightarrow> GElf_Ehdr \<Rightarrow> eu_store \<Rightarrow> (u32 \<times> eu_store) option" where
  "eu_gelf_update_ehdr er src es =
     (case er of None \<Rightarrow> Some (0, es)
      | Some e \<Rightarrow>
          do { elf \<leftarrow> eu_elfs es e;
               if ee_kind elf \<noteq> ELF_K_ELF then Some (0, eu_seterrno EU_E_INVALID_HANDLE es)
               else if ee_ehdr elf = None then Some (0, eu_seterrno EU_E_WRONG_ORDER_EHDR es)
               else if ee_class elf = ELFCLASS32 \<and>
                 (eh_entry src > 0xFFFFFFFF \<or> eh_phoff src > 0xFFFFFFFF \<or> eh_shoff src > 0xFFFFFFFF)
               then Some (0, eu_seterrno EU_E_INVALID_DATA es)
               else
                 Some (1, eu_put_elf e (elf\<lparr>
                   ee_ehdr := Some (if ee_class elf = ELFCLASS32 then Ehdr32 (eu_ehdr_narrow src) else Ehdr64 src),
                   ee_ehdr_flags := ee_ehdr_flags elf OR EU_F_DIRTY\<rparr>) es) })"

section \<open>Byte order and tables in the file\<close>

primrec ehdr_ident :: "Ehdr \<Rightarrow> byte list" where
  "ehdr_ident (Ehdr32 h) = eh_ident h"
| "ehdr_ident (Ehdr64 h) = eh_ident h"

text \<open>\<open>e_ident[EI_DATA] == MY_ELFDATA\<close>, and the byte order in which the code takes the file to be.\<close>

definition data_matches :: "Ehdr \<Rightarrow> store \<Rightarrow> bool" where
  "data_matches eh st \<longleftrightarrow> ucast (ehdr_ident eh ! EI_DATA) = host_order st"

definition data_order :: "Ehdr \<Rightarrow> store \<Rightarrow> u32" where
  "data_order eh st =
     (if data_matches eh st then host_order st
      else if host_order st = ELFDATA2LSB then ELFDATA2MSB else ELFDATA2LSB)"

definition phdr_layout :: "int \<Rightarrow> layout" where
  "phdr_layout ec = (if ec = ELFCLASS64 then Elf64_Phdr_DEF else Elf32_Phdr_DEF)"

text \<open>The headers that bytes in a given order stand for, one behind the other.\<close>

definition table_entries :: "int \<Rightarrow> layout \<Rightarrow> nat \<Rightarrow> byte list \<Rightarrow> struct_val list" where
  "table_entries ec def n bs = map (\<lambda>i. mem_struct ec def (segment (i * struct_size ec def) (struct_size ec def) bs)) [0..<n]"

definition shdr_table :: "int \<Rightarrow> u32 \<Rightarrow> nat \<Rightarrow> byte list \<Rightarrow> Shdr list" where
  "shdr_table ec order n bs = map (shdr_object ec order) (table_entries ec (shdr_layout ec) n bs)"

definition phdr_table :: "int \<Rightarrow> u32 \<Rightarrow> nat \<Rightarrow> byte list \<Rightarrow> Phdrs" where
  "phdr_table ec order n bs = phdr_objects ec order (table_entries ec (phdr_layout ec) n bs)"

definition shdr_msize :: "int \<Rightarrow> nat" where
  "shdr_msize ec = struct_size ec (shdr_layout ec)"

definition phdr_msize :: "int \<Rightarrow> nat" where
  "phdr_msize ec = struct_size ec (phdr_layout ec)"

text \<open>The address of an object in the mapped file, and whether it has the alignment of a type.\<close>

definition in_map :: "Eu_Elf \<Rightarrow> u64 \<Rightarrow> ptr" where
  "in_map elf off = ptr_add (ptr_add (ee_map_address elf) (ee_start_offset elf)) off"

definition is_aligned :: "int \<Rightarrow> layout \<Rightarrow> ptr \<Rightarrow> store \<Rightarrow> bool" where
  "is_aligned ec def p st \<longleftrightarrow> unat (addr p st) mod struct_align ec def = 0"

section \<open>The numbers of headers\<close>

definition eu_scn0 :: "Eu_Elf \<Rightarrow> Eu_Scn option" where
  "eu_scn0 elf = block_scn elf 0 0"

text \<open>The first result is \<open>None\<close> for -1.\<close>

definition eu_getphdrnum_rdlock :: "nat \<Rightarrow> eu_store \<Rightarrow> (u64 option \<times> eu_store) option" where
  "eu_getphdrnum_rdlock e es =
     do { elf \<leftarrow> eu_elfs es e;
          case ee_ehdr elf of None \<Rightarrow> Some (None, eu_seterrno EU_E_WRONG_ORDER_EHDR es)
          | Some eh \<Rightarrow>
              let dst = ucast (ehdr_phnum eh)
              in if dst = PN_XNUM then
                   do { assert_that (ee_scns elf \<noteq> []);
                        if sl_cnt (hd (ee_scns elf)) > 0 then
                          do { scn0 \<leftarrow> eu_scn0 elf;
                               case sc_shdr scn0 of None \<Rightarrow> Some (Some dst, es)
                               | Some sh \<Rightarrow> Some (Some (ucast (shdr_info sh)), es) }
                        else Some (Some dst, es) }
                 else Some (Some dst, es) }"

text \<open>
  When there is no ELF header the check below goes on to read \<open>e_phoff\<close> through the null pointer.
  The value is what is stored in \<open>*dst\<close> when 0 is returned.
\<close>

definition eu_getphdrnum_chk :: "nat \<Rightarrow> eu_store \<Rightarrow> (u64 option \<times> eu_store) option" where
  "eu_getphdrnum_chk e es =
     do { (n, es) \<leftarrow> eu_getphdrnum_rdlock e es;
          elf \<leftarrow> eu_elfs es e;
          if ee_phdr elf \<noteq> None then Some (n, es)
          else
            do { eh \<leftarrow> ee_ehdr elf;
                 dst \<leftarrow> n;
                 let off = ehdr_phoff eh;
                 let phdr_size = of_nat (phdr_msize (if ee_class elf = ELFCLASS32 then ELFCLASS32 else ELFCLASS64));
                 if off = 0 then Some (Some 0, es)
                 else if off \<ge> ee_maximum_size elf then Some (None, eu_seterrno EU_E_INVALID_DATA es)
                 else if dst > (-1) div phdr_size then Some (None, eu_seterrno EU_E_INVALID_DATA es)
                 else if ee_maximum_size elf - off < dst * phdr_size
                 then Some (Some ((ee_maximum_size elf - off) div phdr_size), es)
                 else Some (Some dst, es) } }"

definition eu_elf_getphdrnum :: "nat option \<Rightarrow> eu_store \<Rightarrow> (u64 option \<times> eu_store) option" where
  "eu_elf_getphdrnum er es =
     (case er of None \<Rightarrow> Some (None, es)
      | Some e \<Rightarrow>
          do { elf \<leftarrow> eu_elfs es e;
               if ee_kind elf \<noteq> ELF_K_ELF then Some (None, eu_seterrno EU_E_INVALID_HANDLE es)
               else eu_getphdrnum_chk e es })"

definition eu_elf_getshdrnum :: "nat option \<Rightarrow> eu_store \<Rightarrow> (u64 option \<times> eu_store) option" where
  "eu_elf_getshdrnum er es =
     (case er of None \<Rightarrow> Some (None, es)
      | Some e \<Rightarrow>
          do { elf \<leftarrow> eu_elfs es e;
               if ee_kind elf \<noteq> ELF_K_ELF then Some (None, eu_seterrno EU_E_INVALID_HANDLE es)
               else
                 do { l \<leftarrow> ee_scns_last elf;
                      assert_that (l < length (ee_scns elf));
                      let idx = sl_cnt (ee_scns elf ! l);
                      if idx \<noteq> 0 \<or> l \<noteq> 0 then
                        do { assert_that (idx \<noteq> 0);
                             scn \<leftarrow> block_scn elf l (unat (idx - 1));
                             Some (Some (1 + sc_index scn), es) }
                      else Some (Some 0, es) } })"

definition eu_elf_getshdrstrndx :: "pread \<Rightarrow> bool \<Rightarrow> nat option \<Rightarrow> eu_store \<Rightarrow> (u64 option \<times> eu_store) option" where
  "eu_elf_getshdrstrndx pr unaligned er es =
     (case er of None \<Rightarrow> Some (None, es)
      | Some e \<Rightarrow>
          do { elf \<leftarrow> eu_elfs es e;
               if ee_kind elf \<noteq> ELF_K_ELF then Some (None, eu_seterrno EU_E_INVALID_HANDLE es)
               else
                 (case ee_ehdr elf of None \<Rightarrow> Some (None, eu_seterrno EU_E_WRONG_ORDER_EHDR es)
                  | Some eh \<Rightarrow>
                      if ucast (ehdr_shstrndx eh) \<noteq> SHN_XINDEX then Some (Some (ucast (ehdr_shstrndx eh)), es)
                      else
                        do { assert_that (ee_scns elf \<noteq> []);
                             if sl_cnt (hd (ee_scns elf)) = 0
                             then Some (None, eu_seterrno EU_E_INVALID_SECTION_HEADER es)
                             else
                               do { scn0 \<leftarrow> eu_scn0 elf;
                                    case sc_shdr scn0 of Some sh \<Rightarrow> Some (Some (ucast (shdr_link sh)), es)
                                    | None \<Rightarrow>
                                        (let ec = (if ee_class elf = ELFCLASS32 then ELFCLASS32 else ELFCLASS64);
                                             n = shdr_msize ec;
                                             offset = ehdr_shoff eh;
                                             p = in_map elf offset;
                                             st = eu_mach es
                                         in if ee_map_address elf \<noteq> None \<and> data_matches eh st
                                               \<and> (unaligned \<or> is_aligned ec (shdr_layout ec) p st)
                                            then
                                              (if ee_maximum_size elf - offset < of_nat n
                                               then Some (None, eu_seterrno EU_E_INVALID_SECTION_HEADER es)
                                               else
                                                 do { bs \<leftarrow> read_bytes p n st;
                                                      let sh = shdr_table ec (host_order st) 1 bs ! 0;
                                                      Some (Some (ucast (shdr_link sh)), es) })
                                            else
                                              (case pread_retry pr (ee_fildes elf) n (unat offset) of (r, bs) \<Rightarrow>
                                                 if r \<noteq> int n
                                                 then Some (None, eu_seterrno (if r < 0 then EU_E_INVALID_FILE else EU_E_INVALID_ELF) es)
                                                 else
                                                   let sh = shdr_table ec (data_order eh st) 1 bs ! 0
                                                   in Some (Some (ucast (shdr_link sh)), es))) } }) })"

section \<open>The program header table\<close>

text \<open>
  Without \<open>unaligned\<close> a table that is not aligned in the map, or has the other byte order, goes
  through a second allocation; when that fails the pointer to the first stays in the descriptor.
\<close>

definition eu_getphdr_wrlock :: "pread \<Rightarrow> bool \<Rightarrow> int \<Rightarrow> nat \<Rightarrow> eu_store \<Rightarrow> (Phdrs option \<times> eu_store) option" where
  "eu_getphdr_wrlock pr unaligned bits e es =
     do { elf \<leftarrow> eu_elfs es e;
          if ee_phdr elf \<noteq> None then Some (ee_phdr elf, es)
          else if ee_class elf \<noteq> ELFCLASSNONE \<and> ee_class elf \<noteq> bits
          then Some (None, eu_seterrno EU_E_INVALID_CLASS es)
          else
            do { let elf = elf\<lparr>ee_class := bits\<rparr>;
                 (n, es) \<leftarrow> eu_getphdrnum_rdlock e (eu_put_elf e elf es);
                 case n of None \<Rightarrow> Some (None, es)
                 | Some phnum \<Rightarrow>
                     do { eh \<leftarrow> ee_ehdr elf;
                          let phoff = ehdr_phoff eh;
                          let msz = of_nat (phdr_msize bits);
                          let size = phnum * msz;
                          let st = eu_mach es;
                          if phnum = 0 \<or> phoff = 0 then Some (None, eu_seterrno EU_E_NO_PHDR es)
                          else if phnum > (-1) div msz \<or> phoff > ee_maximum_size elf \<or> ee_maximum_size elf - phoff < size
                          then Some (None, eu_seterrno EU_E_INVALID_DATA es)
                          else if ee_map_address elf \<noteq> None then
                            (if phoff \<ge> ee_maximum_size elf \<or> ee_maximum_size elf - phoff < size
                             then Some (None, eu_seterrno EU_E_INVALID_PHDR es)
                             else
                               do { let p = in_map elf phoff;
                                    let aligned = (unaligned \<or> is_aligned bits (phdr_layout bits) p st);
                                    bs \<leftarrow> read_bytes p (unat size) st;
                                    let ph = phdr_table bits (data_order eh st) (unat phnum) bs;
                                    if data_matches eh st \<and> aligned
                                    then Some (Some ph, eu_put_elf e (elf\<lparr>ee_phdr := Some ph\<rparr>) es)
                                    else
                                      do { let (ok, es) = eu_alloc es;
                                           if \<not> ok then Some (None, eu_seterrno EU_E_NOMEM es)
                                           else
                                             do { let flags = ee_phdr_flags elf OR (EU_F_MALLOCED OR EU_F_DIRTY);
                                                  let done = eu_put_elf e (elf\<lparr>ee_phdr := Some ph, ee_phdr_flags := flags\<rparr>);
                                                  if data_matches eh st then Some (Some ph, done es)
                                                  else if aligned then Some (Some ph, done es)
                                                  else
                                                    let (ok, es) = eu_alloc es
                                                    in if ok then Some (Some ph, done es)
                                                       else Some (None, eu_seterrno EU_E_NOMEM (eu_put_elf e (elf\<lparr>
                                                         ee_phdr := Some (phdr_table bits (data_order eh st) (unat phnum)
                                                           (replicate (unat size) 0)), ee_phdr_flags := flags\<rparr>) es)) } } })
                          else if ee_fildes elf \<noteq> -1 then
                            do { let (ok, es) = eu_alloc es;
                                 if \<not> ok then Some (None, eu_seterrno EU_E_NOMEM es)
                                 else
                                   do { let elf = elf\<lparr>ee_phdr_flags := ee_phdr_flags elf OR EU_F_MALLOCED\<rparr>;
                                        let (r, bs) = pread_retry pr (ee_fildes elf) (unat size) (unat (ee_start_offset elf + phoff));
                                        if r \<noteq> int (unat size)
                                        then Some (None, eu_seterrno EU_E_READ_ERROR (eu_put_elf e elf es))
                                        else
                                          let ph = phdr_table bits (data_order eh st) (unat phnum) bs
                                          in Some (Some ph, eu_put_elf e (elf\<lparr>ee_phdr := Some ph\<rparr>) es) } }
                          else Some (None, eu_seterrno EU_E_FD_DISABLED es) } } }"

definition eu_getphdr :: "pread \<Rightarrow> bool \<Rightarrow> int \<Rightarrow> nat option \<Rightarrow> eu_store \<Rightarrow> (Phdrs option \<times> eu_store) option" where
  "eu_getphdr pr unaligned bits er es =
     (case er of None \<Rightarrow> Some (None, es)
      | Some e \<Rightarrow>
          do { elf \<leftarrow> eu_elfs es e;
               if ee_kind elf \<noteq> ELF_K_ELF then Some (None, eu_seterrno EU_E_INVALID_HANDLE es)
               else if ee_phdr elf \<noteq> None then Some (ee_phdr elf, es)
               else eu_getphdr_wrlock pr unaligned bits e es })"

definition zero_phdrs :: "int \<Rightarrow> nat \<Rightarrow> Phdrs" where
  "zero_phdrs ec n =
     (if ec = ELFCLASS32 then Phdrs32 (replicate n zero_Elf_Phdr) else Phdrs64 (replicate n zero_Elf_Phdr))"

definition set_ehdr_phdrs :: "u16 \<Rightarrow> u16 \<Rightarrow> Ehdr \<Rightarrow> Ehdr" where
  "set_ehdr_phdrs num entsize =
     map_ehdr (\<lambda>h. h\<lparr>eh_phnum := num, eh_phentsize := entsize\<rparr>) (\<lambda>h. h\<lparr>eh_phnum := num, eh_phentsize := entsize\<rparr>)"

definition set_shdr_info :: "u32 \<Rightarrow> Shdr \<Rightarrow> Shdr" where
  "set_shdr_info v = map_shdr (\<lambda>h. h\<lparr>sh_info := v\<rparr>) (\<lambda>h. h\<lparr>sh_info := v\<rparr>)"

text \<open>
  \<open>realloc\<close> of a table that is not on the heap is undefined; a table read in without
  \<open>ELF_F_MALLOCED\<close> lies in the map.
\<close>

definition eu_newphdr :: "int \<Rightarrow> nat option \<Rightarrow> u64 \<Rightarrow> eu_store \<Rightarrow> (Phdrs option \<times> eu_store) option" where
  "eu_newphdr bits er count es =
     (case er of None \<Rightarrow> Some (None, es)
      | Some e \<Rightarrow>
          do { elf \<leftarrow> eu_elfs es e;
               if ee_kind elf \<noteq> ELF_K_ELF then Some (None, eu_seterrno EU_E_INVALID_HANDLE es)
               else if ucast (ucast count :: u32) \<noteq> count then Some (None, eu_seterrno EU_E_INVALID_OPERAND es)
               else if ee_class elf \<noteq> ELFCLASSNONE \<and> ee_class elf \<noteq> bits
               then Some (None, eu_seterrno EU_E_INVALID_CLASS es)
               else
                 do { let elf = elf\<lparr>ee_class := bits\<rparr>;
                      let es = eu_put_elf e elf es;
                      let msz = phdr_msize bits;
                      let malloced = (ee_phdr_flags elf AND EU_F_MALLOCED \<noteq> 0);
                      case ee_ehdr elf of None \<Rightarrow> Some (None, eu_seterrno EU_E_WRONG_ORDER_EHDR es)
                      | Some eh \<Rightarrow>
                          if count = 0 then
                            (if ee_phdr elf = None then Some (None, es)
                             else
                               do { assert_that (ee_scns elf \<noteq> []);
                                    es \<leftarrow> (if sl_cnt (hd (ee_scns elf)) > 0 then
                                            do { scn0 \<leftarrow> eu_scn0 elf;
                                                 sh \<leftarrow> sc_shdr scn0;
                                                 Some (eu_put_scn (e, 0, 0) (scn0\<lparr>sc_shdr := Some (set_shdr_info 0 sh)\<rparr>) es) }
                                          else Some es);
                                    elf \<leftarrow> eu_elfs es e;
                                    Some (None, eu_seterrno EU_E_NOERROR (eu_put_elf e (elf\<lparr>ee_phdr := None,
                                      ee_ehdr := Some (set_ehdr_phdrs 0 (of_nat msz) eh),
                                      ee_phdr_flags := ee_phdr_flags elf OR EU_F_DIRTY,
                                      ee_flags := ee_flags elf OR EU_F_DIRTY\<rparr>) es)) })
                          else if ucast (ehdr_phnum eh) \<noteq> count \<or> count = PN_XNUM \<or> ee_phdr elf = None then
                            (if count > (-1) div of_nat msz then Some (None, eu_seterrno EU_E_INVALID_INDEX es)
                             else
                               do { scn0 \<leftarrow> eu_scn0 elf;
                                    if count \<ge> PN_XNUM \<and> sc_shdr scn0 = None
                                    then Some (None, eu_seterrno EU_E_INVALID_SECTION_HEADER es)
                                    else
                                      do { assert_that (ee_phdr elf = None \<or> malloced);
                                           let (ok, es) = eu_alloc es;
                                           if \<not> ok then Some (None, eu_seterrno EU_E_NOMEM es)
                                           else
                                             do { let ph = zero_phdrs bits (unat count);
                                                  es \<leftarrow> (if count \<ge> PN_XNUM then
                                                          do { assert_that (sl_cnt (hd (ee_scns elf)) > 0 \<or> sl_max (hd (ee_scns elf)) > 0);
                                                               sh \<leftarrow> sc_shdr scn0;
                                                               let es = (if sl_cnt (hd (ee_scns elf)) = 0
                                                                 then eu_put_elf e (elf\<lparr>ee_scns :=
                                                                   (ee_scns elf)[0 := (ee_scns elf ! 0)\<lparr>sl_cnt := 1\<rparr>]\<rparr>) es
                                                                 else es);
                                                               Some (eu_put_scn (e, 0, 0) (scn0\<lparr>
                                                                 sc_shdr := Some (set_shdr_info (ucast count) sh),
                                                                 sc_shdr_flags := sc_shdr_flags scn0 OR EU_F_DIRTY\<rparr>) es) }
                                                        else Some es);
                                                  elf \<leftarrow> eu_elfs es e;
                                                  Some (Some ph, eu_put_elf e (elf\<lparr>ee_phdr := Some ph,
                                                    ee_ehdr := Some (set_ehdr_phdrs (if count \<ge> PN_XNUM then 0xFFFF else ucast count) (of_nat msz) eh),
                                                    ee_phdr_flags := ee_phdr_flags elf OR (EU_F_DIRTY OR EU_F_MALLOCED),
                                                    ee_flags := ee_flags elf OR EU_F_DIRTY\<rparr>) es) } } })
                          else
                            do { let entsize = (case eh of Ehdr32 h \<Rightarrow> eh_phentsize h | Ehdr64 h \<Rightarrow> eh_phentsize h);
                                 assert_that (unat entsize = msz);
                                 let ph = zero_phdrs bits (unat count);
                                 Some (Some ph, eu_put_elf e (elf\<lparr>ee_phdr := Some ph,
                                   ee_phdr_flags := ee_phdr_flags elf OR EU_F_DIRTY\<rparr>) es) } } })"

definition eu_gelf_newphdr :: "nat option \<Rightarrow> u64 \<Rightarrow> eu_store \<Rightarrow> (Phdrs option \<times> eu_store) option" where
  "eu_gelf_newphdr er n es =
     do { e \<leftarrow> er; elf \<leftarrow> eu_elfs es e;
          if ee_class elf = ELFCLASS32 then eu_newphdr ELFCLASS32 er n es else eu_newphdr ELFCLASS64 er n es }"

text \<open>Entries of the table.\<close>

definition phdrs_length :: "Phdrs \<Rightarrow> nat" where
  "phdrs_length ph = (case ph of Phdrs32 ps \<Rightarrow> length ps | Phdrs64 ps \<Rightarrow> length ps)"

definition eu_gelf_getphdr ::
  "pread \<Rightarrow> bool \<Rightarrow> nat option \<Rightarrow> u32 \<Rightarrow> bool \<Rightarrow> eu_store \<Rightarrow> (GElf_Phdr option \<times> eu_store) option"
where
  "eu_gelf_getphdr pr unaligned er ndx dst es =
     (case er of None \<Rightarrow> Some (None, es)
      | Some e \<Rightarrow>
          do { elf \<leftarrow> eu_elfs es e;
               if ee_kind elf \<noteq> ELF_K_ELF then Some (None, eu_seterrno EU_E_INVALID_HANDLE es)
               else if \<not> dst then Some (None, eu_seterrno EU_E_INVALID_OPERAND es)
               else
                 do { (ph, es) \<leftarrow> (if ee_phdr elf \<noteq> None then Some (ee_phdr elf, es)
                         else eu_getphdr pr unaligned (if ee_class elf = ELFCLASS32 then ELFCLASS32 else ELFCLASS64) er es);
                      case ph of None \<Rightarrow> Some (None, es)
                      | Some ph \<Rightarrow>
                          do { (n, es) \<leftarrow> eu_getphdrnum_chk e es;
                               case n of None \<Rightarrow> Some (None, eu_seterrno EU_E_INVALID_INDEX es)
                               | Some phnum \<Rightarrow>
                                   if scast ndx \<ge> phnum then Some (None, eu_seterrno EU_E_INVALID_INDEX es)
                                   else
                                     do { assert_that (0 \<le> sint ndx \<and> nat (sint ndx) < phdrs_length ph);
                                          case ph of
                                            Phdrs32 ps \<Rightarrow> do { assert_that (ee_class elf = ELFCLASS32);
                                                              Some (Some (phdr_widen (ps ! nat (sint ndx))), es) }
                                          | Phdrs64 ps \<Rightarrow> do { assert_that (ee_class elf \<noteq> ELFCLASS32);
                                                              Some (Some (ps ! nat (sint ndx)), es) } } } } })"

definition eu_phdr_fits :: "GElf_Phdr \<Rightarrow> bool" where
  "eu_phdr_fits s \<longleftrightarrow> \<not> (p_offset s > 0xFFFFFFFF \<or> p_vaddr s > 0xFFFFFFFF \<or> p_paddr s > 0xFFFFFFFF
     \<or> p_filesz s > 0xFFFFFFFF \<or> p_memsz s > 0xFFFFFFFF \<or> p_align s > 0xFFFFFFFF)"

definition eu_phdr_narrow :: "GElf_Phdr \<Rightarrow> 32 Elf_Phdr" where
  "eu_phdr_narrow s = \<lparr>p_type = p_type s, p_flags = p_flags s, p_offset = ucast (p_offset s), p_vaddr = ucast (p_vaddr s),
     p_paddr = ucast (p_paddr s), p_filesz = ucast (p_filesz s), p_memsz = ucast (p_memsz s), p_align = ucast (p_align s)\<rparr>"

text \<open>
  Here the index is compared as a signed number with \<open>e_phnum\<close>, so a negative one passes and the
  entry in front of the table is written.
\<close>

definition eu_gelf_update_phdr ::
  "pread \<Rightarrow> bool \<Rightarrow> nat option \<Rightarrow> u32 \<Rightarrow> GElf_Phdr \<Rightarrow> eu_store \<Rightarrow> (u32 \<times> eu_store) option"
where
  "eu_gelf_update_phdr pr unaligned er ndx src es =
     (case er of None \<Rightarrow> Some (0, es)
      | Some e \<Rightarrow>
          do { elf \<leftarrow> eu_elfs es e;
               if ee_kind elf \<noteq> ELF_K_ELF then Some (0, eu_seterrno EU_E_INVALID_HANDLE es)
               else if ee_class elf = ELFCLASS32 \<and> \<not> eu_phdr_fits src then Some (0, eu_seterrno EU_E_INVALID_DATA es)
               else
                 do { (ph, es) \<leftarrow> (if ee_phdr elf \<noteq> None then Some (ee_phdr elf, es)
                         else eu_getphdr_wrlock pr unaligned (if ee_class elf = ELFCLASS32 then ELFCLASS32 else ELFCLASS64) e es);
                      case ph of None \<Rightarrow> Some (0, es)
                      | Some ph \<Rightarrow>
                          do { elf \<leftarrow> eu_elfs es e;
                               eh \<leftarrow> ee_ehdr elf;
                               let num = ehdr_phnum eh;
                               (bad, es) \<leftarrow>
                                 (if sint ndx \<ge> int (unat num) then
                                    (if ucast num \<noteq> PN_XNUM then Some (True, es)
                                     else do { (n, es) \<leftarrow> eu_getphdrnum_rdlock e es;
                                               Some (case n of None \<Rightarrow> True | Some phnum \<Rightarrow> scast ndx \<ge> phnum, es) })
                                  else Some (False, es));
                               if bad then Some (0, eu_seterrno EU_E_INVALID_INDEX es)
                               else
                                 do { assert_that (0 \<le> sint ndx \<and> nat (sint ndx) < phdrs_length ph);
                                      elf \<leftarrow> eu_elfs es e;
                                      let i = nat (sint ndx);
                                      ph' \<leftarrow> (case ph of
                                          Phdrs32 ps \<Rightarrow> do { assert_that (ee_class elf = ELFCLASS32); Some (Phdrs32 (ps[i := eu_phdr_narrow src])) }
                                        | Phdrs64 ps \<Rightarrow> do { assert_that (ee_class elf \<noteq> ELFCLASS32); Some (Phdrs64 (ps[i := src])) });
                                      Some (1, eu_put_elf e (elf\<lparr>ee_phdr := Some ph',
                                        ee_phdr_flags := ee_phdr_flags elf OR EU_F_DIRTY\<rparr>) es) } } } })"

section \<open>The section headers\<close>

text \<open>
  The members \<open>shndx_index\<close> while a table of the other byte order is converted from the map: a
  section index table is entered at the symbol table it belongs to, other sections get -1.
\<close>

fun eu_note_shndx :: "nat \<Rightarrow> nat \<Rightarrow> Shdr list \<Rightarrow> Eu_Scn list \<Rightarrow> Eu_Scn list option" where
  "eu_note_shndx cnt shnum [] data = Some data"
| "eu_note_shndx cnt shnum (sh # shs) data =
     do { data \<leftarrow> (if shdr_type sh = SHT_SYMTAB_SHNDX \<and> unat (shdr_link sh) < shnum
             then do { assert_that (unat (shdr_link sh) < length data);
                       let i = unat (shdr_link sh);
                       Some (data[i := (data ! i)\<lparr>sc_shndx_index := sint (of_nat cnt :: u32)\<rparr>]) }
             else Some data);
          assert_that (cnt < length data);
          let data = (if sc_shndx_index (data ! cnt) = 0 then data[cnt := (data ! cnt)\<lparr>sc_shndx_index := -1\<rparr>] else data);
          eu_note_shndx (cnt + 1) shnum shs data }"

definition set_first_block :: "nat \<Rightarrow> Eu_Scn list \<Rightarrow> eu_store \<Rightarrow> eu_store option" where
  "set_first_block e data es =
     do { elf \<leftarrow> eu_elfs es e;
          assert_that (ee_scns elf \<noteq> []);
          Some (eu_put_elf e (elf\<lparr>ee_scns := (ee_scns elf)[0 := (ee_scns elf ! 0)\<lparr>sl_data := data\<rparr>]\<rparr>) es) }"

text \<open>
  The pointers of the sections are set to the headers: all headers are expected in the first
  block of the list.
\<close>

definition eu_point_scns :: "nat \<Rightarrow> Shdr list \<Rightarrow> eu_store \<Rightarrow> eu_store option" where
  "eu_point_scns e shs es =
     do { elf \<leftarrow> eu_elfs es e;
          assert_that (ee_scns elf \<noteq> []);
          let data = sl_data (hd (ee_scns elf));
          assert_that (length shs \<le> length data);
          set_first_block e (map2 (\<lambda>scn sh. scn\<lparr>sc_shdr := Some sh\<rparr>) (take (length shs) data) shs @ drop (length shs) data) es }"

definition eu_load_shdr :: "pread \<Rightarrow> bool \<Rightarrow> int \<Rightarrow> eu_scn_ref \<Rightarrow> eu_store \<Rightarrow> (Shdr option \<times> eu_store) option" where
  "eu_load_shdr pr unaligned bits s es =
     do { scn \<leftarrow> eu_scn s es;
          e \<leftarrow> sc_elf scn;
          elf \<leftarrow> eu_elfs es e;
          if sc_shdr scn \<noteq> None then Some (sc_shdr scn, es)
          else
            do { (n, es) \<leftarrow> eu_elf_getshdrnum (Some e) es;
                 let msz = of_nat (shdr_msize bits);
                 case n of None \<Rightarrow> Some (None, es)
                 | Some shnum \<Rightarrow>
                     if shnum > (-1) div msz then Some (None, es)
                     else
                       do { let size = shnum * msz;
                            let (ok, es) = eu_alloc es;
                            let st = eu_mach es;
                            if \<not> ok then Some (None, eu_seterrno EU_E_NOMEM (eu_put_elf e (elf\<lparr>ee_shdr := False\<rparr>) es))
                            else
                              do { let failed = (\<lambda>err es. (None, eu_seterrno err (eu_put_elf e (elf\<lparr>ee_shdr := False, ee_shdr_malloced := False\<rparr>) es)));
                                   let es = eu_put_elf e (elf\<lparr>ee_shdr := True, ee_shdr_malloced := True\<rparr>) es;
                                   eh \<leftarrow> ee_ehdr elf;
                                   let shoff = ehdr_shoff eh;
                                   let same = data_matches eh st;
                                   let finish = (\<lambda>shs es. do { es \<leftarrow> eu_point_scns e shs es;
                                     scn \<leftarrow> eu_scn s es; sh \<leftarrow> sc_shdr scn; Some (Some sh, es) });
                                   if ee_map_address elf \<noteq> None then
                                     (if shoff \<ge> ee_maximum_size elf \<or> ee_maximum_size elf - shoff < size
                                      then Some (failed EU_E_INVALID_SECTION_HEADER es)
                                      else
                                        do { let p = in_map elf shoff;
                                             let aligned = is_aligned bits (shdr_layout bits) p st;
                                             let private = (ee_flags elf AND EU_F_MALLOCED \<noteq> 0);
                                             assert_that (private \<or> \<not> same \<or> ee_cmd elf = EU_C_READ_MMAP \<or> (\<not> unaligned \<and> \<not> aligned));
                                             bs \<leftarrow> read_bytes p (unat size) st;
                                             let shs = shdr_table bits (data_order eh st) (unat shnum) bs;
                                             if same then
                                               do { assert_that (private \<or> ee_cmd elf = EU_C_READ_MMAP \<or> \<not> unaligned);
                                                    finish shs es }
                                             else
                                               do { let (ok, es) = (if unaligned \<or> aligned then (True, es) else eu_alloc es);
                                                    if \<not> ok then Some (None, eu_seterrno EU_E_NOMEM es)
                                                    else
                                                      do { elf \<leftarrow> eu_elfs es e;
                                                           assert_that (ee_scns elf \<noteq> []);
                                                           data \<leftarrow> eu_note_shndx 0 (unat shnum) shs (sl_data (hd (ee_scns elf)));
                                                           es \<leftarrow> set_first_block e data es;
                                                           finish shs es } } })
                                   else if ee_fildes elf \<noteq> -1 then
                                     (case pread_retry pr (ee_fildes elf) (unat size) (unat (ee_start_offset elf + shoff)) of (r, bs) \<Rightarrow>
                                        if r \<noteq> int (unat size) then Some (failed EU_E_READ_ERROR es)
                                        else finish (shdr_table bits (data_order eh st) (unat shnum) bs) es)
                                   else Some (failed EU_E_FD_DISABLED es) } } } }"

definition eu_getshdr :: "pread \<Rightarrow> bool \<Rightarrow> int \<Rightarrow> eu_scn_ref option \<Rightarrow> eu_store \<Rightarrow> (Shdr option \<times> eu_store) option" where
  "eu_getshdr pr unaligned bits sr es =
     (case sr of None \<Rightarrow> Some (None, es)
      | Some s \<Rightarrow>
          do { scn \<leftarrow> eu_scn s es;
               e \<leftarrow> sc_elf scn;
               elf \<leftarrow> eu_elfs es e;
               if ee_ehdr elf = None then Some (None, eu_seterrno EU_E_WRONG_ORDER_EHDR es)
               else if ee_class elf \<noteq> bits then Some (None, eu_seterrno EU_E_INVALID_CLASS es)
               else if sc_shdr scn \<noteq> None then Some (sc_shdr scn, es)
               else eu_load_shdr pr unaligned bits s es })"

definition eu_gelf_getshdr ::
  "pread \<Rightarrow> bool \<Rightarrow> eu_scn_ref option \<Rightarrow> bool \<Rightarrow> eu_store \<Rightarrow> (GElf_Shdr option \<times> eu_store) option"
where
  "eu_gelf_getshdr pr unaligned sr dst es =
     (case sr of None \<Rightarrow> Some (None, es)
      | Some s \<Rightarrow>
          if \<not> dst then Some (None, eu_seterrno EU_E_INVALID_OPERAND es)
          else
            do { scn \<leftarrow> eu_scn s es;
                 e \<leftarrow> sc_elf scn;
                 elf \<leftarrow> eu_elfs es e;
                 (sh, es) \<leftarrow> (if sc_shdr scn \<noteq> None then Some (sc_shdr scn, es)
                    else eu_getshdr pr unaligned (if ee_class elf = ELFCLASS32 then ELFCLASS32 else ELFCLASS64) sr es);
                 case sh of None \<Rightarrow> Some (None, eu_seterrno EU_E_INVALID_OPERAND es)
                 | Some (Shdr32 h) \<Rightarrow> do { assert_that (ee_class elf = ELFCLASS32); Some (Some (shdr_widen h), es) }
                 | Some (Shdr64 h) \<Rightarrow> do { assert_that (ee_class elf \<noteq> ELFCLASS32); Some (Some h, es) } })"

definition eu_shdr_fits :: "GElf_Shdr \<Rightarrow> bool" where
  "eu_shdr_fits s \<longleftrightarrow> \<not> (sh_flags s > 0xFFFFFFFF \<or> sh_addr s > 0xFFFFFFFF \<or> sh_offset s > 0xFFFFFFFF
     \<or> sh_size s > 0xFFFFFFFF \<or> sh_addralign s > 0xFFFFFFFF \<or> sh_entsize s > 0xFFFFFFFF)"

definition eu_shdr_narrow :: "GElf_Shdr \<Rightarrow> 32 Elf_Shdr" where
  "eu_shdr_narrow s = \<lparr>sh_name = sh_name s, sh_type = sh_type s, sh_flags = ucast (sh_flags s), sh_addr = ucast (sh_addr s),
     sh_offset = ucast (sh_offset s), sh_size = ucast (sh_size s), sh_link = sh_link s, sh_info = sh_info s,
     sh_addralign = ucast (sh_addralign s), sh_entsize = ucast (sh_entsize s)\<rparr>"

definition eu_gelf_update_shdr ::
  "pread \<Rightarrow> bool \<Rightarrow> eu_scn_ref option \<Rightarrow> GElf_Shdr option \<Rightarrow> eu_store \<Rightarrow> (u32 \<times> eu_store) option"
where
  "eu_gelf_update_shdr pr unaligned sr src es =
     (case (sr, src) of
        (Some s, Some src) \<Rightarrow>
          do { scn \<leftarrow> eu_scn s es;
               e \<leftarrow> sc_elf scn;
               elf \<leftarrow> eu_elfs es e;
               let ec = (if ee_class elf = ELFCLASS32 then ELFCLASS32 else ELFCLASS64);
               (sh, es) \<leftarrow> (if sc_shdr scn \<noteq> None then Some (sc_shdr scn, es) else eu_getshdr pr unaligned ec sr es);
               if sh = None then Some (0, eu_seterrno EU_E_INVALID_OPERAND es)
               else if ec = ELFCLASS32 \<and> \<not> eu_shdr_fits src then Some (0, eu_seterrno EU_E_INVALID_DATA es)
               else
                 do { scn \<leftarrow> eu_scn s es;
                      let h = (if ec = ELFCLASS32 then Shdr32 (eu_shdr_narrow src) else Shdr64 src);
                      Some (1, eu_put_scn s (scn\<lparr>sc_shdr := Some h, sc_shdr_flags := sc_shdr_flags scn OR EU_F_DIRTY\<rparr>) es) } }
      | _ \<Rightarrow> Some (0, es))"

text \<open>The index of the section with the extended section indices is a side effect of reading the header.\<close>

definition eu_elf_scnshndx :: "pread \<Rightarrow> bool \<Rightarrow> eu_scn_ref \<Rightarrow> eu_store \<Rightarrow> (int \<times> eu_store) option" where
  "eu_elf_scnshndx pr unaligned s es =
     do { scn \<leftarrow> eu_scn s es;
          if sc_shndx_index scn = 0 then
            do { (_, es) \<leftarrow> eu_gelf_getshdr pr unaligned (Some s) True es;
                 scn \<leftarrow> eu_scn s es;
                 Some (sc_shndx_index scn, es) }
          else Some (sc_shndx_index scn, es) }"

text \<open>
  The section at an offset: a section with contents ends the search, an empty one is the result
  as long as no other is found.  A section without a header is not looked for in the code, which
  reads through the null pointer.  The second result of the search in one block tells that the
  search has ended.
\<close>

fun eu_off_in_block :: "int \<Rightarrow> u64 \<Rightarrow> nat \<Rightarrow> Eu_Scn list \<Rightarrow> nat option \<Rightarrow> (nat option \<times> bool) option" where
  "eu_off_in_block bits offset i [] result = Some (result, False)"
| "eu_off_in_block bits offset i (scn # rest) result =
     do { sh \<leftarrow> sc_shdr scn;
          assert_that (shdr_class sh = bits);
          if shdr_offset sh = offset then
            (if shdr_size sh \<noteq> 0 \<and> shdr_type sh \<noteq> SHT_NOBITS then Some (Some i, True)
             else eu_off_in_block bits offset (i + 1) rest (Some i))
          else eu_off_in_block bits offset (i + 1) rest result }"

text \<open>The second result tells whether the search ran over the last block, which sets the error number.\<close>

fun eu_off_in_blocks ::
  "int \<Rightarrow> u64 \<Rightarrow> nat \<Rightarrow> Eu_ScnList list \<Rightarrow> (nat \<times> nat) option \<Rightarrow> ((nat \<times> nat) option \<times> bool) option"
where
  "eu_off_in_blocks bits offset k [] result = Some (result, True)"
| "eu_off_in_blocks bits offset k (b # bs) result =
     do { assert_that (unat (sl_cnt b) \<le> length (sl_data b));
          (i, found) \<leftarrow> eu_off_in_block bits offset 0 (take (unat (sl_cnt b)) (sl_data b)) None;
          let result = (case i of None \<Rightarrow> result | Some i \<Rightarrow> Some (k, i));
          if found then Some (result, False) else eu_off_in_blocks bits offset (k + 1) bs result }"

definition eu_offscn ::
  "pread \<Rightarrow> bool \<Rightarrow> int \<Rightarrow> nat option \<Rightarrow> u64 \<Rightarrow> eu_store \<Rightarrow> (eu_scn_ref option \<times> eu_store) option"
where
  "eu_offscn pr unaligned bits er offset es =
     (case er of None \<Rightarrow> Some (None, es)
      | Some e \<Rightarrow>
          do { elf \<leftarrow> eu_elfs es e;
               if ee_kind elf \<noteq> ELF_K_ELF then Some (None, eu_seterrno EU_E_INVALID_HANDLE es)
               else
                 do { assert_that (ee_scns elf \<noteq> []);
                      (ok, es) \<leftarrow>
                        (if sl_cnt (hd (ee_scns elf)) > 0 then
                           do { scn0 \<leftarrow> eu_scn0 elf;
                                if sc_shdr scn0 \<noteq> None then Some (True, es)
                                else do { (sh, es) \<leftarrow> eu_getshdr pr unaligned bits (Some (e, 0, 0)) es;
                                          Some (sh \<noteq> None, es) } }
                         else Some (True, es));
                      if \<not> ok then Some (None, es)
                      else
                        do { elf \<leftarrow> eu_elfs es e;
                             (r, last) \<leftarrow> eu_off_in_blocks bits offset 0 (ee_scns elf) None;
                             Some (map_option (\<lambda>(k, i). (e, k, i)) r,
                               if last then eu_seterrno EU_E_INVALID_OFFSET es else es) } } })"

definition eu_gelf_offscn ::
  "pread \<Rightarrow> bool \<Rightarrow> nat option \<Rightarrow> u64 \<Rightarrow> eu_store \<Rightarrow> (eu_scn_ref option \<times> eu_store) option"
where
  "eu_gelf_offscn pr unaligned er offset es =
     do { e \<leftarrow> er;
          elf \<leftarrow> eu_elfs es e;
          if ee_class elf = ELFCLASS32 then
            (if ucast (ucast offset :: u32) \<noteq> offset then Some (None, eu_seterrno EU_E_INVALID_OFFSET es)
             else eu_offscn pr unaligned ELFCLASS32 er offset es)
          else eu_offscn pr unaligned ELFCLASS64 er offset es }"

end
