(* ===== verification/Eu_Data.thy ===== *)
theory Eu_Data
  imports Eu_Xlate Eu_Headers Elf_Section_Data
begin

text \<open>
  The data of a section: the raw data, which is the bytes of the file (\<open>elf_rawdata.c\<close>), and the
  list of data in memory, whose first element is the raw data converted when it is first asked
  for (\<open>elf_getdata.c\<close>) and to which the program adds further elements (\<open>elf_newdata.c\<close>).

  Conversion may run for ever (see \<open>Eu_Chains\<close>), so the functions that convert have a number of
  steps as an argument and an \<open>outcome\<close> as result.
\<close>

section \<open>Types of sections and data\<close>

abbreviation (input) SHF_COMPRESSED :: u64 where "SHF_COMPRESSED \<equiv> 0x800"
abbreviation (input) EM_S390 :: u16 where "EM_S390 \<equiv> 22"
abbreviation (input) EM_ALPHA :: u16 where "EM_ALPHA \<equiv> 0x9026"

text \<open>\<open>shtype_map\<close>; the types that are not in the table are bytes.\<close>

definition eu_shtype_map :: "u32 \<Rightarrow> int" where
  "eu_shtype_map t =
     (if t = SHT_SYMTAB \<or> t = SHT_DYNSYM then EU_T_SYM
      else if t = SHT_RELA then EU_T_RELA
      else if t = SHT_HASH \<or> t = SHT_GROUP \<or> t = SHT_SYMTAB_SHNDX then EU_T_WORD
      else if t = SHT_DYNAMIC then EU_T_DYN
      else if t = SHT_REL then EU_T_REL
      else if t = SHT_INIT_ARRAY \<or> t = SHT_FINI_ARRAY \<or> t = SHT_PREINIT_ARRAY then EU_T_ADDR
      else if t = SHT_NOTE then EU_T_NHDR
      else if t = SHT_SUNW_verdef then EU_T_VDEF
      else if t = SHT_SUNW_verneed then EU_T_VNEED
      else if t = SHT_SUNW_versym then EU_T_HALF
      else if t = SHT_SUNW_syminfo then EU_T_SYMINFO
      else if t = SHT_SUNW_move then EU_T_MOVE
      else if t = SHT_GNU_LIBLIST then EU_T_LIB
      else if t = SHT_GNU_HASH then EU_T_GNUHASH
      else EU_T_BYTE)"

text \<open>\<open>__libelf_type_aligns\<close>, with 1 for the types that have no entry.\<close>

definition eu_type_align :: "int \<Rightarrow> int \<Rightarrow> nat" where
  "eu_type_align ec t =
     (case eu_fundamental t ec of Some n \<Rightarrow> n
      | None \<Rightarrow>
          (case eu_struct_layout t ec of Some def \<Rightarrow> struct_align ec def
           | None \<Rightarrow>
               if t = EU_T_VDEF then struct_align ec Elf_Verdef_DEF
               else if t = EU_T_VDAUX then struct_align ec Elf_Verdaux_DEF
               else if t = EU_T_VNEED then struct_align ec Elf_Verneed_DEF
               else if t = EU_T_VNAUX then struct_align ec Elf_Vernaux_DEF
               else if t = EU_T_MOVE \<or> t = EU_T_NHDR8 then 8
               else if t = EU_T_NHDR then struct_align ec Elf_Nhdr_DEF
               else if t = EU_T_GNUHASH then 4
               else if t = EU_T_CHDR then struct_align ec (if ec = ELFCLASS64 then Elf64_Chdr_DEF else Elf32_Chdr_DEF)
               else 1))"

definition ehdr_machine :: "Ehdr \<Rightarrow> u16" where
  "ehdr_machine eh = (case eh of Ehdr32 h \<Rightarrow> eh_machine h | Ehdr64 h \<Rightarrow> eh_machine h)"

definition SH_ENTSIZE_HASH :: "Ehdr \<Rightarrow> nat" where
  "SH_ENTSIZE_HASH eh =
     (if ehdr_machine eh = EM_ALPHA
         \<or> ehdr_machine eh = EM_S390 \<and> ucast (ehdr_ident eh ! EI_CLASS) = (of_int ELFCLASS64 :: u32) then 8 else 4)"

text \<open>\<open>__libelf_data_type\<close>; the header is read through the pointer without a test for \<open>NULL\<close>.\<close>

definition eu_data_type :: "Eu_Elf \<Rightarrow> u32 \<Rightarrow> u64 \<Rightarrow> int option" where
  "eu_data_type elf t align =
     (if t = SHT_HASH \<and> ee_class elf = ELFCLASS64 then
        do { assert_that (ee_kind elf = ELF_K_ELF);
             eh \<leftarrow> ee_ehdr elf;
             Some (if SH_ENTSIZE_HASH eh = 4 then EU_T_WORD else EU_T_XWORD) }
      else if eu_shtype_map t = EU_T_NHDR \<and> align = 8 then Some EU_T_NHDR8
      else Some (eu_shtype_map t))"

section \<open>Raw data\<close>

text \<open>The size of an entry that the size of a section must be a multiple of.\<close>

definition eu_raw_entsize :: "Eu_Elf \<Rightarrow> GElf_Shdr \<Rightarrow> nat option" where
  "eu_raw_entsize elf sh =
     (if sh_flags sh AND SHF_COMPRESSED \<noteq> 0 then Some 1
      else if sh_type sh = SHT_HASH then
        do { assert_that (ee_kind elf = ELF_K_ELF); eh \<leftarrow> ee_ehdr elf; Some (SH_ENTSIZE_HASH eh) }
      else
        let t = eu_shtype_map (sh_type sh)
        in if t = EU_T_VDEF \<or> t = EU_T_NHDR \<or> (t = EU_T_GNUHASH \<and> ee_class elf = ELFCLASS64) then Some 1
           else Some (eu_type_size (ee_class elf) t))"

text \<open>The buffer of the raw data: a pointer into the map, or memory into which the file is read.\<close>

definition eu_raw_buffer :: "pread \<Rightarrow> Eu_Elf \<Rightarrow> GElf_Shdr \<Rightarrow> eu_store \<Rightarrow> ((int + ptr) \<times> eu_store) option" where
  "eu_raw_buffer pr elf sh es =
     (let bad = sh_offset sh > ee_maximum_size elf \<or> ee_maximum_size elf - sh_offset sh < sh_size sh
      in if ee_map_address elf \<noteq> None then
           Some (if bad then (Inl EU_E_INVALID_SECTION_HEADER, es) else (Inr (in_map elf (sh_offset sh)), es))
         else if ee_fildes elf \<noteq> -1 then
           (if bad then Some (Inl EU_E_INVALID_SECTION_HEADER, es)
            else
              (case malloc (unat (sh_size sh)) (eu_mach es) of
                 (None, st) \<Rightarrow> Some (Inl EU_E_NOMEM, es\<lparr>eu_mach := st\<rparr>)
               | (Some b, st) \<Rightarrow>
                   (case pread_retry pr (ee_fildes elf) (unat (sh_size sh)) (unat (ee_start_offset elf + sh_offset sh)) of (r, bs) \<Rightarrow>
                      if r \<noteq> int (unat (sh_size sh)) then
                        do { st \<leftarrow> free_ptr (Some b) st; Some (Inl EU_E_READ_ERROR, es\<lparr>eu_mach := st\<rparr>) }
                      else do { st \<leftarrow> write_bytes (Some b) bs st; Some (Inr (Some b), es\<lparr>eu_mach := st\<rparr>) })))
         else Some (Inl EU_E_FD_DISABLED, es))"

text \<open>\<open>__libelf_set_rawdata_wrlock\<close>; the result tells whether it was successful.\<close>

definition eu_set_rawdata :: "pread \<Rightarrow> bool \<Rightarrow> eu_scn_ref \<Rightarrow> eu_store \<Rightarrow> (bool \<times> eu_store) option" where
  "eu_set_rawdata pr unaligned s es =
     do { scn \<leftarrow> eu_scn s es;
          e \<leftarrow> sc_elf scn;
          elf \<leftarrow> eu_elfs es e;
          let ec = (if ee_class elf = ELFCLASS32 then ELFCLASS32 else ELFCLASS64);
          (shdr, es) \<leftarrow> (if sc_shdr scn \<noteq> None then Some (sc_shdr scn, es) else eu_getshdr pr unaligned ec (Some s) es);
          case shdr of None \<Rightarrow> Some (False, es)
          | Some shdr \<Rightarrow>
              do { assert_that (shdr_class shdr = ec);
                   let sh = gshdr shdr;
                   let compressed = (sh_flags sh AND SHF_COMPRESSED \<noteq> 0);
                   let has_data = (sh_size sh \<noteq> 0 \<and> sh_type sh \<noteq> SHT_NOBITS);
                   elf \<leftarrow> eu_elfs es e;
                   (r, es) \<leftarrow>
                     (if \<not> has_data then Some (Inr None, es)
                      else
                        do { entsize \<leftarrow> eu_raw_entsize elf sh;
                             if sh_size sh mod of_nat entsize \<noteq> 0 then Some (Inl EU_E_INVALID_DATA, es)
                             else eu_raw_buffer pr elf sh es });
                   case r of Inl err \<Rightarrow> Some (False, eu_seterrno err es)
                   | Inr buf \<Rightarrow>
                       do { let align = (if has_data \<and> compressed then of_nat (eu_type_align (ee_class elf) EU_T_CHDR)
                                         else sh_addralign sh);
                            t \<leftarrow> (if compressed then Some EU_T_CHDR else eu_data_type elf (sh_type sh) align);
                            let align = (if align = 0 then 1 else align);
                            let align = (if sh_type sh \<noteq> SHT_NOBITS \<and> align > sh_offset sh then sh_offset sh else align);
                            eh \<leftarrow> ee_ehdr elf;
                            scn \<leftarrow> eu_scn s es;
                            let raw = (sc_rawdata scn)\<lparr>d_size := sh_size sh, d_type := t, d_off := 0, d_align := align,
                              d_version := ucast (ehdr_ident eh ! EI_VERSION)\<rparr>;
                            let raw = (if has_data then raw\<lparr>d_buf := buf\<rparr> else raw);
                            let base = (if has_data then buf else sc_rawdata_base scn);
                            Some (True, eu_put_scn s (scn\<lparr>sc_rawdata := raw, sc_rawdata_base := base,
                              sc_rawdata_scn := Some s, sc_data_read := True, sc_flags := sc_flags scn OR EU_F_FILEDATA\<rparr>) es) } } }"

definition eu_elf_rawdata ::
  "pread \<Rightarrow> bool \<Rightarrow> eu_scn_ref option \<Rightarrow> eu_data_ref option \<Rightarrow> eu_store \<Rightarrow> (eu_data_ref option \<times> eu_store) option"
where
  "eu_elf_rawdata pr unaligned sr dr es =
     (case sr of None \<Rightarrow> Some (None, eu_seterrno EU_E_INVALID_HANDLE es)
      | Some s \<Rightarrow>
          do { scn \<leftarrow> eu_scn s es;
               e \<leftarrow> sc_elf scn;
               elf \<leftarrow> eu_elfs es e;
               if ee_kind elf \<noteq> ELF_K_ELF then Some (None, eu_seterrno EU_E_INVALID_HANDLE es)
               else if dr \<noteq> None \<or> (sc_data_read scn \<and> sc_flags scn AND EU_F_FILEDATA = 0)
               then Some (None, eu_seterrno EU_E_DATA_MISMATCH es)
               else if sc_data_read scn then Some (Some (RawData s), es)
               else do { (ok, es) \<leftarrow> eu_set_rawdata pr unaligned s es;
                         Some (if ok then Some (RawData s) else None, es) } })"

section \<open>Converted data\<close>

text \<open>
  The bytes where they can be read directly: a copy where the raw data is not aligned.  The first
  result tells whether memory was short.
\<close>

definition eu_aligned_source :: "ptr \<Rightarrow> nat \<Rightarrow> nat \<Rightarrow> store \<Rightarrow> (bool \<times> ptr \<times> store) option" where
  "eu_aligned_source raw align n st =
     (if addr raw st AND (of_nat align - 1) = 0 then Some (True, raw, st)
      else
        (case malloc n st of
           (None, st) \<Rightarrow> Some (False, None, st)
         | (p, st) \<Rightarrow> do { st \<leftarrow> memcpy p raw n st; Some (True, p, st) }))"

text \<open>
  \<open>convert_data\<close>: whether the data is to be recorded, and the buffer of the converted data, which
  stays with the section when the copy of the source cannot be allocated.
\<close>

definition eu_convert_data :: "nat \<Rightarrow> Eu_Elf \<Rightarrow> Eu_Scn \<Rightarrow> store \<Rightarrow> (bool \<times> ptr \<times> store) outcome" where
  "eu_convert_data fuel elf scn st =
     (case ee_ehdr elf of None \<Rightarrow> Fault
      | Some eh \<Rightarrow>
          (let t = d_type (sc_rawdata scn);
               size = d_size (sc_rawdata scn);
               align = eu_type_align (ee_class elf) t;
               raw = sc_rawdata_base scn
           in if data_matches eh st \<or> t = EU_T_BYTE then of_option (eu_aligned_source raw align (unat size) st)
              else
                (case malloc (unat size) st of
                   (None, st) \<Rightarrow> Returned (False, None, st)
                 | (Some b, st) \<Rightarrow>
                     and_then (of_option (eu_aligned_source raw align (unat size) st))
                       (\<lambda>(ok, src, st).
                          if \<not> ok then Returned (False, Some b, st)
                          else
                            and_then (elf_xfct fuel (ee_class elf) t (Some b) src size False st)
                              (\<lambda>st. of_option
                                 (do { st \<leftarrow> (if src \<noteq> raw then free_ptr src st else Some st);
                                       Some (True, Some b, st) }))))))"

text \<open>The data that is part of the section is the first of the list.\<close>

definition set_first_data :: "Elf_Data \<Rightarrow> eu_scn_ref option \<Rightarrow> Eu_Scn \<Rightarrow> Eu_Scn" where
  "set_first_data d owner scn =
     scn\<lparr>sc_data_list := (case sc_data_list scn of
         [] \<Rightarrow> [\<lparr>dn_data = d, dn_scn = owner, dn_flags = 0\<rparr>]
       | x # xs \<Rightarrow> x\<lparr>dn_data := d, dn_scn := owner\<rparr> # xs)\<rparr>"

text \<open>
  \<open>__libelf_set_data_list_rdlock\<close>: also when memory was short the list counts as made, with the
  data as it was, which is cleared.
\<close>

definition eu_set_data_list :: "nat \<Rightarrow> eu_scn_ref \<Rightarrow> eu_store \<Rightarrow> eu_store outcome" where
  "eu_set_data_list fuel s es =
     and_then (of_option (do { scn \<leftarrow> eu_scn s es; e \<leftarrow> sc_elf scn; elf \<leftarrow> eu_elfs es e; Some (scn, elf) }))
       (\<lambda>(scn, elf).
          let raw = sc_rawdata scn;
              rear = (\<lambda>scn. scn\<lparr>sc_data_rear := Some 0\<rparr>)
          in if d_buf raw \<noteq> None \<and> d_size raw > 0 then
               and_then (eu_convert_data fuel elf scn (eu_mach es))
                 (\<lambda>(ok, base, st).
                    let es = es\<lparr>eu_mach := st\<rparr>; scn = scn\<lparr>sc_data_base := base\<rparr>
                    in if ok then
                         Returned (eu_put_scn s (rear (set_first_data (raw\<lparr>d_buf := base\<rparr>) (Some s) scn)) es)
                       else
                         (let scn = (if sc_data_list scn = [] then set_first_data zero_data None scn else scn)
                          in Returned (eu_put_scn s (rear scn) (eu_seterrno EU_E_NOMEM es))))
             else Returned (eu_put_scn s (rear (set_first_data raw (Some s) scn)) es))"

text \<open>The element of the list that a pointer to data is.\<close>

definition node_at :: "eu_scn_ref \<Rightarrow> Eu_Scn \<Rightarrow> eu_data_ref \<Rightarrow> nat option" where
  "node_at s scn d = (case d of ListData s' j \<Rightarrow> if s' = s \<and> j < length (sc_data_list scn) then Some j else None
     | RawData s' \<Rightarrow> None)"

definition eu_elf_getdata ::
  "nat \<Rightarrow> pread \<Rightarrow> bool \<Rightarrow> eu_scn_ref option \<Rightarrow> eu_data_ref option \<Rightarrow> eu_store \<Rightarrow> (eu_data_ref option \<times> eu_store) outcome"
where
  "eu_elf_getdata fuel pr unaligned sr dr es =
     (case sr of None \<Rightarrow> Returned (None, es)
      | Some s \<Rightarrow>
          and_then (of_option (do { scn \<leftarrow> eu_scn s es; e \<leftarrow> sc_elf scn; elf \<leftarrow> eu_elfs es e; Some (scn, elf) }))
            (\<lambda>(scn, elf).
               if ee_kind elf \<noteq> ELF_K_ELF then Returned (None, eu_seterrno EU_E_INVALID_HANDLE es)
               else
                 case dr of
                   Some d \<Rightarrow>
                     if sc_data_rear scn = None then Returned (None, eu_seterrno EU_E_DATA_MISMATCH es)
                     else
                       and_then (of_option (eu_data d es))
                         (\<lambda>(_, owner).
                            if owner \<noteq> Some s then Returned (None, eu_seterrno EU_E_DATA_MISMATCH es)
                            else
                              (case node_at s scn d of
                                 None \<Rightarrow> Returned (None, eu_seterrno EU_E_DATA_MISMATCH es)
                               | Some j \<Rightarrow>
                                   Returned (if j + 1 < length (sc_data_list scn) then Some (ListData s (j + 1)) else None, es)))
                 | None \<Rightarrow>
                     and_then (if sc_data_read scn then Returned (True, es) else of_option (eu_set_rawdata pr unaligned s es))
                       (\<lambda>(ok, es).
                          if \<not> ok then Returned (None, es)
                          else
                            and_then (of_option (eu_scn s es))
                              (\<lambda>scn.
                                 and_then (if sc_data_rear scn = None then eu_set_data_list fuel s es else Returned es)
                                   (\<lambda>es. Returned (Some (ListData s 0), es))))))"

section \<open>New data\<close>

text \<open>
  The first data of a section that the program made is the one that is part of the section; any
  other is allocated and linked behind the last.
\<close>

definition add_data :: "u32 \<Rightarrow> eu_scn_ref \<Rightarrow> Eu_Scn \<Rightarrow> nat \<times> Eu_Scn" where
  "add_data version s scn =
     (case sc_data_rear scn of
        Some r \<Rightarrow>
          (r + 1, scn\<lparr>sc_data_list := take (r + 1) (sc_data_list scn)
              @ [\<lparr>dn_data = zero_data\<lparr>d_version := version\<rparr>, dn_scn = Some s, dn_flags = EU_F_DIRTY OR EU_F_MALLOCED\<rparr>],
            sc_data_rear := Some (r + 1)\<rparr>)
      | None \<Rightarrow>
          (0, scn\<lparr>sc_data_list := (case sc_data_list scn of
                [] \<Rightarrow> [\<lparr>dn_data = zero_data\<lparr>d_version := version\<rparr>, dn_scn = Some s, dn_flags = EU_F_DIRTY\<rparr>]
              | x # xs \<Rightarrow> x\<lparr>dn_data := (dn_data x)\<lparr>d_version := version\<rparr>, dn_scn := Some s, dn_flags := EU_F_DIRTY\<rparr> # xs),
            sc_data_rear := Some 0\<rparr>))"

definition eu_elf_newdata ::
  "nat \<Rightarrow> pread \<Rightarrow> bool \<Rightarrow> eu_scn_ref option \<Rightarrow> eu_store \<Rightarrow> (eu_data_ref option \<times> eu_store) outcome"
where
  "eu_elf_newdata fuel pr unaligned sr es =
     (case sr of None \<Rightarrow> Returned (None, es)
      | Some s \<Rightarrow>
          and_then (of_option (eu_scn s es))
            (\<lambda>scn.
               if sc_index scn = 0 then Returned (None, eu_seterrno EU_E_NOT_NUL_SECTION es)
               else
                 and_then (of_option (do { e \<leftarrow> sc_elf scn; eu_elfs es e }))
                   (\<lambda>elf.
                      if ee_ehdr elf = None then Returned (None, eu_seterrno EU_E_WRONG_ORDER_EHDR es)
                      else
                        and_then
                          (if sc_data_read scn \<and> sc_rawdata_base scn \<noteq> None \<and> sc_data_rear scn = None
                           then eu_set_data_list fuel s es else Returned es)
                          (\<lambda>es.
                             and_then (of_option (eu_scn s es))
                               (\<lambda>scn.
                                  if sc_data_read scn \<and> sc_data_rear scn = None then
                                    (let (j, scn) = add_data (eu_libelf_version es) s scn
                                     in Returned (Some (ListData s j), eu_put_scn s scn es))
                                  else
                                    and_then
                                      (if sc_data_read scn then Returned (True, es)
                                       else
                                         and_then (of_option (eu_set_rawdata pr unaligned s es))
                                           (\<lambda>(ok, es). if \<not> ok then Returned (False, es)
                                              else and_then (eu_set_data_list fuel s es) (\<lambda>es. Returned (True, es))))
                                      (\<lambda>(ok, es).
                                         if \<not> ok then Returned (None, es)
                                         else
                                           (let (ok, es) = eu_alloc es
                                            in if \<not> ok then Returned (None, eu_seterrno EU_E_NOMEM es)
                                               else
                                                 and_then (of_option (eu_scn s es))
                                                   (\<lambda>scn.
                                                      let (j, scn) = add_data (eu_libelf_version es) s scn
                                                      in Returned (Some (ListData s j), eu_put_scn s scn es)))))))))"

end
