(* ===== verification/Eu_Compress.thy ===== *)
theory Eu_Compress
  imports Eu_Data Eu_Crc
begin

text \<open>
  Compressed sections: the header (\<open>elf32_getchdr.c\<close>, \<open>gelf_getchdr.c\<close>), compression and
  decompression in the format of the ELF standard and in that of GNU (\<open>elf_compress.c\<close>,
  \<open>elf_compress_gnu.c\<close>), and strings of sections that may be compressed (\<open>elf_strptr.c\<close>).

  \<open>zlib\<close> is not part of the sources: its functions are a parameter.
\<close>

section \<open>zlib\<close>

text \<open>
  A stream that compresses is a state; \<open>z_deflate\<close> is given the input, the room for output and
  whether the input ends, and tells what it has read, what it has written and the next state.
  Decompression is always of a whole stream: the code starts each stream afresh and asks for its
  end.  \<open>next_in\<close>, \<open>avail_in\<close>, \<open>next_out\<close> and \<open>avail_out\<close> follow from these; the two numbers have
  32 bits.
\<close>

record 'z zlib =
  z_deflate_init :: "int \<times> 'z"
  z_deflate :: "'z \<Rightarrow> byte list \<Rightarrow> nat \<Rightarrow> bool \<Rightarrow> int \<times> nat \<times> byte list \<times> 'z"
  z_deflate_end :: "'z \<Rightarrow> int"
  z_inflate_init :: int
  z_inflate :: "byte list \<Rightarrow> nat \<Rightarrow> int \<times> nat \<times> byte list"
  z_inflate_reset :: int
  z_inflate_end :: int

abbreviation (input) Z_OK :: int where "Z_OK \<equiv> 0"
abbreviation (input) Z_STREAM_END :: int where "Z_STREAM_END \<equiv> 1"
abbreviation (input) Z_STREAM_ERROR :: int where "Z_STREAM_ERROR \<equiv> -2"
abbreviation (input) Z_DATA_ERROR :: int where "Z_DATA_ERROR \<equiv> -3"

definition uInt :: "u64 \<Rightarrow> nat" where "uInt n = unat (ucast n :: u32)"

section \<open>Decompression\<close>

text \<open>
  The streams of the input one after the other: the code of the last call, the output so far and
  the room left.  A stream of no bytes would be read again for ever.
\<close>

function inflate_streams :: "'z zlib \<Rightarrow> int \<Rightarrow> byte list \<Rightarrow> byte list \<Rightarrow> nat \<Rightarrow> (int \<times> byte list \<times> nat) option" where
  "inflate_streams z zrc input out room =
     (if input \<noteq> [] \<and> zrc = Z_OK then
        (case z_inflate z input room of (zrc, used, bs) \<Rightarrow>
           if zrc \<noteq> Z_STREAM_END then Some (Z_DATA_ERROR, out @ bs, room - length bs)
           else if used = 0 then None
           else inflate_streams z (z_inflate_reset z) (drop used input) (out @ bs) (room - length bs))
      else Some (zrc, out, room))"
  by pat_completeness auto

termination
  by (relation "measure (\<lambda>(z, zrc, input, out, room). length input)") (auto simp: length_greater_0_conv)

text \<open>
  \<open>next_out\<close> is computed from \<open>avail_out\<close>, so for a size of more than 32 bits the output starts
  behind the beginning of the buffer.
\<close>

definition libelf_decompress :: "'z zlib \<Rightarrow> ptr \<Rightarrow> u64 \<Rightarrow> u64 \<Rightarrow> eu_store \<Rightarrow> (ptr \<times> eu_store) option" where
  "libelf_decompress z buf_in size_in size_out es =
     (if size_out div 1032 > size_in then Some (None, eu_seterrno EU_E_INVALID_DATA es)
      else
        (case malloc (unat size_out) (eu_mach es) of
           (None, st) \<Rightarrow> Some (None, eu_seterrno EU_E_NOMEM (es\<lparr>eu_mach := st\<rparr>))
         | (buf_out, st) \<Rightarrow>
             do { input \<leftarrow> (if uInt size_in = 0 then Some [] else read_bytes buf_in (uInt size_in) st);
                  (zrc, out, room) \<leftarrow> inflate_streams z (z_inflate_init z) input [] (uInt size_out);
                  let zrc = (if zrc = Z_OK then z_inflate_end z else zrc);
                  st \<leftarrow> write_bytes (ptr_off buf_out (unat size_out - uInt size_out)) out st;
                  if zrc \<noteq> Z_OK \<or> room \<noteq> 0 then
                    do { st \<leftarrow> free_ptr buf_out st;
                         Some (None, eu_seterrno EU_E_DECOMPRESS_ERROR (es\<lparr>eu_mach := st\<rparr>)) }
                  else Some (buf_out, es\<lparr>eu_mach := st\<rparr>) }))"

section \<open>The compression header\<close>

record GElf_Chdr =
  ch_type :: u32
  ch_size :: u64
  ch_addralign :: u64

definition chdr_size :: "int \<Rightarrow> u64" where
  "chdr_size ec = (if ec = ELFCLASS32 then 12 else 24)"

definition chdr_layout :: "int \<Rightarrow> layout" where
  "chdr_layout ec = (if ec = ELFCLASS64 then Elf64_Chdr_DEF else Elf32_Chdr_DEF)"

definition eu_getchdr ::
  "nat \<Rightarrow> pread \<Rightarrow> bool \<Rightarrow> int \<Rightarrow> eu_scn_ref option \<Rightarrow> eu_store \<Rightarrow> (ptr \<times> eu_store) outcome"
where
  "eu_getchdr fuel pr unaligned bits sr es =
     and_then (of_option (eu_getshdr pr unaligned bits sr es))
       (\<lambda>(shdr, es).
          case shdr of None \<Rightarrow> Returned (None, es)
          | Some shdr \<Rightarrow>
              let sh = gshdr shdr
              in if sh_flags sh AND SHF_ALLOC \<noteq> 0 then Returned (None, eu_seterrno EU_E_INVALID_SECTION_FLAGS es)
                 else if sh_type sh = SHT_NULL \<or> sh_type sh = SHT_NOBITS
                 then Returned (None, eu_seterrno EU_E_INVALID_SECTION_TYPE es)
                 else if sh_flags sh AND SHF_COMPRESSED = 0 then Returned (None, eu_seterrno EU_E_NOT_COMPRESSED es)
                 else
                   and_then (eu_elf_getdata fuel pr unaligned sr None es)
                     (\<lambda>(dr, es).
                        case dr of None \<Rightarrow> Returned (None, es)
                        | Some dr \<Rightarrow>
                            and_then (of_option (eu_data dr es))
                              (\<lambda>(d, owner).
                                 if d_size d < chdr_size bits \<or> d_buf d = None
                                 then Returned (None, eu_seterrno EU_E_INVALID_DATA es)
                                 else Returned (d_buf d, es))))"

definition read_chdr :: "int \<Rightarrow> ptr \<Rightarrow> store \<Rightarrow> GElf_Chdr option" where
  "read_chdr ec p st =
     do { vs \<leftarrow> load_struct ec (chdr_layout ec) p st;
          let o' = host_order st;
          Some (if ec = ELFCLASS64
                then \<lparr>ch_type = native_val o' (vs ! 0), ch_size = native_val o' (vs ! 2), ch_addralign = native_val o' (vs ! 3)\<rparr>
                else \<lparr>ch_type = native_val o' (vs ! 0), ch_size = ucast (native_val o' (vs ! 1) :: u32),
                      ch_addralign = ucast (native_val o' (vs ! 2) :: u32)\<rparr>) }"

definition eu_gelf_getchdr ::
  "nat \<Rightarrow> pread \<Rightarrow> bool \<Rightarrow> eu_scn_ref option \<Rightarrow> bool \<Rightarrow> eu_store \<Rightarrow> (GElf_Chdr option \<times> eu_store) outcome"
where
  "eu_gelf_getchdr fuel pr unaligned sr dest es =
     (case sr of None \<Rightarrow> Returned (None, es)
      | Some s \<Rightarrow>
          if \<not> dest then Returned (None, eu_seterrno EU_E_INVALID_OPERAND es)
          else
            and_then (of_option (do { scn \<leftarrow> eu_scn s es; e \<leftarrow> sc_elf scn; eu_elfs es e }))
              (\<lambda>elf.
                 let ec = (if ee_class elf = ELFCLASS32 then ELFCLASS32 else ELFCLASS64)
                 in and_then (eu_getchdr fuel pr unaligned ec sr es)
                      (\<lambda>(p, es).
                         if p = None then Returned (None, es)
                         else and_then (of_option (read_chdr ec p (eu_mach es))) (\<lambda>c. Returned (Some c, es)))))"

text \<open>\<open>powerof2\<close> of \<open>system.h\<close>; 0 counts as one.\<close>

definition powerof2 :: "u64 \<Rightarrow> bool" where
  "powerof2 x \<longleftrightarrow> (x - 1) AND x = 0"

abbreviation (input) ELFCOMPRESS_ZLIB :: u32 where "ELFCOMPRESS_ZLIB \<equiv> 1"

text \<open>The result is the buffer and, where it is not \<open>NULL\<close>, what is stored through the pointers.\<close>

definition libelf_decompress_elf ::
  "nat \<Rightarrow> 'z zlib \<Rightarrow> pread \<Rightarrow> bool \<Rightarrow> eu_scn_ref \<Rightarrow> eu_store \<Rightarrow> ((ptr \<times> u64 \<times> u64) \<times> eu_store) outcome"
where
  "libelf_decompress_elf fuel z pr unaligned s es =
     and_then (eu_gelf_getchdr fuel pr unaligned (Some s) True es)
       (\<lambda>(chdr, es).
          case chdr of None \<Rightarrow> Returned ((None, 0, 0), es)
          | Some chdr \<Rightarrow>
              if ch_type chdr \<noteq> ELFCOMPRESS_ZLIB
              then Returned ((None, 0, 0), eu_seterrno EU_E_UNKNOWN_COMPRESSION_TYPE es)
              else if \<not> powerof2 (ch_addralign chdr) then Returned ((None, 0, 0), eu_seterrno EU_E_INVALID_ALIGN es)
              else
                and_then (eu_elf_getdata fuel pr unaligned (Some s) None es)
                  (\<lambda>(dr, es).
                     case dr of None \<Rightarrow> Returned ((None, 0, 0), es)
                     | Some dr \<Rightarrow>
                         of_option
                           (do { (d, owner) \<leftarrow> eu_data dr es;
                                 scn \<leftarrow> eu_scn s es;
                                 e \<leftarrow> sc_elf scn;
                                 elf \<leftarrow> eu_elfs es e;
                                 let hsize = chdr_size (ee_class elf);
                                 (buf_out, es) \<leftarrow> libelf_decompress z (ptr_off (d_buf d) (unat hsize)) (d_size d - hsize) (ch_size chdr) es;
                                 Some ((buf_out, ch_size chdr, ch_addralign chdr), es) })))"

section \<open>Compression\<close>

definition eu_realloc :: "ptr \<Rightarrow> nat \<Rightarrow> nat \<Rightarrow> store \<Rightarrow> (ptr \<times> store) option" where
  "eu_realloc p old new st =
     (case malloc new st of
        (None, st) \<Rightarrow> Some (None, st)
      | (q, st) \<Rightarrow>
          do { bs \<leftarrow> read_bytes p old st;
               st \<leftarrow> write_bytes q (take new bs) st;
               st \<leftarrow> free_ptr p st;
               Some (q, st) })"

text \<open>\<open>(void *) -1\<close>, \<open>NULL\<close>, or the buffer with the original size and alignment and the new size.\<close>

datatype compression = NoGain | NotDone | Compressed ptr u64 u64 u64

text \<open>The output buffer: where it is, its size, and how much of it is used.\<close>

record out_buffer =
  ob_buf :: ptr
  ob_size :: u64
  ob_used :: u64

text \<open>
  The inner loop, which hands \<open>deflate\<close> room for output until it leaves some.  The first result
  is set when the function returns: the error number, or \<open>None\<close> when there is nothing to gain.
\<close>

fun deflate_buffer ::
  "nat \<Rightarrow> 'z zlib \<Rightarrow> bool \<Rightarrow> u64 \<Rightarrow> bool \<Rightarrow> u64 \<Rightarrow> byte list \<Rightarrow> 'z \<Rightarrow> out_buffer \<Rightarrow> store
    \<Rightarrow> (int option option \<times> 'z \<times> out_buffer \<times> store) outcome"
where
  "deflate_buffer 0 z force orig_size finish block input zs ob st = Running"
| "deflate_buffer (Suc fuel) z force orig_size finish block input zs ob st =
     (let avail_out = uInt (ob_size ob - ob_used ob)
      in case z_deflate z zs input avail_out finish of (zrc, took, out, zs) \<Rightarrow>
           if zrc = Z_STREAM_ERROR then Returned (Some (Some EU_E_COMPRESS_ERROR), zs, ob, st)
           else
             and_then (of_option (write_bytes (ptr_add (ob_buf ob) (ob_used ob)) out st))
               (\<lambda>st.
                  let left = avail_out - length out;
                      ob = ob\<lparr>ob_used := ob_used ob + (ob_size ob - ob_used ob - of_nat left)\<rparr>
                  in if \<not> force \<and> finish \<and> ob_used ob \<ge> orig_size then Returned (Some None, zs, ob, st)
                     else if left \<noteq> 0 then Returned (None, zs, ob, st)
                     else
                       and_then (of_option (eu_realloc (ob_buf ob) (unat (ob_size ob)) (unat (ob_size ob + block)) st))
                         (\<lambda>(bigger, st).
                            if bigger = None then Returned (Some (Some EU_E_NOMEM), zs, ob, st)
                            else
                              deflate_buffer fuel z force orig_size finish block (drop took input) zs
                                (ob\<lparr>ob_buf := bigger, ob_size := ob_size ob + block\<rparr>) st)))"

text \<open>\<open>deflate_cleanup\<close>: the buffers go; \<open>cdata\<close> has one of its own only where it was converted.\<close>

definition deflate_cleanup :: "ptr \<Rightarrow> ptr \<Rightarrow> eu_store \<Rightarrow> eu_store option" where
  "deflate_cleanup out_buf converted es =
     do { st \<leftarrow> free_ptr out_buf (eu_mach es);
          st \<leftarrow> free_ptr converted st;
          Some (es\<lparr>eu_mach := st\<rparr>) }"

text \<open>The loop over the buffers of the section; \<open>order\<close> is the byte order of the file.\<close>

fun compress_loop ::
  "nat \<Rightarrow> 'z zlib \<Rightarrow> pread \<Rightarrow> bool \<Rightarrow> bool \<Rightarrow> u32 \<Rightarrow> eu_scn_ref \<Rightarrow> eu_data_ref \<Rightarrow> eu_data_ref option
    \<Rightarrow> u64 \<Rightarrow> u64 \<Rightarrow> u64 \<Rightarrow> 'z \<Rightarrow> out_buffer \<Rightarrow> eu_store \<Rightarrow> (compression \<times> eu_store) outcome"
where
  "compress_loop 0 z pr unaligned force order s dr nextd orig_size orig_align block zs ob es = Running"
| "compress_loop (Suc fuel) z pr unaligned force order s dr nextd orig_size orig_align block zs ob es =
     and_then (of_option (do { (d, owner) \<leftarrow> eu_data dr es; scn \<leftarrow> eu_scn s es; e \<leftarrow> sc_elf scn; Some (d, e) }))
       (\<lambda>(d, e).
          let native = (order = host_order (eu_mach es));
              fail = (\<lambda>r buf converted es. and_then (of_option (deflate_cleanup buf converted es)) (\<lambda>es. Returned (r, es)))
          in and_then
               (if native then Returned (Inr (d, None), es)
                else
                  (case malloc (unat (d_size d)) (eu_mach es) of
                     (None, st) \<Rightarrow> Returned (Inl None, eu_seterrno EU_E_NOMEM (es\<lparr>eu_mach := st\<rparr>))
                   | (buf, st) \<Rightarrow>
                       and_then (eu_gelf_xlatetof fuel (Some e) (d\<lparr>d_buf := buf\<rparr>) d order (es\<lparr>eu_mach := st\<rparr>))
                         (\<lambda>(r, es). case r of None \<Rightarrow> Returned (Inl buf, es) | Some cd \<Rightarrow> Returned (Inr (cd, buf), es))))
               (\<lambda>(r, es).
                  case r of Inl converted \<Rightarrow> fail NotDone (ob_buf ob) converted es
                  | Inr (cd, converted) \<Rightarrow>
                      and_then (of_option (if uInt (d_size cd) = 0 then Some [] else read_bytes (d_buf cd) (uInt (d_size cd)) (eu_mach es)))
                        (\<lambda>input.
                           and_then
                             (case nextd of None \<Rightarrow> Returned (orig_size, orig_align, None, es)
                              | Some nd \<Rightarrow>
                                  and_then (of_option (eu_data nd es))
                                    (\<lambda>(d', owner).
                                       and_then (eu_elf_getdata fuel pr unaligned (Some s) (Some nd) es)
                                         (\<lambda>(nn, es). Returned (orig_size + d_size d', max orig_align (d_align d'), nn, es))))
                             (\<lambda>(orig_size, orig_align, next_next, es).
                                and_then (deflate_buffer fuel z force orig_size (nextd = None) block input zs ob (eu_mach es))
                                  (\<lambda>(stop, zs, ob, st).
                                     let es = es\<lparr>eu_mach := st\<rparr>
                                     in case stop of
                                          Some None \<Rightarrow> fail NoGain (ob_buf ob) converted es
                                        | Some (Some err) \<Rightarrow> fail NotDone (ob_buf ob) converted (eu_seterrno err es)
                                        | None \<Rightarrow>
                                            and_then (of_option (free_ptr converted (eu_mach es)))
                                              (\<lambda>st.
                                                 let es = es\<lparr>eu_mach := st\<rparr>
                                                 in case nextd of
                                                      Some nd \<Rightarrow>
                                                        compress_loop fuel z pr unaligned force order s nd next_next orig_size orig_align block zs ob es
                                                    | None \<Rightarrow>
                                                        if z_deflate_end z zs \<noteq> Z_OK
                                                        then fail NotDone (ob_buf ob) None (eu_seterrno EU_E_COMPRESS_ERROR es)
                                                        else Returned (Compressed (ob_buf ob) orig_size orig_align (ob_used ob), es)))))))"

definition libelf_compress ::
  "nat \<Rightarrow> 'z zlib \<Rightarrow> pread \<Rightarrow> bool \<Rightarrow> eu_scn_ref \<Rightarrow> u64 \<Rightarrow> u32 \<Rightarrow> bool \<Rightarrow> eu_store \<Rightarrow> (compression \<times> eu_store) outcome"
where
  "libelf_compress fuel z pr unaligned s hsize order force es =
     and_then (eu_elf_getdata fuel pr unaligned (Some s) None es)
       (\<lambda>(dr, es).
          case dr of None \<Rightarrow> Returned (NotDone, es)
          | Some dr \<Rightarrow>
              and_then (eu_elf_getdata fuel pr unaligned (Some s) (Some dr) es)
                (\<lambda>(nextd, es).
                   and_then (of_option (eu_data dr es))
                     (\<lambda>(d, owner).
                        if nextd = None \<and> \<not> force \<and> d_size d \<le> hsize + 5 + 6 then Returned (NoGain, es)
                        else
                          let block = d_size d div 8 + hsize; out_size = 2 * block
                          in case malloc (unat out_size) (eu_mach es) of
                               (None, st) \<Rightarrow> Returned (NotDone, eu_seterrno EU_E_NOMEM (es\<lparr>eu_mach := st\<rparr>))
                             | (out_buf, st) \<Rightarrow>
                                 (case z_deflate_init z of (zrc, zs) \<Rightarrow>
                                    if zrc \<noteq> Z_OK then
                                      and_then (of_option (free_ptr out_buf st))
                                        (\<lambda>st. Returned (NotDone, eu_seterrno EU_E_COMPRESS_ERROR (es\<lparr>eu_mach := st\<rparr>)))
                                    else
                                      compress_loop fuel z pr unaligned force order s dr nextd (d_size d) (d_align d) block zs
                                        \<lparr>ob_buf = out_buf, ob_size = out_size, ob_used = hsize\<rparr> (es\<lparr>eu_mach := st\<rparr>)))))"

text \<open>
  \<open>__libelf_reset_rawdata\<close>.  Only the link to the last data is cleared: data that the program had
  added to the section stay linked behind the first.
\<close>

definition libelf_reset_rawdata ::
  "nat \<Rightarrow> eu_scn_ref \<Rightarrow> ptr \<Rightarrow> u64 \<Rightarrow> u64 \<Rightarrow> int \<Rightarrow> eu_store \<Rightarrow> eu_store outcome"
where
  "libelf_reset_rawdata fuel s buf n align t es =
     and_then
       (of_option
          (do { scn \<leftarrow> eu_scn s es;
                e \<leftarrow> sc_elf scn;
                elf \<leftarrow> eu_elfs es e;
                st \<leftarrow> (if sc_data_base scn \<noteq> sc_rawdata_base scn then free_ptr (sc_data_base scn) (eu_mach es)
                      else Some (eu_mach es));
                st \<leftarrow> (if ee_map_address elf = None \<or> sc_rawdata_base scn = sc_zdata_base scn
                         \<or> sc_flags scn AND EU_F_MALLOCED \<noteq> 0
                      then free_ptr (sc_rawdata_base scn) st else Some st);
                let raw = (sc_rawdata scn)\<lparr>d_off := 0, d_version := eu_libelf_version es, d_buf := buf, d_size := n,
                  d_align := align, d_type := t\<rparr>;
                Some (eu_put_scn s (scn\<lparr>sc_rawdata := raw, sc_data_rear := None, sc_data_base := None, sc_rawdata_base := buf,
                    sc_data_read := True, sc_flags := sc_flags scn OR EU_F_MALLOCED OR EU_F_FILEDATA\<rparr>)
                  (es\<lparr>eu_mach := st\<rparr>)) }))
       (eu_set_data_list fuel s)"

section \<open>\<open>elf_compress\<close>\<close>

text \<open>The header in front of the compressed data, in the byte order of the file.\<close>

definition chdr_bytes :: "int \<Rightarrow> u32 \<Rightarrow> u32 \<Rightarrow> u64 \<Rightarrow> u64 \<Rightarrow> byte list" where
  "chdr_bytes ec host order n align =
     (let members =
        (if ec = ELFCLASS32
         then [native_bytes host 4 ELFCOMPRESS_ZLIB, native_bytes host 4 (ucast n :: u32), native_bytes host 4 (ucast align :: u32)]
         else [native_bytes host 4 ELFCOMPRESS_ZLIB, native_bytes host 4 (0 :: u32), native_bytes host 8 n, native_bytes host 8 align])
      in concat (if order \<noteq> host then map rev members else members))"

text \<open>The section header with other values of \<open>sh_size\<close>, \<open>sh_addralign\<close> and \<open>sh_flags\<close>.\<close>

definition change_shdr :: "u64 \<Rightarrow> u64 \<Rightarrow> (u64 \<Rightarrow> u64) \<Rightarrow> Shdr \<Rightarrow> Shdr" where
  "change_shdr n align flags sh =
     (case sh of
        Shdr32 h \<Rightarrow> Shdr32 (h\<lparr>sh_size := ucast n, sh_addralign := ucast align, sh_flags := ucast (flags (ucast (sh_flags h)))\<rparr>)
      | Shdr64 h \<Rightarrow> Shdr64 (h\<lparr>sh_size := n, sh_addralign := align, sh_flags := flags (sh_flags h)\<rparr>))"

definition shdr_addralign :: "Shdr \<Rightarrow> u64" where
  "shdr_addralign sh = sh_addralign (gshdr sh)"

definition eu_change_shdr ::
  "pread \<Rightarrow> bool \<Rightarrow> int \<Rightarrow> eu_scn_ref \<Rightarrow> (Shdr \<Rightarrow> Shdr) \<Rightarrow> eu_store \<Rightarrow> eu_store option"
where
  "eu_change_shdr pr unaligned ec s f es =
     do { (shdr, es) \<leftarrow> eu_getshdr pr unaligned ec (Some s) es;
          shdr \<leftarrow> shdr;
          scn \<leftarrow> eu_scn s es;
          Some (eu_put_scn s (scn\<lparr>sc_shdr := Some (f shdr)\<rparr>) es) }"

definition set_zdata :: "eu_scn_ref \<Rightarrow> ptr \<Rightarrow> eu_store \<Rightarrow> eu_store option" where
  "set_zdata s p es = do { scn \<leftarrow> eu_scn s es; Some (eu_put_scn s (scn\<lparr>sc_zdata_base := p\<rparr>) es) }"

abbreviation (input) ELF_CHF_FORCE :: u32 where "ELF_CHF_FORCE \<equiv> 1"

text \<open>
  What both functions begin with: class, byte order and section header, or the error.  The flags
  that forbid the operation are \<open>bad_flags\<close>.
\<close>

definition compress_checks ::
  "pread \<Rightarrow> bool \<Rightarrow> eu_scn_ref \<Rightarrow> u32 \<Rightarrow> u64 \<Rightarrow> eu_store \<Rightarrow> ((int \<times> u32 \<times> Eu_Elf \<times> GElf_Shdr) option \<times> eu_store) option"
where
  "compress_checks pr unaligned s flags bad_flags es =
     (if flags AND NOT ELF_CHF_FORCE \<noteq> 0 then Some (None, eu_seterrno EU_E_INVALID_OPERAND es)
      else
        do { scn \<leftarrow> eu_scn s es;
             e \<leftarrow> sc_elf scn;
             (eh, es) \<leftarrow> eu_gelf_getehdr (Some e) es;
             case eh of None \<Rightarrow> Some (None, es)
             | Some eh \<Rightarrow>
                 do { elf \<leftarrow> eu_elfs es e;
                      let ec = (if ee_class elf = ELFCLASS32 then ELFCLASS32 else ELFCLASS64);
                      (shdr, es) \<leftarrow> eu_getshdr pr unaligned ec (Some s) es;
                      case shdr of None \<Rightarrow> Some (None, es)
                      | Some shdr \<Rightarrow>
                          do { let sh = gshdr shdr;
                               if sh_flags sh AND bad_flags \<noteq> 0 then Some (None, eu_seterrno EU_E_INVALID_SECTION_FLAGS es)
                               else if sh_type sh = SHT_NULL \<or> sh_type sh = SHT_NOBITS
                               then Some (None, eu_seterrno EU_E_INVALID_SECTION_TYPE es)
                               else
                                 do { elf \<leftarrow> eu_elfs es e;
                                      Some (Some (ec, ucast (eh_ident eh ! EI_DATA), elf, sh), es) } } } })"

text \<open>
  The test for a section that is compressed already compares the flag \<open>SHF_COMPRESSED\<close> with 1.
\<close>

definition eu_elf_compress ::
  "nat \<Rightarrow> 'z zlib \<Rightarrow> pread \<Rightarrow> bool \<Rightarrow> eu_scn_ref option \<Rightarrow> int \<Rightarrow> u32 \<Rightarrow> eu_store \<Rightarrow> (int \<times> eu_store) outcome"
where
  "eu_elf_compress fuel z pr unaligned sr ctype flags es =
     (case sr of None \<Rightarrow> Returned (-1, es)
      | Some s \<Rightarrow>
          and_then (of_option (compress_checks pr unaligned s flags SHF_ALLOC es))
            (\<lambda>(r, es).
               case r of None \<Rightarrow> Returned (-1, es)
               | Some (ec, order, elf, sh) \<Rightarrow>
                   let compressed = sh_flags sh AND SHF_COMPRESSED
                   in if ctype = 1 then
                        (if compressed = 1 then Returned (-1, eu_seterrno EU_E_ALREADY_COMPRESSED es)
                         else
                           and_then (libelf_compress fuel z pr unaligned s (chdr_size ec) order (flags AND ELF_CHF_FORCE \<noteq> 0) es)
                             (\<lambda>(r, es).
                                case r of
                                  NoGain \<Rightarrow> Returned (0, es)
                                | NotDone \<Rightarrow> Returned (-1, es)
                                | Compressed out_buf orig_size orig_align new_size \<Rightarrow>
                                    and_then
                                      (of_option
                                        (do { st \<leftarrow> write_bytes out_buf (chdr_bytes ec (host_order (eu_mach es)) order orig_size
                                                (if ec = ELFCLASS32 then orig_align else sh_addralign sh)) (eu_mach es);
                                              eu_change_shdr pr unaligned ec s (change_shdr new_size (of_nat (eu_type_align ec EU_T_CHDR))
                                                (\<lambda>f. f OR SHF_COMPRESSED)) (es\<lparr>eu_mach := st\<rparr>) }))
                                      (\<lambda>es.
                                         and_then (libelf_reset_rawdata fuel s out_buf new_size 1 EU_T_CHDR es)
                                           (\<lambda>es. and_then (of_option (set_zdata s None es)) (\<lambda>es. Returned (1, es))))))
                      else if ctype = 0 then
                        (if compressed = 0 then Returned (-1, eu_seterrno EU_E_NOT_COMPRESSED es)
                         else
                           and_then (of_option (eu_scn s es))
                             (\<lambda>scn.
                                and_then
                                  (if sc_zdata_base scn \<noteq> None then Returned (True, es)
                                   else
                                     and_then (libelf_decompress_elf fuel z pr unaligned s es)
                                       (\<lambda>((buf_out, size, align), es).
                                          if buf_out = None then Returned (False, es)
                                          else
                                            of_option
                                              (do { scn \<leftarrow> eu_scn s es;
                                                    Some (True, eu_put_scn s (scn\<lparr>sc_zdata_base := buf_out, sc_zdata_size := size,
                                                      sc_zdata_align := align\<rparr>) es) })))
                                  (\<lambda>(ok, es).
                                     if \<not> ok then Returned (-1, es)
                                     else
                                       and_then
                                         (of_option
                                           (do { scn \<leftarrow> eu_scn s es;
                                                 es \<leftarrow> eu_change_shdr pr unaligned ec s (change_shdr (sc_zdata_size scn) (sc_zdata_align scn)
                                                   (\<lambda>f. f AND NOT SHF_COMPRESSED)) es;
                                                 scn \<leftarrow> eu_scn s es;
                                                 t \<leftarrow> eu_data_type elf (sh_type sh) (sc_zdata_align scn);
                                                 Some (scn, t, es) }))
                                         (\<lambda>(scn, t, es).
                                            and_then (libelf_reset_rawdata fuel s (sc_zdata_base scn) (sc_zdata_size scn) (sc_zdata_align scn) t es)
                                              (\<lambda>es. Returned (1, es))))))
                      else Returned (-1, eu_seterrno EU_E_UNKNOWN_COMPRESSION_TYPE es)))"

section \<open>\<open>elf_compress_gnu\<close>\<close>

definition gnu_magic :: "byte list" where
  "gnu_magic = map (\<lambda>c. of_nat (of_char c)) ''ZLIB''"

definition eu_elf_compress_gnu ::
  "nat \<Rightarrow> 'z zlib \<Rightarrow> pread \<Rightarrow> bool \<Rightarrow> eu_scn_ref option \<Rightarrow> int \<Rightarrow> u32 \<Rightarrow> eu_store \<Rightarrow> (int \<times> eu_store) outcome"
where
  "eu_elf_compress_gnu fuel z pr unaligned sr inflate flags es =
     (case sr of None \<Rightarrow> Returned (-1, es)
      | Some s \<Rightarrow>
          and_then (of_option (compress_checks pr unaligned s flags (SHF_ALLOC OR SHF_COMPRESSED) es))
            (\<lambda>(r, es).
               case r of None \<Rightarrow> Returned (-1, es)
               | Some (ec, order, elf, sh) \<Rightarrow>
                   let set_size = (\<lambda>size shdr. change_shdr size (shdr_addralign shdr) (\<lambda>f. f) shdr)
                   in if inflate = 1 then
                        and_then (libelf_compress fuel z pr unaligned s 12 order (flags AND ELF_CHF_FORCE \<noteq> 0) es)
                          (\<lambda>(r, es).
                             case r of
                               NoGain \<Rightarrow> Returned (0, es)
                             | NotDone \<Rightarrow> Returned (-1, es)
                             | Compressed out_buf orig_size orig_align new_size \<Rightarrow>
                                 and_then
                                   (of_option
                                     (do { st \<leftarrow> write_bytes out_buf (gnu_magic @ rev (le_of_word 8 orig_size)) (eu_mach es);
                                           eu_change_shdr pr unaligned ec s (set_size new_size) (es\<lparr>eu_mach := st\<rparr>) }))
                                   (\<lambda>es.
                                      and_then (libelf_reset_rawdata fuel s out_buf new_size 1 EU_T_BYTE es)
                                        (\<lambda>es. and_then (of_option (set_zdata s None es)) (\<lambda>es. Returned (1, es)))))
                      else if inflate = 0 then
                        and_then (eu_elf_getdata fuel pr unaligned (Some s) None es)
                          (\<lambda>(dr, es).
                             case dr of None \<Rightarrow> Returned (-1, es)
                             | Some dr \<Rightarrow>
                                 and_then (of_option (eu_data dr es))
                                   (\<lambda>(d, owner).
                                      if d_size d < 12 then Returned (-1, eu_seterrno EU_E_NOT_COMPRESSED es)
                                      else
                                        and_then (of_option (read_bytes (d_buf d) 12 (eu_mach es)))
                                          (\<lambda>hd.
                                             if take 4 hd \<noteq> gnu_magic then Returned (-1, eu_seterrno EU_E_NOT_COMPRESSED es)
                                             else
                                               let gsize = word_of_le (rev (drop 4 hd)) :: u64
                                               in if gsize + 4 + 8 + 6 + 5 < d_size d
                                                  then Returned (-1, eu_seterrno EU_E_NOT_COMPRESSED es)
                                                  else
                                                    and_then (of_option (libelf_decompress z (ptr_off (d_buf d) 12) (d_size d - 12) gsize es))
                                                      (\<lambda>(buf_out, es).
                                                         if buf_out = None then Returned (-1, es)
                                                         else
                                                           and_then
                                                             (of_option
                                                               (do { es \<leftarrow> eu_change_shdr pr unaligned ec s (set_size gsize) es;
                                                                     t \<leftarrow> eu_data_type elf (sh_type sh) (sh_addralign sh);
                                                                     Some (t, es) }))
                                                             (\<lambda>(t, es).
                                                                and_then (libelf_reset_rawdata fuel s buf_out gsize (sh_addralign sh) t es)
                                                                  (\<lambda>es. and_then (of_option (set_zdata s buf_out es)) (\<lambda>es. Returned (1, es))))))))
                      else Returned (-1, eu_seterrno EU_E_UNKNOWN_COMPRESSION_TYPE es)))"

section \<open>Strings\<close>

text \<open>Whether a NUL follows: the bytes from \<open>from\<close> to \<open>to\<close>, \<open>None\<close> where they are not there.\<close>

definition validate_str :: "ptr \<Rightarrow> nat \<Rightarrow> nat \<Rightarrow> store \<Rightarrow> bool option" where
  "validate_str str from to st =
     map_option (\<lambda>bs. 0 \<in> set bs) (read_bytes (ptr_off str from) (to - from) st)"

definition str_result :: "ptr \<Rightarrow> u64 \<Rightarrow> u64 \<Rightarrow> eu_store \<Rightarrow> (ptr \<times> eu_store) outcome" where
  "str_result b offset n es =
     and_then (of_option (validate_str b (unat offset) (unat n) (eu_mach es)))
       (\<lambda>ok. if ok then Returned (ptr_off b (unat offset), es)
             else Returned (None, eu_seterrno EU_E_INVALID_INDEX es))"

text \<open>In the data the program has added; here the end of the block is compared with \<open>d_size\<close> from its start.\<close>

fun find_str :: "u64 \<Rightarrow> Elf_Data list \<Rightarrow> Elf_Data option" where
  "find_str offset [] = None"
| "find_str offset (d # ds) =
     (if offset \<ge> d_off d \<and> offset < d_off d + d_size d then Some d else find_str offset ds)"

definition eu_elf_strptr ::
  "nat \<Rightarrow> 'z zlib \<Rightarrow> pread \<Rightarrow> bool \<Rightarrow> nat option \<Rightarrow> u64 \<Rightarrow> u64 \<Rightarrow> eu_store \<Rightarrow> (ptr \<times> eu_store) outcome"
where
  "eu_elf_strptr fuel z pr unaligned er idx offset es =
     (case er of None \<Rightarrow> Returned (None, es)
      | Some e \<Rightarrow>
          and_then (of_option (eu_elfs es e))
            (\<lambda>elf.
               if ee_kind elf \<noteq> ELF_K_ELF then Returned (None, eu_seterrno EU_E_INVALID_HANDLE es)
               else
                 case eu_find_scn idx 0 (ee_scns elf) of
                   None \<Rightarrow> Returned (None, eu_seterrno EU_E_INVALID_INDEX es)
                 | Some (k, i) \<Rightarrow>
                     (let s = (e, k, i); ec = (if ee_class elf = ELFCLASS32 then ELFCLASS32 else ELFCLASS64)
                      in and_then
                           (of_option
                             (do { scn \<leftarrow> eu_scn s es;
                                   (shdr, es) \<leftarrow> (if sc_shdr scn \<noteq> None then Some (sc_shdr scn, es)
                                     else eu_getshdr pr unaligned ec (Some s) es);
                                   shdr \<leftarrow> shdr;
                                   Some (gshdr shdr, es) }))
                           (\<lambda>(sh, es).
                              if sh_type sh \<noteq> SHT_STRTAB then Returned (None, eu_seterrno EU_E_INVALID_SECTION es)
                              else
                                and_then (of_option (eu_scn s es))
                                  (\<lambda>scn.
                                     and_then
                                       (if sh_flags sh AND SHF_COMPRESSED = 0 then Returned (Some (sh_size sh), es)
                                        else if sc_zdata_base scn \<noteq> None then Returned (Some (sc_zdata_size scn), es)
                                        else
                                          and_then (libelf_decompress_elf fuel z pr unaligned s es)
                                            (\<lambda>((zdata, zsize, zalign), es).
                                               if zdata = None then Returned (None, es)
                                               else
                                                 of_option
                                                   (do { scn \<leftarrow> eu_scn s es;
                                                         Some (Some zsize, eu_put_scn s (scn\<lparr>sc_zdata_base := zdata, sc_zdata_size := zsize,
                                                           sc_zdata_align := zalign\<rparr>) es) })))
                                       (\<lambda>(sz, es).
                                          case sz of None \<Rightarrow> Returned (None, es)
                                          | Some sz \<Rightarrow>
                                              if offset \<ge> sz then Returned (None, eu_seterrno EU_E_OFFSET_RANGE es)
                                              else
                                                and_then (of_option (eu_scn s es))
                                                  (\<lambda>scn.
                                                     and_then
                                                       (if sc_rawdata_base scn = None \<and> \<not> sc_data_read scn
                                                        then of_option (eu_set_rawdata pr unaligned s es) else Returned (True, es))
                                                       (\<lambda>(ok, es).
                                                          if \<not> ok then Returned (None, es)
                                                          else
                                                            and_then (of_option (eu_scn s es))
                                                              (\<lambda>scn.
                                                                 if sc_zdata_base scn \<noteq> None then str_result (sc_zdata_base scn) offset sz es
                                                                 else if sc_data_rear scn = None then str_result (sc_rawdata_base scn) offset sz es
                                                                 else
                                                                   (case find_str offset (map dn_data (sc_data_list scn)) of
                                                                      None \<Rightarrow> Returned (None, es)
                                                                    | Some d \<Rightarrow> str_result (d_buf d) (offset - d_off d) (d_size d) es))))))))))"

end
