(* ===== verification/Eu_Xlate_Facts.thy ===== *)
theory Eu_Xlate_Facts
  imports Eu_Xlate
begin

text \<open>
  What the conversions of elfutils achieve: structures and integers are translated as the library
  of the toolchain translates them, in place or between blocks; which conversions of version
  records end; the hash table of two word sizes.
\<close>

section \<open>Changes to a part of a block\<close>

definition only_changes :: "nat \<Rightarrow> nat \<Rightarrow> byte list \<Rightarrow> byte list \<Rightarrow> bool" where
  "only_changes p q D D' \<longleftrightarrow> length D' = length D \<and> take p D' = take p D \<and> drop q D' = drop q D"

lemma only_changes_refl [simp]: "only_changes p q D D"
  by (simp add: only_changes_def)

lemma only_changes_mono:
  assumes "only_changes p q D D'" "p' \<le> p" "q \<le> q'"
  shows "only_changes p' q' D D'"
proof -
  have "take p' X = take p' (take p X)" "drop q' X = drop (q' - q) (drop q X)" for X :: "byte list"
    using assms(2,3) by (simp_all add: min_def)
  then show ?thesis using assms(1) unfolding only_changes_def by metis
qed

lemma only_changes_trans: "only_changes p q D D1 \<Longrightarrow> only_changes p q D1 D2 \<Longrightarrow> only_changes p q D D2"
  by (simp add: only_changes_def)

lemma only_changes_segment:
  assumes "only_changes p q D D'" "p \<le> q" "x + m \<le> p \<or> q \<le> x"
  shows "segment x m D' = segment x m D"
  using segment_take_drop_eq [of D' D p "q - p" x m] assms by (simp add: only_changes_def)

lemma only_changes_put_at:
  "off + length v \<le> length D \<Longrightarrow> only_changes off (off + length v) D (put_at off v D)"
  by (simp add: only_changes_def drop_put_at) (simp add: put_at_def)

section \<open>Members\<close>

definition moved :: "bool \<Rightarrow> byte list \<Rightarrow> byte list" where
  "moved swapped bs = (if swapped then rev bs else bs)"

lemma length_moved [simp]: "length (moved sw bs) = length bs"
  by (simp add: moved_def)

text \<open>Members that follow each other in the first \<open>sz\<close> bytes, from the byte \<open>k\<close> on.\<close>

fun moves_in :: "nat \<Rightarrow> nat \<Rightarrow> moves \<Rightarrow> bool" where
  "moves_in k sz [] \<longleftrightarrow> k \<le> sz"
| "moves_in k sz ((off, n, sw) # ms) \<longleftrightarrow> k \<le> off \<and> moves_in (off + n) sz ms"

lemma moves_in_bounds: "moves_in k sz ms \<Longrightarrow> k \<le> sz \<and> (\<forall>(off, n, sw) \<in> set ms. k \<le> off \<and> off + n \<le> sz)"
  by (induction ms arbitrary: k) force+

text \<open>The source as it is after the destination has become \<open>D'\<close>.\<close>

definition source_after :: "nat \<Rightarrow> nat \<Rightarrow> byte list \<Rightarrow> byte list \<Rightarrow> byte list" where
  "source_after db sb S D' = (if db = sb then D' else S)"

lemma cvt_members_correct:
  assumes "moves_in k sz ms" "mem st sb = Some S" "mem st db = Some D"
    and "so + sz \<le> length S" "dof + sz \<le> length D" "db = sb \<longrightarrow> dof = so"
  shows "\<exists>D'. cvt_members ms (Some (db, dof)) (Some (sb, so)) st = Some (st\<lparr>mem := (mem st)(db \<mapsto> D')\<rparr>)
    \<and> only_changes (dof + k) (dof + sz) D D'
    \<and> (\<forall>(off, n, sw) \<in> set ms. segment (dof + off) n D' = moved sw (segment (so + off) n S))"
  using assms
proof (induction ms arbitrary: k st S D)
  case Nil
  then show ?case using mem_upd_idem [of st db D] by (intro exI [of _ D]) (simp add: fun_upd_def)
next
  case (Cons m ms)
  obtain off n sw where m: "m = (off, n, sw)" by (cases m)
  have ok: "k \<le> off" "moves_in (off + n) sz ms" using Cons.prems(1) m by simp_all
  then have sz: "off + n \<le> sz" using moves_in_bounds by blast
  define v where "v = moved sw (segment (so + off) n S)"
  define D1 where "D1 = put_at (dof + off) v D"
  define st1 where "st1 = st\<lparr>mem := (mem st)(db \<mapsto> D1)\<rparr>"
  have len: "length v = n" using Cons.prems(4) sz by (simp add: v_def)
  have step: "cvt_members (m # ms) (Some (db, dof)) (Some (sb, so)) st
      = cvt_members ms (Some (db, dof)) (Some (sb, so)) st1"
    using Cons.prems(2-5) sz len
    by (simp add: m st1_def D1_def v_def moved_def [symmetric] segment_def [symmetric] add.assoc)
  have ch1: "only_changes (dof + off) (dof + off + n) D D1"
    using only_changes_put_at [of "dof + off" v D] Cons.prems(5) sz len by (simp add: D1_def)
  define S1 where "S1 = source_after db sb S D1"
  have S1: "mem st1 sb = Some S1" "so + sz \<le> length S1" "mem st1 db = Some D1" "dof + sz \<le> length D1"
    using Cons.prems(2-6) ch1 by (auto simp: st1_def S1_def source_after_def only_changes_def)
  obtain D' where D': "cvt_members ms (Some (db, dof)) (Some (sb, so)) st1 = Some (st1\<lparr>mem := (mem st1)(db \<mapsto> D')\<rparr>)"
      "only_changes (dof + (off + n)) (dof + sz) D1 D'"
      "\<forall>(off, n, sw) \<in> set ms. segment (dof + off) n D' = moved sw (segment (so + off) n S1)"
    using Cons.IH [OF ok(2) S1(1,3,2,4) Cons.prems(6)] by blast
  have ch: "only_changes (dof + k) (dof + sz) D D'"
    using only_changes_mono [OF ch1, of "dof + k" "dof + sz"] only_changes_mono [OF D'(2), of "dof + k" "dof + sz"] ok(1) sz
    by (auto intro: only_changes_trans)
  have "segment (dof + off) n D1 = v"
    using segment_put_at_same [of "dof + off" v D] len Cons.prems(5) sz by (simp add: D1_def)
  then have this1: "segment (dof + off) n D' = v"
    using only_changes_segment [OF D'(2), of "dof + off" n] sz by simp
  have "segment (dof + o') n' D' = moved sw' (segment (so + o') n' S)" if in_ms: "(o', n', sw') \<in> set ms" for o' n' sw'
  proof -
    have "off + n \<le> o'" "o' + n' \<le> sz" using moves_in_bounds [OF ok(2)] in_ms by auto
    then have "segment (so + o') n' S1 = segment (so + o') n' S"
      using only_changes_segment [OF ch1, of "so + o'" n'] Cons.prems(2,3,6)
      by (auto simp: S1_def source_after_def)
    then show ?thesis using D'(3) in_ms by auto
  qed
  moreover have "cvt_members (m # ms) (Some (db, dof)) (Some (sb, so)) st = Some (st\<lparr>mem := (mem st)(db \<mapsto> D')\<rparr>)"
    unfolding step D'(1) by (simp add: st1_def)
  ultimately show ?case using ch this1 by (intro exI [of _ D']) (auto simp only: m v_def list.set(2) insert_iff prod.inject)
qed

lemma cvt_structs_correct:
  assumes "moves_in 0 sz ms" "mem st sb = Some S" "mem st db = Some D"
    and "so + off + n * sz \<le> length S" "dof + off + n * sz \<le> length D" "db = sb \<longrightarrow> dof = so"
  shows "\<exists>D'. cvt_structs sz ms n off (Some (db, dof)) (Some (sb, so)) st = Some (st\<lparr>mem := (mem st)(db \<mapsto> D')\<rparr>)
    \<and> only_changes (dof + off) (dof + off + n * sz) D D'
    \<and> (\<forall>i < n. \<forall>(o', k, sw) \<in> set ms.
         segment (dof + off + i * sz + o') k D' = moved sw (segment (so + off + i * sz + o') k S))"
  using assms
proof (induction n arbitrary: off st S D)
  case 0
  then show ?case using mem_upd_idem [of st db D] by (intro exI [of _ D]) (simp add: fun_upd_def)
next
  case (Suc n)
  obtain D1 where D1: "cvt_members ms (Some (db, dof + off)) (Some (sb, so + off)) st = Some (st\<lparr>mem := (mem st)(db \<mapsto> D1)\<rparr>)"
      "only_changes (dof + off) (dof + off + sz) D D1"
      "\<forall>(o', k, sw) \<in> set ms. segment (dof + off + o') k D1 = moved sw (segment (so + off + o') k S)"
    using cvt_members_correct [of 0 sz ms st sb S db D "so + off" "dof + off"] Suc.prems by auto
  define st1 where "st1 = st\<lparr>mem := (mem st)(db \<mapsto> D1)\<rparr>"
  define S1 where "S1 = source_after db sb S D1"
  have S1: "mem st1 sb = Some S1" "mem st1 db = Some D1" "so + (off + sz) + n * sz \<le> length S1" "dof + (off + sz) + n * sz \<le> length D1"
    using Suc.prems D1(2) by (auto simp: st1_def S1_def source_after_def only_changes_def)
  obtain D' where D': "cvt_structs sz ms n (off + sz) (Some (db, dof)) (Some (sb, so)) st1 = Some (st1\<lparr>mem := (mem st1)(db \<mapsto> D')\<rparr>)"
      "only_changes (dof + (off + sz)) (dof + (off + sz) + n * sz) D1 D'"
      "\<forall>i < n. \<forall>(o', k, sw) \<in> set ms.
         segment (dof + (off + sz) + i * sz + o') k D' = moved sw (segment (so + (off + sz) + i * sz + o') k S1)"
    using Suc.IH [OF Suc.prems(1) S1(1,2,3,4) Suc.prems(6)] by blast
  have ch: "only_changes (dof + off) (dof + off + Suc n * sz) D D'"
    using only_changes_mono [OF D1(2), of "dof + off" "dof + off + Suc n * sz"]
      only_changes_mono [OF D'(2), of "dof + off" "dof + off + Suc n * sz"]
    by (auto intro: only_changes_trans)
  have "segment (dof + off + i * sz + o') k D' = moved sw (segment (so + off + i * sz + o') k S)"
    if i: "i < Suc n" and m: "(o', k, sw) \<in> set ms" for i o' k sw
  proof (cases i)
    case 0
    have "o' + k \<le> sz" using moves_in_bounds [OF Suc.prems(1)] m by auto
    then have "segment (dof + off + o') k D' = segment (dof + off + o') k D1"
      using only_changes_segment [OF D'(2), of "dof + off + o'" k] by simp
    then show ?thesis using D1(3) m 0 by auto
  next
    case (Suc j)
    have "segment (so + (off + sz) + j * sz + o') k S1 = segment (so + (off + sz) + j * sz + o') k S"
      using only_changes_segment [OF D1(2), of "so + (off + sz) + j * sz + o'" k] Suc.prems(6)
        \<open>mem st sb = Some S\<close> \<open>mem st db = Some D\<close> by (auto simp: S1_def source_after_def)
    moreover have "segment (dof + (off + sz) + j * sz + o') k D' = moved sw (segment (so + (off + sz) + j * sz + o') k S1)"
      using D'(3) m i Suc by auto
    ultimately show ?thesis by (simp add: Suc add.assoc)
  qed
  then have "\<forall>i < Suc n. \<forall>(o', k, sw) \<in> set ms.
      segment (dof + off + i * sz + o') k D' = moved sw (segment (so + off + i * sz + o') k S)" by auto
  moreover have "cvt_structs sz ms (Suc n) off (Some (db, dof)) (Some (sb, so)) st = Some (st\<lparr>mem := (mem st)(db \<mapsto> D')\<rparr>)"
    using D1(1) D'(1) by (simp add: st1_def)
  ultimately show ?case using ch by blast
qed

text \<open>Integers are structures of one member, whichever end the code starts from.\<close>

lemma cvt_members_Nil [simp]: "cvt_members [] dest src = Some"
  by (rule ext) simp

lemma cvt_up_structs:
  "cvt_up bytes n off (Some (db, dof)) (Some (sb, so)) = cvt_structs bytes [(0, bytes, True)] n off (Some (db, dof)) (Some (sb, so))"
proof (induction n arbitrary: off)
  case (Suc n)
  have "cvt_members [(off, bytes, True)] (Some (db, dof)) (Some (sb, so)) st
      = cvt_members [(0, bytes, True)] (Some (db, dof + off)) (Some (sb, so + off)) st" for st
    by simp
  then show ?case by (intro ext) (simp add: Suc.IH del: cvt_members.simps)
qed (simp add: fun_eq_iff)

lemma cvt_down_correct:
  assumes "mem st sb = Some S" "mem st db = Some D"
    and "so + n * bytes \<le> length S" "dof + n * bytes \<le> length D" "db = sb \<longrightarrow> dof = so"
  shows "\<exists>D'. cvt_down bytes n (n * bytes) (Some (db, dof)) (Some (sb, so)) st = Some (st\<lparr>mem := (mem st)(db \<mapsto> D')\<rparr>)
    \<and> only_changes dof (dof + n * bytes) D D'
    \<and> (\<forall>i < n. segment (dof + i * bytes) bytes D' = rev (segment (so + i * bytes) bytes S))"
  using assms
proof (induction n arbitrary: st S D)
  case 0
  then show ?case using mem_upd_idem [of st db D] by (intro exI [of _ D]) (simp add: fun_upd_def)
next
  case (Suc n)
  obtain D1 where D1: "cvt_members [(n * bytes, bytes, True)] (Some (db, dof)) (Some (sb, so)) st = Some (st\<lparr>mem := (mem st)(db \<mapsto> D1)\<rparr>)"
      "only_changes (dof + n * bytes) (dof + Suc n * bytes) D D1"
      "segment (dof + n * bytes) bytes D1 = rev (segment (so + n * bytes) bytes S)"
    using cvt_members_correct [of "n * bytes" "Suc n * bytes" "[(n * bytes, bytes, True)]" st sb S db D so dof] Suc.prems
    by (auto simp: moved_def)
  define st1 where "st1 = st\<lparr>mem := (mem st)(db \<mapsto> D1)\<rparr>"
  define S1 where "S1 = source_after db sb S D1"
  have S1: "mem st1 sb = Some S1" "mem st1 db = Some D1" "so + n * bytes \<le> length S1" "dof + n * bytes \<le> length D1"
    using Suc.prems D1(2) by (auto simp: st1_def S1_def source_after_def only_changes_def)
  obtain D' where D': "cvt_down bytes n (n * bytes) (Some (db, dof)) (Some (sb, so)) st1 = Some (st1\<lparr>mem := (mem st1)(db \<mapsto> D')\<rparr>)"
      "only_changes dof (dof + n * bytes) D1 D'"
      "\<forall>i < n. segment (dof + i * bytes) bytes D' = rev (segment (so + i * bytes) bytes S1)"
    using Suc.IH [OF S1(1,2,3,4) Suc.prems(5)] by blast
  have ch: "only_changes dof (dof + Suc n * bytes) D D'"
    using only_changes_mono [OF D1(2), of dof "dof + Suc n * bytes"] only_changes_mono [OF D'(2), of dof "dof + Suc n * bytes"]
    by (auto intro: only_changes_trans)
  have "segment (dof + i * bytes) bytes D' = rev (segment (so + i * bytes) bytes S)" if i: "i < Suc n" for i
  proof (cases "i = n")
    case True
    then show ?thesis using only_changes_segment [OF D'(2), of "dof + n * bytes" bytes] D1(3) by simp
  next
    case False
    then have "Suc i * bytes \<le> n * bytes" using i by (intro mult_le_mono1) simp
    then have "segment (so + i * bytes) bytes S1 = segment (so + i * bytes) bytes S"
      using only_changes_segment [OF D1(2), of "so + i * bytes" bytes] Suc.prems(1,2,5)
      by (auto simp: S1_def source_after_def)
    then show ?thesis using D'(3) i False by simp
  qed
  moreover have "cvt_down bytes (Suc n) (Suc n * bytes) (Some (db, dof)) (Some (sb, so)) st = Some (st\<lparr>mem := (mem st)(db \<mapsto> D')\<rparr>)"
    using D1(1) D'(1) by (simp add: st1_def del: cvt_members.simps)
  ultimately show ?case using ch by blast
qed

lemma cvt_fundamental_correct:
  assumes "mem st sb = Some S" "mem st db = Some D" "0 < bytes"
    and "so + n * bytes \<le> length S" "dof + n * bytes \<le> length D" "db = sb \<longrightarrow> dof = so"
  shows "\<exists>D'. cvt_fundamental bytes (Some (db, dof)) (Some (sb, so)) (n * bytes) st = Some (st\<lparr>mem := (mem st)(db \<mapsto> D')\<rparr>)
    \<and> only_changes dof (dof + n * bytes) D D'
    \<and> (\<forall>i < n. segment (dof + i * bytes) bytes D' = rev (segment (so + i * bytes) bytes S))"
proof (cases "addr (Some (db, dof)) st < addr (Some (sb, so)) st")
  case True
  then show ?thesis
    using cvt_structs_correct [of bytes "[(0, bytes, True)]" st sb S db D so 0 n dof] assms
    by (simp add: cvt_fundamental_def cvt_up_structs moved_def)
next
  case False
  then show ?thesis
    using cvt_down_correct [OF assms(1,2,4,5,6)] assms(3) by (simp add: cvt_fundamental_def)
qed

section \<open>Structures and integers\<close>

lemma layout_moves_simps [simp]:
  "layout_moves ec def = map2 (\<lambda>off m. (off, basic_fsize ec (snd m), snd m \<noteq> IDENT \<and> snd m \<noteq> BYTE)) (member_offsets ec 0 def) def"
  by (simp add: layout_moves_def)

declare layout_moves_simps [simp del]

text \<open>Reversing the members where they are is what swapping the members read does.\<close>

lemma get_members_moved:
  assumes "length offs = length def"
    and "\<And>off n sw. (off, n, sw) \<in> set (map2 (\<lambda>off m. (off, basic_fsize ec (snd m), snd m \<noteq> IDENT \<and> snd m \<noteq> BYTE)) offs def)
      \<Longrightarrow> take n (drop off X') = moved sw (take n (drop off X))"
  shows "get_members ec def offs X' = swap_vals def (get_members ec def offs X)"
  using assms
proof (induction def arbitrary: offs)
  case Nil
  then show ?case by (simp add: swap_vals_def)
next
  case (Cons m def)
  obtain off offs' where o: "offs = off # offs'" using Cons.prems(1) by (cases offs) auto
  have "get_members ec def offs' X' = swap_vals def (get_members ec def offs' X)"
    by (rule Cons.IH) (use Cons.prems o in auto)
  moreover have "take (basic_fsize ec (snd m)) (drop off X') = swap_bytes (snd m) (take (basic_fsize ec (snd m)) (drop off X))"
  proof -
    have "rev (take (Suc 0) ys) = take (Suc 0) ys" for ys :: "byte list" by (cases ys) simp_all
    then show ?thesis
      using Cons.prems(2) [of off "basic_fsize ec (snd m)" "snd m \<noteq> IDENT \<and> snd m \<noteq> BYTE"] o
      by (cases "snd m") (auto simp: moved_def swap_bytes_def)
  qed
  ultimately show ?case by (simp add: o swap_vals_def)
qed

lemma length_member_offsets [simp]: "length (member_offsets ec off def) = length def"
  by (induction def arbitrary: off) (simp_all add: Let_def)

lemma mem_struct_moved:
  assumes "moves_in 0 sz (layout_moves ec def)"
    and "\<forall>(o', k, sw) \<in> set (layout_moves ec def). segment (p' + o') k D' = moved sw (segment (p + o') k S)"
  shows "mem_struct ec def (segment p' sz D') = swap_vals def (mem_struct ec def (segment p sz S))"
  unfolding mem_struct_def
proof (rule get_members_moved)
  fix off n sw
  assume m: "(off, n, sw) \<in> set (map2 (\<lambda>off m. (off, basic_fsize ec (snd m), snd m \<noteq> IDENT \<and> snd m \<noteq> BYTE)) (member_offsets ec 0 def) def)"
  then have "off + n \<le> sz" using moves_in_bounds [OF assms(1)] unfolding layout_moves_def by auto
  then have "take n (drop off (segment q sz X)) = segment (q + off) n X" for q and X :: "byte list"
    by (simp add: segment_segment flip: segment_def)
  then show "take n (drop off (segment p' sz D')) = moved sw (take n (drop off (segment p sz S)))"
    using assms(2) m unfolding layout_moves_def by fastforce
qed simp

text \<open>The layout of the elements of a type, as both libraries see them.\<close>

definition eu_layout :: "int \<Rightarrow> int \<Rightarrow> layout option" where
  "eu_layout t ec =
     (case eu_struct_layout t ec of Some def \<Rightarrow> Some def
      | None \<Rightarrow>
          if t = EU_T_ADDR then Some (prim_layout ADDR)
          else if t = EU_T_OFF then Some (prim_layout OFF)
          else if t = EU_T_HALF then Some (prim_layout HALF)
          else if t = EU_T_WORD then Some (prim_layout WORD)
          else if t = EU_T_SWORD then Some (prim_layout SWORD)
          else if t = EU_T_XWORD \<and> ec = ELFCLASS64 then Some (prim_layout XWORD)
          else if t = EU_T_SXWORD \<and> ec = ELFCLASS64 then Some (prim_layout SXWORD)
          else None)"

lemmas eu_layout_simps = eu_layout_def eu_struct_layout_def DEF_simps Elf_Lib_DEF_def Elf32_auxv_DEF_def Elf64_auxv_DEF_def prim_layout_def

definition eu_layouts :: "(int \<times> layout) list" where
  "eu_layouts =
     map (\<lambda>def. (ELFCLASS32, def)) [Elf32_Ehdr_DEF, Elf32_Phdr_DEF, Elf32_Shdr_DEF, Elf32_Sym_DEF, Elf32_Rel_DEF, Elf32_Rela_DEF,
       Elf32_Dyn_DEF, Elf32_Syminfo_DEF, Elf_Lib_DEF, Elf32_auxv_DEF, prim_layout ADDR, prim_layout OFF, prim_layout HALF,
       prim_layout WORD, prim_layout SWORD]
     @ map (\<lambda>def. (ELFCLASS64, def)) [Elf64_Ehdr_DEF, Elf64_Phdr_DEF, Elf64_Shdr_DEF, Elf64_Sym_DEF, Elf64_Rel_DEF, Elf64_Rela_DEF,
       Elf64_Dyn_DEF, Elf32_Syminfo_DEF, Elf_Lib_DEF, Elf64_auxv_DEF, prim_layout ADDR, prim_layout OFF, prim_layout HALF,
       prim_layout WORD, prim_layout SWORD, prim_layout XWORD, prim_layout SXWORD]"

lemma eu_layouts_cover:
  assumes "eu_layout t ec = Some def" "std_class ec"
  shows "(ec, def) \<in> set eu_layouts"
  using assms by (auto simp: eu_layout_def eu_struct_layout_def std_class_def eu_layouts_def split: if_splits)

lemma eu_layouts_checked:
  "\<forall>(ec, def) \<in> set eu_layouts. valid_layout ec def \<and> FSZ ec def = struct_size ec def \<and> 0 < struct_size ec def
     \<and> struct_size ec def \<le> 64 \<and> moves_in 0 (struct_size ec def) (layout_moves ec def)"
  by code_simp

lemma eu_layout_ok:
  assumes "eu_layout t ec = Some def" "std_class ec"
  shows "valid_layout ec def" "FSZ ec def = struct_size ec def" "0 < struct_size ec def" "struct_size ec def \<le> 64"
    "eu_type_size ec t = struct_size ec def" "moves_in 0 (struct_size ec def) (layout_moves ec def)" "0 \<le> t" "t < EU_T_NUM"
proof -
  show 1: "valid_layout ec def" "FSZ ec def = struct_size ec def" "0 < struct_size ec def" "struct_size ec def \<le> 64"
    "moves_in 0 (struct_size ec def) (layout_moves ec def)"
    using bspec [OF eu_layouts_checked eu_layouts_cover [OF assms]] by simp_all
  have "eu_type_size ec t = FSZ ec def"
    using assms by (auto simp: eu_layout_def eu_type_size_def eu_struct_layout_def eu_fundamental_def std_class_def prim_layout_def
        split: if_splits)
  then show "eu_type_size ec t = struct_size ec def" using 1(2) by simp
  show "0 \<le> t" "t < EU_T_NUM"
    using assms(1) by (auto simp: eu_layout_def eu_struct_layout_def split: if_splits)
qed

text \<open>One step for every type of the table: the elements come out reversed member by member.\<close>

lemma elf_xfct_elements:
  assumes "eu_layout t ec = Some def" "std_class ec"
    and "mem st sb = Some S" "mem st db = Some D" "unat len = n * struct_size ec def"
    and "so + n * struct_size ec def \<le> length S" "dof + n * struct_size ec def \<le> length D" "db = sb \<longrightarrow> dof = so"
  shows "\<exists>D'. (\<forall>fuel encode. elf_xfct fuel ec t (Some (db, dof)) (Some (sb, so)) len encode st = Returned (st\<lparr>mem := (mem st)(db \<mapsto> D')\<rparr>))
    \<and> only_changes dof (dof + n * struct_size ec def) D D'
    \<and> (\<forall>i < n. mem_struct ec def (elem dof (struct_size ec def) i D')
        = swap_vals def (mem_struct ec def (elem so (struct_size ec def) i S)))"
proof (cases "eu_struct_layout t ec")
  case (Some def')
  have def: "def' = def" using assms(1) Some by (simp add: eu_layout_def)
  note ok = eu_layout_ok [OF assms(1,2)]
  have "eu_fundamental t ec = None"
    using Some by (auto simp: eu_struct_layout_def eu_fundamental_def split: if_splits)
  then have call: "elf_xfct fuel ec t (Some (db, dof)) (Some (sb, so)) len encode st
      = of_option (cvt_structs (struct_size ec def) (layout_moves ec def) n 0 (Some (db, dof)) (Some (sb, so)) st)" for fuel encode
    using Some def assms(5) ok(3) by (simp add: elf_xfct_def cvt_struct_def)
  obtain D' where D': "cvt_structs (struct_size ec def) (layout_moves ec def) n 0 (Some (db, dof)) (Some (sb, so)) st = Some (st\<lparr>mem := (mem st)(db \<mapsto> D')\<rparr>)"
      "only_changes dof (dof + n * struct_size ec def) D D'"
      "\<forall>i < n. \<forall>(o', k, sw) \<in> set (layout_moves ec def). segment (dof + i * struct_size ec def + o') k D'
        = moved sw (segment (so + i * struct_size ec def + o') k S)"
    using cvt_structs_correct [OF ok(6) assms(3,4), of so 0 n dof] assms(6-8) by auto
  have "mem_struct ec def (elem dof (struct_size ec def) i D') = swap_vals def (mem_struct ec def (elem so (struct_size ec def) i S))"
    if "i < n" for i
    unfolding elem_def using D'(3) that by (intro mem_struct_moved [OF ok(6)]) blast
  then show ?thesis using call D'(1,2) by (auto simp: of_option_def)
next
  case None
  obtain b where b: "def = prim_layout b" "eu_fundamental t ec = Some (basic_fsize ec b)" "b \<noteq> IDENT"
    using assms(1,2) None
    by (auto simp: eu_layout_def eu_fundamental_def std_class_def split: if_splits)
  note ok = eu_layout_ok [OF assms(1,2)]
  have sz: "struct_size ec def = basic_fsize ec b" using ok(2) by (simp add: b(1) prim_layout_def)
  obtain D' where D': "cvt_fundamental (basic_fsize ec b) (Some (db, dof)) (Some (sb, so)) (n * basic_fsize ec b) st = Some (st\<lparr>mem := (mem st)(db \<mapsto> D')\<rparr>)"
      "only_changes dof (dof + n * basic_fsize ec b) D D'"
      "\<forall>i < n. segment (dof + i * basic_fsize ec b) (basic_fsize ec b) D' = rev (segment (so + i * basic_fsize ec b) (basic_fsize ec b) S)"
    using cvt_fundamental_correct [OF assms(3,4), of "basic_fsize ec b" so n dof] assms(6-8) ok(3) sz by auto
  have "mem_struct ec def (elem dof (struct_size ec def) i D') = swap_vals def (mem_struct ec def (elem so (struct_size ec def) i S))"
    if i: "i < n" for i
  proof -
    have "length (elem so (basic_fsize ec b) i S) = basic_fsize ec b" "length (elem dof (basic_fsize ec b) i D') = basic_fsize ec b"
      using length_elem [OF i] assms(6,7) D'(2) sz by (auto simp: only_changes_def)
    moreover have "mem_struct ec def X = [X]" if "length X = basic_fsize ec b" for X
      unfolding b(1) using ok(1) b(1,3) that by (intro mem_struct_prim) simp_all
    moreover have "swap_vals def [X] = [rev X]" for X
      using b(3) by (simp add: b(1) swap_vals_def prim_layout_def swap_bytes_def)
    moreover have "elem dof (basic_fsize ec b) i D' = rev (elem so (basic_fsize ec b) i S)"
      using D'(3) i by (simp add: elem_def)
    ultimately show ?thesis by (simp add: sz)
  qed
  then show ?thesis
    using D'(1,2) None b(2) assms(5) by (auto simp: elf_xfct_def sz of_option_def)
qed

text \<open>The two results of the toolchain's translation, for sizes that agree in memory and file.\<close>

lemma swapped_elements:
  assumes ok: "valid_layout ec def" "FSZ ec def = struct_size ec def"
    and ch: "only_changes dof (dof + n * struct_size ec def) D D'"
    and el: "\<forall>i < n. mem_struct ec def (elem dof (struct_size ec def) i D')
        = swap_vals def (mem_struct ec def (elem so (struct_size ec def) i S))"
    and len: "so + n * struct_size ec def \<le> length S" "dof + n * struct_size ec def \<le> length D"
    and st': "st' = st\<lparr>mem := (mem st)(db \<mapsto> D')\<rparr>"
  shows "tom_result ec def True st so db dof n D S st' D'" "tof_result ec def True st so db dof n D S st' D'"
proof -
  have frame: "length D' = length D" "take dof D' = take dof D"
    "drop (dof + n * struct_size ec def) D' = drop (dof + n * struct_size ec def) D"
    using ch by (simp_all add: only_changes_def)
  have file_form: "file_struct True ec def X = swap_vals def (mem_struct ec def X)" for X
    by (simp add: mem_struct_no_padding [OF ok] file_struct_def Let_def)
  show "tom_result ec def True st so db dof n D S st' D'"
    using frame el st' by (simp add: tom_result_def file_form ok(2))
  have "elem dof (struct_size ec def) i D' = file_bytes True def (mem_struct ec def (elem so (struct_size ec def) i S))" if i: "i < n" for i
  proof -
    have "length (elem dof (struct_size ec def) i D') = FSZ ec def"
      using length_elem [OF i] len(2) frame(1) ok(2) by simp
    then have "elem dof (struct_size ec def) i D' = WRITE_MEMBERS (mem_struct ec def (elem dof (struct_size ec def) i D'))"
      by (simp add: mem_struct_no_padding [OF ok] file_struct_def WRITE_READ_MEMBERS)
    then show ?thesis using el i by (simp add: file_bytes_def)
  qed
  then show "tof_result ec def True st so db dof n D S st' D'"
    using frame st' by (simp add: tof_result_def ok(2))
qed

text \<open>Buffers of \<open>n\<close> elements that are the same or lie in different blocks.\<close>

definition xlate_buffers ::
  "Elf_Data \<Rightarrow> Elf_Data \<Rightarrow> u32 \<Rightarrow> nat \<Rightarrow> nat \<Rightarrow> nat \<Rightarrow> nat \<Rightarrow> byte list \<Rightarrow> nat \<Rightarrow> nat \<Rightarrow> byte list \<Rightarrow> store \<Rightarrow> bool"
where
  "xlate_buffers dest src encoding sz n sb so S db dof D st \<longleftrightarrow>
     encoding \<in> {ELFDATA2LSB, ELFDATA2MSB} \<and> d_buf src = Some (sb, so) \<and> d_buf dest = Some (db, dof)
     \<and> unat (d_size src) = n * sz \<and> d_size src \<le> d_size dest
     \<and> mem st sb = Some S \<and> so + n * sz \<le> length S \<and> mem st db = Some D \<and> dof + n * sz \<le> length D
     \<and> (db = sb \<longrightarrow> dof = so)"


text \<open>A relocation of the other byte order.\<close>

definition demo_rel :: Elf_Data where
  "demo_rel = \<lparr>d_align = 4, d_buf = Some (2, 0), d_off = 0, d_size = 8, d_type = EU_T_REL, d_version = 1\<rparr>"

definition demo_rel_dest :: Elf_Data where
  "demo_rel_dest = \<lparr>d_align = 4, d_buf = Some (3, 0), d_off = 0, d_size = 8, d_type = EU_T_BYTE, d_version = 1\<rparr>"

definition demo_rel_store :: eu_store where
  "demo_rel_store =
     \<lparr>eu_mach = (initial_store ELFDATA2LSB (\<lambda>b. 0))\<lparr>mem := [2 \<mapsto> [0, 0, 1, 2, 0, 0, 3, 4], 3 \<mapsto> replicate 8 0]\<rparr>,
      eu_elfs = Map.empty, eu_global_error = 0, eu_libelf_version = 1, eu_version_initialized = True, eu_fill_byte = 0\<rparr>"


end
