(* ===== verification/Eu_Chains.thy ===== *)
theory Eu_Chains
  imports Eu_Xlate_Facts
begin

text \<open>
  The conversions that follow the structure of the data: when the conversion of version records
  ends, what it reads and writes, and the hash table of two word sizes.
\<close>

section \<open>Version records\<close>

lemma version_moves:
  "layout_moves ELFCLASS64 Elf_Verdef_DEF = [(0, 2, True), (2, 2, True), (4, 2, True), (6, 2, True), (8, 4, True), (12, 4, True), (16, 4, True)]"
  "layout_moves ELFCLASS64 Elf_Verdaux_DEF = [(0, 4, True), (4, 4, True)]"
  "layout_moves ELFCLASS64 Elf_Verneed_DEF = [(0, 2, True), (2, 2, True), (4, 4, True), (8, 4, True), (12, 4, True)]"
  "layout_moves ELFCLASS64 Elf_Vernaux_DEF = [(0, 4, True), (4, 2, True), (6, 2, True), (8, 4, True), (12, 4, True)]"
  by code_simp+

text \<open>
  A definition in the byte order of other machines whose auxiliary record is said to begin at its
  byte 13, so that it covers the last byte of \<open>vd_aux\<close>, all of \<open>vd_next\<close> and one byte more.
\<close>

definition tangled_verdef :: "byte list" where
  "tangled_verdef = [0, 1, 0, 0, 0, 1, 0, 1, 0, 0, 0, 0, 0, 0, 0, 13, 1, 0, 0, 0, 0, 0, 0, 0] @ replicate 16 0"

definition tangled_store :: "byte list \<Rightarrow> store" where
  "tangled_store D = (initial_store ELFDATA2LSB (\<lambda>b. 0))\<lparr>mem := [2 \<mapsto> tangled_verdef, 3 \<mapsto> D], fresh := 4\<rparr>"

lemma tangled_moves:
  "cvt_members (vr_moves verdef_records) (Some (3, 0)) (Some (2, 0)) (tangled_store ([d0, d1, d2, d3, d4, d5, d6, d7, d8, d9, d10, d11, d12, d13, d14, d15, d16, d17, d18, d19, d20, d21, d22, d23] @ E))
    = Some (tangled_store ([1, 0, 0, 0, 1, 0, 1, 0, 0, 0, 0, 0, 13, 0, 0, 0, 0, 0, 0, 1, d20, d21, d22, d23] @ E))"
  "cvt_members (va_moves verdef_records) (Some (3, 13)) (Some (2, 13)) (tangled_store ([1, 0, 0, 0, 1, 0, 1, 0, 0, 0, 0, 0, 13, 0, 0, 0, 0, 0, 0, 1, d20, d21, d22, d23] @ E))
    = Some (tangled_store ([1, 0, 0, 0, 1, 0, 1, 0, 0, 0, 0, 0, 13, 1, 13, 0, 0, 0, 0, 0, 0, d21, d22, d23] @ E))"
  by (simp_all add: verdef_records_def version_moves tangled_store_def tangled_verdef_def put_at_def initial_store_def fun_upd_def cong: if_cong)

lemma tangled_words:
  "word_at (Some (3, 0)) 12 (tangled_store ([1, 0, 0, 0, 1, 0, 1, 0, 0, 0, 0, 0, 13, 0, 0, 0, 0, 0, 0, 1, d20, d21, d22, d23] @ E)) = Some 13"
  "word_at (Some (3, 13)) 4 (tangled_store ([1, 0, 0, 0, 1, 0, 1, 0, 0, 0, 0, 0, 13, 1, 13, 0, 0, 0, 0, 0, 0, d21, d22, d23] @ E)) = Some 0"
  "word_at (Some (3, 0)) 16 (tangled_store ([1, 0, 0, 0, 1, 0, 1, 0, 0, 0, 0, 0, 13, 1, 13, 0, 0, 0, 0, 0, 0, d21, d22, d23] @ E)) = Some 0"
  "word_at (Some (2, 13)) 4 (tangled_store D) = Some 0"
  "word_at (Some (2, 0)) 16 (tangled_store D) = Some 1"
  by (simp_all add: word_at_def tangled_store_def tangled_verdef_def initial_store_def initial_globals_def native_val_def
      word_of_le_Cons)

lemma tangled_step:
  assumes "length E = 16"
  shows "\<exists>D'. length D' = 40 \<and> cvt_version_chain (Suc (Suc fuel)) verdef_records False (Some (3, 0)) (Some (2, 0)) 40 0 (tangled_store ([d0, d1, d2, d3, d4, d5, d6, d7, d8, d9, d10, d11, d12, d13, d14, d15, d16, d17, d18, d19, d20, d21, d22, d23] @ E))
    = cvt_version_chain (Suc fuel) verdef_records False (Some (3, 0)) (Some (2, 0)) 40 0 (tangled_store D')"
proof -
  have sizes: "vr_size verdef_records = 20" "vr_aux verdef_records = 12" "vr_next verdef_records = 16"
    "va_size verdef_records = 8" "va_next verdef_records = 4" by (simp_all add: verdef_records_def)
  show ?thesis
    by (rule exI [of _ "[1, 0, 0, 0, 1, 0, 1, 0, 0, 0, 0, 0, 13, 1, 13, 0, 0, 0, 0, 0, 0, d21, d22, d23] @ E"], subst cvt_version_chain.simps(2))
      (simp add: assms sizes tangled_moves tangled_words of_option_def and_then_def Let_def del: append_Cons append_Nil cvt_version_chain.simps)
qed

lemma list_of_24:
  assumes "length xs = 24"
  obtains d0 d1 d2 d3 d4 d5 d6 d7 d8 d9 d10 d11 d12 d13 d14 d15 d16 d17 d18 d19 d20 d21 d22 d23 where "xs = [d0, d1, d2, d3, d4, d5, d6, d7, d8, d9, d10, d11, d12, d13, d14, d15, d16, d17, d18, d19, d20, d21, d22, d23]"
  using assms by (auto simp: numeral_eq_Suc length_Suc_conv)

lemma tangled_runs:
  "length D = 40 \<Longrightarrow> cvt_version_chain fuel verdef_records False (Some (3, 0)) (Some (2, 0)) 40 0 (tangled_store D) = Running"
proof (induction fuel arbitrary: D)
  case (Suc fuel)
  have "length (take 24 D) = 24" using Suc.prems by simp
  then obtain d0 d1 d2 d3 d4 d5 d6 d7 d8 d9 d10 d11 d12 d13 d14 d15 d16 d17 d18 d19 d20 d21 d22 d23 where d: "take 24 D = [d0, d1, d2, d3, d4, d5, d6, d7, d8, d9, d10, d11, d12, d13, d14, d15, d16, d17, d18, d19, d20, d21, d22, d23]" by (rule list_of_24)
  define E where "E = drop 24 D"
  have D: "D = [d0, d1, d2, d3, d4, d5, d6, d7, d8, d9, d10, d11, d12, d13, d14, d15, d16, d17, d18, d19, d20, d21, d22, d23] @ E" "length E = 16"
    using append_take_drop_id [of 24 D] d Suc.prems by (simp_all add: E_def)
  show ?case
  proof (cases fuel)
    case 0
    have "vr_size verdef_records = 20" "vr_aux verdef_records = 12" by (simp_all add: verdef_records_def)
    then show ?thesis unfolding D(1) 0
      by (subst cvt_version_chain.simps(2)) (simp add: D(2) tangled_moves tangled_words of_option_def and_then_def Let_def del: append_Cons append_Nil)
  next
    case (Suc fuel')
    have "\<exists>D'. length D' = 40 \<and> cvt_version_chain (Suc (Suc fuel')) verdef_records False (Some (3, 0)) (Some (2, 0)) 40 0 (tangled_store D)
      = cvt_version_chain (Suc fuel') verdef_records False (Some (3, 0)) (Some (2, 0)) 40 0 (tangled_store D')"
      unfolding D(1) by (rule tangled_step [OF D(2)])
    then show ?thesis using Suc.IH unfolding Suc by metis
  qed
qed simp

text \<open>
  The record is decoded again and again, since \<open>vd_next\<close> in the destination has been overwritten
  with zero by the auxiliary record that covers it, while the loop ends only when the one in the
  source is zero.
\<close>

lemma verdef_decode_hangs:
  "elf_cvt_Verdef fuel (Some (3, 0)) (Some (2, 0)) 40 False (tangled_store (replicate 40 0)) = Running"
proof -
  have copy: "memcpy (Some (3, 0)) (Some (2, 0)) 40 (tangled_store (replicate 40 0)) = Some (tangled_store tangled_verdef)"
    by (simp add: memcpy_def tangled_store_def tangled_verdef_def initial_store_def fun_upd_def put_at_def cong: if_cong)
  have "length tangled_verdef = 40" by (simp add: tangled_verdef_def)
  then have "cvt_version_chain fuel verdef_records False (Some (3, 0)) (Some (2, 0)) 40 0 (tangled_store tangled_verdef) = Running"
    by (rule tangled_runs)
  then show ?thesis using copy by (simp add: elf_cvt_Verdef_def cvt_version_def of_option_def and_then_def)
qed

section \<open>Conversions that end\<close>

definition records_ok :: "version_records \<Rightarrow> bool" where
  "records_ok v \<longleftrightarrow>
     moves_in 0 (vr_size v) (vr_moves v) \<and> (vr_next v, 4, True) \<in> set (vr_moves v) \<and> vr_aux v + 4 \<le> vr_size v
     \<and> moves_in 0 (va_size v) (va_moves v) \<and> (va_next v, 4, True) \<in> set (va_moves v)
     \<and> 0 < vr_size v \<and> vr_size v < 64 \<and> 0 < va_size v \<and> va_size v < 64"

lemma version_records_ok: "records_ok verdef_records" "records_ok verneed_records"
  by (simp_all add: records_ok_def verdef_records_def verneed_records_def version_moves)

text \<open>Two areas of \<open>n\<close> bytes, the same or in different blocks.\<close>

definition areas :: "nat \<Rightarrow> nat \<Rightarrow> nat \<Rightarrow> nat \<Rightarrow> nat \<Rightarrow> byte list \<Rightarrow> byte list \<Rightarrow> store \<Rightarrow> bool" where
  "areas db dof sb so n D S st \<longleftrightarrow>
     mem st sb = Some S \<and> mem st db = Some D \<and> so + n \<le> length S \<and> dof + n \<le> length D \<and> (db = sb \<longrightarrow> dof = so)"

lemma areas_change:
  assumes "areas db dof sb so n D S st" "only_changes dof (dof + n) D D'"
  shows "areas db dof sb so n D' (source_after db sb S D') (st\<lparr>mem := (mem st)(db \<mapsto> D')\<rparr>)"
  using assms by (auto simp: areas_def only_changes_def source_after_def)

lemma areas_source: "areas db dof sb so n D S st \<Longrightarrow> source_after db sb S D = S"
  by (auto simp: areas_def source_after_def)

lemma native_val_rev_0:
  assumes "length bs = 4"
  shows "native_val order (rev bs) = (0 :: u32) \<longleftrightarrow> native_val order bs = (0 :: u32)"
proof -
  have z: "word_of_le xs = (0 :: u32) \<longleftrightarrow> xs = [0, 0, 0, 0]" if "length xs = 4" for xs
  proof
    assume "word_of_le xs = (0 :: u32)"
    then have "le_of_word 4 (0 :: u32) = xs" using le_of_word_of_le [where 'a = 32, of xs 4] that by simp
    moreover have "le_of_word 4 (0 :: u32) = [0, 0, 0, 0]" by code_simp
    ultimately show "xs = [0, 0, 0, 0]" by simp
  qed (simp add: word_of_le_Cons)
  have "rev bs = [0, 0, 0, 0] \<longleftrightarrow> bs = [0, 0, 0, 0]" by (metis rev_rev_ident rev.simps append_Nil append_Cons)
  then show ?thesis using z [of bs] z [of "rev bs"] assms by (simp add: native_val_def)
qed

lemma word_at_area:
  assumes "mem st b = Some X" "off + k + 4 \<le> length X"
  shows "word_at (Some (b, off)) k st = Some (native_val (host_order st) (segment (off + k) 4 X))"
  using assms by (simp add: word_at_def segment_def)

lemma record_step:
  assumes "areas db dof sb so n D S st" "moves_in 0 sz ms" "(nx, 4, True) \<in> set ms" "off + sz \<le> n"
  obtains D' where "cvt_members ms (Some (db, dof + off)) (Some (sb, so + off)) st = Some (st\<lparr>mem := (mem st)(db \<mapsto> D')\<rparr>)"
    "only_changes dof (dof + n) D D'"
    "segment (dof + off + nx) 4 D' = rev (segment (so + off + nx) 4 S)"
proof -
  obtain D' where D': "cvt_members ms (Some (db, dof + off)) (Some (sb, so + off)) st = Some (st\<lparr>mem := (mem st)(db \<mapsto> D')\<rparr>)"
    "only_changes (dof + off) (dof + off + sz) D D'"
    "\<forall>(o', k, sw) \<in> set ms. segment (dof + off + o') k D' = moved sw (segment (so + off + o') k S)"
    using cvt_members_correct [OF assms(2), of st sb S db D "so + off" "dof + off"] assms(1,4)
    by (auto simp: areas_def)
  have "only_changes dof (dof + n) D D'" using only_changes_mono [OF D'(2)] assms(4) by simp
  moreover have "segment (dof + off + nx) 4 D' = rev (segment (so + off + nx) 4 S)"
    using D'(3) assms(3) by (auto simp: moved_def)
  ultimately show ?thesis using that D'(1) by blast
qed

lemma unat_add_ucast:
  fixes a len :: u64 and w :: u32
  assumes "a \<le> len" "unat len < 2 ^ 63"
  shows "unat (a + ucast w) = unat a + unat w"
proof -
  have "unat a < 2 ^ 63" using assms by (meson le_less_trans word_le_nat_alt)
  moreover have "unat w < 2 ^ 32" using unsigned_less [of w] by simp
  ultimately show ?thesis by (simp add: unat_plus_if_size unsigned_ucast_eq take_bit_nat_eq_self word_size)
qed

lemma in_range:
  fixes off len :: u64
  assumes "\<not> (off > len \<or> len - off < of_nat k)" "k < 64"
  shows "off \<le> len" "unat off + k \<le> unat len"
proof -
  show le: "off \<le> len" using assms(1) by auto
  have "unat (of_nat k :: u64) = k" using assms(2) by (simp add: unat_of_nat take_bit_nat_eq_self)
  then show "unat off + k \<le> unat len"
    using assms(1) unat_sub [OF le] word_le_nat_alt [of off len] le by (simp add: not_less word_le_nat_alt [of "of_nat k"]) linarith
qed

lemma cvt_aux_chain_ends:
  assumes "records_ok v" "unat len < 2 ^ 63"
  shows "areas db dof sb so (unat len) D S st \<Longrightarrow> 0 < fuel \<Longrightarrow> unat len < unat aux_offset + fuel
    \<Longrightarrow> \<exists>b D'. cvt_aux_chain fuel v encode (Some (db, dof)) (Some (sb, so)) len aux_offset st
        = Returned (b, st\<lparr>mem := (mem st)(db \<mapsto> D')\<rparr>) \<and> only_changes dof (dof + unat len) D D'"
proof (induction fuel arbitrary: aux_offset st D S)
  case (Suc fuel)
  note a = Suc.prems(1)
  have upd: "st\<lparr>mem := (mem st)(db \<mapsto> D)\<rparr> = st" using mem_upd_idem [of st db D] a by (simp add: areas_def)
  show ?case
  proof (cases "aux_offset > len \<or> len - aux_offset < of_nat (va_size v)")
    case True
    then have "cvt_aux_chain (Suc fuel) v encode (Some (db, dof)) (Some (sb, so)) len aux_offset st = Returned (False, st)" by auto
    then show ?thesis using upd by (metis only_changes_refl)
  next
    case False
    have sz: "va_size v < 64" "0 < va_size v" and mv: "moves_in 0 (va_size v) (va_moves v)" "(va_next v, 4, True) \<in> set (va_moves v)"
      using assms(1) by (simp_all add: records_ok_def)
    note r = in_range [OF False sz(1)]
    have nx: "va_next v + 4 \<le> va_size v" using moves_in_bounds [OF mv(1)] mv(2) by auto
    obtain D1 where D1: "cvt_members (va_moves v) (Some (db, dof + unat aux_offset)) (Some (sb, so + unat aux_offset)) st
          = Some (st\<lparr>mem := (mem st)(db \<mapsto> D1)\<rparr>)"
        "only_changes dof (dof + unat len) D D1"
        "segment (dof + unat aux_offset + va_next v) 4 D1 = rev (segment (so + unat aux_offset + va_next v) 4 S)"
      using record_step [OF a mv r(2)] by blast
    define st1 where "st1 = st\<lparr>mem := (mem st)(db \<mapsto> D1)\<rparr>"
    define bs where "bs = segment (so + unat aux_offset + va_next v) 4 S"
    have a1: "areas db dof sb so (unat len) D1 (source_after db sb S D1) st1"
      using areas_change [OF a D1(2)] by (simp add: st1_def)
    have host: "host_order st1 = host_order st" by (simp add: st1_def)
    have len_bs: "length bs = 4" using a r(2) nx by (simp add: bs_def areas_def)
    define before after go_on where "before = (native_val (host_order st) bs :: u32)"
      and "after = (native_val (host_order st) (rev bs) :: u32)" and "go_on = (if db = sb then after else before)"
    have words: "word_at (Some (sb, so + unat aux_offset)) (va_next v) st = Some before"
        "word_at (Some (db, dof + unat aux_offset)) (va_next v) st1 = Some after"
        "word_at (Some (sb, so + unat aux_offset)) (va_next v) st1 = Some go_on"
      using a a1 r(2) nx D1(3) host
      by (auto simp: areas_def word_at_area source_after_def before_def after_def go_on_def bs_def)
    define step where "step = (if encode then before else after)"
    have zero: "go_on \<noteq> 0 \<longleftrightarrow> step \<noteq> 0"
      using native_val_rev_0 [OF len_bs] by (simp add: step_def go_on_def before_def after_def)
    have eq: "cvt_aux_chain (Suc fuel) v encode (Some (db, dof)) (Some (sb, so)) len aux_offset st
        = (if go_on \<noteq> 0 then cvt_aux_chain fuel v encode (Some (db, dof)) (Some (sb, so)) len (aux_offset + ucast step) st1
           else Returned (True, st1))"
      using False D1(1) words by (simp add: of_option_def and_then_def step_def st1_def Let_def)
    show ?thesis
    proof (cases "go_on = 0")
      case True
      then show ?thesis using eq D1(2) unfolding st1_def by metis
    next
      case go: False
      then have "0 < unat step" using zero by (simp add: unat_gt_0)
      then have "0 < fuel" "unat len < unat (aux_offset + ucast step) + fuel"
        using Suc.prems(3) r sz(2) unat_add_ucast [OF r(1) assms(2), of step] by auto
      from Suc.IH [OF a1 this] obtain b D2 where
        "cvt_aux_chain fuel v encode (Some (db, dof)) (Some (sb, so)) len (aux_offset + ucast step) st1
          = Returned (b, st1\<lparr>mem := (mem st1)(db \<mapsto> D2)\<rparr>)" "only_changes dof (dof + unat len) D1 D2" by blast
      then have "cvt_aux_chain (Suc fuel) v encode (Some (db, dof)) (Some (sb, so)) len aux_offset st
          = Returned (b, st\<lparr>mem := (mem st)(db \<mapsto> D2)\<rparr>)" "only_changes dof (dof + unat len) D D2"
        using eq go only_changes_trans [OF D1(2)] by (simp_all add: st1_def del: cvt_aux_chain.simps)
      then show ?thesis by metis
    qed
  qed
qed simp

lemma cvt_version_chain_ends:
  assumes "records_ok v" "unat len < 2 ^ 63" "encode \<or> db = sb"
  shows "areas db dof sb so (unat len) D S st \<Longrightarrow> 0 < fuel
    \<Longrightarrow> (def_offset \<le> len \<longrightarrow> 2 * unat len + 2 \<le> fuel + unat def_offset)
    \<Longrightarrow> \<exists>D'. cvt_version_chain fuel v encode (Some (db, dof)) (Some (sb, so)) len def_offset st
        = Returned (st\<lparr>mem := (mem st)(db \<mapsto> D')\<rparr>) \<and> only_changes dof (dof + unat len) D D'"
proof (induction fuel arbitrary: def_offset st D S)
  case (Suc fuel)
  note a = Suc.prems(1)
  have upd: "st\<lparr>mem := (mem st)(db \<mapsto> D)\<rparr> = st" using mem_upd_idem [of st db D] a by (simp add: areas_def)
  show ?case
  proof (cases "def_offset > len \<or> len - def_offset < of_nat (vr_size v)")
    case True
    then have "cvt_version_chain (Suc fuel) v encode (Some (db, dof)) (Some (sb, so)) len def_offset st = Returned st" by auto
    then show ?thesis using upd by (metis only_changes_refl)
  next
    case False
    have sz: "vr_size v < 64" "0 < vr_size v" "vr_aux v + 4 \<le> vr_size v"
      and mv: "moves_in 0 (vr_size v) (vr_moves v)" "(vr_next v, 4, True) \<in> set (vr_moves v)"
      using assms(1) by (simp_all add: records_ok_def)
    note r = in_range [OF False sz(1)]
    have nx: "vr_next v + 4 \<le> vr_size v" using moves_in_bounds [OF mv(1)] mv(2) by auto
    let ?cvt = "cvt_members (vr_moves v) (Some (db, dof + unat def_offset)) (Some (sb, so + unat def_offset))"
    have convert: "\<exists>D2. ?cvt st1 = Some (st1\<lparr>mem := (mem st1)(db \<mapsto> D2)\<rparr>) \<and> only_changes dof (dof + unat len) D1 D2
        \<and> segment (dof + unat def_offset + vr_next v) 4 D2 = rev (segment (so + unat def_offset + vr_next v) 4 S1)"
      if "areas db dof sb so (unat len) D1 S1 st1" for D1 S1 st1
      using record_step [OF that mv r(2)] by metis
    obtain D1 where D1: "(if encode then Some st else ?cvt st) = Some (st\<lparr>mem := (mem st)(db \<mapsto> D1)\<rparr>)"
        "only_changes dof (dof + unat len) D D1"
      using convert [OF a] upd by (metis only_changes_refl)
    define st1 where "st1 = st\<lparr>mem := (mem st)(db \<mapsto> D1)\<rparr>"
    define S1 where "S1 = source_after db sb S D1"
    have a1: "areas db dof sb so (unat len) D1 S1 st1"
      using areas_change [OF a D1(2)] by (simp add: st1_def S1_def)
    define aux :: u32 where "aux = native_val (host_order st1) (if encode then segment (so + unat def_offset + vr_aux v) 4 S1
      else segment (dof + unat def_offset + vr_aux v) 4 D1)"
    have aux: "word_at (if encode then Some (sb, so + unat def_offset) else Some (db, dof + unat def_offset)) (vr_aux v) st1 = Some aux"
      using a1 r(2) sz(3) by (auto simp: areas_def word_at_area aux_def)
    have "0 < fuel" "unat len < unat (def_offset + ucast aux) + fuel"
      using Suc.prems(3) r sz(2) by auto
    from cvt_aux_chain_ends [OF assms(1,2) a1 this] obtain b D2 where
      D2: "cvt_aux_chain fuel v encode (Some (db, dof)) (Some (sb, so)) len (def_offset + ucast aux) st1
        = Returned (b, st1\<lparr>mem := (mem st1)(db \<mapsto> D2)\<rparr>)" "only_changes dof (dof + unat len) D1 D2" by blast
    define st2 where "st2 = st1\<lparr>mem := (mem st1)(db \<mapsto> D2)\<rparr>"
    define S2 where "S2 = source_after db sb S1 D2"
    have a2: "areas db dof sb so (unat len) D2 S2 st2"
      using areas_change [OF a1 D2(2)] by (simp add: st2_def S2_def)
    define bs where "bs = segment (so + unat def_offset + vr_next v) 4 S2"
    define step :: u32 where "step = native_val (host_order st2) bs"
    have in_place: "sb = db \<and> so = dof \<and> S2 = D2" if "\<not> encode"
      using that assms(3) a2 by (auto simp: areas_def)
    have "word_at (Some (sb, so + unat def_offset)) (vr_next v) st2 = Some step"
      using a2 r(2) nx by (auto simp: areas_def word_at_area step_def bs_def)
    then have step: "word_at (if encode then Some (sb, so + unat def_offset) else Some (db, dof + unat def_offset)) (vr_next v) st2 = Some step"
      using in_place by (cases encode) simp_all
    obtain D3 go_on where D3: "(if encode then ?cvt st2 else Some st2) = Some (st2\<lparr>mem := (mem st2)(db \<mapsto> D3)\<rparr>)"
        "only_changes dof (dof + unat len) D2 D3"
        "word_at (Some (sb, so + unat def_offset)) (vr_next v) (st2\<lparr>mem := (mem st2)(db \<mapsto> D3)\<rparr>) = Some go_on"
        "go_on \<noteq> 0 \<longleftrightarrow> step \<noteq> 0"
    proof (cases encode)
      case True
      obtain D3 where D3: "?cvt st2 = Some (st2\<lparr>mem := (mem st2)(db \<mapsto> D3)\<rparr>)" "only_changes dof (dof + unat len) D2 D3"
          "segment (dof + unat def_offset + vr_next v) 4 D3 = rev bs"
        using convert [OF a2] by (auto simp: bs_def)
      have a3: "areas db dof sb so (unat len) D3 (source_after db sb S2 D3) (st2\<lparr>mem := (mem st2)(db \<mapsto> D3)\<rparr>)"
        by (rule areas_change [OF a2 D3(2)])
      have "length bs = 4" using a2 r(2) nx by (simp add: bs_def areas_def)
      note zero = native_val_rev_0 [OF this, of "host_order st2"]
      let ?go = "native_val (host_order st2) (if db = sb then rev bs else bs) :: u32"
      have "word_at (Some (sb, so + unat def_offset)) (vr_next v) (st2\<lparr>mem := (mem st2)(db \<mapsto> D3)\<rparr>) = Some ?go"
        using a3 a2 r(2) nx D3(3) by (auto simp: areas_def word_at_area source_after_def bs_def)
      moreover have "?go \<noteq> 0 \<longleftrightarrow> step \<noteq> 0" using zero by (simp add: step_def)
      ultimately show ?thesis using that D3(1,2) True by simp
    next
      case False
      have "st2\<lparr>mem := (mem st2)(db \<mapsto> D2)\<rparr> = st2" using mem_upd_idem [of st2 db D2] a2 by (simp add: areas_def)
      then show ?thesis using that [of D2 step] False step in_place by simp
    qed
    define st3 where "st3 = st2\<lparr>mem := (mem st2)(db \<mapsto> D3)\<rparr>"
    have a3: "areas db dof sb so (unat len) D3 (source_after db sb S2 D3) st3"
      using areas_change [OF a2 D3(2)] by (simp add: st3_def)
    have ch: "only_changes dof (dof + unat len) D D2" "only_changes dof (dof + unat len) D D3"
      using D1(2) D2(2) D3(2) by (auto intro: only_changes_trans)
    have st: "st2 = st\<lparr>mem := (mem st)(db \<mapsto> D2)\<rparr>" "st3 = st\<lparr>mem := (mem st)(db \<mapsto> D3)\<rparr>"
      by (simp_all add: st1_def st2_def st3_def)
    have ptr: "ptr_off (Some (b, off)) k = Some (b, off + k)" for b off k by simp
    have eq: "cvt_version_chain (Suc fuel) v encode (Some (db, dof)) (Some (sb, so)) len def_offset st
      = (if \<not> b then Returned st2
         else if go_on \<noteq> 0 then cvt_version_chain fuel v encode (Some (db, dof)) (Some (sb, so)) len (def_offset + ucast step) st3
         else Returned st3)"
      by (simp only: cvt_version_chain.simps(2) Let_def ptr [of db dof] ptr [of sb so] False D1(1) aux D2(1) step D3(1) D3(3) [folded st3_def] of_option_def and_then_def
          Option.bind.simps option.case outcome.case prod.case if_False if_True st1_def [symmetric] st2_def [symmetric] st3_def [symmetric])
    show ?thesis
    proof (cases "b \<and> go_on \<noteq> 0")
      case False
      then have "cvt_version_chain (Suc fuel) v encode (Some (db, dof)) (Some (sb, so)) len def_offset st = Returned (if b then st3 else st2)"
        unfolding eq by auto
      then have "cvt_version_chain (Suc fuel) v encode (Some (db, dof)) (Some (sb, so)) len def_offset st
          = Returned (st\<lparr>mem := (mem st)(db \<mapsto> (if b then D3 else D2))\<rparr>)"
        by (cases b) (simp_all only: st if_True if_False)
      moreover have "only_changes dof (dof + unat len) D (if b then D3 else D2)" using ch by simp
      ultimately show ?thesis by blast
    next
      case True
      then have "0 < unat step" using D3(4) by (simp add: unat_gt_0)
      then have "def_offset + ucast step \<le> len \<longrightarrow> 2 * unat len + 2 \<le> fuel + unat (def_offset + ucast step)"
        using Suc.prems(3) r unat_add_ucast [OF r(1) assms(2), of step] by auto
      from Suc.IH [OF a3 \<open>0 < fuel\<close> this] obtain D4 where
        "cvt_version_chain fuel v encode (Some (db, dof)) (Some (sb, so)) len (def_offset + ucast step) st3
          = Returned (st3\<lparr>mem := (mem st3)(db \<mapsto> D4)\<rparr>)" "only_changes dof (dof + unat len) D3 D4" by blast
      then have "cvt_version_chain (Suc fuel) v encode (Some (db, dof)) (Some (sb, so)) len def_offset st
          = Returned (st\<lparr>mem := (mem st)(db \<mapsto> D4)\<rparr>)" "only_changes dof (dof + unat len) D D4"
        unfolding eq using True only_changes_trans [OF ch(2)] by (simp_all add: st(2) del: cvt_version_chain.simps)
      then show ?thesis by blast
    qed
  qed
qed simp

text \<open>
  C37. Converting version records in place ends, in both directions, whatever the bytes are, and so does
  encoding them into another block: a number of steps of twice the number of bytes is enough, no
  byte outside the data is read, and only the data's bytes change.
\<close>

theorem version_conversion_ends:
  assumes "conversion = elf_cvt_Verdef \<or> conversion = elf_cvt_Verneed" "encode \<or> db = sb"
    and "areas db dof sb so (unat len) D S st" "unat len < 2 ^ 63" "2 * unat len + 2 \<le> fuel"
  shows "\<exists>D'. conversion fuel (Some (db, dof)) (Some (sb, so)) len encode st
      = Returned (st\<lparr>mem := (mem st)(db \<mapsto> D')\<rparr>) \<and> only_changes dof (dof + unat len) D D'"
proof -
  obtain v where v: "records_ok v" "conversion fuel = cvt_version fuel v"
    using assms(1) version_records_ok by (auto simp: elf_cvt_Verdef_def elf_cvt_Verneed_def)
  have a: "mem st sb = Some S" "so + unat len \<le> length S" "mem st db = Some D" "dof + unat len \<le> length D"
    using assms(3) by (simp_all add: areas_def)
  define D1 where "D1 = put_at dof (segment so (unat len) S) D"
  define st1 where "st1 = st\<lparr>mem := (mem st)(db \<mapsto> D1)\<rparr>"
  have ch: "only_changes dof (dof + unat len) D D1"
    using only_changes_put_at [of dof "segment so (unat len) S" D] a by (simp add: D1_def)
  have copy: "memcpy (Some (db, dof)) (Some (sb, so)) (unat len) st = Some st1"
    using memcpy_correct [OF a] by (simp add: D1_def st1_def)
  have a1: "areas db dof sb so (unat len) D1 (source_after db sb S D1) st1"
    using areas_change [OF assms(3) ch] by (simp add: st1_def)
  have "0 < fuel" "0 \<le> len \<longrightarrow> 2 * unat len + 2 \<le> fuel + unat (0 :: u64)" using assms(5) by simp_all
  from cvt_version_chain_ends [OF v(1) assms(4,2) a1 this] obtain D2 where
    D2: "cvt_version_chain fuel v encode (Some (db, dof)) (Some (sb, so)) len 0 st1
      = Returned (st1\<lparr>mem := (mem st1)(db \<mapsto> D2)\<rparr>)" "only_changes dof (dof + unat len) D1 D2" by blast
  show ?thesis
  proof (cases "len = 0")
    case True
    then have "conversion fuel (Some (db, dof)) (Some (sb, so)) len encode st = Returned (st\<lparr>mem := (mem st)(db \<mapsto> D)\<rparr>)"
      using mem_upd_idem [OF a(3)] v(2) by (simp add: cvt_version_def fun_upd_def)
    then show ?thesis using only_changes_refl by blast
  next
    case False
    have "conversion fuel (Some (db, dof)) (Some (sb, so)) len encode st = Returned (st1\<lparr>mem := (mem st1)(db \<mapsto> D2)\<rparr>)"
      using copy D2(1) False v(2) by (simp add: cvt_version_def of_option_def and_then_def)
    then have "conversion fuel (Some (db, dof)) (Some (sb, so)) len encode st = Returned (st\<lparr>mem := (mem st)(db \<mapsto> D2)\<rparr>)"
      by (simp add: st1_def)
    then show ?thesis using only_changes_trans [OF ch D2(2)] by blast
  qed
qed

text \<open>The 40 bytes whose decoding into another buffer never ends are decoded in place.\<close>

lemma version_conversion_ends_witness:
  "\<exists>D'. elf_cvt_Verdef 82 (Some (2, 0)) (Some (2, 0)) 40 False (tangled_store [])
    = Returned ((tangled_store [])\<lparr>mem := (mem (tangled_store []))(2 \<mapsto> D')\<rparr>) \<and> only_changes 0 (0 + unat (40 :: u64)) tangled_verdef D'"
  by (rule version_conversion_ends [where conversion = elf_cvt_Verdef and encode = False and db = 2 and sb = 2 and so = 0 and S = tangled_verdef])
    (simp_all add: areas_def tangled_store_def tangled_verdef_def)

section \<open>The hash table of two word sizes\<close>

lemma gnu_words_step:
  "0 < n \<Longrightarrow> gnu_words bytes n pos dest src len st =
     (if len < of_nat bytes then Some (None, st)
      else do { st \<leftarrow> cvt_members [(pos, bytes, True)] dest src st;
                gnu_words bytes (n - 1) (pos + bytes) dest src (len - of_nat bytes) st })"
  by (cases n) simp_all

text \<open>A table of one word of 64 bits and one bucket, on a machine of the other byte order.\<close>

definition demo_gnuhash :: "byte list" where
  "demo_gnuhash = [1, 0, 0, 0, 0, 0, 0, 0, 1, 0, 0, 0, 0, 0, 0, 0, 1, 2, 3, 4, 5, 6, 7, 8, 9, 10, 11, 12]"

definition demo_gnuhash_store :: store where
  "demo_gnuhash_store = (initial_store ELFDATA2LSB (\<lambda>b. 0))\<lparr>mem := [2 \<mapsto> demo_gnuhash, 3 \<mapsto> replicate 28 0]\<rparr>"

text \<open>
  Encoding in place loses the number of 64-bit words, which is read after it has been swapped, so
  the bucket keeps its byte order; encoding into another block swaps it.
\<close>

lemma gnuhash_encode_depends_on_place:
  "map_option (\<lambda>st. map_option (drop 24) (mem st 2)) (elf_cvt_gnuhash (Some (2, 0)) (Some (2, 0)) 28 True demo_gnuhash_store)
     = Some (Some [9, 10, 11, 12])"
  "map_option (\<lambda>st. map_option (drop 24) (mem st 3)) (elf_cvt_gnuhash (Some (3, 0)) (Some (2, 0)) 28 True demo_gnuhash_store)
     = Some (Some [12, 11, 10, 9])"
  by (simp_all add: elf_cvt_gnuhash_def gnu_words_step demo_gnuhash_store_def demo_gnuhash_def initial_store_def
      initial_globals_def word_at_def native_val_def word_of_le_Cons put_at_def numeral_2_eq_2 [symmetric] del: gnu_words.simps(2))

end
