(* ===== verification/Eu_Header_Facts.thy ===== *)
theory Eu_Header_Facts
  imports Eu_Headers
begin

text \<open>
  What the header operations of elfutils achieve: data comes whole from a file however the system
  cuts it, headers written are headers read, the number of program headers survives its escape
  into section 0, and the section header table is the one of the file whether it is mapped or read.
\<close>

section \<open>Reading a file\<close>

text \<open>
  A regular file as \<open>pread\<close> shows it: each call gives some of the bytes asked for, at least one
  where there are any.
\<close>

definition reads_file :: "pread \<Rightarrow> int \<Rightarrow> byte list \<Rightarrow> bool" where
  "reads_file pr fd img \<longleftrightarrow>
     (\<forall>n off. \<exists>k \<le> n. pr fd n off = Some (segment off k img) \<and> (0 < n \<and> off < length img \<longrightarrow> 0 < k))"

lemma segment_trim: "segment off (length (segment off k xs)) xs = segment off k xs"
  by (cases "k \<le> length xs - off") (auto simp: segment_def min_def)

lemma segment_add: "segment off (a + b) xs = segment off a xs @ segment (off + a) b xs"
  by (simp add: segment_def take_add add.commute)

lemma length_segment_min: "length (segment off n xs) = min n (length xs - off)"
  by (simp add: segment_def min.commute)

declare pread_retry_loop.simps [simp del]

lemma pread_retry_loop_file:
  assumes "reads_file pr fd img" "got = segment off (length got) img" "length got \<le> n"
  shows "pread_retry_loop pr fd n off got = (int (min n (length img - off)), segment off n img)"
  using assms
proof (induction pr fd n off got rule: pread_retry_loop.induct)
  case (1 pr fd n off got)
  let ?o = "off + length got"
  obtain k where k: "k \<le> n - length got" "pr fd (n - length got) ?o = Some (segment ?o k img)"
      "0 < n - length got \<and> ?o < length img \<longrightarrow> 0 < k"
    using 1(2) unfolding reads_file_def by blast
  define bs where "bs = segment ?o k img"
  have bs: "length bs = min k (length img - ?o)" unfolding bs_def by (rule length_segment_min)
  have got: "length got \<le> length img - off" using arg_cong [OF 1(3), of length] by (simp add: length_segment_min)
  have ext: "got @ bs = segment off (length (got @ bs)) img"
    using 1(3) segment_trim [where off = ?o and k = k and xs = img] by (simp add: segment_add bs_def)
  have step: "pread_retry_loop pr fd n off got =
      (if bs = [] then (int (length got), got)
       else if length (got @ bs) < n then pread_retry_loop pr fd n off (got @ bs)
       else (int (length (got @ bs)), got @ bs))"
    by (subst pread_retry_loop.simps) (simp add: k(2) bs_def)
  show ?case
  proof (cases "bs = []")
    case True
    then have n: "length got = min n (length img - off)" using bs k(1,3) 1(4) got by auto
    then have g: "got = segment off n img"
      using segment_trim [where off = off and k = n and xs = img] 1(3) by (simp add: length_segment_min)
    show ?thesis unfolding step using True n g by simp
  next
    case False
    show ?thesis
    proof (cases "length (got @ bs) < n")
      case True
      have "pread_retry_loop pr fd n off (got @ bs) = (int (min n (length img - off)), segment off n img)"
        by (rule 1(1) [OF _ False True 1(2) ext]) (use k(2) True in \<open>simp_all add: bs_def\<close>)
      from this False True show ?thesis unfolding step by (simp only: if_True if_False)
    next
      case whole: False
      then have n: "length (got @ bs) = n" using bs k(1) 1(4) by simp
      have m: "min n (length img - off) = n" using n bs got by simp
      have g: "got @ bs = segment off n img" using ext unfolding n .
      show ?thesis unfolding step n m unfolding g using False by simp
    qed
  qed
qed

text \<open>
  C33. However the system cuts a file into replies, reading it in the loop ends and gives all the
  bytes asked for that the file has.
\<close>

theorem pread_retry_reads_all:
  assumes "reads_file pr fd img"
  shows "pread_retry pr fd n off = (int (min n (length img - off)), segment off n img)"
  unfolding pread_retry_def using pread_retry_loop_file [OF assms, of "[]"] by (simp add: segment_def)

text \<open>A system that gives at most two bytes at a time.\<close>

definition two_at_a_time :: "byte list \<Rightarrow> pread" where
  "two_at_a_time img fd n off = Some (segment off (min n 2) img)"

theorem pread_retry_reads_all_witness:
  "pread_retry (two_at_a_time [1, 2, 3, 4, 5]) 3 9 1 = (4, [2, 3, 4, 5])"
proof -
  have "reads_file (two_at_a_time [1, 2, 3, 4, 5]) 3 [1, 2, 3, 4, 5]"
    unfolding reads_file_def two_at_a_time_def by (auto intro!: exI [of _ "min _ 2"])
  from pread_retry_reads_all [OF this, of 9 1] show ?thesis by (simp add: segment_def)
qed

section \<open>The ELF header\<close>

lemma ehdr_widen_narrow:
  assumes "\<not> eh_entry g > 0xFFFFFFFF" "\<not> eh_phoff g > 0xFFFFFFFF" "\<not> eh_shoff g > 0xFFFFFFFF"
  shows "ehdr_widen (eu_ehdr_narrow g) = g"
  using assms by (simp add: ehdr_widen_def eu_ehdr_narrow_def ucast_u64_u32_u64 not_less)

text \<open>
  An ELF header that \<open>gelf_update_ehdr\<close> accepts is the one \<open>gelf_getehdr\<close> returns, and the
  header is marked to be written; it is refused exactly when an address or offset of it does not
  fit into an object of 32 bits, and then only the error number changes.
\<close>

lemma eu_update_ehdr_then_get:
  assumes "eu_elfs es e = Some elf" "ee_kind elf = ELF_K_ELF" "ee_ehdr elf \<noteq> None"
  shows "if ee_class elf = ELFCLASS32 \<and> (0xFFFFFFFF < eh_entry g \<or> 0xFFFFFFFF < eh_phoff g \<or> 0xFFFFFFFF < eh_shoff g)
    then eu_gelf_update_ehdr (Some e) g es = Some (0, eu_seterrno EU_E_INVALID_DATA es)
    else \<exists>es' elf'. eu_gelf_update_ehdr (Some e) g es = Some (1, es') \<and> eu_gelf_getehdr (Some e) es' = Some (Some g, es')
      \<and> eu_elfs es' = (eu_elfs es)(e \<mapsto> elf') \<and> ee_scns elf' = ee_scns elf
      \<and> ee_ehdr_flags elf' = ee_ehdr_flags elf OR EU_F_DIRTY"
  using assms by (auto simp: eu_gelf_update_ehdr_def eu_gelf_getehdr_def ehdr_widen_narrow)

section \<open>The number of program headers\<close>

lemma phdr_msizes: "phdr_msize ELFCLASS32 = 32" "phdr_msize ELFCLASS64 = 56"
  by code_simp+

lemma eu_put_scn_elf: "eu_elfs es e = Some elf \<Longrightarrow> eu_put_scn (e, k, i) x es = eu_put_elf e (set_block_scn k i x elf) es"
  by (simp add: eu_put_scn_def)

lemma eu_put_elf_twice [simp]: "eu_put_elf e x (eu_put_elf e y es) = eu_put_elf e x es"
  by (simp add: eu_put_elf_def)

lemma ucast_phnum:
  "count < PN_XNUM \<Longrightarrow> (ucast (ucast count :: u16) :: u64) = count"
  "count < PN_XNUM \<Longrightarrow> (ucast (ucast count :: u16) :: u64) \<noteq> PN_XNUM"
proof -
  assume c: "count < PN_XNUM"
  then have "unat count < 2 ^ 16" by (simp add: word_less_nat_alt)
  then have "take_bit 16 count = count"
    by (simp add: word_unat_eq_iff unsigned_take_bit_eq take_bit_nat_eq_self)
  then show "(ucast (ucast count :: u16) :: u64) = count"
    by (simp add: unsigned_ucast_eq word_unat_eq_iff flip: take_bit_eq_mod)
  then show "(ucast (ucast count :: u16) :: u64) \<noteq> PN_XNUM" using c by auto
qed

definition counts_phdrs :: "nat \<Rightarrow> int \<Rightarrow> u64 \<Rightarrow> Eu_Elf \<Rightarrow> eu_store \<Rightarrow> bool" where
  "counts_phdrs e bits count elf es \<longleftrightarrow>
     eu_elfs es e = Some elf \<and> ee_kind elf = ELF_K_ELF \<and> ee_class elf = bits \<and> ee_phdr elf = Some (zero_phdrs bits (unat count))
     \<and> (\<exists>eh. ee_ehdr elf = Some eh \<and>
          (if count < PN_XNUM then ehdr_phnum eh = ucast count
           else ehdr_phnum eh = 0xFFFF \<and> (\<exists>b bs scn sh. ee_scns elf = b # bs \<and> 0 < sl_cnt b
             \<and> eu_scn0 elf = Some scn \<and> sc_shdr scn = Some sh \<and> shdr_info sh = ucast count)))"

lemma counts_phdrs_num:
  assumes "counts_phdrs e bits count elf es" "count \<le> 0xFFFFFFFF"
  shows "eu_getphdrnum_rdlock e es = Some (Some count, es)" "eu_getphdrnum_chk e es = Some (Some count, es)"
    "eu_elf_getphdrnum (Some e) es = Some (Some count, es)"
proof -
  show 1: "eu_getphdrnum_rdlock e es = Some (Some count, es)"
    using assms by (auto simp: counts_phdrs_def eu_getphdrnum_rdlock_def ucast_phnum ucast_u64_u32_u64 split: if_splits)
  show 2: "eu_getphdrnum_chk e es = Some (Some count, es)"
    using assms(1) by (auto simp: eu_getphdrnum_chk_def 1 counts_phdrs_def)
  show "eu_elf_getphdrnum (Some e) es = Some (Some count, es)"
    using assms(1) by (auto simp: eu_elf_getphdrnum_def 2 counts_phdrs_def)
qed

lemma zero_phdr_widen [simp]: "phdr_widen zero_Elf_Phdr = zero_Elf_Phdr"
  by (simp add: phdr_widen_def zero_Elf_Phdr_def)

lemma sint_small_u32: "unat (a :: u32) < 2 ^ 31 \<Longrightarrow> sint a = int (unat a)"
proof -
  assume "unat a < 2 ^ 31"
  then have "int (unat a) < 2 ^ 31" by (metis of_nat_less_iff of_nat_numeral of_nat_power)
  moreover have "sint a = signed_take_bit 31 (int (unat a))" unfolding sint_uint by simp
  ultimately show ?thesis by (simp only: signed_take_bit_int_eq_self)
qed

lemma counts_phdrs_get:
  assumes "counts_phdrs e bits count elf es" "count \<le> 0xFFFFFFFF" "bits = ELFCLASS32 \<or> bits = ELFCLASS64"
    and "unat (i :: u32) < 2 ^ 31" "unat i < unat count"
  shows "eu_gelf_getphdr pr unaligned (Some e) i True es = Some (Some zero_Elf_Phdr, es)"
proof -
  have i: "sint i = int (unat i)" using assms(4) by (rule sint_small_u32)
  have "unat (scast i :: u64) = unat i"
    using assms(4) by (simp add: scast_eq i unat_of_nat_u64 unat_ucast_u32_u64)
  then have "scast i < count" using assms(5) by (simp add: word_less_nat_alt)
  then show ?thesis
    using assms i by (auto simp: eu_gelf_getphdr_def counts_phdrs_num [OF assms(1,2)] counts_phdrs_def zero_phdrs_def phdrs_length_def)
qed

lemma eu_newphdr_counts:
  assumes "eu_elfs es e = Some elf" "ee_kind elf = ELF_K_ELF" "ee_class elf = bits" "bits = ELFCLASS32 \<or> bits = ELFCLASS64"
    "ee_ehdr elf = Some eh" "scns_wf elf" "oom (eu_mach es) = []"
    and "ee_phdr elf = None \<or> ee_phdr_flags elf AND EU_F_MALLOCED \<noteq> 0 \<and> (ucast (ehdr_phnum eh) \<noteq> count \<or> count = PN_XNUM)"
    and "0 < count" "count \<le> 0xFFFFFFFF"
    and "count < PN_XNUM \<or> (\<exists>scn sh. eu_scn0 elf = Some scn \<and> sc_shdr scn = Some sh)"
  shows "\<exists>elf' es'. eu_newphdr bits (Some e) count es = Some (Some (zero_phdrs bits (unat count)), es')
    \<and> counts_phdrs e bits count elf' es' \<and> (\<forall>e'. e' \<noteq> e \<longrightarrow> eu_elfs es' e' = eu_elfs es e')"
proof -
  have size: "count \<le> (-1) div of_nat (phdr_msize bits)"
  proof -
    have "count \<le> (-1) div 56" "count \<le> ((-1) div 32 :: u64)"
      using assms(10) by (simp_all add: word_le_nat_alt unat_div)
    then show ?thesis using assms(4) by (auto simp: phdr_msizes)
  qed
  have small: "(ucast (ucast count :: u32) :: u64) = count" using assms(10) by (simp add: ucast_u64_u32_u64)
  obtain b bs where b: "ee_scns elf = b # bs" "block_wf b"
    using assms(6) by (cases "ee_scns elf") (auto simp: scns_wf_def)
  have room: "0 < length (sl_data b)" "0 < sl_max b" using block_wfD(1-3) [OF b(2)] by simp_all
  have set_counts: "ehdr_phnum (set_ehdr_phdrs num sz eh) = num" for num sz
    by (cases eh) (simp_all add: set_ehdr_phdrs_def map_ehdr_def)
  have info: "shdr_info (set_shdr_info v sh) = v" for v sh
    by (cases sh) (simp_all add: set_shdr_info_def map_shdr_def)
  obtain scn0 where scn0: "eu_scn0 elf = Some scn0" using b room by (simp add: eu_scn0_def block_scn_def)
  have new: "ucast (ehdr_phnum eh) \<noteq> count \<or> count = PN_XNUM \<or> ee_phdr elf = None" using assms(8) by auto
  have size': "((-1) div of_nat (phdr_msize bits) < count) = False" using size by (simp add: not_less)
  have new': "(ucast (ehdr_phnum eh) = count \<and> count \<noteq> PN_XNUM \<and> ee_phdr elf \<noteq> None) = False" using new by auto
  have heap: "ee_phdr elf = None \<or> ee_phdr_flags elf AND EU_F_MALLOCED \<noteq> 0" using assms(8) by auto
  have zero: "count \<noteq> 0" using assms(9) by auto
  define finish where "finish = (\<lambda>num (elf :: Eu_Elf). elf\<lparr>ee_phdr := Some (zero_phdrs bits (unat count)),
    ee_ehdr := Some (set_ehdr_phdrs num (of_nat (phdr_msize bits)) eh),
    ee_phdr_flags := ee_phdr_flags elf OR (EU_F_DIRTY OR EU_F_MALLOCED), ee_flags := ee_flags elf OR EU_F_DIRTY\<rparr>)"
  have scn0': "eu_scn0 (elf\<lparr>ee_class := bits\<rparr>) = Some scn0" using scn0 by (simp add: eu_scn0_def block_scn_def split: if_splits)
  show ?thesis
  proof (cases "count < PN_XNUM")
    case True
    then have under: "(PN_XNUM \<le> count) = False" by auto
    have "eu_newphdr bits (Some e) count es
        = Some (Some (zero_phdrs bits (unat count)), eu_put_elf e (finish (ucast count) (elf\<lparr>ee_class := bits\<rparr>)) es)"
      using size scn0 new heap True
      by (simp add: eu_newphdr_def finish_def Let_def assms(1-3,5,7) small zero scn0' not_less under)
    then show ?thesis
      using True assms(1-5) set_counts by (auto simp: counts_phdrs_def eu_sections_def finish_def)
  next
    case False
    then obtain sh where sh: "sc_shdr scn0 = Some sh" using assms(11) scn0 by auto
    have over: "(PN_XNUM \<le> count) = True" using False by auto
    define scn where "scn = scn0\<lparr>sc_shdr := Some (set_shdr_info (ucast count) sh), sc_shdr_flags := sc_shdr_flags scn0 OR EU_F_DIRTY\<rparr>"
    define counted where "counted = (if sl_cnt b = 0
      then elf\<lparr>ee_class := bits, ee_scns := (ee_scns elf)[0 := b\<lparr>sl_cnt := 1\<rparr>]\<rparr> else elf\<lparr>ee_class := bits\<rparr>)"
    have "eu_newphdr bits (Some e) count es
        = Some (Some (zero_phdrs bits (unat count)), eu_put_elf e (finish 0xFFFF (set_block_scn 0 0 scn counted)) es)"
      using new heap
      by (cases "sl_cnt b = 0")
        (simp_all add: eu_newphdr_def finish_def Let_def assms(1-3,5,7) small zero scn0' size' sh b(1) eu_put_scn_elf scn_def
          counted_def over room)
    moreover have "ee_scns (set_block_scn 0 0 scn counted) = b\<lparr>sl_cnt := (if sl_cnt b = 0 then 1 else sl_cnt b), sl_data := (sl_data b)[0 := scn]\<rparr> # bs"
      by (simp add: set_block_scn_def counted_def b(1))
    moreover have "ee_class counted = bits" "ee_kind counted = ELF_K_ELF" using assms(2) by (simp_all add: counted_def)
    ultimately show ?thesis
      using False room set_counts info
      by (auto simp: counts_phdrs_def finish_def eu_scn0_def block_scn_def scn_def word_gt_0)
  qed
qed

text \<open>
  C34. After \<open>elf32_newphdr\<close> or \<open>elf64_newphdr\<close> has made a table of any number of program headers
  below \<open>2 ^ 32\<close>, \<open>elf_getphdrnum\<close> returns that number, also where it does not fit into the header
  and is kept in section 0, and every entry can be got and is zero.
\<close>

theorem eu_newphdr_count:
  assumes "eu_elfs es e = Some elf" "ee_kind elf = ELF_K_ELF" "ee_class elf = bits" "bits = ELFCLASS32 \<or> bits = ELFCLASS64"
    "ee_ehdr elf = Some eh" "scns_wf elf" "oom (eu_mach es) = []"
    and "ee_phdr elf = None \<or> ee_phdr_flags elf AND EU_F_MALLOCED \<noteq> 0 \<and> (ucast (ehdr_phnum eh) \<noteq> count \<or> count = PN_XNUM)"
    and "0 < count" "count \<le> 0xFFFFFFFF"
    and "count < PN_XNUM \<or> (\<exists>scn sh. eu_scn0 elf = Some scn \<and> sc_shdr scn = Some sh)"
  shows "\<exists>es'. eu_newphdr bits (Some e) count es = Some (Some (zero_phdrs bits (unat count)), es')
    \<and> eu_elf_getphdrnum (Some e) es' = Some (Some count, es')
    \<and> (\<forall>i. unat i < 2 ^ 31 \<and> unat i < unat count
        \<longrightarrow> eu_gelf_getphdr pr unaligned (Some e) i True es' = Some (Some zero_Elf_Phdr, es'))
    \<and> (\<forall>e'. e' \<noteq> e \<longrightarrow> eu_elfs es' e' = eu_elfs es e')"
proof -
  obtain elf' es' where n: "eu_newphdr bits (Some e) count es = Some (Some (zero_phdrs bits (unat count)), es')"
    "counts_phdrs e bits count elf' es'" "\<forall>e'. e' \<noteq> e \<longrightarrow> eu_elfs es' e' = eu_elfs es e'"
    using eu_newphdr_counts [OF assms] by blast
  show ?thesis
    using n(1,3) counts_phdrs_num(3) [OF n(2) assms(10)] counts_phdrs_get [OF n(2) assms(10,4)] by blast
qed

definition demo_header_store :: eu_store where
  "demo_header_store = (demo_list_store 1 [])\<lparr>eu_elfs := [0 \<mapsto> (demo_list_elf 1)\<lparr>ee_ehdr := Some (zero_ehdr ELFCLASS64)\<rparr>]\<rparr>"

lemma eu_update_ehdr_then_get_witness:
  "\<exists>g es'. eu_gelf_update_ehdr (Some 0) g demo_header_store = Some (1, es')
    \<and> eu_gelf_getehdr (Some 0) es' = Some (Some g, es') \<and> eh_entry g = 0x123456789"
proof -
  let ?elf = "(demo_list_elf 1)\<lparr>ee_ehdr := Some (zero_ehdr ELFCLASS64)\<rparr>"
  let ?g = "\<lparr>eh_ident = replicate EI_NIDENT 0, eh_type = 0, eh_machine = 0, eh_version = 0, eh_entry = 0x123456789,
    eh_phoff = 0, eh_shoff = 0, eh_flags = 0, eh_ehsize = 0, eh_phentsize = 0, eh_phnum = 0,
    eh_shentsize = 0, eh_shnum = 0, eh_shstrndx = 0\<rparr> :: GElf_Ehdr"
  have "eu_elfs demo_header_store 0 = Some ?elf" "ee_kind ?elf = ELF_K_ELF" "ee_ehdr ?elf \<noteq> None" "ee_class ?elf = ELFCLASS64"
    by (simp_all add: demo_header_store_def demo_list_elf_def)
  from eu_update_ehdr_then_get [OF this(1-3), of ?g] this(4) show ?thesis by (intro exI [of _ ?g]) auto
qed

theorem eu_newphdr_count_witness:
  "\<exists>es'. eu_newphdr ELFCLASS64 (Some 0) 70000 demo_header_store = Some (Some (zero_phdrs ELFCLASS64 70000), es')
    \<and> eu_elf_getphdrnum (Some 0) es' = Some (Some 70000, es')
    \<and> eu_gelf_getphdr (\<lambda>fd n off. None) True (Some 0) 69999 True es' = Some (Some zero_Elf_Phdr, es')"
proof -
  let ?elf = "(demo_list_elf 1)\<lparr>ee_ehdr := Some (zero_ehdr ELFCLASS64)\<rparr>"
  have d: "eu_elfs demo_header_store 0 = Some ?elf" "ee_kind ?elf = ELF_K_ELF" "ee_class ?elf = ELFCLASS64"
    "oom (eu_mach demo_header_store) = []" "ee_phdr ?elf = None" "ee_ehdr ?elf = Some (zero_ehdr ELFCLASS64)"
    by (simp_all add: demo_header_store_def demo_list_elf_def demo_list_store_def initial_store_def)
  have w: "scns_wf ?elf" using demo_list(1) [of 1] by (simp add: scns_wf_def)
  have s: "\<exists>scn sh. eu_scn0 ?elf = Some scn \<and> sc_shdr scn = Some sh"
    by (simp add: eu_scn0_def block_scn_def demo_list_elf_def)
  have "\<exists>es'. eu_newphdr ELFCLASS64 (Some 0) 70000 demo_header_store = Some (Some (zero_phdrs ELFCLASS64 (unat (70000 :: u64))), es')
    \<and> eu_elf_getphdrnum (Some 0) es' = Some (Some 70000, es')
    \<and> (\<forall>i. unat i < 2 ^ 31 \<and> unat i < unat (70000 :: u64)
        \<longrightarrow> eu_gelf_getphdr (\<lambda>fd n off. None) True (Some 0) i True es' = Some (Some zero_Elf_Phdr, es'))
    \<and> (\<forall>e'. e' \<noteq> 0 \<longrightarrow> eu_elfs es' e' = eu_elfs demo_header_store e')"
    using d(5) s by (intro eu_newphdr_count [OF d(1-3) _ d(6) w d(4)]) simp_all
  then obtain es' where "eu_newphdr ELFCLASS64 (Some 0) 70000 demo_header_store = Some (Some (zero_phdrs ELFCLASS64 (unat (70000 :: u64))), es')"
    "eu_elf_getphdrnum (Some 0) es' = Some (Some 70000, es')"
    "\<forall>i. unat i < 2 ^ 31 \<and> unat i < unat (70000 :: u64)
        \<longrightarrow> eu_gelf_getphdr (\<lambda>fd n off. None) True (Some 0) i True es' = Some (Some zero_Elf_Phdr, es')"
    by blast
  then show ?thesis by (intro exI [of _ es']) simp
qed

section \<open>The section header table\<close>

lemma shdr_agrees:
  assumes "std_class ec" "length seg = FSZ ec (shdr_layout ec)" "host = ELFDATA2LSB \<or> host = ELFDATA2MSB"
  shows "shdr_object ec (if same then host else if host = ELFDATA2LSB then ELFDATA2MSB else ELFDATA2LSB)
      (mem_struct ec (shdr_layout ec) seg) = shdr_object ec host (file_struct (\<not> same) ec (shdr_layout ec) seg)"
proof -
  have v: "valid_layout ec (shdr_layout ec)"
    by (rule comp_layout_valid [OF header_layouts(2)])
  define vs where "vs = READ_MEMBERS ec (shdr_layout ec) seg"
  have m: "mem_struct ec (shdr_layout ec) seg = vs"
    using mem_struct_no_padding [OF v] ehdr_sizes(3,4) [OF assms(1)] by (simp add: file_struct_def vs_def)
  have len: "length vs = 10" "length (shdr_layout ec) = 10"
    by (simp_all add: vs_def shdr_layout_def DEF_simps)
  have kinds: "snd (shdr_layout ec ! k) \<noteq> IDENT" if "k < 10" for k
  proof -
    have "\<forall>m \<in> set (shdr_layout ec). snd m \<noteq> IDENT" by (simp add: shdr_layout_def DEF_simps)
    then show ?thesis using that len(2) by (simp add: nth_mem)
  qed
  have sw: "swap_vals (shdr_layout ec) vs ! k = rev (vs ! k)" if "k < 10" for k
    using that len kinds by (simp add: swap_vals_def swap_bytes_def)
  have flip: "shdr_of (if host = ELFDATA2LSB then ELFDATA2MSB else ELFDATA2LSB) vs = shdr_of host (swap_vals (shdr_layout ec) vs)"
    using assms(3) by (auto simp: shdr_of_def sw native_val_def)
  then show ?thesis
    unfolding m by (cases same) (simp_all add: file_struct_def vs_def [symmetric] shdr_object_def flip)
qed

text \<open>
  The contents of the object that a descriptor is for, mapped (and then private, or mapped to be
  read only) or to be read.
\<close>

definition eu_contents :: "pread \<Rightarrow> Eu_Elf \<Rightarrow> store \<Rightarrow> byte list \<Rightarrow> bool" where
  "eu_contents pr elf st img \<longleftrightarrow>
     (case ee_map_address elf of
        Some (b, off) \<Rightarrow>
          (\<exists>bs. mem st b = Some bs \<and> off + unat (ee_start_offset elf) + length img \<le> length bs \<and> length bs < 2 ^ 64
             \<and> segment (off + unat (ee_start_offset elf)) (length img) bs = img)
          \<and> unat (ee_maximum_size elf) = length img
          \<and> (ee_flags elf AND EU_F_MALLOCED \<noteq> 0 \<or> ee_cmd elf = EU_C_READ_MMAP)
      | None \<Rightarrow>
          ee_fildes elf \<noteq> -1 \<and> (\<exists>front. reads_file pr (ee_fildes elf) (front @ img)
            \<and> length front = unat (ee_start_offset elf) \<and> length front + length img < 2 ^ 64))"

text \<open>All sections are in one block, and no header has been read.\<close>

definition eu_unread_table :: "nat \<Rightarrow> Eu_Elf \<Rightarrow> Ehdr \<Rightarrow> nat \<Rightarrow> eu_store \<Rightarrow> bool" where
  "eu_unread_table e elf eh n es \<longleftrightarrow>
     eu_elfs es e = Some elf \<and> ee_kind elf = ELF_K_ELF \<and> std_class (ee_class elf) \<and> ee_ehdr elf = Some eh
     \<and> oom (eu_mach es) = []
     \<and> (\<exists>b. ee_scns elf = [b] \<and> ee_scns_last elf = Some 0 \<and> unat (sl_cnt b) = n \<and> n \<le> length (sl_data b)
          \<and> (\<forall>i < n. sc_index (sl_data b ! i) = of_nat i \<and> sc_elf (sl_data b ! i) = Some e \<and> sc_shdr (sl_data b ! i) = None))"

abbreviation scn_ids :: "Eu_Scn list \<Rightarrow> (u64 \<times> nat option) list" where
  "scn_ids \<equiv> map (\<lambda>scn. (sc_index scn, sc_elf scn))"

lemma scn_ids_shndx [simp]: "scn_ids (data[i := (data ! i)\<lparr>sc_shndx_index := v\<rparr>]) = scn_ids data"
  by (cases "i < length data") (auto simp: nth_list_update intro!: nth_equalityI)

lemma note_shndx_same:
  assumes "cnt + length shs \<le> length data" "shnum \<le> length data"
  shows "\<exists>data'. eu_note_shndx cnt shnum shs data = Some data' \<and> scn_ids data' = scn_ids data"
  using assms
proof (induction shs arbitrary: cnt data)
  case (Cons sh shs)
  define d1 where "d1 = (if shdr_type sh = SHT_SYMTAB_SHNDX \<and> unat (shdr_link sh) < shnum
    then data[unat (shdr_link sh) := (data ! unat (shdr_link sh))\<lparr>sc_shndx_index := sint (of_nat cnt :: u32)\<rparr>] else data)"
  define d2 where "d2 = (if sc_shndx_index (d1 ! cnt) = 0 then d1[cnt := (d1 ! cnt)\<lparr>sc_shndx_index := -1\<rparr>] else d1)"
  have len: "length d1 = length data" "length d2 = length data" by (simp_all add: d1_def d2_def)
  have ids: "scn_ids d2 = scn_ids data" unfolding d2_def d1_def by simp
  have "eu_note_shndx cnt shnum (sh # shs) data = eu_note_shndx (cnt + 1) shnum shs d2"
    using Cons.prems len(1) by (auto simp: d2_def Let_def) (auto simp: d1_def)
  then show ?case using Cons.IH [of "cnt + 1" d2] Cons.prems len(2) ids by simp
qed simp

lemma eu_point_scns_one:
  assumes "eu_elfs es e = Some elf" "ee_scns elf = [b]" "length shs \<le> length (sl_data b)"
  shows "eu_point_scns e shs es = Some (eu_put_elf e (elf\<lparr>ee_scns := [b\<lparr>sl_data :=
    map2 (\<lambda>scn sh. scn\<lparr>sc_shdr := Some sh\<rparr>) (take (length shs) (sl_data b)) shs @ drop (length shs) (sl_data b)\<rparr>]\<rparr>) es)"
  using assms by (simp add: eu_point_scns_def set_first_block_def Let_def)

lemma length_shdr_table [simp]: "length (shdr_table ec order n bs) = n"
  by (simp add: shdr_table_def table_entries_def)

lemma shdr_table_nth:
  assumes "std_class ec" "j < n" "host_order st = ELFDATA2LSB \<or> host_order st = ELFDATA2MSB"
    and "off + n * shdr_msize ec \<le> length img"
  shows "shdr_table ec (data_order eh st) n (segment off (n * shdr_msize ec) img) ! j
    = shdr_object ec (host_order st) (file_struct (\<not> data_matches eh st) ec (shdr_layout ec)
        (segment (off + j * FSZ ec (shdr_layout ec)) (FSZ ec (shdr_layout ec)) img))"
proof -
  have sz: "shdr_msize ec = FSZ ec (shdr_layout ec)" using ehdr_sizes [OF assms(1)] by (simp add: shdr_msize_def)
  have "Suc j * shdr_msize ec \<le> n * shdr_msize ec" using assms(2) by (intro mult_right_mono) auto
  then have j: "j * shdr_msize ec + shdr_msize ec \<le> n * shdr_msize ec" by simp
  show ?thesis
    using assms(2) j assms(4) sz shdr_agrees [OF assms(1) _ assms(3),
        of "segment (off + j * FSZ ec (shdr_layout ec)) (FSZ ec (shdr_layout ec)) img" "data_matches eh st"]
    by (simp add: shdr_table_def table_entries_def shdr_msize_def [symmetric] segment_segment data_order_def)
qed

lemma eu_contents_map:
  assumes "eu_contents pr elf st img" "ee_map_address elf \<noteq> None" "unat off + n \<le> length img"
  shows "read_bytes (in_map elf off) n st = Some (segment (unat off) n img)"
proof -
  obtain b o' bs where m: "ee_map_address elf = Some (b, o')" "mem st b = Some bs"
      "o' + unat (ee_start_offset elf) + length img \<le> length bs" "length bs < 2 ^ 64"
      "segment (o' + unat (ee_start_offset elf)) (length img) bs = img"
    using assms(1,2) by (auto simp: eu_contents_def)
  have "segment (unat off) n img = segment (o' + unat (ee_start_offset elf) + unat off) n bs"
    by (subst m(5) [symmetric]) (simp add: segment_segment assms(3))
  then show ?thesis
    using m(1-4) assms(3) by (simp add: in_map_def ptr_add_def read_bytes_def segment_def)
qed

lemma eu_contents_file:
  assumes "eu_contents pr elf st img" "ee_map_address elf = None" "unat off + n \<le> length img"
  shows "pread_retry pr (ee_fildes elf) n (unat (ee_start_offset elf + off)) = (int n, segment (unat off) n img)"
proof -
  obtain front where f: "reads_file pr (ee_fildes elf) (front @ img)" "length front = unat (ee_start_offset elf)"
      "length front + length img < 2 ^ 64"
    using assms(1,2) by (auto simp: eu_contents_def)
  have "unat (ee_start_offset elf + off) = length front + unat off"
    using f(2,3) assms(3) by (simp add: unat_add_small)
  then show ?thesis
    using assms(3) by (simp add: pread_retry_def pread_retry_loop_file [OF f(1), of "[]"] segment_def)
qed

lemma eu_load_shdr_table:
  assumes u: "eu_unread_table e elf eh n es" and c: "eu_contents pr elf (eu_mach es) img"
    and i: "i < n" and size: "unat (ehdr_shoff eh) + n * shdr_msize (ee_class elf) \<le> length img"
  defines "tbl \<equiv> shdr_table (ee_class elf) (data_order eh (eu_mach es)) n
    (segment (unat (ehdr_shoff eh)) (n * shdr_msize (ee_class elf)) img)"
  shows "\<exists>b elf' es'. eu_load_shdr pr unaligned (ee_class elf) (e, 0, i) es = Some (Some (tbl ! i), es')
    \<and> eu_elfs es' e = Some elf' \<and> ee_class elf' = ee_class elf \<and> ee_ehdr elf' = Some eh
    \<and> ee_scns elf' = [b] \<and> n \<le> length (sl_data b)
    \<and> (\<forall>j < n. sc_elf (sl_data b ! j) = Some e \<and> sc_shdr (sl_data b ! j) = Some (tbl ! j))"
proof -
  obtain b where b: "ee_scns elf = [b]" "ee_scns_last elf = Some 0" "unat (sl_cnt b) = n" "n \<le> length (sl_data b)"
      "\<And>i. i < n \<Longrightarrow> sc_index (sl_data b ! i) = of_nat i \<and> sc_elf (sl_data b ! i) = Some e \<and> sc_shdr (sl_data b ! i) = None"
    using u by (auto simp: eu_unread_table_def)
  have e: "eu_elfs es e = Some elf" "ee_kind elf = ELF_K_ELF" "std_class (ee_class elf)" "ee_ehdr elf = Some eh"
      "oom (eu_mach es) = []"
    using u by (auto simp: eu_unread_table_def)
  have msz: "shdr_msize (ee_class elf) \<le> 64" "0 < shdr_msize (ee_class elf)"
    using ehdr_sizes(4) [OF e(3)] by (simp_all add: shdr_msize_def)
  have n32: "n < 2 ^ 32" using unat_u32_less [of "sl_cnt b"] b(3) by simp
  have num: "eu_elf_getshdrnum (Some e) es = Some (Some (of_nat n), es)"
  proof -
    have "sl_cnt b \<noteq> 0" using b(3) i by auto
    moreover from this have "unat (sl_cnt b - 1) = n - 1" using b(3) by (simp add: unat_minus_one)
    moreover have "(1 + of_nat (n - 1) :: u64) = of_nat n" using i by (metis Suc_pred' not_gr_zero not_less_zero of_nat_Suc)
    ultimately show ?thesis
      using e b i by (simp add: eu_elf_getshdrnum_def block_scn_def)
  qed
  let ?size = "of_nat n * of_nat (shdr_msize (ee_class elf)) :: u64"
  have nm: "n * shdr_msize (ee_class elf) \<le> n * 64" using msz by simp
  have nm64: "n * shdr_msize (ee_class elf) < 2 ^ 64" by (rule le_less_trans [OF nm]) (use n32 in simp)
  then have size': "unat ?size = n * shdr_msize (ee_class elf)"
    by (simp only: of_nat_mult [symmetric] unat_of_nat_u64)
  have fits: "((-1) div of_nat (shdr_msize (ee_class elf)) < (of_nat n :: u64)) = False"
    using ehdr_sizes(4) [OF e(3)] n32
    by (auto simp: shdr_msize_def word_less_nat_alt unat_div unat_of_nat_u64 unsigned_minus_1_eq_mask mask_eq_exp_minus_1)
  have len: "length tbl = n" by (simp add: tbl_def)
  define elf1 where "elf1 = elf\<lparr>ee_shdr := True, ee_shdr_malloced := True\<rparr>"
  define pointed where "pointed = (\<lambda>data :: Eu_Scn list. map2 (\<lambda>scn sh. scn\<lparr>sc_shdr := Some sh\<rparr>) (take n data) tbl @ drop n data)"
  have point: "eu_point_scns e tbl (eu_put_elf e (elf1\<lparr>ee_scns := [b\<lparr>sl_data := data\<rparr>]\<rparr>) es)
      = Some (eu_put_elf e (elf1\<lparr>ee_scns := [b\<lparr>sl_data := pointed data\<rparr>]\<rparr>) es)" if "n \<le> length data" for data
    using that eu_point_scns_one [where es = "eu_put_elf e (elf1\<lparr>ee_scns := [b\<lparr>sl_data := data\<rparr>]\<rparr>) es" and e = e and shs = tbl]
    by (simp add: len pointed_def)
  have nth: "pointed data ! j = (data ! j)\<lparr>sc_shdr := Some (tbl ! j)\<rparr>" "n \<le> length (pointed data)"
    if "n \<le> length data" "j < n" for data j
    using that len by (simp_all add: pointed_def nth_append)
  have point0: "eu_point_scns e tbl (eu_put_elf e elf1 es)
      = Some (eu_put_elf e (elf1\<lparr>ee_scns := [b\<lparr>sl_data := pointed (sl_data b)\<rparr>]\<rparr>) es)"
    using b(4) eu_point_scns_one [where es = "eu_put_elf e elf1 es" and e = e and elf = elf1 and b = b and shs = tbl]
    by (simp add: len pointed_def elf1_def b(1))
  have "\<exists>data. n \<le> length data \<and> scn_ids data = scn_ids (sl_data b)
      \<and> eu_load_shdr pr unaligned (ee_class elf) (e, 0, i) es
        = Some (Some (tbl ! i), eu_put_elf e (elf1\<lparr>ee_scns := [b\<lparr>sl_data := pointed data\<rparr>]\<rparr>) es)"
  proof -
    have scn: "eu_scn (e, 0, i) es = Some (sl_data b ! i)"
      using e(1) b(1,4) i by (simp add: eu_scn_def block_scn_def)
    have scn': "eu_scn (e, 0, i) (eu_put_elf e (elf1\<lparr>ee_scns := [b\<lparr>sl_data := pointed data\<rparr>]\<rparr>) es) = Some ((data ! i)\<lparr>sc_shdr := Some (tbl ! i)\<rparr>)"
      if "n \<le> length data" for data
      using nth [OF that i] i by (simp add: eu_scn_def block_scn_def)
    have inside: "(ee_maximum_size elf \<le> ehdr_shoff eh \<or> ee_maximum_size elf - ehdr_shoff eh < ?size) = False"
      if "unat (ee_maximum_size elf) = length img"
    proof -
      have "0 < n * shdr_msize (ee_class elf)" using msz(2) i by simp
      then have "unat (ehdr_shoff eh) < unat (ee_maximum_size elf)" using size that by linarith
      moreover from this have "unat (ee_maximum_size elf - ehdr_shoff eh) = length img - unat (ehdr_shoff eh)"
        using that by (subst unat_sub) (simp_all add: word_le_nat_alt)
      ultimately show ?thesis using size size' by (simp add: word_le_nat_alt word_less_nat_alt not_le not_less)
    qed
    have un: "unat (of_nat n :: u64) = n" using n32 by (simp add: unat_of_nat_u64)
    note code = un eu_load_shdr_def scn b(5) [OF i] e(1,4,5) num fits Let_def
    show ?thesis
    proof (cases "ee_map_address elf = None")
      case True
      have "ee_fildes elf \<noteq> -1" using c True by (auto simp: eu_contents_def)
      moreover have "eu_load_shdr pr unaligned (ee_class elf) (e, 0, i) es
          = Some (Some (tbl ! i), eu_put_elf e (elf1\<lparr>ee_scns := [b\<lparr>sl_data := pointed (sl_data b)\<rparr>]\<rparr>) es)"
        using True calculation eu_contents_file [OF c True size] scn' [OF b(4)]
        by (simp add: code size' tbl_def [symmetric] elf1_def [symmetric] point0)
      ultimately show ?thesis using b(4) by blast
    next
      case False
      then have m: "unat (ee_maximum_size elf) = length img" "ee_flags elf AND EU_F_MALLOCED \<noteq> 0 \<or> ee_cmd elf = EU_C_READ_MMAP"
        using c by (auto simp: eu_contents_def)
      note rd = eu_contents_map [OF c False size]
      show ?thesis
      proof (cases "data_matches eh (eu_mach es)")
        case True
        have "eu_load_shdr pr unaligned (ee_class elf) (e, 0, i) es
            = Some (Some (tbl ! i), eu_put_elf e (elf1\<lparr>ee_scns := [b\<lparr>sl_data := pointed (sl_data b)\<rparr>]\<rparr>) es)"
          using m(2) rd scn' [OF b(4)] True \<open>ee_map_address elf \<noteq> None\<close>
          by (auto simp: code size' inside [OF m(1)] tbl_def [symmetric] elf1_def [symmetric] point0)
        then show ?thesis using b(4) by blast
      next
        case swapped: False
        obtain data where data: "eu_note_shndx 0 n tbl (sl_data b) = Some data" "scn_ids data = scn_ids (sl_data b)"
          using note_shndx_same [of 0 tbl "sl_data b" n] b(4) len by auto
        have b1: "ee_scns elf1 = [b]" using b(1) by (simp add: elf1_def)
        have dl: "n \<le> length data" using arg_cong [OF data(2), of length] b(4) by simp
        have "eu_load_shdr pr unaligned (ee_class elf) (e, 0, i) es
            = Some (Some (tbl ! i), eu_put_elf e (elf1\<lparr>ee_scns := [b\<lparr>sl_data := pointed data\<rparr>]\<rparr>) es)"
          using rd scn' [OF dl] False
          by (simp add: code size' inside [OF m(1)] swapped tbl_def [symmetric] elf1_def [symmetric] b1 data(1)
              set_first_block_def point [OF dl])
        then show ?thesis using dl data(2) by blast
      qed
    qed
  qed
  then obtain data where d: "n \<le> length data" "scn_ids data = scn_ids (sl_data b)"
      "eu_load_shdr pr unaligned (ee_class elf) (e, 0, i) es
        = Some (Some (tbl ! i), eu_put_elf e (elf1\<lparr>ee_scns := [b\<lparr>sl_data := pointed data\<rparr>]\<rparr>) es)"
    by blast
  have "sc_elf (data ! j) = Some e" if "j < n" for j
  proof -
    have "scn_ids data ! j = scn_ids (sl_data b) ! j" using d(2) by simp
    then show ?thesis using that d(1) b(4,5) by simp
  qed
  then show ?thesis
    using d(3) nth [OF d(1)] i
    by (intro exI [of _ "b\<lparr>sl_data := pointed data\<rparr>"] exI [of _ "elf1\<lparr>ee_scns := [b\<lparr>sl_data := pointed data\<rparr>]\<rparr>"] exI)
      (auto simp: elf1_def e(4))
qed

text \<open>
  C35. The header of a section that \<open>elf32_getshdr\<close> or \<open>elf64_getshdr\<close> returns is the one that the
  bytes of the object at its place in the table stand for, whether the object is mapped or read
  piece by piece, in either byte order; afterwards every section has its header.  It is the header
  that the library of the toolchain decodes from the same bytes.
\<close>

theorem eu_getshdr_reads_table:
  assumes "eu_unread_table e elf eh n es" "eu_contents pr elf (eu_mach es) img" "i < n"
    and "unat (ehdr_shoff eh) + n * shdr_msize (ee_class elf) \<le> length img"
    and "host_order (eu_mach es) = ELFDATA2LSB \<or> host_order (eu_mach es) = ELFDATA2MSB"
    and "swap_needed t (eu_mach es) \<longleftrightarrow> \<not> data_matches eh (eu_mach es)"
  defines "header \<equiv> \<lambda>j. file_shdr (ee_class elf) t
    (unat (ehdr_shoff eh) + j * FSZ (ee_class elf) (shdr_layout (ee_class elf))) img (eu_mach es)"
  shows "\<exists>es'. eu_getshdr pr unaligned (ee_class elf) (Some (e, 0, i)) es = Some (Some (header i), es')
    \<and> (\<forall>j < n. eu_getshdr pr unaligned (ee_class elf) (Some (e, 0, j)) es' = Some (Some (header j), es'))"
proof -
  let ?tbl = "shdr_table (ee_class elf) (data_order eh (eu_mach es)) n
    (segment (unat (ehdr_shoff eh)) (n * shdr_msize (ee_class elf)) img)"
  obtain b elf' es' where l: "eu_load_shdr pr unaligned (ee_class elf) (e, 0, i) es = Some (Some (?tbl ! i), es')"
      "eu_elfs es' e = Some elf'" "ee_class elf' = ee_class elf" "ee_ehdr elf' = Some eh" "ee_scns elf' = [b]" "n \<le> length (sl_data b)"
      "\<And>j. j < n \<Longrightarrow> sc_elf (sl_data b ! j) = Some e \<and> sc_shdr (sl_data b ! j) = Some (?tbl ! j)"
    using eu_load_shdr_table [OF assms(1-4), of unaligned] by blast
  have std: "std_class (ee_class elf)" using assms(1) by (simp add: eu_unread_table_def)
  have tbl: "?tbl ! j = header j" if "j < n" for j
    using shdr_table_nth [OF std that assms(5,4)] by (simp add: header_def file_shdr_def assms(6))
  have "eu_getshdr pr unaligned (ee_class elf) (Some (e, 0, i)) es = eu_load_shdr pr unaligned (ee_class elf) (e, 0, i) es"
    using assms(1,3) by (auto simp: eu_getshdr_def eu_unread_table_def eu_scn_def block_scn_def)
  moreover have "eu_getshdr pr unaligned (ee_class elf) (Some (e, 0, j)) es' = Some (Some (header j), es')" if "j < n" for j
    using l(2-6) l(7) [OF that] that tbl [OF that] by (simp add: eu_getshdr_def eu_scn_def block_scn_def)
  ultimately show ?thesis using l(1) tbl [OF assms(3)] by simp
qed

text \<open>An object of the other byte order with two sections, read two bytes at a time.\<close>

definition demo_table_image :: "byte list" where
  "demo_table_image = replicate 64 0 @ replicate 64 0 @ [0, 0, 0, 7] @ replicate 60 1"

definition demo_table_ehdr :: Ehdr where
  "demo_table_ehdr = map_ehdr id (\<lambda>h. h\<lparr>eh_ident := (eh_ident h)[EI_DATA := 2], eh_shoff := 64\<rparr>) (zero_ehdr ELFCLASS64)"

definition demo_table_elf :: Eu_Elf where
  "demo_table_elf = (demo_list_elf 0)\<lparr>ee_ehdr := Some demo_table_ehdr, ee_fildes := 5,
     ee_scns := [\<lparr>sl_cnt = 2, sl_max = 2, sl_data = [zero_scn\<lparr>sc_elf := Some 0\<rparr>, zero_scn\<lparr>sc_elf := Some 0, sc_index := 1\<rparr>]\<rparr>]\<rparr>"

definition demo_table_store :: eu_store where
  "demo_table_store = (demo_list_store 0 [])\<lparr>eu_elfs := [0 \<mapsto> demo_table_elf]\<rparr>"

definition demo_table_reader :: Elf where
  "demo_table_reader = (new_elf EV_CURRENT)\<lparr>e_byteorder := ELFDATA2MSB\<rparr>"

theorem eu_getshdr_reads_table_witness:
  "\<exists>sh es'. eu_getshdr (two_at_a_time demo_table_image) True ELFCLASS64 (Some (0, 0, 1)) demo_table_store
    = Some (Some (Shdr64 sh), es') \<and> sh_name sh = 7"
proof -
  have "eu_unread_table 0 demo_table_elf demo_table_ehdr 2 demo_table_store"
    by (auto simp: eu_unread_table_def demo_table_store_def demo_table_elf_def demo_list_elf_def demo_list_store_def
        initial_store_def zero_scn_def std_class_def less_2_cases_iff)
  moreover have "eu_contents (two_at_a_time demo_table_image) demo_table_elf (eu_mach demo_table_store) demo_table_image"
  proof -
    have "reads_file (two_at_a_time img) fd img" for fd img
      unfolding reads_file_def two_at_a_time_def by (auto intro!: exI [of _ "min _ 2"])
    then have "reads_file (two_at_a_time demo_table_image) (ee_fildes demo_table_elf) ([] @ demo_table_image)" by simp
    then show ?thesis
      unfolding eu_contents_def
      by (auto simp: demo_table_elf_def demo_list_elf_def demo_table_image_def intro!: exI [of _ "[]"])
  qed
  moreover have "unat (ehdr_shoff demo_table_ehdr) + 2 * shdr_msize (ee_class demo_table_elf) \<le> length demo_table_image"
  proof -
    have "shdr_msize ELFCLASS64 = 64" by code_simp
    then show ?thesis
      by (simp add: demo_table_ehdr_def demo_table_elf_def demo_list_elf_def zero_ehdr_def map_ehdr_def demo_table_image_def)
  qed
  moreover have "host_order (eu_mach demo_table_store) = ELFDATA2LSB"
    by (simp add: demo_table_store_def demo_list_store_def initial_store_def initial_globals_def)
  moreover have "swap_needed demo_table_reader (eu_mach demo_table_store) \<longleftrightarrow> \<not> data_matches demo_table_ehdr (eu_mach demo_table_store)"
    by (simp add: swap_needed_def data_matches_def demo_table_reader_def demo_table_ehdr_def new_elf_def demo_table_store_def
        demo_list_store_def initial_store_def initial_globals_def map_ehdr_def zero_ehdr_def)
  moreover have "(1 :: nat) < 2" by simp
  ultimately have "\<exists>es'. eu_getshdr (two_at_a_time demo_table_image) True (ee_class demo_table_elf) (Some (0, 0, 1)) demo_table_store
      = Some (Some (file_shdr (ee_class demo_table_elf) demo_table_reader (unat (ehdr_shoff demo_table_ehdr)
          + 1 * FSZ (ee_class demo_table_elf) (shdr_layout (ee_class demo_table_elf))) demo_table_image (eu_mach demo_table_store)), es')"
    using eu_getshdr_reads_table [of 0 demo_table_elf demo_table_ehdr 2 demo_table_store "two_at_a_time demo_table_image"
        demo_table_image 1 demo_table_reader True] by blast
  moreover have "ee_class demo_table_elf = ELFCLASS64" by (simp add: demo_table_elf_def demo_list_elf_def)
  moreover have "file_shdr ELFCLASS64 demo_table_reader (unat (ehdr_shoff demo_table_ehdr) + 1 * FSZ ELFCLASS64 (shdr_layout ELFCLASS64))
      demo_table_image (eu_mach demo_table_store) = Shdr64 \<lparr>sh_name = 7, sh_type = 0x01010101, sh_flags = 0x0101010101010101,
        sh_addr = 0x0101010101010101, sh_offset = 0x0101010101010101, sh_size = 0x0101010101010101, sh_link = 0x01010101,
        sh_info = 0x01010101, sh_addralign = 0x0101010101010101, sh_entsize = 0x0101010101010101\<rparr>"
    by code_simp
  ultimately show ?thesis by auto
qed

end
