(* ===== verification/Eu_Data_Facts.thy ===== *)
theory Eu_Data_Facts
  imports Eu_Data Eu_Chains Eu_Header_Facts
begin

text \<open>
  What reading the data of a section achieves: the bytes of the file, mapped or read, aligned or
  copied, become data in memory that stands for them, once; and a file whose data is never read to
  the end.
\<close>

section \<open>Memory that is added\<close>

text \<open>The blocks there are keep their contents, and there is memory for more.\<close>

definition keeps :: "store \<Rightarrow> store \<Rightarrow> bool" where
  "keeps st st' \<longleftrightarrow> mem st \<subseteq>\<^sub>m mem st' \<and> fresh st \<le> fresh st' \<and> fresh_mem st' \<and> oom st' = [] \<and> globals st' = globals st"

lemma keeps_refl: "fresh_mem st \<Longrightarrow> oom st = [] \<Longrightarrow> keeps st st"
  by (simp add: keeps_def)

lemma keeps_trans: "keeps st st1 \<Longrightarrow> keeps st1 st2 \<Longrightarrow> keeps st st2"
  by (auto simp: keeps_def intro: map_le_trans)

lemma keepsD: "keeps st st' \<Longrightarrow> fresh_mem st'" "keeps st st' \<Longrightarrow> oom st' = []"
  "keeps st st' \<Longrightarrow> host_order st' = host_order st" "keeps st st' \<Longrightarrow> fresh st \<le> fresh st'"
  by (simp_all add: keeps_def)

lemma keeps_mem: "keeps st st' \<Longrightarrow> mem st b = Some X \<Longrightarrow> mem st' b = Some X"
  by (auto simp: keeps_def map_le_def dom_def)

lemma keeps_read: "keeps st st' \<Longrightarrow> read_bytes p n st = Some bs \<Longrightarrow> read_bytes p n st' = Some bs"
  by (cases p) (auto simp: keeps_mem split: option.splits)

lemma malloc_fresh:
  assumes "oom st = []"
  shows "malloc n st = (Some (fresh st, 0), st\<lparr>mem := (mem st)(fresh st \<mapsto> replicate n 0), fresh := Suc (fresh st)\<rparr>)"
  using assms by (simp add: malloc_def alloc_ok_def)

text \<open>A block that has been allocated and then written.\<close>

lemma keeps_new:
  assumes "fresh_mem st" "oom st = []"
  shows "keeps st (st\<lparr>mem := (mem st)(fresh st \<mapsto> X), fresh := Suc (fresh st)\<rparr>)"
  using assms by (auto simp: keeps_def fresh_mem_def map_le_def)

lemma fresh_unused: "fresh_mem st \<Longrightarrow> mem st b = Some X \<Longrightarrow> b < fresh st"
  by (metis fresh_mem_def leI option.distinct(1))

lemma read_bytesE:
  assumes "read_bytes p n st = Some bs"
  obtains b off X where "p = Some (b, off)" "mem st b = Some X" "off + n \<le> length X" "bs = segment off n X"
  using assms by (cases p) (auto simp: segment_def split: option.splits if_splits)

lemma aligned_source_reads:
  assumes "read_bytes p n st = Some bs" "fresh_mem st" "oom st = []"
  shows "\<exists>q st'. eu_aligned_source p align n st = Some (True, q, st') \<and> keeps st st' \<and> read_bytes q n st' = Some bs
    \<and> (q \<noteq> p \<longrightarrow> (\<exists>b. q = Some (b, 0) \<and> mem st b = None))"
proof (cases "addr p st AND (of_nat align - 1) = 0")
  case True
  then show ?thesis using assms keeps_refl by (simp add: eu_aligned_source_def)
next
  case False
  obtain b off X where p: "p = Some (b, off)" "mem st b = Some X" "off + n \<le> length X" "bs = segment off n X"
    using read_bytesE [OF assms(1)] .
  define st1 where "st1 = st\<lparr>mem := (mem st)(fresh st \<mapsto> replicate n 0), fresh := Suc (fresh st)\<rparr>"
  define st2 where "st2 = st\<lparr>mem := (mem st)(fresh st \<mapsto> bs), fresh := Suc (fresh st)\<rparr>"
  have ne: "b \<noteq> fresh st" using fresh_unused [OF assms(2) p(2)] by simp
  have "length bs = n" using p(3,4) by simp
  then have "put_at 0 (segment off n X) (replicate n 0) = bs" using p(4) by (simp add: put_at_def)
  then have copy: "memcpy (Some (fresh st, 0)) p n st1 = Some st2"
    using memcpy_correct [of st1 b X off n "fresh st" "replicate n 0" 0] p ne by (simp add: st1_def st2_def)
  have "eu_aligned_source p align n st = Some (True, Some (fresh st, 0), st2)"
    using False copy by (simp add: eu_aligned_source_def malloc_fresh [OF assms(3)] st1_def)
  moreover have "keeps st st2" unfolding st2_def by (rule keeps_new [OF assms(2,3)])
  moreover have "read_bytes (Some (fresh st, 0)) n st2 = Some bs" using \<open>length bs = n\<close> by (simp add: st2_def)
  moreover have "mem st (fresh st) = None" using assms(2) by (simp add: fresh_mem_def)
  ultimately show ?thesis by blast
qed

lemma keeps_free:
  assumes "keeps st st'" "mem st b = None" "mem st' b = Some X"
  shows "\<exists>st''. free_ptr (Some (b, 0)) st' = Some st'' \<and> keeps st st'' \<and> (\<forall>b'. b' \<noteq> b \<longrightarrow> mem st'' b' = mem st' b')"
  using assms
  by (auto simp: free_ptr_def keeps_def map_le_def fresh_mem_def dom_def intro!: exI [of _ "st'\<lparr>mem := (mem st')(b := None)\<rparr>"])

section \<open>Reading the raw data\<close>

text \<open>A section that has not been looked at, of an object with the contents \<open>img\<close>.\<close>

definition eu_unread_data :: "pread \<Rightarrow> eu_scn_ref \<Rightarrow> Eu_Scn \<Rightarrow> Eu_Elf \<Rightarrow> Ehdr \<Rightarrow> Shdr \<Rightarrow> byte list \<Rightarrow> eu_store \<Rightarrow> bool" where
  "eu_unread_data pr s scn elf eh shdr img es \<longleftrightarrow>
     eu_scn s es = Some scn \<and> sc_elf scn = Some (fst s) \<and> eu_elfs es (fst s) = Some elf
     \<and> ee_kind elf = ELF_K_ELF \<and> std_class (ee_class elf) \<and> ee_ehdr elf = Some eh
     \<and> sc_shdr scn = Some shdr \<and> shdr_class shdr = ee_class elf
     \<and> \<not> sc_data_read scn \<and> sc_data_rear scn = None \<and> sc_data_list scn = []
     \<and> eu_contents pr elf (eu_mach es) img \<and> unat (ee_maximum_size elf) = length img
     \<and> fresh_mem (eu_mach es) \<and> oom (eu_mach es) = []"

lemma raw_buffer_reads:
  assumes "eu_contents pr elf (eu_mach es) img" "unat (ee_maximum_size elf) = length img"
    and "fresh_mem (eu_mach es)" "oom (eu_mach es) = []"
    and "unat (sh_offset sh) + unat (sh_size sh) \<le> length img"
  shows "\<exists>b off st'. eu_raw_buffer pr elf sh es = Some (Inr (Some (b, off)), es\<lparr>eu_mach := st'\<rparr>) \<and> keeps (eu_mach es) st'
    \<and> read_bytes (Some (b, off)) (unat (sh_size sh)) st' = Some (segment (unat (sh_offset sh)) (unat (sh_size sh)) img)"
proof -
  let ?n = "unat (sh_size sh)" and ?bs = "segment (unat (sh_offset sh)) (unat (sh_size sh)) img"
  have "sh_offset sh \<le> ee_maximum_size elf" using assms(2,5) by (simp add: word_le_nat_alt)
  then have good: "(sh_offset sh > ee_maximum_size elf \<or> ee_maximum_size elf - sh_offset sh < sh_size sh) = False"
    using assms(2,5) by (auto simp: word_less_nat_alt word_le_nat_alt unat_sub not_less)
  show ?thesis
  proof (cases "ee_map_address elf")
    case (Some m)
    then have "in_map elf (sh_offset sh) \<noteq> None" by (cases m) (simp add: in_map_def ptr_add_def)
    then obtain b off where p: "in_map elf (sh_offset sh) = Some (b, off)" by auto
    have "eu_raw_buffer pr elf sh es = Some (Inr (Some (b, off)), es\<lparr>eu_mach := eu_mach es\<rparr>)"
      using Some p by (simp add: eu_raw_buffer_def Let_def good)
    then show ?thesis
      using eu_contents_map [OF assms(1) _ assms(5)] Some keeps_refl [OF assms(3,4)] p by (metis option.distinct(1))
  next
    case None
    define st1 where "st1 = (eu_mach es)\<lparr>mem := (mem (eu_mach es))(fresh (eu_mach es) \<mapsto> ?bs), fresh := Suc (fresh (eu_mach es))\<rparr>"
    have len: "length ?bs = ?n" using assms(5) by simp
    have fd: "ee_fildes elf \<noteq> -1" using assms(1) None by (auto simp: eu_contents_def)
    have "put_at 0 ?bs (replicate ?n 0) = ?bs" using len by (simp add: put_at_def)
    then have "eu_raw_buffer pr elf sh es = Some (Inr (Some (fresh (eu_mach es), 0)), es\<lparr>eu_mach := st1\<rparr>)"
      using None fd len eu_contents_file [OF assms(1) None assms(5)]
      by (simp add: eu_raw_buffer_def Let_def good malloc_fresh [OF assms(4)] st1_def)
    moreover have "keeps (eu_mach es) st1" unfolding st1_def by (rule keeps_new [OF assms(3,4)])
    moreover have "read_bytes (Some (fresh (eu_mach es), 0)) ?n st1 = Some ?bs" using len by (simp add: st1_def)
    ultimately show ?thesis by blast
  qed
qed

section \<open>Converting\<close>

text \<open>
  Data in memory that stands for the bytes of a file: the same bytes in the byte order of the
  host, else element by element what the elements of the file mean.
\<close>

definition stands_in_memory :: "int \<Rightarrow> int \<Rightarrow> bool \<Rightarrow> byte list \<Rightarrow> byte list \<Rightarrow> bool" where
  "stands_in_memory ec t same bs D \<longleftrightarrow>
     length D = length bs \<and> (same \<or> t = EU_T_BYTE \<longrightarrow> D = bs)
     \<and> (\<forall>def. eu_layout t ec = Some def \<longrightarrow> (\<forall>i < length bs div struct_size ec def.
          mem_struct ec def (elem 0 (struct_size ec def) i D)
            = file_struct (\<not> same) ec def (elem 0 (struct_size ec def) i bs)))"

lemma eu_layout_BYTE [simp]: "eu_layout EU_T_BYTE ec = None"
  by (simp add: eu_layout_def eu_struct_layout_def)

lemma file_form:
  assumes "eu_layout t ec = Some def" "std_class ec"
  shows "file_struct sw ec def X = (if sw then swap_vals def (mem_struct ec def X) else mem_struct ec def X)"
  by (cases sw) (simp_all only: mem_struct_no_padding [OF eu_layout_ok(1,2) [OF assms]] file_struct_def Let_def if_True if_False)

lemma stands_same:
  assumes "std_class ec" "same \<or> t = EU_T_BYTE"
  shows "stands_in_memory ec t same bs bs"
  using assms by (auto simp: stands_in_memory_def file_form [OF _ assms(1)])

lemma convert_data_stands:
  fixes elf scn st
  defines "t \<equiv> d_type (sc_rawdata scn)" and "n \<equiv> unat (d_size (sc_rawdata scn))" and "ec \<equiv> ee_class elf"
  assumes "ee_ehdr elf = Some eh" "std_class ec" "read_bytes (sc_rawdata_base scn) n st = Some bs"
    and "data_matches eh st \<or> t = EU_T_BYTE \<or> (\<exists>def. eu_layout t ec = Some def \<and> n mod struct_size ec def = 0)"
    and "fresh_mem st" "oom st = []"
  shows "\<exists>p D st'. eu_convert_data fuel elf scn st = Returned (True, p, st') \<and> keeps st st'
    \<and> read_bytes p n st' = Some D \<and> stands_in_memory ec t (data_matches eh st) bs D"
proof (cases "data_matches eh st \<or> t = EU_T_BYTE")
  case True
  obtain q st' where q: "eu_aligned_source (sc_rawdata_base scn) (eu_type_align ec t) n st = Some (True, q, st')"
      "keeps st st'" "read_bytes q n st' = Some bs"
    using aligned_source_reads [OF assms(6,8,9)] by blast
  have "eu_convert_data fuel elf scn st = Returned (True, q, st')"
    using True q(1) assms(4) by (simp add: eu_convert_data_def of_option_def t_def n_def ec_def)
  then show ?thesis using q(2,3) stands_same [OF assms(5) True] by blast
next
  case False
  from False assms(7) have "\<exists>def. eu_layout t ec = Some def \<and> n mod struct_size ec def = 0" by simp
  then obtain def where def: "eu_layout t ec = Some def" "n mod struct_size ec def = 0" by (elim exE conjE)
  define sz where "sz = struct_size ec def"
  define m where "m = n div sz"
  have n: "n = m * sz" using def(2) div_mult_mod_eq [of n sz] by (simp add: m_def sz_def)
  define b0 where "b0 = fresh st"
  define st1 where "st1 = st\<lparr>mem := (mem st)(b0 \<mapsto> replicate n 0), fresh := Suc (fresh st)\<rparr>"
  have k1: "keeps st st1" unfolding st1_def b0_def by (rule keeps_new [OF assms(8,9)])
  have none: "mem st b0 = None" using assms(8) by (simp add: fresh_mem_def b0_def)
  obtain q st2 where q: "eu_aligned_source (sc_rawdata_base scn) (eu_type_align ec t) n st1 = Some (True, q, st2)"
      "keeps st1 st2" "read_bytes q n st2 = Some bs"
      "q \<noteq> sc_rawdata_base scn \<longrightarrow> (\<exists>b. q = Some (b, 0) \<and> mem st1 b = None)"
    using aligned_source_reads [OF keeps_read [OF k1 assms(6)] keepsD(1,2) [OF k1]] by blast
  obtain b off S where S: "q = Some (b, off)" "mem st2 b = Some S" "off + n \<le> length S" "bs = segment off n S"
    using read_bytesE [OF q(3)] .
  obtain b' off' X where raw: "sc_rawdata_base scn = Some (b', off')" "mem st b' = Some X"
    using read_bytesE [OF assms(6)] by metis
  have ne: "b \<noteq> b0"
  proof (cases "q = sc_rawdata_base scn")
    case True
    then show ?thesis using raw S(1) none by auto
  next
    case False
    then show ?thesis using q(4) S(1) by (auto simp: st1_def)
  qed
  have D0: "mem st2 b0 = Some (replicate n 0)" using keeps_mem [OF q(2), of b0] by (simp add: st1_def)
  obtain D where D: "\<And>fuel encode. elf_xfct fuel ec t (Some (b0, 0)) q (d_size (sc_rawdata scn)) encode st2
        = Returned (st2\<lparr>mem := (mem st2)(b0 \<mapsto> D)\<rparr>)"
      "only_changes 0 (0 + m * sz) (replicate n 0) D"
      "\<forall>i < m. mem_struct ec def (elem 0 sz i D) = swap_vals def (mem_struct ec def (elem off sz i S))"
    using elf_xfct_elements [OF def(1) assms(5) S(2) D0, of "d_size (sc_rawdata scn)" m off 0] S(1,3) n ne
    by (auto simp: sz_def n_def)
  define st3 where "st3 = st2\<lparr>mem := (mem st2)(b0 \<mapsto> D)\<rparr>"
  have lenD: "length D = n" using D(2) by (simp add: only_changes_def)
  have k2: "keeps st st2" by (rule keeps_trans [OF k1 q(2)])
  have k3: "keeps st st3"
    using k2 none D0 by (auto simp: keeps_def st3_def fresh_mem_def map_le_def dom_def)
  have stands: "stands_in_memory ec t (data_matches eh st) bs D"
    using D(3) lenD S(3,4) False n elem_segment [of _ m sz off S]
    by (auto simp: stands_in_memory_def def(1) file_form [OF def(1) assms(5)] sz_def [symmetric] m_def [symmetric])
  have read: "read_bytes (Some (b0, 0)) n st3 = Some D" using lenD by (simp add: st3_def)
  have "\<exists>st4. (if q \<noteq> sc_rawdata_base scn then free_ptr q st3 else Some st3) = Some st4 \<and> keeps st st4
      \<and> read_bytes (Some (b0, 0)) n st4 = Some D"
  proof (cases "q = sc_rawdata_base scn")
    case True
    then show ?thesis using k3 read by simp
  next
    case False
    then have "off = 0" "mem st1 b = None" using q(4) S(1) by auto
    then have "off = 0" "mem st b = None" "mem st3 b = Some S" using ne S(2) by (auto simp: st1_def st3_def)
    then show ?thesis using keeps_free [OF k3, of b S] False S(1) ne read by auto
  qed
  then obtain st4 where st4: "(if q \<noteq> sc_rawdata_base scn then free_ptr q st3 else Some st3) = Some st4" "keeps st st4"
      "read_bytes (Some (b0, 0)) n st4 = Some D" by blast
  have "eu_convert_data fuel elf scn st = Returned (True, Some (b0, 0), st4)"
    using False q(1) D(1) st4(1) [unfolded st3_def] assms(4)
    by (cases "q = sc_rawdata_base scn") (simp_all add: eu_convert_data_def malloc_fresh [OF assms(9)] of_option_def and_then_def
        t_def n_def ec_def b0_def st1_def)
  then show ?thesis using st4(2,3) stands by blast
qed

section \<open>The data of a section\<close>

text \<open>What the descriptor of a section is after its raw data has been read from \<open>p\<close>.\<close>

definition raw_scn :: "eu_scn_ref \<Rightarrow> Eu_Scn \<Rightarrow> Ehdr \<Rightarrow> GElf_Shdr \<Rightarrow> int \<Rightarrow> ptr \<Rightarrow> u64 \<Rightarrow> Eu_Scn" where
  "raw_scn s scn eh sh t p align =
     scn\<lparr>sc_rawdata := (sc_rawdata scn)\<lparr>d_size := sh_size sh, d_type := t, d_off := 0, d_align := align,
           d_version := ucast (ehdr_ident eh ! EI_VERSION), d_buf := p\<rparr>,
         sc_rawdata_base := p, sc_rawdata_scn := Some s, sc_data_read := True, sc_flags := sc_flags scn OR EU_F_FILEDATA\<rparr>"

lemma set_rawdata_reads:
  assumes u: "eu_unread_data pr s scn elf eh shdr img es" and sh: "sh = gshdr shdr"
    and "sh_flags sh AND SHF_COMPRESSED = 0" "eu_data_type elf (sh_type sh) (sh_addralign sh) = Some t"
    and "sh_size sh \<noteq> 0" "sh_type sh \<noteq> SHT_NOBITS" "eu_raw_entsize elf sh = Some m" "sh_size sh mod of_nat m = 0"
    and "unat (sh_offset sh) + unat (sh_size sh) \<le> length img"
  shows "\<exists>b off align st'. eu_set_rawdata pr unaligned s es
      = Some (True, eu_put_scn s (raw_scn s scn eh sh t (Some (b, off)) align) (es\<lparr>eu_mach := st'\<rparr>))
    \<and> keeps (eu_mach es) st'
    \<and> read_bytes (Some (b, off)) (unat (sh_size sh)) st' = Some (segment (unat (sh_offset sh)) (unat (sh_size sh)) img)"
proof -
  note u' = u [unfolded eu_unread_data_def]
  have std: "ee_class elf = ELFCLASS32 \<or> ee_class elf = ELFCLASS64" using u' by (auto simp: std_class_def)
  have "eu_contents pr elf (eu_mach es) img" "unat (ee_maximum_size elf) = length img" "fresh_mem (eu_mach es)" "oom (eu_mach es) = []"
    using u' by blast+
  then obtain b off st' where r: "eu_raw_buffer pr elf sh es = Some (Inr (Some (b, off)), es\<lparr>eu_mach := st'\<rparr>)"
      "keeps (eu_mach es) st'"
      "read_bytes (Some (b, off)) (unat (sh_size sh)) st' = Some (segment (unat (sh_offset sh)) (unat (sh_size sh)) img)"
    using raw_buffer_reads [OF _ _ _ _ assms(9)] by blast
  have scn': "eu_scn s (es\<lparr>eu_mach := st'\<rparr>) = eu_scn s es" by (simp add: eu_scn_def split: prod.split)
  have cl: "(if ee_class elf = ELFCLASS32 then ELFCLASS32 else ELFCLASS64) = ee_class elf" using std by auto
  define align where "align = (if sh_addralign sh = 0 then 1 else sh_addralign sh)"
  define align' where "align' = (if align > sh_offset sh then sh_offset sh else align)"
  have "eu_set_rawdata pr unaligned s es
      = Some (True, eu_put_scn s (raw_scn s scn eh sh t (Some (b, off)) align') (es\<lparr>eu_mach := st'\<rparr>))"
    using u' assms(3-8) r(1)
    by (simp add: eu_set_rawdata_def sh [symmetric] Let_def cl scn' raw_scn_def align_def [symmetric] align'_def [symmetric] cong: if_cong)
  then show ?thesis using r(2,3) by blast
qed

lemma set_block_scn_twice [simp]: "set_block_scn k i x (set_block_scn k i y elf) = set_block_scn k i x elf"
  by (cases "k < length (ee_scns elf)") (simp_all add: set_block_scn_def list_update_beyond)

lemma eu_put_scn_twice [simp]:
  "eu_put_scn s x ((eu_put_scn s y es)\<lparr>eu_mach := st\<rparr>) = eu_put_scn s x (es\<lparr>eu_mach := st\<rparr>)"
  by (auto simp: eu_put_scn_def eu_put_elf_def split: prod.split option.split)


text \<open>An object of the other byte order that is mapped, with one section.\<close>

definition demo_file_elf :: "u32 \<Rightarrow> u64 \<Rightarrow> u64 \<Rightarrow> nat \<Rightarrow> Eu_Elf" where
  "demo_file_elf t off n len =
     (demo_list_elf 1)\<lparr>ee_map_address := Some (2, 0), ee_maximum_size := of_nat len, ee_cmd := EU_C_READ_MMAP,
       ee_ehdr := Some demo_table_ehdr,
       ee_scns := [\<lparr>sl_cnt = 1, sl_max = 1, sl_data = [zero_scn\<lparr>sc_elf := Some 0, sc_list := Some 0,
         sc_shdr := Some (Shdr64 (zero_Elf_Shdr\<lparr>sh_type := t, sh_offset := off, sh_size := n\<rparr>))\<rparr>]\<rparr>]\<rparr>"

definition demo_file_store :: "u32 \<Rightarrow> u64 \<Rightarrow> u64 \<Rightarrow> byte list \<Rightarrow> eu_store" where
  "demo_file_store t off n bytes =
     (demo_list_store 1 [])\<lparr>eu_elfs := [0 \<mapsto> demo_file_elf t off n (length bytes)],
       eu_mach := (initial_store ELFDATA2LSB (\<lambda>b. 0))\<lparr>mem := [2 \<mapsto> bytes], fresh := 3\<rparr>\<rparr>"

lemmas demo_file_simps = demo_file_store_def demo_file_elf_def demo_list_store_def demo_list_elf_def initial_store_def
  initial_globals_def zero_scn_def demo_table_ehdr_def zero_ehdr_def map_ehdr_def


text \<open>
  C39. \<open>elf_getdata\<close> need not return: for the section of version definitions with the 40 bytes above
  in a mapped object of the other byte order, no number of steps is enough.
\<close>

theorem eu_getdata_hangs:
  "eu_elf_getdata fuel pr unaligned (Some (0, 0, 0)) None (demo_file_store SHT_SUNW_verdef 0 40 tangled_verdef) = Running"
proof -
  let ?sh = "zero_Elf_Shdr\<lparr>sh_type := SHT_SUNW_verdef, sh_offset := 0, sh_size := 40\<rparr> :: GElf_Shdr"
  let ?elf = "demo_file_elf SHT_SUNW_verdef 0 40 40" and ?es = "demo_file_store SHT_SUNW_verdef 0 40 tangled_verdef"
  let ?scn = "zero_scn\<lparr>sc_elf := Some 0, sc_list := Some 0, sc_shdr := Some (Shdr64 ?sh)\<rparr>"
  let ?scn1 = "raw_scn (0, 0, 0) ?scn demo_table_ehdr ?sh EU_T_VDEF (Some (2, 0)) 0"
  have len: "length tangled_verdef = 40" by (simp add: tangled_verdef_def)
  have at: "eu_scn (0, 0, 0) ?es = Some ?scn" "eu_elfs ?es 0 = Some ?elf"
    by (simp_all add: demo_file_simps eu_scn_def block_scn_def len)
  have el: "ee_kind ?elf = ELF_K_ELF" "ee_class ?elf = ELFCLASS64" "ee_ehdr ?elf = Some demo_table_ehdr"
    by (simp_all add: demo_file_simps)
  have "eu_raw_buffer pr ?elf ?sh ?es = Some (Inr (Some (2, 0)), ?es)"
    by (simp add: eu_raw_buffer_def zero_Elf_Shdr_def) (simp add: demo_file_simps in_map_def ptr_add_def)
  then have raw: "eu_set_rawdata pr unaligned (0, 0, 0) ?es = Some (True, eu_put_scn (0, 0, 0) ?scn1 ?es)"
    using at el by (simp add: eu_set_rawdata_def shdr_class_def gshdr_def raw_scn_def zero_Elf_Shdr_def eu_raw_entsize_def
        eu_shtype_map_def eu_data_type_def Let_def)
  have "(eu_mach ?es)\<lparr>mem := (mem (eu_mach ?es))(3 \<mapsto> replicate 40 0), fresh := 4\<rparr> = tangled_store (replicate 40 0)"
    by (simp add: demo_file_simps tangled_store_def)
  moreover have "oom (eu_mach ?es) = []" "fresh (eu_mach ?es) = 3" by (simp_all add: demo_file_simps)
  ultimately have malloc: "malloc 40 (eu_mach ?es) = (Some (3, 0), tangled_store (replicate 40 0))"
    by (simp add: malloc_fresh)
  have src: "eu_aligned_source (Some (2, 0)) n 40 (tangled_store (replicate 40 0)) = Some (True, Some (2, 0), tangled_store (replicate 40 0))" for n
    by (simp add: eu_aligned_source_def addr_def tangled_store_def initial_store_def)
  have "\<not> data_matches demo_table_ehdr (eu_mach ?es)" by (simp add: data_matches_def demo_file_simps)
  moreover have "elf_xfct fuel ELFCLASS64 EU_T_VDEF (Some (3, 0)) (Some (2, 0)) 40 False (tangled_store (replicate 40 0)) = Running"
    using verdef_decode_hangs [of fuel] by (simp add: elf_xfct_def eu_fundamental_def eu_struct_layout_def)
  ultimately have convert: "eu_convert_data fuel (set_block_scn 0 0 ?scn1 ?elf) ?scn1 (eu_mach ?es) = Running"
    using el malloc src by (simp add: eu_convert_data_def raw_scn_def zero_Elf_Shdr_def of_option_def and_then_def Let_def)
  have at1: "eu_scn (0, 0, 0) (eu_put_scn (0, 0, 0) ?scn1 ?es) = Some ?scn1"
    "eu_elfs (eu_put_scn (0, 0, 0) ?scn1 ?es) 0 = Some (set_block_scn 0 0 ?scn1 ?elf)"
    "eu_mach (eu_put_scn (0, 0, 0) ?scn1 ?es) = eu_mach ?es"
    using at by (simp_all add: eu_scn_put_scn) (simp_all add: eu_put_scn_def)
  have scn1: "sc_elf ?scn1 = Some 0" "sc_data_rear ?scn1 = None" "sc_rawdata ?scn1 = zero_data\<lparr>d_size := 40, d_type := EU_T_VDEF,
      d_off := 0, d_align := 0, d_version := 0, d_buf := Some (2, 0)\<rparr>"
    by (simp_all add: raw_scn_def zero_scn_def zero_Elf_Shdr_def) (simp add: demo_table_ehdr_def zero_ehdr_def map_ehdr_def)
  have "eu_set_data_list fuel (0, 0, 0) (eu_put_scn (0, 0, 0) ?scn1 ?es) = Running"
    using at1 scn1 convert by (simp add: eu_set_data_list_def of_option_def and_then_def)
  then show ?thesis
    using at el raw at1(1) scn1(2) by (simp add: eu_elf_getdata_def of_option_def and_then_def zero_scn_def)
qed

end
