(* ===== verification/Eu_Compress_Facts.thy ===== *)
theory Eu_Compress_Facts
  imports Eu_Compress Eu_Data_Facts
begin

text \<open>
  Compressed sections come back: what \<open>elf_compress\<close> makes of the data of a section, however many
  buffers it has, \<open>elf_compress\<close> decompresses to the same bytes, for any \<open>zlib\<close> that behaves as it
  is documented.
\<close>

section \<open>What is expected of \<open>zlib\<close>\<close>

text \<open>
  The states of a stream: the input read and the output written so far, and the input that is to
  be given again once the end has been announced.
\<close>

inductive deflates :: "'z zlib \<Rightarrow> 'z \<Rightarrow> byte list \<Rightarrow> byte list \<Rightarrow> byte list option \<Rightarrow> bool" for z where
  start: "z_deflate_init z = (rc, zs) \<Longrightarrow> deflates z zs [] [] None"
| more: "deflates z zs i out r \<Longrightarrow> r = None \<or> r = Some inp \<and> fin \<Longrightarrow> 0 < room
    \<Longrightarrow> z_deflate z zs inp room fin = (rc, took, bs, zs')
    \<Longrightarrow> deflates z zs' (i @ take took inp) (out @ bs) (if fin then Some (drop took inp) else None)"

text \<open>A compressed stream: it is read to its end, gives the data where there is room, and is not too short.\<close>

definition inflates :: "'z zlib \<Rightarrow> byte list \<Rightarrow> byte list \<Rightarrow> bool" where
  "inflates z c d \<longleftrightarrow> c \<noteq> [] \<and> length d div 1032 \<le> length c
     \<and> (\<forall>room \<ge> length d. z_inflate z c room = (Z_STREAM_END, length c, d))"

text \<open>An upper bound of the size of compressed data.\<close>

definition deflate_bound :: "nat \<Rightarrow> nat" where "deflate_bound n = 2 * n + 64"

text \<open>
  The documented behaviour: a call reads no more than it is given and writes no more than there is
  room for; when it leaves room it has read all; when it leaves room at the end the stream is
  complete.  The output is not larger than the bound.
\<close>

definition zlib_ok :: "'z zlib \<Rightarrow> bool" where
  "zlib_ok z \<longleftrightarrow>
     fst (z_deflate_init z) = Z_OK \<and> z_inflate_init z = Z_OK \<and> z_inflate_reset z = Z_OK \<and> z_inflate_end z = Z_OK
     \<and> (\<forall>zs i out r inp fin room rc took bs zs'.
          deflates z zs i out r \<longrightarrow> r = None \<or> r = Some inp \<and> fin \<longrightarrow> 0 < room
          \<longrightarrow> z_deflate z zs inp room fin = (rc, took, bs, zs')
          \<longrightarrow> rc \<noteq> Z_STREAM_ERROR \<and> took \<le> length inp \<and> length bs \<le> room
            \<and> length (out @ bs) \<le> deflate_bound (length (i @ take took inp))
            \<and> (length bs < room \<longrightarrow> took = length inp \<and> (fin \<longrightarrow> z_deflate_end z zs' = Z_OK \<and> inflates z (out @ bs) (i @ inp))))"

lemma zlib_okD:
  assumes "zlib_ok z" "deflates z zs i out r" "r = None \<or> r = Some inp \<and> fin" "0 < room"
    and "z_deflate z zs inp room fin = (rc, took, bs, zs')"
  shows "rc \<noteq> Z_STREAM_ERROR" "took \<le> length inp" "length bs \<le> room"
    "length (out @ bs) \<le> deflate_bound (length (i @ take took inp))"
    "length bs < room \<Longrightarrow> took = length inp"
    "length bs < room \<Longrightarrow> fin \<Longrightarrow> z_deflate_end z zs' = Z_OK"
    "length bs < room \<Longrightarrow> fin \<Longrightarrow> inflates z (out @ bs) (i @ inp)"
  using assms unfolding zlib_ok_def by blast+

section \<open>The output buffer\<close>

text \<open>The buffer is a block that was not there in \<open>st0\<close>; behind \<open>h\<close> bytes it holds the output.\<close>

definition out_holds :: "store \<Rightarrow> nat \<Rightarrow> byte list \<Rightarrow> out_buffer \<Rightarrow> store \<Rightarrow> bool" where
  "out_holds st0 h out ob st \<longleftrightarrow>
     (\<exists>b X. ob_buf ob = Some (b, 0) \<and> mem st0 b = None \<and> mem st b = Some X \<and> length X = unat (ob_size ob)
        \<and> unat (ob_used ob) = h + length out \<and> h + length out \<le> length X \<and> segment h (length out) X = out)
     \<and> keeps st0 st"

lemma out_holds_write:
  assumes "out_holds st0 h out ob st" "unat (ob_used ob) + length bs \<le> unat (ob_size ob)"
  shows "\<exists>st'. write_bytes (ptr_add (ob_buf ob) (ob_used ob)) bs st = Some st'
    \<and> out_holds st0 h (out @ bs) (ob\<lparr>ob_used := ob_used ob + of_nat (length bs)\<rparr>) st'"
proof -
  obtain b X where b: "ob_buf ob = Some (b, 0)" "mem st0 b = None" "mem st b = Some X" "length X = unat (ob_size ob)"
      "unat (ob_used ob) = h + length out" "h + length out \<le> length X" "segment h (length out) X = out" and k: "keeps st0 st"
    using assms(1) by (auto simp: out_holds_def)
  let ?X = "put_at (h + length out) bs X"
  have fit: "h + length out + length bs \<le> length X" using assms(2) b(4,5) by simp
  have p: "ptr_add (ob_buf ob) (ob_used ob) = Some (b, h + length out)"
    using b(1,5) unat_u64_less [of "ob_used ob"] by (simp add: ptr_add_def)
  have "length bs < 2 ^ 64" using assms(2) unat_u64_less [of "ob_size ob"] by simp
  then have "unat (ob_used ob + of_nat (length bs)) = unat (ob_used ob) + length bs"
    using assms(2) unat_u64_less [of "ob_size ob"] by (simp add: unat_plus_if_size unat_of_nat_u64 word_size)
  then have used: "unat (ob_used ob + of_nat (length bs)) = h + length (out @ bs)" using b(5) by simp
  have "take (h + length out) ?X = take (h + length out) X" using fit by (simp add: put_at_def)
  then have "segment h (length out) ?X = segment h (length out) X"
    by (simp add: segment_def) (metis drop_take add_diff_cancel_left')
  moreover have "segment (h + length out) (length bs) ?X = bs" using fit by (simp add: segment_put_at_same)
  ultimately have seg: "segment h (length (out @ bs)) ?X = out @ bs" using b(7) by (simp add: segment_add)
  have k': "keeps st0 (st\<lparr>mem := (mem st)(b \<mapsto> ?X)\<rparr>)"
    using k b(2,3) by (auto simp: keeps_def fresh_mem_def map_le_def dom_def)
  have "length ?X = length X" using fit by simp
  then show ?thesis
    using b fit p used seg k' by (auto simp: out_holds_def)
qed

lemma out_holds_realloc:
  assumes "out_holds st0 h out ob st" "unat (ob_size ob) + unat blk < 2 ^ 64"
  shows "\<exists>q st'. eu_realloc (ob_buf ob) (unat (ob_size ob)) (unat (ob_size ob + blk)) st = Some (Some q, st')
    \<and> out_holds st0 h out (ob\<lparr>ob_buf := Some q, ob_size := ob_size ob + blk\<rparr>) st'"
proof -
  obtain b X where b: "ob_buf ob = Some (b, 0)" "mem st0 b = None" "mem st b = Some X" "length X = unat (ob_size ob)"
      "unat (ob_used ob) = h + length out" "h + length out \<le> length X" "segment h (length out) X = out" and k: "keeps st0 st"
    using assms(1) by (auto simp: out_holds_def)
  let ?n = "unat (ob_size ob + blk)" and ?c = "fresh st"
  have n: "?n = unat (ob_size ob) + unat blk" using assms(2) by (rule unat_add_small)
  let ?Y = "X @ replicate (unat blk) 0"
  have c: "mem st ?c = None" "?c \<noteq> b" "oom st = []"
    using keepsD(1,2) [OF k] b(3) by (auto simp: fresh_mem_def)
  have c0: "mem st0 ?c = None" using k c(1) by (auto simp: keeps_def map_le_def dom_def)
  have put: "put_at 0 X (replicate ?n 0) = ?Y" using b(4) n by (simp add: put_at_def)
  let ?st' = "(st\<lparr>mem := (mem st)(?c \<mapsto> ?Y), fresh := Suc ?c\<rparr>)\<lparr>mem := ((mem st)(?c \<mapsto> ?Y))(b := None)\<rparr>"
  have "eu_realloc (ob_buf ob) (unat (ob_size ob)) ?n st = Some (Some (?c, 0), ?st')"
    using b(1,3,4) c n put
    by (simp add: eu_realloc_def malloc_fresh free_ptr_def fun_upd_twist)
  moreover have "keeps st0 ?st'"
    using k b(2) c0 by (auto simp: keeps_def fresh_mem_def map_le_def dom_def)
  moreover have "segment h (length out) ?Y = out" using b(6,7) by (simp add: segment_def)
  ultimately show ?thesis
    using b(4-6) c c0 n by (auto simp: out_holds_def)
qed

section \<open>Compressing\<close>

lemma outcome_simps [simp]:
  "of_option (Some x) = Returned x" "of_option None = Fault"
  "and_then (Returned x) f = f x" "and_then Fault f = Fault" "and_then Running f = Running"
  by (simp_all add: of_option_def and_then_def)

text \<open>There is room in the buffer, and the numbers do not wrap around.\<close>

definition out_room :: "nat \<Rightarrow> nat \<Rightarrow> u64 \<Rightarrow> out_buffer \<Rightarrow> bool" where
  "out_room h N blk ob \<longleftrightarrow> 0 < blk \<and> unat blk < 2 ^ 30 \<and> N < 2 ^ 31 \<and> h \<le> 24
     \<and> unat (ob_used ob) < unat (ob_size ob) \<and> unat (ob_size ob) \<le> unat (ob_used ob) + 2 * unat blk
     \<and> unat (ob_used ob) \<le> h + deflate_bound N"

lemma uInt_small: "unat n < 2 ^ 32 \<Longrightarrow> uInt n = unat n"
  by (simp add: uInt_def unsigned_ucast_eq take_bit_nat_eq_self)

lemma deflate_bound_mono: "m \<le> n \<Longrightarrow> deflate_bound m \<le> deflate_bound n"
  by (simp add: deflate_bound_def)

lemma deflate_buffer_ends:
  assumes "zlib_ok z"
  shows "deflates z zs i out r \<Longrightarrow> r = None \<or> r = Some input \<and> fin \<Longrightarrow> out_holds st0 h out ob st
    \<Longrightarrow> length (i @ input) \<le> N \<Longrightarrow> out_room h N blk ob \<Longrightarrow> deflate_bound N < fuel + length out
    \<Longrightarrow> \<exists>zs' out' ob' st'. deflate_buffer fuel z True orig fin blk input zs ob st = Returned (None, zs', ob', st')
      \<and> deflates z zs' (i @ input) out' (if fin then Some [] else None) \<and> out_holds st0 h out' ob' st' \<and> out_room h N blk ob'
      \<and> (fin \<longrightarrow> z_deflate_end z zs' = Z_OK \<and> inflates z out' (i @ input))"
proof (induction fuel arbitrary: zs i out r input ob st)
  case 0
  have "length out \<le> deflate_bound N"
    using "0.prems"(3,5) by (auto simp: out_holds_def out_room_def)
  then show ?case using "0.prems"(6) by simp
next
  case (Suc fuel)
  note d = Suc.prems(1) and o = Suc.prems(3) and room = Suc.prems(5) [unfolded out_room_def]
  define avail where "avail = unat (ob_size ob) - unat (ob_used ob)"
  have le: "ob_used ob \<le> ob_size ob" using room by (simp add: word_le_nat_alt)
  have un: "unat (ob_size ob - ob_used ob) = avail" using unat_sub [OF le] by (simp add: avail_def)
  have av: "uInt (ob_size ob - ob_used ob) = avail"
  proof -
    note un
    moreover have "avail < 2 ^ 32" using room by (simp add: avail_def) linarith
    ultimately show ?thesis by (simp add: uInt_small)
  qed
  have avail: "0 < avail" using room by (simp add: avail_def)
  obtain rc took bs zs1 where call: "z_deflate z zs input avail fin = (rc, took, bs, zs1)" by (metis prod_cases4)
  note ok = zlib_okD [OF assms d Suc.prems(2) avail call]
  have d1: "deflates z zs1 (i @ take took input) (out @ bs) (if fin then Some (drop took input) else None)"
    by (rule deflates.more [OF d Suc.prems(2) avail call])
  define ob1 where "ob1 = ob\<lparr>ob_used := ob_used ob + of_nat (length bs)\<rparr>"
  have "unat (ob_used ob) + length bs \<le> unat (ob_size ob)" using ok(3) avail by (simp add: avail_def)
  then obtain st1 where w: "write_bytes (ptr_add (ob_buf ob) (ob_used ob)) bs st = Some st1" "out_holds st0 h (out @ bs) ob1 st1"
    using out_holds_write [OF o, of bs] by (auto simp: ob1_def)
  have "(of_nat (avail - length bs) :: u64) = of_nat avail - of_nat (length bs)" by (rule of_nat_diff [OF ok(3)])
  then have "of_nat (avail - length bs) = ob_size ob - ob_used ob - (of_nat (length bs) :: u64)" by (simp flip: un)
  then have used: "ob\<lparr>ob_used := ob_used ob + (ob_size ob - ob_used ob - of_nat (avail - length bs))\<rparr> = ob1"
    by (simp add: ob1_def)
  have used1: "unat (ob_used ob1) = h + length (out @ bs)" "unat (ob_used ob) = h + length out"
    using w(2) o by (auto simp: out_holds_def)
  have sz1: "ob_size ob1 = ob_size ob" by (simp add: ob1_def)
  have "length (i @ take took input) \<le> N" using Suc.prems(4) by simp
  then have bound: "length (out @ bs) \<le> deflate_bound N" using ok(4) deflate_bound_mono le_trans by blast
  have step: "deflate_buffer (Suc fuel) z True orig fin blk input zs ob st
      = (if avail - length bs \<noteq> 0 then Returned (None, zs1, ob1, st1)
         else
           and_then (of_option (eu_realloc (ob_buf ob1) (unat (ob_size ob1)) (unat (ob_size ob1 + blk)) st1))
             (\<lambda>(bigger, st).
                if bigger = None then Returned (Some (Some EU_E_NOMEM), zs1, ob1, st)
                else deflate_buffer fuel z True orig fin blk (drop took input) zs1
                       (ob1\<lparr>ob_buf := bigger, ob_size := ob_size ob1 + blk\<rparr>) st))"
    by (simp only: deflate_buffer.simps(2) av call Let_def prod.case ok(1) if_False w(1) of_option_def and_then_def option.case outcome.case
        used not_True_eq_False simp_thms)
  show ?case
  proof (cases "length bs < avail")
    case True
    have "out_room h N blk ob1" using room True bound used1 by (simp add: out_room_def sz1 avail_def)
    moreover have "deflate_buffer (Suc fuel) z True orig fin blk input zs ob st = Returned (None, zs1, ob1, st1)"
      using True by (simp only: step) simp
    ultimately show ?thesis using d1 w(2) ok(5-7) [OF True] by (intro exI conjI) (auto split: if_splits)
  next
    case False
    then have full: "length bs = avail" using ok(3) by simp
    have "unat (ob_size ob1) + unat blk < 2 ^ 64"
      using room bound used1 by (simp add: sz1 deflate_bound_def)
    then obtain q st2 where q: "eu_realloc (ob_buf ob1) (unat (ob_size ob1)) (unat (ob_size ob1 + blk)) st1 = Some (Some q, st2)"
        "out_holds st0 h (out @ bs) (ob1\<lparr>ob_buf := Some q, ob_size := ob_size ob1 + blk\<rparr>) st2"
      using out_holds_realloc [OF w(2)] by blast
    let ?ob2 = "ob1\<lparr>ob_buf := Some q, ob_size := ob_size ob1 + blk\<rparr>"
    have "unat (ob_size ob1 + blk) = unat (ob_size ob1) + unat blk"
      by (rule unat_add_small) (rule \<open>unat (ob_size ob1) + unat blk < 2 ^ 64\<close>)
    then have r2: "out_room h N blk ?ob2"
      using room bound used1 full by (auto simp: out_room_def sz1 avail_def unat_gt_0)
    have n: "length ((i @ take took input) @ drop took input) \<le> N" using Suc.prems(4) by simp
    have f: "deflate_bound N < fuel + length (out @ bs)" using Suc.prems(6) avail full by simp
    have r: "(if fin then Some (drop took input) else None) = None \<or> (if fin then Some (drop took input) else None) = Some (drop took input) \<and> fin"
      by simp
    have "deflate_buffer (Suc fuel) z True orig fin blk input zs ob st
        = deflate_buffer fuel z True orig fin blk (drop took input) zs1 ?ob2 st2"
      using full q(1) by (simp only: step) (simp add: of_option_def and_then_def)
    then show ?thesis using Suc.IH [OF d1 r q(2) n r2 f] by simp
  qed
qed

text \<open>The data of a section: its buffers hold the byte lists \<open>bss\<close>.\<close>

definition eu_holds_data :: "eu_scn_ref \<Rightarrow> Eu_Scn \<Rightarrow> byte list list \<Rightarrow> store \<Rightarrow> bool" where
  "eu_holds_data s scn bss st \<longleftrightarrow>
     length (sc_data_list scn) = length bss \<and> bss \<noteq> [] \<and> sc_data_rear scn \<noteq> None \<and> sc_data_read scn
     \<and> (\<forall>j < length bss. dn_scn (sc_data_list scn ! j) = Some s \<and> d_size (dn_data (sc_data_list scn ! j)) = of_nat (length (bss ! j))
          \<and> (bss ! j = [] \<or> read_bytes (d_buf (dn_data (sc_data_list scn ! j))) (length (bss ! j)) st = Some (bss ! j)))"

text \<open>A section of an open object.\<close>

definition eu_open_scn :: "eu_scn_ref \<Rightarrow> Eu_Scn \<Rightarrow> Eu_Elf \<Rightarrow> eu_store \<Rightarrow> bool" where
  "eu_open_scn s scn elf es \<longleftrightarrow>
     eu_scn s es = Some scn \<and> sc_elf scn = Some (fst s) \<and> eu_elfs es (fst s) = Some elf \<and> ee_kind elf = ELF_K_ELF"

abbreviation list_ref :: "eu_scn_ref \<Rightarrow> nat \<Rightarrow> nat \<Rightarrow> eu_data_ref option" where
  "list_ref s n j \<equiv> if j < n then Some (ListData s j) else None"

lemma getdata_next:
  assumes "eu_open_scn s scn elf es" "eu_holds_data s scn bss st" "j < length bss"
  shows "eu_elf_getdata fuel pr unaligned (Some s) (Some (ListData s j)) es = Returned (list_ref s (length bss) (j + 1), es)"
    "eu_data (ListData s j) es = Some (dn_data (sc_data_list scn ! j), Some s)"
  using assms
  by (auto simp: eu_open_scn_def eu_holds_data_def eu_elf_getdata_def of_option_def and_then_def eu_data_def node_at_def)

lemma getdata_first:
  assumes "eu_open_scn s scn elf es" "sc_data_read scn" "sc_data_rear scn \<noteq> None"
  shows "eu_elf_getdata fuel pr unaligned (Some s) None es = Returned (Some (ListData s 0), es)"
  using assms by (auto simp: eu_open_scn_def eu_elf_getdata_def of_option_def and_then_def)

lemma eu_open_scn_mach [simp]:
  "eu_scn s (es\<lparr>eu_mach := st\<rparr>) = eu_scn s es"
  "eu_open_scn s scn elf (es\<lparr>eu_mach := st\<rparr>) = eu_open_scn s scn elf es"
  by (simp_all add: eu_open_scn_def eu_scn_def split: prod.split)

lemma compress_loop_ends:
  assumes "zlib_ok z" "eu_open_scn s scn elf es" "eu_holds_data s scn bss st0" "length (concat bss) \<le> N"
    and "order = host_order st0"
  shows "j < length bss \<Longrightarrow> deflates z zs (concat (take j bss)) out None \<Longrightarrow> out_holds st0 h out ob st
    \<Longrightarrow> out_room h N blk ob \<Longrightarrow> length bss + deflate_bound N < fuel + j
    \<Longrightarrow> \<exists>out' ob' st'. compress_loop fuel z pr unaligned True order s (ListData s j) (list_ref s (length bss) (j + 1)) osz oal blk zs ob
          (es\<lparr>eu_mach := st\<rparr>)
        = Returned (Compressed (ob_buf ob') (osz + of_nat (length (concat (drop (j + 1) bss))))
            (fold (\<lambda>x a. max a (d_align (dn_data x))) (drop (j + 1) (sc_data_list scn)) oal) (ob_used ob'), es\<lparr>eu_mach := st'\<rparr>)
      \<and> out_holds st0 h out' ob' st' \<and> out_room h N blk ob' \<and> inflates z out' (concat bss)"
proof (induction fuel arbitrary: j zs out ob st osz oal)
  case (Suc fuel)
  let ?es = "es\<lparr>eu_mach := st\<rparr>" and ?d = "dn_data (sc_data_list scn ! j)" and ?bs = "bss ! j" and ?n = "length bss"
  note j = Suc.prems(1) and o = Suc.prems(3)
  have k: "keeps st0 st" using o by (simp add: out_holds_def)
  have op: "eu_open_scn s scn elf (es\<lparr>eu_mach := x\<rparr>)" for x using assms(2) by simp
  note data = getdata_next(2) [OF assms(2,3)] and nxt = getdata_next(1) [OF op assms(3)]
  have "concat (take (Suc j) bss) = concat (take j bss) @ ?bs" using j by (simp add: take_Suc_conv_app_nth)
  moreover have "length (concat (take (Suc j) bss)) \<le> length (concat bss)"
    by (metis append_take_drop_id concat_append le_add1 length_append)
  ultimately have upto: "length (concat (take j bss) @ ?bs) \<le> N" and so_far: "concat (take j bss) @ ?bs = concat (take (j + 1) bss)"
    using assms(4) by simp_all
  have N31: "N < 2 ^ 31" using Suc.prems(4) by (simp add: out_room_def)
  have len: "length ?bs < 2 ^ 31" using upto N31 by simp
  have sz: "d_size ?d = of_nat (length ?bs)" "?bs = [] \<or> read_bytes (d_buf ?d) (length ?bs) st = Some ?bs"
    using assms(3) j keeps_read [OF k] by (auto simp: eu_holds_data_def)
  have un: "unat (of_nat (length ?bs) :: u64) = length ?bs" using len by (simp add: unat_of_nat_u64)
  have input: "(if uInt (d_size ?d) = 0 then Some [] else read_bytes (d_buf ?d) (uInt (d_size ?d)) (eu_mach ?es)) = Some ?bs"
    using sz un len by (auto simp: uInt_small)
  have host: "order = host_order st" using assms(5) keepsD(3) [OF k] by simp
  have "length out \<le> deflate_bound N" using o Suc.prems(4) by (auto simp: out_holds_def out_room_def)
  have enough: "deflate_bound N < fuel + length out" using Suc.prems(5) j by simp
  show ?case
  proof (cases "j + 1 < ?n")
    case False
    then have last: "?n = Suc j" using j by simp
    obtain zs1 out1 ob1 st1 where b: "deflate_buffer fuel z True osz True blk ?bs zs ob st = Returned (None, zs1, ob1, st1)"
        "out_holds st0 h out1 ob1 st1" "out_room h N blk ob1" "z_deflate_end z zs1 = Z_OK" "inflates z out1 (concat (take j bss) @ ?bs)"
      using deflate_buffer_ends [OF assms(1) Suc.prems(2) _ o upto Suc.prems(4) enough, of True osz] by auto
    have "compress_loop (Suc fuel) z pr unaligned True order s (ListData s j) None osz oal blk zs ob ?es
        = Returned (Compressed (ob_buf ob1) osz oal (ob_used ob1), es\<lparr>eu_mach := st1\<rparr>)"
      using op [of st]
      by (simp add: eu_open_scn_def data [OF j] input host [symmetric] b(1,4) free_ptr_def split del: if_split)
    moreover have "drop (j + 1) bss = []" "drop (j + 1) (sc_data_list scn) = []" "take (j + 1) bss = bss"
      using last assms(3) by (simp_all add: eu_holds_data_def)
    ultimately show ?thesis using b(2,3,5) False so_far by auto
  next
    case True
    let ?d' = "dn_data (sc_data_list scn ! (j + 1))"
    have sz': "d_size ?d' = of_nat (length (bss ! (j + 1)))" using assms(3) True by (simp add: eu_holds_data_def)
    obtain zs1 out1 ob1 st1 where b: "deflate_buffer fuel z True (osz + d_size ?d') False blk ?bs zs ob st = Returned (None, zs1, ob1, st1)"
        "deflates z zs1 (concat (take (j + 1) bss)) out1 None" "out_holds st0 h out1 ob1 st1" "out_room h N blk ob1"
      using deflate_buffer_ends [OF assms(1) Suc.prems(2) _ o upto Suc.prems(4) enough, of False "osz + d_size ?d'"] so_far by auto
    have step: "compress_loop (Suc fuel) z pr unaligned True order s (ListData s j) (Some (ListData s (j + 1))) osz oal blk zs ob ?es
        = compress_loop fuel z pr unaligned True order s (ListData s (j + 1)) (list_ref s ?n (j + 1 + 1)) (osz + d_size ?d')
            (max oal (d_align ?d')) blk zs1 ob1 (es\<lparr>eu_mach := st1\<rparr>)"
      using op [of st]
      by (simp add: eu_open_scn_def data [OF j] data [OF True, simplified] nxt [OF True, simplified] input host [symmetric] b(1) [simplified] free_ptr_def split del: if_split)
    have "?n + deflate_bound N < fuel + (j + 1)" using Suc.prems(5) by simp
    from Suc.IH [OF True b(2-4) this, of "osz + d_size ?d'" "max oal (d_align ?d')"]
    have "\<exists>out' ob' st'. compress_loop (Suc fuel) z pr unaligned True order s (ListData s j) (Some (ListData s (j + 1))) osz oal blk zs ob ?es
        = Returned (Compressed (ob_buf ob') (osz + d_size ?d' + of_nat (length (concat (drop (j + 1 + 1) bss))))
            (fold (\<lambda>x a. max a (d_align (dn_data x))) (drop (j + 1 + 1) (sc_data_list scn)) (max oal (d_align ?d'))) (ob_used ob'), es\<lparr>eu_mach := st'\<rparr>)
      \<and> out_holds st0 h out' ob' st' \<and> out_room h N blk ob' \<and> inflates z out' (concat bss)"
      unfolding step by simp
    moreover have "drop (j + 1) bss = bss ! (j + 1) # drop (j + 1 + 1) bss"
      "drop (j + 1) (sc_data_list scn) = sc_data_list scn ! (j + 1) # drop (j + 1 + 1) (sc_data_list scn)"
      using True assms(3) by (simp_all add: eu_holds_data_def Cons_nth_drop_Suc)
    ultimately show ?thesis using True sz' by (simp add: add.assoc)
  qed
qed (simp)

abbreviation data_align :: "eu_data_node list \<Rightarrow> u64" where
  "data_align ns \<equiv> fold (\<lambda>x a. max a (d_align (dn_data x))) (tl ns) (d_align (dn_data (hd ns)))"

lemma libelf_compress_ends:
  assumes z: "zlib_ok z" and op: "eu_open_scn s scn elf es" and d: "eu_holds_data s scn bss (eu_mach es)"
    and N: "N = length (concat bss)" "N < 2 ^ 31" and h: "0 < hsize" "unat hsize \<le> 24" and order: "order = host_order (eu_mach es)"
    and st: "fresh_mem (eu_mach es)" "oom (eu_mach es) = []" and fuel: "length bss + deflate_bound N < fuel"
  shows "\<exists>out ob st'. libelf_compress fuel z pr unaligned s hsize order True es
      = Returned (Compressed (ob_buf ob) (of_nat N) (data_align (sc_data_list scn)) (ob_used ob), es\<lparr>eu_mach := st'\<rparr>)
    \<and> out_holds (eu_mach es) (unat hsize) out ob st' \<and> inflates z out (concat bss) \<and> unat (ob_used ob) \<le> unat hsize + deflate_bound N"
proof -
  have n: "0 < length bss" "sc_data_read scn" "sc_data_rear scn \<noteq> None" "length (sc_data_list scn) = length bss"
    and d0: "d_size (dn_data (sc_data_list scn ! 0)) = of_nat (length (bss ! 0))"
    using d by (auto simp: eu_holds_data_def)
  obtain b bs' where bss: "bss = b # bs'" using n(1) by (cases bss) auto
  define dsz where "dsz = d_size (dn_data (sc_data_list scn ! 0))"
  have "length (bss ! 0) \<le> N" using bss N(1) by simp
  then have dsz: "unat dsz < 2 ^ 31" using d0 N(2) by (simp add: dsz_def unat_of_nat_u64)
  define blk where "blk = dsz div 8 + hsize"
  have "unat (dsz div 8) + unat hsize < 2 ^ 30" using dsz h(2) by (simp add: unat_div)
  then have blk: "unat blk = unat (dsz div 8) + unat hsize" "unat blk < 2 ^ 30" "unat hsize \<le> unat blk"
    by (simp_all add: blk_def unat_add_small)
  have h0: "0 < unat hsize" using h(1) by (simp add: word_less_nat_alt)
  have blk0: "0 < blk" using blk(3) h0 by (simp add: word_less_nat_alt)
  have out: "unat (2 * blk) = 2 * unat blk"
    using blk(2) unat_add_small [of blk blk] by simp
  define st1 where "st1 = (eu_mach es)\<lparr>mem := (mem (eu_mach es))(fresh (eu_mach es) \<mapsto> replicate (unat (2 * blk)) 0), fresh := Suc (fresh (eu_mach es))\<rparr>"
  define ob where "ob = \<lparr>ob_buf = Some (fresh (eu_mach es), 0), ob_size = 2 * blk, ob_used = hsize\<rparr>"
  have "keeps (eu_mach es) st1" unfolding st1_def by (rule keeps_new [OF st])
  moreover have "mem (eu_mach es) (fresh (eu_mach es)) = None" using st(1) by (simp add: fresh_mem_def)
  ultimately have holds: "out_holds (eu_mach es) (unat hsize) [] ob st1"
    using out blk(3) by (simp add: out_holds_def ob_def st1_def segment_def)
  have room: "out_room (unat hsize) N blk ob"
    using blk blk0 h h0 N(2) out by (simp add: out_room_def ob_def)
  obtain zs where zs: "z_deflate_init z = (Z_OK, zs)" using z by (cases "z_deflate_init z") (simp add: zlib_ok_def)
  have "deflates z zs (concat (take 0 bss)) [] None" using deflates.start [OF zs] by simp
  moreover have "length (concat bss) \<le> N" "length bss + deflate_bound N < fuel + 0" using N(1) fuel by simp_all
  ultimately obtain out' ob' st' where c: "compress_loop fuel z pr unaligned True order s (ListData s 0) (list_ref s (length bss) (0 + 1)) dsz
        (d_align (dn_data (sc_data_list scn ! 0))) blk zs ob (es\<lparr>eu_mach := st1\<rparr>)
      = Returned (Compressed (ob_buf ob') (dsz + of_nat (length (concat (drop (0 + 1) bss))))
          (fold (\<lambda>x a. max a (d_align (dn_data x))) (drop (0 + 1) (sc_data_list scn)) (d_align (dn_data (sc_data_list scn ! 0)))) (ob_used ob'),
        es\<lparr>eu_mach := st'\<rparr>)"
      "out_holds (eu_mach es) (unat hsize) out' ob' st'" "out_room (unat hsize) N blk ob'" "inflates z out' (concat bss)"
    using compress_loop_ends [OF z op d _ order n(1) _ holds room, of zs fuel pr unaligned dsz] by blast
  have total: "dsz + of_nat (length (concat (drop (0 + 1) bss))) = of_nat N"
    unfolding dsz_def d0 N(1) bss by simp
  have "sc_data_list scn \<noteq> []" using n(1,4) by auto
  then have "hd (sc_data_list scn) = sc_data_list scn ! 0" by (rule hd_conv_nth)
  then have "libelf_compress fuel z pr unaligned s hsize order True es
      = Returned (Compressed (ob_buf ob') (of_nat N) (data_align (sc_data_list scn)) (ob_used ob'), es\<lparr>eu_mach := st'\<rparr>)"
    using getdata_first [OF op n(2,3)] getdata_next [OF op d n(1)] c(1) [simplified] total [simplified] zs n(1,4)
    by (simp add: libelf_compress_def Let_def malloc_fresh [OF st(2)] blk_def [symmetric] dsz_def [symmetric] st1_def [symmetric] ob_def [symmetric]
        drop_Suc del: distrib_left_numeral)
  moreover have "unat (ob_used ob') \<le> unat hsize + deflate_bound N" using c(3) by (simp add: out_room_def)
  ultimately show ?thesis using c(2,4) by blast
qed

end
