(* ===== verification/Eu_Compress_Roundtrip.thy ===== *)
theory Eu_Compress_Roundtrip
  imports Eu_Compress_Facts
begin

text \<open>
  \<open>elf_compress\<close> undoes what it has done: the data of a section, in however many buffers, that is
  compressed and decompressed again is the same bytes, in one buffer, under the same header, for
  any \<open>zlib\<close> that behaves as it is documented.
\<close>

section \<open>A section after its raw data was replaced\<close>

definition elf_with :: "eu_scn_ref \<Rightarrow> Eu_Scn \<Rightarrow> Eu_Elf \<Rightarrow> Eu_Elf" where
  "elf_with s x elf = set_block_scn (fst (snd s)) (snd (snd s)) x elf"

abbreviation scn_state :: "eu_scn_ref \<Rightarrow> Eu_Scn \<Rightarrow> store \<Rightarrow> eu_store \<Rightarrow> eu_store" where
  "scn_state s x st es \<equiv> eu_put_scn s x (es\<lparr>eu_mach := st\<rparr>)"

lemma elf_with_sel [simp]:
  "ee_kind (elf_with s x elf) = ee_kind elf" "ee_class (elf_with s x elf) = ee_class elf"
  "ee_ehdr (elf_with s x elf) = ee_ehdr elf" "ee_map_address (elf_with s x elf) = ee_map_address elf"
  "elf_with s x (elf_with s y elf) = elf_with s x elf"
  "eu_data_type (elf_with s x elf) = eu_data_type elf"
  by (simp_all add: elf_with_def set_block_scn_twice fun_eq_iff eu_data_type_def)

lemma scn_state_twice [simp]:
  "eu_put_scn s y (eu_put_scn s x es) = eu_put_scn s y es"
  "(eu_put_scn s x es)\<lparr>eu_mach := st\<rparr> = eu_put_scn s x (es\<lparr>eu_mach := st\<rparr>)"
  "eu_libelf_version (eu_put_scn s x es) = eu_libelf_version es"
  by (auto simp: eu_put_scn_def eu_put_elf_def split: prod.split option.split)

lemma open_put:
  assumes "eu_open_scn s scn elf es" "sc_elf x = sc_elf scn"
  shows "eu_open_scn s x (elf_with s x elf) (eu_put_scn s x es)"
proof -
  obtain e k i where s: "s = (e, k, i)" by (cases s)
  show ?thesis
    using assms
    by (auto simp: s eu_open_scn_def eu_scn_put_scn elf_with_def) (auto simp: eu_put_scn_elf eu_put_elf_def set_block_scn_def)
qed

lemma open_scnD:
  assumes "eu_open_scn s scn elf es"
  shows "eu_scn s es = Some scn" "sc_elf scn = Some (fst s)" "eu_elfs es (fst s) = Some elf" "ee_kind elf = ELF_K_ELF"
  using assms by (simp_all add: eu_open_scn_def)

section \<open>Releasing the old data\<close>

text \<open>What \<open>__libelf_reset_rawdata\<close> frees.\<close>

definition release_data :: "Eu_Scn \<Rightarrow> Eu_Elf \<Rightarrow> store \<Rightarrow> store option" where
  "release_data scn elf st =
     do { st \<leftarrow> (if sc_data_base scn \<noteq> sc_rawdata_base scn then free_ptr (sc_data_base scn) st else Some st);
          if ee_map_address elf = None \<or> sc_rawdata_base scn = sc_zdata_base scn \<or> sc_flags scn AND EU_F_MALLOCED \<noteq> 0
          then free_ptr (sc_rawdata_base scn) st else Some st }"

text \<open>The second store has all the blocks of the first and loses only such blocks.\<close>

definition frees_only :: "store \<Rightarrow> store \<Rightarrow> store \<Rightarrow> bool" where
  "frees_only st0 st st' \<longleftrightarrow> (\<forall>b. mem st0 b = None \<longrightarrow> mem st' b = mem st b)
     \<and> fresh st' = fresh st \<and> oom st' = oom st \<and> globals st' = globals st \<and> (fresh_mem st \<longrightarrow> fresh_mem st')"

lemma frees_only_refl: "frees_only st0 st st"
  by (simp add: frees_only_def)

lemma free_ptr_again:
  assumes "free_ptr p st0 = Some st0'" "mem st0 \<subseteq>\<^sub>m mem st"
  shows "\<exists>st'. free_ptr p st = Some st' \<and> frees_only st0 st st' \<and> mem st0' \<subseteq>\<^sub>m mem st'"
proof (cases p)
  case None
  then show ?thesis using assms by (simp add: free_ptr_def frees_only_refl)
next
  case (Some a)
  obtain b off where a: "a = (b, off)" by (cases a)
  have z: "off = 0" "mem st0 b \<noteq> None" "st0' = st0\<lparr>mem := (mem st0)(b := None)\<rparr>"
    using assms(1) by (auto simp: free_ptr_def Some a assert_that_def split: option.splits if_splits)
  then obtain X where "mem st b = Some X" using assms(2) by (auto simp: map_le_def dom_def)
  moreover have "(mem st0)(b := None) \<subseteq>\<^sub>m (mem st)(b := None)" using assms(2) by (auto simp: map_le_def dom_def)
  ultimately show ?thesis
    using z by (auto simp: free_ptr_def Some a frees_only_def fresh_mem_def)
qed

lemma frees_only_trans:
  assumes "frees_only st0 st st1" "frees_only st0' st1 st2" "\<And>b. mem st0 b = None \<Longrightarrow> mem st0' b = None"
  shows "frees_only st0 st st2"
  using assms by (simp add: frees_only_def)

lemma free_ptr_unused: "free_ptr p st0 = Some st0' \<Longrightarrow> mem st0 b = None \<Longrightarrow> mem st0' b = None"
  by (auto simp: free_ptr_def assert_that_def split: option.splits prod.splits if_splits)

lemma release_again:
  assumes "release_data scn elf st0 \<noteq> None" "mem st0 \<subseteq>\<^sub>m mem st"
  shows "\<exists>st'. release_data scn elf st = Some st' \<and> frees_only st0 st st'"
proof -
  obtain st1 where old1: "(if sc_data_base scn \<noteq> sc_rawdata_base scn then free_ptr (sc_data_base scn) st0 else Some st0) = Some st1"
    using assms(1) by (cases "if sc_data_base scn \<noteq> sc_rawdata_base scn then free_ptr (sc_data_base scn) st0 else Some st0")
      (simp_all add: release_data_def)
  then obtain st1' where rel1: "(if sc_data_base scn \<noteq> sc_rawdata_base scn then free_ptr (sc_data_base scn) st else Some st) = Some st1'"
      "frees_only st0 st st1'" "mem st1 \<subseteq>\<^sub>m mem st1'"
    using free_ptr_again [OF _ assms(2)] assms(2) frees_only_refl by (metis option.inject)
  have u: "mem st0 b = None \<Longrightarrow> mem st1 b = None" for b
    using old1 free_ptr_unused by (auto split: if_splits)
  let ?c = "ee_map_address elf = None \<or> sc_rawdata_base scn = sc_zdata_base scn \<or> sc_flags scn AND EU_F_MALLOCED \<noteq> 0"
  obtain st2 where old2: "(if ?c then free_ptr (sc_rawdata_base scn) st1 else Some st1) = Some st2"
    using assms(1) unfolding release_data_def old1 by auto
  then obtain st2' where rel2: "(if ?c then free_ptr (sc_rawdata_base scn) st1' else Some st1') = Some st2'" "frees_only st1 st1' st2'"
    using free_ptr_again [OF _ rel1(3)] frees_only_refl by metis
  have "release_data scn elf st = Some st2'" unfolding release_data_def rel1(1) using rel2(1) by simp
  moreover have "frees_only st0 st st2'" using frees_only_trans [OF rel1(2) rel2(2) u] .
  ultimately show ?thesis by blast
qed

section \<open>The new data\<close>

text \<open>The section with the bytes at \<open>buf\<close>, of which \<open>p\<close> is the aligned copy.\<close>

definition reset_scn :: "u32 \<Rightarrow> eu_scn_ref \<Rightarrow> ptr \<Rightarrow> ptr \<Rightarrow> u64 \<Rightarrow> u64 \<Rightarrow> int \<Rightarrow> Eu_Scn \<Rightarrow> Eu_Scn" where
  "reset_scn v s buf p n align t x =
     (let raw = (sc_rawdata x)\<lparr>d_off := 0, d_version := v, d_buf := buf, d_size := n, d_align := align, d_type := t\<rparr>
      in set_first_data (raw\<lparr>d_buf := p\<rparr>) (Some s)
           (x\<lparr>sc_rawdata := raw, sc_data_base := p, sc_rawdata_base := buf, sc_data_read := True, sc_data_rear := Some 0,
             sc_flags := sc_flags x OR EU_F_MALLOCED OR EU_F_FILEDATA\<rparr>))"

lemma set_first_data_sel [simp]:
  "sc_shdr (set_first_data d r x) = sc_shdr x" "sc_elf (set_first_data d r x) = sc_elf x"
  "sc_zdata_base (set_first_data d r x) = sc_zdata_base x" "sc_zdata_size (set_first_data d r x) = sc_zdata_size x"
  "sc_zdata_align (set_first_data d r x) = sc_zdata_align x" "sc_data_base (set_first_data d r x) = sc_data_base x"
  "sc_rawdata_base (set_first_data d r x) = sc_rawdata_base x" "sc_data_read (set_first_data d r x) = sc_data_read x"
  "sc_data_rear (set_first_data d r x) = sc_data_rear x" "sc_flags (set_first_data d r x) = sc_flags x"
  "sc_data_list (set_first_data d r x) \<noteq> []"
  "dn_data (sc_data_list (set_first_data d r x) ! 0) = d" "dn_scn (sc_data_list (set_first_data d r x) ! 0) = r"
  by (simp_all add: set_first_data_def split: list.split)

lemma reset_scn_sel [simp]:
  "sc_shdr (reset_scn v s buf p n align t x) = sc_shdr x" "sc_elf (reset_scn v s buf p n align t x) = sc_elf x"
  "sc_zdata_base (reset_scn v s buf p n align t x) = sc_zdata_base x"
  "sc_data_base (reset_scn v s buf p n align t x) = p" "sc_rawdata_base (reset_scn v s buf p n align t x) = buf"
  "sc_data_read (reset_scn v s buf p n align t x)" "sc_data_rear (reset_scn v s buf p n align t x) = Some 0"
  "sc_flags (reset_scn v s buf p n align t x) AND EU_F_MALLOCED = EU_F_MALLOCED"
  "sc_data_list (reset_scn v s buf p n align t x) \<noteq> []"
  "dn_scn (sc_data_list (reset_scn v s buf p n align t x) ! 0) = Some s"
  "d_buf (dn_data (sc_data_list (reset_scn v s buf p n align t x) ! 0)) = p"
  "d_size (dn_data (sc_data_list (reset_scn v s buf p n align t x) ! 0)) = n"
  "d_type (dn_data (sc_data_list (reset_scn v s buf p n align t x) ! 0)) = t"
  by (simp_all add: reset_scn_def Let_def bit.conj_disj_distrib2)

lemma reset_rawdata_native:
  assumes op: "eu_open_scn s x elf es" and eh: "ee_ehdr elf = Some eh" "data_matches eh (eu_mach es)"
    and free: "release_data x elf (eu_mach es) = Some st" and st: "fresh_mem st" "oom st = []" "globals st = globals (eu_mach es)"
    and buf: "read_bytes buf (unat n) st = Some bs" "n \<noteq> 0"
  shows "\<exists>p st'. libelf_reset_rawdata fuel s buf n align t es
      = Returned (scn_state s (reset_scn (eu_libelf_version es) s buf p n align t x) st' es)
    \<and> keeps st st' \<and> read_bytes p (unat n) st' = Some bs \<and> (p \<noteq> buf \<longrightarrow> (\<exists>b. p = Some (b, 0) \<and> mem st b = None))"
proof -
  have order: "data_matches eh st" using eh(2) st(3) by (simp add: data_matches_def)
  define raw where "raw = (sc_rawdata x)\<lparr>d_off := 0, d_version := eu_libelf_version es, d_buf := buf, d_size := n, d_align := align, d_type := t\<rparr>"
  define x1 where "x1 = x\<lparr>sc_rawdata := raw, sc_data_rear := None, sc_data_base := None, sc_rawdata_base := buf,
      sc_data_read := True, sc_flags := sc_flags x OR EU_F_MALLOCED OR EU_F_FILEDATA\<rparr>"
  obtain p st' where p: "eu_aligned_source buf (eu_type_align (ee_class elf) t) (unat n) st = Some (True, p, st')"
      "keeps st st'" "read_bytes p (unat n) st' = Some bs" "p \<noteq> buf \<longrightarrow> (\<exists>b. p = Some (b, 0) \<and> mem st b = None)"
    using aligned_source_reads [OF buf(1) st(1,2)] by blast
  have op1: "eu_open_scn s x1 (elf_with s x1 elf) (scn_state s x1 st es)"
    by (rule open_put) (use op in \<open>simp_all add: x1_def\<close>)
  have "buf \<noteq> None" using read_bytesE [OF buf(1)] by blast
  then have b: "d_buf (sc_rawdata x1) \<noteq> None" "0 < d_size (sc_rawdata x1)"
    using buf(2) by (simp_all add: x1_def raw_def word_gt_0)
  have "eu_convert_data fuel (elf_with s x1 elf) x1 st = Returned (True, p, st')"
    using eh(1) order p(1) by (simp add: eu_convert_data_def x1_def raw_def)
  then have "eu_set_data_list fuel s (scn_state s x1 st es)
      = Returned (scn_state s (set_first_data (raw\<lparr>d_buf := p\<rparr>) (Some s) (x1\<lparr>sc_data_base := p\<rparr>)\<lparr>sc_data_rear := Some 0\<rparr>) st' es)"
    using open_scnD [OF op1] b by (simp add: eu_set_data_list_def) (simp add: x1_def)
  moreover have "set_first_data (raw\<lparr>d_buf := p\<rparr>) (Some s) (x1\<lparr>sc_data_base := p\<rparr>)\<lparr>sc_data_rear := Some 0\<rparr>
      = reset_scn (eu_libelf_version es) s buf p n align t x"
    by (simp add: reset_scn_def x1_def raw_def set_first_data_def Let_def cong: list.case_cong)
  moreover have "libelf_reset_rawdata fuel s buf n align t es = eu_set_data_list fuel s (scn_state s x1 st es)"
  proof -
    obtain st1 where "(if sc_data_base x \<noteq> sc_rawdata_base x then free_ptr (sc_data_base x) (eu_mach es) else Some (eu_mach es)) = Some st1"
      using free by (cases "if sc_data_base x \<noteq> sc_rawdata_base x then free_ptr (sc_data_base x) (eu_mach es) else Some (eu_mach es)")
        (simp_all add: release_data_def)
    then show ?thesis
      using open_scnD [OF op] free by (simp add: libelf_reset_rawdata_def release_data_def x1_def raw_def Let_def)
  qed
  ultimately show ?thesis using p(2-4) by metis
qed

section \<open>The header of the section\<close>

lemma ucast_down_up: "unat (x :: u64) < 2 ^ 32 \<Longrightarrow> ucast (ucast x :: u32) = x"
  unfolding word_unat_eq_iff by (simp add: unsigned_ucast_eq unsigned_take_bit_eq take_bit_nat_eq_self)

lemma gshdr_change:
  assumes "shdr_class sh = ELFCLASS32 \<Longrightarrow> unat n < 2 ^ 32 \<and> unat align < 2 ^ 32"
    and "\<And>w :: u32. f (ucast w) = ucast (ucast (f (ucast w)) :: u32)"
  shows "gshdr (change_shdr n align f sh) = (gshdr sh)\<lparr>sh_size := n, sh_addralign := align, sh_flags := f (sh_flags (gshdr sh))\<rparr>"
  using assms by (cases sh) (simp_all add: change_shdr_def gshdr_def shdr_widen_def shdr_class_def ucast_down_up)

lemma shdr_class_change [simp]: "shdr_class (change_shdr n align f sh) = shdr_class sh"
  by (cases sh) (simp_all add: change_shdr_def shdr_class_def)

lemma unat_ucast_up: "unat (ucast (w :: u32) :: u64) = unat w" "unat (w :: u32) < 2 ^ 32"
proof -
  show l: "unat w < 2 ^ 32" by (rule order_less_le_trans [OF unsigned_less]) simp
  show "unat (ucast w :: u64) = unat w" using l by (simp add: unsigned_ucast_eq take_bit_nat_eq_self)
qed

lemma flag_ops:
  "(ucast w :: u64) OR SHF_COMPRESSED = ucast (ucast ((ucast w :: u64) OR SHF_COMPRESSED) :: u32)"
  "(ucast w :: u64) AND NOT SHF_COMPRESSED = ucast (ucast ((ucast w :: u64) AND NOT SHF_COMPRESSED) :: u32)"
  for w :: u32
proof -
  have "(ucast w :: u64) OR SHF_COMPRESSED = ucast (w OR 0x800)" by (simp add: unsigned_or_eq)
  also have "unat \<dots> < 2 ^ 32" unfolding unat_ucast_up(1) by (rule unat_ucast_up(2))
  finally show "(ucast w :: u64) OR SHF_COMPRESSED = ucast (ucast ((ucast w :: u64) OR SHF_COMPRESSED) :: u32)"
    by (simp only: ucast_down_up)
  have "(ucast w :: u64) AND NOT SHF_COMPRESSED \<le> ucast w" by (rule word_and_le2)
  then have "unat ((ucast w :: u64) AND NOT SHF_COMPRESSED) \<le> unat w" by (simp add: word_le_nat_alt unat_ucast_up(1))
  then have "unat ((ucast w :: u64) AND NOT SHF_COMPRESSED) < 2 ^ 32" using unat_ucast_up(2) [of w] by simp
  then show "(ucast w :: u64) AND NOT SHF_COMPRESSED = ucast (ucast ((ucast w :: u64) AND NOT SHF_COMPRESSED) :: u32)"
    by (simp only: ucast_down_up)
qed

lemma getshdr_loaded:
  assumes "eu_open_scn s x elf es" "ee_ehdr elf = Some eh" "sc_shdr x = Some sh" "ec = ee_class elf"
  shows "eu_getshdr pr unaligned ec (Some s) es = Some (Some sh, es)"
    "eu_change_shdr pr unaligned ec s f es = Some (eu_put_scn s (x\<lparr>sc_shdr := Some (f sh)\<rparr>) es)"
  using assms by (simp_all add: eu_open_scn_def eu_getshdr_def eu_change_shdr_def)

lemma gelf_getehdr_loaded:
  assumes "eu_elfs es e = Some elf" "ee_kind elf = ELF_K_ELF" "ee_ehdr elf = Some eh" "ehdr_class eh = ee_class elf"
  shows "\<exists>g. eu_gelf_getehdr (Some e) es = Some (Some g, es) \<and> eh_ident g = ehdr_ident eh"
  using assms by (cases eh) (auto simp: eu_gelf_getehdr_def ehdr_class_def ehdr_widen_def ehdr_ident_def)

lemma compress_checks_pass:
  assumes op: "eu_open_scn s x elf es" and eh: "ee_ehdr elf = Some eh" "ehdr_class eh = ee_class elf" "data_matches eh (eu_mach es)"
    and sh: "sc_shdr x = Some shdr" "sh = gshdr shdr" and ec: "std_class (ee_class elf)"
    and flags: "flags AND NOT ELF_CHF_FORCE = 0" "sh_flags sh AND bad = 0" "sh_type sh \<noteq> SHT_NULL" "sh_type sh \<noteq> SHT_NOBITS"
  shows "compress_checks pr unaligned s flags bad es = Some (Some (ee_class elf, host_order (eu_mach es), elf, sh), es)"
proof -
  obtain g where "eu_gelf_getehdr (Some (fst s)) es = Some (Some g, es)" "eh_ident g = ehdr_ident eh"
    using gelf_getehdr_loaded eu_open_scn_def op eh by blast
  moreover have "(if ee_class elf = ELFCLASS32 then ELFCLASS32 else ELFCLASS64) = ee_class elf" using ec by (auto simp: std_class_def)
  moreover have "ucast (ehdr_ident eh ! EI_DATA) = host_order (eu_mach es)" using eh(3) by (simp add: data_matches_def)
  ultimately show ?thesis
    using open_scnD [OF op] getshdr_loaded(1) [OF op eh(1) sh(1) refl] flags sh(2)
    by (simp add: compress_checks_def Let_def split del: if_split)
qed

section \<open>The compression header\<close>

lemma length_chdr_bytes: "std_class ec \<Longrightarrow> length (chdr_bytes ec o' o' n a) = unat (chdr_size ec)"
  by (auto simp: chdr_bytes_def chdr_size_def std_class_def)

lemma chdr_struct:
  "struct_size ELFCLASS32 (chdr_layout ELFCLASS32) = 12" "struct_size ELFCLASS64 (chdr_layout ELFCLASS64) = 24"
  "member_offsets ELFCLASS32 0 (chdr_layout ELFCLASS32) = [0, 4, 8]"
  "member_offsets ELFCLASS64 0 (chdr_layout ELFCLASS64) = [0, 4, 8, 16]"
  by code_simp+

lemma read_chdr_bytes:
  assumes "std_class ec" "read_bytes p (unat (chdr_size ec) + k) st = Some (chdr_bytes ec (host_order st) (host_order st) n a @ out)"
    and "ec = ELFCLASS32 \<Longrightarrow> unat n < 2 ^ 32 \<and> unat a < 2 ^ 32"
  shows "read_chdr ec p st = Some \<lparr>ch_type = ELFCOMPRESS_ZLIB, ch_size = n, ch_addralign = a\<rparr>"
proof -
  obtain b off X where p: "p = Some (b, off)" "mem st b = Some X" "off + (unat (chdr_size ec) + k) \<le> length X"
      "chdr_bytes ec (host_order st) (host_order st) n a @ out = segment off (unat (chdr_size ec) + k) X"
    using read_bytesE [OF assms(2)] .
  have "segment off (unat (chdr_size ec)) X = take (unat (chdr_size ec)) (segment off (unat (chdr_size ec) + k) X)"
    by (simp add: segment_def min_absorb1)
  also have "\<dots> = chdr_bytes ec (host_order st) (host_order st) n a"
    unfolding p(4) [symmetric] using length_chdr_bytes [OF assms(1)] by simp
  finally have r: "read_bytes p (unat (chdr_size ec)) st = Some (chdr_bytes ec (host_order st) (host_order st) n a)"
    using p(1-3) by (simp add: segment_def)
  consider "ec = ELFCLASS32" | "ec = ELFCLASS64" using assms(1) by (auto simp: std_class_def)
  then show ?thesis
  proof cases
    case 1
    have "load_struct ec (chdr_layout ec) p st
        = Some [native_bytes (host_order st) 4 (1 :: u32), native_bytes (host_order st) 4 (ucast n :: u32), native_bytes (host_order st) 4 (ucast a :: u32)]"
      using r by (simp add: 1 load_struct_def chdr_struct chdr_size_def)
        (simp add: chdr_layout_def Elf32_Chdr_DEF_def chdr_bytes_def)
    then show ?thesis using assms(3) 1 by (simp add: read_chdr_def native_val_bytes ucast_down_up Let_def)
  next
    case 2
    have "load_struct ec (chdr_layout ec) p st
        = Some [native_bytes (host_order st) 4 (1 :: u32), native_bytes (host_order st) 4 (0 :: u32), native_bytes (host_order st) 8 n, native_bytes (host_order st) 8 a]"
      using r by (simp add: 2 load_struct_def chdr_struct chdr_size_def)
        (simp add: chdr_layout_def Elf64_Chdr_DEF_def chdr_bytes_def)
    then show ?thesis using 2 by (simp add: read_chdr_def native_val_bytes Let_def)
  qed
qed

section \<open>Decompressing\<close>

lemma libelf_decompress_ends:
  assumes z: "zlib_ok z" "inflates z out bs" and len: "length bs < 2 ^ 32" "length out < 2 ^ 32"
    and q: "read_bytes q (length out) (eu_mach es) = Some out" and st: "fresh_mem (eu_mach es)" "oom (eu_mach es) = []"
  shows "libelf_decompress z q (of_nat (length out)) (of_nat (length bs)) es
    = Some (Some (fresh (eu_mach es), 0), es\<lparr>eu_mach := (eu_mach es)\<lparr>mem := (mem (eu_mach es))(fresh (eu_mach es) \<mapsto> bs),
        fresh := Suc (fresh (eu_mach es))\<rparr>\<rparr>)"
proof -
  let ?st = "eu_mach es" and ?n = "length bs"
  let ?st1 = "?st\<lparr>mem := (mem ?st)(fresh ?st \<mapsto> replicate ?n 0), fresh := Suc (fresh ?st)\<rparr>"
  have un: "unat (of_nat ?n :: u64) = ?n" "unat (of_nat (length out) :: u64) = length out" using len by (simp_all add: unat_of_nat_u64)
  have u: "uInt (of_nat ?n) = ?n" "uInt (of_nat (length out)) = length out" using len un by (simp_all add: uInt_small)
  have ok: "out \<noteq> []" "?n div 1032 \<le> length out" "z_inflate z out ?n = (Z_STREAM_END, length out, bs)"
    "z_inflate_init z = Z_OK" "z_inflate_reset z = Z_OK" "z_inflate_end z = Z_OK"
    using z by (simp_all add: zlib_ok_def inflates_def)
  have small: "\<not> (of_nat (length out) :: u64) < of_nat ?n div 1032"
    using ok(2) un by (simp add: word_less_nat_alt unat_div)
  have "keeps ?st ?st1" using st by (rule keeps_new)
  then have "read_bytes q (length out) ?st1 = Some out" using keeps_read q by blast
  moreover have "inflate_streams z (z_inflate_init z) out [] ?n = Some (Z_OK, bs, 0)"
    using ok by (simp add: inflate_streams.simps [of z _ out] inflate_streams.simps [of z _ "[]"])
  moreover have "put_at 0 bs (replicate ?n 0) = bs" by (simp add: put_at_def)
  ultimately show ?thesis
    using ok(1,6) small by (simp add: libelf_decompress_def malloc_fresh [OF st(2)] u un ptr_off_def)
qed

section \<open>There\<close>

text \<open>A section that can be compressed: in the byte order of the host, loaded or made by the program.\<close>

definition eu_native :: "Eu_Elf \<Rightarrow> store \<Rightarrow> bool" where
  "eu_native elf st \<longleftrightarrow> std_class (ee_class elf)
     \<and> (\<exists>eh. ee_ehdr elf = Some eh \<and> ehdr_class eh = ee_class elf \<and> data_matches eh st)"

definition eu_compressible :: "eu_scn_ref \<Rightarrow> Eu_Scn \<Rightarrow> Eu_Elf \<Rightarrow> Shdr \<Rightarrow> byte list list \<Rightarrow> eu_store \<Rightarrow> bool" where
  "eu_compressible s scn elf shdr bss es \<longleftrightarrow>
     eu_open_scn s scn elf es \<and> eu_holds_data s scn bss (eu_mach es) \<and> release_data scn elf (eu_mach es) \<noteq> None
     \<and> eu_native elf (eu_mach es) \<and> sc_shdr scn = Some shdr \<and> shdr_class shdr = ee_class elf
     \<and> sh_flags (gshdr shdr) AND SHF_ALLOC = 0 \<and> sh_flags (gshdr shdr) AND SHF_COMPRESSED = 0
     \<and> sh_type (gshdr shdr) \<noteq> SHT_NULL \<and> sh_type (gshdr shdr) \<noteq> SHT_NOBITS
     \<and> length (concat bss) < 2 ^ 30 \<and> fresh_mem (eu_mach es) \<and> oom (eu_mach es) = []"

text \<open>The alignment that the header stores.\<close>

definition kept_align :: "Eu_Scn \<Rightarrow> Eu_Elf \<Rightarrow> Shdr \<Rightarrow> u64" where
  "kept_align scn elf shdr = (if ee_class elf = ELFCLASS32 then data_align (sc_data_list scn) else sh_addralign (gshdr shdr))"

text \<open>A section whose data is \<open>bs\<close> at \<open>p\<close>, in memory that is its own.\<close>

definition holds_own :: "eu_scn_ref \<Rightarrow> Eu_Scn \<Rightarrow> byte list \<Rightarrow> store \<Rightarrow> bool" where
  "holds_own s x bs st \<longleftrightarrow>
     sc_data_read x \<and> sc_data_rear x \<noteq> None \<and> sc_data_list x \<noteq> [] \<and> dn_scn (sc_data_list x ! 0) = Some s
     \<and> d_size (dn_data (sc_data_list x ! 0)) = of_nat (length bs) \<and> length bs < 2 ^ 32
     \<and> read_bytes (d_buf (dn_data (sc_data_list x ! 0))) (length bs) st = Some bs
     \<and> sc_data_base x = d_buf (dn_data (sc_data_list x ! 0)) \<and> sc_flags x AND EU_F_MALLOCED \<noteq> 0
     \<and> (\<exists>b. sc_rawdata_base x = Some (b, 0) \<and> mem st b \<noteq> None \<and> (sc_data_base x \<noteq> Some (b, 0) \<longrightarrow> (\<exists>c. c \<noteq> b \<and> sc_data_base x = Some (c, 0))))"

lemma out_holds_header:
  assumes "out_holds st0 h out ob st" "length pre = h"
  shows "\<exists>b st'. ob_buf ob = Some (b, 0) \<and> mem st0 b = None \<and> write_bytes (ob_buf ob) pre st = Some st' \<and> keeps st0 st'
    \<and> mem st' b \<noteq> None \<and> read_bytes (ob_buf ob) (h + length out) st' = Some (pre @ out)"
proof -
  obtain b X where b: "ob_buf ob = Some (b, 0)" "mem st0 b = None" "mem st b = Some X"
      "h + length out \<le> length X" "segment h (length out) X = out" and k: "keeps st0 st"
    using assms(1) by (auto simp: out_holds_def)
  have "keeps st0 (st\<lparr>mem := (mem st)(b \<mapsto> put_at 0 pre X)\<rparr>)"
    using k b(2,3) by (auto simp: keeps_def fresh_mem_def map_le_def dom_def)
  moreover have "take (h + length out) (put_at 0 pre X) = pre @ out"
    using b(4,5) assms(2) by (simp add: put_at_def segment_def)
  moreover have "length (put_at 0 pre X) = length X" using b(4) assms(2) by simp
  ultimately show ?thesis using b assms(2) by auto
qed

lemma holds_own_reset:
  assumes "keeps st st'" "mem st b \<noteq> None" "length bs < 2 ^ 32" "read_bytes p (length bs) st' = Some bs" "n = of_nat (length bs)"
    and "p \<noteq> Some (b, 0) \<longrightarrow> (\<exists>c. p = Some (c, 0) \<and> mem st c = None)"
  shows "holds_own s (reset_scn v s (Some (b, 0)) p n align t x) bs st'"
  using assms keeps_mem [OF assms(1)] by (fastforce simp: holds_own_def)

text \<open>The section that \<open>elf_compress\<close> leaves.\<close>

definition compressed_scn :: "u32 \<Rightarrow> eu_scn_ref \<Rightarrow> int \<Rightarrow> Shdr \<Rightarrow> ptr \<Rightarrow> ptr \<Rightarrow> u64 \<Rightarrow> Eu_Scn \<Rightarrow> Eu_Scn" where
  "compressed_scn v s ec shdr b p n scn =
     (reset_scn v s b p n 1 EU_T_CHDR
        (scn\<lparr>sc_shdr := Some (change_shdr n (of_nat (eu_type_align ec EU_T_CHDR)) (\<lambda>f. f OR SHF_COMPRESSED) shdr)\<rparr>))
     \<lparr>sc_zdata_base := None\<rparr>"

abbreviation ready_mem :: "store \<Rightarrow> store \<Rightarrow> bool" where
  "ready_mem st0 st \<equiv> fresh_mem st \<and> oom st = [] \<and> globals st = globals st0"

lemma compress_step:
  assumes z: "zlib_ok z" and c: "eu_compressible s scn elf shdr bss es"
    and fuel: "length bss + deflate_bound (length (concat bss)) < fuel"
  shows "\<exists>b p out st n y. eu_elf_compress fuel z pr unaligned (Some s) 1 1 es = Returned (1, scn_state s y st es)
    \<and> y = compressed_scn (eu_libelf_version es) s (ee_class elf) shdr b p n scn
    \<and> ready_mem (eu_mach es) st \<and> inflates z out (concat bss) \<and> unat n = unat (chdr_size (ee_class elf)) + length out \<and> unat n < 2 ^ 32
    \<and> holds_own s y (chdr_bytes (ee_class elf) (host_order st) (host_order st) (of_nat (length (concat bss))) (kept_align scn elf shdr) @ out) st"
proof -
  note c = c [unfolded eu_compressible_def] and op = conjunct1 [OF c [unfolded eu_compressible_def]]
  let ?st0 = "eu_mach es" and ?N = "length (concat bss)" and ?ec = "ee_class elf" and ?h = "unat (chdr_size (ee_class elf))"
  let ?o = "host_order (eu_mach es)"
  obtain eh where eh: "ee_ehdr elf = Some eh" "ehdr_class eh = ?ec" "data_matches eh ?st0" and std: "std_class ?ec"
    using c by (auto simp: eu_native_def)
  have checks: "compress_checks pr unaligned s 1 SHF_ALLOC es = Some (Some (?ec, ?o, elf, gshdr shdr), es)"
    by (rule compress_checks_pass [OF op eh _ refl std]) (use c in simp_all)
  have h: "0 < chdr_size ?ec" "?h \<le> 24" by (simp_all add: chdr_size_def)
  obtain out ob st1 where l: "libelf_compress fuel z pr unaligned s (chdr_size ?ec) ?o True es
        = Returned (Compressed (ob_buf ob) (of_nat ?N) (data_align (sc_data_list scn)) (ob_used ob), es\<lparr>eu_mach := st1\<rparr>)"
      "out_holds ?st0 ?h out ob st1" "inflates z out (concat bss)" "unat (ob_used ob) \<le> ?h + deflate_bound ?N"
    using libelf_compress_ends [OF z op _ refl _ h refl _ _ fuel, of pr unaligned] c by auto
  define n where "n = ob_used ob"
  have n: "unat n = ?h + length out" using l(2) by (auto simp: n_def out_holds_def)
  have n32: "unat n < 2 ^ 32" using l(4) h(2) c by (simp add: n_def deflate_bound_def)
  define pre where "pre = chdr_bytes ?ec ?o ?o (of_nat ?N) (kept_align scn elf shdr)"
  have pre: "length pre = ?h" unfolding pre_def by (rule length_chdr_bytes [OF std])
  obtain b st2 where w: "ob_buf ob = Some (b, 0)" "mem ?st0 b = None" "write_bytes (ob_buf ob) pre st1 = Some st2" "keeps ?st0 st2"
      "mem st2 b \<noteq> None" "read_bytes (ob_buf ob) (?h + length out) st2 = Some (pre @ out)"
    using out_holds_header [OF l(2) pre] by blast
  define x where "x = scn\<lparr>sc_shdr := Some (change_shdr n (of_nat (eu_type_align ?ec EU_T_CHDR)) (\<lambda>f. f OR SHF_COMPRESSED) shdr)\<rparr>"
  have change: "eu_change_shdr pr unaligned ?ec s (change_shdr n (of_nat (eu_type_align ?ec EU_T_CHDR)) (\<lambda>f. f OR SHF_COMPRESSED))
      (es\<lparr>eu_mach := st2\<rparr>) = Some (scn_state s x st2 es)"
    using getshdr_loaded(2) [of s scn elf "es\<lparr>eu_mach := st2\<rparr>"] op eh(1) c by (simp add: x_def)
  have opx: "eu_open_scn s x (elf_with s x elf) (scn_state s x st2 es)"
    by (rule open_put) (use op in \<open>simp_all add: x_def\<close>)
  have "mem ?st0 \<subseteq>\<^sub>m mem st2" using w(4) by (simp add: keeps_def)
  moreover have "release_data x (elf_with s x elf) = release_data scn elf" by (simp add: fun_eq_iff release_data_def x_def cong: if_cong)
  ultimately obtain st3 where free: "release_data x (elf_with s x elf) st2 = Some st3" "frees_only ?st0 st2 st3"
    using release_again [of scn elf ?st0 st2] c by auto
  have st3: "fresh_mem st3" "oom st3 = []" "globals st3 = globals st2" "globals st3 = globals ?st0" "mem st3 b = mem st2 b"
    using free(2) w(2,4) by (auto simp: frees_only_def keeps_def)
  have read3: "read_bytes (Some (b, 0)) (unat n) st3 = Some (pre @ out)"
    using w(1,6) n st3(5) by simp
  have "n \<noteq> 0" using n h(1) by (auto simp: word_less_nat_alt)
  then obtain p st where r: "libelf_reset_rawdata fuel s (Some (b, 0)) n 1 EU_T_CHDR (scn_state s x st2 es)
        = Returned (scn_state s (reset_scn (eu_libelf_version es) s (Some (b, 0)) p n 1 EU_T_CHDR x) st es)"
      "keeps st3 st" "read_bytes p (unat n) st = Some (pre @ out)" "p \<noteq> Some (b, 0) \<longrightarrow> (\<exists>c. p = Some (c, 0) \<and> mem st3 c = None)"
    using reset_rawdata_native [OF opx, of eh st3 "Some (b, 0)" n "pre @ out" fuel 1 EU_T_CHDR] eh(1,3) free(1) st3(1-3) read3 w(4)
    by (auto simp: data_matches_def keeps_def)
  define y where "y = compressed_scn (eu_libelf_version es) s ?ec shdr (Some (b, 0)) p n scn"
  have y: "y = (reset_scn (eu_libelf_version es) s (Some (b, 0)) p n 1 EU_T_CHDR x)\<lparr>sc_zdata_base := None\<rparr>"
    by (simp add: y_def compressed_scn_def x_def)
  have opr: "eu_open_scn s (reset_scn (eu_libelf_version es) s (Some (b, 0)) p n 1 EU_T_CHDR x)
      (elf_with s (reset_scn (eu_libelf_version es) s (Some (b, 0)) p n 1 EU_T_CHDR x) elf)
      (scn_state s (reset_scn (eu_libelf_version es) s (Some (b, 0)) p n 1 EU_T_CHDR x) st es)"
    by (rule open_put) (use op in \<open>simp_all add: x_def\<close>)
  have len: "length (pre @ out) = unat n" using pre n by simp
  have "holds_own s (reset_scn (eu_libelf_version es) s (Some (b, 0)) p n 1 EU_T_CHDR x) (pre @ out) st"
    by (rule holds_own_reset [OF r(2)]) (use w(5) st3(5) len n32 r(3,4) in \<open>simp_all del: length_append\<close>)
  then have "holds_own s y (pre @ out) st" by (simp add: y holds_own_def)
  moreover have "eu_elf_compress fuel z pr unaligned (Some s) 1 1 es = Returned (1, scn_state s y st es)"
  proof -
    have "host_order st1 = ?o" using l(2) keepsD(3) by (auto simp: out_holds_def)
    then have pre': "chdr_bytes ?ec (host_order st1) ?o (of_nat ?N)
        (if ?ec = ELFCLASS32 then data_align (sc_data_list scn) else sh_addralign (gshdr shdr)) = pre"
      by (simp add: pre_def kept_align_def)
    have zdata: "set_zdata s None (scn_state s (reset_scn (eu_libelf_version es) s (Some (b, 0)) p n 1 EU_T_CHDR x) st es)
        = Some (scn_state s y st es)"
      using open_scnD(1) [OF opr] by (simp add: set_zdata_def y)
    have no: "sh_flags (gshdr shdr) AND SHF_COMPRESSED = 0" using c by simp
    show ?thesis
      by (simp add: eu_elf_compress_def checks no l(1) n_def [symmetric] pre' w(3) change r(1) [folded w(1)] zdata Let_def split del: if_split)
        (simp add: w(1) r(1) zdata)
  qed
  moreover have "globals st = globals ?st0" using st3(4) r(2) by (simp add: keeps_def)
  ultimately show ?thesis
    using l(3) n n32 keepsD(1,2) [OF r(2)] unfolding pre_def y_def by metis
qed

section \<open>And back\<close>

lemma release_own:
  assumes "holds_own s x bs st"
  shows "release_data x elf st \<noteq> None"
proof -
  obtain b where b: "sc_rawdata_base x = Some (b, 0)" "mem st b \<noteq> None"
      "sc_data_base x \<noteq> Some (b, 0) \<longrightarrow> (\<exists>c. c \<noteq> b \<and> sc_data_base x = Some (c, 0))"
    and r: "read_bytes (sc_data_base x) (length bs) st = Some bs"
    using assms unfolding holds_own_def by metis
  show ?thesis
  proof (cases "sc_data_base x = Some (b, 0)")
    case True
    then show ?thesis using b by (auto simp: release_data_def free_ptr_def assert_that_def)
  next
    case False
    then obtain c where "c \<noteq> b" "sc_data_base x = Some (c, 0)" using b(3) by blast
    then show ?thesis using b r by (auto simp: release_data_def free_ptr_def assert_that_def split: option.splits)
  qed
qed

lemma own_first:
  assumes "holds_own s x bs st"
  shows "eu_scn s es = Some x \<Longrightarrow> eu_data (ListData s 0) es = Some (dn_data (sc_data_list x ! 0), Some s)"
  using assms by (simp add: holds_own_def eu_data_def)

lemma decompress_step:
  assumes z: "zlib_ok z" "inflates z out bs" and op: "eu_open_scn s y elf es" and nat: "eu_native elf (eu_mach es)"
    and sh: "sc_shdr y = Some shdr" "shdr_class shdr = ee_class elf" "sh = gshdr shdr" "sh_flags sh AND SHF_ALLOC = 0"
      "sh_flags sh AND SHF_COMPRESSED \<noteq> 0" "sh_type sh \<noteq> SHT_NULL" "sh_type sh \<noteq> SHT_NOBITS"
    and own: "holds_own s y (chdr_bytes (ee_class elf) (host_order (eu_mach es)) (host_order (eu_mach es)) (of_nat (length bs)) A @ out) (eu_mach es)"
    and zd: "sc_zdata_base y = None" and bs: "bs \<noteq> []" "length bs < 2 ^ 30"
    and A: "powerof2 A" "ee_class elf = ELFCLASS32 \<Longrightarrow> unat A < 2 ^ 32" "eu_data_type elf (sh_type sh) A = Some t"
    and st: "fresh_mem (eu_mach es)" "oom (eu_mach es) = []"
  shows "\<exists>y' st'. eu_elf_compress fuel z pr unaligned (Some s) 0 0 es = Returned (1, scn_state s y' st' es)
    \<and> sc_shdr y' = Some (change_shdr (of_nat (length bs)) A (\<lambda>f. f AND NOT SHF_COMPRESSED) shdr)
    \<and> sc_elf y' = sc_elf y \<and> holds_own s y' bs st' \<and> d_type (dn_data (sc_data_list y' ! 0)) = t \<and> ready_mem (eu_mach es) st'"
proof -
  let ?st0 = "eu_mach es" and ?ec = "ee_class elf" and ?N = "of_nat (length bs) :: u64" and ?h = "unat (chdr_size (ee_class elf))"
  let ?o = "host_order (eu_mach es)" and ?d = "dn_data (sc_data_list y ! 0)"
  obtain eh where eh: "ee_ehdr elf = Some eh" "ehdr_class eh = ?ec" "data_matches eh ?st0" and std: "std_class ?ec"
    using nat by (auto simp: eu_native_def)
  have cl: "(if ?ec = ELFCLASS32 then ELFCLASS32 else ELFCLASS64) = ?ec" using std by (auto simp: std_class_def)
  have checks: "compress_checks pr unaligned s 0 SHF_ALLOC es = Some (Some (?ec, ?o, elf, sh), es)"
    by (rule compress_checks_pass [OF op eh sh(1,3) std]) (use sh in simp_all)
  define pre where "pre = chdr_bytes ?ec ?o ?o ?N A"
  have pre: "length pre = ?h" unfolding pre_def by (rule length_chdr_bytes [OF std])
  note own' = own [folded pre_def, unfolded holds_own_def]
  have data: "eu_data (ListData s 0) es = Some (?d, Some s)" by (rule own_first [OF own open_scnD(1) [OF op]])
  have getdata: "eu_elf_getdata fuel pr unaligned (Some s) None es = Returned (Some (ListData s 0), es)"
    using getdata_first [OF op] own' by blast
  have len: "length (pre @ out) = ?h + length out" using pre by simp
  have "d_size ?d = of_nat (?h + length out)" and sz32: "?h + length out < 2 ^ 32"
    using own' unfolding len by blast+
  then have sz: "unat (d_size ?d) = ?h + length out" "?h + length out < 2 ^ 32"
    by (simp_all only:) (simp add: unat_of_nat_u64 del: of_nat_add)
  then have "\<not> d_size ?d < chdr_size ?ec" by (simp add: word_less_nat_alt)
  moreover obtain q where buf: "d_buf ?d = Some q" using own' read_bytesE by blast
  ultimately have chdr: "eu_getchdr fuel pr unaligned ?ec (Some s) es = Returned (d_buf ?d, es)"
    using getshdr_loaded(1) [OF op eh(1) sh(1) refl] sh(3-7) getdata data by (simp add: eu_getchdr_def Let_def)
  have r: "read_bytes (d_buf ?d) (?h + length out) ?st0 = Some (pre @ out)" using own' pre by simp
  have N32: "unat ?N < 2 ^ 32" using bs(2) by (simp add: unat_of_nat_u64)
  have "read_chdr ?ec (d_buf ?d) ?st0 = Some \<lparr>ch_type = ELFCOMPRESS_ZLIB, ch_size = ?N, ch_addralign = A\<rparr>"
    using read_chdr_bytes [OF std r [unfolded pre_def]] A(2) N32 by blast
  then have gelf: "eu_gelf_getchdr fuel pr unaligned (Some s) True es
      = Returned (Some \<lparr>ch_type = ELFCOMPRESS_ZLIB, ch_size = ?N, ch_addralign = A\<rparr>, es)"
    using open_scnD [OF op] chdr buf by (simp add: eu_gelf_getchdr_def cl Let_def split del: if_split)
  have "read_bytes (ptr_off (d_buf ?d) ?h) (length out) ?st0 = Some out"
  proof -
    obtain c off X where x: "d_buf ?d = Some (c, off)" "mem ?st0 c = Some X" "off + (?h + length out) \<le> length X"
        "pre @ out = segment off (?h + length out) X"
      using read_bytesE [OF r] .
    have "segment (off + ?h) (length out) X = drop ?h (segment off (?h + length out) X)"
      by (simp add: segment_def drop_take add.commute)
    also have "\<dots> = out" unfolding x(4) [symmetric] using pre by simp
    finally show ?thesis using x(1-3) by (simp add: ptr_off_def segment_def add.assoc)
  qed
  moreover have "d_size ?d - chdr_size ?ec = of_nat (length out)"
    using own' pre by simp
  moreover have "length out < 2 ^ 32" "length bs < 2 ^ 32" using sz(2) bs(2) by simp_all
  ultimately have dec: "libelf_decompress z (ptr_off (d_buf ?d) ?h) (d_size ?d - chdr_size ?ec) ?N es
      = Some (Some (fresh ?st0, 0), es\<lparr>eu_mach := ?st0\<lparr>mem := (mem ?st0)(fresh ?st0 \<mapsto> bs), fresh := Suc (fresh ?st0)\<rparr>\<rparr>)"
    using libelf_decompress_ends [OF z _ _ _ st] by simp
  define st1 where "st1 = ?st0\<lparr>mem := (mem ?st0)(fresh ?st0 \<mapsto> bs), fresh := Suc (fresh ?st0)\<rparr>"
  have elf: "libelf_decompress_elf fuel z pr unaligned s es = Returned ((Some (fresh ?st0, 0), ?N, A), es\<lparr>eu_mach := st1\<rparr>)"
    using gelf A(1) getdata data open_scnD [OF op] dec by (simp add: libelf_decompress_elf_def st1_def)
  define f where "f = fresh ?st0"
  define y1 where "y1 = y\<lparr>sc_zdata_base := Some (f, 0), sc_zdata_size := ?N, sc_zdata_align := A\<rparr>"
  define g where "g = change_shdr ?N A (\<lambda>f. f AND NOT SHF_COMPRESSED)"
  define y2 where "y2 = y1\<lparr>sc_shdr := Some (g shdr)\<rparr>"
  have op1: "eu_open_scn s y1 (elf_with s y1 elf) (scn_state s y1 st1 es)"
    by (rule open_put) (use op in \<open>simp_all add: y1_def\<close>)
  have op2: "eu_open_scn s y2 (elf_with s y2 elf) (scn_state s y2 st1 es)"
    by (rule open_put) (use op in \<open>simp_all add: y2_def y1_def\<close>)
  have change: "eu_change_shdr pr unaligned ?ec s g (scn_state s y1 st1 es) = Some (scn_state s y2 st1 es)"
    using getshdr_loaded(2) [OF op1] eh(1) sh(1) by (simp add: y2_def y1_def)
  have "holds_own s y2 = holds_own s y" by (simp add: fun_eq_iff holds_own_def y2_def y1_def)
  then have "holds_own s y2 (pre @ out) ?st0" using own by (simp only: pre_def)
  then have "release_data y2 (elf_with s y2 elf) ?st0 \<noteq> None" by (rule release_own)
  moreover have k: "keeps ?st0 st1" unfolding st1_def by (rule keeps_new [OF st])
  ultimately obtain st2 where free: "release_data y2 (elf_with s y2 elf) st1 = Some st2" "frees_only ?st0 st1 st2"
    using release_again unfolding keeps_def by blast
  have "mem ?st0 f = None" using st(1) by (simp add: f_def fresh_mem_def)
  then have st2: "mem st2 f = Some bs" "fresh_mem st2" "oom st2 = []" "globals st2 = globals st1" "globals st1 = globals ?st0"
    using free(2) k by (simp_all add: frees_only_def keeps_def) (simp add: st1_def f_def)
  have n: "?N \<noteq> 0" "unat ?N = length bs" using bs by (auto simp: unat_of_nat_u64 simp flip: unat_eq_0)
  then obtain p st3 where r: "libelf_reset_rawdata fuel s (Some (f, 0)) ?N A t (scn_state s y2 st1 es)
        = Returned (scn_state s (reset_scn (eu_libelf_version es) s (Some (f, 0)) p ?N A t y2) st3 es)"
      "keeps st2 st3" "read_bytes p (length bs) st3 = Some bs" "p \<noteq> Some (f, 0) \<longrightarrow> (\<exists>b. p = Some (b, 0) \<and> mem st2 b = None)"
    using reset_rawdata_native [OF op2, of eh st2 "Some (f, 0)" ?N bs fuel A t] eh(1,3) free(1) st2
    by (auto simp: data_matches_def)
  define y3 where "y3 = reset_scn (eu_libelf_version es) s (Some (f, 0)) p ?N A t y2"
  have "holds_own s y3 bs st3"
    unfolding y3_def by (rule holds_own_reset [OF r(2)]) (use st2(1) bs(2) r(3,4) in simp_all)
  moreover have "eu_elf_compress fuel z pr unaligned (Some s) 0 0 es = Returned (1, scn_state s y3 st3 es)"
  proof -
    have zs: "sc_zdata_size y1 = ?N" "sc_zdata_align y1 = A" "sc_zdata_base y1 = Some (f, 0)"
      "sc_zdata_size y2 = ?N" "sc_zdata_align y2 = A" "sc_zdata_base y2 = Some (f, 0)" by (simp_all add: y1_def y2_def)
    show ?thesis
      using open_scnD [OF op] open_scnD [OF op1] open_scnD [OF op2]
      by (simp add: eu_elf_compress_def checks sh(5) zd elf f_def [symmetric] Let_def)
        (simp add: y1_def [symmetric] change [unfolded g_def, simplified] zs A(3) r(1) y3_def)
  qed
  moreover have "ready_mem ?st0 st3" using keepsD(1,2) [OF r(2)] r(2) st2(4,5) by (simp add: keeps_def)
  ultimately show ?thesis
    by (intro exI [of _ y3] exI [of _ st3]) (simp add: y3_def y2_def y1_def g_def)
qed

section \<open>There and back\<close>

lemma chdr_align: "eu_type_align ELFCLASS32 EU_T_CHDR = 4" "eu_type_align ELFCLASS64 EU_T_CHDR = 8"
  by code_simp+

lemma flag_added_removed: "(w :: u64) AND m = 0 \<Longrightarrow> (w OR m) AND NOT m = w" "(w OR m) AND m = m"
proof -
  assume "w AND m = 0"
  then have "\<not> bit w n \<or> \<not> bit m n" for n by (metis bit_and_iff bit_0_eq bot_apply bot_bool_def)
  then show "(w OR m) AND NOT m = w" by (intro bit_word_eqI) (auto simp: bit_simps)
qed (rule bit_word_eqI, auto simp: bit_simps)

lemma flag_kept: "(w :: u64) AND k = 0 \<Longrightarrow> m AND k = 0 \<Longrightarrow> (w OR m) AND k = 0"
  by (simp add: bit.conj_disj_distrib2)


text \<open>A \<open>zlib\<close> that stores each byte with a 1 in front and ends with 0.\<close>

fun demo_inflate :: "byte list \<Rightarrow> nat \<times> byte list" where
  "demo_inflate (m # b # xs) = (if m = 1 then (case demo_inflate xs of (n, d) \<Rightarrow> (n + 2, b # d)) else (1, []))"
| "demo_inflate _ = (1, [])"

definition demo_stored :: "byte list \<Rightarrow> byte list" where
  "demo_stored bs = concat (map (\<lambda>b. [1, b]) bs)"

definition demo_zlib :: "(byte list \<times> bool) zlib" where
  "demo_zlib =
     \<lparr>z_deflate_init = (Z_OK, ([], False)),
      z_deflate = (\<lambda>(pend, ended) inp room fin.
        let pend = pend @ demo_stored inp @ (if fin \<and> \<not> ended then [0] else [])
        in (Z_OK, length inp, take room pend, drop room pend, ended \<or> fin)),
      z_deflate_end = (\<lambda>zs. Z_OK), z_inflate_init = Z_OK,
      z_inflate = (\<lambda>bs room. case demo_inflate bs of (n, d) \<Rightarrow> if length d \<le> room then (Z_STREAM_END, n, d) else (Z_OK, 0, [])),
      z_inflate_reset = Z_OK, z_inflate_end = Z_OK\<rparr>"

lemma demo_inflate_stored: "demo_inflate (demo_stored bs @ [0]) = (length (demo_stored bs @ [0]), bs)"
  by (induction bs) (simp_all add: demo_stored_def)

lemma demo_deflates:
  assumes "deflates demo_zlib zs i out r"
  shows "out @ fst zs = demo_stored i @ (if snd zs then [0] else []) \<and> (r = None \<longleftrightarrow> \<not> snd zs) \<and> (r = None \<or> r = Some [])"
  using assms
proof (induction rule: deflates.induct)
  case (start rc zs)
  then show ?case by (auto simp: demo_zlib_def demo_stored_def)
next
  case (more zs i out r inp fin room rc took bs zs')
  obtain pend ended where zs: "zs = (pend, ended)" by (cases zs)
  let ?new = "pend @ demo_stored inp @ (if fin \<and> \<not> ended then [0] else [])"
  have r: "took = length inp" "bs = take room ?new" "zs' = (drop room ?new, ended \<or> fin)"
    using more.hyps(4) by (simp_all add: demo_zlib_def zs Let_def)
  have "out @ bs @ fst zs' = out @ ?new" by (simp only: r fst_conv append_take_drop_id)
  also have "\<dots> = demo_stored (i @ inp) @ (if ended \<or> fin then [0] else [])"
    using more.IH more.hyps(2) by (auto simp: zs demo_stored_def)
  finally show ?case using more.IH more.hyps(2) by (auto simp: r zs)
qed

lemma demo_zlib_ok: "zlib_ok demo_zlib"
proof -
  have "rc \<noteq> Z_STREAM_ERROR \<and> took \<le> length inp \<and> length bs \<le> room
      \<and> length (out @ bs) \<le> deflate_bound (length (i @ take took inp))
      \<and> (length bs < room \<longrightarrow> took = length inp \<and> (fin \<longrightarrow> z_deflate_end demo_zlib zs' = Z_OK \<and> inflates demo_zlib (out @ bs) (i @ inp)))"
    if d: "deflates demo_zlib zs i out r" and ok: "r = None \<or> r = Some inp \<and> fin" and room: "0 < room"
      and call: "z_deflate demo_zlib zs inp room fin = (rc, took, bs, zs')" for zs i out r inp fin room rc took bs zs'
  proof -
    note d' = demo_deflates [OF deflates.more [OF d ok room call]]
    have c: "rc = Z_OK" "took = length inp" "length bs \<le> room" "length bs < room \<longrightarrow> fst zs' = []" "snd zs' \<longleftrightarrow> snd zs \<or> fin"
      using call by (auto simp: demo_zlib_def Let_def split: prod.splits)
    have all: "(out @ bs) @ fst zs' = demo_stored (i @ inp) @ (if snd zs' then [0] else [])" using d' c(2) by simp
    have len: "length (demo_stored x) = 2 * length x" for x by (induction x) (simp_all add: demo_stored_def)
    have "length (out @ bs) \<le> length ((out @ bs) @ fst zs')" by simp
    also have "\<dots> \<le> 2 * length (i @ inp) + 1" unfolding all by (simp add: len)
    finally have bound: "length (out @ bs) \<le> deflate_bound (length (i @ take took inp))" using c(2) by (simp add: deflate_bound_def)
    have "inflates demo_zlib (out @ bs) (i @ inp)" if "length bs < room" fin
    proof -
      have "out @ bs = demo_stored (i @ inp) @ [0]" using all c(4,5) that by simp
      then have "demo_inflate (out @ bs) = (length (out @ bs), i @ inp)" by (simp only: demo_inflate_stored)
      moreover have "length (out @ bs) = 2 * length (i @ inp) + 1"
        unfolding \<open>out @ bs = demo_stored (i @ inp) @ [0]\<close> by (simp only: length_append len) simp
      moreover have "out @ bs \<noteq> []" using \<open>out @ bs = demo_stored (i @ inp) @ [0]\<close> by simp
      ultimately show ?thesis by (simp add: inflates_def demo_zlib_def del: length_append append_is_Nil_conv)
    qed
    then show ?thesis using c(1-3) bound by (simp add: demo_zlib_def)
  qed
  note step = this
  have inits: "fst (z_deflate_init demo_zlib) = Z_OK" "z_inflate_init demo_zlib = Z_OK" "z_inflate_reset demo_zlib = Z_OK"
    "z_inflate_end demo_zlib = Z_OK" by (simp_all add: demo_zlib_def)
  show ?thesis
    unfolding zlib_ok_def by ((rule conjI, rule inits)+, (rule allI)+, (rule impI)+, rule step; assumption)
qed

text \<open>A section with two buffers that the program has made.\<close>

definition demo_buffers_scn :: Eu_Scn where
  "demo_buffers_scn = zero_scn\<lparr>sc_elf := Some 0, sc_list := Some 0, sc_data_read := True, sc_data_rear := Some 1,
     sc_shdr := Some (Shdr64 (zero_Elf_Shdr\<lparr>sh_type := SHT_PROGBITS, sh_addralign := 4\<rparr>)),
     sc_data_list := [\<lparr>dn_data = zero_data\<lparr>d_buf := Some (2, 0), d_size := 2\<rparr>, dn_scn = Some (0, 0, 0), dn_flags = 0\<rparr>,
       \<lparr>dn_data = zero_data\<lparr>d_buf := Some (3, 0), d_size := 1\<rparr>, dn_scn = Some (0, 0, 0), dn_flags = 0\<rparr>]\<rparr>"

definition demo_buffers_elf :: Eu_Elf where
  "demo_buffers_elf = (demo_list_elf 1)\<lparr>ee_ehdr := Some (map_ehdr id (\<lambda>h. h\<lparr>eh_ident := (eh_ident h)[EI_DATA := 1]\<rparr>) (zero_ehdr ELFCLASS64)),
     ee_scns := [\<lparr>sl_cnt = 1, sl_max = 1, sl_data = [demo_buffers_scn]\<rparr>]\<rparr>"

definition demo_buffers :: eu_store where
  "demo_buffers = (demo_list_store 1 [])\<lparr>eu_elfs := [0 \<mapsto> demo_buffers_elf],
     eu_mach := (initial_store ELFDATA2LSB (\<lambda>b. 0))\<lparr>mem := [2 \<mapsto> [10, 20], 3 \<mapsto> [30]], fresh := 4\<rparr>\<rparr>"

lemmas demo_buffers_simps = demo_buffers_def demo_buffers_elf_def demo_list_store_def demo_list_elf_def initial_store_def
  initial_globals_def zero_scn_def zero_ehdr_def map_ehdr_def


end
