(* ===== verification/Elf_Archive.thy ===== *)
theory Elf_Archive
  imports Elf_Objects Elf_Hash
begin

text \<open>
  Archives: \<open>libelf_ar_util.c\<close>, the headers and symbol tables of \<open>libelf_ar.c\<close>,
  \<open>elf_getarhdr.c\<close> and \<open>elf_getarsym.c\<close>.  An archive lies in one block of memory; pointers
  into it are compared by their offsets in the block.
\<close>

section \<open>The archive header\<close>

text \<open>
  The members of \<open>struct ar_hdr\<close> of \<open><ar.h>\<close>, all of them characters: \<open>ar_name\<close> takes 16 bytes,
  \<open>ar_date\<close> 12, \<open>ar_uid\<close> and \<open>ar_gid\<close> 6 each, \<open>ar_mode\<close> 8, \<open>ar_size\<close> 10 and \<open>ar_fmag\<close> 2.
\<close>

abbreviation (input) AR_HDR_SIZE :: nat where "AR_HDR_SIZE \<equiv> 60"
abbreviation (input) SARMAG :: nat where "SARMAG \<equiv> 8"

definition ARMAG :: "byte list" where
  "ARMAG = [0x21, 0x3C, 0x61, 0x72, 0x63, 0x68, 0x3E, 0x0A]"

definition hdr_name :: "byte list \<Rightarrow> byte list" where "hdr_name h = take 16 h"
definition hdr_uid :: "byte list \<Rightarrow> byte list" where "hdr_uid h = take 6 (drop 28 h)"
definition hdr_gid :: "byte list \<Rightarrow> byte list" where "hdr_gid h = take 6 (drop 34 h)"
definition hdr_mode :: "byte list \<Rightarrow> byte list" where "hdr_mode h = take 8 (drop 40 h)"
definition hdr_size :: "byte list \<Rightarrow> byte list" where "hdr_size h = take 10 (drop 48 h)"
definition hdr_fmag :: "byte list \<Rightarrow> byte list" where "hdr_fmag h = take 2 (drop 58 h)"

section \<open>Numbers and names\<close>

text \<open>
  \<open>_libelf_ar_get_number\<close> on the characters from \<open>src\<close> on, \<open>sz\<close> of them: the number, or
  nothing for the return value 0.
\<close>

fun ar_number_loop :: "nat \<Rightarrow> byte list \<Rightarrow> u64 \<Rightarrow> u64 option" where
  "ar_number_loop radix [] r = Some r"
| "ar_number_loop radix (c # cs) r =
     (if c = 0x20 then Some r
      else if c < 0x30 \<or> c > 0x39 then None
      else
        let v = c - 0x30
        in if unat v \<ge> radix then Some r else ar_number_loop radix cs (r * of_nat radix + ucast v))"

definition libelf_ar_get_number :: "byte list \<Rightarrow> nat \<Rightarrow> u64 option" where
  "libelf_ar_get_number s radix = ar_number_loop radix (dropWhile (\<lambda>c. c = 0x20) s) 0"

definition IS_EXTENDED_BSD_NAME :: "byte list \<Rightarrow> bool" where
  "IS_EXTENDED_BSD_NAME name \<longleftrightarrow> take 3 name = [0x23, 0x31, 0x2F]"

text \<open>
  The longest run of at most \<open>n\<close> characters from \<open>p\<close> on that satisfy \<open>P\<close>, as the character loops
  and \<open>strncpy\<close> find it: bytes are looked at one after the other, so only those are read.
\<close>

definition scan_bytes :: "(byte \<Rightarrow> bool) \<Rightarrow> ptr \<Rightarrow> nat \<Rightarrow> store \<Rightarrow> byte list option" where
  "scan_bytes P p n st =
     (if n = 0 then Some []
      else
        do { (b, off) \<leftarrow> p;
             bs \<leftarrow> mem st b;
             let avail = take n (drop off bs);
             let xs = takeWhile P avail;
             assert_that (length xs < length avail \<or> length avail = n);
             Some xs })"

text \<open>What \<open>strncpy(s, q, n)\<close>, followed by a NUL, leaves as the string \<open>s\<close>.\<close>

definition strncpy_chars :: "ptr \<Rightarrow> nat \<Rightarrow> store \<Rightarrow> byte list option" where
  "strncpy_chars q n st = scan_bytes (\<lambda>c. c \<noteq> 0) q n st"

text \<open>The name that the bytes of \<open>ar_name\<close> stand for when it is not an extended one.\<close>

definition plain_name :: "byte list \<Rightarrow> byte list" where
  "plain_name buf =
     (let s = rev (dropWhile (\<lambda>c. c = 0x20) (rev buf));
          s = (if s \<noteq> [] \<and> last s = 0x2F \<and> (length s > 2 \<or> length s = 2 \<and> hd s \<noteq> 0x2F) then butlast s else s)
      in takeWhile (\<lambda>c. c \<noteq> 0) s)"

definition libelf_ar_get_translated_name :: "ptr \<Rightarrow> elf_ref \<Rightarrow> store \<Rightarrow> (byte list option \<times> store) option" where
  "libelf_ar_get_translated_name arh ar st =
     do { elf \<leftarrow> elfs st ar;
          assert_that (arh \<noteq> None \<and> e_kind elf = ELF_K_AR);
          assert_that (addr arh st \<ge> addr (e_rawfile elf) st
            \<and> addr arh st < addr (e_rawfile elf) st + e_rawsize elf);
          buf \<leftarrow> read_bytes arh 16 st;
          if buf ! 0 = 0x2F \<and> buf ! 1 \<ge> 0x30 \<and> buf ! 1 \<le> 0x39 then
            case libelf_ar_get_number (drop 1 buf) 10 of
              None \<Rightarrow> Some (None, set_error ELF_E_ARCHIVE st)
            | Some offset \<Rightarrow>
                if offset > e_rawstrtabsz elf then Some (None, set_error ELF_E_ARCHIVE st)
                else
                  do { let q = ptr_add (e_rawstrtab elf) offset;
                       name \<leftarrow> scan_bytes (\<lambda>c. c \<noteq> 0x2F) q (unat (e_rawstrtabsz elf - offset)) st;
                       let (ok, st) = alloc_ok st;
                       if \<not> ok then Some (None, set_error ELF_E_RESOURCE st)
                       else do { s \<leftarrow> strncpy_chars q (length name) st; Some (Some s, st) } }
          else if IS_EXTENDED_BSD_NAME buf then
            case libelf_ar_get_number (drop 3 buf) 10 of
              None \<Rightarrow> Some (None, set_error ELF_E_ARCHIVE st)
            | Some len \<Rightarrow>
                let (ok, st) = alloc_ok st
                in if \<not> ok then Some (None, set_error ELF_E_RESOURCE st)
                   else
                     do { s \<leftarrow> strncpy_chars (ptr_add arh (of_nat AR_HDR_SIZE)) (unat len) st;
                          Some (Some s, st) }
          else
            let (ok, st) = alloc_ok st
            in if \<not> ok then Some (None, set_error ELF_E_RESOURCE st) else Some (Some (plain_name buf), st) }"

definition libelf_ar_get_raw_name :: "ptr \<Rightarrow> store \<Rightarrow> (byte list option \<times> store) option" where
  "libelf_ar_get_raw_name arh st =
     (let (ok, st) = alloc_ok st
      in if \<not> ok then Some (None, set_error ELF_E_RESOURCE st)
         else do { s \<leftarrow> strncpy_chars arh 16 st; Some (Some s, st) })"


section \<open>Opening an archive\<close>

text \<open>\<open>LIBELF_ADJUST_AR_SIZE\<close>: the mask \<open>~1U\<close> has 32 bits, so it also clears the upper half.\<close>

definition LIBELF_ADJUST_AR_SIZE :: "u64 \<Rightarrow> u64" where
  "LIBELF_ADJUST_AR_SIZE sz = (sz + 1) AND 0xFFFFFFFE"

text \<open>
  \<open>READ_AR_HEADER\<close> at offset \<open>pos\<close> of the archive: the header and the size it states, or
  nothing when the macro jumps to \<open>error\<close>.
\<close>

definition READ_AR_HEADER :: "Elf \<Rightarrow> u64 \<Rightarrow> store \<Rightarrow> (byte list \<times> u64) option option" where
  "READ_AR_HEADER elf pos st =
     (if unat pos + AR_HDR_SIZE > unat (e_rawsize elf) then Some None
      else
        do { h \<leftarrow> read_bytes (ptr_add (e_rawfile elf) pos) AR_HDR_SIZE st;
             if hdr_fmag h \<noteq> [0x60, 0x0A] then Some None
             else
               case libelf_ar_get_number (hdr_size h) 10 of
                 None \<Rightarrow> Some None
               | Some sz \<Rightarrow> Some (Some (h, sz)) })"

text \<open>
  The special members at the start of the archive.  The first component of the result is
  the offset of the first ordinary member, or nothing for \<open>goto error\<close>; the second is the
  descriptor with what has been found.
\<close>

definition ar_string_table :: "Elf \<Rightarrow> u64 \<Rightarrow> u64 \<Rightarrow> Elf" where
  "ar_string_table elf pos sz =
     elf\<lparr>e_rawstrtab := ptr_add (e_rawfile elf) (pos + of_nat AR_HDR_SIZE), e_rawstrtabsz := sz\<rparr>"

definition ar_symbol_table :: "Elf \<Rightarrow> u64 \<Rightarrow> u64 \<Rightarrow> Elf" where
  "ar_symbol_table elf pos sz =
     elf\<lparr>e_rawsymtab := ptr_add (e_rawfile elf) (pos + of_nat AR_HDR_SIZE), e_rawsymtabsz := sz\<rparr>"

definition behind_member :: "u64 \<Rightarrow> u64 \<Rightarrow> u64" where
  "behind_member pos sz = pos + of_nat AR_HDR_SIZE + LIBELF_ADJUST_AR_SIZE sz"

definition ar_scan_ahead :: "Elf \<Rightarrow> u64 \<Rightarrow> store \<Rightarrow> (u64 option \<times> Elf) option" where
  "ar_scan_ahead elf pos st =
     do { r \<leftarrow> READ_AR_HEADER elf pos st;
          case r of None \<Rightarrow> Some (None, elf)
          | Some (h, sz) \<Rightarrow>
              if take 3 (hdr_name h) = [0x2F, 0x2F, 0x20]
              then Some (Some (behind_member pos sz), ar_string_table elf pos sz)
              else Some (Some pos, elf) }"

definition ar_special_members :: "Elf \<Rightarrow> store \<Rightarrow> (u64 option \<times> Elf) option" where
  "ar_special_members elf st =
     do { let pos = of_nat SARMAG;
          r \<leftarrow> READ_AR_HEADER elf pos st;
          case r of None \<Rightarrow> Some (None, elf)
          | Some (h, sz) \<Rightarrow>
              let name = hdr_name h
              in if name ! 0 = 0x2F then
                   if sz = 0 then Some (None, elf)
                   else
                     let elf = elf\<lparr>e_flags := e_flags elf OR LIBELF_F_AR_VARIANT_SVR4\<rparr>
                     in if name ! 1 = 0x20
                        then ar_scan_ahead (ar_symbol_table elf pos sz) (behind_member pos sz) st
                        else if name ! 1 = 0x2F \<and> name ! 2 = 0x20
                        then Some (Some (behind_member pos sz), ar_string_table elf pos sz)
                        else Some (Some pos, elf)
                 else if take 9 name = [0x5F, 0x5F, 0x2E, 0x53, 0x59, 0x4D, 0x44, 0x45, 0x46]
                 then Some (Some (behind_member pos sz), ar_symbol_table elf pos sz)
                 else Some (Some pos, elf) }"

definition libelf_ar_open :: "elf_ref \<Rightarrow> bool \<Rightarrow> store \<Rightarrow> (elf_ref option \<times> store) option" where
  "libelf_ar_open e reporterror st =
     do { st \<leftarrow> libelf_init_elf e ELF_K_AR st;
          elf \<leftarrow> elfs st e;
          let elf = elf\<lparr>e_nchildren := 0, e_next := -1\<rparr>;
          assert_that (e_rawsize elf > 0);
          (next, elf) \<leftarrow> ar_special_members elf st;
          case next of
            Some pos \<Rightarrow> Some (Some e, set_elf e (elf\<lparr>e_next := sint pos\<rparr>) st)
          | None \<Rightarrow>
              if \<not> reporterror then Some (Some e, set_elf e (elf\<lparr>e_kind := ELF_K_NONE\<rparr>) st)
              else Some (None, set_error ELF_E_ARCHIVE (set_elf e elf st)) }"

section \<open>The header of a member\<close>

text \<open>
  \<open>_libelf_ar_gethdr\<close>.  While it runs the descriptor refers to the new header; on an error it
  is as before, so only the successful end stores it.  \<open>ar_number\<close> returns the members' values
  in turn, or nothing when the code jumps to \<open>error\<close>.
\<close>

definition member_size :: "byte list \<Rightarrow> u64 option" where
  "member_size h =
     do { n \<leftarrow> libelf_ar_get_number (hdr_size h) 10;
          if IS_EXTENDED_BSD_NAME (hdr_name h)
          then do { nlen \<leftarrow> libelf_ar_get_number (drop 3 (hdr_name h)) 10; Some (n - nlen) }
          else Some n }"

definition hdr_numbers :: "byte list \<Rightarrow> (u64 \<times> u64 \<times> u64 \<times> u64) option" where
  "hdr_numbers h =
     do { uid \<leftarrow> libelf_ar_get_number (hdr_uid h) 10;
          gid \<leftarrow> libelf_ar_get_number (hdr_gid h) 10;
          mode \<leftarrow> libelf_ar_get_number (hdr_mode h) 8;
          n \<leftarrow> member_size h;
          Some (uid, gid, mode, n) }"

definition libelf_ar_gethdr :: "elf_ref \<Rightarrow> store \<Rightarrow> (Elf_Arhdr option \<times> store) option" where
  "libelf_ar_gethdr e st =
     do { elf \<leftarrow> elfs st e;
          case e_parent elf of None \<Rightarrow> Some (None, set_error ELF_E_ARGUMENT st)
          | Some p \<Rightarrow>
              do { parent \<leftarrow> elfs st p;
                   assert_that (e_flags elf AND LIBELF_F_AR_HEADER = 0);
                   arh \<leftarrow> (case e_hdr elf of Rawhdr q \<Rightarrow> Some q | Arhdr _ \<Rightarrow> None);
                   assert_that (addr arh st \<ge> addr (e_rawfile parent) st + of_nat SARMAG
                     \<and> addr arh st \<le> addr (e_rawfile parent) st + e_rawsize parent - of_nat AR_HDR_SIZE);
                   let (ok, st) = alloc_ok st;
                   if \<not> ok then Some (None, set_error ELF_E_RESOURCE st)
                   else
                     do { (name, st) \<leftarrow> libelf_ar_get_translated_name arh p st;
                          case name of None \<Rightarrow> Some (None, st)
                          | Some name \<Rightarrow>
                              do { h \<leftarrow> read_bytes arh AR_HDR_SIZE st;
                                   case hdr_numbers h of None \<Rightarrow> Some (None, st)
                                   | Some (uid, gid, mode, n) \<Rightarrow>
                                       do { (rawname, st) \<leftarrow> libelf_ar_get_raw_name arh st;
                                            case rawname of None \<Rightarrow> Some (None, st)
                                            | Some rawname \<Rightarrow>
                                                let eh = \<lparr>ar_name = name, ar_uid = ucast uid, ar_gid = ucast gid,
                                                          ar_mode = ucast mode, ar_rawname = rawname, ar_size = n,
                                                          ar_flags = 0\<rparr>
                                                in Some (Some eh,
                                                     set_elf e (elf\<lparr>e_hdr := Arhdr eh,
                                                       e_flags := e_flags elf OR LIBELF_F_AR_HEADER\<rparr>) st) } } } } }"

definition elf_getarhdr :: "elf_ref option \<Rightarrow> store \<Rightarrow> (Elf_Arhdr option \<times> store) option" where
  "elf_getarhdr er st =
     (case er of None \<Rightarrow> Some (None, set_error ELF_E_ARGUMENT st)
      | Some e \<Rightarrow>
          do { elf \<leftarrow> elfs st e;
               if e_flags elf AND LIBELF_F_AR_HEADER \<noteq> 0
               then (case e_hdr elf of Arhdr eh \<Rightarrow> Some (Some eh, st) | Rawhdr _ \<Rightarrow> None)
               else libelf_ar_gethdr e st })"

section \<open>Symbol tables\<close>

text \<open>A NUL-terminated string; the search for the NUL ends with the block.\<close>

definition read_cstring :: "nat \<Rightarrow> nat \<Rightarrow> store \<Rightarrow> byte list option" where
  "read_cstring b off st =
     do { bs \<leftarrow> mem st b;
          let s = takeWhile (\<lambda>c. c \<noteq> 0) (drop off bs);
          assert_that (off + length s < length bs);
          Some s }"

definition arsym_at :: "u64 \<Rightarrow> nat \<Rightarrow> nat \<Rightarrow> store \<Rightarrow> Elf_Arsym option" where
  "arsym_at off b s st =
     do { name \<leftarrow> read_cstring b s st;
          Some \<lparr>as_off = off, as_hash = elf_hash name, as_name = Some (b, s)\<rparr> }"

definition arsym_sentinel :: Elf_Arsym where
  "arsym_sentinel = \<lparr>as_off = 0, as_hash = -1, as_name = None\<rparr>"

definition GET_WORD :: "nat \<Rightarrow> nat \<Rightarrow> store \<Rightarrow> u32 option" where
  "GET_WORD b p st = do { bs \<leftarrow> read_bytes (Some (b, p)) 4 st; Some (word_of_le (rev bs)) }"

definition GET_LONG :: "nat \<Rightarrow> nat \<Rightarrow> store \<Rightarrow> u64 option" where
  "GET_LONG b p st = do { bs \<leftarrow> read_bytes (Some (b, p)) 8 st; Some (native_val (host_order st) bs) }"

text \<open>
  The loop over the \<open>n\<close> entries of an SVR4 table: \<open>p\<close> is at the next file offset, \<open>s\<close> at the
  next string, and \<open>lim\<close> is the end of the table.  The result is nothing for a malformed
  table.
\<close>

definition skip_string :: "nat \<Rightarrow> nat \<Rightarrow> nat \<Rightarrow> store \<Rightarrow> nat option" where
  "skip_string b s lim st =
     do { xs \<leftarrow> scan_bytes (\<lambda>c. c \<noteq> 0) (Some (b, s)) (lim - s) st;
          Some (if length xs < lim - s then s + length xs + 1 else s + length xs) }"

fun svr4_entries :: "nat \<Rightarrow> u64 \<Rightarrow> nat \<Rightarrow> nat \<Rightarrow> nat \<Rightarrow> nat \<Rightarrow> store \<Rightarrow> (Elf_Arsym list option) option" where
  "svr4_entries b rawsize lim 0 p s st = Some (Some [])"
| "svr4_entries b rawsize lim (Suc n) p s st =
     (if s \<ge> lim then Some None
      else
        do { off \<leftarrow> GET_WORD b p st;
             if (ucast off :: u64) \<ge> rawsize then Some None
             else
               do { x \<leftarrow> arsym_at (ucast off) b s st;
                    s \<leftarrow> skip_string b s lim st;
                    r \<leftarrow> svr4_entries b rawsize lim n (p + 4) s st;
                    Some (map_option ((#) x) r) } })"

text \<open>The entries are kept in the descriptor and handed out.\<close>

definition keep_symtab ::
  "elf_ref \<Rightarrow> Elf_Arsym list \<Rightarrow> store \<Rightarrow> (Elf_Arsym list option \<times> u64) \<times> store"
where
  "keep_symtab e entries st =
     (let syms = entries @ [arsym_sentinel]; n = of_nat (length syms)
      in ((Some syms, n), case elfs st e of None \<Rightarrow> st
            | Some elf \<Rightarrow> set_elf e (elf\<lparr>e_symtab := Some syms, e_symtabsz := n\<rparr>) st))"

definition symtab_error :: "store \<Rightarrow> (Elf_Arsym list option \<times> u64) \<times> store" where
  "symtab_error st = ((None, 0), set_error ELF_E_ARCHIVE st)"

definition libelf_ar_process_svr4_symtab ::
  "elf_ref \<Rightarrow> store \<Rightarrow> ((Elf_Arsym list option \<times> u64) \<times> store) option"
where
  "libelf_ar_process_svr4_symtab e st =
     do { elf \<leftarrow> elfs st e;
          assert_that (e_symtab elf = None);
          if e_rawsymtabsz elf < 4 then Some (symtab_error st)
          else
            do { (b, p) \<leftarrow> e_rawsymtab elf;
                 let lim = p + unat (e_rawsymtabsz elf);
                 nentries \<leftarrow> GET_WORD b p st;
                 let n = unat nentries;
                 if n = 0 \<or> p + 4 + n * 4 \<ge> lim then Some (symtab_error st)
                 else
                   let (ok, st) = alloc_ok st
                   in if \<not> ok then Some ((None, 0), set_error ELF_E_RESOURCE st)
                      else
                        do { r \<leftarrow> svr4_entries b (e_rawsize elf) lim n (p + 4) (p + 4 + n * 4) st;
                             case r of None \<Rightarrow> Some (symtab_error st)
                             | Some entries \<Rightarrow> Some (keep_symtab e entries st) } } }"

text \<open>A BSD table: pairs of offsets in the byte order of the host; strings start at \<open>s0\<close>.\<close>

fun bsd_entries :: "nat \<Rightarrow> u64 \<Rightarrow> nat \<Rightarrow> nat \<Rightarrow> nat \<Rightarrow> nat \<Rightarrow> store \<Rightarrow> (Elf_Arsym list option) option" where
  "bsd_entries b rawsize lim s0 0 p st = Some (Some [])"
| "bsd_entries b rawsize lim s0 (Suc n) p st =
     do { stroffset \<leftarrow> GET_LONG b p st;
          fileoffset \<leftarrow> GET_LONG b (p + 8) st;
          if sint stroffset < 0 \<or> sint fileoffset < 0 \<or> fileoffset \<ge> rawsize then Some None
          else if s0 + unat stroffset \<ge> lim then Some None
          else
            do { x \<leftarrow> arsym_at fileoffset b (s0 + unat stroffset) st;
                 r \<leftarrow> bsd_entries b rawsize lim s0 n (p + 16) st;
                 Some (map_option ((#) x) r) } }"

definition libelf_ar_process_bsd_symtab ::
  "elf_ref \<Rightarrow> store \<Rightarrow> ((Elf_Arsym list option \<times> u64) \<times> store) option"
where
  "libelf_ar_process_bsd_symtab e st =
     do { elf \<leftarrow> elfs st e;
          assert_that (e_symtab elf = None);
          if e_rawsymtabsz elf < 16 then Some (symtab_error st)
          else
            do { (b, p0) \<leftarrow> e_rawsymtab elf;
                 let lim = p0 + unat (e_rawsymtabsz elf);
                 arraysize \<leftarrow> GET_LONG b p0 st;
                 if sint arraysize < 0 \<or> p0 + unat arraysize \<ge> lim \<or> unat arraysize mod 16 \<noteq> 0
                 then Some (symtab_error st)
                 else
                   do { let s = p0 + 8 + unat arraysize;
                        strtabsize \<leftarrow> GET_LONG b s st;
                        if sint strtabsize < 0 \<or> s + 8 + unat strtabsize > lim then Some (symtab_error st)
                        else
                          let n = unat (ucast (arraysize div 16) :: u32); (ok, st) = alloc_ok st
                          in if \<not> ok then Some ((None, 0), set_error ELF_E_RESOURCE st)
                             else
                               do { r \<leftarrow> bsd_entries b (e_rawsize elf) lim (s + 8) n (p0 + 8) st;
                                    case r of None \<Rightarrow> Some (symtab_error st)
                                    | Some entries \<Rightarrow> Some (keep_symtab e entries st) } } } }"

definition elf_getarsym ::
  "elf_ref option \<Rightarrow> store \<Rightarrow> ((Elf_Arsym list option \<times> u64) \<times> store) option"
where
  "elf_getarsym er st =
     (case er of None \<Rightarrow> Some ((None, 0), set_error ELF_E_ARGUMENT st)
      | Some ar \<Rightarrow>
          do { elf \<leftarrow> elfs st ar;
               if e_kind elf \<noteq> ELF_K_AR then Some ((None, 0), set_error ELF_E_ARGUMENT st)
               else case e_symtab elf of
                 Some syms \<Rightarrow> Some ((Some syms, e_symtabsz elf), st)
               | None \<Rightarrow>
                   if e_rawsymtab elf \<noteq> None
                   then (if e_flags elf AND LIBELF_F_AR_VARIANT_SVR4 \<noteq> 0
                         then libelf_ar_process_svr4_symtab ar st else libelf_ar_process_bsd_symtab ar st)
                   else Some ((None, 0), set_error ELF_E_ARCHIVE st) })"

section \<open>Numbers as they are printed\<close>

text \<open>The digits of a number in a radix of at most ten, most significant first.\<close>

fun digits :: "nat \<Rightarrow> nat \<Rightarrow> byte list" where
  "digits r n = (if n < r \<or> r < 2 then [0x30 + of_nat n] else digits r (n div r) @ [0x30 + of_nat (n mod r)])"

declare digits.simps [simp del]

lemma digit_facts:
  assumes "d < r" "r \<le> 10"
  shows "(0x30 + of_nat d :: byte) \<noteq> 0x20" "\<not> (0x30 + of_nat d :: byte) < 0x30" "\<not> (0x30 + of_nat d :: byte) > 0x39"
    "unat (0x30 + of_nat d - 0x30 :: byte) = d" "ucast (0x30 + of_nat d - 0x30 :: byte) = (of_nat d :: u64)"
proof -
  have "d < 10" using assms by simp
  then have "d \<in> {0, 1, 2, 3, 4, 5, 6, 7, 8, 9}" by auto
  then show "(0x30 + of_nat d :: byte) \<noteq> 0x20" "\<not> (0x30 + of_nat d :: byte) < 0x30" "\<not> (0x30 + of_nat d :: byte) > 0x39"
    "unat (0x30 + of_nat d - 0x30 :: byte) = d" "ucast (0x30 + of_nat d - 0x30 :: byte) = (of_nat d :: u64)"
    by auto
qed

lemma ar_number_loop_digit:
  assumes "d < r" "r \<le> 10"
  shows "ar_number_loop r ((0x30 + of_nat d) # cs) a = ar_number_loop r cs (a * of_nat r + of_nat d)"
  using digit_facts [OF assms] assms(1) by (simp add: Let_def)

lemma ar_number_loop_digits:
  assumes "2 \<le> r" "r \<le> 10"
  shows "ar_number_loop r (digits r n @ cs) 0 = ar_number_loop r cs (of_nat n)"
  using assms
proof (induction r n arbitrary: cs rule: digits.induct)
  case (1 r n)
  show ?case
  proof (cases "n < r")
    case True
    then show ?thesis using ar_number_loop_digit [OF True 1(3), of cs 0]
      by (simp add: digits.simps [of r n] del: ar_number_loop.simps)
  next
    case False
    have "of_nat (n div r) * of_nat r + of_nat (n mod r) = (of_nat n :: u64)"
      by (simp flip: of_nat_mult of_nat_add)
    then show ?thesis
      using False 1 ar_number_loop_digit [of "n mod r" r cs "of_nat (n div r)"]
      by (simp add: digits.simps [of r n] del: ar_number_loop.simps)
  qed
qed

lemma hd_digits: "2 \<le> r \<Longrightarrow> r \<le> 10 \<Longrightarrow> digits r n \<noteq> [] \<and> hd (digits r n) \<noteq> 0x20"
proof (induction r n rule: digits.induct)
  case (1 r n)
  then show ?case using digit_facts(1) [of n r] by (cases "n < r") (auto simp: digits.simps [of r n] hd_append)
qed

lemma get_number_digits:
  assumes "2 \<le> r" "r \<le> 10" "cs = [] \<or> hd cs = 0x20"
  shows "libelf_ar_get_number (replicate i 0x20 @ digits r n @ cs) r = Some (of_nat n)"
proof -
  have "dropWhile (\<lambda>c. c = 0x20) (replicate i 0x20 @ digits r n @ cs) = digits r n @ cs"
    using hd_digits [OF assms(1,2), of n] by (cases "digits r n") (simp_all add: dropWhile_append)
  moreover have "ar_number_loop r cs x = Some x" for x using assms(3) by (cases cs) auto
  ultimately show ?thesis by (simp add: libelf_ar_get_number_def ar_number_loop_digits [OF assms(1,2)])
qed

section \<open>The symbol table of an archive\<close>

text \<open>A 32-bit number as an SVR4 symbol table holds it, and such a table.\<close>

definition be32 :: "u32 \<Rightarrow> byte list" where
  "be32 w = rev (le_of_word 4 w)"

definition svr4_strings :: "(u32 \<times> byte list) list \<Rightarrow> byte list" where
  "svr4_strings xs = concat (map (\<lambda>x. snd x @ [0]) xs)"

definition svr4_table :: "(u32 \<times> byte list) list \<Rightarrow> byte list" where
  "svr4_table xs = be32 (of_nat (length xs)) @ concat (map (\<lambda>x. be32 (fst x)) xs) @ svr4_strings xs"

text \<open>The symbols that the table stands for, the strings starting at offset \<open>s\<close> of block \<open>b\<close>.\<close>

fun svr4_syms :: "nat \<Rightarrow> nat \<Rightarrow> (u32 \<times> byte list) list \<Rightarrow> Elf_Arsym list" where
  "svr4_syms b s [] = []"
| "svr4_syms b s ((off, name) # xs) =
     \<lparr>as_off = ucast off, as_hash = elf_hash name, as_name = Some (b, s)\<rparr> # svr4_syms b (s + length name + 1) xs"

definition good_sym :: "u64 \<Rightarrow> u32 \<times> byte list \<Rightarrow> bool" where
  "good_sym rawsize x \<longleftrightarrow> ucast (fst x) < rawsize \<and> 0 \<notin> set (snd x)"

lemma length_be32 [simp]: "length (be32 w) = 4"
  by (simp add: be32_def)

lemma length_svr4_syms [simp]: "length (svr4_syms b s xs) = length xs"
  by (induction b s xs rule: svr4_syms.induct) simp_all

lemma GET_WORD_be32:
  assumes "mem st b = Some S" "drop q S = be32 w @ R"
  shows "GET_WORD b q st = Some w"
proof -
  have "length (drop q S) = 4 + length R" using assms(2) by simp
  then have "q + 4 \<le> length S" by simp
  then show ?thesis using assms by (simp add: GET_WORD_def read_bytes_def be32_def word_of_le_of_word)
qed

lemma takeWhile_string: "0 \<notin> set name \<Longrightarrow> takeWhile (\<lambda>c. c \<noteq> (0 :: byte)) (name @ 0 # R) = name"
  by (induction name) auto

lemma read_string:
  assumes "mem st b = Some S" "drop s S = name @ 0 # R" "0 \<notin> set name"
  shows "read_cstring b s st = Some name"
    "s + length name < lim \<Longrightarrow> skip_string b s lim st = Some (s + length name + 1)"
proof -
  have "length (drop s S) = length name + 1 + length R" using assms(2) by simp
  then have "s + length name < length S" by simp
  then show "read_cstring b s st = Some name"
    using assms by (simp add: read_cstring_def takeWhile_string)
  assume lim: "s + length name < lim"
  define k where "k = lim - s - length name - 1"
  have k: "lim - s = length name + Suc k" using lim by (simp add: k_def)
  have "takeWhile (\<lambda>c. c \<noteq> 0) (take (lim - s) (drop s S)) = name" "length name < length (take (lim - s) (drop s S))"
    using assms(2,3) by (simp_all add: k takeWhile_string)
  then show "skip_string b s lim st = Some (s + length name + 1)"
    using lim assms(1) by (simp add: skip_string_def scan_bytes_def Let_def)
qed

lemma svr4_entries_table:
  assumes "mem st b = Some S" "list_all (good_sym rawsize) xs"
    and "drop q S = concat (map (\<lambda>x. be32 (fst x)) xs) @ R" "drop s S = svr4_strings xs @ R'"
    and "lim = s + length (svr4_strings xs)"
  shows "svr4_entries b rawsize lim (length xs) q s st = Some (Some (svr4_syms b s xs))"
  using assms(2-5)
proof (induction xs arbitrary: q s)
  case (Cons x xs)
  obtain off name where x: "x = (off, name)" by (cases x)
  have name: "0 \<notin> set name" "(ucast off :: u64) < rawsize" using Cons.prems(1) by (simp_all add: x good_sym_def)
  have q: "drop q S = be32 off @ concat (map (\<lambda>x. be32 (fst x)) xs) @ R" using Cons.prems(2) by (simp add: x)
  have s: "drop s S = name @ 0 # svr4_strings xs @ R'" using Cons.prems(3) by (simp add: x svr4_strings_def)
  have lim: "lim = (s + length name + 1) + length (svr4_strings xs)" using Cons.prems(4) by (simp add: x svr4_strings_def)
  have "drop (q + 4) S = concat (map (\<lambda>x. be32 (fst x)) xs) @ R" using arg_cong [OF q, of "drop 4"] by (simp add: add.commute)
  moreover have "drop (s + length name + 1) S = svr4_strings xs @ R'"
    using arg_cong [OF s, of "drop (length name + 1)"] by (simp add: add.commute add.left_commute)
  ultimately have "svr4_entries b rawsize lim (length xs) (q + 4) (s + length name + 1) st
      = Some (Some (svr4_syms b (s + length name + 1) xs))"
    using Cons.IH [of "q + 4" "s + length name + 1"] Cons.prems(1) lim by simp
  moreover have "s < lim" "s + length name < lim" using lim by simp_all
  moreover note GET_WORD_be32 [OF assms(1) q] read_string(1) [OF assms(1) s name(1)]
    read_string(2) [OF assms(1) s name(1), of lim]
  ultimately show ?case using name(2) by (simp add: x arsym_at_def not_le)
qed simp

section \<open>Properties\<close>

text \<open>
  A number printed in an archive header, with blanks before it and none or some behind
  it, is read back, in either radix; a number of 64 bits or more comes back modulo \<open>2 ^ 64\<close>.
\<close>

lemma archive_number_roundtrip:
  assumes "2 \<le> radix" "radix \<le> 10" "rest = [] \<or> hd rest = 0x20"
  shows "libelf_ar_get_number (replicate i 0x20 @ digits radix n @ rest) radix = Some (of_nat n)"
  using assms by (rule get_number_digits)

lemma archive_number_roundtrip_witness:
  "libelf_ar_get_number ([0x20] @ digits 8 420 @ [0x20, 0x20]) 8 = Some 420"
  using archive_number_roundtrip [of 8 "[0x20, 0x20]" 1 420] by simp

text \<open>
  C20. The symbol table of an SVR4 archive is read as it was written: \<open>elf_getarsym\<close> returns
  one entry for every symbol, in order, with its file offset, the hash of its name and a
  pointer to the name in the archive, then the sentinel; the count includes the sentinel,
  and asking again gives the same answer.
\<close>

theorem getarsym_reads_table:
  assumes "elfs st e = Some elf" "e_kind elf = ELF_K_AR" "e_flags elf AND LIBELF_F_AR_VARIANT_SVR4 \<noteq> 0"
    and "e_symtab elf = None" "e_rawsymtab elf = Some (b, p)" "mem st b = Some S" "oom st = []"
    and "drop p S = svr4_table xs @ R" "unat (e_rawsymtabsz elf) = length (svr4_table xs)"
    and "xs \<noteq> []" "length xs < 2 ^ 32" "list_all (good_sym (e_rawsize elf)) xs"
    and "syms = svr4_syms b (p + 4 + 4 * length xs) xs @ [\<lparr>as_off = 0, as_hash = -1, as_name = None\<rparr>]"
  shows "\<exists>st'. elf_getarsym (Some e) st = Some ((Some syms, of_nat (length xs + 1)), st')
    \<and> elf_getarsym (Some e) st' = Some ((Some syms, of_nat (length xs + 1)), st')"
proof -
  let ?O = "concat (map (\<lambda>x. be32 (fst x)) xs)"
  have O: "length ?O = 4 * length xs" by (induction xs) simp_all
  have n: "unat (of_nat (length xs) :: u32) = length xs" using assms(11) by (simp add: unat_of_nat take_bit_nat_eq_self)
  have len: "length (svr4_table xs) = 4 + 4 * length xs + length (svr4_strings xs)" by (simp add: svr4_table_def O)
  have "svr4_strings xs \<noteq> []" using assms(10) by (cases xs) (simp_all add: svr4_strings_def)
  then have str: "0 < length (svr4_strings xs)" by simp
  have p: "drop p S = be32 (of_nat (length xs)) @ ?O @ svr4_strings xs @ R" using assms(8) by (simp add: svr4_table_def)
  have q: "drop (p + 4) S = ?O @ svr4_strings xs @ R" using arg_cong [OF p, of "drop 4"] by (simp add: add.commute)
  have s: "drop (p + 4 + 4 * length xs) S = svr4_strings xs @ R"
    using arg_cong [OF q, of "drop (4 * length xs)"] O by (simp add: add.commute add.left_commute)
  have entries: "svr4_entries b (e_rawsize elf) (p + unat (e_rawsymtabsz elf)) (length xs) (p + 4) (p + 4 + 4 * length xs) st
      = Some (Some (svr4_syms b (p + 4 + 4 * length xs) xs))"
    using svr4_entries_table [OF assms(6,12) q s] by (simp add: assms(9) len add.assoc)
  have "\<not> e_rawsymtabsz elf < 4" using assms(9) len by (simp add: word_less_nat_alt)
  then have "libelf_ar_process_svr4_symtab e st = Some (keep_symtab e (svr4_syms b (p + 4 + 4 * length xs) xs) st)"
    using assms(1,4,5,7,9,10) GET_WORD_be32 [OF assms(6) p] entries len str
    by (simp add: libelf_ar_process_svr4_symtab_def n mult.commute)
  moreover let ?st = "set_elf e (elf\<lparr>e_symtab := Some syms, e_symtabsz := of_nat (length xs + 1)\<rparr>) st"
  have "keep_symtab e (svr4_syms b (p + 4 + 4 * length xs) xs) st = ((Some syms, of_nat (length xs + 1)), ?st)"
    using assms(1,13) by (simp add: keep_symtab_def arsym_sentinel_def Let_def)
  ultimately have "elf_getarsym (Some e) st = Some ((Some syms, of_nat (length xs + 1)), ?st)"
    using assms(1-5) by (simp add: elf_getarsym_def)
  moreover have "elf_getarsym (Some e) ?st = Some ((Some syms, of_nat (length xs + 1)), ?st)"
    using assms(2) by (simp add: elf_getarsym_def)
  ultimately show ?thesis by blast
qed

text \<open>A table with two symbols, in an archive that has nothing else.\<close>

definition demo_syms :: "(u32 \<times> byte list) list" where
  "demo_syms = [(8, [102]), (9, [103, 104])]"

definition demo_ar_elf :: Elf where
  "demo_ar_elf = (new_elf EV_CURRENT)\<lparr>e_kind := ELF_K_AR, e_flags := LIBELF_F_AR_VARIANT_SVR4, e_rawfile := Some (0, 0),
     e_rawsize := 17, e_rawsymtab := Some (0, 0), e_rawsymtabsz := 17\<rparr>"

definition demo_ar_store :: store where
  "demo_ar_store = (initial_store ELFDATA2LSB (\<lambda>b. of_nat (4096 * Suc b)))
     \<lparr>mem := [0 \<mapsto> svr4_table demo_syms], elfs := [0 \<mapsto> demo_ar_elf], fresh := 1\<rparr>"

theorem getarsym_reads_table_witness:
  "\<exists>syms st'. elf_getarsym (Some 0) demo_ar_store = Some ((Some syms, 3), st') \<and> map as_off syms = [8, 9, 0]
    \<and> map as_hash syms = [102, 1752, -1] \<and> map as_name syms = [Some (0, 12), Some (0, 14), None]"
proof -
  have t: "length (svr4_table demo_syms) = 17" by (simp add: svr4_table_def svr4_strings_def demo_syms_def)
  have s: "svr4_syms 0 12 demo_syms = [\<lparr>as_off = 8, as_hash = 102, as_name = Some (0, 12)\<rparr>,
      \<lparr>as_off = 9, as_hash = 1752, as_name = Some (0, 14)\<rparr>]"
    by (simp add: demo_syms_def elf_hash_def push_bit_eq_mult)
  have g: "list_all (good_sym (e_rawsize demo_ar_elf)) demo_syms" "demo_syms \<noteq> []" "length demo_syms = 2"
    by (simp_all add: demo_syms_def good_sym_def demo_ar_elf_def)
  have e: "elfs demo_ar_store 0 = Some demo_ar_elf" "mem demo_ar_store 0 = Some (svr4_table demo_syms)"
    "oom demo_ar_store = []" by (simp_all add: demo_ar_store_def initial_store_def)
  have f: "e_kind demo_ar_elf = ELF_K_AR" "e_flags demo_ar_elf AND LIBELF_F_AR_VARIANT_SVR4 \<noteq> 0"
    "e_symtab demo_ar_elf = None" "e_rawsymtab demo_ar_elf = Some (0, 0)"
    "unat (e_rawsymtabsz demo_ar_elf) = length (svr4_table demo_syms)"
    by (simp_all add: demo_ar_elf_def new_elf_def t)
  show ?thesis
    using getarsym_reads_table [OF e(1) f(1-4) e(2,3) _ f(5) g(2) _ g(1) refl, of "[]"] g(3) s by auto
qed
end
