(* ===== verification/Eu_Checksum.thy ===== *)
theory Eu_Checksum
  imports Eu_Compress Elf_Archive
begin

text \<open>
  The checksum over the sections that stay in the program when it is stripped
  (\<open>elf32_checksum.c\<close>, \<open>elf-knowledge.h\<close>).
\<close>

section \<open>The code\<close>

definition process_block :: "u32 \<Rightarrow> Elf_Data \<Rightarrow> eu_store \<Rightarrow> u32 outcome" where
  "process_block crc d es =
     (if d_size d = 0 then Returned (crc32 crc [])
      else of_option (map_option (crc32 crc) (read_bytes (d_buf d) (unat (d_size d)) (eu_mach es))))"

text \<open>
  \<open>SECTION_STRIP_P\<close> for the removal of comments.  Its argument \<open>name\<close> is the call of \<open>elf_strptr\<close>,
  which is made for sections of program data only, once for the test for \<open>NULL\<close> and once for the
  comparison.
\<close>

definition warning_prefix :: "byte list" where
  "warning_prefix = map (\<lambda>c. of_nat (of_char c)) ''.gnu.warning.''"

definition SECTION_STRIP_P ::
  "nat \<Rightarrow> 'z zlib \<Rightarrow> pread \<Rightarrow> bool \<Rightarrow> nat option \<Rightarrow> u64 \<Rightarrow> GElf_Shdr \<Rightarrow> eu_store \<Rightarrow> (bool \<times> eu_store) outcome"
where
  "SECTION_STRIP_P fuel z pr unaligned er shstrndx sh es =
     (if sh_flags sh AND SHF_ALLOC \<noteq> 0 \<or> sh_type sh = SHT_NOTE then Returned (False, es)
      else if sh_type sh \<noteq> SHT_PROGBITS then Returned (True, es)
      else
        and_then (eu_elf_strptr fuel z pr unaligned er shstrndx (ucast (sh_name sh)) es)
          (\<lambda>(name, es).
             if name = None then Returned (False, es)
             else
               and_then (eu_elf_strptr fuel z pr unaligned er shstrndx (ucast (sh_name sh)) es)
                 (\<lambda>(name, es).
                    of_option
                      (do { (b, off) \<leftarrow> name;
                            str \<leftarrow> read_cstring b off (eu_mach es);
                            Some (take 13 str \<noteq> warning_prefix, es) }))))"

text \<open>The data of one section, in the byte order of the file; \<open>None\<close> where it cannot be converted.\<close>

fun checksum_datas ::
  "nat \<Rightarrow> pread \<Rightarrow> bool \<Rightarrow> int \<Rightarrow> u32 \<Rightarrow> eu_scn_ref \<Rightarrow> eu_data_ref option \<Rightarrow> u32 \<Rightarrow> eu_store
    \<Rightarrow> (u32 option \<times> eu_store) outcome"
where
  "checksum_datas 0 pr unaligned bits order s dr crc es = Running"
| "checksum_datas (Suc fuel) pr unaligned bits order s dr crc es =
     and_then (eu_elf_getdata fuel pr unaligned (Some s) dr es)
       (\<lambda>(dr, es).
          case dr of None \<Rightarrow> Returned (Some crc, es)
          | Some d' \<Rightarrow>
              and_then (of_option (eu_data d' es))
                (\<lambda>(d, owner).
                   if order = host_order (eu_mach es) \<or> d_type d = EU_T_BYTE then
                     and_then (process_block crc d es)
                       (\<lambda>crc. checksum_datas fuel pr unaligned bits order s (Some d') crc es)
                   else
                     and_then (eu_xlatetof fuel bits d d order es)
                       (\<lambda>(r, es).
                          case r of None \<Rightarrow> Returned (None, es)
                          | Some d \<Rightarrow>
                              and_then (process_block crc d es)
                                (\<lambda>crc.
                                   and_then (eu_xlatetom fuel bits d d order es)
                                     (\<lambda>(r, es).
                                        if r = None then Returned (None, es)
                                        else checksum_datas fuel pr unaligned bits order s (Some d') crc es)))))"

text \<open>
  The sections; \<open>None\<close> is the result -1.  Where there is raw data, the walk over the list goes on
  from it, although it is not an element of the list.
\<close>

fun eu_checksum_sections ::
  "nat \<Rightarrow> 'z zlib \<Rightarrow> pread \<Rightarrow> bool \<Rightarrow> int \<Rightarrow> u32 \<Rightarrow> u64 \<Rightarrow> nat \<Rightarrow> eu_scn_ref option \<Rightarrow> u32 \<Rightarrow> eu_store
    \<Rightarrow> (u32 option \<times> eu_store) outcome"
where
  "eu_checksum_sections 0 z pr unaligned bits order shstrndx e sr crc es = Running"
| "eu_checksum_sections (Suc fuel) z pr unaligned bits order shstrndx e sr crc es =
     and_then (of_option (eu_elf_nextscn (Some e) sr es))
       (\<lambda>(sr, es).
          case sr of None \<Rightarrow> Returned (Some crc, es)
          | Some s \<Rightarrow>
              and_then (of_option (eu_gelf_getshdr pr unaligned (Some s) True es))
                (\<lambda>(sh, es).
                   case sh of None \<Rightarrow> Returned (None, eu_seterrno EU_E_INVALID_SECTION_HEADER es)
                   | Some sh \<Rightarrow>
                       and_then (SECTION_STRIP_P fuel z pr unaligned (Some e) shstrndx sh es)
                         (\<lambda>(strip, es).
                            if strip \<or> sh_type sh = SHT_NOBITS
                            then eu_checksum_sections fuel z pr unaligned bits order shstrndx e (Some s) crc es
                            else
                              and_then (of_option (eu_elf_rawdata pr unaligned (Some s) None es))
                                (\<lambda>(dr, es).
                                   and_then
                                     (case dr of None \<Rightarrow> Returned crc
                                      | Some d' \<Rightarrow> and_then (of_option (eu_data d' es)) (\<lambda>(d, owner). process_block crc d es))
                                     (\<lambda>crc.
                                        and_then (checksum_datas fuel pr unaligned bits order s dr crc es)
                                          (\<lambda>(r, es).
                                             case r of None \<Rightarrow> Returned (None, es)
                                             | Some crc \<Rightarrow>
                                                 eu_checksum_sections fuel z pr unaligned bits order shstrndx e (Some s) crc es))))))"

definition eu_checksum ::
  "nat \<Rightarrow> 'z zlib \<Rightarrow> pread \<Rightarrow> bool \<Rightarrow> int \<Rightarrow> nat option \<Rightarrow> eu_store \<Rightarrow> (int \<times> eu_store) outcome"
where
  "eu_checksum fuel z pr unaligned bits er es =
     (case er of None \<Rightarrow> Returned (-1, es)
      | Some e \<Rightarrow>
          and_then (of_option (eu_elf_getshdrstrndx pr unaligned er es))
            (\<lambda>(r, es).
               case r of None \<Rightarrow> Returned (-1, eu_seterrno EU_E_INVALID_HANDLE es)
               | Some shstrndx \<Rightarrow>
                   and_then (of_option (do { elf \<leftarrow> eu_elfs es e; ee_ehdr elf }))
                     (\<lambda>eh.
                        and_then
                          (eu_checksum_sections fuel z pr unaligned bits (ucast (ehdr_ident eh ! EI_DATA)) shstrndx e None 0 es)
                          (\<lambda>(r, es). Returned (case r of None \<Rightarrow> -1 | Some crc \<Rightarrow> int (unat crc), es)))))"

end
