(* ===== verification/Eu_Flags.thy ===== *)
theory Eu_Flags
  imports Eu_State
begin

text \<open>
  The flag words of elfutils: \<open>elf_flagelf.c\<close>, \<open>elf_flagehdr.c\<close>, \<open>elf_flagphdr.c\<close>,
  \<open>elf_flagscn.c\<close>, \<open>elf_flagshdr.c\<close>, \<open>elf_flagdata.c\<close>.  Unlike the first library this one
  ignores bits that a caller may not set, and returns the whole word.
\<close>

section \<open>The code\<close>

definition eu_elf_flagelf :: "nat option \<Rightarrow> eu_cmd \<Rightarrow> u32 \<Rightarrow> eu_store \<Rightarrow> (u32 \<times> eu_store) option" where
  "eu_elf_flagelf er c flags es =
     (case er of None \<Rightarrow> Some (0, es)
      | Some e \<Rightarrow>
          do { elf \<leftarrow> eu_elfs es e;
               if ee_kind elf \<noteq> ELF_K_ELF then Some (0, eu_seterrno EU_E_INVALID_HANDLE es)
               else if c = EU_C_SET then
                 let r = ee_flags elf OR (flags AND (EU_F_DIRTY OR EU_F_LAYOUT OR EU_F_PERMISSIVE))
                 in Some (r, eu_put_elf e (elf\<lparr>ee_flags := r\<rparr>) es)
               else if c = EU_C_CLR then
                 let r = ee_flags elf AND NOT (flags AND (EU_F_DIRTY OR EU_F_LAYOUT OR EU_F_PERMISSIVE))
                 in Some (r, eu_put_elf e (elf\<lparr>ee_flags := r\<rparr>) es)
               else Some (0, eu_seterrno EU_E_INVALID_COMMAND es) })"

definition eu_elf_flagehdr :: "nat option \<Rightarrow> eu_cmd \<Rightarrow> u32 \<Rightarrow> eu_store \<Rightarrow> (u32 \<times> eu_store) option" where
  "eu_elf_flagehdr er c flags es =
     (case er of None \<Rightarrow> Some (0, es)
      | Some e \<Rightarrow>
          do { elf \<leftarrow> eu_elfs es e;
               if ee_kind elf \<noteq> ELF_K_ELF then Some (0, eu_seterrno EU_E_INVALID_HANDLE es)
               else if c = EU_C_SET then
                 let r = ee_ehdr_flags elf OR (flags AND EU_F_DIRTY)
                 in Some (r, eu_put_elf e (elf\<lparr>ee_ehdr_flags := r\<rparr>) es)
               else if c = EU_C_CLR then
                 let r = ee_ehdr_flags elf AND NOT (flags AND EU_F_DIRTY)
                 in Some (r, eu_put_elf e (elf\<lparr>ee_ehdr_flags := r\<rparr>) es)
               else Some (0, eu_seterrno EU_E_INVALID_COMMAND es) })"

definition eu_elf_flagphdr :: "nat option \<Rightarrow> eu_cmd \<Rightarrow> u32 \<Rightarrow> eu_store \<Rightarrow> (u32 \<times> eu_store) option" where
  "eu_elf_flagphdr er c flags es =
     (case er of None \<Rightarrow> Some (0, es)
      | Some e \<Rightarrow>
          do { elf \<leftarrow> eu_elfs es e;
               if ee_kind elf \<noteq> ELF_K_ELF then Some (0, eu_seterrno EU_E_INVALID_HANDLE es)
               else if c = EU_C_SET then
                 let r = ee_phdr_flags elf OR (flags AND EU_F_DIRTY)
                 in Some (r, eu_put_elf e (elf\<lparr>ee_phdr_flags := r\<rparr>) es)
               else if c = EU_C_CLR then
                 let r = ee_phdr_flags elf AND NOT (flags AND EU_F_DIRTY)
                 in Some (r, eu_put_elf e (elf\<lparr>ee_phdr_flags := r\<rparr>) es)
               else Some (0, eu_seterrno EU_E_INVALID_COMMAND es) })"

definition eu_elf_flagscn :: "eu_scn_ref option \<Rightarrow> eu_cmd \<Rightarrow> u32 \<Rightarrow> eu_store \<Rightarrow> (u32 \<times> eu_store) option" where
  "eu_elf_flagscn sr c flags es =
     (case sr of None \<Rightarrow> Some (0, es)
      | Some s \<Rightarrow>
          do { scn \<leftarrow> eu_scn s es;
               e \<leftarrow> sc_elf scn;
               elf \<leftarrow> eu_elfs es e;
               if ee_kind elf \<noteq> ELF_K_ELF then Some (0, eu_seterrno EU_E_INVALID_HANDLE es)
               else if c = EU_C_SET then
                 let r = sc_flags scn OR (flags AND EU_F_DIRTY)
                 in Some (r, eu_put_scn s (scn\<lparr>sc_flags := r\<rparr>) es)
               else if c = EU_C_CLR then
                 let r = sc_flags scn AND NOT (flags AND EU_F_DIRTY)
                 in Some (r, eu_put_scn s (scn\<lparr>sc_flags := r\<rparr>) es)
               else Some (0, eu_seterrno EU_E_INVALID_COMMAND es) })"

definition eu_elf_flagshdr :: "eu_scn_ref option \<Rightarrow> eu_cmd \<Rightarrow> u32 \<Rightarrow> eu_store \<Rightarrow> (u32 \<times> eu_store) option" where
  "eu_elf_flagshdr sr c flags es =
     (case sr of None \<Rightarrow> Some (0, es)
      | Some s \<Rightarrow>
          do { scn \<leftarrow> eu_scn s es;
               e \<leftarrow> sc_elf scn;
               elf \<leftarrow> eu_elfs es e;
               if ee_kind elf \<noteq> ELF_K_ELF then Some (0, eu_seterrno EU_E_INVALID_HANDLE es)
               else if c = EU_C_SET then
                 let r = sc_shdr_flags scn OR (flags AND EU_F_DIRTY)
                 in Some (r, eu_put_scn s (scn\<lparr>sc_shdr_flags := r\<rparr>) es)
               else if c = EU_C_CLR then
                 let r = sc_shdr_flags scn AND NOT (flags AND EU_F_DIRTY)
                 in Some (r, eu_put_scn s (scn\<lparr>sc_shdr_flags := r\<rparr>) es)
               else Some (0, eu_seterrno EU_E_INVALID_COMMAND es) })"

text \<open>The flags of data are those of its section.\<close>

definition eu_elf_flagdata :: "eu_data_ref option \<Rightarrow> eu_cmd \<Rightarrow> u32 \<Rightarrow> eu_store \<Rightarrow> (u32 \<times> eu_store) option" where
  "eu_elf_flagdata dr c flags es =
     (case dr of None \<Rightarrow> Some (0, es)
      | Some d \<Rightarrow>
          do { (x, sr) \<leftarrow> eu_data d es;
               s \<leftarrow> sr;
               scn \<leftarrow> eu_scn s es;
               e \<leftarrow> sc_elf scn;
               elf \<leftarrow> eu_elfs es e;
               if ee_kind elf \<noteq> ELF_K_ELF then Some (0, eu_seterrno EU_E_INVALID_HANDLE es)
               else if c = EU_C_SET then
                 let r = sc_flags scn OR (flags AND EU_F_DIRTY)
                 in Some (r, eu_put_scn s (scn\<lparr>sc_flags := r\<rparr>) es)
               else if c = EU_C_CLR then
                 let r = sc_flags scn AND NOT (flags AND EU_F_DIRTY)
                 in Some (r, eu_put_scn s (scn\<lparr>sc_flags := r\<rparr>) es)
               else Some (0, eu_seterrno EU_E_INVALID_COMMAND es) })"

section \<open>The contract of a flag operation\<close>

text \<open>
  \<open>fword r es\<close> is the flag word of an object that belongs to an ELF descriptor; only the bits
  of \<open>allowed\<close> change.
\<close>

locale eu_flag_word =
  fixes flagop :: "'r option \<Rightarrow> eu_cmd \<Rightarrow> u32 \<Rightarrow> eu_store \<Rightarrow> (u32 \<times> eu_store) option"
    and fword :: "'r \<Rightarrow> eu_store \<Rightarrow> u32 option"
    and allowed :: u32
  assumes null: "flagop None c flags es = Some (0, es)"
    and set: "fword r es = Some w \<Longrightarrow> \<exists>es'. flagop (Some r) EU_C_SET flags es = Some (w OR (flags AND allowed), es')
      \<and> fword r es' = Some (w OR (flags AND allowed)) \<and> eu_global_error es' = eu_global_error es"
    and clear: "fword r es = Some w \<Longrightarrow> \<exists>es'. flagop (Some r) EU_C_CLR flags es = Some (w AND NOT (flags AND allowed), es')
      \<and> fword r es' = Some (w AND NOT (flags AND allowed)) \<and> eu_global_error es' = eu_global_error es"
    and other: "fword r es = Some w \<Longrightarrow> c \<noteq> EU_C_SET \<Longrightarrow> c \<noteq> EU_C_CLR
      \<Longrightarrow> flagop (Some r) c flags es = Some (0, eu_seterrno EU_E_INVALID_COMMAND es)"
begin

text \<open>Setting no bits tells the flags; what was set is cleared; bits that are not allowed stay.\<close>

lemma query: "fword r es = Some w \<Longrightarrow> \<exists>es'. flagop (Some r) EU_C_SET 0 es = Some (w, es') \<and> fword r es' = Some w"
  using set [of r es w 0] by auto

lemma set_clear:
  assumes "fword r es = Some w"
  shows "\<exists>es1 es2. flagop (Some r) EU_C_SET flags es = Some (w OR (flags AND allowed), es1)
    \<and> flagop (Some r) EU_C_CLR flags es1 = Some (w AND NOT (flags AND allowed), es2)"
proof -
  obtain es1 where 1: "flagop (Some r) EU_C_SET flags es = Some (w OR (flags AND allowed), es1)"
    "fword r es1 = Some (w OR (flags AND allowed))" using set [OF assms] by blast
  have "(w OR (flags AND allowed)) AND NOT (flags AND allowed) = w AND NOT (flags AND allowed)"
    by (rule bit_word_eqI) (auto simp: bit_simps)
  then show ?thesis using 1 clear [OF 1(2), of flags] by auto
qed

lemma keeps_others:
  assumes "fword r es = Some w" "flagop (Some r) c flags es = Some (v, es')" "c = EU_C_SET \<or> c = EU_C_CLR"
  shows "v AND NOT allowed = w AND NOT allowed"
proof -
  have "(w OR (flags AND allowed)) AND NOT allowed = w AND NOT allowed"
    "(w AND NOT (flags AND allowed)) AND NOT allowed = w AND NOT allowed"
    by (rule bit_word_eqI; auto simp: bit_simps)+
  then show ?thesis using set [OF assms(1), of flags] clear [OF assms(1), of flags] assms(2,3) by auto
qed

end

definition elf_of_kind :: "(Eu_Elf \<Rightarrow> u32) \<Rightarrow> nat \<Rightarrow> eu_store \<Rightarrow> u32 option" where
  "elf_of_kind f e es = (case eu_elfs es e of Some elf \<Rightarrow> if ee_kind elf = ELF_K_ELF then Some (f elf) else None | None \<Rightarrow> None)"

definition scn_of_kind :: "(Eu_Scn \<Rightarrow> u32) \<Rightarrow> eu_scn_ref \<Rightarrow> eu_store \<Rightarrow> u32 option" where
  "scn_of_kind f s es =
     do { scn \<leftarrow> eu_scn s es; e \<leftarrow> sc_elf scn; elf \<leftarrow> eu_elfs es e;
          if ee_kind elf = ELF_K_ELF then Some (f scn) else None }"

lemma eu_kind_put_scn: "map_option ee_kind (eu_elfs (eu_put_scn s x es) e) = map_option ee_kind (eu_elfs es e)"
  by (cases s) (auto simp: eu_put_scn_def split: option.splits)

lemma eu_put_scn_error [simp]: "eu_global_error (eu_put_scn s x es) = eu_global_error es"
  by (cases s) (auto simp: eu_put_scn_def split: option.splits)

lemma scn_of_kind_put:
  assumes "eu_scn s es = Some scn" "sc_elf y = sc_elf scn" "scn_of_kind f s es = Some w"
  shows "scn_of_kind g s (eu_put_scn s y es) = Some (g y)"
  using assms eu_kind_put_scn [of s y es "the (sc_elf y)"]
  by (auto simp: scn_of_kind_def eu_scn_put_scn split: bind_splits if_splits)

lemma elf_of_kindE:
  assumes "elf_of_kind f e es = Some w"
  obtains elf where "eu_elfs es e = Some elf" "ee_kind elf = ELF_K_ELF" "w = f elf"
  using assms by (auto simp: elf_of_kind_def split: option.splits if_splits)

lemma elf_of_kind_put [simp]: "elf_of_kind f e (eu_put_elf e x es) = (if ee_kind x = ELF_K_ELF then Some (f x) else None)"
  by (simp add: elf_of_kind_def)

lemma scn_of_kindE:
  assumes "scn_of_kind f s es = Some w"
  obtains scn e elf where "eu_scn s es = Some scn" "sc_elf scn = Some e" "eu_elfs es e = Some elf"
    "ee_kind elf = ELF_K_ELF" "w = f scn"
  using assms by (auto simp: scn_of_kind_def split: bind_splits if_splits)

interpretation eu_flagelf: eu_flag_word eu_elf_flagelf "elf_of_kind ee_flags" "EU_F_DIRTY OR EU_F_LAYOUT OR EU_F_PERMISSIVE"
  by unfold_locales (auto elim!: elf_of_kindE simp: eu_elf_flagelf_def Let_def)

interpretation eu_flagehdr: eu_flag_word eu_elf_flagehdr "elf_of_kind ee_ehdr_flags" EU_F_DIRTY
  by unfold_locales (auto elim!: elf_of_kindE simp: eu_elf_flagehdr_def Let_def)

interpretation eu_flagphdr: eu_flag_word eu_elf_flagphdr "elf_of_kind ee_phdr_flags" EU_F_DIRTY
  by unfold_locales (auto elim!: elf_of_kindE simp: eu_elf_flagphdr_def Let_def)

interpretation eu_flagscn: eu_flag_word eu_elf_flagscn "scn_of_kind sc_flags" EU_F_DIRTY
proof (unfold_locales, goal_cases)
  case (2 s es w flags)
  then obtain scn e elf where "eu_scn s es = Some scn" "sc_elf scn = Some e" "eu_elfs es e = Some elf"
    "ee_kind elf = ELF_K_ELF" "w = sc_flags scn" by (rule scn_of_kindE)
  then show ?case using scn_of_kind_put [OF _ _ 2] by (simp add: eu_elf_flagscn_def Let_def)
next
  case (3 s es w flags)
  then obtain scn e elf where "eu_scn s es = Some scn" "sc_elf scn = Some e" "eu_elfs es e = Some elf"
    "ee_kind elf = ELF_K_ELF" "w = sc_flags scn" by (rule scn_of_kindE)
  then show ?case using scn_of_kind_put [OF _ _ 3] by (simp add: eu_elf_flagscn_def Let_def)
qed (auto elim!: scn_of_kindE simp: eu_elf_flagscn_def)

interpretation eu_flagshdr: eu_flag_word eu_elf_flagshdr "scn_of_kind sc_shdr_flags" EU_F_DIRTY
proof (unfold_locales, goal_cases)
  case (2 s es w flags)
  then obtain scn e elf where "eu_scn s es = Some scn" "sc_elf scn = Some e" "eu_elfs es e = Some elf"
    "ee_kind elf = ELF_K_ELF" "w = sc_shdr_flags scn" by (rule scn_of_kindE)
  then show ?case using scn_of_kind_put [OF _ _ 2] by (simp add: eu_elf_flagshdr_def Let_def)
next
  case (3 s es w flags)
  then obtain scn e elf where "eu_scn s es = Some scn" "sc_elf scn = Some e" "eu_elfs es e = Some elf"
    "ee_kind elf = ELF_K_ELF" "w = sc_shdr_flags scn" by (rule scn_of_kindE)
  then show ?case using scn_of_kind_put [OF _ _ 3] by (simp add: eu_elf_flagshdr_def Let_def)
qed (auto elim!: scn_of_kindE simp: eu_elf_flagshdr_def)

text \<open>The flags of data are read and written through its section.\<close>

lemma data_of_kind_section:
  assumes "eu_data d es = Some (x, Some s)"
  shows "eu_elf_flagdata (Some d) c flags es = eu_elf_flagscn (Some s) c flags es"
  by (simp add: eu_elf_flagdata_def eu_elf_flagscn_def assms)

end
