(* ===== verification/Elf_Extents.thy ===== *)
theory Elf_Extents
  imports Elf_Section_Data
begin

text \<open>
  The list of extents that \<open>elf_update.c\<close> lays a file out with: regions of the file, in
  ascending order and without overlap.  The list is meant to represent a set of file
  offsets; the locale \<open>region_set\<close> states this contract.
\<close>

section \<open>Definitions\<close>

datatype elf_extent = ELF_EXTENT_EHDR | ELF_EXTENT_PHDR | ELF_EXTENT_SECTION | ELF_EXTENT_SHDR

text \<open>
  \<open>ex_desc\<close> is the section of an extent of type \<open>ELF_EXTENT_SECTION\<close>; the code never reads
  the pointers it stores there for the other types.
\<close>

record Elf_Extent =
  ex_start :: u64
  ex_size :: u64
  ex_type :: elf_extent
  ex_desc :: "scn_ref option"

text \<open>
  The loop of \<open>_libelf_extent_is_unused\<close>.  \<open>pt\<close> is the extent last passed and \<open>k\<close> the number
  of those passed; the result is that number, which tells where a new extent goes, or
  nothing when there is an overlap.
\<close>

fun extent_is_unused :: "Elf_Extent list \<Rightarrow> u64 \<Rightarrow> u64 \<Rightarrow> Elf_Extent option \<Rightarrow> nat \<Rightarrow> (nat option) option" where
  "extent_is_unused [] start sz pt k = Some (Some k)"
| "extent_is_unused (t # ts) start sz pt k =
     (let smax = start + sz; tmin = ex_start t; tmax = tmin + ex_size t
      in if tmax \<le> start then extent_is_unused ts start sz (Some t) (Suc k)
         else if smax \<le> tmin then
           do { assert_that (case pt of None \<Rightarrow> True | Some p \<Rightarrow> ex_start p + ex_size p \<le> start);
                Some (Some k) }
         else Some None)"

definition libelf_insert_extent ::
  "Elf_Extent list \<Rightarrow> elf_extent \<Rightarrow> u64 \<Rightarrow> u64 \<Rightarrow> scn_ref option \<Rightarrow> store
    \<Rightarrow> ((bool \<times> Elf_Extent list) \<times> store) option"
where
  "libelf_insert_extent extents type start sz desc st =
     do { unused \<leftarrow> extent_is_unused extents start sz None 0;
          case unused of None \<Rightarrow> Some ((False, extents), set_error ELF_E_LAYOUT st)
          | Some k \<Rightarrow>
              (let (ok, st) = alloc_ok st
               in if \<not> ok then Some ((False, extents), set_error_os ELF_E_RESOURCE ENOMEM st)
                  else
                    Some ((True, take k extents
                             @ \<lparr>ex_start = start, ex_size = sz, ex_type = type, ex_desc = desc\<rparr>
                             # drop k extents), st)) }"

section \<open>What the list stands for\<close>

definition ex_end :: "Elf_Extent \<Rightarrow> nat" where
  "ex_end x = unat (ex_start x) + unat (ex_size x)"

definition ex_span :: "Elf_Extent \<Rightarrow> nat set" where
  "ex_span x = {unat (ex_start x) ..< ex_end x}"

text \<open>An extent is not empty and does not wrap around the address space.\<close>

definition ex_ok :: "Elf_Extent \<Rightarrow> bool" where
  "ex_ok x \<longleftrightarrow> ex_size x \<noteq> 0 \<and> ex_end x < 2 ^ 64"

definition extents_ok :: "Elf_Extent list \<Rightarrow> bool" where
  "extents_ok xs \<longleftrightarrow> sorted_wrt (\<lambda>x y. ex_end x \<le> unat (ex_start y)) xs \<and> list_all ex_ok xs"

definition covered :: "Elf_Extent list \<Rightarrow> nat set" where
  "covered xs = (\<Union>x \<in> set xs. ex_span x)"

lemma extents_ok_simps [simp]:
  "extents_ok []"
  "extents_ok (x # xs) \<longleftrightarrow> ex_ok x \<and> (\<forall>y \<in> set xs. ex_end x \<le> unat (ex_start y)) \<and> extents_ok xs"
  by (auto simp: extents_ok_def)

lemma extents_ok_append:
  "extents_ok (xs @ ys) \<longleftrightarrow>
     extents_ok xs \<and> extents_ok ys \<and> (\<forall>x \<in> set xs. \<forall>y \<in> set ys. ex_end x \<le> unat (ex_start y))"
  by (auto simp: extents_ok_def sorted_wrt_append)

lemma covered_simps [simp]:
  "covered [] = {}" "covered (x # xs) = ex_span x \<union> covered xs" "covered (xs @ ys) = covered xs \<union> covered ys"
  by (auto simp: covered_def)

lemma ex_ok_end: "ex_ok x \<Longrightarrow> unat (ex_start x + ex_size x) = ex_end x"
  by (simp add: ex_ok_def ex_end_def unat_add_small)

lemma ex_ok_start_less: "ex_ok x \<Longrightarrow> unat (ex_start x) < ex_end x"
  by (simp add: ex_ok_def ex_end_def unat_gt_0)

text \<open>
  The search on a well-formed list.  The extents that were passed end at or before \<open>start\<close>.
\<close>

lemma extent_is_unused_spec:
  assumes "extents_ok xs" "sz \<noteq> 0" "unat start + unat sz < 2 ^ 64"
    and "\<And>p. pt = Some p \<Longrightarrow> ex_start p + ex_size p \<le> start"
  shows "if covered xs \<inter> {unat start ..< unat start + unat sz} = {}
    then \<exists>k \<le> length xs. extent_is_unused xs start sz pt n = Some (Some (n + k))
       \<and> (\<forall>x \<in> set (take k xs). ex_end x \<le> unat start)
       \<and> (\<forall>x \<in> set (drop k xs). unat start + unat sz \<le> unat (ex_start x))
    else extent_is_unused xs start sz pt n = Some None"
  using assms
proof (induction xs arbitrary: pt n)
  case Nil
  then show ?case by (auto intro!: exI [of _ 0])
next
  case (Cons t ts)
  have t: "ex_ok t" "extents_ok ts" "\<And>y. y \<in> set ts \<Longrightarrow> ex_end t \<le> unat (ex_start y)"
    using Cons.prems(1) by auto
  have lt: "unat (ex_start t) < ex_end t" using ex_ok_start_less [OF t(1)] .
  have smax: "unat (start + sz) = unat start + unat sz" using Cons.prems(3) by (rule unat_add_small)
  have sz: "0 < unat sz" using Cons.prems(2) by (simp add: unat_gt_0)
  note tmax = ex_ok_end [OF t(1)]
  let ?s = "{unat start ..< unat start + unat sz}"
  consider (before) "ex_end t \<le> unat start" | (after) "unat start < ex_end t" "unat start + unat sz \<le> unat (ex_start t)"
    | (overlap) "unat start < ex_end t" "unat (ex_start t) < unat start + unat sz" by linarith
  then show ?case
  proof cases
    case before
    then have le: "ex_start t + ex_size t \<le> start" by (simp add: word_le_nat_alt tmax)
    have "ex_span t \<inter> ?s = {}" using before by (auto simp: ex_span_def)
    moreover note Cons.IH [OF t(2) Cons.prems(2,3), of "Some t" "Suc n"] le
    ultimately show ?thesis
      using before by (fastforce simp: Int_Un_distrib2 Let_def intro: exI [of _ "Suc _"])
  next
    case after
    then have "\<not> ex_start t + ex_size t \<le> start" "start + sz \<le> ex_start t"
      by (simp_all add: word_le_nat_alt tmax smax)
    moreover have "covered (t # ts) \<inter> ?s = {}"
      using after(2) t(3) lt by (fastforce simp: covered_def ex_span_def)
    moreover have "\<forall>x \<in> set (t # ts). unat start + unat sz \<le> unat (ex_start x)"
      using after(2) t(3) lt by fastforce
    ultimately show ?thesis
      using Cons.prems(4) by (auto simp: Let_def split: option.splits intro!: exI [of _ 0])
  next
    case overlap
    then have "\<not> ex_start t + ex_size t \<le> start" "\<not> start + sz \<le> ex_start t"
      by (simp_all add: word_le_nat_alt tmax smax)
    moreover have "max (unat start) (unat (ex_start t)) \<in> covered (t # ts) \<inter> ?s"
      using overlap lt sz by (auto simp: ex_span_def)
    ultimately show ?thesis by (auto simp: Let_def)
  qed
qed

section \<open>The contract of a set of regions\<close>

text \<open>
  \<open>add s n\<close> adds the region of \<open>n\<close> bytes at \<open>s\<close> when it is free, and only then.
\<close>

locale region_set =
  fixes inv :: "'l \<Rightarrow> bool" and cov :: "'l \<Rightarrow> nat set" and add :: "nat \<Rightarrow> nat \<Rightarrow> 'l \<Rightarrow> 'l option"
  assumes add_free: "inv l \<Longrightarrow> 0 < n \<Longrightarrow> s + n < 2 ^ 64 \<Longrightarrow> cov l \<inter> {s ..< s + n} = {}
      \<Longrightarrow> \<exists>l'. add s n l = Some l' \<and> inv l' \<and> cov l' = cov l \<union> {s ..< s + n}"
    and add_taken: "inv l \<Longrightarrow> 0 < n \<Longrightarrow> s + n < 2 ^ 64 \<Longrightarrow> cov l \<inter> {s ..< s + n} \<noteq> {} \<Longrightarrow> add s n l = None"
begin

lemma add_Some_iff:
  assumes "inv l" "0 < n" "s + n < 2 ^ 64"
  shows "(\<exists>l'. add s n l = Some l') \<longleftrightarrow> cov l \<inter> {s ..< s + n} = {}"
  using add_free [OF assms] add_taken [OF assms] by fastforce

lemma add_SomeD:
  assumes "inv l" "0 < n" "s + n < 2 ^ 64" "add s n l = Some l'"
  shows "inv l'" "cov l' = cov l \<union> {s ..< s + n}" "cov l \<inter> {s ..< s + n} = {}"
proof -
  have *: "cov l \<inter> {s ..< s + n} = {}" using add_taken [OF assms(1-3)] assms(4) by auto
  with add_free [OF assms(1-3)] assms(4) show "inv l'" "cov l' = cov l \<union> {s ..< s + n}" by auto
  show "cov l \<inter> {s ..< s + n} = {}" by (rule *)
qed

text \<open>A region behind everything that is there can be added.\<close>

lemma add_behind:
  assumes "inv l" "0 < n" "s + n < 2 ^ 64" "cov l \<subseteq> {..<r}" "r \<le> s"
  shows "\<exists>l'. add s n l = Some l' \<and> inv l' \<and> cov l' \<subseteq> {..<s + n}"
proof -
  have "cov l \<inter> {s ..< s + n} = {}" using assms(4,5) by fastforce
  then show ?thesis using add_free [OF assms(1-3)] assms(4,5) by fastforce
qed

text \<open>Two regions can be added in either order, with the same result.\<close>

lemma add_commute:
  assumes "inv l" "0 < n" "s + n < 2 ^ 64" "0 < m" "t + m < 2 ^ 64"
    and "add s n l = Some l1" "add t m l1 = Some l2"
  shows "\<exists>l1' l2'. add t m l = Some l1' \<and> add s n l1' = Some l2' \<and> cov l2' = cov l2"
proof -
  note 1 = add_SomeD [OF assms(1-3,6)]
  note 2 = add_SomeD [OF 1(1) assms(4,5,7)]
  have "cov l \<inter> {t ..< t + m} = {}" using 1(2) 2(3) by auto
  then obtain l1' where 3: "add t m l = Some l1'" "inv l1'" "cov l1' = cov l \<union> {t ..< t + m}"
    using add_free [OF assms(1,4,5)] by auto
  moreover have "cov l1' \<inter> {s ..< s + n} = {}" using 1(2,3) 2(3) 3(3) by auto
  then obtain l2' where "add s n l1' = Some l2'" "cov l2' = cov l1' \<union> {s ..< s + n}"
    using add_free [OF 3(2) assms(2,3)] by auto
  ultimately show ?thesis using 1(2) 2(2) by (intro exI [of _ l1'] exI [of _ l2']) auto
qed

end

section \<open>The extent list is a set of regions\<close>

definition insert_region :: "elf_extent \<Rightarrow> scn_ref option \<Rightarrow> nat \<Rightarrow> nat \<Rightarrow> Elf_Extent list \<Rightarrow> Elf_Extent list option" where
  "insert_region type desc s n xs =
     (case extent_is_unused xs (of_nat s) (of_nat n) None 0 of
        Some (Some k) \<Rightarrow>
          Some (take k xs @ \<lparr>ex_start = of_nat s, ex_size = of_nat n, ex_type = type, ex_desc = desc\<rparr> # drop k xs)
      | _ \<Rightarrow> None)"

lemma insert_region_free:
  assumes "extents_ok xs" "0 < n" "s + n < 2 ^ 64" "covered xs \<inter> {s ..< s + n} = {}"
  shows "\<exists>xs'. insert_region type desc s n xs = Some xs' \<and> extents_ok xs' \<and> covered xs' = covered xs \<union> {s ..< s + n}"
proof -
  let ?x = "\<lparr>ex_start = of_nat s, ex_size = of_nat n, ex_type = type, ex_desc = desc\<rparr> :: Elf_Extent"
  have u: "unat (of_nat s :: u64) = s" "unat (of_nat n :: u64) = n"
    using assms(3) by (simp_all add: unat_of_nat_u64)
  have "(of_nat n :: u64) \<noteq> 0" using u(2) assms(2) by (metis less_numeral_extra(3) unat_0)
  with extent_is_unused_spec [OF assms(1), of "of_nat n" "of_nat s" None 0] assms(3,4)
  obtain k where k: "k \<le> length xs" "extent_is_unused xs (of_nat s) (of_nat n) None 0 = Some (Some k)"
    "\<forall>x \<in> set (take k xs). ex_end x \<le> s" "\<forall>x \<in> set (drop k xs). s + n \<le> unat (ex_start x)"
    by (auto simp: u)
  have x: "ex_ok ?x" "ex_end ?x = s + n" "ex_span ?x = {s ..< s + n}"
    using assms(3) u \<open>(of_nat n :: u64) \<noteq> 0\<close> by (simp_all add: ex_ok_def ex_end_def ex_span_def)
  have "extents_ok (take k xs @ drop k xs)" using assms(1) by simp
  then have "extents_ok (take k xs @ ?x # drop k xs)"
    unfolding extents_ok_append using k(3,4) x by (auto simp: u)
  moreover have "covered (take k xs @ ?x # drop k xs) = covered (take k xs @ drop k xs) \<union> ex_span ?x"
    by (simp only: covered_simps) blast
  ultimately show ?thesis using k(2) x(3) by (simp add: insert_region_def)
qed

lemma insert_region_taken:
  assumes "extents_ok xs" "0 < n" "s + n < 2 ^ 64" "covered xs \<inter> {s ..< s + n} \<noteq> {}"
  shows "extent_is_unused xs (of_nat s) (of_nat n) None 0 = Some None" "insert_region type desc s n xs = None"
proof -
  have u: "unat (of_nat s :: u64) = s" "unat (of_nat n :: u64) = n"
    using assms(3) by (simp_all add: unat_of_nat_u64)
  then have "(of_nat n :: u64) \<noteq> 0" using assms(2) by (metis less_numeral_extra(3) unat_0)
  with extent_is_unused_spec [OF assms(1), of "of_nat n" "of_nat s" None 0] assms(3,4)
  show "extent_is_unused xs (of_nat s) (of_nat n) None 0 = Some None" by (simp add: u)
  then show "insert_region type desc s n xs = None" by (simp add: insert_region_def)
qed

text \<open>A region behind everything that is there is appended.\<close>

lemma extent_is_unused_behind:
  "\<forall>x\<in>set xs. ex_ok x \<and> ex_end x \<le> unat start \<Longrightarrow> extent_is_unused xs start sz pt k = Some (Some (k + length xs))"
  by (induction xs arbitrary: pt k) (simp_all add: Let_def word_le_nat_alt ex_ok_end)

lemma insert_region_behind:
  assumes "extents_ok xs" "s + n < 2 ^ 64" "covered xs \<subseteq> {..<r}" "r \<le> s"
  shows "insert_region type desc s n xs
    = Some (xs @ [\<lparr>ex_start = of_nat s, ex_size = of_nat n, ex_type = type, ex_desc = desc\<rparr>])"
proof -
  have u: "unat (of_nat s :: u64) = s" using assms(2) by (simp add: unat_of_nat_u64)
  have "ex_ok x \<and> ex_end x \<le> s" if x: "x \<in> set xs" for x
  proof -
    have ok: "ex_ok x" using assms(1) x by (simp add: extents_ok_def list_all_iff)
    then have "ex_end x - 1 \<in> ex_span x" using ex_ok_start_less [OF ok] by (auto simp: ex_span_def)
    then have "ex_end x - 1 < r" using assms(3) x by (auto simp: covered_def)
    then show ?thesis using ok assms(4) by simp
  qed
  then show ?thesis
    using extent_is_unused_behind [of xs "of_nat s" "of_nat n" None 0] by (simp add: u insert_region_def)
qed

interpretation regions: region_set extents_ok covered "insert_region type desc" for type desc
  by unfold_locales (auto simp: insert_region_free insert_region_taken)

lemma libelf_insert_extent_region:
  assumes "extents_ok xs" "0 < n" "s + n < 2 ^ 64" "oom st = []"
  shows "libelf_insert_extent xs type (of_nat s) (of_nat n) desc st
    = Some (case insert_region type desc s n xs of
        Some xs' \<Rightarrow> ((True, xs'), st) | None \<Rightarrow> ((False, xs), set_error ELF_E_LAYOUT st))"
proof (cases "covered xs \<inter> {s ..< s + n} = {}")
  case True
  from insert_region_free [OF assms(1-3) this, of type desc] obtain k where
    "extent_is_unused xs (of_nat s) (of_nat n) None 0 = Some (Some k)"
    by (auto simp: insert_region_def split: option.splits)
  then show ?thesis using assms(4) by (simp add: libelf_insert_extent_def insert_region_def)
next
  case False
  then show ?thesis
    using insert_region_taken [OF assms(1-3) False] by (simp add: libelf_insert_extent_def)
qed

section \<open>Properties\<close>

text \<open>
  C19. The extent list implements a set of file offsets.  Inserting a region that does not
  wrap succeeds exactly when it is disjoint from those in the list; then the list, which
  stays sorted and free of overlap, covers that region in addition.  Otherwise there is a
  layout error and the list is as before.
\<close>

theorem insert_extent_refines_regions:
  assumes "extents_ok xs" "sz \<noteq> 0" "unat start + unat sz < 2 ^ 64" "oom st = []"
  shows "\<exists>r xs' st'. libelf_insert_extent xs type start sz desc st = Some ((r, xs'), st')
    \<and> extents_ok xs'
    \<and> (r \<longleftrightarrow> covered xs \<inter> {unat start ..< unat start + unat sz} = {})
    \<and> (r \<longrightarrow> st' = st \<and> covered xs' = covered xs \<union> {unat start ..< unat start + unat sz})
    \<and> (\<not> r \<longrightarrow> st' = set_error ELF_E_LAYOUT st \<and> xs' = xs)"
proof -
  have n: "0 < unat sz" using assms(2) by (simp add: unat_gt_0)
  note eq = libelf_insert_extent_region [OF assms(1) n assms(3,4), of type desc, simplified]
  show ?thesis
  proof (cases "insert_region type desc (unat start) (unat sz) xs")
    case None
    then have "\<not> covered xs \<inter> {unat start ..< unat start + unat sz} = {}"
      using regions.add_Some_iff [OF assms(1) n assms(3), of type desc] by auto
    then show ?thesis using eq None assms(1) by auto
  next
    case (Some xs')
    then show ?thesis using eq regions.add_SomeD [OF assms(1) n assms(3) Some] by auto
  qed
qed

theorem insert_extent_refines_regions_witness:
  "\<exists>st'. libelf_insert_extent [\<lparr>ex_start = 0, ex_size = 52, ex_type = ELF_EXTENT_EHDR, ex_desc = None\<rparr>]
     ELF_EXTENT_SECTION 40 8 (Some 3) demo_strings
   = Some ((False, [\<lparr>ex_start = 0, ex_size = 52, ex_type = ELF_EXTENT_EHDR, ex_desc = None\<rparr>]), st')"
proof -
  let ?x = "\<lparr>ex_start = 0, ex_size = 52, ex_type = ELF_EXTENT_EHDR, ex_desc = None\<rparr> :: Elf_Extent"
  have "extents_ok [?x]" by (simp add: ex_ok_def ex_end_def)
  moreover have "oom demo_strings = []" by (simp add: demo_strings_def demo_elf_store_def initial_store_def)
  ultimately have "\<exists>r xs' st'. libelf_insert_extent [?x] ELF_EXTENT_SECTION 40 8 (Some 3) demo_strings = Some ((r, xs'), st')
    \<and> (r \<longleftrightarrow> covered [?x] \<inter> {40 ..< 48} = {}) \<and> (\<not> r \<longrightarrow> xs' = [?x])"
    using insert_extent_refines_regions [of "[?x]" 8 40 demo_strings ELF_EXTENT_SECTION "Some 3"] by auto
  moreover have "40 \<in> covered [?x] \<inter> {40 ..< 48 :: nat}" by (simp add: ex_span_def ex_end_def)
  ultimately show ?thesis by (elim exE conjE) auto
qed

end
