(* ===== verification/Elf_Layout.thy ===== *)
theory Elf_Layout
  imports Elf_Extents
begin

text \<open>
  The layout half of \<open>elf_update.c\<close>: the extent of a section, of all sections, and of the
  whole object.  A value of type \<open>off_t\<close> is a 64-bit word read as a signed number;
  overflow of its arithmetic is undefined in C, so it faults.
\<close>

section \<open>Arithmetic on file offsets\<close>

definition off_add :: "u64 \<Rightarrow> u64 \<Rightarrow> u64 option" where
  "off_add a b =
     do { assert_that (sint a + sint b < 2 ^ 63 \<and> - (2 ^ 63) \<le> sint a + sint b); Some (a + b) }"

text \<open>\<open>roundup\<close> on \<open>off_t\<close>; both arguments are non-negative where the code uses it.\<close>

definition off_roundup :: "u64 \<Rightarrow> u64 \<Rightarrow> u64 option" where
  "off_roundup x y =
     do { assert_that (y \<noteq> 0);
          n \<leftarrow> off_add x (y - 1);
          Some (n div y * y) }"

section \<open>The extent of a section\<close>

primrec shdr_entsize :: "Shdr \<Rightarrow> u64" where
  "shdr_entsize (Shdr32 h) = ucast (sh_entsize h)"
| "shdr_entsize (Shdr64 h) = sh_entsize h"

text \<open>
  The loop over the data descriptors of the section: the section's size and alignment so
  far.  Nothing comes back when a descriptor is in error.
\<close>

definition bad_align :: "u64 \<Rightarrow> bool" where
  "bad_align a \<longleftrightarrow> a = 0 \<or> a AND (a - 1) \<noteq> 0"

fun data_extents ::
  "bool \<Rightarrow> int \<Rightarrow> u32 \<Rightarrow> data_ref list \<Rightarrow> u64 \<Rightarrow> u64 \<Rightarrow> store \<Rightarrow> ((u64 \<times> u64) option \<times> store) option"
where
  "data_extents layout ec version [] scn_size scn_alignment st = Some (Some (scn_size, scn_alignment), st)"
| "data_extents layout ec version (r # rs) scn_size scn_alignment st =
     do { ld \<leftarrow> datas st r;
          let d = d_data ld;
          if d_type d \<ge> ELF_T_NUM then Some (None, set_error ELF_E_DATA st)
          else if d_version d \<noteq> version then Some (None, set_error ELF_E_VERSION st)
          else if bad_align (d_align d) then Some (None, set_error ELF_E_DATA st)
          else
            do { (msz, st) \<leftarrow> libelf_msize (d_type d) ec version st;
                 assert_that (msz \<noteq> 0);
                 if d_size d mod msz \<noteq> 0 then Some (None, set_error ELF_E_DATA st)
                 else if layout \<and> d_off d AND (d_align d - 1) \<noteq> 0
                 then Some (None, set_error ELF_E_LAYOUT st)
                 else
                   let (size', st) =
                         (if layout then
                            (if d_off d + d_size d > scn_size then d_off d + d_size d else scn_size, st)
                          else
                            let off = roundup2 scn_size (d_align d);
                                st = set_data r (ld\<lparr>d_data := d\<lparr>d_off := off\<rparr>\<rparr>) st;
                                (fsz, st) = libelf_fsize (d_type d) ec (d_version d) (d_size d div msz) st
                            in (off + fsz, st));
                       align' = (if d_align d > scn_alignment then d_align d else scn_alignment)
                   in data_extents layout ec version rs size' align' st } }"

text \<open>\<open>updatedescriptor\<close> and \<open>computeoffset\<close>, the two labels the function jumps to.\<close>

definition update_descriptor :: "scn_ref \<Rightarrow> u64 \<Rightarrow> u64 \<Rightarrow> store \<Rightarrow> (bool \<times> store) option" where
  "update_descriptor s sz off st =
     do { scn \<leftarrow> scns st s;
          Some (True, set_scn s (scn\<lparr>s_size := sz, s_offset := off\<rparr>) st) }"

definition compute_offset ::
  "int \<Rightarrow> scn_ref \<Rightarrow> u64 \<Rightarrow> u64 \<Rightarrow> u64 \<Rightarrow> u64 \<Rightarrow> store \<Rightarrow> (bool \<times> store) option"
where
  "compute_offset ec s rc align entsz sz st =
     do { assert_that (align \<noteq> 0);
          let off = roundup2 rc align;
          st \<leftarrow> upd_shdr ec
            (\<lambda>h. h\<lparr>sh_addralign := ucast align, sh_entsize := ucast entsz,
                   sh_offset := ucast off, sh_size := ucast sz\<rparr>)
            (\<lambda>h. h\<lparr>sh_addralign := align, sh_entsize := entsz, sh_offset := off,
                   sh_size := sz\<rparr>) s st;
          update_descriptor s sz off st }"

text \<open>What follows the loop: check the application's layout, or compute the header.\<close>

definition layout_section ::
  "bool \<Rightarrow> int \<Rightarrow> u32 \<Rightarrow> int \<Rightarrow> scn_ref \<Rightarrow> Shdr \<Rightarrow> u64 \<Rightarrow> u64 \<Rightarrow> u64 \<Rightarrow> u64 \<Rightarrow> store \<Rightarrow> (bool \<times> store) option"
where
  "layout_section layout ec version elftype s sh align rc scn_size scn_alignment st =
     (let falign = ucast (libelf_falign elftype ec)
      in if layout then
           if scn_alignment > align then Some (False, set_error ELF_E_LAYOUT st)
           else
             do { assert_that (align \<noteq> 0);
                  if shdr_offset sh mod align \<noteq> 0 \<or> shdr_size sh < scn_size
                  then Some (False, set_error ELF_E_LAYOUT st)
                  else
                    do { assert_that (falign \<noteq> 0);
                         if shdr_offset sh mod falign \<noteq> 0 then Some (False, set_error ELF_E_LAYOUT st)
                         else update_descriptor s (shdr_size sh) (shdr_offset sh) st } }
         else
           let align = (if scn_alignment > align then scn_alignment else align);
               (entsize, st) = (if shdr_entsize sh = 0
                 then (let (fsz, st) = libelf_fsize elftype ec version 1 st in (if fsz = 1 then 0 else fsz, st))
                 else (shdr_entsize sh, st))
           in compute_offset ec s rc align entsize scn_size st)"

definition libelf_compute_section_extents :: "elf_ref \<Rightarrow> scn_ref \<Rightarrow> u64 \<Rightarrow> store \<Rightarrow> (bool \<times> store) option" where
  "libelf_compute_section_extents e s rc st =
     do { elf \<leftarrow> elfs st e;
          scn \<leftarrow> scns st s;
          let ec = e_class elf;
          let layout = (e_flags elf AND ELF_F_LAYOUT \<noteq> 0);
          sh \<leftarrow> scn_shdr ec scn;
          assert_that (shdr_type sh \<noteq> SHT_NULL \<and> shdr_type sh \<noteq> SHT_NOBITS);
          let elftype = libelf_xlate_shtype (shdr_type sh);
          if elftype > ELF_T_LAST then Some (False, set_error ELF_E_SECTION st)
          else
            do { let align = (if shdr_addralign sh = 0 then ucast (libelf_falign elftype ec)
                                 else shdr_addralign sh);
                 if s_data scn = [] \<and> s_flags scn AND ELF_F_DIRTY = 0
                 then (if layout then update_descriptor s (shdr_size sh) (shdr_offset sh) st
                       else compute_offset ec s rc align (shdr_entsize sh) (shdr_size sh) st)
                 else
                   do { (have, st) \<leftarrow> (if s_data scn = [] \<and> e_cmd elf \<noteq> ELF_C_WRITE
                          then do { (d, st) \<leftarrow> elf_getdata (Some s) None st; Some (d \<noteq> None, st) }
                          else Some (True, st));
                        if \<not> have then Some (False, st)
                        else
                          do { scn \<leftarrow> scns st s;
                               (r, st) \<leftarrow> data_extents layout ec (e_version elf) (s_data scn) 0 0 st;
                               case r of None \<Rightarrow> Some (False, st)
                               | Some (scn_size, scn_alignment) \<Rightarrow>
                                   layout_section layout ec (e_version elf) elftype s sh align rc
                                     scn_size scn_alignment st } } } }"

section \<open>The extents of all sections\<close>

text \<open>The first component of the result is the new offset, or nothing for \<open>(off_t) -1\<close>.\<close>

fun resync_sections ::
  "elf_ref \<Rightarrow> int \<Rightarrow> scn_ref list \<Rightarrow> u64 \<Rightarrow> Elf_Extent list \<Rightarrow> store
    \<Rightarrow> ((u64 option \<times> Elf_Extent list) \<times> store) option"
where
  "resync_sections e ec [] rc extents st = Some ((Some rc, extents), st)"
| "resync_sections e ec (s # ss) rc extents st =
     do { scn \<leftarrow> scns st s;
          sh \<leftarrow> scn_shdr ec scn;
          if shdr_type sh = SHT_NOBITS \<or> shdr_type sh = SHT_NULL
          then resync_sections e ec ss rc extents st
          else
            do { (ok, st) \<leftarrow> libelf_compute_section_extents e s rc st;
                 if \<not> ok then Some ((None, extents), st)
                 else
                   do { scn \<leftarrow> scns st s;
                        if s_size scn = 0 then resync_sections e ec ss rc extents st
                        else
                          do { ((ok, extents), st) \<leftarrow> libelf_insert_extent extents ELF_EXTENT_SECTION
                                 (s_offset scn) (s_size scn) (Some s) st;
                               if \<not> ok then Some ((None, extents), st)
                               else
                                 resync_sections e ec ss
                                   (if rc < s_offset scn + s_size scn then s_offset scn + s_size scn else rc)
                                   extents st } } } }"

definition libelf_resync_sections ::
  "elf_ref \<Rightarrow> u64 \<Rightarrow> Elf_Extent list \<Rightarrow> store \<Rightarrow> ((u64 option \<times> Elf_Extent list) \<times> store) option"
where
  "libelf_resync_sections e rc extents st =
     do { elf \<leftarrow> elfs st e; resync_sections e (e_class elf) (e_scn elf) rc extents st }"

section \<open>The layout of the object\<close>

primrec ehdr_ident :: "Ehdr \<Rightarrow> byte list" where
  "ehdr_ident (Ehdr32 h) = eh_ident h"
| "ehdr_ident (Ehdr64 h) = eh_ident h"

primrec ehdr_version :: "Ehdr \<Rightarrow> u32" where
  "ehdr_version (Ehdr32 h) = eh_version h"
| "ehdr_version (Ehdr64 h) = eh_version h"

text \<open>The identification bytes that \<open>INITIALIZE_EHDR\<close> sets; byte 5 and those after 6 stay.\<close>

definition init_ident :: "int \<Rightarrow> u32 \<Rightarrow> byte list \<Rightarrow> byte list" where
  "init_ident ec version ident =
     ident[0 := ELFMAG ! 0, 1 := ELFMAG ! 1, 2 := ELFMAG ! 2, 3 := ELFMAG ! 3,
           4 := of_int ec, 6 := ucast (version AND 0xFF)]"

definition INITIALIZE_EHDR :: "elf_ref \<Rightarrow> int \<Rightarrow> u32 \<Rightarrow> u64 \<Rightarrow> store \<Rightarrow> store option" where
  "INITIALIZE_EHDR e ec version phnum st =
     (let (ehsize, st) = libelf_fsize ELF_T_EHDR ec version 1 st;
          (phentsize, st) = (if phnum = 0 then (0, st) else libelf_fsize ELF_T_PHDR ec version 1 st);
          (shentsize, st) = libelf_fsize ELF_T_SHDR ec version 1 st
      in upd_ehdr ec
           (\<lambda>h. h\<lparr>eh_ident := init_ident ec version (eh_ident h), eh_ehsize := ucast ehsize,
                  eh_phentsize := ucast phentsize, eh_shentsize := ucast shentsize\<rparr>)
           (\<lambda>h. h\<lparr>eh_ident := init_ident ec version (eh_ident h), eh_ehsize := ucast ehsize,
                  eh_phentsize := ucast phentsize, eh_shentsize := ucast shentsize\<rparr>) e st)"

text \<open>
  The parts of \<open>_libelf_resync_elf\<close>.  Each returns the offset behind what has been laid out
  so far, or nothing for \<open>(off_t) -1\<close>.  First the checks of the ELF header.
\<close>

definition ehdr_checks :: "Elf \<Rightarrow> Ehdr \<Rightarrow> u32 \<Rightarrow> Elf_Error option" where
  "ehdr_checks elf eh version =
     (if sint (ehdr_phoff eh) < 0 \<or> sint (ehdr_shoff eh) < 0 then Some ELF_E_HEADER
      else if version \<noteq> e_version elf then Some ELF_E_VERSION
      else if uint (ehdr_ident eh ! 4) \<noteq> e_class elf then Some ELF_E_CLASS
      else if e_cmd elf \<noteq> ELF_C_WRITE \<and> ucast (ehdr_ident eh ! 5) \<noteq> e_byteorder elf then Some ELF_E_HEADER
      else None)"

text \<open>The program header table; the result includes its offset.\<close>

definition resync_phdrs ::
  "elf_ref \<Rightarrow> int \<Rightarrow> u32 \<Rightarrow> u64 \<Rightarrow> u64 \<Rightarrow> u64 \<Rightarrow> Elf_Extent list \<Rightarrow> store
    \<Rightarrow> (((u64 \<times> u64) option \<times> Elf_Extent list) \<times> store) option"
where
  "resync_phdrs e ec version phnum phoff rc extents st =
     (if phnum = 0 then Some ((Some (rc, 0), extents), st)
      else
        do { elf \<leftarrow> elfs st e;
             let (fsz, st) = libelf_fsize ELF_T_PHDR ec version phnum st;
             let align = (ucast (libelf_falign ELF_T_PHDR ec) :: u64);
             assert_that (align \<noteq> 0);
             if e_flags elf AND ELF_F_LAYOUT \<noteq> 0 \<and> (sint rc > sint phoff \<or> phoff mod align \<noteq> 0)
             then Some ((None, extents), set_error ELF_E_LAYOUT st)
             else
               do { phoff \<leftarrow> (if e_flags elf AND ELF_F_LAYOUT \<noteq> 0 then Some phoff else off_roundup rc align);
                    rc \<leftarrow> off_add phoff fsz;
                    (_, st) \<leftarrow> libelf_getphdr (Some e) ec st;
                    ((ok, extents), st) \<leftarrow> libelf_insert_extent extents ELF_EXTENT_PHDR phoff fsz None st;
                    Some ((if ok then Some (rc, phoff) else None, extents), st) } })"

text \<open>The section header table, placed behind everything else unless the application says where.\<close>

definition resync_shdrs ::
  "elf_ref \<Rightarrow> int \<Rightarrow> u32 \<Rightarrow> u64 \<Rightarrow> u64 \<Rightarrow> u64 \<Rightarrow> Elf_Extent list \<Rightarrow> store
    \<Rightarrow> (((u64 \<times> u64) option \<times> Elf_Extent list) \<times> store) option"
where
  "resync_shdrs e ec version shnum shoff rc extents st =
     (if shnum = 0 then Some ((Some (rc, 0), extents), st)
      else
        do { elf \<leftarrow> elfs st e;
             let (fsz, st) = libelf_fsize ELF_T_SHDR ec version shnum st;
             let align = (ucast (libelf_falign ELF_T_SHDR ec) :: u64);
             assert_that (align \<noteq> 0);
             if e_flags elf AND ELF_F_LAYOUT \<noteq> 0 \<and> shoff mod align \<noteq> 0
             then Some ((None, extents), set_error ELF_E_LAYOUT st)
             else
               do { shoff \<leftarrow> (if e_flags elf AND ELF_F_LAYOUT \<noteq> 0 then Some shoff else off_roundup rc align);
                    n \<leftarrow> off_add shoff fsz;
                    let rc = (if sint n > sint rc then n else rc);
                    ((ok, extents), st) \<leftarrow> libelf_insert_extent extents ELF_EXTENT_SHDR shoff fsz None st;
                    Some ((if ok then Some (rc, shoff) else None, extents), st) } })"

text \<open>The end: the counts and the offsets are stored in the ELF header.\<close>

definition resync_counts ::
  "elf_ref \<Rightarrow> int \<Rightarrow> u64 \<Rightarrow> u64 \<Rightarrow> u64 \<Rightarrow> u64 \<Rightarrow> store \<Rightarrow> store option"
where
  "resync_counts e ec phnum shnum phoff shoff st =
     do { (_, st) \<leftarrow> libelf_setphnum e ec phnum st;
          (_, st) \<leftarrow> libelf_setshnum e ec shnum st;
          elf \<leftarrow> elfs st e;
          if e_flags elf AND ELF_F_LAYOUT = 0
          then upd_ehdr ec (\<lambda>h. h\<lparr>eh_phoff := ucast phoff, eh_shoff := ucast shoff\<rparr>)
                 (\<lambda>h. h\<lparr>eh_phoff := phoff, eh_shoff := shoff\<rparr>) e st
          else Some st }"

text \<open>Everything behind the ELF header.\<close>

definition resync_body ::
  "elf_ref \<Rightarrow> int \<Rightarrow> u32 \<Rightarrow> u64 \<Rightarrow> u64 \<Rightarrow> u64 \<Rightarrow> u64 \<Rightarrow> u64 \<Rightarrow> Elf_Extent list \<Rightarrow> store
    \<Rightarrow> ((u64 option \<times> Elf_Extent list) \<times> store) option"
where
  "resync_body e ec version phnum shnum phoff shoff rc extents st =
     do { ((r, extents), st) \<leftarrow> resync_phdrs e ec version phnum phoff rc extents st;
          case r of None \<Rightarrow> Some ((None, extents), st)
          | Some (rc, phoff) \<Rightarrow>
              do { elf \<leftarrow> elfs st e;
                   eh \<leftarrow> e_ehdr elf;
                   (ok, st) \<leftarrow> load_if_needed e eh st;
                   if \<not> ok then Some ((None, extents), st)
                   else
                     do { ((r, extents), st) \<leftarrow> libelf_resync_sections e rc extents st;
                          case r of None \<Rightarrow> Some ((None, extents), st)
                          | Some rc \<Rightarrow>
                              if sint rc < 0 then Some ((None, extents), st)
                              else
                                do { ((r, extents), st) \<leftarrow> resync_shdrs e ec version shnum shoff rc extents st;
                                     case r of None \<Rightarrow> Some ((None, extents), st)
                                     | Some (rc, shoff) \<Rightarrow>
                                         do { st \<leftarrow> resync_counts e ec phnum shnum phoff shoff st;
                                              Some ((Some rc, extents), st) } } } } }"

definition libelf_resync_elf ::
  "elf_ref \<Rightarrow> Elf_Extent list \<Rightarrow> store \<Rightarrow> ((u64 option \<times> Elf_Extent list) \<times> store) option"
where
  "libelf_resync_elf e extents st =
     do { elf \<leftarrow> elfs st e;
          let ec = e_class elf;
          assert_that (ec = ELFCLASS32 \<or> ec = ELFCLASS64);
          (eh, st) \<leftarrow> libelf_ehdr (Some e) ec False st;
          case eh of None \<Rightarrow> Some ((None, extents), st)
          | Some eh \<Rightarrow>
              do { elf \<leftarrow> elfs st e;
                   let version = (if ehdr_version eh = EV_NONE then EV_CURRENT else ehdr_version eh);
                   case ehdr_checks elf eh version of
                     Some E \<Rightarrow> Some ((None, extents), set_error E st)
                   | None \<Rightarrow>
                       do { let shnum = e_nscn elf;
                            let phnum = e_nphdr elf;
                            let st = set_elf e (elf\<lparr>e_byteorder := ucast (ehdr_ident eh ! 5)\<rparr>) st;
                            st \<leftarrow> INITIALIZE_EHDR e ec version phnum st;
                            (_, st) \<leftarrow> elf_flagehdr (Some e) ELF_C_SET ELF_F_DIRTY st;
                            let (rc, st) = libelf_fsize ELF_T_EHDR ec version 1 st;
                            ((ok, extents), st) \<leftarrow> libelf_insert_extent extents ELF_EXTENT_EHDR 0 rc None st;
                            if \<not> ok then Some ((None, extents), st)
                            else
                              resync_body e ec version phnum shnum (ehdr_phoff eh) (ehdr_shoff eh) rc extents st } } }"

section \<open>What the layout of a section's data is\<close>

text \<open>The least multiple of \<open>a\<close> that is at least \<open>x\<close>.\<close>

definition align_to :: "nat \<Rightarrow> nat \<Rightarrow> nat" where
  "align_to a x = (x + (a - 1)) div a * a"

lemma align_to_bounds:
  assumes "0 < a"
  shows "x \<le> align_to a x" "align_to a x < x + a" "a dvd align_to a x"
proof -
  have "(x + (a - 1)) div a * a + (x + (a - 1)) mod a = x + (a - 1)" by (rule div_mult_mod_eq)
  moreover have "(x + (a - 1)) mod a < a" using assms by simp
  ultimately show "x \<le> align_to a x" "align_to a x < x + a" unfolding align_to_def by linarith+
  show "a dvd align_to a x" by (simp add: align_to_def)
qed

lemma roundup2_align_to:
  assumes "y \<noteq> 0" "unat x + unat y \<le> 2 ^ 64"
  shows "unat (roundup2 x y) = align_to (unat y) (unat x)"
proof -
  have y: "0 < unat y" using assms(1) by (simp add: unat_gt_0)
  have "unat (y - 1) = unat y - 1" using assms(1) by (rule unat_minus_one)
  moreover have "unat x + (unat y - 1) < 2 ^ 64" using assms(2) y by linarith
  ultimately have s: "unat (x + (y - 1)) = unat x + (unat y - 1)" by (subst unat_add_small) simp_all
  have "unat ((x + (y - 1)) div y) = (unat x + (unat y - 1)) div unat y" by (simp add: unat_div s)
  moreover have "(unat x + (unat y - 1)) div unat y * unat y \<le> unat x + (unat y - 1)" by simp
  then have "(unat x + (unat y - 1)) div unat y * unat y < 2 ^ 64"
    using \<open>unat x + (unat y - 1) < 2 ^ 64\<close> by (rule order.strict_trans1)
  ultimately show ?thesis
    unfolding roundup2_def align_to_def by (subst unat_mult_lem [THEN iffD1]) simp_all
qed

text \<open>
  The offsets of consecutive pieces, each given by its alignment and its size in the file,
  and the end of the last one.
\<close>

fun place_offsets :: "(nat \<times> nat) list \<Rightarrow> nat \<Rightarrow> nat list" where
  "place_offsets [] x = []"
| "place_offsets ((a, n) # ps) x = align_to a x # place_offsets ps (align_to a x + n)"

fun place_end :: "(nat \<times> nat) list \<Rightarrow> nat \<Rightarrow> nat" where
  "place_end [] x = x"
| "place_end ((a, n) # ps) x = place_end ps (align_to a x + n)"

lemma length_place_offsets [simp]: "length (place_offsets ps x) = length ps"
  by (induction ps x rule: place_offsets.induct) simp_all

lemma place_end_ge: "list_all (\<lambda>p. 0 < fst p) ps \<Longrightarrow> x \<le> place_end ps x"
proof (induction ps x rule: place_end.induct)
  case (2 a n ps x)
  have "x \<le> align_to a x" using 2(2) by (intro align_to_bounds(1)) simp
  moreover have "align_to a x + n \<le> place_end ps (align_to a x + n)" using 2 by simp
  ultimately show ?case unfolding place_end.simps by linarith
qed simp

text \<open>The pieces do not overlap, are aligned, and lie between the start and the end.\<close>

lemma place_offsets_spec:
  assumes "list_all (\<lambda>p. 0 < fst p) ps" "i < length ps"
  shows "fst (ps ! i) dvd place_offsets ps x ! i" "x \<le> place_offsets ps x ! i"
    "i + 1 < length ps \<Longrightarrow> place_offsets ps x ! i + snd (ps ! i) \<le> place_offsets ps x ! (i + 1)"
    "place_offsets ps x ! i + snd (ps ! i) \<le> place_end ps x"
proof -
  have "fst (ps ! i) dvd place_offsets ps x ! i \<and> x \<le> place_offsets ps x ! i
    \<and> (i + 1 < length ps \<longrightarrow> place_offsets ps x ! i + snd (ps ! i) \<le> place_offsets ps x ! (i + 1))
    \<and> place_offsets ps x ! i + snd (ps ! i) \<le> place_end ps x"
    using assms
  proof (induction ps x arbitrary: i rule: place_offsets.induct)
    case (2 a n ps x)
    let ?y = "align_to a x + n"
    have a: "0 < a" "list_all (\<lambda>p. 0 < fst p) ps" using 2(2) by simp_all
    note up = align_to_bounds [OF a(1), of x]
    show ?case
    proof (cases i)
      case 0
      have "1 < length ((a, n) # ps) \<Longrightarrow> ?y \<le> place_offsets ps ?y ! 0" using 2(1) [OF a(2), of 0] by simp
      then show ?thesis using up(1,3) place_end_ge [OF a(2), of ?y] by (simp add: 0)
    next
      case (Suc j)
      then have "j < length ps" using 2(3) by simp
      from 2(1) [OF a(2) this] up(1) show ?thesis
        unfolding Suc nth_Cons_Suc place_offsets.simps place_end.simps length_Cons by simp
    qed
  qed simp
  then show "fst (ps ! i) dvd place_offsets ps x ! i" "x \<le> place_offsets ps x ! i"
    "i + 1 < length ps \<Longrightarrow> place_offsets ps x ! i + snd (ps ! i) \<le> place_offsets ps x ! (i + 1)"
    "place_offsets ps x ! i + snd (ps ! i) \<le> place_end ps x" by blast+
qed

section \<open>The loop over the data descriptors\<close>

text \<open>A descriptor that passes the checks, and the piece it takes in the file.\<close>

definition data_ready :: "int \<Rightarrow> Elf_Data \<Rightarrow> bool" where
  "data_ready ec d \<longleftrightarrow>
     0 \<le> d_type d \<and> d_type d < ELF_T_NUM \<and> d_version d = EV_CURRENT \<and> \<not> bad_align (d_align d)
     \<and> d_align d \<le> 2 ^ 32 \<and> msize_table (d_type d) ec \<noteq> 0 \<and> fsize_table (d_type d) ec \<noteq> 0
     \<and> unat (d_size d) mod msize_table (d_type d) ec = 0"

definition piece :: "int \<Rightarrow> Elf_Data \<Rightarrow> nat \<times> nat" where
  "piece ec d = (unat (d_align d), fsize_table (d_type d) ec * (unat (d_size d) div msize_table (d_type d) ec))"

definition data_at :: "store \<Rightarrow> data_ref \<Rightarrow> Elf_Data" where
  "data_at st r = d_data (the (datas st r))"

text \<open>Two stores that agree but for the offsets of data descriptors.\<close>

definition but_d_off :: "Libelf_Data \<Rightarrow> Libelf_Data" where
  "but_d_off ld = ld\<lparr>d_data := (d_data ld)\<lparr>d_off := 0\<rparr>\<rparr>"

definition same_datas :: "store \<Rightarrow> store \<Rightarrow> bool" where
  "same_datas st st' \<longleftrightarrow> (\<forall>r. map_option but_d_off (datas st' r) = map_option but_d_off (datas st r))"

definition same_but_offsets :: "store \<Rightarrow> store \<Rightarrow> bool" where
  "same_but_offsets st st' \<longleftrightarrow> st' = st\<lparr>datas := datas st'\<rparr> \<and> same_datas st st'"

lemma same_but_offsets_refl [simp]: "same_but_offsets st st"
  by (simp add: same_but_offsets_def same_datas_def)

lemma same_but_offsets_trans:
  "same_but_offsets st st' \<Longrightarrow> same_but_offsets st' st'' \<Longrightarrow> same_but_offsets st st''"
  unfolding same_but_offsets_def same_datas_def
  by (metis (mono_tags, lifting) store.surjective store.update_convs(6))

lemma same_but_offsets_frame:
  assumes "same_but_offsets st st'"
  shows "mem st' = mem st" "elfs st' = elfs st" "scns st' = scns st" "globals st' = globals st"
    "fresh st' = fresh st" "oom st' = oom st" "base st' = base st"
proof -
  have "st' = st\<lparr>datas := datas st'\<rparr>" using assms by (simp add: same_but_offsets_def)
  then show "mem st' = mem st" "elfs st' = elfs st" "scns st' = scns st" "globals st' = globals st"
    "fresh st' = fresh st" "oom st' = oom st" "base st' = base st" by (cases st; cases st'; simp)+
qed

lemma eq_but_d_off: "d\<lparr>d_off := 0\<rparr> = d'\<lparr>d_off := 0\<rparr> \<Longrightarrow> d = d'\<lparr>d_off := d_off d\<rparr>"
  by (cases d; cases d') simp

lemma but_d_off_eqD: "but_d_off x = but_d_off y \<Longrightarrow> d_data x = (d_data y)\<lparr>d_off := d_off (d_data x)\<rparr>"
  by (rule eq_but_d_off, cases x, cases y) (simp add: but_d_off_def)

lemma same_datas_at:
  assumes "same_datas st st'"
  shows "(datas st' r = None) = (datas st r = None)"
    "datas st r \<noteq> None \<Longrightarrow> data_at st' r = (data_at st r)\<lparr>d_off := d_off (data_at st' r)\<rparr>"
proof -
  have eq: "map_option but_d_off (datas st' r) = map_option but_d_off (datas st r)"
    using assms by (simp add: same_datas_def)
  then show "(datas st' r = None) = (datas st r = None)" by (metis map_option_is_None)
  assume "datas st r \<noteq> None"
  with eq show "data_at st' r = (data_at st r)\<lparr>d_off := d_off (data_at st' r)\<rparr>"
    by (cases "datas st r"; cases "datas st' r") (auto simp: data_at_def intro: but_d_off_eqD)
qed

lemma data_ready_d_off [simp]: "data_ready ec (d\<lparr>d_off := x\<rparr>) = data_ready ec d"
  by (simp add: data_ready_def)

lemma piece_d_off [simp]: "piece ec (d\<lparr>d_off := x\<rparr>) = piece ec d"
  by (simp add: piece_def)

definition datas_ready :: "int \<Rightarrow> data_ref list \<Rightarrow> store \<Rightarrow> bool" where
  "datas_ready ec rs st \<longleftrightarrow> (\<forall>r \<in> set rs. datas st r \<noteq> None \<and> data_ready ec (data_at st r))"

definition pieces :: "int \<Rightarrow> data_ref list \<Rightarrow> store \<Rightarrow> (nat \<times> nat) list" where
  "pieces ec rs st = map (\<lambda>r. piece ec (data_at st r)) rs"

definition max_align :: "data_ref list \<Rightarrow> store \<Rightarrow> u64 \<Rightarrow> u64" where
  "max_align rs st a = fold (\<lambda>r a. if d_align (data_at st r) > a then d_align (data_at st r) else a) rs a"

lemma max_align_Cons:
  "max_align (r # rs) st a = max_align rs st (if d_align (data_at st r) > a then d_align (data_at st r) else a)"
  by (simp add: max_align_def)

lemma datas_cong:
  assumes "same_datas st st'" "datas_ready ec rs st"
  shows "datas_ready ec rs st'" "pieces ec rs st' = pieces ec rs st" "max_align rs st' a = max_align rs st a"
proof -
  have eq: "datas st' r \<noteq> None \<and> data_at st' r = (data_at st r)\<lparr>d_off := d_off (data_at st' r)\<rparr>"
    if "r \<in> set rs" for r
    using that assms same_datas_at [OF assms(1), of r] by (auto simp: datas_ready_def)
  show "datas_ready ec rs st'"
    unfolding datas_ready_def
  proof
    fix r assume r: "r \<in> set rs"
    then have "data_ready ec (data_at st r)" using assms(2) by (simp add: datas_ready_def)
    then have "data_ready ec ((data_at st r)\<lparr>d_off := d_off (data_at st' r)\<rparr>)" by simp
    then show "datas st' r \<noteq> None \<and> data_ready ec (data_at st' r)"
      by (subst eq [OF r, THEN conjunct2]) (simp add: eq [OF r, THEN conjunct1])
  qed
  have "piece ec (data_at st' r) = piece ec (data_at st r)" if "r \<in> set rs" for r
    using arg_cong [OF eq [OF that, THEN conjunct2], of "piece ec"] by simp
  then show "pieces ec rs st' = pieces ec rs st" by (simp add: pieces_def)
  have "d_align (data_at st' r) = d_align (data_at st r)" if "r \<in> set rs" for r
    using arg_cong [OF eq [OF that, THEN conjunct2], of d_align] by simp
  then show "max_align rs st' a = max_align rs st a"
    unfolding max_align_def by (intro fold_cong) auto
qed

lemma table_sizes_small:
  assumes "0 \<le> t" "t < ELF_T_NUM" "std_class ec"
  shows "fsize_table t ec \<le> 64" "msize_table t ec \<le> 64"
proof -
  have "fsize_table t ec \<le> 64 \<and> msize_table t ec \<le> 64"
  proof (cases "type_layout t ec")
    case (Some def)
    then show ?thesis using type_layout_sizes [OF Some assms(3)] type_layout_small [OF Some assms(3)] by simp
  next
    case None
    show ?thesis
    proof (cases "prim_basic t")
      case None
      then have "comp_layout t ec = None" using \<open>type_layout t ec = None\<close> by (simp add: type_layout_def)
      then show ?thesis using None by (simp add: fsize_table_def msize_table_def)
    next
      case (Some b)
      then show ?thesis by (cases b) (simp_all add: fsize_table_def msize_table_def)
    qed
  qed
  then show "fsize_table t ec \<le> 64" "msize_table t ec \<le> 64" by simp_all
qed

lemma set_d_off_same:
  assumes "datas st r = Some ld"
  shows "same_but_offsets st (set_data r (ld\<lparr>d_data := (d_data ld)\<lparr>d_off := x\<rparr>\<rparr>) st)"
  using assms by (simp add: same_but_offsets_def same_datas_def set_data_def but_d_off_def)

text \<open>
  Without application layout the loop places the pieces one behind the other.
\<close>

lemma data_extents_places:
  assumes "std_class ec" "datas_ready ec rs st" "place_end (pieces ec rs st) (unat scn_size) < 2 ^ 63"
  shows "\<exists>st'. data_extents False ec EV_CURRENT rs scn_size a st
      = Some (Some (of_nat (place_end (pieces ec rs st) (unat scn_size)), max_align rs st a), st')
    \<and> same_but_offsets st st'
    \<and> (distinct rs \<longrightarrow> (\<forall>i<length rs. unat (d_off (data_at st' (rs ! i)))
          = place_offsets (pieces ec rs st) (unat scn_size) ! i))
    \<and> (\<forall>r. r \<notin> set rs \<longrightarrow> datas st' r = datas st r)"
  using assms
proof (induction rs arbitrary: scn_size a st)
  case Nil
  then show ?case by (simp add: pieces_def max_align_def)
next
  case (Cons r rs)
  obtain ld where ld: "datas st r = Some ld" and rd: "data_ready ec (d_data ld)"
    using Cons.prems(2) by (auto simp: datas_ready_def data_at_def)
  let ?d = "d_data ld"
  define off where "off = roundup2 scn_size (d_align ?d)"
  define st1 where "st1 = set_data r (ld\<lparr>d_data := ?d\<lparr>d_off := off\<rparr>\<rparr>) st"
  define n where "n = fsize_table (d_type ?d) ec * (unat (d_size ?d) div msize_table (d_type ?d) ec)"
  have at: "data_at st r = ?d" by (simp add: data_at_def ld)
  have pc: "piece ec ?d = (unat (d_align ?d), n)" by (simp add: piece_def n_def)
  have pcs: "pieces ec (r # rs) st = (unat (d_align ?d), n) # pieces ec rs st" by (simp add: pieces_def at pc)
  have d: "0 \<le> d_type ?d" "d_type ?d < ELF_T_NUM" "d_version ?d = EV_CURRENT" "\<not> bad_align (d_align ?d)"
    "unat (d_align ?d) \<le> 2 ^ 32" "msize_table (d_type ?d) ec \<noteq> 0" "fsize_table (d_type ?d) ec \<noteq> 0"
    "unat (d_size ?d) mod msize_table (d_type ?d) ec = 0"
    using rd by (auto simp: data_ready_def word_le_nat_alt)
  have a0: "d_align ?d \<noteq> 0" "0 < unat (d_align ?d)" using d(4) by (auto simp: bad_align_def unat_gt_0)
  note small = table_sizes_small [OF d(1,2) Cons.prems(1)]
  have m: "unat (of_nat (msize_table (d_type ?d) ec) :: u64) = msize_table (d_type ?d) ec"
    "unat (of_nat (fsize_table (d_type ?d) ec) :: u64) = fsize_table (d_type ?d) ec"
    using small by (simp_all add: unat_of_nat_u64)
  have m0: "(of_nat (msize_table (d_type ?d) ec) :: u64) \<noteq> 0" "(of_nat (fsize_table (d_type ?d) ec) :: u64) \<noteq> 0"
    using m d(6,7) by (metis unat_0)+
  have pos: "list_all (\<lambda>p. 0 < fst p) (pieces ec rs st)"
    using Cons.prems(2) by (auto simp: pieces_def datas_ready_def piece_def data_ready_def bad_align_def
        list_all_iff unat_gt_0)
  let ?x = "align_to (unat (d_align ?d)) (unat scn_size)"
  note up = align_to_bounds [OF a0(2), of "unat scn_size"]
  have bound: "?x + n < 2 ^ 63"
    using place_end_ge [OF pos, of "?x + n"] Cons.prems(3) unfolding pcs place_end.simps by linarith
  have off: "unat off = ?x"
    unfolding off_def using a0(1) up(1) bound d(5) by (intro roundup2_align_to) simp_all
  have fsz: "unat (of_nat (fsize_table (d_type ?d) ec) * (d_size ?d div of_nat (msize_table (d_type ?d) ec))) = n"
    using bound by (subst unat_mult_lem [THEN iffD1]) (simp_all add: n_def unat_div m)
  have sum: "unat (off + of_nat (fsize_table (d_type ?d) ec) * (d_size ?d div of_nat (msize_table (d_type ?d) ec))) = ?x + n"
    using bound by (subst unat_add_small) (simp_all add: fsz off)
  have same: "same_but_offsets st st1" unfolding st1_def by (rule set_d_off_same [OF ld])
  have ready: "datas_ready ec rs st" using Cons.prems(2) by (simp add: datas_ready_def)
  have "same_datas st st1" using same by (simp add: same_but_offsets_def)
  note cong = datas_cong [OF this ready]
  obtain st' where IH: "data_extents False ec EV_CURRENT rs
       (off + of_nat (fsize_table (d_type ?d) ec) * (d_size ?d div of_nat (msize_table (d_type ?d) ec)))
       (if d_align ?d > a then d_align ?d else a) st1
      = Some (Some (of_nat (place_end (pieces ec rs st) (?x + n)),
          max_align rs st (if d_align ?d > a then d_align ?d else a)), st')"
    "same_but_offsets st1 st'"
    "distinct rs \<Longrightarrow> \<forall>i<length rs. unat (d_off (data_at st' (rs ! i))) = place_offsets (pieces ec rs st) (?x + n) ! i"
    "\<forall>r. r \<notin> set rs \<longrightarrow> datas st' r = datas st1 r"
    using Cons.IH [OF Cons.prems(1) cong(1), of "off + of_nat (fsize_table (d_type ?d) ec)
        * (d_size ?d div of_nat (msize_table (d_type ?d) ec))" "if d_align ?d > a then d_align ?d else a"]
      Cons.prems(3)
    unfolding sum cong(2,3) pcs place_end.simps by auto
  have mod: "d_size ?d mod of_nat (msize_table (d_type ?d) ec) = 0"
  proof -
    have "unat (d_size ?d mod of_nat (msize_table (d_type ?d) ec)) = 0" using d(8) by (simp add: unat_mod m)
    then show ?thesis by (simp add: unat_eq_zero)
  qed
  have std: "ec = ELFCLASS32 \<or> ec = ELFCLASS64" using Cons.prems(1) by (simp add: std_class_def)
  have step: "data_extents False ec EV_CURRENT (r # rs) scn_size a st
      = data_extents False ec EV_CURRENT rs
       (off + of_nat (fsize_table (d_type ?d) ec) * (d_size ?d div of_nat (msize_table (d_type ?d) ec)))
       (if d_align ?d > a then d_align ?d else a) st1"
    using ld d(1,2,3,4) m0 mod std
    by (simp add: libelf_msize_def libelf_fsize_def Let_def off_def [symmetric] st1_def [symmetric])
  show ?case
  proof (intro exI conjI allI impI)
    show "data_extents False ec EV_CURRENT (r # rs) scn_size a st
      = Some (Some (of_nat (place_end (pieces ec (r # rs) st) (unat scn_size)), max_align (r # rs) st a), st')"
      unfolding step pcs place_end.simps max_align_Cons at by (rule IH(1))
    show "same_but_offsets st st'" using same IH(2) by (rule same_but_offsets_trans)
    fix i assume i: "distinct (r # rs)" "i < length (r # rs)"
    show "unat (d_off (data_at st' ((r # rs) ! i))) = place_offsets (pieces ec (r # rs) st) (unat scn_size) ! i"
    proof (cases i)
      case 0
      have "datas st' r = datas st1 r" using i(1) IH(4) by simp
      then show ?thesis unfolding pcs by (simp add: 0 data_at_def st1_def off)
    next
      case (Suc j)
      then show ?thesis using IH(3) i unfolding pcs by simp
    qed
  next
    fix q assume "q \<notin> set (r # rs)"
    then show "datas st' q = datas st q" using IH(4) by (simp add: st1_def)
  qed
qed

section \<open>A section\<close>

text \<open>The contents of a section are not looked at when none are in memory and it is not dirty.\<close>

definition untouched :: "Elf_Scn \<Rightarrow> bool" where
  "untouched scn \<longleftrightarrow> s_data scn = [] \<and> s_flags scn AND ELF_F_DIRTY = 0"

definition section_size :: "int \<Rightarrow> Elf_Scn \<Rightarrow> store \<Rightarrow> nat" where
  "section_size ec scn st =
     (if untouched scn then unat (shdr_size (s_shdr scn)) else place_end (pieces ec (s_data scn) st) 0)"

definition section_align :: "int \<Rightarrow> Elf_Scn \<Rightarrow> store \<Rightarrow> u64" where
  "section_align ec scn st =
     (let own = (if shdr_addralign (s_shdr scn) = 0
                 then ucast (libelf_falign (libelf_xlate_shtype (shdr_type (s_shdr scn))) ec)
                 else shdr_addralign (s_shdr scn));
          needed = max_align (s_data scn) st 0
      in if \<not> untouched scn \<and> needed > own then needed else own)"

text \<open>What is asked of a section that takes space in the file.\<close>

definition file_section :: "int \<Rightarrow> Elf_Scn \<Rightarrow> store \<Rightarrow> bool" where
  "file_section ec scn st \<longleftrightarrow>
     shdr_class (s_shdr scn) = ec \<and> shdr_type (s_shdr scn) \<noteq> SHT_NULL \<and> shdr_type (s_shdr scn) \<noteq> SHT_NOBITS
     \<and> 0 \<le> libelf_xlate_shtype (shdr_type (s_shdr scn)) \<and> section_align ec scn st \<noteq> 0
     \<and> datas_ready ec (s_data scn) st \<and> section_size ec scn st < 2 ^ 62 \<and> section_align ec scn st \<le> 2 ^ 32"

definition laid_out :: "int \<Rightarrow> Elf_Scn \<Rightarrow> u64 \<Rightarrow> u64 \<Rightarrow> Elf_Scn \<Rightarrow> bool" where
  "laid_out ec scn off sz scn' \<longleftrightarrow>
     (\<exists>sh'. scn' = scn\<lparr>s_shdr := sh', s_size := sz, s_offset := off\<rparr> \<and> shdr_class sh' = ec
        \<and> shdr_type sh' = shdr_type (s_shdr scn)
        \<and> shdr_offset sh' = (if ec = ELFCLASS32 then take_bit 32 off else off)
        \<and> shdr_size sh' = (if ec = ELFCLASS32 then take_bit 32 sz else sz))"

lemma ucast_ucast_u32: "ucast (ucast (x :: u64) :: u32) = take_bit 32 x"
  by (rule bit_word_eqI) (auto simp: bit_ucast_iff bit_take_bit_iff)

lemma compute_offset_lays_out:
  assumes "scns st s = Some scn" "shdr_class (s_shdr scn) = ec" "align \<noteq> 0" "std_class ec"
  shows "\<exists>scn'. compute_offset ec s rc align entsz sz st = Some (True, set_scn s scn' st)
    \<and> laid_out ec scn (roundup2 rc align) sz scn'"
proof -
  note u = upd_shdr_eq [OF assms(1,2)]
  let ?off = "roundup2 rc align"
  let ?sh = "map_shdr
     (\<lambda>h. h\<lparr>sh_addralign := ucast align, sh_entsize := ucast entsz, sh_offset := ucast ?off, sh_size := ucast sz\<rparr>)
     (\<lambda>h. h\<lparr>sh_addralign := align, sh_entsize := entsz, sh_offset := ?off, sh_size := sz\<rparr>) (s_shdr scn)"
  have "compute_offset ec s rc align entsz sz st
      = Some (True, set_scn s (scn\<lparr>s_shdr := ?sh, s_size := sz, s_offset := ?off\<rparr>) st)"
    using assms(3) by (simp add: compute_offset_def u update_descriptor_def Let_def set_scn_def)
  moreover have "laid_out ec scn ?off sz (scn\<lparr>s_shdr := ?sh, s_size := sz, s_offset := ?off\<rparr>)"
    unfolding laid_out_def using assms(2,4)
    by (intro exI [of _ ?sh])
      (auto simp: map_shdr_def shdr_class_def std_class_def ucast_ucast_u32 split: Shdr.split)
  ultimately show ?thesis by blast
qed

lemma fsize_one_keeps_store:
  assumes "0 \<le> libelf_xlate_shtype ty" "std_class ec"
  shows "\<exists>x. libelf_fsize (libelf_xlate_shtype ty) ec EV_CURRENT 1 st = (x, st)" "libelf_xlate_shtype ty < ELF_T_NUM"
proof -
  let ?t = "libelf_xlate_shtype ty"
  show lt: "?t < ELF_T_NUM" by (simp add: libelf_xlate_shtype_def)
  have ne: "?t \<noteq> ELF_T_MOVEP" by (simp add: libelf_xlate_shtype_def)
  have "fsize_table ?t ec \<noteq> 0"
  proof (cases "prim_basic ?t")
    case None
    then show ?thesis using ne type_layout_sizes(5) [OF layout_type assms(2)]
      by (auto simp: fsize_table_def split: option.splits)
  next
    case (Some b)
    have "prim_basic ?t \<noteq> Some XWORD \<and> prim_basic ?t \<noteq> Some SXWORD"
      by (simp add: libelf_xlate_shtype_def prim_basic_def)
    with Some show ?thesis by (cases b) (simp_all add: fsize_table_def)
  qed
  moreover have "fsize_table ?t ec \<le> 64" using table_sizes_small [OF assms(1) lt assms(2)] by simp
  ultimately have "(of_nat (fsize_table ?t ec) :: u64) \<noteq> 0" by (simp only: of_nat_small_0) simp
  then show "\<exists>x. libelf_fsize ?t ec EV_CURRENT 1 st = (x, st)"
    using assms(1) lt by (simp add: libelf_fsize_def Let_def)
qed

text \<open>Only the offsets of the section's own data change, and they are those of consecutive pieces.\<close>

definition data_placed :: "int \<Rightarrow> data_ref list \<Rightarrow> store \<Rightarrow> store \<Rightarrow> bool" where
  "data_placed ec rs st st' \<longleftrightarrow>
     (\<forall>r. r \<notin> set rs \<longrightarrow> datas st' r = datas st r)
     \<and> (distinct rs \<longrightarrow> (\<forall>i<length rs. unat (d_off (data_at st' (rs ! i))) = place_offsets (pieces ec rs st) 0 ! i))"

text \<open>\<open>_libelf_compute_section_extents\<close> when the library does the layout.\<close>

lemma compute_section_extents_places:
  assumes elf: "elfs st e = Some elf" "e_class elf = ec" "std_class ec" "e_flags elf AND ELF_F_LAYOUT = 0"
      "e_version elf = EV_CURRENT"
    and scn: "scns st s = Some scn" "file_section ec scn st"
    and data: "s_data scn = [] \<longrightarrow> untouched scn \<or> e_cmd elf = ELF_C_WRITE"
  shows "\<exists>scn' st'. libelf_compute_section_extents e s rc st = Some (True, set_scn s scn' st')
    \<and> laid_out ec scn (roundup2 rc (section_align ec scn st)) (of_nat (section_size ec scn st)) scn'
    \<and> same_but_offsets st st' \<and> data_placed ec (s_data scn) st st'"
proof -
  let ?sh = "s_shdr scn"
  let ?t = "libelf_xlate_shtype (shdr_type ?sh)"
  define own where "own = (if shdr_addralign ?sh = 0 then ucast (libelf_falign ?t ec) else shdr_addralign ?sh)"
  have f: "shdr_class ?sh = ec" "shdr_type ?sh \<noteq> SHT_NULL" "shdr_type ?sh \<noteq> SHT_NOBITS" "0 \<le> ?t"
    "section_align ec scn st \<noteq> 0" "datas_ready ec (s_data scn) st" "section_size ec scn st < 2 ^ 62"
    using scn(2) by (auto simp: file_section_def)
  have sh: "scn_shdr ec scn = Some ?sh"
    using f(1) elf(3) by (auto simp: scn_shdr_def shdr_class_def std_class_def split: Shdr.split)
  have lt: "\<not> ?t > ELF_T_LAST" using fsize_one_keeps_store(2) [OF f(4) elf(3)] by simp
  show ?thesis
  proof (cases "untouched scn")
    case True
    then have own: "section_align ec scn st = own" "section_size ec scn st = unat (shdr_size ?sh)"
      by (simp_all add: section_align_def section_size_def own_def)
    have "own \<noteq> 0" using f(5) own by simp
    from compute_offset_lays_out [OF scn(1) f(1) this elf(3), of rc "shdr_entsize ?sh" "shdr_size ?sh"]
    obtain scn' where "compute_offset ec s rc own (shdr_entsize ?sh) (shdr_size ?sh) st = Some (True, set_scn s scn' st)"
      "laid_out ec scn (roundup2 rc own) (shdr_size ?sh) scn'" by blast
    moreover have "libelf_compute_section_extents e s rc st
        = compute_offset ec s rc own (shdr_entsize ?sh) (shdr_size ?sh) st"
      using elf scn(1) sh f(2,3) lt True
      by (simp add: libelf_compute_section_extents_def Let_def own_def untouched_def)
    moreover have "data_placed ec (s_data scn) st st" using True by (simp add: data_placed_def untouched_def)
    ultimately show ?thesis unfolding own by (intro exI [of _ scn'] exI [of _ st]) simp
  next
    case False
    let ?n = "place_end (pieces ec (s_data scn) st) 0"
    let ?a = "max_align (s_data scn) st 0"
    have sz: "section_size ec scn st = ?n" using False by (simp add: section_size_def)
    have al: "section_align ec scn st = (if ?a > own then ?a else own)"
      using False by (simp add: section_align_def own_def)
    have "place_end (pieces ec (s_data scn) st) (unat 0) < 2 ^ 63" using f(7) sz by simp
    from data_extents_places [OF elf(3) f(6) this, of 0] obtain st' where
      st': "data_extents False ec EV_CURRENT (s_data scn) 0 0 st = Some (Some (of_nat ?n, ?a), st')"
      "same_but_offsets st st'" "data_placed ec (s_data scn) st st'" by (auto simp: data_placed_def)
    have frame: "scns st' s = Some scn" using same_but_offsets_frame [OF st'(2)] scn(1) by simp
    obtain x where x: "libelf_fsize ?t ec EV_CURRENT 1 st' = (x, st')"
      using fsize_one_keeps_store(1) [OF f(4) elf(3)] by blast
    define entsz where "entsz = (if shdr_entsize ?sh = 0 then if x = 1 then 0 else x else shdr_entsize ?sh)"
    from compute_offset_lays_out [OF frame f(1) f(5) elf(3), of rc entsz "of_nat ?n"]
    obtain scn' where scn': "compute_offset ec s rc (section_align ec scn st) entsz (of_nat ?n) st'
        = Some (True, set_scn s scn' st')"
      "laid_out ec scn (roundup2 rc (section_align ec scn st)) (of_nat ?n) scn'" by blast
    have "layout_section False ec EV_CURRENT ?t s ?sh own rc (of_nat ?n) ?a st'
        = compute_offset ec s rc (section_align ec scn st) entsz (of_nat ?n) st'"
      by (simp add: layout_section_def Let_def x al entsz_def)
    moreover have "libelf_compute_section_extents e s rc st
        = layout_section False ec EV_CURRENT ?t s ?sh own rc (of_nat ?n) ?a st'"
      using elf scn(1) sh f(2,3) lt False data st'(1)
      by (auto simp: libelf_compute_section_extents_def Let_def own_def untouched_def)
    ultimately show ?thesis
      unfolding sz using scn' st'(2,3) by (intro exI [of _ scn'] exI [of _ st']) simp
  qed
qed

section \<open>All sections\<close>

text \<open>
  The offsets of sections, each given by its alignment and size.  A section without
  contents gets an offset but takes no space.
\<close>

fun section_offsets :: "(nat \<times> nat) list \<Rightarrow> nat \<Rightarrow> nat list" where
  "section_offsets [] x = []"
| "section_offsets ((a, n) # ps) x = align_to a x # section_offsets ps (if n = 0 then x else align_to a x + n)"

fun section_end :: "(nat \<times> nat) list \<Rightarrow> nat \<Rightarrow> nat" where
  "section_end [] x = x"
| "section_end ((a, n) # ps) x = section_end ps (if n = 0 then x else align_to a x + n)"

fun section_regions :: "(nat \<times> nat) list \<Rightarrow> nat \<Rightarrow> nat set" where
  "section_regions [] x = {}"
| "section_regions ((a, n) # ps) x =
     {align_to a x ..< align_to a x + n} \<union> section_regions ps (if n = 0 then x else align_to a x + n)"

lemma length_section_offsets [simp]: "length (section_offsets ps x) = length ps"
  by (induction ps x rule: section_offsets.induct) simp_all

lemma section_end_ge: "list_all (\<lambda>p. 0 < fst p) ps \<Longrightarrow> x \<le> section_end ps x"
proof (induction ps x rule: section_end.induct)
  case (2 a n ps x)
  have "x \<le> align_to a x" using 2(2) by (intro align_to_bounds(1)) simp
  moreover have "(if n = 0 then x else align_to a x + n) \<le> section_end ((a, n) # ps) x" using 2 by simp
  ultimately show ?case by (auto split: if_splits)
qed simp

lemma section_offsets_spec:
  assumes "list_all (\<lambda>p. 0 < fst p) ps" "i < length ps"
  shows "fst (ps ! i) dvd section_offsets ps x ! i" "x \<le> section_offsets ps x ! i"
    "i < j \<Longrightarrow> j < length ps \<Longrightarrow> snd (ps ! i) \<noteq> 0
      \<Longrightarrow> section_offsets ps x ! i + snd (ps ! i) \<le> section_offsets ps x ! j"
proof -
  have "fst (ps ! i) dvd section_offsets ps x ! i \<and> x \<le> section_offsets ps x ! i
    \<and> (i < j \<longrightarrow> j < length ps \<longrightarrow> snd (ps ! i) \<noteq> 0
      \<longrightarrow> section_offsets ps x ! i + snd (ps ! i) \<le> section_offsets ps x ! j)"
    using assms
  proof (induction ps x arbitrary: i j rule: section_offsets.induct)
    case (2 a n ps x)
    let ?y = "if n = 0 then x else align_to a x + n"
    have a: "0 < a" "list_all (\<lambda>p. 0 < fst p) ps" using 2(2) by simp_all
    note up = align_to_bounds [OF a(1), of x]
    show ?case
    proof (cases i)
      case 0
      have "n \<noteq> 0 \<Longrightarrow> j = Suc k \<Longrightarrow> k < length ps \<Longrightarrow> ?y \<le> section_offsets ps ?y ! k" for k
        using 2(1) [OF a(2), of k] by blast
      then show ?thesis using up(1,3) by (cases j) (auto simp: 0)
    next
      case (Suc k)
      then have k: "k < length ps" using 2(3) by simp
      have "x \<le> ?y" using up(1) by simp
      then show ?thesis
        using 2(1) [OF a(2) k, of "j - 1"] Suc k by (cases j) (auto simp del: if_split_asm intro: le_trans)
    qed
  qed simp
  then show "fst (ps ! i) dvd section_offsets ps x ! i" "x \<le> section_offsets ps x ! i"
    "i < j \<Longrightarrow> j < length ps \<Longrightarrow> snd (ps ! i) \<noteq> 0
      \<Longrightarrow> section_offsets ps x ! i + snd (ps ! i) \<le> section_offsets ps x ! j" by blast+
qed

text \<open>The sections of a list that take space, what they need, and what is asked of them.\<close>

definition scn_at :: "store \<Rightarrow> scn_ref \<Rightarrow> Elf_Scn" where
  "scn_at st s = the (scns st s)"

definition takes_space :: "store \<Rightarrow> scn_ref \<Rightarrow> bool" where
  "takes_space st s \<longleftrightarrow>
     shdr_type (s_shdr (scn_at st s)) \<noteq> SHT_NULL \<and> shdr_type (s_shdr (scn_at st s)) \<noteq> SHT_NOBITS"

definition section_pieces :: "int \<Rightarrow> store \<Rightarrow> scn_ref list \<Rightarrow> (nat \<times> nat) list" where
  "section_pieces ec st ss =
     map (\<lambda>s. (unat (section_align ec (scn_at st s) st), section_size ec (scn_at st s) st))
       (filter (takes_space st) ss)"

definition sections_layable :: "Elf \<Rightarrow> int \<Rightarrow> store \<Rightarrow> scn_ref list \<Rightarrow> bool" where
  "sections_layable elf ec st ss \<longleftrightarrow>
     (\<forall>s \<in> set ss. scns st s \<noteq> None \<and> shdr_class (s_shdr (scn_at st s)) = ec
        \<and> (takes_space st s \<longrightarrow> file_section ec (scn_at st s) st
             \<and> (s_data (scn_at st s) = [] \<longrightarrow> untouched (scn_at st s) \<or> e_cmd elf = ELF_C_WRITE)))"

text \<open>What the layout of one section leaves of the store for the others.\<close>

definition laid_frame :: "scn_ref set \<Rightarrow> store \<Rightarrow> store \<Rightarrow> bool" where
  "laid_frame S st st' \<longleftrightarrow>
     mem st' = mem st \<and> base st' = base st \<and> elfs st' = elfs st \<and> globals st' = globals st \<and> fresh st' = fresh st
     \<and> oom st' = oom st \<and> (\<forall>q. q \<notin> S \<longrightarrow> scns st' q = scns st q)
     \<and> same_datas st st'"

lemma laid_frame_refl [simp]: "laid_frame S st st"
  by (simp add: laid_frame_def same_datas_def)

lemma laid_frame_trans: "laid_frame S st st1 \<Longrightarrow> laid_frame T st1 st2 \<Longrightarrow> S \<union> T \<subseteq> U \<Longrightarrow> laid_frame U st st2"
  unfolding laid_frame_def same_datas_def by (auto; metis UnCI subsetD)

lemma laid_frame_step:
  assumes "same_but_offsets st st1"
  shows "laid_frame {s} st (set_scn s scn' st1)"
  using assms same_but_offsets_frame [OF assms] by (simp add: laid_frame_def same_but_offsets_def same_datas_def)

lemma laid_frame_section:
  assumes "laid_frame S st st'" "s \<notin> S"
  shows "scn_at st' s = scn_at st s" "takes_space st' s = takes_space st s" "scns st' s = scns st s"
    "datas_ready ec (s_data (scn_at st s)) st \<Longrightarrow>
       section_size ec (scn_at st s) st' = section_size ec (scn_at st s) st
       \<and> section_align ec (scn_at st s) st' = section_align ec (scn_at st s) st
       \<and> datas_ready ec (s_data (scn_at st s)) st'"
proof -
  show *: "scns st' s = scns st s" using assms by (simp add: laid_frame_def)
  then show at: "scn_at st' s = scn_at st s" by (simp add: scn_at_def)
  then show "takes_space st' s = takes_space st s" by (simp add: takes_space_def)
  assume "datas_ready ec (s_data (scn_at st s)) st"
  with assms(1) show "section_size ec (scn_at st s) st' = section_size ec (scn_at st s) st
       \<and> section_align ec (scn_at st s) st' = section_align ec (scn_at st s) st
       \<and> datas_ready ec (s_data (scn_at st s)) st'"
    using datas_cong [of st st' ec "s_data (scn_at st s)"]
    by (simp add: laid_frame_def section_size_def section_align_def)
qed

lemma sections_layable_frame:
  assumes "laid_frame S st st'" "S \<inter> set ss = {}" "sections_layable elf ec st ss"
  shows "sections_layable elf ec st' ss" "section_pieces ec st' ss = section_pieces ec st ss"
    "filter (takes_space st') ss = filter (takes_space st) ss"
proof -
  have s: "s \<notin> S" if "s \<in> set ss" for s using that assms(2) by blast
  note fr = laid_frame_section [OF assms(1) s]
  have ready: "datas_ready ec (s_data (scn_at st s)) st" if "s \<in> set ss" "takes_space st s" for s
    using assms(3) that by (auto simp: sections_layable_def file_section_def)
  show f: "filter (takes_space st') ss = filter (takes_space st) ss"
    using fr(2) by (intro filter_cong) auto
  show "section_pieces ec st' ss = section_pieces ec st ss"
    unfolding section_pieces_def f using fr(1,4) ready by (intro map_cong) auto
  show "sections_layable elf ec st' ss"
    unfolding sections_layable_def
  proof
    fix s assume s: "s \<in> set ss"
    have "file_section ec (scn_at st s) st \<Longrightarrow> file_section ec (scn_at st s) st'"
      using fr(4) [OF s, of ec] by (auto simp: file_section_def)
    then show "scns st' s \<noteq> None \<and> shdr_class (s_shdr (scn_at st' s)) = ec
        \<and> (takes_space st' s \<longrightarrow> file_section ec (scn_at st' s) st'
             \<and> (s_data (scn_at st' s) = [] \<longrightarrow> untouched (scn_at st' s) \<or> e_cmd elf = ELF_C_WRITE))"
      using assms(3) s unfolding sections_layable_def fr(1) [OF s] fr(2) [OF s] fr(3) [OF s] by blast
  qed
qed

text \<open>One section that takes space: it goes to the next aligned offset.\<close>

definition section_extent :: "store \<Rightarrow> scn_ref \<Rightarrow> Elf_Extent" where
  "section_extent st s =
     \<lparr>ex_start = s_offset (scn_at st s), ex_size = s_size (scn_at st s), ex_type = ELF_EXTENT_SECTION, ex_desc = Some s\<rparr>"

lemma resync_section_step:
  assumes elf: "elfs st e = Some elf" "e_class elf = ec" "std_class ec" "e_flags elf AND ELF_F_LAYOUT = 0"
      "e_version elf = EV_CURRENT"
    and s: "takes_space st s" "sections_layable elf ec st (s # ss)"
    and xs: "extents_ok xs" "covered xs \<subseteq> {..<unat rc}" "oom st = []"
  defines "n \<equiv> section_size ec (scn_at st s) st" and "a \<equiv> unat (section_align ec (scn_at st s) st)"
  defines "off \<equiv> align_to a (unat rc)"
  assumes bound: "(if n = 0 then unat rc else off + n) < 2 ^ 63"
  shows "\<exists>rc2 xs2 st2. resync_sections e ec (s # ss) rc xs st = resync_sections e ec ss rc2 xs2 st2
    \<and> extents_ok xs2 \<and> covered xs2 = covered xs \<union> {off ..< off + n} \<and> covered xs2 \<subseteq> {..<unat rc2}
    \<and> unat rc2 = (if n = 0 then unat rc else off + n) \<and> laid_frame {s} st st2
    \<and> scns st2 s \<noteq> None \<and> laid_out ec (scn_at st s) (of_nat off) (of_nat n) (scn_at st2 s)
    \<and> data_placed ec (s_data (scn_at st s)) st st2
    \<and> xs2 = xs @ (if s_size (scn_at st2 s) = 0 then [] else [section_extent st2 s])"
proof -
  obtain scn where scn: "scns st s = Some scn" "shdr_class (s_shdr scn) = ec"
    using s(2) by (auto simp: sections_layable_def scn_at_def)
  have at: "scn_at st s = scn" by (simp add: scn_at_def scn)
  have sh: "scn_shdr ec scn = Some (s_shdr scn)"
    using scn(2) elf(3) by (auto simp: scn_shdr_def shdr_class_def std_class_def split: Shdr.split)
  have fs: "file_section ec scn st" and data: "s_data scn = [] \<longrightarrow> untouched scn \<or> e_cmd elf = ELF_C_WRITE"
    using s by (auto simp: sections_layable_def at)
  have a: "section_align ec scn st \<noteq> 0" "a \<le> 2 ^ 32" "0 < a"
    using fs by (auto simp: file_section_def a_def at word_le_nat_alt unat_gt_0)
  note up = align_to_bounds [OF a(3), of "unat rc", folded off_def]
  have n62: "n < 2 ^ 62" using fs by (simp add: file_section_def n_def at)
  have rc63: "unat rc < 2 ^ 63" using bound up(1) by (auto split: if_splits)
  have off_bound: "off < 2 ^ 64" using up(2) rc63 a(2) by simp
  have off: "roundup2 rc (section_align ec scn st) = of_nat off"
    using roundup2_align_to [OF a(1), of rc] rc63 a(2) off_bound
    by (simp add: word_unat_eq_iff unat_of_nat_u64 off_def a_def at)
  have n: "section_size ec scn st = n" by (simp add: n_def at)
  obtain scn' st1 where c0: "libelf_compute_section_extents e s rc st = Some (True, set_scn s scn' st1)
      \<and> laid_out ec scn (roundup2 rc (section_align ec scn st)) (of_nat (section_size ec scn st)) scn'
      \<and> same_but_offsets st st1 \<and> data_placed ec (s_data scn) st st1"
    using compute_section_extents_places [OF elf(1-5) scn(1) fs data, of rc] by (elim exE) (rule that)
  note c = c0 [unfolded off n, THEN conjunct1] c0 [unfolded off n, THEN conjunct2, THEN conjunct1]
    c0 [THEN conjunct2, THEN conjunct2, THEN conjunct1] c0 [THEN conjunct2, THEN conjunct2, THEN conjunct2]
  define st2 where "st2 = set_scn s scn' st1"
  have fr: "laid_frame {s} st st2" unfolding st2_def by (rule laid_frame_step [OF c(3)])
  have scn': "scns st2 s = Some scn'" "scn_at st2 s = scn'" "s_size scn' = of_nat n" "s_offset scn' = of_nat off"
    using c(2) by (auto simp: st2_def laid_out_def scn_at_def)
  have placed: "data_placed ec (s_data (scn_at st s)) st st2"
    using c(4) by (simp add: at st2_def data_placed_def data_at_def)
  have oom: "oom st2 = []" using fr xs(3) by (simp add: laid_frame_def)
  have un: "unat (of_nat n :: u64) = n" using n62 by (simp add: unat_of_nat_u64)
  have n0: "(of_nat n :: u64) = 0 \<longleftrightarrow> n = 0"
  proof
    assume "(of_nat n :: u64) = 0"
    then show "n = 0" using un by simp
  qed simp
  have types: "shdr_type (s_shdr scn) \<noteq> SHT_NULL" "shdr_type (s_shdr scn) \<noteq> SHT_NOBITS"
    using s(1) by (simp_all add: takes_space_def at)
  show ?thesis
  proof (cases "n = 0")
    case True
    have "resync_sections e ec (s # ss) rc xs st = resync_sections e ec ss rc xs st2"
      using scn(1) sh c(1) scn' types True by (simp add: st2_def [symmetric] n0)
    then show ?thesis
      using True xs fr c(2) scn' placed by (intro exI [of _ rc] exI [of _ xs] exI [of _ st2]) (simp add: at)
  next
    case False
    have lt: "off + n < 2 ^ 64" using bound False by simp
    have u: "unat (of_nat (off + n) :: u64) = off + n" using lt by (rule unat_of_nat_u64)
    from regions.add_behind [OF xs(1) _ lt xs(2) up(1), of ELF_EXTENT_SECTION "Some s"] False
    obtain ys where ys: "insert_region ELF_EXTENT_SECTION (Some s) off n xs = Some ys" "extents_ok ys"
      "covered ys \<subseteq> {..<off + n}" by auto
    have cov: "covered ys = covered xs \<union> {off ..< off + n}"
      using regions.add_SomeD(2) [OF xs(1) _ lt ys(1)] False by simp
    have ins: "libelf_insert_extent xs ELF_EXTENT_SECTION (of_nat off) (of_nat n) (Some s) st2 = Some ((True, ys), st2)"
      using libelf_insert_extent_region [OF xs(1) _ lt oom, of ELF_EXTENT_SECTION "Some s"] False ys(1) by simp
    have ap: "ys = xs @ [section_extent st2 s]"
      using insert_region_behind [OF xs(1) lt xs(2) up(1), of ELF_EXTENT_SECTION "Some s"] ys(1) scn'(2-4)
      by (simp add: section_extent_def)
    have "rc < of_nat off + of_nat n" using up(1) False u by (simp add: word_less_nat_alt)
    then have "resync_sections e ec (s # ss) rc xs st = resync_sections e ec ss (of_nat (off + n)) ys st2"
      using scn(1) sh c(1) scn' types False ins by (simp add: st2_def [symmetric] n0)
    then show ?thesis
      using False ys cov u fr c(2) scn' placed n0
      by (intro exI [of _ "of_nat (off + n)"] exI [of _ ys] exI [of _ st2]) (simp add: at flip: ap)
  qed
qed

text \<open>
  The sections of the list are placed by \<open>section_offsets\<close>, and their regions are added to
  the extents.
\<close>

definition sections_placed :: "int \<Rightarrow> nat \<Rightarrow> scn_ref list \<Rightarrow> store \<Rightarrow> store \<Rightarrow> bool" where
  "sections_placed ec x ss st st' \<longleftrightarrow>
     (\<forall>i<length (filter (takes_space st) ss). let s = filter (takes_space st) ss ! i in
        scns st' s \<noteq> None \<and> laid_out ec (scn_at st s) (of_nat (section_offsets (section_pieces ec st ss) x ! i))
          (of_nat (section_size ec (scn_at st s) st)) (scn_at st' s))"

text \<open>The extents of the sections, and the data of all of them.\<close>

definition section_extents :: "store \<Rightarrow> store \<Rightarrow> scn_ref list \<Rightarrow> Elf_Extent list" where
  "section_extents st st' ss =
     map (section_extent st') (filter (\<lambda>s. takes_space st s \<and> s_size (scn_at st' s) \<noteq> 0) ss)"

definition section_datas :: "store \<Rightarrow> scn_ref list \<Rightarrow> data_ref list" where
  "section_datas st ss = concat (map (\<lambda>s. s_data (scn_at st s)) ss)"

definition datas_placed :: "int \<Rightarrow> scn_ref list \<Rightarrow> store \<Rightarrow> store \<Rightarrow> bool" where
  "datas_placed ec ss st st' \<longleftrightarrow>
     (\<forall>r. r \<notin> set (section_datas st ss) \<longrightarrow> datas st' r = datas st r)
     \<and> (distinct (section_datas st ss) \<longrightarrow> (\<forall>s\<in>set ss. takes_space st s \<longrightarrow>
           (let rs = s_data (scn_at st s) in \<forall>i<length rs.
              unat (d_off (data_at st' (rs ! i))) = place_offsets (pieces ec rs st) 0 ! i)))"

lemma datas_placed_Cons:
  assumes fr: "laid_frame {s} st st2" "{s} \<inter> set ss = {}" and lay: "sections_layable elf ec st (s # ss)"
    and "takes_space st s" "data_placed ec (s_data (scn_at st s)) st st2" "datas_placed ec ss st2 st'"
  shows "datas_placed ec (s # ss) st st'"
proof -
  have at: "scn_at st2 q = scn_at st q" "takes_space st2 q = takes_space st q" if "q \<in> set ss" for q
    using laid_frame_section(1,2) [OF fr(1), of q] that fr(2) by auto
  then have ds: "section_datas st2 ss = section_datas st ss" by (simp add: section_datas_def cong: map_cong)
  have pcs: "pieces ec (s_data (scn_at st q)) st2 = pieces ec (s_data (scn_at st q)) st"
    if "q \<in> set ss" "takes_space st q" for q
    using that lay fr(1) datas_cong(2) [of st st2 ec "s_data (scn_at st q)"]
    by (auto simp: sections_layable_def file_section_def laid_frame_def)
  have all: "section_datas st (s # ss) = s_data (scn_at st s) @ section_datas st ss" by (simp add: section_datas_def)
  let ?rs = "s_data (scn_at st s)"
  show ?thesis
    unfolding datas_placed_def all Let_def
  proof (intro conjI allI impI ballI)
    fix r assume "r \<notin> set (?rs @ section_datas st ss)"
    then show "datas st' r = datas st r" using assms(5,6) by (simp add: data_placed_def datas_placed_def ds)
  next
    fix q i assume d: "distinct (?rs @ section_datas st ss)" and q: "q \<in> set (s # ss)" "takes_space st q"
      and i: "i < length (s_data (scn_at st q))"
    show "unat (d_off (data_at st' (s_data (scn_at st q) ! i))) = place_offsets (pieces ec (s_data (scn_at st q)) st) 0 ! i"
    proof (cases "q = s")
      case True
      then have "?rs ! i \<notin> set (section_datas st ss)" using d i nth_mem by fastforce
      then have "datas st' (?rs ! i) = datas st2 (?rs ! i)" using assms(6) by (simp add: datas_placed_def ds)
      then show ?thesis using assms(5) d i True by (simp add: data_placed_def data_at_def)
    next
      case False
      then have "q \<in> set ss" using q by simp
      then show ?thesis using assms(6) d i q at pcs by (simp add: datas_placed_def ds Let_def)
    qed
  qed
qed

lemma resync_sections_places:
  assumes elf: "elfs st e = Some elf" "e_class elf = ec" "std_class ec" "e_flags elf AND ELF_F_LAYOUT = 0"
      "e_version elf = EV_CURRENT"
    and ss: "sections_layable elf ec st ss" "distinct ss"
    and xs: "extents_ok xs" "covered xs \<subseteq> {..<unat rc}" "oom st = []"
    and bound: "section_end (section_pieces ec st ss) (unat rc) < 2 ^ 63"
  shows "\<exists>rc' xs' st'. resync_sections e ec ss rc xs st = Some ((Some rc', xs'), st')
    \<and> extents_ok xs' \<and> unat rc' = section_end (section_pieces ec st ss) (unat rc)
    \<and> covered xs' = covered xs \<union> section_regions (section_pieces ec st ss) (unat rc)
    \<and> covered xs' \<subseteq> {..<unat rc'} \<and> laid_frame (set (filter (takes_space st) ss)) st st'
    \<and> sections_placed ec (unat rc) ss st st'
    \<and> xs' = xs @ section_extents st st' ss \<and> datas_placed ec ss st st'"
  using elf(1) ss xs bound
proof (induction ss arbitrary: rc xs st)
  case Nil
  then show ?case
    by (simp add: section_pieces_def sections_placed_def section_extents_def datas_placed_def section_datas_def)
next
  case (Cons s ss)
  have rest: "sections_layable elf ec st ss" "distinct ss" "{s} \<inter> set ss = {}"
    using Cons.prems(2,3) by (auto simp: sections_layable_def)
  show ?case
  proof (cases "takes_space st s")
    case False
    obtain scn where scn: "scns st s = Some scn" "shdr_class (s_shdr scn) = ec"
      using Cons.prems(2) by (auto simp: sections_layable_def scn_at_def)
    have "scn_shdr ec scn = Some (s_shdr scn)"
      using scn(2) elf(3) by (auto simp: scn_shdr_def shdr_class_def std_class_def split: Shdr.split)
    then have skip: "resync_sections e ec (s # ss) rc xs st = resync_sections e ec ss rc xs st"
      using scn(1) False by (auto simp: takes_space_def scn_at_def)
    have p: "section_pieces ec st (s # ss) = section_pieces ec st ss"
      "sections_placed ec (unat rc) (s # ss) st = sections_placed ec (unat rc) ss st"
      using False by (simp_all add: section_pieces_def sections_placed_def fun_eq_iff)
    have x: "section_extents st st' (s # ss) = section_extents st st' ss" for st'
      using False by (simp add: section_extents_def)
    have y: "datas_placed ec ss st st' \<Longrightarrow> datas_placed ec (s # ss) st st'" for st'
      using False by (auto simp: datas_placed_def section_datas_def)
    have bound: "section_end (section_pieces ec st ss) (unat rc) < 2 ^ 63" using Cons.prems(7) p by simp
    have "filter (takes_space st) (s # ss) = filter (takes_space st) ss" using False by simp
    then show ?thesis
      using Cons.IH [OF Cons.prems(1) rest(1,2) Cons.prems(4-6) bound] y unfolding skip p x by metis
  next
    case True
    define n where "n = section_size ec (scn_at st s) st"
    define a where "a = unat (section_align ec (scn_at st s) st)"
    let ?off = "align_to a (unat rc)" and ?ps = "section_pieces ec st ss"
    let ?next = "if n = 0 then unat rc else ?off + n"
    have p: "section_pieces ec st (s # ss) = (a, n) # ?ps" "filter (takes_space st) (s # ss) = s # filter (takes_space st) ss"
      using True by (simp_all add: section_pieces_def a_def n_def)
    have "list_all (\<lambda>p. 0 < fst p) ?ps"
      using rest(1) by (auto simp: section_pieces_def list_all_iff sections_layable_def file_section_def unat_gt_0)
    then have "?next < 2 ^ 63"
      using section_end_ge [of ?ps ?next] Cons.prems(7) unfolding p section_end.simps by linarith
    from resync_section_step [OF Cons.prems(1) elf(2-5) True Cons.prems(2,4,5,6), folded n_def a_def, OF this]
    obtain rc2 xs2 st2 where step: "resync_sections e ec (s # ss) rc xs st = resync_sections e ec ss rc2 xs2 st2"
      "extents_ok xs2" "covered xs2 = covered xs \<union> {?off ..< ?off + n}" "covered xs2 \<subseteq> {..<unat rc2}"
      "unat rc2 = ?next" "laid_frame {s} st st2"
      "scns st2 s \<noteq> None" "laid_out ec (scn_at st s) (of_nat ?off) (of_nat n) (scn_at st2 s)"
      "data_placed ec (s_data (scn_at st s)) st st2"
      "xs2 = xs @ (if s_size (scn_at st2 s) = 0 then [] else [section_extent st2 s])" by blast
    note cong = sections_layable_frame [OF step(6) rest(3,1)]
    have st2: "elfs st2 e = Some elf" "oom st2 = []" using step(6) Cons.prems(1,6) by (simp_all add: laid_frame_def)
    have "section_end (section_pieces ec st2 ss) (unat rc2) < 2 ^ 63"
      using Cons.prems(7) unfolding step(5) cong(2) p by simp
    from Cons.IH [OF st2(1) cong(1) rest(2) step(2,4) st2(2) this, unfolded cong(2) step(5)]
    obtain rc' xs' st' where R: "resync_sections e ec ss rc2 xs2 st2 = Some ((Some rc', xs'), st')"
      "extents_ok xs'" "unat rc' = section_end ?ps ?next" "covered xs' = covered xs2 \<union> section_regions ?ps ?next"
      "covered xs' \<subseteq> {..<unat rc'}" "laid_frame (set (filter (takes_space st2) ss)) st2 st'"
      "sections_placed ec ?next ss st2 st'"
      "xs' = xs2 @ section_extents st2 st' ss" "datas_placed ec ss st2 st'" by blast
    have s': "scns st' s = scns st2 s" using R(6) rest(3) by (simp add: laid_frame_def)
    have eqs: "scn_at st2 q = scn_at st q \<and> section_size ec (scn_at st q) st2 = section_size ec (scn_at st q) st"
      if q: "q \<in> set (filter (takes_space st) ss)" for q
    proof -
      have "q \<notin> {s}" using q rest(3) by auto
      moreover have "datas_ready ec (s_data (scn_at st q)) st"
        using q rest(1) by (auto simp: sections_layable_def file_section_def)
      ultimately show ?thesis using laid_frame_section(1) [OF step(6)] laid_frame_section(4) [OF step(6)] by simp
    qed
    have "sections_placed ec (unat rc) (s # ss) st st'"
      unfolding sections_placed_def p section_offsets.simps
    proof (intro allI impI)
      fix i assume i: "i < length (s # filter (takes_space st) ss)"
      show "let s' = (s # filter (takes_space st) ss) ! i in scns st' s' \<noteq> None
         \<and> laid_out ec (scn_at st s') (of_nat ((?off # section_offsets ?ps ?next) ! i))
             (of_nat (section_size ec (scn_at st s') st)) (scn_at st' s')"
      proof (cases i)
        case 0
        then show ?thesis using step(7,8) s' by (simp add: n_def scn_at_def)
      next
        case (Suc j)
        then have j: "j < length (filter (takes_space st) ss)" using i by simp
        with R(7) [unfolded sections_placed_def cong(2,3), THEN spec, THEN mp, OF j] eqs [OF nth_mem [OF j]]
        show ?thesis by (simp add: Let_def Suc split del: if_split)
      qed
    qed
    moreover have "laid_frame (set (filter (takes_space st) (s # ss))) st st'"
      using laid_frame_trans [OF step(6) R(6) [unfolded cong(3)], of "set (s # filter (takes_space st) ss)"] unfolding p
      by simp
    moreover have "resync_sections e ec (s # ss) rc xs st = Some ((Some rc', xs'), st')"
      unfolding step(1) by (rule R(1))
    moreover have "covered xs' = covered xs \<union> section_regions (section_pieces ec st (s # ss)) (unat rc)"
      unfolding R(4) step(3) p section_regions.simps by (rule Un_assoc)
    moreover have "unat rc' = section_end (section_pieces ec st (s # ss)) (unat rc)"
      unfolding p section_end.simps by (rule R(3))
    moreover have "xs' = xs @ section_extents st st' (s # ss)"
    proof -
      have "scn_at st' s = scn_at st2 s" using s' by (simp add: scn_at_def)
      moreover have "takes_space st2 q = takes_space st q" if "q \<in> set ss" for q
        using laid_frame_section(2) [OF step(6), of q] that rest(3) by auto
      then have "section_extents st2 st' ss = section_extents st st' ss"
        by (simp add: section_extents_def cong: filter_cong)
      ultimately show ?thesis
        unfolding R(8) step(10) using True by (simp add: section_extents_def section_extent_def)
    qed
    moreover have "datas_placed ec (s # ss) st st'"
      by (rule datas_placed_Cons [OF step(6) rest(3) Cons.prems(2) True step(9) R(9)])
    ultimately show ?thesis using R(2,5) by blast
  qed
qed

section \<open>The whole object\<close>

lemma off_add_small:
  assumes "unat a + unat b < 2 ^ 63"
  shows "off_add a b = Some (a + b)" "unat (a + b) = unat a + unat b"
proof -
  have "sint a = int (unat a)" "sint b = int (unat b)" using assms by (simp_all add: sint_small)
  moreover have "int (unat a) + int (unat b) < 2 ^ 63"
    using assms by (metis of_nat_add of_nat_less_iff of_nat_numeral of_nat_power)
  moreover have "- (2 ^ 63) \<le> int (unat a) + int (unat b)" by (rule order_trans [of _ 0]) simp_all
  ultimately show "off_add a b = Some (a + b)" by (simp add: off_add_def)
  show "unat (a + b) = unat a + unat b" using assms by (simp add: unat_add_small)
qed

lemma off_roundup_small:
  assumes "y \<noteq> 0" "unat x + unat y \<le> 2 ^ 63"
  shows "off_roundup x y = Some (roundup2 x y)"
proof -
  have "unat (y - 1) = unat y - 1" using assms(1) by (rule unat_minus_one)
  moreover have "0 < unat y" using assms(1) by (simp add: unat_gt_0)
  ultimately have "unat x + unat (y - 1) < 2 ^ 63" using assms(2) by linarith
  then show ?thesis using assms(1) off_add_small(1) by (simp add: off_roundup_def roundup2_def)
qed

text \<open>The sizes of the tables' entries and their alignment in the file.\<close>

definition ehdr_fsz :: "int \<Rightarrow> nat" where "ehdr_fsz ec = (if ec = ELFCLASS32 then 52 else 64)"
definition phdr_fsz :: "int \<Rightarrow> nat" where "phdr_fsz ec = (if ec = ELFCLASS32 then 32 else 56)"
definition shdr_fsz :: "int \<Rightarrow> nat" where "shdr_fsz ec = (if ec = ELFCLASS32 then 40 else 64)"
definition word_align :: "int \<Rightarrow> nat" where "word_align ec = (if ec = ELFCLASS32 then 4 else 8)"

lemma table_fsizes:
  assumes "std_class ec"
  shows "libelf_fsize ELF_T_EHDR ec EV_CURRENT c st = (of_nat (ehdr_fsz ec) * c, st)"
    "libelf_fsize ELF_T_PHDR ec EV_CURRENT c st = (of_nat (phdr_fsz ec) * c, st)"
    "libelf_fsize ELF_T_SHDR ec EV_CURRENT c st = (of_nat (shdr_fsz ec) * c, st)"
    "ucast (libelf_falign ELF_T_PHDR ec) = (of_nat (word_align ec) :: u64)"
    "ucast (libelf_falign ELF_T_SHDR ec) = (of_nat (word_align ec) :: u64)"
  using assms
  by (auto simp: std_class_def libelf_fsize_def fsize_table_def prim_basic_def comp_layout_def DEF_simps FSZ_def
      libelf_falign_def falign_table_def ehdr_fsz_def phdr_fsz_def shdr_fsz_def word_align_def)

text \<open>A table of \<open>k\<close> entries of \<open>w\<close> bytes behind the offset \<open>x\<close>; an empty table takes no space.\<close>

definition table_offset :: "nat \<Rightarrow> nat \<Rightarrow> nat \<Rightarrow> nat" where
  "table_offset a k x = (if k = 0 then 0 else align_to a x)"

definition table_end :: "nat \<Rightarrow> nat \<Rightarrow> nat \<Rightarrow> nat \<Rightarrow> nat" where
  "table_end a w k x = (if k = 0 then x else align_to a x + k * w)"

definition table_region :: "nat \<Rightarrow> nat \<Rightarrow> nat \<Rightarrow> nat \<Rightarrow> nat set" where
  "table_region a w k x = (if k = 0 then {} else {align_to a x ..< align_to a x + k * w})"

definition table_extents :: "nat \<Rightarrow> nat \<Rightarrow> elf_extent \<Rightarrow> nat \<Rightarrow> nat \<Rightarrow> Elf_Extent list" where
  "table_extents a w ty k x =
     (if k = 0 then []
      else [\<lparr>ex_start = of_nat (align_to a x), ex_size = of_nat (k * w), ex_type = ty, ex_desc = None\<rparr>])"

lemma insert_table:
  assumes xs: "extents_ok xs" "covered xs \<subseteq> {..<unat rc}" "oom st = []"
    and k: "k \<noteq> 0" "0 < w" "0 < a" "a \<le> 2 ^ 32" "table_end a w (unat k) (unat rc) < 2 ^ 62"
  defines "off \<equiv> roundup2 rc (of_nat a)" and "fsz \<equiv> of_nat w * k"
  shows "off_roundup rc (of_nat a) = Some off" "off_add off fsz = Some (off + fsz)"
    "unat off = align_to a (unat rc)" "unat (off + fsz) = align_to a (unat rc) + unat k * w"
    "\<exists>ys. libelf_insert_extent xs ty off fsz None st = Some ((True, ys), st) \<and> extents_ok ys
       \<and> covered ys = covered xs \<union> table_region a w (unat k) (unat rc) \<and> covered ys \<subseteq> {..<unat (off + fsz)}
       \<and> ys = xs @ table_extents a w ty (unat k) (unat rc)"
proof -
  let ?off = "align_to a (unat rc)"
  have k0: "unat k \<noteq> 0" using k(1) by (simp add: unat_eq_zero)
  have e: "?off + unat k * w < 2 ^ 62" using k(5) k0 by (simp add: table_end_def)
  note up = align_to_bounds [OF k(3), of "unat rc"]
  have ua: "unat (of_nat a :: u64) = a" using k(4) by (simp add: unat_of_nat_u64)
  have a0: "(of_nat a :: u64) \<noteq> 0" using ua k(3) by (metis less_numeral_extra(3) unat_0)
  have rc: "unat rc < 2 ^ 62" using up(1) e by linarith
  have ra: "unat rc + unat (of_nat a :: u64) \<le> 2 ^ 63" unfolding ua using rc k(4) by simp
  show "off_roundup rc (of_nat a) = Some off" unfolding off_def by (rule off_roundup_small [OF a0 ra])
  show off: "unat off = ?off"
    unfolding off_def using roundup2_align_to [OF a0] ra by (simp add: ua)
  have fsz: "unat fsz = unat k * w"
  proof -
    have "1 * w \<le> unat k * w" using k0 by (intro mult_le_mono1) simp
    then have "w < 2 ^ 62" using e by linarith
    then have uw: "unat (of_nat w :: u64) = w" by (simp add: unat_of_nat_u64)
    have "w * unat k < 2 ^ 64" using e by (simp add: mult.commute)
    then show ?thesis unfolding fsz_def by (subst unat_mult_lem [THEN iffD1]) (simp_all add: uw mult.commute)
  qed
  have sum: "unat off + unat fsz < 2 ^ 63" unfolding off fsz using e by simp
  show "off_add off fsz = Some (off + fsz)" by (rule off_add_small(1) [OF sum])
  show u: "unat (off + fsz) = ?off + unat k * w" using off_add_small(2) [OF sum] off fsz by simp
  have n: "0 < unat k * w" "?off + unat k * w < 2 ^ 64" using k0 k(2) e by simp_all
  from regions.add_behind [OF xs(1) n xs(2) up(1), of ty None]
  obtain ys where ys: "insert_region ty None ?off (unat k * w) xs = Some ys" "extents_ok ys"
    "covered ys \<subseteq> {..<?off + unat k * w}" by blast
  have "covered ys = covered xs \<union> {?off ..< ?off + unat k * w}" by (rule regions.add_SomeD(2) [OF xs(1) n ys(1)])
  moreover have "of_nat (unat off) = off" "of_nat (unat fsz) = fsz" by simp_all
  then have "off = of_nat ?off" "fsz = of_nat (unat k * w)" unfolding off fsz by simp_all
  then have "libelf_insert_extent xs ty off fsz None st = Some ((True, ys), st)"
    using libelf_insert_extent_region [OF xs(1) n xs(3), of ty None] ys(1) by simp
  moreover have "ys = xs @ table_extents a w ty (unat k) (unat rc)"
    using insert_region_behind [OF xs(1) n(2) xs(2) up(1), of ty None] ys(1) k0 by (simp add: table_extents_def)
  ultimately show "\<exists>ys. libelf_insert_extent xs ty off fsz None st = Some ((True, ys), st) \<and> extents_ok ys
       \<and> covered ys = covered xs \<union> table_region a w (unat k) (unat rc) \<and> covered ys \<subseteq> {..<unat (off + fsz)}
       \<and> ys = xs @ table_extents a w ty (unat k) (unat rc)"
    using ys(2,3) k0 unfolding u by (intro exI [of _ ys]) (simp add: table_region_def)
qed

text \<open>
  An object being created whose layout is left to the library: the header is in memory, the
  tables are as long as the descriptor says and short enough for their counts to fit in the
  header, and the sections can be placed.  \<open>created_end\<close> is the size of the file.
\<close>

definition created_sections :: "Elf \<Rightarrow> nat" where
  "created_sections elf = table_end (word_align (e_class elf)) (phdr_fsz (e_class elf)) (unat (e_nphdr elf))
     (ehdr_fsz (e_class elf))"

definition created_shoff :: "Elf \<Rightarrow> store \<Rightarrow> nat" where
  "created_shoff elf st = section_end (section_pieces (e_class elf) st (e_scn elf)) (created_sections elf)"

definition created_end :: "Elf \<Rightarrow> store \<Rightarrow> nat" where
  "created_end elf st = table_end (word_align (e_class elf)) (shdr_fsz (e_class elf)) (unat (e_nscn elf))
     (created_shoff elf st)"

definition creating :: "elf_ref \<Rightarrow> Elf \<Rightarrow> Ehdr \<Rightarrow> store \<Rightarrow> bool" where
  "creating e elf eh st \<longleftrightarrow>
     header_ready e elf eh st \<and> e_cmd elf = ELF_C_WRITE \<and> e_flags elf AND ELF_F_LAYOUT = 0
     \<and> ehdr_checks elf eh (if ehdr_version eh = EV_NONE then EV_CURRENT else ehdr_version eh) = None
     \<and> e_nphdr elf < PN_XNUM \<and> (e_nphdr elf \<noteq> 0 \<longrightarrow> e_phdr elf \<noteq> None) \<and> e_nscn elf < SHN_LORESERVE
     \<and> distinct (e_scn elf) \<and> sections_layable elf (e_class elf) st (e_scn elf) \<and> oom st = []
     \<and> created_end elf st < 2 ^ 62"

lemma created_order:
  assumes "creating e elf eh st"
  shows "ehdr_fsz (e_class elf) \<le> created_sections elf" "created_sections elf \<le> created_shoff elf st"
    "created_shoff elf st \<le> created_end elf st"
proof -
  have a: "0 < word_align ec" for ec by (simp add: word_align_def)
  have t: "x \<le> table_end (word_align ec) w k x" for ec w k x
    using align_to_bounds(1) [OF a [of ec], of x] by (auto simp: table_end_def)
  show "ehdr_fsz (e_class elf) \<le> created_sections elf" "created_shoff elf st \<le> created_end elf st"
    by (simp_all add: created_sections_def created_end_def t)
  have "sections_layable elf (e_class elf) st (e_scn elf)" using assms by (simp add: creating_def)
  then have "list_all (\<lambda>p. 0 < fst p) (section_pieces (e_class elf) st (e_scn elf))"
    by (auto simp: section_pieces_def list_all_iff sections_layable_def file_section_def unat_gt_0)
  then show "created_sections elf \<le> created_shoff elf st" unfolding created_shoff_def by (rule section_end_ge)
qed

lemma resync_phdrs_places:
  assumes elf: "elfs st e = Some elf" "e_class elf = ec" "std_class ec" "e_flags elf AND ELF_F_LAYOUT = 0"
      "e_kind elf = ELF_K_ELF" "phnum \<noteq> 0 \<longrightarrow> e_phdr elf \<noteq> None"
    and xs: "extents_ok xs" "covered xs \<subseteq> {..<unat rc}" "oom st = []"
    and bound: "table_end (word_align ec) (phdr_fsz ec) (unat phnum) (unat rc) < 2 ^ 62"
  shows "\<exists>rc' off ys. resync_phdrs e ec EV_CURRENT phnum phoff rc xs st = Some ((Some (rc', off), ys), st)
    \<and> unat rc' = table_end (word_align ec) (phdr_fsz ec) (unat phnum) (unat rc)
    \<and> unat off = table_offset (word_align ec) (unat phnum) (unat rc)
    \<and> extents_ok ys \<and> covered ys = covered xs \<union> table_region (word_align ec) (phdr_fsz ec) (unat phnum) (unat rc)
    \<and> covered ys \<subseteq> {..<unat rc'}
    \<and> ys = xs @ table_extents (word_align ec) (phdr_fsz ec) ELF_EXTENT_PHDR (unat phnum) (unat rc)"
proof (cases "phnum = 0")
  case True
  then show ?thesis using xs by (simp add: resync_phdrs_def table_end_def table_offset_def table_region_def table_extents_def)
next
  case False
  have k0: "unat phnum \<noteq> 0" using False by (simp add: unat_eq_zero)
  have w: "0 < phdr_fsz ec" "0 < word_align ec" "word_align ec \<le> 2 ^ 32"
    by (simp_all add: phdr_fsz_def word_align_def)
  note t = insert_table [OF xs False w bound]
  note f = table_fsizes(2,4) [OF elf(3)]
  have a0: "(of_nat (word_align ec) :: u64) \<noteq> 0" by (simp add: word_align_def)
  have ph: "libelf_getphdr (Some e) ec st = Some (e_phdr elf, st)"
    using elf False by (auto simp: libelf_getphdr_def std_class_def read_e_phdr_def)
  obtain ys where ys: "libelf_insert_extent xs ELF_EXTENT_PHDR (roundup2 rc (of_nat (word_align ec)))
      (of_nat (phdr_fsz ec) * phnum) None st = Some ((True, ys), st)" "extents_ok ys"
    "covered ys = covered xs \<union> table_region (word_align ec) (phdr_fsz ec) (unat phnum) (unat rc)"
    "covered ys \<subseteq> {..<unat (roundup2 rc (of_nat (word_align ec)) + of_nat (phdr_fsz ec) * phnum)}"
    "ys = xs @ table_extents (word_align ec) (phdr_fsz ec) ELF_EXTENT_PHDR (unat phnum) (unat rc)"
    using t(5) by blast
  have "resync_phdrs e ec EV_CURRENT phnum phoff rc xs st
    = Some ((Some (roundup2 rc (of_nat (word_align ec)) + of_nat (phdr_fsz ec) * phnum,
        roundup2 rc (of_nat (word_align ec))), ys), st)"
    using elf(1,4) False f a0 t(1,2) ph ys(1) by (simp add: resync_phdrs_def)
  then show ?thesis using t(3,4) ys(2-5) k0 by (simp add: table_end_def table_offset_def)
qed

lemma resync_shdrs_places:
  assumes elf: "elfs st e = Some elf" "e_class elf = ec" "std_class ec" "e_flags elf AND ELF_F_LAYOUT = 0"
    and xs: "extents_ok xs" "covered xs \<subseteq> {..<unat rc}" "oom st = []"
    and bound: "table_end (word_align ec) (shdr_fsz ec) (unat shnum) (unat rc) < 2 ^ 62"
  shows "\<exists>rc' off ys. resync_shdrs e ec EV_CURRENT shnum shoff rc xs st = Some ((Some (rc', off), ys), st)
    \<and> unat rc' = table_end (word_align ec) (shdr_fsz ec) (unat shnum) (unat rc)
    \<and> unat off = table_offset (word_align ec) (unat shnum) (unat rc)
    \<and> extents_ok ys \<and> covered ys = covered xs \<union> table_region (word_align ec) (shdr_fsz ec) (unat shnum) (unat rc)
    \<and> covered ys \<subseteq> {..<unat rc'}
    \<and> ys = xs @ table_extents (word_align ec) (shdr_fsz ec) ELF_EXTENT_SHDR (unat shnum) (unat rc)"
proof (cases "shnum = 0")
  case True
  then show ?thesis using xs by (simp add: resync_shdrs_def table_end_def table_offset_def table_region_def table_extents_def)
next
  case False
  have k0: "unat shnum \<noteq> 0" using False by (simp add: unat_eq_zero)
  have w: "0 < shdr_fsz ec" "0 < word_align ec" "word_align ec \<le> 2 ^ 32"
    by (simp_all add: shdr_fsz_def word_align_def)
  note t = insert_table [OF xs False w bound]
  note f = table_fsizes(3,5) [OF elf(3)]
  have a0: "(of_nat (word_align ec) :: u64) \<noteq> 0" by (simp add: word_align_def)
  let ?n = "roundup2 rc (of_nat (word_align ec)) + of_nat (shdr_fsz ec) * shnum"
  obtain ys where ys: "libelf_insert_extent xs ELF_EXTENT_SHDR (roundup2 rc (of_nat (word_align ec)))
      (of_nat (shdr_fsz ec) * shnum) None st = Some ((True, ys), st)" "extents_ok ys"
    "covered ys = covered xs \<union> table_region (word_align ec) (shdr_fsz ec) (unat shnum) (unat rc)"
    "covered ys \<subseteq> {..<unat ?n}"
    "ys = xs @ table_extents (word_align ec) (shdr_fsz ec) ELF_EXTENT_SHDR (unat shnum) (unat rc)"
    using t(5) by blast
  have e: "unat ?n < 2 ^ 62" using t(4) bound k0 by (simp add: table_end_def)
  have "1 * 1 \<le> unat shnum * shdr_fsz ec" using k0 w(1) by (intro mult_le_mono) simp_all
  then have "unat rc < unat ?n" unfolding t(4) using align_to_bounds(1) [OF w(2), of "unat rc"] by linarith
  moreover from this have "sint rc = int (unat rc)" "sint ?n = int (unat ?n)" using e by (intro sint_small; simp)+
  ultimately have "sint rc < sint ?n" by (simp only: of_nat_less_iff)
  then have "resync_shdrs e ec EV_CURRENT shnum shoff rc xs st
    = Some ((Some (?n, roundup2 rc (of_nat (word_align ec))), ys), st)"
    using elf(1,4) False f a0 t(1,2) ys(1) by (simp add: resync_shdrs_def)
  then show ?thesis using t(3,4) ys(2-5) k0 by (simp add: table_end_def table_offset_def)
qed

text \<open>The fields that the end of \<open>_libelf_resync_elf\<close> sets.\<close>

definition counts_ehdr :: "u64 \<Rightarrow> u64 \<Rightarrow> u64 \<Rightarrow> u64 \<Rightarrow> Ehdr \<Rightarrow> Ehdr" where
  "counts_ehdr phnum shnum phoff shoff eh =
     map_ehdr
       (\<lambda>h. h\<lparr>eh_phnum := ucast phnum, eh_shnum := ucast shnum, eh_phoff := ucast phoff, eh_shoff := ucast shoff\<rparr>)
       (\<lambda>h. h\<lparr>eh_phnum := ucast phnum, eh_shnum := ucast shnum, eh_phoff := phoff, eh_shoff := shoff\<rparr>) eh"

lemma map_ehdr_map_ehdr: "map_ehdr f g (map_ehdr f' g' eh) = map_ehdr (\<lambda>h. f (f' h)) (\<lambda>h. g (g' h)) eh"
  by (simp add: map_ehdr_def split: Ehdr.split)

lemma resync_counts_eq:
  assumes "elfs st e = Some elf" "e_ehdr elf = Some eh" "ehdr_class eh = ec" "e_flags elf AND ELF_F_LAYOUT = 0"
    and "phnum < PN_XNUM" "shnum < SHN_LORESERVE"
  shows "resync_counts e ec phnum shnum phoff shoff st
    = Some (set_elf e (elf\<lparr>e_ehdr := Some (counts_ehdr phnum shnum phoff shoff eh)\<rparr>) st)"
proof -
  have small: "\<not> phnum \<ge> PN_XNUM" "\<not> shnum \<ge> SHN_LORESERVE" using assms(5,6) by simp_all
  show ?thesis
    using assms(1-4) small
    by (simp add: resync_counts_def libelf_setphnum_def libelf_setshnum_def upd_ehdr_eq and_FFFF_u16
        map_ehdr_map_ehdr counts_ehdr_def)
qed

lemma counts_ehdr_fields:
  "ehdr_class (counts_ehdr phnum shnum phoff shoff eh) = ehdr_class eh"
  "ehdr_phnum (counts_ehdr phnum shnum phoff shoff eh) = ucast phnum"
  "ehdr_shnum (counts_ehdr phnum shnum phoff shoff eh) = ucast shnum"
  "ehdr_phoff (counts_ehdr phnum shnum phoff shoff eh)
    = (if ehdr_class eh = ELFCLASS32 then take_bit 32 phoff else phoff)"
  "ehdr_shoff (counts_ehdr phnum shnum phoff shoff eh)
    = (if ehdr_class eh = ELFCLASS32 then take_bit 32 shoff else shoff)"
  "ehdr_ident (counts_ehdr phnum shnum phoff shoff eh) = ehdr_ident eh"
  by (simp_all add: counts_ehdr_def map_ehdr_def ehdr_class_def ucast_ucast_u32 split: Ehdr.split)

text \<open>What the layout of sections depends on.\<close>

lemma sections_store_cong:
  assumes "scns st1 = scns st" "datas st1 = datas st" "e_cmd elf1 = e_cmd elf"
  shows "sections_layable elf1 ec st1 ss = sections_layable elf ec st ss"
    "section_pieces ec st1 ss = section_pieces ec st ss"
    "sections_placed ec x ss st1 = sections_placed ec x ss st"
proof -
  have at: "scn_at st1 = scn_at st" "data_at st1 = data_at st"
    using assms by (simp_all add: scn_at_def data_at_def fun_eq_iff)
  then have ts: "takes_space st1 = takes_space st" by (simp add: takes_space_def fun_eq_iff)
  have "datas_ready ec rs st1 = datas_ready ec rs st" "pieces ec rs st1 = pieces ec rs st"
    "max_align rs st1 a = max_align rs st a" for rs a
    unfolding datas_ready_def pieces_def max_align_def at assms(2) by (rule refl)+
  then have sz: "section_size ec scn st1 = section_size ec scn st" "section_align ec scn st1 = section_align ec scn st"
    "file_section ec scn st1 = file_section ec scn st" for scn
    by (simp_all add: section_size_def section_align_def file_section_def)
  show p: "section_pieces ec st1 ss = section_pieces ec st ss" by (simp add: section_pieces_def at ts sz)
  show "sections_layable elf1 ec st1 ss = sections_layable elf ec st ss"
    unfolding sections_layable_def ts at sz assms by (rule refl)
  show "sections_placed ec x ss st1 = sections_placed ec x ss st"
    by (rule ext) (simp add: sections_placed_def ts at sz p)
qed

text \<open>The checks, and the ELF header as \<open>INITIALIZE_EHDR\<close> leaves it.\<close>

definition init_ehdr :: "int \<Rightarrow> u64 \<Rightarrow> Ehdr \<Rightarrow> Ehdr" where
  "init_ehdr ec phnum eh =
     (let ph = (if phnum = 0 then 0 else of_nat (phdr_fsz ec)) :: u16
      in map_ehdr
        (\<lambda>h. h\<lparr>eh_ident := init_ident ec EV_CURRENT (eh_ident h), eh_ehsize := of_nat (ehdr_fsz ec),
               eh_phentsize := ph, eh_shentsize := of_nat (shdr_fsz ec)\<rparr>)
        (\<lambda>h. h\<lparr>eh_ident := init_ident ec EV_CURRENT (eh_ident h), eh_ehsize := of_nat (ehdr_fsz ec),
               eh_phentsize := ph, eh_shentsize := of_nat (shdr_fsz ec)\<rparr>) eh)"

lemma INITIALIZE_EHDR_eq:
  assumes "elfs st e = Some elf" "e_ehdr elf = Some eh" "ehdr_class eh = ec" "std_class ec"
  shows "INITIALIZE_EHDR e ec EV_CURRENT phnum st = Some (set_elf e (elf\<lparr>e_ehdr := Some (init_ehdr ec phnum eh)\<rparr>) st)"
  using upd_ehdr_eq [OF assms(1-3)] assms(4)
  by (simp add: INITIALIZE_EHDR_def table_fsizes init_ehdr_def Let_def ehdr_fsz_def phdr_fsz_def shdr_fsz_def)

lemma flags_dirty_layout: "(f :: u32) AND ELF_F_LAYOUT = 0 \<Longrightarrow> (f OR ELF_F_DIRTY) AND ELF_F_LAYOUT = 0"
  by (simp add: bit.conj_disj_distrib2)

lemma resync_elf_start:
  assumes "creating e elf eh st"
  defines "ec \<equiv> e_class elf"
  defines "elf1 \<equiv> elf\<lparr>e_byteorder := ucast (ehdr_ident eh ! 5), e_ehdr := Some (init_ehdr ec (e_nphdr elf) eh),
     e_flags := e_flags elf OR ELF_F_DIRTY\<rparr>"
  shows "libelf_resync_elf e [] st
    = resync_body e ec EV_CURRENT (e_nphdr elf) (e_nscn elf) (ehdr_phoff eh) (ehdr_shoff eh) (of_nat (ehdr_fsz ec))
        [\<lparr>ex_start = 0, ex_size = of_nat (ehdr_fsz ec), ex_type = ELF_EXTENT_EHDR, ex_desc = None\<rparr>]
        (set_elf e elf1 st)"
    "header_ready e elf1 (init_ehdr ec (e_nphdr elf) eh) (set_elf e elf1 st)"
proof -
  let ?v = "if ehdr_version eh = EV_NONE then EV_CURRENT else ehdr_version eh"
  have h: "header_ready e elf eh st" and checks: "ehdr_checks elf eh ?v = None" and oom: "oom st = []"
    using assms(1) by (simp_all add: creating_def)
  have hr: "elfs st e = Some elf" "e_kind elf = ELF_K_ELF" "std_class ec" "e_version elf = EV_CURRENT"
    "e_ehdr elf = Some eh" "ehdr_class eh = ec"
    using h by (simp_all add: header_ready_def ec_def)
  have v: "?v = EV_CURRENT" using checks hr(4) by (auto simp: ehdr_checks_def split: if_splits)
  note cached = header_ready_ehdr [OF h, folded ec_def]
  define st1 where "st1 = set_elf e (elf\<lparr>e_byteorder := ucast (ehdr_ident eh ! 5)\<rparr>) st"
  define elf2 where "elf2 = elf\<lparr>e_byteorder := ucast (ehdr_ident eh ! 5), e_ehdr := Some (init_ehdr ec (e_nphdr elf) eh)\<rparr>"
  have init: "INITIALIZE_EHDR e ec EV_CURRENT (e_nphdr elf) st1 = Some (set_elf e elf2 st1)"
    using INITIALIZE_EHDR_eq [of st1 e "elf\<lparr>e_byteorder := ucast (ehdr_ident eh ! 5)\<rparr>" eh ec] hr
    by (simp add: st1_def elf2_def)
  have cls: "ehdr_class (init_ehdr ec (e_nphdr elf) eh) = ec" using hr(6) by (simp add: init_ehdr_def Let_def)
  then have h2: "header_ready e elf2 (init_ehdr ec (e_nphdr elf) eh) (set_elf e elf2 st1)"
    using hr by (simp add: header_ready_def elf2_def ec_def)
  have flag: "\<exists>f. elf_flagehdr (Some e) ELF_C_SET ELF_F_DIRTY (set_elf e elf2 st1) = Some (f, set_elf e elf1 st)"
    using elf_flagehdr_dirty [OF h2] by (simp add: elf2_def elf1_def st1_def)
  show "header_ready e elf1 (init_ehdr ec (e_nphdr elf) eh) (set_elf e elf1 st)"
    using h2 by (simp add: header_ready_def elf2_def elf1_def)
  have "ec = ELFCLASS32 \<or> ec = ELFCLASS64" using hr(3) by (simp add: std_class_def)
  then show "libelf_resync_elf e [] st
    = resync_body e ec EV_CURRENT (e_nphdr elf) (e_nscn elf) (ehdr_phoff eh) (ehdr_shoff eh) (of_nat (ehdr_fsz ec))
        [\<lparr>ex_start = 0, ex_size = of_nat (ehdr_fsz ec), ex_type = ELF_EXTENT_EHDR, ex_desc = None\<rparr>]
        (set_elf e elf1 st)"
    using hr(1) cached checks init flag oom table_fsizes(1) [OF hr(3)]
    unfolding v
    by (auto simp: libelf_resync_elf_def ec_def [symmetric] st1_def [symmetric] v libelf_insert_extent_def Let_def)
qed

text \<open>The file offsets that the parts of a created object take.\<close>

definition created_regions :: "Elf \<Rightarrow> store \<Rightarrow> nat set" where
  "created_regions elf st =
     (let ec = e_class elf
      in {..<ehdr_fsz ec}
         \<union> table_region (word_align ec) (phdr_fsz ec) (unat (e_nphdr elf)) (ehdr_fsz ec)
         \<union> section_regions (section_pieces ec st (e_scn elf)) (created_sections elf)
         \<union> table_region (word_align ec) (shdr_fsz ec) (unat (e_nscn elf)) (created_shoff elf st))"

text \<open>The header that is left in the descriptor.\<close>

definition created_ehdr :: "Elf \<Rightarrow> Ehdr \<Rightarrow> store \<Rightarrow> Ehdr" where
  "created_ehdr elf eh st =
     (let ec = e_class elf
      in counts_ehdr (e_nphdr elf) (e_nscn elf)
           (of_nat (table_offset (word_align ec) (unat (e_nphdr elf)) (ehdr_fsz ec)))
           (of_nat (table_offset (word_align ec) (unat (e_nscn elf)) (created_shoff elf st)))
           (init_ehdr ec (e_nphdr elf) eh))"

lemma of_nat_of_unat: "unat (w :: u64) = n \<Longrightarrow> w = of_nat n"
  by auto

text \<open>The descriptor, the store and the extents after the layout.\<close>

definition created_elf :: "Elf \<Rightarrow> Ehdr \<Rightarrow> store \<Rightarrow> Elf" where
  "created_elf elf eh st =
     elf\<lparr>e_byteorder := ucast (ehdr_ident eh ! 5), e_flags := e_flags elf OR ELF_F_DIRTY,
        e_ehdr := Some (created_ehdr elf eh st)\<rparr>"

definition created_store :: "elf_ref \<Rightarrow> Elf \<Rightarrow> Ehdr \<Rightarrow> store \<Rightarrow> store \<Rightarrow> bool" where
  "created_store e elf eh st st' \<longleftrightarrow>
     elfs st' = (elfs st)(e \<mapsto> created_elf elf eh st) \<and> mem st' = mem st \<and> base st' = base st \<and> globals st' = globals st
     \<and> fresh st' = fresh st \<and> oom st' = oom st \<and> (\<forall>q. q \<notin> set (filter (takes_space st) (e_scn elf)) \<longrightarrow> scns st' q = scns st q) \<and> same_datas st st'
     \<and> datas_placed (e_class elf) (e_scn elf) st st'"

definition created_extents :: "Elf \<Rightarrow> store \<Rightarrow> store \<Rightarrow> Elf_Extent list" where
  "created_extents elf st st' =
     (let ec = e_class elf
      in \<lparr>ex_start = 0, ex_size = of_nat (ehdr_fsz ec), ex_type = ELF_EXTENT_EHDR, ex_desc = None\<rparr>
         # table_extents (word_align ec) (phdr_fsz ec) ELF_EXTENT_PHDR (unat (e_nphdr elf)) (ehdr_fsz ec)
         @ section_extents st st' (e_scn elf)
         @ table_extents (word_align ec) (shdr_fsz ec) ELF_EXTENT_SHDR (unat (e_nscn elf)) (created_shoff elf st))"

lemma resync_elf_creates:
  assumes c: "creating e elf eh st"
  shows "\<exists>xs elf' st'. libelf_resync_elf e [] st = Some ((Some (of_nat (created_end elf st)), xs), st')
    \<and> extents_ok xs \<and> covered xs = created_regions elf st \<and> covered xs \<subseteq> {..<created_end elf st}
    \<and> header_ready e elf' (created_ehdr elf eh st) st'
    \<and> sections_placed (e_class elf) (created_sections elf) (e_scn elf) st st'
    \<and> elf' = created_elf elf eh st \<and> created_store e elf eh st st' \<and> xs = created_extents elf st st'"
proof -
  define ec where "ec = e_class elf"
  define eh1 where "eh1 = init_ehdr ec (e_nphdr elf) eh"
  define elf1 where "elf1 = elf\<lparr>e_byteorder := ucast (ehdr_ident eh ! 5), e_ehdr := Some eh1,
     e_flags := e_flags elf OR ELF_F_DIRTY\<rparr>"
  define st1 where "st1 = set_elf e elf1 st"
  define x0 where "x0 = \<lparr>ex_start = 0, ex_size = of_nat (ehdr_fsz ec), ex_type = ELF_EXTENT_EHDR, ex_desc = None\<rparr>"
  note start = resync_elf_start [OF c, folded ec_def, folded eh1_def, folded elf1_def, folded st1_def x0_def]
  have h: "elfs st1 e = Some elf1" "e_kind elf1 = ELF_K_ELF" "std_class ec" "e_version elf1 = EV_CURRENT"
    "e_ehdr elf1 = Some eh1" "ehdr_class eh1 = ec" "e_class elf1 = ec"
    using start(2) by (simp_all add: header_ready_def elf1_def ec_def)
  have r: "e_cmd elf1 = ELF_C_WRITE" "e_flags elf1 AND ELF_F_LAYOUT = 0" "e_nphdr elf < PN_XNUM"
    "e_nphdr elf \<noteq> 0 \<longrightarrow> e_phdr elf1 \<noteq> None" "e_nscn elf < SHN_LORESERVE" "distinct (e_scn elf)"
    "oom st1 = []" "created_end elf st < 2 ^ 62" "e_scn elf1 = e_scn elf"
    using c flags_dirty_layout by (simp_all add: creating_def elf1_def st1_def)
  note order = created_order [OF c, folded ec_def]
  have lay: "sections_layable elf1 ec st1 (e_scn elf)"
    using c sections_store_cong(1) [of st1 st elf1 elf] by (simp add: creating_def st1_def elf1_def ec_def)
  have pcs: "section_pieces ec st1 (e_scn elf) = section_pieces ec st (e_scn elf)"
    "sections_placed ec x (e_scn elf) st1 = sections_placed ec x (e_scn elf) st" for x
    using sections_store_cong(2,3) [of st1 st elf1 elf1] by (simp_all add: st1_def)
  have e64: "ehdr_fsz ec \<le> 64" "0 < ehdr_fsz ec" by (simp_all add: ehdr_fsz_def)
  have u0: "unat (of_nat (ehdr_fsz ec) :: u64) = ehdr_fsz ec" using e64 by (simp add: unat_of_nat_u64)
  have x0: "extents_ok [x0]" "covered [x0] = {..<ehdr_fsz ec}" "covered [x0] \<subseteq> {..<unat (of_nat (ehdr_fsz ec) :: u64)}"
    using e64 u0 by (auto simp: x0_def ex_ok_def ex_end_def ex_span_def)
  have b1: "table_end (word_align ec) (phdr_fsz ec) (unat (e_nphdr elf)) (unat (of_nat (ehdr_fsz ec) :: u64)) < 2 ^ 62"
    unfolding u0 using order r(8) unfolding created_sections_def ec_def by linarith
  obtain rc1 phoff ys where P: "resync_phdrs e ec EV_CURRENT (e_nphdr elf) (ehdr_phoff eh) (of_nat (ehdr_fsz ec)) [x0] st1
      = Some ((Some (rc1, phoff), ys), st1)" "unat rc1 = created_sections elf"
    "unat phoff = table_offset (word_align ec) (unat (e_nphdr elf)) (ehdr_fsz ec)" "extents_ok ys"
    "covered ys = {..<ehdr_fsz ec} \<union> table_region (word_align ec) (phdr_fsz ec) (unat (e_nphdr elf)) (ehdr_fsz ec)"
    "covered ys \<subseteq> {..<unat rc1}"
    "ys = [x0] @ table_extents (word_align ec) (phdr_fsz ec) ELF_EXTENT_PHDR (unat (e_nphdr elf)) (ehdr_fsz ec)"
    using resync_phdrs_places [OF h(1,7,3) r(2) h(2) r(4) x0(1,3) r(7) b1, unfolded u0 x0(2), of "ehdr_phoff eh"]
    unfolding created_sections_def ec_def by blast
  have b2: "section_end (section_pieces ec st1 (e_scn elf)) (unat rc1) < 2 ^ 63"
    unfolding pcs P(2) using order r(8) unfolding created_shoff_def ec_def by simp
  obtain rc2 zs st2 where S: "resync_sections e ec (e_scn elf) rc1 ys st1 = Some ((Some rc2, zs), st2)" "extents_ok zs"
    "unat rc2 = created_shoff elf st"
    "covered zs = covered ys \<union> section_regions (section_pieces ec st (e_scn elf)) (created_sections elf)"
    "covered zs \<subseteq> {..<unat rc2}" "laid_frame (set (filter (takes_space st1) (e_scn elf))) st1 st2"
    "sections_placed ec (created_sections elf) (e_scn elf) st st2"
    "zs = ys @ section_extents st1 st2 (e_scn elf)" "datas_placed ec (e_scn elf) st1 st2"
    using resync_sections_places [OF h(1,7,3) r(2) h(4) lay r(6) P(4,6) r(7) b2]
    unfolding P(2) pcs unfolding created_shoff_def ec_def by blast
  have st2: "elfs st2 e = Some elf1" "oom st2 = []" using S(6) h(1) r(7) by (simp_all add: laid_frame_def)
  have b3: "table_end (word_align ec) (shdr_fsz ec) (unat (e_nscn elf)) (unat rc2) < 2 ^ 62"
    using r(8) unfolding S(3) created_end_def ec_def .
  obtain rc3 shoff ws where H: "resync_shdrs e ec EV_CURRENT (e_nscn elf) (ehdr_shoff eh) rc2 zs st2
      = Some ((Some (rc3, shoff), ws), st2)" "unat rc3 = created_end elf st"
    "unat shoff = table_offset (word_align ec) (unat (e_nscn elf)) (created_shoff elf st)" "extents_ok ws"
    "covered ws = covered zs \<union> table_region (word_align ec) (shdr_fsz ec) (unat (e_nscn elf)) (created_shoff elf st)"
    "covered ws \<subseteq> {..<unat rc3}"
    "ws = zs @ table_extents (word_align ec) (shdr_fsz ec) ELF_EXTENT_SHDR (unat (e_nscn elf)) (created_shoff elf st)"
    using resync_shdrs_places [OF st2(1) h(7,3) r(2) S(2,5) st2(2) b3, unfolded S(3), of "ehdr_shoff eh"]
    unfolding created_end_def ec_def by blast
  let ?eh = "created_ehdr elf eh st"
  let ?st = "set_elf e (elf1\<lparr>e_ehdr := Some ?eh\<rparr>) st2"
  have ceh: "counts_ehdr (e_nphdr elf) (e_nscn elf) phoff shoff eh1 = ?eh"
    unfolding created_ehdr_def Let_def ec_def [symmetric] eh1_def
    by (simp only: of_nat_of_unat [OF P(3)] of_nat_of_unat [OF H(3)])
  have C: "resync_counts e ec (e_nphdr elf) (e_nscn elf) phoff shoff st2 = Some ?st"
    using resync_counts_eq [OF st2(1) h(5,6) r(2,3,5)] ceh by simp
  have rc2: "\<not> sint rc2 < 0"
  proof -
    have "unat rc2 < 2 ^ 63" using order r(8) S(3) by simp
    then have "sint rc2 = int (unat rc2)" by (rule sint_small)
    then show ?thesis by simp
  qed
  have "resync_body e ec EV_CURRENT (e_nphdr elf) (e_nscn elf) (ehdr_phoff eh) (ehdr_shoff eh)
      (of_nat (ehdr_fsz ec)) [x0] st1 = Some ((Some rc3, ws), ?st)"
    using P(1) S(1) H(1) C rc2 h(1,5,7) r(1,9) load_if_needed_done [OF h(1)]
    by (simp add: resync_body_def libelf_resync_sections_def)
  then have "libelf_resync_elf e [] st = Some ((Some (of_nat (created_end elf st)), ws), ?st)"
    unfolding start(1) using of_nat_of_unat [OF H(2)] by simp
  moreover have "covered ws = created_regions elf st"
    unfolding H(5) S(4) P(5) created_regions_def Let_def ec_def [symmetric] ..
  moreover have "covered ws \<subseteq> {..<created_end elf st}" using H(6) unfolding H(2) .
  moreover have "header_ready e (elf1\<lparr>e_ehdr := Some ?eh\<rparr>) ?eh ?st"
    using h by (simp add: header_ready_def counts_ehdr_fields flip: ceh)
  moreover have "sections_placed ec (created_sections elf) (e_scn elf) st ?st"
    using S(7) by (simp add: sections_placed_def scn_at_def)
  moreover have "elf1\<lparr>e_ehdr := Some ?eh\<rparr> = created_elf elf eh st" by (simp add: elf1_def created_elf_def)
  moreover have "created_store e elf eh st ?st"
  proof -
    have "pieces ec rs st1 = pieces ec rs st" for rs by (simp add: pieces_def data_at_def st1_def)
    then have "datas_placed ec (e_scn elf) st ?st"
      using S(9) by (simp add: datas_placed_def section_datas_def scn_at_def takes_space_def data_at_def st1_def)
    moreover have "same_datas st ?st" using S(6) by (simp add: laid_frame_def same_datas_def st1_def)
    ultimately show ?thesis
      using S(6) by (simp add: created_store_def laid_frame_def st1_def elf1_def created_elf_def ec_def takes_space_def scn_at_def)
  qed
  moreover have "ws = created_extents elf st ?st"
    by (simp add: H(7) S(8) P(7) created_extents_def Let_def x0_def section_extents_def section_extent_def takes_space_def
        scn_at_def st1_def flip: ec_def)
  ultimately show ?thesis using H(4) by (fold ec_def) blast
qed

end
