(* ===== verification/Elf_Update.thy ===== *)
theory Elf_Update
  imports Elf_Layout Libelf_OS
begin

text \<open>
  The writing half of \<open>elf_update.c\<close>: the image of the new file is built in a block of its
  own, extent by extent, and written out.  Offsets are values of type \<open>off_t\<close>; \<open>-1\<close> signals
  an error.
\<close>

section \<open>Pieces of the image\<close>

text \<open>\<open>memset(nf + from, fillchar, to - from)\<close>, done when the gap is not empty.\<close>

definition fill_gap :: "ptr \<Rightarrow> u64 \<Rightarrow> u64 \<Rightarrow> store \<Rightarrow> store option" where
  "fill_gap nf from till st =
     (if from < till
      then write_bytes (ptr_add nf from)
             (replicate (unat (till - from)) (of_int (libelf_fillchar (globals st)))) st
      else Some st)"

text \<open>
  \<open>_libelf_xlate\<close> to the file of objects that the descriptors hold as values: their
  representation lives in a block of its own during the call.
\<close>

definition objects_image :: "int \<Rightarrow> layout \<Rightarrow> struct_val list \<Rightarrow> byte list" where
  "objects_image ec def vss =
     concat (map (\<lambda>vs. put_members (member_offsets ec 0 def) vs (replicate (struct_size ec def) 0)) vss)"

definition xlate_objects ::
  "int \<Rightarrow> int \<Rightarrow> u32 \<Rightarrow> u32 \<Rightarrow> struct_val list \<Rightarrow> u64 \<Rightarrow> ptr \<Rightarrow> u64 \<Rightarrow> store \<Rightarrow> (bool \<times> store) option"
where
  "xlate_objects t ec version encoding vss ssz p dsz st =
     do { def \<leftarrow> comp_layout t ec;
          let b = fresh st;
          let src = zero_data\<lparr>d_buf := Some (b, 0), d_size := ssz, d_type := t, d_version := version\<rparr>;
          let dst = zero_data\<lparr>d_buf := p, d_size := dsz, d_version := version\<rparr>;
          ((ok, _), st) \<leftarrow> libelf_xlate_buf dst src encoding ec ELF_TOFILE
             (st\<lparr>mem := (mem st)(b \<mapsto> objects_image ec def vss)\<rparr>);
          Some (ok, st\<lparr>mem := (mem st)(b := None)\<rparr>) }"

text \<open>The representation of the headers.\<close>

primrec ehdr_vals :: "u32 \<Rightarrow> Ehdr \<Rightarrow> struct_val" where
  "ehdr_vals order (Ehdr32 h) = ehdr_members order h"
| "ehdr_vals order (Ehdr64 h) = ehdr_members order h"

primrec phdrs_vals :: "u32 \<Rightarrow> Phdrs \<Rightarrow> struct_val list" where
  "phdrs_vals order (Phdrs32 ps) = map (phdr32_members order) ps"
| "phdrs_vals order (Phdrs64 ps) = map (phdr64_members order) ps"

primrec shdr_vals :: "u32 \<Rightarrow> Shdr \<Rightarrow> struct_val" where
  "shdr_vals order (Shdr32 h) = shdr_members order h"
| "shdr_vals order (Shdr64 h) = shdr_members order h"

section \<open>Sections\<close>

text \<open>The unmodified contents of a section, copied from the old file.\<close>

fun write_rawdata :: "Elf \<Rightarrow> Elf_Scn \<Rightarrow> ptr \<Rightarrow> data_ref list \<Rightarrow> u64 \<Rightarrow> store \<Rightarrow> (u64 \<times> store) option" where
  "write_rawdata elf scn nf [] rc st = Some (rc, st)"
| "write_rawdata elf scn nf (r # rs) rc st =
     do { ld \<leftarrow> datas st r;
          let d = d_data ld;
          st \<leftarrow> fill_gap nf rc (s_offset scn + d_off d) st;
          let rc = s_offset scn + d_off d;
          assert_that (d_buf d \<noteq> None \<and> d_type d = ELF_T_BYTE \<and> d_version d = e_version elf);
          bs \<leftarrow> read_bytes (ptr_add (ptr_add (e_rawfile elf) (s_rawoff scn)) (d_off d)) (unat (d_size d)) st;
          st \<leftarrow> write_bytes (ptr_add nf rc) bs st;
          rc \<leftarrow> off_add rc (d_size d);
          write_rawdata elf scn nf rs rc st }"

text \<open>The data descriptors of a section, translated.\<close>

fun write_data :: "Elf \<Rightarrow> u64 \<Rightarrow> ptr \<Rightarrow> data_ref list \<Rightarrow> u64 \<Rightarrow> store \<Rightarrow> (u64 \<times> store) option" where
  "write_data elf sh_off nf [] rc st = Some (rc, st)"
| "write_data elf sh_off nf (r # rs) rc st =
     do { ld \<leftarrow> datas st r;
          let d = d_data ld;
          (msz, st) \<leftarrow> libelf_msize (d_type d) (e_class elf) (e_version elf) st;
          st \<leftarrow> fill_gap nf rc (sh_off + d_off d) st;
          let rc = sh_off + d_off d;
          assert_that (d_buf d \<noteq> None \<and> d_version d = e_version elf \<and> msz \<noteq> 0 \<and> d_size d mod msz = 0);
          let (fsz, st) = libelf_fsize (d_type d) (e_class elf) (e_version elf) (d_size d div msz) st;
          ((ok, _), st) \<leftarrow> libelf_xlate_buf
             (zero_data\<lparr>d_buf := ptr_add nf rc, d_size := fsz, d_version := e_version elf\<rparr>)
             d (e_byteorder elf) (e_class elf) ELF_TOFILE st;
          if \<not> ok then Some (-1, st)
          else do { rc \<leftarrow> off_add rc fsz; write_data elf sh_off nf rs rc st } }"

definition libelf_write_scn :: "elf_ref \<Rightarrow> ptr \<Rightarrow> Elf_Extent \<Rightarrow> store \<Rightarrow> (u64 \<times> store) option" where
  "libelf_write_scn e nf ex st =
     do { assert_that (ex_type ex = ELF_EXTENT_SECTION);
          s \<leftarrow> ex_desc ex;
          elf \<leftarrow> elfs st e;
          scn \<leftarrow> scns st s;
          let rc = ex_start ex;
          sh \<leftarrow> scn_shdr (e_class elf) scn;
          if shdr_type sh = SHT_NOBITS \<or> shdr_type sh = SHT_NULL \<or> shdr_size sh = 0 then Some (rc, st)
          else
            do { let t = libelf_xlate_shtype (shdr_type sh);
                 assert_that (ELF_T_FIRST \<le> t \<and> t \<le> ELF_T_LAST);
                 let falign = (ucast (libelf_falign t (e_class elf)) :: u64);
                 assert_that (falign \<noteq> 0 \<and> s_offset scn mod falign = 0);
                 if s_data scn = [] then
                   do { (d, st) \<leftarrow> elf_rawdata (Some s) None st;
                        if d = None then Some (-1, st)
                        else
                          do { scn \<leftarrow> scns st s; write_rawdata elf scn nf (s_rawdata scn) rc st } }
                 else write_data elf (s_offset scn) nf (s_data scn) rc st } }"

section \<open>Headers\<close>

definition libelf_write_ehdr :: "elf_ref \<Rightarrow> ptr \<Rightarrow> Elf_Extent \<Rightarrow> store \<Rightarrow> (u64 \<times> store) option" where
  "libelf_write_ehdr e nf ex st =
     do { assert_that (ex_type ex = ELF_EXTENT_EHDR \<and> ex_start ex = 0);
          elf \<leftarrow> elfs st e;
          let ec = e_class elf;
          (eh, st) \<leftarrow> libelf_ehdr (Some e) ec False st;
          eh \<leftarrow> eh;
          let (fsz, st) = libelf_fsize ELF_T_EHDR ec (e_version elf) 1 st;
          (msz, st) \<leftarrow> libelf_msize ELF_T_EHDR ec (e_version elf) st;
          (ok, st) \<leftarrow> xlate_objects ELF_T_EHDR ec (e_version elf) (e_byteorder elf)
             [ehdr_vals (host_order st) eh] msz nf fsz st;
          Some (if ok then fsz else -1, st) }"

definition libelf_write_phdr :: "elf_ref \<Rightarrow> ptr \<Rightarrow> Elf_Extent \<Rightarrow> store \<Rightarrow> (u64 \<times> store) option" where
  "libelf_write_phdr e nf ex st =
     do { assert_that (ex_type ex = ELF_EXTENT_PHDR);
          elf \<leftarrow> elfs st e;
          let ec = e_class elf;
          (eh, st) \<leftarrow> libelf_ehdr (Some e) ec False st;
          let phnum = e_nphdr elf;
          assert_that (phnum > 0);
          eh \<leftarrow> eh;
          let phoff = ehdr_phoff eh;
          let falign = (ucast (libelf_falign ELF_T_PHDR ec) :: u64);
          assert_that (phoff > 0 \<and> ex_start ex = phoff \<and> falign \<noteq> 0 \<and> phoff mod falign = 0);
          let (fsz, st) = libelf_fsize ELF_T_PHDR ec (e_version elf) phnum st;
          assert_that (fsz > 0);
          (ph, st) \<leftarrow> libelf_getphdr (Some e) ec st;
          (msz, st) \<leftarrow> libelf_msize ELF_T_PHDR ec (e_version elf) st;
          (ok, st) \<leftarrow> (case ph of None \<Rightarrow>
                 do { ((ok, _), st) \<leftarrow> libelf_xlate_buf
                        (zero_data\<lparr>d_buf := ptr_add nf (ex_start ex), d_size := fsz, d_version := e_version elf\<rparr>)
                        (zero_data\<lparr>d_size := phnum * msz, d_type := ELF_T_PHDR, d_version := e_version elf\<rparr>)
                        (e_byteorder elf) ec ELF_TOFILE st;
                      Some (ok, st) }
             | Some ph \<Rightarrow> xlate_objects ELF_T_PHDR ec (e_version elf) (e_byteorder elf)
                 (phdrs_vals (host_order st) ph) (phnum * msz) (ptr_add nf (ex_start ex)) fsz st);
          Some (if ok then phoff + fsz else -1, st) }"

text \<open>One header for each section of the list, at the place its index gives.\<close>

fun write_shdrs ::
  "Elf \<Rightarrow> u64 \<Rightarrow> u64 \<Rightarrow> ptr \<Rightarrow> u64 \<Rightarrow> scn_ref list \<Rightarrow> store \<Rightarrow> (bool \<times> store) option"
where
  "write_shdrs elf msz fsz nf start [] st = Some (True, st)"
| "write_shdrs elf msz fsz nf start (s # ss) st =
     do { scn \<leftarrow> scns st s;
          sh \<leftarrow> scn_shdr (e_class elf) scn;
          (ok, st) \<leftarrow> xlate_objects ELF_T_SHDR (e_class elf) (e_version elf) (e_byteorder elf)
             [shdr_vals (host_order st) sh] msz (ptr_add nf (start + s_ndx scn * fsz)) fsz st;
          if \<not> ok then Some (False, st) else write_shdrs elf msz fsz nf start ss st }"

definition libelf_write_shdr :: "elf_ref \<Rightarrow> ptr \<Rightarrow> Elf_Extent \<Rightarrow> store \<Rightarrow> (u64 \<times> store) option" where
  "libelf_write_shdr e nf ex st =
     do { assert_that (ex_type ex = ELF_EXTENT_SHDR);
          elf \<leftarrow> elfs st e;
          let ec = e_class elf;
          (eh, st) \<leftarrow> libelf_ehdr (Some e) ec False st;
          let nscn = e_nscn elf;
          eh \<leftarrow> eh;
          let shoff = ehdr_shoff eh;
          let falign = (ucast (libelf_falign ELF_T_SHDR ec) :: u64);
          assert_that (nscn > 0 \<and> falign \<noteq> 0 \<and> shoff mod falign = 0 \<and> ex_start ex = shoff);
          (msz, st) \<leftarrow> libelf_msize ELF_T_SHDR ec (e_version elf) st;
          let (fsz, st) = libelf_fsize ELF_T_SHDR ec (e_version elf) 1 st;
          (ok, st) \<leftarrow> write_shdrs elf msz fsz nf (ex_start ex) (e_scn elf) st;
          Some (if ok then ex_start ex + nscn * fsz else -1, st) }"

section \<open>The file\<close>

text \<open>
  The loop over the extents.  The result is the offset reached, or nothing when a piece
  could not be written.
\<close>

definition write_extent :: "elf_ref \<Rightarrow> ptr \<Rightarrow> Elf_Extent \<Rightarrow> store \<Rightarrow> (u64 \<times> store) option" where
  "write_extent e nf ex st =
     (case ex_type ex of
        ELF_EXTENT_EHDR \<Rightarrow> libelf_write_ehdr e nf ex st
      | ELF_EXTENT_PHDR \<Rightarrow> libelf_write_phdr e nf ex st
      | ELF_EXTENT_SECTION \<Rightarrow> libelf_write_scn e nf ex st
      | ELF_EXTENT_SHDR \<Rightarrow> libelf_write_shdr e nf ex st)"

fun write_extents :: "elf_ref \<Rightarrow> ptr \<Rightarrow> Elf_Extent list \<Rightarrow> u64 \<Rightarrow> store \<Rightarrow> (u64 option \<times> store) option" where
  "write_extents e nf [] rc st = Some (Some rc, st)"
| "write_extents e nf (ex # exs) rc st =
     do { st \<leftarrow> fill_gap nf rc (ex_start ex) st;
          (nrc, st) \<leftarrow> write_extent e nf ex st;
          if sint nrc < 0 then Some (None, st)
          else
            do { assert_that (ex_start ex + ex_size ex = nrc \<and> sint rc < sint nrc);
                 write_extents e nf exs nrc st } }"

text \<open>The old contents of a regular file go; what is mapped of them is unmapped.\<close>

definition discard_old :: "os \<Rightarrow> elf_ref \<Rightarrow> trace \<Rightarrow> store \<Rightarrow> ((bool \<times> trace) \<times> store) option" where
  "discard_old os e tr st =
     do { elf \<leftarrow> elfs st e;
          if e_flags elf AND LIBELF_F_SPECIAL_FILE \<noteq> 0 then Some ((True, tr), st)
          else
            let (r, tr) = call os (Ftruncate (e_fd elf) 0) tr
            in if r_value r < 0 then Some ((False, tr), set_error_os ELF_E_IO (r_errno r) st)
            else
              let (r, tr) = call os (Lseek (e_fd elf) 0) tr
              in if r_value r \<noteq> 0 then Some ((False, tr), set_error_os ELF_E_IO (r_errno r) st)
              else if e_flags elf AND LIBELF_F_RAWFILE_MMAP \<noteq> 0 then
                do { assert_that (e_rawfile elf \<noteq> None \<and> e_cmd elf = ELF_C_RDWR);
                     let (r, tr) = call os (Munmap (e_rawfile elf) (e_rawsize elf)) tr;
                     if r_value r < 0 then Some ((False, tr), set_error_os ELF_E_IO (r_errno r) st)
                     else do { st \<leftarrow> unmap_block (e_rawfile elf) st; Some ((True, tr), st) } }
              else Some ((True, tr), st) }"

text \<open>
  The new contents become the raw contents of a descriptor opened for update.  The result
  includes the block still to be freed.
\<close>

definition adopt_new ::
  "os \<Rightarrow> elf_ref \<Rightarrow> ptr \<Rightarrow> u64 \<Rightarrow> trace \<Rightarrow> store \<Rightarrow> (((bool \<times> ptr) \<times> trace) \<times> store) option"
where
  "adopt_new os e newfile newsize tr st =
     do { elf \<leftarrow> elfs st e;
          if e_cmd elf = ELF_C_RDWR then
            do { assert_that (e_rawfile elf \<noteq> None
                   \<and> (e_flags elf AND LIBELF_F_RAWFILE_MALLOC \<noteq> 0 \<or> e_flags elf AND LIBELF_F_RAWFILE_MMAP \<noteq> 0));
                 if e_flags elf AND LIBELF_F_RAWFILE_MALLOC \<noteq> 0 then
                   do { st \<leftarrow> free_ptr (e_rawfile elf) st;
                        Some (((True, None), tr),
                          set_elf e (elf\<lparr>e_rawfile := newfile, e_rawsize := newsize\<rparr>) st) }
                 else
                   let (r, tr) = call os (Mmap (e_fd elf) newsize) tr;
                       (p, st) = map_block r st
                   in if r_value r < 0
                      then Some (((False, newfile), tr),
                             set_error_os ELF_E_IO (r_errno r) (set_elf e (elf\<lparr>e_rawfile := p\<rparr>) st))
                      else Some (((True, newfile), tr),
                             set_elf e (elf\<lparr>e_rawfile := p, e_rawsize := newsize\<rparr>) st) }
          else
            do { assert_that (e_rawfile elf = None); Some (((True, newfile), tr), st) } }"

text \<open>Flags, sections and headers are reset, so that the new contents are read afresh.\<close>

definition reset_elf :: "elf_ref \<Rightarrow> store \<Rightarrow> store option" where
  "reset_elf e st =
     do { elf \<leftarrow> elfs st e;
          let st = set_elf e (elf\<lparr>e_flags := e_flags elf AND NOT ELF_F_DIRTY\<rparr>) st;
          st \<leftarrow> release_all_scns (e_scn elf) st;
          elf \<leftarrow> elfs st e;
          Some (set_elf e (elf\<lparr>e_ehdr := None, e_phdr := None\<rparr>) st) }"

definition libelf_write_elf ::
  "os \<Rightarrow> elf_ref \<Rightarrow> u64 \<Rightarrow> Elf_Extent list \<Rightarrow> trace \<Rightarrow> store \<Rightarrow> ((u64 \<times> trace) \<times> store) option"
where
  "libelf_write_elf os e newsize extents tr st =
     do { elf \<leftarrow> elfs st e;
          assert_that (e_kind elf = ELF_K_ELF \<and> (e_cmd elf = ELF_C_RDWR \<or> e_cmd elf = ELF_C_WRITE)
            \<and> e_fd elf \<ge> 0);
          let (newfile, st) = malloc (unat newsize) st;
          if newfile = None then Some ((-1, tr), set_error_os ELF_E_RESOURCE ENOMEM st)
          else
            do { let fail = (\<lambda>p tr st. do { st \<leftarrow> free_ptr p st; Some ((-1, tr), st) });
                 (rc, st) \<leftarrow> write_extents e newfile extents 0 st;
                 case rc of None \<Rightarrow> fail newfile tr st
                 | Some rc \<Rightarrow>
                     do { assert_that (rc = newsize);
                          ((ok, tr), st) \<leftarrow> discard_old os e tr st;
                          if \<not> ok then fail newfile tr st
                          else
                            do { image \<leftarrow> read_bytes newfile (unat newsize) st;
                                 let (r, tr) = call os (Write (e_fd elf) image) tr;
                                 if r_value r \<noteq> sint newsize
                                 then fail newfile tr (set_error_os ELF_E_IO (r_errno r) st)
                                 else
                                   do { (((ok, p), tr), st) \<leftarrow> adopt_new os e newfile newsize tr st;
                                        if \<not> ok then fail p tr st
                                        else
                                          do { st \<leftarrow> reset_elf e st;
                                               st \<leftarrow> free_ptr p st;
                                               Some ((rc, tr), st) } } } } } }"

definition elf_update :: "os \<Rightarrow> elf_ref option \<Rightarrow> Elf_Cmd \<Rightarrow> store \<Rightarrow> ((u64 \<times> trace) \<times> store) option" where
  "elf_update os er c st =
     (let fail = (\<lambda>E st. Some ((-1, []), set_error E st))
      in case er of None \<Rightarrow> fail ELF_E_ARGUMENT st
      | Some e \<Rightarrow>
          do { elf \<leftarrow> elfs st e;
               if e_kind elf \<noteq> ELF_K_ELF \<or> (c \<noteq> ELF_C_NULL \<and> c \<noteq> ELF_C_WRITE) then fail ELF_E_ARGUMENT st
               else if e_class elf \<noteq> ELFCLASS32 \<and> e_class elf \<noteq> ELFCLASS64 then fail ELF_E_CLASS st
               else
                 let elf = (if e_version elf = EV_NONE then elf\<lparr>e_version := EV_CURRENT\<rparr> else elf);
                     st = set_elf e elf st
                 in if c = ELF_C_WRITE \<and> e_cmd elf = ELF_C_READ then fail ELF_E_MODE st
                 else
                   do { ((rc, extents), st) \<leftarrow> libelf_resync_elf e [] st;
                        case rc of None \<Rightarrow> Some ((-1, []), st)
                        | Some rc \<Rightarrow>
                            if sint rc < 0 \<or> c = ELF_C_NULL then Some ((rc, []), st)
                            else
                              do { elf \<leftarrow> elfs st e;
                                   if e_fd elf < 0 then fail ELF_E_SEQUENCE st
                                   else libelf_write_elf os e rc extents [] st } } })"


section \<open>The layout that an update reports\<close>

lemma elf_update_null_creating:
  assumes "creating e elf eh st"
  shows "elf_update os (Some e) ELF_C_NULL st
    = do { ((rc, xs), st') \<leftarrow> libelf_resync_elf e [] st;
           Some ((case rc of None \<Rightarrow> -1 | Some rc \<Rightarrow> rc, []), st') }"
proof -
  have "elfs st e = Some elf" "e_kind elf = ELF_K_ELF" "e_class elf = ELFCLASS32 \<or> e_class elf = ELFCLASS64"
    "e_version elf \<noteq> EV_NONE"
    using assms by (auto simp: creating_def header_ready_def std_class_def)
  then show ?thesis
    by (auto simp: elf_update_def Let_def set_elf_same split: Option.bind_split option.split)
qed

text \<open>What a nonempty section takes lies below the end of them all.\<close>

lemma section_offset_end:
  assumes "list_all (\<lambda>p. 0 < fst p) ps" "i < length ps" "snd (ps ! i) \<noteq> 0"
  shows "section_offsets ps x ! i + snd (ps ! i) \<le> section_end ps x"
  using assms
proof (induction ps x arbitrary: i rule: section_offsets.induct)
  case (2 a n ps x)
  then show ?case using section_end_ge [of ps "align_to a x + n"] by (cases i) auto
qed simp

lemma section_offset_less:
  assumes "list_all (\<lambda>p. 0 < fst p) ps" "i < length ps"
  shows "section_offsets ps x ! i < section_end ps x + fst (ps ! i)"
  using assms
proof (induction ps x arbitrary: i rule: section_offsets.induct)
  case (2 a n ps x)
  then have "x \<le> section_end ((a, n) # ps) x" "align_to a x < x + a"
    using section_end_ge [of "(a, n) # ps" x] align_to_bounds [of a x] by simp_all
  then show ?case using 2 by (cases i) auto
qed simp

lemma section_pieces_pos:
  "sections_layable elf ec st ss \<Longrightarrow> list_all (\<lambda>p. 0 < fst p) (section_pieces ec st ss)"
  by (auto simp: section_pieces_def list_all_iff sections_layable_def file_section_def unat_gt_0)

text \<open>An object with two sections that is being created, section 1 holding two pieces.\<close>

definition demo_new_ehdr :: "64 Elf_Ehdr" where
  "demo_new_ehdr =
     \<lparr>eh_ident = [0x7F, 0x45, 0x4C, 0x46, 2, 1, 1, 0, 0, 0, 0, 0, 0, 0, 0, 0], eh_type = 1, eh_machine = 62,
      eh_version = 1, eh_entry = 0, eh_phoff = 0, eh_shoff = 0, eh_flags = 0, eh_ehsize = 0, eh_phentsize = 0,
      eh_phnum = 0, eh_shentsize = 0, eh_shnum = 0, eh_shstrndx = 0\<rparr>"

definition demo_new_elf :: Elf where
  "demo_new_elf = (demo_elf [])\<lparr>e_cmd := ELF_C_WRITE, e_fd := 3, e_rawfile := None, e_scn := [1, 2], e_nscn := 2,
     e_ehdr := Some (Ehdr64 demo_new_ehdr)\<rparr>"

definition demo_created :: store where
  "demo_created = demo_pieces\<lparr>elfs := [0 \<mapsto> demo_new_elf]\<rparr>"

lemmas demo_created_simps = demo_created_def demo_new_elf_def demo_new_ehdr_def demo_pieces_def demo_strings_simps
  ehdr_class_def zero_shdr_def shdr_class_def

lemma demo_created_ready: "header_ready 0 demo_new_elf (Ehdr64 demo_new_ehdr) demo_created"
  by (simp add: header_ready_def demo_created_simps std_class_def)

lemma demo_created_at:
  "scn_at demo_created (Suc 0) = new_scn 0 ELFCLASS64 0 (zero_shdr ELFCLASS64)"
  "scn_at demo_created 2 = (new_scn 0 ELFCLASS64 1 (Shdr64 demo_strtab))\<lparr>s_data := [3, 4]\<rparr>"
  "data_at demo_created 3 = \<lparr>d_align = 1, d_buf = Some (0, 2), d_off = 0, d_size = 2, d_type = ELF_T_BYTE, d_version = 1\<rparr>"
  "data_at demo_created 4 = \<lparr>d_align = 1, d_buf = Some (1, 0), d_off = 0, d_size = 3, d_type = ELF_T_BYTE, d_version = 1\<rparr>"
  "scns demo_created (Suc 0) \<noteq> None" "scns demo_created 2 \<noteq> None"
  "datas demo_created 3 \<noteq> None" "datas demo_created 4 \<noteq> None"
  by (simp_all add: scn_at_def data_at_def demo_created_def demo_pieces_def demo_strings_def)

lemma demo_created_pieces: "section_pieces ELFCLASS64 demo_created [1, 2] = [(1, 5)]"
  by (simp add: section_pieces_def takes_space_def demo_created_at section_align_def section_size_def untouched_def
      max_align_def pieces_def piece_def align_to_def byte_sizes new_scn_def zero_shdr_def zero_Elf_Shdr_def
      demo_strtab_def)

lemma demo_created_end: "created_end demo_new_elf demo_created = 200"
  using demo_created_pieces
  by (simp add: created_end_def created_shoff_def created_sections_def table_end_def demo_new_elf_def demo_elf_def
      new_elf_def word_align_def ehdr_fsz_def shdr_fsz_def align_to_def)

lemma demo_creating: "creating 0 demo_new_elf (Ehdr64 demo_new_ehdr) demo_created"
proof -
  have "file_section ELFCLASS64 (scn_at demo_created 2) demo_created"
    using demo_created_at(7,8)
    by (simp add: file_section_def demo_created_at(2-4) section_size_def section_align_def untouched_def max_align_def
        libelf_xlate_shtype_def pieces_def piece_def align_to_def byte_sizes datas_ready_def data_ready_def bad_align_def new_scn_def
        demo_strtab_def zero_Elf_Shdr_def shdr_class_def)
  then have lay: "sections_layable demo_new_elf ELFCLASS64 demo_created [1, 2]"
    using demo_created_at(5,6)
    by (simp add: sections_layable_def demo_created_at(1,2) takes_space_def new_scn_def demo_strtab_def zero_Elf_Shdr_def
        zero_shdr_def shdr_class_def)
  have "e_scn demo_new_elf = [1, 2]" "e_class demo_new_elf = ELFCLASS64" "oom demo_created = []"
    "ehdr_checks demo_new_elf (Ehdr64 demo_new_ehdr) EV_CURRENT = None"
    by (simp_all add: ehdr_checks_def demo_new_elf_def demo_elf_def new_elf_def demo_new_ehdr_def demo_created_def
        demo_pieces_def demo_strings_def demo_elf_store_def initial_store_def)
  moreover have "e_cmd demo_new_elf = ELF_C_WRITE" "e_flags demo_new_elf = 0" "e_nphdr demo_new_elf = 0"
    "e_nscn demo_new_elf = 2" "ehdr_version (Ehdr64 demo_new_ehdr) = 1"
    by (simp_all add: demo_new_elf_def demo_elf_def new_elf_def demo_new_ehdr_def)
  ultimately show ?thesis
    using lay demo_created_ready demo_created_end by (simp add: creating_def)
qed

lemma update_lays_out_aux:
  assumes "creating e elf eh st"
  shows "\<exists>elf' st'. elf_update os (Some e) ELF_C_NULL st = Some ((of_nat (created_end elf st), []), st')
    \<and> header_ready e elf' (created_ehdr elf eh st) st'
    \<and> sections_placed (e_class elf) (created_sections elf) (e_scn elf) st st'"
  using resync_elf_creates [OF assms] by (auto simp: elf_update_null_creating [OF assms])

section \<open>What the reset leaves\<close>

lemma free_ptr_frame:
  "free_ptr p st = Some st' \<Longrightarrow> elfs st' = elfs st \<and> scns st' = scns st \<and> oom st' = oom st \<and> fresh st' = fresh st
     \<and> globals st' = globals st"
  by (auto simp: free_ptr_def split: option.splits prod.splits if_splits)

lemma release_all_data_frame:
  "release_all_data ds st = Some st' \<Longrightarrow> elfs st' = elfs st \<and> scns st' = scns st \<and> oom st' = oom st
     \<and> fresh st' = fresh st \<and> globals st' = globals st"
proof (induction ds arbitrary: st)
  case (Cons d ds)
  from Cons.prems obtain st1 where 1: "libelf_release_data d st = Some st1" "release_all_data ds st1 = Some st'"
    by (auto split: Option.bind_splits)
  have "elfs st1 = elfs st \<and> scns st1 = scns st \<and> oom st1 = oom st \<and> fresh st1 = fresh st \<and> globals st1 = globals st"
    using 1(1) by (auto simp: libelf_release_data_def split: Option.bind_splits if_splits dest: free_ptr_frame)
  then show ?case using Cons.IH [OF 1(2)] by simp
qed simp

lemma release_all_scns_empties:
  assumes "release_all_scns ss st = Some st'" "elfs st e = Some elf" "e_scn elf = ss" "distinct ss"
    and "\<forall>s\<in>set ss. \<exists>scn. scns st s = Some scn \<and> s_elf scn = Some e"
  shows "elfs st' e = Some (elf\<lparr>e_scn := []\<rparr>) \<and> oom st' = oom st \<and> fresh st' = fresh st \<and> globals st' = globals st"
  using assms
proof (induction ss arbitrary: st elf)
  case Nil
  then show ?case by (cases elf) simp
next
  case (Cons s ss)
  obtain scn where scn: "scns st s = Some scn" "s_elf scn = Some e" using Cons.prems(5) by auto
  from Cons.prems(1) scn obtain st1 st2 where 1: "release_all_data (s_data scn) st = Some st1"
    "release_all_data (s_rawdata scn) st1 = Some st2"
    "release_all_scns ss ((set_elf e (elf\<lparr>e_scn := ss\<rparr>) st2)\<lparr>scns := (scns st2)(s := None)\<rparr>) = Some st'"
    using Cons.prems(2,3) release_all_data_frame
    by (auto simp: libelf_release_scn_def split: Option.bind_splits; fastforce)
  note fr = release_all_data_frame [OF 1(1)] release_all_data_frame [OF 1(2)]
  have "\<forall>t\<in>set ss. \<exists>scn. ((scns st2)(s := None)) t = Some scn \<and> s_elf scn = Some e"
    using Cons.prems(4,5) fr by auto
  then show ?case using Cons.IH [OF 1(3), of "elf\<lparr>e_scn := ss\<rparr>"] Cons.prems(4) fr by simp
qed

lemma reset_elf_effect:
  assumes "reset_elf e st = Some st'" "elfs st e = Some elf" "section_list e (e_scn elf) st"
  shows "elfs st' e = Some (elf\<lparr>e_flags := e_flags elf AND NOT ELF_F_DIRTY, e_scn := [], e_ehdr := None, e_phdr := None\<rparr>)
    \<and> oom st' = oom st \<and> fresh st' = fresh st \<and> globals st' = globals st"
proof -
  let ?elf = "elf\<lparr>e_flags := e_flags elf AND NOT ELF_F_DIRTY\<rparr>"
  obtain st1 where st1: "release_all_scns (e_scn elf) (set_elf e ?elf st) = Some st1"
    using assms(1,2) by (auto simp: reset_elf_def Let_def split: Option.bind_splits)
  have "\<forall>s\<in>set (e_scn elf). \<exists>scn. scns (set_elf e ?elf st) s = Some scn \<and> s_elf scn = Some e" "distinct (e_scn elf)"
    using assms(3) by (fastforce simp: section_list_def in_set_conv_nth)+
  then show ?thesis
    using release_all_scns_empties [OF st1, of e ?elf] assms(1,2) st1
    by (auto simp: reset_elf_def Let_def split: Option.bind_splits)
qed

section \<open>Properties\<close>



text \<open>
  C16. The sections of an object being created do not overlap once \<open>elf_update\<close> has laid it
  out: each has an offset that is a multiple of its alignment, lies behind the headers, and
  a section with contents ends before any later one starts and before the section header
  table.
\<close>

theorem update_separates_sections:
  assumes "creating e elf eh st" "elf_update os (Some e) ELF_C_NULL st = Some (r, st')"
    and "ss = filter (takes_space st) (e_scn elf)" "i < length ss"
    and "scn = scn_at st (ss ! i)" "scn' = scn_at st' (ss ! i)"
  shows "unat (section_align (e_class elf) scn st) dvd unat (s_offset scn')
    \<and> created_sections elf \<le> unat (s_offset scn')
    \<and> unat (s_size scn') = section_size (e_class elf) scn st
    \<and> (s_size scn' \<noteq> 0 \<longrightarrow> unat (s_offset scn') + unat (s_size scn') \<le> created_shoff elf st)
    \<and> (i < j \<longrightarrow> j < length ss \<longrightarrow> s_size scn' \<noteq> 0
       \<longrightarrow> unat (s_offset scn') + unat (s_size scn') \<le> unat (s_offset (scn_at st' (ss ! j))))"
proof -
  let ?ec = "e_class elf" and ?x = "created_sections elf"
  let ?ps = "section_pieces ?ec st (e_scn elf)"
  have placed: "sections_placed ?ec ?x (e_scn elf) st st'"
    using update_lays_out_aux [OF assms(1), of os] assms(2) by auto
  have lay: "sections_layable elf ?ec st (e_scn elf)" using assms(1) by (simp add: creating_def)
  note pos = section_pieces_pos [OF lay]
  have ps: "length ?ps = length ss"
    "\<And>k. k < length ss \<Longrightarrow> ?ps ! k = (unat (section_align ?ec (scn_at st (ss ! k)) st), section_size ?ec (scn_at st (ss ! k)) st)"
    by (simp_all add: section_pieces_def assms(3))
  have at: "unat (s_offset (scn_at st' (ss ! k))) = section_offsets ?ps ?x ! k
    \<and> unat (s_size (scn_at st' (ss ! k))) = section_size ?ec (scn_at st (ss ! k)) st" if "k < length ss" for k
  proof -
    have "laid_out ?ec (scn_at st (ss ! k)) (of_nat (section_offsets ?ps ?x ! k))
        (of_nat (section_size ?ec (scn_at st (ss ! k)) st)) (scn_at st' (ss ! k))"
      using placed that by (simp add: sections_placed_def Let_def assms(3))
    then have "s_offset (scn_at st' (ss ! k)) = of_nat (section_offsets ?ps ?x ! k)"
      "s_size (scn_at st' (ss ! k)) = of_nat (section_size ?ec (scn_at st (ss ! k)) st)"
      by (auto simp: laid_out_def)
    moreover have "section_offsets ?ps ?x ! k < 2 ^ 64"
    proof -
      have "takes_space st (ss ! k)" "ss ! k \<in> set (e_scn elf)" using nth_mem [OF that] by (auto simp: assms(3))
      then have "section_align ?ec (scn_at st (ss ! k)) st \<le> 2 ^ 32"
        using lay by (auto simp: sections_layable_def file_section_def)
      then have "unat (section_align ?ec (scn_at st (ss ! k)) st) \<le> 2 ^ 32" by (simp add: word_le_nat_alt)
      moreover have "section_end ?ps ?x < 2 ^ 62"
        using created_order(3) [OF assms(1)] assms(1) by (simp add: created_shoff_def creating_def)
      moreover have "section_offsets ?ps ?x ! k < section_end ?ps ?x + unat (section_align ?ec (scn_at st (ss ! k)) st)"
        using section_offset_less [OF pos, of k ?x] that ps by simp
      ultimately show ?thesis by simp
    qed
    moreover have "section_size ?ec (scn_at st (ss ! k)) st < 2 ^ 64"
      using nth_mem [OF that] lay by (force simp: assms(3) sections_layable_def file_section_def)
    ultimately show ?thesis by (simp add: unat_of_nat_u64)
  qed
  have i: "i < length ?ps" using assms(4) ps(1) by simp
  have "s_size scn' \<noteq> 0 \<longleftrightarrow> section_size ?ec scn st \<noteq> 0"
    using at [OF assms(4)] by (metis assms(5,6) unat_eq_zero)
  then show ?thesis
    using section_offsets_spec [OF pos i, where x = ?x] section_offset_end [OF pos i, of ?x]
      at [OF assms(4)] at [of j] ps(1) ps(2) [OF assms(4)]
    unfolding assms(5,6) created_shoff_def by auto
qed

text \<open>The two pieces of section 1 of the demonstration object are behind the ELF header.\<close>

theorem update_separates_sections_witness:
  "\<exists>st'. elf_update demo_os (Some 0) ELF_C_NULL demo_created = Some ((200, []), st')
    \<and> 64 \<le> unat (s_offset (scn_at st' 2)) \<and> unat (s_offset (scn_at st' 2)) + 5 \<le> 69"
proof -
  have ts: "filter (takes_space demo_created) [1, 2] = [2]"
    by (simp add: takes_space_def demo_created_at(1,2) new_scn_def zero_shdr_def zero_Elf_Shdr_def demo_strtab_def)
  have sz: "section_size ELFCLASS64 (scn_at demo_created 2) demo_created = 5"
    using demo_created_pieces unfolding section_pieces_def ts by simp
  have e: "e_scn demo_new_elf = [1, 2]" "e_class demo_new_elf = ELFCLASS64" "created_sections demo_new_elf = 64"
    "created_shoff demo_new_elf demo_created = 69"
    using demo_created_pieces
    by (simp_all add: created_shoff_def created_sections_def table_end_def demo_new_elf_def demo_elf_def new_elf_def
        word_align_def ehdr_fsz_def align_to_def)
  obtain st' where st': "elf_update demo_os (Some 0) ELF_C_NULL demo_created = Some ((200, []), st')"
    using update_lays_out_aux [OF demo_creating, of demo_os] demo_created_end by auto
  have "s_size (scn_at st' 2) \<noteq> 0"
    if "unat (s_size (scn_at st' 2)) = 5" using that by auto
  moreover have "[2] = filter (takes_space demo_created) (e_scn demo_new_elf)" by (simp only: e ts)
  from update_separates_sections [OF demo_creating st' this, of 0, OF _ refl refl]
  have "64 \<le> unat (s_offset (scn_at st' 2)) \<and> unat (s_size (scn_at st' 2)) = 5
    \<and> (s_size (scn_at st' 2) \<noteq> 0 \<longrightarrow> unat (s_offset (scn_at st' 2)) + 5 \<le> 69)"
    unfolding e by (auto simp: sz)
  ultimately show ?thesis using st' by auto
qed

text \<open>
  After the reset that ends a successful write the ELF header is read from the new
  contents again, but the sections are not: the flag that says the section header table has
  been read is kept, so \<open>elf_getscn\<close> finds no section and reports an argument error, whatever
  the number of sections is.
\<close>

lemma sections_lost_after_update:
  assumes "elfs st e = Some elf" "section_list e (e_scn elf) st" "e_flags elf AND LIBELF_F_SHDRS_LOADED \<noteq> 0"
    and "reset_elf e st = Some st'" "elfs st' e = Some elf'" "std_class (e_class elf)"
    and "unread e (e_class elf) elf' b off S st'" "eh = file_ehdr (e_class elf) elf' off S st'"
    and "\<not> bad_counts eh" "\<not> uses_extended eh"
  shows "\<exists>st''. elf_getscn (Some e) n st' = Some (None, st'') \<and> fst (elf_errno st'') = error_code ELF_E_ARGUMENT
    \<and> elf_getshdrnum (Some e) st'' = Some ((0, Some (ucast (ehdr_shnum eh))), st'')"
proof -
  let ?ec = "e_class elf"
  have elf': "e_flags elf' = e_flags elf AND NOT ELF_F_DIRTY" "e_class elf' = ?ec" "e_scn elf' = []"
    using reset_elf_effect [OF assms(4,1,2)] assms(5) by auto
  have u: "e_kind elf' = ELF_K_ELF" using assms(5,7) by (simp add: unread_def)
  let ?elf = "elf'\<lparr>e_class := ?ec, e_ehdr := Some eh, e_nphdr := ucast (ehdr_phnum eh),
       e_nscn := ucast (ehdr_shnum eh), e_strndx := ucast (ehdr_shstrndx eh)\<rparr>"
  let ?st = "(set_elf e ?elf st')\<lparr>fresh := Suc (fresh st')\<rparr>"
  have eh: "libelf_ehdr (Some e) ?ec False st' = Some (Some eh, ?st)"
    using libelf_ehdr_unread [OF assms(7,6), of False] assms(8,9,10) by simp
  have ec: "elf_class_of (Some e) st' = Some (Some ?ec)"
    using assms(5,6) elf'(2) u by (auto simp: elf_class_of_def std_class_def)
  have flag: "e_flags ?elf AND LIBELF_F_SHDRS_LOADED \<noteq> 0"
  proof -
    have "e_flags elf AND LIBELF_F_SHDRS_LOADED = e_flags elf' AND LIBELF_F_SHDRS_LOADED"
      unfolding elf'(1) by (simp add: and.assoc)
    then show ?thesis using assms(3) by simp
  qed
  then have load: "load_if_needed e eh ?st = Some (True, ?st)" by (intro load_if_needed_done [of _ _ ?elf]) simp_all
  let ?st'' = "set_error ELF_E_ARGUMENT ?st"
  have "elf_getscn (Some e) n st' = Some (None, ?st'')"
    unfolding elf_getscn_def by (simp add: ec eh load elf'(3))
  moreover have "fst (elf_errno ?st'') = error_code ELF_E_ARGUMENT"
    by (simp only: elf_errno_returns_and_clears set_error_os_frame LIBELF_ERROR_low)
  moreover have "elf_getshdrnum (Some e) ?st'' = Some ((0, Some (ucast (ehdr_shnum eh))), ?st'')"
  proof -
    have "header_ready e ?elf eh ?st''"
      using assms(6-8) u
      by (auto simp: header_ready_def unread_def file_ehdr_def ehdr_object_def ehdr_class_def std_class_def)
    from header_ready_ehdr [OF this, of False] header_ready_class [OF this]
    show ?thesis by (simp add: elf_getshdrnum_def libelf_getshdrnum_def libelf_getcount_def)
  qed
  ultimately show ?thesis by blast
qed

text \<open>A file with two section headers, as it is after a write through a descriptor that had read it.\<close>

definition demo_written_image :: "byte list" where
  "demo_written_image =
     [0, 0, 0, 0, 0, 0, 0, 0, 0, 0, 0, 0, 0, 0, 0, 0, 0, 0, 0, 0, 0, 0, 0, 0, 0, 0, 0, 0, 0, 0, 0, 0,
      0, 0, 0, 0, 0, 0, 0, 0, 64, 0, 0, 0, 0, 0, 0, 0, 0, 0, 0, 0, 0, 0, 0, 0, 0, 0, 0, 0, 2, 0, 1, 0]
     @ replicate 128 0"

definition demo_written_elf :: Elf where
  "demo_written_elf = (demo_elf demo_written_image)\<lparr>e_cmd := ELF_C_RDWR, e_ehdr := Some (Ehdr64 demo_new_ehdr),
     e_scn := [1, 2], e_nscn := 2, e_flags := LIBELF_F_SHDRS_LOADED OR ELF_F_DIRTY\<rparr>"

definition demo_written :: store where
  "demo_written = (demo_elf_store demo_written_image)
     \<lparr>elfs := [0 \<mapsto> demo_written_elf], fresh := 3,
      scns := [1 \<mapsto> new_scn 0 ELFCLASS64 0 (zero_shdr ELFCLASS64),
               2 \<mapsto> new_scn 0 ELFCLASS64 1 (zero_shdr ELFCLASS64)]\<rparr>"

lemma demo_written_ehdr:
  "file_ehdr ELFCLASS64 (demo_written_elf\<lparr>e_flags := fl, e_scn := [], e_ehdr := None, e_phdr := None\<rparr>) 0 demo_written_image
     (demo_written\<lparr>scns := c, elfs := a\<rparr>)
    = Ehdr64 \<lparr>eh_ident = [0, 0, 0, 0, 0, 0, 0, 0, 0, 0, 0, 0, 0, 0, 0, 0], eh_type = 0,
       eh_machine = 0, eh_version = 0, eh_entry = 0,
       eh_phoff = 0, eh_shoff = 64, eh_flags = 0, eh_ehsize = 0, eh_phentsize = 0, eh_phnum = 0,
       eh_shentsize = 0, eh_shnum = 2, eh_shstrndx = 1\<rparr>"
  by (simp add: file_ehdr_def ehdr_object_def file_struct_def ehdr_layout_def Elf64_Ehdr_DEF_def
      swap_needed_def demo_written_elf_def demo_elf_def demo_written_def demo_elf_store_def initial_store_def
      initial_globals_def demo_written_image_def segment_def ehdr_of_def native_val_def word_of_le_def)

lemma demo_written_reset:
  "\<exists>a c. reset_elf 0 demo_written = Some (demo_written\<lparr>scns := c, elfs := a\<rparr>)"
  by (simp add: reset_elf_def demo_written_def demo_written_elf_def demo_elf_def new_elf_def libelf_release_scn_def
      new_scn_def set_elf_def) (intro exI, rule refl)

lemma sections_lost_after_update_witness:
  "\<exists>st' st''. reset_elf 0 demo_written = Some st' \<and> elf_getscn (Some 0) 1 st' = Some (None, st'')
    \<and> elf_getshdrnum (Some 0) st'' = Some ((0, Some 2), st'')"
proof -
  obtain a c where r: "reset_elf 0 demo_written = Some (demo_written\<lparr>scns := c, elfs := a\<rparr>)"
    using demo_written_reset by blast
  let ?elf = "demo_written_elf\<lparr>e_flags := e_flags demo_written_elf AND NOT ELF_F_DIRTY, e_scn := [], e_ehdr := None,
     e_phdr := None\<rparr>"
  have e: "elfs demo_written 0 = Some demo_written_elf" by (simp add: demo_written_def)
  have l: "section_list 0 (e_scn demo_written_elf) demo_written"
    by (simp add: section_list_def demo_written_def demo_written_elf_def new_scn_def less_Suc_eq)
  have a: "a 0 = Some ?elf" using reset_elf_effect [OF r e l] by simp
  have len: "length demo_written_image = 192" by (simp add: demo_written_image_def)
  have u: "unread 0 ELFCLASS64 ?elf 0 0 demo_written_image (demo_written\<lparr>scns := c, elfs := a\<rparr>)"
    using ehdr_sizes(1) [of ELFCLASS64] a
    by (simp add: unread_def std_class_def demo_written_elf_def demo_elf_def new_elf_def demo_written_def
        demo_elf_store_def initial_store_def len)
  have "e_class demo_written_elf = ELFCLASS64" "e_flags demo_written_elf AND LIBELF_F_SHDRS_LOADED \<noteq> 0"
    by (simp_all add: demo_written_elf_def demo_elf_def new_elf_def)
  then show ?thesis
    using sections_lost_after_update [OF e l _ r, of ?elf 0 0 demo_written_image _ 1] u a r
      demo_written_ehdr [of "e_flags demo_written_elf AND NOT ELF_F_DIRTY"]
    by (auto simp: std_class_def bad_counts_def uses_extended_def)
qed

text \<open>
  A data descriptor whose type has no size in memory (\<open>ELF_T_MOVEP\<close>, or a 64-bit integer
  type in a 32-bit object) passes the checks of the layout, which then divides by that size:
  the computation faults.
\<close>

lemma section_extents_divide_by_zero:
  assumes "elfs st e = Some elf" "scns st s = Some scn" "shdr_class (s_shdr scn) = e_class elf" "std_class (e_class elf)"
    and "s_data scn = r # rs" "datas st r = Some ld"
    and "0 \<le> d_type (d_data ld)" "d_type (d_data ld) < ELF_T_NUM" "d_version (d_data ld) = e_version elf"
    and "\<not> bad_align (d_align (d_data ld))" "msize_table (d_type (d_data ld)) (e_class elf) = 0"
    and "libelf_xlate_shtype (shdr_type (s_shdr scn)) \<le> ELF_T_LAST"
  shows "libelf_compute_section_extents e s rc st = None"
proof -
  have "data_extents layout (e_class elf) (e_version elf) (r # rs) 0 0 st = None" for layout
    using assms(4,6-11) by (auto simp: libelf_msize_def std_class_def Let_def)
  moreover have "scn_shdr (e_class elf) scn = Some (s_shdr scn)"
    using assms(3,4) by (auto simp: scn_shdr_def shdr_class_def std_class_def split: Shdr.split)
  ultimately show ?thesis
    using assms(1,2,5,12)
    by (auto simp: libelf_compute_section_extents_def Let_def simp del: data_extents.simps split: Option.bind_splits)
qed

lemma section_extents_divide_by_zero_witness:
  "libelf_compute_section_extents 0 1 52
     (demo_created\<lparr>elfs := [0 \<mapsto> demo_new_elf\<lparr>e_class := ELFCLASS32\<rparr>],
        scns := [1 \<mapsto> (new_scn 0 ELFCLASS32 1 (zero_shdr ELFCLASS32))\<lparr>s_data := [3]\<rparr>],
        datas := [3 \<mapsto> \<lparr>d_data = \<lparr>d_align = 8, d_buf = Some (0, 0), d_off = 0, d_size = 8, d_type = ELF_T_XWORD,
           d_version = 1\<rparr>, d_scn = Some 1, d_flags = 0\<rparr>]\<rparr>) = None"
  by (rule section_extents_divide_by_zero [where e = 0 and s = 1 and r = 3 and rs = "[]"])
    (simp add: demo_new_elf_def demo_elf_def new_elf_def new_scn_def shdr_class_def zero_shdr_def zero_Elf_Shdr_def
      std_class_def bad_align_def msize_table_def prim_basic_def libelf_xlate_shtype_def)+

text \<open>
  When the application lays out the object, a section whose end lies beyond the largest
  offset is accepted: the end wraps around to a small number, so the offset reported for the
  end of the file does not go up, although the section starts beyond it.
\<close>

lemma layout_accepts_wrapped_section:
  assumes "elfs st e = Some elf" "e_flags elf AND ELF_F_LAYOUT \<noteq> 0" "scns st s = Some scn"
    and "shdr_class (s_shdr scn) = e_class elf" "std_class (e_class elf)" "untouched scn" "takes_space st s"
    and "libelf_xlate_shtype (shdr_type (s_shdr scn)) \<le> ELF_T_LAST"
    and "off = shdr_offset (s_shdr scn)" "sz = shdr_size (s_shdr scn)"
    and "extents_ok xs" "covered xs \<subseteq> {..<unat rc}" "rc \<le> off" "sz \<noteq> 0" "off + sz \<le> rc" "oom st = []"
  shows "\<exists>st'. resync_sections e (e_class elf) [s] rc xs st
      = Some ((Some rc, xs @ [\<lparr>ex_start = off, ex_size = sz, ex_type = ELF_EXTENT_SECTION, ex_desc = Some s\<rparr>]), st')
    \<and> scns st' s = Some (scn\<lparr>s_size := sz, s_offset := off\<rparr>)"
proof -
  let ?st = "set_scn s (scn\<lparr>s_size := sz, s_offset := off\<rparr>) st"
  have sh: "scn_shdr (e_class elf) scn = Some (s_shdr scn)" using assms(4,5) by (auto simp: scn_shdr_def shdr_class_def std_class_def split: Shdr.split)
  have type: "shdr_type (s_shdr scn) \<noteq> SHT_NULL" "shdr_type (s_shdr scn) \<noteq> SHT_NOBITS"
    using assms(3,7) by (auto simp: takes_space_def scn_at_def)
  have ext: "libelf_compute_section_extents e s rc st = Some (True, ?st)"
    using assms(1-3,6,8,9,10) sh type
    by (simp add: libelf_compute_section_extents_def update_descriptor_def untouched_def not_less)
  have un: "extent_is_unused xs off sz pt k = Some (Some (k + length xs))" for pt k
    using assms(11,12)
  proof (induction xs arbitrary: pt k)
    case (Cons x xs)
    from Cons.prems have "ex_ok x" "ex_span x \<subseteq> {..<unat rc}" by auto
    moreover from this(1) have "ex_end x - 1 \<in> ex_span x" using ex_ok_start_less [of x] by (simp add: ex_span_def)
    ultimately have "ex_end x - 1 < unat rc" by blast
    then have "ex_end x \<le> unat rc" by linarith
    then have "unat (ex_start x + ex_size x) \<le> unat off"
      using ex_ok_end [OF \<open>ex_ok x\<close>] assms(13) by (simp add: word_le_nat_alt)
    then show ?case using Cons by (simp add: word_le_nat_alt)
  qed simp
  show ?thesis
    using sh type assms(3,14,16)
    by (simp add: ext libelf_insert_extent_def un alloc_ok_def) (use assms(15) in \<open>auto dest: leD\<close>)
qed

lemma layout_accepts_wrapped_section_witness:
  "\<exists>xs st'. resync_sections 0 ELFCLASS64 [1] 64
       [\<lparr>ex_start = 0, ex_size = 64, ex_type = ELF_EXTENT_EHDR, ex_desc = None\<rparr>]
       (demo_created\<lparr>elfs := [0 \<mapsto> demo_new_elf\<lparr>e_flags := ELF_F_LAYOUT\<rparr>],
          scns := [1 \<mapsto> new_scn 0 ELFCLASS64 1 (Shdr64 (demo_strtab\<lparr>sh_offset := - 8, sh_size := 16\<rparr>))]\<rparr>)
     = Some ((Some 64, xs), st') \<and> length xs = 2"
proof -
  let ?elf = "demo_new_elf\<lparr>e_flags := ELF_F_LAYOUT\<rparr>"
  let ?scn = "new_scn 0 ELFCLASS64 1 (Shdr64 (demo_strtab\<lparr>sh_offset := - 8, sh_size := 16\<rparr>))"
  let ?st = "demo_created\<lparr>elfs := [0 \<mapsto> ?elf], scns := [1 \<mapsto> ?scn]\<rparr>"
  let ?x = "\<lparr>ex_start = 0, ex_size = 64, ex_type = ELF_EXTENT_EHDR, ex_desc = None\<rparr>"
  have "takes_space ?st 1" "untouched ?scn" "shdr_class (s_shdr ?scn) = e_class ?elf" "e_class ?elf = ELFCLASS64"
    "libelf_xlate_shtype (shdr_type (s_shdr ?scn)) \<le> ELF_T_LAST" "std_class ELFCLASS64" "oom ?st = []"
    by (simp_all add: takes_space_def scn_at_def untouched_def new_scn_def demo_strtab_def zero_Elf_Shdr_def
        shdr_class_def demo_new_elf_def demo_elf_def new_elf_def libelf_xlate_shtype_def std_class_def
        demo_created_def demo_pieces_def demo_strings_def demo_elf_store_def initial_store_def)
  moreover have "extents_ok [?x]" "covered [?x] \<subseteq> {..<unat (64 :: u64)}"
    by (auto simp: ex_ok_def ex_end_def ex_span_def)
  moreover have "shdr_offset (s_shdr ?scn) = - 8" "shdr_size (s_shdr ?scn) = 16" by (simp_all add: new_scn_def)
  ultimately obtain st' where "resync_sections 0 (e_class ?elf) [1] 64 [?x] ?st = Some ((Some 64, [?x]
      @ [\<lparr>ex_start = - 8, ex_size = 16, ex_type = ELF_EXTENT_SECTION, ex_desc = Some 1\<rparr>]), st')"
    using layout_accepts_wrapped_section [of ?st 0 ?elf 1 ?scn "- 8" 16 "[?x]" 64] by (auto simp del: resync_sections.simps)
  moreover have "e_class ?elf = ELFCLASS64" by (simp add: demo_new_elf_def demo_elf_def new_elf_def)
  moreover have "length ([?x] @ [y]) = 2" for y by simp
  ultimately show ?thesis by metis
qed

end
