(* ===== verification/Elf_Image.thy ===== *)
theory Elf_Image
  imports Elf_Update
begin

text \<open>
  What \<open>elf_update\<close> writes.  The image of a file is built from its start to its end: each
  function of \<open>elf_update.c\<close> that writes a piece of it appends to what is there.  The image of
  an object whose layout the library chooses is the ELF header, the program headers, the data of
  the sections and the section headers, in the representation of the file, with the fill
  character between them.
\<close>

section \<open>Appending to the image\<close>

text \<open>
  The block \<open>b\<close> holds what has been written, \<open>P\<close>, and \<open>T\<close> behind it; \<open>X\<close> is written over the
  start of \<open>T\<close>.
\<close>

definition append_image :: "nat \<Rightarrow> byte list \<Rightarrow> byte list \<Rightarrow> byte list \<Rightarrow> store \<Rightarrow> store" where
  "append_image b P X T st = st\<lparr>mem := (mem st)(b \<mapsto> P @ X @ drop (length X) T)\<rparr>"

lemma append_image_frame [simp]:
  "mem (append_image b P X T st) = (mem st)(b \<mapsto> P @ X @ drop (length X) T)"
  "base (append_image b P X T st) = base st"
  "elfs (append_image b P X T st) = elfs st"
  "scns (append_image b P X T st) = scns st"
  "datas (append_image b P X T st) = datas st"
  "globals (append_image b P X T st) = globals st"
  "fresh (append_image b P X T st) = fresh st"
  "oom (append_image b P X T st) = oom st"
  by (simp_all add: append_image_def)

lemma append_image_append:
  "append_image b (P @ X) Y (drop (length X) T) (append_image b P X T st) = append_image b P (X @ Y) T st"
  by (simp add: append_image_def add.commute)

lemma append_image_Nil: "mem st b = Some (P @ T) \<Longrightarrow> append_image b P [] T st = st"
  by (simp add: append_image_def fun_upd_idem)

abbreviation fill_byte :: "store \<Rightarrow> byte" where
  "fill_byte st \<equiv> of_int (libelf_fillchar (globals st))"

lemma fill_gap_image:
  assumes "mem st b = Some (P @ T)" "g \<le> length T" "length (P @ T) < 2 ^ 62"
  shows "fill_gap (Some (b, 0)) (of_nat (length P)) (of_nat (length P + g)) st
    = Some (append_image b P (replicate g (fill_byte st)) T st)"
proof -
  have u: "unat (of_nat (length P) :: u64) = length P" "unat (of_nat (length P + g) :: u64) = length P + g"
    using assms(2,3) by (simp_all add: unat_of_nat_u64 del: of_nat_add)
  show ?thesis
  proof (cases "g = 0")
    case True
    then show ?thesis using append_image_Nil [OF assms(1)] by (simp add: fill_gap_def)
  next
    case False
    then have lt: "(of_nat (length P) :: u64) < of_nat (length P + g)" by (simp only: word_less_nat_alt u)
    have "unat (of_nat (length P + g) - of_nat (length P) :: u64) = g"
      using lt by (subst unat_sub) (simp_all only: order.strict_implies_order u diff_add_inverse)
    then show ?thesis
      using lt assms u
      by (simp add: fill_gap_def ptr_add_def write_bytes_def append_image_def del: of_nat_add)
  qed
qed

text \<open>Two blocks are apart: neither wraps around, and they do not touch.\<close>

definition blocks_apart :: "store \<Rightarrow> nat \<Rightarrow> nat \<Rightarrow> nat \<Rightarrow> nat \<Rightarrow> bool" where
  "blocks_apart st b m c n \<longleftrightarrow>
     unat (base st b) + m < 2 ^ 64 \<and> unat (base st c) + n < 2 ^ 64
     \<and> (unat (base st b) + m < unat (base st c) \<or> unat (base st c) + n < unat (base st b))"

lemma blocks_apart_addr:
  assumes "blocks_apart st b m c n" "x + unat k \<le> m" "y + unat l \<le> n"
  shows "addr (Some (b, x)) st \<noteq> addr (Some (c, y)) st"
    "\<not> (addr (Some (c, y)) st < addr (Some (b, x)) st + k \<and> addr (Some (b, x)) st < addr (Some (c, y)) st + l)"
proof -
  have small: "unat (base st b) + x < 2 ^ 64" "unat (base st c) + y < 2 ^ 64"
    "unat (base st b) + x + unat k < 2 ^ 64" "unat (base st c) + y + unat l < 2 ^ 64"
    using assms by (auto simp: blocks_apart_def)
  then have xy: "unat (of_nat x :: u64) = x" "unat (of_nat y :: u64) = y" by (simp_all add: unat_of_nat_u64)
  have a: "unat (base st b + of_nat x) = unat (base st b) + x" "unat (base st c + of_nat y) = unat (base st c) + y"
    using small(1,2) xy by (simp_all add: unat_add_small)
  have e: "unat (base st b + of_nat x + k) = unat (base st b) + x + unat k"
    "unat (base st c + of_nat y + l) = unat (base st c) + y + unat l"
    using small(3,4) a by (subst unat_add_small; simp)+
  have "unat (base st b) + x + unat k < unat (base st c) + y \<or> unat (base st c) + y + unat l < unat (base st b) + x"
    using assms by (auto simp: blocks_apart_def)
  then show "addr (Some (b, x)) st \<noteq> addr (Some (c, y)) st"
    "\<not> (addr (Some (c, y)) st < addr (Some (b, x)) st + k \<and> addr (Some (b, x)) st < addr (Some (c, y)) st + l)"
    unfolding addr_def option.case prod.case word_less_nat_alt e a word_unat_eq_iff by linarith+
qed

section \<open>Data in the representation of the file\<close>

text \<open>\<open>n\<close> elements of type \<open>t\<close> at offset \<open>so\<close> of the bytes \<open>S\<close>, translated.\<close>

definition encode :: "int \<Rightarrow> int \<Rightarrow> bool \<Rightarrow> nat \<Rightarrow> nat \<Rightarrow> byte list \<Rightarrow> byte list" where
  "encode t ec sw n so S =
     (case type_layout t ec of
        None \<Rightarrow> segment so n S
      | Some def \<Rightarrow> concat (map (\<lambda>i. file_bytes sw def (mem_struct ec def (elem so (struct_size ec def) i S))) [0..<n]))"

lemma elem_struct_ok:
  assumes "type_layout t ec = Some def" "std_class ec" "i < n" "so + n * struct_size ec def \<le> length S"
  shows "members_ok ec def (mem_struct ec def (elem so (struct_size ec def) i S))"
  unfolding mem_struct_def
  using type_layout_valid [OF assms(1,2)] length_elem [OF assms(3,4)] members_end_le_struct_size [of ec def]
  by (intro get_members_ok) simp_all

lemma length_encode:
  assumes "fixed_size t ec" "std_class ec" "so + n * msize_table t ec \<le> length S"
  shows "length (encode t ec sw n so S) = fsize_table t ec * n"
proof (cases "type_layout t ec")
  case None
  then have "t = ELF_T_BYTE" using assms(1) by (simp add: fixed_size_def)
  then show ?thesis using None assms(3) by (simp add: encode_def byte_sizes)
next
  case (Some def)
  note sz = type_layout_sizes(1,2) [OF Some assms(2)]
  have "length (concat (map (\<lambda>i. file_bytes sw def (mem_struct ec def (elem so (struct_size ec def) i S))) [0..<k]))
      = k * FSZ ec def" if "k \<le> n" for k
    using that
  proof (induction k)
    case (Suc k)
    then have "members_ok ec def (mem_struct ec def (elem so (struct_size ec def) k S))"
      using elem_struct_ok [OF Some assms(2), of k n so S] assms(3) sz(2) by simp
    then show ?case using Suc by (simp add: length_file_bytes)
  qed simp
  then show ?thesis using Some sz by (simp add: encode_def mult.commute)
qed

lemma bytes_by_elems:
  assumes "length D = length (P @ T)" "take (length P) D = P" "drop (length P + n * sz) D = drop (n * sz) T"
    and "n * sz \<le> length T" "\<And>i. i < n \<Longrightarrow> elem (length P) sz i D = f i"
  shows "D = P @ concat (map f [0..<n]) @ drop (n * sz) T"
proof -
  have "segment (length P) (n * sz) D = concat (map (\<lambda>i. elem (length P) sz i D) [0..<n])" by (rule segment_elems)
  also have "\<dots> = concat (map f [0..<n])" using assms(5) by (metis (no_types, lifting) atLeastLessThan_upt atLeastLessThan_iff map_cong)
  finally have "segment (length P) (n * sz) D = concat (map f [0..<n])" .
  moreover have "D = take (length P) D @ segment (length P) (n * sz) D @ drop (length P + n * sz) D"
    unfolding segment_def by (metis add.commute append_take_drop_id drop_drop)
  ultimately show ?thesis using assms(2,3) by simp
qed

text \<open>Bytes are copied.\<close>

lemma xlate_bytes_image:
  assumes src: "d_type src = ELF_T_BYTE" "d_version src = EV_CURRENT" "d_buf src = Some (sb, so)" "mem st sb = Some S"
      "so + unat (d_size src) \<le> length S" "sb \<noteq> b"
    and img: "mem st b = Some (P @ T)" "unat (d_size src) \<le> length T" "dsz = d_size src"
    and apart: "blocks_apart st b (length (P @ T)) sb (length S)"
    and enc: "encoding = ELFDATA2LSB \<or> encoding = ELFDATA2MSB" "std_class ec"
  defines "dst \<equiv> zero_data\<lparr>d_buf := Some (b, length P), d_size := dsz, d_version := EV_CURRENT\<rparr>"
  shows "libelf_xlate_buf dst src encoding ec ELF_TOFILE st
    = Some ((True, dst\<lparr>d_type := ELF_T_BYTE, d_size := dsz\<rparr>),
            append_image b P (segment so (unat (d_size src)) S) T st)"
proof -
  have fs: "(if ec = ELFCLASS32 then elf32_fsize else elf64_fsize) ELF_T_BYTE 1 EV_CURRENT st = (1, st)"
    using enc(2) by (auto simp: elf32_fsize_def elf64_fsize_def libelf_fsize_def byte_sizes std_class_def)
  have ms: "libelf_msize ELF_T_BYTE ec EV_CURRENT st = Some (1, st)"
    using enc(2) by (auto simp: libelf_msize_def byte_sizes std_class_def)
  have al: "libelf_malign ELF_T_BYTE ec = 1" using enc(2) by (auto simp: libelf_malign_def malign_table_def std_class_def)
  have cvt: "translate ELF_T_BYTE ELF_TOFILE ec dp k sp n sw st = cvt_BYTE_tox dp k sp n sw st" for dp k sp n sw
    using enc(2) by (auto simp: translate_def libelf_get_translator_def cvt_table_def std_class_def)
  note o = blocks_apart_addr [OF apart, of "length P" dsz so "d_size src"]
  have o: "addr (Some (b, length P)) st \<noteq> addr (Some (sb, so)) st"
    "\<not> (addr (Some (sb, so)) st < addr (Some (b, length P)) st + dsz
       \<and> addr (Some (b, length P)) st < addr (Some (sb, so)) st + d_size src)"
    using o img(2,3) src(5) by simp_all
  have len: "length (segment so (unat (d_size src)) S) = unat (d_size src)" using src(5) by simp
  have copy: "memcpy (Some (b, length P)) (Some (sb, so)) (unat (d_size src)) st
      = Some (append_image b P (segment so (unat (d_size src)) S) T st)"
    using memcpy_correct [OF src(4,5) img(1), of "length P"] img(2) len
    by (simp add: append_image_def put_at_def)
  show ?thesis
  proof (cases "d_size src = 0")
    case True
    then show ?thesis
      using src enc img(3) o fs ms al append_image_Nil [OF img(1)]
      by (auto simp: libelf_xlate_buf_def Let_def dst_def zero_data_def std_class_def segment_def)
  next
    case False
    then show ?thesis
      using src enc img(3) o fs ms al copy
      by (auto simp: libelf_xlate_buf_def Let_def dst_def zero_data_def std_class_def cvt cvt_BYTE_tox_def)
  qed
qed

text \<open>Elements of any fixed-size type are encoded one after the other.\<close>

lemma xlate_image:
  assumes src: "fixed_size (d_type src) ec" "d_version src = EV_CURRENT" "d_buf src = Some (sb, so)" "mem st sb = Some S"
      "so + unat (d_size src) \<le> length S" "sb \<noteq> b" "unat (d_size src) = n * msize_table (d_type src) ec"
      "addr (d_buf src) st mod ucast (libelf_malign (d_type src) ec) = 0"
    and img: "mem st b = Some (P @ T)" "n * fsize_table (d_type src) ec \<le> length T"
      "unat dsz = n * fsize_table (d_type src) ec"
    and apart: "blocks_apart st b (length (P @ T)) sb (length S)"
    and enc: "encoding = ELFDATA2LSB \<or> encoding = ELFDATA2MSB" "std_class ec"
  defines "dst \<equiv> zero_data\<lparr>d_buf := Some (b, length P), d_size := dsz, d_version := EV_CURRENT\<rparr>"
  shows "\<exists>dst'. libelf_xlate_buf dst src encoding ec ELF_TOFILE st
    = Some ((True, dst'), append_image b P
        (encode (d_type src) ec (encoding \<noteq> libelf_byteorder (globals st)) n so S) T st)"
proof (cases "type_layout (d_type src) ec")
  case None
  then have t: "d_type src = ELF_T_BYTE" using src(1) by (simp add: fixed_size_def)
  then have n: "unat (d_size src) = n" "dsz = d_size src" "n \<le> length T"
    using src(7) img(2,3) by (simp_all add: byte_sizes word_unat_eq_iff)
  have "encode (d_type src) ec sw n so S = segment so n S" for sw using None by (simp add: encode_def)
  with xlate_bytes_image [OF t src(2-6) img(1) _ n(2) apart enc] n show ?thesis
    unfolding dst_def by (intro exI) simp
next
  case (Some def)
  note sz = type_layout_sizes(1,2) [OF Some enc(2)]
  let ?sw = "encoding \<noteq> libelf_byteorder (globals st)"
  have small: "length P + unat dsz \<le> length (P @ T)" "so + unat (d_size src) \<le> length S"
    using img(2,3) src(5) by simp_all
  note o = blocks_apart_addr [OF apart small]
  have "xlate_ready dst src encoding ec st (struct_size ec def) (FSZ ec def) n sb so S b (length P) (P @ T)"
    unfolding xlate_ready_def using src enc img sz o by (auto simp: dst_def zero_data_def)
  from xlate_tof_correct [OF Some enc(2) this src(8)] obtain st' D' where
    x: "libelf_xlate_buf dst src encoding ec ELF_TOFILE st
        = Some ((True, dst\<lparr>d_type := d_type src, d_size := of_nat (n * FSZ ec def)\<rparr>), st')"
      "tof_result ec def ?sw st so b (length P) n (P @ T) S st' D'" by blast
  let ?f = "\<lambda>i. file_bytes ?sw def (mem_struct ec def (elem so (struct_size ec def) i S))"
  have r: "st' = st\<lparr>mem := (mem st)(b \<mapsto> D')\<rparr>" "length D' = length (P @ T)" "take (length P) D' = P"
    "drop (length P + n * FSZ ec def) D' = drop (n * FSZ ec def) T"
    "\<And>i. i < n \<Longrightarrow> elem (length P) (FSZ ec def) i D' = ?f i"
    using x(2) by (simp_all add: tof_result_def)
  have enc_eq: "encode (d_type src) ec ?sw n so S = concat (map ?f [0..<n])" using Some by (simp add: encode_def)
  have "length (encode (d_type src) ec ?sw n so S) = fsize_table (d_type src) ec * n"
    using src(5,7) by (intro length_encode [OF src(1) enc(2)]) simp
  then have len: "length (concat (map ?f [0..<n])) = n * FSZ ec def" unfolding enc_eq sz by (simp only: mult.commute)
  have "D' = P @ concat (map ?f [0..<n]) @ drop (n * FSZ ec def) T"
    using bytes_by_elems [OF r(2-4) _ r(5)] img(2) sz by simp
  then have "st' = append_image b P (encode (d_type src) ec ?sw n so S) T st"
    unfolding r(1) append_image_def enc_eq len by simp
  then show ?thesis using x(1) by blast
qed

text \<open>
  Objects that the descriptors hold as values, for which the block \<open>fresh st\<close> is free.
\<close>

lemma length_put_members:
  assumes "valid_layout ec def" "members_ok ec def vs"
  shows "length (put_members (member_offsets ec 0 def) vs (replicate (struct_size ec def) 0)) = struct_size ec def"
  using put_members_length_take [OF assms, of 0 "replicate (struct_size ec def) 0"] members_end_le_struct_size [of ec def]
  by simp

lemma concat_nth_elem:
  assumes "\<And>x. x \<in> set xs \<Longrightarrow> length x = sz" "i < length xs"
  shows "elem 0 sz i (concat xs) = xs ! i"
  using assms
proof (induction xs arbitrary: i)
  case (Cons x xs)
  show ?case
  proof (cases i)
    case 0
    then show ?thesis using Cons.prems(1) by (simp add: elem_def segment_def)
  next
    case (Suc j)
    then have "elem 0 sz j (concat xs) = xs ! j" using Cons by simp
    then show ?thesis using Cons.prems(1) [of x] by (simp add: Suc elem_def segment_def)
  qed
qed simp

lemma objects_image_elems:
  assumes "valid_layout ec def" "\<And>vs. vs \<in> set vss \<Longrightarrow> members_ok ec def vs"
  shows "length (objects_image ec def vss) = length vss * struct_size ec def"
    "i < length vss \<Longrightarrow> mem_struct ec def (elem 0 (struct_size ec def) i (objects_image ec def vss)) = vss ! i"
proof -
  let ?put = "\<lambda>vs. put_members (member_offsets ec 0 def) vs (replicate (struct_size ec def) 0)"
  have len: "length x = struct_size ec def" if "x \<in> set (map ?put vss)" for x
    using that assms by (auto simp: length_put_members)
  then show "length (objects_image ec def vss) = length vss * struct_size ec def"
    unfolding objects_image_def by (induction vss) auto
  assume i: "i < length vss"
  then have "elem 0 (struct_size ec def) i (objects_image ec def vss) = ?put (vss ! i)"
    unfolding objects_image_def using concat_nth_elem [of "map ?put vss" "struct_size ec def" i] len by simp
  then show "mem_struct ec def (elem 0 (struct_size ec def) i (objects_image ec def vss)) = vss ! i"
    using get_put_members [OF assms(1) assms(2) [OF nth_mem [OF i]], of 0 "replicate (struct_size ec def) 0"]
      members_end_le_struct_size [of ec def]
    by (simp add: mem_struct_def)
qed

lemma xlate_objects_image:
  assumes t: "comp_layout t ec = Some def" "std_class ec" "\<And>vs. vs \<in> set vss \<Longrightarrow> members_ok ec def vs"
    and sizes: "unat ssz = length vss * struct_size ec def" "unat dsz = length vss * FSZ ec def"
    and img: "mem st b = Some (P @ T)" "length vss * FSZ ec def \<le> length T"
    and blk: "mem st (fresh st) = None" "blocks_apart st b (length (P @ T)) (fresh st) (length vss * struct_size ec def)"
      "base st (fresh st) mod ucast (libelf_malign t ec) = 0"
    and enc: "encoding = ELFDATA2LSB \<or> encoding = ELFDATA2MSB"
  shows "xlate_objects t ec EV_CURRENT encoding vss ssz (Some (b, length P)) dsz st
    = Some (True, append_image b P
        (concat (map (file_bytes (encoding \<noteq> libelf_byteorder (globals st)) def) vss)) T st)"
proof -
  let ?c = "fresh st" and ?S = "objects_image ec def vss" and ?sw = "encoding \<noteq> libelf_byteorder (globals st)"
  let ?st = "st\<lparr>mem := (mem st)(?c \<mapsto> ?S)\<rparr>"
  let ?src = "zero_data\<lparr>d_buf := Some (?c, 0), d_size := ssz, d_type := t, d_version := EV_CURRENT\<rparr>"
  have tl: "type_layout t ec = Some def" by (rule layout_type [OF t(1)])
  note S = objects_image_elems [OF type_layout_valid [OF tl t(2)], of vss, OF t(3)]
  note sz = type_layout_sizes(1,2) [OF tl t(2)]
  have ne: "?c \<noteq> b" using img(1) blk(1) by auto
  have elems: "map (\<lambda>i. file_bytes ?sw def (mem_struct ec def (elem 0 (struct_size ec def) i ?S))) [0..<length vss]
      = map (\<lambda>i. file_bytes ?sw def (vss ! i)) [0..<length vss]"
    by (rule map_cong [OF refl]) (metis S(2) atLeastLessThan_iff atLeastLessThan_upt)
  have "encode t ec ?sw (length vss) 0 ?S = concat (map (\<lambda>i. file_bytes ?sw def (vss ! i)) [0..<length vss])"
    unfolding encode_def tl option.case elems ..
  also have "\<dots> = concat (map (file_bytes ?sw def) vss)" by (rule arg_cong [of _ _ concat], rule nth_equalityI) simp_all
  finally have e: "encode t ec ?sw (length vss) 0 ?S = concat (map (file_bytes ?sw def) vss)" .
  have src: "fixed_size (d_type ?src) ec" "d_version ?src = EV_CURRENT" "d_buf ?src = Some (?c, 0)"
    "mem ?st ?c = Some ?S" "0 + unat (d_size ?src) \<le> length ?S" "unat (d_size ?src) = length vss * msize_table (d_type ?src) ec"
    "addr (d_buf ?src) ?st mod ucast (libelf_malign (d_type ?src) ec) = 0"
    using tl S(1) sizes(1) sz blk(3) by (simp_all add: fixed_size_def addr_def)
  have "\<exists>dst'. libelf_xlate_buf (zero_data\<lparr>d_buf := Some (b, length P), d_size := dsz, d_version := EV_CURRENT\<rparr>)
      ?src encoding ec ELF_TOFILE ?st
    = Some ((True, dst'), append_image b P
        (encode (d_type ?src) ec (encoding \<noteq> libelf_byteorder (globals ?st)) (length vss) 0 ?S) T ?st)"
    by (rule xlate_image [OF src(1-5) ne src(6,7)])
      (use img sizes(2) sz ne S(1) blk(2) enc t(2) in \<open>simp_all add: blocks_apart_def\<close>)
  then obtain dst' where x: "libelf_xlate_buf (zero_data\<lparr>d_buf := Some (b, length P), d_size := dsz, d_version := EV_CURRENT\<rparr>)
      ?src encoding ec ELF_TOFILE ?st = Some ((True, dst'), append_image b P (concat (map (file_bytes ?sw def) vss)) T ?st)"
    using e by auto
  have "(append_image b P X T ?st)\<lparr>mem := (mem (append_image b P X T ?st))(?c := None)\<rparr> = append_image b P X T st" for X
    using ne blk(1) by (simp add: append_image_def fun_upd_twist fun_upd_idem)
  then show ?thesis using x t(1) by (simp add: xlate_objects_def Let_def)
qed

section \<open>The headers\<close>

definition phdr_layout :: "int \<Rightarrow> layout" where
  "phdr_layout ec = (if ec = ELFCLASS64 then Elf64_Phdr_DEF else Elf32_Phdr_DEF)"

text \<open>The headers as they are in a file.\<close>

definition ehdr_image :: "int \<Rightarrow> bool \<Rightarrow> u32 \<Rightarrow> Ehdr \<Rightarrow> byte list" where
  "ehdr_image ec sw order eh = file_bytes sw (ehdr_layout ec) (ehdr_vals order eh)"

definition phdrs_image :: "int \<Rightarrow> bool \<Rightarrow> u32 \<Rightarrow> Phdrs \<Rightarrow> byte list" where
  "phdrs_image ec sw order ph = concat (map (file_bytes sw (phdr_layout ec)) (phdrs_vals order ph))"

definition shdr_image :: "int \<Rightarrow> bool \<Rightarrow> u32 \<Rightarrow> Shdr \<Rightarrow> byte list" where
  "shdr_image ec sw order sh = file_bytes sw (shdr_layout ec) (shdr_vals order sh)"

definition phdrs_class :: "Phdrs \<Rightarrow> int" where
  "phdrs_class ph = (case ph of Phdrs32 _ \<Rightarrow> ELFCLASS32 | Phdrs64 _ \<Rightarrow> ELFCLASS64)"

lemma vals_ok:
  "std_class ec \<Longrightarrow> ehdr_class eh = ec \<Longrightarrow> length (ehdr_ident eh) = EI_NIDENT
     \<Longrightarrow> members_ok ec (ehdr_layout ec) (ehdr_vals order eh)"
  "std_class ec \<Longrightarrow> shdr_class sh = ec \<Longrightarrow> members_ok ec (shdr_layout ec) (shdr_vals order sh)"
  "std_class ec \<Longrightarrow> phdrs_class ph = ec \<Longrightarrow> vs \<in> set (phdrs_vals order ph) \<Longrightarrow> members_ok ec (phdr_layout ec) vs"
proof -
  show "std_class ec \<Longrightarrow> ehdr_class eh = ec \<Longrightarrow> length (ehdr_ident eh) = EI_NIDENT
     \<Longrightarrow> members_ok ec (ehdr_layout ec) (ehdr_vals order eh)"
    by (cases eh) (auto simp: ehdr_class_def ehdr_layout_def ehdr_wf_def intro: ehdr32.to_ok ehdr64.to_ok)
  show "std_class ec \<Longrightarrow> shdr_class sh = ec \<Longrightarrow> members_ok ec (shdr_layout ec) (shdr_vals order sh)"
    by (cases sh) (auto simp: shdr_class_def shdr_layout_def intro: shdr32.to_ok shdr64.to_ok)
  show "std_class ec \<Longrightarrow> phdrs_class ph = ec \<Longrightarrow> vs \<in> set (phdrs_vals order ph) \<Longrightarrow> members_ok ec (phdr_layout ec) vs"
    by (cases ph) (auto simp: phdrs_class_def phdr_layout_def intro: phdr32.to_ok phdr64.to_ok)
qed

lemma phdr_sizes:
  assumes "std_class ec"
  shows "comp_layout ELF_T_PHDR ec = Some (phdr_layout ec)" "FSZ ec (phdr_layout ec) = phdr_fsz ec"
    "struct_size ec (phdr_layout ec) = phdr_fsz ec"
  using assms
  by (auto simp: comp_layout_def phdr_layout_def phdr_fsz_def std_class_def DEF_simps struct_size_def struct_align_def
      align_up_def)

lemma header_sizes:
  assumes "std_class ec"
  shows "FSZ ec (ehdr_layout ec) = ehdr_fsz ec" "struct_size ec (ehdr_layout ec) = ehdr_fsz ec"
    "FSZ ec (shdr_layout ec) = shdr_fsz ec" "struct_size ec (shdr_layout ec) = shdr_fsz ec"
  using ehdr_sizes [OF assms] assms by (auto simp: ehdr_fsz_def shdr_fsz_def std_class_def)

lemma header_msizes:
  assumes "std_class ec"
  shows "libelf_msize ELF_T_EHDR ec EV_CURRENT st = Some (of_nat (ehdr_fsz ec), st)"
    "libelf_msize ELF_T_PHDR ec EV_CURRENT st = Some (of_nat (phdr_fsz ec), st)"
    "libelf_msize ELF_T_SHDR ec EV_CURRENT st = Some (of_nat (shdr_fsz ec), st)"
proof -
  have m: "msize_table t ec = struct_size ec def" if "comp_layout t ec = Some def" for t def
    using type_layout_sizes(2) [OF layout_type [OF that] assms] .
  note m [OF header_layouts(1)] m [OF header_layouts(2)] m [OF phdr_sizes(1) [OF assms]]
  then show "libelf_msize ELF_T_EHDR ec EV_CURRENT st = Some (of_nat (ehdr_fsz ec), st)"
    "libelf_msize ELF_T_PHDR ec EV_CURRENT st = Some (of_nat (phdr_fsz ec), st)"
    "libelf_msize ELF_T_SHDR ec EV_CURRENT st = Some (of_nat (shdr_fsz ec), st)"
    using assms header_sizes [OF assms] phdr_sizes(3) [OF assms] by (auto simp: libelf_msize_def std_class_def)
qed

lemma length_images:
  assumes "std_class ec"
  shows "ehdr_class eh = ec \<Longrightarrow> length (ehdr_ident eh) = EI_NIDENT \<Longrightarrow> length (ehdr_image ec sw order eh) = ehdr_fsz ec"
    "shdr_class sh = ec \<Longrightarrow> length (shdr_image ec sw order sh) = shdr_fsz ec"
    "phdrs_class ph = ec \<Longrightarrow> length (phdrs_image ec sw order ph) = length (phdrs_vals order ph) * phdr_fsz ec"
proof -
  show "ehdr_class eh = ec \<Longrightarrow> length (ehdr_ident eh) = EI_NIDENT \<Longrightarrow> length (ehdr_image ec sw order eh) = ehdr_fsz ec"
    "shdr_class sh = ec \<Longrightarrow> length (shdr_image ec sw order sh) = shdr_fsz ec"
    using length_file_bytes [OF vals_ok(1) [OF assms]] length_file_bytes [OF vals_ok(2) [OF assms]] header_sizes [OF assms]
    by (simp_all add: ehdr_image_def shdr_image_def)
  assume ph: "phdrs_class ph = ec"
  have "length (concat (map (file_bytes sw (phdr_layout ec)) vss)) = length vss * phdr_fsz ec"
    if "set vss \<subseteq> set (phdrs_vals order ph)" for vss
    using that length_file_bytes [OF vals_ok(3) [OF assms ph]] phdr_sizes(2) [OF assms] by (induction vss) auto
  then show "length (phdrs_image ec sw order ph) = length (phdrs_vals order ph) * phdr_fsz ec"
    by (simp add: phdrs_image_def)
qed

text \<open>The block that the representation of a header lives in while it is translated.\<close>

definition image_room :: "nat \<Rightarrow> nat \<Rightarrow> store \<Rightarrow> bool" where
  "image_room b N st \<longleftrightarrow> mem st (fresh st) = None \<and> fresh st \<noteq> b \<and> unat (base st (fresh st)) mod 8 = 0
     \<and> blocks_apart st b N (fresh st) (2 ^ 22)"

lemma image_room_append [simp]: "image_room b N (append_image b P X T st) = image_room b N st"
  by (auto simp: image_room_def blocks_apart_def)

lemma header_aligned:
  assumes "unat (a :: u64) mod 8 = 0" "std_class ec" "t = ELF_T_EHDR \<or> t = ELF_T_PHDR \<or> t = ELF_T_SHDR"
  shows "a mod ucast (libelf_malign t ec) = 0"
proof -
  have "libelf_malign t ec = 4 \<or> libelf_malign t ec = 8"
    using assms(2,3) by (auto simp: libelf_malign_def malign_table_def std_class_def prim_basic_def comp_layout_def
        struct_align_def DEF_simps)
  moreover have "unat a mod 4 = 0" using assms(1) by presburger
  moreover have "a mod 4 = 0" "a mod 8 = 0"
    using assms(1) \<open>unat a mod 4 = 0\<close> by (simp_all add: word_unat_eq_iff unat_mod)
  moreover have "ucast (4 :: u32) = (4 :: u64)" "ucast (8 :: u32) = (8 :: u64)" by simp_all
  ultimately show ?thesis by metis
qed

lemma xlate_headers_image:
  assumes "comp_layout t ec = Some def" "std_class ec" "t = ELF_T_EHDR \<or> t = ELF_T_PHDR \<or> t = ELF_T_SHDR"
    and "\<And>vs. vs \<in> set vss \<Longrightarrow> members_ok ec def vs" "FSZ ec def = struct_size ec def"
    and "unat ssz = length vss * struct_size ec def" "ssz = dsz" "length vss * struct_size ec def \<le> 2 ^ 22"
    and "mem st b = Some (P @ T)" "length vss * FSZ ec def \<le> length T" "image_room b (length (P @ T)) st"
    and "encoding = ELFDATA2LSB \<or> encoding = ELFDATA2MSB"
  shows "xlate_objects t ec EV_CURRENT encoding vss ssz (Some (b, length P)) dsz st
    = Some (True, append_image b P
        (concat (map (file_bytes (encoding \<noteq> libelf_byteorder (globals st)) def) vss)) T st)"
proof (rule xlate_objects_image [OF assms(1,2,4,6) _ assms(9,10) _ _ _ assms(12)])
  show "unat dsz = length vss * FSZ ec def" using assms(5-7) by simp
  show "mem st (fresh st) = None" using assms(11) by (simp add: image_room_def)
  show "blocks_apart st b (length (P @ T)) (fresh st) (length vss * struct_size ec def)"
    using assms(8,11) by (auto simp: image_room_def blocks_apart_def)
  show "base st (fresh st) mod ucast (libelf_malign t ec) = 0"
    using assms(2,3,11) by (intro header_aligned) (auto simp: image_room_def)
qed simp_all

abbreviation (input) swaps :: "Elf \<Rightarrow> store \<Rightarrow> bool" where
  "swaps elf st \<equiv> e_byteorder elf \<noteq> libelf_byteorder (globals st)"

lemma write_ehdr_image:
  assumes "header_ready e elf eh st" "length (ehdr_ident eh) = EI_NIDENT"
    and "e_byteorder elf = ELFDATA2LSB \<or> e_byteorder elf = ELFDATA2MSB"
    and "mem st b = Some T" "image_room b (length T) st" "ehdr_fsz (e_class elf) \<le> length T"
    and "ex_type ex = ELF_EXTENT_EHDR" "ex_start ex = 0"
  shows "libelf_write_ehdr e (Some (b, 0)) ex st = Some (of_nat (ehdr_fsz (e_class elf)),
    append_image b [] (ehdr_image (e_class elf) (swaps elf st) (host_order st) eh) T st)"
proof -
  let ?ec = "e_class elf"
  have h: "elfs st e = Some elf" "std_class ?ec" "e_version elf = EV_CURRENT" "ehdr_class eh = ?ec"
    using assms(1) by (simp_all add: header_ready_def)
  note sz = header_sizes [OF h(2)]
  have small: "ehdr_fsz ?ec \<le> 64" by (simp add: ehdr_fsz_def)
  then have u: "unat (of_nat (ehdr_fsz ?ec) :: u64) = ehdr_fsz ?ec" by (simp add: unat_of_nat_u64)
  have ok: "vs \<in> set [ehdr_vals (host_order st) eh] \<Longrightarrow> members_ok ?ec (ehdr_layout ?ec) vs" for vs
    using vals_ok(1) [OF h(2,4) assms(2)] by simp
  have "xlate_objects ELF_T_EHDR ?ec EV_CURRENT (e_byteorder elf) [ehdr_vals (host_order st) eh]
      (of_nat (ehdr_fsz ?ec)) (Some (b, length ([] :: byte list))) (of_nat (ehdr_fsz ?ec)) st
    = Some (True, append_image b [] (concat (map (file_bytes (swaps elf st) (ehdr_layout ?ec))
        [ehdr_vals (host_order st) eh])) T st)"
    by (rule xlate_headers_image [OF header_layouts(1) h(2) _ ok])
      (use assms(3-6) sz u small in simp_all)
  then show ?thesis
    using h(1,3) header_ready_ehdr [OF assms(1)] table_fsizes(1) [OF h(2), of 1] header_msizes(1) [OF h(2)] assms(7,8)
    by (simp add: libelf_write_ehdr_def ehdr_image_def Let_def)
qed

lemma falign_word:
  assumes "std_class ec"
  shows "(of_nat (word_align ec) :: u64) \<noteq> 0" "unat (of_nat (word_align ec) :: u64) = word_align ec"
  using assms by (auto simp: word_align_def)

lemma write_phdr_image:
  assumes "header_ready e elf eh st" "e_phdr elf = Some ph" "phdrs_class ph = e_class elf"
    and "unat (e_nphdr elf) = length (phdrs_vals (host_order st) ph)" "e_nphdr elf \<noteq> 0" "e_nphdr elf < PN_XNUM"
    and "e_byteorder elf = ELFDATA2LSB \<or> e_byteorder elf = ELFDATA2MSB"
    and "mem st b = Some (P @ T)" "image_room b (length (P @ T)) st"
      "unat (e_nphdr elf) * phdr_fsz (e_class elf) \<le> length T"
    and "ex_type ex = ELF_EXTENT_PHDR" "ex_start ex = of_nat (length P)" "ehdr_phoff eh = of_nat (length P)"
      "word_align (e_class elf) dvd length P" "0 < length P" "length (P @ T) < 2 ^ 62"
  shows "libelf_write_phdr e (Some (b, 0)) ex st
    = Some (of_nat (length P + unat (e_nphdr elf) * phdr_fsz (e_class elf)),
        append_image b P (phdrs_image (e_class elf) (swaps elf st) (host_order st) ph) T st)"
proof -
  let ?ec = "e_class elf"
  let ?vss = "phdrs_vals (host_order st) ph"
  have h: "elfs st e = Some elf" "std_class ?ec" "e_version elf = EV_CURRENT" "ehdr_class eh = ?ec" "e_kind elf = ELF_K_ELF"
    using assms(1) by (simp_all add: header_ready_def)
  note sz = phdr_sizes [OF h(2)] and fa = falign_word [OF h(2)]
  have n: "unat (e_nphdr elf) < 2 ^ 16" using assms(6) by (simp add: word_less_nat_alt)
  have w: "phdr_fsz ?ec \<le> 56" "0 < phdr_fsz ?ec" by (simp_all add: phdr_fsz_def)
  have n0: "0 < unat (e_nphdr elf)" using assms(5) by (simp add: unat_gt_0)
  have le: "unat (e_nphdr elf) * phdr_fsz ?ec \<le> 2 ^ 16 * 56" using n w by (intro mult_le_mono) simp_all
  have wu: "unat (of_nat (phdr_fsz ?ec) :: u64) = phdr_fsz ?ec" using w by (simp add: unat_of_nat_u64)
  have u: "unat (of_nat (phdr_fsz ?ec) * e_nphdr elf) = unat (e_nphdr elf) * phdr_fsz ?ec"
    using le wu by (subst unat_mult_lem [THEN iffD1]) (simp_all add: mult.commute)
  have uP: "unat (of_nat (length P) :: u64) = length P" using assms(16) by (simp add: unat_of_nat_u64)
  have P0: "(of_nat (length P) :: u64) > 0" using uP assms(15) by (simp add: word_less_nat_alt)
  have al: "(of_nat (length P) :: u64) mod of_nat (word_align ?ec) = 0"
    using assms(14) uP fa(2) by (simp add: word_unat_eq_iff unat_mod)
  have "xlate_objects ELF_T_PHDR ?ec EV_CURRENT (e_byteorder elf) ?vss
      (of_nat (phdr_fsz ?ec) * e_nphdr elf) (Some (b, length P)) (of_nat (phdr_fsz ?ec) * e_nphdr elf) st
    = Some (True, append_image b P (concat (map (file_bytes (swaps elf st) (phdr_layout ?ec)) ?vss)) T st)"
    by (rule xlate_headers_image [OF sz(1) h(2) _ vals_ok(3) [OF h(2) assms(3)]])
      (use assms(4,7-10) sz u le in \<open>simp_all add: mult.commute\<close>)
  moreover have "libelf_getphdr (Some e) ?ec st = Some (Some ph, st)"
    using h assms(2) by (auto simp: libelf_getphdr_def std_class_def read_e_phdr_def)
  moreover have "ptr_add (Some (b, 0)) (of_nat (length P)) = Some (b, length P)"
    using uP assms(16) by (simp add: ptr_add_def)
  moreover have "of_nat (phdr_fsz ?ec) * e_nphdr elf > 0" using u w n0 by (simp add: word_less_nat_alt)
  moreover have "e_nphdr elf > 0" using n0 by (simp add: word_less_nat_alt)
  moreover have "of_nat (length P) + of_nat (phdr_fsz ?ec) * e_nphdr elf
      = (of_nat (length P + unat (e_nphdr elf) * phdr_fsz ?ec) :: u64)"
    by (simp add: mult.commute)
  ultimately show ?thesis
    using h(1,3) header_ready_ehdr [OF assms(1)] table_fsizes(2,4) [OF h(2)] header_msizes(2) [OF h(2)] assms(11-13) P0 al fa(1)
    by (simp add: libelf_write_phdr_def phdrs_image_def Let_def mult.commute)
qed

definition shdrs_image :: "int \<Rightarrow> bool \<Rightarrow> store \<Rightarrow> scn_ref list \<Rightarrow> byte list" where
  "shdrs_image ec sw st ss = concat (map (\<lambda>s. shdr_image ec sw (host_order st) (s_shdr (scn_at st s))) ss)"

lemma shdrs_image_append [simp]: "shdrs_image ec sw (append_image b P X T st) ss = shdrs_image ec sw st ss"
  by (simp add: shdrs_image_def scn_at_def)

text \<open>The sections of a list are numbered from \<open>k\<close> on.\<close>

definition numbered_from :: "nat \<Rightarrow> int \<Rightarrow> store \<Rightarrow> scn_ref list \<Rightarrow> bool" where
  "numbered_from k ec st ss \<longleftrightarrow> (\<forall>i<length ss. scns st (ss ! i) \<noteq> None \<and> s_ndx (scn_at st (ss ! i)) = of_nat (k + i)
     \<and> shdr_class (s_shdr (scn_at st (ss ! i))) = ec)"

lemma numbered_from_Cons:
  "numbered_from k ec st (s # ss) \<longleftrightarrow> scns st s \<noteq> None \<and> s_ndx (scn_at st s) = of_nat k
     \<and> shdr_class (s_shdr (scn_at st s)) = ec \<and> numbered_from (Suc k) ec st ss"
  by (simp only: numbered_from_def length_Cons All_less_Suc2 nth_Cons_0 nth_Cons_Suc add_0_right add_Suc_right add_Suc
      conj_assoc)

lemma length_shdrs_image:
  assumes "std_class ec" "numbered_from k ec st ss"
  shows "length (shdrs_image ec sw st ss) = length ss * shdr_fsz ec"
  using assms(2)
  by (induction ss arbitrary: k)
    (auto simp: shdrs_image_def numbered_from_Cons length_images(2) [OF assms(1)])

lemma write_shdrs_image:
  assumes "std_class ec" "e_class elf = ec" "e_version elf = EV_CURRENT"
    and "e_byteorder elf = ELFDATA2LSB \<or> e_byteorder elf = ELFDATA2MSB"
    and "numbered_from k ec st ss" "length P = start + k * shdr_fsz ec"
    and "mem st b = Some (P @ T)" "image_room b (length (P @ T)) st" "length ss * shdr_fsz ec \<le> length T"
      "length (P @ T) < 2 ^ 62"
  shows "write_shdrs elf (of_nat (shdr_fsz ec)) (of_nat (shdr_fsz ec)) (Some (b, 0)) (of_nat start) ss st
    = Some (True, append_image b P (shdrs_image ec (swaps elf st) st ss) T st)"
  using assms(5-10)
proof (induction ss arbitrary: k P T st)
  case Nil
  then show ?case by (simp add: shdrs_image_def append_image_Nil)
next
  case (Cons s ss)
  let ?sh = "s_shdr (scn_at st s)" and ?w = "shdr_fsz ec"
  let ?X = "shdr_image ec (swaps elf st) (host_order st) ?sh"
  let ?st = "append_image b P ?X T st"
  note n = Cons.prems(1) [unfolded numbered_from_Cons]
  obtain scn where scn: "scns st s = Some scn" "scn_at st s = scn" using n by (auto simp: scn_at_def)
  have w: "?w \<le> 64" "unat (of_nat ?w :: u64) = ?w" by (simp_all add: shdr_fsz_def)
  have sh: "scn_shdr ec scn = Some ?sh"
    using n scn assms(1) by (auto simp: scn_shdr_def shdr_class_def std_class_def split: Shdr.split)
  have X: "length ?X = ?w" using n by (simp add: length_images(2) [OF assms(1)])
  have P: "length P < 2 ^ 62" using Cons.prems(6) by simp
  have "(of_nat start + s_ndx scn * of_nat ?w :: u64) = of_nat (length P)" using n scn Cons.prems(2) by simp
  moreover have "unat (of_nat (length P) :: u64) = length P" using P by (simp add: unat_of_nat_u64)
  ultimately have p: "ptr_add (Some (b, 0)) (of_nat start + s_ndx scn * of_nat ?w) = Some (b, length P)"
    using P by (simp add: ptr_add_def)
  have "xlate_objects ELF_T_SHDR ec EV_CURRENT (e_byteorder elf) [shdr_vals (host_order st) ?sh]
      (of_nat ?w) (Some (b, length P)) (of_nat ?w) st
    = Some (True, append_image b P (concat (map (file_bytes (swaps elf st) (shdr_layout ec)) [shdr_vals (host_order st) ?sh])) T st)"
    by (rule xlate_headers_image [OF header_layouts(2) assms(1)])
      (use assms(4) Cons.prems(3-5) header_sizes [OF assms(1)] w vals_ok(2) [OF assms(1)] n in simp_all)
  then have step: "write_shdrs elf (of_nat ?w) (of_nat ?w) (Some (b, 0)) (of_nat start) (s # ss) st
      = write_shdrs elf (of_nat ?w) (of_nat ?w) (Some (b, 0)) (of_nat start) ss ?st"
    using scn sh p assms(2,3) by (simp add: shdr_image_def)
  have T: "?w \<le> length T" "length ss * ?w \<le> length (drop (length ?X) T)" using Cons.prems(5) X by simp_all
  have "numbered_from (Suc k) ec ?st ss" using n by (simp add: numbered_from_def scn_at_def)
  moreover have "length (P @ ?X) = start + Suc k * ?w" using X Cons.prems(2) by simp
  moreover have "mem ?st b = Some ((P @ ?X) @ drop (length ?X) T)" by simp
  moreover have "length ((P @ ?X) @ drop (length ?X) T) = length (P @ T)" using T X by simp
  ultimately have "write_shdrs elf (of_nat ?w) (of_nat ?w) (Some (b, 0)) (of_nat start) ss ?st
      = Some (True, append_image b (P @ ?X) (shdrs_image ec (swaps elf st) ?st ss) (drop (length ?X) T) ?st)"
    using Cons.IH [of "Suc k" ?st "P @ ?X" "drop (length ?X) T"] Cons.prems(4,6) T(2) by simp
  then show ?case
    unfolding step by (simp only: append_image_append shdrs_image_append) (simp add: shdrs_image_def)
qed

lemma write_shdr_image:
  assumes "header_ready e elf eh st" "numbered_from 0 (e_class elf) st (e_scn elf)"
      "unat (e_nscn elf) = length (e_scn elf)" "e_nscn elf \<noteq> 0"
    and "e_byteorder elf = ELFDATA2LSB \<or> e_byteorder elf = ELFDATA2MSB"
    and "mem st b = Some (P @ T)" "image_room b (length (P @ T)) st"
      "length (e_scn elf) * shdr_fsz (e_class elf) \<le> length T"
    and "ex_type ex = ELF_EXTENT_SHDR" "ex_start ex = of_nat (length P)" "ehdr_shoff eh = of_nat (length P)"
      "word_align (e_class elf) dvd length P" "length (P @ T) < 2 ^ 62"
  shows "libelf_write_shdr e (Some (b, 0)) ex st
    = Some (of_nat (length P + length (e_scn elf) * shdr_fsz (e_class elf)),
        append_image b P (shdrs_image (e_class elf) (swaps elf st) st (e_scn elf)) T st)"
proof -
  let ?ec = "e_class elf"
  have h: "elfs st e = Some elf" "std_class ?ec" "e_version elf = EV_CURRENT"
    using assms(1) by (simp_all add: header_ready_def)
  note fa = falign_word [OF h(2)]
  have uP: "unat (of_nat (length P) :: u64) = length P" using assms(13) by (simp add: unat_of_nat_u64)
  have al: "(of_nat (length P) :: u64) mod of_nat (word_align ?ec) = 0"
    using assms(12) uP fa(2) by (simp add: word_unat_eq_iff unat_mod)
  have n: "e_nscn elf > 0" "e_nscn elf = of_nat (length (e_scn elf))"
    using assms(3,4) by (simp_all add: word_less_nat_alt unat_gt_0 flip: assms(3))
  have "write_shdrs elf (of_nat (shdr_fsz ?ec)) (of_nat (shdr_fsz ?ec)) (Some (b, 0)) (of_nat (length P)) (e_scn elf) st
      = Some (True, append_image b P (shdrs_image ?ec (swaps elf st) st (e_scn elf)) T st)"
    by (rule write_shdrs_image [OF h(2) refl h(3) assms(5,2) _ assms(6,7,8,13)]) simp
  then show ?thesis
    using h(1,3) header_ready_ehdr [OF assms(1)] table_fsizes(3,5) [OF h(2)] header_msizes(3) [OF h(2)] assms(9-11) n al fa(1)
    by (simp add: libelf_write_shdr_def Let_def)
qed

section \<open>The data of a section\<close>

text \<open>
  Consecutive pieces, each with its alignment, from the offset \<open>x\<close> in the section on.
\<close>

fun data_image :: "byte \<Rightarrow> (nat \<times> byte list) list \<Rightarrow> nat \<Rightarrow> byte list" where
  "data_image fill [] x = []"
| "data_image fill ((a, bs) # ps) x =
     replicate (align_to a x - x) fill @ bs @ data_image fill ps (align_to a x + length bs)"

text \<open>The data of a descriptor as they are in a file, and what is asked of it for them to be written.\<close>

definition encoded :: "int \<Rightarrow> bool \<Rightarrow> store \<Rightarrow> data_ref \<Rightarrow> byte list" where
  "encoded ec sw st r =
     (let d = data_at st r
      in case d_buf d of None \<Rightarrow> []
         | Some (sb, so) \<Rightarrow>
             encode (d_type d) ec sw (unat (d_size d) div msize_table (d_type d) ec) so (the (mem st sb)))"

definition data_writable :: "int \<Rightarrow> nat \<Rightarrow> nat \<Rightarrow> store \<Rightarrow> data_ref \<Rightarrow> bool" where
  "data_writable ec b N st r \<longleftrightarrow>
     (let d = data_at st r
      in datas st r \<noteq> None \<and> data_ready ec d \<and> fixed_size (d_type d) ec
         \<and> (\<exists>sb so S. d_buf d = Some (sb, so) \<and> mem st sb = Some S \<and> sb \<noteq> b \<and> so + unat (d_size d) \<le> length S
              \<and> blocks_apart st b N sb (length S) \<and> addr (d_buf d) st mod ucast (libelf_malign (d_type d) ec) = 0))"

lemma data_writableE:
  assumes "data_writable ec b N st r"
  obtains sb so S where "d_buf (data_at st r) = Some (sb, so)" "mem st sb = Some S" "sb \<noteq> b"
    "so + unat (d_size (data_at st r)) \<le> length S" "blocks_apart st b N sb (length S)"
    "addr (d_buf (data_at st r)) st mod ucast (libelf_malign (d_type (data_at st r)) ec) = 0"
    "datas st r \<noteq> None" "data_ready ec (data_at st r)" "fixed_size (d_type (data_at st r)) ec"
  using assms unfolding data_writable_def Let_def by (elim conjE exE) (rule that)

lemma data_writable_append:
  assumes "data_writable ec b N st r"
  shows "data_writable ec b N (append_image b P X T st) r" "encoded ec sw (append_image b P X T st) r = encoded ec sw st r"
proof -
  have at: "data_at (append_image b P X T st) r = data_at st r" by (simp add: data_at_def)
  obtain sb so S where s: "d_buf (data_at st r) = Some (sb, so)" "mem st sb = Some S" "sb \<noteq> b"
    "so + unat (d_size (data_at st r)) \<le> length S" "blocks_apart st b N sb (length S)"
    "addr (d_buf (data_at st r)) st mod ucast (libelf_malign (d_type (data_at st r)) ec) = 0"
    using assms by (rule data_writableE)
  show "encoded ec sw (append_image b P X T st) r = encoded ec sw st r"
    using s(1,3) unfolding encoded_def at by (simp add: Let_def)
  have "blocks_apart (append_image b P X T st) b N sb (length S)" using s(5) by (simp add: blocks_apart_def)
  moreover have "addr p (append_image b P X T st) = addr p st" for p
    by (simp add: addr_def split: option.split)
  ultimately show "data_writable ec b N (append_image b P X T st) r"
    using assms s unfolding data_writable_def at Let_def by auto
qed

lemma length_encoded:
  assumes "data_writable ec b N st r" "std_class ec"
  shows "length (encoded ec sw st r) = snd (piece ec (data_at st r))"
proof -
  let ?d = "data_at st r"
  obtain sb so S where s: "d_buf ?d = Some (sb, so)" "mem st sb = Some S" "so + unat (d_size ?d) \<le> length S"
    and f: "fixed_size (d_type ?d) ec"
    using assms(1) by (rule data_writableE)
  have "unat (d_size ?d) div msize_table (d_type ?d) ec * msize_table (d_type ?d) ec \<le> unat (d_size ?d)" by simp
  then have "so + unat (d_size ?d) div msize_table (d_type ?d) ec * msize_table (d_type ?d) ec \<le> length S" using s(3) by linarith
  from length_encode [OF f assms(2) this] show ?thesis using s by (simp add: encoded_def piece_def Let_def)
qed

definition data_pieces :: "int \<Rightarrow> bool \<Rightarrow> store \<Rightarrow> data_ref list \<Rightarrow> (nat \<times> byte list) list" where
  "data_pieces ec sw st rs = map (\<lambda>r. (unat (d_align (data_at st r)), encoded ec sw st r)) rs"

lemma data_pieces_sizes:
  assumes "\<forall>r\<in>set rs. data_writable ec b N st r" "std_class ec"
  shows "map (map_prod id length) (data_pieces ec sw st rs) = pieces ec rs st"
  using assms length_encoded [OF _ assms(2)]
  by (auto simp: data_pieces_def pieces_def piece_def)

lemma data_pieces_append:
  assumes "\<forall>r\<in>set rs. data_writable ec b N st r"
  shows "data_pieces ec sw (append_image b P X T st) rs = data_pieces ec sw st rs"
  using assms data_writable_append(2) by (auto simp: data_pieces_def data_at_def)

lemma length_data_image:
  "list_all (\<lambda>p. 0 < fst p) ps \<Longrightarrow> x + length (data_image fill ps x) = place_end (map (map_prod id length) ps) x"
proof (induction fill ps x rule: data_image.induct)
  case (2 fill a bs ps x)
  then have "x \<le> align_to a x" by (intro align_to_bounds(1)) simp
  then show ?case using 2 by simp
qed simp

lemma write_data_image:
  assumes elf: "std_class ec" "e_class elf = ec" "e_version elf = EV_CURRENT"
      "e_byteorder elf = ELFDATA2LSB \<or> e_byteorder elf = ELFDATA2MSB"
    and "\<forall>r\<in>set rs. data_writable ec b N st r"
      "\<forall>i<length rs. unat (d_off (data_at st (rs ! i))) = place_offsets (pieces ec rs st) x ! i"
      "length P = off + x" "mem st b = Some (P @ T)" "length (P @ T) = N" "N < 2 ^ 62"
      "off + place_end (pieces ec rs st) x \<le> N"
  shows "write_data elf (of_nat off) (Some (b, 0)) rs (of_nat (off + x)) st
    = Some (of_nat (off + place_end (pieces ec rs st) x),
        append_image b P (data_image (fill_byte st) (data_pieces ec (swaps elf st) st rs) x) T st)"
  using assms(5-11)
proof (induction rs arbitrary: x P T st)
  case Nil
  then show ?case by (simp add: pieces_def data_pieces_def append_image_Nil)
next
  case (Cons r rs)
  let ?d = "data_at st r" and ?sw = "swaps elf st"
  have w: "data_writable ec b N st r" using Cons.prems(1) by simp
  obtain sb so S where s: "d_buf ?d = Some (sb, so)" "mem st sb = Some S" "sb \<noteq> b" "so + unat (d_size ?d) \<le> length S"
    "blocks_apart st b N sb (length S)" "addr (d_buf ?d) st mod ucast (libelf_malign (d_type ?d) ec) = 0"
    and f: "datas st r \<noteq> None" "data_ready ec ?d" "fixed_size (d_type ?d) ec"
    using w by (rule data_writableE)
  obtain ld where ld: "datas st r = Some ld" "d_data ld = ?d" using f(1) by (auto simp: data_at_def)
  have d: "0 \<le> d_type ?d" "d_type ?d < ELF_T_NUM" "d_version ?d = EV_CURRENT" "\<not> bad_align (d_align ?d)"
    "msize_table (d_type ?d) ec \<noteq> 0" "fsize_table (d_type ?d) ec \<noteq> 0"
    "unat (d_size ?d) mod msize_table (d_type ?d) ec = 0"
    using f(2) by (auto simp: data_ready_def)
  note small = table_sizes_small [OF d(1,2) elf(1)]
  define m where "m = msize_table (d_type ?d) ec"
  define fz where "fz = fsize_table (d_type ?d) ec"
  define n where "n = unat (d_size ?d) div m"
  define a where "a = unat (d_align ?d)"
  define y where "y = align_to a x"
  have mu: "unat (of_nat m :: u64) = m" "unat (of_nat fz :: u64) = fz" "(of_nat m :: u64) \<noteq> 0"
    "(of_nat fz :: u64) \<noteq> 0"
  proof -
    show u: "unat (of_nat m :: u64) = m" "unat (of_nat fz :: u64) = fz"
      using small by (simp_all add: m_def fz_def unat_of_nat_u64)
    show "(of_nat m :: u64) \<noteq> 0" "(of_nat fz :: u64) \<noteq> 0" using u d(5,6) unfolding m_def fz_def by (metis unat_0)+
  qed
  have a0: "0 < a" using d(4) by (simp add: a_def bad_align_def unat_gt_0)
  note up = align_to_bounds [OF a0, of x, folded y_def]
  have pc: "pieces ec (r # rs) st = (a, fz * n) # pieces ec rs st" by (simp add: pieces_def piece_def a_def fz_def n_def m_def)
  have pos: "list_all (\<lambda>p. 0 < fst p) (pieces ec rs st)"
    using Cons.prems(1) by (auto simp: pieces_def piece_def list_all_iff data_writable_def data_ready_def bad_align_def
        Let_def unat_gt_0)
  have pe: "place_end (pieces ec (r # rs) st) x = place_end (pieces ec rs st) (y + fz * n)"
    by (simp add: pc y_def)
  have bound: "off + y + fz * n \<le> N" using place_end_ge [OF pos, of "y + fz * n"] Cons.prems(7) pe by linarith
  define X where "X = replicate (y - x) (fill_byte st)"
  define Y where "Y = encoded ec ?sw st r"
  have Y: "length Y = fz * n" using length_encoded [OF w elf(1)] by (simp add: Y_def piece_def fz_def n_def m_def)
  have T: "length T = N - (off + x)" using Cons.prems(3,5) by simp
  have X: "length X = y - x" "length X \<le> length T" using up(1) bound T by (simp_all add: X_def)
  have Pu: "off + x + (y - x) = off + y" using up(1) by simp
  have doff: "d_off ?d = of_nat y" using Cons.prems(2) [THEN spec, of 0] pc by (intro of_nat_of_unat) (simp add: y_def)
  have gap: "fill_gap (Some (b, 0)) (of_nat (off + x)) (of_nat off + d_off ?d) st = Some (append_image b P X T st)"
    using fill_gap_image [OF Cons.prems(4), of "y - x"] X Cons.prems(3,5,6) Pu doff
    by (simp add: X_def flip: of_nat_add)
  let ?st1 = "append_image b P X T st"
  have w1: "data_writable ec b N ?st1 r" by (rule data_writable_append(1) [OF w])
  have oy: "unat (of_nat off + d_off ?d) = off + y" "off + y < 2 ^ 62"
    using bound Cons.prems(6) doff by (simp_all add: unat_of_nat_u64 flip: of_nat_add)
  have mod: "d_size ?d mod of_nat m = 0" using d(7) mu by (simp add: word_unat_eq_iff unat_mod m_def)
  have fsz: "unat (of_nat fz * (d_size ?d div of_nat m)) = fz * n"
    using bound Cons.prems(6) mu by (subst unat_mult_lem [THEN iffD1]) (simp_all add: unat_div n_def)
  have nm: "unat (d_size ?d) = n * m" using d(7) div_mult_mod_eq [of "unat (d_size ?d)" m]
    unfolding n_def m_def by linarith
  have "\<exists>dst'. libelf_xlate_buf (zero_data\<lparr>d_buf := Some (b, length (P @ X)),
        d_size := of_nat fz * (d_size ?d div of_nat m), d_version := EV_CURRENT\<rparr>) ?d (e_byteorder elf) ec ELF_TOFILE ?st1
    = Some ((True, dst'), append_image b (P @ X)
        (encode (d_type ?d) ec (e_byteorder elf \<noteq> libelf_byteorder (globals ?st1)) n so S) (drop (length X) T) ?st1)"
    by (rule xlate_image [OF f(3) d(3) s(1) _ s(4,3)])
      (use s nm fsz elf(1,4) bound T X Cons.prems(3,5) up(1) in
        \<open>simp_all add: m_def fz_def blocks_apart_def mult.commute addr_def\<close>)
  moreover have "Y = encode (d_type ?d) ec ?sw n so S" using s by (simp add: Y_def encoded_def n_def m_def Let_def)
  ultimately obtain dst' where xl: "libelf_xlate_buf (zero_data\<lparr>d_buf := Some (b, length P + length X),
        d_size := of_nat fz * (d_size ?d div of_nat m), d_version := EV_CURRENT\<rparr>) ?d (e_byteorder elf) ec ELF_TOFILE ?st1
    = Some ((True, dst'), append_image b (P @ X) Y (drop (length X) T) ?st1)" by auto
  let ?st2 = "append_image b P (X @ Y) T st"
  have xl: "libelf_xlate_buf (zero_data\<lparr>d_buf := Some (b, off + y),
        d_size := of_nat fz * (d_size ?d div of_nat m), d_version := EV_CURRENT\<rparr>) ?d (e_byteorder elf) ec ELF_TOFILE ?st1
    = Some ((True, dst'), ?st2)"
    using xl unfolding append_image_append by (simp only: X(1) Cons.prems(3) Pu)
  have fs: "libelf_fsize (d_type ?d) ec EV_CURRENT k ?st1 = (of_nat fz * k, ?st1)" for k
    using d(1,2) mu(4) by (simp add: libelf_fsize_def fz_def Let_def)
  have ms: "libelf_msize (d_type ?d) ec EV_CURRENT st = Some (of_nat m, st)"
    using d(1,2) elf(1) by (auto simp: libelf_msize_def m_def std_class_def)
  have add: "off_add (of_nat off + d_off ?d) (of_nat fz * (d_size ?d div of_nat m)) = Some (of_nat (off + (y + fz * n)))"
  proof -
    have small: "unat (of_nat off + d_off ?d) + unat (of_nat fz * (d_size ?d div of_nat m)) < 2 ^ 63"
      unfolding oy(1) fsz using bound Cons.prems(6) by simp
    note a = off_add_small [OF small]
    have "unat (of_nat off + d_off ?d + of_nat fz * (d_size ?d div of_nat m)) = off + (y + fz * n)"
      unfolding a(2) oy(1) fsz by simp
    then show ?thesis unfolding a(1) by (intro arg_cong [of _ _ Some] of_nat_of_unat)
  qed
  have ptr: "ptr_add (Some (b, 0)) (of_nat off + d_off ?d) = Some (b, off + y)" using oy by (simp add: ptr_add_def)
  have step: "write_data elf (of_nat off) (Some (b, 0)) (r # rs) (of_nat (off + x)) st
      = write_data elf (of_nat off) (Some (b, 0)) rs (of_nat (off + (y + fz * n))) ?st2"
    using ld d(3) s(1) elf(2,3) ms gap fs xl add ptr mod mu(3)
    by (simp add: Let_def del: of_nat_add)
  have rs: "\<forall>r\<in>set rs. data_writable ec b N st r" using Cons.prems(1) by simp
  have keep: "data_at ?st2 = data_at st" "pieces ec rs ?st2 = pieces ec rs st" by (simp_all add: data_at_def pieces_def fun_eq_iff)
  have "write_data elf (of_nat off) (Some (b, 0)) rs (of_nat (off + (y + fz * n))) ?st2
    = Some (of_nat (off + place_end (pieces ec rs ?st2) (y + fz * n)),
        append_image b (P @ X @ Y) (data_image (fill_byte ?st2) (data_pieces ec (swaps elf ?st2) ?st2 rs) (y + fz * n))
          (drop (length (X @ Y)) T) ?st2)"
  proof (rule Cons.IH)
    show "\<forall>r\<in>set rs. data_writable ec b N ?st2 r" using rs data_writable_append(1) by blast
    show "\<forall>i<length rs. unat (d_off (data_at ?st2 (rs ! i))) = place_offsets (pieces ec rs ?st2) (y + fz * n) ! i"
      using Cons.prems(2) unfolding keep pc by (auto simp: y_def)
    show "length (P @ X @ Y) = off + (y + fz * n)" using Cons.prems(3) X(1) Y up(1) by simp
    show "mem ?st2 b = Some ((P @ X @ Y) @ drop (length (X @ Y)) T)" by simp
    show "length ((P @ X @ Y) @ drop (length (X @ Y)) T) = N" using Cons.prems(5) X Y T bound up(1) by simp
    show "off + place_end (pieces ec rs ?st2) (y + fz * n) \<le> N" using Cons.prems(7) pe keep by simp
  qed (rule Cons.prems(6))
  also have "\<dots> = Some (of_nat (off + place_end (pieces ec (r # rs) st) x),
      append_image b P ((X @ Y) @ data_image (fill_byte st) (data_pieces ec ?sw st rs) (y + fz * n)) T st)"
    using append_image_append [of b P "X @ Y" _ T st] by (simp add: keep pe data_pieces_append [OF rs])
  also have "(X @ Y) @ data_image (fill_byte st) (data_pieces ec ?sw st rs) (y + fz * n)
      = data_image (fill_byte st) (data_pieces ec ?sw st (r # rs)) x"
    by (simp add: data_pieces_def X_def Y y_def a_def flip: Y_def)
  finally show ?case unfolding step .
qed

lemma xlate_shtype_range:
  "libelf_xlate_shtype ty \<in> {ELF_T_DYN, ELF_T_SYM, ELF_T_ADDR, ELF_T_GNUHASH, ELF_T_WORD, ELF_T_BYTE, ELF_T_NOTE,
     ELF_T_REL, ELF_T_RELA, ELF_T_MOVE, ELF_T_SYMINFO, ELF_T_VDEF, ELF_T_VNEED, ELF_T_HALF, -1}"
proof -
  have if_in: "a \<in> S \<Longrightarrow> b \<in> S \<Longrightarrow> (if c then a else b) \<in> S" for a b :: int and c S by simp
  show ?thesis unfolding libelf_xlate_shtype_def by (intro if_in) blast+
qed

lemma falign_of_shtype:
  assumes "0 \<le> libelf_xlate_shtype ty" "std_class ec"
  shows "(ucast (libelf_falign (libelf_xlate_shtype ty) ec) :: u64) \<noteq> 0"
proof -
  have "(ucast (libelf_falign t ec) :: u64) \<noteq> 0"
    if "t \<in> {ELF_T_DYN, ELF_T_SYM, ELF_T_ADDR, ELF_T_GNUHASH, ELF_T_WORD, ELF_T_BYTE, ELF_T_NOTE,
     ELF_T_REL, ELF_T_RELA, ELF_T_MOVE, ELF_T_SYMINFO, ELF_T_VDEF, ELF_T_VNEED, ELF_T_HALF}" for t
    using that assms(2) by (elim insertE emptyE; simp add: libelf_falign_def falign_table_def std_class_def)
  then show ?thesis using xlate_shtype_range [of ty] assms(1) by auto
qed

lemma write_scn_image:
  assumes elf: "elfs st e = Some elf" "std_class (e_class elf)" "e_version elf = EV_CURRENT"
      "e_byteorder elf = ELFDATA2LSB \<or> e_byteorder elf = ELFDATA2MSB"
    and scn: "scns st s = Some scn" "shdr_class (s_shdr scn) = e_class elf" "shdr_type (s_shdr scn) \<noteq> SHT_NULL"
      "shdr_type (s_shdr scn) \<noteq> SHT_NOBITS" "0 \<le> libelf_xlate_shtype (shdr_type (s_shdr scn))"
      "shdr_size (s_shdr scn) \<noteq> 0" "s_data scn \<noteq> []" "s_offset scn = of_nat (length P)"
      "unat (ucast (libelf_falign (libelf_xlate_shtype (shdr_type (s_shdr scn))) (e_class elf)) :: u64) dvd length P"
    and data: "\<forall>r\<in>set (s_data scn). data_writable (e_class elf) b N st r"
      "\<forall>i<length (s_data scn). unat (d_off (data_at st (s_data scn ! i))) = place_offsets (pieces (e_class elf) (s_data scn) st) 0 ! i"
    and img: "mem st b = Some (P @ T)" "length (P @ T) = N" "N < 2 ^ 62"
      "length P + place_end (pieces (e_class elf) (s_data scn) st) 0 \<le> N"
    and ex: "ex_type ex = ELF_EXTENT_SECTION" "ex_desc ex = Some s" "ex_start ex = of_nat (length P)"
  shows "libelf_write_scn e (Some (b, 0)) ex st
    = Some (of_nat (length P + place_end (pieces (e_class elf) (s_data scn) st) 0),
        append_image b P (data_image (fill_byte st) (data_pieces (e_class elf) (swaps elf st) st (s_data scn)) 0) T st)"
proof -
  let ?ec = "e_class elf" and ?t = "libelf_xlate_shtype (shdr_type (s_shdr scn))"
  let ?f = "ucast (libelf_falign ?t ?ec) :: u64"
  have sh: "scn_shdr ?ec scn = Some (s_shdr scn)"
    using scn(2) elf(2) by (auto simp: scn_shdr_def shdr_class_def std_class_def split: Shdr.split)
  have t: "?t < ELF_T_NUM" by (simp add: libelf_xlate_shtype_def)
  have f0: "?f \<noteq> 0" by (rule falign_of_shtype [OF scn(5) elf(2)])
  have "unat (of_nat (length P) :: u64) = length P" using img(2,3) by (simp add: unat_of_nat_u64)
  then have al: "(of_nat (length P) :: u64) mod ?f = 0" using scn(9) by (simp add: word_unat_eq_iff unat_mod)
  have "libelf_write_scn e (Some (b, 0)) ex st = write_data elf (of_nat (length P)) (Some (b, 0)) (s_data scn) (of_nat (length P + 0)) st"
    using elf(1) scn sh t f0 al ex by (simp add: libelf_write_scn_def Let_def)
  also have "\<dots> = Some (of_nat (length P + place_end (pieces ?ec (s_data scn) st) 0),
        append_image b P (data_image (fill_byte st) (data_pieces ?ec (swaps elf st) st (s_data scn)) 0) T st)"
    by (rule write_data_image [OF elf(2) refl elf(3,4) data _ img]) simp
  finally show ?thesis .
qed
end
