(* ===== verification/Elf_Written.thy ===== *)
theory Elf_Written
  imports Elf_Image
begin

text \<open>
  The file that \<open>elf_update\<close> writes for an object whose layout the library chooses, as one list
  of bytes: the ELF header, the program headers, the sections and the section headers, each
  behind the padding that its alignment asks for.
\<close>

section \<open>Extents and the bytes they stand for\<close>

text \<open>
  The extent \<open>ex\<close> stands for the bytes \<open>bs\<close>: at its place in the block \<open>b\<close> of \<open>N\<close> bytes,
  \<open>write_extent\<close> appends them to what is there.  The store differs from \<open>st\<close> in that block only.
\<close>

abbreviation image_store :: "nat \<Rightarrow> byte list \<Rightarrow> store \<Rightarrow> store" where
  "image_store b D st \<equiv> st\<lparr>mem := (mem st)(b \<mapsto> D)\<rparr>"

lemma append_image_store: "append_image b P X T (image_store b D st) = image_store b (P @ X @ drop (length X) T) st"
  by (simp add: append_image_def)

definition stands_for :: "elf_ref \<Rightarrow> nat \<Rightarrow> nat \<Rightarrow> store \<Rightarrow> Elf_Extent \<Rightarrow> byte list \<Rightarrow> bool" where
  "stands_for e b N st ex bs \<longleftrightarrow>
     (\<forall>P T. length (P @ T) = N \<longrightarrow> ex_start ex = of_nat (length P) \<longrightarrow> length bs \<le> length T
        \<longrightarrow> write_extent e (Some (b, 0)) ex (image_store b (P @ T) st)
          = Some (of_nat (length P + length bs), image_store b (P @ bs @ drop (length bs) T) st))"

lemma stands_forD:
  assumes "stands_for e b N st ex bs" "length (P @ T) = N" "ex_start ex = of_nat (length P)" "length bs \<le> length T"
  shows "write_extent e (Some (b, 0)) ex (image_store b (P @ T) st)
    = Some (of_nat (length P + length bs), image_store b (P @ bs @ drop (length bs) T) st)"
  using assms unfolding stands_for_def by blast

text \<open>The extents are those of the pieces, from the offset \<open>x\<close> on.\<close>

fun placed_extents :: "Elf_Extent list \<Rightarrow> (nat \<times> byte list) list \<Rightarrow> nat \<Rightarrow> bool" where
  "placed_extents [] [] x \<longleftrightarrow> True"
| "placed_extents (ex # exs) ((a, bs) # ps) x \<longleftrightarrow>
     0 < a \<and> bs \<noteq> [] \<and> ex_start ex = of_nat (align_to a x) \<and> ex_size ex = of_nat (length bs)
     \<and> placed_extents exs ps (align_to a x + length bs)"
| "placed_extents _ _ x \<longleftrightarrow> False"

lemma placed_extents_append:
  assumes "placed_extents exs ps x" "placed_extents exs' ps' (place_end (map (map_prod id length) ps) x)"
  shows "placed_extents (exs @ exs') (ps @ ps') x"
  using assms by (induction exs ps x rule: placed_extents.induct) simp_all

lemma data_image_append:
  "data_image fill (ps @ ps') x = data_image fill ps x @ data_image fill ps' (place_end (map (map_prod id length) ps) x)"
  by (induction fill ps x rule: data_image.induct) simp_all

lemma placed_extents_pos: "placed_extents exs ps x \<Longrightarrow> list_all (\<lambda>p. 0 < fst p) ps"
  by (induction exs ps x rule: placed_extents.induct) simp_all

lemma write_extents_image:
  assumes "placed_extents exs ps (length P)" "list_all2 (\<lambda>ex p. stands_for e b N st ex (snd p)) exs ps"
    and "length (P @ T) = N" "N < 2 ^ 62" "length (data_image (fill_byte st) ps (length P)) \<le> length T"
  shows "write_extents e (Some (b, 0)) exs (of_nat (length P)) (image_store b (P @ T) st)
    = Some (Some (of_nat (length P + length (data_image (fill_byte st) ps (length P)))),
        image_store b (P @ data_image (fill_byte st) ps (length P)
          @ drop (length (data_image (fill_byte st) ps (length P))) T) st)"
  using assms
proof (induction exs ps "length P" arbitrary: P T rule: placed_extents.induct)
  case 1
  then show ?case by simp
next
  case (2 ex exs a bs ps)
  define x where "x = length P"
  define y where "y = align_to a x"
  let ?f = "fill_byte st" and ?st = "image_store b (P @ T) st"
  define I where "I = data_image ?f ps (y + length bs)"
  define G where "G = replicate (y - x) ?f"
  have a: "0 < a" "bs \<noteq> []" "ex_start ex = of_nat y" "ex_size ex = of_nat (length bs)"
    "placed_extents exs ps (y + length bs)" using "2.prems"(1) by (simp_all add: x_def y_def)
  have up: "x \<le> y" unfolding y_def by (rule align_to_bounds(1) [OF a(1)])
  have image: "data_image ?f ((a, bs) # ps) (length P) = G @ bs @ I" by (simp add: G_def I_def x_def y_def)
  have G: "length (P @ G) = y" "length G = y - x" using up by (simp_all add: G_def x_def)
  have len: "length G + (length bs + length I) \<le> length T" using "2.prems"(5) unfolding image by simp
  have N: "length P + length T = N" using "2.prems"(3) by simp
  have gap: "fill_gap (Some (b, 0)) (of_nat (length P)) (ex_start ex) ?st = Some (image_store b (P @ G @ drop (length G) T) st)"
  proof -
    have "fill_gap (Some (b, 0)) (of_nat (length P)) (of_nat (length P + (y - x))) ?st
        = Some (append_image b P (replicate (y - x) (fill_byte ?st)) T ?st)"
      by (rule fill_gap_image) (use len G(2) "2.prems"(3,4) in simp_all)
    moreover have "length P + (y - x) = y" using up by (simp add: x_def)
    ultimately show ?thesis by (simp only: a(3) append_image_store G_def) simp
  qed
  have w: "write_extent e (Some (b, 0)) ex (image_store b ((P @ G) @ drop (length G) T) st)
      = Some (of_nat (length (P @ G) + length bs),
          image_store b ((P @ G) @ bs @ drop (length bs) (drop (length G) T)) st)"
  proof (rule stands_forD)
    show "stands_for e b N st ex bs" using "2.prems"(2) by simp
    show "length ((P @ G) @ drop (length G) T) = N" using len N by simp
    show "ex_start ex = of_nat (length (P @ G))" unfolding G(1) by (rule a(3))
    show "length bs \<le> length (drop (length G) T)" using len by simp
  qed
  have sm: "y + length bs < 2 ^ 62" "length P < 2 ^ 62" using len up G(2) N "2.prems"(4) by (simp_all add: x_def)
  have u: "unat (of_nat (y + length bs) :: u64) = y + length bs" "unat (of_nat (length P) :: u64) = length P"
    using sm by (simp_all add: unat_of_nat_u64 del: of_nat_add)
  have s: "sint (of_nat (y + length bs) :: u64) = int (y + length bs)" "sint (of_nat (length P) :: u64) = int (length P)"
    using sint_small [of "of_nat (y + length bs) :: u64"] sint_small [of "of_nat (length P) :: u64"] sm
    unfolding u by simp_all
  have lt: "int (length P) < int (y + length bs)" using up a(2) by (cases bs) (simp_all add: x_def)
  have eq: "y + length bs = length (P @ G @ bs)" using G up by (simp add: x_def)
  let ?st2 = "image_store b ((P @ G @ bs) @ drop (length (G @ bs)) T) st"
  have "write_extent e (Some (b, 0)) ex (image_store b (P @ G @ drop (length G) T) st) = Some (of_nat (y + length bs), ?st2)"
    using w unfolding G(1) by (simp add: add.commute)
  moreover have "(of_nat y + of_nat (length bs) :: u64) = of_nat (y + length bs)" by simp
  ultimately have step: "write_extents e (Some (b, 0)) (ex # exs) (of_nat (length P)) ?st
      = write_extents e (Some (b, 0)) exs (of_nat (y + length bs)) ?st2"
    using gap s lt by (simp add: a(3,4) del: of_nat_add append_assoc)
  have "write_extents e (Some (b, 0)) exs (of_nat (length (P @ G @ bs))) ?st2
    = Some (Some (of_nat (length (P @ G @ bs) + length (data_image ?f ps (length (P @ G @ bs))))),
        image_store b ((P @ G @ bs) @ data_image ?f ps (length (P @ G @ bs))
          @ drop (length (data_image ?f ps (length (P @ G @ bs)))) (drop (length (G @ bs)) T)) st)"
  proof (rule "2.hyps")
    show "align_to a (length P) + length bs = length (P @ G @ bs)" using eq by (simp add: x_def y_def)
    show "placed_extents exs ps (length (P @ G @ bs))" using a(5) unfolding eq .
    show "list_all2 (\<lambda>ex p. stands_for e b N st ex (snd p)) exs ps" using "2.prems"(2) by simp
    show "length ((P @ G @ bs) @ drop (length (G @ bs)) T) = N" using len N by simp
    show "N < 2 ^ 62" by (rule "2.prems"(4))
    show "length (data_image ?f ps (length (P @ G @ bs))) \<le> length (drop (length (G @ bs)) T)"
      using len unfolding I_def eq by simp
  qed
  then show ?case unfolding step image unfolding eq I_def by (simp add: add.assoc add.commute add.left_commute)
qed simp_all

section \<open>The extents of headers and sections\<close>

lemma image_store_append: "image_store b D st = append_image b [] D [] st"
  by (simp add: append_image_def)

lemma image_store_ready [simp]:
  "header_ready e elf eh (image_store b D st) = header_ready e elf eh st"
  "image_room b N (image_store b D st) = image_room b N st"
  "numbered_from k ec (image_store b D st) ss = numbered_from k ec st ss"
  "shdrs_image ec sw (image_store b D st) ss = shdrs_image ec sw st ss"
  by (simp_all add: header_ready_def image_room_def blocks_apart_def numbered_from_def scn_at_def shdrs_image_def)

lemma stands_for_ehdr:
  assumes "header_ready e elf eh st" "length (ehdr_ident eh) = EI_NIDENT"
    and "e_byteorder elf = ELFDATA2LSB \<or> e_byteorder elf = ELFDATA2MSB"
    and "image_room b N st" "N < 2 ^ 62" "ex_type ex = ELF_EXTENT_EHDR" "ex_start ex = 0"
  shows "stands_for e b N st ex (ehdr_image (e_class elf) (swaps elf st) (host_order st) eh)"
  unfolding stands_for_def
proof (intro allI impI)
  fix P T :: "byte list"
  let ?X = "ehdr_image (e_class elf) (swaps elf st) (host_order st) eh"
  have h: "std_class (e_class elf)" "ehdr_class eh = e_class elf" using assms(1) by (simp_all add: header_ready_def)
  assume a: "length (P @ T) = N" "ex_start ex = of_nat (length P)" "length ?X \<le> length T"
  have "unat (of_nat (length P) :: u64) = length P" using a(1) assms(5) by (simp add: unat_of_nat_u64)
  then have P: "P = []" using a(2) assms(7) by simp
  have len: "length ?X = ehdr_fsz (e_class elf)" using length_images(1) [OF h(1,2) assms(2)] .
  have "libelf_write_ehdr e (Some (b, 0)) ex (image_store b T st) = Some (of_nat (ehdr_fsz (e_class elf)),
      append_image b [] (ehdr_image (e_class elf) (swaps elf (image_store b T st)) (host_order (image_store b T st)) eh) T
        (image_store b T st))"
    by (rule write_ehdr_image) (use assms a P len in simp_all)
  then show "write_extent e (Some (b, 0)) ex (image_store b (P @ T) st)
      = Some (of_nat (length P + length ?X), image_store b (P @ ?X @ drop (length ?X) T) st)"
    using len by (simp add: P write_extent_def assms(6) append_image_store)
qed

lemma stands_for_phdrs:
  assumes "header_ready e elf eh st" "e_phdr elf = Some ph" "phdrs_class ph = e_class elf"
    and "unat (e_nphdr elf) = length (phdrs_vals (host_order st) ph)" "e_nphdr elf \<noteq> 0" "e_nphdr elf < PN_XNUM"
    and "e_byteorder elf = ELFDATA2LSB \<or> e_byteorder elf = ELFDATA2MSB"
    and "image_room b N st" "N < 2 ^ 62"
    and "ex_type ex = ELF_EXTENT_PHDR" "ex_start ex = of_nat off" "ehdr_phoff eh = of_nat off"
      "word_align (e_class elf) dvd off" "0 < off" "off < 2 ^ 62"
  shows "stands_for e b N st ex (phdrs_image (e_class elf) (swaps elf st) (host_order st) ph)"
  unfolding stands_for_def
proof (intro allI impI)
  fix P T :: "byte list"
  let ?X = "phdrs_image (e_class elf) (swaps elf st) (host_order st) ph" and ?st = "image_store b (P @ T) st"
  have h: "std_class (e_class elf)" using assms(1) by (simp add: header_ready_def)
  assume a: "length (P @ T) = N" "ex_start ex = of_nat (length P)" "length ?X \<le> length T"
  have "unat (of_nat (length P) :: u64) = length P" "unat (of_nat off :: u64) = off"
    using a(1) assms(9,15) by (simp_all add: unat_of_nat_u64)
  then have P: "length P = off" using a(2) assms(11) by metis
  have len: "length ?X = unat (e_nphdr elf) * phdr_fsz (e_class elf)"
    using length_images(3) [OF h assms(3)] assms(4) by simp
  have "libelf_write_phdr e (Some (b, 0)) ex ?st = Some (of_nat (length P + unat (e_nphdr elf) * phdr_fsz (e_class elf)),
      append_image b P (phdrs_image (e_class elf) (swaps elf ?st) (host_order ?st) ph) T ?st)"
    by (rule write_phdr_image) (use assms a P len in simp_all)
  then show "write_extent e (Some (b, 0)) ex ?st
      = Some (of_nat (length P + length ?X), image_store b (P @ ?X @ drop (length ?X) T) st)"
    using len by (simp add: write_extent_def assms(10) append_image_store)
qed

lemma stands_for_shdrs:
  assumes "header_ready e elf eh st" "numbered_from 0 (e_class elf) st (e_scn elf)"
      "unat (e_nscn elf) = length (e_scn elf)" "e_nscn elf \<noteq> 0"
    and "e_byteorder elf = ELFDATA2LSB \<or> e_byteorder elf = ELFDATA2MSB"
    and "image_room b N st" "N < 2 ^ 62"
    and "ex_type ex = ELF_EXTENT_SHDR" "ex_start ex = of_nat off" "ehdr_shoff eh = of_nat off"
      "word_align (e_class elf) dvd off" "off < 2 ^ 62"
  shows "stands_for e b N st ex (shdrs_image (e_class elf) (swaps elf st) st (e_scn elf))"
  unfolding stands_for_def
proof (intro allI impI)
  fix P T :: "byte list"
  let ?X = "shdrs_image (e_class elf) (swaps elf st) st (e_scn elf)" and ?st = "image_store b (P @ T) st"
  have h: "std_class (e_class elf)" using assms(1) by (simp add: header_ready_def)
  assume a: "length (P @ T) = N" "ex_start ex = of_nat (length P)" "length ?X \<le> length T"
  have "unat (of_nat (length P) :: u64) = length P" "unat (of_nat off :: u64) = off"
    using a(1) assms(7,12) by (simp_all add: unat_of_nat_u64)
  then have P: "length P = off" using a(2) assms(9) by metis
  have len: "length ?X = length (e_scn elf) * shdr_fsz (e_class elf)"
    using length_shdrs_image [OF h assms(2)] .
  have "libelf_write_shdr e (Some (b, 0)) ex ?st = Some (of_nat (length P + length (e_scn elf) * shdr_fsz (e_class elf)),
      append_image b P (shdrs_image (e_class elf) (swaps elf ?st) ?st (e_scn elf)) T ?st)"
    by (rule write_shdr_image) (use assms a P len in simp_all)
  then show "write_extent e (Some (b, 0)) ex ?st
      = Some (of_nat (length P + length ?X), image_store b (P @ ?X @ drop (length ?X) T) st)"
    using len by (simp add: write_extent_def assms(8) append_image_store)
qed

text \<open>The bytes of a section: its data, each behind its padding.\<close>

definition section_image :: "int \<Rightarrow> bool \<Rightarrow> store \<Rightarrow> scn_ref \<Rightarrow> byte list" where
  "section_image ec sw st s = data_image (fill_byte st) (data_pieces ec sw st (s_data (scn_at st s))) 0"

lemma data_writable_store:
  assumes "data_writable ec b N st r"
  shows "data_writable ec b N (image_store b D st) r" "encoded ec sw (image_store b D st) r = encoded ec sw st r"
  unfolding image_store_append by (rule data_writable_append [OF assms])+

lemma length_section_image:
  assumes "\<forall>r\<in>set (s_data (scn_at st s)). data_writable ec b N st r" "std_class ec"
  shows "length (section_image ec sw st s) = place_end (pieces ec (s_data (scn_at st s)) st) 0"
proof -
  have "list_all (\<lambda>p. 0 < fst p) (data_pieces ec sw st (s_data (scn_at st s)))"
    using assms(1) by (auto simp: data_pieces_def list_all_iff data_writable_def data_ready_def bad_align_def Let_def unat_gt_0)
  from length_data_image [OF this, of 0 "fill_byte st"] data_pieces_sizes [OF assms] show ?thesis
    by (simp add: section_image_def)
qed

lemma stands_for_section:
  assumes elf: "elfs st e = Some elf" "std_class (e_class elf)" "e_version elf = EV_CURRENT"
      "e_byteorder elf = ELFDATA2LSB \<or> e_byteorder elf = ELFDATA2MSB"
    and scn: "scns st s = Some scn" "shdr_class (s_shdr scn) = e_class elf" "shdr_type (s_shdr scn) \<noteq> SHT_NULL"
      "shdr_type (s_shdr scn) \<noteq> SHT_NOBITS" "0 \<le> libelf_xlate_shtype (shdr_type (s_shdr scn))"
      "shdr_size (s_shdr scn) \<noteq> 0" "s_data scn \<noteq> []" "s_offset scn = of_nat off"
      "unat (ucast (libelf_falign (libelf_xlate_shtype (shdr_type (s_shdr scn))) (e_class elf)) :: u64) dvd off"
    and data: "\<forall>r\<in>set (s_data scn). data_writable (e_class elf) b N st r"
      "\<forall>i<length (s_data scn). unat (d_off (data_at st (s_data scn ! i))) = place_offsets (pieces (e_class elf) (s_data scn) st) 0 ! i"
    and "N < 2 ^ 62" "off < 2 ^ 62"
  shows "stands_for e b N st (section_extent st s) (section_image (e_class elf) (swaps elf st) st s)"
  unfolding stands_for_def
proof (intro allI impI)
  fix P T :: "byte list"
  let ?X = "section_image (e_class elf) (swaps elf st) st s" and ?st = "image_store b (P @ T) st"
  have at: "scn_at st s = scn" using scn(1) by (simp add: scn_at_def)
  have ex: "ex_type (section_extent st s) = ELF_EXTENT_SECTION" "ex_desc (section_extent st s) = Some s"
    "ex_start (section_extent st s) = of_nat off"
    using scn(8) by (simp_all add: section_extent_def at)
  assume a: "length (P @ T) = N" "ex_start (section_extent st s) = of_nat (length P)" "length ?X \<le> length T"
  have "unat (of_nat (length P) :: u64) = length P" "unat (of_nat off :: u64) = off"
    using a(1) assms(16,17) by (simp_all add: unat_of_nat_u64)
  then have P: "length P = off" using a(2) ex(3) by metis
  have pc: "pieces (e_class elf) (s_data scn) ?st = pieces (e_class elf) (s_data scn) st" "data_at ?st = data_at st"
    by (simp_all add: pieces_def data_at_def fun_eq_iff)
  have len: "length ?X = place_end (pieces (e_class elf) (s_data scn) st) 0"
    using length_section_image [of st s] data(1) elf(2) by (simp add: at)
  have enc: "data_pieces (e_class elf) (swaps elf ?st) ?st (s_data scn) = data_pieces (e_class elf) (swaps elf st) st (s_data scn)"
    using data(1) data_writable_store(2) pc(2) by (auto simp: data_pieces_def)
  have w: "libelf_write_scn e (Some (b, 0)) (section_extent st s) ?st
      = Some (of_nat (length P + place_end (pieces (e_class elf) (s_data scn) ?st) 0),
        append_image b P (data_image (fill_byte ?st) (data_pieces (e_class elf) (swaps elf ?st) ?st (s_data scn)) 0) T ?st)"
  proof (rule write_scn_image [where N = N])
    show "\<forall>r\<in>set (s_data scn). data_writable (e_class elf) b N ?st r"
      using data(1) data_writable_store(1) by blast
    show "\<forall>i<length (s_data scn). unat (d_off (data_at ?st (s_data scn ! i)))
        = place_offsets (pieces (e_class elf) (s_data scn) ?st) 0 ! i"
      unfolding pc by (rule data(2))
    show "length P + place_end (pieces (e_class elf) (s_data scn) ?st) 0 \<le> N" unfolding pc using a len by simp
    show "s_offset scn = of_nat (length P)" "ex_start (section_extent st s) = of_nat (length P)"
      unfolding P by (rule scn(8) ex(3))+
    show "unat (ucast (libelf_falign (libelf_xlate_shtype (shdr_type (s_shdr scn))) (e_class elf)) :: u64) dvd length P"
      unfolding P by (rule scn(9))
  qed (use elf scn(1-7) a(1) ex assms(16) in simp_all)
  then show "write_extent e (Some (b, 0)) (section_extent st s) ?st
      = Some (of_nat (length P + length ?X), image_store b (P @ ?X @ drop (length ?X) T) st)"
    unfolding write_extent_def ex(1) elf_extent.case w pc enc append_image_store
    by (simp add: section_image_def at flip: len)
qed

section \<open>The sections in their order\<close>

lemma of_nat_zero_u64:
  assumes "n < 2 ^ 64"
  shows "(of_nat n :: u64) = 0 \<longleftrightarrow> n = 0"
proof
  assume "(of_nat n :: u64) = 0"
  then have "unat (of_nat n :: u64) = 0" by simp
  then show "n = 0" unfolding unat_of_nat_u64 [OF assms] .
qed simp

text \<open>The sections that have contents in the file.\<close>

definition has_contents :: "int \<Rightarrow> store \<Rightarrow> scn_ref \<Rightarrow> bool" where
  "has_contents ec st s \<longleftrightarrow> takes_space st s \<and> section_size ec (scn_at st s) st \<noteq> 0"

lemma sections_placed_Cons:
  "sections_placed ec x (s # ss) st st' \<longleftrightarrow>
     (if takes_space st s then
        scns st' s \<noteq> None
        \<and> laid_out ec (scn_at st s) (of_nat (align_to (unat (section_align ec (scn_at st s) st)) x))
            (of_nat (section_size ec (scn_at st s) st)) (scn_at st' s)
        \<and> sections_placed ec (if section_size ec (scn_at st s) st = 0 then x
             else align_to (unat (section_align ec (scn_at st s) st)) x + section_size ec (scn_at st s) st) ss st st'
      else sections_placed ec x ss st st')"
  by (simp add: sections_placed_def section_pieces_def All_less_Suc2 Let_def)

definition section_contents :: "int \<Rightarrow> store \<Rightarrow> (scn_ref \<Rightarrow> byte list) \<Rightarrow> scn_ref list \<Rightarrow> (nat \<times> byte list) list" where
  "section_contents ec st f ss =
     map (\<lambda>s. (unat (section_align ec (scn_at st s) st), f s)) (filter (has_contents ec st) ss)"

lemma placed_section_extents:
  assumes "sections_layable elf ec st ss" "sections_placed ec x ss st st'" "section_end (section_pieces ec st ss) x < 2 ^ 62"
    and "\<forall>s\<in>set ss. has_contents ec st s \<longrightarrow> length (f s) = section_size ec (scn_at st s) st"
  shows "placed_extents (section_extents st st' ss) (section_contents ec st f ss) x
    \<and> place_end (map (map_prod id length) (section_contents ec st f ss)) x = section_end (section_pieces ec st ss) x
    \<and> map (section_extent st') (filter (has_contents ec st) ss) = section_extents st st' ss"
  using assms
proof (induction ss arbitrary: x)
  case Nil
  then show ?case by (simp add: section_extents_def section_contents_def section_pieces_def)
next
  case (Cons s ss)
  let ?n = "section_size ec (scn_at st s) st" and ?a = "unat (section_align ec (scn_at st s) st)"
  have lay: "sections_layable elf ec st ss" using Cons.prems(1) by (simp add: sections_layable_def)
  have f: "\<forall>s\<in>set ss. has_contents ec st s \<longrightarrow> length (f s) = section_size ec (scn_at st s) st" using Cons.prems(4) by simp
  show ?case
  proof (cases "takes_space st s")
    case False
    then have eqs: "section_extents st st' (s # ss) = section_extents st st' ss"
      "section_contents ec st f (s # ss) = section_contents ec st f ss"
      "section_pieces ec st (s # ss) = section_pieces ec st ss"
      "filter (has_contents ec st) (s # ss) = filter (has_contents ec st) ss"
      by (simp_all add: section_extents_def section_contents_def section_pieces_def has_contents_def)
    have "sections_placed ec x ss st st'" using Cons.prems(2) False by (simp add: sections_placed_Cons)
    moreover have "section_end (section_pieces ec st ss) x < 2 ^ 62" using Cons.prems(3) unfolding eqs .
    ultimately show ?thesis unfolding eqs by (rule Cons.IH [OF lay _ _ f])
  next
    case True
    let ?x = "if ?n = 0 then x else align_to ?a x + ?n"
    have placed: "laid_out ec (scn_at st s) (of_nat (align_to ?a x)) (of_nat ?n) (scn_at st' s)" "sections_placed ec ?x ss st st'"
      using Cons.prems(2) True by (simp_all add: sections_placed_Cons)
    have at: "s_size (scn_at st' s) = of_nat ?n" "s_offset (scn_at st' s) = of_nat (align_to ?a x)"
      using placed(1) by (auto simp: laid_out_def)
    have fs: "?n < 2 ^ 62" "0 < ?a" using Cons.prems(1) True by (auto simp: sections_layable_def file_section_def unat_gt_0)
    have sz: "s_size (scn_at st' s) = 0 \<longleftrightarrow> ?n = 0" unfolding at(1) by (rule of_nat_zero_u64) (use fs(1) in simp)
    have pcs: "section_pieces ec st (s # ss) = (?a, ?n) # section_pieces ec st ss" using True by (simp add: section_pieces_def)
    then have "section_end (section_pieces ec st ss) ?x < 2 ^ 62" using Cons.prems(3) by simp
    note IH = Cons.IH [OF lay placed(2) this f]
    show ?thesis
    proof (cases "?n = 0")
      case True
      then have eqs: "section_extents st st' (s # ss) = section_extents st st' ss"
        "section_contents ec st f (s # ss) = section_contents ec st f ss"
        "section_end (section_pieces ec st (s # ss)) x = section_end (section_pieces ec st ss) x"
        "filter (has_contents ec st) (s # ss) = filter (has_contents ec st) ss"
        using sz pcs by (simp_all add: section_extents_def section_contents_def has_contents_def)
      show ?thesis unfolding eqs using IH unfolding if_P [OF True] .
    next
      case False
      then have hc: "has_contents ec st s" using True by (simp add: has_contents_def)
      then have len: "length (f s) = ?n" using Cons.prems(4) by simp
      have "section_extents st st' (s # ss) = section_extent st' s # section_extents st st' ss"
        using True sz False by (simp add: section_extents_def)
      moreover have "section_contents ec st f (s # ss) = (?a, f s) # section_contents ec st f ss"
        using hc by (simp add: section_contents_def)
      moreover have "f s \<noteq> []" using len False by auto
      ultimately show ?thesis using IH False hc fs(2) at len by (simp add: pcs section_extent_def)
    qed
  qed
qed

text \<open>Every extent of a placed list holds its bytes.\<close>

lemma placed_extent_at:
  assumes "placed_extents exs ps x" "i < length exs" "x + length (data_image fill ps x) < 2 ^ 62"
  shows "i < length ps \<and> x \<le> unat (ex_start (exs ! i)) \<and> unat (ex_size (exs ! i)) = length (snd (ps ! i))
    \<and> segment (unat (ex_start (exs ! i)) - x) (unat (ex_size (exs ! i))) (data_image fill ps x) = snd (ps ! i)"
  using assms
proof (induction exs ps x arbitrary: i rule: placed_extents.induct)
  case (2 ex exs a bs ps x)
  have a: "0 < a" "ex_start ex = of_nat (align_to a x)" "ex_size ex = of_nat (length bs)"
    "placed_extents exs ps (align_to a x + length bs)" using "2.prems"(1) by simp_all
  note up = align_to_bounds(1) [OF a(1), of x]
  let ?y = "align_to a x + length bs"
  let ?I = "data_image fill ps ?y"
  have bound: "?y + length ?I < 2 ^ 62" using "2.prems"(3) up by simp
  show ?case
  proof (cases i)
    case 0
    have "unat (of_nat (align_to a x) :: u64) = align_to a x" "unat (of_nat (length bs) :: u64) = length bs"
      using bound by (simp_all add: unat_of_nat_u64)
    then show ?thesis using up by (simp add: 0 a(2,3) segment_def)
  next
    case (Suc k)
    have k: "k < length exs" using "2.prems"(2) Suc by simp
    from "2.IH" [OF a(4) k bound]
    have IH: "k < length ps" "?y \<le> unat (ex_start (exs ! k))" "unat (ex_size (exs ! k)) = length (snd (ps ! k))"
      "segment (unat (ex_start (exs ! k)) - ?y) (unat (ex_size (exs ! k))) ?I = snd (ps ! k)" by blast+
    have "unat (ex_start (exs ! k)) - x = (align_to a x - x) + length bs + (unat (ex_start (exs ! k)) - ?y)"
      using IH(2) up by simp
    then show ?thesis using IH up by (simp add: Suc segment_def)
  qed
qed simp_all

lemma sections_placed_at:
  assumes "sections_layable elf ec st ss" "sections_placed ec x ss st st'" "s \<in> set ss" "takes_space st s"
  obtains off where "scns st' s \<noteq> None" "unat (section_align ec (scn_at st s) st) dvd off"
    "laid_out ec (scn_at st s) (of_nat off) (of_nat (section_size ec (scn_at st s) st)) (scn_at st' s)"
    "section_size ec (scn_at st s) st \<noteq> 0
      \<Longrightarrow> off + section_size ec (scn_at st s) st \<le> section_end (section_pieces ec st ss) x"
proof -
  let ?ts = "filter (takes_space st) ss" and ?ps = "section_pieces ec st ss"
  have "s \<in> set ?ts" using assms(3,4) by simp
  then obtain i where i: "i < length ?ts" "?ts ! i = s" unfolding in_set_conv_nth by blast
  have ps: "i < length ?ps" "?ps ! i = (unat (section_align ec (scn_at st s) st), section_size ec (scn_at st s) st)"
    using i by (simp_all add: section_pieces_def)
  note pos = section_pieces_pos [OF assms(1)]
  show thesis
  proof (rule that [of "section_offsets ?ps x ! i"])
    show "scns st' s \<noteq> None"
      "laid_out ec (scn_at st s) (of_nat (section_offsets ?ps x ! i)) (of_nat (section_size ec (scn_at st s) st)) (scn_at st' s)"
      using assms(2) i unfolding sections_placed_def by (auto simp: Let_def)
    show "unat (section_align ec (scn_at st s) st) dvd section_offsets ?ps x ! i"
      using section_offsets_spec(1) [OF pos ps(1)] ps(2) by simp
    show "section_offsets ?ps x ! i + section_size ec (scn_at st s) st \<le> section_end ?ps x"
      if "section_size ec (scn_at st s) st \<noteq> 0"
      using section_offset_end [OF pos ps(1)] ps(2) that by simp
  qed
qed

section \<open>The whole object\<close>

text \<open>
  The parts of an object: the ELF header, the program headers, the sections with contents and the
  section headers, each with its alignment.  \<open>st\<close> is the store before the layout and \<open>st'\<close> the
  one after it.
\<close>

definition object_pieces :: "Elf \<Rightarrow> Ehdr \<Rightarrow> store \<Rightarrow> store \<Rightarrow> (nat \<times> byte list) list" where
  "object_pieces elf eh st st' =
     (let ec = e_class elf; sw = swaps (created_elf elf eh st) st'
      in (1, ehdr_image ec sw (host_order st') (created_ehdr elf eh st))
         # (if e_nphdr elf = 0 then []
            else [(word_align ec, phdrs_image ec sw (host_order st') (the (e_phdr elf)))])
         @ section_contents ec st (section_image ec sw st') (e_scn elf)
         @ (if e_nscn elf = 0 then [] else [(word_align ec, shdrs_image ec sw st' (e_scn elf))]))"

definition object_image :: "Elf \<Rightarrow> Ehdr \<Rightarrow> store \<Rightarrow> store \<Rightarrow> byte list" where
  "object_image elf eh st st' = data_image (fill_byte st') (object_pieces elf eh st st') 0"

text \<open>
  What is asked of an object for it to be written.  The last lines are about the blocks that the
  write allocates: one for the image and one at a time for the headers.
\<close>

definition writable_section :: "elf_ref \<Rightarrow> Elf \<Rightarrow> store \<Rightarrow> scn_ref \<Rightarrow> bool" where
  "writable_section e elf st s \<longleftrightarrow>
     s_elf (scn_at st s) = Some e \<and> s_rawdata (scn_at st s) = []
     \<and> (\<forall>r\<in>set (s_data (scn_at st s)). \<exists>ld. datas st r = Some ld \<and> d_flags ld AND LIBELF_F_DATA_MALLOCED = 0)
     \<and> (has_contents (e_class elf) st s \<longrightarrow>
          s_data (scn_at st s) \<noteq> []
          \<and> unat (ucast (libelf_falign (libelf_xlate_shtype (shdr_type (s_shdr (scn_at st s)))) (e_class elf)) :: u64)
              dvd unat (section_align (e_class elf) (scn_at st s) st)
          \<and> (\<forall>r\<in>set (s_data (scn_at st s)). data_writable (e_class elf) (fresh st) (created_end elf st) st r))"

definition image_ready :: "elf_ref \<Rightarrow> Elf \<Rightarrow> Ehdr \<Rightarrow> store \<Rightarrow> bool" where
  "image_ready e elf eh st \<longleftrightarrow>
     creating e elf eh st \<and> 0 \<le> e_fd elf \<and> e_rawfile elf = None
     \<and> e_flags elf AND LIBELF_F_SPECIAL_FILE = 0 \<and> e_flags elf AND LIBELF_F_RAWFILE_MMAP = 0
     \<and> length (ehdr_ident eh) = EI_NIDENT \<and> (ehdr_ident eh ! 5 = 1 \<or> ehdr_ident eh ! 5 = 2)
     \<and> (e_nphdr elf \<noteq> 0 \<longrightarrow> (\<exists>ph. e_phdr elf = Some ph \<and> phdrs_class ph = e_class elf
          \<and> unat (e_nphdr elf) = length (phdrs_vals (host_order st) ph)))
     \<and> (e_class elf = ELFCLASS32 \<longrightarrow> created_end elf st < 2 ^ 32)
     \<and> unat (e_nscn elf) = length (e_scn elf)
     \<and> (\<forall>i<length (e_scn elf). s_ndx (scn_at st (e_scn elf ! i)) = of_nat i)
     \<and> distinct (section_datas st (e_scn elf)) \<and> (\<forall>s\<in>set (e_scn elf). writable_section e elf st s)
     \<and> image_room (fresh st) (created_end elf st) (st\<lparr>fresh := Suc (fresh st)\<rparr>)"

lemma store_fresh: "mem (st\<lparr>fresh := k\<rparr>) = mem st" "globals (st\<lparr>fresh := k\<rparr>) = globals st"
  by simp_all

lemma image_fresh [simp]:
  "scn_at (st\<lparr>fresh := k\<rparr>) = scn_at st" "data_at (st\<lparr>fresh := k\<rparr>) = data_at st"
  "encoded ec sw (st\<lparr>fresh := k\<rparr>) = encoded ec sw st"
  "data_pieces ec sw (st\<lparr>fresh := k\<rparr>) = data_pieces ec sw st"
  "section_image ec sw (st\<lparr>fresh := k\<rparr>) = section_image ec sw st"
  "shdrs_image ec sw (st\<lparr>fresh := k\<rparr>) = shdrs_image ec sw st"
  "section_extent (st\<lparr>fresh := k\<rparr>) = section_extent st" "pieces ec rs (st\<lparr>fresh := k\<rparr>) = pieces ec rs st"
proof -
  show at: "scn_at (st\<lparr>fresh := k\<rparr>) = scn_at st" "data_at (st\<lparr>fresh := k\<rparr>) = data_at st"
    by (simp_all add: scn_at_def data_at_def fun_eq_iff)
  show enc: "encoded ec sw (st\<lparr>fresh := k\<rparr>) = encoded ec sw st"
    unfolding encoded_def at store_fresh by (rule refl)
  show dp: "data_pieces ec sw (st\<lparr>fresh := k\<rparr>) = data_pieces ec sw st" unfolding data_pieces_def at enc ..
  show "section_image ec sw (st\<lparr>fresh := k\<rparr>) = section_image ec sw st" unfolding section_image_def at dp by simp
  show "shdrs_image ec sw (st\<lparr>fresh := k\<rparr>) = shdrs_image ec sw st" unfolding shdrs_image_def at by simp
  show "section_extent (st\<lparr>fresh := k\<rparr>) = section_extent st" unfolding section_extent_def at ..
  show "pieces ec rs (st\<lparr>fresh := k\<rparr>) = pieces ec rs st" unfolding pieces_def at ..
qed

lemma object_pieces_fresh: "object_pieces elf eh st (st'\<lparr>fresh := k\<rparr>) = object_pieces elf eh st st'"
  unfolding object_pieces_def image_fresh store_fresh by (rule refl)

lemma data_writable_laid_out:
  assumes "data_writable ec b N st r" "same_datas st st'" "mem st' = mem st" "base st' = base st"
  shows "data_writable ec b N st' r"
proof -
  obtain sb so S where s: "d_buf (data_at st r) = Some (sb, so)" "mem st sb = Some S" "sb \<noteq> b"
    "so + unat (d_size (data_at st r)) \<le> length S" "blocks_apart st b N sb (length S)"
    "addr (d_buf (data_at st r)) st mod ucast (libelf_malign (d_type (data_at st r)) ec) = 0"
    and f: "datas st r \<noteq> None" "data_ready ec (data_at st r)" "fixed_size (d_type (data_at st r)) ec"
    using assms(1) by (rule data_writableE)
  have at: "datas st' r \<noteq> None" "data_at st' r = (data_at st r)\<lparr>d_off := d_off (data_at st' r)\<rparr>"
    using same_datas_at [OF assms(2), of r] f(1) by simp_all
  then have d: "d_buf (data_at st' r) = d_buf (data_at st r)" "d_type (data_at st' r) = d_type (data_at st r)"
    "d_size (data_at st' r) = d_size (data_at st r)" "d_align (data_at st' r) = d_align (data_at st r)"
    "d_version (data_at st' r) = d_version (data_at st r)"
    by (metis Elf_Data.select_convs Elf_Data.surjective Elf_Data.update_convs(3))+
  have "blocks_apart st' b N sb (length S)" using s(5) assms(4) by (simp add: blocks_apart_def)
  moreover have "addr p st' = addr p st" for p using assms(4) by (simp add: addr_def split: option.split)
  moreover have "data_ready ec (data_at st' r)" using f(2) by (simp add: data_ready_def d)
  ultimately show ?thesis using s f(3) at(1) assms(3) unfolding data_writable_def Let_def d by auto
qed

lemma section_stands:
  assumes r: "image_ready e elf eh st" and cs: "created_store e elf eh st st1"
    and placed: "sections_placed (e_class elf) (created_sections elf) (e_scn elf) st st1"
    and s: "s \<in> set (e_scn elf)" "has_contents (e_class elf) st s"
  defines "st2 \<equiv> st1\<lparr>fresh := Suc (fresh st)\<rparr>" and "sw \<equiv> swaps (created_elf elf eh st) st1"
  shows "stands_for e (fresh st) (created_end elf st) st2 (section_extent st1 s) (section_image (e_class elf) sw st1 s)"
    "length (section_image (e_class elf) sw st1 s) = section_size (e_class elf) (scn_at st s) st"
proof -
  let ?ec = "e_class elf" and ?b = "fresh st" and ?N = "created_end elf st" and ?scn = "scn_at st s"
  let ?elf1 = "created_elf elf eh st" and ?rs = "s_data (scn_at st s)"
  have c: "creating e elf eh st" and ws: "writable_section e elf st s" using r s(1) by (auto simp: image_ready_def)
  then have lay: "sections_layable elf ?ec st (e_scn elf)" and h: "header_ready e elf eh st" and N: "?N < 2 ^ 62"
    by (simp_all add: creating_def)
  have ts: "takes_space st s" "section_size ?ec ?scn st \<noteq> 0" using s(2) by (simp_all add: has_contents_def)
  have w: "?rs \<noteq> []" "\<forall>r\<in>set ?rs. data_writable ?ec ?b ?N st r"
    "unat (ucast (libelf_falign (libelf_xlate_shtype (shdr_type (s_shdr ?scn))) ?ec) :: u64) dvd unat (section_align ?ec ?scn st)"
    using ws s(2) by (auto simp: writable_section_def)
  obtain off where off: "scns st1 s \<noteq> None" "unat (section_align ?ec ?scn st) dvd off"
    "laid_out ?ec ?scn (of_nat off) (of_nat (section_size ?ec ?scn st)) (scn_at st1 s)"
    "off + section_size ?ec ?scn st \<le> created_shoff elf st"
    using sections_placed_at [OF lay placed s(1) ts(1)] ts(2) unfolding created_shoff_def by metis
  obtain scn' where scn': "scns st1 s = Some scn'" "scn_at st1 s = scn'" using off(1) by (auto simp: scn_at_def)
  then obtain sh' where sh': "scn' = ?scn\<lparr>s_shdr := sh', s_size := of_nat (section_size ?ec ?scn st), s_offset := of_nat off\<rparr>"
    "shdr_class sh' = ?ec" "shdr_type sh' = shdr_type (s_shdr ?scn)"
    "shdr_size sh' = (if ?ec = ELFCLASS32 then take_bit 32 (of_nat (section_size ?ec ?scn st)) else of_nat (section_size ?ec ?scn st))"
    using off(3) by (auto simp: laid_out_def)
  have fin: "off + section_size ?ec ?scn st \<le> ?N" using off(4) created_order(3) [OF c] by linarith
  have un: "unat (of_nat (section_size ?ec ?scn st) :: u64) = section_size ?ec ?scn st"
    using fin N by (simp add: unat_of_nat_u64)
  have "shdr_size sh' \<noteq> 0"
  proof
    assume "shdr_size sh' = 0"
    moreover have "take_bit 32 (of_nat (section_size ?ec ?scn st) :: u64) = of_nat (section_size ?ec ?scn st)" if "?ec = ELFCLASS32"
    proof -
      have "section_size ?ec ?scn st < 2 ^ 32" using fin r that by (auto simp: image_ready_def)
      then show ?thesis unfolding word_unat_eq_iff unsigned_take_bit_eq un by (simp add: take_bit_nat_eq_self)
    qed
    ultimately have "(of_nat (section_size ?ec ?scn st) :: u64) = 0" using sh'(4) by (simp split: if_splits)
    then show False using un ts(2) by simp
  qed
  have fs: "file_section ?ec ?scn st" using lay s(1) ts(1) by (simp add: sections_layable_def)
  have sd: "same_datas st st1" "datas_placed ?ec (e_scn elf) st st1" "mem st1 = mem st" "base st1 = base st"
    using cs by (simp_all add: created_store_def)
  have pcs: "pieces ?ec ?rs st1 = pieces ?ec ?rs st"
    using datas_cong(2) [OF sd(1)] fs by (simp add: file_section_def)
  have un_t: "\<not> untouched ?scn" using w(1) by (simp add: untouched_def)
  have sz: "section_size ?ec ?scn st = place_end (pieces ?ec ?rs st) 0" using un_t by (simp add: section_size_def)
  have dw: "\<forall>r\<in>set ?rs. data_writable ?ec ?b ?N st1 r"
    using w(2) data_writable_laid_out [OF _ sd(1,3,4)] by blast
  have std: "std_class ?ec" using h by (simp add: header_ready_def)
  show "length (section_image ?ec sw st1 s) = section_size ?ec ?scn st"
    using length_section_image [of st1 s ?ec ?b ?N sw] dw std pcs sz by (simp add: scn' sh'(1))
  have pl: "\<forall>i<length ?rs. unat (d_off (data_at st1 (?rs ! i))) = place_offsets (pieces ?ec ?rs st) 0 ! i"
    using sd(2) r s(1) ts(1) by (auto simp: datas_placed_def image_ready_def Let_def)
  have dw2: "data_writable ?ec ?b ?N st2 r = data_writable ?ec ?b ?N st1 r" for r
    by (simp add: st2_def data_writable_def data_at_def blocks_apart_def addr_def Let_def split: option.split)
  have eq2: "pieces ?ec ?rs st2 = pieces ?ec ?rs st1" "data_at st2 = data_at st1"
    "section_image ?ec sw st2 s = section_image ?ec sw st1 s" "section_extent st2 s = section_extent st1 s"
    unfolding st2_def image_fresh by (rule refl)+
  have "stands_for e ?b ?N st2 (section_extent st2 s) (section_image (e_class ?elf1) (swaps ?elf1 st2) st2 s)"
  proof (rule stands_for_section [where elf = ?elf1 and scn = scn' and off = off])
    show "elfs st2 e = Some ?elf1" using cs by (simp add: st2_def created_store_def)
    show "std_class (e_class ?elf1)" "e_version ?elf1 = EV_CURRENT"
      using h by (simp_all add: created_elf_def header_ready_def)
    show "e_byteorder ?elf1 = ELFDATA2LSB \<or> e_byteorder ?elf1 = ELFDATA2MSB"
      using r by (auto simp: created_elf_def image_ready_def)
    show "scns st2 s = Some scn'" using scn' by (simp add: st2_def)
    show "unat (ucast (libelf_falign (libelf_xlate_shtype (shdr_type (s_shdr scn'))) (e_class ?elf1)) :: u64) dvd off"
      using w(3) off(2) by (auto simp: sh'(1,3) created_elf_def intro: dvd_trans)
    show "\<forall>r\<in>set (s_data scn'). data_writable (e_class ?elf1) ?b ?N st2 r"
      using dw by (simp add: dw2 sh'(1) created_elf_def)
    show "\<forall>i<length (s_data scn'). unat (d_off (data_at st2 (s_data scn' ! i)))
        = place_offsets (pieces (e_class ?elf1) (s_data scn') st2) 0 ! i"
      using pl by (simp add: eq2 pcs sh'(1) created_elf_def)
    show "shdr_size (s_shdr scn') \<noteq> 0" using \<open>shdr_size sh' \<noteq> 0\<close> by (simp add: sh'(1))
    show "off < 2 ^ 62" using fin N by simp
  qed (use fs sh' w(1) N in \<open>simp_all add: file_section_def created_elf_def\<close>)
  then show "stands_for e ?b ?N st2 (section_extent st1 s) (section_image ?ec sw st1 s)"
    using eq2(3) by (simp add: eq2(4) created_elf_def sw_def) (simp add: st2_def)
qed

text \<open>What the created header, descriptor and section list look like.\<close>

lemma created_ehdr_facts:
  assumes "image_ready e elf eh st"
  shows "length (ehdr_ident (created_ehdr elf eh st)) = EI_NIDENT"
    "ehdr_phoff (created_ehdr elf eh st)
      = of_nat (table_offset (word_align (e_class elf)) (unat (e_nphdr elf)) (ehdr_fsz (e_class elf)))"
    "ehdr_shoff (created_ehdr elf eh st)
      = of_nat (table_offset (word_align (e_class elf)) (unat (e_nscn elf)) (created_shoff elf st))"
    "e_byteorder (created_elf elf eh st) = ELFDATA2LSB \<or> e_byteorder (created_elf elf eh st) = ELFDATA2MSB"
proof -
  let ?ec = "e_class elf"
  have c: "creating e elf eh st" and N32: "?ec = ELFCLASS32 \<Longrightarrow> created_end elf st < 2 ^ 32"
    and id: "length (ehdr_ident eh) = EI_NIDENT"
    using assms by (auto simp: image_ready_def)
  have ec: "ehdr_class eh = ?ec" using c by (simp add: creating_def header_ready_def)
  have cls: "ehdr_class (init_ehdr ?ec (e_nphdr elf) eh) = ?ec" using ec by (simp add: init_ehdr_def Let_def)
  have t: "table_offset a k x \<le> table_end a w k x" for a k w x by (simp add: table_offset_def table_end_def)
  note order = created_order [OF c]
  have take: "take_bit 32 (of_nat n :: u64) = of_nat n" if "n \<le> created_end elf st" "?ec = ELFCLASS32" for n
  proof -
    have n: "n < 2 ^ 32" using that N32 by linarith
    then have "unat (of_nat n :: u64) = n" by (simp add: unat_of_nat_u64)
    then show ?thesis using n unfolding word_unat_eq_iff unsigned_take_bit_eq by (simp add: take_bit_nat_eq_self)
  qed
  have o1: "table_offset (word_align ?ec) (unat (e_nphdr elf)) (ehdr_fsz ?ec) \<le> created_end elf st"
    using t [of "word_align ?ec" "unat (e_nphdr elf)" "ehdr_fsz ?ec" "phdr_fsz ?ec"] order by (simp add: created_sections_def)
  have o2: "table_offset (word_align ?ec) (unat (e_nscn elf)) (created_shoff elf st) \<le> created_end elf st"
    using t [of "word_align ?ec" "unat (e_nscn elf)" "created_shoff elf st" "shdr_fsz ?ec"] by (simp add: created_end_def)
  show "ehdr_phoff (created_ehdr elf eh st) = of_nat (table_offset (word_align ?ec) (unat (e_nphdr elf)) (ehdr_fsz ?ec))"
    "ehdr_shoff (created_ehdr elf eh st) = of_nat (table_offset (word_align ?ec) (unat (e_nscn elf)) (created_shoff elf st))"
    using take [OF o1] take [OF o2] cls by (simp_all add: created_ehdr_def Let_def counts_ehdr_fields)
  show "length (ehdr_ident (created_ehdr elf eh st)) = EI_NIDENT"
    using id by (cases eh) (simp_all add: created_ehdr_def Let_def counts_ehdr_fields init_ehdr_def map_ehdr_def init_ident_def)
  show "e_byteorder (created_elf elf eh st) = ELFDATA2LSB \<or> e_byteorder (created_elf elf eh st) = ELFDATA2MSB"
    using assms by (auto simp: created_elf_def image_ready_def)
qed

lemma created_numbered:
  assumes r: "image_ready e elf eh st" and cs: "created_store e elf eh st st1"
    and placed: "sections_placed (e_class elf) (created_sections elf) (e_scn elf) st st1"
  shows "numbered_from 0 (e_class elf) st1 (e_scn elf)"
  unfolding numbered_from_def
proof (intro allI impI)
  fix i assume i: "i < length (e_scn elf)"
  let ?s = "e_scn elf ! i"
  have lay: "sections_layable elf (e_class elf) st (e_scn elf)" using r by (simp add: image_ready_def creating_def)
  then have s: "scns st ?s \<noteq> None" "shdr_class (s_shdr (scn_at st ?s)) = e_class elf" "?s \<in> set (e_scn elf)"
    using i by (auto simp: sections_layable_def)
  have n: "s_ndx (scn_at st ?s) = of_nat i" using r i by (simp add: image_ready_def)
  show "scns st1 ?s \<noteq> None \<and> s_ndx (scn_at st1 ?s) = of_nat (0 + i) \<and> shdr_class (s_shdr (scn_at st1 ?s)) = e_class elf"
  proof (cases "takes_space st ?s")
    case True
    from sections_placed_at [OF lay placed s(3) True] obtain off where
      "scns st1 ?s \<noteq> None"
      "laid_out (e_class elf) (scn_at st ?s) (of_nat off) (of_nat (section_size (e_class elf) (scn_at st ?s) st)) (scn_at st1 ?s)"
      by metis
    then show ?thesis using n by (auto simp: laid_out_def)
  next
    case False
    then have "scns st1 ?s = scns st ?s" using cs by (simp add: created_store_def)
    then show ?thesis using s n by (simp add: scn_at_def)
  qed
qed

lemma object_stands:
  assumes r: "image_ready e elf eh st" and cs: "created_store e elf eh st st1"
    and h1: "header_ready e (created_elf elf eh st) (created_ehdr elf eh st) st1"
    and placed: "sections_placed (e_class elf) (created_sections elf) (e_scn elf) st st1"
  defines "st2 \<equiv> st1\<lparr>fresh := Suc (fresh st)\<rparr>" and "ps \<equiv> object_pieces elf eh st st1"
  shows "list_all2 (\<lambda>ex p. stands_for e (fresh st) (created_end elf st) st2 ex (snd p)) (created_extents elf st st1) ps"
    "placed_extents (created_extents elf st st1) ps 0"
    "place_end (map (map_prod id length) ps) 0 = created_end elf st"
proof -
  let ?ec = "e_class elf" and ?b = "fresh st" and ?N = "created_end elf st"
  let ?elf1 = "created_elf elf eh st" and ?eh1 = "created_ehdr elf eh st"
  let ?sw = "swaps ?elf1 st1" and ?a = "word_align ?ec"
  have c: "creating e elf eh st" using r by (simp add: image_ready_def)
  then have N: "?N < 2 ^ 62" and lay: "sections_layable elf ?ec st (e_scn elf)" and std: "std_class ?ec"
    by (simp_all add: creating_def header_ready_def)
  note order = created_order [OF c] and ehf = created_ehdr_facts [OF r]
  have el1: "e_class ?elf1 = ?ec" "e_nphdr ?elf1 = e_nphdr elf" "e_nscn ?elf1 = e_nscn elf" "e_scn ?elf1 = e_scn elf"
    "e_phdr ?elf1 = e_phdr elf" by (simp_all add: created_elf_def)
  have h2: "header_ready e ?elf1 ?eh1 st2" using h1 by (simp add: header_ready_def st2_def)
  have sw2: "swaps ?elf1 st2 = ?sw" "host_order st2 = host_order st1" by (simp_all add: st2_def)
  have room: "image_room ?b ?N st2"
    using r cs by (simp add: image_ready_def created_store_def image_room_def blocks_apart_def st2_def)
  have a: "0 < ?a" "?a \<le> 8" by (simp_all add: word_align_def)
  have ec1: "ehdr_class ?eh1 = ?ec" using h1 by (simp add: header_ready_def el1)
  define E where "E = ehdr_image ?ec ?sw (host_order st1) ?eh1"
  define H where "H = phdrs_image ?ec ?sw (host_order st1) (the (e_phdr elf))"
  define S where "S = shdrs_image ?ec ?sw st1 (e_scn elf)"
  define C where "C = section_contents ?ec st (section_image ?ec ?sw st1) (e_scn elf)"
  define pH where "pH = (if e_nphdr elf = 0 then [] else [(?a, H)])"
  define pS where "pS = (if e_nscn elf = 0 then [] else [(?a, S)])"
  have ps: "ps = (1, E) # pH @ C @ pS"
    by (simp add: ps_def object_pieces_def Let_def E_def H_def S_def C_def pH_def pS_def)
  define x0 where "x0 = \<lparr>ex_start = 0, ex_size = of_nat (ehdr_fsz ?ec), ex_type = ELF_EXTENT_EHDR, ex_desc = None\<rparr>"
  define xH where "xH = table_extents ?a (phdr_fsz ?ec) ELF_EXTENT_PHDR (unat (e_nphdr elf)) (ehdr_fsz ?ec)"
  define xC where "xC = section_extents st st1 (e_scn elf)"
  define xS where "xS = table_extents ?a (shdr_fsz ?ec) ELF_EXTENT_SHDR (unat (e_nscn elf)) (created_shoff elf st)"
  have xs: "created_extents elf st st1 = x0 # xH @ xC @ xS"
    by (simp add: created_extents_def Let_def x0_def xH_def xC_def xS_def)
  have zero: "unat (e_nphdr elf) = 0 \<longleftrightarrow> e_nphdr elf = 0" "unat (e_nscn elf) = 0 \<longleftrightarrow> e_nscn elf = 0"
    by (simp_all add: unat_eq_zero)
  have ph: "phdrs_class (the (e_phdr elf)) = ?ec" "unat (e_nphdr elf) = length (phdrs_vals (host_order st1) (the (e_phdr elf)))"
    if "e_nphdr elf \<noteq> 0"
    using r cs that by (auto simp: image_ready_def created_store_def)
  have num: "numbered_from 0 ?ec st1 (e_scn elf)" by (rule created_numbered [OF r cs placed])
  have nscn: "unat (e_nscn elf) = length (e_scn elf)" using r by (simp add: image_ready_def)
  have lenE: "length E = ehdr_fsz ?ec" unfolding E_def by (rule length_images(1) [OF std ec1 ehf(1)])
  have lenH: "length H = unat (e_nphdr elf) * phdr_fsz ?ec" if "e_nphdr elf \<noteq> 0"
    using length_images(3) [OF std ph(1) [OF that]] ph(2) [OF that] by (simp add: H_def)
  have lenS: "length S = unat (e_nscn elf) * shdr_fsz ?ec"
    unfolding S_def nscn by (rule length_shdrs_image [OF std num])
  have fsz: "0 < ehdr_fsz ?ec" "0 < phdr_fsz ?ec" "0 < shdr_fsz ?ec" by (simp_all add: ehdr_fsz_def phdr_fsz_def shdr_fsz_def)
  \<comment> \<open>the sections\<close>
  have hc: "stands_for e ?b ?N st2 (section_extent st1 s) (section_image ?ec ?sw st1 s)
      \<and> length (section_image ?ec ?sw st1 s) = section_size ?ec (scn_at st s) st"
    if "s \<in> set (e_scn elf)" "has_contents ?ec st s" for s
    using section_stands [OF r cs placed that] by (simp add: st2_def)
  have "section_end (section_pieces ?ec st (e_scn elf)) (created_sections elf) < 2 ^ 62"
    using order(3) N by (simp add: created_shoff_def)
  from placed_section_extents [OF lay placed this, of "section_image ?ec ?sw st1"] hc
  have C: "placed_extents xC C (created_sections elf)" "place_end (map (map_prod id length) C) (created_sections elf) = created_shoff elf st"
    "xC = map (section_extent st1) (filter (has_contents ?ec st) (e_scn elf))"
    by (simp_all add: xC_def C_def created_shoff_def)
  have C2: "list_all2 (\<lambda>ex p. stands_for e ?b ?N st2 ex (snd p)) xC C"
    unfolding C(3) C_def section_contents_def list.rel_map snd_conv
    by (rule list.rel_refl_strong) (use hc in simp)
  \<comment> \<open>the tables\<close>
  have H: "placed_extents xH pH (ehdr_fsz ?ec)" "place_end (map (map_prod id length) pH) (ehdr_fsz ?ec) = created_sections elf"
    using lenH a zero(1) fsz(2) by (auto simp: xH_def pH_def table_extents_def created_sections_def table_end_def)
  have S: "placed_extents xS pS (created_shoff elf st)" "place_end (map (map_prod id length) pS) (created_shoff elf st) = ?N"
    using lenS a zero(2) fsz(3) by (auto simp: xS_def pS_def table_extents_def created_end_def table_end_def)
  have S2: "list_all2 (\<lambda>ex p. stands_for e ?b ?N st2 ex (snd p)) xS pS"
  proof (cases "e_nscn elf = 0")
    case False
    let ?off = "align_to ?a (created_shoff elf st)"
    let ?ex = "\<lparr>ex_start = of_nat ?off, ex_size = of_nat (unat (e_nscn elf) * shdr_fsz ?ec), ex_type = ELF_EXTENT_SHDR, ex_desc = None\<rparr>"
    have off: "?a dvd ?off" "?off < 2 ^ 62"
      using align_to_bounds [OF a(1), of "created_shoff elf st"] N False zero(2) by (auto simp: created_end_def table_end_def)
    have "stands_for e ?b ?N st2 ?ex (shdrs_image (e_class ?elf1) (swaps ?elf1 st2) st2 (e_scn ?elf1))"
      by (rule stands_for_shdrs [OF h2, where off = ?off])
        (use num nscn False ehf(3,4) zero(2) room N off in \<open>simp_all add: el1 table_offset_def st2_def numbered_from_def\<close>)
    then show ?thesis using False zero(2) by (simp add: xS_def pS_def table_extents_def el1 sw2 S_def) (simp add: st2_def)
  qed (simp add: xS_def pS_def table_extents_def)
  have H2: "list_all2 (\<lambda>ex p. stands_for e ?b ?N st2 ex (snd p)) xH pH"
  proof (cases "e_nphdr elf = 0")
    case False
    let ?off = "align_to ?a (ehdr_fsz ?ec)"
    let ?ex = "\<lparr>ex_start = of_nat ?off, ex_size = of_nat (unat (e_nphdr elf) * phdr_fsz ?ec), ex_type = ELF_EXTENT_PHDR, ex_desc = None\<rparr>"
    have off: "?a dvd ?off" "0 < ?off" "?off < 2 ^ 62"
      using align_to_bounds [OF a(1), of "ehdr_fsz ?ec"] fsz(1) order N False zero(1)
      by (auto simp: created_sections_def table_end_def)
    have "stands_for e ?b ?N st2 ?ex (phdrs_image (e_class ?elf1) (swaps ?elf1 st2) (host_order st2) (the (e_phdr elf)))"
      by (rule stands_for_phdrs [OF h2, where off = ?off])
        (use ph [OF False] False ehf(2,4) zero(1) room N off c in
          \<open>simp_all add: el1 table_offset_def sw2 creating_def\<close>)
    then show ?thesis using False zero(1) by (simp add: xH_def pH_def table_extents_def el1 sw2 H_def)
  qed (simp add: xH_def pH_def table_extents_def)
  have E2: "stands_for e ?b ?N st2 x0 E"
    using stands_for_ehdr [OF h2 ehf(1,4) room N, of x0] by (simp add: x0_def E_def el1 sw2)
  show "list_all2 (\<lambda>ex p. stands_for e ?b ?N st2 ex (snd p)) (created_extents elf st st1) ps"
    unfolding xs ps using E2 H2 C2 S2 by (simp add: list_all2_appendI)
  have p: "placed_extents (xH @ xC @ xS) (pH @ C @ pS) (ehdr_fsz ?ec)"
    by (intro placed_extents_append) (simp_all only: H C(1,2) S)
  have E: "E \<noteq> []" using lenE fsz(1) by auto
  have a1: "align_to 1 0 = 0" "align_to (Suc 0) 0 = 0" by (simp_all add: align_to_def)
  show "placed_extents (created_extents elf st st1) ps 0"
    unfolding xs ps using p E by (simp add: x0_def lenE a1)
  have app: "place_end (us @ vs) x = place_end vs (place_end us x)" for us vs x
    by (induction us x rule: place_end.induct) simp_all
  show "place_end (map (map_prod id length) ps) 0 = ?N"
    unfolding ps using H(2) C(2) S(2) by (simp add: lenE a1 app)
qed

section \<open>The write\<close>

text \<open>The sections are released when their data are there and were not allocated by the library.\<close>

definition releasable :: "elf_ref \<Rightarrow> store \<Rightarrow> scn_ref \<Rightarrow> bool" where
  "releasable e st s \<longleftrightarrow>
     scns st s \<noteq> None \<and> s_elf (scn_at st s) = Some e \<and> s_rawdata (scn_at st s) = []
     \<and> (\<forall>r\<in>set (s_data (scn_at st s)). \<exists>ld. datas st r = Some ld \<and> d_flags ld AND LIBELF_F_DATA_MALLOCED = 0)"

lemma release_all_data_ok:
  assumes "distinct rs" "\<forall>r\<in>set rs. \<exists>ld. datas st r = Some ld \<and> d_flags ld AND LIBELF_F_DATA_MALLOCED = 0"
  shows "\<exists>f. release_all_data rs st = Some (st\<lparr>datas := f\<rparr>) \<and> (\<forall>r. r \<notin> set rs \<longrightarrow> f r = datas st r)"
  using assms
proof (induction rs arbitrary: st)
  case Nil
  then show ?case by (intro exI [of _ "datas st"]) simp
next
  case (Cons r rs)
  then obtain ld where ld: "datas st r = Some ld" "d_flags ld AND LIBELF_F_DATA_MALLOCED = 0" by auto
  let ?st = "st\<lparr>datas := (datas st)(r := None)\<rparr>"
  have "\<forall>q\<in>set rs. \<exists>ld. datas ?st q = Some ld \<and> d_flags ld AND LIBELF_F_DATA_MALLOCED = 0"
    using Cons.prems by auto
  from Cons.IH [OF _ this] Cons.prems(1) obtain f where
    "release_all_data rs ?st = Some (?st\<lparr>datas := f\<rparr>)" "\<forall>q. q \<notin> set rs \<longrightarrow> f q = datas ?st q" by auto
  then show ?case using ld by (intro exI [of _ f]) (simp add: libelf_release_data_def)
qed

lemma release_all_scns_ok:
  assumes "distinct ss" "distinct (section_datas st ss)" "\<forall>s\<in>set ss. releasable e st s" "elfs st e \<noteq> None"
  shows "\<exists>st'. release_all_scns ss st = Some st' \<and> mem st' = mem st \<and> elfs st' e \<noteq> None"
  using assms
proof (induction ss arbitrary: st)
  case (Cons s ss)
  obtain scn where scn: "scns st s = Some scn" "scn_at st s = scn" "s_elf scn = Some e" "s_rawdata scn = []"
    "\<forall>r\<in>set (s_data scn). \<exists>ld. datas st r = Some ld \<and> d_flags ld AND LIBELF_F_DATA_MALLOCED = 0"
    using Cons.prems(3) by (auto simp: releasable_def scn_at_def)
  obtain elf where elf: "elfs st e = Some elf" using Cons.prems(4) by blast
  have d: "distinct (s_data scn)" "set (s_data scn) \<inter> set (section_datas st ss) = {}" "distinct (section_datas st ss)"
    using Cons.prems(2) by (auto simp: section_datas_def scn(2))
  obtain f where f: "release_all_data (s_data scn) st = Some (st\<lparr>datas := f\<rparr>)" "\<forall>r. r \<notin> set (s_data scn) \<longrightarrow> f r = datas st r"
    using release_all_data_ok [OF d(1) scn(5)] by blast
  let ?st = "(set_elf e (elf\<lparr>e_scn := remove1 s (e_scn elf)\<rparr>) (st\<lparr>datas := f\<rparr>))\<lparr>scns := (scns st)(s := None)\<rparr>"
  have step: "libelf_release_scn s st = Some ?st" using scn f(1) elf by (simp add: libelf_release_scn_def)
  have at: "scn_at ?st q = scn_at st q \<and> scns ?st q = scns st q" if "q \<in> set ss" for q
    using that Cons.prems(1) by (auto simp: scn_at_def)
  then have ds: "section_datas ?st ss = section_datas st ss" by (simp add: section_datas_def cong: map_cong)
  have "f r = datas st r" if "q \<in> set ss" "r \<in> set (s_data (scn_at st q))" for q r
    using that d(2) f(2) by (auto simp: section_datas_def)
  then have "\<forall>q\<in>set ss. releasable e ?st q" using Cons.prems(3) at by (auto simp: releasable_def)
  then have "\<exists>st'. release_all_scns ss ?st = Some st' \<and> mem st' = mem ?st \<and> elfs st' e \<noteq> None"
    using Cons.prems(1) d(3) by (intro Cons.IH) (simp_all add: ds)
  then show ?case using step by simp
qed simp

lemma laid_out_releasable:
  assumes r: "image_ready e elf eh st" and cs: "created_store e elf eh st st1"
    and placed: "sections_placed (e_class elf) (created_sections elf) (e_scn elf) st st1" and s: "s \<in> set (e_scn elf)"
  shows "releasable e st1 s \<and> s_data (scn_at st1 s) = s_data (scn_at st s)"
proof -
  have lay: "sections_layable elf (e_class elf) st (e_scn elf)" and w: "writable_section e elf st s"
    using r s by (simp_all add: image_ready_def creating_def)
  have at: "scns st1 s \<noteq> None \<and> s_data (scn_at st1 s) = s_data (scn_at st s)
    \<and> s_rawdata (scn_at st1 s) = s_rawdata (scn_at st s) \<and> s_elf (scn_at st1 s) = s_elf (scn_at st s)"
  proof (cases "takes_space st s")
    case True
    from sections_placed_at [OF lay placed s True] obtain off where
      "scns st1 s \<noteq> None"
      "laid_out (e_class elf) (scn_at st s) (of_nat off) (of_nat (section_size (e_class elf) (scn_at st s) st)) (scn_at st1 s)"
      by metis
    then show ?thesis by (auto simp: laid_out_def)
  next
    case False
    then have "scns st1 s = scns st s" using cs by (simp add: created_store_def)
    then show ?thesis using lay s by (simp add: scn_at_def sections_layable_def)
  qed
  have "\<exists>ld. datas st1 q = Some ld \<and> d_flags ld AND LIBELF_F_DATA_MALLOCED = 0" if q: "q \<in> set (s_data (scn_at st s))" for q
  proof -
    obtain ld where ld: "datas st q = Some ld" "d_flags ld AND LIBELF_F_DATA_MALLOCED = 0"
      using w q by (auto simp: writable_section_def)
    have "map_option but_d_off (datas st1 q) = map_option but_d_off (datas st q)"
      using cs by (simp add: created_store_def same_datas_def)
    then obtain ld' where "datas st1 q = Some ld'" "but_d_off ld' = but_d_off ld" using ld(1) by (cases "datas st1 q") auto
    then show ?thesis using ld(2) by (cases ld; cases ld') (simp add: but_d_off_def)
  qed
  then show ?thesis using at w by (auto simp: releasable_def writable_section_def)
qed

text \<open>The system truncates the file, goes to its start and takes the whole image.\<close>

definition accepts_image :: "os \<Rightarrow> int \<Rightarrow> byte list \<Rightarrow> bool" where
  "accepts_image os fd img \<longleftrightarrow>
     0 \<le> r_value (os [Ftruncate fd 0]) \<and> r_value (os [Ftruncate fd 0, Lseek fd 0]) = 0
     \<and> r_value (os [Ftruncate fd 0, Lseek fd 0, Write fd img]) = int (length img)"

lemma length_object_image:
  assumes "placed_extents exs (object_pieces elf eh st st1) 0"
    "place_end (map (map_prod id length) (object_pieces elf eh st st1)) 0 = n"
  shows "length (object_image elf eh st st1) = n"
  using length_data_image [OF placed_extents_pos [OF assms(1)], of 0 "fill_byte st1"] assms(2)
  by (simp add: object_image_def)

lemma write_elf_image:
  assumes r: "image_ready e elf eh st" and cs: "created_store e elf eh st st1"
    and h1: "header_ready e (created_elf elf eh st) (created_ehdr elf eh st) st1"
    and placed: "sections_placed (e_class elf) (created_sections elf) (e_scn elf) st st1"
    and os: "accepts_image os (e_fd elf) (object_image elf eh st st1)"
  shows "\<exists>st'. libelf_write_elf os e (of_nat (created_end elf st)) (created_extents elf st st1) [] st1
    = Some ((of_nat (created_end elf st),
        [Ftruncate (e_fd elf) 0, Lseek (e_fd elf) 0, Write (e_fd elf) (object_image elf eh st st1)]), st')"
proof -
  let ?N = "created_end elf st" and ?b = "fresh st" and ?elf1 = "created_elf elf eh st"
  let ?I = "object_image elf eh st st1" and ?st2 = "st1\<lparr>fresh := Suc (fresh st)\<rparr>"
  note S = object_stands [OF r cs h1 placed]
  have c: "creating e elf eh st" using r by (simp add: image_ready_def)
  have N: "?N < 2 ^ 62" using c by (simp add: creating_def)
  have len: "length ?I = ?N" by (rule length_object_image [OF S(2,3)])
  have uN: "unat (of_nat ?N :: u64) = ?N" using N by (simp add: unat_of_nat_u64)
  have sN: "sint (of_nat ?N :: u64) = int ?N" using sint_small [of "of_nat ?N :: u64"] N unfolding uN by simp
  have e1: "elfs st1 e = Some ?elf1" "oom st1 = []" "fresh st1 = ?b" using cs c by (simp_all add: created_store_def creating_def)
  have elf1: "e_kind ?elf1 = ELF_K_ELF" "e_cmd ?elf1 = ELF_C_WRITE" "0 \<le> e_fd ?elf1" "e_rawfile ?elf1 = None"
    "e_fd ?elf1 = e_fd elf" "e_scn ?elf1 = e_scn elf"
    using r c by (simp_all add: created_elf_def image_ready_def creating_def header_ready_def)
  have fl: "e_flags ?elf1 AND LIBELF_F_SPECIAL_FILE = 0" "e_flags ?elf1 AND LIBELF_F_RAWFILE_MMAP = 0"
    using r by (simp_all add: created_elf_def image_ready_def bit.conj_disj_distrib2)
  have mal: "malloc (unat (of_nat ?N :: u64)) st1 = (Some (?b, 0), image_store ?b (replicate ?N 0) ?st2)"
    unfolding uN using e1 by (simp add: malloc_def alloc_ok_def)
  have "write_extents e (Some (?b, 0)) (created_extents elf st st1) (of_nat (length ([] :: byte list)))
      (image_store ?b ([] @ replicate ?N 0) ?st2)
    = Some (Some (of_nat (length ([] :: byte list) + length (data_image (fill_byte ?st2) (object_pieces elf eh st st1) (length ([] :: byte list))))),
        image_store ?b ([] @ data_image (fill_byte ?st2) (object_pieces elf eh st st1) (length ([] :: byte list))
          @ drop (length (data_image (fill_byte ?st2) (object_pieces elf eh st st1) (length ([] :: byte list)))) (replicate ?N 0)) ?st2)"
    by (rule write_extents_image) (use S(1,2) N len in \<open>simp_all add: object_image_def\<close>)
  then have w: "write_extents e (Some (?b, 0)) (created_extents elf st st1) 0 (image_store ?b (replicate ?N 0) ?st2)
      = Some (Some (of_nat ?N), image_store ?b ?I ?st2)"
    using len by (simp add: object_image_def)
  let ?st3 = "image_store ?b ?I ?st2"
  have disc: "discard_old os e [] ?st3 = Some ((True, [Ftruncate (e_fd elf) 0, Lseek (e_fd elf) 0]), ?st3)"
    using os e1 fl elf1 by (simp add: discard_old_def call_def accepts_image_def Let_def)
  have rd: "read_bytes (Some (?b, 0)) ?N ?st3 = Some ?I" using len by (simp add: read_bytes_def)
  have ad: "adopt_new os e (Some (?b, 0)) (of_nat ?N) tr ?st3 = Some (((True, Some (?b, 0)), tr), ?st3)" for tr
    using e1 elf1 by (simp add: adopt_new_def)
  obtain st4 where st4: "reset_elf e ?st3 = Some st4" "mem st4 = mem ?st3"
  proof -
    let ?st = "set_elf e (?elf1\<lparr>e_flags := e_flags ?elf1 AND NOT ELF_F_DIRTY\<rparr>) ?st3"
    have at: "scn_at ?st = scn_at st1" by (simp add: scn_at_def fun_eq_iff)
    have rel: "\<forall>s\<in>set (e_scn elf). releasable e ?st s"
      using laid_out_releasable [OF r cs placed] unfolding releasable_def at by simp
    have "section_datas ?st (e_scn elf) = section_datas st (e_scn elf)"
      using laid_out_releasable [OF r cs placed] unfolding section_datas_def at by (metis (no_types, lifting) map_cong)
    then have "\<exists>st'. release_all_scns (e_scn elf) ?st = Some st' \<and> mem st' = mem ?st \<and> elfs st' e \<noteq> None"
      using rel r c by (intro release_all_scns_ok) (simp_all add: image_ready_def creating_def)
    then obtain st' elf' where "release_all_scns (e_scn elf) ?st = Some st'" "mem st' = mem ?st" "elfs st' e = Some elf'"
      by blast
    then show thesis
      using e1 elf1(6) by (intro that [of "set_elf e (elf'\<lparr>e_ehdr := None, e_phdr := None\<rparr>) st'"])
        (simp_all add: reset_elf_def Let_def)
  qed
  then have "free_ptr (Some (?b, 0)) st4 = Some (st4\<lparr>mem := (mem st4)(?b := None)\<rparr>)" by (simp add: free_ptr_def)
  then show ?thesis
    using e1(1) elf1 mal w disc rd ad st4 os sN uN len
    by (simp add: libelf_write_elf_def call_def accepts_image_def)
qed

section \<open>Reading what was written\<close>

lemma READ_WRITE_MEMBERS: "members_ok ec ms vs \<Longrightarrow> READ_MEMBERS ec ms (WRITE_MEMBERS vs) = vs"
  by (induction ms arbitrary: vs) (auto simp: WRITE_MEMBERS_def members_ok_def list_all2_Cons1)

lemma file_struct_file_bytes:
  assumes "members_ok ec def vs"
  shows "file_struct sw ec def (file_bytes sw def vs) = vs"
  using assms by (cases sw) (simp_all add: file_struct_def file_bytes_def READ_WRITE_MEMBERS Let_def)

lemma ehdr_image_read:
  assumes "std_class ec" "ehdr_class eh = ec" "length (ehdr_ident eh) = EI_NIDENT"
  shows "ehdr_object ec order (file_struct sw ec (ehdr_layout ec) (ehdr_image ec sw order eh)) = eh"
proof -
  have "ehdr_object ec order (ehdr_vals order eh) = eh"
    using assms by (cases eh) (simp_all add: ehdr_object_def ehdr_class_def ehdr32.of_to ehdr64.of_to ehdr_wf_def)
  then show ?thesis unfolding ehdr_image_def file_struct_file_bytes [OF vals_ok(1) [OF assms]] .
qed

lemma shdr_image_read:
  assumes "std_class ec" "shdr_class sh = ec"
  shows "shdr_object ec order (file_struct sw ec (shdr_layout ec) (shdr_image ec sw order sh)) = sh"
proof -
  have "shdr_object ec order (shdr_vals order sh) = sh"
    using assms by (cases sh) (simp_all add: shdr_object_def shdr_class_def shdr32.of_to shdr64.of_to)
  then show ?thesis unfolding shdr_image_def file_struct_file_bytes [OF vals_ok(2) [OF assms]] .
qed

text \<open>The parts of the image at their places.\<close>

lemma object_image_parts:
  assumes r: "image_ready e elf eh st" and cs: "created_store e elf eh st st1"
    and h1: "header_ready e (created_elf elf eh st) (created_ehdr elf eh st) st1"
    and placed: "sections_placed (e_class elf) (created_sections elf) (e_scn elf) st st1"
  defines "I \<equiv> object_image elf eh st st1" and "ec \<equiv> e_class elf" and "sw \<equiv> swaps (created_elf elf eh st) st1"
  shows "segment 0 (ehdr_fsz ec) I = ehdr_image ec sw (host_order st1) (created_ehdr elf eh st)"
    "\<And>s. s \<in> set (e_scn elf) \<Longrightarrow> has_contents ec st s
      \<Longrightarrow> segment (unat (s_offset (scn_at st1 s))) (unat (s_size (scn_at st1 s))) I = section_image ec sw st1 s"
    "\<And>i. i < length (e_scn elf)
      \<Longrightarrow> segment (unat (ehdr_shoff (created_ehdr elf eh st)) + i * shdr_fsz ec) (shdr_fsz ec) I
        = shdr_image ec sw (host_order st1) (s_shdr (scn_at st1 (e_scn elf ! i)))"
proof -
  let ?ps = "object_pieces elf eh st st1" and ?xs = "created_extents elf st st1"
  note S = object_stands(2,3) [OF r cs h1 placed]
  have c: "creating e elf eh st" using r by (simp add: image_ready_def)
  have N: "created_end elf st < 2 ^ 62" and std: "std_class ec" and lay: "sections_layable elf ec st (e_scn elf)"
    using c by (simp_all add: creating_def header_ready_def ec_def)
  have len: "length I = created_end elf st" unfolding I_def by (rule length_object_image [OF S])
  have bound: "0 + length (data_image (fill_byte st1) ?ps 0) < 2 ^ 62" using len N by (simp add: I_def object_image_def)
  have at: "segment (unat (ex_start (?xs ! i))) (unat (ex_size (?xs ! i))) I = snd (?ps ! i)" if "i < length ?xs" for i
    using placed_extent_at [OF S(1) that bound] unfolding minus_nat.diff_0 I_def object_image_def by blast
  have ehs: "ehdr_fsz ec \<le> 64" by (simp add: ehdr_fsz_def)
  show "segment 0 (ehdr_fsz ec) I = ehdr_image ec sw (host_order st1) (created_ehdr elf eh st)"
  proof -
    have "?xs ! 0 = \<lparr>ex_start = 0, ex_size = of_nat (ehdr_fsz ec), ex_type = ELF_EXTENT_EHDR, ex_desc = None\<rparr>"
      "?ps ! 0 = (1, ehdr_image ec sw (host_order st1) (created_ehdr elf eh st))" "0 < length ?xs"
      by (simp_all add: created_extents_def object_pieces_def Let_def ec_def sw_def)
    then show ?thesis using at [of 0] ehs by (simp add: unat_of_nat_u64)
  qed
  show "segment (unat (s_offset (scn_at st1 s))) (unat (s_size (scn_at st1 s))) I = section_image ec sw st1 s"
    if s: "s \<in> set (e_scn elf)" "has_contents ec st s" for s
  proof -
    let ?f = "filter (has_contents ec st) (e_scn elf)"
    have "s \<in> set ?f" using s by simp
    then obtain i where i: "i < length ?f" "?f ! i = s" unfolding in_set_conv_nth by blast
    have "section_end (section_pieces ec st (e_scn elf)) (created_sections elf) < 2 ^ 62"
      using created_order(3) [OF c] N by (simp add: created_shoff_def ec_def)
    from placed_section_extents [OF lay placed [folded ec_def] this, of "section_image ec sw st1"]
    have xs: "section_extents st st1 (e_scn elf) = map (section_extent st1) ?f"
      using section_stands(2) [OF r cs placed] by (simp add: ec_def sw_def)
    define k where "k = Suc (if e_nphdr elf = 0 then 0 else 1)"
    have zero: "unat (e_nphdr elf) = 0 \<longleftrightarrow> e_nphdr elf = 0" by (simp add: unat_eq_zero)
    have "?xs ! (k + i) = section_extent st1 s" "k + i < length ?xs"
      using i zero xs by (auto simp: created_extents_def Let_def k_def table_extents_def nth_append ec_def)
    moreover have "?ps ! (k + i) = (unat (section_align ec (scn_at st s) st), section_image ec sw st1 s)"
      using i by (auto simp: object_pieces_def Let_def k_def section_contents_def nth_append ec_def sw_def)
    ultimately show ?thesis using at [of "k + i"] by (simp add: section_extent_def)
  qed
  show "segment (unat (ehdr_shoff (created_ehdr elf eh st)) + i * shdr_fsz ec) (shdr_fsz ec) I
      = shdr_image ec sw (host_order st1) (s_shdr (scn_at st1 (e_scn elf ! i)))" if i: "i < length (e_scn elf)" for i
  proof -
    have n: "unat (e_nscn elf) = length (e_scn elf)" using r by (simp add: image_ready_def)
    then have n0: "unat (e_nscn elf) \<noteq> 0" "e_nscn elf \<noteq> 0" using i by (auto simp: unat_eq_zero)
    let ?off = "align_to (word_align ec) (created_shoff elf st)"
    let ?k = "length ?xs - 1"
    have last: "?xs ! ?k = \<lparr>ex_start = of_nat ?off, ex_size = of_nat (unat (e_nscn elf) * shdr_fsz ec),
        ex_type = ELF_EXTENT_SHDR, ex_desc = None\<rparr>" "?xs \<noteq> []"
      using n0(1) by (simp_all add: created_extents_def Let_def table_extents_def nth_append ec_def)
    have "length ?xs = length ?ps" using object_stands(1) [OF r cs h1 placed] by (rule list_all2_lengthD)
    then have "?ps ! ?k = last ?ps" by (metis last(2) last_conv_nth length_0_conv)
    then have lastp: "?ps ! ?k = (word_align ec, shdrs_image ec sw st1 (e_scn elf))"
      using n0(2) by (simp add: object_pieces_def Let_def ec_def sw_def)
    have bound: "?off + unat (e_nscn elf) * shdr_fsz ec = created_end elf st"
      using n0(1) by (simp add: created_end_def table_end_def ec_def)
    have u: "unat (of_nat ?off :: u64) = ?off" "unat (of_nat (unat (e_nscn elf) * shdr_fsz ec) :: u64) = unat (e_nscn elf) * shdr_fsz ec"
      using bound N by (simp_all add: unat_of_nat_u64 del: of_nat_mult)
    have seg: "segment ?off (unat (e_nscn elf) * shdr_fsz ec) I = shdrs_image ec sw st1 (e_scn elf)"
      using at [of ?k] last lastp u by (simp del: of_nat_mult)
    have shoff: "unat (ehdr_shoff (created_ehdr elf eh st)) = ?off"
      using created_ehdr_facts(3) [OF r] n0(1) u(1) by (simp add: table_offset_def ec_def)
    have num: "numbered_from 0 ec st1 (e_scn elf)" using created_numbered [OF r cs placed] by (simp add: ec_def)
    let ?sh = "\<lambda>s. shdr_image ec sw (host_order st1) (s_shdr (scn_at st1 s))"
    have w: "\<forall>s\<in>set (e_scn elf). length (?sh s) = shdr_fsz ec"
      using num length_images(2) [OF std] by (auto simp: numbered_from_def in_set_conv_nth)
    have "segment (i * shdr_fsz ec) (shdr_fsz ec) (concat (map ?sh ss)) = ?sh (ss ! i)"
      if "\<forall>s\<in>set ss. length (?sh s) = shdr_fsz ec" "i < length ss" for ss i
      using that
    proof (induction ss arbitrary: i)
      case (Cons s ss)
      then show ?case by (cases i) (simp_all add: segment_def)
    qed simp
    from this [OF w i] have "segment (i * shdr_fsz ec) (shdr_fsz ec) (segment ?off (unat (e_nscn elf) * shdr_fsz ec) I) = ?sh (e_scn elf ! i)"
      unfolding seg shdrs_image_def .
    moreover have "segment (i * shdr_fsz ec) (shdr_fsz ec) (segment ?off (unat (e_nscn elf) * shdr_fsz ec) I)
        = segment (?off + i * shdr_fsz ec) (shdr_fsz ec) I"
    proof -
      have "i * shdr_fsz ec + shdr_fsz ec \<le> unat (e_nscn elf) * shdr_fsz ec"
        using i n by (metis Suc_leI add.commute mult_Suc mult_le_mono1)
      then show ?thesis by (simp add: segment_def take_drop min_def add.commute)
    qed
    ultimately show ?thesis unfolding shoff by simp
  qed
qed

text \<open>What the two commands of \<open>elf_update\<close> do, from the layout on.\<close>

lemma update_laid_out:
  assumes "creating e elf eh st"
  shows "\<exists>st1. libelf_resync_elf e [] st = Some ((Some (of_nat (created_end elf st)), created_extents elf st st1), st1)
    \<and> elf_update os (Some e) ELF_C_NULL st = Some ((of_nat (created_end elf st), []), st1)
    \<and> created_store e elf eh st st1
    \<and> header_ready e (created_elf elf eh st) (created_ehdr elf eh st) st1
    \<and> sections_placed (e_class elf) (created_sections elf) (e_scn elf) st st1"
  using resync_elf_creates [OF assms] by (auto simp: elf_update_null_creating [OF assms])

lemma elf_update_write_creating:
  assumes "creating e elf eh st" "created_store e elf eh st st1" "0 \<le> e_fd elf"
    and "libelf_resync_elf e [] st = Some ((Some (of_nat (created_end elf st)), xs), st1)"
  shows "elf_update os (Some e) ELF_C_WRITE st = libelf_write_elf os e (of_nat (created_end elf st)) xs [] st1"
proof -
  have N: "created_end elf st < 2 ^ 62" using assms(1) by (simp add: creating_def)
  then have "unat (of_nat (created_end elf st) :: u64) = created_end elf st" by (simp add: unat_of_nat_u64)
  then have "\<not> sint (of_nat (created_end elf st) :: u64) < 0"
    using sint_small [of "of_nat (created_end elf st) :: u64"] N by simp
  moreover have "elfs st e = Some elf" "e_kind elf = ELF_K_ELF" "e_class elf = ELFCLASS32 \<or> e_class elf = ELFCLASS64"
    "e_version elf \<noteq> EV_NONE" "e_cmd elf = ELF_C_WRITE"
    using assms(1) by (auto simp: creating_def header_ready_def std_class_def)
  moreover have "elfs st1 e = Some (created_elf elf eh st)" "\<not> e_fd (created_elf elf eh st) < 0"
    using assms(2,3) by (simp_all add: created_store_def created_elf_def)
  ultimately show ?thesis using assms(4) by (auto simp: elf_update_def Let_def set_elf_same)
qed

text \<open>The demonstration object, and a system that takes what is written.\<close>

definition demo_write_os :: os where
  "demo_write_os tr = \<lparr>r_value = (case last tr of Write fd bs \<Rightarrow> int (length bs) | _ \<Rightarrow> 0), r_errno = 0, r_bytes = [],
     r_mode = Regular, r_size = 0\<rparr>"

lemma demo_accepts: "accepts_image demo_write_os fd img"
  by (simp add: accepts_image_def demo_write_os_def)

lemma demo_created_facts:
  "e_scn demo_new_elf = [1, 2]" "e_class demo_new_elf = ELFCLASS64" "e_fd demo_new_elf = 3" "e_rawfile demo_new_elf = None"
  "e_flags demo_new_elf = 0" "e_nphdr demo_new_elf = 0" "e_nscn demo_new_elf = 2" "fresh demo_created = 5"
  "mem demo_created = [0 \<mapsto> [0, 102, 111, 0], 1 \<mapsto> [7, 8, 9]]" "base demo_created = (\<lambda>b. of_nat (4096 * Suc b))"
  by (simp_all add: demo_created_simps)

lemma demo_created_datas:
  "\<exists>ld. datas demo_created 3 = Some ld \<and> d_flags ld AND LIBELF_F_DATA_MALLOCED = 0"
  "\<exists>ld. datas demo_created 4 = Some ld \<and> d_flags ld AND LIBELF_F_DATA_MALLOCED = 0"
  by (simp_all add: demo_created_def demo_pieces_def)

lemma demo_writable:
  "data_writable ELFCLASS64 5 200 demo_created 3" "data_writable ELFCLASS64 5 200 demo_created 4"
  using demo_created_at(7,8)
  by (simp_all add: data_writable_def demo_created_at(3,4) demo_created_facts Let_def data_ready_def bad_align_def byte_sizes
      fixed_size_def blocks_apart_def addr_def libelf_malign_def malign_table_def prim_basic_def)

lemma demo_image_ready: "image_ready 0 demo_new_elf (Ehdr64 demo_new_ehdr) demo_created"
proof -
  have hc: "has_contents ELFCLASS64 demo_created s \<Longrightarrow> s = 1 \<Longrightarrow> False" for s
    by (simp add: has_contents_def takes_space_def demo_created_at(1) new_scn_def zero_shdr_def zero_Elf_Shdr_def)
  have al: "section_align ELFCLASS64 (scn_at demo_created 2) demo_created = 1"
    by (simp add: section_align_def demo_created_at(2-4) untouched_def max_align_def libelf_xlate_shtype_def
        libelf_falign_def falign_table_def new_scn_def demo_strtab_def zero_Elf_Shdr_def)
  have "writable_section 0 demo_new_elf demo_created s" if "s \<in> set (e_scn demo_new_elf)" for s
  proof (cases "s = 1")
    case True
    then show ?thesis using hc [of s]
      by (auto simp: writable_section_def demo_created_facts demo_created_at(1) new_scn_def)
  next
    case False
    then have "s = 2" using that by (simp add: demo_created_facts)
    have "(ucast (libelf_falign (libelf_xlate_shtype (shdr_type (s_shdr (scn_at demo_created 2)))) ELFCLASS64) :: u64) = 1"
      by (simp add: demo_created_at(2) new_scn_def libelf_xlate_shtype_def libelf_falign_def falign_table_def
          demo_strtab_def zero_Elf_Shdr_def)
    moreover have "s_data (scn_at demo_created 2) = [3, 4]" "s_elf (scn_at demo_created 2) = Some 0"
      "s_rawdata (scn_at demo_created 2) = []" by (simp_all add: demo_created_at(2) new_scn_def)
    ultimately show ?thesis using al demo_writable demo_created_datas
      unfolding writable_section_def demo_created_facts demo_created_end \<open>s = 2\<close> by simp
  qed
  moreover have "image_room 5 200 (demo_created\<lparr>fresh := Suc 5\<rparr>)"
    by (simp add: image_room_def blocks_apart_def demo_created_facts)
  moreover have "section_datas demo_created [1, 2] = [3, 4]"
    by (simp add: section_datas_def demo_created_at(1,2) new_scn_def)
  moreover have "\<forall>i<2. s_ndx (scn_at demo_created ([1, 2] ! i)) = of_nat i"
  proof (intro allI impI)
    fix i :: nat assume "i < 2"
    then have "i = 0 \<or> i = 1" by auto
    then show "s_ndx (scn_at demo_created ([1, 2] ! i)) = of_nat i"
      using demo_created_at(1,2) by (auto simp: new_scn_def)
  qed
  ultimately show ?thesis
    using demo_creating by (simp add: image_ready_def demo_created_facts demo_created_end demo_new_ehdr_def)
qed

section \<open>Properties\<close>





end
