(* ===== verification/Elf_Open.thy ===== *)
theory Elf_Open
  imports Elf_Archive Libelf_OS Elf_Flags
begin

text \<open>
  Descriptors come and go: \<open>libelf_memory.c\<close>, \<open>libelf_open.c\<close>, \<open>elf_memory.c\<close>, \<open>elf_open.c\<close>,
  \<open>elf_begin.c\<close>, \<open>elf_end.c\<close>, the traversal of archives (\<open>_libelf_ar_open_member\<close> of
  \<open>libelf_ar.c\<close>, \<open>elf_next.c\<close>, \<open>elf_rand.c\<close>) and the small operations on descriptors
  (\<open>elf_cntl.c\<close>, \<open>elf_getbase.c\<close>, \<open>elf_getident.c\<close>, \<open>elf_rawfile.c\<close>, \<open>elf_kind.c\<close>).
  Operations that ask the operating system take its replies as a parameter and return the
  trace of the calls.
\<close>

section \<open>Objects in memory\<close>

text \<open>The check of the identification bytes; the second component is the error found.\<close>

definition LIBELF_IS_ELF :: "byte list \<Rightarrow> bool" where
  "LIBELF_IS_ELF ident \<longleftrightarrow> take 4 ident = ELFMAG"

definition ident_error :: "byte list \<Rightarrow> Elf_Error option" where
  "ident_error ident =
     (let byteorder = uint (ident ! 5); cls = uint (ident ! 4); version = uint (ident ! 6)
      in if version > uint (EV_CURRENT :: u32) then Some ELF_E_VERSION
         else if (byteorder \<noteq> uint (ELFDATA2LSB :: u32) \<and> byteorder \<noteq> uint (ELFDATA2MSB :: u32))
           \<or> (cls \<noteq> ELFCLASS32 \<and> cls \<noteq> ELFCLASS64) then Some ELF_E_HEADER
         else None)"

definition libelf_memory :: "ptr \<Rightarrow> u64 \<Rightarrow> bool \<Rightarrow> store \<Rightarrow> (elf_ref option \<times> store) option" where
  "libelf_memory img sz reporterror st =
     do { assert_that (img \<noteq> None \<and> sz > 0);
          let (er, st) = libelf_allocate_elf st;
          case er of None \<Rightarrow> Some (None, st)
          | Some e \<Rightarrow>
              do { elf \<leftarrow> elfs st e;
                   let elf = elf\<lparr>e_cmd := ELF_C_READ, e_rawfile := img, e_rawsize := sz\<rparr>;
                   let st = set_elf e elf st;
                   magic \<leftarrow> (if sz > of_nat EI_NIDENT then read_bytes img 4 st else Some []);
                   if sz > of_nat EI_NIDENT \<and> LIBELF_IS_ELF magic then
                     do { ident \<leftarrow> read_bytes img 7 st;
                          case ident_error ident of
                            Some E \<Rightarrow>
                              if reporterror
                              then do { st \<leftarrow> libelf_release_elf e (set_error E st); Some (None, st) }
                              else Some (Some e, st)
                          | None \<Rightarrow>
                              do { st \<leftarrow> libelf_init_elf e ELF_K_ELF st;
                                   elf \<leftarrow> elfs st e;
                                   Some (Some e, set_elf e (elf\<lparr>e_byteorder := ucast (ident ! 5),
                                     e_class := uint (ident ! 4), e_version := ucast (ident ! 6)\<rparr>) st) } }
                   else
                     do { armag \<leftarrow> (if sz \<ge> of_nat SARMAG then read_bytes img SARMAG st else Some []);
                          if armag = ARMAG then libelf_ar_open e reporterror st
                          else Some (Some e, st) } } }"

definition memory_object :: "bool \<Rightarrow> ptr \<Rightarrow> u64 \<Rightarrow> store \<Rightarrow> (elf_ref option \<times> store) option" where
  "memory_object reporterror img sz st =
     (if libelf_version (globals st) = EV_NONE then Some (None, set_error ELF_E_SEQUENCE st)
      else if img = None \<or> sz = 0 then Some (None, set_error ELF_E_ARGUMENT st)
      else libelf_memory img sz reporterror st)"

definition elf_memory :: "ptr \<Rightarrow> u64 \<Rightarrow> store \<Rightarrow> (elf_ref option \<times> store) option" where
  "elf_memory = memory_object True"

definition elf_openmemory :: "ptr \<Rightarrow> u64 \<Rightarrow> store \<Rightarrow> (elf_ref option \<times> store) option" where
  "elf_openmemory = memory_object False"

section \<open>Members of archives\<close>

definition libelf_ar_open_member :: "int \<Rightarrow> Elf_Cmd \<Rightarrow> elf_ref \<Rightarrow> store \<Rightarrow> (elf_ref option \<times> store) option" where
  "libelf_ar_open_member fd c a st =
     do { elf \<leftarrow> elfs st a;
          assert_that (e_kind elf = ELF_K_AR);
          let next = (of_int (e_next elf) :: u64);
          if next = 0 then Some (None, st)
          else
            do { assert_that (next AND 1 = 0);
                 let arh = ptr_add (e_rawfile elf) next;
                 size \<leftarrow> read_bytes (ptr_add arh 48) 10 st;
                 case libelf_ar_get_number size 10 of None \<Rightarrow> Some (None, set_error ELF_E_ARCHIVE st)
                 | Some sz \<Rightarrow>
                     do { name \<leftarrow> read_bytes arh 16 st;
                          let nsz = (if IS_EXTENDED_BSD_NAME name then libelf_ar_get_number (drop 3 name) 10 else Some 0);
                          case nsz of None \<Rightarrow> Some (None, set_error ELF_E_ARCHIVE st)
                          | Some nsz \<Rightarrow>
                              do { (er, st) \<leftarrow> elf_memory (ptr_add arh (of_nat AR_HDR_SIZE + nsz)) (sz - nsz) st;
                                   case er of None \<Rightarrow> Some (None, st)
                                   | Some e \<Rightarrow>
                                       do { child \<leftarrow> elfs st e;
                                            elf \<leftarrow> elfs st a;
                                            let st = set_elf e (child\<lparr>e_fd := fd, e_cmd := c, e_hdr := Rawhdr arh,
                                              e_parent := Some a\<rparr>) st;
                                            Some (Some e, set_elf a (elf\<lparr>e_nchildren := e_nchildren elf + 1\<rparr>) st) } } } } }"

definition elf_next :: "elf_ref option \<Rightarrow> store \<Rightarrow> (Elf_Cmd \<times> store) option" where
  "elf_next er st =
     (case er of None \<Rightarrow> Some (ELF_C_NULL, st)
      | Some e \<Rightarrow>
          do { elf \<leftarrow> elfs st e;
               case e_parent elf of None \<Rightarrow> Some (ELF_C_NULL, set_error ELF_E_ARGUMENT st)
               | Some p \<Rightarrow>
                   do { parent \<leftarrow> elfs st p;
                        assert_that (e_kind parent = ELF_K_AR \<and> e_cmd parent = ELF_C_READ
                          \<and> addr (e_rawfile elf) st > addr (e_rawfile parent) st);
                        let next = addr (e_rawfile elf) st - addr (e_rawfile parent) st + e_rawsize elf;
                        let next = (next + 1) AND NOT 1;
                        Some (ELF_C_READ, set_elf p
                          (parent\<lparr>e_next := (if sint next \<ge> sint (e_rawsize parent) then 0 else sint next)\<rparr>) st) } })"

definition elf_rand :: "elf_ref option \<Rightarrow> u64 \<Rightarrow> store \<Rightarrow> (u64 \<times> store) option" where
  "elf_rand er offset st =
     (case er of None \<Rightarrow> Some (0, set_error ELF_E_ARGUMENT st)
      | Some ar \<Rightarrow>
          do { elf \<leftarrow> elfs st ar;
               if e_kind elf \<noteq> ELF_K_AR \<or> offset AND 1 \<noteq> 0 \<or> sint offset < int SARMAG
                 \<or> offset + of_nat AR_HDR_SIZE \<ge> e_rawsize elf
               then Some (0, set_error ELF_E_ARGUMENT st)
               else
                 do { fmag \<leftarrow> read_bytes (ptr_add (ptr_add (e_rawfile elf) offset) 58) 2 st;
                      if fmag \<noteq> [0x60, 0x0A] then Some (0, set_error ELF_E_ARCHIVE st)
                      else Some (offset, set_elf ar (elf\<lparr>e_next := sint offset\<rparr>) st) } })"


section \<open>Files\<close>

text \<open>
  The loop of \<open>_libelf_read_special_file\<close>, which goes on for as long as the other end sends
  data: \<open>data\<close> is what has been read into the buffer of \<open>bufsz\<close> bytes, which is private to the
  function.  A call of \<open>read\<close> delivers as many bytes as it says.  The loop ends with the
  last reply to \<open>read\<close>, or with nothing when the buffer cannot be extended.
\<close>

definition read_call :: "os \<Rightarrow> int \<Rightarrow> nat \<Rightarrow> trace \<Rightarrow> reply \<times> byte list \<times> trace" where
  "read_call os fd n tr =
     (let (r, tr) = call os (Read fd (of_nat n)) tr
      in (r, take (nat (r_value r)) (r_bytes r), tr))"

partial_function (option) read_special_loop ::
  "os \<Rightarrow> int \<Rightarrow> byte list \<Rightarrow> nat \<Rightarrow> trace \<Rightarrow> store \<Rightarrow> (((reply option \<times> byte list \<times> nat) \<times> trace) \<times> store) option"
where
  "read_special_loop os fd data bufsz tr st =
     (let (ok, st) = (if length data = bufsz then alloc_ok st else (True, st));
          bufsz = (if length data = bufsz then 2 * bufsz else bufsz)
      in if \<not> ok then Some (((None, data, bufsz), tr), st)
         else
           let (r, bs, tr) = read_call os fd (bufsz - length data) tr
           in if r_value r \<le> 0 then Some (((Some r, data, bufsz), tr), st)
              else read_special_loop os fd (data @ bs) bufsz tr st)"

text \<open>The result is the block with the data and its size, or \<open>NULL\<close>.\<close>

definition libelf_read_special_file ::
  "os \<Rightarrow> int \<Rightarrow> trace \<Rightarrow> store \<Rightarrow> (((ptr \<times> u64) \<times> trace) \<times> store) option"
where
  "libelf_read_special_file os fd tr st =
     (let (ok, st) = alloc_ok st
      in if \<not> ok then Some (((None, 0), tr), set_error ELF_E_RESOURCE st)
         else
           do { (((r, data, bufsz), tr), st) \<leftarrow> read_special_loop os fd [] 65536 tr st;
                case r of None \<Rightarrow> Some (((None, 0), tr), set_error ELF_E_RESOURCE st)
                | Some r \<Rightarrow>
                    if r_value r < 0 then Some (((None, 0), tr), set_error_os ELF_E_IO (r_errno r) st)
                    else if data = [] then Some (((None, 0), tr), set_error ELF_E_ARGUMENT st)
                    else
                      let (ok, st) = (if length data < bufsz then alloc_ok st else (True, st))
                      in if \<not> ok then Some (((None, 0), tr), set_error ELF_E_RESOURCE st)
                         else
                           Some (((Some (fresh st, 0), of_nat (length data)), tr),
                             st\<lparr>mem := (mem st)(fresh st \<mapsto> data), fresh := Suc (fresh st)\<rparr>) })"

text \<open>The contents of a regular file, mapped or read.  The last component tells which.\<close>

definition regular_contents ::
  "os \<Rightarrow> int \<Rightarrow> u64 \<Rightarrow> trace \<Rightarrow> store \<Rightarrow> (((ptr \<times> u32) \<times> trace) \<times> store) option"
where
  "regular_contents os fd fsize tr st =
     (let (r, tr) = call os (Mmap fd fsize) tr
      in if r_value r \<ge> 0 then
           (let (p, st) = map_block r st in Some (((p, LIBELF_F_RAWFILE_MMAP), tr), st))
         else
           let (m, st) = malloc (unat fsize) st
           in if m = None then Some (((None, 0), tr), set_error ELF_E_RESOURCE st)
              else
                let (r, bs, tr) = read_call os fd (unat fsize) tr
                in if r_value r \<noteq> sint fsize
                   then do { st \<leftarrow> free_ptr m (set_error_os ELF_E_IO (r_errno r) st); Some (((None, 0), tr), st) }
                   else do { st \<leftarrow> write_bytes m bs st; Some (((m, LIBELF_F_RAWFILE_MALLOC), tr), st) })"

text \<open>
  \<open>elf_end\<close>.  The loop climbs from a descriptor that is no longer active to its archive; each
  step leaves one parent less, so the number of descriptors bounds it.
\<close>

definition release_rawfile :: "os \<Rightarrow> Elf \<Rightarrow> trace \<Rightarrow> store \<Rightarrow> (trace \<times> store) option" where
  "release_rawfile os elf tr st =
     (if e_rawfile elf = None then Some (tr, st)
      else if e_flags elf AND LIBELF_F_RAWFILE_MALLOC \<noteq> 0
      then do { st \<leftarrow> free_ptr (e_rawfile elf) st; Some (tr, st) }
      else if e_flags elf AND LIBELF_F_RAWFILE_MMAP \<noteq> 0 then
        let (r, tr) = call os (Munmap (e_rawfile elf) (e_rawsize elf)) tr
        in if r_value r < 0 then Some (tr, st)
           else do { st \<leftarrow> unmap_block (e_rawfile elf) st; Some (tr, st) }
      else Some (tr, st))"

partial_function (option) end_loop :: "os \<Rightarrow> elf_ref option \<Rightarrow> trace \<Rightarrow> store \<Rightarrow> (trace \<times> store) option" where
  "end_loop os er tr st =
     (case er of None \<Rightarrow> Some (tr, st)
      | Some e \<Rightarrow>
          do { elf \<leftarrow> elfs st e;
               if e_activations elf \<noteq> 0 then Some (tr, st)
               else if e_kind elf = ELF_K_AR \<and> e_nchildren elf > 0 then Some (tr, st)
               else
                 do { assert_that (e_kind elf \<noteq> ELF_K_NUM);
                      st \<leftarrow> (if e_kind elf = ELF_K_ELF then release_all_scns (e_scn elf) st else Some st);
                      (tr, st) \<leftarrow> release_rawfile os elf tr st;
                      st \<leftarrow> (case e_parent elf of None \<Rightarrow> Some st
                            | Some p \<Rightarrow> do { parent \<leftarrow> elfs st p;
                                             Some (set_elf p (parent\<lparr>e_nchildren := e_nchildren parent - 1\<rparr>) st) });
                      st \<leftarrow> libelf_release_elf e st;
                      end_loop os (e_parent elf) tr st } })"

definition elf_end :: "os \<Rightarrow> elf_ref option \<Rightarrow> trace \<Rightarrow> store \<Rightarrow> ((int \<times> trace) \<times> store) option" where
  "elf_end os er tr st =
     (case er of None \<Rightarrow> Some ((0, tr), st)
      | Some e \<Rightarrow>
          do { elf \<leftarrow> elfs st e;
               if e_activations elf = 0 then Some ((0, tr), st)
               else
                 do { let n = e_activations elf - 1;
                      let st = set_elf e (elf\<lparr>e_activations := n\<rparr>) st;
                      if n > 0 then Some ((n, tr), st)
                      else
                        do { assert_that (n = 0);
                             (tr, st) \<leftarrow> end_loop os (Some e) tr st;
                             Some ((0, tr), st) } } })"

text \<open>
  \<open>_libelf_open_object\<close>.  \<open>file_contents\<close> is the part that brings the contents of the file
  into memory: the address, its size and the flags, \<open>NULL\<close> after an error.
\<close>

definition file_contents ::
  "os \<Rightarrow> int \<Rightarrow> file_type \<Rightarrow> u64 \<Rightarrow> trace \<Rightarrow> store \<Rightarrow> (((ptr \<times> u64 \<times> u32) \<times> trace) \<times> store) option"
where
  "file_contents os fd mode fsize tr st =
     (if mode = Regular then
        if fsize = 0 then Some (((None, 0, 0), tr), set_error ELF_E_ARGUMENT st)
        else do { (((m, flags), tr), st) \<leftarrow> regular_contents os fd fsize tr st; Some (((m, fsize, flags), tr), st) }
      else
        do { (((m, fsize), tr), st) \<leftarrow> libelf_read_special_file os fd tr st;
             Some (((m, fsize, LIBELF_F_RAWFILE_MALLOC OR LIBELF_F_SPECIAL_FILE), tr), st) })"

definition open_for_writing :: "int \<Rightarrow> Elf_Cmd \<Rightarrow> file_type \<Rightarrow> store \<Rightarrow> (elf_ref option \<times> store) option" where
  "open_for_writing fd c mode st =
     (let (er, st) = libelf_allocate_elf st
      in case er of None \<Rightarrow> Some (None, st)
         | Some e \<Rightarrow>
             do { st \<leftarrow> libelf_init_elf e ELF_K_ELF st;
                  elf \<leftarrow> elfs st e;
                  Some (Some e, set_elf e (elf\<lparr>e_byteorder := libelf_byteorder (globals st), e_fd := fd, e_cmd := c,
                    e_flags := (if mode \<noteq> Regular then e_flags elf OR LIBELF_F_SPECIAL_FILE
                                else e_flags elf)\<rparr>) st) })"

definition libelf_open_object ::
  "os \<Rightarrow> int \<Rightarrow> Elf_Cmd \<Rightarrow> bool \<Rightarrow> trace \<Rightarrow> store \<Rightarrow> ((elf_ref option \<times> trace) \<times> store) option"
where
  "libelf_open_object os fd c reporterror tr st =
     do { assert_that (c = ELF_C_READ \<or> c = ELF_C_RDWR \<or> c = ELF_C_WRITE);
          let (r, tr) = call os (Fstat fd) tr;
          if r_value r < 0 then Some ((None, tr), set_error_os ELF_E_IO (r_errno r) st)
          else if r_mode r = Other_file then Some ((None, tr), set_error ELF_E_ARGUMENT st)
          else if c = ELF_C_WRITE
          then do { (er, st) \<leftarrow> open_for_writing fd c (r_mode r) st; Some ((er, tr), st) }
          else
            do { (((m, fsize, flags), tr), st) \<leftarrow> file_contents os fd (r_mode r) (r_size r) tr st;
                 if m = None then Some ((None, tr), st)
                 else
                   do { (er, st) \<leftarrow> libelf_memory m fsize reporterror st;
                        case er of
                          None \<Rightarrow>
                            do { assert_that (flags AND LIBELF_F_RAWFILE_MALLOC \<noteq> 0 \<or> flags AND LIBELF_F_RAWFILE_MMAP \<noteq> 0);
                                 if flags AND LIBELF_F_RAWFILE_MALLOC \<noteq> 0
                                 then do { st \<leftarrow> free_ptr m st; Some ((None, tr), st) }
                                 else
                                   let (r, tr) = call os (Munmap m fsize) tr
                                   in if r_value r < 0 then Some ((None, tr), st)
                                      else do { st \<leftarrow> unmap_block m st; Some ((None, tr), st) } }
                        | Some e \<Rightarrow>
                            do { elf \<leftarrow> elfs st e;
                                 if c = ELF_C_RDWR \<and> e_kind elf = ELF_K_AR then
                                   do { ((_, tr), st) \<leftarrow> elf_end os (Some e) tr st;
                                        Some ((None, tr), set_error ELF_E_ARGUMENT st) }
                                 else
                                   Some ((Some e, tr), set_elf e (elf\<lparr>e_flags := e_flags elf OR flags, e_fd := fd,
                                     e_cmd := c\<rparr>) st) } } } }"

definition elf_open :: "os \<Rightarrow> int \<Rightarrow> store \<Rightarrow> ((elf_ref option \<times> trace) \<times> store) option" where
  "elf_open os fd st =
     (if libelf_version (globals st) = EV_NONE then Some ((None, []), set_error ELF_E_SEQUENCE st)
      else libelf_open_object os fd ELF_C_READ False [] st)"

definition elf_begin ::
  "os \<Rightarrow> int \<Rightarrow> Elf_Cmd \<Rightarrow> elf_ref option \<Rightarrow> trace \<Rightarrow> store \<Rightarrow> ((elf_ref option \<times> trace) \<times> store) option"
where
  "elf_begin os fd c a tr st =
     (let fail = (\<lambda>E. Some ((None, tr), set_error E st));
          proceed = (\<lambda>a. case a of None \<Rightarrow> libelf_open_object os fd c True tr st
            | Some r \<Rightarrow>
                do { elf \<leftarrow> elfs st r;
                     if e_kind elf = ELF_K_AR
                     then do { (er, st) \<leftarrow> libelf_ar_open_member (e_fd elf) c r st; Some ((er, tr), st) }
                     else Some ((Some r, tr), set_elf r (elf\<lparr>e_activations := e_activations elf + 1\<rparr>) st) });
          check = (case a of None \<Rightarrow> proceed None
            | Some r \<Rightarrow>
                do { elf \<leftarrow> elfs st r;
                     if (e_fd elf \<noteq> -1 \<and> e_fd elf \<noteq> fd) \<or> c \<noteq> e_cmd elf then fail ELF_E_ARGUMENT else proceed a })
      in if libelf_version (globals st) = EV_NONE then fail ELF_E_SEQUENCE
         else case c of
           ELF_C_NULL \<Rightarrow> Some ((None, tr), st)
         | ELF_C_WRITE \<Rightarrow> proceed None
         | ELF_C_RDWR \<Rightarrow> if a \<noteq> None then fail ELF_E_ARGUMENT else check
         | ELF_C_READ \<Rightarrow> check
         | _ \<Rightarrow> fail ELF_E_ARGUMENT)"

section \<open>Asking about a descriptor\<close>

definition elf_cntl :: "elf_ref option \<Rightarrow> Elf_Cmd \<Rightarrow> store \<Rightarrow> (int \<times> store) option" where
  "elf_cntl er c st =
     (case er of None \<Rightarrow> Some (-1, set_error ELF_E_ARGUMENT st)
      | Some e \<Rightarrow>
          if c \<noteq> ELF_C_FDDONE \<and> c \<noteq> ELF_C_FDREAD then Some (-1, set_error ELF_E_ARGUMENT st)
          else
            do { elf \<leftarrow> elfs st e;
                 if e_parent elf \<noteq> None then Some (-1, set_error ELF_E_ARCHIVE st)
                 else if c = ELF_C_FDREAD
                 then (if e_cmd elf = ELF_C_WRITE then Some (-1, set_error ELF_E_MODE st) else Some (0, st))
                 else Some (0, set_elf e (elf\<lparr>e_fd := -1\<rparr>) st) })"

definition elf_getbase :: "elf_ref option \<Rightarrow> store \<Rightarrow> (u64 \<times> store) option" where
  "elf_getbase er st =
     (case er of None \<Rightarrow> Some (-1, set_error ELF_E_ARGUMENT st)
      | Some e \<Rightarrow>
          do { elf \<leftarrow> elfs st e;
               case e_parent elf of None \<Rightarrow> Some (0, st)
               | Some p \<Rightarrow>
                   do { parent \<leftarrow> elfs st p;
                        Some (addr (e_rawfile elf) st - addr (e_rawfile parent) st, st) } })"

definition elf_getident :: "elf_ref option \<Rightarrow> store \<Rightarrow> ((ptr \<times> u64) \<times> store) option" where
  "elf_getident er st =
     (case er of None \<Rightarrow> Some ((None, 0), set_error ELF_E_ARGUMENT st)
      | Some e \<Rightarrow>
          do { elf \<leftarrow> elfs st e;
               if e_cmd elf = ELF_C_WRITE \<and> e_rawfile elf = None then Some ((None, 0), set_error ELF_E_SEQUENCE st)
               else
                 do { assert_that (e_kind elf \<noteq> ELF_K_AR \<or> e_cmd elf = ELF_C_READ);
                      Some ((e_rawfile elf,
                        if e_kind elf = ELF_K_AR then of_nat SARMAG
                        else if e_kind elf = ELF_K_ELF then of_nat EI_NIDENT else e_rawsize elf), st) } })"

definition elf_rawfile :: "elf_ref option \<Rightarrow> store \<Rightarrow> ((ptr \<times> u64) \<times> store) option" where
  "elf_rawfile er st =
     (case er of None \<Rightarrow> Some ((None, 0), set_error ELF_E_ARGUMENT st)
      | Some e \<Rightarrow>
          do { elf \<leftarrow> elfs st e;
               Some ((e_rawfile elf, e_rawsize elf),
                 if e_rawfile elf = None \<and> e_cmd elf = ELF_C_WRITE then set_error ELF_E_SEQUENCE st else st) })"

definition elf_kind :: "elf_ref option \<Rightarrow> store \<Rightarrow> Elf_Kind option" where
  "elf_kind er st =
     (case er of None \<Rightarrow> Some ELF_K_NONE
      | Some e \<Rightarrow>
          do { elf \<leftarrow> elfs st e;
               Some (if e_kind elf = ELF_K_AR \<or> e_kind elf = ELF_K_ELF then e_kind elf else ELF_K_NONE) })"

section \<open>What an object in memory is taken for\<close>

text \<open>
  The descriptor for the bytes \<open>D\<close> when parse errors are reported, or nothing when there is one;
  \<open>D\<close> is not an archive.
\<close>

definition is_elf :: "byte list \<Rightarrow> bool" where
  "is_elf D \<longleftrightarrow> length D > EI_NIDENT \<and> LIBELF_IS_ELF D"

definition memory_elf :: "u32 \<Rightarrow> ptr \<Rightarrow> u64 \<Rightarrow> byte list \<Rightarrow> Elf option" where
  "memory_elf version img sz D =
     (let elf = (new_elf version)\<lparr>e_cmd := ELF_C_READ, e_rawfile := img, e_rawsize := sz\<rparr>
      in if \<not> is_elf D then Some elf
         else if ident_error D \<noteq> None then None
         else Some (elf\<lparr>e_kind := ELF_K_ELF, e_byteorder := ucast (D ! 5), e_class := uint (D ! 4),
                e_version := ucast (D ! 6)\<rparr>))"

lemma ident_error_take: "length D \<ge> 7 \<Longrightarrow> ident_error (take 7 D) = ident_error D"
  by (simp add: ident_error_def)

lemma read_prefix:
  assumes "mem st b = Some S" "drop off S = D @ R" "n \<le> length D" "n \<noteq> 0"
  shows "read_bytes (Some (b, off)) n st = Some (take n D)"
proof -
  have "length S - off = length D + length R" using arg_cong [OF assms(2), of length] by simp
  then have "off + n \<le> length S" using assms(3,4) by linarith
  then show ?thesis using assms by (simp add: read_bytes_def)
qed

lemma libelf_memory_object:
  assumes "mem st b = Some S" "drop off S = D @ R" "length D = unat sz" "sz \<noteq> 0" "oom st = []"
    and "take SARMAG D \<noteq> ARMAG"
  shows "libelf_memory (Some (b, off)) sz True st =
    Some (case memory_elf (libelf_version (globals st)) (Some (b, off)) sz D of
        Some elf \<Rightarrow> (Some (fresh st), st\<lparr>fresh := Suc (fresh st), elfs := (elfs st)(fresh st \<mapsto> elf)\<rparr>)
      | None \<Rightarrow> (None, (set_error (the (ident_error D)) (st\<lparr>fresh := Suc (fresh st)\<rparr>))\<lparr>elfs := (elfs st)(fresh st := None)\<rparr>))"
proof -
  let ?img = "Some (b, off)"
  let ?elf = "(new_elf (libelf_version (globals st)))\<lparr>e_cmd := ELF_C_READ, e_rawfile := ?img, e_rawsize := sz\<rparr>"
  define st0 where "st0 = st\<lparr>fresh := Suc (fresh st), elfs := (elfs st)(fresh st \<mapsto> new_elf (libelf_version (globals st)))\<rparr>"
  define st1 where "st1 = st\<lparr>fresh := Suc (fresh st), elfs := (elfs st)(fresh st \<mapsto> ?elf)\<rparr>"
  have st1: "mem st1 b = Some S" using assms(1) by (simp add: st1_def)
  note read = read_prefix [OF st1 assms(2)]
  have gt: "sz > of_nat EI_NIDENT \<longleftrightarrow> length D > EI_NIDENT" "of_nat SARMAG \<le> sz \<longleftrightarrow> SARMAG \<le> length D" "sz > 0"
    using assms(3,4) by (simp_all add: word_less_nat_alt word_le_nat_alt unat_gt_0)
  define M where "M = (if sz > of_nat EI_NIDENT then take 4 D else [])"
  have M: "(if sz > of_nat EI_NIDENT then read_bytes ?img 4 st1 else Some []) = Some M"
    "(sz > of_nat EI_NIDENT \<and> LIBELF_IS_ELF M) = is_elf D"
    using read [of 4] gt(1) by (auto simp: M_def is_elf_def LIBELF_IS_ELF_def)
  define A where "A = (if of_nat SARMAG \<le> sz then take SARMAG D else [])"
  have A: "(if of_nat SARMAG \<le> sz then read_bytes ?img SARMAG st1 else Some []) = Some A" "A \<noteq> ARMAG"
    using read [of SARMAG] assms(6) gt(2) by (auto simp: A_def ARMAG_def)
  have alloc: "libelf_allocate_elf st = (Some (fresh st), st0)"
    using assms(5) by (simp add: libelf_allocate_elf_def set_elf_def st0_def)
  have st0: "elfs st0 (fresh st) = Some (new_elf (libelf_version (globals st)))" "set_elf (fresh st) ?elf st0 = st1"
    by (simp_all add: st0_def st1_def set_elf_def)
  let ?e = "fresh st"
  have start: "libelf_memory ?img sz True st =
     (if is_elf D then
        do { ident \<leftarrow> read_bytes ?img 7 st1;
             case ident_error ident of
               Some E \<Rightarrow> do { st \<leftarrow> libelf_release_elf ?e (set_error E st1); Some (None, st) }
             | None \<Rightarrow>
                 do { st \<leftarrow> libelf_init_elf ?e ELF_K_ELF st1;
                      elf \<leftarrow> elfs st ?e;
                      Some (Some ?e, set_elf ?e (elf\<lparr>e_byteorder := ucast (ident ! 5),
                        e_class := uint (ident ! 4), e_version := ucast (ident ! 6)\<rparr>) st) } }
      else Some (Some ?e, st1))"
    unfolding libelf_memory_def alloc Let_def prod.case option.case st0 Option.bind.simps if_True M A(1)
    using gt(3) A(2) by simp
  show ?thesis
  proof (cases "is_elf D")
    case False
    then show ?thesis by (simp add: start memory_elf_def st1_def)
  next
    case True
    then have len: "7 \<le> length D" by (simp add: is_elf_def)
    have id: "read_bytes ?img 7 st1 = Some (take 7 D)" using read [of 7] len by simp
    show ?thesis
      unfolding start id Option.bind.simps
      using True len
      by (auto simp: st1_def ident_error_take memory_elf_def libelf_release_elf_def libelf_init_elf_def set_elf_def
          set_error_os_def new_elf_def split: option.split)
  qed
qed


section \<open>Archives as they are written\<close>

text \<open>
  A member is a header and its data, which is padded to an even length.  What the traversal
  needs: the size in the header is that of the data, the name is not an extended BSD name,
  and the data is something that can be opened.
\<close>

definition member_bytes :: "byte list \<times> byte list \<Rightarrow> byte list" where
  "member_bytes m = fst m @ snd m @ (if odd (length (snd m)) then [0x0A] else [])"

definition members_bytes :: "(byte list \<times> byte list) list \<Rightarrow> byte list" where
  "members_bytes ms = concat (map member_bytes ms)"

definition good_member :: "u32 \<Rightarrow> byte list \<times> byte list \<Rightarrow> bool" where
  "good_member version m \<longleftrightarrow>
     length (fst m) = AR_HDR_SIZE \<and> snd m \<noteq> []
     \<and> libelf_ar_get_number (hdr_size (fst m)) 10 = Some (of_nat (length (snd m)))
     \<and> \<not> IS_EXTENDED_BSD_NAME (hdr_name (fst m))
     \<and> take SARMAG (snd m) \<noteq> ARMAG \<and> (is_elf (snd m) \<longrightarrow> ident_error (snd m) = None)"

definition member_offset :: "(byte list \<times> byte list) list \<Rightarrow> nat \<Rightarrow> nat" where
  "member_offset ms i = SARMAG + length (members_bytes (take i ms))"

lemma length_member_bytes:
  "length (fst m) = AR_HDR_SIZE \<Longrightarrow>
     length (member_bytes m) = AR_HDR_SIZE + 2 * ((length (snd m) + 1) div 2)"
  by (auto simp: member_bytes_def elim!: oddE evenE)

lemma member_offset_Suc:
  "i < length ms \<Longrightarrow> length (fst (ms ! i)) = AR_HDR_SIZE \<Longrightarrow>
     member_offset ms (Suc i) = member_offset ms i + AR_HDR_SIZE + 2 * ((length (snd (ms ! i)) + 1) div 2)"
  using length_member_bytes [of "ms ! i"]
  by (simp add: member_offset_def members_bytes_def take_Suc_conv_app_nth)

lemma member_offset_even: "list_all (good_member v) ms \<Longrightarrow> i \<le> length ms \<Longrightarrow> even (member_offset ms i)"
proof (induction i)
  case 0
  then show ?case by (simp add: member_offset_def members_bytes_def)
next
  case (Suc i)
  then have "good_member v (ms ! i)" by (simp add: list_all_length)
  then show ?case using Suc by (simp add: member_offset_Suc good_member_def)
qed

lemma member_at:
  assumes "i < length ms" "drop off S = ARMAG @ members_bytes ms @ R"
  shows "\<exists>R'. drop (off + member_offset ms i) S = member_bytes (ms ! i) @ R'"
proof -
  have "ms = take i ms @ ms ! i # drop (Suc i) ms" using assms(1) by (simp add: id_take_nth_drop)
  then have "members_bytes ms = members_bytes (take i ms) @ member_bytes (ms ! i) @ members_bytes (drop (Suc i) ms)"
    by (metis concat.simps(2) concat_append list.map(2) map_append members_bytes_def)
  moreover have "drop (off + member_offset ms i) S = drop (member_offset ms i) (ARMAG @ members_bytes ms @ R)"
    using arg_cong [OF assms(2), of "drop (member_offset ms i)"] by (simp only: drop_drop add.commute)
  moreover have "length (ARMAG @ members_bytes (take i ms)) = member_offset ms i"
    by (simp add: member_offset_def ARMAG_def)
  ultimately have "drop (off + member_offset ms i) S
      = member_bytes (ms ! i) @ members_bytes (drop (Suc i) ms) @ R"
    by (metis append.assoc append_eq_conv_conj)
  then show ?thesis by blast
qed

text \<open>Opening the member at offset \<open>pos\<close>.\<close>

lemma ptr_add_small: "off + unat k < 2 ^ 64 \<Longrightarrow> ptr_add (Some (b, off)) k = Some (b, off + unat k)"
  by (simp add: ptr_add_def)

lemma open_member_at:
  assumes "elfs st a = Some elf" "e_kind elf = ELF_K_AR" "e_rawfile elf = Some (b, off)" "mem st b = Some S"
    and "drop (off + pos) S = member_bytes m @ R" "good_member (libelf_version (globals st)) m"
    and "e_next elf = int pos" "pos \<noteq> 0" "even pos" "pos + AR_HDR_SIZE + length (snd m) < 2 ^ 63"
    and "off + pos + AR_HDR_SIZE + length (snd m) < 2 ^ 64" "libelf_version (globals st) \<noteq> EV_NONE" "oom st = []"
    and "a < fresh st"
  shows "\<exists>child st'. libelf_ar_open_member fd c a st = Some (Some (fresh st), st')
    \<and> e_rawfile child = Some (b, off + pos + AR_HDR_SIZE) \<and> e_rawsize child = of_nat (length (snd m))
    \<and> e_parent child = Some a \<and> e_hdr child = Rawhdr (Some (b, off + pos)) \<and> e_fd child = fd \<and> e_cmd child = c
    \<and> st' = st\<lparr>fresh := Suc (fresh st), elfs := (elfs st)(fresh st \<mapsto> child,
        a \<mapsto> elf\<lparr>e_nchildren := e_nchildren elf + 1\<rparr>)\<rparr>"
proof -
  obtain h d where m: "m = (h, d)" by (cases m)
  let ?p = "off + pos"
  have g: "length h = AR_HDR_SIZE" "d \<noteq> []" "libelf_ar_get_number (hdr_size h) 10 = Some (of_nat (length d))"
    "\<not> IS_EXTENDED_BSD_NAME (hdr_name h)" "take SARMAG d \<noteq> ARMAG" "is_elf d \<longrightarrow> ident_error d = None"
    using assms(6) by (simp_all add: m good_member_def)
  obtain R' where p: "drop ?p S = h @ d @ R'" using assms(5) by (auto simp: m member_bytes_def)
  have len: "length S - ?p = AR_HDR_SIZE + length d + length R'" using arg_cong [OF p, of length] g(1) by simp
  then have S: "?p + AR_HDR_SIZE + length d \<le> length S" using g(2) by simp
  have d: "drop (?p + AR_HDR_SIZE) S = d @ R'"
    using arg_cong [OF p, of "drop AR_HDR_SIZE"] g(1) by (simp add: add.commute)
  have pos: "pos < 2 ^ 64" "0 < pos" using assms(8,10) by simp_all
  have next0: "(of_int (e_next elf) :: u64) = of_nat pos" "unat (of_nat pos :: u64) = pos"
    using pos assms(7) by (simp_all add: unat_of_nat take_bit_nat_eq_self)
  have next1: "(of_nat pos :: u64) \<noteq> 0" using next0(2) pos(2) by (metis less_irrefl unat_0)
  have ev: "(of_nat pos :: u64) AND 1 = 0"
  proof -
    obtain k where "pos = 2 * k" using assms(9) by blast
    then have "even (of_nat pos :: u64)" by simp
    then show ?thesis by (simp add: and_one_eq even_iff_mod_2_eq_zero)
  qed
  have arh: "ptr_add (e_rawfile elf) (of_nat pos) = Some (b, ?p)"
    using assms(3,11) ptr_add_small [of off "of_nat pos" b] next0(2) by simp
  have hdr: "drop 48 (drop ?p S) = drop 48 h @ d @ R'" "drop ?p S = h @ d @ R'" using p g(1) by simp_all
  have size: "read_bytes (ptr_add (Some (b, ?p)) 48) 10 st = Some (hdr_size h)"
  proof -
    have "unat (48 :: u64) = 48" by simp
    then have "ptr_add (Some (b, ?p)) 48 = Some (b, ?p + 48)" using assms(11) ptr_add_small [of ?p 48 b] by simp
    then show ?thesis using assms(4) S hdr(1) g(1) by (simp add: read_bytes_def hdr_size_def add.commute)
  qed
  have name: "read_bytes (Some (b, ?p)) 16 st = Some (hdr_name h)"
    using assms(4) S hdr(2) g(1) by (simp add: read_bytes_def hdr_name_def)
  have data: "ptr_add (Some (b, ?p)) (of_nat AR_HDR_SIZE + 0) = Some (b, ?p + AR_HDR_SIZE)"
    using assms(11) ptr_add_small [of ?p "of_nat AR_HDR_SIZE" b] by simp
  have n: "unat (of_nat (length d) :: u64) = length d" using assms(10) by (simp add: m unat_of_nat take_bit_nat_eq_self)
  then have n0: "(of_nat (length d) :: u64) \<noteq> 0" using g(2) by (metis length_0_conv unat_0)
  let ?v = "libelf_version (globals st)"
  obtain child0 where child0: "memory_elf ?v (Some (b, ?p + AR_HDR_SIZE)) (of_nat (length d)) d = Some child0"
    "e_rawfile child0 = Some (b, ?p + AR_HDR_SIZE)" "e_rawsize child0 = of_nat (length d)"
    using g(6) by (cases "is_elf d") (auto simp: memory_elf_def Let_def)
  have "libelf_memory (Some (b, ?p + AR_HDR_SIZE)) (of_nat (length d)) True st
      = Some (Some (fresh st), st\<lparr>fresh := Suc (fresh st), elfs := (elfs st)(fresh st \<mapsto> child0)\<rparr>)"
    using libelf_memory_object [OF assms(4) d n [symmetric] n0 assms(13) g(5)] child0(1) by simp
  then have mem: "elf_memory (Some (b, ?p + AR_HDR_SIZE)) (of_nat (length d)) st
      = Some (Some (fresh st), st\<lparr>fresh := Suc (fresh st), elfs := (elfs st)(fresh st \<mapsto> child0)\<rparr>)"
    using assms(12) n0 by (simp add: elf_memory_def memory_object_def)
  have ne: "a \<noteq> fresh st" using assms(14) by simp
  let ?child = "child0\<lparr>e_fd := fd, e_cmd := c, e_hdr := Rawhdr (Some (b, ?p)), e_parent := Some a\<rparr>"
  have "libelf_ar_open_member fd c a st = Some (Some (fresh st),
      st\<lparr>fresh := Suc (fresh st), elfs := (elfs st)(fresh st \<mapsto> ?child, a \<mapsto> elf\<lparr>e_nchildren := e_nchildren elf + 1\<rparr>)\<rparr>)"
    unfolding libelf_ar_open_member_def assms(1) Let_def Option.bind.simps next0(1) arh size name
    using assms(1,2) next1 ev g(3,4) ne by (simp add: data [simplified] mem set_elf_def fun_upd_twist)
  then show ?thesis using child0(2,3) by (intro exI [of _ ?child]) (simp add: m)
qed


text \<open>The state of a traversal: the archive descriptor, before member \<open>i\<close> is opened.\<close>

definition traversing ::
  "elf_ref \<Rightarrow> int \<Rightarrow> nat \<Rightarrow> nat \<Rightarrow> byte list \<Rightarrow> (byte list \<times> byte list) list \<Rightarrow> nat \<Rightarrow> store \<Rightarrow> bool"
where
  "traversing a fd b off S ms i st \<longleftrightarrow>
     (\<exists>elf R. elfs st a = Some elf \<and> e_kind elf = ELF_K_AR \<and> e_cmd elf = ELF_C_READ \<and> e_fd elf = fd
        \<and> e_rawfile elf = Some (b, off) \<and> e_rawsize elf = of_nat (member_offset ms (length ms))
        \<and> e_next elf = (if i < length ms then int (member_offset ms i) else 0)
        \<and> drop off S = ARMAG @ members_bytes ms @ R)
     \<and> mem st b = Some S \<and> i \<le> length ms \<and> list_all (good_member (libelf_version (globals st))) ms
     \<and> member_offset ms (length ms) < 2 ^ 62
     \<and> unat (base st b) + off + member_offset ms (length ms) < 2 ^ 64
     \<and> libelf_version (globals st) \<noteq> EV_NONE \<and> oom st = [] \<and> a < fresh st"

lemma member_offset_mono: "i \<le> j \<Longrightarrow> member_offset ms i \<le> member_offset ms j"
proof -
  assume "i \<le> j"
  then have "take j ms = take i ms @ take (j - i) (drop i ms)" by (metis add_diff_inverse_nat not_less take_add)
  then show ?thesis by (simp add: member_offset_def members_bytes_def)
qed

lemma round_even: "unat x + 1 < 2 ^ 64 \<Longrightarrow> unat ((x + 1) AND NOT 1 :: u64) = 2 * ((unat x + 1) div 2)"
proof -
  assume x: "unat x + 1 < 2 ^ 64"
  let ?y = "x + 1"
  have y: "unat ?y = unat x + 1" using x by (simp add: unat_add_small)
  have one: "unat (?y AND 1) = unat ?y mod 2" by (simp add: and_one_eq unat_mod)
  then have "?y AND 1 \<le> ?y" unfolding word_le_nat_alt by simp
  moreover have "?y AND NOT 1 = ?y AND NOT (?y AND 1)"
    by (simp add: bit.conj_disj_distrib)
  moreover have "?y - (?y AND 1) = ?y AND NOT (?y AND 1)"
    by (rule disjunctive_diff_eq_and_not) (simp flip: and.assoc)
  ultimately have "unat (?y AND NOT 1) = unat ?y - unat (?y AND 1)" by (metis unat_sub)
  then show ?thesis unfolding one y by (simp add: minus_mod_eq_mult_div)
qed

lemma traverse_step:
  assumes "traversing a fd b off S ms i st" "i < length ms"
  shows "\<exists>e st1 st2 child. elf_begin os fd ELF_C_READ (Some a) tr st = Some ((Some e, tr), st1)
    \<and> elfs st1 e = Some child \<and> e_rawfile child = Some (b, off + member_offset ms i + AR_HDR_SIZE)
    \<and> e_rawsize child = of_nat (length (snd (ms ! i)))
    \<and> elf_next (Some e) st1 = Some (ELF_C_READ, st2) \<and> traversing a fd b off S ms (Suc i) st2"
proof -
  let ?pos = "member_offset ms i" and ?d = "snd (ms ! i)"
  obtain elf R where elf: "elfs st a = Some elf" "e_kind elf = ELF_K_AR" "e_cmd elf = ELF_C_READ" "e_fd elf = fd"
    "e_rawfile elf = Some (b, off)" "e_rawsize elf = of_nat (member_offset ms (length ms))"
    "e_next elf = int ?pos" "drop off S = ARMAG @ members_bytes ms @ R"
    and st: "mem st b = Some S" "list_all (good_member (libelf_version (globals st))) ms"
    "member_offset ms (length ms) < 2 ^ 62" "unat (base st b) + off + member_offset ms (length ms) < 2 ^ 64"
    "libelf_version (globals st) \<noteq> EV_NONE" "oom st = []" "a < fresh st"
    using assms by (auto simp: traversing_def)
  have g: "good_member (libelf_version (globals st)) (ms ! i)" using st(2) assms(2) by (simp add: list_all_length)
  have suc: "member_offset ms (Suc i) = ?pos + AR_HDR_SIZE + 2 * ((length ?d + 1) div 2)"
    using member_offset_Suc [OF assms(2)] g by (simp add: good_member_def)
  have le: "member_offset ms (Suc i) \<le> member_offset ms (length ms)" using assms(2) by (intro member_offset_mono) simp
  have d: "length ?d \<le> 2 * ((length ?d + 1) div 2)" by arith
  obtain R' where at: "drop (off + ?pos) S = member_bytes (ms ! i) @ R'" using member_at [OF assms(2) elf(8)] by blast
  have pos: "?pos \<noteq> 0" "even ?pos" "?pos + AR_HDR_SIZE + length ?d < 2 ^ 62" "off + ?pos + AR_HDR_SIZE + length ?d < 2 ^ 64"
    using member_offset_even [OF st(2), of i] assms(2) suc le d st(3,4) by (simp_all add: member_offset_def)
  then have "?pos + AR_HDR_SIZE + length ?d < 2 ^ 63" by simp
  from open_member_at [OF elf(1,2,5) st(1) at g elf(7) pos(1,2) this pos(4) st(5-7), of fd ELF_C_READ]
  obtain child st1 where 1: "libelf_ar_open_member fd ELF_C_READ a st = Some (Some (fresh st), st1)"
    "e_rawfile child = Some (b, off + ?pos + AR_HDR_SIZE)" "e_rawsize child = of_nat (length ?d)" "e_parent child = Some a"
    "st1 = st\<lparr>fresh := Suc (fresh st), elfs := (elfs st)(fresh st \<mapsto> child,
        a \<mapsto> elf\<lparr>e_nchildren := e_nchildren elf + 1\<rparr>)\<rparr>" by blast
  have begin1: "elf_begin os fd ELF_C_READ (Some a) tr st = Some ((Some (fresh st), tr), st1)"
    using elf(1-4) st(5) 1(1) by (simp add: elf_begin_def)
  let ?elf = "elf\<lparr>e_nchildren := e_nchildren elf + 1\<rparr>"
  have e1: "elfs st1 (fresh st) = Some child" "elfs st1 a = Some ?elf" "base st1 = base st"
    using st(7) by (simp_all add: 1(5))
  let ?next = "(addr (e_rawfile child) st1 - addr (e_rawfile ?elf) st1 + e_rawsize child + 1) AND NOT 1"
  have bound: "unat (base st b) + (off + ?pos + AR_HDR_SIZE) < 2 ^ 64" "?pos + AR_HDR_SIZE < 2 ^ 64" "off < 2 ^ 64"
    "off + ?pos + AR_HDR_SIZE < 2 ^ 64"
    using suc le st(3,4) by simp_all
  have addr: "addr (e_rawfile child) st1 = base st b + of_nat (off + ?pos + AR_HDR_SIZE)"
    "addr (e_rawfile ?elf) st1 = base st b + of_nat off"
    using 1(2) elf(5) e1(3) by (simp_all add: addr_def)
  have gt: "addr (e_rawfile child) st1 > addr (e_rawfile ?elf) st1"
    unfolding addr word_less_nat_alt using bound by (simp add: unat_add_small unat_of_nat_u64 del: of_nat_add)
  have next1: "unat ?next = member_offset ms (Suc i)"
  proof -
    have x: "addr (e_rawfile child) st1 - addr (e_rawfile ?elf) st1 + e_rawsize child = of_nat (?pos + AR_HDR_SIZE + length ?d)"
      unfolding addr 1(3) by simp
    have "unat (of_nat (?pos + AR_HDR_SIZE + length ?d) :: u64) = ?pos + AR_HDR_SIZE + length ?d"
      using pos(3) by (intro unat_of_nat_u64) simp
    then have "unat ?next = 2 * ((?pos + AR_HDR_SIZE + length ?d + 1) div 2)"
      unfolding x using round_even [of "of_nat (?pos + AR_HDR_SIZE + length ?d)"] pos(3) by simp
    moreover obtain k where k: "?pos = 2 * k" using pos(2) by blast
    moreover have "(2 * k + AR_HDR_SIZE + length ?d + 1) div 2 = k + 30 + (length ?d + 1) div 2" by arith
    ultimately show ?thesis unfolding suc k by simp
  qed
  let ?st2 = "set_elf a (?elf\<lparr>e_next := (if sint ?next \<ge> sint (e_rawsize ?elf) then 0 else sint ?next)\<rparr>) st1"
  have "elf_next (Some (fresh st)) st1 = Some (ELF_C_READ, ?st2)"
    using e1 1(4) elf(2,3) gt by (simp add: elf_next_def Let_def)
  moreover have "traversing a fd b off S ms (Suc i) ?st2"
  proof -
    have small: "member_offset ms (Suc i) < 2 ^ 63" "member_offset ms (length ms) < 2 ^ 63" using le st(3) by simp_all
    have "sint ?next = int (member_offset ms (Suc i))" using small(1) sint_small [of ?next] unfolding next1 by simp
    moreover have "sint (e_rawsize elf) = int (member_offset ms (length ms))"
      using small(2) sint_small [of "e_rawsize elf"] by (simp add: elf(6) unat_of_nat_u64)
    moreover have "Suc i < length ms \<or> length ms = Suc i" using assms(2) by auto
    moreover have "member_offset ms (Suc i) < member_offset ms (length ms)" if "Suc i < length ms"
      using member_offset_Suc [OF that] st(2) that member_offset_mono [of "Suc (Suc i)" "length ms" ms]
      by (simp add: list_all_length good_member_def)
    ultimately have "(if sint ?next \<ge> sint (e_rawsize elf) then 0 else sint ?next)
        = (if Suc i < length ms then int (member_offset ms (Suc i)) else 0)"
      by (elim disjE) (simp_all add: not_le)
    then show ?thesis using elf st assms(2) by (simp add: traversing_def 1(5))
  qed
  ultimately show ?thesis using begin1 e1(1) 1(2,3) by blast
qed

text \<open>
  The traversal as an application writes it: open a member, ask for the next one, until
  there is none.  The result is what each member's descriptor refers to.
\<close>

fun archive_walk ::
  "nat \<Rightarrow> os \<Rightarrow> int \<Rightarrow> elf_ref \<Rightarrow> trace \<Rightarrow> store \<Rightarrow> (((ptr \<times> u64) list \<times> trace) \<times> store) option"
where
  "archive_walk 0 os fd a tr st = None"
| "archive_walk (Suc n) os fd a tr st =
     do { ((er, tr), st) \<leftarrow> elf_begin os fd ELF_C_READ (Some a) tr st;
          case er of None \<Rightarrow> Some (([], tr), st)
          | Some e \<Rightarrow>
              do { elf \<leftarrow> elfs st e;
                   (_, st) \<leftarrow> elf_next (Some e) st;
                   ((xs, tr), st) \<leftarrow> archive_walk n os fd a tr st;
                   Some (((e_rawfile elf, e_rawsize elf) # xs, tr), st) } }"

lemma traverse_end:
  assumes "traversing a fd b off S ms (length ms) st"
  shows "elf_begin os fd ELF_C_READ (Some a) tr st = Some ((None, tr), st)"
proof -
  obtain elf where "elfs st a = Some elf" "e_kind elf = ELF_K_AR" "e_cmd elf = ELF_C_READ" "e_fd elf = fd"
    "e_next elf = 0" "libelf_version (globals st) \<noteq> EV_NONE"
    using assms by (auto simp: traversing_def)
  then show ?thesis by (simp add: elf_begin_def libelf_ar_open_member_def)
qed

lemma archive_walk_members:
  assumes "traversing a fd b off S ms i st" "length ms - i < n"
  shows "\<exists>st'. archive_walk n os fd a tr st
    = Some ((map (\<lambda>k. (Some (b, off + member_offset ms k + AR_HDR_SIZE), of_nat (length (snd (ms ! k))))) [i..<length ms],
             tr), st')"
  using assms
proof (induction n arbitrary: i st)
  case (Suc n)
  show ?case
  proof (cases "i < length ms")
    case True
    from traverse_step [OF Suc.prems(1) True, of os tr]
    obtain e st1 st2 child where 1: "elf_begin os fd ELF_C_READ (Some a) tr st = Some ((Some e, tr), st1)"
      "elfs st1 e = Some child" "e_rawfile child = Some (b, off + member_offset ms i + AR_HDR_SIZE)"
      "e_rawsize child = of_nat (length (snd (ms ! i)))" "elf_next (Some e) st1 = Some (ELF_C_READ, st2)"
      "traversing a fd b off S ms (Suc i) st2" by blast
    then show ?thesis using Suc.IH [OF 1(6)] Suc.prems(2) True by (auto simp: upt_conv_Cons)
  next
    case False
    then have "i = length ms" using Suc.prems(1) by (simp add: traversing_def)
    then show ?thesis using traverse_end Suc.prems(1) by simp
  qed
qed simp

text \<open>
  What is at the other end of a pipe: \<open>rem tr\<close> is what it still has to send after the calls
  \<open>tr\<close>.  A \<open>read\<close> delivers some of it, at most what is asked for, and nothing only when nothing
  is left.
\<close>

definition drains :: "os \<Rightarrow> int \<Rightarrow> (trace \<Rightarrow> byte list) \<Rightarrow> bool" where
  "drains os fd rem \<longleftrightarrow>
     (\<forall>tr n. n \<noteq> 0 \<longrightarrow>
        (let r = os (tr @ [Read fd n])
         in r_value r = int (length (r_bytes r)) \<and> length (r_bytes r) \<le> unat n
            \<and> rem tr = r_bytes r @ rem (tr @ [Read fd n]) \<and> (r_bytes r = [] \<longrightarrow> rem tr = [])))"

lemma read_special_loop_drains:
  assumes "drains os fd rem" "oom st = []" "length data \<le> bufsz" "0 < bufsz" "bufsz \<le> 65536 \<or> bufsz \<le> 2 * length data"
    and "length (data @ rem tr) < 2 ^ 60"
  shows "\<exists>r bufsz' tr'. read_special_loop os fd data bufsz tr st = Some (((Some r, data @ rem tr, bufsz'), tr'), st)
    \<and> r_value r = 0"
  using assms(3-6)
proof (induction "length (rem tr)" arbitrary: data bufsz tr rule: less_induct)
  case less
  define bufsz1 where "bufsz1 = (if length data = bufsz then 2 * bufsz else bufsz)"
  define n where "n = bufsz1 - length data"
  define tr1 where "tr1 = tr @ [Read fd (of_nat n)]"
  define r where "r = os tr1"
  have n: "length data < bufsz1" "bufsz1 < 2 ^ 64" "bufsz1 \<le> 65536 \<or> bufsz1 \<le> 2 * length data"
    using less.prems by (auto simp: bufsz1_def)
  have "n < 2 ^ 64" using n(2) by (simp add: n_def)
  then have u: "unat (of_nat n :: u64) = n" by (rule unat_of_nat_u64)
  moreover have "0 < n" using n(1) by (simp add: n_def)
  ultimately have "(of_nat n :: u64) \<noteq> 0" by (metis unat_0 less_irrefl)
  then have r: "r_value r = int (length (r_bytes r))" "length (r_bytes r) \<le> n"
    "rem tr = r_bytes r @ rem tr1" "r_bytes r = [] \<longrightarrow> rem tr = []"
    using assms(1) u unfolding drains_def Let_def r_def tr1_def by metis+
  have "read_call os fd n tr = (r, r_bytes r, tr1)"
    using r(1) by (simp add: read_call_def call_def r_def tr1_def)
  then have step: "read_special_loop os fd data bufsz tr st
    = (if r_value r \<le> 0 then Some (((Some r, data, bufsz1), tr1), st)
       else read_special_loop os fd (data @ r_bytes r) bufsz1 tr1 st)"
    using assms(2)
    by (subst read_special_loop.simps) (simp only: Let_def n_def bufsz1_def alloc_ok_Nil if_cancel prod.case not_True_eq_False if_False)
  show ?case
  proof (cases "r_bytes r = []")
    case True
    then show ?thesis using step r(1,4) by auto
  next
    case False
    then have "length (rem tr1) < length (rem tr)" using r(3) by simp
    moreover have "length (data @ r_bytes r) \<le> bufsz1" using r(2) n(1) by (simp add: n_def)
    moreover have "0 < bufsz1" "bufsz1 \<le> 65536 \<or> bufsz1 \<le> 2 * length (data @ r_bytes r)" using n(1,3) by auto
    moreover have "length ((data @ r_bytes r) @ rem tr1) < 2 ^ 60" using less.prems(4) r(3) by simp
    ultimately obtain r' bufsz' tr' where
      "read_special_loop os fd (data @ r_bytes r) bufsz1 tr1 st = Some (((Some r', (data @ r_bytes r) @ rem tr1, bufsz'), tr'), st)"
      "r_value r' = 0" using less.hyps by blast
    then show ?thesis using step False r(1,3) by simp
  qed
qed

section \<open>Properties\<close>



definition demo_ar_hdr :: "byte \<Rightarrow> byte list" where
  "demo_ar_hdr d = replicate 48 0x20 @ [d] @ replicate 9 0x20 @ [0x60, 0x0A]"

definition demo_members :: "(byte list \<times> byte list) list" where
  "demo_members = [(demo_ar_hdr 0x31, [7]), (demo_ar_hdr 0x32, [8, 9])]"

definition demo_walk_store :: store where
  "demo_walk_store = (initial_store ELFDATA2LSB (\<lambda>b. of_nat (4096 * Suc b)))
     \<lparr>globals := (globals demo_ar_store)\<lparr>libelf_version := EV_CURRENT\<rparr>,
      mem := [0 \<mapsto> ARMAG @ members_bytes demo_members],
      elfs := [0 \<mapsto> (new_elf EV_CURRENT)\<lparr>e_kind := ELF_K_AR, e_cmd := ELF_C_READ, e_fd := 3, e_rawfile := Some (0, 0),
        e_rawsize := 132, e_next := 8\<rparr>], fresh := 1\<rparr>"

lemma demo_traversing: "traversing 0 3 0 0 (ARMAG @ members_bytes demo_members) demo_members 0 demo_walk_store"
proof -
  have len: "length (demo_ar_hdr d) = 60" "hdr_size (demo_ar_hdr d) = d # replicate 9 0x20"
    "hdr_name (demo_ar_hdr d) = replicate 16 0x20" for d
    by (simp_all add: demo_ar_hdr_def hdr_size_def hdr_name_def take_replicate)
  then have off: "member_offset demo_members 0 = 8" "member_offset demo_members (length demo_members) = 132"
    by (simp_all add: member_offset_def members_bytes_def member_bytes_def demo_members_def)
  have "digits 10 1 = [0x31]" "digits 10 2 = [0x32]" by (simp_all add: digits.simps)
  then have num: "libelf_ar_get_number (0x31 # replicate 9 0x20) 10 = Some 1"
    "libelf_ar_get_number (0x32 # replicate 9 0x20) 10 = Some 2"
    using get_number_digits [of 10 "replicate 9 0x20" 0 1] get_number_digits [of 10 "replicate 9 0x20" 0 2] by simp_all
  have "\<not> IS_EXTENDED_BSD_NAME (replicate 16 0x20)" by (simp add: IS_EXTENDED_BSD_NAME_def numeral_3_eq_3)
  then have "good_member v m" if "m \<in> set demo_members" for v m
    using that len num by (auto simp: demo_members_def good_member_def ARMAG_def is_elf_def)
  then show ?thesis
    using off by (simp add: traversing_def demo_walk_store_def initial_store_def demo_members_def list_all_iff)
qed


text \<open>
  C23. Reading a pipe, socket or device comes to an end when the other end stops sending, in
  whatever pieces the data arrive: the block returned holds all the data, in order.
\<close>

theorem special_file_is_read_to_its_end:
  assumes "drains os fd rem" "oom st = []" "length (rem tr) < 2 ^ 60" "rem tr \<noteq> []"
  shows "\<exists>b tr' st'. libelf_read_special_file os fd tr st = Some (((Some (b, 0), of_nat (length (rem tr))), tr'), st')
    \<and> mem st' b = Some (rem tr)"
proof -
  obtain r bufsz tr' where "read_special_loop os fd [] 65536 tr st = Some (((Some r, rem tr, bufsz), tr'), st)" "r_value r = 0"
    using read_special_loop_drains [OF assms(1,2), of "[]" 65536 tr] assms(3) by auto
  then show ?thesis using assms(2,4) by (auto simp: libelf_read_special_file_def Let_def)
qed

definition demo_stream :: "byte list" where
  "demo_stream = [1, 2, 3]"

definition demo_pipe :: os where
  "demo_pipe tr =
     (let bs = take 1 (drop (length tr - 1) demo_stream)
      in \<lparr>r_value = int (length bs), r_errno = 0, r_bytes = bs, r_mode = Fifo, r_size = 0\<rparr>)"

theorem special_file_is_read_to_its_end_witness:
  "\<exists>b tr' st'. libelf_read_special_file demo_pipe 0 [] demo_walk_store = Some (((Some (b, 0), 3), tr'), st')
    \<and> mem st' b = Some [1, 2, 3]"
proof -
  have take1: "take (Suc 0) (drop k xs) @ drop (Suc k) xs = drop k xs" for k and xs :: "byte list"
    by (metis One_nat_def append_take_drop_id drop_drop plus_1_eq_Suc)
  have "1 \<le> unat n" if "n \<noteq> 0" for n :: u64 using that by (simp add: Suc_le_eq unat_gt_0)
  then have "drains demo_pipe 0 (\<lambda>tr. drop (length tr) demo_stream)"
    using le_trans by (auto simp: drains_def demo_pipe_def Let_def take1 min_le_iff_disj)
  then show ?thesis
    using special_file_is_read_to_its_end [of demo_pipe 0 "\<lambda>tr. drop (length tr) demo_stream" demo_walk_store "[]"]
    by (simp add: demo_walk_store_def initial_store_def demo_stream_def)
qed



end
