(* ===== verification/Spec2Isabelle.thy ===== *)
theory Spec2Isabelle
  imports Elf_Hash Eu_Crc Eu_Fshash Eu_Compress_Roundtrip Eu_Checksum Eu_Notes Eu_Flags Eu_Header_Facts Eu_Chains Gelf_Entries Elf_Written Elf_Open
begin

text \<open>
  A model of \<open>libelf\<close> of the ELF toolchain (\<open>src/elftoolchain_libelf/libelf\<close>), the library that
  reads, changes and writes ELF objects and \<open>ar\<close> archives, and of the second implementation of the
  same interface, that of elfutils (\<open>src/elfutils_libelf\<close>).

  \<^bold>\<open>The program.\<close>  A client opens an object with \<open>elf_begin\<close> or \<open>elf_memory\<close> and gets a descriptor
  (\<open>Elf\<close>).  From it hang the ELF header, the program header table, the sections (\<open>Elf_Scn\<close>) and
  their data descriptors (\<open>Elf_Data\<close>); all of them are brought in from the file when they are
  first asked for, by translation from the representation of the file to that of the host.
  The client may change them and add others; \<open>elf_update\<close> then computes the layout of the file
  and writes it.  The \<open>gelf_*\<close> functions give one view on 32-bit and 64-bit objects.  An archive
  is a descriptor whose members are opened one after the other as its children.

  \<^bold>\<open>State and effects.\<close>  One record \<open>store\<close> (theory \<open>Libelf_State\<close>) holds the library's globals, the
  heap of the three kinds of descriptor, the bytes of memory by block, and a list that decides
  which allocations fail.  An operation maps the store to \<open>(result, store) option\<close>: \<open>Some\<close> is a
  return of the C function, with \<open>NULL\<close>, 0 or -1 and the error number as the code sets them;
  \<open>None\<close> is a failed assertion or undefined behaviour (an access outside a block, a division by
  zero, a dangling reference).  So a property that states \<open>Some\<close> also states that the code does
  not fault.  Integers are words of the width of the C type; file offsets wrap around as \<open>uint64_t\<close>
  does.  The host is a 64-bit machine of either byte order, a field of the store.  The operating
  system is not part of the library: the operations that call it take a function \<open>os\<close> from the
  calls made so far to the reply, and return the trace of their calls (\<open>Libelf_OS\<close>).

  \<^bold>\<open>The theories\<close>, in the order of their dependence:
  \<^item> \<open>Libelf_Prelude\<close>: computations that may fault, bytes of words, arithmetic on words.
  \<^item> \<open>Elf_Types\<close>: constants, the ELF structures and the descriptors (\<open>elfdefinitions.h\<close>, \<open>libelf.h\<close>,
    \<open>_libelf.h\<close>).  Structures that differ between the classes only in the width of fields are one
    record with the width as a parameter.
  \<^item> \<open>Libelf_State\<close>: the store, errors, memory, allocation (\<open>elf.c\<close>, \<open>elf_errno.c\<close>, \<open>elf_errmsg.c\<close>,
    \<open>elf_version.c\<close>, \<open>elf_fill.c\<close>, \<open>libelf_allocate.c\<close>).
  \<^item> \<open>Elf_Sizes\<close>: the definitions of \<open>elf_types.m4\<close> and the sizes and alignments computed from them
    (\<open>libelf_fsize.m4\<close>, \<open>libelf_msize.m4\<close>, \<open>libelf_align.c\<close>, \<open>libelf_data.c\<close>, \<open>gelf_fsize.c\<close>).
  \<^item> \<open>Elf_Convert\<close>, \<open>Elf_Convert_Facts\<close>, \<open>Elf_Xlate\<close>: the converters of \<open>libelf_convert.m4\<close>, what they do
    to arrays of structures, and \<open>_libelf_xlate\<close> with its public forms (\<open>libelf_xlate.c\<close>,
    \<open>gelf_xlate.c\<close>).
  \<^item> \<open>Elf_Flags\<close>: \<open>elf_flag.c\<close>, with the contract of a flag operation as a locale.
  \<^item> \<open>Elf_Hash\<close>: \<open>elf_hash.c\<close> and, of \<open>src/elfutils_libelf/libelf\<close>, \<open>dl-hash.h\<close> and \<open>elf_gnu_hash.c\<close>.
  \<^item> \<open>Elf_Objects\<close>: structures as records and as bytes; the locale \<open>struct_codec\<close> is their round trip.
  \<^item> \<open>Elf_Header\<close>: the ELF header, extended numbering, counts and program headers
    (\<open>libelf_ehdr.c\<close>, \<open>libelf_extended.c\<close>, \<open>libelf_phdr.c\<close>, \<open>elf_phnum.c\<close>, \<open>elf_shnum.c\<close>, \<open>elf_shstrndx.c\<close>,
    \<open>gelf_ehdr.c\<close>, \<open>gelf_phdr.c\<close>); the locale \<open>number_setter\<close> is the contract of the three numbers that
    may escape into section header 0.
  \<^item> \<open>Elf_Sections\<close>: \<open>elf_scn.c\<close>, \<open>libelf_shdr.c\<close>, \<open>gelf_shdr.c\<close>; the locale
    \<open>numbered_sections\<close> is the contract of the list of sections.
  \<^item> \<open>Elf_Section_Data\<close>: \<open>elf_data.c\<close>, \<open>elf_strptr.c\<close>, \<open>libelf_checksum.c\<close>, \<open>gelf_checksum.c\<close>;
    the locale \<open>data_cursor\<close> is the iteration over the data of a section.
  \<^item> \<open>Gelf_Entries\<close>: entries of tables (\<open>gelf_sym.c\<close>, \<open>gelf_rel.c\<close>, \<open>gelf_rela.c\<close>, \<open>gelf_dyn.c\<close>,
    \<open>gelf_cap.c\<close>, \<open>gelf_move.c\<close>, \<open>gelf_syminfo.c\<close>, \<open>gelf_symshndx.c\<close>), which share one shape; the locale
    \<open>entry_type\<close> is the contract of an entry type, interpreted for every one of them.
  \<^item> \<open>Elf_Extents\<close>, \<open>Elf_Layout\<close>, \<open>Elf_Update\<close>: \<open>elf_update.c\<close>, from the list of extents over the layout of
    sections and tables to the image and the calls that write it; the locale \<open>region_set\<close> is the
    contract of a set of occupied file offsets, which the list of extents implements.
  \<^item> \<open>Elf_Image\<close>, \<open>Elf_Written\<close>: what the functions of \<open>elf_update.c\<close> write, piece by piece and as a
    whole, and that a reader of the file gets it back.
  \<^item> \<open>Elf_Archive\<close>: the headers and symbol tables of archives (\<open>libelf_ar_util.c\<close>, \<open>libelf_ar.c\<close>,
    \<open>elf_getarhdr.c\<close>, \<open>elf_getarsym.c\<close>).
  \<^item> \<open>Elf_Open\<close>: descriptors come and go, archives are traversed (\<open>libelf_memory.c\<close>, \<open>libelf_open.c\<close>,
    \<open>elf_begin.c\<close>, \<open>elf_end.c\<close>, \<open>elf_next.c\<close>, \<open>elf_rand.c\<close> and the small queries).

  The second library (\<open>src/elfutils_libelf/lib\<close> and \<open>libelf\<close>), whose theories are named \<open>Eu_\<close>:
  \<^item> \<open>Eu_Crc\<close>, \<open>Eu_Prime\<close>, \<open>Eu_Fshash\<close>: the support code: \<open>crc32.c\<close>, \<open>next_prime.c\<close> and the hash table of
    \<open>fixedsizehash.h\<close>, shown to be the CRC of its polynomial, the least prime and a finite map.
  \<^item> \<open>Eu_State\<close>: descriptors, blocks of sections and lists of data (\<open>libelfP.h\<close>), errors, version,
    queries (\<open>elf_error.c\<close>, \<open>elf_version.c\<close>, \<open>elf_fill.c\<close>, \<open>elf_kind.c\<close>, \<open>gelf_getclass.c\<close>,
    \<open>elf_getbase.c\<close>, \<open>elf_getident.c\<close>); its memory is that of \<open>Libelf_State\<close>.
  \<^item> \<open>Eu_Flags\<close>: the \<open>elf_flag*.c\<close> files.  \<open>Eu_Entries\<close>, \<open>Eu_Notes\<close>: table entries and notes
    (\<open>gelf_get*.c\<close>, \<open>gelf_update_*.c\<close>), compared with those of the first library.
  \<^item> \<open>Eu_Sections\<close>: the list of sections (\<open>elf_newscn.c\<close>, \<open>elf_getscn.c\<close>, \<open>elf_nextscn.c\<close>,
    \<open>elf_ndxscn.c\<close>), an instance of the locale \<open>numbered_sections\<close> of the first library too.
  \<^item> \<open>Eu_Headers\<close>, \<open>Eu_Header_Facts\<close>: ELF header, program headers and section headers, created, loaded,
    read and updated (\<open>elf32_getehdr.c\<close> to \<open>gelf_update_shdr.c\<close>).
  \<^item> \<open>Eu_Xlate\<close>, \<open>Eu_Xlate_Facts\<close>, \<open>Eu_Chains\<close>: conversion (\<open>gelf_xlate.c\<close>, \<open>version_xlate.h\<close>,
    \<open>gnuhash_xlate.h\<close>, \<open>note_xlate.h\<close>, \<open>chdr_xlate.h\<close>, \<open>elf32_xlatetom.c\<close>), its agreement with the
    first library, and chains of version records, which need not end.
  \<^item> \<open>Eu_Data\<close>, \<open>Eu_Data_Facts\<close>: raw and converted data (\<open>elf_getdata.c\<close>, \<open>elf_rawdata.c\<close>,
    \<open>elf_newdata.c\<close>).
  \<^item> \<open>Eu_Compress\<close>, \<open>Eu_Compress_Facts\<close>, \<open>Eu_Compress_Roundtrip\<close>: compressed sections
    (\<open>elf_compress.c\<close>, \<open>elf_compress_gnu.c\<close>, \<open>gelf_getchdr.c\<close>) and strings (\<open>elf_strptr.c\<close>); \<open>zlib\<close> is a
    record of functions, and \<open>zlib_ok\<close> states what its manual promises.
  \<^item> \<open>Eu_Checksum\<close>: \<open>elf32_checksum.c\<close>.

  \<^bold>\<open>What is shown.\<close>  Translation decodes and encodes arrays of structures of every fixed-size type,
  in place or between blocks, and is a bijection between file and host representation.  Headers,
  section headers, section data and symbols are those that the bytes of the file encode;
  what is written through the class-independent interface is read back; malformed tables are
  refused with the error the manual names.  Numbering, iteration and lookup of sections agree.
  The layout that \<open>elf_update\<close> computes keeps sections aligned, ordered and apart.  String lookup,
  checksum, archive numbers, archive symbols and the traversal of archives are compared with
  reference definitions on the bytes.  Loops that the code bounds by nothing but its data
  (\<open>partial_function\<close>) are shown to return.  Some properties show where the code does not do what
  its comments promise; they state the behaviour as it is.

  Of the second library, conversion and section headers agree with the first; note walks, entries
  and counts round trip; data read from a file stands for its bytes; a section compressed and
  decompressed has its data again; and crafted version data makes \<open>elf_getdata\<close> run for ever.

  \<^bold>\<open>Bounds.\<close>  In the first library loops are structural recursions, functions with a measure, or
  partial functions.  In the second the conversion of version records may not end, so the functions
  that convert or compress have a number of steps (\<open>outcome\<close>: \<open>Returned\<close>, \<open>Fault\<close> or \<open>Running\<close>); each
  property about a result says how many steps are enough (twice the number of bytes for chains, the
  number of buffers and the size of the compressed data for compression).  Properties about memory
  assume sizes well below \<open>2 ^ 64\<close>, for \<open>zlib\<close> below \<open>2 ^ 30\<close>, where the code's own sums would wrap
  around.

  \<^bold>\<open>Not modelled.\<close>  Machine-specific constants of \<open>elfdefinitions.h\<close> and \<open>elf.h\<close>; headers with
  prototypes only; \<open>uthash.h\<close> and \<open>utarray.h\<close>, which are third-party and which the library does not
  use; the example programs, which print; manual pages and build files.  Of the second library,
  opening and closing descriptors, archives and \<open>elf_update\<close>: the first library has a complete model
  of that interface.  Its locks: the model has one thread.
\<close>

end
